(* ===== verification/Prelude.thy ===== *)
theory Prelude
  imports "HOL-Library.Word" "HOL-Library.Monad_Syntax"
begin

text \<open>
  The shared base of the development: machine words and byte buffers, checked reads,
  big- and little-endian integers, and the interfaces (locales) that several components
  implement.

  A C++ buffer (\<open>const uint8_t*\<close> with a length, or \<open>std::vector<uint8_t>\<close>) is a
  \<^typ>\<open>8 word list\<close>; a null pointer is the empty buffer, which every caller-facing
  function rejects with the same branch. A read past the end of a buffer is undefined in
  C++: the readers below return \<^const>\<open>None\<close> there, so a decoder whose result is never
  \<^const>\<open>None\<close> reads only inside its input. A \<open>size_t\<close> is a \<^typ>\<open>nat\<close>: no length the
  code adds up comes near the machine's limit.
\<close>

unbundle bit_operations_syntax

type_synonym u8 = "8 word"
type_synonym u16 = "16 word"
type_synonym u32 = "32 word"
type_synonym u64 = "64 word"
type_synonym bytes = "u8 list"

named_theorems codec_simps \<open>definitions and read-back facts of the wire formats\<close>
named_theorems read_simps \<open>evaluation of checked reads\<close>
named_theorems inv_rules \<open>preservation rules of the components' invariants\<close>


section \<open>Bytes of a word\<close>

text \<open>\<open>static_cast<uint8_t>((value >> k) & 0xFF)\<close>\<close>

definition byte_at :: "nat \<Rightarrow> 'a::len word \<Rightarrow> u8" where
  "byte_at k v = ucast (drop_bit k v AND 0xFF)"

lemma byte_at_take_bit: "byte_at k v = ucast (take_bit 8 (drop_bit k v))"
proof -
  have "(0xFF :: 'a::len word) = mask 8"
    by (simp add: mask_eq_exp_minus_1)
  then show ?thesis
    by (simp add: byte_at_def take_bit_eq_mask)
qed

lemma bit_byte_at [simp]: "bit (byte_at k v) n \<longleftrightarrow> n < 8 \<and> bit v (k + n)"
proof -
  have "bit v (k + n) \<Longrightarrow> k + n < LENGTH('a)" for v :: "'a::len word"
    by (rule bit_imp_le_length)
  then show ?thesis
    by (fastforce simp: byte_at_take_bit bit_simps)
qed

lemma byte_at_of_u8 [simp]: "byte_at 0 (b :: u8) = b"
  by (rule bit_word_eqI) simp

lemma and_mask_id:
  assumes "unat b < 2 ^ n" and "m = mask n"
  shows "b AND m = (b :: 'a::len word)"
proof -
  have "take_bit n b = b"
    using assms by (simp add: unsigned_take_bit_eq take_bit_nat_eq_self word_unat_eq_iff)
  with assms(2) show ?thesis by (simp add: take_bit_eq_mask)
qed

lemma and_7F_id: "b \<le> 0x7F \<Longrightarrow> b AND 0x7F = (b :: u8)"
  by (rule and_mask_id [of _ 7]) (simp_all add: mask_eq_exp_minus_1 word_le_nat_alt)

lemma and_7F_le: "b AND 0x7F \<le> (0x7F :: u8)"
  by (rule word_and_le1)

text \<open>Joining bytes: \<open>(static_cast<uint32_t>(bytes[0]) << 24) | ...\<close>\<close>

definition be16_of :: "u8 \<Rightarrow> u8 \<Rightarrow> u16" where
  "be16_of a b = push_bit 8 (ucast a) OR ucast b"

definition be24_of :: "u8 \<Rightarrow> u8 \<Rightarrow> u8 \<Rightarrow> u32" where
  "be24_of a b c = push_bit 16 (ucast a) OR push_bit 8 (ucast b) OR ucast c"

definition be32_of :: "u8 \<Rightarrow> u8 \<Rightarrow> u8 \<Rightarrow> u8 \<Rightarrow> u32" where
  "be32_of a b c d =
     push_bit 24 (ucast a) OR push_bit 16 (ucast b) OR push_bit 8 (ucast c) OR ucast d"

definition be48_of :: "u8 \<Rightarrow> u8 \<Rightarrow> u8 \<Rightarrow> u8 \<Rightarrow> u8 \<Rightarrow> u8 \<Rightarrow> u64" where
  "be48_of a b c d e f =
     push_bit 40 (ucast a) OR push_bit 32 (ucast b) OR push_bit 24 (ucast c) OR
     push_bit 16 (ucast d) OR push_bit 8 (ucast e) OR ucast f"

definition le16_of :: "u8 \<Rightarrow> u8 \<Rightarrow> u16" where
  "le16_of a b = ucast a OR push_bit 8 (ucast b)"

definition le32_of :: "u8 \<Rightarrow> u8 \<Rightarrow> u8 \<Rightarrow> u8 \<Rightarrow> u32" where
  "le32_of a b c d =
     ucast a OR push_bit 8 (ucast b) OR push_bit 16 (ucast c) OR push_bit 24 (ucast d)"

definition join64 :: "u32 \<Rightarrow> u32 \<Rightarrow> u64" where
  "join64 hi lo = push_bit 32 (ucast hi) OR ucast lo"

lemma byte_cases4: "n < 32 \<Longrightarrow> n < 8 \<or> (8 \<le> n \<and> n < 16) \<or> (16 \<le> n \<and> n < 24) \<or> (24 \<le> n \<and> n < (32::nat))"
  by linarith

lemma bit_u8_high [simp]: "8 \<le> n \<Longrightarrow> \<not> bit (b :: u8) n"
  by (auto dest: bit_imp_le_length)

lemma be16_of_byte_at [simp]: "be16_of (byte_at 8 v) (byte_at 0 v) = v"
  by (rule bit_word_eqI) (auto simp: be16_of_def bit_simps not_less)

lemma be32_of_byte_at [simp]:
  "be32_of (byte_at 24 v) (byte_at 16 v) (byte_at 8 v) (byte_at 0 v) = v"
proof (rule bit_word_eqI)
  fix n assume "n < LENGTH(32)"
  then show "bit (be32_of (byte_at 24 v) (byte_at 16 v) (byte_at 8 v) (byte_at 0 v)) n = bit v n"
    using byte_cases4 [of n] by (auto simp: be32_of_def bit_simps)
qed

lemma be24_of_byte_at:
  assumes "v \<le> 0xFFFFFF"
  shows "be24_of (byte_at 16 v) (byte_at 8 v) (byte_at 0 v) = v"
proof (rule bit_word_eqI)
  fix n assume n: "n < LENGTH(32)"
  have "unat v < 2 ^ 24"
    using assms by (simp add: word_le_nat_alt)
  then have "take_bit 24 v = v"
    by (simp add: unsigned_take_bit_eq take_bit_nat_eq_self word_unat_eq_iff)
  then have high: "bit v n \<Longrightarrow> n < 24"
    by (metis bit_take_bit_iff)
  show "bit (be24_of (byte_at 16 v) (byte_at 8 v) (byte_at 0 v)) n = bit v n"
    using n byte_cases4 [of n] high by (auto simp: be24_of_def bit_simps)
qed

lemma be48_of_byte_at:
  "be48_of (byte_at 40 v) (byte_at 32 v) (byte_at 24 v) (byte_at 16 v) (byte_at 8 v) (byte_at 0 v)
     = take_bit 48 v"
proof (rule bit_word_eqI)
  fix n assume "n < LENGTH(64)"
  then have "n < 8 \<or> (8 \<le> n \<and> n < 16) \<or> (16 \<le> n \<and> n < 24) \<or> (24 \<le> n \<and> n < 32)
      \<or> (32 \<le> n \<and> n < 40) \<or> (40 \<le> n \<and> n < 48) \<or> 48 \<le> n"
    by linarith
  then show "bit (be48_of (byte_at 40 v) (byte_at 32 v) (byte_at 24 v) (byte_at 16 v)
      (byte_at 8 v) (byte_at 0 v)) n = bit (take_bit 48 v) n"
    by (elim disjE conjE) (auto simp: be48_of_def bit_simps not_less)
qed

lemma le16_of_byte_at [simp]: "le16_of (byte_at 0 v) (byte_at 8 v) = v"
  by (rule bit_word_eqI) (auto simp: le16_of_def bit_simps not_less)

lemma le32_of_byte_at [simp]:
  "le32_of (byte_at 0 v) (byte_at 8 v) (byte_at 16 v) (byte_at 24 v) = v"
proof (rule bit_word_eqI)
  fix n assume "n < LENGTH(32)"
  then show "bit (le32_of (byte_at 0 v) (byte_at 8 v) (byte_at 16 v) (byte_at 24 v)) n = bit v n"
    using byte_cases4 [of n] by (auto simp: le32_of_def bit_simps)
qed

lemma byte_at_be16_of [simp]:
  "byte_at 8 (be16_of a b) = a" "byte_at 0 (be16_of a b) = b"
  by (rule bit_word_eqI, auto simp: be16_of_def bit_simps)+

lemma byte_at_be24_of [simp]:
  "byte_at 16 (be24_of a b c) = a" "byte_at 8 (be24_of a b c) = b" "byte_at 0 (be24_of a b c) = c"
  by (rule bit_word_eqI, auto simp: be24_of_def bit_simps)+

lemma byte_at_be32_of [simp]:
  "byte_at 24 (be32_of a b c d) = a" "byte_at 16 (be32_of a b c d) = b"
  "byte_at 8 (be32_of a b c d) = c" "byte_at 0 (be32_of a b c d) = d"
  by (rule bit_word_eqI, auto simp: be32_of_def bit_simps)+

lemma byte_at_be48_of [simp]:
  "byte_at 40 (be48_of a b c d e f) = a" "byte_at 32 (be48_of a b c d e f) = b"
  "byte_at 24 (be48_of a b c d e f) = c" "byte_at 16 (be48_of a b c d e f) = d"
  "byte_at 8 (be48_of a b c d e f) = e" "byte_at 0 (be48_of a b c d e f) = f"
  by (rule bit_word_eqI, auto simp: be48_of_def bit_simps)+

lemma byte_at_le16_of [simp]:
  "byte_at 0 (le16_of a b) = a" "byte_at 8 (le16_of a b) = b"
  by (rule bit_word_eqI, auto simp: le16_of_def bit_simps)+

lemma byte_at_le32_of [simp]:
  "byte_at 0 (le32_of a b c d) = a" "byte_at 8 (le32_of a b c d) = b"
  "byte_at 16 (le32_of a b c d) = c" "byte_at 24 (le32_of a b c d) = d"
  by (rule bit_word_eqI, auto simp: le32_of_def bit_simps)+

lemma be24_of_le: "be24_of a b c \<le> 0xFFFFFF"
proof -
  have "take_bit 24 (be24_of a b c) = be24_of a b c"
    by (rule bit_word_eqI) (auto simp: be24_of_def bit_simps)
  then have "unat (be24_of a b c) < 2 ^ 24"
    by (metis take_bit_nat_eq_self_iff unsigned_take_bit_eq)
  then show ?thesis by (simp add: word_le_nat_alt)
qed

lemma join64_split [simp]: "join64 (ucast (drop_bit 32 v)) (ucast v) = v"
proof (rule bit_word_eqI)
  fix n assume "n < LENGTH(64)"
  then show "bit (join64 (ucast (drop_bit 32 v)) (ucast v)) n = bit v n"
    by (cases "n < 32") (auto simp: join64_def bit_simps)
qed


section \<open>Checked reads\<close>

definition rd8 :: "bytes \<Rightarrow> nat \<Rightarrow> u8 option" where
  "rd8 bs i = (if i < length bs then Some (bs ! i) else None)"

definition rd_be16 :: "bytes \<Rightarrow> nat \<Rightarrow> u16 option" where
  "rd_be16 bs i = do { a \<leftarrow> rd8 bs i; b \<leftarrow> rd8 bs (i + 1); Some (be16_of a b) }"

definition rd_be24 :: "bytes \<Rightarrow> nat \<Rightarrow> u32 option" where
  "rd_be24 bs i = do { a \<leftarrow> rd8 bs i; b \<leftarrow> rd8 bs (i + 1); c \<leftarrow> rd8 bs (i + 2);
     Some (be24_of a b c) }"

definition rd_be32 :: "bytes \<Rightarrow> nat \<Rightarrow> u32 option" where
  "rd_be32 bs i = do { a \<leftarrow> rd8 bs i; b \<leftarrow> rd8 bs (i + 1); c \<leftarrow> rd8 bs (i + 2);
     d \<leftarrow> rd8 bs (i + 3); Some (be32_of a b c d) }"

definition rd_be48 :: "bytes \<Rightarrow> nat \<Rightarrow> u64 option" where
  "rd_be48 bs i = do { a \<leftarrow> rd8 bs i; b \<leftarrow> rd8 bs (i + 1); c \<leftarrow> rd8 bs (i + 2);
     d \<leftarrow> rd8 bs (i + 3); e \<leftarrow> rd8 bs (i + 4); f \<leftarrow> rd8 bs (i + 5); Some (be48_of a b c d e f) }"

definition rd_be64 :: "bytes \<Rightarrow> nat \<Rightarrow> u64 option" where
  "rd_be64 bs i = do { hi \<leftarrow> rd_be32 bs i; lo \<leftarrow> rd_be32 bs (i + 4); Some (join64 hi lo) }"

definition rd_le16 :: "bytes \<Rightarrow> nat \<Rightarrow> u16 option" where
  "rd_le16 bs i = do { a \<leftarrow> rd8 bs i; b \<leftarrow> rd8 bs (i + 1); Some (le16_of a b) }"

definition rd_le32 :: "bytes \<Rightarrow> nat \<Rightarrow> u32 option" where
  "rd_le32 bs i = do { a \<leftarrow> rd8 bs i; b \<leftarrow> rd8 bs (i + 1); c \<leftarrow> rd8 bs (i + 2);
     d \<leftarrow> rd8 bs (i + 3); Some (le32_of a b c d) }"

definition rd_le64 :: "bytes \<Rightarrow> nat \<Rightarrow> u64 option" where
  "rd_le64 bs i = do { lo \<leftarrow> rd_le32 bs i; hi \<leftarrow> rd_le32 bs (i + 4); Some (join64 hi lo) }"

text \<open>\<open>v.assign(bytes + a, bytes + b)\<close>\<close>

definition subbuf :: "bytes \<Rightarrow> nat \<Rightarrow> nat \<Rightarrow> bytes option" where
  "subbuf bs a b = (if a \<le> b \<and> b \<le> length bs then Some (take (b - a) (drop a bs)) else None)"

lemma Suc_Suc_0_eq_2 [read_simps]: "Suc (Suc 0) = 2"
  by simp

lemma rd8_in [read_simps]: "i < length bs \<Longrightarrow> rd8 bs i = Some (bs ! i)"
  by (simp add: rd8_def)

lemma rd_be16_in [read_simps]:
  "i + 1 < length bs \<Longrightarrow> rd_be16 bs i = Some (be16_of (bs ! i) (bs ! (i + 1)))"
  by (simp add: rd_be16_def rd8_def)

lemma rd_be24_in [read_simps]:
  "i + 2 < length bs \<Longrightarrow> rd_be24 bs i = Some (be24_of (bs ! i) (bs ! (i + 1)) (bs ! (i + 2)))"
  by (simp add: rd_be24_def rd8_def)

lemma rd_be32_in [read_simps]:
  "i + 3 < length bs \<Longrightarrow>
     rd_be32 bs i = Some (be32_of (bs ! i) (bs ! (i + 1)) (bs ! (i + 2)) (bs ! (i + 3)))"
  by (simp add: rd_be32_def rd8_def)

lemma rd_be48_in [read_simps]:
  "i + 5 < length bs \<Longrightarrow>
     rd_be48 bs i = Some (be48_of (bs ! i) (bs ! (i + 1)) (bs ! (i + 2)) (bs ! (i + 3))
       (bs ! (i + 4)) (bs ! (i + 5)))"
  by (simp add: rd_be48_def rd8_def)

lemma rd_be64_in [read_simps]:
  "i + 7 < length bs \<Longrightarrow> rd_be64 bs i =
     Some (join64 (be32_of (bs ! i) (bs ! (i + 1)) (bs ! (i + 2)) (bs ! (i + 3)))
       (be32_of (bs ! (i + 4)) (bs ! (i + 5)) (bs ! (i + 6)) (bs ! (i + 7))))"
  by (simp add: rd_be64_def rd_be32_def rd8_def add.commute)

lemma rd_le16_in [read_simps]:
  "i + 1 < length bs \<Longrightarrow> rd_le16 bs i = Some (le16_of (bs ! i) (bs ! (i + 1)))"
  by (simp add: rd_le16_def rd8_def)

lemma rd_le32_in [read_simps]:
  "i + 3 < length bs \<Longrightarrow>
     rd_le32 bs i = Some (le32_of (bs ! i) (bs ! (i + 1)) (bs ! (i + 2)) (bs ! (i + 3)))"
  by (simp add: rd_le32_def rd8_def)

lemma rd_le64_in [read_simps]:
  "i + 7 < length bs \<Longrightarrow> rd_le64 bs i =
     Some (join64 (le32_of (bs ! (i + 4)) (bs ! (i + 5)) (bs ! (i + 6)) (bs ! (i + 7)))
       (le32_of (bs ! i) (bs ! (i + 1)) (bs ! (i + 2)) (bs ! (i + 3))))"
  by (simp add: rd_le64_def rd_le32_def rd8_def add.commute)

lemma subbuf_in [read_simps]:
  "a \<le> b \<Longrightarrow> b \<le> length bs \<Longrightarrow> subbuf bs a b = Some (take (b - a) (drop a bs))"
  by (simp add: subbuf_def)


text \<open>A buffer of known length, byte by byte: used to take a fixed header apart.\<close>

lemma header_bytes:
  "k \<le> n \<Longrightarrow> n \<le> length bs \<Longrightarrow> drop k bs = map ((!) bs) [k..<n] @ drop n bs"
  by (rule nth_equalityI) (auto simp: nth_append add.commute)

lemma header_bytes0:
  "2 \<le> n \<Longrightarrow> n \<le> length bs \<Longrightarrow> bs = bs ! 0 # bs ! 1 # map ((!) bs) [2..<n] @ drop n bs"
  using header_bytes [of 0 n bs] by (simp add: upt_conv_Cons numeral_2_eq_2)


section \<open>Integers on the wire\<close>

definition be16 :: "u16 \<Rightarrow> bytes" where
  "be16 v = [byte_at 8 v, byte_at 0 v]"

definition be24 :: "u32 \<Rightarrow> bytes" where
  "be24 v = [byte_at 16 v, byte_at 8 v, byte_at 0 v]"

definition be32 :: "u32 \<Rightarrow> bytes" where
  "be32 v = [byte_at 24 v, byte_at 16 v, byte_at 8 v, byte_at 0 v]"

definition be48 :: "u64 \<Rightarrow> bytes" where
  "be48 v = [byte_at 40 v, byte_at 32 v, byte_at 24 v, byte_at 16 v, byte_at 8 v, byte_at 0 v]"

definition be64 :: "u64 \<Rightarrow> bytes" where
  "be64 v = [byte_at 56 v, byte_at 48 v, byte_at 40 v, byte_at 32 v,
             byte_at 24 v, byte_at 16 v, byte_at 8 v, byte_at 0 v]"

definition le16 :: "u16 \<Rightarrow> bytes" where
  "le16 v = [byte_at 0 v, byte_at 8 v]"

definition le32 :: "u32 \<Rightarrow> bytes" where
  "le32 v = [byte_at 0 v, byte_at 8 v, byte_at 16 v, byte_at 24 v]"

lemma length_ints [simp]:
  "length (be16 v) = 2" "length (be24 w) = 3" "length (be32 w) = 4" "length (be48 x) = 6"
  "length (be64 x) = 8" "length (le16 v) = 2" "length (le32 w) = 4"
  by (simp_all add: be16_def be24_def be32_def be48_def be64_def le16_def le32_def)

lemma join64_byte_at [simp]:
  "join64 (be32_of (byte_at 56 v) (byte_at 48 v) (byte_at 40 v) (byte_at 32 v))
     (be32_of (byte_at 24 v) (byte_at 16 v) (byte_at 8 v) (byte_at 0 v)) = v"
proof -
  have hi: "byte_at (32 + k) v = byte_at k (ucast (drop_bit 32 v) :: u32)" if "k \<le> 24" for k
    by (rule bit_word_eqI) (use that in \<open>auto simp: bit_simps add.assoc\<close>)
  have lo: "byte_at k v = byte_at k (ucast v :: u32)" if "k \<le> 24" for k
    by (rule bit_word_eqI) (use that in \<open>auto simp: bit_simps\<close>)
  have "byte_at 56 v = byte_at 24 (ucast (drop_bit 32 v) :: u32)"
    and "byte_at 48 v = byte_at 16 (ucast (drop_bit 32 v) :: u32)"
    and "byte_at 40 v = byte_at 8 (ucast (drop_bit 32 v) :: u32)"
    and "byte_at 32 v = byte_at 0 (ucast (drop_bit 32 v) :: u32)"
    using hi [of 24] hi [of 16] hi [of 8] hi [of 0] by simp_all
  then show ?thesis
    using lo [of 24] lo [of 16] lo [of 8] lo [of 0] by simp
qed

text \<open>
  Reading back what was written, at any place of a buffer: the facts every round trip
  of a wire format rests on.
\<close>

lemma list_update_numeral_Cons [simp]:
  "(x # xs)[numeral k := y] = x # xs[pred_numeral k := y]"
  by (simp add: numeral_eq_Suc)

lemma replicate_numeral_Cons: "replicate (numeral k) x = x # replicate (pred_numeral k) x"
  by (simp add: numeral_eq_Suc)

lemma take_numeral_plus_Cons [simp]:
  "take (numeral k + n) (x # xs) = x # take (pred_numeral k + n) xs"
  by (simp add: numeral_eq_Suc)

lemma nth_middle: "i < length ys \<Longrightarrow> (xs @ ys @ zs) ! (length xs + i) = ys ! i"
  by (simp add: nth_append)

lemma rd8_middle [codec_simps]: "rd8 (xs @ b # zs) (length xs) = Some b"
  by (simp add: rd8_def)

lemma rd_be16_middle [codec_simps]: "rd_be16 (xs @ be16 v @ zs) (length xs) = Some v"
  by (simp add: rd_be16_def rd8_def be16_def nth_append)

lemma rd_be32_middle [codec_simps]: "rd_be32 (xs @ be32 v @ zs) (length xs) = Some v"
  by (simp add: rd_be32_def rd8_def be32_def nth_append)

lemma rd_be64_middle [codec_simps]: "rd_be64 (xs @ be64 v @ zs) (length xs) = Some v"
  by (simp add: rd_be64_def rd_be32_def rd8_def be64_def nth_append)

lemma subbuf_middle [codec_simps]:
  "n = length xs + length ys \<Longrightarrow> subbuf (xs @ ys @ zs) (length xs) n = Some ys"
  by (simp add: subbuf_def)

text \<open>Writing at an offset of a buffer the code has already sized.\<close>

definition put_list :: "bytes \<Rightarrow> nat \<Rightarrow> bytes \<Rightarrow> bytes" where
  "put_list buf off vs = take off buf @ vs @ drop (off + length vs) buf"

lemma length_put_list [simp]:
  "off + length vs \<le> length buf \<Longrightarrow> length (put_list buf off vs) = length buf"
  by (simp add: put_list_def)

definition put_be16 :: "bytes \<Rightarrow> nat \<Rightarrow> u16 \<Rightarrow> bytes" where
  "put_be16 buf off v = (buf[off := byte_at 8 v])[off + 1 := byte_at 0 v]"

definition put_be24 :: "bytes \<Rightarrow> nat \<Rightarrow> u32 \<Rightarrow> bytes" where
  "put_be24 buf off v =
     ((buf[off := byte_at 16 v])[off + 1 := byte_at 8 v])[off + 2 := byte_at 0 v]"

definition put_be32 :: "bytes \<Rightarrow> nat \<Rightarrow> u32 \<Rightarrow> bytes" where
  "put_be32 buf off v =
     (((buf[off := byte_at 24 v])[off + 1 := byte_at 16 v])[off + 2 := byte_at 8 v])
       [off + 3 := byte_at 0 v]"

definition put_le32 :: "bytes \<Rightarrow> nat \<Rightarrow> u32 \<Rightarrow> bytes" where
  "put_le32 buf off v =
     (((buf[off := byte_at 0 v])[off + 1 := byte_at 8 v])[off + 2 := byte_at 16 v])
       [off + 3 := byte_at 24 v]"

definition put_le64 :: "bytes \<Rightarrow> nat \<Rightarrow> u64 \<Rightarrow> bytes" where
  "put_le64 buf off v =
     put_le32 (put_le32 buf off (ucast (v AND 0xFFFFFFFF))) (off + 4)
       (ucast (drop_bit 32 v AND 0xFFFFFFFF))"

lemma length_puts [simp]:
  "length (put_be16 buf off v) = length buf" "length (put_be24 buf off w) = length buf"
  "length (put_be32 buf off w) = length buf" "length (put_le32 buf off w) = length buf"
  "length (put_le64 buf off x) = length buf"
  by (simp_all add: put_be16_def put_be24_def put_be32_def put_le32_def put_le64_def)

end
