(* ===== verification/Interfaces.thy ===== *)
theory Interfaces
  imports Prelude
begin

text \<open>
  The contracts several components share, as locales. Each is interpreted on the model of
  the component that provides it:
  \<^item> \<open>wire_codec\<close>: an encoder and a decoder of one message per datagram (RTP, control
    packets, relay stream data);
  \<^item> \<open>framed_codec\<close>: a codec whose decoder says how many bytes it took, so that messages
    can follow one another in a datagram (DTLS records);
  \<^item> \<open>reactive\<close>: an object whose public methods keep an invariant;
  \<^item> \<open>ordered_map\<close>: what the code relies on of \<open>std::map\<close>;
  \<^item> \<open>stream_cipher\<close>: the counter-mode ciphers of SRTP and of the signaling channel.
\<close>

section \<open>Codecs\<close>

locale wire_codec =
  fixes enc :: "'a \<Rightarrow> string + bytes"
    and dec :: "bytes \<Rightarrow> (string + 'a) option"
  assumes dec_enc: "enc m = Inr bs \<Longrightarrow> dec bs = Some (Inr m)"
    and dec_safe: "dec bs \<noteq> None"
begin

lemma enc_inj: "enc m = Inr bs \<Longrightarrow> enc m' = Inr bs \<Longrightarrow> m = m'"
  by (drule dec_enc)+ simp

lemma dec_outcome: "(\<exists>e. dec bs = Some (Inl e)) \<or> (\<exists>m. dec bs = Some (Inr m))"
proof (cases "dec bs")
  case None
  then show ?thesis using dec_safe by blast
next
  case (Some r)
  then show ?thesis by (cases r) auto
qed

end

locale framed_codec =
  fixes enc :: "'a \<Rightarrow> bytes"
    and dec :: "bytes \<Rightarrow> ('a \<times> nat) option option"
    and ok :: "'a \<Rightarrow> bool"
  assumes dec_enc: "ok m \<Longrightarrow> dec (enc m @ rest) = Some (Some (m, length (enc m)))"
    and dec_safe: "dec bs \<noteq> None"
    and dec_consumes: "dec bs = Some (Some (m, n)) \<Longrightarrow> 0 < n \<and> n \<le> length bs"

text \<open>
  The loop every receiver of such messages runs: decode at the front, advance by what was
  taken, stop at the first failure. The fuel bounds the iterations; \<open>length bs\<close> is enough
  since every message takes a byte.
\<close>

fun decode_stream :: "(bytes \<Rightarrow> ('a \<times> nat) option option) \<Rightarrow> nat \<Rightarrow> bytes \<Rightarrow> 'a list \<times> bytes" where
  "decode_stream dec 0 bs = ([], bs)"
| "decode_stream dec (Suc k) bs =
     (case dec bs of
        Some (Some (m, n)) \<Rightarrow> (case decode_stream dec k (drop n bs) of (ms, r) \<Rightarrow> (m # ms, r))
      | _ \<Rightarrow> ([], bs))"

context framed_codec
begin

lemma enc_nonempty: "ok m \<Longrightarrow> enc m \<noteq> []"
  using dec_enc [of m "[]"] dec_consumes [of "enc m"] by fastforce

lemma enc_prefix_free:
  assumes "ok m" and "ok m'" and "enc m @ r = enc m' @ r'"
  shows "m = m' \<and> r = r'"
proof -
  from dec_enc [OF assms(1), of r] dec_enc [OF assms(2), of r'] assms(3)
  have "m = m' \<and> length (enc m) = length (enc m')" by simp
  with assms(3) show ?thesis by simp
qed

lemma decode_stream_concat:
  assumes "\<forall>m \<in> set ms. ok m" and "length ms \<le> k"
  shows "decode_stream dec k (concat (map enc ms) @ rest)
           = (let (ms', r) = decode_stream dec (k - length ms) rest in (ms @ ms', r))"
  using assms
proof (induction ms arbitrary: k)
  case Nil
  then show ?case by simp
next
  case (Cons m ms)
  then obtain k' where k: "k = Suc k'" and "length ms \<le> k'"
    by (cases k) auto
  moreover have "dec (enc m @ (concat (map enc ms) @ rest))
      = Some (Some (m, length (enc m)))"
    using Cons.prems by (intro dec_enc) simp
  ultimately show ?case
    using Cons.IH [of k'] Cons.prems by (simp add: case_prod_beta Let_def)
qed

lemma decode_stream_fuel:
  "length bs \<le> k \<Longrightarrow> decode_stream dec k bs = decode_stream dec (length bs) bs"
proof (induction k arbitrary: bs rule: less_induct)
  case (less k)
  show ?case
  proof (cases "dec bs")
    case None
    then show ?thesis using dec_safe by blast
  next
    case (Some r)
    show ?thesis
    proof (cases r)
      case None
      with Some show ?thesis by (cases k; cases "length bs") auto
    next
      case (Some p)
      obtain m n where p: "p = (m, n)" by (cases p)
      with \<open>dec bs = Some r\<close> Some have d: "dec bs = Some (Some (m, n))" by simp
      then have n: "0 < n" "n \<le> length bs" using dec_consumes by blast+
      then obtain j where j: "length bs = Suc j" by (cases "length bs") auto
      with less.prems obtain k' where k': "k = Suc k'" and "j \<le> k'" by (cases k) auto
      have len: "length (drop n bs) \<le> j" using n j by simp
      have "decode_stream dec k' (drop n bs) = decode_stream dec (length (drop n bs)) (drop n bs)"
        using len \<open>j \<le> k'\<close> k' by (intro less.IH) auto
      moreover have
        "decode_stream dec j (drop n bs) = decode_stream dec (length (drop n bs)) (drop n bs)"
        using len \<open>j \<le> k'\<close> k' by (intro less.IH) auto
      ultimately show ?thesis using d j k' by simp
    qed
  qed
qed

end


section \<open>Objects with an invariant\<close>

text \<open>
  \<open>step\<close> is one call of a public method: the event names the method with its arguments,
  the result is the new state of the object. Whatever the callers do, in whatever order,
  the invariant holds.
\<close>

fun run_steps :: "('s \<Rightarrow> 'e \<Rightarrow> 's) \<Rightarrow> 's \<Rightarrow> 'e list \<Rightarrow> 's" where
  "run_steps step s [] = s"
| "run_steps step s (e # es) = run_steps step (step s e) es"

lemma run_steps_append [simp]:
  "run_steps step s (es @ fs) = run_steps step (run_steps step s es) fs"
  by (induction es arbitrary: s) auto

locale reactive =
  fixes step :: "'s \<Rightarrow> 'e \<Rightarrow> 's"
    and inv :: "'s \<Rightarrow> bool"
    and start :: "'s"
  assumes inv_start: "inv start"
    and inv_step: "inv s \<Longrightarrow> inv (step s e)"
begin

lemma inv_run_from: "inv s \<Longrightarrow> inv (run_steps step s es)"
  by (induction es arbitrary: s) (auto intro: inv_step)

lemma inv_run: "inv (run_steps step start es)"
  by (rule inv_run_from [OF inv_start])

end

text \<open>A quantity that no method decreases does not decrease over a run.\<close>

locale monotone_reactive = reactive +
  fixes level :: "'s \<Rightarrow> nat"
  assumes level_step: "inv s \<Longrightarrow> level s \<le> level (step s e)"
begin

lemma level_run: "inv s \<Longrightarrow> level s \<le> level (run_steps step s es)"
proof (induction es arbitrary: s)
  case Nil
  then show ?case by simp
next
  case (Cons e es)
  then have "level (step s e) \<le> level (run_steps step (step s e) es)"
    using inv_step by blast
  with level_step [OF Cons.prems, of e] show ?case by simp
qed

end


section \<open>Ordered maps\<close>

text \<open>The part of \<open>std::map<K, V>\<close> the code uses, keys in increasing order.\<close>

locale ordered_map =
  fixes find :: "'m \<Rightarrow> 'k::linorder \<Rightarrow> 'v option"
    and put :: "'k \<Rightarrow> 'v \<Rightarrow> 'm \<Rightarrow> 'm"
    and erase :: "'k \<Rightarrow> 'm \<Rightarrow> 'm"
    and erase_first :: "'m \<Rightarrow> 'm"
    and keys :: "'m \<Rightarrow> 'k list"
    and wf :: "'m \<Rightarrow> bool"
  assumes find_put: "wf m \<Longrightarrow> find (put k v m) = (find m)(k \<mapsto> v)"
    and find_erase: "wf m \<Longrightarrow> find (erase k m) = (find m)(k := None)"
    and keys_dom: "wf m \<Longrightarrow> set (keys m) = dom (find m)"
    and keys_sorted: "wf m \<Longrightarrow> sorted_wrt (<) (keys m)"
    and keys_erase_first: "wf m \<Longrightarrow> keys (erase_first m) = tl (keys m)"
    and wf_put: "wf m \<Longrightarrow> wf (put k v m)"
    and wf_erase: "wf m \<Longrightarrow> wf (erase k m)"
    and wf_erase_first: "wf m \<Longrightarrow> wf (erase_first m)"
begin

lemma keys_distinct: "wf m \<Longrightarrow> distinct (keys m)"
  using keys_sorted strict_sorted_iff by blast

lemma size_put:
  "wf m \<Longrightarrow> length (keys (put k v m)) = (if find m k = None then Suc (length (keys m)) else length (keys m))"
proof -
  assume wf: "wf m"
  then have s: "set (keys (put k v m)) = insert k (set (keys m))"
    by (simp add: keys_dom wf_put find_put)
  have "length (keys (put k v m)) = card (insert k (set (keys m)))"
    using s wf by (metis distinct_card keys_distinct wf_put)
  moreover have "k \<in> set (keys m) \<longleftrightarrow> find m k \<noteq> None"
    using wf by (auto simp: keys_dom)
  moreover have "card (set (keys m)) = length (keys m)"
    using wf by (simp add: distinct_card keys_distinct)
  ultimately show ?thesis by (simp add: card_insert_if)
qed

lemma size_erase_le: "wf m \<Longrightarrow> length (keys (erase k m)) \<le> length (keys m)"
proof -
  assume wf: "wf m"
  then have "set (keys (erase k m)) \<subseteq> set (keys m)"
    by (auto simp: keys_dom wf_erase find_erase)
  then have "card (set (keys (erase k m))) \<le> card (set (keys m))"
    by (simp add: card_mono)
  with wf show ?thesis
    by (simp add: distinct_card keys_distinct wf_erase)
qed

lemma first_is_min:
  assumes "wf m" and "keys m \<noteq> []" and "k \<in> dom (find m)"
  shows "hd (keys m) \<le> k"
proof -
  from assms have "k \<in> set (keys m)" by (simp add: keys_dom)
  with keys_sorted [OF assms(1)] assms(2) show ?thesis
    by (cases "keys m") auto
qed

end


section \<open>Stream ciphers\<close>

text \<open>
  Counter mode XORs the text with a key stream that depends on key and counter only, so one
  routine both encrypts and decrypts.
\<close>

locale stream_cipher =
  fixes xcrypt :: "'k \<Rightarrow> 'iv \<Rightarrow> bytes \<Rightarrow> bytes"
  assumes xcrypt_invol: "xcrypt k iv (xcrypt k iv m) = m"
    and xcrypt_length: "length (xcrypt k iv m) = length m"
    and xcrypt_xor:
      "length m = length m' \<Longrightarrow>
         map2 (XOR) (xcrypt k iv m) (xcrypt k iv m') = map2 (XOR) m m'"
begin

lemma xcrypt_inj: "xcrypt k iv m = xcrypt k iv m' \<Longrightarrow> m = m'"
  by (metis xcrypt_invol)

lemma xcrypt_onto: "\<exists>m. xcrypt k iv m = c"
  by (metis xcrypt_invol)

end

end
