(* ===== verification/RtpPacket.thy ===== *)
theory RtpPacket
  imports Interfaces
begin

text \<open>
  The RTP packet of the media plane and its codec: \<open>domain/voip_rtp_packet.h\<close> and
  \<open>domain/voip_rtp_packet.cpp\<close>. The header is the twelve bytes of RTP followed by Telegram's
  four (a flags byte and a 24-bit sequence or acknowledgement).
\<close>

record VoipRtpPacket =
  PayloadType :: u8
  SequenceNumber :: u16
  Timestamp :: u32
  Ssrc :: u32
  TelegramFlags :: u8
  TelegramSequenceOrAck :: u32
  Payload :: bytes

definition VoipRtpPacket_default :: VoipRtpPacket where
  "VoipRtpPacket_default = \<lparr>PayloadType = 96, SequenceNumber = 0, Timestamp = 0, Ssrc = 0,
     TelegramFlags = 0, TelegramSequenceOrAck = 0, Payload = []\<rparr>"

definition HeaderBytes :: nat where "HeaderBytes = 16"

definition MaxPayloadBytes :: nat where "MaxPayloadBytes = 1200"

definition rtp_encode :: "VoipRtpPacket \<Rightarrow> string + bytes" where
  "rtp_encode packet =
     (if Payload packet = [] then Inl ''RTP payload is empty''
      else if length (Payload packet) > MaxPayloadBytes then
        Inl ''RTP payload exceeds conservative UDP MTU budget''
      else if PayloadType packet > 127 then Inl ''RTP payload type must fit in 7 bits''
      else if TelegramSequenceOrAck packet > 0xFFFFFF then
        Inl ''Telegram RTP extension sequence/ack must fit in 24 bits''
      else
        (let b = replicate (HeaderBytes + length (Payload packet)) 0;
             b = b[0 := 0x80];
             b = b[1 := PayloadType packet AND 0x7F];
             b = put_be16 b 2 (SequenceNumber packet);
             b = put_be32 b 4 (Timestamp packet);
             b = put_be32 b 8 (Ssrc packet);
             b = b[12 := TelegramFlags packet];
             b = put_be24 b 13 (TelegramSequenceOrAck packet)
         in Inr (put_list b HeaderBytes (Payload packet))))"

definition rtp_decode :: "bytes \<Rightarrow> (string + VoipRtpPacket) option" where
  "rtp_decode bs =
     (if length bs < HeaderBytes then Some (Inl ''RTP packet is too short'')
      else do {
        b0 \<leftarrow> rd8 bs 0;
        let version = drop_bit 6 b0 AND 0x03;
        let csrcCount = b0 AND 0x0F;
        if version \<noteq> 2 then Some (Inl ''RTP version must be 2'')
        else if csrcCount \<noteq> 0 then
          Some (Inl ''RTP CSRC lists are not supported for Telegram calls'')
        else do {
          b1 \<leftarrow> rd8 bs 1;
          sn \<leftarrow> rd_be16 bs 2;
          ts \<leftarrow> rd_be32 bs 4;
          ssrc \<leftarrow> rd_be32 bs 8;
          fl \<leftarrow> rd8 bs 12;
          sq \<leftarrow> rd_be24 bs 13;
          pl \<leftarrow> subbuf bs HeaderBytes (length bs);
          if pl = [] then Some (Inl ''RTP payload is empty'')
          else if length pl > MaxPayloadBytes then
            Some (Inl ''RTP payload exceeds conservative UDP MTU budget'')
          else Some (Inr \<lparr>PayloadType = b1 AND 0x7F, SequenceNumber = sn, Timestamp = ts,
                 Ssrc = ssrc, TelegramFlags = fl, TelegramSequenceOrAck = sq, Payload = pl\<rparr>)
        }
      })"

text \<open>The packets the encoder accepts.\<close>

definition rtp_ok :: "VoipRtpPacket \<Rightarrow> bool" where
  "rtp_ok p \<longleftrightarrow> Payload p \<noteq> [] \<and> length (Payload p) \<le> MaxPayloadBytes \<and>
     PayloadType p \<le> 127 \<and> TelegramSequenceOrAck p \<le> 0xFFFFFF"

text \<open>The bytes on the wire, field after field.\<close>

definition rtp_layout :: "VoipRtpPacket \<Rightarrow> bytes" where
  "rtp_layout p = [0x80, PayloadType p AND 0x7F] @ be16 (SequenceNumber p) @ be32 (Timestamp p) @
     be32 (Ssrc p) @ [TelegramFlags p] @ be24 (TelegramSequenceOrAck p) @ Payload p"

lemma replicate_16: "replicate (16 + n) (0::u8) = replicate 16 0 @ replicate n 0"
  by (simp add: replicate_add)

lemma rtp_encode_ok:
  "rtp_ok p \<Longrightarrow> rtp_encode p = Inr (rtp_layout p)"
  by (simp add: rtp_ok_def rtp_encode_def rtp_layout_def HeaderBytes_def replicate_16 Let_def
      put_list_def put_be16_def put_be24_def put_be32_def be16_def be24_def be32_def
      eval_nat_numeral not_less)

lemma rtp_encode_Inr_iff: "rtp_encode p = Inr bs \<longleftrightarrow> rtp_ok p \<and> bs = rtp_layout p"
proof (cases "rtp_ok p")
  case True
  then show ?thesis by (auto simp: rtp_encode_ok)
next
  case False
  then show ?thesis by (auto simp: rtp_ok_def rtp_encode_def Let_def not_le)
qed

lemma rtp_decode_layout:
  assumes "rtp_ok p"
  shows "rtp_decode (rtp_layout p) = Some (Inr p)"
proof -
  have pt: "PayloadType p AND 0x7F = PayloadType p"
    using assms by (simp add: rtp_ok_def and_7F_id)
  have sq: "be24_of (byte_at 16 v) (byte_at 8 v) (byte_at 0 v) = v"
    if "v = TelegramSequenceOrAck p" for v
    using assms that by (simp add: rtp_ok_def be24_of_byte_at)
  have pl: "Payload p \<noteq> []" "length (Payload p) \<le> 1200"
    using assms by (simp_all add: rtp_ok_def MaxPayloadBytes_def)
  show ?thesis
    using pl
    by (simp add: rtp_decode_def rtp_layout_def read_simps HeaderBytes_def MaxPayloadBytes_def
        be16_def be24_def be32_def pt sq)
qed

lemma rtp_decode_safe: "rtp_decode bs \<noteq> None"
  by (simp add: rtp_decode_def read_simps HeaderBytes_def Let_def del: length_greater_0_conv)

lemma rtp_decode_Inr:
  assumes "rtp_decode bs = Some (Inr p)"
  shows "rtp_ok p" and "drop 2 (rtp_layout p) = drop 2 bs"
    and "drop_bit 6 (bs ! 0) AND 0x03 = 2" and "bs ! 0 AND 0x0F = 0"
    and "PayloadType p = bs ! 1 AND 0x7F" and "16 < length bs"
proof -
  have len: "16 \<le> length bs"
    using assms by (auto simp: rtp_decode_def HeaderBytes_def split: if_splits)
  have p: "p = \<lparr>PayloadType = bs ! 1 AND 0x7F, SequenceNumber = be16_of (bs ! 2) (bs ! 3),
      Timestamp = be32_of (bs ! 4) (bs ! 5) (bs ! 6) (bs ! 7),
      Ssrc = be32_of (bs ! 8) (bs ! 9) (bs ! 10) (bs ! 11), TelegramFlags = bs ! 12,
      TelegramSequenceOrAck = be24_of (bs ! 13) (bs ! 14) (bs ! 15), Payload = drop 16 bs\<rparr>"
    and pl: "drop 16 bs \<noteq> []" "length bs - 16 \<le> 1200"
    and hdr: "drop_bit 6 (bs ! 0) AND 0x03 = 2" "bs ! 0 AND 0x0F = 0"
    using assms len
    by (auto simp: rtp_decode_def read_simps HeaderBytes_def MaxPayloadBytes_def Let_def not_less
        simp del: length_greater_0_conv split: if_splits)
  show "rtp_ok p"
    using pl by (simp add: p rtp_ok_def MaxPayloadBytes_def and_7F_le be24_of_le)
  have "drop 2 bs = map ((!) bs) [2..<16] @ drop 16 bs" using len by (intro header_bytes) auto
  then show "drop 2 (rtp_layout p) = drop 2 bs"
    by (simp add: p rtp_layout_def be16_def be24_def be32_def)
  show "drop_bit 6 (bs ! 0) AND 0x03 = 2" "bs ! 0 AND 0x0F = 0" by fact+
  show "PayloadType p = bs ! 1 AND 0x7F" by (simp add: p)
  show "16 < length bs" using pl by simp
qed

interpretation rtp: wire_codec rtp_encode rtp_decode
proof
  fix m bs
  assume "rtp_encode m = Inr bs"
  then show "rtp_decode bs = Some (Inr m)"
    by (simp add: rtp_encode_Inr_iff rtp_decode_layout)
next
  fix bs
  show "rtp_decode bs \<noteq> None" by (rule rtp_decode_safe)
qed

lemmas rtp_facts = rtp_encode_Inr_iff rtp_decode_layout rtp_decode_safe

text \<open>An RTP packet the encoder accepts is read back unchanged by the decoder.\<close>

theorem rtp_roundtrip: "rtp_encode p = Inr bs \<Longrightarrow> rtp_decode bs = Some (Inr p)"
  by (rule rtp.dec_enc)

definition rtp_example :: VoipRtpPacket where
  "rtp_example = \<lparr>PayloadType = 111, SequenceNumber = 0xFFFF, Timestamp = 960, Ssrc = 0xDEADBEEF,
     TelegramFlags = 3, TelegramSequenceOrAck = 0xABCDEF, Payload = [1, 2, 3]\<rparr>"

theorem rtp_roundtrip_witness:
  "rtp_decode (rtp_layout rtp_example) = Some (Inr rtp_example)"
  by (rule rtp_roundtrip) (simp add: rtp_encode_ok rtp_ok_def rtp_example_def MaxPayloadBytes_def)

text \<open>
  Whatever datagram arrives, decoding it as RTP reads inside the datagram only, and
  what it accepts is a packet the encoder accepts, whose encoding differs from the datagram in
  the first two bytes only (padding, extension and marker bits).
\<close>

theorem rtp_decode_sound:
  "(\<exists>e. rtp_decode bs = Some (Inl e)) \<or>
   (\<exists>p h. rtp_decode bs = Some (Inr p) \<and> length h = 2 \<and>
      rtp_encode p = Inr (h @ drop 2 bs) \<and> h ! 0 = 0x80)"
proof (cases "\<exists>e. rtp_decode bs = Some (Inl e)")
  case False
  then obtain p where p: "rtp_decode bs = Some (Inr p)"
    using rtp.dec_outcome by blast
  let ?h = "[0x80, PayloadType p AND 0x7F]"
  have "rtp_layout p = ?h @ drop 2 (rtp_layout p)"
    by (simp add: rtp_layout_def)
  with rtp_decode_Inr(2) [OF p] have "rtp_layout p = ?h @ drop 2 bs" by simp
  with rtp_decode_Inr(1) [OF p] have "rtp_encode p = Inr (?h @ drop 2 bs)"
    by (simp add: rtp_encode_ok)
  with p show ?thesis by (intro disjI2 exI [of _ p] exI [of _ ?h]) simp
qed simp

end
