(* ===== verification/StreamData.thy ===== *)
theory StreamData
  imports Interfaces
begin

text \<open>
  Relay stream data (one Opus frame per packet): \<open>domain/voip_stream_data_packet.h\<close> and
  \<open>domain/voip_stream_data_packet.cpp\<close>. The first byte holds the six-bit stream id and two
  flags; the payload length takes one byte, or two little-endian bytes when it exceeds 255.
\<close>

record VoipStreamDataPacket =
  StreamId :: u8
  Timestamp :: u32
  OpusPayload :: bytes

definition StreamDataFlagLen16 :: u8 where "StreamDataFlagLen16 = 0x40"
definition StreamDataFlagHasMoreFlags :: u8 where "StreamDataFlagHasMoreFlags = 0x80"
definition StreamDataXFlagFragmented :: u16 where "StreamDataXFlagFragmented = push_bit 14 1"
definition StreamDataXFlagExtraFec :: u16 where "StreamDataXFlagExtraFec = push_bit 13 1"
definition StreamDataLengthMask :: u16 where "StreamDataLengthMask = 0x07FF"
definition MaxOpusPayloadBytes :: nat where "MaxOpusPayloadBytes = 1100"

lemmas stream_consts = StreamDataFlagLen16_def StreamDataFlagHasMoreFlags_def
  StreamDataXFlagFragmented_def StreamDataXFlagExtraFec_def StreamDataLengthMask_def
  MaxOpusPayloadBytes_def

definition encode_audio :: "u8 \<Rightarrow> u32 \<Rightarrow> bytes \<Rightarrow> string + bytes" where
  "encode_audio streamId timestamp opus =
     (if streamId = 0 \<or> streamId > 0x3F then Inl ''VoIP stream id must fit in 6 bits''
      else if length opus = 0 then Inl ''VoIP stream payload is empty''
      else if length opus > MaxOpusPayloadBytes then
        Inl ''VoIP stream payload exceeds relay MTU budget''
      else
        (let flags = (if length opus > 255 then StreamDataFlagLen16 else 0);
             b = [(streamId AND 0x3F) OR flags];
             b = b @ (if flags AND StreamDataFlagLen16 \<noteq> 0 then le16 (of_nat (length opus))
                      else [of_nat (length opus)]);
             b = b @ le32 timestamp
         in Inr (b @ opus)))"

text \<open>The decoder returns the packet and the bytes it took from the front of the buffer.\<close>

definition decode_one :: "bytes \<Rightarrow> (string + VoipStreamDataPacket \<times> bytes) option" where
  "decode_one bs =
     (if length bs < 6 then Some (Inl ''VoIP stream data packet is too short'')
      else do {
        streamAndFlags \<leftarrow> rd8 bs 0;
        let streamId = streamAndFlags AND 0x3F;
        let flags = streamAndFlags AND 0xC0;
        if streamId = 0 then Some (Inl ''VoIP stream id is zero'')
        else if flags AND StreamDataFlagHasMoreFlags \<noteq> 0 then
          Some (Inl ''VoIP extended stream flags are not supported yet'')
        else do {
          hdr \<leftarrow>
            (if flags AND StreamDataFlagLen16 \<noteq> 0 then
               (if length bs < 1 + 2 + 4 then
                  Some (Inl ''VoIP stream data packet is truncated before length16'')
                else do {
                  len \<leftarrow> rd_le16 bs 1;
                  if len AND StreamDataXFlagFragmented \<noteq> 0 then
                    Some (Inl ''VoIP fragmented stream data is not supported yet'')
                  else if len AND StreamDataXFlagExtraFec \<noteq> 0 then
                    Some (Inl ''VoIP extra FEC stream data is not supported yet'')
                  else Some (Inr (len AND StreamDataLengthMask, 3))
                })
             else do { len \<leftarrow> rd8 bs 1; Some (Inr (ucast len, 2)) });
          case hdr of
            Inl e \<Rightarrow> Some (Inl e)
          | Inr (payloadLength, offset) \<Rightarrow>
              if payloadLength = 0 then Some (Inl ''VoIP stream payload is empty'')
              else if unat payloadLength > MaxOpusPayloadBytes then
                Some (Inl ''VoIP stream payload exceeds relay MTU budget'')
              else if length bs < offset + 4 + unat payloadLength then
                Some (Inl ''VoIP stream payload is truncated'')
              else do {
                ts \<leftarrow> rd_le32 bs offset;
                pl \<leftarrow> subbuf bs (offset + 4) (offset + 4 + unat payloadLength);
                raw \<leftarrow> subbuf bs 0 (offset + 4 + unat payloadLength);
                Some (Inr (\<lparr>StreamId = streamId, Timestamp = ts, OpusPayload = pl\<rparr>, raw))
              }
        }
      })"

definition stream_ok :: "VoipStreamDataPacket \<Rightarrow> bool" where
  "stream_ok p \<longleftrightarrow> StreamId p \<noteq> 0 \<and> StreamId p \<le> 0x3F \<and> OpusPayload p \<noteq> [] \<and>
     length (OpusPayload p) \<le> MaxOpusPayloadBytes"

definition stream_encode :: "VoipStreamDataPacket \<Rightarrow> string + bytes" where
  "stream_encode p = encode_audio (StreamId p) (Timestamp p) (OpusPayload p)"

definition stream_decode :: "bytes \<Rightarrow> (string + VoipStreamDataPacket) option" where
  "stream_decode bs = map_option (map_sum id fst) (decode_one bs)"

lemma id6: "b \<le> 0x3F \<Longrightarrow> b AND 0x3F = (b :: u8)"
  by (rule and_mask_id [of _ 6]) (simp_all add: mask_eq_exp_minus_1 word_le_nat_alt)

lemma id6_flags:
  fixes b :: u8
  assumes "b \<le> 0x3F"
  shows "(b OR 0x40) AND 0x3F = b" "(b OR 0x40) AND 0xC0 = 0x40" "b AND 0xC0 = 0"
proof -
  have b: "b AND 0x3F = b" using assms by (rule id6)
  show "(b OR 0x40) AND 0x3F = b"
    by (simp add: bit.conj_disj_distrib2 b)
  have "b AND 0xC0 = (b AND 0x3F) AND 0xC0" by (simp add: b)
  also have "\<dots> = 0" by (simp add: and.assoc)
  finally show z: "b AND 0xC0 = 0" .
  show "(b OR 0x40) AND 0xC0 = 0x40"
    by (simp add: bit.conj_disj_distrib2 z)
qed

lemma len_word: "n \<le> 1100 \<Longrightarrow> unat (of_nat n :: u16) = n"
  by (simp add: unat_of_nat)

lemma len_word8: "n \<le> 255 \<Longrightarrow> unat (of_nat n :: u8) = n"
  by (simp add: unat_of_nat)

lemma len_ucast: "n \<le> 255 \<Longrightarrow> (ucast (of_nat n :: u8) :: u16) = of_nat n"
  by (simp add: word_unat_eq_iff unsigned_ucast_eq len_word len_word8 take_bit_nat_eq_self)

lemma len_nonzero: "n \<noteq> 0 \<Longrightarrow> n \<le> 1100 \<Longrightarrow> (of_nat n :: u16) \<noteq> 0"
  using len_word [of n] by auto

lemma len_mask:
  assumes "n \<le> 1100"
  shows "(of_nat n :: u16) AND 0x07FF = of_nat n" "(of_nat n :: u16) AND 0x4000 = 0"
    "(of_nat n :: u16) AND 0x2000 = 0"
proof -
  show m: "(of_nat n :: u16) AND 0x07FF = of_nat n"
    using assms by (intro and_mask_id [of _ 11]) (simp_all add: mask_eq_exp_minus_1 len_word)
  have "(of_nat n :: u16) AND 0x4000 = (of_nat n AND 0x07FF) AND 0x4000" by (simp add: m)
  then show "(of_nat n :: u16) AND 0x4000 = 0" by (simp add: and.assoc)
  have "(of_nat n :: u16) AND 0x2000 = (of_nat n AND 0x07FF) AND 0x2000" by (simp add: m)
  then show "(of_nat n :: u16) AND 0x2000 = 0" by (simp add: and.assoc)
qed

text \<open>The wire image of an accepted packet.\<close>

definition stream_layout :: "VoipStreamDataPacket \<Rightarrow> bytes" where
  "stream_layout p =
     (let n = length (OpusPayload p) in
      (if n > 255 then (StreamId p OR 0x40) # le16 (of_nat n) else [StreamId p, of_nat n]) @
      le32 (Timestamp p) @ OpusPayload p)"

lemma stream_encode_Inr_iff: "stream_encode p = Inr bs \<longleftrightarrow> stream_ok p \<and> bs = stream_layout p"
  by (auto simp: stream_encode_def encode_audio_def stream_ok_def stream_layout_def Let_def id6
      stream_consts not_less)

lemma decode_one_layout:
  assumes "stream_ok p"
  shows "decode_one (stream_layout p @ rest) = Some (Inr (p, stream_layout p))"
proof (cases "length (OpusPayload p) > 255")
  case True
  have len: "length (OpusPayload p) \<le> 1100" "StreamId p \<le> 0x3F" "StreamId p \<noteq> 0"
    using assms by (simp_all add: stream_ok_def stream_consts)
  with True have "(of_nat (length (OpusPayload p)) :: u16) \<noteq> 0"
    by (intro len_nonzero) auto
  with True len show ?thesis
    by (simp add: decode_one_def stream_layout_def Let_def read_simps stream_consts id6_flags
        le16_def le32_def len_mask len_word)
next
  case False
  have "OpusPayload p \<noteq> []" "StreamId p \<le> 0x3F" "StreamId p \<noteq> 0"
    using assms by (simp_all add: stream_ok_def)
  moreover from this False have "(of_nat (length (OpusPayload p)) :: u16) \<noteq> 0"
    by (intro len_nonzero) auto
  ultimately show ?thesis using False
    by (simp add: decode_one_def stream_layout_def Let_def read_simps stream_consts id6_flags id6
        le16_def le32_def len_ucast len_word)
qed

lemma decode_one_safe: "decode_one bs \<noteq> None"
proof -
  have "length bs < 6 \<Longrightarrow> ?thesis" by (simp add: decode_one_def)
  moreover have "?thesis" if "\<not> length bs < 6"
    using that by (auto simp: decode_one_def Let_def read_simps simp del: length_greater_0_conv
        split: sum.splits prod.splits)
  ultimately show ?thesis by blast
qed

lemma u16_zero_iff: "(w :: u16) = 0 \<longleftrightarrow> unat w = 0"
  by (simp add: word_unat_eq_iff)

lemma and_3F_le: "(b :: u8) AND 0x3F \<le> 0x3F"
  by (rule word_and_le1)

lemma decode_one_Inr:
  assumes "decode_one bs = Some (Inr (p, raw))"
  shows "stream_ok p" and "\<exists>rest. bs = raw @ rest" and "OpusPayload p = drop (length raw - length (OpusPayload p)) raw"
proof -
  have "\<not> length bs < 6" using assms by (auto simp: decode_one_def)
  then have *: "stream_ok p \<and> raw = take (length raw) bs \<and>
      OpusPayload p = drop (length raw - length (OpusPayload p)) raw"
    using assms
    by (auto simp: decode_one_def Let_def read_simps stream_ok_def and_3F_le not_less drop_take
        u16_zero_iff min_absorb2
        simp del: length_greater_0_conv unsigned_eq_0_iff split: if_splits sum.splits)
  then show "stream_ok p" "OpusPayload p = drop (length raw - length (OpusPayload p)) raw"
    by blast+
  from * show "\<exists>rest. bs = raw @ rest" by (metis append_take_drop_id)
qed

interpretation stream: wire_codec stream_encode stream_decode
proof
  fix m bs
  assume "stream_encode m = Inr bs"
  then show "stream_decode bs = Some (Inr m)"
    using decode_one_layout [of m "[]"] by (simp add: stream_encode_Inr_iff stream_decode_def)
next
  fix bs
  show "stream_decode bs \<noteq> None" by (simp add: stream_decode_def decode_one_safe)
qed

text \<open>
  Relay stream data survives a round trip: what the encoder accepts is decoded to the
  same stream id, timestamp and Opus frame, whatever bytes follow it in the buffer, and the
  decoder reports exactly the packet's own bytes as taken.
\<close>

theorem stream_data_roundtrip:
  assumes "encode_audio sid ts opus = Inr bs"
  shows "decode_one (bs @ rest) =
    Some (Inr (\<lparr>StreamId = sid, Timestamp = ts, OpusPayload = opus\<rparr>, bs))"
proof -
  let ?p = "\<lparr>StreamId = sid, Timestamp = ts, OpusPayload = opus\<rparr>"
  have "stream_encode ?p = Inr bs" using assms by (simp add: stream_encode_def)
  then show ?thesis by (simp add: stream_encode_Inr_iff decode_one_layout)
qed

theorem stream_data_roundtrip_witness:
  "decode_one (([0x41, 0x2C, 0x01, 0x78, 0x56, 0x34, 0x12] @ replicate 300 7) @ [9, 9]) =
     Some (Inr (\<lparr>StreamId = 1, Timestamp = 0x12345678, OpusPayload = replicate 300 7\<rparr>,
       [0x41, 0x2C, 0x01, 0x78, 0x56, 0x34, 0x12] @ replicate 300 7))"
  by (rule stream_data_roundtrip)
    (simp add: encode_audio_def stream_consts le16_def le32_def byte_at_def Let_def)

text \<open>
  Decoding relay stream data never reads outside the datagram; an accepted packet has
  a stream id in 1..63 and a frame of 1..1100 bytes, and its bytes are a prefix of the datagram
  that ends with the frame.
\<close>

theorem stream_decode_sound:
  "(\<exists>e. decode_one bs = Some (Inl e)) \<or>
   (\<exists>p hd rest. decode_one bs = Some (Inr (p, hd @ OpusPayload p)) \<and> stream_ok p \<and>
      bs = hd @ OpusPayload p @ rest)"
proof (cases "decode_one bs")
  case None
  then show ?thesis using decode_one_safe by blast
next
  case (Some r)
  show ?thesis
  proof (cases r)
    case (Inr q)
    then obtain p raw where d: "decode_one bs = Some (Inr (p, raw))"
      using Some by (cases q) auto
    from decode_one_Inr [OF d] obtain rest
      where "stream_ok p" "bs = raw @ rest" and
        "raw = take (length raw - length (OpusPayload p)) raw @ OpusPayload p"
      by (metis append_take_drop_id)
    with d show ?thesis by (metis append.assoc)
  qed (use Some in simp)
qed

end
