(* ===== verification/ControlPacket.thy ===== *)
theory ControlPacket
  imports Interfaces
begin

text \<open>
  The relay's control packets and the INIT / INIT_ACK payloads of the handshake:
  \<open>domain/voip_control_packet.h\<close> and \<open>domain/voip_control_packet.cpp\<close>.
\<close>

datatype VoipControlPacketType =
  Init | InitAck | StreamState | StreamData | UpdateStreams | Ping | Pong | StreamDataX2
| StreamDataX3 | LanEndpoint | NetworkChanged | SwitchPreferredRelay | SwitchToP2p | Nop | StreamEc

fun type_code :: "VoipControlPacketType \<Rightarrow> u8" where
  "type_code Init = 1"
| "type_code InitAck = 2"
| "type_code StreamState = 3"
| "type_code StreamData = 4"
| "type_code UpdateStreams = 5"
| "type_code Ping = 6"
| "type_code Pong = 7"
| "type_code StreamDataX2 = 8"
| "type_code StreamDataX3 = 9"
| "type_code LanEndpoint = 10"
| "type_code NetworkChanged = 11"
| "type_code SwitchPreferredRelay = 12"
| "type_code SwitchToP2p = 13"
| "type_code Nop = 14"
| "type_code StreamEc = 17"

definition all_types :: "VoipControlPacketType list" where
  "all_types = [Init, InitAck, StreamState, StreamData, UpdateStreams, Ping, Pong, StreamDataX2,
     StreamDataX3, LanEndpoint, NetworkChanged, SwitchPreferredRelay, SwitchToP2p, Nop, StreamEc]"

text \<open>\<open>static_cast<VoipControlPacketType>(byte)\<close>, for a byte that is one of the enumerators.\<close>

definition type_of_code :: "u8 \<Rightarrow> VoipControlPacketType option" where
  "type_of_code c = find (\<lambda>t. type_code t = c) all_types"

definition IsKnownType :: "u8 \<Rightarrow> bool" where
  "IsKnownType c \<longleftrightarrow> c \<in> {1, 2, 3, 4, 5, 6, 7, 8, 9, 10, 11, 12, 13, 14, 17}"

record VoipControlPacket =
  Type :: VoipControlPacketType
  AckSequence :: u32
  Sequence :: u32
  AckMask :: u32
  ExtraFlags :: u8
  Payload :: bytes

record VoipInitAckInfo =
  PeerVersion :: u32
  PeerMinVersion :: u32
  HasAudioOpusStream :: bool
  AudioStreamId :: u8
  FrameDurationMs :: u16
  AudioEnabled :: bool

definition ProtocolVersion :: u32 where "ProtocolVersion = 9"
definition MinProtocolVersion :: u32 where "MinProtocolVersion = 3"
definition StreamTypeAudio :: u8 where "StreamTypeAudio = 1"
definition DefaultAudioStreamId :: u8 where "DefaultAudioStreamId = 1"
definition DefaultAudioFrameDurationMs :: u16 where "DefaultAudioFrameDurationMs = 60"
definition HeaderBytes :: nat where "HeaderBytes = 14"
definition CodecOpus :: u32 where "CodecOpus = 0x4F505553"

lemmas control_consts = ProtocolVersion_def MinProtocolVersion_def StreamTypeAudio_def
  DefaultAudioStreamId_def DefaultAudioFrameDurationMs_def HeaderBytes_def CodecOpus_def

definition encode_short :: "VoipControlPacket \<Rightarrow> string + bytes" where
  "encode_short packet =
     (let type = type_code (Type packet) in
      if \<not> IsKnownType type then Inl ''VoIP control packet type is unknown''
      else if length (Payload packet) > 1100 then
        Inl ''VoIP control packet payload exceeds relay MTU budget''
      else Inr ([type] @ le32 (AckSequence packet) @ le32 (Sequence packet) @
             le32 (AckMask packet) @ [ExtraFlags packet] @ Payload packet))"

definition decode_short :: "bytes \<Rightarrow> (string + VoipControlPacket) option" where
  "decode_short bs =
     (if length bs < HeaderBytes then Some (Inl ''VoIP control packet is too short'')
      else do {
        b0 \<leftarrow> rd8 bs 0;
        if \<not> IsKnownType b0 then Some (Inl ''VoIP control packet type is unknown'')
        else do {
          t \<leftarrow> type_of_code b0;
          ack \<leftarrow> rd_le32 bs 1;
          sq \<leftarrow> rd_le32 bs 5;
          mask \<leftarrow> rd_le32 bs 9;
          ex \<leftarrow> rd8 bs 13;
          pl \<leftarrow> subbuf bs HeaderBytes (length bs);
          Some (Inr \<lparr>Type = t, AckSequence = ack, Sequence = sq, AckMask = mask,
            ExtraFlags = ex, Payload = pl\<rparr>)
        }
      })"

definition build_init_payload :: "bool \<Rightarrow> bytes" where
  "build_init_payload dataSavingEnabled =
     le32 ProtocolVersion @ le32 MinProtocolVersion @
     le32 (if dataSavingEnabled then 1 else 0) @
     [1] @ le32 CodecOpus @ [0] @ [0]"

definition build_init_ack_payload :: bytes where
  "build_init_ack_payload =
     le32 ProtocolVersion @ le32 MinProtocolVersion @
     [1] @ [DefaultAudioStreamId] @ [StreamTypeAudio] @ le32 CodecOpus @
     le16 DefaultAudioFrameDurationMs @ [1]"

definition HasBytes :: "nat \<Rightarrow> nat \<Rightarrow> nat \<Rightarrow> bool" where
  "HasBytes len offset count \<longleftrightarrow> offset \<le> len \<and> count \<le> len - offset"

text \<open>One pass of the loop over the stream descriptors, then the rest.\<close>

fun parse_streams :: "bytes \<Rightarrow> nat \<Rightarrow> nat \<Rightarrow> VoipInitAckInfo \<Rightarrow> (string + VoipInitAckInfo) option" where
  "parse_streams bs offset 0 ack = Some (Inr ack)"
| "parse_streams bs offset (Suc n) ack =
     (if \<not> HasBytes (length bs) offset (1 + 1 + 4 + 2 + 1) then
        Some (Inl ''VoIP INIT_ACK stream descriptor is truncated'')
      else do {
        streamId \<leftarrow> rd8 bs offset;
        streamType \<leftarrow> rd8 bs (offset + 1);
        codec \<leftarrow> rd_le32 bs (offset + 2);
        frameDuration \<leftarrow> rd_le16 bs (offset + 6);
        en \<leftarrow> rd8 bs (offset + 8);
        parse_streams bs (offset + 9) n
          (if streamType = StreamTypeAudio \<and> codec = CodecOpus \<and> en \<noteq> 0
           then ack\<lparr>HasAudioOpusStream := True, AudioStreamId := streamId,
                  FrameDurationMs := frameDuration, AudioEnabled := True\<rparr>
           else ack)
      })"

definition parse_init_ack_payload :: "bytes \<Rightarrow> (string + VoipInitAckInfo) option" where
  "parse_init_ack_payload bs =
     (if length bs < 9 then Some (Inl ''VoIP INIT_ACK payload is too short'')
      else do {
        peer \<leftarrow> rd_le32 bs 0;
        peerMin \<leftarrow> rd_le32 bs 4;
        if peerMin > ProtocolVersion \<or> peer < MinProtocolVersion then
          Some (Inl ''VoIP peer protocol version is incompatible'')
        else do {
          streamCount \<leftarrow> rd8 bs 8;
          parse_streams bs 9 (unat streamCount)
            \<lparr>PeerVersion = peer, PeerMinVersion = peerMin, HasAudioOpusStream = False,
             AudioStreamId = 0, FrameDurationMs = 0, AudioEnabled = False\<rparr>
        }
      })"

section \<open>The type byte\<close>

lemma IsKnownType_code: "IsKnownType (type_code t)"
  by (cases t) (simp_all add: IsKnownType_def)

lemma type_of_code_code: "type_of_code (type_code t) = Some t"
  by (cases t) (simp_all add: type_of_code_def all_types_def)

lemma IsKnownType_iff: "IsKnownType c \<longleftrightarrow> (\<exists>t. type_of_code c = Some t \<and> type_code t = c)"
  by (auto simp: IsKnownType_def type_of_code_def all_types_def)

section \<open>The packet codec\<close>

definition control_layout :: "VoipControlPacket \<Rightarrow> bytes" where
  "control_layout p = [type_code (Type p)] @ le32 (AckSequence p) @ le32 (Sequence p) @
     le32 (AckMask p) @ [ExtraFlags p] @ Payload p"

lemma encode_short_Inr_iff:
  "encode_short p = Inr bs \<longleftrightarrow> length (Payload p) \<le> 1100 \<and> bs = control_layout p"
  by (auto simp: encode_short_def control_layout_def Let_def IsKnownType_code)

lemma decode_short_layout: "decode_short (control_layout p) = Some (Inr p)"
  by (simp add: decode_short_def control_layout_def read_simps control_consts IsKnownType_code
      type_of_code_code le32_def)

lemma decode_short_safe: "decode_short bs \<noteq> None"
  by (auto simp: decode_short_def read_simps control_consts IsKnownType_iff
      simp del: length_greater_0_conv)

lemma decode_short_Inr:
  assumes "decode_short bs = Some (Inr p)"
  shows "control_layout p = bs"
proof -
  have len: "14 \<le> length bs"
    using assms by (auto simp: decode_short_def control_consts split: if_splits)
  then have p: "type_code (Type p) = bs ! 0" "AckSequence p = le32_of (bs ! 1) (bs ! 2) (bs ! 3) (bs ! 4)"
    "Sequence p = le32_of (bs ! 5) (bs ! 6) (bs ! 7) (bs ! 8)"
    "AckMask p = le32_of (bs ! 9) (bs ! 10) (bs ! 11) (bs ! 12)" "ExtraFlags p = bs ! 13"
    "Payload p = drop 14 bs"
    using assms
    by (auto simp: decode_short_def read_simps control_consts IsKnownType_iff
        simp del: length_greater_0_conv split: if_splits)
  show ?thesis
    using header_bytes0 [OF _ len, symmetric] by (simp add: control_layout_def p le32_def)
qed

interpretation control: wire_codec encode_short decode_short
  by unfold_locales (auto simp: encode_short_Inr_iff decode_short_layout decode_short_safe)

text \<open>
  Decoding a relay control packet is exact. Every datagram is either rejected or it
  is the encoding of the packet it is decoded to (and the encoder reproduces it whenever the
  payload is within the relay's budget); every packet the encoder accepts is decoded to itself.
\<close>

theorem control_packet_exact:
  "(case decode_short bs of
      None \<Rightarrow> False
    | Some (Inl e) \<Rightarrow> \<not> (14 \<le> length bs \<and> IsKnownType (bs ! 0))
    | Some (Inr p) \<Rightarrow> (case encode_short p of
        Inr bs' \<Rightarrow> bs' = bs \<and> decode_short bs' = Some (Inr p)
      | Inl e \<Rightarrow> length (Payload p) > 1100))"
proof (cases "decode_short bs")
  case None
  then show ?thesis using decode_short_safe by blast
next
  case (Some r)
  show ?thesis
  proof (cases r)
    case (Inl e)
    have "\<not> (14 \<le> length bs \<and> IsKnownType (bs ! 0))"
    proof
      assume "14 \<le> length bs \<and> IsKnownType (bs ! 0)"
      then have "\<exists>p. decode_short bs = Some (Inr p)"
        by (auto simp: decode_short_def read_simps control_consts IsKnownType_iff
            simp del: length_greater_0_conv)
      with Some Inl show False by simp
    qed
    with Some Inl show ?thesis by simp
  next
    case (Inr p)
    then have "control_layout p = bs" using Some decode_short_Inr by simp
    then show ?thesis
      using Some Inr by (auto simp: encode_short_def control_layout_def Let_def IsKnownType_code)
  qed
qed


section \<open>INIT and INIT_ACK\<close>

text \<open>A stream descriptor of INIT_ACK, as it lies in the payload, and the effect of one on the
  peer's capabilities.\<close>

record stream_desc =
  sd_id :: u8
  sd_type :: u8
  sd_codec :: u32
  sd_duration :: u16
  sd_enabled :: u8

definition desc_bytes :: "stream_desc \<Rightarrow> bytes" where
  "desc_bytes d = [sd_id d, sd_type d] @ le32 (sd_codec d) @ le16 (sd_duration d) @ [sd_enabled d]"

definition desc_opus :: "stream_desc \<Rightarrow> bool" where
  "desc_opus d \<longleftrightarrow> sd_type d = 1 \<and> sd_codec d = CodecOpus \<and> sd_enabled d \<noteq> 0"

definition apply_desc :: "VoipInitAckInfo \<Rightarrow> stream_desc \<Rightarrow> VoipInitAckInfo" where
  "apply_desc ack d = (if desc_opus d
     then ack\<lparr>HasAudioOpusStream := True, AudioStreamId := sd_id d,
            FrameDurationMs := sd_duration d, AudioEnabled := True\<rparr>
     else ack)"

lemma length_desc_bytes [simp]: "length (desc_bytes d) = 9"
  by (simp add: desc_bytes_def)

lemma rd_desc:
  "rd8 (xs @ desc_bytes d @ zs) (length xs) = Some (sd_id d)"
  "rd8 (xs @ desc_bytes d @ zs) (Suc (length xs)) = Some (sd_type d)"
  "rd_le32 (xs @ desc_bytes d @ zs) (Suc (Suc (length xs))) = Some (sd_codec d)"
  "rd_le16 (xs @ desc_bytes d @ zs) (length xs + 6) = Some (sd_duration d)"
  "rd8 (xs @ desc_bytes d @ zs) (length xs + 8) = Some (sd_enabled d)"
  by (simp_all add: rd8_def rd_le32_def rd_le16_def desc_bytes_def le32_def le16_def nth_append
      Suc_diff_le)

lemma parse_streams_descs:
  "parse_streams (xs @ concat (map desc_bytes ds) @ zs) (length xs) (length ds) ack
     = Some (Inr (foldl apply_desc ack ds))"
proof (induction ds arbitrary: xs ack)
  case Nil
  then show ?case by simp
next
  case (Cons d ds)
  have "parse_streams (xs @ concat (map desc_bytes (d # ds)) @ zs) (length xs) (length (d # ds)) ack
      = parse_streams ((xs @ desc_bytes d) @ concat (map desc_bytes ds) @ zs)
          (length (xs @ desc_bytes d)) (length ds) (apply_desc ack d)"
    by (simp add: HasBytes_def rd_desc apply_desc_def desc_opus_def StreamTypeAudio_def)
  then show ?case by (simp only: Cons.IH) simp
qed

lemma foldl_apply_desc_frame:
  "PeerVersion (foldl apply_desc ack ds) = PeerVersion ack \<and>
   PeerMinVersion (foldl apply_desc ack ds) = PeerMinVersion ack"
  by (induction ds arbitrary: ack) (simp_all add: apply_desc_def)

lemma foldl_apply_desc:
  "foldl apply_desc ack ds =
     (case filter desc_opus (rev ds) of
        [] \<Rightarrow> ack
      | d # _ \<Rightarrow> ack\<lparr>HasAudioOpusStream := True, AudioStreamId := sd_id d,
            FrameDurationMs := sd_duration d, AudioEnabled := True\<rparr>)"
  by (induction ds rule: rev_induct) (auto simp: apply_desc_def split: list.splits)

lemma parse_streams_safe: "parse_streams bs offset n ack \<noteq> None"
  by (induction bs offset n ack rule: parse_streams.induct) (auto simp: read_simps HasBytes_def)

lemma parse_streams_Inl_iff:
  "offset \<le> length bs \<Longrightarrow>
     (\<exists>e. parse_streams bs offset n ack = Some (Inl e)) \<longleftrightarrow> length bs < offset + 9 * n"
  by (induction bs offset n ack rule: parse_streams.induct) (auto simp: read_simps HasBytes_def)

text \<open>
  Parsing an INIT_ACK payload never reads outside it and fails in exactly three
  cases: fewer than nine bytes, an incompatible protocol version, or fewer bytes than the
  announced stream descriptors take.
\<close>

theorem parse_init_ack_outcome:
  "(case parse_init_ack_payload bs of
      None \<Rightarrow> False
    | Some r \<Rightarrow> isl r \<longleftrightarrow>
        length bs < 9 \<or>
        le32_of (bs ! 4) (bs ! 5) (bs ! 6) (bs ! 7) > 9 \<or>
        le32_of (bs ! 0) (bs ! 1) (bs ! 2) (bs ! 3) < 3 \<or>
        length bs < 9 + 9 * unat (bs ! 8))"
proof (cases "length bs < 9")
  case True
  then show ?thesis by (simp add: parse_init_ack_payload_def)
next
  case False
  let ?ack = "\<lparr>PeerVersion = le32_of (bs ! 0) (bs ! 1) (bs ! 2) (bs ! 3),
    PeerMinVersion = le32_of (bs ! 4) (bs ! 5) (bs ! 6) (bs ! 7), HasAudioOpusStream = False,
    AudioStreamId = 0, FrameDurationMs = 0, AudioEnabled = False\<rparr>"
  obtain r where r: "parse_streams bs 9 (unat (bs ! 8)) ?ack = Some r"
    using parse_streams_safe by blast
  have "isl r \<longleftrightarrow> length bs < 9 + 9 * unat (bs ! 8)"
    using parse_streams_Inl_iff [of 9 bs "unat (bs ! 8)" ?ack] False r by (cases r) auto
  with False r show ?thesis
    by (simp add: parse_init_ack_payload_def read_simps control_consts
        del: length_greater_0_conv)
qed

text \<open>
  For an INIT_ACK payload that announces a compatible version and a list of stream
  descriptors, the parser takes over the versions and selects the last enabled Opus audio stream
  of the list (its id and frame duration), or none when there is none.
\<close>

theorem parse_init_ack_selects_last:
  assumes "v \<ge> 3" and "mv \<le> 9" and "length ds < 256"
  shows "parse_init_ack_payload
      (le32 v @ le32 mv @ [of_nat (length ds)] @ concat (map desc_bytes ds) @ rest)
    = Some (Inr (case filter desc_opus (rev ds) of
        [] \<Rightarrow> \<lparr>PeerVersion = v, PeerMinVersion = mv, HasAudioOpusStream = False,
               AudioStreamId = 0, FrameDurationMs = 0, AudioEnabled = False\<rparr>
      | d # _ \<Rightarrow> \<lparr>PeerVersion = v, PeerMinVersion = mv, HasAudioOpusStream = True,
               AudioStreamId = sd_id d, FrameDurationMs = sd_duration d, AudioEnabled = True\<rparr>))"
proof -
  let ?pre = "le32 v @ le32 mv @ [of_nat (length ds)]"
  have n: "unat (of_nat (length ds) :: u8) = length ds"
    using assms(3) by (simp add: unat_of_nat)
  have v: "\<not> v < 3" "\<not> 9 < mv" using assms(1,2) by auto
  have "parse_init_ack_payload (?pre @ concat (map desc_bytes ds) @ rest) =
      parse_streams (?pre @ concat (map desc_bytes ds) @ rest) (length ?pre) (length ds)
        \<lparr>PeerVersion = v, PeerMinVersion = mv, HasAudioOpusStream = False,
         AudioStreamId = 0, FrameDurationMs = 0, AudioEnabled = False\<rparr>"
    using v by (simp add: parse_init_ack_payload_def read_simps le32_def control_consts n)
  also have "\<dots> = Some (Inr (foldl apply_desc \<lparr>PeerVersion = v, PeerMinVersion = mv,
      HasAudioOpusStream = False, AudioStreamId = 0, FrameDurationMs = 0, AudioEnabled = False\<rparr> ds))"
    by (rule parse_streams_descs)
  finally show ?thesis by (simp add: foldl_apply_desc split: list.splits)
qed

text \<open>The payload this client sends is one it accepts itself.\<close>

theorem parse_init_ack_selects_last_witness:
  "parse_init_ack_payload (build_init_ack_payload @ []) =
     Some (Inr \<lparr>PeerVersion = 9, PeerMinVersion = 3, HasAudioOpusStream = True,
       AudioStreamId = 1, FrameDurationMs = 60, AudioEnabled = True\<rparr>)"
  using parse_init_ack_selects_last [of 9 3 "[\<lparr>sd_id = 1, sd_type = 1, sd_codec = CodecOpus,
      sd_duration = 60, sd_enabled = 1\<rparr>]" "[]"]
  by (simp add: build_init_ack_payload_def control_consts desc_bytes_def desc_opus_def)

end
