(* ===== verification/Decimal.thy ===== *)
theory Decimal
  imports Prelude "HOL-Library.Char_ord"
begin

text \<open>
  The part of the C and C++ standard library the text formats use: printing integers
  (\<open>%u\<close>, \<open>ostream << int\<close>) and reading them (\<open>strtol\<close>, \<open>strtoul\<close>, \<open>sscanf\<close>). A
  \<open>std::string\<close> is a \<^typ>\<open>string\<close>, one \<^typ>\<open>char\<close> per byte; \<open>long\<close> has 32 bits, as on the
  target platform.
\<close>

definition digit_char :: "nat \<Rightarrow> char" where
  "digit_char d = char_of (48 + d)"

fun show_nat :: "nat \<Rightarrow> string" where
  "show_nat n = (if n < 10 then [digit_char n] else show_nat (n div 10) @ [digit_char (n mod 10)])"

declare show_nat.simps [simp del]

definition show_int :: "int \<Rightarrow> string" where
  "show_int i = (if i < 0 then CHR ''-'' # show_nat (nat (- i)) else show_nat (nat i))"

definition is_digit :: "char \<Rightarrow> bool" where
  "is_digit c \<longleftrightarrow> 48 \<le> (of_char c :: nat) \<and> (of_char c :: nat) \<le> 57"

definition digit_val :: "char \<Rightarrow> nat" where
  "digit_val c = of_char c - 48"

definition digits_val :: "string \<Rightarrow> nat" where
  "digits_val ds = foldl (\<lambda>v c. 10 * v + digit_val c) 0 ds"

text \<open>\<open>isspace\<close> in the C locale.\<close>

definition is_space :: "char \<Rightarrow> bool" where
  "is_space c \<longleftrightarrow> c = CHR '' '' \<or> (9 \<le> (of_char c :: nat) \<and> (of_char c :: nat) \<le> 13)"

text \<open>\<open>s.c_str()\<close>: C functions stop at the first NUL.\<close>

definition c_str :: "string \<Rightarrow> string" where
  "c_str s = takeWhile (\<lambda>c. c \<noteq> CHR 0x00) s"

fun read_sign :: "string \<Rightarrow> bool \<times> string" where
  "read_sign (c # s) = (if c = CHR ''-'' then (True, s) else if c = CHR ''+'' then (False, s)
     else (False, c # s))"
| "read_sign [] = (False, [])"

text \<open>
  The result is the value and the rest of the text (\<open>endp\<close>); without digits \<open>endp\<close> is the
  start. Out of range, \<open>strtol\<close> returns the nearest \<open>long\<close>, \<open>strtoul\<close> returns \<open>ULONG_MAX\<close>;
  \<open>strtoul\<close> negates modulo the word after a minus sign.
\<close>

definition strtol :: "string \<Rightarrow> int \<times> string" where
  "strtol s =
     (case read_sign (dropWhile is_space s) of (neg, u) \<Rightarrow>
        (let ds = takeWhile is_digit u in
         if ds = [] then (0, s)
         else ((let v = (if neg then - int (digits_val ds) else int (digits_val ds))
                in max (- (2 ^ 31)) (min (2 ^ 31 - 1) v)),
               dropWhile is_digit u)))"

definition strtoul :: "string \<Rightarrow> u32 \<times> string" where
  "strtoul s =
     (case read_sign (dropWhile is_space s) of (neg, u) \<Rightarrow>
        (let ds = takeWhile is_digit u in
         if ds = [] then (0, s)
         else ((if digits_val ds > 2 ^ 32 - 1 then 0xFFFFFFFF
                else if neg then - of_nat (digits_val ds) else of_nat (digits_val ds)),
               dropWhile is_digit u)))"

text \<open>
  One \<open>%u\<close> of \<open>sscanf\<close>. What it stores for a number that does not fit is not defined by the
  standard; the model keeps the number itself, so a range check that follows rejects it.
\<close>

definition scan_u :: "string \<Rightarrow> (int \<times> string) option" where
  "scan_u s =
     (case read_sign (dropWhile is_space s) of (neg, u) \<Rightarrow>
        (let ds = takeWhile is_digit u in
         if ds = [] then None
         else Some ((if neg then (- int (digits_val ds)) mod 2 ^ 32 else int (digits_val ds)),
                    dropWhile is_digit u)))"

fun scan_lit :: "char \<Rightarrow> string \<Rightarrow> string option" where
  "scan_lit c (d # s) = (if c = d then Some s else None)"
| "scan_lit c [] = None"


section \<open>Digits\<close>

lemma of_char_digit_char: "d < 10 \<Longrightarrow> (of_char (digit_char d) :: nat) = 48 + d"
  by (simp add: digit_char_def of_char_mod_256)

lemma is_digit_digit_char [simp]: "d < 10 \<Longrightarrow> is_digit (digit_char d)"
  by (simp add: is_digit_def of_char_digit_char)

lemma digit_val_digit_char [simp]: "d < 10 \<Longrightarrow> digit_val (digit_char d) = d"
  by (simp add: digit_val_def of_char_digit_char)

lemma digits_val_snoc [simp]: "digits_val (ds @ [c]) = 10 * digits_val ds + digit_val c"
  by (simp add: digits_val_def)

lemma show_nat_nonempty [simp]: "show_nat n \<noteq> []"
  by (subst show_nat.simps) simp

lemma show_nat_digits: "c \<in> set (show_nat n) \<Longrightarrow> is_digit c"
proof (induction n arbitrary: c rule: show_nat.induct)
  case (1 n)
  then show ?case
    by (subst (asm) (2) show_nat.simps) (auto split: if_splits)
qed

lemma digits_val_show_nat [simp]: "digits_val (show_nat n) = n"
proof (induction n rule: show_nat.induct)
  case (1 n)
  then show ?case
    by (subst show_nat.simps) (auto simp: digits_val_def)
qed

lemma digit_not_sign: "is_digit c \<Longrightarrow> c \<noteq> CHR ''-'' \<and> c \<noteq> CHR ''+'' \<and> \<not> is_space c \<and> c \<noteq> CHR 0x00"
  by (auto simp: is_digit_def is_space_def)

lemma hd_show_nat: "is_digit (hd (show_nat n))"
  using show_nat_digits [of "hd (show_nat n)" n] by simp

lemma takeWhile_show_nat:
  "(rest = [] \<or> \<not> is_digit (hd rest)) \<Longrightarrow> takeWhile is_digit (show_nat n @ rest) = show_nat n"
  by (cases rest) (simp_all add: takeWhile_append show_nat_digits takeWhile_eq_all_conv)

lemma dropWhile_show_nat:
  "(rest = [] \<or> \<not> is_digit (hd rest)) \<Longrightarrow> dropWhile is_digit (show_nat n @ rest) = rest"
  by (cases rest) (simp_all add: dropWhile_append show_nat_digits)

lemma lead_show_nat:
  "dropWhile is_space (show_nat n @ rest) = show_nat n @ rest"
  "read_sign (show_nat n @ rest) = (False, show_nat n @ rest)"
  using hd_show_nat [of n] digit_not_sign [of "hd (show_nat n)"]
  by (cases "show_nat n"; auto)+

lemma strtol_show_int:
  assumes "- (2 ^ 31) \<le> i" "i < 2 ^ 31" and "rest = [] \<or> \<not> is_digit (hd rest)"
  shows "strtol (show_int i @ rest) = (i, rest)"
proof (cases "i < 0")
  case True
  have "dropWhile is_space (CHR ''-'' # show_nat (nat (- i)) @ rest)
      = CHR ''-'' # show_nat (nat (- i)) @ rest"
    by (simp add: is_space_def)
  with True assms show ?thesis
    by (simp add: strtol_def show_int_def takeWhile_show_nat dropWhile_show_nat Let_def)
next
  case False
  with assms show ?thesis
    by (simp add: strtol_def show_int_def lead_show_nat takeWhile_show_nat dropWhile_show_nat
        Let_def)
qed

lemma strtoul_show_nat:
  assumes "rest = [] \<or> \<not> is_digit (hd rest)"
  shows "strtoul (show_nat (unat v) @ rest) = (v, rest)"
proof -
  have "unat v < 2 ^ LENGTH(32)" by (rule unsigned_less)
  then have "unat v \<le> 2 ^ 32 - 1" by simp
  with assms show ?thesis
    by (simp add: strtoul_def lead_show_nat takeWhile_show_nat dropWhile_show_nat)
qed

lemma scan_u_show_nat:
  "rest = [] \<or> \<not> is_digit (hd rest) \<Longrightarrow> scan_u (show_nat n @ rest) = Some (int n, rest)"
  by (simp add: scan_u_def lead_show_nat takeWhile_show_nat dropWhile_show_nat)

lemma show_int_chars: "c \<in> set (show_int i) \<Longrightarrow> is_digit c \<or> c = CHR ''-''"
  by (auto simp: show_int_def dest: show_nat_digits split: if_splits)

lemma show_int_nonempty [simp]: "show_int i \<noteq> []"
  by (simp add: show_int_def)


section \<open>Hexadecimal digits\<close>

definition hex_val :: "char \<Rightarrow> nat option" where
  "hex_val h = (let n = of_char h :: nat in
     if 48 \<le> n \<and> n \<le> 57 then Some (n - 48)
     else if 97 \<le> n \<and> n \<le> 102 then Some (n - 97 + 10)
     else if 65 \<le> n \<and> n \<le> 70 then Some (n - 65 + 10)
     else None)"

definition hex_digit :: "nat \<Rightarrow> char" where
  "hex_digit n = (if n < 10 then char_of (48 + n) else char_of (87 + n))"

lemma hex_val_digit: "n < 16 \<Longrightarrow> hex_val (hex_digit n) = Some n"
  by (auto simp: hex_val_def hex_digit_def of_char_mod_256 Let_def)


section \<open>Strings as bytes\<close>

definition bytes_of_string :: "string \<Rightarrow> bytes" where
  "bytes_of_string s = map (\<lambda>c. of_nat (of_char c)) s"

definition string_of_bytes :: "bytes \<Rightarrow> string" where
  "string_of_bytes bs = map (\<lambda>b. char_of (unat b)) bs"

lemma char_byte: "char_of (unat (of_nat (of_char c) :: u8)) = c"
proof -
  have "of_char c < (256 :: nat)" by simp
  then have "unat (of_nat (of_char c) :: u8) = of_char c" by (simp add: unat_of_nat)
  then show ?thesis by simp
qed

lemma string_of_bytes_of_string [simp]: "string_of_bytes (bytes_of_string s) = s"
  by (induction s) (simp_all add: string_of_bytes_def bytes_of_string_def char_byte del: unat_of_nat)

lemma length_bytes_of_string [simp]: "length (bytes_of_string s) = length s"
  by (simp add: bytes_of_string_def)

lemma bytes_of_string_Nil [simp]: "bytes_of_string s = [] \<longleftrightarrow> s = []"
  by (simp add: bytes_of_string_def)

lemma bytes_of_string_append [simp]:
  "bytes_of_string (s @ t) = bytes_of_string s @ bytes_of_string t"
  by (simp add: bytes_of_string_def)

lemma bytes_of_string_of_bytes [simp]: "bytes_of_string (string_of_bytes bs) = bs"
proof (induction bs)
  case Nil
  then show ?case by (simp add: string_of_bytes_def bytes_of_string_def)
next
  case (Cons b bs)
  have "unat b < 2 ^ LENGTH(8)" by (rule unsigned_less)
  then have "of_char (char_of (unat b)) = unat b" by simp
  with Cons show ?case by (simp add: string_of_bytes_def bytes_of_string_def)
qed

end
