(* ===== verification/ReflectorPacket.thy ===== *)
theory ReflectorPacket
  imports Decimal
begin

text \<open>
  The reflector's peer discovery and self-info datagrams:
  \<open>domain/voip_reflector_packet.h\<close> and \<open>domain/voip_reflector_packet.cpp\<close>.
\<close>

definition PeerTagBytes :: nat where "PeerTagBytes = 16"
definition DiscoveryRequestBytes :: nat where "DiscoveryRequestBytes = 32"
definition SelfInfoRequestBytes :: nat where "SelfInfoRequestBytes = 40"
definition SelfInfoResponseBytes :: nat where "SelfInfoResponseBytes = 64"
definition kAllBits32 :: u32 where "kAllBits32 = 0xFFFFFFFF"
definition kAllBits64 :: u64 where "kAllBits64 = 0xFFFFFFFFFFFFFFFF"
definition kSelfInfoMagic :: u32 where "kSelfInfoMagic = 0xC01572C7"
definition kMappedIpv4Padding :: u32 where "kMappedIpv4Padding = 0xFFFF0000"

lemmas reflector_consts = PeerTagBytes_def DiscoveryRequestBytes_def SelfInfoRequestBytes_def
  SelfInfoResponseBytes_def kAllBits32_def kAllBits64_def kSelfInfoMagic_def
  kMappedIpv4Padding_def

record VoipReflectorSelfInfo =
  PeerTag :: bytes
  Date :: u32  \<comment> \<open>\<open>int32_t\<close>: the two's complement reading of the word\<close>
  QueryId :: u64
  RawIpv4 :: u32
  Ipv4 :: string
  Port :: u16

definition HasPeerTag :: "bytes \<Rightarrow> bool" where
  "HasPeerTag peerTag \<longleftrightarrow> length peerTag = PeerTagBytes"

text \<open>The text always fits the 16-byte buffer of the code: see \<open>length_ipv4_text\<close> below.\<close>

definition Ipv4ToString :: "u32 \<Rightarrow> string" where
  "Ipv4ToString raw =
     show_nat (unat (raw AND 0xFF)) @ ''.'' @
     show_nat (unat (drop_bit 8 raw AND 0xFF)) @ ''.'' @
     show_nat (unat (drop_bit 16 raw AND 0xFF)) @ ''.'' @
     show_nat (unat (drop_bit 24 raw AND 0xFF))"

definition SamePeerTag :: "bytes \<Rightarrow> bytes \<Rightarrow> bool option" where
  "SamePeerTag bs expected =
     (if \<not> HasPeerTag expected then Some True
      else do { t \<leftarrow> subbuf bs 0 (length expected); Some (t = expected) })"

definition build_peer_discovery_request :: "bytes \<Rightarrow> string + bytes" where
  "build_peer_discovery_request peerTag =
     (if \<not> HasPeerTag peerTag then Inl ''reflector peer_tag must be exactly 16 bytes''
      else Inr (put_list (replicate DiscoveryRequestBytes 0xFF) 0 peerTag))"

definition build_self_info_request :: "bytes \<Rightarrow> u64 \<Rightarrow> string + bytes" where
  "build_self_info_request peerTag queryId =
     (if \<not> HasPeerTag peerTag then Inl ''reflector peer_tag must be exactly 16 bytes''
      else
        (let b = put_list (replicate SelfInfoRequestBytes 0) 0 peerTag;
             b = put_le32 b 16 kAllBits32;
             b = put_le32 b 20 kAllBits32;
             b = put_le32 b 24 kAllBits32;
             b = put_le32 b 28 0xFFFFFFFE;
             b = put_le64 b 32 queryId
         in Inr b))"

definition parse_self_info_response ::
    "bytes \<Rightarrow> bytes \<Rightarrow> (string + VoipReflectorSelfInfo) option" where
  "parse_self_info_response bs expectedPeerTag =
     (if length bs < SelfInfoResponseBytes then
        Some (Inl ''reflector self-info response is too short'')
      else if expectedPeerTag \<noteq> [] \<and> \<not> HasPeerTag expectedPeerTag then
        Some (Inl ''expected reflector peer_tag must be 16 bytes'')
      else do {
        same \<leftarrow> SamePeerTag bs expectedPeerTag;
        if \<not> same then Some (Inl ''reflector self-info peer_tag mismatch'')
        else do {
          sentinel1 \<leftarrow> rd_le64 bs 16;
          sentinel2 \<leftarrow> rd_le32 bs 24;
          magic \<leftarrow> rd_le32 bs 28;
          padding2 \<leftarrow> rd_le32 bs 52;
          if sentinel1 \<noteq> kAllBits64 \<or> sentinel2 \<noteq> kAllBits32 \<or> magic \<noteq> kSelfInfoMagic then
            Some (Inl ''reflector self-info response has invalid marker'')
          else if padding2 \<noteq> kMappedIpv4Padding then
            Some (Inl ''reflector self-info response is not IPv4-mapped'')
          else do {
            tag \<leftarrow> subbuf bs 0 PeerTagBytes;
            date \<leftarrow> rd_le32 bs 32;
            qid \<leftarrow> rd_le64 bs 36;
            raw \<leftarrow> rd_le32 bs 56;
            pw \<leftarrow> rd_le32 bs 60;
            Some (Inr \<lparr>PeerTag = tag, Date = date, QueryId = qid, RawIpv4 = raw,
              Ipv4 = Ipv4ToString raw, Port = ucast (pw AND 0xFFFF)\<rparr>)
          }
        }
      })"

section \<open>Requests\<close>

lemma list16:
  assumes "length t = 16"
  obtains a0 a1 a2 a3 a4 a5 a6 a7 a8 a9 aA aB aC aD aE aF
  where "t = [a0, a1, a2, a3, a4, a5, a6, a7, a8, a9, aA, aB, aC, aD, aE, aF]"
  using assms by (auto simp: length_Suc_conv eval_nat_numeral)

lemma ucast_low32: "ucast (q AND 0xFFFFFFFF) = (ucast (q :: u64) :: u32)"
proof -
  have m: "(0xFFFFFFFF :: u64) = mask 32" by (simp add: mask_eq_exp_minus_1)
  show ?thesis
    unfolding m by (rule bit_word_eqI) (simp add: bit_simps)
qed

lemma byte_at_consts:
  "byte_at 0 (0xFFFFFFFF :: u32) = 0xFF" "byte_at 8 (0xFFFFFFFF :: u32) = 0xFF"
  "byte_at 16 (0xFFFFFFFF :: u32) = 0xFF" "byte_at 24 (0xFFFFFFFF :: u32) = 0xFF"
  "byte_at 0 (0xFFFFFFFE :: u32) = 0xFE" "byte_at 8 (0xFFFFFFFE :: u32) = 0xFF"
  "byte_at 16 (0xFFFFFFFE :: u32) = 0xFF" "byte_at 24 (0xFFFFFFFE :: u32) = 0xFF"
  by (simp_all add: byte_at_def)

lemma put_list_front: "put_list buf 0 vs = vs @ drop (length vs) buf"
  by (simp add: put_list_def)

text \<open>
  With a 16-byte peer tag the self-info request is the tag, the 28 marker bytes the
  reflector expects and the query id in little-endian order; any other tag is refused.
\<close>

theorem self_info_request_layout:
  "build_self_info_request tag q =
     (if length tag = 16
      then Inr (tag @ replicate 12 0xFF @ [0xFE, 0xFF, 0xFF, 0xFF] @
             le32 (ucast q) @ le32 (ucast (drop_bit 32 q)))
      else Inl ''reflector peer_tag must be exactly 16 bytes'')"
proof (cases "length tag = 16")
  case True
  from True show ?thesis
    by (rule list16)
      (simp add: build_self_info_request_def HasPeerTag_def reflector_consts put_list_front
        put_le64_def put_le32_def le32_def ucast_low32 replicate_numeral_Cons
        byte_at_consts)
next
  case False
  then show ?thesis by (simp add: build_self_info_request_def HasPeerTag_def PeerTagBytes_def)
qed

lemma peer_discovery_layout:
  "length tag = 16 \<Longrightarrow> build_peer_discovery_request tag = Inr (tag @ replicate 16 0xFF)"
  by (simp add: build_peer_discovery_request_def HasPeerTag_def reflector_consts put_list_front)

section \<open>Responses\<close>

lemma le32_of_FF: "le32_of 0xFF 0xFF 0xFF 0xFF = 0xFFFFFFFF"
  by (simp add: le32_of_def)

lemma join64_FF: "join64 0xFFFFFFFF 0xFFFFFFFF = 0xFFFFFFFFFFFFFFFF"
  by (simp add: join64_def)

definition self_info_response :: "bytes \<Rightarrow> u32 \<Rightarrow> u64 \<Rightarrow> bytes \<Rightarrow> u32 \<Rightarrow> u32 \<Rightarrow> bytes" where
  "self_info_response tag date qid gap raw pw =
     tag @ replicate 12 0xFF @ le32 kSelfInfoMagic @ le32 date @
     le32 (ucast qid) @ le32 (ucast (drop_bit 32 qid)) @ gap @ le32 kMappedIpv4Padding @
     le32 raw @ le32 pw"

lemma SamePeerTag_iff:
  "16 \<le> length bs \<Longrightarrow> expected = [] \<or> length expected = 16 \<Longrightarrow>
     SamePeerTag bs expected = Some (expected = [] \<or> take 16 bs = expected)"
  by (auto simp: SamePeerTag_def HasPeerTag_def PeerTagBytes_def subbuf_def)

lemma parse_self_info_safe: "parse_self_info_response bs expected \<noteq> None"
proof (cases "length bs < 64 \<or> (expected \<noteq> [] \<and> \<not> HasPeerTag expected)")
  case True
  then show ?thesis by (auto simp: parse_self_info_response_def reflector_consts)
next
  case False
  then have "SamePeerTag bs expected = Some (expected = [] \<or> take 16 bs = expected)"
    by (intro SamePeerTag_iff) (auto simp: HasPeerTag_def PeerTagBytes_def)
  with False show ?thesis
    by (simp add: parse_self_info_response_def reflector_consts read_simps
        del: length_greater_0_conv)
qed

lemma parse_self_info_Inr:
  assumes "parse_self_info_response bs expected = Some (Inr r)"
  shows "64 \<le> length bs" "expected = [] \<or> expected = take 16 bs" "PeerTag r = take 16 bs"
    "Ipv4 r = Ipv4ToString (RawIpv4 r)" "le32_of (bs ! 28) (bs ! 29) (bs ! 30) (bs ! 31) = kSelfInfoMagic"
proof -
  show len: "64 \<le> length bs"
    using assms by (auto simp: parse_self_info_response_def reflector_consts split: if_splits)
  have e: "expected = [] \<or> length expected = 16"
    using assms by (auto simp: parse_self_info_response_def reflector_consts HasPeerTag_def
        split: if_splits)
  have st: "SamePeerTag bs expected = Some (expected = [] \<or> take 16 bs = expected)"
    using len e by (intro SamePeerTag_iff) auto
  have "(expected = [] \<or> expected = take 16 bs) \<and> PeerTag r = take 16 bs \<and>
    Ipv4 r = Ipv4ToString (RawIpv4 r) \<and>
    le32_of (bs ! 28) (bs ! 29) (bs ! 30) (bs ! 31) = kSelfInfoMagic"
    using assms len st
    by (auto simp: parse_self_info_response_def reflector_consts read_simps
        simp del: length_greater_0_conv split: if_splits)
  then show "expected = [] \<or> expected = take 16 bs" "PeerTag r = take 16 bs"
    "Ipv4 r = Ipv4ToString (RawIpv4 r)"
    "le32_of (bs ! 28) (bs ! 29) (bs ! 30) (bs ! 31) = kSelfInfoMagic" by blast+
qed

lemma parse_self_info_response_layout:
  assumes "length tag = 16" and "length gap = 8" and "expected = [] \<or> expected = tag"
  shows "parse_self_info_response (self_info_response tag date qid gap raw pw @ rest) expected =
    Some (Inr \<lparr>PeerTag = tag, Date = date, QueryId = qid, RawIpv4 = raw,
      Ipv4 = Ipv4ToString raw, Port = ucast (pw AND 0xFFFF)\<rparr>)"
proof -
  let ?b = "self_info_response tag date qid gap raw pw @ rest"
  have len: "64 \<le> length ?b" using assms by (simp add: self_info_response_def)
  have "SamePeerTag ?b expected = Some True"
    using assms by (subst SamePeerTag_iff) (auto simp: self_info_response_def)
  moreover have "rd_le64 ?b 16 = Some kAllBits64" "rd_le32 ?b 24 = Some kAllBits32"
    "rd_le32 ?b 28 = Some kSelfInfoMagic" "rd_le32 ?b 52 = Some kMappedIpv4Padding"
    "rd_le32 ?b 32 = Some date" "rd_le64 ?b 36 = Some qid" "rd_le32 ?b 56 = Some raw"
    "rd_le32 ?b 60 = Some pw"
    using assms
    by (simp_all add: self_info_response_def read_simps nth_append le32_def reflector_consts
        le32_of_FF join64_FF)
  moreover have "subbuf ?b 0 PeerTagBytes = Some tag"
    using assms by (simp add: subbuf_def self_info_response_def PeerTagBytes_def)
  ultimately show ?thesis
    using assms len
    by (auto simp: parse_self_info_response_def HasPeerTag_def SelfInfoResponseBytes_def
        PeerTagBytes_def)
qed

text \<open>
  A self-info response is read inside the datagram only; one that is accepted has at
  least 64 bytes, carries the reflector's marker and, when the caller expects a peer tag, exactly
  that tag, and the reported tag and address text are those of the datagram.
\<close>

theorem self_info_response_sound:
  "(\<exists>e. parse_self_info_response bs expected = Some (Inl e)) \<or>
   (\<exists>r. parse_self_info_response bs expected = Some (Inr r) \<and> 64 \<le> length bs \<and>
      (expected = [] \<or> expected = take 16 bs) \<and> PeerTag r = take 16 bs \<and>
      le32_of (bs ! 28) (bs ! 29) (bs ! 30) (bs ! 31) = 0xC01572C7 \<and>
      Ipv4 r = Ipv4ToString (RawIpv4 r))"
proof (cases "parse_self_info_response bs expected")
  case None
  then show ?thesis using parse_self_info_safe by blast
next
  case (Some x)
  show ?thesis
  proof (cases x)
    case (Inr r)
    with Some have "parse_self_info_response bs expected = Some (Inr r)" by simp
    from this parse_self_info_Inr [OF this] show ?thesis by (simp add: kSelfInfoMagic_def)
  qed (use Some in simp)
qed

lemma length_show_byte: "b < 256 \<Longrightarrow> length (show_nat b) \<le> 3"
  by (subst show_nat.simps, subst show_nat.simps, subst show_nat.simps) auto

lemma and_FF_bound: "unat (w AND 0xFF :: u32) < 256"
proof -
  have "w AND 0xFF \<le> (0xFF :: u32)" by (rule word_and_le1)
  then show ?thesis by (simp add: word_le_nat_alt)
qed

text \<open>The printed address fits the 16-byte buffer with its terminating NUL.\<close>

lemma length_ipv4_text: "length (Ipv4ToString raw) \<le> 15"
proof -
  have "length (show_nat (unat (w AND 0xFF :: u32))) \<le> 3" for w
    by (intro length_show_byte and_FF_bound)
  from this [of raw] this [of "drop_bit 8 raw"] this [of "drop_bit 16 raw"] this [of "drop_bit 24 raw"]
  show ?thesis by (simp add: Ipv4ToString_def)
qed

end
