(* ===== verification/VoipTypes.thy ===== *)
theory VoipTypes
  imports Interfaces
begin

text \<open>
  The domain's shared types: errors (\<open>domain/voip_error.h\<close>), capabilities
  (\<open>domain/voip_capability.h\<close>), endpoints (\<open>domain/voip_endpoint.h\<close>) and the choice of the
  reflector endpoint (\<open>domain/voip_endpoint_selector.cpp\<close>).
\<close>

section \<open>Errors and capabilities\<close>

datatype VoipErrorKind = ErrNone | Unavailable | InvalidArgument | CryptoUnavailable
  | FingerprintMismatch | TransportFailed | CodecFailed | AudioDeviceFailed | InternalError
  | HandshakeTimeout

record VoipError =
  Kind :: VoipErrorKind
  Code :: int
  Message :: string

definition VoipError_Ok :: VoipError where
  "VoipError_Ok = \<lparr>Kind = ErrNone, Code = 0, Message = []\<rparr>"

definition VoipError_Of :: "VoipErrorKind \<Rightarrow> int \<Rightarrow> string \<Rightarrow> VoipError" where
  "VoipError_Of kind code message = \<lparr>Kind = kind, Code = code, Message = message\<rparr>"

definition VoipError_IsOk :: "VoipError \<Rightarrow> bool" where
  "VoipError_IsOk e \<longleftrightarrow> Kind e = ErrNone"

fun VoipErrorKindLabel :: "VoipErrorKind \<Rightarrow> string" where
  "VoipErrorKindLabel ErrNone = ''ok''"
| "VoipErrorKindLabel Unavailable = ''unavailable''"
| "VoipErrorKindLabel InvalidArgument = ''invalid_argument''"
| "VoipErrorKindLabel CryptoUnavailable = ''crypto_unavailable''"
| "VoipErrorKindLabel FingerprintMismatch = ''fingerprint_mismatch''"
| "VoipErrorKindLabel TransportFailed = ''transport_failed''"
| "VoipErrorKindLabel CodecFailed = ''codec_failed''"
| "VoipErrorKindLabel AudioDeviceFailed = ''audio_device_failed''"
| "VoipErrorKindLabel InternalError = ''internal_error''"
| "VoipErrorKindLabel HandshakeTimeout = ''handshake_timeout''"

definition Invalid :: "string \<Rightarrow> VoipError" where
  "Invalid message = VoipError_Of InvalidArgument 0 message"

text \<open>The state of a tgcalls connection and the counters it reports.\<close>

datatype tg_state = TgConnecting | TgIceConnecting | TgDtlsHandshaking | TgConnected | TgFailed | TgStopped

record tg_stats =
  tg_TxPackets :: u64
  tg_RxPackets :: u64
  tg_TxBytes :: u64
  tg_RxBytes :: u64
  tg_CurrentState :: tg_state

record VoipCapability =
  CanExchangeCallKeys :: bool
  CanStartMedia :: bool
  Reason :: string

definition capability_unavailable :: "string \<Rightarrow> VoipCapability" where
  "capability_unavailable r = \<lparr>CanExchangeCallKeys = False, CanStartMedia = False, Reason = r\<rparr>"

definition capability_key_exchange_only :: "string \<Rightarrow> VoipCapability" where
  "capability_key_exchange_only r =
     \<lparr>CanExchangeCallKeys = True, CanStartMedia = False, Reason = r\<rparr>"

definition capability_media_ready :: VoipCapability where
  "capability_media_ready = \<lparr>CanExchangeCallKeys = True, CanStartMedia = True, Reason = []\<rparr>"

lemma IsOk_simps [simp]:
  "VoipError_IsOk VoipError_Ok" "\<not> VoipError_IsOk (Invalid m)"
  "VoipError_IsOk (VoipError_Of k c m) \<longleftrightarrow> k = ErrNone"
  by (simp_all add: VoipError_IsOk_def VoipError_Ok_def Invalid_def VoipError_Of_def)

lemma Invalid_neq_Ok [simp]: "Invalid m \<noteq> VoipError_Ok" "VoipError_Ok \<noteq> Invalid m"
  by (simp_all add: Invalid_def VoipError_Of_def VoipError_Ok_def)

lemma VoipErrorKindLabel_inj: "VoipErrorKindLabel k = VoipErrorKindLabel k' \<longleftrightarrow> k = k'"
  by (cases k; cases k'; simp)


section \<open>Endpoints\<close>

record VoipEndpoint =
  Id :: int
  Ip :: string
  Ipv6 :: string
  Port :: int
  PeerTag :: bytes
  IsWebRtc :: bool
  Tcp :: bool
  Stun :: bool
  Turn :: bool
  Username :: string
  Password :: string
  ReflectorId :: int

definition VoipEndpoint_default :: VoipEndpoint where
  "VoipEndpoint_default = \<lparr>Id = 0, Ip = [], Ipv6 = [], Port = 0, PeerTag = [], IsWebRtc = False,
     Tcp = False, Stun = False, Turn = False, Username = [], Password = [], ReflectorId = 0\<rparr>"

definition HasAddress :: "VoipEndpoint \<Rightarrow> bool" where
  "HasAddress e \<longleftrightarrow> Ip e \<noteq> [] \<or> Ipv6 e \<noteq> []"

definition HasIpv4 :: "VoipEndpoint \<Rightarrow> bool" where
  "HasIpv4 e \<longleftrightarrow> Ip e \<noteq> []"

definition IsUsableReflectorEndpoint :: "VoipEndpoint \<Rightarrow> bool" where
  "IsUsableReflectorEndpoint e \<longleftrightarrow>
     Port e > 0 \<and> Port e \<le> 65535 \<and> HasAddress e \<and> \<not> IsWebRtc e \<and> PeerTag e \<noteq> []"

definition IsUsableWebRtcEndpoint :: "VoipEndpoint \<Rightarrow> bool" where
  "IsUsableWebRtcEndpoint e \<longleftrightarrow>
     Port e > 0 \<and> Port e \<le> 65535 \<and> HasAddress e \<and> IsWebRtc e \<and>
     (Username e \<noteq> [] \<or> Stun e \<or> Turn e)"

lemma find_SomeD:
  assumes "find P xs = Some x"
  shows "\<exists>us vs. xs = us @ x # vs \<and> P x \<and> (\<forall>u \<in> set us. \<not> P u)"
proof -
  from assms obtain i where i: "i < length xs" "P (xs ! i)" "x = xs ! i" "\<forall>j<i. \<not> P (xs ! j)"
    by (auto simp: find_Some_iff)
  then have "xs = take i xs @ x # drop (Suc i) xs" by (simp add: id_take_nth_drop)
  moreover have "\<forall>u \<in> set (take i xs). \<not> P u"
    using i by (auto simp: in_set_conv_nth)
  ultimately show ?thesis using i by blast
qed

text \<open>\<open>Found\<close> with the endpoint, or the reason there is none.\<close>

definition SelectReflector :: "VoipEndpoint list \<Rightarrow> string + VoipEndpoint" where
  "SelectReflector endpoints =
     (if endpoints = [] then Inl ''phoneCall returned no media endpoints''
      else case find (\<lambda>e. IsUsableReflectorEndpoint e \<and> HasIpv4 e) endpoints of
        Some e \<Rightarrow> Inr e
      | None \<Rightarrow> (case find IsUsableReflectorEndpoint endpoints of
          Some e \<Rightarrow> Inr e
        | None \<Rightarrow> Inl ''no Telegram reflector endpoint with peer_tag was available''))"

text \<open>
  The selector finds an endpoint exactly when a usable reflector is in the list. What
  it returns is a usable reflector of the list, has an IPv4 address whenever some usable
  reflector has one, and no reflector of its class comes before it.
\<close>

theorem select_reflector_spec:
  "case SelectReflector es of
     Inl _ \<Rightarrow> filter IsUsableReflectorEndpoint es = []
   | Inr e \<Rightarrow> (\<exists>xs ys. es = xs @ e # ys \<and> IsUsableReflectorEndpoint e \<and>
       (if filter HasIpv4 (filter IsUsableReflectorEndpoint es) = []
        then filter IsUsableReflectorEndpoint xs = []
        else HasIpv4 e \<and> filter HasIpv4 (filter IsUsableReflectorEndpoint xs) = []))"
proof (cases "find (\<lambda>e. IsUsableReflectorEndpoint e \<and> HasIpv4 e) es")
  case (Some e)
  then have "SelectReflector es = Inr e"
    by (auto simp: SelectReflector_def)
  moreover from find_SomeD [OF Some] obtain xs ys where
    "es = xs @ e # ys" "IsUsableReflectorEndpoint e" "HasIpv4 e"
    "filter HasIpv4 (filter IsUsableReflectorEndpoint xs) = []"
    by (auto simp: filter_empty_conv)
  ultimately show ?thesis by auto
next
  case None
  then have no4: "filter HasIpv4 (filter IsUsableReflectorEndpoint es) = []"
    by (auto simp: find_None_iff filter_empty_conv)
  show ?thesis
  proof (cases "find IsUsableReflectorEndpoint es")
    case None2: None
    then have "filter IsUsableReflectorEndpoint es = []"
      by (auto simp: find_None_iff filter_empty_conv)
    with None None2 show ?thesis by (simp add: SelectReflector_def)
  next
    case (Some e)
    then have "SelectReflector es = Inr e"
      using None by (auto simp: SelectReflector_def)
    with find_SomeD [OF Some] no4 show ?thesis
      by (auto simp: filter_empty_conv)
  qed
qed

end
