(* ===== verification/Float64.thy ===== *)
theory Float64
  imports Complex_Main
begin

text \<open>
  IEEE 754 binary64 as the code uses \<open>double\<close>: a finite double is the rational it stands for,
  and an operation is the exact operation followed by rounding to nearest, ties to even, with 53
  bits of precision and gradual underflow at \<open>2 ^ (-1074)\<close>. The values the code computes stay far
  below the largest double, so there is no infinity here.
\<close>

text \<open>Rounding a rational to an integer, ties to even.\<close>

definition round_half_even :: "rat \<Rightarrow> int" where
  "round_half_even x =
     (let f = \<lfloor>x\<rfloor>; r = x - of_int f in
      if r < 1 / 2 then f else if r > 1 / 2 then f + 1 else if even f then f else f + 1)"

text \<open>\<open>pow2 e\<close> is \<open>2 ^ e\<close> for an integer exponent.\<close>

definition pow2 :: "int \<Rightarrow> rat" where
  "pow2 e = (if 0 \<le> e then 2 ^ nat e else 1 / 2 ^ nat (- e))"

text \<open>The exponent of a positive rational: the \<open>e\<close> with \<open>2 ^ e \<le> x < 2 ^ (e + 1)\<close>, from the bit
  lengths of numerator and denominator.\<close>

fun bit_length :: "nat \<Rightarrow> nat" where
  "bit_length n = (if n = 0 then 0 else Suc (bit_length (n div 2)))"

declare bit_length.simps [simp del]

definition exponent_of :: "rat \<Rightarrow> int" where
  "exponent_of x =
     (case quotient_of x of (p, q) \<Rightarrow>
        (let k = int (bit_length (nat p)) - int (bit_length (nat q))
         in if pow2 k \<le> x then k else k - 1))"

definition ulp_exponent :: "rat \<Rightarrow> int" where
  "ulp_exponent x = max (- 1074) (exponent_of x - 52)"

definition rnd64 :: "rat \<Rightarrow> rat" where
  "rnd64 x =
     (if x = 0 then 0
      else let u = pow2 (ulp_exponent \<bar>x\<bar>)
           in (if x < 0 then - 1 else 1) * (of_int (round_half_even (\<bar>x\<bar> / u)) * u))"

text \<open>\<open>a * b\<close>, \<open>a + b\<close>, and \<open>static_cast<double>(i)\<close>.\<close>

definition dmul :: "rat \<Rightarrow> rat \<Rightarrow> rat" where "dmul a b = rnd64 (a * b)"

definition dadd :: "rat \<Rightarrow> rat \<Rightarrow> rat" where "dadd a b = rnd64 (a + b)"

definition of_i64 :: "int \<Rightarrow> rat" where "of_i64 i = rnd64 (of_int i)"

text \<open>
  \<open>static_cast<int>(d)\<close> truncates towards zero. The conversion is undefined when the result is
  not a 32-bit value: \<^const>\<open>None\<close>.
\<close>

definition to_i32 :: "rat \<Rightarrow> int option" where
  "to_i32 d =
     (let t = (if 0 \<le> d then \<lfloor>d\<rfloor> else \<lceil>d\<rceil>)
      in if - (2 ^ 31) \<le> t \<and> t < 2 ^ 31 then Some t else None)"

definition to_u32 :: "rat \<Rightarrow> nat option" where
  "to_u32 d =
     (let t = (if 0 \<le> d then \<lfloor>d\<rfloor> else \<lceil>d\<rceil>)
      in if 0 \<le> t \<and> t < 2 ^ 32 then Some (nat t) else None)"


section \<open>Rounding\<close>

lemma pow2_pos [simp]: "0 < pow2 e"
  by (simp add: pow2_def)

lemma pow2_nonzero [simp]: "pow2 e \<noteq> 0"
  by (simp add: pow2_def)

lemma pow2_diff: "pow2 (int a - int b) = 2 ^ a / 2 ^ b"
proof (cases "b \<le> a")
  case True
  then have "(2::rat) ^ a = 2 ^ (a - b) * 2 ^ b" by (simp add: power_add [symmetric])
  with True show ?thesis by (simp add: pow2_def nat_diff_distrib)
next
  case False
  then have "(2::rat) ^ b = 2 ^ (b - a) * 2 ^ a" by (simp add: power_add [symmetric])
  with False show ?thesis by (simp add: pow2_def nat_diff_distrib)
qed

lemma pow2_minus_nat: "pow2 (e - int n) = pow2 e / 2 ^ n"
proof (cases "0 \<le> e")
  case True
  then show ?thesis using pow2_diff [of "nat e" n] by (simp add: pow2_def)
next
  case False
  then have "nat (- (e - int n)) = nat (- e) + n" by simp
  with False show ?thesis by (simp add: pow2_def power_add)
qed

lemma round_half_even_nonneg: "0 \<le> x \<Longrightarrow> 0 \<le> round_half_even x"
  by (auto simp: round_half_even_def Let_def)

lemma round_half_even_int [simp]: "round_half_even (of_int i) = i"
  by (simp add: round_half_even_def)

lemma round_half_even_le: "of_int (round_half_even x) \<le> x + 1 / 2"
  by (auto simp: round_half_even_def Let_def) linarith+

lemma rnd64_nonneg: "0 \<le> x \<Longrightarrow> 0 \<le> rnd64 x"
  by (simp add: rnd64_def Let_def round_half_even_nonneg less_imp_le)

lemma rnd64_0 [simp]: "rnd64 0 = 0"
  by (simp add: rnd64_def)

lemma rnd64_pos: "0 < x \<Longrightarrow>
    rnd64 x = of_int (round_half_even (x / pow2 (ulp_exponent x))) * pow2 (ulp_exponent x)"
  by (simp add: rnd64_def Let_def)

lemma rnd64_minus: "rnd64 (- x) = - rnd64 x"
  by (simp add: rnd64_def Let_def)

lemma bit_length_le: "n < 2 ^ bit_length n"
proof (induction n rule: bit_length.induct)
  case (1 n)
  show ?case
  proof (cases "n = 0")
    case False
    with 1 have "n div 2 < 2 ^ bit_length (n div 2)" by simp
    then show ?thesis by (subst bit_length.simps) (use False in auto)
  qed simp
qed

lemma bit_length_ge: "0 < n \<Longrightarrow> 2 ^ (bit_length n - 1) \<le> n"
proof (induction n rule: bit_length.induct)
  case (1 n)
  show ?case
  proof (cases "n div 2 = 0")
    case True
    with 1 show ?thesis by (subst bit_length.simps) (simp add: bit_length.simps)
  next
    case False
    then have "0 < bit_length (n div 2)" by (subst bit_length.simps) simp
    then obtain m where m: "bit_length (n div 2) = Suc m" by (cases "bit_length (n div 2)") auto
    have "2 ^ (bit_length (n div 2) - 1) \<le> n div 2" using 1 False by simp
    then have "2 ^ Suc m \<le> n" by (simp add: m)
    moreover have "bit_length n = Suc (Suc m)" using 1 m by (subst bit_length.simps) simp
    ultimately show ?thesis by simp
  qed
qed

lemma bit_length_bound: "n < 2 ^ k \<Longrightarrow> bit_length n \<le> k"
proof (rule ccontr)
  assume n: "n < 2 ^ k" and "\<not> bit_length n \<le> k"
  then have k: "k \<le> bit_length n - 1" "bit_length n \<noteq> 0" by auto
  then have "0 < n" by (metis bit_length.simps not_gr_zero)
  then have "2 ^ (bit_length n - 1) \<le> n" by (rule bit_length_ge)
  moreover have "(2::nat) ^ k \<le> 2 ^ (bit_length n - 1)" using k by (intro power_increasing) auto
  ultimately show False using n by linarith
qed

lemma pow2_exponent_le:
  assumes "0 < x"
  shows "pow2 (exponent_of x) \<le> x"
proof -
  obtain p q where pq: "quotient_of x = (p, q)" by (cases "quotient_of x")
  then have q: "0 < q" and x: "x = of_int p / of_int q"
    by (simp_all add: quotient_of_denom_pos quotient_of_div)
  with assms have p: "0 < p" by (simp add: zero_less_divide_iff)
  let ?a = "bit_length (nat p)" and ?b = "bit_length (nat q)"
  have bp: "0 < ?a" using p by (subst bit_length.simps) simp
  have "(2::nat) ^ (?a - 1) \<le> nat p" using p by (intro bit_length_ge) simp
  then have lp: "(2::rat) ^ (?a - 1) \<le> of_int p"
    by (metis (mono_tags, lifting) of_nat_le_iff of_nat_nat of_nat_numeral of_nat_power
        order_less_imp_le p of_int_of_nat_eq)
  have "nat q < 2 ^ ?b" by (rule bit_length_le)
  then have lq: "of_int q \<le> (2::rat) ^ ?b"
    by (metis (mono_tags, lifting) of_nat_le_iff of_nat_nat of_nat_numeral of_nat_power
        order_less_imp_le q of_int_of_nat_eq)
  have "pow2 (int ?a - int ?b - 1) = pow2 (int (?a - 1) - int ?b)"
    using bp by (simp add: of_nat_diff algebra_simps)
  also have "\<dots> = 2 ^ (?a - 1) / 2 ^ ?b" by (rule pow2_diff)
  also have "\<dots> \<le> x" unfolding x using lp lq q p by (intro frac_le) auto
  finally show ?thesis by (simp add: exponent_of_def pq Let_def)
qed

text \<open>The rounding error is at most half a unit in the last place.\<close>

lemma rnd64_le:
  assumes "0 \<le> x"
  shows "rnd64 x \<le> x + x / 2 ^ 53 + pow2 (- 1074)"
proof (cases "x = 0")
  case True
  then show ?thesis using pow2_pos [of "- 1074"] by (simp del: pow2_pos)
next
  case False
  with assms have x: "0 < x" by simp
  define u where "u = pow2 (ulp_exponent x)"
  have u: "0 < u" by (simp add: u_def)
  have "of_int (round_half_even (x / u)) * u \<le> (x / u + 1 / 2) * u"
    using round_half_even_le u by (intro mult_right_mono) auto
  also have "\<dots> = x + u / 2" using u by (simp add: field_simps)
  finally have r: "rnd64 x \<le> x + u / 2"
    using x by (simp add: rnd64_pos u_def)
  have "u \<le> pow2 (- 1074) \<or> u \<le> x / 2 ^ 52"
  proof (cases "exponent_of x - 52 \<le> - 1074")
    case True
    then have "ulp_exponent x = - 1074" unfolding ulp_exponent_def by (rule max_absorb1)
    then show ?thesis by (simp add: u_def)
  next
    case False
    then have "u = pow2 (exponent_of x - 52)" by (simp add: u_def ulp_exponent_def max_def)
    also have "\<dots> = pow2 (exponent_of x) / 2 ^ 52" 
      using pow2_minus_nat [of "exponent_of x" 52] by (simp only: of_nat_numeral)
    also have "\<dots> \<le> x / 2 ^ 52"
      using pow2_exponent_le [OF x] by (intro divide_right_mono) auto
    finally show ?thesis ..
  qed
  then have "u / 2 \<le> x / 2 ^ 53 + pow2 (- 1074)"
  proof
    assume "u \<le> pow2 (- 1074)"
    moreover have "0 \<le> x / 2 ^ 53" "0 < u" using x u by simp_all
    ultimately show ?thesis by linarith
  next
    assume "u \<le> x / 2 ^ 52"
    then have "u / 2 \<le> x / 2 ^ 53" by simp
    then show ?thesis using pow2_pos [of "- 1074"] by linarith
  qed
  with r show ?thesis by linarith
qed

text \<open>Integers below \<open>2 ^ 53\<close> are exact.\<close>

lemma rnd64_int:
  assumes "\<bar>i\<bar> < 2 ^ 53"
  shows "rnd64 (of_int i) = of_int i"
proof (cases "i = 0")
  case True
  then show ?thesis by simp
next
  case False
  define j where "j = \<bar>i\<bar>"
  have j: "0 < j" "j < 2 ^ 53" using assms False by (simp_all add: j_def)
  have "bit_length (nat j) \<le> 53" using j by (intro bit_length_bound) simp
  moreover have "bit_length 1 = 1" by (subst bit_length.simps, simp add: bit_length.simps)
  ultimately have "exponent_of (of_int j) \<le> 53"
    by (simp add: exponent_of_def Let_def)
  have e: "exponent_of (of_int j) \<le> 52"
  proof (rule ccontr)
    assume "\<not> ?thesis"
    with \<open>exponent_of (of_int j) \<le> 53\<close> have "exponent_of (of_int j) = 53" by simp
    then have "pow2 53 \<le> of_int j" using pow2_exponent_le [of "of_int j"] j by simp
    with j show False by (simp add: pow2_def)
  qed
  define m where "m = - ulp_exponent (of_int j)"
  have m: "0 \<le> m" using e by (simp add: m_def ulp_exponent_def)
  then have u: "pow2 (ulp_exponent (of_int j)) = 1 / 2 ^ nat m"
    by (cases "m = 0") (auto simp: m_def pow2_def)
  have "(of_int j :: rat) / (1 / 2 ^ nat m) = of_int (j * 2 ^ nat m)" by simp
  then have "round_half_even (of_int j / (1 / 2 ^ nat m)) = j * 2 ^ nat m"
    by (simp only: round_half_even_int)
  moreover have "0 < (of_int j :: rat)" using j by simp
  ultimately have "rnd64 (of_int j) = of_int (j * 2 ^ nat m) * (1 / 2 ^ nat m)"
    by (simp only: rnd64_pos u)
  then have jj: "rnd64 (of_int j) = of_int j" by simp
  show ?thesis
  proof (cases "i < 0")
    case True
    then have "i = - j" by (simp add: j_def)
    with jj show ?thesis by (simp only: of_int_minus rnd64_minus)
  next
    case False
    then have "i = j" by (simp add: j_def)
    with jj show ?thesis by simp
  qed
qed

lemma of_i64_exact: "\<bar>i\<bar> < 2 ^ 53 \<Longrightarrow> of_i64 i = of_int i"
  by (simp add: of_i64_def rnd64_int)

end
