(* ===== verification/JitterBuffer.thy ===== *)
theory JitterBuffer
  imports VoipTypes Float64
begin

text \<open>
  The jitter buffer: \<open>domain/voip_jitter_buffer.h\<close> and \<open>domain/voip_jitter_buffer.cpp\<close>. The
  state is the class's members; the slots are a \<open>std::map\<close> keyed by sequence number, modelled by
  an association list in key order. Arrival times are integers (milliseconds of a monotonic
  clock, far inside \<open>int64_t\<close>); the smoothed jitter is a double. \<open>Insert\<close> yields \<^const>\<open>None\<close>
  where the code's \<open>static_cast<int>\<close> of the smoothed jitter would be undefined.
\<close>

section \<open>The slots\<close>

record Slot =
  slot_SequenceNumber :: u16
  slot_Timestamp :: u32
  slot_Payload :: bytes

type_synonym slots = "(u16 \<times> Slot) list"

fun slots_put :: "u16 \<Rightarrow> Slot \<Rightarrow> slots \<Rightarrow> slots" where
  "slots_put k v [] = [(k, v)]"
| "slots_put k v ((k', v') # m) =
     (if k < k' then (k, v) # (k', v') # m
      else if k = k' then (k, v) # m
      else (k', v') # slots_put k v m)"

definition slots_erase :: "u16 \<Rightarrow> slots \<Rightarrow> slots" where
  "slots_erase k m = filter (\<lambda>p. fst p \<noteq> k) m"

definition slots_wf :: "slots \<Rightarrow> bool" where
  "slots_wf m \<longleftrightarrow> sorted_wrt (<) (map fst m)"

lemma fst_slots_put: "fst ` set (slots_put k v m) = insert k (fst ` set m)"
  by (induction m rule: slots_put.induct) auto

lemma slots_wf_put: "slots_wf m \<Longrightarrow> slots_wf (slots_put k v m)"
proof (induction m)
  case Nil
  then show ?case by (simp add: slots_wf_def)
next
  case (Cons p m)
  obtain k' v' where p: "p = (k', v')" by (cases p)
  have set: "set (map fst (slots_put k v m)) = insert k (set (map fst m))"
    using fst_slots_put by simp
  show ?case
    using Cons unfolding slots_wf_def p
    by (auto simp: set simp del: set_map)
qed

lemma map_of_slots_put: "slots_wf m \<Longrightarrow> map_of (slots_put k v m) = (map_of m)(k \<mapsto> v)"
proof (induction m)
  case Nil
  then show ?case by simp
next
  case (Cons p m)
  then have "slots_wf m" by (simp add: slots_wf_def)
  with Cons show ?case by (cases p) auto
qed

interpretation slots: ordered_map map_of slots_put slots_erase tl "map fst" slots_wf
proof
  fix m :: slots and k v
  assume wf: "slots_wf m"
  then have d: "distinct (map fst m)"
    using slots_wf_def strict_sorted_iff by blast
  show "map_of (slots_put k v m) = (map_of m)(k \<mapsto> v)" using wf by (rule map_of_slots_put)
  show "map_of (slots_erase k m) = (map_of m)(k := None)"
    by (induction m) (auto simp: slots_erase_def)
  show "set (map fst m) = dom (map_of m)" by (simp add: dom_map_of_conv_image_fst)
  show "sorted_wrt (<) (map fst m)" using wf by (simp add: slots_wf_def)
  show "map fst (tl m) = tl (map fst m)" by (simp add: map_tl)
  show "slots_wf (slots_put k v m)" using wf by (rule slots_wf_put)
  show "slots_wf (slots_erase k m)"
    using wf by (simp add: slots_wf_def slots_erase_def sorted_wrt_map sorted_wrt_filter)
  show "slots_wf (tl m)" using wf by (cases m) (auto simp: slots_wf_def)
qed


section \<open>State\<close>

record VoipJitterStats =
  PacketsInserted :: u32
  PacketsPlayed :: u32
  PacketsLost :: u32
  LateDrops :: u32
  TargetMs :: int
  DepthPackets :: int

definition VoipJitterStats_default :: VoipJitterStats where
  "VoipJitterStats_default = \<lparr>PacketsInserted = 0, PacketsPlayed = 0, PacketsLost = 0,
     LateDrops = 0, TargetMs = 60, DepthPackets = 0\<rparr>"

record VoipJitterFrame =
  Ready :: bool
  HasPacket :: bool
  Plc :: bool
  SequenceNumber :: u16
  Timestamp :: u32
  Payload :: bytes

definition VoipJitterFrame_default :: VoipJitterFrame where
  "VoipJitterFrame_default = \<lparr>Ready = False, HasPacket = False, Plc = False,
     SequenceNumber = 0, Timestamp = 0, Payload = []\<rparr>"

record VoipJitterBuffer =
  m_frameMs :: int
  m_started :: bool
  m_nextSequence :: u16
  m_nextTimestamp :: u32
  m_firstPlayoutMs :: int
  m_playoutIndex :: int
  m_lastArrivalMs :: int
  m_smoothedJitterMs :: rat
  m_targetMs :: int
  m_slots :: slots
  m_stats :: VoipJitterStats

definition kMinTargetMs :: int where "kMinTargetMs = 60"
definition kMaxTargetMs :: int where "kMaxTargetMs = 180"
definition kMaxBufferedPackets :: nat where "kMaxBufferedPackets = 64"

lemmas jb_consts = kMinTargetMs_def kMaxTargetMs_def kMaxBufferedPackets_def

definition ClampInt :: "int \<Rightarrow> int \<Rightarrow> int \<Rightarrow> int" where
  "ClampInt value lo hi = (if value < lo then lo else if value > hi then hi else value)"

text \<open>\<open>static_cast<int16_t>(a - b) < 0\<close>\<close>

definition SequenceBefore :: "u16 \<Rightarrow> u16 \<Rightarrow> bool" where
  "SequenceBefore a b \<longleftrightarrow> sint (a - b) < 0"


section \<open>Operations\<close>

definition jb_Reset :: "VoipJitterBuffer \<Rightarrow> VoipJitterBuffer" where
  "jb_Reset s = s\<lparr>m_started := False, m_nextSequence := 0, m_nextTimestamp := 0,
     m_firstPlayoutMs := 0, m_playoutIndex := 0, m_lastArrivalMs := - 1,
     m_smoothedJitterMs := 0, m_targetMs := kMinTargetMs, m_slots := [],
     m_stats := VoipJitterStats_default\<rparr>"

definition jb_new :: "int \<Rightarrow> VoipJitterBuffer" where
  "jb_new frameMs =
     jb_Reset \<lparr>m_frameMs = (if frameMs \<le> 0 then 20 else frameMs), m_started = False,
       m_nextSequence = 0, m_nextTimestamp = 0, m_firstPlayoutMs = 0, m_playoutIndex = 0,
       m_lastArrivalMs = 0, m_smoothedJitterMs = 0, m_targetMs = 0, m_slots = [],
       m_stats = VoipJitterStats_default\<rparr>"

definition IsLate :: "VoipJitterBuffer \<Rightarrow> u16 \<Rightarrow> bool" where
  "IsLate s sequenceNumber \<longleftrightarrow> SequenceBefore sequenceNumber (m_nextSequence s)"

definition smooth :: "rat \<Rightarrow> rat \<Rightarrow> rat" where
  "smooth old jitter =
     (if old = 0 then jitter
      else dadd (dmul old (rnd64 (95 / 100))) (dmul jitter (rnd64 (5 / 100))))"

definition RecalculateTarget :: "VoipJitterBuffer \<Rightarrow> int \<Rightarrow> VoipJitterBuffer option" where
  "RecalculateTarget s arrival =
     (if m_lastArrivalMs s \<ge> 0 then
        (let delta = arrival - m_lastArrivalMs s;
             delta = (if delta < 0 then 0 else delta);
             jitter = \<bar>of_i64 (delta - m_frameMs s)\<bar>;
             sm = smooth (m_smoothedJitterMs s) jitter
         in do {
           extra \<leftarrow> to_i32 (dmul sm 4);
           Some (s\<lparr>m_smoothedJitterMs := sm,
             m_targetMs := ClampInt (kMinTargetMs + extra) kMinTargetMs kMaxTargetMs,
             m_lastArrivalMs := arrival\<rparr>)
         })
      else Some (s\<lparr>m_lastArrivalMs := arrival\<rparr>))"

function TrimOverflow :: "VoipJitterBuffer \<Rightarrow> VoipJitterBuffer" where
  "TrimOverflow s =
     (if length (m_slots s) > kMaxBufferedPackets
      then TrimOverflow (s\<lparr>m_slots := tl (m_slots s),
             m_stats := (m_stats s)\<lparr>LateDrops := LateDrops (m_stats s) + 1\<rparr>\<rparr>)
      else s)"
  by pat_completeness auto
termination
  by (relation "measure (\<lambda>s. length (m_slots s))") auto

declare TrimOverflow.simps [simp del]

definition jb_Insert ::
    "VoipJitterBuffer \<Rightarrow> u16 \<Rightarrow> u32 \<Rightarrow> bytes \<Rightarrow> int \<Rightarrow> (VoipError \<times> VoipJitterBuffer) option" where
  "jb_Insert s sequenceNumber timestamp payload arrival =
     (if payload = [] then Some (Invalid ''jitter buffer payload is empty'', s)
      else if m_started s \<and> IsLate s sequenceNumber then
        Some (VoipError_Ok,
          s\<lparr>m_stats := (m_stats s)\<lparr>LateDrops := LateDrops (m_stats s) + 1,
              DepthPackets := int (length (m_slots s))\<rparr>\<rparr>)
      else do {
        s \<leftarrow> RecalculateTarget s arrival;
        let slot = \<lparr>slot_SequenceNumber = sequenceNumber, slot_Timestamp = timestamp,
                    slot_Payload = payload\<rparr>;
        let s = s\<lparr>m_slots := slots_put sequenceNumber slot (m_slots s)\<rparr>;
        let s = (if \<not> m_started s
                 then s\<lparr>m_started := True, m_nextSequence := sequenceNumber,
                        m_nextTimestamp := timestamp,
                        m_firstPlayoutMs := arrival + m_targetMs s, m_playoutIndex := 0\<rparr>
                 else s);
        let s = s\<lparr>m_stats := (m_stats s)\<lparr>PacketsInserted := PacketsInserted (m_stats s) + 1\<rparr>\<rparr>;
        let s = TrimOverflow s;
        Some (VoipError_Ok,
          s\<lparr>m_stats := (m_stats s)\<lparr>TargetMs := m_targetMs s,
              DepthPackets := int (length (m_slots s))\<rparr>\<rparr>)
      })"

definition jb_NextPlayoutFrame ::
    "VoipJitterBuffer \<Rightarrow> int \<Rightarrow> VoipJitterFrame \<times> VoipJitterBuffer" where
  "jb_NextPlayoutFrame s now =
     (if \<not> m_started s then (VoipJitterFrame_default, s)
      else
        (let due = m_firstPlayoutMs s + m_playoutIndex s * m_frameMs s in
         if now < due then (VoipJitterFrame_default, s)
         else
           (let frame = VoipJitterFrame_default\<lparr>Ready := True,
                  SequenceNumber := m_nextSequence s, Timestamp := m_nextTimestamp s\<rparr>;
                (frame, s) =
                  (case map_of (m_slots s) (m_nextSequence s) of
                     Some slot \<Rightarrow>
                       (frame\<lparr>HasPacket := True, Plc := False, Timestamp := slot_Timestamp slot,
                          Payload := slot_Payload slot\<rparr>,
                        s\<lparr>m_slots := slots_erase (m_nextSequence s) (m_slots s),
                          m_stats := (m_stats s)\<lparr>PacketsPlayed := PacketsPlayed (m_stats s) + 1\<rparr>\<rparr>)
                   | None \<Rightarrow>
                       (frame\<lparr>HasPacket := False, Plc := True\<rparr>,
                        s\<lparr>m_stats := (m_stats s)\<lparr>PacketsLost := PacketsLost (m_stats s) + 1\<rparr>\<rparr>));
                s = s\<lparr>m_nextSequence := m_nextSequence s + 1,
                      m_nextTimestamp := m_nextTimestamp s + of_int (m_frameMs s),
                      m_playoutIndex := m_playoutIndex s + 1\<rparr>
            in (frame,
                s\<lparr>m_stats := (m_stats s)\<lparr>TargetMs := m_targetMs s,
                    DepthPackets := int (length (m_slots s))\<rparr>\<rparr>))))"

definition jb_Stats :: "VoipJitterBuffer \<Rightarrow> VoipJitterStats" where
  "jb_Stats s = (m_stats s)\<lparr>TargetMs := m_targetMs s, DepthPackets := int (length (m_slots s))\<rparr>"

text \<open>The calls a client makes, and a run of them; \<^const>\<open>None\<close> after undefined behaviour.\<close>

datatype jb_event = Insert u16 u32 bytes int | NextPlayoutFrame int | Reset

fun jb_step :: "VoipJitterBuffer option \<Rightarrow> jb_event \<Rightarrow> VoipJitterBuffer option" where
  "jb_step None e = None"
| "jb_step (Some s) (Insert sq ts pl t) = map_option snd (jb_Insert s sq ts pl t)"
| "jb_step (Some s) (NextPlayoutFrame now) = Some (snd (jb_NextPlayoutFrame s now))"
| "jb_step (Some s) Reset = Some (jb_Reset s)"


section \<open>The invariant\<close>

definition jb_inv :: "VoipJitterBuffer \<Rightarrow> bool" where
  "jb_inv s \<longleftrightarrow>
     0 < m_frameMs s \<and> 60 \<le> m_targetMs s \<and> m_targetMs s \<le> 180 \<and>
     slots_wf (m_slots s) \<and> length (m_slots s) \<le> 64 \<and>
     list_all (\<lambda>(k, v). slot_SequenceNumber v = k \<and> slot_Payload v \<noteq> []) (m_slots s) \<and>
     0 \<le> m_playoutIndex s \<and> 0 \<le> m_smoothedJitterMs s \<and>
     (if m_started s then True else m_slots s = [])"

definition jb_inv_opt :: "VoipJitterBuffer option \<Rightarrow> bool" where
  "jb_inv_opt so = (case so of None \<Rightarrow> True | Some s \<Rightarrow> jb_inv s)"

lemma TrimOverflow_closed:
  "TrimOverflow s =
     s\<lparr>m_slots := drop (length (m_slots s) - 64) (m_slots s),
       m_stats := (m_stats s)\<lparr>LateDrops := LateDrops (m_stats s) + of_nat (length (m_slots s) - 64)\<rparr>\<rparr>"
proof (induction s rule: TrimOverflow.induct)
  case (1 s)
  show ?case
  proof (cases "length (m_slots s) > kMaxBufferedPackets")
    case True
    then obtain p m where m: "m_slots s = p # m" by (cases "m_slots s") auto
    with True have n: "length (m_slots s) - 64 = Suc (length m - 64)"
      by (simp add: jb_consts)
    show ?thesis
      by (subst TrimOverflow.simps) (use True 1 [OF True] m n in \<open>simp add: add.assoc\<close>)
  next
    case False
    then show ?thesis by (subst TrimOverflow.simps) (simp add: jb_consts)
  qed
qed

lemma slots_wf_drop: "slots_wf m \<Longrightarrow> slots_wf (drop n m)"
  by (simp add: slots_wf_def drop_map sorted_wrt_drop flip: drop_map)

lemma list_all_put:
  "P (k, v) \<Longrightarrow> list_all P m \<Longrightarrow> list_all P (slots_put k v m)"
  by (induction m rule: slots_put.induct) auto

lemma dmul_nonneg: "0 \<le> a \<Longrightarrow> 0 \<le> b \<Longrightarrow> 0 \<le> dmul a b"
  by (simp add: dmul_def rnd64_nonneg)

lemma dadd_nonneg: "0 \<le> a \<Longrightarrow> 0 \<le> b \<Longrightarrow> 0 \<le> dadd a b"
  by (simp add: dadd_def rnd64_nonneg)

lemma smooth_nonneg: "0 \<le> old \<Longrightarrow> 0 \<le> j \<Longrightarrow> 0 \<le> smooth old j"
  by (auto simp: smooth_def intro!: dadd_nonneg dmul_nonneg rnd64_nonneg)

lemma RecalculateTarget_frame:
  "RecalculateTarget s t = Some s' \<Longrightarrow>
     m_frameMs s' = m_frameMs s \<and> m_started s' = m_started s \<and>
     m_nextSequence s' = m_nextSequence s \<and> m_nextTimestamp s' = m_nextTimestamp s \<and>
     m_firstPlayoutMs s' = m_firstPlayoutMs s \<and> m_playoutIndex s' = m_playoutIndex s \<and>
     m_slots s' = m_slots s \<and> m_stats s' = m_stats s \<and> m_lastArrivalMs s' = t"
  by (auto simp: RecalculateTarget_def Let_def bind_eq_Some_conv split: if_splits)

lemma ClampInt_bounds: "lo \<le> hi \<Longrightarrow> lo \<le> ClampInt x lo hi \<and> ClampInt x lo hi \<le> hi"
  by (simp add: ClampInt_def)

lemma RecalculateTarget_cases:
  assumes "RecalculateTarget s t = Some s'"
  obtains (first) "m_lastArrivalMs s < 0" and "s' = s\<lparr>m_lastArrivalMs := t\<rparr>"
  | (later) d x where "0 \<le> m_lastArrivalMs s"
      and "d = of_i64 (max 0 (t - m_lastArrivalMs s) - m_frameMs s)"
      and "to_i32 (dmul (smooth (m_smoothedJitterMs s) \<bar>d\<bar>) 4) = Some x"
      and "s' = s\<lparr>m_smoothedJitterMs := smooth (m_smoothedJitterMs s) \<bar>d\<bar>,
             m_targetMs := ClampInt (60 + x) 60 180, m_lastArrivalMs := t\<rparr>"
proof (cases "m_lastArrivalMs s < 0")
  case True
  then show ?thesis using assms first by (simp add: RecalculateTarget_def)
next
  case False
  let ?\<delta> = "t - m_lastArrivalMs s"
  have m: "(if ?\<delta> < 0 then 0 else ?\<delta>) = max 0 ?\<delta>" by simp
  from assms False show ?thesis
    using later unfolding RecalculateTarget_def Let_def m jb_consts
    by (simp add: bind_eq_Some_conv) blast
qed

lemma RecalculateTarget_bounds:
  assumes "RecalculateTarget s t = Some s'" and "60 \<le> m_targetMs s" "m_targetMs s \<le> 180"
    "0 \<le> m_smoothedJitterMs s"
  shows "60 \<le> m_targetMs s' \<and> m_targetMs s' \<le> 180 \<and> 0 \<le> m_smoothedJitterMs s'"
  using assms(1)
proof (cases rule: RecalculateTarget_cases)
  case first
  then show ?thesis using assms by simp
next
  case (later d x)
  then show ?thesis using smooth_nonneg [OF assms(4)] by (simp add: ClampInt_def)
qed

lemma list_all_drop: "list_all P xs \<Longrightarrow> list_all P (drop n xs)"
  by (auto simp: list_all_iff dest: in_set_dropD)

lemma jb_inv_new: "jb_inv (jb_new frameMs)"
  by (simp add: jb_inv_def jb_new_def jb_Reset_def jb_consts slots_wf_def)

lemma jb_inv_Reset: "jb_inv s \<Longrightarrow> jb_inv (jb_Reset s)"
  by (simp add: jb_inv_def jb_Reset_def jb_consts slots_wf_def)

text \<open>What an accepted packet does to the state.\<close>

lemma jb_Insert_accepted:
  assumes "jb_Insert s sq ts pl t = Some (e, s')" and "pl \<noteq> []"
    and "\<not> (m_started s \<and> IsLate s sq)"
  obtains s1 where "RecalculateTarget s t = Some s1"
    and "e = VoipError_Ok" and "m_started s'" and "m_frameMs s' = m_frameMs s"
    and "m_nextSequence s' = (if m_started s then m_nextSequence s else sq)"
    and "m_nextTimestamp s' = (if m_started s then m_nextTimestamp s else ts)"
    and "m_firstPlayoutMs s' = (if m_started s then m_firstPlayoutMs s else t + m_targetMs s')"
    and "m_playoutIndex s' = (if m_started s then m_playoutIndex s else 0)"
    and "m_targetMs s' = m_targetMs s1" and "m_smoothedJitterMs s' = m_smoothedJitterMs s1"
    and "m_lastArrivalMs s' = t"
    and "m_slots s' = (let m = slots_put sq \<lparr>slot_SequenceNumber = sq, slot_Timestamp = ts,
           slot_Payload = pl\<rparr> (m_slots s) in drop (length m - 64) m)"
    and "PacketsInserted (m_stats s') = PacketsInserted (m_stats s) + 1"
proof -
  from assms obtain s1 where r: "RecalculateTarget s t = Some s1"
    by (auto simp: jb_Insert_def bind_eq_Some_conv split: if_splits)
  note f = RecalculateTarget_frame [OF r]
  show ?thesis
    by (rule that [of s1])
      (use assms r f in \<open>auto simp: jb_Insert_def Let_def TrimOverflow_closed\<close>)
qed

lemma jb_inv_Insert:
  assumes "jb_inv s" and "jb_Insert s sq ts pl t = Some (e, s')"
  shows "jb_inv s'"
proof (cases "pl = [] \<or> (m_started s \<and> IsLate s sq)")
  case True
  with assms show ?thesis by (auto simp: jb_Insert_def jb_inv_def split: if_splits)
next
  case False
  then have "pl \<noteq> []" "\<not> (m_started s \<and> IsLate s sq)" by auto
  with assms(2) obtain s1 where r: "RecalculateTarget s t = Some s1"
    and s': "m_started s'" "m_frameMs s' = m_frameMs s"
      "m_playoutIndex s' = (if m_started s then m_playoutIndex s else 0)"
      "m_targetMs s' = m_targetMs s1" "m_smoothedJitterMs s' = m_smoothedJitterMs s1"
    and m: "m_slots s' = (let m = slots_put sq \<lparr>slot_SequenceNumber = sq, slot_Timestamp = ts,
           slot_Payload = pl\<rparr> (m_slots s) in drop (length m - 64) m)"
    by (rule jb_Insert_accepted)
  have "slots_wf (m_slots s')"
    using assms(1) by (simp add: m Let_def slots_wf_drop slots.wf_put jb_inv_def)
  moreover have "list_all (\<lambda>(k, v). slot_SequenceNumber v = k \<and> slot_Payload v \<noteq> []) (m_slots s')"
    using assms(1) \<open>pl \<noteq> []\<close>
    by (auto simp: m Let_def jb_inv_def intro!: list_all_drop list_all_put)
  ultimately show ?thesis
    using assms(1) RecalculateTarget_bounds [OF r] s' by (auto simp: jb_inv_def m Let_def)
qed


text \<open>What a ready frame does to the state.\<close>

lemma jb_NextPlayoutFrame_ready:
  "Ready (fst (jb_NextPlayoutFrame s now)) \<longleftrightarrow>
     m_started s \<and> m_firstPlayoutMs s + m_playoutIndex s * m_frameMs s \<le> now"
  by (auto simp: jb_NextPlayoutFrame_def Let_def VoipJitterFrame_default_def split: option.splits)

lemma jb_NextPlayoutFrame_not_ready:
  "\<not> Ready (fst (jb_NextPlayoutFrame s now)) \<Longrightarrow> snd (jb_NextPlayoutFrame s now) = s"
  by (auto simp: jb_NextPlayoutFrame_def Let_def VoipJitterFrame_default_def split: option.splits)

lemma jb_NextPlayoutFrame_state:
  assumes "Ready (fst (jb_NextPlayoutFrame s now))"
  defines "s' \<equiv> snd (jb_NextPlayoutFrame s now)"
  shows "m_frameMs s' = m_frameMs s" "m_started s'" "m_targetMs s' = m_targetMs s"
    "m_nextSequence s' = m_nextSequence s + 1" "m_playoutIndex s' = m_playoutIndex s + 1"
    "m_smoothedJitterMs s' = m_smoothedJitterMs s" "m_lastArrivalMs s' = m_lastArrivalMs s"
    "SequenceNumber (fst (jb_NextPlayoutFrame s now)) = m_nextSequence s"
    "slots_wf (m_slots s) \<Longrightarrow> m_slots s' = slots_erase (m_nextSequence s) (m_slots s)"
proof -
  have e: "map_of (m_slots s) k = None \<Longrightarrow> slots_erase k (m_slots s) = m_slots s" for k
    by (auto simp: slots_erase_def map_of_eq_None_iff filter_id_conv)
  have due: "m_started s" "\<not> now < m_firstPlayoutMs s + m_playoutIndex s * m_frameMs s"
    using assms(1) by (simp_all add: jb_NextPlayoutFrame_ready)
  note simps = jb_NextPlayoutFrame_def Let_def VoipJitterFrame_default_def s'_def
  show "m_frameMs s' = m_frameMs s" "m_started s'" "m_targetMs s' = m_targetMs s"
    "m_nextSequence s' = m_nextSequence s + 1" "m_playoutIndex s' = m_playoutIndex s + 1"
    "m_smoothedJitterMs s' = m_smoothedJitterMs s" "m_lastArrivalMs s' = m_lastArrivalMs s"
    "SequenceNumber (fst (jb_NextPlayoutFrame s now)) = m_nextSequence s"
    using due by (simp_all add: simps split: option.splits)
  show "m_slots s' = slots_erase (m_nextSequence s) (m_slots s)"
    using due by (auto simp: simps e split: option.splits)
qed

lemma jb_inv_NextPlayoutFrame:
  assumes inv: "jb_inv s"
  shows "jb_inv (snd (jb_NextPlayoutFrame s now))"
proof (cases "Ready (fst (jb_NextPlayoutFrame s now))")
  case False
  then show ?thesis using inv by (simp add: jb_NextPlayoutFrame_not_ready)
next
  case True
  note st = jb_NextPlayoutFrame_state [OF True]
  have wf: "slots_wf (m_slots s)" and len: "length (m_slots s) \<le> 64" using inv by (auto simp: jb_inv_def)
  then have "length (slots_erase k (m_slots s)) \<le> 64" for k
    using slots.size_erase_le [OF wf, of k] by simp
  moreover have "list_all P (m_slots s) \<Longrightarrow> list_all P (slots_erase k (m_slots s))" for P k
    by (simp add: list_all_iff slots_erase_def)
  ultimately show ?thesis
    using inv slots.wf_erase [OF wf] by (simp add: jb_inv_def st(1-7) st(9) [OF wf])
qed

interpretation jitter: reactive jb_step jb_inv_opt "Some (jb_new frameMs)" for frameMs
proof
  show "jb_inv_opt (Some (jb_new frameMs))" by (simp add: jb_inv_opt_def jb_inv_new)
  show "jb_inv_opt (jb_step so e)" if "jb_inv_opt so" for so e
    using that
    by (cases so; cases e)
      (auto simp: jb_inv_opt_def jb_inv_Reset jb_inv_NextPlayoutFrame
          intro: jb_inv_Insert split: option.splits)
qed

text \<open>
  Claim C31: however a client mixes \<open>Insert\<close>, \<open>NextPlayoutFrame\<close> and \<open>Reset\<close>, and whatever
  sequence numbers and arrival times the network delivers, a jitter buffer keeps its target
  delay between 60 and 180 ms, never holds more than 64 packets, keeps its slots in strictly
  increasing key order, files each packet under its own sequence number with a non-empty
  payload, and holds nothing before the first packet started it.
\<close>

theorem jitter_buffer_invariant:
  "case run_steps jb_step (Some (jb_new frameMs)) es of
     None \<Rightarrow> True
   | Some s \<Rightarrow>
       m_targetMs s \<in> {60..180} \<and> length (m_slots s) \<le> 64 \<and>
       sorted_wrt (<) (map fst (m_slots s)) \<and>
       list_all (\<lambda>(k, v). slot_SequenceNumber v = k \<and> slot_Payload v \<noteq> []) (m_slots s) \<and>
       (if m_started s then True else m_slots s = [])"
  using jitter.inv_run [of frameMs es]
  by (auto simp: jb_inv_opt_def jb_inv_def slots_wf_def split: option.splits)


section \<open>Playout\<close>

text \<open>The ready frames a run hands to the audio device.\<close>

fun jb_played :: "VoipJitterBuffer option \<Rightarrow> jb_event list \<Rightarrow> VoipJitterFrame list" where
  "jb_played so [] = []"
| "jb_played (Some s) (NextPlayoutFrame now # es) =
     (case jb_NextPlayoutFrame s now of
        (f, s') \<Rightarrow> (if Ready f then [f] else []) @ jb_played (Some s') es)"
| "jb_played so (e # es) = jb_played (jb_step so e) es"

lemma jb_Insert_started:
  assumes "jb_Insert s sq ts pl t = Some (e, s')" and "m_started s"
  shows "m_started s' \<and> m_nextSequence s' = m_nextSequence s \<and> m_frameMs s' = m_frameMs s
    \<and> m_firstPlayoutMs s' = m_firstPlayoutMs s \<and> m_playoutIndex s' = m_playoutIndex s"
proof (cases "pl = [] \<or> IsLate s sq")
  case True
  then show ?thesis using assms by (auto simp: jb_Insert_def split: if_splits)
next
  case False
  then have "pl \<noteq> []" "\<not> (m_started s \<and> IsLate s sq)" by auto
  with assms(1) show ?thesis by (rule jb_Insert_accepted) (use assms(2) in simp)
qed

lemma jb_played_None: "jb_played None es = []"
  by (induction es) auto

lemma jb_played_sequence:
  assumes "m_started s" and "Reset \<notin> set es"
  shows "map SequenceNumber (jb_played (Some s) es)
    = map (\<lambda>i. m_nextSequence s + of_nat i) [0..<length (jb_played (Some s) es)]"
  using assms
proof (induction es arbitrary: s)
  case Nil
  then show ?case by simp
next
  case (Cons e es)
  show ?case
  proof (cases e)
    case (Insert sq ts pl t)
    show ?thesis
    proof (cases "jb_Insert s sq ts pl t")
      case None
      with Insert show ?thesis by (simp add: jb_played_None)
    next
      case (Some p)
      obtain err s' where p: "p = (err, s')" by (cases p)
      with Some jb_Insert_started Cons.prems(1)
      have "m_started s'" "m_nextSequence s' = m_nextSequence s" by blast+
      with Cons.IH [of s'] Cons.prems Insert Some p show ?thesis by simp
    qed
  next
    case (NextPlayoutFrame now)
    obtain f s' where n: "jb_NextPlayoutFrame s now = (f, s')" by fastforce
    show ?thesis
    proof (cases "Ready f")
      case False
      then have "s' = s" using jb_NextPlayoutFrame_not_ready [of s now] n by simp
      then show ?thesis using Cons NextPlayoutFrame n False by simp
    next
      case True
      then have st: "m_started s'" "m_nextSequence s' = m_nextSequence s + 1"
        "SequenceNumber f = m_nextSequence s"
        using jb_NextPlayoutFrame_state [of s now] n by simp_all
      have "map SequenceNumber (jb_played (Some s') es)
          = map (\<lambda>i. m_nextSequence s + of_nat (Suc i)) [0..<length (jb_played (Some s') es)]"
        using Cons.IH [OF st(1)] Cons.prems(2) st(2) by (simp add: add.assoc)
      then show ?thesis
        using NextPlayoutFrame n True st(3) by (simp add: map_upt_Suc del: upt_Suc)
    qed
  next
    case Reset
    with Cons.prems show ?thesis by simp
  qed
qed

text \<open>
  Claim C32: playout is gapless and in order. Once started, the frames handed to the audio
  device carry consecutive sequence numbers (modulo \<open>2 ^ 16\<close>) from the next expected one,
  whatever packets arrive, late, early, twice or never, between the calls.
\<close>

theorem playout_gapless:
  assumes "m_started s" and "Reset \<notin> set es"
  shows "map SequenceNumber (jb_played (Some s) es)
    = map (\<lambda>i. m_nextSequence s + of_nat i) [0..<length (jb_played (Some s) es)]"
  using assms by (rule jb_played_sequence)

theorem playout_gapless_witness:
  "map SequenceNumber (jb_played (Some (jb_new 20\<lparr>m_started := True, m_nextSequence := 65535\<rparr>))
     [NextPlayoutFrame 0, Insert 1 960 [7] 5, NextPlayoutFrame 20, NextPlayoutFrame 40])
   = [65535, 0, 1]"
  using playout_gapless
    [of "jb_new 20\<lparr>m_started := True, m_nextSequence := 65535\<rparr>"
        "[NextPlayoutFrame 0, Insert 1 960 [7] 5, NextPlayoutFrame 20, NextPlayoutFrame 40]"]
  by (simp add: jb_new_def jb_Reset_def jb_NextPlayoutFrame_def VoipJitterFrame_default_def
      jb_Insert_def IsLate_def SequenceBefore_def RecalculateTarget_def TrimOverflow.simps
      jb_consts slots_erase_def VoipJitterStats_default_def)


section \<open>The conversion of the smoothed jitter is defined\<close>

text \<open>
  With arrivals spread over at most \<open>2 ^ 27\<close> ms (37 hours) and a frame time in that range, the
  smoothed jitter stays below \<open>2 ^ 28\<close>, so the \<open>static_cast<int>\<close> of four times it is defined.
  The rounding of every double operation is part of the argument.
\<close>

lemma rnd64_le_thousandth:
  assumes "0 \<le> x" and "x \<le> y" and "1 / 100 \<le> y"
  shows "rnd64 x \<le> y * (1001 / 1000)"
proof -
  have "pow2 (- 1074) \<le> 1 / 2 ^ 60"
    by (simp add: pow2_def field_simps)
  with rnd64_le [OF assms(1)] have "rnd64 x \<le> x + x / 2 ^ 53 + 1 / 2 ^ 60" by simp
  with assms show ?thesis by (simp add: field_simps)
qed

lemma c95_bounds: "0 \<le> rnd64 (95 / 100) \<and> rnd64 (95 / 100) \<le> 951 / 1000"
  using rnd64_le_thousandth [of "95 / 100" "95 / 100"] rnd64_nonneg [of "95 / 100"] by simp

lemma c5_bounds: "0 \<le> rnd64 (5 / 100) \<and> rnd64 (5 / 100) \<le> 51 / 1000"
  using rnd64_le_thousandth [of "5 / 100" "5 / 100"] rnd64_nonneg [of "5 / 100"] by simp

lemma dmul_bound:
  assumes "0 \<le> a" "0 \<le> b" "a \<le> A" "b \<le> B" "1 / 100 \<le> A * B"
  shows "dmul a b \<le> A * B * (1001 / 1000)"
proof -
  have "0 \<le> a * b" "a * b \<le> A * B"
    using assms by (auto intro: mult_mono order.trans)
  then show ?thesis using rnd64_le_thousandth assms(5) by (simp add: dmul_def)
qed

lemma smooth_bound:
  assumes "0 \<le> old" "old \<le> 2 ^ 28" "0 \<le> j" "j \<le> 2 ^ 27"
  shows "smooth old j \<le> 2 ^ 28"
proof (cases "old = 0")
  case True
  then show ?thesis using assms by (simp add: smooth_def)
next
  case False
  define p where "p = dmul old (rnd64 (95 / 100))"
  define q where "q = dmul j (rnd64 (5 / 100))"
  have p: "0 \<le> p" "p \<le> 2 ^ 28 * (951 / 1000) * (1001 / 1000)"
    unfolding p_def using assms c95_bounds dmul_bound [of old "rnd64 (95 / 100)" "2 ^ 28" "951 / 1000"]
    by (auto intro: dmul_nonneg)
  have q: "0 \<le> q" "q \<le> 2 ^ 27 * (51 / 1000) * (1001 / 1000)"
    unfolding q_def using assms c5_bounds dmul_bound [of j "rnd64 (5 / 100)" "2 ^ 27" "51 / 1000"]
    by (auto intro: dmul_nonneg)
  have "rnd64 (p + q) \<le> (2 ^ 28 * (99 / 100)) * (1001 / 1000)"
    using p q by (intro rnd64_le_thousandth) simp_all
  then show ?thesis
    using False by (simp add: smooth_def dadd_def p_def q_def)
qed

definition jb_calm :: "int \<Rightarrow> VoipJitterBuffer \<Rightarrow> bool" where
  "jb_calm T s \<longleftrightarrow>
     0 < m_frameMs s \<and> m_frameMs s \<le> 2 ^ 27 \<and>
     0 \<le> m_smoothedJitterMs s \<and> m_smoothedJitterMs s \<le> 2 ^ 28 \<and>
     (if 0 \<le> m_lastArrivalMs s then T \<le> m_lastArrivalMs s else True)"

lemma RecalculateTarget_defined:
  assumes "jb_calm T s" and "0 \<le> T" and "T \<le> t" and "t \<le> T + 2 ^ 27"
  obtains s' where "RecalculateTarget s t = Some s'" and "jb_calm T s'"
proof (cases "0 \<le> m_lastArrivalMs s")
  case False
  then show ?thesis using that assms by (simp add: RecalculateTarget_def jb_calm_def)
next
  case True
  let ?\<delta> = "(if t - m_lastArrivalMs s < 0 then 0 else t - m_lastArrivalMs s)"
  define j where "j = \<bar>of_i64 (?\<delta> - m_frameMs s)\<bar>"
  have d: "\<bar>?\<delta> - m_frameMs s\<bar> \<le> 2 ^ 27"
    using assms True by (auto simp: jb_calm_def)
  then have "of_i64 (?\<delta> - m_frameMs s) = of_int (?\<delta> - m_frameMs s)"
    by (intro of_i64_exact) simp
  then have j: "0 \<le> j" "j \<le> 2 ^ 27"
    unfolding j_def using d by (simp_all flip: of_int_abs add: of_int_le_iff [of _ "2 ^ 27", simplified])
  define sm where "sm = smooth (m_smoothedJitterMs s) j"
  have sm: "0 \<le> sm" "sm \<le> 2 ^ 28"
    unfolding sm_def using assms(1) j smooth_nonneg smooth_bound by (auto simp: jb_calm_def)
  have m: "0 \<le> dmul sm 4" "dmul sm 4 \<le> 2 ^ 28 * 4 * (1001 / 1000)"
    using sm dmul_bound [of sm 4 "2 ^ 28" 4] by (auto intro: dmul_nonneg)
  then have "\<lfloor>dmul sm 4\<rfloor> < 2 ^ 31" by (simp add: floor_less_iff)
  with m(1) have "to_i32 (dmul sm 4) = Some \<lfloor>dmul sm 4\<rfloor>"
    by (simp add: to_i32_def Let_def)
  then have "RecalculateTarget s t = Some (s\<lparr>m_smoothedJitterMs := sm,
      m_targetMs := ClampInt (kMinTargetMs + \<lfloor>dmul sm 4\<rfloor>) kMinTargetMs kMaxTargetMs,
      m_lastArrivalMs := t\<rparr>)"
    using True by (simp add: RecalculateTarget_def Let_def sm_def j_def)
  moreover have "jb_calm T (s\<lparr>m_smoothedJitterMs := sm,
      m_targetMs := ClampInt (kMinTargetMs + \<lfloor>dmul sm 4\<rfloor>) kMinTargetMs kMaxTargetMs,
      m_lastArrivalMs := t\<rparr>)"
    using assms sm by (simp add: jb_calm_def)
  ultimately show ?thesis by (rule that)
qed

fun arrives_in :: "int \<Rightarrow> jb_event \<Rightarrow> bool" where
  "arrives_in T (Insert sq ts pl t) \<longleftrightarrow> T \<le> t \<and> t \<le> T + 2 ^ 27"
| "arrives_in T _ \<longleftrightarrow> True"

lemma jb_step_calm:
  assumes "jb_calm T s" and "0 \<le> T" and "arrives_in T e"
  obtains s' where "jb_step (Some s) e = Some s'" and "jb_calm T s'"
proof (cases e)
  case (Insert sq ts pl t)
  show ?thesis
  proof (cases "pl = [] \<or> (m_started s \<and> IsLate s sq)")
    case True
    then have "jb_Insert s sq ts pl t \<noteq> None"
      by (auto simp: jb_Insert_def)
    then obtain err s' where i: "jb_Insert s sq ts pl t = Some (err, s')" by fastforce
    with True have "jb_calm T s'"
      using assms(1) by (auto simp: jb_Insert_def jb_calm_def split: if_splits)
    with i show ?thesis by (intro that [of s']) (simp_all add: Insert)
  next
    case False
    obtain s1 where "RecalculateTarget s t = Some s1" and "jb_calm T s1"
      using RecalculateTarget_defined [OF assms(1,2)] assms(3) Insert by auto
    with False have "jb_Insert s sq ts pl t \<noteq> None"
      by (simp add: jb_Insert_def Let_def)
    then obtain err s' where i: "jb_Insert s sq ts pl t = Some (err, s')" by fastforce
    from False have "pl \<noteq> []" "\<not> (m_started s \<and> IsLate s sq)" by auto
    with i have "jb_calm T s'"
      by (rule jb_Insert_accepted)
        (use \<open>RecalculateTarget s t = Some s1\<close> \<open>jb_calm T s1\<close>
          RecalculateTarget_frame [of s t s1] in \<open>auto simp: jb_calm_def split: if_splits\<close>)
    with i show ?thesis by (intro that [of s']) (simp_all add: Insert)
  qed
next
  case (NextPlayoutFrame now)
  have "jb_calm T (snd (jb_NextPlayoutFrame s now))"
    using assms(1) jb_NextPlayoutFrame_not_ready [of s now] jb_NextPlayoutFrame_state [of s now]
    by (cases "Ready (fst (jb_NextPlayoutFrame s now))") (simp_all add: jb_calm_def)
  then show ?thesis using that NextPlayoutFrame by simp
next
  case Reset
  then show ?thesis using that assms(1) by (simp add: jb_Reset_def jb_calm_def)
qed

lemma run_calm:
  assumes "jb_calm T s" and "0 \<le> T" and "list_all (arrives_in T) es"
  shows "run_steps jb_step (Some s) es \<noteq> None"
  using assms
proof (induction es arbitrary: s)
  case Nil
  then show ?case by simp
next
  case (Cons e es)
  from Cons.prems obtain s' where "jb_step (Some s) e = Some s'" and "jb_calm T s'"
    by (auto elim: jb_step_calm)
  then show ?case using Cons by simp
qed

text \<open>
  No run of a jitter buffer whose packets arrive within 37 hours of one another
  reaches undefined behaviour: the conversion of the smoothed jitter to \<open>int\<close> is always in
  range, rounding of the doubles included.
\<close>

theorem jitter_buffer_defined:
  assumes "0 \<le> T" and "frameMs \<le> 2 ^ 27" and "list_all (arrives_in T) es"
  shows "run_steps jb_step (Some (jb_new frameMs)) es \<noteq> None"
proof (rule run_calm)
  show "jb_calm T (jb_new frameMs)"
    using assms(2) by (simp add: jb_calm_def jb_new_def jb_Reset_def)
qed (use assms in simp_all)

theorem jitter_buffer_defined_witness:
  "run_steps jb_step (Some (jb_new 20)) [Insert 5 0 [1] 1000, Insert 4 0 [1] 900000, Reset] \<noteq> None"
  by (rule jitter_buffer_defined [of 1000]) simp_all

text \<open>
  When the buffer is full, a packet whose number is below every buffered one is the one that
  overflow removes, although it is not late: after a wrap of the sequence number the newest
  packet has the smallest key.
\<close>

lemma overflow_drops_new_packet:
  assumes "jb_Insert s sq ts pl t = Some (e, s')" and "pl \<noteq> []" and "\<not> IsLate s sq"
    and "length (m_slots s) = 64" and "\<forall>k \<in> fst ` set (m_slots s). sq < k"
  shows "m_slots s' = m_slots s" and "PacketsInserted (m_stats s') = PacketsInserted (m_stats s) + 1"
proof -
  from assms(2,3) have "\<not> (m_started s \<and> IsLate s sq)" by simp
  with assms(1,2) have "m_slots s' = m_slots s \<and>
      PacketsInserted (m_stats s') = PacketsInserted (m_stats s) + 1"
    by (rule jb_Insert_accepted) (use assms(4,5) in \<open>cases "m_slots s"; auto simp: Let_def\<close>)
  then show "m_slots s' = m_slots s"
    and "PacketsInserted (m_stats s') = PacketsInserted (m_stats s) + 1" by simp_all
qed

end
