(* ===== verification/MediaSession.thy ===== *)
theory MediaSession
  imports VoipTypes Complex_Main
begin

text \<open>
  The media session of one call: \<open>domain/voip_media_session.h\<close> and
  \<open>domain/voip_media_session.cpp\<close>. The class is a state machine over
  \<open>Idle, Prepared, Connecting, Active, Stopped\<close>; every public method that changes state is a
  definition here, returning the \<open>VoipError\<close> with the new object. Counters wrap at 32 bits.
  The float statistics only ever hold their initial zero and are kept as one rational each.
\<close>

section \<open>State\<close>

datatype VoipMediaState = Idle | Prepared | Connecting | Active | Stopped

record VoipMediaStats =
  OutboundLevel :: rat
  InboundLevel :: rat
  PacketLossPercent :: rat
  RttMs :: int
  BitrateBps :: int
  Underruns :: int
  PacketsSent :: u32
  PacketsReceived :: u32
  ms_PacketsLost :: u32
  BytesSent :: u32
  BytesReceived :: u32

definition VoipMediaStats_default :: VoipMediaStats where
  "VoipMediaStats_default = \<lparr>OutboundLevel = 0, InboundLevel = 0, PacketLossPercent = 0,
     RttMs = 0, BitrateBps = 0, Underruns = 0, PacketsSent = 0, PacketsReceived = 0,
     ms_PacketsLost = 0, BytesSent = 0, BytesReceived = 0\<rparr>"

record VoipMediaSession =
  ms_state :: VoipMediaState
  ms_callId :: int
  ms_keyHandle :: string
  ms_endpoint :: VoipEndpoint
  ms_muted :: bool
  ms_speakerOn :: bool
  ms_stats :: VoipMediaStats

definition ms_new :: VoipMediaSession where
  "ms_new = \<lparr>ms_state = Idle, ms_callId = 0, ms_keyHandle = [],
     ms_endpoint = VoipEndpoint_default, ms_muted = False, ms_speakerOn = False,
     ms_stats = VoipMediaStats_default\<rparr>"

record VoipMediaSnapshot =
  snap_State :: VoipMediaState
  snap_CallId :: int
  snap_Endpoint :: VoipEndpoint
  snap_Muted :: bool
  snap_SpeakerOn :: bool
  snap_Stats :: VoipMediaStats


section \<open>Operations\<close>

definition ms_HasAddress :: "VoipEndpoint \<Rightarrow> bool" where
  "ms_HasAddress endpoint \<longleftrightarrow> Ip endpoint \<noteq> [] \<or> Ipv6 endpoint \<noteq> []"

definition ms_Prepare ::
    "VoipMediaSession \<Rightarrow> int \<Rightarrow> string \<Rightarrow> VoipEndpoint \<Rightarrow> VoipError \<times> VoipMediaSession" where
  "ms_Prepare s callId keyHandle endpoint =
     (if callId \<le> 0 then (Invalid ''media session callId must be positive'', s)
      else if keyHandle = [] then (Invalid ''media session key handle is missing'', s)
      else if Port endpoint \<le> 0 \<or> Port endpoint > 65535 then
        (Invalid ''media session endpoint port is invalid'', s)
      else if \<not> ms_HasAddress endpoint then
        (Invalid ''media session endpoint address is missing'', s)
      else if PeerTag endpoint = [] then
        (Invalid ''media session reflector peer_tag is missing'', s)
      else if ms_state s \<noteq> Idle \<and> ms_state s \<noteq> Stopped \<and> ms_callId s \<noteq> callId then
        (Invalid ''another media session is already prepared'', s)
      else (VoipError_Ok, s\<lparr>ms_state := Prepared, ms_callId := callId,
              ms_keyHandle := keyHandle, ms_endpoint := endpoint, ms_muted := False,
              ms_speakerOn := False, ms_stats := VoipMediaStats_default\<rparr>))"

definition ms_MarkConnecting :: "VoipMediaSession \<Rightarrow> VoipError \<times> VoipMediaSession" where
  "ms_MarkConnecting s =
     (if ms_state s \<noteq> Prepared then
        (Invalid ''media session must be prepared before connecting'', s)
      else (VoipError_Ok, s\<lparr>ms_state := Connecting\<rparr>))"

definition ms_MarkActive :: "VoipMediaSession \<Rightarrow> VoipError \<times> VoipMediaSession" where
  "ms_MarkActive s =
     (if ms_state s \<noteq> Connecting \<and> ms_state s \<noteq> Prepared then
        (Invalid ''media session must be prepared or connecting before active'', s)
      else (VoipError_Ok, s\<lparr>ms_state := Active\<rparr>))"

definition ms_SetMuted :: "VoipMediaSession \<Rightarrow> bool \<Rightarrow> VoipError \<times> VoipMediaSession" where
  "ms_SetMuted s muted =
     (if ms_state s = Idle \<or> ms_state s = Stopped then
        (Invalid ''media session is not started'', s)
      else (VoipError_Ok, s\<lparr>ms_muted := muted\<rparr>))"

definition ms_SetSpeaker :: "VoipMediaSession \<Rightarrow> bool \<Rightarrow> VoipError \<times> VoipMediaSession" where
  "ms_SetSpeaker s on =
     (if ms_state s = Idle \<or> ms_state s = Stopped then
        (Invalid ''media session is not started'', s)
      else (VoipError_Ok, s\<lparr>ms_speakerOn := on\<rparr>))"

definition ms_RecordProbeSuccess ::
    "VoipMediaSession \<Rightarrow> u32 \<Rightarrow> u32 \<Rightarrow> int \<Rightarrow> VoipMediaSession" where
  "ms_RecordProbeSuccess s bytesSent bytesReceived rttMs =
     (let st = ms_stats s;
          st = st\<lparr>PacketsSent := PacketsSent st + 1, PacketsReceived := PacketsReceived st + 1,
                 BytesSent := BytesSent st + bytesSent,
                 BytesReceived := BytesReceived st + bytesReceived\<rparr>;
          st = (if rttMs > 0 then st\<lparr>RttMs := rttMs\<rparr> else st)
      in s\<lparr>ms_stats := st\<lparr>PacketLossPercent := 0\<rparr>\<rparr>)"

definition ms_RecordHandshake ::
    "VoipMediaSession \<Rightarrow> u32 \<Rightarrow> u32 \<Rightarrow> u32 \<Rightarrow> u32 \<Rightarrow> int \<Rightarrow> VoipMediaSession" where
  "ms_RecordHandshake s packetsSent packetsReceived bytesSent bytesReceived rttMs =
     (let st = ms_stats s;
          st = st\<lparr>PacketsSent := PacketsSent st + packetsSent,
                 PacketsReceived := PacketsReceived st + packetsReceived,
                 BytesSent := BytesSent st + bytesSent,
                 BytesReceived := BytesReceived st + bytesReceived\<rparr>;
          st = (if rttMs > 0 then st\<lparr>RttMs := rttMs\<rparr> else st)
      in s\<lparr>ms_stats := st\<lparr>PacketLossPercent := 0\<rparr>\<rparr>)"

definition ms_Stop :: "VoipMediaSession \<Rightarrow> VoipMediaSession" where
  "ms_Stop s = s\<lparr>ms_state := Stopped, ms_callId := 0, ms_keyHandle := [],
     ms_endpoint := VoipEndpoint_default, ms_muted := False, ms_speakerOn := False,
     ms_stats := VoipMediaStats_default\<rparr>"

definition ms_Snapshot :: "VoipMediaSession \<Rightarrow> VoipMediaSnapshot" where
  "ms_Snapshot s = \<lparr>snap_State = ms_state s, snap_CallId = ms_callId s,
     snap_Endpoint = ms_endpoint s, snap_Muted = ms_muted s, snap_SpeakerOn = ms_speakerOn s,
     snap_Stats = ms_stats s\<rparr>"

datatype ms_event = Prepare int string VoipEndpoint | MarkConnecting | MarkActive
  | SetMuted bool | SetSpeaker bool | RecordProbeSuccess u32 u32 int
  | RecordHandshake u32 u32 u32 u32 int | Stop

fun ms_step :: "VoipMediaSession \<Rightarrow> ms_event \<Rightarrow> VoipMediaSession" where
  "ms_step s (Prepare c k e) = snd (ms_Prepare s c k e)"
| "ms_step s MarkConnecting = snd (ms_MarkConnecting s)"
| "ms_step s MarkActive = snd (ms_MarkActive s)"
| "ms_step s (SetMuted b) = snd (ms_SetMuted s b)"
| "ms_step s (SetSpeaker b) = snd (ms_SetSpeaker s b)"
| "ms_step s (RecordProbeSuccess b r t) = ms_RecordProbeSuccess s b r t"
| "ms_step s (RecordHandshake p q b r t) = ms_RecordHandshake s p q b r t"
| "ms_step s Stop = ms_Stop s"

lemmas ms_defs = ms_Prepare_def ms_MarkConnecting_def ms_MarkActive_def ms_SetMuted_def
  ms_SetSpeaker_def ms_RecordProbeSuccess_def ms_RecordHandshake_def ms_Stop_def


section \<open>The invariant\<close>

definition ms_live :: "VoipMediaState \<Rightarrow> bool" where
  "ms_live st \<longleftrightarrow> st = Prepared \<or> st = Connecting \<or> st = Active"

definition ms_inv :: "VoipMediaSession \<Rightarrow> bool" where
  "ms_inv s \<longleftrightarrow>
     (if ms_live (ms_state s)
      then 0 < ms_callId s \<and> ms_keyHandle s \<noteq> [] \<and> 0 < Port (ms_endpoint s) \<and>
        Port (ms_endpoint s) \<le> 65535 \<and> ms_HasAddress (ms_endpoint s) \<and>
        PeerTag (ms_endpoint s) \<noteq> []
      else ms_callId s = 0 \<and> ms_keyHandle s = [] \<and> ms_endpoint s = VoipEndpoint_default \<and>
        \<not> ms_muted s \<and> \<not> ms_speakerOn s) \<and>
     0 \<le> RttMs (ms_stats s) \<and> PacketLossPercent (ms_stats s) = 0"

lemma ms_inv_new: "ms_inv ms_new"
  by (simp add: ms_inv_def ms_new_def ms_live_def VoipMediaStats_default_def)

lemma ms_inv_step: "ms_inv s \<Longrightarrow> ms_inv (ms_step s e)"
  by (cases "ms_state s"; cases e)
    (auto simp: ms_inv_def ms_defs ms_live_def VoipMediaStats_default_def Let_def split: if_splits)

interpretation media: reactive ms_step ms_inv ms_new
  by unfold_locales (simp_all add: ms_inv_new ms_inv_step)

text \<open>
  In any sequence of calls, a session that is prepared, connecting or active has a
  positive call id, a key handle, a port in 1..65535, an address and a peer tag; an idle or
  stopped one holds no call, no key, no endpoint and no mute or speaker setting, so nothing of
  one call reaches the next. The recorded round-trip time is never negative.
\<close>

theorem media_session_invariant:
  "let s = run_steps ms_step ms_new es in
     (if ms_state s \<in> {Prepared, Connecting, Active}
      then 0 < ms_callId s \<and> ms_keyHandle s \<noteq> [] \<and> Port (ms_endpoint s) \<in> {1..65535} \<and>
        ms_HasAddress (ms_endpoint s) \<and> PeerTag (ms_endpoint s) \<noteq> []
      else ms_callId s = 0 \<and> ms_keyHandle s = [] \<and> ms_endpoint s = VoipEndpoint_default \<and>
        \<not> (ms_muted s) \<and> \<not> (ms_speakerOn s)) \<and>
     0 \<le> RttMs (ms_stats s)"
  using media.inv_run [of es] by (auto simp: ms_inv_def ms_live_def Let_def)


section \<open>The state graph\<close>

text \<open>The abstract machine: the states and the moves between them.\<close>

inductive media_edge :: "VoipMediaState \<Rightarrow> VoipMediaState \<Rightarrow> bool" where
  prepare: "media_edge st Prepared"
| connect: "media_edge Prepared Connecting"
| activate: "st = Prepared \<or> st = Connecting \<Longrightarrow> media_edge st Active"
| stop: "media_edge st Stopped"

inductive_cases media_edge_to_Active: "media_edge st Active"
inductive_cases media_edge_to_Connecting: "media_edge st Connecting"
inductive_simps media_edge_Idle: "media_edge st Idle"

lemma ms_step_edge:
  "ms_state (ms_step s e) = ms_state s \<or> media_edge (ms_state s) (ms_state (ms_step s e))"
  by (cases e) (auto simp: ms_defs Let_def intro: media_edge.intros)

text \<open>The states a run goes through, the first included.\<close>

fun ms_states :: "VoipMediaSession \<Rightarrow> ms_event list \<Rightarrow> VoipMediaState list" where
  "ms_states s [] = [ms_state s]"
| "ms_states s (e # es) = ms_state s # ms_states (ms_step s e) es"

lemma ms_states_nonempty [simp]: "ms_states s es \<noteq> []"
  by (cases es) auto

lemma hd_ms_states [simp]: "hd (ms_states s es) = ms_state s"
  by (cases es) auto

lemma ms_states_path:
  "successively (\<lambda>a b. a = b \<or> media_edge a b) (ms_states s es)"
proof (induction es arbitrary: s)
  case Nil
  then show ?case by simp
next
  case (Cons e es)
  then show ?case using ms_step_edge [of s e] by (auto simp: successively_Cons)
qed

lemma active_after_prepared:
  assumes "media_edge\<^sup>*\<^sup>* Idle Active"
  shows "media_edge\<^sup>*\<^sup>* Idle Prepared"
  by (rule r_into_rtranclp) (rule media_edge.prepare)

text \<open>
  Claim C34: the detailed session implements the state graph. Each call leaves the state as it
  is or takes one edge of \<open>media_edge\<close>, so over any run a session becomes active only from
  prepared or connecting, connects only from prepared, and never becomes idle again.
\<close>

theorem media_session_refines_graph:
  "successively (\<lambda>a b. a = b \<or> media_edge a b) (ms_states ms_new es) \<and>
   (media_edge a Active \<longleftrightarrow> a = Prepared \<or> a = Connecting) \<and>
   (media_edge a Connecting \<longleftrightarrow> a = Prepared) \<and> \<not> media_edge a Idle"
  using ms_states_path [of ms_new es]
  by (auto intro: media_edge.intros elim: media_edge_to_Active media_edge_to_Connecting
      simp: media_edge_Idle)

text \<open>No call but \<open>Stop\<close> changes the call of a live session: a second \<open>Prepare\<close> for another
  call is refused.\<close>

lemma ms_step_same_call:
  assumes "ms_live (ms_state s)" and "e \<noteq> Stop"
  shows "ms_live (ms_state (ms_step s e)) \<and> ms_callId (ms_step s e) = ms_callId s"
  using assms by (cases e) (auto simp: ms_defs ms_live_def Let_def)

lemma ms_run_same_call:
  assumes "ms_live (ms_state s)" and "Stop \<notin> set es"
  shows "ms_live (ms_state (run_steps ms_step s es)) \<and>
    ms_callId (run_steps ms_step s es) = ms_callId s"
  using assms by (induction es arbitrary: s) (auto simp: ms_step_same_call)

text \<open>
  While a session is live it stays live and keeps its call id, whatever is called
  on it, until \<open>Stop\<close>: a stray \<open>Prepare\<close> for another call cannot take it over.
\<close>

theorem media_session_not_taken_over:
  assumes "ms_state s \<in> {Prepared, Connecting, Active}" and "Stop \<notin> set es"
  shows "ms_state (run_steps ms_step s es) \<in> {Prepared, Connecting, Active} \<and>
    ms_callId (run_steps ms_step s es) = ms_callId s"
  using ms_run_same_call [of s es] assms by (auto simp: ms_live_def)

theorem media_session_not_taken_over_witness:
  "ms_callId (run_steps ms_step (ms_new\<lparr>ms_state := Active, ms_callId := 7\<rparr>)
     [Prepare 8 ''k'' VoipEndpoint_default, SetMuted True]) = 7"
  using media_session_not_taken_over
    [of "ms_new\<lparr>ms_state := Active, ms_callId := 7\<rparr>"
        "[Prepare 8 ''k'' VoipEndpoint_default, SetMuted True]"]
  by simp

end
