(* ===== verification/Primitives.thy ===== *)
theory Primitives
  imports Interfaces
begin

text \<open>
  The cryptographic primitives of \<open>vianium-crypto\<close> are not part of this repository's sources:
  they are parameters of the definitions that use them. A hash or a block cipher fills a C
  array of fixed size, so it is a function giving the byte at each index, and its output has
  the right length whatever the parameter. The random generator gives the bytes of one call.
\<close>

type_synonym hash_fn = "bytes \<Rightarrow> nat \<Rightarrow> u8"
type_synonym mac_fn = "bytes \<Rightarrow> bytes \<Rightarrow> nat \<Rightarrow> u8"
type_synonym block_fn = "bytes \<Rightarrow> bytes \<Rightarrow> nat \<Rightarrow> u8"
type_synonym random_fn = "nat \<Rightarrow> u8"

text \<open>\<open>fill n f\<close> is an array of \<open>n\<close> bytes written by the primitive.\<close>

definition fill :: "nat \<Rightarrow> (nat \<Rightarrow> u8) \<Rightarrow> bytes" where
  "fill n f = map f [0..<n]"

lemma length_fill [simp]: "length (fill n f) = n"
  by (simp add: fill_def)

lemma fill_nth_id: "fill (length b) (\<lambda>i. b ! i) = b"
  by (simp add: fill_def map_nth)

text \<open>The same bytes as a block cipher that copies its input: an instance on which the laws
  of a block cipher hold.\<close>

definition copy_block :: block_fn where
  "copy_block k b i = (if i < length b then b ! i else 0)"

lemma fill_copy_block: "length b = n \<Longrightarrow> fill n (copy_block k b) = b"
  by (auto simp: fill_def copy_block_def intro!: nth_equalityI)

unbundle bit_operations_syntax

definition xor_bytes :: "bytes \<Rightarrow> bytes \<Rightarrow> bytes" where
  "xor_bytes a b = map2 (XOR) a b"

lemma length_xor_bytes [simp]: "length (xor_bytes a b) = min (length a) (length b)"
  by (simp add: xor_bytes_def)

lemma xor_bytes_cancel [simp]:
  "length a \<le> length b \<Longrightarrow> xor_bytes (xor_bytes a b) b = a"
  by (auto simp: xor_bytes_def xor.assoc intro!: nth_equalityI)

lemma xor_bytes_Nil [simp]: "xor_bytes [] b = []" "xor_bytes a [] = []"
  by (simp_all add: xor_bytes_def)

lemma xor_cancel_both: "((a :: u8) XOR k) XOR (b XOR k) = a XOR b"
proof -
  have "(a XOR k) XOR (b XOR k) = a XOR (b XOR (k XOR k))" by (simp only: ac_simps)
  then show ?thesis by simp
qed

lemma xor_eq_0_iff_eq: "(a :: u8) XOR b = 0 \<longleftrightarrow> a = b"
proof
  assume "a XOR b = 0"
  then have "(a XOR b) XOR b = 0 XOR b" by simp
  then show "a = b" by (simp add: xor.assoc)
qed simp

lemma xor_bytes_same: "length m = length m' \<Longrightarrow> length m \<le> length k \<Longrightarrow>
    xor_bytes (xor_bytes m k) (xor_bytes m' k) = xor_bytes m m'"
  by (auto simp: xor_bytes_def xor_cancel_both intro!: nth_equalityI)


section \<open>Big-endian numbers\<close>

text \<open>The number a byte string stands for, most significant byte first.\<close>

definition be_value :: "bytes \<Rightarrow> nat" where
  "be_value bs = foldl (\<lambda>v b. v * 256 + unat b) 0 bs"

lemma be_value_fold: "foldl (\<lambda>v b. v * 256 + unat b) v (bs :: bytes) = v * 256 ^ length bs + be_value bs"
proof (induction bs arbitrary: v)
  case (Cons b bs)
  have "foldl (\<lambda>v b. v * 256 + unat b) v (b # bs) = (v * 256 + unat b) * 256 ^ length bs + be_value bs"
    using Cons [of "v * 256 + unat b"] by simp
  moreover have "be_value (b # bs) = unat b * 256 ^ length bs + be_value bs"
    using Cons [of "unat b"] by (simp add: be_value_def)
  ultimately show ?case by (simp add: algebra_simps)
qed (simp add: be_value_def)

lemma be_value_simps [simp]:
  "be_value [] = 0" "be_value (b # bs) = unat b * 256 ^ length bs + be_value bs"
  "be_value (bs @ cs) = be_value bs * 256 ^ length cs + be_value cs"
  using be_value_fold [of "unat b" bs] be_value_fold [of "be_value bs" cs]
  by (simp_all add: be_value_def)

lemma be_value_zeros [simp]: "be_value (replicate n 0) = 0"
  by (induction n) simp_all

lemma be_value_less: "be_value bs < 256 ^ length bs"
proof (induction bs)
  case (Cons b bs)
  have "unat b < 2 ^ LENGTH(8)" by (rule unsigned_less)
  then have "unat b + 1 \<le> 256" by simp
  then have "(unat b + 1) * 256 ^ length bs \<le> 256 * 256 ^ length bs" by (rule mult_le_mono1)
  moreover have "be_value (b # bs) < (unat b + 1) * 256 ^ length bs" using Cons by simp
  ultimately have "be_value (b # bs) < 256 * 256 ^ length bs" by (rule order.strict_trans2 [rotated])
  then show ?case by (simp only: length_Cons power_Suc)
qed simp

end
