(* ===== verification/PacketCrypto.thy ===== *)
theory PacketCrypto
  imports Primitives
begin

text \<open>
  The relay packet encryption of \<open>domain/voip_packet_crypto.cpp\<close> (MTProto 2, short form):
  \<open>peer_tag | msg_key | AES-256-IGE (length | plain | padding)\<close>. SHA-256, the AES block and the
  random padding are parameters. The theorems: what one side encrypts the other side decrypts,
  and what a successful decryption has checked.
\<close>

unbundle bit_operations_syntax

section \<open>Definitions\<close>

definition kSharedKeyBytes :: nat where "kSharedKeyBytes = 256"
definition kPeerTagBytes :: nat where "kPeerTagBytes = 16"
definition kMsgKeyBytes :: nat where "kMsgKeyBytes = 16"
definition kAesBlockBytes :: nat where "kAesBlockBytes = 16"
definition kMaxPlainBytes :: nat where "kMaxPlainBytes = 1200"

lemmas pc_consts = kSharedKeyBytes_def kPeerTagBytes_def kMsgKeyBytes_def kAesBlockBytes_def
  kMaxPlainBytes_def

record VoipEncryptedPacketResult =
  Success :: bool
  Error :: string
  Bytes :: bytes
  Plain :: bytes

definition pc_Fail :: "string \<Rightarrow> VoipEncryptedPacketResult" where
  "pc_Fail message = \<lparr>Success = False, Error = message, Bytes = [], Plain = []\<rparr>"

definition WriteLE16 :: "bytes \<Rightarrow> nat \<Rightarrow> u16 \<Rightarrow> bytes" where
  "WriteLE16 out offset value =
     out[offset := ucast (value AND 0xFF), offset + 1 := ucast (drop_bit 8 value AND 0xFF)]"

definition ReadLE16 :: "bytes \<Rightarrow> u16" where
  "ReadLE16 bs = ucast (bs ! 0) OR push_bit 8 (ucast (bs ! 1))"

definition Kdf2 :: "hash_fn \<Rightarrow> bytes \<Rightarrow> bytes \<Rightarrow> nat \<Rightarrow> bytes \<times> bytes" where
  "Kdf2 sha sharedKey msgKey x =
     (let sA = fill 32 (sha (msgKey @ take 36 (drop x sharedKey)));
          sB = fill 32 (sha (take 36 (drop (40 + x) sharedKey) @ msgKey));
          aesKey = take 8 sA @ take 16 (drop 8 sB) @ take 8 (drop 24 sA);
          aesIv = take 8 sB @ take 16 (drop 8 sA) @ take 8 (drop 24 sB)
      in (aesKey, aesIv))"

text \<open>The loops over the blocks; \<open>Xor16\<close> is \<^const>\<open>xor_bytes\<close> on 16-byte arrays.\<close>

fun ige_encrypt_blocks :: "block_fn \<Rightarrow> bytes \<Rightarrow> nat \<Rightarrow> bytes \<Rightarrow> bytes \<Rightarrow> bytes \<Rightarrow> bytes" where
  "ige_encrypt_blocks enc key 0 prevC prevP inp = []"
| "ige_encrypt_blocks enc key (Suc blocks) prevC prevP inp =
     (let curP = take 16 inp;
          tmp = xor_bytes curP prevC;
          cBlock = xor_bytes (fill 16 (enc key tmp)) prevP
      in cBlock @ ige_encrypt_blocks enc key blocks cBlock curP (drop 16 inp))"

fun ige_decrypt_blocks :: "block_fn \<Rightarrow> bytes \<Rightarrow> nat \<Rightarrow> bytes \<Rightarrow> bytes \<Rightarrow> bytes \<Rightarrow> bytes" where
  "ige_decrypt_blocks dec key 0 prevC prevP inp = []"
| "ige_decrypt_blocks dec key (Suc blocks) prevC prevP inp =
     (let curC = take 16 inp;
          tmp = xor_bytes curC prevP;
          pBlock = xor_bytes (fill 16 (dec key tmp)) prevC
      in pBlock @ ige_decrypt_blocks dec key blocks curC pBlock (drop 16 inp))"

definition EncryptIge :: "block_fn \<Rightarrow> bytes \<Rightarrow> bytes \<Rightarrow> bytes \<Rightarrow> bytes option" where
  "EncryptIge enc key iv inp =
     (if length inp = 0 \<or> length inp mod kAesBlockBytes \<noteq> 0 then None
      else Some (ige_encrypt_blocks enc key (length inp div kAesBlockBytes)
                   (take 16 iv) (take 16 (drop 16 iv)) inp))"

definition DecryptIge :: "block_fn \<Rightarrow> bytes \<Rightarrow> bytes \<Rightarrow> bytes \<Rightarrow> bytes option" where
  "DecryptIge dec key iv inp =
     (if length inp = 0 \<or> length inp mod kAesBlockBytes \<noteq> 0 then None
      else Some (ige_decrypt_blocks dec key (length inp div kAesBlockBytes)
                   (take 16 iv) (take 16 (drop 16 iv)) inp))"

definition ValidateSharedKey :: "bytes \<Rightarrow> bool" where
  "ValidateSharedKey sharedKey \<longleftrightarrow> length sharedKey = kSharedKeyBytes"

definition pc_ValidatePeerTag :: "bytes \<Rightarrow> bool" where
  "pc_ValidatePeerTag peerTag \<longleftrightarrow> length peerTag = kPeerTagBytes"

definition pc_SamePeerTag :: "bytes \<Rightarrow> bytes \<Rightarrow> bool" where
  "pc_SamePeerTag bs expectedPeerTag \<longleftrightarrow>
     (if expectedPeerTag = [] then True
      else if \<not> pc_ValidatePeerTag expectedPeerTag then False
      else list_all (\<lambda>i. bs ! i = expectedPeerTag ! i) [0..<length expectedPeerTag])"

definition DirectionOffset :: "bool \<Rightarrow> bool \<Rightarrow> nat" where
  "DirectionOffset localIsOutgoing sending =
     (if sending then (if localIsOutgoing then 0 else 8)
      else (if localIsOutgoing then 8 else 0))"

text \<open>The inner packet: the length, the plaintext, and 16 to 31 bytes of random padding up to
  a block boundary; and the 16 bytes in the middle of its keyed hash.\<close>

definition relay_inner :: "random_fn \<Rightarrow> bytes \<Rightarrow> bytes" where
  "relay_inner rnd plain =
     (let inner = WriteLE16 (replicate 2 0) 0 (of_nat (length plain)) @ plain;
          padLen = kAesBlockBytes - length inner mod kAesBlockBytes;
          padLen = (if padLen < kAesBlockBytes then padLen + kAesBlockBytes else padLen)
      in inner @ fill padLen rnd)"

definition relay_msg_key :: "hash_fn \<Rightarrow> bytes \<Rightarrow> nat \<Rightarrow> bytes \<Rightarrow> bytes" where
  "relay_msg_key sha sharedKey x inner =
     take 16 (drop 8 (fill 32 (sha (take 32 (drop (88 + x) sharedKey) @ inner))))"

definition EncryptRelayPacketMtProto2Short ::
    "hash_fn \<Rightarrow> block_fn \<Rightarrow> random_fn \<Rightarrow> bytes \<Rightarrow> bool \<Rightarrow> bytes \<Rightarrow> bytes \<Rightarrow>
     VoipEncryptedPacketResult" where
  "EncryptRelayPacketMtProto2Short sha enc rnd sharedKey localIsOutgoing peerTag plain =
     (if \<not> ValidateSharedKey sharedKey then
        pc_Fail ''VoIP shared key must be exactly 256 bytes''
      else if \<not> pc_ValidatePeerTag peerTag then
        pc_Fail ''VoIP relay peer_tag must be exactly 16 bytes''
      else if plain = [] \<or> length plain > kMaxPlainBytes then
        pc_Fail ''VoIP plaintext packet length is invalid''
      else
        (let inner = relay_inner rnd plain;
             x = DirectionOffset localIsOutgoing True;
             msgKey = relay_msg_key sha sharedKey x inner
         in case Kdf2 sha sharedKey msgKey x of (aesKey, aesIv) \<Rightarrow>
              (case EncryptIge enc aesKey aesIv inner of
                 None \<Rightarrow> pc_Fail ''VoIP AES-IGE encryption failed''
               | Some encrypted \<Rightarrow>
                   \<lparr>Success = True, Error = [], Bytes = peerTag @ msgKey @ encrypted,
                    Plain = plain\<rparr>)))"

text \<open>A null pointer comes with the length 0 and takes the same branch as a short packet.\<close>

definition DecryptRelayPacketMtProto2Short ::
    "hash_fn \<Rightarrow> block_fn \<Rightarrow> bytes \<Rightarrow> bool \<Rightarrow> bytes \<Rightarrow> bytes \<Rightarrow> VoipEncryptedPacketResult" where
  "DecryptRelayPacketMtProto2Short sha dec sharedKey localIsOutgoing expectedPeerTag bs =
     (if \<not> ValidateSharedKey sharedKey then
        pc_Fail ''VoIP shared key must be exactly 256 bytes''
      else if length bs < kPeerTagBytes + kMsgKeyBytes + kAesBlockBytes then
        pc_Fail ''VoIP encrypted packet is too short''
      else if expectedPeerTag \<noteq> [] \<and> \<not> pc_SamePeerTag bs expectedPeerTag then
        pc_Fail ''VoIP relay peer_tag mismatch''
      else
        (let msgKey = take 16 (drop kPeerTagBytes bs);
             encrypted = drop (kPeerTagBytes + kMsgKeyBytes) bs in
         if length encrypted mod kAesBlockBytes \<noteq> 0 then
           pc_Fail ''VoIP encrypted packet length is not block aligned''
         else
           (let x = DirectionOffset localIsOutgoing False in
            case Kdf2 sha sharedKey msgKey x of (aesKey, aesIv) \<Rightarrow>
              (case DecryptIge dec aesKey aesIv encrypted of
                 None \<Rightarrow> pc_Fail ''VoIP AES-IGE decryption failed''
               | Some decrypted \<Rightarrow>
                   (if msgKey \<noteq> relay_msg_key sha sharedKey x decrypted then
                      pc_Fail ''VoIP encrypted packet msg_key mismatch''
                    else
                      (let plainLen = unat (ReadLE16 decrypted) in
                       if plainLen = 0 \<or> plainLen > length decrypted - 2 then
                         pc_Fail ''VoIP encrypted packet inner length is invalid''
                       else if length decrypted - plainLen < 16 then
                         pc_Fail ''VoIP encrypted packet padding is too short''
                       else
                         \<lparr>Success = True, Error = [], Bytes = bs,
                          Plain = take plainLen (drop 2 decrypted)\<rparr>))))))"


section \<open>IGE\<close>

lemma length_ige_encrypt_blocks:
  "length prevP = 16 \<Longrightarrow> length inp = 16 * n \<Longrightarrow>
     length (ige_encrypt_blocks enc key n prevC prevP inp) = 16 * n"
  by (induction n arbitrary: prevC prevP inp) (simp_all add: Let_def)

lemma length_ige_decrypt_blocks:
  "length prevC = 16 \<Longrightarrow> length inp = 16 * n \<Longrightarrow>
     length (ige_decrypt_blocks dec key n prevC prevP inp) = 16 * n"
  by (induction n arbitrary: prevC prevP inp) (simp_all add: Let_def)

lemma ige_blocks_inverse:
  assumes "\<forall>b. length b = 16 \<longrightarrow> fill 16 (dec key (fill 16 (enc key b))) = b"
    and "length prevC = 16" "length prevP = 16" "length inp = 16 * n"
  shows "ige_decrypt_blocks dec key n prevC prevP
    (ige_encrypt_blocks enc key n prevC prevP inp) = inp"
  using assms(2-4)
proof (induction n arbitrary: prevC prevP inp)
  case 0
  then show ?case by simp
next
  case (Suc n)
  let ?tmp = "xor_bytes (take 16 inp) prevC"
  let ?c = "xor_bytes (fill 16 (enc key ?tmp)) prevP"
  have "length ?tmp = 16" using Suc.prems by simp
  then have d: "fill 16 (dec key (fill 16 (enc key ?tmp))) = ?tmp" using assms(1) by blast
  have "ige_decrypt_blocks dec key n ?c (take 16 inp)
          (ige_encrypt_blocks enc key n ?c (take 16 inp) (drop 16 inp)) = drop 16 inp"
    using Suc.prems by (intro Suc.IH) simp_all
  then show ?case using Suc.prems d by (simp add: Let_def)
qed

lemma EncryptIge_defined:
  assumes "inp \<noteq> []" and "length inp mod 16 = 0" and "length iv = 32"
  obtains c where "EncryptIge enc key iv inp = Some c" and "length c = length inp"
proof -
  have "length inp = 16 * (length inp div 16)"
    using assms(2) by presburger
  then show ?thesis
    using that length_ige_encrypt_blocks [of "take 16 (drop 16 iv)" inp "length inp div 16" enc key "take 16 iv"] assms
    by (simp add: EncryptIge_def pc_consts)
qed

lemma DecryptIge_EncryptIge:
  assumes "\<forall>b. length b = 16 \<longrightarrow> fill 16 (dec key (fill 16 (enc key b))) = b"
    and "EncryptIge enc key iv inp = Some c" and "length iv = 32"
  shows "DecryptIge dec key iv c = Some inp"
proof -
  from assms(2) have "inp \<noteq> []" and n: "length inp = 16 * (length inp div 16)"
    by (auto simp: EncryptIge_def pc_consts mod_eq_0_iff_dvd split: if_splits)
  moreover from assms(2) have c: "c = ige_encrypt_blocks enc key (length inp div 16)
      (take 16 iv) (take 16 (drop 16 iv)) inp"
    by (simp add: EncryptIge_def pc_consts split: if_splits)
  moreover have "length inp mod 16 = 0" using n by presburger
  moreover have "length c = length inp"
    unfolding c using n assms(3) by (subst length_ige_encrypt_blocks) simp_all
  ultimately show ?thesis
    using ige_blocks_inverse [where dec = dec and key = key and enc = enc, OF assms(1), of "take 16 iv" "take 16 (drop 16 iv)" inp "length inp div 16"]
      assms(3)
    by (simp add: DecryptIge_def pc_consts)
qed


section \<open>Round trip between the peers\<close>

lemma length_Kdf2: "Kdf2 sha k m x = (key, iv) \<Longrightarrow> length key = 32 \<and> length iv = 32"
  by (auto simp: Kdf2_def Let_def)

lemma DirectionOffset_peer: "DirectionOffset (\<not> b) False = DirectionOffset b True"
  by (simp add: DirectionOffset_def)

lemma ReadLE16_WriteLE16: "ReadLE16 (WriteLE16 (replicate 2 0) 0 v @ rest) = v"
proof -
  have *: "(ucast (ucast (v AND 0xFF) :: u8) :: u16) OR push_bit 8 (ucast (ucast (drop_bit 8 v AND 0xFF) :: u8))
      = v"
    by (rule bit_word_eqI)
      (auto simp: bit_simps bit_mask_iff mask_eq_exp_minus_1 [of 8, where ?'a = "16 word", simplified, symmetric])
  show ?thesis using * by (simp add: ReadLE16_def WriteLE16_def numeral_2_eq_2)
qed

lemma pc_SamePeerTag_own: "pc_SamePeerTag (tag @ rest) tag \<or> length tag \<noteq> 16"
  by (auto simp: pc_SamePeerTag_def pc_ValidatePeerTag_def pc_consts list_all_iff nth_append)


lemma length_WriteLE16 [simp]: "length (WriteLE16 out k v) = length out"
  by (simp add: WriteLE16_def)

definition block_cipher_ok :: "block_fn \<Rightarrow> block_fn \<Rightarrow> bool" where
  "block_cipher_ok enc dec \<longleftrightarrow>
     (\<forall>key b. length b = 16 \<longrightarrow> fill 16 (dec key (fill 16 (enc key b))) = b)"

lemma block_cipher_ok_copy: "block_cipher_ok copy_block copy_block"
  by (simp add: block_cipher_ok_def fill_copy_block)

lemma padding_length:
  fixes n :: nat
  assumes "p = (if 16 - n mod 16 < 16 then 16 - n mod 16 + 16 else 16 - n mod 16)"
  shows "16 \<le> p \<and> p < 32 \<and> (n + p) mod 16 = 0"
proof (cases "n mod 16 = 0")
  case True
  then show ?thesis using assms by simp
next
  case False
  then have "p = 32 - n mod 16" using assms by auto
  then show ?thesis using False by presburger
qed

lemma relay_inner_shape:
  obtains padLen where "relay_inner rnd plain
      = WriteLE16 (replicate 2 0) 0 (of_nat (length plain)) @ plain @ fill padLen rnd"
    and "16 \<le> padLen" and "length (relay_inner rnd plain) mod 16 = 0"
proof -
  define n where "n = 2 + length plain"
  define p where "p = (if 16 - n mod 16 < 16 then 16 - n mod 16 + 16 else 16 - n mod 16)"
  have i: "relay_inner rnd plain
      = WriteLE16 (replicate 2 0) 0 (of_nat (length plain)) @ plain @ fill p rnd"
    unfolding relay_inner_def pc_consts Let_def by (simp add: p_def n_def)
  moreover have "length (relay_inner rnd plain) = n + p" by (simp add: i n_def)
  ultimately show ?thesis using that [OF i] padding_length [OF p_def] by metis
qed

lemma length_relay_msg_key [simp]: "length (relay_msg_key sha k x inner) = 16"
  by (simp add: relay_msg_key_def)

text \<open>An encrypted packet, on the branch without an error.\<close>

lemma EncryptRelay_ok:
  assumes "length sharedKey = 256" "length peerTag = 16" "plain \<noteq> []" "length plain \<le> 1200"
    and k: "Kdf2 sha sharedKey (relay_msg_key sha sharedKey (DirectionOffset out True)
           (relay_inner rnd plain)) (DirectionOffset out True) = (key, iv)"
  obtains c where "EncryptIge enc key iv (relay_inner rnd plain) = Some c"
    and "length c = length (relay_inner rnd plain)"
    and "EncryptRelayPacketMtProto2Short sha enc rnd sharedKey out peerTag plain =
      \<lparr>Success = True, Error = [],
       Bytes = peerTag @ relay_msg_key sha sharedKey (DirectionOffset out True)
           (relay_inner rnd plain) @ c,
       Plain = plain\<rparr>"
proof -
  obtain padLen where i: "relay_inner rnd plain
      = WriteLE16 (replicate 2 0) 0 (of_nat (length plain)) @ plain @ fill padLen rnd"
    and "16 \<le> padLen" and m: "length (relay_inner rnd plain) mod 16 = 0"
    by (rule relay_inner_shape)
  have ne: "relay_inner rnd plain \<noteq> []" using assms(3) by (simp add: i)
  have iv: "length iv = 32" using length_Kdf2 [OF k] by simp
  obtain c where c: "EncryptIge enc key iv (relay_inner rnd plain) = Some c"
    "length c = length (relay_inner rnd plain)"
    by (rule EncryptIge_defined [OF ne m iv])
  show ?thesis
    by (rule that [OF c])
      (use assms(1-4) k c in \<open>simp add: EncryptRelayPacketMtProto2Short_def ValidateSharedKey_def
        pc_ValidatePeerTag_def pc_consts Let_def\<close>)
qed

lemma relay_roundtrip_aux:
  assumes "block_cipher_ok enc dec"
    and "length sharedKey = 256" "length peerTag = 16" "plain \<noteq> []" "length plain \<le> 1200"
    and "expected = [] \<or> expected = peerTag"
    and sent_def: "sent = EncryptRelayPacketMtProto2Short sha enc rnd sharedKey out peerTag plain"
  shows "Success sent \<and>
    DecryptRelayPacketMtProto2Short sha dec sharedKey (\<not> out) expected (Bytes sent) =
    \<lparr>Success = True, Error = [], Bytes = Bytes sent, Plain = plain\<rparr>"
proof -
  let ?x = "DirectionOffset out True" and ?inner = "relay_inner rnd plain"
  let ?m = "relay_msg_key sha sharedKey ?x ?inner"
  obtain key iv where k: "Kdf2 sha sharedKey ?m ?x = (key, iv)" by fastforce
  obtain c where c: "EncryptIge enc key iv ?inner = Some c" "length c = length ?inner"
    and sent: "sent = \<lparr>Success = True, Error = [], Bytes = peerTag @ ?m @ c, Plain = plain\<rparr>"
    unfolding sent_def by (rule EncryptRelay_ok [OF assms(2-5) k])
  obtain padLen where inner: "?inner
      = WriteLE16 (replicate 2 0) 0 (of_nat (length plain)) @ plain @ fill padLen rnd"
    and pad: "16 \<le> padLen" and len: "length ?inner mod 16 = 0"
    by (rule relay_inner_shape)
  have d: "DecryptIge dec key iv c = Some ?inner"
    using DecryptIge_EncryptIge [where dec = dec and key = key and enc = enc, OF _ c(1)]
      assms(1) length_Kdf2 [OF k]
    by (simp add: block_cipher_ok_def)
  have r: "unat (ReadLE16 ?inner) = length plain"
    using ReadLE16_WriteLE16 [of "of_nat (length plain)" "plain @ fill padLen rnd"] assms(5)
    by (simp add: inner unat_of_nat)
  have tag: "expected \<noteq> [] \<Longrightarrow> pc_SamePeerTag (peerTag @ ?m @ c) expected"
    using pc_SamePeerTag_own [of peerTag "?m @ c"] assms(3,6) by auto
  have p: "take (length plain) (drop 2 ?inner) = plain" by (simp add: inner)
  have l: "length ?inner = 2 + length plain + padLen" by (simp add: inner)
  have t: "take 16 (drop 16 (peerTag @ ?m @ c)) = ?m" "drop 32 (peerTag @ ?m @ c) = c"
    using assms(3) by simp_all
  have g: "\<not> length (peerTag @ ?m @ c) < 48" "length plain \<noteq> 0"
    "\<not> length plain > length ?inner - 2" "\<not> length ?inner - length plain < 16"
    using assms(3,4) c(2) l pad by simp_all
  have "DecryptRelayPacketMtProto2Short sha dec sharedKey (\<not> out) expected (peerTag @ ?m @ c) =
    \<lparr>Success = True, Error = [], Bytes = peerTag @ ?m @ c, Plain = plain\<rparr>"
    unfolding DecryptRelayPacketMtProto2Short_def pc_consts ValidateSharedKey_def t
      DirectionOffset_peer Let_def
    using assms(2) tag
    by (cases "expected = []") (simp_all only: t g k d r p len c(2) Let_def if_True if_False
        simp_thms option.case prod.case arith_simps)
  then show ?thesis by (simp add: sent)
qed

text \<open>
  A relay packet encrypted by one side of a call is decrypted by the other side to
  the same plaintext: for every 256-byte key, 16-byte peer tag, random padding, hash, and block
  cipher whose decryption inverts its encryption on 16-byte blocks, and every plaintext of 1 to
  1200 bytes, the receiver (of the opposite role, expecting that peer tag or none) accepts.
\<close>

theorem relay_packet_roundtrip:
  assumes "block_cipher_ok enc dec"
    and "length sharedKey = 256" "length peerTag = 16" "plain \<noteq> []" "length plain \<le> 1200"
    and "expected = [] \<or> expected = peerTag"
  shows "Success (EncryptRelayPacketMtProto2Short sha enc rnd sharedKey out peerTag plain) \<and>
    (let r = DecryptRelayPacketMtProto2Short sha dec sharedKey (\<not> out) expected
               (Bytes (EncryptRelayPacketMtProto2Short sha enc rnd sharedKey out peerTag plain))
     in Success r \<and> Plain r = plain)"
  using relay_roundtrip_aux [OF assms refl, where sha = sha and rnd = rnd and out = out]
  by (simp add: Let_def)

theorem relay_packet_roundtrip_witness:
  "Plain (DecryptRelayPacketMtProto2Short (\<lambda>b i. of_nat (length b + i)) copy_block
      (replicate 256 3) False (replicate 16 9)
      (Bytes (EncryptRelayPacketMtProto2Short (\<lambda>b i. of_nat (length b + i)) copy_block
         (\<lambda>i. 0) (replicate 256 3) True (replicate 16 9) [1, 2, 3]))) = [1, 2, 3]"
  using relay_packet_roundtrip [OF block_cipher_ok_copy, of "replicate 256 3" "replicate 16 9"
      "[1, 2, 3]" "replicate 16 9" "\<lambda>b i. of_nat (length b + i)" "\<lambda>i. 0" True]
  by (simp add: Let_def)

text \<open>
  Claim C33: a packet is accepted only after every check. If decryption reports success, the
  packet has the peer tag, a \<open>msg_key\<close> and a positive number of whole blocks; its \<open>msg_key\<close> is
  the middle of the hash of the direction's key part and the decrypted bytes; the plaintext
  starts after the length, is not empty and is followed by at least 14 bytes of padding.
\<close>

theorem relay_decrypt_checks:
  "let r = DecryptRelayPacketMtProto2Short sha dec sharedKey out expected bs;
       msgKey = take 16 (drop 16 bs); x = DirectionOffset out False;
       d = DecryptIge dec (fst (Kdf2 sha sharedKey msgKey x)) (snd (Kdf2 sha sharedKey msgKey x))
             (drop 32 bs)
   in if Success r
      then length sharedKey = 256 \<and> 48 \<le> length bs \<and> length bs mod 16 = 0 \<and>
        (expected = [] \<or> take 16 bs = expected) \<and>
        (case d of None \<Rightarrow> False | Some inner \<Rightarrow>
           msgKey = relay_msg_key sha sharedKey x inner \<and>
           Plain r = take (unat (ReadLE16 inner)) (drop 2 inner) \<and>
           0 < length (Plain r) \<and> length (Plain r) + 16 \<le> length inner)
      else Bytes r = [] \<and> Plain r = []"
proof -
  let ?r = "DecryptRelayPacketMtProto2Short sha dec sharedKey out expected bs"
  obtain key iv where k: "Kdf2 sha sharedKey (take 16 (drop 16 bs)) (DirectionOffset out False) = (key, iv)"
    by fastforce
  have tag: "pc_SamePeerTag bs expected \<Longrightarrow> expected \<noteq> [] \<Longrightarrow> 48 \<le> length bs \<Longrightarrow> take 16 bs = expected"
    by (auto simp: pc_SamePeerTag_def pc_ValidatePeerTag_def pc_consts list_all_iff
        intro!: nth_equalityI split: if_splits)
  show ?thesis
  proof (cases "Success ?r")
    case False
    then show ?thesis
      unfolding DecryptRelayPacketMtProto2Short_def
      by (auto simp: Let_def pc_Fail_def split: prod.splits option.splits if_splits)
  next
    case True
    note def = DecryptRelayPacketMtProto2Short_def [of sha dec sharedKey out expected bs,
        unfolded pc_consts ValidateSharedKey_def, simplified k Let_def case_prod_conv]
    from True have g: "length sharedKey = 256" "48 \<le> length bs" "(length bs - 32) mod 16 = 0"
      "expected = [] \<or> pc_SamePeerTag bs expected"
      by (auto simp: def pc_Fail_def k split: if_splits)
    have "length bs mod 16 = 0" using g(2,3) by presburger
    moreover from True obtain inner where
      "DecryptIge dec key iv (drop 32 bs) = Some inner"
      by (auto simp: def pc_Fail_def k split: if_splits option.splits)
    ultimately show ?thesis
      using True g tag
      by (auto simp: def pc_Fail_def k Let_def split: if_splits)
  qed
qed

end
