(* ===== verification/AesCtr.thy ===== *)
theory AesCtr
  imports Primitives
begin

text \<open>
  AES in counter mode, \<open>infrastructure/srtp/srtp_aes_ctr.cpp\<close>. The block cipher is a parameter.
  The loop is shown equal to the construction its header documents (block \<open>b\<close> is encrypted with
  the key stream of \<open>IV + b\<close> modulo \<open>2 ^ 128\<close>), and to be a stream cipher in the sense of
  \<^const>\<open>stream_cipher\<close>.
\<close>

unbundle bit_operations_syntax

section \<open>The code\<close>

text \<open>The loop of \<open>IncrementCounter\<close> from index \<open>i - 1\<close> down to 0.\<close>

fun IncrementFrom :: "nat \<Rightarrow> bytes \<Rightarrow> bytes" where
  "IncrementFrom 0 counter = counter"
| "IncrementFrom (Suc i) counter =
     (let counter = counter[i := counter ! i + 1] in
      if counter ! i \<noteq> 0 then counter else IncrementFrom i counter)"

definition IncrementCounter :: "bytes \<Rightarrow> bytes" where
  "IncrementCounter counter = IncrementFrom 16 counter"

function SrtpAesCtr_Encrypt :: "block_fn \<Rightarrow> bytes \<Rightarrow> bytes \<Rightarrow> bytes \<Rightarrow> bytes" where
  "SrtpAesCtr_Encrypt enc key counter inp =
     (if inp = [] then []
      else
        (let keystream = fill 16 (enc key counter);
             n = (if length inp > 16 then 16 else length inp)
         in xor_bytes (take n inp) keystream @
            SrtpAesCtr_Encrypt enc key (IncrementCounter counter) (drop n inp)))"
  by pat_completeness auto
termination
  by (relation "measure (\<lambda>(enc, key, counter, inp). length inp)") auto

declare SrtpAesCtr_Encrypt.simps [simp del]


section \<open>The counter is a 128-bit big-endian number\<close>

definition be_val :: "bytes \<Rightarrow> nat" where
  "be_val bs = foldl (\<lambda>a b. a * 256 + unat b) 0 bs"

lemma unat_u8_less: "unat (b :: u8) < 256"
proof -
  have "unat b < 2 ^ LENGTH(8)" by (rule unsigned_less)
  then show ?thesis by simp
qed

lemma be_val_snoc: "be_val (bs @ [b]) = be_val bs * 256 + unat b"
  by (simp add: be_val_def)

lemma be_val_Nil [simp]: "be_val [] = 0"
  by (simp add: be_val_def)

lemma be_val_less: "be_val bs < 256 ^ length bs"
proof (induction bs rule: rev_induct)
  case Nil
  then show ?case by simp
next
  case (snoc b bs)
  have "unat b < 256" by (rule unat_u8_less)
  then have "be_val bs * 256 + unat b < (be_val bs + 1) * 256" by simp
  also have "\<dots> \<le> 256 ^ length bs * 256" 
    using snoc by (intro mult_right_mono) (simp_all only: Suc_eq_plus1 [symmetric] Suc_le_eq zero_le)
  finally show ?case by (simp only: be_val_snoc length_append_singleton power_Suc2)
qed

lemma be_val_inject:
  "length a = length b \<Longrightarrow> be_val a = be_val b \<Longrightarrow> a = b"
proof (induction a arbitrary: b rule: rev_induct)
  case Nil
  then show ?case by simp
next
  case (snoc x a)
  from snoc.prems obtain b' y where b: "b = b' @ [y]" and l: "length a = length b'"
    by (metis length_append_singleton length_Suc_conv_rev)
  have e: "be_val a * 256 + unat x = be_val b' * 256 + unat y"
    using snoc.prems b by (simp add: be_val_snoc)
  have dm: "(v * 256 + unat (z :: u8)) div 256 = v \<and> (v * 256 + unat z) mod 256 = unat z" for v z
    using unat_u8_less [of z] by simp
  have "be_val a = be_val b'" "unat x = unat y" using e dm by metis+
  then show ?case using snoc.IH [OF l] b by (simp add: word_unat_eq_iff)
qed

lemma length_IncrementFrom [simp]: "length (IncrementFrom n c) = length c"
  by (induction n c rule: IncrementFrom.induct) (simp_all add: Let_def)

lemma IncrementFrom_append:
  "IncrementFrom n (c @ d) = IncrementFrom n c @ d" if "n \<le> length c"
  using that
  by (induction n c rule: IncrementFrom.induct)
    (simp_all add: Let_def nth_append list_update_append)

lemma be_val_IncrementFrom:
  "be_val (IncrementFrom (length c) c) = (be_val c + 1) mod 256 ^ length c"
proof (induction c rule: rev_induct)
  case Nil
  then show ?case by simp
next
  case (snoc b c)
  have b: "unat b < 256" by (rule unat_u8_less)
  show ?case
  proof (cases "b + 1 = 0")
    case False
    then have ub: "unat (b + 1) = unat b + 1" by (metis unat_plus_simple unatSuc add.commute Suc_eq_plus1)
    have "be_val c * 256 + unat (b + 1) < 256 ^ length c * 256"
      using be_val_less [of "c @ [b + 1]"] by (simp add: be_val_snoc)
    with False ub show ?thesis
      by (simp add: Let_def be_val_snoc list_update_append)
  next
    case True
    then have "b = - 1" by (simp add: eq_neg_iff_add_eq_0)
    then have ub: "unat b = 255" by (simp add: unsigned_minus_1_eq_mask mask_eq_exp_minus_1)
    have "(be_val c * 256 + 255 + 1) mod (256 ^ length c * 256)
        = ((be_val c + 1) * 256) mod (256 ^ length c * 256)" by simp
    also have "\<dots> = ((be_val c + 1) mod 256 ^ length c) * 256" by (rule mult_mod_left [symmetric])
    finally have m: "(be_val c * 256 + 255 + 1) mod (256 ^ length c * 256)
        = ((be_val c + 1) mod 256 ^ length c) * 256" .
    show ?thesis
      using True ub snoc.IH m
      by (simp add: Let_def be_val_snoc list_update_append IncrementFrom_append mult.commute [of 256])
  qed
qed

lemma length_IncrementCounter [simp]: "length (IncrementCounter c) = length c"
  by (simp add: IncrementCounter_def)

lemma be_val_IncrementCounter:
  "length c = 16 \<Longrightarrow> be_val (IncrementCounter c) = (be_val c + 1) mod 2 ^ 128"
  using be_val_IncrementFrom [of c] by (simp add: IncrementCounter_def)

text \<open>The 16 bytes of a counter value.\<close>

definition counter_bytes :: "nat \<Rightarrow> bytes" where
  "counter_bytes v = map (\<lambda>i. of_nat (v div 256 ^ (15 - i))) [0..<16]"

lemma length_counter_bytes [simp]: "length (counter_bytes v) = 16"
  by (simp add: counter_bytes_def)

lemma be_val_counter_bytes_aux:
  "be_val (map (\<lambda>i. of_nat (v div 256 ^ (n - Suc i))) [0..<n]) = v mod 256 ^ n"
proof (induction n arbitrary: v)
  case 0
  then show ?case by simp
next
  case (Suc n)
  have m: "map (\<lambda>i. of_nat (v div 256 ^ (Suc n - Suc i)) :: u8) [0..<n]
      = map (\<lambda>i. of_nat ((v div 256) div 256 ^ (n - Suc i))) [0..<n]"
    by (auto simp: div_mult2_eq [symmetric] Suc_diff_Suc simp flip: power_Suc)
  have "be_val (map (\<lambda>i. of_nat (v div 256 ^ (Suc n - Suc i))) [0..<n]) = (v div 256) mod 256 ^ n"
    unfolding m by (rule Suc.IH)
  then have "be_val (map (\<lambda>i. of_nat (v div 256 ^ (Suc n - Suc i))) [0..<Suc n])
      = (v div 256) mod 256 ^ n * 256 + v mod 256"
    by (simp add: be_val_snoc unat_of_nat)
  also have "\<dots> = v mod 256 ^ Suc n"
    by (simp add: mod_mult2_eq mult.commute)
  finally show ?case .
qed

lemma be_val_counter_bytes: "be_val (counter_bytes v) = v mod 2 ^ 128"
  using be_val_counter_bytes_aux [of v 16] by (simp add: counter_bytes_def)

lemma counter_bytes_be_val: "length c = 16 \<Longrightarrow> counter_bytes (be_val c) = c"
  using be_val_less [of c] by (intro be_val_inject) (simp_all add: be_val_counter_bytes)

lemma counter_bytes_mod: "counter_bytes (v mod 2 ^ 128) = counter_bytes v"
  by (rule be_val_inject) (simp_all add: be_val_counter_bytes)

lemma IncrementCounter_counter_bytes: "IncrementCounter (counter_bytes v) = counter_bytes (v + 1)"
  by (rule be_val_inject)
    (simp_all add: be_val_IncrementCounter be_val_counter_bytes mod_Suc_eq)


section \<open>The loop is counter mode\<close>

text \<open>The construction of the header comment, byte by byte.\<close>

definition ctr_spec :: "block_fn \<Rightarrow> bytes \<Rightarrow> nat \<Rightarrow> bytes \<Rightarrow> bytes" where
  "ctr_spec enc key iv inp =
     map (\<lambda>i. inp ! i XOR enc key (counter_bytes (iv + i div 16)) (i mod 16)) [0..<length inp]"

lemma ctr_spec_split:
  assumes "n = min 16 (length inp)"
  shows "ctr_spec enc key v inp =
    xor_bytes (take n inp) (fill 16 (enc key (counter_bytes v))) @ ctr_spec enc key (v + 1) (drop n inp)"
proof (rule nth_equalityI)
  show "length (ctr_spec enc key v inp) = length (xor_bytes (take n inp)
      (fill 16 (enc key (counter_bytes v))) @ ctr_spec enc key (v + 1) (drop n inp))"
    using assms by (simp add: ctr_spec_def)
next
  fix i
  assume "i < length (ctr_spec enc key v inp)"
  then have i: "i < length inp" by (simp add: ctr_spec_def)
  show "ctr_spec enc key v inp ! i = (xor_bytes (take n inp)
      (fill 16 (enc key (counter_bytes v))) @ ctr_spec enc key (v + 1) (drop n inp)) ! i"
  proof (cases "i < n")
    case True
    then show ?thesis using i assms
      by (simp add: ctr_spec_def nth_append xor_bytes_def fill_def)
  next
    case False
    then have n: "n = 16" "16 \<le> i" using i assms by auto
    then have "i div 16 = Suc ((i - 16) div 16)" "i mod 16 = (i - 16) mod 16"
      using le_div_geq [of 16 i] le_mod_geq [of 16 i] by simp_all
    moreover have "i - 16 < length inp - 16" using i n by simp
    ultimately show ?thesis using i n
      by (simp add: ctr_spec_def nth_append min_def)
  qed
qed

lemma SrtpAesCtr_spec:
  "SrtpAesCtr_Encrypt enc key (counter_bytes v) inp = ctr_spec enc key v inp"
proof (induction "length inp" arbitrary: inp v rule: less_induct)
  case less
  show ?case
  proof (cases "inp = []")
    case True
    then show ?thesis by (simp add: SrtpAesCtr_Encrypt.simps ctr_spec_def)
  next
    case False
    define n where "n = min 16 (length inp)"
    then have n: "(if length inp > 16 then 16 else length inp) = n" by auto
    have "length (drop n inp) < length inp" using False n_def by simp
    then have "SrtpAesCtr_Encrypt enc key (counter_bytes (v + 1)) (drop n inp)
        = ctr_spec enc key (v + 1) (drop n inp)" by (rule less)
    then show ?thesis
      using False ctr_spec_split [OF n_def]
      by (subst SrtpAesCtr_Encrypt.simps)
        (simp only: n Let_def if_False IncrementCounter_counter_bytes)
  qed
qed

text \<open>As an XOR with a key stream, for a counter of any length.\<close>

fun ctr_keystream :: "block_fn \<Rightarrow> bytes \<Rightarrow> bytes \<Rightarrow> nat \<Rightarrow> bytes" where
  "ctr_keystream enc key c 0 = []"
| "ctr_keystream enc key c (Suc k) =
     fill 16 (enc key c) @ ctr_keystream enc key (IncrementCounter c) k"

lemma length_ctr_keystream [simp]: "length (ctr_keystream enc key c k) = 16 * k"
  by (induction k arbitrary: c) simp_all

lemma xor_bytes_append:
  "length a = length b \<Longrightarrow> xor_bytes (a @ a') (b @ b') = xor_bytes a b @ xor_bytes a' b'"
  by (simp add: xor_bytes_def)

lemma xor_bytes_take: "length a \<le> length b \<Longrightarrow> xor_bytes a (b @ b') = xor_bytes a b"
  by (auto simp: xor_bytes_def nth_append intro!: nth_equalityI)

lemma SrtpAesCtr_xor:
  "length inp \<le> 16 * k \<Longrightarrow>
     SrtpAesCtr_Encrypt enc key c inp = xor_bytes inp (ctr_keystream enc key c k)"
proof (induction k arbitrary: c inp)
  case 0
  then show ?case by (simp add: SrtpAesCtr_Encrypt.simps)
next
  case (Suc k)
  show ?case
  proof (cases "16 < length inp")
    case False
    then show ?thesis
      by (subst SrtpAesCtr_Encrypt.simps)
        (simp add: xor_bytes_take SrtpAesCtr_Encrypt.simps [of _ _ _ "[]"])
  next
    case True
    have "xor_bytes inp (ctr_keystream enc key c (Suc k))
      = xor_bytes (take 16 inp @ drop 16 inp)
          (fill 16 (enc key c) @ ctr_keystream enc key (IncrementCounter c) k)" by simp
    also have "\<dots> = xor_bytes (take 16 inp) (fill 16 (enc key c)) @
        SrtpAesCtr_Encrypt enc key (IncrementCounter c) (drop 16 inp)"
      using True Suc by (subst xor_bytes_append) simp_all
    finally show ?thesis
      using True by (subst SrtpAesCtr_Encrypt.simps) auto
  qed
qed

lemma length_SrtpAesCtr [simp]: "length (SrtpAesCtr_Encrypt enc key c inp) = length inp"
  by (subst SrtpAesCtr_xor [of _ "length inp"]) simp_all

interpretation srtp_ctr: stream_cipher "SrtpAesCtr_Encrypt enc" for enc
proof
  fix k iv and m m' :: bytes
  show "SrtpAesCtr_Encrypt enc k iv (SrtpAesCtr_Encrypt enc k iv m) = m"
    by (subst (2) SrtpAesCtr_xor [of _ "length m"], simp,
        subst SrtpAesCtr_xor [of _ "length m"]) simp_all
  show "length (SrtpAesCtr_Encrypt enc k iv m) = length m" by simp
  assume "length m = length m'"
  then show "map2 (XOR) (SrtpAesCtr_Encrypt enc k iv m) (SrtpAesCtr_Encrypt enc k iv m')
      = map2 (XOR) m m'"
    using xor_bytes_same [of m m' "ctr_keystream enc k iv (length m)"]
    by (simp add: SrtpAesCtr_xor [of _ "length m"] flip: xor_bytes_def)
qed

text \<open>
  The counter-mode loop implements the documented construction for every length: byte
  \<open>i\<close> of the output is byte \<open>i\<close> of the input XOR byte \<open>i mod 16\<close> of the block cipher applied to the
  16-byte big-endian counter \<open>IV + i div 16\<close> modulo \<open>2 ^ 128\<close>, carries included.
\<close>

theorem aes_ctr_construction:
  assumes "length iv = 16"
  shows "SrtpAesCtr_Encrypt enc key iv inp =
    map (\<lambda>i. inp ! i XOR enc key (counter_bytes (be_val iv + i div 16)) (i mod 16)) [0..<length inp]"
  using SrtpAesCtr_spec [of enc key "be_val iv" inp] counter_bytes_be_val [OF assms]
  by (simp add: ctr_spec_def)

theorem aes_ctr_construction_witness:
  "SrtpAesCtr_Encrypt (\<lambda>k c i. c ! 15) [] (replicate 15 0 @ [255]) (replicate 17 0)
     = replicate 16 255 @ [0]"
  using aes_ctr_construction [of "replicate 15 0 @ [255]" "\<lambda>k c i. c ! 15" "[]" "replicate 17 0"]
  by (simp add: be_val_def counter_bytes_def replicate_numeral_Cons)

end
