(* ===== verification/Srtp.thy ===== *)
theory Srtp
  imports AesCtr
begin

text \<open>
  SRTP (profile \<open>SRTP_AES128_CM_HMAC_SHA1_80\<close>): the session keys
  (\<open>infrastructure/srtp/srtp_session_keys.cpp\<close>) and the packet codec
  (\<open>infrastructure/srtp/srtp_packet_codec.cpp\<close>). The AES block and HMAC-SHA1 are parameters.
  Reads of packet bytes are checked, so \<^const>\<open>None\<close> would be a read outside the packet.
\<close>

unbundle bit_operations_syntax

section \<open>Session keys\<close>

record SrtpKeys =
  MasterKey :: bytes
  MasterSalt :: bytes

definition kLabelEncryption :: u8 where "kLabelEncryption = 0"
definition kLabelAuthentication :: u8 where "kLabelAuthentication = 1"
definition kLabelSalt :: u8 where "kLabelSalt = 2"

lemmas srtp_labels = kLabelEncryption_def kLabelAuthentication_def kLabelSalt_def

definition BuildKdfCounter :: "SrtpKeys \<Rightarrow> u8 \<Rightarrow> bytes" where
  "BuildKdfCounter master label =
     (let counter = take 14 (MasterSalt master) @ [0, 0]
      in counter[7 := counter ! 7 XOR label])"

text \<open>The branch for outputs of more than 32 bytes, with its loop over 32-byte pieces.\<close>

function derive_pieces :: "block_fn \<Rightarrow> bytes \<Rightarrow> bytes \<Rightarrow> nat \<Rightarrow> bytes" where
  "derive_pieces enc key counter len =
     (if len = 0 then []
      else
        (let n = (if len > 32 then 32 else len);
             blocks = (n + 15) div 16
         in SrtpAesCtr_Encrypt enc key counter (replicate n 0) @
            derive_pieces enc key ((IncrementCounter ^^ blocks) counter) (len - n)))"
  by pat_completeness auto
termination
  by (relation "measure (\<lambda>(enc, key, counter, len). len)") auto

declare derive_pieces.simps [simp del]

definition DeriveBytes :: "block_fn \<Rightarrow> SrtpKeys \<Rightarrow> u8 \<Rightarrow> nat \<Rightarrow> bytes" where
  "DeriveBytes enc master label len =
     (let counter = BuildKdfCounter master label in
      if len \<le> 32 then SrtpAesCtr_Encrypt enc (MasterKey master) counter (replicate len 0)
      else derive_pieces enc (MasterKey master) counter len)"

definition DeriveSessionEncrKey :: "block_fn \<Rightarrow> SrtpKeys \<Rightarrow> bytes" where
  "DeriveSessionEncrKey enc master = DeriveBytes enc master kLabelEncryption 16"

definition DeriveSessionAuthKey :: "block_fn \<Rightarrow> SrtpKeys \<Rightarrow> bytes" where
  "DeriveSessionAuthKey enc master = DeriveBytes enc master kLabelAuthentication 20"

definition DeriveSessionSalt :: "block_fn \<Rightarrow> SrtpKeys \<Rightarrow> bytes" where
  "DeriveSessionSalt enc master = DeriveBytes enc master kLabelSalt 14"


section \<open>Packets\<close>

record SrtpEncryptParams =
  SessionEncrKey :: bytes
  SessionAuthKey :: bytes
  SessionSalt :: bytes
  Ssrc :: u32
  RolloverCounter :: u32
  LastSequenceNumber :: u16
  HasLastSequenceNumber :: bool

definition kRtpFixedHeaderSize :: nat where "kRtpFixedHeaderSize = 12"
definition kAuthTagSize :: nat where "kAuthTagSize = 10"

text \<open>The offset of the payload, 0 for a malformed header.\<close>

definition LocatePayloadStart :: "bytes \<Rightarrow> nat option" where
  "LocatePayloadStart bs =
     (if length bs < kRtpFixedHeaderSize then Some 0
      else do {
        b0 \<leftarrow> rd8 bs 0;
        let version = drop_bit 6 b0;
        if version \<noteq> 2 then Some 0
        else do {
          let cc = b0 AND 0x0F;
          let extensionPresent = (b0 AND 0x10 \<noteq> 0);
          let offset = kRtpFixedHeaderSize + unat cc * 4;
          if offset > length bs then Some 0
          else if extensionPresent then
            (if offset + 4 > length bs then Some 0
             else do {
               extLengthWords \<leftarrow> rd_be16 bs (offset + 2);
               let extBytes = unat extLengthWords * 4;
               let offset = offset + (4 + extBytes);
               if offset > length bs then Some 0 else Some offset
             })
          else Some offset
        }
      })"

definition BuildPacketIv :: "bytes \<Rightarrow> u32 \<Rightarrow> u64 \<Rightarrow> bytes" where
  "BuildPacketIv salt ssrc packetIndex48 =
     (let outIv = [0, 0, 0, 0,
            ucast (drop_bit 24 ssrc), ucast (drop_bit 16 ssrc), ucast (drop_bit 8 ssrc), ucast ssrc,
            ucast (drop_bit 40 packetIndex48), ucast (drop_bit 32 packetIndex48),
            ucast (drop_bit 24 packetIndex48), ucast (drop_bit 16 packetIndex48),
            ucast (drop_bit 8 packetIndex48), ucast packetIndex48, 0, 0]
      in map (\<lambda>i. if i < 14 then outIv ! i XOR salt ! i else outIv ! i) [0..<16])"

definition ComputeAuthTag :: "mac_fn \<Rightarrow> bytes \<Rightarrow> bytes \<Rightarrow> u32 \<Rightarrow> bytes" where
  "ComputeAuthTag hmac authKey packet roc =
     take kAuthTagSize (fill 20 (hmac authKey (packet @ be32 roc)))"

definition ConstantTimeEqual :: "bytes \<Rightarrow> bytes \<Rightarrow> nat \<Rightarrow> bool" where
  "ConstantTimeEqual a b len \<longleftrightarrow> fold (\<lambda>i diff. diff OR (a ! i XOR b ! i)) [0..<len] 0 = (0 :: u8)"

text \<open>The bookkeeping of the rollover counter, and the whole of \<open>Encrypt\<close>: the mutated
  parameters with the packet, an empty packet for a malformed header.\<close>

definition srtp_advance :: "SrtpEncryptParams \<Rightarrow> u16 \<Rightarrow> SrtpEncryptParams" where
  "srtp_advance params sequenceNumber =
     (let params =
        (if HasLastSequenceNumber params
         then
           (let prev = LastSequenceNumber params in
            if prev > sequenceNumber \<and> unat prev - unat sequenceNumber < 0x8000
            then params\<lparr>RolloverCounter := RolloverCounter params + 1\<rparr>
            else params)
         else params)
      in params\<lparr>LastSequenceNumber := sequenceNumber, HasLastSequenceNumber := True\<rparr>)"

definition packet_index :: "u32 \<Rightarrow> u16 \<Rightarrow> u64" where
  "packet_index roc sequenceNumber = push_bit 16 (ucast roc) OR ucast sequenceNumber"

definition srtp_encrypt ::
    "block_fn \<Rightarrow> mac_fn \<Rightarrow> SrtpEncryptParams \<Rightarrow> bytes \<Rightarrow> u16 \<Rightarrow> (SrtpEncryptParams \<times> bytes) option" where
  "srtp_encrypt enc hmac params rtp sequenceNumber =
     (if rtp = [] then Some (params, [])
      else do {
        payloadStart \<leftarrow> LocatePayloadStart rtp;
        if payloadStart = 0 \<or> payloadStart \<ge> length rtp then Some (params, [])
        else do {
          let params = srtp_advance params sequenceNumber;
          let iv = BuildPacketIv (SessionSalt params) (Ssrc params)
                     (packet_index (RolloverCounter params) sequenceNumber);
          let srtp = take payloadStart rtp @
                SrtpAesCtr_Encrypt enc (SessionEncrKey params) iv (drop payloadStart rtp);
          let tag = ComputeAuthTag hmac (SessionAuthKey params) srtp (RolloverCounter params);
          Some (params, srtp @ tag)
        }
      })"

text \<open>\<open>Some None\<close> where the code returns false.\<close>

definition srtp_decrypt ::
    "block_fn \<Rightarrow> mac_fn \<Rightarrow> SrtpEncryptParams \<Rightarrow> bytes \<Rightarrow> bytes option option" where
  "srtp_decrypt enc hmac params srtp =
     (if length srtp < kRtpFixedHeaderSize + kAuthTagSize then Some None
      else do {
        let bodyLen = length srtp - kAuthTagSize;
        body \<leftarrow> subbuf srtp 0 bodyLen;
        payloadStart \<leftarrow> LocatePayloadStart body;
        if payloadStart = 0 \<or> payloadStart > bodyLen then Some None
        else do {
          let expectedTag = ComputeAuthTag hmac (SessionAuthKey params) body (RolloverCounter params);
          tag \<leftarrow> subbuf srtp bodyLen (length srtp);
          if \<not> ConstantTimeEqual expectedTag tag kAuthTagSize then Some None
          else do {
            seqNum \<leftarrow> rd_be16 body 2;
            let iv = BuildPacketIv (SessionSalt params) (Ssrc params)
                       (packet_index (RolloverCounter params) seqNum);
            Some (Some (take payloadStart body @
              SrtpAesCtr_Encrypt enc (SessionEncrKey params) iv (drop payloadStart body)))
          }
        }
      })"


section \<open>Key derivation\<close>

lemma ctr_keystream_add:
  "ctr_keystream enc key c (j + k)
     = ctr_keystream enc key c j @ ctr_keystream enc key ((IncrementCounter ^^ j) c) k"
  by (induction j arbitrary: c) (simp_all add: funpow_swap1)

lemma derive_pieces_eq:
  "derive_pieces enc key c len = SrtpAesCtr_Encrypt enc key c (replicate len 0)"
proof (induction len arbitrary: c rule: less_induct)
  case (less len)
  show ?case
  proof (cases "32 < len")
    case False
    then show ?thesis
      by (subst derive_pieces.simps)
        (auto simp: Let_def derive_pieces.simps [of _ _ _ 0] SrtpAesCtr_Encrypt.simps [of _ _ _ "[]"])
  next
    case True
    have split: "replicate len (0 :: u8) = replicate 32 0 @ replicate (len - 32) 0"
      using True by (simp flip: replicate_add)
    have "SrtpAesCtr_Encrypt enc key c (replicate len 0)
        = xor_bytes (replicate len 0) (ctr_keystream enc key c (2 + len))"
      by (rule SrtpAesCtr_xor) simp
    also have "\<dots> = xor_bytes (replicate 32 0) (ctr_keystream enc key c 2) @
        xor_bytes (replicate (len - 32) 0) (ctr_keystream enc key ((IncrementCounter ^^ 2) c) len)"
      unfolding split ctr_keystream_add by (rule xor_bytes_append) simp
    also have "\<dots> = SrtpAesCtr_Encrypt enc key c (replicate 32 0) @
        SrtpAesCtr_Encrypt enc key ((IncrementCounter ^^ 2) c) (replicate (len - 32) 0)"
      by (simp add: SrtpAesCtr_xor [of _ 2] SrtpAesCtr_xor [of _ len])
    also have "SrtpAesCtr_Encrypt enc key ((IncrementCounter ^^ 2) c) (replicate (len - 32) 0)
        = derive_pieces enc key ((IncrementCounter ^^ 2) c) (len - 32)"
      using True less [of "len - 32"] by simp
    finally show ?thesis
      using True by (subst derive_pieces.simps) (simp add: Let_def)
  qed
qed

text \<open>
  Deriving key material gives the key stream of the label's counter, for every length:
  the defensive branch for more than 32 bytes, which advances the counter by hand, yields the
  same bytes as one counter-mode pass would.
\<close>

theorem srtp_derive_bytes:
  "DeriveBytes enc master label len =
     SrtpAesCtr_Encrypt enc (MasterKey master) (BuildKdfCounter master label) (replicate len 0)"
  by (simp add: DeriveBytes_def Let_def derive_pieces_eq)

lemma length_DeriveBytes [simp]: "length (DeriveBytes enc master label len) = len"
  by (simp add: DeriveBytes_def Let_def derive_pieces_eq)


section \<open>The header\<close>

text \<open>The payload offset in closed form; every read of the parser is inside the packet.\<close>

definition payload_offset :: "bytes \<Rightarrow> nat" where
  "payload_offset bs =
     (if length bs < 12 \<or> drop_bit 6 (bs ! 0) \<noteq> 2 then 0
      else let o1 = 12 + unat (bs ! 0 AND 0x0F) * 4 in
        if o1 > length bs then 0
        else if bs ! 0 AND 0x10 = 0 then o1
        else if o1 + 4 > length bs then 0
        else let o2 = o1 + (4 + unat (be16_of (bs ! (o1 + 2)) (bs ! (o1 + 3))) * 4) in
          if o2 > length bs then 0 else o2)"

lemma LocatePayloadStart_eq: "LocatePayloadStart bs = Some (payload_offset bs)"
proof (cases "length bs < 12")
  case True
  then show ?thesis
    by (simp add: LocatePayloadStart_def payload_offset_def kRtpFixedHeaderSize_def)
next
  case False
  then have "rd8 bs 0 = Some (bs ! 0)" by (intro rd8_in) linarith
  moreover define o1 where "o1 = 12 + unat (bs ! 0 AND 0x0F) * 4"
  moreover have "o1 + 4 \<le> length bs \<Longrightarrow>
      rd_be16 bs (o1 + 2) = Some (be16_of (bs ! (o1 + 2)) (bs ! (o1 + 3)))"
    using rd_be16_in [of "o1 + 2" bs] by (simp add: numeral_3_eq_3)
  ultimately show ?thesis using False
    unfolding LocatePayloadStart_def payload_offset_def kRtpFixedHeaderSize_def Let_def
      o1_def [symmetric]
    by (cases "o1 + 4 \<le> length bs") (simp_all add: o1_def [symmetric] del: add_2_eq_Suc')
qed

lemma payload_offset_bounds:
  "payload_offset bs \<noteq> 0 \<Longrightarrow> 12 \<le> payload_offset bs \<and> payload_offset bs \<le> length bs"
  unfolding payload_offset_def Let_def by (auto split: if_splits)

lemma payload_offset_same:
  assumes "payload_offset bs = n" and "n \<noteq> 0" and "length cs = length bs" and "take n cs = take n bs"
  shows "payload_offset cs = n"
proof -
  have nth: "i < n \<Longrightarrow> cs ! i = bs ! i" for i
    using assms(4) by (metis nth_take)
  have "12 \<le> n" using payload_offset_bounds [of bs] assms(1,2) by simp
  then have b0: "cs ! 0 = bs ! 0" by (intro nth) simp
  define o1 where "o1 = 12 + unat (bs ! 0 AND 0x0F) * 4"
  have ext: "bs ! 0 AND 0x10 \<noteq> 0 \<Longrightarrow> o1 + 4 \<le> n"
    using assms(1,2) unfolding payload_offset_def Let_def o1_def by (auto split: if_splits)
  have "bs ! 0 AND 0x10 \<noteq> 0 \<Longrightarrow>
      be16_of (cs ! (o1 + 2)) (cs ! (o1 + 3)) = be16_of (bs ! (o1 + 2)) (bs ! (o1 + 3))"
    using ext by (simp add: nth)
  then have "payload_offset cs = payload_offset bs"
    unfolding payload_offset_def Let_def assms(3) b0 o1_def [symmetric] by simp
  then show ?thesis using assms(1) by simp
qed


section \<open>The packet codec\<close>

lemma ConstantTimeEqual_fold:
  "fold (\<lambda>i diff. diff OR (a ! i XOR b ! i)) [0..<n] d = (0 :: u8)
     \<longleftrightarrow> d = 0 \<and> (\<forall>i<n. a ! i = b ! i)"
proof (induction n)
  case 0
  then show ?case by simp
next
  case (Suc n)
  then show ?case by (auto simp: or_eq_0_iff less_Suc_eq xor_eq_0_iff_eq)
qed

lemma ConstantTimeEqual_iff:
  "length a = n \<Longrightarrow> length b = n \<Longrightarrow> ConstantTimeEqual a b n \<longleftrightarrow> a = b"
  by (auto simp: ConstantTimeEqual_def ConstantTimeEqual_fold intro!: nth_equalityI)

lemma length_ComputeAuthTag [simp]: "length (ComputeAuthTag hmac k p roc) = 10"
  by (simp add: ComputeAuthTag_def kAuthTagSize_def)

text \<open>The IV and cipher of a packet, from the parameters in force after the bookkeeping.\<close>

definition srtp_cipher :: "block_fn \<Rightarrow> SrtpEncryptParams \<Rightarrow> u16 \<Rightarrow> bytes \<Rightarrow> bytes" where
  "srtp_cipher enc p sq = SrtpAesCtr_Encrypt enc (SessionEncrKey p)
     (BuildPacketIv (SessionSalt p) (Ssrc p) (packet_index (RolloverCounter p) sq))"

lemma srtp_encrypt_eq:
  "srtp_encrypt enc hmac params rtp sq =
     (let n = payload_offset rtp; p = srtp_advance params sq;
          body = take n rtp @ srtp_cipher enc p sq (drop n rtp)
      in if n = 0 \<or> length rtp \<le> n then Some (params, [])
         else Some (p, body @ ComputeAuthTag hmac (SessionAuthKey p) body (RolloverCounter p)))"
  by (simp add: srtp_encrypt_def LocatePayloadStart_eq Let_def srtp_cipher_def payload_offset_def)

lemma srtp_decrypt_eq:
  "srtp_decrypt enc hmac p srtp =
     (let body = take (length srtp - 10) srtp; tag = drop (length srtp - 10) srtp;
          n = payload_offset body
      in if length srtp < 22 \<or> n = 0 \<or> tag \<noteq> ComputeAuthTag hmac (SessionAuthKey p) body (RolloverCounter p)
         then Some None
         else Some (Some (take n body @ srtp_cipher enc p (be16_of (srtp ! 2) (srtp ! 3)) (drop n body))))"
proof (cases "length srtp < 22")
  case True
  then show ?thesis
    by (simp add: srtp_decrypt_def kRtpFixedHeaderSize_def kAuthTagSize_def)
next
  case False
  define body where "body = take (length srtp - 10) srtp"
  have len: "length body = length srtp - 10" "12 \<le> length body" using False by (simp_all add: body_def)
  have b: "subbuf srtp 0 (length srtp - 10) = Some body"
    "subbuf srtp (length srtp - 10) (length srtp) = Some (drop (length srtp - 10) srtp)"
    using False by (simp_all add: subbuf_def body_def)
  have sq: "rd_be16 body 2 = Some (be16_of (srtp ! 2) (srtp ! 3))"
    using False len by (subst rd_be16_in) (simp_all add: body_def)
  have "payload_offset body \<le> length srtp - 10"
    using payload_offset_bounds [of body] len by (cases "payload_offset body = 0") simp_all
  moreover have "ConstantTimeEqual (ComputeAuthTag hmac k body roc) (drop (length srtp - 10) srtp) 10
      \<longleftrightarrow> drop (length srtp - 10) srtp = ComputeAuthTag hmac k body roc" for k roc
    using False by (subst ConstantTimeEqual_iff) auto
  ultimately show ?thesis
    using False b sq
    by (cases "drop (length srtp - 10) srtp = ComputeAuthTag hmac (SessionAuthKey p) body (RolloverCounter p)")
      (simp_all add: srtp_decrypt_def kRtpFixedHeaderSize_def kAuthTagSize_def LocatePayloadStart_eq
        Let_def srtp_cipher_def body_def [symmetric])
qed

lemma srtp_roundtrip_aux:
  assumes "srtp_encrypt enc hmac params rtp sq = Some (p, srtp)" and "srtp \<noteq> []"
    and "sq = be16_of (rtp ! 2) (rtp ! 3)"
  shows "srtp_decrypt enc hmac p srtp = Some (Some rtp)"
proof -
  define n where "n = payload_offset rtp"
  define body where "body = take n rtp @ srtp_cipher enc p sq (drop n rtp)"
  from assms(1,2) have n: "n \<noteq> 0" "n < length rtp" and p: "srtp_advance params sq = p"
    by (auto simp: srtp_encrypt_eq Let_def n_def split: if_splits)
  from assms(1) n have srtp:
    "srtp = body @ ComputeAuthTag hmac (SessionAuthKey p) body (RolloverCounter p)"
    by (simp add: srtp_encrypt_eq Let_def p body_def n_def [symmetric])
  have n12: "12 \<le> n" using payload_offset_bounds [of rtp] n by (simp add: n_def)
  have len: "length body = length rtp" using n by (simp add: body_def srtp_cipher_def)
  have off: "payload_offset body = n"
    by (rule payload_offset_same [OF n_def [symmetric] n(1) len]) (use n(2) in \<open>simp add: body_def\<close>)
  have sq: "be16_of (srtp ! 2) (srtp ! 3) = sq"
    using assms(3) n n12 by (simp add: srtp body_def nth_append)
  have restore: "take n body @ srtp_cipher enc p sq (drop n body) = rtp"
    using n by (simp add: body_def srtp_cipher_def srtp_ctr.xcrypt_invol)
  have parts: "take (length srtp - 10) srtp = body"
    "drop (length srtp - 10) srtp = ComputeAuthTag hmac (SessionAuthKey p) body (RolloverCounter p)"
    by (simp_all add: srtp)
  have "\<not> length srtp < 22" using n n12 len by (simp add: srtp)
  then show ?thesis
    unfolding srtp_decrypt_eq Let_def parts sq off restore using n by simp
qed

text \<open>
  Claim C18: an RTP packet encrypted with its own sequence number is recovered, header and payload,
  by a receiver with the sender's keys and rollover counter, whatever the block cipher and the
  MAC are.
\<close>

theorem srtp_roundtrip:
  assumes "srtp_encrypt enc hmac params rtp sq = Some (params', srtp)" and "srtp \<noteq> []"
    and "sq = be16_of (rtp ! 2) (rtp ! 3)"
  shows "srtp_decrypt enc hmac params' srtp = Some (Some rtp)"
  using assms by (rule srtp_roundtrip_aux)

definition srtp_example :: SrtpEncryptParams where
  "srtp_example = \<lparr>SessionEncrKey = replicate 16 1, SessionAuthKey = replicate 20 2,
     SessionSalt = replicate 14 3, Ssrc = 4, RolloverCounter = 0, LastSequenceNumber = 0xFFFF,
     HasLastSequenceNumber = True\<rparr>"

definition rtp_bytes :: "u16 \<Rightarrow> bytes" where
  "rtp_bytes sq = [0x80, 96] @ be16 sq @ [0, 0, 0, 0, 0, 0, 0, 4, 10, 11, 12]"

lemma payload_offset_rtp_bytes: "payload_offset (rtp_bytes sq) = 12"
  by (simp add: payload_offset_def rtp_bytes_def be16_def)

theorem srtp_roundtrip_witness:
  "\<exists>p srtp. srtp_encrypt copy_block (\<lambda>k m i. 0) srtp_example (rtp_bytes 7) 7 = Some (p, srtp) \<and>
     srtp_decrypt copy_block (\<lambda>k m i. 0) p srtp = Some (Some (rtp_bytes 7))"
proof -
  obtain p srtp where e: "srtp_encrypt copy_block (\<lambda>k m i. 0) srtp_example (rtp_bytes 7) 7 = Some (p, srtp)"
    and ne: "srtp \<noteq> []"
    by (simp add: srtp_encrypt_eq payload_offset_rtp_bytes Let_def)
      (simp add: rtp_bytes_def be16_def)
  have "7 = be16_of (rtp_bytes 7 ! 2) (rtp_bytes 7 ! 3)"
    by (simp add: rtp_bytes_def be16_def codec_simps)
  from srtp_roundtrip [OF e ne this] e show ?thesis by blast
qed


text \<open>
  Decryption reads inside the packet only, accepts nothing but a packet of at least 22
  bytes whose last ten bytes are the MAC of the rest and of the rollover counter, and returns
  the packet's header unchanged followed by as many payload bytes as the packet has.
\<close>

theorem srtp_decrypt_checks:
  "case srtp_decrypt enc hmac p srtp of
     None \<Rightarrow> False
   | Some None \<Rightarrow> True
   | Some (Some rtp) \<Rightarrow>
       22 \<le> length srtp \<and> length rtp + 10 = length srtp \<and>
       drop (length srtp - 10) srtp
         = ComputeAuthTag hmac (SessionAuthKey p) (take (length srtp - 10) srtp) (RolloverCounter p) \<and>
       take 12 rtp = take 12 srtp"
proof -
  let ?body = "take (length srtp - 10) srtp"
  have "take 12 (take n ?body @ x) = take 12 srtp" if "12 \<le> n" "22 \<le> length srtp" for n x
    using that by (auto simp: min_def)
  then show ?thesis
    using payload_offset_bounds [of ?body]
    by (auto simp: srtp_decrypt_eq Let_def srtp_cipher_def)
qed


section \<open>The rollover counter\<close>

text \<open>A sender that encrypts one packet after another.\<close>

fun srtp_send ::
    "block_fn \<Rightarrow> mac_fn \<Rightarrow> SrtpEncryptParams \<Rightarrow> (bytes \<times> u16) list \<Rightarrow> SrtpEncryptParams \<times> bytes list" where
  "srtp_send enc hmac p [] = (p, [])"
| "srtp_send enc hmac p ((rtp, sq) # ms) =
     (case srtp_encrypt enc hmac p rtp sq of
        None \<Rightarrow> (p, [])
      | Some (p', c) \<Rightarrow> (case srtp_send enc hmac p' ms of (q, cs) \<Rightarrow> (q, c # cs)))"

lemma srtp_advance_next:
  assumes "HasLastSequenceNumber p"
  shows "srtp_advance p (LastSequenceNumber p + 1) = p\<lparr>LastSequenceNumber := LastSequenceNumber p + 1\<rparr>"
proof -
  let ?l = "LastSequenceNumber p"
  have "\<not> (?l > ?l + 1 \<and> unat ?l - unat (?l + 1) < 0x8000)"
  proof (cases "?l + 1 = 0")
    case True
    then have "?l = - 1" by (simp add: eq_neg_iff_add_eq_0)
    then have "unat ?l = 65535" by (simp add: unsigned_minus_1_eq_mask mask_eq_exp_minus_1)
    with True show ?thesis by simp
  next
    case False
    then have "unat (?l + 1) = Suc (unat ?l)" using unatSuc [of ?l] by (simp add: add.commute)
    then show ?thesis by (simp add: word_less_nat_alt)
  qed
  with assms show ?thesis by (simp add: srtp_advance_def Let_def)
qed

lemma srtp_cipher_cong [simp]:
  "srtp_cipher enc (p\<lparr>LastSequenceNumber := l\<rparr>) = srtp_cipher enc p"
  by (intro ext) (simp add: srtp_cipher_def)

definition in_order :: "u16 \<Rightarrow> (bytes \<times> u16) list \<Rightarrow> bool" where
  "in_order l ms \<longleftrightarrow> map snd ms = map (\<lambda>i. l + of_nat i) [0..<length ms] \<and>
     list_all (\<lambda>(rtp, sq). payload_offset rtp = 12 \<and> 12 < length rtp) ms"

lemma in_order_Cons:
  "in_order l ((rtp, sq) # ms) \<longleftrightarrow>
     sq = l \<and> payload_offset rtp = 12 \<and> 12 < length rtp \<and> in_order (l + 1) ms"
  by (auto simp: in_order_def map_upt_Suc add.assoc simp del: upt_Suc)

lemma srtp_send_in_order:
  assumes "HasLastSequenceNumber p" and "in_order (LastSequenceNumber p + 1) ms" and "i < length ms"
  shows "\<exists>tag. snd (srtp_send enc hmac p ms) ! i
    = take 12 (fst (ms ! i)) @ srtp_cipher enc p (snd (ms ! i)) (drop 12 (fst (ms ! i))) @ tag"
  using assms
proof (induction ms arbitrary: p i)
  case Nil
  then show ?case by simp
next
  case (Cons m ms)
  obtain rtp sq where m: "m = (rtp, sq)" by (cases m)
  with Cons.prems(2) have o: "sq = LastSequenceNumber p + 1" "payload_offset rtp = 12" "12 < length rtp"
    "in_order (sq + 1) ms"
    by (auto simp: in_order_Cons)
  define p' where "p' = p\<lparr>LastSequenceNumber := sq\<rparr>"
  have adv: "srtp_advance p sq = p'" using srtp_advance_next [OF Cons.prems(1)] o(1) p'_def by simp
  obtain c where c: "srtp_encrypt enc hmac p rtp sq = Some (p', c)"
    and cc: "\<exists>tag. c = take 12 rtp @ srtp_cipher enc p sq (drop 12 rtp) @ tag"
    using o(2,3) by (simp add: srtp_encrypt_eq Let_def adv) (simp add: p'_def)
  have hyp: "HasLastSequenceNumber p'" "in_order (LastSequenceNumber p' + 1) ms"
    using Cons.prems(1) o(4) by (simp_all add: p'_def)
  show ?case
  proof (cases i)
    case 0
    then show ?thesis using c cc m by (simp add: case_prod_beta)
  next
    case (Suc k)
    have "\<exists>tag. snd (srtp_send enc hmac p' ms) ! k
      = take 12 (fst (ms ! k)) @ srtp_cipher enc p' (snd (ms ! k)) (drop 12 (fst (ms ! k))) @ tag"
      using Cons.IH [OF hyp] Cons.prems(3) Suc by simp
    then show ?thesis using c m Suc by (simp add: case_prod_beta p'_def)
  qed
qed

lemma keystream_reuse:
  assumes "HasLastSequenceNumber p" and "in_order (LastSequenceNumber p + 1) ms"
    and "i + 65536 < length ms" and "length (fst (ms ! i)) = n" and "length (fst (ms ! (i + 65536))) = n"
    and cs_def: "cs = snd (srtp_send enc hmac p ms)"
  shows "map2 (XOR) (take (n - 12) (drop 12 (cs ! i))) (take (n - 12) (drop 12 (cs ! (i + 65536))))
    = map2 (XOR) (drop 12 (fst (ms ! i))) (drop 12 (fst (ms ! (i + 65536))))"
proof -
  have len: "i < length ms" "12 < length (fst (ms ! i))" "12 < length (fst (ms ! (i + 65536)))"
    using assms(2,3) nth_mem [of i ms] nth_mem [of "i + 65536" ms]
    by (auto simp: in_order_def list_all_iff case_prod_beta)
  have sq: "snd (ms ! k) = LastSequenceNumber p + 1 + of_nat k" if "k < length ms" for k
    using assms(2) that by (auto simp: in_order_def dest: map_eq_conv [THEN iffD1] arg_cong [where f = "\<lambda>xs. xs ! k"])
  have "snd (ms ! (i + 65536)) = snd (ms ! i)"
    using sq [of i] sq [of "i + 65536"] assms(3) by simp
  moreover obtain t where "cs ! i = take 12 (fst (ms ! i)) @
      srtp_cipher enc p (snd (ms ! i)) (drop 12 (fst (ms ! i))) @ t"
    using srtp_send_in_order [OF assms(1,2) len(1)] unfolding cs_def by blast
  moreover obtain u where "cs ! (i + 65536) = take 12 (fst (ms ! (i + 65536))) @
      srtp_cipher enc p (snd (ms ! (i + 65536))) (drop 12 (fst (ms ! (i + 65536)))) @ u"
    using srtp_send_in_order [OF assms(1,2,3)] unfolding cs_def by blast
  ultimately show ?thesis
    using len assms(4,5) srtp_ctr.xcrypt_xor [of "drop 12 (fst (ms ! i))" "drop 12 (fst (ms ! (i + 65536)))"]
    by (simp add: srtp_cipher_def)
qed

text \<open>
  The rollover counter does not advance when the sequence number wraps, so the key
  stream repeats. In a stream sent in order, packets \<open>i\<close> and \<open>i + 65536\<close> are encrypted with the
  same key stream: the XOR of the two ciphertexts is the XOR of the two plaintexts, for every
  block cipher and key.
\<close>

theorem srtp_wrap_reuses_keystream:
  assumes "HasLastSequenceNumber p" and "in_order (LastSequenceNumber p + 1) ms"
    and "i + 65536 < length ms" and "length (fst (ms ! i)) = n" and "length (fst (ms ! (i + 65536))) = n"
  shows "map2 (XOR) (take (n - 12) (drop 12 (snd (srtp_send enc hmac p ms) ! i)))
      (take (n - 12) (drop 12 (snd (srtp_send enc hmac p ms) ! (i + 65536))))
    = map2 (XOR) (drop 12 (fst (ms ! i))) (drop 12 (fst (ms ! (i + 65536))))"
  by (rule keystream_reuse [OF assms refl])

definition long_stream :: "(bytes \<times> u16) list" where
  "long_stream = map (\<lambda>i. (rtp_bytes (of_nat i), of_nat i)) [0..<65537]"

theorem srtp_wrap_reuses_keystream_witness:
  "map2 (XOR) (take 3 (drop 12 (snd (srtp_send copy_block (\<lambda>k m i. 0) srtp_example long_stream) ! 0)))
      (take 3 (drop 12 (snd (srtp_send copy_block (\<lambda>k m i. 0) srtp_example long_stream) ! 65536)))
    = [0, 0, 0]"
proof -
  have nth: "i < 65537 \<Longrightarrow> long_stream ! i = (rtp_bytes (of_nat i), of_nat i)" for i
    by (simp add: long_stream_def del: upt_Suc)
  have "in_order (LastSequenceNumber srtp_example + 1) long_stream"
    by (auto simp: in_order_def long_stream_def srtp_example_def list_all_iff
        payload_offset_rtp_bytes simp del: upt_Suc) (simp_all add: rtp_bytes_def be16_def)
  moreover have "length long_stream = 65537" by (simp add: long_stream_def del: upt_Suc)
  moreover have "length (rtp_bytes sq) = 15" for sq by (simp add: rtp_bytes_def be16_def)
  ultimately show ?thesis
    using srtp_wrap_reuses_keystream [of srtp_example long_stream 0 15 copy_block "\<lambda>k m i. 0"] nth [of 0]
      nth [of 65536]
    by (simp add: srtp_example_def) (simp add: rtp_bytes_def be16_def)
qed

text \<open>
  The rollover counter advances on reordering instead: a packet whose number is below
  its predecessor's by less than \<open>0x8000\<close> increments it, so that sender and receiver disagree
  on every later packet; at the wrap from \<open>0xFFFF\<close> to 0 it stays.
\<close>

theorem srtp_rollover_on_reordering:
  "RolloverCounter (srtp_advance p sq) =
     (if HasLastSequenceNumber p \<and> sq < LastSequenceNumber p \<and>
         unat (LastSequenceNumber p - sq) < 0x8000
      then RolloverCounter p + 1 else RolloverCounter p) \<and>
   RolloverCounter (srtp_advance (p\<lparr>LastSequenceNumber := 0xFFFF\<rparr>) 0) = RolloverCounter p"
  by (auto simp: srtp_advance_def Let_def unat_sub less_imp_le)

text \<open>The counters of the key derivation.\<close>

lemma funpow_IncrementCounter:
  "(IncrementCounter ^^ i) (counter_bytes v) = counter_bytes (v + i)"
  by (induction i) (simp_all add: IncrementCounter_counter_bytes)

lemma kdf_counter:
  assumes "length (MasterSalt master) = 14"
  obtains pre where "BuildKdfCounter master l = pre @ [0, 0]" and "length pre = 14"
    and "pre ! 7 = MasterSalt master ! 7 XOR l"
  by (rule that [of "(MasterSalt master)[7 := MasterSalt master ! 7 XOR l]"])
    (use assms in \<open>simp_all add: BuildKdfCounter_def Let_def list_update_append nth_append\<close>)

lemma kdf_counter_value:
  assumes "length pre = 14" and "i < 65536"
  shows "(IncrementCounter ^^ i) (pre @ [0, 0]) = counter_bytes (be_val pre * 65536 + i)"
    and "be_val pre * 65536 + i < 2 ^ 128"
proof -
  have v: "be_val (pre @ [0, 0]) = be_val pre * 65536"
    using be_val_snoc [of "pre @ [0]" 0] be_val_snoc [of pre 0] by simp
  have "pre @ [0, 0] = counter_bytes (be_val pre * 65536)"
    using counter_bytes_be_val [of "pre @ [0, 0]"] assms(1) by (simp add: v)
  then show "(IncrementCounter ^^ i) (pre @ [0, 0]) = counter_bytes (be_val pre * 65536 + i)"
    by (simp add: funpow_IncrementCounter)
  show "be_val pre * 65536 + i < 2 ^ 128"
    using be_val_less [of pre] assms by simp
qed

lemma kdf_counters_disjoint_aux:
  assumes "length (MasterSalt master) = 14" and "i < 65536" and "j < 65536"
    and "(IncrementCounter ^^ i) (BuildKdfCounter master l)
      = (IncrementCounter ^^ j) (BuildKdfCounter master l')"
  shows "l = l' \<and> i = j"
proof -
  obtain pre where p: "BuildKdfCounter master l = pre @ [0, 0]" "length pre = 14"
    "pre ! 7 = MasterSalt master ! 7 XOR l"
    by (rule kdf_counter [OF assms(1)])
  obtain pre' where p': "BuildKdfCounter master l' = pre' @ [0, 0]" "length pre' = 14"
    "pre' ! 7 = MasterSalt master ! 7 XOR l'"
    by (rule kdf_counter [OF assms(1)])
  have "be_val (counter_bytes (be_val pre * 65536 + i)) = be_val (counter_bytes (be_val pre' * 65536 + j))"
    using assms(4) kdf_counter_value(1) [OF p(2) assms(2)] kdf_counter_value(1) [OF p'(2) assms(3)]
    by (simp add: p(1) p'(1))
  then have e: "be_val pre * 65536 + i = be_val pre' * 65536 + j"
    using kdf_counter_value(2) [OF p(2) assms(2)] kdf_counter_value(2) [OF p'(2) assms(3)]
    by (simp add: be_val_counter_bytes)
  have dm: "(v * 65536 + n) div 65536 = v \<and> (v * 65536 + n) mod 65536 = n" if "n < 65536" for v n :: nat
    using that by simp
  have "be_val pre = be_val pre'" "i = j" using e dm assms(2,3) by metis+
  then have "pre = pre'" using p(2) p'(2) by (simp add: be_val_inject)
  then have "(MasterSalt master ! 7 XOR l) = (MasterSalt master ! 7 XOR l')" using p(3) p'(3) by simp
  then have "MasterSalt master ! 7 XOR (MasterSalt master ! 7 XOR l)
      = MasterSalt master ! 7 XOR (MasterSalt master ! 7 XOR l')" by simp
  then have "l = l'" by (simp flip: xor.assoc)
  with \<open>i = j\<close> show ?thesis by simp
qed

text \<open>
  The session keys come from disjoint parts of the master key stream: over the first
  65536 blocks of each label, the block counters of different labels never coincide, and no
  label uses a counter twice, for every 14-byte master salt.
\<close>

theorem srtp_kdf_counters_disjoint:
  assumes "length (MasterSalt master) = 14" and "i < 65536" and "j < 65536"
  shows "(IncrementCounter ^^ i) (BuildKdfCounter master l)
      = (IncrementCounter ^^ j) (BuildKdfCounter master l') \<longleftrightarrow> l = l' \<and> i = j"
  using kdf_counters_disjoint_aux [OF assms] by blast

theorem srtp_kdf_counters_disjoint_witness:
  "(IncrementCounter ^^ 1) (BuildKdfCounter \<lparr>MasterKey = [], MasterSalt = replicate 14 9\<rparr> kLabelAuthentication)
     \<noteq> BuildKdfCounter \<lparr>MasterKey = [], MasterSalt = replicate 14 9\<rparr> kLabelSalt"
  using srtp_kdf_counters_disjoint [of "\<lparr>MasterKey = [], MasterSalt = replicate 14 9\<rparr>" 1 0
      kLabelAuthentication kLabelSalt]
  by (simp add: srtp_labels)

end
