(* ===== verification/SignalingCodec.thy ===== *)
theory SignalingCodec
  imports AesCtr
begin

text \<open>
  The encryption of the tgcalls signaling channel, \<open>domain/tgcalls_signaling_codec.cpp\<close>:
  \<open>msg_key | AES-256-CTR (seq | body)\<close>. SHA-256 and the AES block are parameters. The debug log
  has no effect on the results and is left out.
\<close>

unbundle bit_operations_syntax

section \<open>The code\<close>

definition sig_kSharedKeyBytes :: nat where "sig_kSharedKeyBytes = 256"
definition sig_kMsgKeyBytes :: nat where "sig_kMsgKeyBytes = 16"
definition sig_kAesBlockBytes :: nat where "sig_kAesBlockBytes = 16"
definition kSignalingX :: nat where "kSignalingX = 128"

lemmas sig_consts = sig_kSharedKeyBytes_def sig_kMsgKeyBytes_def sig_kAesBlockBytes_def kSignalingX_def

definition DeriveSignalingAesKeyIv :: "hash_fn \<Rightarrow> bytes \<Rightarrow> bytes \<Rightarrow> nat \<Rightarrow> bytes \<times> bytes" where
  "DeriveSignalingAesKeyIv sha sharedKey msgKey x =
     (let sA = fill 32 (sha (msgKey @ take 36 (drop x sharedKey)));
          sB = fill 32 (sha (take 36 (drop (40 + x) sharedKey) @ msgKey));
          aesKey = take 8 sA @ take 16 (drop 8 sB) @ take 8 (drop 24 sA);
          aesIv = take 4 sB @ take 8 (drop 8 sA) @ take 4 (drop 24 sB)
      in (aesKey, aesIv))"

text \<open>The carry loop at the end of a block: index \<open>i\<close> down to 0, until a byte is not zero.\<close>

fun sig_increment :: "nat \<Rightarrow> bytes \<Rightarrow> bytes" where
  "sig_increment 0 counter = counter"
| "sig_increment (Suc i) counter =
     (let counter = counter[i := counter ! i + 1] in
      if counter ! i \<noteq> 0 then counter else sig_increment i counter)"

function ctr_loop :: "block_fn \<Rightarrow> bytes \<Rightarrow> bytes \<Rightarrow> nat \<Rightarrow> nat \<Rightarrow> bytes \<Rightarrow> bytes \<Rightarrow> bytes" where
  "ctr_loop enc aesKey counter offset len inp out =
     (if offset < len
      then
        (let keystream = fill 16 (enc aesKey counter);
             n = (if len - offset > 16 then 16 else len - offset);
             out = out @ map (\<lambda>i. inp ! (offset + i) XOR keystream ! i) [0..<n]
         in ctr_loop enc aesKey (sig_increment 16 counter) (offset + n) len inp out)
      else out)"
  by pat_completeness auto
termination
  by (relation "measure (\<lambda>(enc, key, c, offset, len, inp, out). len - offset)") auto

declare ctr_loop.simps [simp del]

definition AesCtrXcrypt :: "block_fn \<Rightarrow> bytes \<Rightarrow> bytes \<Rightarrow> bytes \<Rightarrow> bytes" where
  "AesCtrXcrypt enc aesKey aesIv inp = ctr_loop enc aesKey aesIv 0 (length inp) inp []"

definition signaling_msg_key :: "hash_fn \<Rightarrow> bytes \<Rightarrow> nat \<Rightarrow> bytes \<Rightarrow> bytes" where
  "signaling_msg_key sha sharedKey x plaintext =
     take 16 (drop 8 (fill 32 (sha (take 32 (drop (88 + x) sharedKey) @ plaintext))))"

text \<open>The sequence number and the plaintext, or the error. A null pointer comes with length 0.\<close>

definition sig_Decrypt ::
    "hash_fn \<Rightarrow> block_fn \<Rightarrow> bytes \<Rightarrow> bool \<Rightarrow> bytes \<Rightarrow> string + u32 \<times> bytes" where
  "sig_Decrypt sha enc sharedKey isOutgoing bs =
     (if length sharedKey \<noteq> sig_kSharedKeyBytes then Inl ''shared key must be exactly 256 bytes''
      else if length bs < sig_kMsgKeyBytes + sig_kAesBlockBytes then
        Inl ''encrypted signaling payload is too short''
      else
        (let msgKey = take sig_kMsgKeyBytes bs;
             encrypted = drop sig_kMsgKeyBytes bs;
             x = (if isOutgoing then 8 else 0) + kSignalingX
         in case DeriveSignalingAesKeyIv sha sharedKey msgKey x of (aesKey, aesIv) \<Rightarrow>
              (let decrypted = AesCtrXcrypt enc aesKey aesIv encrypted in
               if msgKey \<noteq> signaling_msg_key sha sharedKey x decrypted then
                 Inl ''signaling msg_key mismatch''
               else if length decrypted < 4 then
                 Inl ''decrypted signaling payload too small for seq''
               else Inr (be32_of (decrypted ! 0) (decrypted ! 1) (decrypted ! 2) (decrypted ! 3),
                         drop 4 decrypted))))"

definition sig_Encrypt :: "hash_fn \<Rightarrow> block_fn \<Rightarrow> bytes \<Rightarrow> bool \<Rightarrow> u32 \<Rightarrow> bytes \<Rightarrow> bytes" where
  "sig_Encrypt sha enc sharedKey isOutgoing outerSeq body =
     (if length sharedKey \<noteq> sig_kSharedKeyBytes then []
      else
        (let plaintext = be32 outerSeq @ body;
             x = (if isOutgoing then 0 else 8) + kSignalingX;
             msgKey = signaling_msg_key sha sharedKey x plaintext
         in case DeriveSignalingAesKeyIv sha sharedKey msgKey x of (aesKey, aesIv) \<Rightarrow>
              msgKey @ AesCtrXcrypt enc aesKey aesIv plaintext))"


section \<open>The second counter mode is the first\<close>

lemma sig_increment_eq: "sig_increment n c = IncrementFrom n c"
  by (induction n c rule: IncrementFrom.induct) (simp_all add: Let_def)

lemma ctr_loop_eq:
  "len = length inp \<Longrightarrow> offset \<le> len \<Longrightarrow>
     ctr_loop enc key c offset len inp out = out @ SrtpAesCtr_Encrypt enc key c (drop offset inp)"
proof (induction enc key c offset len inp out rule: ctr_loop.induct)
  case (1 enc key c offset len inp out)
  show ?case
  proof (cases "offset < len")
    case False
    then show ?thesis using 1(2,3)
      by (simp add: ctr_loop.simps SrtpAesCtr_Encrypt.simps [of _ _ _ "[]"])
  next
    case True
    define n where "n = (if len - offset > 16 then 16 else len - offset)"
    have x: "map (\<lambda>i. inp ! (offset + i) XOR fill 16 (enc key c) ! i) [0..<n]
        = xor_bytes (take n (drop offset inp)) (fill 16 (enc key c))"
      using True 1(2) by (auto simp: xor_bytes_def n_def intro!: nth_equalityI)
    have "ctr_loop enc key (sig_increment 16 c) (offset + n) len inp
        (out @ map (\<lambda>i. inp ! (offset + i) XOR fill 16 (enc key c) ! i) [0..<n])
      = (out @ map (\<lambda>i. inp ! (offset + i) XOR fill 16 (enc key c) ! i) [0..<n]) @
        SrtpAesCtr_Encrypt enc key (sig_increment 16 c) (drop (offset + n) inp)"
      by (rule 1(1) [OF True refl n_def refl]) (use 1(2) True n_def in auto)
    moreover have "drop n (drop offset inp) = drop (offset + n) inp" by (simp add: add.commute)
    moreover have "(if length (drop offset inp) > 16 then 16 else length (drop offset inp)) = n"
      using 1(2) by (simp add: n_def)
    moreover have "drop offset inp \<noteq> []" using True 1(2) by simp
    ultimately show ?thesis
      using True
      by (subst ctr_loop.simps, subst SrtpAesCtr_Encrypt.simps)
        (simp only: Let_def n_def [symmetric] x if_True if_False append_assoc sig_increment_eq
          IncrementCounter_def)
  qed
qed

text \<open>
  The two hand-written counter modes of the program agree: the signaling channel's
  loop, which writes into an output buffer by offset, gives the same bytes as SRTP's for every
  block cipher, key, counter and text.
\<close>

theorem signaling_ctr_is_srtp_ctr:
  "AesCtrXcrypt enc key iv inp = SrtpAesCtr_Encrypt enc key iv inp"
  by (simp add: AesCtrXcrypt_def ctr_loop_eq)

lemma AesCtrXcrypt_eq: "AesCtrXcrypt enc key iv = SrtpAesCtr_Encrypt enc key iv"
  by (intro ext) (simp add: AesCtrXcrypt_def ctr_loop_eq)

interpretation sig_ctr: stream_cipher "AesCtrXcrypt enc" for enc
  unfolding AesCtrXcrypt_eq by (rule srtp_ctr.stream_cipher_axioms)


section \<open>Between the peers\<close>

lemma length_signaling_msg_key [simp]: "length (signaling_msg_key sha k x p) = 16"
  by (simp add: signaling_msg_key_def)

lemma sig_Encrypt_shape:
  assumes "length sharedKey = 256"
  obtains key iv where
    "DeriveSignalingAesKeyIv sha sharedKey (signaling_msg_key sha sharedKey
       ((if out then 0 else 8) + 128) (be32 sq @ body)) ((if out then 0 else 8) + 128) = (key, iv)"
    and "sig_Encrypt sha enc sharedKey out sq body =
      signaling_msg_key sha sharedKey ((if out then 0 else 8) + 128) (be32 sq @ body) @
      AesCtrXcrypt enc key iv (be32 sq @ body)"
proof -
  obtain key iv where k: "DeriveSignalingAesKeyIv sha sharedKey (signaling_msg_key sha sharedKey
       ((if out then 0 else 8) + 128) (be32 sq @ body)) ((if out then 0 else 8) + 128) = (key, iv)"
    by fastforce
  show ?thesis
    by (rule that [OF k]) (use assms k in \<open>simp add: sig_Encrypt_def sig_consts Let_def\<close>)
qed

lemma signaling_exchange_aux:
  assumes "length sharedKey = 256"
  shows "sig_Decrypt sha enc sharedKey (\<not> out) (sig_Encrypt sha enc sharedKey out sq body) =
    (if length body < 12 then Inl ''encrypted signaling payload is too short'' else Inr (sq, body))"
proof -
  let ?x = "(if out then 0 else 8) + 128" and ?p = "be32 sq @ body"
  let ?m = "signaling_msg_key sha sharedKey ?x ?p"
  obtain key iv where k: "DeriveSignalingAesKeyIv sha sharedKey ?m ?x = (key, iv)"
    and e: "sig_Encrypt sha enc sharedKey out sq body = ?m @ AesCtrXcrypt enc key iv ?p"
    by (rule sig_Encrypt_shape [OF assms])
  have x: "(if \<not> out then 8 else 0) + 128 = ?x" by simp
  have len: "length (?m @ AesCtrXcrypt enc key iv ?p) = 20 + length body"
    by (simp add: sig_ctr.xcrypt_length be32_def)
  have parts: "take 16 (?m @ AesCtrXcrypt enc key iv ?p) = ?m"
    "drop 16 (?m @ AesCtrXcrypt enc key iv ?p) = AesCtrXcrypt enc key iv ?p" by simp_all
  have sq: "be32_of (?p ! 0) (?p ! 1) (?p ! 2) (?p ! 3) = sq" "drop 4 ?p = body" "\<not> length ?p < 4"
    by (simp_all add: be32_def codec_simps)
  show ?thesis
  proof (cases "length body < 12")
    case True
    then show ?thesis using assms unfolding e sig_Decrypt_def sig_consts len by simp
  next
    case False
    then show ?thesis using assms
      unfolding e sig_Decrypt_def sig_consts len Let_def parts x k
      by (simp only: prod.case sig_ctr.xcrypt_invol sq if_False if_True simp_thms) simp
  qed
qed

text \<open>
  What one peer encrypts for the signaling channel, the other decrypts to the same
  sequence number and body, for every hash and block cipher, provided the body has at least 12
  bytes. A shorter body is encrypted without padding, so the receiver refuses it as too short.
\<close>

theorem signaling_exchange:
  assumes "length sharedKey = 256"
  shows "sig_Decrypt sha enc sharedKey (\<not> out) (sig_Encrypt sha enc sharedKey out sq body) =
    (if length body < 12 then Inl ''encrypted signaling payload is too short'' else Inr (sq, body))"
  using assms by (rule signaling_exchange_aux)

theorem signaling_exchange_witness:
  "sig_Decrypt (\<lambda>b i. 1) copy_block (replicate 256 5) False
     (sig_Encrypt (\<lambda>b i. 1) copy_block (replicate 256 5) True 9 [0xFE])
   = Inl ''encrypted signaling payload is too short''"
  using signaling_exchange [of "replicate 256 5" "\<lambda>b i. 1" copy_block True 9 "[0xFE]"] by simp

lemma be32_take_4:
  assumes "4 \<le> length d"
  shows "be32 (be32_of (d ! 0) (d ! 1) (d ! 2) (d ! 3)) = take 4 d"
proof -
  from assms obtain a b c e r where "d = a # b # c # e # r"
    by (auto simp: Suc_le_length_iff numeral_eq_Suc)
  then show ?thesis by (simp add: be32_def codec_simps)
qed

text \<open>
  Decryption accepts only authenticated data: if it yields a sequence number and a body
  then the blob's first 16 bytes are the keyed hash of exactly that number and body, for the key
  part of the receiving direction, and the blob is 20 bytes longer than the body.
\<close>

theorem signaling_decrypt_checks:
  "case sig_Decrypt sha enc sharedKey out bs of
     Inl e \<Rightarrow> e \<noteq> []
   | Inr (sq, body) \<Rightarrow>
       length sharedKey = 256 \<and> length bs = 20 + length body \<and> 12 \<le> length body \<and>
       take 16 bs = signaling_msg_key sha sharedKey ((if out then 8 else 0) + 128) (be32 sq @ body)"
proof (cases "length sharedKey \<noteq> 256 \<or> length bs < 32")
  case True
  then show ?thesis by (auto simp: sig_Decrypt_def sig_consts)
next
  case False
  define x where "x = (if out then 8 else 0) + (128 :: nat)"
  obtain key iv where k: "DeriveSignalingAesKeyIv sha sharedKey (take 16 bs) x = (key, iv)" by fastforce
  define d where "d = AesCtrXcrypt enc key iv (drop 16 bs)"
  have len: "length d + 16 = length bs" using False by (simp add: d_def sig_ctr.xcrypt_length)
  have "4 \<le> length d" using len False by simp
  then have d4: "be32 (be32_of (d ! 0) (d ! 1) (d ! 2) (d ! 3)) = take 4 d" by (rule be32_take_4)
  then have d: "be32 (be32_of (d ! 0) (d ! 1) (d ! 2) (d ! 3)) @ drop 4 d = d" by simp
  have "sig_Decrypt sha enc sharedKey out bs =
      (if take 16 bs \<noteq> signaling_msg_key sha sharedKey x d then Inl ''signaling msg_key mismatch''
       else Inr (be32_of (d ! 0) (d ! 1) (d ! 2) (d ! 3), drop 4 d))"
    using False len k by (simp add: sig_Decrypt_def sig_consts Let_def x_def [symmetric] d_def [symmetric])
  moreover have "32 \<le> length bs" using False by auto
  then have "12 \<le> length d - 4" "length bs = 20 + (length d - 4)" using len by linarith+
  ultimately show ?thesis using False d by (simp add: x_def)
qed

end
