(* ===== verification/ChannelFrames.thy ===== *)
theory ChannelFrames
  imports Interfaces
begin

text \<open>
  The frames inside a decrypted signaling packet, \<open>domain/tgcalls_signaling_frames.cpp\<close>. The
  body is walked by index with checked reads; \<^const>\<open>None\<close> would be a read outside it.
\<close>

unbundle bit_operations_syntax

section \<open>The code\<close>

record ChannelFrame =
  Seq :: u32
  ContentTag :: u8
  SingleMessagePacket :: bool
  RequiresAck :: bool
  Counter :: u32
  FramePayload :: bytes

definition kContentTagCustom :: u8 where "kContentTagCustom = 0x7F"
definition kContentTagEmpty :: u8 where "kContentTagEmpty = 0xFE"
definition kContentTagAck :: u8 where "kContentTagAck = 0xFF"
definition kSeqBitSinglePacket :: u32 where "kSeqBitSinglePacket = 0x80000000"
definition kSeqBitRequiresAck :: u32 where "kSeqBitRequiresAck = 0x40000000"

lemmas frame_consts = kContentTagCustom_def kContentTagEmpty_def kContentTagAck_def
  kSeqBitSinglePacket_def kSeqBitRequiresAck_def

definition FillSeqFlags :: "ChannelFrame \<Rightarrow> ChannelFrame" where
  "FillSeqFlags f = f\<lparr>SingleMessagePacket := (Seq f AND kSeqBitSinglePacket \<noteq> 0),
     RequiresAck := (Seq f AND kSeqBitRequiresAck \<noteq> 0),
     Counter := Seq f AND NOT (kSeqBitSinglePacket OR kSeqBitRequiresAck)\<rparr>"

text \<open>A new frame with its sequence word, tag and payload.\<close>

definition frame_of :: "u32 \<Rightarrow> u8 \<Rightarrow> bytes \<Rightarrow> ChannelFrame" where
  "frame_of sq tag payload = FillSeqFlags \<lparr>Seq = sq, ContentTag = tag,
     SingleMessagePacket = False, RequiresAck = False, Counter = 0, FramePayload = payload\<rparr>"

text \<open>
  One pass of the loop of \<open>SplitFrames\<close>: the frames it pushes (at most one) and, unless it leaves
  the loop, the position and sequence number it goes on with.
\<close>

definition split_pass ::
    "bytes \<Rightarrow> nat \<Rightarrow> u32 \<Rightarrow> bool \<Rightarrow> (ChannelFrame list \<times> (nat \<times> u32) option) option" where
  "split_pass body pos currentSeq first =
     (let n = length body in
      if \<not> first \<and> pos + 4 > n then Some ([], None)
      else do {
        currentSeq \<leftarrow> (if \<not> first then rd_be32 body pos else Some currentSeq);
        let pos = (if \<not> first then pos + 4 else pos);
        if pos + 1 > n then Some ([], None)
        else do {
          type \<leftarrow> rd8 body pos;
          let pos = pos + 1;
          if type = kContentTagAck \<or> type = kContentTagEmpty then
            Some ([frame_of currentSeq type []], Some (pos, currentSeq))
          else if type \<noteq> kContentTagCustom then Some ([frame_of currentSeq type []], None)
          else if pos + 4 > n then Some ([], None)
          else do {
            len \<leftarrow> rd_be32 body pos;
            let pos = pos + 4;
            if len > 1024 * 1024 then Some ([], None)
            else if pos + unat len > n then Some ([], None)
            else do {
              payload \<leftarrow> subbuf body pos (pos + unat len);
              Some ([frame_of currentSeq type payload], Some (pos + unat len, currentSeq))
            }
          }
        }
      })"

text \<open>A frame's tag, length and sequence number are known once the pass has got that far.\<close>

definition frame_ok :: "ChannelFrame \<Rightarrow> bool" where
  "frame_ok f \<longleftrightarrow> f = frame_of (Seq f) (ContentTag f) (FramePayload f) \<and>
     length (FramePayload f) \<le> 1024 * 1024 \<and>
     (if ContentTag f = kContentTagCustom then True else FramePayload f = [])"

definition known_tag :: "ChannelFrame \<Rightarrow> bool" where
  "known_tag f \<longleftrightarrow> ContentTag f = kContentTagCustom \<or> ContentTag f = kContentTagEmpty \<or>
     ContentTag f = kContentTagAck"

lemma frame_of_simps [simp]:
  "Seq (frame_of s t p) = s" "ContentTag (frame_of s t p) = t" "FramePayload (frame_of s t p) = p"
  by (simp_all add: frame_of_def FillSeqFlags_def)

lemma frame_ok_empty [simp]: "frame_ok (frame_of sq t [])"
  by (simp add: frame_ok_def)

lemma split_pass_cases:
  obtains (stop) "split_pass body pos sq first = Some ([], None)"
  | (unknown) f where "split_pass body pos sq first = Some ([f], None)" and "frame_ok f"
      and "FramePayload f = []" and "pos < length body"
  | (frame) f pos' where "split_pass body pos sq first = Some ([f], Some (pos', Seq f))"
      and "frame_ok f" and "known_tag f" and "pos + Suc (length (FramePayload f)) \<le> pos'"
      and "pos' \<le> length body"
proof -
  define p where "p = (if \<not> first then pos + 4 else pos)"
  show ?thesis
  proof (cases "length body < p + 1")
    case True
    then have "split_pass body pos sq first = Some ([], None)"
      by (cases first) (auto simp: split_pass_def Let_def p_def read_simps)
    then show ?thesis by (rule stop)
  next
    case False
    then obtain cs where cs: "(if \<not> first then rd_be32 body pos else Some sq) = Some cs"
      and g: "\<not> (\<not> first \<and> pos + 4 > length body)"
      by (cases first) (auto simp: p_def read_simps)
    have ty: "rd8 body p = Some (body ! p)" using False by (simp add: read_simps)
    note eq = split_pass_def [of body pos sq first, unfolded Let_def cs p_def [symmetric] bind.bind_lunit ty]
    have pp: "pos \<le> p" by (simp add: p_def)
    show ?thesis
    proof (cases "body ! p = kContentTagCustom")
      case custom: True
      define l where "l = be32_of (body ! (p + 1)) (body ! (p + 2)) (body ! (p + 3)) (body ! (p + 4))"
      show ?thesis
      proof (cases "p + 1 + 4 > length body \<or> l > 1024 * 1024 \<or> p + 1 + 4 + unat l > length body")
        case True
        have "p + 1 + 4 \<le> length body \<Longrightarrow> rd_be32 body (p + 1) = Some l"
          using rd_be32_in [of "p + 1" body] by (simp add: l_def numeral_eq_Suc)
        with True have "split_pass body pos sq first = Some ([], None)"
          unfolding eq using False g custom by (auto simp: frame_consts)
        then show ?thesis by (rule stop)
      next
        case in_range: False
        have rl: "rd_be32 body (p + 1) = Some l"
          using rd_be32_in [of "p + 1" body] in_range by (simp add: l_def numeral_eq_Suc)
        define pl where "pl = take (unat l) (drop (p + 1 + 4) body)"
        have sb: "subbuf body (p + 1 + 4) (p + 1 + 4 + unat l) = Some pl"
          using in_range by (simp add: subbuf_def pl_def)
        have lpl: "length pl = unat l" using in_range by (auto simp: pl_def min_def)
        have "unat l \<le> 1024 * 1024" using in_range by (simp add: word_less_nat_alt)
        moreover have "split_pass body pos sq first
            = Some ([frame_of cs kContentTagCustom pl], Some (p + 1 + 4 + unat l, cs))"
          unfolding eq using False g custom in_range rl sb by (simp add: frame_consts)
        ultimately show ?thesis
          using frame [of "frame_of cs kContentTagCustom pl" "p + 1 + 4 + unat l"] in_range pp lpl
          by (simp add: frame_ok_def known_tag_def)
      qed
    next
      case other: False
      show ?thesis
      proof (cases "body ! p = kContentTagAck \<or> body ! p = kContentTagEmpty")
        case True
        then have "split_pass body pos sq first = Some ([frame_of cs (body ! p) []], Some (p + 1, cs))"
          unfolding eq using False g by simp
        then show ?thesis
          using frame [of "frame_of cs (body ! p) []" "p + 1"] True False pp by (auto simp: known_tag_def)
      next
        case no: False
        then have "split_pass body pos sq first = Some ([frame_of cs (body ! p) []], None)"
          unfolding eq using False g other by simp
        then show ?thesis
          using unknown [of "frame_of cs (body ! p) []"] False pp by simp
      qed
    qed
  qed
qed

function split_loop ::
    "bytes \<Rightarrow> nat \<Rightarrow> u32 \<Rightarrow> bool \<Rightarrow> ChannelFrame list \<Rightarrow> ChannelFrame list option" where
  "split_loop body pos currentSeq first out =
     (if \<not> pos < length body then Some out
      else case split_pass body pos currentSeq first of
        None \<Rightarrow> None
      | Some (fs, None) \<Rightarrow> Some (out @ fs)
      | Some (fs, Some (pos', currentSeq')) \<Rightarrow> split_loop body pos' currentSeq' False (out @ fs))"
  by pat_completeness auto
termination
proof (relation "measure (\<lambda>(body, pos, sq, first, out). length body - pos)")
  fix body :: bytes and pos sq first out p fs o2 pp pos' sq'
  assume "\<not> \<not> pos < length body" and "split_pass body pos sq first = Some p"
    and "(fs, o2) = p" and "o2 = Some pp" and "(pos', sq') = pp"
  then show "((body, pos', sq', False, out @ fs), body, pos, sq, first, out)
      \<in> measure (\<lambda>(body, pos, sq, first, out). length body - pos)"
    by (cases rule: split_pass_cases [of body pos sq first]) auto
qed simp

declare split_loop.simps [simp del]

definition SplitFrames :: "u32 \<Rightarrow> bytes \<Rightarrow> ChannelFrame list option" where
  "SplitFrames outerSeq body = split_loop body 0 outerSeq True []"

text \<open>The bytes of one frame, and the loop of \<open>JoinFrames\<close>.\<close>

definition frame_bytes :: "ChannelFrame \<Rightarrow> bytes" where
  "frame_bytes f =
     (if ContentTag f = kContentTagEmpty \<or> ContentTag f = kContentTagAck then [ContentTag f]
      else [ContentTag f] @ be32 (of_nat (length (FramePayload f))) @ FramePayload f)"

fun join_loop :: "nat \<Rightarrow> ChannelFrame list \<Rightarrow> bytes" where
  "join_loop i [] = []"
| "join_loop i (f # fs) =
     (if i \<noteq> 0 then be32 (Seq f) else []) @ frame_bytes f @ join_loop (i + 1) fs"

definition JoinFrames :: "ChannelFrame list \<Rightarrow> bytes" where
  "JoinFrames frames = join_loop 0 frames"

definition BuildJsonFrame :: "u32 \<Rightarrow> bytes \<Rightarrow> ChannelFrame" where
  "BuildJsonFrame counter jsonPayload =
     \<lparr>Seq = counter OR kSeqBitSinglePacket OR kSeqBitRequiresAck,
      ContentTag = kContentTagCustom, SingleMessagePacket = True, RequiresAck = True,
      Counter = counter, FramePayload = jsonPayload\<rparr>"


section \<open>Splitting is safe\<close>

definition frames_size :: "ChannelFrame list \<Rightarrow> nat" where
  "frames_size fs = sum_list (map (\<lambda>f. Suc (length (FramePayload f))) fs)"

lemma frames_size_simps [simp]:
  "frames_size [] = 0" "frames_size (f # fs) = Suc (length (FramePayload f) + frames_size fs)"
  "frames_size (fs @ gs) = frames_size fs + frames_size gs"
  by (simp_all add: frames_size_def)

lemma split_loop_sound:
  assumes "list_all frame_ok out" and "list_all known_tag out" and "frames_size out \<le> pos"
    and "pos \<le> length body"
  shows "\<exists>fs. split_loop body pos sq first out = Some fs \<and> list_all frame_ok fs \<and>
    list_all known_tag (butlast fs) \<and> frames_size fs \<le> length body"
  using assms
proof (induction body pos sq first out rule: split_loop.induct)
  case (1 body pos sq first out)
  have bl: "list_all known_tag (butlast out)"
    using "1.prems"(2) by (auto simp: list_all_iff dest: in_set_butlastD)
  show ?case
  proof (cases "pos < length body")
    case False
    then show ?thesis using "1.prems" bl by (subst split_loop.simps) simp
  next
    case True
    show ?thesis
    proof (cases rule: split_pass_cases [of body pos sq first])
      case stop
      then show ?thesis using "1.prems" bl True by (subst split_loop.simps) simp
    next
      case (unknown f)
      then show ?thesis using "1.prems" True by (subst split_loop.simps) simp
    next
      case (frame f pos')
      have "split_loop body pos sq first out = split_loop body pos' (Seq f) False (out @ [f])"
        by (subst split_loop.simps) (use frame True in simp)
      then show ?thesis
        using "1.IH" [of "([f], Some (pos', Seq f))" "[f]" "Some (pos', Seq f)" "(pos', Seq f)" pos' "Seq f"]
          True frame "1.prems" by simp
    qed
  qed
qed

text \<open>
  Splitting a decrypted body reads inside it only and always returns. Every frame it
  yields carries the flags and counter of its sequence word and at most one mebibyte of payload,
  only a last frame can have an unknown tag, and the frames together take no more bytes than the
  body has.
\<close>

theorem split_frames_sound:
  "case SplitFrames sq body of
     None \<Rightarrow> False
   | Some fs \<Rightarrow> list_all frame_ok fs \<and> list_all known_tag (butlast fs) \<and> frames_size fs \<le> length body"
  using split_loop_sound [of "[]" 0 body sq True] by (auto simp: SplitFrames_def)


section \<open>Round trip\<close>

lemma split_pass_frame:
  assumes "frame_ok f" and "known_tag f" and "if first then sq = Seq f else True"
    and "pre = (if first then [] else be32 (Seq f))"
  shows "split_pass (xs @ pre @ frame_bytes f @ rest) (length xs) sq first
    = Some ([f], Some (length (xs @ pre @ frame_bytes f), Seq f))"
proof -
  let ?body = "xs @ pre @ frame_bytes f @ rest" and ?p = "length xs + length pre"
  have cs: "(if \<not> first then rd_be32 ?body (length xs) else Some sq) = Some (Seq f)"
    using assms(3,4) by (auto simp: codec_simps)
  have pre: "(if \<not> first then length xs + 4 else length xs) = ?p" using assms(4) by (simp add: be32_def)
  have hd: "frame_bytes f = ContentTag f # tl (frame_bytes f)" by (simp add: frame_bytes_def)
  have ty: "rd8 ?body ?p = Some (ContentTag f)"
    by (subst hd) (simp add: rd8_def nth_append)
  have g: "\<not> (\<not> first \<and> length xs + 4 > length ?body)" "\<not> ?p + 1 > length ?body"
    using assms(4) by (auto simp: be32_def frame_bytes_def)
  have f: "frame_of (Seq f) (ContentTag f) (FramePayload f) = f" using assms(1) by (simp add: frame_ok_def)
  note eq = split_pass_def [of ?body "length xs" sq first, unfolded Let_def cs pre bind.bind_lunit ty]
  show ?thesis
  proof (cases "ContentTag f = kContentTagCustom")
    case False
    then have "FramePayload f = []" "ContentTag f = kContentTagEmpty \<or> ContentTag f = kContentTagAck"
      using assms(1,2) by (auto simp: frame_ok_def known_tag_def)
    then show ?thesis unfolding eq using g f by (auto simp: frame_bytes_def)
  next
    case True
    let ?l = "of_nat (length (FramePayload f)) :: u32"
    have fb: "frame_bytes f = [kContentTagCustom] @ be32 ?l @ FramePayload f"
      using True by (simp add: frame_bytes_def frame_consts)
    have small: "length (FramePayload f) \<le> 1024 * 1024" using assms(1) by (simp add: frame_ok_def)
    then have ul: "unat ?l = length (FramePayload f)" by (simp add: unat_of_nat)
    have "rd_be32 ((xs @ pre @ [kContentTagCustom]) @ be32 ?l @ (FramePayload f @ rest))
        (length (xs @ pre @ [kContentTagCustom])) = Some ?l" by (rule rd_be32_middle)
    then have rl: "rd_be32 ?body (?p + 1) = Some ?l" by (simp add: fb)
    have be: "?body = (xs @ pre @ [kContentTagCustom] @ be32 ?l) @ FramePayload f @ rest" by (simp add: fb)
    have le: "?p + 1 + 4 = length (xs @ pre @ [kContentTagCustom] @ be32 ?l)" by (simp add: be32_def)
    have sb: "subbuf ?body (?p + 1 + 4) (?p + 1 + 4 + unat ?l) = Some (FramePayload f)"
      unfolding be le by (rule subbuf_middle) (simp add: ul)
    have ln: "length ?body = ?p + 1 + 4 + unat ?l + length rest" by (simp add: fb be32_def ul)
    have "\<not> ?l > 1024 * 1024" using small ul by (simp add: word_less_nat_alt)
    then show ?thesis
      unfolding eq using g f True rl sb ln
      by (simp add: frame_consts fb be32_def ul)
  qed
qed

lemma split_loop_join:
  assumes "list_all frame_ok fs" and "list_all known_tag fs"
    and "if i = (0::nat) then (if fs = [] then True else sq = Seq (hd fs)) else True"
  shows "split_loop (xs @ join_loop i fs) (length xs) sq (i = 0) out = Some (out @ fs)"
  using assms
proof (induction fs arbitrary: i xs sq out)
  case Nil
  then show ?case by (subst split_loop.simps) simp
next
  case (Cons f fs)
  define pre where "pre = (if i = 0 then [] else be32 (Seq f))"
  define B where "B = xs @ join_loop i (f # fs)"
  have b: "B = xs @ pre @ frame_bytes f @ join_loop (i + 1) fs"
    by (simp add: pre_def B_def)
  have fb: "frame_bytes f \<noteq> []" by (simp add: frame_bytes_def)
  have sp: "split_pass B (length xs) sq (i = 0) = Some ([f], Some (length (xs @ pre @ frame_bytes f), Seq f))"
    unfolding b using Cons.prems by (intro split_pass_frame) (auto simp: pre_def)
  have "length xs < length B" using fb by (simp add: b)
  then have "split_loop B (length xs) sq (i = 0) out
      = split_loop B (length (xs @ pre @ frame_bytes f)) (Seq f) False (out @ [f])"
    by (subst split_loop.simps) (simp add: sp)
  also have "\<dots> = split_loop ((xs @ pre @ frame_bytes f) @ join_loop (i + 1) fs)
      (length (xs @ pre @ frame_bytes f)) (Seq f) (i + 1 = 0) (out @ [f])"
    by (simp add: b)
  also have "\<dots> = Some ((out @ [f]) @ fs)"
    using Cons.prems by (intro Cons.IH) simp_all
  finally show ?case by (simp add: B_def)
qed

text \<open>
  Joining frames and splitting the bytes again gives the frames back, in order, with
  their sequence words, flags and payloads, for every list of well-formed frames with known tags,
  the first frame's sequence word being the packet's.
\<close>

theorem frames_roundtrip:
  assumes "list_all frame_ok fs" and "list_all known_tag fs" and "fs \<noteq> []"
  shows "SplitFrames (Seq (hd fs)) (JoinFrames fs) = Some fs"
  using split_loop_join [of fs 0 "Seq (hd fs)" "[]" "[]"] assms
  by (simp add: SplitFrames_def JoinFrames_def)

theorem frames_roundtrip_witness:
  "SplitFrames 0x40000001 (JoinFrames [frame_of 0x40000001 0x7F [123, 125], frame_of 2 0xFF []])
     = Some [frame_of 0x40000001 0x7F [123, 125], frame_of 2 0xFF []]"
  using frames_roundtrip [of "[frame_of 0x40000001 0x7F [123, 125], frame_of 2 0xFF []]"]
  by (simp add: frame_ok_def known_tag_def frame_consts)

lemma split_frames_join:
  "list_all frame_ok fs \<Longrightarrow> list_all known_tag fs \<Longrightarrow> fs \<noteq> [] \<Longrightarrow>
     SplitFrames (Seq (hd fs)) (JoinFrames fs) = Some fs"
  using split_loop_join [of fs 0 "Seq (hd fs)" "[]" "[]"] by (simp add: SplitFrames_def JoinFrames_def)

text \<open>A frame made for a JSON message is well formed when its counter leaves the two flag bits
  free, which the code does not check.\<close>

lemma BuildJsonFrame_Seq:
  "Seq (BuildJsonFrame c p) AND 0xC0000000 = 0xC0000000"
  by (simp add: BuildJsonFrame_def frame_consts bit_eq_iff bit_simps)

end
