(* ===== verification/Json.thy ===== *)
theory Json
  imports Decimal Float64
begin

text \<open>
  The hand-written JSON reader and writer of \<open>domain/tgcalls_signaling_messages.cpp\<close>. The parser's
  cursor is modelled by the rest of the text, and \<open>Failed\<close> by \<^const>\<open>None\<close> (\<open>ParseFailed\<close> in
  \<open>ParseValue\<close>): every path that returns false has set it and no path that returns true has. The mutual
  recursion of \<open>ParseValue\<close> carries a fuel; running out of it is an outcome of its own, shown never to occur
  when the fuel is more than twice the length of the text.
\<close>

unbundle bit_operations_syntax

section \<open>Values\<close>

datatype JsonValue = JNull | JBool bool | JNumber rat | JString string
  | JArray "JsonValue list" | JObject "(string \<times> JsonValue) list"

text \<open>\<open>JsonValue::Find\<close>: the first value of that key, nothing for other kinds.\<close>

fun Find :: "JsonValue \<Rightarrow> string \<Rightarrow> JsonValue option" where
  "Find (JObject kvs) key = map_option snd (find (\<lambda>(k, v). k = key) kvs)"
| "Find _ key = None"


section \<open>Scanning\<close>

definition json_ws :: "char \<Rightarrow> bool" where
  "json_ws c \<longleftrightarrow> c = CHR '' '' \<or> c = CHR 0x09 \<or> c = CHR 0x0A \<or> c = CHR 0x0D"

definition SkipWs :: "string \<Rightarrow> string" where
  "SkipWs s = dropWhile json_ws s"

definition Match :: "char \<Rightarrow> string \<Rightarrow> string option" where
  "Match c s = (case SkipWs s of [] \<Rightarrow> None | d # r \<Rightarrow> if d = c then Some r else None)"

text \<open>The four hex digits after \<open>\u\<close>, and the code point as UTF-8.\<close>

fun parse_hex4 :: "string \<Rightarrow> (nat \<times> string) option" where
  "parse_hex4 (a # b # c # d # s) = do {
     w \<leftarrow> hex_val a; x \<leftarrow> hex_val b; y \<leftarrow> hex_val c; z \<leftarrow> hex_val d;
     Some (((w * 16 + x) * 16 + y) * 16 + z, s) }"
| "parse_hex4 _ = None"

definition utf8_bmp :: "nat \<Rightarrow> string" where
  "utf8_bmp cp =
     (if cp < 0x80 then [char_of cp]
      else if cp < 0x800 then [char_of (0xC0 + cp div 64), char_of (0x80 + cp mod 64)]
      else [char_of (0xE0 + cp div 4096), char_of (0x80 + cp div 64 mod 64), char_of (0x80 + cp mod 64)])"

definition unescape :: "char \<Rightarrow> char" where
  "unescape e =
     (if e = CHR ''b'' then CHR 0x08 else if e = CHR ''f'' then CHR 0x0C
      else if e = CHR ''n'' then CHR 0x0A else if e = CHR ''r'' then CHR 0x0D
      else if e = CHR ''t'' then CHR 0x09 else e)"

lemma parse_hex4_shorter: "parse_hex4 s = Some (cp, r) \<Longrightarrow> length r < length s"
  by (induction s rule: parse_hex4.induct) (auto simp: bind_eq_Some_conv)

text \<open>The loop of \<open>ParseString\<close> after the opening quote.\<close>

function parse_chars :: "string \<Rightarrow> string \<Rightarrow> (string \<times> string) option" where
  "parse_chars [] out = None"
| "parse_chars (c # s) out =
     (if c = CHR 0x22 then Some (out, s)
      else if c = CHR 0x5C then
        (case s of [] \<Rightarrow> None
         | e # s \<Rightarrow>
             if e = CHR ''u''
             then (case parse_hex4 s of None \<Rightarrow> None
                   | Some (cp, s) \<Rightarrow> parse_chars s (out @ utf8_bmp cp))
             else parse_chars s (out @ [unescape e]))
      else parse_chars s (out @ [c]))"
  by pat_completeness auto
termination
  by (relation "measure (\<lambda>(s, out). length s)") (auto dest: parse_hex4_shorter)

definition ParseString :: "string \<Rightarrow> (string \<times> string) option" where
  "ParseString s = (case SkipWs s of [] \<Rightarrow> None
     | c # r \<Rightarrow> if c \<noteq> CHR 0x22 then None else parse_chars r [])"

fun ParseLiteral :: "string \<Rightarrow> string \<Rightarrow> string option" where
  "ParseLiteral [] s = Some s"
| "ParseLiteral (l # lit) (c # s) = (if l = c then ParseLiteral lit s else None)"
| "ParseLiteral (l # lit) [] = None"

text \<open>
  The text of a number: sign, digits, fraction, exponent; \<open>saw\<close> says whether a digit came before
  the exponent.
\<close>

definition opt_sign :: "string \<Rightarrow> string \<times> string" where
  "opt_sign s = (case s of c # r \<Rightarrow> if c = CHR ''-'' \<or> c = CHR ''+'' then ([c], r) else ([], s)
     | [] \<Rightarrow> ([], []))"

definition scan_digits :: "string \<Rightarrow> string \<times> string" where
  "scan_digits s = (takeWhile is_digit s, dropWhile is_digit s)"

definition scan_number :: "string \<Rightarrow> string \<times> bool \<times> string" where
  "scan_number s =
     (case opt_sign s of (sg, s) \<Rightarrow>
      case scan_digits s of (ds, s) \<Rightarrow>
      (case (case s of [] \<Rightarrow> ([], s)
             | c # r \<Rightarrow> if c = CHR ''.'' then (case scan_digits r of (fs, r) \<Rightarrow> (c # fs, r)) else ([], s)) of
        (fr, s) \<Rightarrow>
       (case (case s of [] \<Rightarrow> ([], s)
              | c # r \<Rightarrow> if c = CHR ''e'' \<or> c = CHR ''E''
                  then (case opt_sign r of (es, r) \<Rightarrow> case scan_digits r of (xs, r) \<Rightarrow> (c # es @ xs, r))
                  else ([], s)) of
         (ex, s) \<Rightarrow> (sg @ ds @ fr @ ex, ds \<noteq> [] \<or> tl fr \<noteq> [], s))))"

text \<open>
  \<open>std::atof\<close> on such a text: the decimal value rounded to a double. An exponent without digits
  is not part of the number. A value beyond the range of double, which \<open>atof\<close> makes an infinity,
  keeps its magnitude here; both are outside every integer type.
\<close>

definition atof :: "string \<Rightarrow> rat" where
  "atof s =
     (case opt_sign s of (sg, s) \<Rightarrow>
      case scan_digits s of (ds, s) \<Rightarrow>
      (case (case s of [] \<Rightarrow> ([], s)
             | c # r \<Rightarrow> if c = CHR ''.'' then scan_digits r else ([], s)) of
        (fs, s) \<Rightarrow>
        (let ex = (case s of [] \<Rightarrow> 0
               | c # r \<Rightarrow> if c = CHR ''e'' \<or> c = CHR ''E''
                   then (case opt_sign r of (es, r) \<Rightarrow>
                     (if es = ''-'' then - int (digits_val (takeWhile is_digit r))
                      else int (digits_val (takeWhile is_digit r))))
                   else 0);
             e = ex - int (length fs);
             m = of_nat (digits_val (ds @ fs)) * (if 0 \<le> e then 10 ^ nat e else 1 / 10 ^ nat (- e))
         in rnd64 (if sg = ''-'' then - m else m))))"

definition ParseNumber :: "string \<Rightarrow> (rat \<times> string) option" where
  "ParseNumber s =
     (case scan_number (SkipWs s) of (txt, saw, r) \<Rightarrow> if saw then Some (atof txt, r) else None)"


section \<open>The parser\<close>

text \<open>
  The outcome of a parse: a value with the rest of the text, a failure (\<open>Failed\<close> is set and
  \<open>ParseValue\<close> returns false), or a recursion that was cut off because its fuel ran out, which the code does
  not know and which is therefore kept apart from a failure. A call that is cut off cuts off its caller.
\<close>

datatype parse_result = OutOfFuel | ParseFailed | Parsed JsonValue string

definition scalar_result :: "('a \<Rightarrow> JsonValue) \<Rightarrow> ('a \<times> string) option \<Rightarrow> parse_result" where
  "scalar_result f p = (case p of None \<Rightarrow> ParseFailed | Some (x, r) \<Rightarrow> Parsed (f x) r)"

fun parse_value :: "nat \<Rightarrow> string \<Rightarrow> parse_result"
  and parse_members :: "nat \<Rightarrow> string \<Rightarrow> (string \<times> JsonValue) list \<Rightarrow> parse_result"
  and parse_elements :: "nat \<Rightarrow> string \<Rightarrow> JsonValue list \<Rightarrow> parse_result" where
  "parse_value 0 s = OutOfFuel"
| "parse_value (Suc k) s =
     (case SkipWs s of [] \<Rightarrow> ParseFailed
      | c # r \<Rightarrow>
          if c = CHR 0x22 then scalar_result JString (ParseString (c # r))
          else if c = CHR ''{'' then
            (case Match (CHR ''}'') r of Some r' \<Rightarrow> Parsed (JObject []) r'
             | None \<Rightarrow> parse_members k r [])
          else if c = CHR ''['' then
            (case Match (CHR '']'') r of Some r' \<Rightarrow> Parsed (JArray []) r'
             | None \<Rightarrow> parse_elements k r [])
          else if c = CHR ''t'' then scalar_result JBool (map_option (Pair True) (ParseLiteral ''true'' (c # r)))
          else if c = CHR ''f'' then scalar_result JBool (map_option (Pair False) (ParseLiteral ''false'' (c # r)))
          else if c = CHR ''n'' then scalar_result (\<lambda>_. JNull) (map_option (Pair ()) (ParseLiteral ''null'' (c # r)))
          else if c = CHR ''-'' \<or> is_digit c then scalar_result JNumber (ParseNumber (c # r))
          else ParseFailed)"
| "parse_members 0 s acc = OutOfFuel"
| "parse_members (Suc k) s acc =
     (case ParseString s of None \<Rightarrow> ParseFailed
      | Some (key, s) \<Rightarrow>
        (case Match (CHR '':'') s of None \<Rightarrow> ParseFailed
         | Some s \<Rightarrow>
           (case parse_value k s of OutOfFuel \<Rightarrow> OutOfFuel | ParseFailed \<Rightarrow> ParseFailed
            | Parsed v s \<Rightarrow>
              (case Match (CHR '','') s of Some s \<Rightarrow> parse_members k s (acc @ [(key, v)])
               | None \<Rightarrow>
                 (case Match (CHR ''}'') s of Some s \<Rightarrow> Parsed (JObject (acc @ [(key, v)])) s
                  | None \<Rightarrow> ParseFailed)))))"
| "parse_elements 0 s acc = OutOfFuel"
| "parse_elements (Suc k) s acc =
     (case parse_value k s of OutOfFuel \<Rightarrow> OutOfFuel | ParseFailed \<Rightarrow> ParseFailed
      | Parsed v s \<Rightarrow>
        (case Match (CHR '','') s of Some s \<Rightarrow> parse_elements k s (acc @ [v])
         | None \<Rightarrow>
           (case Match (CHR '']'') s of Some s \<Rightarrow> Parsed (JArray (acc @ [v])) s
            | None \<Rightarrow> ParseFailed)))"

definition ParseJson :: "string \<Rightarrow> JsonValue option" where
  "ParseJson json =
     (case parse_value (2 * length json + 2) json of Parsed v r \<Rightarrow> Some v | _ \<Rightarrow> None)"


section \<open>The writer's escapes\<close>

definition escape_char :: "char \<Rightarrow> string" where
  "escape_char c =
     (if c = CHR 0x22 then [CHR 0x5C, CHR 0x22]
      else if c = CHR 0x5C then [CHR 0x5C, CHR 0x5C]
      else if c = CHR 0x08 then [CHR 0x5C, CHR ''b'']
      else if c = CHR 0x0C then [CHR 0x5C, CHR ''f'']
      else if c = CHR 0x0A then [CHR 0x5C, CHR ''n'']
      else if c = CHR 0x0D then [CHR 0x5C, CHR ''r'']
      else if c = CHR 0x09 then [CHR 0x5C, CHR ''t'']
      else if (of_char c :: nat) < 0x20 then
        [CHR 0x5C, CHR ''u'', CHR ''0'', CHR ''0'',
         hex_digit (of_char c div 16), hex_digit (of_char c mod 16)]
      else [c])"

definition EscapeJson :: "string \<Rightarrow> string" where
  "EscapeJson s = concat (map escape_char s)"


section \<open>Strings survive\<close>

lemma parse_chars_escape:
  "parse_chars (escape_char c @ r) out = parse_chars r (out @ [c])"
proof (cases "(of_char c :: nat) < 0x20")
  case True
  have n: "of_char c div 16 < (16 :: nat)" "of_char c mod 16 < (16 :: nat)" using True by simp_all
  have z: "hex_val (CHR ''0'') = Some 0" by (simp add: hex_val_def)
  have "parse_hex4 (CHR ''0'' # CHR ''0'' # hex_digit (of_char c div 16) #
      hex_digit (of_char c mod 16) # r) = Some (of_char c, r)"
    using hex_val_digit [OF n(1)] hex_val_digit [OF n(2)] by (simp add: z)
  moreover have "utf8_bmp (of_char c) = [c]" using True by (simp add: utf8_bmp_def)
  ultimately show ?thesis
    using True by (auto simp: escape_char_def unescape_def)
next
  case False
  then show ?thesis by (auto simp: escape_char_def unescape_def)
qed

lemma parse_chars_EscapeJson:
  "parse_chars (EscapeJson s @ CHR 0x22 # r) out = Some (out @ s, r)"
proof (induction s arbitrary: out)
  case Nil
  then show ?case by (simp add: EscapeJson_def)
next
  case (Cons c s)
  then show ?case by (simp add: EscapeJson_def parse_chars_escape)
qed

definition json_string :: "string \<Rightarrow> string" where
  "json_string s = CHR 0x22 # EscapeJson s @ [CHR 0x22]"

lemma ParseString_json_string: "ParseString (json_string s @ r) = Some (s, r)"
  using parse_chars_EscapeJson [of s r "[]"]
  by (simp add: ParseString_def json_string_def SkipWs_def json_ws_def)

text \<open>
  A string of any bytes, quotes, backslashes, control characters and NUL included,
  written between quotes with the serializer's escapes, is read back by the parser unchanged, and
  the cursor is left right after the closing quote.
\<close>

theorem json_string_roundtrip:
  "ParseString (CHR 0x22 # EscapeJson s @ CHR 0x22 # rest) = Some (s, rest)"
  using parse_chars_EscapeJson [of s rest "[]"]
  by (simp add: ParseString_def SkipWs_def json_ws_def)


section \<open>The fuel is enough\<close>

lemma SkipWs_shorter: "length (SkipWs s) \<le> length s"
  by (simp add: SkipWs_def length_dropWhile_le)

lemma Match_shorter: "Match c s = Some r \<Longrightarrow> length r < length s"
  using SkipWs_shorter [of s] by (auto simp: Match_def split: list.splits if_splits)

lemma parse_chars_shorter: "parse_chars s out = Some (x, r) \<Longrightarrow> length r < length s"
proof (induction s out rule: parse_chars.induct)
  case (2 c s out)
  show ?case
  proof (cases "c = CHR 0x22 \<or> c \<noteq> CHR 0x5C")
    case True
    then show ?thesis using 2 by (auto split: if_splits)
  next
    case False
    with "2.prems" obtain e s' where s: "s = e # s'" by (cases s) auto
    show ?thesis
    proof (cases "e = CHR ''u''")
      case True
      with "2.prems" False s obtain cp t where h: "parse_hex4 s' = Some (cp, t)"
        and t: "parse_chars t (out @ utf8_bmp cp) = Some (x, r)"
        by (auto split: option.splits)
      have "length r < length t" using False s True h t by (intro "2.IH") auto
      then show ?thesis using parse_hex4_shorter [OF h] s by simp
    next
      case eno: False
      have "length r < length s'" using "2.prems" False s eno by (intro "2.IH") auto
      then show ?thesis using s by simp
    qed
  qed
qed simp

lemma ParseString_shorter: "ParseString s = Some (x, r) \<Longrightarrow> length r < length s"
  using SkipWs_shorter [of s] parse_chars_shorter
  by (fastforce simp: ParseString_def split: list.splits if_splits)

lemma ParseLiteral_shorter: "ParseLiteral l s = Some r \<Longrightarrow> length r + length l = length s"
  by (induction l s rule: ParseLiteral.induct) (auto split: if_splits)

lemma opt_sign_length: "opt_sign s = (a, b) \<Longrightarrow> length a + length b = length s"
  by (auto simp: opt_sign_def split: list.splits if_splits)

lemma scan_digits_length: "scan_digits s = (a, b) \<Longrightarrow> length a + length b = length s"
  using takeWhile_dropWhile_id [of is_digit s] unfolding scan_digits_def
  by (metis length_append prod.inject)

lemma scan_number_shorter:
  assumes "scan_number s = (txt, True, r)"
  shows "length r < length s"
proof -
  obtain sg s1 where a: "opt_sign s = (sg, s1)" by fastforce
  obtain ds s2 where b: "scan_digits s1 = (ds, s2)" by fastforce
  define F where "F = (case s2 of [] \<Rightarrow> ([], s2)
    | c # r \<Rightarrow> if c = CHR ''.'' then (case scan_digits r of (fs, r) \<Rightarrow> (c # fs, r)) else ([], s2))"
  obtain fr s3 where c: "F = (fr, s3)" by fastforce
  have fl: "length fr + length s3 = length s2"
    using c unfolding F_def
    by (auto split: list.splits if_splits prod.splits dest: scan_digits_length)
  define X where "X = (case s3 of [] \<Rightarrow> ([], s3)
    | c # r \<Rightarrow> if c = CHR ''e'' \<or> c = CHR ''E''
        then (case opt_sign r of (es, r) \<Rightarrow> case scan_digits r of (xs, r) \<Rightarrow> (c # es @ xs, r))
        else ([], s3))"
  obtain ex s4 where d: "X = (ex, s4)" by fastforce
  have xl: "length s4 \<le> length s3"
    using d unfolding X_def
    by (auto split: list.splits if_splits prod.splits dest!: scan_digits_length opt_sign_length)
  have "scan_number s = (sg @ ds @ fr @ ex, ds \<noteq> [] \<or> tl fr \<noteq> [], s4)"
    using a b c d unfolding scan_number_def F_def X_def by simp
  with assms have r: "r = s4" and ne: "ds \<noteq> [] \<or> fr \<noteq> []" by auto
  from ne show ?thesis
    using opt_sign_length [OF a] scan_digits_length [OF b] fl xl r
    by (auto simp flip: length_greater_0_conv)
qed

lemma ParseNumber_shorter: "ParseNumber s = Some (x, r) \<Longrightarrow> length r < length s"
  using SkipWs_shorter [of s] scan_number_shorter [of "SkipWs s"]
  by (fastforce simp: ParseNumber_def split: prod.splits if_splits)

text \<open>One step of each function, by cases.\<close>

lemma parse_members_step:
  assumes "parse_members (Suc k) s acc = Parsed w r"
  obtains key s1 s2 v s3 where "ParseString s = Some (key, s1)" and "Match (CHR '':'') s1 = Some s2"
    and "parse_value k s2 = Parsed v s3"
    and "(\<exists>s4. Match (CHR '','') s3 = Some s4 \<and> parse_members k s4 (acc @ [(key, v)]) = Parsed w r)
      \<or> (Match (CHR ''}'') s3 = Some r \<and> w = JObject (acc @ [(key, v)]))"
  using assms by (auto split: option.splits prod.splits parse_result.splits)

lemma parse_elements_step:
  assumes "parse_elements (Suc k) s acc = Parsed w r"
  obtains v s3 where "parse_value k s = Parsed v s3"
    and "(\<exists>s4. Match (CHR '','') s3 = Some s4 \<and> parse_elements k s4 (acc @ [v]) = Parsed w r)
      \<or> (Match (CHR '']'') s3 = Some r \<and> w = JArray (acc @ [v]))"
  using assms by (auto split: option.splits prod.splits parse_result.splits)

text \<open>What \<open>parse_value\<close> does on each first character, as one of three shapes.\<close>

definition parse_scalar :: "char \<Rightarrow> string \<Rightarrow> parse_result" where
  "parse_scalar c r =
     (if c = CHR 0x22 then scalar_result JString (ParseString (c # r))
      else if c = CHR ''t'' then scalar_result JBool (map_option (Pair True) (ParseLiteral ''true'' (c # r)))
      else if c = CHR ''f'' then scalar_result JBool (map_option (Pair False) (ParseLiteral ''false'' (c # r)))
      else if c = CHR ''n'' then scalar_result (\<lambda>_. JNull) (map_option (Pair ()) (ParseLiteral ''null'' (c # r)))
      else if c = CHR ''-'' \<or> is_digit c then scalar_result JNumber (ParseNumber (c # r))
      else ParseFailed)"

lemma scalar_result_simps [simp]:
  "scalar_result f None = ParseFailed"
  "scalar_result f (Some (x, r)) = Parsed (f x) r"
  "scalar_result f p \<noteq> OutOfFuel"
  by (simp_all add: scalar_result_def split: option.split)

lemma scalar_result_eq: "scalar_result f p = Parsed v r \<longleftrightarrow> (\<exists>x. p = Some (x, r) \<and> v = f x)"
  by (auto simp: scalar_result_def split: option.splits)

lemma parse_scalar_fuel [simp]: "parse_scalar c r \<noteq> OutOfFuel"
  by (simp add: parse_scalar_def)

lemma parse_value_shape:
  "parse_value (Suc k) s =
     (case SkipWs s of [] \<Rightarrow> ParseFailed
      | c # r \<Rightarrow>
          if c = CHR ''{'' then
            (case Match (CHR ''}'') r of Some r' \<Rightarrow> Parsed (JObject []) r'
             | None \<Rightarrow> parse_members k r [])
          else if c = CHR ''['' then
            (case Match (CHR '']'') r of Some r' \<Rightarrow> Parsed (JArray []) r'
             | None \<Rightarrow> parse_elements k r [])
          else parse_scalar c r)"
  by (auto simp: parse_scalar_def split: list.splits)

lemma parse_scalar_shorter:
  assumes "parse_scalar c t = Parsed v r"
  shows "length r < length (c # t)"
  using assms unfolding parse_scalar_def
  by (auto simp: scalar_result_eq split: if_splits dest!: ParseString_shorter ParseLiteral_shorter ParseNumber_shorter)

lemma parse_value_step:
  assumes "parse_value (Suc k) s = Parsed v r"
  obtains c t where "length (c # t) \<le> length s"
    and "(\<exists>d. Match d t = Some r) \<or> parse_members k t [] = Parsed v r \<or>
      parse_elements k t [] = Parsed v r \<or> parse_scalar c t = Parsed v r"
proof -
  obtain c t where t: "SkipWs s = c # t" using assms by (cases "SkipWs s") auto
  have "length (c # t) \<le> length s" using SkipWs_shorter [of s] t by simp
  moreover have "(\<exists>d. Match d t = Some r) \<or> parse_members k t [] = Parsed v r \<or>
      parse_elements k t [] = Parsed v r \<or> parse_scalar c t = Parsed v r"
    using assms unfolding parse_value_shape t
    by (auto simp del: parse_value.simps parse_members.simps parse_elements.simps
        split: if_splits option.splits)
  ultimately show ?thesis by (rule that)
qed

lemma parse_shorter_aux:
  "(\<forall>s v r. parse_value k s = Parsed v r \<longrightarrow> length r < length s) \<and>
   (\<forall>s acc w r. parse_members k s acc = Parsed w r \<longrightarrow> length r < length s) \<and>
   (\<forall>s acc w r. parse_elements k s acc = Parsed w r \<longrightarrow> length r < length s)"
proof (induction k)
  case 0
  then show ?case by simp
next
  case (Suc k)
  then have v: "\<And>s v r. parse_value k s = Parsed v r \<Longrightarrow> length r < length s"
    and m: "\<And>s acc w r. parse_members k s acc = Parsed w r \<Longrightarrow> length r < length s"
    and e: "\<And>s acc w r. parse_elements k s acc = Parsed w r \<Longrightarrow> length r < length s"
    by blast+
  have V: "length r < length s" if h: "parse_value (Suc k) s = Parsed v r" for s v r
  proof -
    from h obtain c t where "length (c # t) \<le> length s"
      and "(\<exists>d. Match d t = Some r) \<or> parse_members k t [] = Parsed v r \<or>
        parse_elements k t [] = Parsed v r \<or> parse_scalar c t = Parsed v r"
      by (rule parse_value_step)
    moreover from this(2) have "length r < length (c # t)"
      by (elim disjE exE) (auto dest: m e parse_scalar_shorter Match_shorter)
    ultimately show ?thesis by simp
  qed
  have M: "length r < length s" if h: "parse_members (Suc k) s acc = Parsed w r" for s acc w r
  proof -
    from h obtain key s1 s2 u s3 where "ParseString s = Some (key, s1)" and "Match (CHR '':'') s1 = Some s2"
      and "parse_value k s2 = Parsed u s3"
      and d: "(\<exists>s4. Match (CHR '','') s3 = Some s4 \<and> parse_members k s4 (acc @ [(key, u)]) = Parsed w r)
        \<or> (Match (CHR ''}'') s3 = Some r \<and> w = JObject (acc @ [(key, u)]))"
      by (rule parse_members_step)
    then have "length s3 < length s" by (auto dest!: v Match_shorter ParseString_shorter)
    moreover from d have "length r < length s3"
      by (elim disjE exE conjE) (auto dest!: m Match_shorter)
    ultimately show ?thesis by simp
  qed
  have E: "length r < length s" if h: "parse_elements (Suc k) s acc = Parsed w r" for s acc w r
  proof -
    from h obtain u s3 where "parse_value k s = Parsed u s3"
      and d: "(\<exists>s4. Match (CHR '','') s3 = Some s4 \<and> parse_elements k s4 (acc @ [u]) = Parsed w r)
        \<or> (Match (CHR '']'') s3 = Some r \<and> w = JArray (acc @ [u]))"
      by (rule parse_elements_step)
    then have "length s3 < length s" by (auto dest!: v)
    moreover from d have "length r < length s3"
      by (elim disjE exE conjE) (auto dest!: e Match_shorter)
    ultimately show ?thesis by simp
  qed
  show ?case
    by (intro conjI allI impI) (erule V, erule M, erule E)
qed

lemma parse_value_shorter: "parse_value k s = Parsed v r \<Longrightarrow> length r < length s"
  using parse_shorter_aux by blast

text \<open>With fuel above twice the length, more fuel changes nothing.\<close>

lemma parse_fuel_aux:
  "(\<forall>s k k'. length s = n \<longrightarrow> 2 * n < k \<longrightarrow> 2 * n < k' \<longrightarrow> parse_value k s = parse_value k' s) \<and>
   (\<forall>s acc k k'. length s = n \<longrightarrow> 2 * n < k \<longrightarrow> 2 * n < k' \<longrightarrow>
      parse_members k s acc = parse_members k' s acc) \<and>
   (\<forall>s acc k k'. length s = n \<longrightarrow> 2 * n + 1 < k \<longrightarrow> 2 * n + 1 < k' \<longrightarrow>
      parse_elements k s acc = parse_elements k' s acc)"
proof (induction n rule: less_induct)
  case (less n)
  have IHv: "parse_value k s = parse_value k' s"
    if "length s < n" "2 * length s < k" "2 * length s < k'" for s k k'
    by (rule less [OF that(1), THEN conjunct1, rule_format, OF refl that(2,3)])
  have IHm: "parse_members k s acc = parse_members k' s acc"
    if "length s < n" "2 * length s < k" "2 * length s < k'" for s acc k k'
    by (rule less [OF that(1), THEN conjunct2, THEN conjunct1, rule_format, OF refl that(2,3)])
  have IHe: "parse_elements k s acc = parse_elements k' s acc"
    if "length s < n" "2 * length s + 1 < k" "2 * length s + 1 < k'" for s acc k k'
    by (rule less [OF that(1), THEN conjunct2, THEN conjunct2, rule_format, OF refl that(2,3)])
  have V: "parse_value k s = parse_value k' s"
    if n: "length s = n" and k: "2 * n < k" "2 * n < k'" for s k k'
  proof -
    obtain j j' where j: "k = Suc j" "k' = Suc j'" using k by (cases k; cases k') auto
    show ?thesis
    proof (cases "SkipWs s")
      case Nil
      then show ?thesis by (simp add: j)
    next
      case (Cons c t)
      then have t: "length t < n" using SkipWs_shorter [of s] n by simp
      have "parse_members j t [] = parse_members j' t []" using t k j by (intro IHm) auto
      moreover have "parse_elements j t [] = parse_elements j' t []" using t k j by (intro IHe) auto
      ultimately show ?thesis unfolding j parse_value_shape Cons by (simp split: option.split)
    qed
  qed
  have M: "parse_members k s acc = parse_members k' s acc"
    if n: "length s = n" and k: "2 * n < k" "2 * n < k'" for s acc k k'
  proof -
    obtain j j' where j: "k = Suc j" "k' = Suc j'" using k by (cases k; cases k') auto
    have v: "parse_value j s2 = parse_value j' s2"
      if "ParseString s = Some (key, s1)" "Match (CHR '':'') s1 = Some s2" for key s1 s2
      using ParseString_shorter [OF that(1)] Match_shorter [OF that(2)] n k j by (intro IHv) auto
    have m: "parse_members j s4 a = parse_members j' s4 a"
      if "ParseString s = Some (key, s1)" "Match (CHR '':'') s1 = Some s2"
        "parse_value j' s2 = Parsed v s3" "Match (CHR '','') s3 = Some s4" for key s1 s2 v s3 s4 a
      using ParseString_shorter [OF that(1)] Match_shorter [OF that(2)] parse_value_shorter [OF that(3)]
        Match_shorter [OF that(4)] n k j by (intro IHm) auto
    show ?thesis
      unfolding j by (auto simp: v m split: option.split parse_result.split)
  qed
  have "parse_elements k s acc = parse_elements k' s acc"
    if n: "length s = n" and k: "2 * n + 1 < k" "2 * n + 1 < k'" for s acc k k'
  proof -
    obtain j j' where j: "k = Suc j" "k' = Suc j'" using k by (cases k; cases k') auto
    have v: "parse_value j s = parse_value j' s" using n k j by (intro V) auto
    have e: "parse_elements j s4 a = parse_elements j' s4 a"
      if "parse_value j' s = Parsed v s3" "Match (CHR '','') s3 = Some s4" for v s3 s4 a
      using parse_value_shorter [OF that(1)] Match_shorter [OF that(2)] n k j by (intro IHe) auto
    show ?thesis
      unfolding j by (auto simp: v e split: option.split parse_result.split)
  qed
  with V M show ?case by (intro conjI allI impI)
qed

lemma parse_value_fuel:
  "2 * length s < k \<Longrightarrow> 2 * length s < k' \<Longrightarrow> parse_value k s = parse_value k' s"
  by (rule parse_fuel_aux [THEN conjunct1, rule_format, OF refl])

lemma parse_fuel_enough_aux:
  "(\<forall>s k. length s = n \<longrightarrow> 2 * n < k \<longrightarrow> parse_value k s \<noteq> OutOfFuel) \<and>
   (\<forall>s acc k. length s = n \<longrightarrow> 2 * n < k \<longrightarrow> parse_members k s acc \<noteq> OutOfFuel) \<and>
   (\<forall>s acc k. length s = n \<longrightarrow> 2 * n + 1 < k \<longrightarrow> parse_elements k s acc \<noteq> OutOfFuel)"
proof (induction n rule: less_induct)
  case (less n)
  have IHv: "parse_value k s \<noteq> OutOfFuel" if "length s < n" "2 * length s < k" for s k
    by (rule less [OF that(1), THEN conjunct1, rule_format, OF refl that(2)])
  have IHm: "parse_members k s acc \<noteq> OutOfFuel" if "length s < n" "2 * length s < k" for s acc k
    by (rule less [OF that(1), THEN conjunct2, THEN conjunct1, rule_format, OF refl that(2)])
  have IHe: "parse_elements k s acc \<noteq> OutOfFuel" if "length s < n" "2 * length s + 1 < k" for s acc k
    by (rule less [OF that(1), THEN conjunct2, THEN conjunct2, rule_format, OF refl that(2)])
  have V: "parse_value k s \<noteq> OutOfFuel" if n: "length s = n" and k: "2 * n < k" for s k
  proof -
    obtain j where j: "k = Suc j" using k by (cases k) auto
    show ?thesis
    proof (cases "SkipWs s")
      case Nil
      then show ?thesis by (simp add: j)
    next
      case (Cons c t)
      then have t: "length t < n" using SkipWs_shorter [of s] n by simp
      have "parse_members j t [] \<noteq> OutOfFuel" using t k j by (intro IHm) auto
      moreover have "parse_elements j t [] \<noteq> OutOfFuel" using t k j by (intro IHe) auto
      ultimately show ?thesis unfolding j parse_value_shape Cons by (simp split: option.split)
    qed
  qed
  have M: "parse_members k s acc \<noteq> OutOfFuel" if n: "length s = n" and k: "2 * n < k" for s acc k
  proof
    assume "parse_members k s acc = OutOfFuel"
    moreover obtain j where j: "k = Suc j" using k by (cases k) auto
    ultimately obtain key s1 s2 where s: "ParseString s = Some (key, s1)" "Match (CHR '':'') s1 = Some s2"
      and d: "parse_value j s2 = OutOfFuel \<or> (\<exists>v s3 s4. parse_value j s2 = Parsed v s3 \<and>
        Match (CHR '','') s3 = Some s4 \<and> parse_members j s4 (acc @ [(key, v)]) = OutOfFuel)"
      by (auto split: option.splits parse_result.splits prod.splits)
    have l: "length s2 < n" using ParseString_shorter [OF s(1)] Match_shorter [OF s(2)] n by simp
    then have "parse_value j s2 \<noteq> OutOfFuel" using k j by (intro IHv) auto
    with d obtain v s3 s4 where v: "parse_value j s2 = Parsed v s3" "Match (CHR '','') s3 = Some s4"
      and m: "parse_members j s4 (acc @ [(key, v)]) = OutOfFuel" by auto
    have "length s4 < n" using l parse_value_shorter [OF v(1)] Match_shorter [OF v(2)] by simp
    then have "parse_members j s4 (acc @ [(key, v)]) \<noteq> OutOfFuel" using k j by (intro IHm) auto
    with m show False by simp
  qed
  have "parse_elements k s acc \<noteq> OutOfFuel" if n: "length s = n" and k: "2 * n + 1 < k" for s acc k
  proof
    assume "parse_elements k s acc = OutOfFuel"
    moreover obtain j where j: "k = Suc j" using k by (cases k) auto
    moreover have "parse_value j s \<noteq> OutOfFuel" using n k j by (intro V) auto
    ultimately obtain v s3 s4 where v: "parse_value j s = Parsed v s3" "Match (CHR '','') s3 = Some s4"
      and e: "parse_elements j s4 (acc @ [v]) = OutOfFuel"
      by (auto split: option.splits parse_result.splits)
    have "length s4 < n" using n parse_value_shorter [OF v(1)] Match_shorter [OF v(2)] by simp
    then have "parse_elements j s4 (acc @ [v]) \<noteq> OutOfFuel" using k j by (intro IHe) auto
    with e show False by simp
  qed
  with V M show ?case by (intro conjI allI impI)
qed

lemma parse_value_enough: "2 * length s < k \<Longrightarrow> parse_value k s \<noteq> OutOfFuel"
  by (rule parse_fuel_enough_aux [THEN conjunct1, rule_format, OF refl])

text \<open>
  Claim C38: the JSON parser terminates on every text: with any fuel above twice the length the recursion is
  never cut off (being cut off is an outcome distinct from a failed parse, and propagates to every caller), the
  outcome is the one \<open>ParseJson\<close> reports, and a value that is parsed ends strictly before the text it
  was read from, so no value is read from an empty stretch.
\<close>

theorem json_parser_total:
  assumes "2 * length s < k"
  shows "parse_value k s \<noteq> OutOfFuel \<and>
    (\<forall>v r. parse_value k s = Parsed v r \<longrightarrow> length r < length s) \<and>
    ParseJson s = (case parse_value k s of Parsed v r \<Rightarrow> Some v | _ \<Rightarrow> None)"
proof (intro conjI)
  have "parse_value (2 * length s + 2) s = parse_value k s"
    using parse_value_fuel [of s "2 * length s + 2" k] assms by simp
  then show "ParseJson s = (case parse_value k s of Parsed v r \<Rightarrow> Some v | _ \<Rightarrow> None)"
    unfolding ParseJson_def by simp
qed (use assms parse_value_enough parse_value_shorter in auto)

theorem json_parser_total_witness:
  "parse_value 100 ''[[1,2],{'' \<noteq> OutOfFuel \<and> parse_value 3 ''[[1,2],{'' = OutOfFuel \<and>
   parse_value 100 ''[[],{}]x'' = Parsed (JArray [JArray [], JObject []]) ''x''"
  using json_parser_total [of "''[[1,2],{''" 100]
  by (simp add: eval_nat_numeral SkipWs_def json_ws_def Match_def)


section \<open>Writing and reading values\<close>

text \<open>Minified output, as the serializers of the messages produce it.\<close>

fun join_comma :: "string list \<Rightarrow> string" where
  "join_comma [] = []"
| "join_comma [x] = x"
| "join_comma (x # y # xs) = x @ CHR '','' # join_comma (y # xs)"

fun print_json :: "JsonValue \<Rightarrow> string" where
  "print_json JNull = ''null''"
| "print_json (JBool b) = (if b then ''true'' else ''false'')"
| "print_json (JNumber q) = show_int \<lfloor>q\<rfloor>"
| "print_json (JString s) = json_string s"
| "print_json (JArray vs) = CHR ''['' # join_comma (map print_json vs) @ '']''"
| "print_json (JObject kvs) =
     CHR ''{'' # join_comma (map (\<lambda>(k, v). json_string k @ CHR '':'' # print_json v) kvs) @ ''}''"

text \<open>Numbers are integers a double represents exactly.\<close>

fun json_ok :: "JsonValue \<Rightarrow> bool" where
  "json_ok (JNumber q) \<longleftrightarrow> q = of_int \<lfloor>q\<rfloor> \<and> \<bar>\<lfloor>q\<rfloor>\<bar> < 2 ^ 53"
| "json_ok (JArray vs) \<longleftrightarrow> (\<forall>v \<in> set vs. json_ok v)"
| "json_ok (JObject kvs) \<longleftrightarrow> (\<forall>kv \<in> set kvs. json_ok (snd kv))"
| "json_ok _ \<longleftrightarrow> True"

definition num_end :: "string \<Rightarrow> bool" where
  "num_end r \<longleftrightarrow> (case r of [] \<Rightarrow> True
     | c # _ \<Rightarrow> \<not> is_digit c \<and> c \<noteq> CHR ''.'' \<and> c \<noteq> CHR ''e'' \<and> c \<noteq> CHR ''E'')"

lemma num_end_simps [simp]:
  "num_end (CHR '','' # r)" "num_end (CHR '']'' # r)" "num_end (CHR ''}'' # r)" "num_end []"
  by (simp_all add: num_end_def is_digit_def)

lemma num_end_digit: "num_end r \<Longrightarrow> r = [] \<or> \<not> is_digit (hd r)"
  by (cases r) (simp_all add: num_end_def)

lemma scan_digits_show_nat:
  "num_end r \<Longrightarrow> scan_digits (show_nat n @ r) = (show_nat n, r)"
  using takeWhile_show_nat dropWhile_show_nat num_end_digit by (simp add: scan_digits_def)

lemma opt_sign_show_nat: "opt_sign (show_nat n @ r) = ([], show_nat n @ r)"
  using hd_show_nat [of n] digit_not_sign [of "hd (show_nat n)"]
  by (cases "show_nat n") (auto simp: opt_sign_def)

lemma show_int_split:
  "\<exists>sg n. show_int i = sg @ show_nat n \<and> opt_sign (show_int i @ r) = (sg, show_nat n @ r) \<and>
     of_int i = (if sg = ''-'' then - of_nat n else of_nat n :: rat)"
proof (cases "i < 0")
  case True
  then show ?thesis
    by (intro exI [of _ "''-''"] exI [of _ "nat (- i)"]) (simp add: show_int_def opt_sign_def)
next
  case False
  then show ?thesis
    using opt_sign_show_nat [of "nat i" r]
    by (intro exI [of _ "[]"] exI [of _ "nat i"]) (simp add: show_int_def)
qed

lemma scan_number_show_int:
  assumes "num_end r"
  shows "scan_number (show_int i @ r) = (show_int i, True, r)"
proof -
  obtain sg n where s: "show_int i = sg @ show_nat n" "opt_sign (show_int i @ r) = (sg, show_nat n @ r)"
    using show_int_split [of i r] by blast
  show ?thesis
    unfolding scan_number_def s(2)
    using assms scan_digits_show_nat [OF assms, of n] by (cases r) (simp_all add: s(1) num_end_def)
qed

lemma atof_show_int: "\<bar>i\<bar> < 2 ^ 53 \<Longrightarrow> atof (show_int i) = of_int i"
proof -
  assume i: "\<bar>i\<bar> < 2 ^ 53"
  obtain sg n where s: "show_int i = sg @ show_nat n" "opt_sign (show_int i) = (sg, show_nat n)"
    and v: "of_int i = (if sg = ''-'' then - of_nat n else of_nat n :: rat)"
    using show_int_split [of i "[]"] by auto
  have "scan_digits (show_nat n) = (show_nat n, [])" using scan_digits_show_nat [of "[]" n] by simp
  then have "atof (show_int i) = rnd64 (if sg = ''-'' then - of_nat n else of_nat n)"
    unfolding atof_def s(2) by simp
  also have "\<dots> = of_int i" unfolding v [symmetric] using rnd64_int [OF i] .
  finally show ?thesis .
qed

lemma SkipWs_head: "\<not> json_ws c \<Longrightarrow> SkipWs (c # s) = c # s"
  by (simp add: SkipWs_def)

lemma hd_show_int: "\<exists>c t. show_int i = c # t \<and> (is_digit c \<or> c = CHR ''-'')"
  using show_int_chars [of "hd (show_int i)" i] by (cases "show_int i") auto

lemma Match_simps [simp]:
  "Match c (d # s) = (if json_ws d then Match c s else if d = c then Some s else None)"
  "Match c [] = None"
  by (simp_all add: Match_def SkipWs_def)

lemma json_ws_simps [simp]:
  "\<not> json_ws (CHR '','')" "\<not> json_ws (CHR '':'')" "\<not> json_ws (CHR '']'')" "\<not> json_ws (CHR ''}'')"
  "\<not> json_ws (CHR 0x22)" "\<not> json_ws (CHR ''{'')" "\<not> json_ws (CHR ''['')"
  by (simp_all add: json_ws_def)

lemma print_json_head:
  "\<exists>c t. print_json v = c # t \<and> \<not> json_ws c \<and> c \<noteq> CHR '']'' \<and> c \<noteq> CHR ''}''"
proof (cases v)
  case (JNumber q)
  then show ?thesis using hd_show_int [of "\<lfloor>q\<rfloor>"] by (auto simp: json_ws_def is_digit_def)
next
  case (JBool b)
  then show ?thesis by (simp add: json_ws_def)
qed (simp_all add: json_string_def json_ws_def)

lemma parse_members_print:
  assumes "kvs \<noteq> []"
    and "\<And>key v k r. (key, v) \<in> set kvs \<Longrightarrow> num_end r \<Longrightarrow> 2 * length (print_json v @ r) < k \<Longrightarrow>
      parse_value k (print_json v @ r) = Parsed v r"
    and "2 * length (join_comma (map (\<lambda>(k, v). json_string k @ CHR '':'' # print_json v) kvs) @ CHR ''}'' # r) < k"
  shows "parse_members k (join_comma (map (\<lambda>(k, v). json_string k @ CHR '':'' # print_json v) kvs) @ CHR ''}'' # r) acc
    = Parsed (JObject (acc @ kvs)) r"
  using assms
proof (induction kvs arbitrary: k acc)
  case Nil
  then show ?case by simp
next
  case (Cons kv kvs)
  obtain key v where kv: "kv = (key, v)" by (cases kv)
  obtain j where k: "k = Suc j" using Cons.prems(3) by (cases k) auto
  define rest where "rest = (if kvs = [] then CHR ''}'' # r
    else CHR '','' # join_comma (map (\<lambda>(k, v). json_string k @ CHR '':'' # print_json v) kvs) @ CHR ''}'' # r)"
  have whole: "join_comma (map (\<lambda>(k, v). json_string k @ CHR '':'' # print_json v) (kv # kvs)) @ CHR ''}'' # r
      = json_string key @ CHR '':'' # print_json v @ rest"
    by (cases kvs) (simp_all add: kv rest_def)
  have ne: "num_end rest" by (simp add: rest_def)
  have len: "2 * length (print_json v @ rest) < j"
    using Cons.prems(3) unfolding whole k by simp
  have v: "parse_value j (print_json v @ rest) = Parsed v rest"
    using Cons.prems(2) [of key v rest j] ne len kv by simp
  have step: "parse_members k (json_string key @ CHR '':'' # print_json v @ rest) acc =
     (case Match (CHR '','') rest of Some s \<Rightarrow> parse_members j s (acc @ [(key, v)])
      | None \<Rightarrow> (case Match (CHR ''}'') rest of Some s \<Rightarrow> Parsed (JObject (acc @ [(key, v)])) s | None \<Rightarrow> ParseFailed))"
    by (simp add: k ParseString_json_string v)
  show ?case
  proof (cases "kvs = []")
    case True
    then show ?thesis unfolding whole step by (simp add: rest_def kv)
  next
    case False
    have "parse_members j (join_comma (map (\<lambda>(k, v). json_string k @ CHR '':'' # print_json v) kvs) @ CHR ''}'' # r)
        (acc @ [(key, v)]) = Parsed (JObject ((acc @ [(key, v)]) @ kvs)) r"
      using False len by (intro Cons.IH Cons.prems(2)) (auto simp: rest_def)
    then show ?thesis unfolding whole step using False by (simp add: rest_def kv)
  qed
qed

lemma parse_elements_print:
  assumes "vs \<noteq> []"
    and "\<And>v k r. v \<in> set vs \<Longrightarrow> num_end r \<Longrightarrow> 2 * length (print_json v @ r) < k \<Longrightarrow>
      parse_value k (print_json v @ r) = Parsed v r"
    and "2 * length (join_comma (map print_json vs) @ CHR '']'' # r) + 1 < k"
  shows "parse_elements k (join_comma (map print_json vs) @ CHR '']'' # r) acc = Parsed (JArray (acc @ vs)) r"
  using assms
proof (induction vs arbitrary: k acc)
  case Nil
  then show ?case by simp
next
  case (Cons v vs)
  obtain j where k: "k = Suc j" using Cons.prems(3) by (cases k) auto
  define rest where "rest = (if vs = [] then CHR '']'' # r
    else CHR '','' # join_comma (map print_json vs) @ CHR '']'' # r)"
  have whole: "join_comma (map print_json (v # vs)) @ CHR '']'' # r = print_json v @ rest"
    by (cases vs) (simp_all add: rest_def)
  have ne: "num_end rest" by (simp add: rest_def)
  have len: "2 * length (print_json v @ rest) < j" using Cons.prems(3) unfolding whole k by simp
  have v: "parse_value j (print_json v @ rest) = Parsed v rest"
    using Cons.prems(2) [of v rest j] ne len by simp
  have step: "parse_elements k (print_json v @ rest) acc =
     (case Match (CHR '','') rest of Some s \<Rightarrow> parse_elements j s (acc @ [v])
      | None \<Rightarrow> (case Match (CHR '']'') rest of Some s \<Rightarrow> Parsed (JArray (acc @ [v])) s | None \<Rightarrow> ParseFailed))"
    by (simp add: k v)
  show ?case
  proof (cases "vs = []")
    case True
    then show ?thesis unfolding whole step by (simp add: rest_def)
  next
    case False
    obtain c t where h: "print_json v = c # t" using print_json_head by blast
    have "parse_elements j (join_comma (map print_json vs) @ CHR '']'' # r) (acc @ [v])
        = Parsed (JArray ((acc @ [v]) @ vs)) r"
      using False len h by (intro Cons.IH Cons.prems(2)) (auto simp: rest_def)
    then show ?thesis unfolding whole step using False by (simp add: rest_def)
  qed
qed

lemma parse_scalar_print:
  assumes "json_ok v" and "num_end r" and "\<forall>vs. v \<noteq> JArray vs" and "\<forall>kvs. v \<noteq> JObject kvs"
  obtains c t where "print_json v @ r = c # t" and "\<not> json_ws c" and "c \<noteq> CHR ''{''" and "c \<noteq> CHR ''[''"
    and "parse_scalar c t = Parsed v r"
proof (cases v)
  case JNull
  then show ?thesis
    using that [of "CHR ''n''" "''ull'' @ r"] by (simp add: json_ws_def parse_scalar_def is_digit_def)
next
  case (JBool b)
  then show ?thesis
    using that [of "CHR ''t''" "''rue'' @ r"] that [of "CHR ''f''" "''alse'' @ r"]
    by (cases b) (simp_all add: json_ws_def parse_scalar_def)
next
  case (JNumber q)
  obtain c t where ct: "show_int \<lfloor>q\<rfloor> = c # t" "is_digit c \<or> c = CHR ''-''" using hd_show_int by blast
  have "c \<noteq> CHR 0x22 \<and> c \<noteq> CHR ''t'' \<and> c \<noteq> CHR ''f'' \<and> c \<noteq> CHR ''n'' \<and> \<not> json_ws c
      \<and> c \<noteq> CHR ''{'' \<and> c \<noteq> CHR ''[''"
    using ct(2) by (auto simp: is_digit_def json_ws_def)
  moreover have "ParseNumber (c # t @ r) = Some (q, r)"
  proof -
    have "SkipWs (c # t @ r) = show_int \<lfloor>q\<rfloor> @ r" using calculation ct(1) by (simp add: SkipWs_def)
    moreover have "atof (show_int \<lfloor>q\<rfloor>) = q" using assms(1) JNumber atof_show_int [of "\<lfloor>q\<rfloor>"] by simp
    ultimately show ?thesis
      unfolding ParseNumber_def using scan_number_show_int [OF assms(2), of "\<lfloor>q\<rfloor>"] by simp
  qed
  ultimately show ?thesis
    using JNumber ct by (intro that [of c "t @ r"]) (auto simp: parse_scalar_def)
next
  case (JString s)
  have "ParseString (CHR 0x22 # EscapeJson s @ CHR 0x22 # r) = Some (s, r)"
    using ParseString_json_string [of s r] by (simp add: json_string_def)
  then show ?thesis
    using JString that [of "CHR 0x22" "EscapeJson s @ CHR 0x22 # r"]
    by (simp add: json_string_def json_ws_def parse_scalar_def)
qed (use assms in simp_all)

lemma parse_print:
  assumes "json_ok v" and "num_end r" and "2 * length (print_json v @ r) < k"
  shows "parse_value k (print_json v @ r) = Parsed v r"
  using assms
proof (induction v arbitrary: k r)
  case (JArray vs)
  obtain j where k: "k = Suc j" using JArray.prems(3) by (cases k) auto
  show ?case
  proof (cases vs)
    case Nil
    then show ?thesis by (simp add: k SkipWs_def json_ws_def)
  next
    case (Cons v vs')
    obtain c t where h: "print_json v = c # t" "\<not> json_ws c" "c \<noteq> CHR '']''" using print_json_head by blast
    define T where "T = join_comma (map print_json vs) @ CHR '']'' # r"
    have "\<exists>t'. T = c # t'" using h Cons by (cases vs') (simp_all add: T_def)
    then have "Match (CHR '']'') T = None" using h by auto
    moreover have "parse_elements j T [] = Parsed (JArray ([] @ vs)) r"
      unfolding T_def using JArray Cons k
      by (intro parse_elements_print) auto
    moreover have "print_json (JArray vs) @ r = CHR ''['' # T" by (simp add: T_def)
    ultimately show ?thesis
      unfolding k parse_value_shape by (simp add: SkipWs_head)
  qed
next
  case (JObject kvs)
  obtain j where k: "k = Suc j" using JObject.prems(3) by (cases k) auto
  show ?case
  proof (cases kvs)
    case Nil
    then show ?thesis by (simp add: k SkipWs_def json_ws_def)
  next
    case (Cons kv kvs')
    define T where "T = join_comma (map (\<lambda>(k, v). json_string k @ CHR '':'' # print_json v) kvs) @ CHR ''}'' # r"
    have "\<exists>t'. T = CHR 0x22 # t'"
      using Cons by (cases kvs'; cases kv) (simp_all add: T_def json_string_def)
    then have "Match (CHR ''}'') T = None" by auto
    moreover have "parse_members j T [] = Parsed (JObject ([] @ kvs)) r"
      unfolding T_def using JObject Cons k
      by (intro parse_members_print) fastforce+
    moreover have "print_json (JObject kvs) @ r = CHR ''{'' # T" by (simp add: T_def)
    ultimately show ?thesis
      unfolding k parse_value_shape by (simp add: SkipWs_head)
  qed
next
  case JNull
  then obtain j where k: "k = Suc j" by (cases k) auto
  show ?case using JNull
    by (rule_tac parse_scalar_print [of JNull r]) (simp_all add: k parse_value_shape SkipWs_head del: parse_value.simps)
next
  case (JBool b)
  then obtain j where k: "k = Suc j" by (cases k) auto
  show ?case using JBool
    by (rule_tac parse_scalar_print [of "JBool b" r]) (simp_all add: k parse_value_shape SkipWs_head del: parse_value.simps)
next
  case (JNumber q)
  then obtain j where k: "k = Suc j" by (cases k) auto
  show ?case using JNumber
    by (rule_tac parse_scalar_print [of "JNumber q" r]) (simp_all add: k parse_value_shape SkipWs_head del: parse_value.simps)
next
  case (JString s)
  then obtain j where k: "k = Suc j" by (cases k) auto
  show ?case using JString
    by (rule_tac parse_scalar_print [of "JString s" r]) (simp_all add: k parse_value_shape SkipWs_head del: parse_value.simps)
qed

lemma ParseJson_print: "json_ok v \<Longrightarrow> ParseJson (print_json v) = Some v"
  using parse_print [of v "[]" "2 * length (print_json v) + 2"] by (simp add: ParseJson_def)

end
