(* ===== verification/SignalingMessages.thy ===== *)
theory SignalingMessages
  imports Json
begin

text \<open>
  The tgcalls signaling messages of \<open>domain/tgcalls_signaling_messages.h\<close> and \<open>.cpp\<close>: the message
  types, the per-type readers over a JSON value, the serializers, \<open>Parse\<close> and \<open>Serialize\<close>. A
  result \<^const>\<open>None\<close> of \<open>Parse\<close> is the undefined conversion of a number that is out of range
  of the integer type it is cast to.
\<close>

section \<open>Messages\<close>

datatype TgcallsMessageType = MsgUnknown | MsgInitialSetup | MsgCandidates | MsgNegotiateChannels
  | MsgMedia | MsgMediaState | MsgConnection | MsgPong | MsgPing | MsgEmptyAck | MsgRemoteMediaState

record DtlsFingerprint =
  fp_Hash :: string
  fp_Setup :: string
  fp_Fingerprint :: string

record SdpIceCandidate =
  SdpString :: string

record InitialSetupMsg =
  Ufrag :: string
  Pwd :: string
  SupportsRenomination :: bool
  Fingerprint :: DtlsFingerprint

record MediaStateMsg =
  IsMuted :: bool
  VideoState :: string
  ScreencastState :: string
  VideoRotation :: int
  LowBattery :: bool

record TgcallsMessage =
  MType :: TgcallsMessageType
  TypeName :: string
  Initial :: InitialSetupMsg
  Candidates :: "SdpIceCandidate list"
  ConnectionStatus :: string
  PingId :: u32
  PongId :: u32
  MediaState :: MediaStateMsg
  RawJson :: string

definition InitialSetupMsg_default :: InitialSetupMsg where
  "InitialSetupMsg_default = \<lparr>Ufrag = [], Pwd = [], SupportsRenomination = False,
     Fingerprint = \<lparr>fp_Hash = [], fp_Setup = [], fp_Fingerprint = []\<rparr>\<rparr>"

definition MediaStateMsg_default :: MediaStateMsg where
  "MediaStateMsg_default = \<lparr>IsMuted = False, VideoState = [], ScreencastState = [],
     VideoRotation = 0, LowBattery = False\<rparr>"

definition TgcallsMessage_default :: TgcallsMessage where
  "TgcallsMessage_default = \<lparr>MType = MsgUnknown, TypeName = [], Initial = InitialSetupMsg_default,
     Candidates = [], ConnectionStatus = [], PingId = 0, PongId = 0,
     MediaState = MediaStateMsg_default, RawJson = []\<rparr>"


section \<open>Readers\<close>

definition NumberOrStringToUInt32 :: "JsonValue \<Rightarrow> u32 option" where
  "NumberOrStringToUInt32 v =
     (case v of JNumber q \<Rightarrow> map_option of_nat (to_u32 q)
      | JString s \<Rightarrow> Some (of_int (fst (strtol (c_str s))))
      | _ \<Rightarrow> Some 0)"

text \<open>\<open>if (v && v->Kind == JsonKind_String) field = v->StringValue\<close>, and the same for booleans.\<close>

definition string_or :: "JsonValue option \<Rightarrow> string \<Rightarrow> string" where
  "string_or v old = (case v of Some (JString s) \<Rightarrow> s | _ \<Rightarrow> old)"

definition bool_or :: "JsonValue option \<Rightarrow> bool \<Rightarrow> bool" where
  "bool_or v old = (case v of Some (JBool b) \<Rightarrow> b | _ \<Rightarrow> old)"

definition ParseInitialSetup :: "JsonValue \<Rightarrow> InitialSetupMsg \<Rightarrow> InitialSetupMsg option" where
  "ParseInitialSetup obj out =
     (case Find obj ''ufrag'' of Some (JString ufrag) \<Rightarrow>
       (case Find obj ''pwd'' of Some (JString pwd) \<Rightarrow>
         (case Find obj ''fingerprints'' of Some (JArray fps) \<Rightarrow>
           (let out = out\<lparr>Ufrag := ufrag, Pwd := pwd,
                  SupportsRenomination := bool_or (Find obj ''renomination'') (SupportsRenomination out)\<rparr>
            in Some (case fps of [] \<Rightarrow> out
                 | fp # _ \<Rightarrow>
                   (let old = Fingerprint out in
                    out\<lparr>Fingerprint :=
                      \<lparr>fp_Hash = string_or (Find fp ''hash'') (fp_Hash old),
                       fp_Setup = string_or (Find fp ''setup'') (fp_Setup old),
                       fp_Fingerprint = string_or (Find fp ''fingerprint'') (fp_Fingerprint old)\<rparr>\<rparr>)))
         | _ \<Rightarrow> None)
       | _ \<Rightarrow> None)
     | _ \<Rightarrow> None)"

fun candidate_items :: "JsonValue list \<Rightarrow> SdpIceCandidate list" where
  "candidate_items [] = []"
| "candidate_items (item # items) =
     (case Find item ''sdpString'' of
        Some (JString s) \<Rightarrow> \<lparr>SdpString = s\<rparr> # candidate_items items
      | _ \<Rightarrow> candidate_items items)"

definition ParseCandidates :: "JsonValue \<Rightarrow> SdpIceCandidate list \<Rightarrow> SdpIceCandidate list option" where
  "ParseCandidates obj out =
     (case Find obj ''candidates'' of Some (JArray items) \<Rightarrow> Some (out @ candidate_items items)
      | _ \<Rightarrow> None)"

definition ParseConnection :: "JsonValue \<Rightarrow> string option" where
  "ParseConnection obj = (case Find obj ''status'' of Some (JString s) \<Rightarrow> Some s | _ \<Rightarrow> None)"

text \<open>The outer option is the undefined conversion, the inner one a missing field.\<close>

definition ParsePingPong :: "JsonValue \<Rightarrow> u32 option option" where
  "ParsePingPong obj =
     (case (case Find obj ''pingId'' of Some v \<Rightarrow> Some v | None \<Rightarrow> Find obj ''ping_id'') of
        None \<Rightarrow> Some None
      | Some v \<Rightarrow> map_option Some (NumberOrStringToUInt32 v))"

definition ParseMediaState :: "JsonValue \<Rightarrow> MediaStateMsg \<Rightarrow> MediaStateMsg option" where
  "ParseMediaState obj out =
     (case (case Find obj ''videoRotation'' of Some (JNumber q) \<Rightarrow> to_i32 q
            | _ \<Rightarrow> Some (VideoRotation out)) of
        None \<Rightarrow> None
      | Some rot \<Rightarrow> Some
          \<lparr>IsMuted = bool_or (Find obj ''muted'') (IsMuted out),
           VideoState = string_or (Find obj ''videoState'') ''inactive'',
           ScreencastState = string_or (Find obj ''screencastState'') ''inactive'',
           VideoRotation = rot,
           LowBattery = bool_or (Find obj ''lowBattery'') (LowBattery out)\<rparr>)"

text \<open>The dispatch on the type name, for a obj object.\<close>

definition dispatch :: "JsonValue \<Rightarrow> string \<Rightarrow> TgcallsMessage \<Rightarrow> TgcallsMessage option" where
  "dispatch obj t msg =
     (if t = ''InitialSetup'' then
        Some (case ParseInitialSetup obj (Initial msg) of None \<Rightarrow> msg
          | Some m \<Rightarrow> msg\<lparr>Initial := m, MType := MsgInitialSetup\<rparr>)
      else if t = ''Candidates'' then
        Some (case ParseCandidates obj (Candidates msg) of None \<Rightarrow> msg
          | Some cs \<Rightarrow> msg\<lparr>Candidates := cs, MType := MsgCandidates\<rparr>)
      else if t = ''NegotiateChannels'' then Some (msg\<lparr>MType := MsgNegotiateChannels\<rparr>)
      else if t = ''Media'' then Some (msg\<lparr>MType := MsgMedia\<rparr>)
      else if t = ''MediaState'' then
        map_option (\<lambda>m. msg\<lparr>MediaState := m, MType := MsgMediaState\<rparr>) (ParseMediaState obj (MediaState msg))
      else if t = ''RemoteMediaState'' then
        map_option (\<lambda>m. msg\<lparr>MediaState := m, MType := MsgRemoteMediaState\<rparr>)
          (ParseMediaState obj (MediaState msg))
      else if t = ''Connection'' then
        Some (case ParseConnection obj of None \<Rightarrow> msg
          | Some s \<Rightarrow> msg\<lparr>ConnectionStatus := s, MType := MsgConnection\<rparr>)
      else if t = ''Ping'' then
        map_option (\<lambda>r. case r of None \<Rightarrow> msg | Some i \<Rightarrow> msg\<lparr>PingId := i, MType := MsgPing\<rparr>)
          (ParsePingPong obj)
      else if t = ''Pong'' then
        map_option (\<lambda>r. case r of None \<Rightarrow> msg | Some i \<Rightarrow> msg\<lparr>PongId := i, MType := MsgPong\<rparr>)
          (ParsePingPong obj)
      else if t = ''EmptyAck'' then Some (msg\<lparr>MType := MsgEmptyAck\<rparr>)
      else Some msg)"

definition Parse :: "string \<Rightarrow> TgcallsMessage option" where
  "Parse json =
     (let msg = TgcallsMessage_default\<lparr>RawJson := json\<rparr> in
      case ParseJson json of
        Some (JObject kvs) \<Rightarrow>
          (case Find (JObject kvs) ''@type'' of
             Some (JString t) \<Rightarrow> dispatch (JObject kvs) t (msg\<lparr>TypeName := t\<rparr>)
           | _ \<Rightarrow> Some msg)
      | _ \<Rightarrow> Some msg)"


section \<open>Serializers\<close>

definition bool_text :: "bool \<Rightarrow> string" where
  "bool_text b = (if b then ''true'' else ''false'')"

definition SerializeInitialSetup :: "InitialSetupMsg \<Rightarrow> string" where
  \<open>SerializeInitialSetup m =
     ''{"@type":"InitialSetup","ufrag":"'' @ EscapeJson (Ufrag m) @
     ''","pwd":"'' @ EscapeJson (Pwd m) @
     ''","renomination":'' @ bool_text (SupportsRenomination m) @
     '',"fingerprints":[{"hash":"'' @ EscapeJson (fp_Hash (Fingerprint m)) @
     ''","setup":"'' @ EscapeJson (fp_Setup (Fingerprint m)) @
     ''","fingerprint":"'' @ EscapeJson (fp_Fingerprint (Fingerprint m)) @
     ''"}]}''\<close>

fun candidates_loop :: "nat \<Rightarrow> SdpIceCandidate list \<Rightarrow> string" where
  "candidates_loop i [] = []"
| \<open>candidates_loop i (c # cs) =
     (if i \<noteq> 0 then '','' else []) @
     ''{"sdpString":"'' @ EscapeJson (SdpString c) @ ''"}'' @ candidates_loop (i + 1) cs\<close>

definition SerializeCandidates :: "SdpIceCandidate list \<Rightarrow> string" where
  \<open>SerializeCandidates cs = ''{"@type":"Candidates","candidates":['' @ candidates_loop 0 cs @ '']}''\<close>

definition SerializeConnection :: "string \<Rightarrow> string" where
  \<open>SerializeConnection status =
     ''{"@type":"Connection","status":"'' @ EscapeJson status @ ''"}''\<close>

definition SerializePing :: "u32 \<Rightarrow> string" where
  \<open>SerializePing i = ''{"@type":"Ping","pingId":'' @ show_nat (unat i) @ ''}''\<close>

definition SerializePong :: "u32 \<Rightarrow> string" where
  \<open>SerializePong i = ''{"@type":"Pong","pingId":'' @ show_nat (unat i) @ ''}''\<close>

definition or_inactive :: "string \<Rightarrow> string" where
  "or_inactive s = (if s = [] then ''inactive'' else s)"

definition SerializeMediaState :: "MediaStateMsg \<Rightarrow> string" where
  \<open>SerializeMediaState m =
     ''{"@type":"MediaState"'' @
     '',"muted":'' @ bool_text (IsMuted m) @
     '',"lowBattery":'' @ bool_text (LowBattery m) @
     '',"videoState":"'' @ EscapeJson (or_inactive (VideoState m)) @ ''"'' @
     '',"screencastState":"'' @ EscapeJson (or_inactive (ScreencastState m)) @ ''"'' @
     '',"videoRotation":'' @ show_int (VideoRotation m) @
     ''}''\<close>

definition Serialize :: "TgcallsMessage \<Rightarrow> string" where
  "Serialize msg =
     (case MType msg of
        MsgInitialSetup \<Rightarrow> SerializeInitialSetup (Initial msg)
      | MsgCandidates \<Rightarrow> SerializeCandidates (Candidates msg)
      | MsgConnection \<Rightarrow> SerializeConnection (ConnectionStatus msg)
      | MsgPing \<Rightarrow> SerializePing (PingId msg)
      | MsgPong \<Rightarrow> SerializePong (PongId msg)
      | MsgMediaState \<Rightarrow> SerializeMediaState (MediaState msg)
      | _ \<Rightarrow> RawJson msg)"


section \<open>Round trip\<close>

text \<open>The JSON value a serializer writes out.\<close>

definition cand_json :: "SdpIceCandidate \<Rightarrow> JsonValue" where
  "cand_json c = JObject [(''sdpString'', JString (SdpString c))]"

definition json_nat :: "nat \<Rightarrow> JsonValue" where
  "json_nat n = JNumber (of_nat n)"

lemma print_json_nat: "print_json (json_nat n) = show_nat n"
  by (simp add: json_nat_def show_int_def)

definition message_json :: "TgcallsMessage \<Rightarrow> JsonValue" where
  "message_json m =
     (case MType m of
        MsgInitialSetup \<Rightarrow>
          (let i = Initial m; f = Fingerprint i in
           JObject [(''@type'', JString ''InitialSetup''), (''ufrag'', JString (Ufrag i)),
             (''pwd'', JString (Pwd i)), (''renomination'', JBool (SupportsRenomination i)),
             (''fingerprints'', JArray [JObject [(''hash'', JString (fp_Hash f)),
                (''setup'', JString (fp_Setup f)), (''fingerprint'', JString (fp_Fingerprint f))]])])
      | MsgCandidates \<Rightarrow>
          JObject [(''@type'', JString ''Candidates''),
            (''candidates'', JArray (map cand_json (Candidates m)))]
      | MsgConnection \<Rightarrow>
          JObject [(''@type'', JString ''Connection''), (''status'', JString (ConnectionStatus m))]
      | MsgPing \<Rightarrow>
          JObject [(''@type'', JString ''Ping''), (''pingId'', json_nat (unat (PingId m)))]
      | MsgPong \<Rightarrow>
          JObject [(''@type'', JString ''Pong''), (''pingId'', json_nat (unat (PongId m)))]
      | MsgMediaState \<Rightarrow>
          (let s = MediaState m in
           JObject [(''@type'', JString ''MediaState''), (''muted'', JBool (IsMuted s)),
             (''lowBattery'', JBool (LowBattery s)),
             (''videoState'', JString (or_inactive (VideoState s))),
             (''screencastState'', JString (or_inactive (ScreencastState s))),
             (''videoRotation'', JNumber (of_int (VideoRotation s)))])
      | _ \<Rightarrow> JNull)"

text \<open>The types with a serializer, and the name each has on the wire.\<close>

fun type_name :: "TgcallsMessageType \<Rightarrow> string option" where
  "type_name MsgInitialSetup = Some ''InitialSetup''"
| "type_name MsgCandidates = Some ''Candidates''"
| "type_name MsgConnection = Some ''Connection''"
| "type_name MsgPing = Some ''Ping''"
| "type_name MsgPong = Some ''Pong''"
| "type_name MsgMediaState = Some ''MediaState''"
| "type_name _ = None"

definition sendable :: "TgcallsMessage \<Rightarrow> bool" where
  "sendable m \<longleftrightarrow> type_name (MType m) \<noteq> None \<and>
     - (2 ^ 31) \<le> VideoRotation (MediaState m) \<and> VideoRotation (MediaState m) < 2 ^ 31"

text \<open>What the receiver of a message has: its type and name, the fields of that type, and the text.\<close>

definition received :: "TgcallsMessage \<Rightarrow> TgcallsMessage" where
  "received m =
     (let r = TgcallsMessage_default\<lparr>MType := MType m, TypeName := the (type_name (MType m)),
            RawJson := Serialize m\<rparr>
      in case MType m of
        MsgInitialSetup \<Rightarrow> r\<lparr>Initial := Initial m\<rparr>
      | MsgCandidates \<Rightarrow> r\<lparr>Candidates := Candidates m\<rparr>
      | MsgConnection \<Rightarrow> r\<lparr>ConnectionStatus := ConnectionStatus m\<rparr>
      | MsgPing \<Rightarrow> r\<lparr>PingId := PingId m\<rparr>
      | MsgPong \<Rightarrow> r\<lparr>PongId := PongId m\<rparr>
      | MsgMediaState \<Rightarrow> r\<lparr>MediaState := (MediaState m)
          \<lparr>VideoState := or_inactive (VideoState (MediaState m)),
           ScreencastState := or_inactive (ScreencastState (MediaState m))\<rparr>\<rparr>
      | _ \<Rightarrow> r)"

lemma candidates_loop_print:
  "candidates_loop i cs = (if cs = [] then [] else (if i \<noteq> 0 then '','' else []) @
     join_comma (map (\<lambda>c. print_json (cand_json c)) cs))"
proof (induction cs arbitrary: i)
  case Nil
  then show ?case by simp
next
  case (Cons c cs)
  have "EscapeJson ''sdpString'' = ''sdpString''" by (simp add: EscapeJson_def escape_char_def)
  then show ?case using Cons by (cases cs) (simp_all add: cand_json_def json_string_def)
qed

lemma bool_text_print: "print_json (JBool b) = bool_text b"
  by (simp add: bool_text_def)

lemma EscapeJson_literals:
  "EscapeJson ''@type'' = ''@type''" "EscapeJson ''InitialSetup'' = ''InitialSetup''"
  "EscapeJson ''ufrag'' = ''ufrag''" "EscapeJson ''pwd'' = ''pwd''"
  "EscapeJson ''renomination'' = ''renomination''" "EscapeJson ''fingerprints'' = ''fingerprints''"
  "EscapeJson ''hash'' = ''hash''" "EscapeJson ''setup'' = ''setup''"
  "EscapeJson ''fingerprint'' = ''fingerprint''" "EscapeJson ''Candidates'' = ''Candidates''"
  "EscapeJson ''candidates'' = ''candidates''" "EscapeJson ''Connection'' = ''Connection''"
  "EscapeJson ''status'' = ''status''" "EscapeJson ''Ping'' = ''Ping''" "EscapeJson ''Pong'' = ''Pong''"
  "EscapeJson ''pingId'' = ''pingId''" "EscapeJson ''MediaState'' = ''MediaState''"
  "EscapeJson ''muted'' = ''muted''" "EscapeJson ''lowBattery'' = ''lowBattery''"
  "EscapeJson ''videoState'' = ''videoState''" "EscapeJson ''screencastState'' = ''screencastState''"
  "EscapeJson ''videoRotation'' = ''videoRotation''"
  by (simp_all add: EscapeJson_def escape_char_def)

lemma Serialize_print:
  assumes "type_name (MType m) \<noteq> None"
  shows "Serialize m = print_json (message_json m)"
proof -
  show ?thesis
    using assms
    by (cases "MType m")
      (simp_all add: Serialize_def message_json_def Let_def SerializeInitialSetup_def
        SerializeCandidates_def SerializeConnection_def SerializePing_def SerializePong_def
        SerializeMediaState_def json_string_def bool_text_def show_int_def candidates_loop_print
        comp_def print_json_nat EscapeJson_literals)
qed


lemma json_ok_nat: "n < 2 ^ 53 \<Longrightarrow> json_ok (json_nat n)"
  by (simp add: json_nat_def)

lemma unat_u32_small: "unat (v :: u32) < 2 ^ 53"
proof -
  have "unat v < 2 ^ LENGTH(32)" by (rule unsigned_less)
  then show ?thesis by simp
qed

lemma message_json_ok: "sendable m \<Longrightarrow> json_ok (message_json m)"
  using json_ok_nat [OF unat_u32_small]
  by (cases "MType m") (auto simp: sendable_def message_json_def Let_def cand_json_def)

lemma candidate_items_json: "candidate_items (map cand_json cs) = cs"
  by (induction cs) (simp_all add: cand_json_def)

lemma NumberOrStringToUInt32_nat: "n < 2 ^ 32 \<Longrightarrow> NumberOrStringToUInt32 (json_nat n) = Some (of_nat n)"
  by (simp add: NumberOrStringToUInt32_def json_nat_def to_u32_def Let_def)

lemma to_i32_of_int: "- (2 ^ 31) \<le> i \<Longrightarrow> i < 2 ^ 31 \<Longrightarrow> to_i32 (of_int i) = Some i"
  by (simp add: to_i32_def Let_def)

lemma parse_id:
  "NumberOrStringToUInt32 (json_nat (unat v)) = Some v"
proof -
  have "unat v < 2 ^ LENGTH(32)" by (rule unsigned_less)
  then show ?thesis using NumberOrStringToUInt32_nat [of "unat v"] by simp
qed

lemma dispatch_received:
  assumes "sendable m"
  shows "\<exists>kvs. message_json m = JObject kvs \<and>
    Find (JObject kvs) ''@type'' = Some (JString (the (type_name (MType m)))) \<and>
    dispatch (JObject kvs) (the (type_name (MType m)))
      (TgcallsMessage_default\<lparr>RawJson := Serialize m, TypeName := the (type_name (MType m))\<rparr>)
      = Some (received m)"
proof (cases "MType m")
  case MsgInitialSetup
  then show ?thesis
    by (simp add: message_json_def Let_def dispatch_def ParseInitialSetup_def bool_or_def
        string_or_def received_def TgcallsMessage_default_def InitialSetupMsg_default_def)
next
  case MsgCandidates
  then show ?thesis
    by (simp add: message_json_def dispatch_def ParseCandidates_def candidate_items_json
        received_def TgcallsMessage_default_def)
next
  case MsgConnection
  then show ?thesis
    by (simp add: message_json_def dispatch_def ParseConnection_def received_def
        TgcallsMessage_default_def)
next
  case MsgPing
  then show ?thesis
    by (simp add: message_json_def dispatch_def ParsePingPong_def parse_id received_def
        TgcallsMessage_default_def)
next
  case MsgPong
  then show ?thesis
    by (simp add: message_json_def dispatch_def ParsePingPong_def parse_id received_def
        TgcallsMessage_default_def)
next
  case MsgMediaState
  then show ?thesis
    using assms
    by (simp add: message_json_def Let_def dispatch_def ParseMediaState_def bool_or_def string_or_def
        to_i32_of_int sendable_def received_def TgcallsMessage_default_def MediaStateMsg_default_def)
qed (use assms in \<open>simp_all add: sendable_def\<close>)

lemma Parse_Serialize: "sendable m \<Longrightarrow> Parse (Serialize m) = Some (received m)"
proof -
  assume m: "sendable m"
  obtain kvs where k: "message_json m = JObject kvs"
    "Find (JObject kvs) ''@type'' = Some (JString (the (type_name (MType m))))"
    "dispatch (JObject kvs) (the (type_name (MType m)))
      (TgcallsMessage_default\<lparr>RawJson := Serialize m, TypeName := the (type_name (MType m))\<rparr>)
      = Some (received m)"
    using dispatch_received [OF m] by blast
  have "ParseJson (Serialize m) = Some (JObject kvs)"
    using Serialize_print ParseJson_print [OF message_json_ok [OF m]] m k(1)
    by (simp add: sendable_def)
  then show ?thesis using k(2,3) by (simp add: Parse_def Let_def del: Find.simps)
qed

text \<open>
  A signaling message that is serialized and parsed again keeps its type and every
  field of that type: setup credentials and fingerprints, candidate lists, status, ping ids and
  media state, with arbitrary bytes in every string; only an empty video or screencast state
  becomes \<open>inactive\<close>.
\<close>

theorem signaling_message_roundtrip:
  assumes "sendable m"
  shows "Parse (Serialize m) = Some (received m)"
  using assms by (rule Parse_Serialize)

theorem signaling_message_roundtrip_witness:
  "map_option PingId (Parse (Serialize (TgcallsMessage_default\<lparr>MType := MsgPing, PingId := 0xFFFFFFFF\<rparr>)))
     = Some 0xFFFFFFFF"
  using signaling_message_roundtrip
    [of "TgcallsMessage_default\<lparr>MType := MsgPing, PingId := 0xFFFFFFFF\<rparr>"]
  by (simp add: sendable_def TgcallsMessage_default_def MediaStateMsg_default_def received_def)

text \<open>A ping with any integer for its id, as a peer may send it.\<close>

definition ping_text :: "int \<Rightarrow> string" where
  \<open>ping_text i = ''{"@type":"Ping","pingId":'' @ show_int i @ ''}''\<close>

lemma ping_text_print:
  "ping_text i = print_json (JObject [(''@type'', JString ''Ping''), (''pingId'', JNumber (of_int i))])"
  by (simp add: ping_text_def json_string_def EscapeJson_literals)

text \<open>
  The peer decides whether reading its ping is defined. An id in \<open>0 .. 2 ^ 32 - 1\<close> is
  read exactly; for a negative id, or one of \<open>2 ^ 32\<close> or more, the parser converts a double out of
  the range of \<open>uint32_t\<close>, which is undefined behaviour reached from the network (shown for every
  integer a double represents).
\<close>

theorem ping_id_conversion:
  assumes "\<bar>i\<bar> < 2 ^ 53"
  shows "map_option PingId (Parse (ping_text i)) = (if 0 \<le> i \<and> i < 2 ^ 32 then Some (of_int i) else None)"
proof -
  have "ParseJson (ping_text i) = Some (JObject [(''@type'', JString ''Ping''), (''pingId'', JNumber (of_int i))])"
    unfolding ping_text_print by (rule ParseJson_print) (use assms in simp)
  then show ?thesis
    using assms
    by (auto simp: Parse_def Let_def dispatch_def ParsePingPong_def NumberOrStringToUInt32_def to_u32_def)
qed

theorem ping_id_conversion_witness:
  "Parse (ping_text (- 1)) = None \<and> map_option PingId (Parse (ping_text 7)) = Some 7"
  using ping_id_conversion [of "- 1"] ping_id_conversion [of 7] by simp

end
