(* ===== verification/SignalingEnvelope.thy ===== *)
theory SignalingEnvelope
  imports SignalingCodec ChannelFrames SignalingMessages
begin

text \<open>
  The top of the signaling stack, \<open>domain/tgcalls_signaling_envelope.cpp\<close>: messages to encrypted
  bytes and back, over the codec, the frames and the JSON messages. The theorem of this theory is
  the contract of the whole stack between the two peers of a call.
\<close>

unbundle bit_operations_syntax

section \<open>The code\<close>

text \<open>The frame of the \<open>i\<close>-th message.\<close>

definition env_frame :: "u32 \<Rightarrow> u32 \<Rightarrow> nat \<Rightarrow> TgcallsMessage \<Rightarrow> ChannelFrame" where
  "env_frame outgoingSeq outerSeq i m =
     (let sq = (if i = 0 then outerSeq else (outgoingSeq + of_nat i) OR kSeqBitRequiresAck)
      in \<lparr>Seq = sq, ContentTag = kContentTagCustom,
          SingleMessagePacket = (sq AND kSeqBitSinglePacket \<noteq> 0), RequiresAck = True,
          Counter = sq AND NOT (kSeqBitSinglePacket OR kSeqBitRequiresAck),
          FramePayload = bytes_of_string (Serialize m)\<rparr>)"

definition env_Encrypt ::
    "hash_fn \<Rightarrow> block_fn \<Rightarrow> bytes \<Rightarrow> bool \<Rightarrow> u32 \<Rightarrow> TgcallsMessage list \<Rightarrow> bytes" where
  "env_Encrypt sha enc sharedKey isOutgoing outgoingSeq messages =
     (if messages = [] then []
      else
        (let single = (length messages = 1);
             outerSeq = outgoingSeq OR (if single then kSeqBitSinglePacket else 0) OR kSeqBitRequiresAck;
             frames = map (\<lambda>i. env_frame outgoingSeq outerSeq i (messages ! i)) [0..<length messages];
             body = JoinFrames frames
         in sig_Encrypt sha enc sharedKey isOutgoing outerSeq body))"

text \<open>The loop over the frames: others than custom ones and empty ones are skipped.\<close>

fun env_messages :: "ChannelFrame list \<Rightarrow> TgcallsMessage list option" where
  "env_messages [] = Some []"
| "env_messages (f # fs) =
     (if ContentTag f \<noteq> kContentTagCustom \<or> FramePayload f = [] then env_messages fs
      else do {
        m \<leftarrow> Parse (string_of_bytes (FramePayload f));
        ms \<leftarrow> env_messages fs;
        Some (m # ms)
      })"

definition env_Decrypt ::
    "hash_fn \<Rightarrow> block_fn \<Rightarrow> bytes \<Rightarrow> bool \<Rightarrow> bytes \<Rightarrow> TgcallsMessage list option" where
  "env_Decrypt sha enc sharedKey isOutgoing bs =
     (if bs = [] then Some []
      else (case sig_Decrypt sha enc sharedKey isOutgoing bs of
        Inl _ \<Rightarrow> Some []
      | Inr (sq, plain) \<Rightarrow> do { frames \<leftarrow> SplitFrames sq plain; env_messages frames }))"


section \<open>End to end\<close>

text \<open>Joining looks at the sequence word, the tag and the payload only.\<close>

definition norm_frame :: "ChannelFrame \<Rightarrow> ChannelFrame" where
  "norm_frame f = frame_of (Seq f) (ContentTag f) (FramePayload f)"

lemma join_loop_norm: "join_loop i (map norm_frame fs) = join_loop i fs"
  by (induction fs arbitrary: i) (simp_all add: norm_frame_def frame_bytes_def)

lemma length_join_loop:
  "fs \<noteq> [] \<Longrightarrow> ContentTag (hd fs) = kContentTagCustom \<Longrightarrow>
     5 + length (FramePayload (hd fs)) \<le> length (join_loop i fs)"
  by (cases fs) (simp_all add: frame_bytes_def frame_consts be32_def)

lemma Serialize_long: "sendable m \<Longrightarrow> 8 \<le> length (Serialize m)"
  by (cases "MType m")
    (simp_all add: sendable_def Serialize_def SerializeInitialSetup_def SerializeCandidates_def
      SerializeConnection_def SerializePing_def SerializePong_def SerializeMediaState_def)

lemma env_messages_received:
  assumes "list_all sendable ms" and "map ContentTag fs = map (\<lambda>m. kContentTagCustom) ms"
    and "map FramePayload fs = map (\<lambda>m. bytes_of_string (Serialize m)) ms"
  shows "env_messages fs = Some (map received ms)"
  using assms
proof (induction ms arbitrary: fs)
  case Nil
  then show ?case by simp
next
  case (Cons m ms)
  then obtain f fs' where fs: "fs = f # fs'" by (cases fs) auto
  have "Serialize m \<noteq> []" using Serialize_long [of m] Cons.prems(1) by auto
  moreover have "env_messages fs' = Some (map received ms)"
    using Cons.prems by (intro Cons.IH) (simp_all add: fs)
  ultimately show ?case using Cons.prems by (simp add: fs Parse_Serialize)
qed

lemma envelope_exchange_aux:
  assumes "length sharedKey = 256" and "ms \<noteq> []" and "list_all sendable ms"
    and "list_all (\<lambda>m. length (Serialize m) \<le> 1024 * 1024) ms"
  shows "env_Decrypt sha enc sharedKey (\<not> out) (env_Encrypt sha enc sharedKey out sq ms)
    = Some (map received ms)"
proof -
  define osq where "osq = sq OR (if length ms = 1 then kSeqBitSinglePacket else 0) OR kSeqBitRequiresAck"
  define fs where "fs = map (\<lambda>i. env_frame sq osq i (ms ! i)) [0..<length ms]"
  define gs where "gs = map norm_frame fs"
  have e: "env_Encrypt sha enc sharedKey out sq ms = sig_Encrypt sha enc sharedKey out osq (JoinFrames gs)"
    using assms(2)
    unfolding env_Encrypt_def Let_def osq_def [symmetric] fs_def [symmetric] gs_def JoinFrames_def
      join_loop_norm
    by simp
  have proj: "Seq (env_frame a b i m) = (if i = 0 then b else (a + of_nat i) OR kSeqBitRequiresAck)"
    "ContentTag (env_frame a b i m) = kContentTagCustom"
    "FramePayload (env_frame a b i m) = bytes_of_string (Serialize m)" for a b i m
    by (simp_all add: env_frame_def Let_def)
  have pay: "map FramePayload gs = map (\<lambda>m. bytes_of_string (Serialize m)) ms"
    and tags: "map ContentTag gs = map (\<lambda>m. kContentTagCustom) ms"
    by (auto simp: gs_def fs_def norm_frame_def proj intro!: nth_equalityI)
  have ok: "list_all frame_ok gs" and known: "list_all known_tag gs"
    using assms(4) nth_mem [of _ ms]
    by (auto simp: gs_def fs_def list_all_iff norm_frame_def frame_ok_def known_tag_def proj)
  have ne: "gs \<noteq> []" using assms(2) by (simp add: gs_def fs_def)
  have hd: "Seq (hd gs) = osq" "ContentTag (hd gs) = kContentTagCustom"
    "FramePayload (hd gs) = bytes_of_string (Serialize (ms ! 0))"
    using assms(2) by (simp_all add: gs_def fs_def norm_frame_def hd_map hd_conv_nth proj)
  have "sendable (ms ! 0)" using assms(2,3) by (simp add: list_all_length)
  then have "12 \<le> length (JoinFrames gs)"
    using length_join_loop [OF ne hd(2), of 0] Serialize_long [of "ms ! 0"]
    by (simp add: JoinFrames_def hd)
  then have d: "sig_Decrypt sha enc sharedKey (\<not> out) (sig_Encrypt sha enc sharedKey out osq (JoinFrames gs))
      = Inr (osq, JoinFrames gs)"
    using signaling_exchange_aux [OF assms(1)] by simp
  then have nz: "sig_Encrypt sha enc sharedKey out osq (JoinFrames gs) \<noteq> []"
    using assms(1) by (auto simp: sig_Decrypt_def sig_consts)
  have "SplitFrames osq (JoinFrames gs) = Some gs"
    using split_frames_join [OF ok known ne] hd(1) by simp
  moreover have "env_messages gs = Some (map received ms)"
    using env_messages_received [OF assms(3) tags pay] .
  ultimately show ?thesis by (simp add: e env_Decrypt_def nz d)
qed

text \<open>
  Claim C13: the signaling stack delivers. What one peer sends, a non-empty list of messages of the
  types with a serializer (each at most one mebibyte of JSON), the other peer receives: the same
  number of messages in the same order with the same contents, through serialization, framing,
  encryption under the call's key, decryption, splitting and parsing, for every hash, block
  cipher and sequence number.
\<close>

theorem signaling_end_to_end:
  assumes "length sharedKey = 256" and "ms \<noteq> []" and "list_all sendable ms"
    and "list_all (\<lambda>m. length (Serialize m) \<le> 1024 * 1024) ms"
  shows "env_Decrypt sha enc sharedKey (\<not> out) (env_Encrypt sha enc sharedKey out sq ms)
    = Some (map received ms)"
  by (rule envelope_exchange_aux [OF assms])

definition two_pings :: "TgcallsMessage list" where
  "two_pings = [TgcallsMessage_default\<lparr>MType := MsgPing, PingId := 1\<rparr>,
     TgcallsMessage_default\<lparr>MType := MsgPong, PongId := 2\<rparr>]"

theorem signaling_end_to_end_witness:
  "env_Decrypt (\<lambda>b i. 3) copy_block (replicate 256 8) False
     (env_Encrypt (\<lambda>b i. 3) copy_block (replicate 256 8) True 1 two_pings) = Some (map received two_pings)"
  using signaling_end_to_end [of "replicate 256 8" two_pings "\<lambda>b i. 3" copy_block True 1]
  by (simp add: two_pings_def sendable_def TgcallsMessage_default_def MediaStateMsg_default_def
      Serialize_def SerializePing_def SerializePong_def show_nat.simps)

end
