(* ===== verification/Crc32.thy ===== *)
theory Crc32
  imports Prelude
begin

text \<open>
  The CRC-32 of STUN fingerprints, \<open>infrastructure/ice/crc32.cpp\<close>: a table-driven reflected CRC
  for the polynomial \<open>0xEDB88320\<close>, shown equal to the bit-by-bit definition.
\<close>

unbundle bit_operations_syntax

section \<open>The code\<close>

definition crc_shift :: "u32 \<Rightarrow> u32" where
  "crc_shift c = (if c AND 1 \<noteq> 0 then 0xEDB88320 XOR drop_bit 1 c else drop_bit 1 c)"

definition Crc32Table :: "u32 list" where
  "Crc32Table = map (\<lambda>i. (crc_shift ^^ 8) (of_nat i)) [0..<256]"

definition Crc32_Compute :: "bytes \<Rightarrow> u32" where
  "Crc32_Compute bs =
     fold (\<lambda>b c. Crc32Table ! unat ((c XOR ucast b) AND 0xFF) XOR drop_bit 8 c) bs 0xFFFFFFFF
     XOR 0xFFFFFFFF"


section \<open>The reference\<close>

text \<open>One byte at a time into the low end of the register, then eight single-bit steps.\<close>

definition crc_reference :: "bytes \<Rightarrow> u32" where
  "crc_reference bs =
     fold (\<lambda>b c. (crc_shift ^^ 8) (c XOR ucast b)) bs 0xFFFFFFFF XOR 0xFFFFFFFF"

lemma crc_shift_bit: "crc_shift c = (if bit c 0 then 0xEDB88320 XOR drop_bit 1 c else drop_bit 1 c)"
  by (simp add: crc_shift_def bit_0 and_one_eq odd_iff_mod_2_eq_one)

lemma crc_shift_xor: "crc_shift (x XOR y) = crc_shift x XOR crc_shift y"
proof -
  have r: "(a XOR p) XOR (a XOR q) = p XOR q" for a p q :: u32
  proof -
    have "(a XOR p) XOR (a XOR q) = (a XOR a) XOR (p XOR q)" by (simp only: ac_simps)
    then show ?thesis by simp
  qed
  show ?thesis
    by (simp add: crc_shift_bit bit_xor_iff drop_bit_xor r xor.assoc xor.left_commute)
qed

lemma crc_shifts_xor: "(crc_shift ^^ n) (x XOR y) = (crc_shift ^^ n) x XOR (crc_shift ^^ n) y"
  by (induction n) (simp_all add: crc_shift_xor)

lemma crc_shifts_high:
  assumes "\<forall>i<n. \<not> bit w i"
  shows "(crc_shift ^^ n) w = drop_bit n w"
  using assms
proof (induction n arbitrary: w)
  case 0
  then show ?case by simp
next
  case (Suc n)
  have "crc_shift w = drop_bit 1 w" using Suc.prems by (simp add: crc_shift_bit)
  moreover have "\<forall>i<n. \<not> bit (drop_bit 1 w) i" using Suc.prems by (simp add: bit_drop_bit_eq)
  ultimately have "(crc_shift ^^ Suc n) w = drop_bit n (drop_bit 1 w)"
    using Suc.IH [of "drop_bit 1 w"] by (simp only: funpow_Suc_right o_apply simp_thms)
  then show ?case by (simp add: drop_bit_drop_bit add.commute)
qed

lemma split_low_high: "(w :: u32) = (w AND 0xFF) XOR (w AND NOT 0xFF)"
  by (rule bit_word_eqI) (auto simp: bit_simps)

lemma low_byte_less: "unat ((w :: u32) AND 0xFF) < 256"
proof -
  have m: "(0xFF :: u32) = mask 8" by (simp add: mask_eq_exp_minus_1)
  have "unat (w AND 0xFF) = take_bit 8 (unat w)"
    unfolding m by (simp add: unsigned_take_bit_eq flip: take_bit_eq_mask)
  also have "\<dots> < 2 ^ 8" by (rule take_bit_nat_less_exp)
  finally show ?thesis by simp
qed

lemma table_step:
  "Crc32Table ! unat ((c XOR ucast b) AND 0xFF) XOR drop_bit 8 c = (crc_shift ^^ 8) (c XOR ucast (b :: u8))"
proof -
  let ?w = "c XOR ucast b"
  have m: "(0xFF :: u32) = mask 8" by (simp add: mask_eq_exp_minus_1)
  have "unat (?w AND 0xFF) < 256"
    by (rule low_byte_less)
  then have tab: "Crc32Table ! unat (?w AND 0xFF) = (crc_shift ^^ 8) (?w AND 0xFF)"
    by (simp add: Crc32Table_def)
  have "\<forall>i<8. \<not> bit (?w AND NOT 0xFF) i"
    unfolding m by (simp add: bit_simps)
  then have "(crc_shift ^^ 8) (?w AND NOT 0xFF) = drop_bit 8 (?w AND NOT 0xFF)" by (rule crc_shifts_high)
  also have "\<dots> = drop_bit 8 c"
    unfolding m by (rule bit_word_eqI) (auto simp: bit_simps dest: bit_imp_le_length)
  finally show ?thesis
    using crc_shifts_xor [of 8 "?w AND 0xFF" "?w AND NOT 0xFF"] split_low_high [of ?w] tab by simp
qed

text \<open>
  The table-driven CRC-32 of the STUN fingerprint computes the bitwise CRC-32 (reflected
  polynomial \<open>0xEDB88320\<close>, one bit per step) of every byte string.
\<close>

theorem crc32_is_bitwise: "Crc32_Compute bs = crc_reference bs"
  unfolding Crc32_Compute_def crc_reference_def table_step ..

end
