(* ===== verification/Stun.thy ===== *)
theory Stun
  imports Primitives Crc32 Decimal
begin

text \<open>
  The STUN message codec, \<open>infrastructure/ice/stun_message.cpp\<close>: encoding with MESSAGE-INTEGRITY
  and FINGERPRINT, decoding, and the two verifications. HMAC-SHA1 is a parameter. Reads of the
  datagram are checked; \<^const>\<open>None\<close> at the outside of a result would be a read out of bounds.
\<close>

unbundle bit_operations_syntax

section \<open>Messages and attributes\<close>

definition kStunBindingRequest :: u16 where "kStunBindingRequest = 0x0001"
definition kStunBindingResponse :: u16 where "kStunBindingResponse = 0x0101"
definition kStunMagicCookie :: u32 where "kStunMagicCookie = 0x2112A442"
definition kStunFingerprintMask :: u32 where "kStunFingerprintMask = 0x5354554E"
definition kStunAttrUsername :: u16 where "kStunAttrUsername = 0x0006"
definition kStunAttrMessageIntegrity :: u16 where "kStunAttrMessageIntegrity = 0x0008"
definition kStunAttrXorMappedAddress :: u16 where "kStunAttrXorMappedAddress = 0x0020"
definition kStunAttrPriority :: u16 where "kStunAttrPriority = 0x0024"
definition kStunAttrUseCandidate :: u16 where "kStunAttrUseCandidate = 0x0025"
definition kStunAttrFingerprint :: u16 where "kStunAttrFingerprint = 0x8028"
definition kStunAttrIceControlled :: u16 where "kStunAttrIceControlled = 0x8029"
definition kStunAttrIceControlling :: u16 where "kStunAttrIceControlling = 0x802A"

lemmas stun_attrs = kStunAttrUsername_def kStunAttrMessageIntegrity_def kStunAttrXorMappedAddress_def
  kStunAttrPriority_def kStunAttrUseCandidate_def kStunAttrFingerprint_def kStunAttrIceControlled_def
  kStunAttrIceControlling_def

record StunMessage =
  MessageType :: u16
  TransactionId :: bytes
  Username :: string
  HasPriority :: bool
  Priority :: u32
  HasIceControlling :: bool
  IceControllingTieBreak :: u64
  HasIceControlled :: bool
  IceControlledTieBreak :: u64
  UseCandidate :: bool
  HasMappedAddress :: bool
  MappedFamily :: u8
  MappedAddress :: bytes
  MappedPort :: u16
  MessageIntegrity :: bytes
  HasFingerprint :: bool
  StunFingerprint :: u32

definition StunMessage_default :: StunMessage where
  "StunMessage_default = \<lparr>MessageType = 0, TransactionId = replicate 12 0, Username = [],
     HasPriority = False, Priority = 0, HasIceControlling = False, IceControllingTieBreak = 0,
     HasIceControlled = False, IceControlledTieBreak = 0, UseCandidate = False,
     HasMappedAddress = False, MappedFamily = 0, MappedAddress = replicate 16 0, MappedPort = 0,
     MessageIntegrity = [], HasFingerprint = False, StunFingerprint = 0\<rparr>"


section \<open>Encoding\<close>

definition WriteU16 :: "bytes \<Rightarrow> nat \<Rightarrow> u16 \<Rightarrow> bytes" where
  "WriteU16 buf pos v = put_be16 buf pos v"

text \<open>\<open>while ((buf.size() & 0x3) != 0) buf.push_back(0)\<close>\<close>

function pad4 :: "bytes \<Rightarrow> bytes" where
  "pad4 buf = (if length buf mod 4 \<noteq> 0 then pad4 (buf @ [0]) else buf)"
  by pat_completeness auto
termination
proof (relation "measure (\<lambda>buf. (4 - length buf mod 4) mod 4)")
  fix buf :: bytes
  assume "length buf mod 4 \<noteq> 0"
  moreover have "length buf mod 4 < 4" by simp
  ultimately have "length buf mod 4 = 1 \<or> length buf mod 4 = 2 \<or> length buf mod 4 = 3" by linarith
  then show "(buf @ [0], buf) \<in> measure (\<lambda>buf. (4 - length buf mod 4) mod 4)"
    by (auto simp: mod_Suc)
qed simp

declare pad4.simps [simp del]

definition AppendAttr :: "bytes \<Rightarrow> u16 \<Rightarrow> bytes \<Rightarrow> bytes" where
  "AppendAttr buf type value = pad4 (buf @ be16 type @ be16 (of_nat (length value)) @ value)"

definition AppendAttrU32 :: "bytes \<Rightarrow> u16 \<Rightarrow> u32 \<Rightarrow> bytes" where
  "AppendAttrU32 buf type value = AppendAttr buf type (be32 value)"

definition AppendAttrU64 :: "bytes \<Rightarrow> u16 \<Rightarrow> u64 \<Rightarrow> bytes" where
  "AppendAttrU64 buf type value = AppendAttr buf type (be64 value)"

text \<open>The value of XOR-MAPPED-ADDRESS for an IPv4 address.\<close>

definition xor_mapped_value :: "u16 \<Rightarrow> bytes \<Rightarrow> bytes" where
  "xor_mapped_value port addr =
     [0, 0x01] @ be16 (port XOR ucast (drop_bit 16 kStunMagicCookie)) @
     be32 (be32_of (addr ! 0) (addr ! 1) (addr ! 2) (addr ! 3) XOR kStunMagicCookie)"

text \<open>The attributes before MESSAGE-INTEGRITY, in the order \<open>Encode\<close> appends them.\<close>

definition encode_attributes :: "StunMessage \<Rightarrow> bytes \<Rightarrow> bytes" where
  "encode_attributes msg buf =
     (let buf = (if Username msg \<noteq> [] then AppendAttr buf kStunAttrUsername (bytes_of_string (Username msg)) else buf);
          buf = (if HasPriority msg then AppendAttrU32 buf kStunAttrPriority (Priority msg) else buf);
          buf = (if HasIceControlling msg
                 then AppendAttrU64 buf kStunAttrIceControlling (IceControllingTieBreak msg) else buf);
          buf = (if HasIceControlled msg
                 then AppendAttrU64 buf kStunAttrIceControlled (IceControlledTieBreak msg) else buf);
          buf = (if UseCandidate msg then AppendAttr buf kStunAttrUseCandidate [] else buf);
          buf = (if HasMappedAddress msg \<and> MappedFamily msg = 0x01
                 then AppendAttr buf kStunAttrXorMappedAddress
                        (xor_mapped_value (MappedPort msg) (MappedAddress msg))
                 else buf)
      in buf)"

definition stun_Encode :: "mac_fn \<Rightarrow> StunMessage \<Rightarrow> string \<Rightarrow> bytes" where
  "stun_Encode hmac msg password =
     (let buf = be16 (MessageType msg) @ be16 0 @ be32 kStunMagicCookie @ TransactionId msg;
          buf = encode_attributes msg buf;
          buf =
            (if password \<noteq> []
             then
               (let miLength = of_nat ((length buf - 20) + 24);
                    buf = WriteU16 buf 2 miLength;
                    mac = fill 20 (hmac (bytes_of_string password) buf)
                in AppendAttr buf kStunAttrMessageIntegrity mac)
             else buf);
          fpLength = of_nat ((length buf - 20) + 8);
          buf = WriteU16 buf 2 fpLength;
          crc = Crc32_Compute buf
      in AppendAttrU32 buf kStunAttrFingerprint (crc XOR kStunFingerprintMask))"


section \<open>Decoding\<close>

text \<open>The \<open>switch\<close> on one attribute; the value has exactly its announced length.\<close>

definition apply_attr :: "u16 \<Rightarrow> bytes \<Rightarrow> StunMessage \<Rightarrow> StunMessage option" where
  "apply_attr aType aVal out =
     (if aType = kStunAttrUsername then Some (out\<lparr>Username := string_of_bytes aVal\<rparr>)
      else if aType = kStunAttrMessageIntegrity then
        Some (if length aVal = 20 then out\<lparr>MessageIntegrity := aVal\<rparr> else out)
      else if aType = kStunAttrFingerprint then
        (if length aVal = 4
         then do { v \<leftarrow> rd_be32 aVal 0; Some (out\<lparr>HasFingerprint := True, StunFingerprint := v\<rparr>) }
         else Some out)
      else if aType = kStunAttrPriority then
        (if length aVal = 4
         then do { v \<leftarrow> rd_be32 aVal 0; Some (out\<lparr>HasPriority := True, Priority := v\<rparr>) }
         else Some out)
      else if aType = kStunAttrIceControlling then
        (if length aVal = 8
         then do { v \<leftarrow> rd_be64 aVal 0;
                   Some (out\<lparr>HasIceControlling := True, IceControllingTieBreak := v\<rparr>) }
         else Some out)
      else if aType = kStunAttrIceControlled then
        (if length aVal = 8
         then do { v \<leftarrow> rd_be64 aVal 0;
                   Some (out\<lparr>HasIceControlled := True, IceControlledTieBreak := v\<rparr>) }
         else Some out)
      else if aType = kStunAttrUseCandidate then Some (out\<lparr>UseCandidate := True\<rparr>)
      else if aType = kStunAttrXorMappedAddress then
        (if length aVal \<ge> 8
         then do {
           fam \<leftarrow> rd8 aVal 1;
           xport \<leftarrow> rd_be16 aVal 2;
           let out = out\<lparr>HasMappedAddress := True, MappedFamily := fam,
                 MappedPort := xport XOR ucast (drop_bit 16 kStunMagicCookie)\<rparr>;
           if fam = 0x01
           then do {
             xa \<leftarrow> rd_be32 aVal 4;
             Some (out\<lparr>MappedAddress := be32 (xa XOR kStunMagicCookie) @ drop 4 (MappedAddress out)\<rparr>)
           }
           else Some out
         }
         else Some out)
      else Some out)"

text \<open>\<open>advance\<close>: the attribute with its padding.\<close>

definition attr_advance :: "nat \<Rightarrow> nat" where
  "attr_advance aLen = (4 + aLen) + (4 - (4 + aLen) mod 4) mod 4"

lemma attr_advance_ge: "4 + n \<le> attr_advance n"
  by (simp add: attr_advance_def)

text \<open>
  The loop over the attributes from \<open>p\<close> to \<open>e\<close>, with the \<open>switch\<close> as a function (the TURN
  decoder runs the same loop over a \<open>switch\<close> of its own); \<open>Some None\<close> is the return of false.
\<close>

function decode_attrs ::
    "(u16 \<Rightarrow> bytes \<Rightarrow> 'm \<Rightarrow> 'm option) \<Rightarrow> bytes \<Rightarrow> nat \<Rightarrow> nat \<Rightarrow> 'm \<Rightarrow> 'm option option" where
  "decode_attrs f bs p e out =
     (if p + 4 \<le> e
      then do {
        aType \<leftarrow> rd_be16 bs p;
        aLen \<leftarrow> rd_be16 bs (p + 2);
        if p + 4 + unat aLen > e then Some None
        else do {
          aVal \<leftarrow> subbuf bs (p + 4) (p + 4 + unat aLen);
          out \<leftarrow> f aType aVal out;
          decode_attrs f bs (p + attr_advance (unat aLen)) e out
        }
      }
      else Some (Some out))"
  by pat_completeness auto
termination
proof (relation "measure (\<lambda>(f, bs, p, e, out). e - p)")
  fix f :: "u16 \<Rightarrow> bytes \<Rightarrow> 'm \<Rightarrow> 'm option" and bs :: bytes and p e out aType aLen aVal out'
  assume "p + 4 \<le> e" and "\<not> e < p + 4 + unat (aLen :: u16)"
  then show "((f, bs, p + attr_advance (unat aLen), e, out'), f, bs, p, e, out)
      \<in> measure (\<lambda>(f, bs, p, e, out). e - p)"
    using attr_advance_ge [of "unat aLen"] by auto
qed simp

declare decode_attrs.simps [simp del]

definition stun_Decode :: "bytes \<Rightarrow> StunMessage option option" where
  "stun_Decode bs =
     (if length bs < 20 then Some None
      else do {
        type \<leftarrow> rd_be16 bs 0;
        attrLen \<leftarrow> rd_be16 bs 2;
        cookie \<leftarrow> rd_be32 bs 4;
        if cookie \<noteq> kStunMagicCookie then Some None
        else if 20 + unat attrLen > length bs then Some None
        else do {
          tid \<leftarrow> subbuf bs 8 20;
          decode_attrs apply_attr bs 20 (20 + unat attrLen)
            (StunMessage_default\<lparr>MessageType := type, TransactionId := tid\<rparr>)
        }
      })"


section \<open>Verification\<close>

text \<open>The walk to the first MESSAGE-INTEGRITY of 20 bytes: its offset, or none.\<close>

function find_mi :: "bytes \<Rightarrow> nat \<Rightarrow> nat \<Rightarrow> nat option option" where
  "find_mi bs p e =
     (if p + 4 \<le> e
      then do {
        aType \<leftarrow> rd_be16 bs p;
        aLen \<leftarrow> rd_be16 bs (p + 2);
        if p + 4 + unat aLen > e then Some None
        else if aType = kStunAttrMessageIntegrity \<and> aLen = 20 then Some (Some p)
        else find_mi bs (p + attr_advance (unat aLen)) e
      }
      else Some None)"
  by pat_completeness auto
termination
proof (relation "measure (\<lambda>(bs, p, e). e - p)")
  fix bs :: bytes and p e aType aLen
  assume "p + 4 \<le> e" and "\<not> e < p + 4 + unat (aLen :: u16)"
  then show "((bs, p + attr_advance (unat aLen), e), bs, p, e) \<in> measure (\<lambda>(bs, p, e). e - p)"
    using attr_advance_ge [of "unat aLen"] by auto
qed simp

declare find_mi.simps [simp del]

definition VerifyMessageIntegrity :: "mac_fn \<Rightarrow> bytes \<Rightarrow> string \<Rightarrow> bool option" where
  "VerifyMessageIntegrity hmac bs password =
     (if length bs < 20 then Some False
      else do {
        attrLen \<leftarrow> rd_be16 bs 2;
        if 20 + unat attrLen > length bs then Some False
        else do {
          mi \<leftarrow> find_mi bs 20 (20 + unat attrLen);
          case mi of
            None \<Rightarrow> Some False
          | Some miOffset \<Rightarrow> do {
              miValue \<leftarrow> subbuf bs (miOffset + 4) (miOffset + 24);
              tmp \<leftarrow> subbuf bs 0 miOffset;
              let tmp = WriteU16 tmp 2 (of_nat ((miOffset - 20) + 24));
              Some (fill 20 (hmac (bytes_of_string password) tmp) = miValue)
            }
        }
      })"

definition VerifyFingerprint :: "bytes \<Rightarrow> bool option" where
  "VerifyFingerprint bs =
     (if length bs < 28 then Some False
      else do {
        let fpOffset = length bs - 8;
        t \<leftarrow> rd_be16 bs fpOffset;
        if t \<noteq> kStunAttrFingerprint then Some False
        else do {
          l \<leftarrow> rd_be16 bs (fpOffset + 2);
          if l \<noteq> 4 then Some False
          else do {
            tmp \<leftarrow> subbuf bs 0 fpOffset;
            let tmp = WriteU16 tmp 2 (of_nat ((fpOffset - 20) + 8));
            actual \<leftarrow> rd_be32 bs (fpOffset + 4);
            Some (Crc32_Compute tmp XOR kStunFingerprintMask = actual)
          }
        }
      })"


section \<open>Decoding is safe\<close>

lemma apply_attr_safe: "apply_attr t v out \<noteq> None"
  by (auto simp: apply_attr_def read_simps Let_def simp del: not_None_eq)

lemma decode_attrs_safe:
  "e \<le> length bs \<Longrightarrow> \<forall>t v m. f t v m \<noteq> None \<Longrightarrow> decode_attrs f bs p e out \<noteq> None"
proof (induction f bs p e out rule: decode_attrs.induct)
  case (1 f bs p e out)
  show ?case
  proof (cases "p + 4 \<le> e")
    case False
    then show ?thesis by (subst decode_attrs.simps) simp
  next
    case True
    then obtain t l where t: "rd_be16 bs p = Some t" "rd_be16 bs (p + 2) = Some l"
      using "1.prems" by (simp add: read_simps)
    show ?thesis
    proof (cases "p + 4 + unat l > e")
      case too: True
      then show ?thesis using True t by (subst decode_attrs.simps) simp
    next
      case fits: False
      then have s: "subbuf bs (p + 4) (p + 4 + unat l) = Some (take (unat l) (drop (p + 4) bs))"
        using "1.prems" by (simp add: subbuf_def)
      obtain out' where o: "f t (take (unat l) (drop (p + 4) bs)) out = Some out'"
        using "1.prems"(2) by blast
      have "decode_attrs f bs (p + attr_advance (unat l)) e out' \<noteq> None"
        using "1.IH" [OF True t fits s o] "1.prems" by simp
      then show ?thesis using True t fits s o by (subst decode_attrs.simps) simp
    qed
  qed
qed

lemma stun_Decode_safe: "stun_Decode bs \<noteq> None"
proof (cases "length bs < 20")
  case True
  then show ?thesis by (simp add: stun_Decode_def)
next
  case False
  then obtain t l c tid where r: "rd_be16 bs 0 = Some t" "rd_be16 bs 2 = Some l" "rd_be32 bs 4 = Some c"
    "subbuf bs 8 20 = Some tid"
    by (simp add: rd_be16_in rd_be32_in subbuf_in)
  show ?thesis
    using False r decode_attrs_safe [of "20 + unat l" bs apply_attr] apply_attr_safe
    by (simp add: stun_Decode_def del: not_None_eq)
qed

lemma find_mi_safe:
  assumes "e \<le> length bs" and "20 \<le> p"
  shows "\<exists>r. find_mi bs p e = Some r \<and> (case r of None \<Rightarrow> True | Some q \<Rightarrow> 20 \<le> q \<and> q + 24 \<le> e)"
  using assms
proof (induction bs p e rule: find_mi.induct)
  case (1 bs p e)
  show ?case
  proof (cases "p + 4 \<le> e")
    case False
    then show ?thesis by (subst find_mi.simps) simp
  next
    case True
    then obtain t l where t: "rd_be16 bs p = Some t" "rd_be16 bs (p + 2) = Some l"
      using "1.prems" by (simp add: read_simps)
    show ?thesis
    proof (cases "p + 4 + unat l > e \<or> (t = kStunAttrMessageIntegrity \<and> l = 20)")
      case stop: True
      then show ?thesis using True t "1.prems" by (subst find_mi.simps) auto
    next
      case go: False
      then have "\<exists>r. find_mi bs (p + attr_advance (unat l)) e = Some r
          \<and> (case r of None \<Rightarrow> True | Some q \<Rightarrow> 20 \<le> q \<and> q + 24 \<le> e)"
        using "1.IH" [OF True t] "1.prems" by auto
      then show ?thesis using True t go by (subst find_mi.simps) auto
    qed
  qed
qed

lemma VerifyMessageIntegrity_safe: "VerifyMessageIntegrity hmac bs pw \<noteq> None"
proof (cases "length bs < 20")
  case True
  then show ?thesis by (simp add: VerifyMessageIntegrity_def)
next
  case False
  then obtain l where l: "rd_be16 bs 2 = Some l" by (simp add: rd_be16_in)
  show ?thesis
  proof (cases "20 + unat l > length bs")
    case True
    then show ?thesis using False l by (simp add: VerifyMessageIntegrity_def)
  next
    case fits: False
    then obtain r where r: "find_mi bs 20 (20 + unat l) = Some r"
      and b: "case r of None \<Rightarrow> True | Some q \<Rightarrow> 20 \<le> q \<and> q + 24 \<le> 20 + unat l"
      using find_mi_safe [of "20 + unat l" bs 20] by auto
    show ?thesis
      using False l fits r b
      by (cases r) (simp_all add: VerifyMessageIntegrity_def subbuf_def)
  qed
qed

lemma VerifyFingerprint_safe: "VerifyFingerprint bs \<noteq> None"
proof (cases "length bs < 28")
  case True
  then show ?thesis by (simp add: VerifyFingerprint_def)
next
  case False
  then have l: "length bs - 8 + 7 < length bs" by simp
  then obtain a b c d where "rd_be16 bs (length bs - 8) = Some a" "rd_be16 bs (length bs - 8 + 2) = Some b"
    "rd_be32 bs (length bs - 8 + 4) = Some c" "subbuf bs 0 (length bs - 8) = Some d"
    by (simp add: rd_be16_in rd_be32_in subbuf_in)
  then show ?thesis using False by (simp add: VerifyFingerprint_def Let_def del: not_None_eq)
qed

text \<open>
  No STUN datagram makes the codec read outside it: decoding, the MESSAGE-INTEGRITY check
  and the FINGERPRINT check all return, for every sequence of bytes and every password.
\<close>

theorem stun_reads_in_bounds:
  "stun_Decode bs \<noteq> None \<and> VerifyMessageIntegrity hmac bs password \<noteq> None \<and> VerifyFingerprint bs \<noteq> None"
  using stun_Decode_safe VerifyMessageIntegrity_safe VerifyFingerprint_safe by blast


section \<open>What is encoded\<close>

lemma mod4_cases: "n mod 4 = 0 \<or> n mod 4 = 1 \<or> n mod 4 = 2 \<or> n mod 4 = (3 :: nat)"
proof -
  have "n mod 4 < 4" by simp
  then show ?thesis by linarith
qed

lemma pad4_eq: "pad4 buf = buf @ replicate ((4 - length buf mod 4) mod 4) 0"
proof (induction buf rule: pad4.induct)
  case (1 buf)
  show ?case
  proof (cases "length buf mod 4 = 0")
    case True
    then show ?thesis by (subst pad4.simps) simp
  next
    case False
    have s: "pad4 buf = pad4 (buf @ [0])" using False by (subst pad4.simps) simp
    have n: "length (buf @ [0 :: u8]) mod 4 = Suc (length buf mod 4) mod 4" by (simp add: mod_Suc_eq)
    have c: "replicate ((4 - k mod 4) mod 4) (0 :: u8) = [0] @ replicate ((4 - Suc k mod 4) mod 4) 0"
      if "k = 1 \<or> k = 2 \<or> k = 3" for k :: nat
    proof -
      from that have "(4 - k mod 4) mod 4 = Suc ((4 - Suc k mod 4) mod 4)"
        by (elim disjE) simp_all
      then show ?thesis by simp
    qed
    have "length buf mod 4 = 1 \<or> length buf mod 4 = 2 \<or> length buf mod 4 = 3"
      using False mod4_cases [of "length buf"] by argo
    from c [OF this] show ?thesis
      unfolding s 1 [OF False] n by (simp only: mod_mod_trivial append_assoc)
  qed
qed

text \<open>A type-length-value triple with its padding.\<close>

definition tlv :: "u16 \<times> bytes \<Rightarrow> bytes" where
  "tlv a = be16 (fst a) @ be16 (of_nat (length (snd a))) @ snd a @
     replicate ((4 - length (snd a) mod 4) mod 4) 0"

lemma length_tlv: "length (tlv a) = attr_advance (length (snd a))"
  by (simp add: tlv_def attr_advance_def)

lemma attr_advance_eq: "attr_advance n = 4 * ((n + 7) div 4)"
proof -
  have "n = 4 * (n div 4) + n mod 4" by simp
  moreover have "(4 + n) mod 4 = n mod 4" by simp
  moreover have "(n + 7) div 4 = n div 4 + (n mod 4 + 7) div 4" by (metis add.assoc div_mult_self4 mod_mult_div_eq add.commute zero_neq_numeral)
  ultimately show ?thesis
    unfolding attr_advance_def using mod4_cases [of n] by (elim disjE) simp_all
qed

lemma attr_advance_mod: "attr_advance n mod 4 = 0"
  by (simp add: attr_advance_eq)

lemma attr_advance_le: "attr_advance n \<le> n + 7"
  by (simp add: attr_advance_eq)

lemma AppendAttr_tlv: "length buf mod 4 = 0 \<Longrightarrow> AppendAttr buf t v = buf @ tlv (t, v)"
proof -
  assume "length buf mod 4 = 0"
  then have "(length buf + length v) mod 4 = length v mod 4"
    by (metis add.left_neutral mod_add_left_eq)
  then have "length (buf @ be16 t @ be16 (of_nat (length v)) @ v) mod 4 = length v mod 4" by simp
  then show ?thesis unfolding AppendAttr_def pad4_eq tlv_def by (simp only:) simp
qed

definition tlvs :: "(u16 \<times> bytes) list \<Rightarrow> bytes" where
  "tlvs as = concat (map tlv as)"

lemma tlvs_simps [simp]:
  "tlvs [] = []" "tlvs (a # as) = tlv a @ tlvs as" "tlvs (as @ bs) = tlvs as @ tlvs bs"
  by (simp_all add: tlvs_def)

lemma length_tlvs_mod: "length (tlvs as) mod 4 = 0"
proof (induction as)
  case (Cons a as)
  then show ?case using attr_advance_mod [of "length (snd a)"] by (auto simp: length_tlv)
qed simp

definition opt_attr :: "bool \<Rightarrow> u16 \<times> bytes \<Rightarrow> (u16 \<times> bytes) list" where
  "opt_attr c a = (if c then [a] else [])"

definition stun_attributes :: "StunMessage \<Rightarrow> (u16 \<times> bytes) list" where
  "stun_attributes m =
     opt_attr (Username m \<noteq> []) (kStunAttrUsername, bytes_of_string (Username m)) @
     opt_attr (HasPriority m) (kStunAttrPriority, be32 (Priority m)) @
     opt_attr (HasIceControlling m) (kStunAttrIceControlling, be64 (IceControllingTieBreak m)) @
     opt_attr (HasIceControlled m) (kStunAttrIceControlled, be64 (IceControlledTieBreak m)) @
     opt_attr (UseCandidate m) (kStunAttrUseCandidate, []) @
     opt_attr (HasMappedAddress m \<and> MappedFamily m = 0x01)
       (kStunAttrXorMappedAddress, xor_mapped_value (MappedPort m) (MappedAddress m))"

lemma append_opt:
  "length buf mod 4 = 0 \<Longrightarrow>
     (if c then AppendAttr buf t v else buf) = buf @ tlvs (opt_attr c (t, v))"
  by (simp add: opt_attr_def AppendAttr_tlv)

lemma length_mod_step:
  "length buf mod 4 = 0 \<Longrightarrow> length (buf @ tlvs as) mod 4 = 0"
  using length_tlvs_mod [of as] by (auto simp: mod_eq_0_iff_dvd)

lemma encode_attributes_tlvs:
  assumes "length buf mod 4 = 0"
  shows "encode_attributes m buf = buf @ tlvs (stun_attributes m)"
  unfolding encode_attributes_def AppendAttrU32_def AppendAttrU64_def Let_def stun_attributes_def
    tlvs_simps
  by (subst append_opt, (intro length_mod_step assms)?)+ (simp only: append_assoc)

text \<open>The header with a given length field.\<close>

definition stun_header :: "StunMessage \<Rightarrow> u16 \<Rightarrow> bytes" where
  "stun_header m l = be16 (MessageType m) @ be16 l @ be32 kStunMagicCookie @ TransactionId m"

lemma WriteU16_header: "WriteU16 (stun_header m l @ xs) 2 l' = stun_header m l' @ xs"
  by (simp add: WriteU16_def put_be16_def stun_header_def be16_def be32_def)

lemma length_stun_header: "length (TransactionId m) = 12 \<Longrightarrow> length (stun_header m l) = 20"
  by (simp add: stun_header_def)

definition mi_mac :: "mac_fn \<Rightarrow> StunMessage \<Rightarrow> string \<Rightarrow> bytes \<Rightarrow> bytes" where
  "mi_mac hmac m pw A =
     fill 20 (hmac (bytes_of_string pw) (stun_header m (of_nat (length A + 24)) @ A))"

definition mi_attr :: "mac_fn \<Rightarrow> StunMessage \<Rightarrow> string \<Rightarrow> bytes \<Rightarrow> (u16 \<times> bytes) list" where
  "mi_attr hmac m pw A = opt_attr (pw \<noteq> []) (kStunAttrMessageIntegrity, mi_mac hmac m pw A)"

definition fp_attr :: "StunMessage \<Rightarrow> bytes \<Rightarrow> u16 \<times> bytes" where
  "fp_attr m B = (kStunAttrFingerprint,
     be32 (Crc32_Compute (stun_header m (of_nat (length B + 8)) @ B) XOR kStunFingerprintMask))"

lemma stun_Encode_eq:
  assumes t: "length (TransactionId m) = 12"
    and A: "A = tlvs (stun_attributes m)"
    and B: "B = A @ tlvs (mi_attr hmac m pw A)"
  shows "stun_Encode hmac m pw = stun_header m (of_nat (length B + 8)) @ B @ tlv (fp_attr m B)"
proof -
  have h: "length (stun_header m l) = 20" for l using t by (rule length_stun_header)
  have sub: "length (stun_header m l @ xs) - 20 = length xs" for l xs by (simp add: h)
  have mod: "length (stun_header m l @ tlvs as) mod 4 = 0" for l as
    using length_mod_step [of "stun_header m l" as] by (simp add: h)
  have start: "be16 (MessageType m) @ be16 0 @ be32 kStunMagicCookie @ TransactionId m = stun_header m 0"
    by (simp add: stun_header_def)
  have e: "encode_attributes m (stun_header m 0) = stun_header m 0 @ A"
    unfolding A by (rule encode_attributes_tlvs) (simp add: h)
  have Bt: "B = tlvs (stun_attributes m @ mi_attr hmac m pw A)" using A B by simp
  have "AppendAttr (stun_header m (of_nat (length A + 24)) @ A) kStunAttrMessageIntegrity
      (mi_mac hmac m pw A) = stun_header m (of_nat (length A + 24)) @ A @
      tlv (kStunAttrMessageIntegrity, mi_mac hmac m pw A)"
    unfolding A by (subst AppendAttr_tlv [OF mod]) simp
  then obtain l where b: "(if pw \<noteq> []
      then AppendAttr (stun_header m (of_nat (length A + 24)) @ A)
             kStunAttrMessageIntegrity (mi_mac hmac m pw A)
      else stun_header m 0 @ A) = stun_header m l @ B"
    by (cases "pw = []") (auto simp: B mi_attr_def opt_attr_def)
  have f: "AppendAttr (stun_header m l' @ B) t v = stun_header m l' @ B @ tlv (t, v)" for l' t v
    unfolding Bt by (subst AppendAttr_tlv [OF mod]) simp
  show ?thesis
    unfolding stun_Encode_def Let_def start e sub WriteU16_header mi_mac_def [symmetric] b
      AppendAttrU32_def f fp_attr_def ..
qed

lemma opt_attr_cases: "opt_attr c a = (if c then [a] else [])"
  by (simp add: opt_attr_def)


section \<open>Decoding what is encoded\<close>

text \<open>Walking over one whole attribute.\<close>

lemma be16_of_be16 [simp]: "be16_of (be16 v ! 0) (be16 v ! 1) = v"
  by (simp add: be16_def)

lemma tlv_reads:
  assumes l: "length (snd a) < 65536"
    and b: "bs = xs @ tlv a @ ys"
  shows "rd_be16 bs (length xs) = Some (fst a)"
    and "rd_be16 bs (length xs + 2) = Some (of_nat (length (snd a)))"
    and "unat (of_nat (length (snd a)) :: u16) = length (snd a)"
    and "subbuf bs (length xs + 4) (length xs + 4 + length (snd a)) = Some (snd a)"
    and "length xs + 4 + length (snd a) \<le> length (xs @ tlv a)"
proof -
  show "unat (of_nat (length (snd a)) :: u16) = length (snd a)"
    using l by (simp add: unat_of_nat take_bit_nat_eq_self)
  show "rd_be16 bs (length xs) = Some (fst a)"
    by (simp add: b rd_be16_in nth_append tlv_def be16_def)
  show "rd_be16 bs (length xs + 2) = Some (of_nat (length (snd a)))"
    by (simp add: b rd_be16_in nth_append tlv_def be16_def)
  show "subbuf bs (length xs + 4) (length xs + 4 + length (snd a)) = Some (snd a)"
    by (simp add: b subbuf_def tlv_def be16_def)
  show "length xs + 4 + length (snd a) \<le> length (xs @ tlv a)"
    using attr_advance_ge [of "length (snd a)"] by (simp add: length_tlv)
qed

lemma decode_attrs_tlv:
  assumes "length (snd a) < 65536" and "bs = xs @ tlv a @ ys" and "length (xs @ tlv a) \<le> e"
    and "f (fst a) (snd a) m = Some m'"
  shows "decode_attrs f bs (length xs) e m = decode_attrs f bs (length (xs @ tlv a)) e m'"
  using tlv_reads [OF assms(1,2)] assms(3,4)
  by (subst decode_attrs.simps) (simp add: length_tlv add.assoc)

lemma find_mi_tlv:
  assumes "length (snd a) < 65536" and "bs = xs @ tlv a @ ys" and "length (xs @ tlv a) \<le> e"
    and "fst a \<noteq> kStunAttrMessageIntegrity"
  shows "find_mi bs (length xs) e = find_mi bs (length (xs @ tlv a)) e"
  using tlv_reads [OF assms(1,2)] assms(3,4)
  by (subst find_mi.simps) (simp add: length_tlv add.assoc)

text \<open>Walking over a sequence of attributes.\<close>

definition apply_all ::
    "(u16 \<Rightarrow> bytes \<Rightarrow> 'm \<Rightarrow> 'm option) \<Rightarrow> (u16 \<times> bytes) list \<Rightarrow> 'm \<Rightarrow> 'm" where
  "apply_all f as m = fold (\<lambda>a m. the (f (fst a) (snd a) m)) as m"

abbreviation apply_attrs :: "(u16 \<times> bytes) list \<Rightarrow> StunMessage \<Rightarrow> StunMessage" where
  "apply_attrs \<equiv> apply_all apply_attr"

lemma decode_attrs_tlvs:
  assumes "\<forall>a \<in> set as. length (snd a) < 65536" and "bs = xs @ tlvs as @ ys"
    and "length (xs @ tlvs as) \<le> e" and "\<forall>t v m. f t v m \<noteq> None"
  shows "decode_attrs f bs (length xs) e m = decode_attrs f bs (length (xs @ tlvs as)) e (apply_all f as m)"
  using assms
proof (induction as arbitrary: xs m)
  case (Cons a as)
  obtain m' where m': "f (fst a) (snd a) m = Some m'" using Cons.prems(4) by blast
  have "decode_attrs f bs (length xs) e m = decode_attrs f bs (length (xs @ tlv a)) e m'"
    using Cons.prems m' by (intro decode_attrs_tlv [where ys = "tlvs as @ ys"]) auto
  also have "\<dots> = decode_attrs f bs (length ((xs @ tlv a) @ tlvs as)) e (apply_all f as m')"
    by (rule Cons.IH) (use Cons.prems in auto)
  finally show ?case using m' by (simp add: apply_all_def)
qed (simp add: apply_all_def)

lemma find_mi_tlvs:
  assumes "\<forall>a \<in> set as. length (snd a) < 65536 \<and> fst a \<noteq> kStunAttrMessageIntegrity"
    and "bs = xs @ tlvs as @ ys" and "length (xs @ tlvs as) \<le> e"
  shows "find_mi bs (length xs) e = find_mi bs (length (xs @ tlvs as)) e"
  using assms
proof (induction as arbitrary: xs)
  case (Cons a as)
  have "find_mi bs (length xs) e = find_mi bs (length (xs @ tlv a)) e"
    using Cons.prems by (intro find_mi_tlv [where ys = "tlvs as @ ys"]) auto
  also have "\<dots> = find_mi bs (length ((xs @ tlv a) @ tlvs as)) e"
    using Cons.prems by (intro Cons.IH) auto
  finally show ?case by simp
qed simp

text \<open>What each attribute of an encoder does to the message.\<close>

lemma rd_be32_be32 [simp]: "rd_be32 (be32 v) 0 = Some v"
  by (simp add: rd_be32_in be32_def)

lemma rd_be64_be64 [simp]: "rd_be64 (be64 v) 0 = Some v"
  by (simp add: rd_be64_in be64_def)

lemma apply_attrs_append: "apply_all f (as @ bs) m = apply_all f bs (apply_all f as m)"
  by (simp add: apply_all_def)

lemma apply_opt: "apply_all f (opt_attr c a) m = (if c then the (f (fst a) (snd a) m) else m)"
  by (simp add: apply_all_def opt_attr_def)

lemma apply_username:
  "apply_attrs (opt_attr (u \<noteq> []) (kStunAttrUsername, bytes_of_string u)) m =
     m\<lparr>Username := if u \<noteq> [] then u else Username m\<rparr>"
  by (simp add: apply_opt apply_attr_def string_of_bytes_of_string)

lemma apply_priority:
  "apply_attrs (opt_attr c (kStunAttrPriority, be32 v)) m =
     m\<lparr>HasPriority := c \<or> HasPriority m, Priority := if c then v else Priority m\<rparr>"
  by (simp add: apply_opt apply_attr_def stun_attrs)

lemma apply_controlling:
  "apply_attrs (opt_attr c (kStunAttrIceControlling, be64 v)) m =
     m\<lparr>HasIceControlling := c \<or> HasIceControlling m,
       IceControllingTieBreak := if c then v else IceControllingTieBreak m\<rparr>"
  by (simp add: apply_opt apply_attr_def stun_attrs)

lemma apply_controlled:
  "apply_attrs (opt_attr c (kStunAttrIceControlled, be64 v)) m =
     m\<lparr>HasIceControlled := c \<or> HasIceControlled m,
       IceControlledTieBreak := if c then v else IceControlledTieBreak m\<rparr>"
  by (simp add: apply_opt apply_attr_def stun_attrs)

lemma apply_use_candidate:
  "apply_attrs (opt_attr c (kStunAttrUseCandidate, [])) m =
     m\<lparr>UseCandidate := c \<or> UseCandidate m\<rparr>"
  by (simp add: apply_opt apply_attr_def stun_attrs)

lemma xor_cancel: "(a XOR k) XOR k = (a :: 'a::len word)"
  by (simp add: xor.assoc)

lemma be32_be32_of [simp]: "be32 (be32_of a b c d) = [a, b, c, d]"
  by (simp add: be32_def)

lemma apply_mapped:
  assumes "length addr \<ge> 4"
  shows "apply_attrs (opt_attr c (kStunAttrXorMappedAddress, xor_mapped_value port addr)) m =
     m\<lparr>HasMappedAddress := c \<or> HasMappedAddress m, MappedFamily := if c then 1 else MappedFamily m,
       MappedPort := if c then port else MappedPort m,
       MappedAddress := if c then take 4 addr @ drop 4 (MappedAddress m) else MappedAddress m\<rparr>"
proof (cases c)
  case True
  define v where "v = xor_mapped_value port addr"
  define a where "a = be32_of (addr ! 0) (addr ! 1) (addr ! 2) (addr ! 3)"
  have v: "v = [0, 1] @ be16 (port XOR ucast (drop_bit 16 kStunMagicCookie)) @ be32 (a XOR kStunMagicCookie)"
    by (simp add: v_def a_def xor_mapped_value_def)
  have len: "length v = 8" by (simp add: v)
  have f: "rd8 v (Suc 0) = Some 1" by (simp add: v rd8_def)
  have port: "rd_be16 v 2 = Some (port XOR ucast (drop_bit 16 kStunMagicCookie))"
    by (simp add: v rd_be16_in be16_def)
  have adr: "rd_be32 v 4 = Some (a XOR kStunMagicCookie)"
    by (simp add: v rd_be32_in be16_def be32_def)
  have four: "[0..<4] = [0, 1, 2, 3 :: nat]" by code_simp
  have "take 4 addr = map ((!) addr) [0..<4]"
    using assms by (intro nth_equalityI) simp_all
  then have "take 4 addr = [addr ! 0, addr ! 1, addr ! 2, addr ! 3]" by (simp only: four list.map)
  then have t: "be32 a = take 4 addr" by (simp add: a_def)
  have "apply_attr kStunAttrXorMappedAddress v m = Some (m\<lparr>HasMappedAddress := True, MappedFamily := 1,
      MappedPort := port, MappedAddress := take 4 addr @ drop 4 (MappedAddress m)\<rparr>)"
    by (simp add: apply_attr_def stun_attrs len f port adr xor_cancel t Let_def)
  then show ?thesis by (simp add: apply_opt True flip: v_def)
qed (simp add: apply_opt)

lemma apply_mi:
  "length v = 20 \<Longrightarrow> apply_attrs (opt_attr c (kStunAttrMessageIntegrity, v)) m =
     m\<lparr>MessageIntegrity := if c then v else MessageIntegrity m\<rparr>"
  by (simp add: apply_opt apply_attr_def stun_attrs)

lemma apply_fp:
  "apply_attrs [fp_attr m' B] m = m\<lparr>HasFingerprint := True,
     StunFingerprint := Crc32_Compute (stun_header m' (of_nat (length B + 8)) @ B) XOR kStunFingerprintMask\<rparr>"
  by (simp add: apply_all_def fp_attr_def apply_attr_def stun_attrs)

text \<open>
  The messages \<open>Encode\<close> can express: unset fields have their defaults and the mapped address is an
  IPv4 address in its first four bytes.
\<close>

definition stun_encodable :: "StunMessage \<Rightarrow> bool" where
  "stun_encodable m \<longleftrightarrow>
     length (TransactionId m) = 12 \<and> length (Username m) \<le> 60000
     \<and> (HasPriority m \<or> Priority m = 0)
     \<and> (HasIceControlling m \<or> IceControllingTieBreak m = 0)
     \<and> (HasIceControlled m \<or> IceControlledTieBreak m = 0)
     \<and> (if HasMappedAddress m
        then MappedFamily m = 1 \<and> length (MappedAddress m) = 16 \<and> drop 4 (MappedAddress m) = replicate 12 0
        else MappedFamily m = 0 \<and> MappedPort m = 0 \<and> MappedAddress m = replicate 16 0)
     \<and> MessageIntegrity m = [] \<and> \<not> HasFingerprint m \<and> StunFingerprint m = 0"

lemma stun_encodableD:
  assumes "stun_encodable m"
  shows "length (TransactionId m) = 12" "length (Username m) \<le> 60000"
    and "HasMappedAddress m \<Longrightarrow> MappedFamily m = 1"
    and "HasMappedAddress m \<Longrightarrow> length (MappedAddress m) = 16"
    and "HasMappedAddress m \<Longrightarrow> drop 4 (MappedAddress m) = replicate 12 0"
    and "\<not> HasMappedAddress m \<Longrightarrow>
           MappedFamily m = 0 \<and> MappedPort m = 0 \<and> MappedAddress m = replicate 16 0"
  using assms unfolding stun_encodable_def by argo+

lemma apply_stun_attributes:
  assumes "stun_encodable m"
  shows "apply_attrs (stun_attributes m)
    (StunMessage_default\<lparr>MessageType := MessageType m, TransactionId := TransactionId m\<rparr>) = m"
proof -
  have addr: "length (MappedAddress m) \<ge> 4"
    using assms by (simp add: stun_encodable_def split: if_splits)
  have d: "HasPriority m \<or> Priority m = 0" "HasIceControlling m \<or> IceControllingTieBreak m = 0"
    "HasIceControlled m \<or> IceControlledTieBreak m = 0"
    using assms unfolding stun_encodable_def by blast+
  have ifs: "(if Username m \<noteq> [] then Username m else []) = Username m"
    "(if HasPriority m then Priority m else 0) = Priority m"
    "(if HasIceControlling m then IceControllingTieBreak m else 0) = IceControllingTieBreak m"
    "(if HasIceControlled m then IceControlledTieBreak m else 0) = IceControlledTieBreak m"
    using d by auto
  have whole: "take 4 (MappedAddress m) @ replicate 12 0 = MappedAddress m" if "HasMappedAddress m"
    using stun_encodableD(5) [OF assms that] append_take_drop_id [of 4 "MappedAddress m"] by metis
  have mapped: "(HasMappedAddress m \<and> MappedFamily m = 1) = HasMappedAddress m"
    "(if HasMappedAddress m then 1 else 0) = MappedFamily m"
    "(if HasMappedAddress m then MappedPort m else 0) = MappedPort m"
    "(if HasMappedAddress m then take 4 (MappedAddress m) @ drop 4 (replicate 16 0) else replicate 16 0)
       = MappedAddress m"
    using stun_encodableD(3-6) [OF assms] whole
    by (auto split: if_splits)
  have rest: "MessageIntegrity m = []" "HasFingerprint m = False" "StunFingerprint m = 0"
    using assms by (simp_all add: stun_encodable_def)
  show ?thesis
    unfolding stun_attributes_def apply_attrs_append apply_username apply_priority apply_controlling
      apply_controlled apply_use_candidate apply_mapped [OF addr] StunMessage_default_def
    by (rule StunMessage.equality)
      (simp_all only: StunMessage.simps ifs mapped rest simp_thms, simp)
qed



section \<open>What the peer makes of it\<close>

text \<open>
  The length the encoder writes: everything after the header fits the 16-bit field.
\<close>

lemma stun_attributes_lengths:
  "stun_encodable m \<Longrightarrow> \<forall>a \<in> set (stun_attributes m). length (snd a) \<le> 60000 \<and> fst a \<noteq> kStunAttrMessageIntegrity"
  using stun_encodableD(2) [of m]
  by (auto simp: stun_attributes_def opt_attr_def stun_attrs xor_mapped_value_def)

lemma length_opt: "length (tlvs (opt_attr c a)) \<le> length (snd a) + 7"
  using attr_advance_le [of "length (snd a)"] by (simp add: opt_attr_def length_tlv)

lemma length_stun_attributes:
  "stun_encodable m \<Longrightarrow> length (tlvs (stun_attributes m)) \<le> 65000"
proof -
  assume "stun_encodable m"
  then have "length (Username m) \<le> 60000" by (rule stun_encodableD)
  then show ?thesis
    unfolding stun_attributes_def tlvs_simps length_append
    using length_opt [of "Username m \<noteq> []" "(kStunAttrUsername, bytes_of_string (Username m))"]
      length_opt [of "HasPriority m" "(kStunAttrPriority, be32 (Priority m))"]
      length_opt [of "HasIceControlling m" "(kStunAttrIceControlling, be64 (IceControllingTieBreak m))"]
      length_opt [of "HasIceControlled m" "(kStunAttrIceControlled, be64 (IceControlledTieBreak m))"]
      length_opt [of "UseCandidate m" "(kStunAttrUseCandidate, [])"]
      length_opt [of "HasMappedAddress m \<and> MappedFamily m = 0x01"
        "(kStunAttrXorMappedAddress, xor_mapped_value (MappedPort m) (MappedAddress m))"]
    by (simp add: xor_mapped_value_def)
qed

text \<open>An encoded message, cut as its readers see it.\<close>

definition stun_parts :: "mac_fn \<Rightarrow> StunMessage \<Rightarrow> string \<Rightarrow> (u16 \<times> bytes) list" where
  "stun_parts hmac m pw =
     (let A = stun_attributes m; M = mi_attr hmac m pw (tlvs A)
      in A @ M @ [fp_attr m (tlvs A @ tlvs M)])"

lemma length_mi_mac [simp]: "length (mi_mac hmac m pw A) = 20"
  by (simp add: mi_mac_def)

lemma length_fp: "length (snd (fp_attr m B)) = 4"
  by (simp add: fp_attr_def)

lemma length_tlv_fp: "length (tlv (fp_attr m B)) = 8"
  by (simp add: length_tlv length_fp attr_advance_def)

lemma stun_Encode_parts:
  assumes "stun_encodable m"
  shows "stun_Encode hmac m pw =
    stun_header m (of_nat (length (tlvs (stun_parts hmac m pw)))) @ tlvs (stun_parts hmac m pw)"
proof -
  have t: "length (TransactionId m) = 12" using assms by (rule stun_encodableD)
  show ?thesis
    unfolding stun_Encode_eq [OF t refl refl] stun_parts_def Let_def tlvs_simps
    by (simp only: length_append length_tlv_fp append_assoc append_Nil2 add.assoc list.size(3) add_0_right)
qed

lemma length_mi_attr: "length (tlvs (mi_attr hmac m pw A)) \<le> 27"
  using length_opt [of "pw \<noteq> []" "(kStunAttrMessageIntegrity, mi_mac hmac m pw A)"]
  by (simp add: mi_attr_def)

lemma length_stun_parts:
  "stun_encodable m \<Longrightarrow> length (tlvs (stun_parts hmac m pw)) < 65536"
  using length_stun_attributes [of m] length_mi_attr [of hmac m pw "tlvs (stun_attributes m)"]
  by (simp add: stun_parts_def Let_def length_tlv_fp)

lemma stun_parts_lengths:
  "stun_encodable m \<Longrightarrow> \<forall>a \<in> set (stun_parts hmac m pw). length (snd a) < 65536"
  using stun_attributes_lengths [of m]
  by (auto simp: stun_parts_def Let_def mi_attr_def opt_attr_def length_fp)

lemma header_reads:
  assumes "length (TransactionId m) = 12"
  shows "rd_be16 (stun_header m l @ xs) 0 = Some (MessageType m)"
    and "rd_be16 (stun_header m l @ xs) 2 = Some l"
    and "rd_be32 (stun_header m l @ xs) 4 = Some kStunMagicCookie"
    and "subbuf (stun_header m l @ xs) 8 20 = Some (TransactionId m)"
  using assms
  by (simp_all add: stun_header_def rd_be16_in rd_be32_in be16_def be32_def subbuf_in)

lemma unat_length_parts:
  "stun_encodable m \<Longrightarrow>
     unat (of_nat (length (tlvs (stun_parts hmac m pw))) :: u16) = length (tlvs (stun_parts hmac m pw))"
  using length_stun_parts [of m hmac pw] by (simp add: unat_of_nat take_bit_nat_eq_self)

lemma stun_Decode_attrs:
  assumes t: "length (TransactionId m) = 12" and short: "\<forall>a \<in> set as. length (snd a) < 65536"
    and u: "unat (of_nat (length (tlvs as)) :: u16) = length (tlvs as)"
  shows "stun_Decode (stun_header m (of_nat (length (tlvs as))) @ tlvs as) = Some (Some (apply_attrs as
      (StunMessage_default\<lparr>MessageType := MessageType m, TransactionId := TransactionId m\<rparr>)))"
proof -
  define P where "P = tlvs as"
  define H where "H = stun_header m (of_nat (length P))"
  have H: "length H = 20" unfolding H_def using t by (rule length_stun_header)
  have r: "rd_be16 (H @ P) 0 = Some (MessageType m)" "rd_be16 (H @ P) 2 = Some (of_nat (length P))"
    "rd_be32 (H @ P) 4 = Some kStunMagicCookie" "subbuf (H @ P) 8 20 = Some (TransactionId m)"
    unfolding H_def by (rule header_reads [OF t])+
  have w: "decode_attrs apply_attr (H @ P) 20 (20 + length P) out =
      decode_attrs apply_attr (H @ P) (length (H @ P)) (20 + length P) (apply_attrs as out)" for out
    using decode_attrs_tlvs [of as "H @ P" H "[]" "20 + length P" apply_attr] apply_attr_safe short H unfolding P_def by simp
  have stop: "decode_attrs apply_attr (H @ P) (20 + length P) (20 + length P) out = Some (Some out)" for out
    by (subst decode_attrs.simps) simp
  have "stun_Decode (H @ P) = Some (Some (apply_attrs as
      (StunMessage_default\<lparr>MessageType := MessageType m, TransactionId := TransactionId m\<rparr>)))"
    unfolding stun_Decode_def using u by (simp add: H r w stop flip: P_def)
  then show ?thesis by (simp add: H_def P_def)
qed

lemma stun_Decode_Encode:
  assumes "stun_encodable m"
  shows "stun_Decode (stun_Encode hmac m pw) = Some (Some (apply_attrs (stun_parts hmac m pw)
      (StunMessage_default\<lparr>MessageType := MessageType m, TransactionId := TransactionId m\<rparr>)))"
  unfolding stun_Encode_parts [OF assms]
  by (rule stun_Decode_attrs [OF stun_encodableD(1) [OF assms] stun_parts_lengths [OF assms]
        unat_length_parts [OF assms]])

lemma stun_Decode_fields:
  assumes "stun_encodable m"
  shows "\<exists>mac fp. length mac = 20 \<and> stun_Decode (stun_Encode hmac m password) =
    Some (Some (m\<lparr>MessageIntegrity := if password \<noteq> [] then mac else [],
                 HasFingerprint := True, StunFingerprint := fp\<rparr>))"
proof -
  define A where "A = tlvs (stun_attributes m)"
  define M where "M = mi_attr hmac m password A"
  have p: "stun_parts hmac m password = stun_attributes m @ M @ [fp_attr m (A @ tlvs M)]"
    by (simp add: stun_parts_def A_def M_def Let_def)
  have M: "apply_attrs M m = m\<lparr>MessageIntegrity := if password \<noteq> [] then mi_mac hmac m password A else []\<rparr>"
    using assms unfolding M_def mi_attr_def apply_mi [OF length_mi_mac] by (simp add: stun_encodable_def)
  have "stun_Decode (stun_Encode hmac m password) =
    Some (Some (m\<lparr>MessageIntegrity := if password \<noteq> [] then mi_mac hmac m password A else [],
      HasFingerprint := True, StunFingerprint := Crc32_Compute (stun_header m
        (of_nat (length (A @ tlvs M) + 8)) @ A @ tlvs M) XOR kStunFingerprintMask\<rparr>))"
    unfolding stun_Decode_Encode [OF assms] p apply_attrs_append apply_stun_attributes [OF assms] M apply_fp ..
  then show ?thesis using length_mi_mac by blast
qed

text \<open>
  A STUN message that the agent encodes is decoded by its peer to the same message: type,
  transaction id, username, priority, tie-breakers, the nomination flag and the mapped address; the
  decoder adds the integrity code and the fingerprint it found.
\<close>

theorem stun_roundtrip:
  assumes "stun_encodable m"
  shows "\<exists>mac fp. length mac = 20 \<and> stun_Decode (stun_Encode hmac m password) =
    Some (Some (m\<lparr>MessageIntegrity := if password \<noteq> [] then mac else [],
                 HasFingerprint := True, StunFingerprint := fp\<rparr>))"
  using assms by (rule stun_Decode_fields)

definition stun_example :: StunMessage where
  "stun_example = StunMessage_default\<lparr>MessageType := kStunBindingRequest, Username := ''ab:cd'',
     HasPriority := True, Priority := 0x6E7F1EFF, HasIceControlled := True,
     IceControlledTieBreak := 7, UseCandidate := True\<rparr>"

lemma stun_example_encodable: "stun_encodable stun_example"
  by (simp add: stun_encodable_def stun_example_def StunMessage_default_def)

theorem stun_roundtrip_witness:
  "\<exists>mac fp. length mac = 20 \<and> stun_Decode (stun_Encode (\<lambda>k b i. of_nat i + k ! 0) stun_example ''pw'') =
    Some (Some (stun_example\<lparr>MessageIntegrity := mac, HasFingerprint := True, StunFingerprint := fp\<rparr>))"
  using stun_roundtrip [OF stun_example_encodable, of "\<lambda>k b i. of_nat i + k ! 0" "''pw''"] by simp

text \<open>
  The integrity check of any message that is a header, attributes other than MESSAGE-INTEGRITY, a
  MESSAGE-INTEGRITY over them, and something that may follow.
\<close>

lemma VerifyMessageIntegrity_attrs:
  assumes H: "length H = 20" and r: "rd_be16 bs 2 = Some l"
    and short: "\<forall>a \<in> set as. length (snd a) < 65536 \<and> fst a \<noteq> kStunAttrMessageIntegrity"
    and mac: "mac = fill 20 (hmac (bytes_of_string pw) (WriteU16 (H @ tlvs as) 2 (of_nat (length (tlvs as) + 24))))"
    and bs: "bs = H @ tlvs as @ tlv (kStunAttrMessageIntegrity, mac) @ rest"
    and l: "length (tlvs as) + 24 \<le> unat l"
    and le: "20 + unat l \<le> length bs"
  shows "VerifyMessageIntegrity hmac bs pw = Some True"
proof -
  let ?A = "tlvs as"
  let ?M = "tlv (kStunAttrMessageIntegrity, mac)"
  have lm: "length mac = 20" by (simp add: mac)
  have "length (H @ ?A) \<le> 20 + unat l" using l by (simp add: H)
  then have w: "find_mi bs 20 (20 + unat l) = find_mi bs (20 + length ?A) (20 + unat l)"
    using find_mi_tlvs [of as bs H "?M @ rest" "20 + unat l"] short bs by (simp add: H)
  have b: "bs = (H @ ?A) @ ?M @ rest" using bs by simp
  have "length (snd (kStunAttrMessageIntegrity, mac)) < 65536" by (simp add: lm)
  note tr = tlv_reads [OF this b]
  have tr': "rd_be16 bs (20 + length ?A) = Some kStunAttrMessageIntegrity"
    "rd_be16 bs (20 + length ?A + 2) = Some 20"
    "subbuf bs (20 + length ?A + 4) (20 + length ?A + 24) = Some mac"
    using tr(1,2,4) by (simp_all add: H add.assoc lm)
  have "find_mi bs (20 + length ?A) (20 + unat l) = Some (Some (20 + length ?A))"
    using tr' l by (subst find_mi.simps) simp
  moreover have "subbuf bs 0 (20 + length ?A) = Some (H @ ?A)"
    by (simp add: subbuf_def bs H)
  ultimately show ?thesis
    using w r tr' le H by (simp add: VerifyMessageIntegrity_def Let_def mac)
qed

lemma VerifyMessageIntegrity_prefix:
  assumes m: "stun_encodable m" and pw: "pw \<noteq> []"
    and A: "A = tlvs (stun_attributes m)"
    and bs: "bs = stun_header m l @ A @ tlv (kStunAttrMessageIntegrity, mi_mac hmac m pw A) @ rest"
    and l: "length (A @ tlv (kStunAttrMessageIntegrity, mi_mac hmac m pw A)) \<le> unat l"
    and le: "20 + unat l \<le> length bs"
  shows "VerifyMessageIntegrity hmac bs pw = Some True"
proof (rule VerifyMessageIntegrity_attrs)
  have t: "length (TransactionId m) = 12" using m by (rule stun_encodableD)
  show "length (stun_header m l) = 20" using t by (rule length_stun_header)
  show "rd_be16 bs 2 = Some l" unfolding bs by (rule header_reads [OF t])
  show "bs = stun_header m l @ tlvs (stun_attributes m) @ tlv (kStunAttrMessageIntegrity, mi_mac hmac m pw A) @ rest"
    using bs A by simp
  show "mi_mac hmac m pw A = fill 20 (hmac (bytes_of_string pw)
      (WriteU16 (stun_header m l @ tlvs (stun_attributes m)) 2 (of_nat (length (tlvs (stun_attributes m)) + 24))))"
    unfolding mi_mac_def WriteU16_header A ..
  show "length (tlvs (stun_attributes m)) + 24 \<le> unat l"
    using l by (simp add: A length_tlv attr_advance_def)
  show "\<forall>a \<in> set (stun_attributes m). length (snd a) < 65536 \<and> fst a \<noteq> kStunAttrMessageIntegrity"
    using stun_attributes_lengths [OF m] by auto
qed (rule le)

lemma VerifyFingerprint_Encode:
  assumes "stun_encodable m"
  shows "VerifyFingerprint (stun_Encode hmac m pw) = Some True"
proof -
  have t: "length (TransactionId m) = 12" using assms by (rule stun_encodableD)
  define B where "B = tlvs (stun_attributes m) @ tlvs (mi_attr hmac m pw (tlvs (stun_attributes m)))"
  define H where "H = stun_header m (of_nat (length B + 8))"
  define v where "v = Crc32_Compute (H @ B) XOR kStunFingerprintMask"
  have H: "length H = 20" unfolding H_def using t by (rule length_stun_header)
  have fp: "tlv (fp_attr m B) = be16 kStunAttrFingerprint @ be16 4 @ be32 v"
    by (simp add: tlv_def fp_attr_def v_def H_def)
  have e: "stun_Encode hmac m pw = (H @ B) @ be16 kStunAttrFingerprint @ be16 4 @ be32 v"
    using stun_Encode_eq [OF t refl refl, of hmac pw] unfolding fp [symmetric] by (simp add: B_def H_def)
  have W: "WriteU16 (H @ B) 2 (of_nat (length B) + 8) = H @ B"
    by (simp add: H_def WriteU16_header)
  have len: "length (stun_Encode hmac m pw) = 28 + length B" using e H by simp
  have r: "rd_be16 (stun_Encode hmac m pw) (20 + length B) = Some kStunAttrFingerprint"
    "rd_be16 (stun_Encode hmac m pw) (20 + length B + 2) = Some 4"
    "rd_be32 (stun_Encode hmac m pw) (20 + length B + 4) = Some v"
    "subbuf (stun_Encode hmac m pw) 0 (20 + length B) = Some (H @ B)"
    unfolding e by (simp_all add: H rd_be16_in rd_be32_in nth_append be16_def be32_def subbuf_in)
  have n: "28 + length B - 8 = 20 + length B" "20 + length B - 20 + 8 = length B + 8" by simp_all
  show ?thesis
    unfolding VerifyFingerprint_def len Let_def n r by (simp add: W v_def)
qed

lemma stun_verifies:
  assumes "stun_encodable m" and "password \<noteq> []"
  shows "VerifyMessageIntegrity hmac (stun_Encode hmac m password) password = Some True
    \<and> VerifyFingerprint (stun_Encode hmac m password) = Some True"
proof -
  define A where "A = tlvs (stun_attributes m)"
  define fp where "fp = tlv (fp_attr m (A @ tlvs (mi_attr hmac m password A)))"
  define l where "l = length (tlvs (stun_parts hmac m password))"
  have e: "stun_Encode hmac m password = stun_header m (of_nat l) @ A @
      tlv (kStunAttrMessageIntegrity, mi_mac hmac m password A) @ fp"
    unfolding l_def stun_Encode_parts [OF assms(1)]
    using assms(2) by (simp add: stun_parts_def Let_def A_def fp_def mi_attr_def opt_attr_def)
  have u: "unat (of_nat l :: u16) = l" unfolding l_def using assms(1) by (rule unat_length_parts)
  have l: "l = length (A @ tlv (kStunAttrMessageIntegrity, mi_mac hmac m password A)) + 8"
    unfolding l_def using assms(2)
    by (simp add: stun_parts_def Let_def A_def mi_attr_def opt_attr_def length_tlv_fp)
  have H: "length (stun_header m (of_nat l)) = 20"
    using assms(1) by (intro length_stun_header stun_encodableD)
  have "length fp = 8" by (simp add: fp_def length_tlv_fp)
  then have len: "length (stun_Encode hmac m password) = 20 + l" using e l H by simp
  show ?thesis
    using VerifyMessageIntegrity_prefix [OF assms A_def e] VerifyFingerprint_Encode [OF assms(1)] u l len
    by simp
qed

text \<open>
  The peer that knows the password accepts what the agent encodes: both the
  MESSAGE-INTEGRITY and the FINGERPRINT of an encoded message verify.
\<close>

theorem stun_encoded_verifies:
  assumes "stun_encodable m" and "password \<noteq> []"
  shows "VerifyMessageIntegrity hmac (stun_Encode hmac m password) password = Some True
    \<and> VerifyFingerprint (stun_Encode hmac m password) = Some True"
  using assms by (rule stun_verifies)

theorem stun_encoded_verifies_witness:
  "VerifyMessageIntegrity (\<lambda>k b i. of_nat i + k ! 0)
     (stun_Encode (\<lambda>k b i. of_nat i + k ! 0) stun_example ''pw'') ''pw'' = Some True"
  using stun_encoded_verifies [OF stun_example_encodable, of "''pw''" "\<lambda>k b i. of_nat i + k ! 0"] by simp


section \<open>What MESSAGE-INTEGRITY does not cover\<close>

text \<open>
  Someone on the path who does not know the password: takes the FINGERPRINT off a datagram and puts
  USE-CANDIDATE in its place, with the length field adjusted.
\<close>

definition nominate_on_path :: "bytes \<Rightarrow> bytes" where
  "nominate_on_path bs =
     (let body = take (length bs - 8) bs @ be16 kStunAttrUseCandidate @ be16 0
      in WriteU16 body 2 (of_nat (length body - 20)))"

lemma nominate_on_path_accepted:
  assumes "stun_encodable m" and "password \<noteq> []"
  shows "\<exists>mac. VerifyMessageIntegrity hmac (nominate_on_path (stun_Encode hmac m password)) password = Some True
    \<and> stun_Decode (nominate_on_path (stun_Encode hmac m password)) =
        Some (Some (m\<lparr>MessageIntegrity := mac, UseCandidate := True\<rparr>))"
proof -
  define A where "A = tlvs (stun_attributes m)"
  define mi where "mi = (kStunAttrMessageIntegrity, mi_mac hmac m password A)"
  define uc where "uc = (kStunAttrUseCandidate, [] :: bytes)"
  define as where "as = stun_attributes m @ [mi, uc]"
  define l where "l = length (tlvs as)"
  define F where "F = stun_header m (of_nat l) @ tlvs as"
  have t: "length (TransactionId m) = 12" using assms(1) by (rule stun_encodableD)
  have H: "length (stun_header m w) = 20" for w using t by (rule length_stun_header)
  have muc: "tlv uc = be16 kStunAttrUseCandidate @ be16 0" by (simp add: uc_def tlv_def)
  have mi24: "length (tlv mi) = 24" by (simp add: mi_def length_tlv attr_advance_def)
  have l: "l = length A + 28" by (simp add: l_def as_def A_def mi24 muc)
  have "l < 65536" using length_stun_attributes [OF assms(1)] by (simp add: l A_def)
  then have u: "unat (of_nat l :: u16) = l" by (simp add: unat_of_nat take_bit_nat_eq_self)
  obtain w fp where e: "stun_Encode hmac m password = stun_header m w @ A @ tlv mi @ fp" and fp: "length fp = 8"
    using stun_Encode_eq [OF t refl refl, of hmac password] assms(2)
    by (simp add: A_def mi_def mi_attr_def opt_attr_def length_tlv_fp that)
  have F: "nominate_on_path (stun_Encode hmac m password) = F"
  proof -
    have "take (length (stun_Encode hmac m password) - 8) (stun_Encode hmac m password)
        = stun_header m w @ A @ tlv mi" using fp by (simp add: e)
    then have "nominate_on_path (stun_Encode hmac m password) =
        WriteU16 (stun_header m w @ tlvs as) 2 (of_nat l)"
      unfolding nominate_on_path_def Let_def muc [symmetric] by (simp add: as_def A_def l_def H)
    then show ?thesis by (simp add: F_def WriteU16_header)
  qed
  have mac: "VerifyMessageIntegrity hmac F password = Some True"
  proof (rule VerifyMessageIntegrity_prefix [OF assms A_def])
    show "F = stun_header m (of_nat l) @ A @ tlv (kStunAttrMessageIntegrity, mi_mac hmac m password A) @ tlv uc"
      by (simp add: F_def as_def A_def mi_def)
  qed (use u l mi24 H in \<open>simp_all add: mi_def F_def l_def\<close>)
  have short: "\<forall>a \<in> set as. length (snd a) < 65536"
    using stun_attributes_lengths [OF assms(1)] by (auto simp: as_def mi_def uc_def)
  have "stun_Decode F = Some (Some (apply_attrs as
      (StunMessage_default\<lparr>MessageType := MessageType m, TransactionId := TransactionId m\<rparr>)))"
    unfolding F_def l_def by (rule stun_Decode_attrs [OF t short]) (use u in \<open>simp add: l_def\<close>)
  also have "\<dots> = Some (Some (m\<lparr>MessageIntegrity := mi_mac hmac m password A, UseCandidate := True\<rparr>))"
    unfolding as_def apply_attrs_append apply_stun_attributes [OF assms(1)]
    by (simp add: apply_all_def mi_def uc_def apply_attr_def stun_attrs)
  finally show ?thesis using mac F by auto
qed

text \<open>
  The integrity check does not protect the nomination flag. From any datagram the agent
  encodes with a password, anyone on the path makes, without the password, a datagram that still
  passes the MESSAGE-INTEGRITY check and decodes to the same message with USE-CANDIDATE set: the
  decoder applies the attributes that follow MESSAGE-INTEGRITY, which the code covers nothing of.
\<close>

theorem stun_nomination_not_protected:
  assumes "stun_encodable m" and "password \<noteq> []"
  shows "\<exists>mac. VerifyMessageIntegrity hmac (nominate_on_path (stun_Encode hmac m password)) password = Some True
    \<and> stun_Decode (nominate_on_path (stun_Encode hmac m password)) =
        Some (Some (m\<lparr>MessageIntegrity := mac, UseCandidate := True\<rparr>))"
  using assms by (rule nominate_on_path_accepted)

theorem stun_nomination_not_protected_witness:
  "\<exists>mac. stun_Decode (nominate_on_path (stun_Encode (\<lambda>k b i. of_nat i + k ! 0) stun_example ''pw'')) =
     Some (Some (stun_example\<lparr>MessageIntegrity := mac, UseCandidate := True\<rparr>))"
  using stun_nomination_not_protected [OF stun_example_encodable, of "''pw''" "\<lambda>k b i. of_nat i + k ! 0"]
  by auto

end
