(* ===== verification/IceCandidate.thy ===== *)
theory IceCandidate
  imports Decimal
begin

text \<open>
  ICE candidates and their SDP lines: \<open>domain/ice_candidate.h\<close> and \<open>domain/ice_candidate.cpp\<close>,
  reader and writer, and the proof that a written candidate is read back.
\<close>

section \<open>Candidates\<close>

datatype IceCandidateType =
    IceCandidateType_Host
  | IceCandidateType_Srflx
  | IceCandidateType_Prflx
  | IceCandidateType_Relay
  | IceCandidateType_Unknown

record ParsedIceCandidate =
  Foundation :: string
  ComponentId :: int
  Transport :: string
  CandPriority :: u32
  Ip :: string
  Port :: int
  Type :: IceCandidateType
  Ufrag :: string
  NetworkId :: int
  NetworkCost :: int
  Generation :: int
  RelatedAddress :: string
  RelatedPort :: int

definition ParsedIceCandidate_default :: ParsedIceCandidate where
  "ParsedIceCandidate_default = \<lparr>Foundation = [], ComponentId = 0, Transport = [],
     CandPriority = 0, Ip = [], Port = 0, Type = IceCandidateType_Unknown, Ufrag = [], NetworkId = 0,
     NetworkCost = 0, Generation = 0, RelatedAddress = [], RelatedPort = 0\<rparr>"


section \<open>Reading\<close>

definition trim_char :: "char \<Rightarrow> bool" where
  "trim_char c \<longleftrightarrow> c = CHR '' '' \<or> c = CHR 0x09 \<or> c = CHR 0x0D \<or> c = CHR 0x0A"

definition Trim :: "string \<Rightarrow> string" where
  "Trim s = rev (dropWhile trim_char (rev (dropWhile trim_char s)))"

fun split_go :: "string \<Rightarrow> string \<Rightarrow> string list" where
  "split_go cur [] = (if cur = [] then [] else [cur])"
| "split_go cur (c # s) =
     (if c = CHR '' '' \<or> c = CHR 0x09
      then (if cur = [] then split_go [] s else cur # split_go [] s)
      else split_go (cur @ [c]) s)"

definition SplitSpaces :: "string \<Rightarrow> string list" where
  "SplitSpaces s = split_go [] s"

text \<open>\<^const>\<open>None\<close> is the return of false, which leaves the output as it was.\<close>

definition cand_ParseInt :: "string \<Rightarrow> int option" where
  "cand_ParseInt s =
     (if s = [] then None
      else (case strtol (c_str s) of (v, endp) \<Rightarrow> if endp = [] then Some v else None))"

definition cand_ParseU32 :: "string \<Rightarrow> u32 option" where
  "cand_ParseU32 s =
     (if s = [] then None
      else (case strtoul (c_str s) of (v, endp) \<Rightarrow> if endp = [] then Some v else None))"

fun TypeToString :: "IceCandidateType \<Rightarrow> string" where
  "TypeToString IceCandidateType_Host = ''host''"
| "TypeToString IceCandidateType_Srflx = ''srflx''"
| "TypeToString IceCandidateType_Prflx = ''prflx''"
| "TypeToString IceCandidateType_Relay = ''relay''"
| "TypeToString IceCandidateType_Unknown = ''host''"

definition TypeFromString :: "string \<Rightarrow> IceCandidateType" where
  "TypeFromString s =
     (if s = ''host'' then IceCandidateType_Host
      else if s = ''srflx'' then IceCandidateType_Srflx
      else if s = ''prflx'' then IceCandidateType_Prflx
      else if s = ''relay'' then IceCandidateType_Relay
      else IceCandidateType_Unknown)"

definition keep :: "'a option \<Rightarrow> 'a \<Rightarrow> 'a" where
  "keep r old = (case r of None \<Rightarrow> old | Some v \<Rightarrow> v)"

definition cand_extension :: "string \<Rightarrow> string \<Rightarrow> ParsedIceCandidate \<Rightarrow> ParsedIceCandidate" where
  "cand_extension k v out =
     (if k = ''raddr'' then out\<lparr>RelatedAddress := v\<rparr>
      else if k = ''rport'' then out\<lparr>RelatedPort := keep (cand_ParseInt v) (RelatedPort out)\<rparr>
      else if k = ''generation'' then out\<lparr>Generation := keep (cand_ParseInt v) (Generation out)\<rparr>
      else if k = ''ufrag'' then out\<lparr>Ufrag := v\<rparr>
      else if k = ''network-id'' then out\<lparr>NetworkId := keep (cand_ParseInt v) (NetworkId out)\<rparr>
      else if k = ''network-cost'' then out\<lparr>NetworkCost := keep (cand_ParseInt v) (NetworkCost out)\<rparr>
      else out)"

fun cand_extensions :: "string list \<Rightarrow> ParsedIceCandidate \<Rightarrow> ParsedIceCandidate" where
  "cand_extensions (k # v # tok) out = cand_extensions tok (cand_extension k v out)"
| "cand_extensions _ out = out"

definition strip_prefixes :: "string \<Rightarrow> string" where
  "strip_prefixes line =
     (let line = (if length line \<ge> 2 \<and> line ! 0 = CHR ''a'' \<and> line ! 1 = CHR ''='' then drop 2 line else line)
      in if take 10 line = ''candidate:'' then drop 10 line else line)"

definition cand_Parse :: "string \<Rightarrow> ParsedIceCandidate option" where
  "cand_Parse sdpLine =
     (let line = Trim sdpLine in
      if line = [] then None
      else
        (let tok = SplitSpaces (strip_prefixes line) in
         if length tok < 8 then None
         else do {
           comp \<leftarrow> cand_ParseInt (tok ! 1);
           prio \<leftarrow> cand_ParseU32 (tok ! 3);
           port \<leftarrow> cand_ParseInt (tok ! 5);
           if tok ! 6 \<noteq> ''typ'' then None
           else if TypeFromString (tok ! 7) = IceCandidateType_Unknown then None
           else Some (cand_extensions (drop 8 tok) (ParsedIceCandidate_default\<lparr>
                  Foundation := tok ! 0, ComponentId := comp, Transport := tok ! 2,
                  CandPriority := prio, Ip := tok ! 4, Port := port,
                  Type := TypeFromString (tok ! 7)\<rparr>))
         }))"


section \<open>Writing\<close>

definition cand_Format :: "ParsedIceCandidate \<Rightarrow> string" where
  "cand_Format c =
     ''candidate:'' @ Foundation c
     @ '' '' @ show_int (ComponentId c)
     @ '' '' @ (if Transport c = [] then ''udp'' else Transport c)
     @ '' '' @ show_nat (unat (CandPriority c))
     @ '' '' @ Ip c
     @ '' '' @ show_int (Port c)
     @ '' typ '' @ TypeToString (Type c)
     @ (if RelatedAddress c \<noteq> [] then '' raddr '' @ RelatedAddress c @ '' rport '' @ show_int (RelatedPort c) else [])
     @ '' generation '' @ show_int (Generation c)
     @ (if Ufrag c \<noteq> [] then '' ufrag '' @ Ufrag c else [])
     @ (if NetworkId c > 0 then '' network-id '' @ show_int (NetworkId c) else [])
     @ (if NetworkCost c > 0 then '' network-cost '' @ show_int (NetworkCost c) else [])"


section \<open>Lines as lists of tokens\<close>

definition token :: "string \<Rightarrow> bool" where
  "token t \<longleftrightarrow> t \<noteq> [] \<and> (\<forall>c \<in> set t. \<not> trim_char c)"

text \<open>Every token with a space before it.\<close>

definition spaced :: "string list \<Rightarrow> string" where
  "spaced ts = concat (map (\<lambda>t. CHR '' '' # t) ts)"

lemma spaced_simps [simp]:
  "spaced [] = []" "spaced (t # ts) = CHR '' '' # t @ spaced ts" "spaced (ts @ us) = spaced ts @ spaced us"
  by (simp_all add: spaced_def)

lemma split_go_token:
  "\<forall>c \<in> set t. \<not> trim_char c \<Longrightarrow> split_go cur (t @ s) = split_go (cur @ t) s"
  by (induction t arbitrary: cur) (auto simp: trim_char_def)

lemma split_go_spaced: "\<forall>t \<in> set ts. token t \<Longrightarrow> cur \<noteq> [] \<Longrightarrow> split_go cur (spaced ts) = cur # ts"
proof (induction ts arbitrary: cur)
  case (Cons t ts)
  then have "split_go [] (t @ spaced ts) = split_go t (spaced ts)"
    using split_go_token [of t "[]" "spaced ts"] by (simp add: token_def)
  also have "\<dots> = t # ts" using Cons by (simp add: token_def)
  finally show ?case using Cons.prems(2) by simp
qed simp

lemma SplitSpaces_line:
  "token t \<Longrightarrow> \<forall>t \<in> set ts. token t \<Longrightarrow> SplitSpaces (t @ spaced ts) = t # ts"
  using split_go_token [of t "[]" "spaced ts"] split_go_spaced [of ts t]
  by (simp add: SplitSpaces_def token_def)

lemma Trim_id:
  assumes "s \<noteq> []" "\<not> trim_char (hd s)" "\<not> trim_char (last s)"
  shows "Trim s = s"
proof -
  have "dropWhile trim_char s = s" using assms by (cases s) auto
  moreover have "dropWhile trim_char (rev s) = rev s"
    using assms by (cases "rev s") (auto simp: hd_rev [symmetric] simp del: hd_rev)
  ultimately show ?thesis by (simp add: Trim_def)
qed

lemma last_spaced:
  "\<forall>t \<in> set ts. token t \<Longrightarrow> ts \<noteq> [] \<Longrightarrow> \<not> trim_char (last (spaced ts))"
proof (induction ts rule: rev_induct)
  case (snoc t ts)
  then show ?case by (simp add: token_def)
qed simp

lemma token_show_int: "token (show_int i)"
  using show_int_chars [of _ i] digit_not_sign
  by (fastforce simp: token_def trim_char_def is_space_def)

lemma token_show_nat: "token (show_nat n)"
  using show_nat_digits [of _ n] digit_not_sign
  by (fastforce simp: token_def trim_char_def is_space_def)

lemma c_str_show_int [simp]: "c_str (show_int i) = show_int i"
  using show_int_chars [of _ i] digit_not_sign unfolding c_str_def
  by (intro takeWhile_eq_all_conv [THEN iffD2]) fastforce

lemma c_str_show_nat [simp]: "c_str (show_nat n) = show_nat n"
  using show_nat_digits [of _ n] digit_not_sign unfolding c_str_def
  by (intro takeWhile_eq_all_conv [THEN iffD2]) fastforce

definition int32 :: "int \<Rightarrow> bool" where
  "int32 i \<longleftrightarrow> - (2 ^ 31) \<le> i \<and> i < 2 ^ 31"

lemma cand_ParseInt_show: "int32 i \<Longrightarrow> cand_ParseInt (show_int i) = Some i"
  using strtol_show_int [of i "[]"] by (simp add: cand_ParseInt_def int32_def)

lemma cand_ParseU32_show: "cand_ParseU32 (show_nat (unat v)) = Some v"
  using strtoul_show_nat [of "[]" v] by (simp add: cand_ParseU32_def)

lemma TypeFromString_ToString:
  "t \<noteq> IceCandidateType_Unknown \<Longrightarrow> TypeFromString (TypeToString t) = t"
  by (cases t) (simp_all add: TypeFromString_def)

lemma token_TypeToString: "token (TypeToString t)"
  by (cases t) (simp_all add: token_def trim_char_def)


section \<open>What is written is read back\<close>

definition opt_tokens :: "bool \<Rightarrow> string list \<Rightarrow> string list" where
  "opt_tokens c ts = (if c then ts else [])"

definition cand_extension_tokens :: "ParsedIceCandidate \<Rightarrow> string list" where
  "cand_extension_tokens c =
     opt_tokens (RelatedAddress c \<noteq> []) [''raddr'', RelatedAddress c, ''rport'', show_int (RelatedPort c)] @
     [''generation'', show_int (Generation c)] @
     opt_tokens (Ufrag c \<noteq> []) [''ufrag'', Ufrag c] @
     opt_tokens (NetworkId c > 0) [''network-id'', show_int (NetworkId c)] @
     opt_tokens (NetworkCost c > 0) [''network-cost'', show_int (NetworkCost c)]"

definition cand_tokens :: "ParsedIceCandidate \<Rightarrow> string list" where
  "cand_tokens c =
     [show_int (ComponentId c), if Transport c = [] then ''udp'' else Transport c,
      show_nat (unat (CandPriority c)), Ip c, show_int (Port c), ''typ'', TypeToString (Type c)] @
     cand_extension_tokens c"

text \<open>Candidates whose texts are single tokens and whose numbers fit an \<open>int\<close>.\<close>

definition cand_writable :: "ParsedIceCandidate \<Rightarrow> bool" where
  "cand_writable c \<longleftrightarrow>
     token (Foundation c) \<and> (Transport c = [] \<or> token (Transport c)) \<and> token (Ip c)
     \<and> (Ufrag c = [] \<or> token (Ufrag c)) \<and> (if RelatedAddress c = [] then RelatedPort c = 0 else token (RelatedAddress c))
     \<and> int32 (ComponentId c) \<and> int32 (Port c) \<and> int32 (Generation c) \<and> int32 (RelatedPort c)
     \<and> int32 (NetworkId c) \<and> 0 \<le> NetworkId c \<and> int32 (NetworkCost c) \<and> 0 \<le> NetworkCost c
     \<and> Type c \<noteq> IceCandidateType_Unknown"

lemma cand_writableD:
  assumes "cand_writable c"
  shows "token (Foundation c)" "Transport c \<noteq> [] \<Longrightarrow> token (Transport c)" "token (Ip c)"
    "Ufrag c \<noteq> [] \<Longrightarrow> token (Ufrag c)" "RelatedAddress c \<noteq> [] \<Longrightarrow> token (RelatedAddress c)"
    "RelatedAddress c = [] \<Longrightarrow> RelatedPort c = 0"
    "int32 (ComponentId c)" "int32 (Port c)" "int32 (Generation c)" "int32 (RelatedPort c)"
    "int32 (NetworkId c)" "0 \<le> NetworkId c" "int32 (NetworkCost c)" "0 \<le> NetworkCost c"
    "Type c \<noteq> IceCandidateType_Unknown"
  using assms unfolding cand_writable_def by argo+

lemma cand_Format_tokens: "cand_Format c = ''candidate:'' @ Foundation c @ spaced (cand_tokens c)"
  unfolding cand_Format_def cand_tokens_def cand_extension_tokens_def spaced_simps opt_tokens_def
  by simp

lemma token_literals:
  "token ''udp''" "token ''typ''" "token ''raddr''" "token ''rport''" "token ''generation''"
  "token ''ufrag''" "token ''network-id''" "token ''network-cost''"
  by (simp_all add: token_def trim_char_def)

lemma cand_tokens_token: "cand_writable c \<Longrightarrow> \<forall>t \<in> set (cand_tokens c). token t"
  using cand_writableD(2-5) [of c]
  by (auto simp: cand_tokens_def cand_extension_tokens_def opt_tokens_def token_literals
      token_show_int token_show_nat token_TypeToString)

lemma cand_extensions_append:
  "even (length ts) \<Longrightarrow> cand_extensions (ts @ us) out = cand_extensions us (cand_extensions ts out)"
  by (induction ts out rule: cand_extensions.induct) auto

lemma even_opt: "even (length ts) \<Longrightarrow> even (length (opt_tokens c ts))"
  by (simp add: opt_tokens_def)

lemma cand_extensions_opt:
  "cand_extensions (opt_tokens c ts) out = (if c then cand_extensions ts out else out)"
  by (simp add: opt_tokens_def)

lemma cand_extensions_tokens:
  assumes "cand_writable c"
  shows "cand_extensions (cand_extension_tokens c) out = out\<lparr>
     RelatedAddress := if RelatedAddress c \<noteq> [] then RelatedAddress c else RelatedAddress out,
     RelatedPort := if RelatedAddress c \<noteq> [] then RelatedPort c else RelatedPort out,
     Generation := Generation c,
     Ufrag := if Ufrag c \<noteq> [] then Ufrag c else Ufrag out,
     NetworkId := if NetworkId c > 0 then NetworkId c else NetworkId out,
     NetworkCost := if NetworkCost c > 0 then NetworkCost c else NetworkCost out\<rparr>"
  using cand_writableD(9,10,11,13) [OF assms]
  unfolding cand_extension_tokens_def
  by (simp add: cand_extensions_append even_opt cand_extensions_opt cand_extension_def keep_def
      cand_ParseInt_show)

text \<open>
  A candidate the client announces is understood by its peer: reading the SDP line written
  for a candidate gives back all of its fields (an empty transport is written, and read, as
  \<open>udp\<close>).
\<close>

theorem candidate_roundtrip:
  assumes "cand_writable c"
  shows "cand_Parse (cand_Format c) = Some (c\<lparr>Transport := if Transport c = [] then ''udp'' else Transport c\<rparr>)"
proof -
  let ?ts = "cand_tokens c"
  note w = cand_writableD [OF assms]
  have tok: "\<forall>t \<in> set ?ts. token t" using assms by (rule cand_tokens_token)
  have ne: "?ts \<noteq> []" by (simp add: cand_tokens_def)
  have f: "Foundation c @ spaced ?ts \<noteq> []" using w(1) by (simp add: token_def)
  have "Trim (cand_Format c) = cand_Format c"
  proof (rule Trim_id)
    have "last (cand_Format c) = last (spaced ?ts)"
      using ne by (cases ?ts) (simp_all add: cand_Format_tokens)
    then show "\<not> trim_char (last (cand_Format c))" using last_spaced [OF tok ne] by simp
  qed (simp_all add: cand_Format_tokens trim_char_def)
  moreover have "strip_prefixes (cand_Format c) = Foundation c @ spaced ?ts"
    by (simp add: strip_prefixes_def cand_Format_tokens)
  moreover have "SplitSpaces (Foundation c @ spaced ?ts) = Foundation c # ?ts"
    using w(1) tok by (rule SplitSpaces_line)
  ultimately have "cand_Parse (cand_Format c) =
      Some (cand_extensions (cand_extension_tokens c) (ParsedIceCandidate_default\<lparr>
        Foundation := Foundation c, ComponentId := ComponentId c,
        Transport := if Transport c = [] then ''udp'' else Transport c, CandPriority := CandPriority c,
        Ip := Ip c, Port := Port c, Type := Type c\<rparr>))"
    using w(7,8,15)
    by (simp add: cand_Parse_def cand_tokens_def cand_ParseInt_show cand_ParseU32_show
        TypeFromString_ToString cand_Format_tokens)
  also have "\<dots> = Some (c\<lparr>Transport := if Transport c = [] then ''udp'' else Transport c\<rparr>)"
    unfolding cand_extensions_tokens [OF assms]
    using w(6,12,14) by (intro arg_cong [of _ _ Some] ParsedIceCandidate.equality)
      (simp_all add: ParsedIceCandidate_default_def)
  finally show ?thesis .
qed

definition cand_example :: ParsedIceCandidate where
  "cand_example = \<lparr>Foundation = ''rl1'', ComponentId = 1, Transport = ''udp'', CandPriority = 16776961,
     Ip = ''10.0.0.1'', Port = 443, Type = IceCandidateType_Relay, Ufrag = ''ab'', NetworkId = 1,
     NetworkCost = 50, Generation = 0, RelatedAddress = [], RelatedPort = 0\<rparr>"

lemma digit_chars:
  "char_of (48 :: nat) = CHR ''0''" "char_of (49 :: nat) = CHR ''1''" "char_of (50 :: nat) = CHR ''2''"
  "char_of (51 :: nat) = CHR ''3''" "char_of (52 :: nat) = CHR ''4''" "char_of (53 :: nat) = CHR ''5''"
  "char_of (54 :: nat) = CHR ''6''" "char_of (55 :: nat) = CHR ''7''" "char_of (56 :: nat) = CHR ''8''"
  "char_of (57 :: nat) = CHR ''9''"
  by code_simp+

lemma cand_example_line:
  "cand_Format cand_example =
     ''candidate:rl1 1 udp 16776961 10.0.0.1 443 typ relay generation 0 ufrag ab network-id 1 network-cost 50''"
  by (simp add: cand_Format_def cand_example_def show_int_def show_nat.simps digit_char_def digit_chars)

theorem candidate_roundtrip_witness:
  "cand_Parse ''candidate:rl1 1 udp 16776961 10.0.0.1 443 typ relay generation 0 ufrag ab network-id 1 network-cost 50''
     = Some cand_example"
proof -
  have "cand_writable cand_example"
    by (simp add: cand_writable_def cand_example_def token_def trim_char_def int32_def)
  from candidate_roundtrip [OF this] show ?thesis
    unfolding cand_example_line by (simp add: cand_example_def)
qed

end
