(* ===== verification/IceAgent.thy ===== *)
theory IceAgent
  imports Stun IceCandidate
begin

text \<open>
  The ICE connectivity-check controller, \<open>application/ice_agent.h\<close> and \<open>ice_agent.cpp\<close>: the list
  of candidate pairs, the binding requests it sends, what it makes of an incoming STUN datagram and
  how a pair becomes the selected one. HMAC-SHA1 is a parameter (\<open>hmac\<close>); the bytes of one call of
  the platform's random generator are an argument. A pointer into \<open>m_pairs\<close> is an index.
\<close>

unbundle bit_operations_syntax

section \<open>State\<close>

datatype IceAgentRole = IceAgentRole_Controlling | IceAgentRole_Controlled

text \<open>\<open>IceCheckTarget\<close>: the address and the port.\<close>

type_synonym IceCheckTarget = "string \<times> int"

record Pair =
  Target :: IceCheckTarget
  Succeeded :: bool
  UseCandidateSent :: bool

record IceAgent =
  m_role :: IceAgentRole
  m_localUfrag :: string
  m_localPwd :: string
  m_remoteUfrag :: string
  m_remotePwd :: string
  m_tieBreak :: u64
  m_priorityCounter :: u32
  m_remoteCandidates :: "ParsedIceCandidate list"
  m_checkTargets :: "IceCheckTarget list"
  m_pairs :: "Pair list"
  m_connected :: bool
  m_selected :: IceCheckTarget

datatype ProcessResult =
    ProcessResult_Other
  | ProcessResult_BindingRequestProcessed
  | ProcessResult_BindingResponseProcessed
  | ProcessResult_ConnectivityEstablished

definition MakePriority :: "u32 \<Rightarrow> u32 \<Rightarrow> u32 \<Rightarrow> u32" where
  "MakePriority typePref localPref componentId =
     push_bit 24 typePref OR push_bit 8 localPref OR (256 - componentId)"

text \<open>\<open>arr\<close> is the array the platform returns for \<open>n\<close> random bytes.\<close>

definition RandomBytes :: "nat \<Rightarrow> bytes \<Rightarrow> bytes" where
  "RandomBytes n arr = (if length arr > 0 then arr else replicate n 0)"

definition RandomTransactionId :: "bytes \<Rightarrow> bytes" where
  "RandomTransactionId arr =
     (let r = RandomBytes 12 arr in if length r = 12 then r else replicate 12 0)"

definition IceAgent_new :: "IceAgentRole \<Rightarrow> string \<Rightarrow> string \<Rightarrow> string \<Rightarrow> string \<Rightarrow> bytes \<Rightarrow> IceAgent" where
  "IceAgent_new role localUfrag localPwd remoteUfrag remotePwd arr =
     \<lparr>m_role = role, m_localUfrag = localUfrag, m_localPwd = localPwd,
      m_remoteUfrag = remoteUfrag, m_remotePwd = remotePwd,
      m_tieBreak = fold (\<lambda>b t. push_bit 8 t OR ucast b) (RandomBytes 8 arr) 0,
      m_priorityCounter = 0, m_remoteCandidates = [], m_checkTargets = [], m_pairs = [],
      m_connected = False, m_selected = ([], 0)\<rparr>"


section \<open>Operations\<close>

fun FindPair :: "Pair list \<Rightarrow> string \<Rightarrow> int \<Rightarrow> nat option" where
  "FindPair [] ip port = None"
| "FindPair (p # ps) ip port =
     (if fst (Target p) = ip \<and> snd (Target p) = port then Some 0
      else map_option Suc (FindPair ps ip port))"

definition AddRemoteCandidate :: "ParsedIceCandidate \<Rightarrow> IceAgent \<Rightarrow> IceAgent" where
  "AddRemoteCandidate c s =
     (let s = s\<lparr>m_remoteCandidates := m_remoteCandidates s @ [c]\<rparr> in
      if FindPair (m_pairs s) (Ip c) (Port c) = None
      then s\<lparr>m_checkTargets := m_checkTargets s @ [(Ip c, Port c)],
             m_pairs := m_pairs s @ [\<lparr>Target = (Ip c, Port c), Succeeded = False, UseCandidateSent = False\<rparr>]\<rparr>
      else s)"

text \<open>The loop over the reflectors, with the counter and the local preference it carries.\<close>

fun local_candidates :: "string \<Rightarrow> int \<Rightarrow> u32 \<Rightarrow> u32 \<Rightarrow> string list \<Rightarrow> u32 \<times> ParsedIceCandidate list" where
  "local_candidates ufrag port counter lp [] = (counter, [])"
| "local_candidates ufrag port counter lp (ip # ips) =
     (let counter = counter + 1;
          c = ParsedIceCandidate_default\<lparr>
                Foundation := ''rl'' @ show_nat (unat counter), ComponentId := 1, Transport := ''udp'',
                CandPriority := MakePriority 0 lp 1, Ip := ip, Port := port,
                Type := IceCandidateType_Relay, Ufrag := ufrag, NetworkId := 1, NetworkCost := 50,
                Generation := 0\<rparr>;
          (counter', cs) = local_candidates ufrag port counter (if lp > 1024 then lp - 1024 else 1) ips
      in (counter', c # cs))"

definition GenerateLocalCandidates ::
    "string list \<Rightarrow> int \<Rightarrow> IceAgent \<Rightarrow> ParsedIceCandidate list \<times> IceAgent" where
  "GenerateLocalCandidates reflectorIps reflectorPort s =
     (case local_candidates (m_localUfrag s) reflectorPort (m_priorityCounter s) 65535 reflectorIps of
        (counter, cs) \<Rightarrow> (cs, s\<lparr>m_priorityCounter := counter\<rparr>))"

definition request_message :: "IceAgent \<Rightarrow> bytes \<Rightarrow> bool \<Rightarrow> StunMessage" where
  "request_message s arr useCandidate =
     (let msg = StunMessage_default\<lparr>MessageType := kStunBindingRequest,
                  TransactionId := RandomTransactionId arr,
                  Username := m_remoteUfrag s @ '':'' @ m_localUfrag s,
                  HasPriority := True, Priority := MakePriority 110 65535 1\<rparr>;
          msg = (if m_role s = IceAgentRole_Controlling
                 then msg\<lparr>HasIceControlling := True, IceControllingTieBreak := m_tieBreak s\<rparr>
                 else msg\<lparr>HasIceControlled := True, IceControlledTieBreak := m_tieBreak s\<rparr>)
      in msg\<lparr>UseCandidate := useCandidate\<rparr>)"

definition BuildBindingRequest :: "mac_fn \<Rightarrow> IceAgent \<Rightarrow> bytes \<Rightarrow> bool \<Rightarrow> bytes" where
  "BuildBindingRequest hmac s arr useCandidate =
     stun_Encode hmac (request_message s arr useCandidate) (m_remotePwd s)"

text \<open>The loop over the pairs; \<open>rnd i\<close> is the random array of the request for pair \<open>i\<close>.\<close>

fun binding_requests ::
    "mac_fn \<Rightarrow> IceAgent \<Rightarrow> (nat \<Rightarrow> bytes) \<Rightarrow> nat \<Rightarrow> Pair list \<Rightarrow> (IceCheckTarget \<times> bytes) list \<times> Pair list" where
  "binding_requests hmac s rnd i [] = ([], [])"
| "binding_requests hmac s rnd i (p # ps) =
     (let useCandidate = (m_role s = IceAgentRole_Controlling \<and> Succeeded p \<and> \<not> UseCandidateSent p);
          bs = BuildBindingRequest hmac s (rnd i) useCandidate;
          p' = (if useCandidate then p\<lparr>UseCandidateSent := True\<rparr> else p);
          (out, ps') = binding_requests hmac s rnd (Suc i) ps
      in ((Target p, bs) # out, p' # ps'))"

definition GetBindingRequestsToSend ::
    "mac_fn \<Rightarrow> (nat \<Rightarrow> bytes) \<Rightarrow> IceAgent \<Rightarrow> (IceCheckTarget \<times> bytes) list \<times> IceAgent" where
  "GetBindingRequestsToSend hmac rnd s =
     (case binding_requests hmac s rnd 0 (m_pairs s) of (out, ps) \<Rightarrow> (out, s\<lparr>m_pairs := ps\<rparr>))"

text \<open>\<open>sscanf(srcIp.c_str(), "%u.%u.%u.%u", ...) == 4\<close> with the range check that follows.\<close>

definition dotted_quad :: "string \<Rightarrow> bytes option" where
  "dotted_quad ip =
     do {
       (b0, r) \<leftarrow> scan_u (c_str ip);
       r \<leftarrow> scan_lit (CHR ''.'') r;
       (b1, r) \<leftarrow> scan_u r;
       r \<leftarrow> scan_lit (CHR ''.'') r;
       (b2, r) \<leftarrow> scan_u r;
       r \<leftarrow> scan_lit (CHR ''.'') r;
       (b3, r) \<leftarrow> scan_u r;
       if b0 < 256 \<and> b1 < 256 \<and> b2 < 256 \<and> b3 < 256
       then Some [of_int b0, of_int b1, of_int b2, of_int b3] else None
     }"

definition response_message :: "StunMessage \<Rightarrow> string \<Rightarrow> int \<Rightarrow> StunMessage" where
  "response_message req srcIp srcPort =
     (let resp = StunMessage_default\<lparr>MessageType := kStunBindingResponse,
                   TransactionId := TransactionId req\<rparr>
      in case dotted_quad srcIp of
           None \<Rightarrow> resp
         | Some b \<Rightarrow> resp\<lparr>HasMappedAddress := True, MappedFamily := 0x01,
                           MappedAddress := b @ drop 4 (MappedAddress resp),
                           MappedPort := of_int srcPort\<rparr>)"

definition BuildBindingResponse :: "mac_fn \<Rightarrow> IceAgent \<Rightarrow> StunMessage \<Rightarrow> string \<Rightarrow> int \<Rightarrow> bytes" where
  "BuildBindingResponse hmac s req srcIp srcPort =
     stun_Encode hmac (response_message req srcIp srcPort) (m_localPwd s)"

definition set_succeeded :: "nat \<Rightarrow> IceAgent \<Rightarrow> IceAgent" where
  "set_succeeded i s = s\<lparr>m_pairs := (m_pairs s)[i := (m_pairs s ! i)\<lparr>Succeeded := True\<rparr>]\<rparr>"

definition select_pair :: "nat \<Rightarrow> IceAgent \<Rightarrow> IceAgent" where
  "select_pair i s = s\<lparr>m_connected := True, m_selected := Target (m_pairs s ! i)\<rparr>"

text \<open>The result, the response to send (empty: none) and the new state.\<close>

definition ProcessIncoming ::
    "mac_fn \<Rightarrow> string \<Rightarrow> int \<Rightarrow> bytes \<Rightarrow> IceAgent \<Rightarrow> (ProcessResult \<times> bytes \<times> IceAgent) option" where
  "ProcessIncoming hmac srcIp srcPort bs s =
     do {
       d \<leftarrow> stun_Decode bs;
       case d of
         None \<Rightarrow> Some (ProcessResult_Other, [], s)
       | Some msg \<Rightarrow>
           if MessageType msg = kStunBindingRequest
           then do {
             ok \<leftarrow> VerifyMessageIntegrity hmac bs (m_localPwd s);
             if \<not> ok then Some (ProcessResult_Other, [], s)
             else
               (let outResponse = BuildBindingResponse hmac s msg srcIp srcPort in
                case FindPair (m_pairs s) srcIp srcPort of
                  None \<Rightarrow> Some (ProcessResult_BindingRequestProcessed, outResponse, s)
                | Some i \<Rightarrow>
                    (let s = set_succeeded i s in
                     if UseCandidate msg \<and> m_role s = IceAgentRole_Controlled \<and> \<not> m_connected s
                     then Some (ProcessResult_ConnectivityEstablished, outResponse, select_pair i s)
                     else Some (ProcessResult_BindingRequestProcessed, outResponse, s)))
           }
           else if MessageType msg = kStunBindingResponse
           then do {
             ok \<leftarrow> VerifyMessageIntegrity hmac bs (m_remotePwd s);
             if \<not> ok then Some (ProcessResult_Other, [], s)
             else
               (case FindPair (m_pairs s) srcIp srcPort of
                  None \<Rightarrow> Some (ProcessResult_Other, [], s)
                | Some i \<Rightarrow>
                    (let wasNew = (\<not> Succeeded (m_pairs s ! i));
                         s = set_succeeded i s in
                     if m_role s = IceAgentRole_Controlling \<and> \<not> m_connected s
                     then Some (ProcessResult_ConnectivityEstablished, [], select_pair i s)
                     else Some (if wasNew then ProcessResult_BindingResponseProcessed else ProcessResult_Other,
                                [], s)))
           }
           else Some (ProcessResult_Other, [], s)
     }"


section \<open>The agent as a reactive object\<close>

datatype ice_event =
    AddCandidate ParsedIceCandidate
  | LocalCandidates "string list" int
  | SendRequests "nat \<Rightarrow> bytes"
  | Incoming string int bytes

definition ice_step :: "mac_fn \<Rightarrow> IceAgent \<Rightarrow> ice_event \<Rightarrow> IceAgent" where
  "ice_step hmac s e =
     (case e of
        AddCandidate c \<Rightarrow> AddRemoteCandidate c s
      | LocalCandidates ips port \<Rightarrow> snd (GenerateLocalCandidates ips port s)
      | SendRequests rnd \<Rightarrow> snd (GetBindingRequestsToSend hmac rnd s)
      | Incoming ip port bs \<Rightarrow>
          (case ProcessIncoming hmac ip port bs s of None \<Rightarrow> s | Some (_, _, s') \<Rightarrow> s'))"

lemma FindPair_Some:
  "FindPair ps ip port = Some i \<Longrightarrow> i < length ps \<and> Target (ps ! i) = (ip, port)"
proof (induction ps arbitrary: i)
  case (Cons p ps)
  then show ?case by (auto split: if_splits simp: prod_eq_iff)
qed simp

lemma FindPair_None: "FindPair ps ip port = None \<longleftrightarrow> (ip, port) \<notin> Target ` set ps"
  by (induction ps) (auto simp: prod_eq_iff)

text \<open>The outcomes of an incoming datagram, one rule for every proof about it.\<close>

definition authentic :: "mac_fn \<Rightarrow> IceAgent \<Rightarrow> bytes \<Rightarrow> StunMessage \<Rightarrow> bool" where
  "authentic hmac s bs msg \<longleftrightarrow>
     stun_Decode bs = Some (Some msg)
     \<and> (MessageType msg = kStunBindingRequest \<and> VerifyMessageIntegrity hmac bs (m_localPwd s) = Some True
        \<or> MessageType msg = kStunBindingResponse \<and> VerifyMessageIntegrity hmac bs (m_remotePwd s) = Some True)"

definition nominates :: "IceAgent \<Rightarrow> StunMessage \<Rightarrow> bool" where
  "nominates s msg \<longleftrightarrow>
     (if m_role s = IceAgentRole_Controlled then MessageType msg = kStunBindingRequest \<and> UseCandidate msg
      else MessageType msg = kStunBindingResponse)"

lemma kStun_types: "kStunBindingRequest \<noteq> kStunBindingResponse"
  by (simp add: kStunBindingRequest_def kStunBindingResponse_def)

lemma role_cases: "m_role s = IceAgentRole_Controlled \<longleftrightarrow> m_role s \<noteq> IceAgentRole_Controlling"
  by (cases "m_role s") auto

lemma ProcessIncoming_rejects:
  assumes "\<not> (\<exists>msg. authentic hmac s bs msg)"
  shows "ProcessIncoming hmac ip port bs s = Some (ProcessResult_Other, [], s)"
proof -
  obtain d where d: "stun_Decode bs = Some d" using stun_Decode_safe by blast
  obtain v w where v: "VerifyMessageIntegrity hmac bs (m_localPwd s) = Some v"
    and w: "VerifyMessageIntegrity hmac bs (m_remotePwd s) = Some w"
    using VerifyMessageIntegrity_safe by blast
  show ?thesis
    using assms d v w by (cases d) (auto simp: ProcessIncoming_def authentic_def)
qed

lemma ProcessIncoming_authentic:
  assumes "authentic hmac s bs msg"
  shows "ProcessIncoming hmac ip port bs s =
    (let resp = (if MessageType msg = kStunBindingRequest then BuildBindingResponse hmac s msg ip port else [])
     in case FindPair (m_pairs s) ip port of
          None \<Rightarrow> Some (if MessageType msg = kStunBindingRequest then ProcessResult_BindingRequestProcessed
                        else ProcessResult_Other, resp, s)
        | Some i \<Rightarrow>
            if nominates s msg \<and> \<not> m_connected s
            then Some (ProcessResult_ConnectivityEstablished, resp, select_pair i (set_succeeded i s))
            else Some (if MessageType msg = kStunBindingRequest then ProcessResult_BindingRequestProcessed
                       else if Succeeded (m_pairs s ! i) then ProcessResult_Other
                       else ProcessResult_BindingResponseProcessed, resp, set_succeeded i s))"
proof -
  have d: "stun_Decode bs = Some (Some msg)" using assms by (simp add: authentic_def)
  have k: "m_role (set_succeeded i s) = m_role s" "m_connected (set_succeeded i s) = m_connected s" for i
    by (simp_all add: set_succeeded_def)
  consider (req) "MessageType msg = kStunBindingRequest"
      "VerifyMessageIntegrity hmac bs (m_localPwd s) = Some True"
    | (resp) "MessageType msg = kStunBindingResponse"
      "VerifyMessageIntegrity hmac bs (m_remotePwd s) = Some True"
    using assms by (auto simp: authentic_def)
  then show ?thesis
  proof cases
    case req
    show ?thesis
    proof (cases "FindPair (m_pairs s) ip port")
      case None
      then show ?thesis using d req by (simp add: ProcessIncoming_def)
    next
      case (Some i)
      then show ?thesis
        using d req kStun_types by (simp add: ProcessIncoming_def nominates_def Let_def k)
    qed
  next
    case resp
    show ?thesis
    proof (cases "FindPair (m_pairs s) ip port")
      case None
      then show ?thesis using d resp kStun_types [symmetric] by (simp add: ProcessIncoming_def)
    next
      case (Some i)
      then show ?thesis
        using d resp kStun_types [symmetric] role_cases [of s]
        by (simp add: ProcessIncoming_def nominates_def Let_def k)
    qed
  qed
qed

lemma ProcessIncoming_total: "ProcessIncoming hmac ip port bs s \<noteq> None"
proof (cases "\<exists>msg. authentic hmac s bs msg")
  case True
  then obtain msg where "authentic hmac s bs msg" by blast
  from ProcessIncoming_authentic [OF this] show ?thesis
    by (simp add: Let_def split: option.split)
next
  case False
  then show ?thesis by (simp add: ProcessIncoming_rejects)
qed

text \<open>The state after a datagram: unchanged, one pair marked, or one pair marked and selected.\<close>

lemma Incoming_cases:
  obtains "ice_step hmac s (Incoming ip port bs) = s"
  | i msg where "authentic hmac s bs msg" "FindPair (m_pairs s) ip port = Some i"
      "ice_step hmac s (Incoming ip port bs) = set_succeeded i s"
      "m_connected s \<or> \<not> nominates s msg"
  | i msg where "authentic hmac s bs msg" "FindPair (m_pairs s) ip port = Some i" "nominates s msg"
      "\<not> m_connected s" "ice_step hmac s (Incoming ip port bs) = select_pair i (set_succeeded i s)"
proof (cases "\<exists>msg. authentic hmac s bs msg")
  case False
  then have "ice_step hmac s (Incoming ip port bs) = s"
    by (simp add: ice_step_def ProcessIncoming_rejects)
  then show ?thesis by (rule that(1))
next
  case True
  then obtain msg where a: "authentic hmac s bs msg" by blast
  note p = ProcessIncoming_authentic [OF a, of ip port]
  show ?thesis
  proof (cases "FindPair (m_pairs s) ip port")
    case None
    then have "ice_step hmac s (Incoming ip port bs) = s" using p by (simp add: ice_step_def Let_def)
    then show ?thesis by (rule that(1))
  next
    case (Some i)
    show ?thesis
    proof (cases "nominates s msg \<and> \<not> m_connected s")
      case True
      then have "ice_step hmac s (Incoming ip port bs) = select_pair i (set_succeeded i s)"
        using p Some by (simp add: ice_step_def Let_def)
      with True show ?thesis using that(3) [OF a Some] by blast
    next
      case False
      then have n: "(nominates s msg \<and> \<not> m_connected s) = False" by blast
      have "ice_step hmac s (Incoming ip port bs) = set_succeeded i s"
        using p Some unfolding n by (simp add: ice_step_def Let_def)
      with False show ?thesis using that(2) [OF a Some] by blast
    qed
  qed
qed


section \<open>Invariant\<close>

definition ice_inv :: "IceAgent \<Rightarrow> bool" where
  "ice_inv s \<longleftrightarrow>
     distinct (map Target (m_pairs s))
     \<and> m_checkTargets s = map Target (m_pairs s)
     \<and> (\<lambda>c. (Ip c, Port c)) ` set (m_remoteCandidates s) = Target ` set (m_pairs s)
     \<and> (\<forall>p \<in> set (m_pairs s). UseCandidateSent p \<longrightarrow> Succeeded p \<and> m_role s = IceAgentRole_Controlling)
     \<and> (if m_connected s then (\<exists>p \<in> set (m_pairs s). Target p = m_selected s \<and> Succeeded p)
        else m_selected s = ([], 0))"

lemma ice_inv_new: "ice_inv (IceAgent_new role lu lp ru rp arr)"
  by (simp add: ice_inv_def IceAgent_new_def)

lemma Target_set_succeeded:
  "map Target (m_pairs (set_succeeded i s)) = map Target (m_pairs s)"
proof -
  have "map Target ((m_pairs s)[i := (m_pairs s ! i)\<lparr>Succeeded := True\<rparr>]) = map Target (m_pairs s)"
    by (cases "i < length (m_pairs s)") (simp_all add: map_update list_update_same_conv list_update_beyond)
  then show ?thesis by (simp add: set_succeeded_def)
qed

lemma Target_image_succeeded:
  "Target ` set (m_pairs (set_succeeded i s)) = Target ` set (m_pairs s)"
  using arg_cong [OF Target_set_succeeded [of i s], of set] by simp

lemma keep_UseCandidateSent: "UseCandidateSent p = b \<Longrightarrow> p\<lparr>UseCandidateSent := b\<rparr> = p"
  by (cases p) simp

lemma binding_requests_pairs:
  "snd (binding_requests hmac s rnd i ps) =
     map (\<lambda>p. p\<lparr>UseCandidateSent := UseCandidateSent p \<or>
       (m_role s = IceAgentRole_Controlling \<and> Succeeded p)\<rparr>) ps"
proof (induction ps arbitrary: i)
  case (Cons p ps)
  then show ?case
    by (auto simp: Let_def split_beta keep_UseCandidateSent)
qed simp

lemma binding_requests_out:
  "map fst (fst (binding_requests hmac s rnd i ps)) = map Target ps"
  by (induction ps arbitrary: i) (simp_all add: Let_def split_beta)

lemma SendRequests_state:
  "snd (GetBindingRequestsToSend hmac rnd s) = s\<lparr>m_pairs := map (\<lambda>p. p\<lparr>UseCandidateSent := UseCandidateSent p \<or>
       (m_role s = IceAgentRole_Controlling \<and> Succeeded p)\<rparr>) (m_pairs s)\<rparr>"
  unfolding GetBindingRequestsToSend_def split_beta snd_conv binding_requests_pairs ..

lemma ice_inv_AddRemoteCandidate: "ice_inv s \<Longrightarrow> ice_inv (AddRemoteCandidate c s)"
proof (cases "FindPair (m_pairs s) (Ip c) (Port c) = None")
  case True
  assume inv: "ice_inv s"
  have new: "(Ip c, Port c) \<notin> Target ` set (m_pairs s)" using True by (simp add: FindPair_None)
  have s': "AddRemoteCandidate c s = s\<lparr>m_remoteCandidates := m_remoteCandidates s @ [c],
      m_checkTargets := m_checkTargets s @ [(Ip c, Port c)], m_pairs := m_pairs s @
        [\<lparr>Target = (Ip c, Port c), Succeeded = False, UseCandidateSent = False\<rparr>]\<rparr>"
    using True by (simp add: AddRemoteCandidate_def)
  show ?thesis
    using inv new unfolding s' ice_inv_def by (simp split: if_splits) blast?
next
  case False
  assume inv: "ice_inv s"
  then have "(Ip c, Port c) \<in> Target ` set (m_pairs s)" using False FindPair_None [of "m_pairs s" "Ip c" "Port c"] by argo
  moreover have "AddRemoteCandidate c s = s\<lparr>m_remoteCandidates := m_remoteCandidates s @ [c]\<rparr>"
    using False by (auto simp add: AddRemoteCandidate_def)
  ultimately show ?thesis using inv by (simp add: ice_inv_def insert_absorb)
qed

definition mark_sent :: "IceAgent \<Rightarrow> Pair \<Rightarrow> Pair" where
  "mark_sent s p = p\<lparr>UseCandidateSent := UseCandidateSent p \<or>
     (m_role s = IceAgentRole_Controlling \<and> Succeeded p)\<rparr>"

lemma mark_sent_simps [simp]:
  "Target (mark_sent s p) = Target p" "Succeeded (mark_sent s p) = Succeeded p"
  "UseCandidateSent (mark_sent s p) =
     (UseCandidateSent p \<or> (m_role s = IceAgentRole_Controlling \<and> Succeeded p))"
  by (simp_all add: mark_sent_def)

lemma SendRequests_mark:
  "snd (GetBindingRequestsToSend hmac rnd s) = s\<lparr>m_pairs := map (mark_sent s) (m_pairs s)\<rparr>"
  unfolding SendRequests_state mark_sent_def ..

lemma ice_inv_requests: "ice_inv s \<Longrightarrow> ice_inv (snd (GetBindingRequestsToSend hmac rnd s))"
proof -
  assume inv: "ice_inv s"
  have t: "map Target (map (mark_sent s) ps) = map Target ps" for ps
    by (induction ps) simp_all
  have im: "Target ` set (map (mark_sent s) ps) = Target ` set ps" for ps
    by (induction ps) simp_all
  have sel: "(\<exists>p \<in> set (map (mark_sent s) ps). Target p = x \<and> Succeeded p)
      \<longleftrightarrow> (\<exists>p \<in> set ps. Target p = x \<and> Succeeded p)" for x ps
    by simp
  have uc: "\<forall>p \<in> set (map (mark_sent s) (m_pairs s)). UseCandidateSent p \<longrightarrow>
      Succeeded p \<and> m_role s = IceAgentRole_Controlling"
    using inv unfolding ice_inv_def by auto
  have k: "m_role (s\<lparr>m_pairs := ps\<rparr>) = m_role s" "m_checkTargets (s\<lparr>m_pairs := ps\<rparr>) = m_checkTargets s"
    "m_remoteCandidates (s\<lparr>m_pairs := ps\<rparr>) = m_remoteCandidates s" "m_pairs (s\<lparr>m_pairs := ps\<rparr>) = ps"
    "m_connected (s\<lparr>m_pairs := ps\<rparr>) = m_connected s" "m_selected (s\<lparr>m_pairs := ps\<rparr>) = m_selected s" for ps
    by simp_all
  show ?thesis
    using inv uc unfolding SendRequests_mark ice_inv_def k t im sel by blast
qed

lemma set_succeeded_at:
  "j < length (m_pairs s) \<Longrightarrow> m_pairs (set_succeeded i s) ! j =
     (if i = j then (m_pairs s ! i)\<lparr>Succeeded := True\<rparr> else m_pairs s ! j)"
  by (simp add: set_succeeded_def)

lemma ice_inv_succeeded: "ice_inv s \<Longrightarrow> ice_inv (set_succeeded i s)"
proof -
  assume inv: "ice_inv s"
  have p: "p' \<in> set (m_pairs (set_succeeded i s)) \<Longrightarrow>
      \<exists>p \<in> set (m_pairs s). p' = p \<or> p' = p\<lparr>Succeeded := True\<rparr>" for p'
  proof (cases "i < length (m_pairs s)")
    case True
    assume "p' \<in> set (m_pairs (set_succeeded i s))"
    then have "p' = (m_pairs s ! i)\<lparr>Succeeded := True\<rparr> \<or> p' \<in> set (m_pairs s)"
      using set_update_subset_insert [of "m_pairs s" i] by (auto simp: set_succeeded_def)
    then show ?thesis using nth_mem [OF True] by blast
  next
    case False
    assume "p' \<in> set (m_pairs (set_succeeded i s))"
    then show ?thesis using False by (auto simp: set_succeeded_def list_update_beyond)
  qed
  have uc: "\<forall>p \<in> set (m_pairs (set_succeeded i s)). UseCandidateSent p \<longrightarrow>
      Succeeded p \<and> m_role s = IceAgentRole_Controlling"
    using inv p unfolding ice_inv_def by fastforce
  have sel: "\<exists>p \<in> set (m_pairs (set_succeeded i s)). Target p = x \<and> Succeeded p"
    if "\<exists>p \<in> set (m_pairs s). Target p = x \<and> Succeeded p" for x
  proof -
    from that obtain j where j: "j < length (m_pairs s)" "Target (m_pairs s ! j) = x" "Succeeded (m_pairs s ! j)"
      unfolding Bex_def in_set_conv_nth by blast
    then have "Target (m_pairs (set_succeeded i s) ! j) = x" "Succeeded (m_pairs (set_succeeded i s) ! j)"
      unfolding set_succeeded_at [OF j(1)] by (simp_all split: if_split)
    moreover have "m_pairs (set_succeeded i s) ! j \<in> set (m_pairs (set_succeeded i s))"
      using j(1) by (intro nth_mem) (simp add: set_succeeded_def)
    ultimately show ?thesis by blast
  qed
  have k: "m_role (set_succeeded i s) = m_role s" "m_checkTargets (set_succeeded i s) = m_checkTargets s"
    "m_remoteCandidates (set_succeeded i s) = m_remoteCandidates s"
    "m_connected (set_succeeded i s) = m_connected s" "m_selected (set_succeeded i s) = m_selected s"
    by (simp_all add: set_succeeded_def)
  show ?thesis
    using inv uc sel [of "m_selected s"] unfolding ice_inv_def k Target_set_succeeded Target_image_succeeded
    by (auto split: if_splits)
qed

lemma set_succeeded_nth:
  "i < length (m_pairs s) \<Longrightarrow> m_pairs (set_succeeded i s) ! i = (m_pairs s ! i)\<lparr>Succeeded := True\<rparr>"
  by (simp add: set_succeeded_def)

lemma ice_inv_select:
  assumes "ice_inv s" and "i < length (m_pairs s)" and "Succeeded (m_pairs s ! i)"
  shows "ice_inv (select_pair i s)"
proof -
  have "\<exists>p \<in> set (m_pairs s). Target p = Target (m_pairs s ! i) \<and> Succeeded p"
    using assms(2,3) by (intro bexI [of _ "m_pairs s ! i"]) auto
  with assms(1) show ?thesis unfolding ice_inv_def select_pair_def by simp
qed

lemma ice_inv_step: "ice_inv s \<Longrightarrow> ice_inv (ice_step hmac s e)"
proof (cases e)
  case (AddCandidate c)
  assume "ice_inv s"
  then show ?thesis by (simp add: AddCandidate ice_step_def ice_inv_AddRemoteCandidate)
next
  case (LocalCandidates ips port)
  assume "ice_inv s"
  then show ?thesis
    by (simp add: LocalCandidates ice_step_def GenerateLocalCandidates_def ice_inv_def split: prod.split)
next
  case (SendRequests rnd)
  assume "ice_inv s"
  then show ?thesis by (simp add: SendRequests ice_step_def ice_inv_requests)
next
  case (Incoming ip port bs)
  assume inv: "ice_inv s"
  show ?thesis unfolding Incoming
  proof (cases rule: Incoming_cases [of hmac s ip port bs])
    case 1
    then show "ice_inv (ice_step hmac s (Incoming ip port bs))" using inv by simp
  next
    case (2 i msg)
    then show "ice_inv (ice_step hmac s (Incoming ip port bs))" using inv by (simp add: ice_inv_succeeded)
  next
    case (3 i msg)
    have i: "i < length (m_pairs s)" using FindPair_Some [OF 3(2)] by blast
    then have "i < length (m_pairs (set_succeeded i s))" by (simp add: set_succeeded_def)
    then have "ice_inv (select_pair i (set_succeeded i s))"
      using ice_inv_succeeded [OF inv] set_succeeded_nth [OF i] by (intro ice_inv_select) simp_all
    then show "ice_inv (ice_step hmac s (Incoming ip port bs))" using 3 by simp
  qed
qed


text \<open>The addresses known to work: no call takes one away.\<close>

definition succeeded_targets :: "IceAgent \<Rightarrow> IceCheckTarget set" where
  "succeeded_targets s = {t. \<exists>p \<in> set (m_pairs s). Target p = t \<and> Succeeded p}"

definition ice_level :: "IceAgent \<Rightarrow> nat" where
  "ice_level s = card (succeeded_targets s) + (if m_connected s then 1 else 0)"

lemma finite_succeeded_targets: "finite (succeeded_targets s)"
proof -
  have "succeeded_targets s \<subseteq> Target ` set (m_pairs s)" unfolding succeeded_targets_def by blast
  then show ?thesis by (rule finite_subset) simp
qed

lemma succeeded_targets_succeeded: "succeeded_targets s \<subseteq> succeeded_targets (set_succeeded i s)"
proof
  fix t assume "t \<in> succeeded_targets s"
  then obtain j where j: "j < length (m_pairs s)" "Target (m_pairs s ! j) = t" "Succeeded (m_pairs s ! j)"
    unfolding succeeded_targets_def Bex_def in_set_conv_nth by blast
  then have "Target (m_pairs (set_succeeded i s) ! j) = t" "Succeeded (m_pairs (set_succeeded i s) ! j)"
    unfolding set_succeeded_at [OF j(1)] by (simp_all split: if_split)
  moreover have "m_pairs (set_succeeded i s) ! j \<in> set (m_pairs (set_succeeded i s))"
    using j(1) by (intro nth_mem) (simp add: set_succeeded_def)
  ultimately show "t \<in> succeeded_targets (set_succeeded i s)" unfolding succeeded_targets_def by blast
qed

lemma succeeded_targets_step: "succeeded_targets s \<subseteq> succeeded_targets (ice_step hmac s e)"
proof (cases e)
  case (AddCandidate c)
  then show ?thesis
    by (auto simp: ice_step_def AddRemoteCandidate_def Let_def succeeded_targets_def)
next
  case (LocalCandidates ips port)
  then show ?thesis
    by (simp add: ice_step_def GenerateLocalCandidates_def succeeded_targets_def split_beta)
next
  case (SendRequests rnd)
  then show ?thesis
    by (simp add: ice_step_def SendRequests_mark succeeded_targets_def)
next
  case (Incoming ip port bs)
  have sel: "succeeded_targets (select_pair i s') = succeeded_targets s'" for i s'
    by (simp add: select_pair_def succeeded_targets_def)
  show ?thesis unfolding Incoming
    by (cases rule: Incoming_cases [of hmac s ip port bs])
      (simp_all add: sel succeeded_targets_succeeded)
qed

lemma connected_step: "m_connected s \<Longrightarrow> m_connected (ice_step hmac s e) \<and> m_selected (ice_step hmac s e) = m_selected s"
proof (cases e)
  case (AddCandidate c)
  assume "m_connected s"
  then show ?thesis by (simp add: AddCandidate ice_step_def AddRemoteCandidate_def Let_def)
next
  case (LocalCandidates ips port)
  assume "m_connected s"
  then show ?thesis
    by (simp add: LocalCandidates ice_step_def GenerateLocalCandidates_def split_beta)
next
  case (SendRequests rnd)
  assume "m_connected s"
  then show ?thesis by (simp add: SendRequests ice_step_def SendRequests_mark)
next
  case (Incoming ip port bs)
  assume c: "m_connected s"
  show ?thesis unfolding Incoming
    by (cases rule: Incoming_cases [of hmac s ip port bs])
      (use c in \<open>simp_all add: set_succeeded_def\<close>)
qed

lemma ice_level_step: "ice_level s \<le> ice_level (ice_step hmac s e)"
proof -
  have "card (succeeded_targets s) \<le> card (succeeded_targets (ice_step hmac s e))"
    by (rule card_mono [OF finite_succeeded_targets succeeded_targets_step])
  moreover have "(if m_connected s then 1 else 0) \<le> (if m_connected (ice_step hmac s e) then 1 else (0 :: nat))"
    using connected_step [of s hmac e] by simp
  ultimately show ?thesis unfolding ice_level_def by linarith
qed

interpretation ice: monotone_reactive "ice_step hmac" ice_inv "IceAgent_new role lu lp ru rp arr" ice_level
  for hmac role lu lp ru rp arr
  by unfold_locales (simp_all add: ice_inv_new ice_inv_step ice_level_step)


section \<open>Properties of the agent\<close>

text \<open>
  Whatever candidates are added, requests sent and datagrams received, in any order: there
  is one pair per remote address and one for every candidate; a pair on which USE-CANDIDATE was sent
  has succeeded and the agent is the controlling one; and a connected agent has selected the address
  of a pair that succeeded.
\<close>

theorem ice_agent_invariant:
  "let s = run_steps (ice_step hmac) (IceAgent_new role lu lp ru rp arr) es in
     distinct (map Target (m_pairs s))
     \<and> (\<lambda>c. (Ip c, Port c)) ` set (m_remoteCandidates s) = Target ` set (m_pairs s)
     \<and> (\<forall>p \<in> set (m_pairs s). \<not> UseCandidateSent p \<or> Succeeded p \<and> m_role s = IceAgentRole_Controlling)
     \<and> (if m_connected s then \<exists>p \<in> set (m_pairs s). Target p = m_selected s \<and> Succeeded p
        else m_selected s = ([], 0))"
  using ice.inv_run [of hmac role lu lp ru rp arr es] unfolding ice_inv_def Let_def by blast

theorem ice_agent_invariant_witness:
  "m_selected (run_steps (ice_step (\<lambda>k b i. 0)) (IceAgent_new IceAgentRole_Controlled ''a'' ''p'' ''b'' ''q'' [])
     [AddCandidate cand_example, SendRequests (\<lambda>i. [])]) = ([], 0)"
  using ice_agent_invariant [of "\<lambda>k b i. 0" IceAgentRole_Controlled "''a''" "''p''" "''b''" "''q''" "[]"
      "[AddCandidate cand_example, SendRequests (\<lambda>i. [])]"]
  by (simp add: Let_def ice_step_def AddRemoteCandidate_def GetBindingRequestsToSend_def
      IceAgent_new_def split_beta)

lemma connected_run:
  "m_connected s \<Longrightarrow> m_connected (run_steps (ice_step hmac) s es)
     \<and> m_selected (run_steps (ice_step hmac) s es) = m_selected s"
proof (induction es arbitrary: s)
  case (Cons e es)
  then show ?case using connected_step [of s hmac e] by simp
qed simp

lemma not_connected_step:
  assumes "\<not> m_connected s"
  shows "m_connected (ice_step hmac s e) \<longleftrightarrow>
    (\<exists>ip port bs msg. e = Incoming ip port bs \<and> authentic hmac s bs msg \<and> nominates s msg
       \<and> (ip, port) \<in> Target ` set (m_pairs s) \<and> m_selected (ice_step hmac s e) = (ip, port))"
    (is "?c \<longleftrightarrow> ?r")
proof (cases e)
  case (AddCandidate c)
  then show ?thesis using assms by (simp add: ice_step_def AddRemoteCandidate_def Let_def)
next
  case (LocalCandidates ips port)
  then show ?thesis using assms by (simp add: ice_step_def GenerateLocalCandidates_def split_beta)
next
  case (SendRequests rnd)
  then show ?thesis using assms by (simp add: ice_step_def SendRequests_mark)
next
  case (Incoming ip port bs)
  show ?thesis
  proof
    assume c: ?c
    show ?r
    proof (cases rule: Incoming_cases [of hmac s ip port bs])
      case 1
      then show ?thesis using c assms by (simp add: Incoming)
    next
      case (2 i msg)
      then show ?thesis using c assms by (simp add: Incoming set_succeeded_def)
    next
      case (3 i msg)
      have i: "i < length (m_pairs s)" and t: "Target (m_pairs s ! i) = (ip, port)"
        using FindPair_Some [OF 3(2)] by blast+
      then have "(ip, port) \<in> Target ` set (m_pairs s)" using nth_mem [OF i] by (metis image_eqI)
      moreover have "m_selected (ice_step hmac s e) = (ip, port)"
        unfolding Incoming 3(5) by (simp add: select_pair_def set_succeeded_nth [OF i] t)
      ultimately show ?thesis using 3 Incoming by blast
    qed
  next
    assume ?r
    then obtain msg where a: "authentic hmac s bs msg" and n: "nominates s msg"
      and t: "(ip, port) \<in> Target ` set (m_pairs s)" using Incoming by blast
    then obtain i where i: "FindPair (m_pairs s) ip port = Some i"
      using FindPair_None [of "m_pairs s" ip port] by fastforce
    show ?c
      using ProcessIncoming_authentic [OF a, of ip port] n assms i
      by (simp add: Incoming ice_step_def Let_def select_pair_def)
  qed
qed

text \<open>
  Claim C17: exactly what connects an agent, and that is all that is checked. A call leaves the agent
  connected iff it was connected, or the call is a datagram from the address of a known pair which decodes, whose
  MESSAGE-INTEGRITY verifies, and which is, at a controlled agent, a request under the local password that carries
  USE-CANDIDATE in the decoded message, and at a controlling agent a response under the remote password. The
  integrity check covers the bytes before MESSAGE-INTEGRITY only while the decoder also takes USE-CANDIDATE behind
  it, and the transaction id of a response is compared with nothing, so this is not a claim that the peer
  nominated (\<open>ice_nomination_forged\<close> below). The source of the datagram becomes the selected
  address, a datagram whose check fails changes nothing, and once connected no sequence of calls changes the selection.
\<close>

theorem ice_connects_exactly:
  "(m_connected (ice_step hmac s e) \<longleftrightarrow> m_connected s \<or>
     (\<exists>ip port bs msg. e = Incoming ip port bs \<and> (ip, port) \<in> Target ` set (m_pairs s)
       \<and> stun_Decode bs = Some (Some msg)
       \<and> (if m_role s = IceAgentRole_Controlled
          then MessageType msg = kStunBindingRequest \<and> UseCandidate msg
            \<and> VerifyMessageIntegrity hmac bs (m_localPwd s) = Some True
          else MessageType msg = kStunBindingResponse
            \<and> VerifyMessageIntegrity hmac bs (m_remotePwd s) = Some True)
       \<and> m_selected (ice_step hmac s e) = (ip, port)))
   \<and> (if VerifyMessageIntegrity hmac bs (m_localPwd s) = Some False
        \<and> VerifyMessageIntegrity hmac bs (m_remotePwd s) = Some False
      then ProcessIncoming hmac ip port bs s = Some (ProcessResult_Other, [], s) else True)
   \<and> (if m_connected s
      then m_connected (run_steps (ice_step hmac) s es) \<and> m_selected (run_steps (ice_step hmac) s es) = m_selected s
      else True)"
proof -
  have n: "authentic hmac s bs msg \<and> nominates s msg \<longleftrightarrow> stun_Decode bs = Some (Some msg)
      \<and> (if m_role s = IceAgentRole_Controlled
         then MessageType msg = kStunBindingRequest \<and> UseCandidate msg
           \<and> VerifyMessageIntegrity hmac bs (m_localPwd s) = Some True
         else MessageType msg = kStunBindingResponse
           \<and> VerifyMessageIntegrity hmac bs (m_remotePwd s) = Some True)" for bs msg
    using kStun_types by (auto simp: authentic_def nominates_def)
  have c: "m_connected (ice_step hmac s e) \<longleftrightarrow> m_connected s \<or>
     (\<exists>ip port bs msg. e = Incoming ip port bs \<and> authentic hmac s bs msg \<and> nominates s msg
       \<and> (ip, port) \<in> Target ` set (m_pairs s) \<and> m_selected (ice_step hmac s e) = (ip, port))"
    using not_connected_step [of s hmac e] connected_step [of s hmac e] by (cases "m_connected s") simp_all
  have r: "ProcessIncoming hmac ip port bs s = Some (ProcessResult_Other, [], s)"
    if "VerifyMessageIntegrity hmac bs (m_localPwd s) = Some False"
      "VerifyMessageIntegrity hmac bs (m_remotePwd s) = Some False"
    by (rule ProcessIncoming_rejects) (use that in \<open>simp add: authentic_def\<close>)
  have x: "(\<exists>ip port bs msg. e = Incoming ip port bs \<and> authentic hmac s bs msg \<and> nominates s msg
       \<and> (ip, port) \<in> Target ` set (m_pairs s) \<and> m_selected (ice_step hmac s e) = (ip, port))
     \<longleftrightarrow> (\<exists>ip port bs msg. e = Incoming ip port bs \<and> (ip, port) \<in> Target ` set (m_pairs s)
       \<and> stun_Decode bs = Some (Some msg)
       \<and> (if m_role s = IceAgentRole_Controlled
          then MessageType msg = kStunBindingRequest \<and> UseCandidate msg
            \<and> VerifyMessageIntegrity hmac bs (m_localPwd s) = Some True
          else MessageType msg = kStunBindingResponse
            \<and> VerifyMessageIntegrity hmac bs (m_remotePwd s) = Some True)
       \<and> m_selected (ice_step hmac s e) = (ip, port))"
    by (intro iff_exI) (use n in blast)
  show ?thesis
    unfolding c x using r connected_run [of s hmac es] by (intro conjI refl) simp_all
qed


section \<open>Two agents\<close>

text \<open>What a well-formed encoded message does at an agent that holds the password.\<close>

lemma authentic_encoded:
  assumes m: "stun_encodable m" and pw: "pw \<noteq> []"
    and side: "MessageType m = kStunBindingRequest \<and> pw = m_localPwd s
      \<or> MessageType m = kStunBindingResponse \<and> pw = m_remotePwd s"
  obtains msg where "authentic hmac s (stun_Encode hmac m pw) msg" "MessageType msg = MessageType m"
    "UseCandidate msg = UseCandidate m" "TransactionId msg = TransactionId m"
proof -
  obtain mac fp where d: "stun_Decode (stun_Encode hmac m pw) = Some (Some
      (m\<lparr>MessageIntegrity := if pw \<noteq> [] then mac else [], HasFingerprint := True, StunFingerprint := fp\<rparr>))"
    using stun_Decode_fields [OF m] by blast
  have v: "VerifyMessageIntegrity hmac (stun_Encode hmac m pw) pw = Some True"
    using stun_verifies [OF m pw] by blast
  show ?thesis
    by (rule that [of "m\<lparr>MessageIntegrity := if pw \<noteq> [] then mac else [], HasFingerprint := True,
        StunFingerprint := fp\<rparr>"]) (use d v side in \<open>auto simp: authentic_def\<close>)
qed

lemma length_RandomTransactionId [simp]: "length (RandomTransactionId arr) = 12"
  by (simp add: RandomTransactionId_def Let_def)

lemma request_encodable:
  "length (m_remoteUfrag s) + length (m_localUfrag s) < 60000 \<Longrightarrow> stun_encodable (request_message s arr uc)"
  by (simp add: stun_encodable_def request_message_def StunMessage_default_def Let_def)

lemma request_fields:
  "MessageType (request_message s arr uc) = kStunBindingRequest" "UseCandidate (request_message s arr uc) = uc"
  by (simp_all add: request_message_def Let_def)

lemma dotted_quad_length: "dotted_quad ip = Some b \<Longrightarrow> length b = 4"
  by (auto simp: dotted_quad_def split: option.splits bind_splits if_splits)

lemma response_encodable:
  assumes "length (TransactionId req) = 12"
  shows "stun_encodable (response_message req ip port)"
proof (cases "dotted_quad ip")
  case None
  then show ?thesis
    using assms by (simp add: stun_encodable_def response_message_def StunMessage_default_def Let_def)
next
  case (Some b)
  then show ?thesis
    using assms dotted_quad_length [OF Some]
    by (simp add: stun_encodable_def response_message_def StunMessage_default_def Let_def)
qed

lemma response_fields: "MessageType (response_message req ip port) = kStunBindingResponse"
  by (simp add: response_message_def Let_def split: option.split)

lemma process_request:
  assumes "stun_encodable m" "m_localPwd s \<noteq> []" "MessageType m = kStunBindingRequest"
    and "FindPair (m_pairs s) ip port = Some i"
  shows "ProcessIncoming hmac ip port (stun_Encode hmac m (m_localPwd s)) s =
    (if UseCandidate m \<and> m_role s = IceAgentRole_Controlled \<and> \<not> m_connected s
     then Some (ProcessResult_ConnectivityEstablished, BuildBindingResponse hmac s m ip port,
                select_pair i (set_succeeded i s))
     else Some (ProcessResult_BindingRequestProcessed, BuildBindingResponse hmac s m ip port,
                set_succeeded i s))"
proof -
  obtain msg where a: "authentic hmac s (stun_Encode hmac m (m_localPwd s)) msg"
    and f: "MessageType msg = MessageType m" "UseCandidate msg = UseCandidate m" "TransactionId msg = TransactionId m"
    by (rule authentic_encoded [OF assms(1,2)]) (use assms(3) in auto)
  have r: "BuildBindingResponse hmac s msg ip port = BuildBindingResponse hmac s m ip port"
    by (simp add: BuildBindingResponse_def response_message_def f(3))
  have n: "nominates s msg \<longleftrightarrow> UseCandidate m \<and> m_role s = IceAgentRole_Controlled"
    using f assms(3) kStun_types by (simp add: nominates_def)
  show ?thesis
    unfolding ProcessIncoming_authentic [OF a] assms(4) n f r assms(3) by (simp add: Let_def)
qed

lemma process_response:
  assumes "stun_encodable m" "m_remotePwd s \<noteq> []" "MessageType m = kStunBindingResponse"
    and "FindPair (m_pairs s) ip port = Some i" and "m_role s = IceAgentRole_Controlling" "\<not> m_connected s"
  shows "ProcessIncoming hmac ip port (stun_Encode hmac m (m_remotePwd s)) s =
     Some (ProcessResult_ConnectivityEstablished, [], select_pair i (set_succeeded i s))"
proof -
  obtain msg where a: "authentic hmac s (stun_Encode hmac m (m_remotePwd s)) msg"
    and f: "MessageType msg = MessageType m"
    by (rule authentic_encoded [OF assms(1,2)]) (use assms(3) in auto)
  have n: "nominates s msg" using f assms(3,5) by (simp add: nominates_def)
  show ?thesis
    unfolding ProcessIncoming_authentic [OF a] assms(4) using n f assms(3,6) kStun_types
    by (simp add: Let_def)
qed

text \<open>
  The exchange between a controlling agent \<open>a\<close>, seen from \<open>(ipA, portA)\<close>, and a controlled agent
  \<open>b\<close> at \<open>(ipB, portB)\<close>: a check and its response, then the check that nominates.
\<close>

definition ice_exchange ::
    "mac_fn \<Rightarrow> (nat \<Rightarrow> bytes) \<Rightarrow> (nat \<Rightarrow> bytes) \<Rightarrow> string \<Rightarrow> int \<Rightarrow> string \<Rightarrow> int \<Rightarrow> IceAgent \<Rightarrow> IceAgent \<Rightarrow>
       (ProcessResult list \<times> IceAgent \<times> IceAgent) option" where
  "ice_exchange hmac rnd1 rnd2 ipA portA ipB portB a b =
     (case GetBindingRequestsToSend hmac rnd1 a of (out1, a1) \<Rightarrow>
      do {
        (r1, resp, b1) \<leftarrow> ProcessIncoming hmac ipA portA (snd (hd out1)) b;
        (r2, _, a2) \<leftarrow> ProcessIncoming hmac ipB portB resp a1;
        (case GetBindingRequestsToSend hmac rnd2 a2 of (out2, a3) \<Rightarrow>
         do {
           (r3, _, b2) \<leftarrow> ProcessIncoming hmac ipA portA (snd (hd out2)) b1;
           Some ([r1, r2, r3], a3, b2)
         })
      })"

text \<open>
  Claim C14: two agents with matching credentials connect. When the controlling agent has only the
  candidate of the controlled one and the other way round, a check, its response and the nominating
  check take both to the connected state, each with the other's address selected, whatever the
  random bytes.
\<close>

theorem ice_agents_connect:
  assumes "pwA \<noteq> []" and "pwB \<noteq> []" and "length ufA + length ufB < 60000"
    and a: "a = AddRemoteCandidate candB (IceAgent_new IceAgentRole_Controlling ufA pwA ufB pwB rA)"
    and b: "b = AddRemoteCandidate candA (IceAgent_new IceAgentRole_Controlled ufB pwB ufA pwA rB)"
  shows "\<exists>a' b'. ice_exchange hmac rnd1 rnd2 (Ip candA) (Port candA) (Ip candB) (Port candB) a b =
      Some ([ProcessResult_BindingRequestProcessed, ProcessResult_ConnectivityEstablished,
             ProcessResult_ConnectivityEstablished], a', b')
    \<and> m_connected a' \<and> m_selected a' = (Ip candB, Port candB)
    \<and> m_connected b' \<and> m_selected b' = (Ip candA, Port candA)"
proof -
  define pA where "pA = \<lparr>Target = (Ip candB, Port candB), Succeeded = False, UseCandidateSent = False\<rparr>"
  define pB where "pB = \<lparr>Target = (Ip candA, Port candA), Succeeded = False, UseCandidateSent = False\<rparr>"
  have fa: "m_role a = IceAgentRole_Controlling" "m_localUfrag a = ufA" "m_remoteUfrag a = ufB"
    "m_localPwd a = pwA" "m_remotePwd a = pwB" "m_pairs a = [pA]" "\<not> m_connected a"
    unfolding a by (simp_all add: AddRemoteCandidate_def IceAgent_new_def pA_def)
  have fb: "m_role b = IceAgentRole_Controlled" "m_localPwd b = pwB" "m_remotePwd b = pwA"
    "m_pairs b = [pB]" "\<not> m_connected b"
    unfolding b by (simp_all add: AddRemoteCandidate_def IceAgent_new_def pB_def)
  define m1 where "m1 = request_message a (rnd1 0) False"
  have m1: "stun_encodable m1" "MessageType m1 = kStunBindingRequest" "\<not> UseCandidate m1"
    unfolding m1_def using assms(3) fa by (simp_all add: request_encodable request_fields)
  have s1: "GetBindingRequestsToSend hmac rnd1 a = ([(Target pA, stun_Encode hmac m1 pwB)], a)"
    by (simp add: GetBindingRequestsToSend_def fa pA_def BuildBindingRequest_def m1_def)
  define b1 where "b1 = set_succeeded 0 b"
  define m2 where "m2 = response_message m1 (Ip candA) (Port candA)"
  have "FindPair (m_pairs b) (Ip candA) (Port candA) = Some 0" by (simp add: fb pB_def)
  from process_request [OF m1(1) _ m1(2) this, of hmac]
  have p1: "ProcessIncoming hmac (Ip candA) (Port candA) (stun_Encode hmac m1 pwB) b =
      Some (ProcessResult_BindingRequestProcessed, stun_Encode hmac m2 pwB, b1)"
    using m1(3) assms(2) by (simp add: fb b1_def m2_def BuildBindingResponse_def)
  have m2: "stun_encodable m2" "MessageType m2 = kStunBindingResponse"
    unfolding m2_def using m1(1) by (simp_all add: response_encodable response_fields stun_encodableD)
  define a2 where "a2 = select_pair 0 (set_succeeded 0 a)"
  have "FindPair (m_pairs a) (Ip candB) (Port candB) = Some 0" by (simp add: fa pA_def)
  from process_response [OF m2(1) _ m2(2) this fa(1) fa(7), of hmac]
  have p2: "ProcessIncoming hmac (Ip candB) (Port candB) (stun_Encode hmac m2 pwB) a =
      Some (ProcessResult_ConnectivityEstablished, [], a2)"
    using assms(2) by (simp add: fa a2_def)
  have fa2: "m_role a2 = IceAgentRole_Controlling" "m_localUfrag a2 = ufA" "m_remoteUfrag a2 = ufB"
    "m_remotePwd a2 = pwB" "m_pairs a2 = [pA\<lparr>Succeeded := True\<rparr>]" "m_connected a2"
    "m_selected a2 = (Ip candB, Port candB)"
    by (simp_all add: a2_def select_pair_def set_succeeded_def fa pA_def)
  define m3 where "m3 = request_message a2 (rnd2 0) True"
  have m3: "stun_encodable m3" "MessageType m3 = kStunBindingRequest" "UseCandidate m3"
    unfolding m3_def using assms(3) fa2 by (simp_all add: request_encodable request_fields)
  have "fst (GetBindingRequestsToSend hmac rnd2 a2) = [(Target pA, stun_Encode hmac m3 pwB)]"
    by (simp add: GetBindingRequestsToSend_def fa2 pA_def BuildBindingRequest_def m3_def)
  then obtain a3 where s3: "GetBindingRequestsToSend hmac rnd2 a2 = ([(Target pA, stun_Encode hmac m3 pwB)], a3)"
    by (cases "GetBindingRequestsToSend hmac rnd2 a2") simp
  then have fa3: "m_connected a3" "m_selected a3 = (Ip candB, Port candB)"
    using SendRequests_mark [of hmac rnd2 a2] fa2 by simp_all
  have fb1: "m_role b1 = IceAgentRole_Controlled" "m_localPwd b1 = pwB" "\<not> m_connected b1"
    "m_pairs b1 = [pB\<lparr>Succeeded := True\<rparr>]"
    by (simp_all add: b1_def set_succeeded_def fb)
  have "FindPair (m_pairs b1) (Ip candA) (Port candA) = Some 0" by (simp add: fb1 pB_def)
  from process_request [OF m3(1) _ m3(2) this, of hmac]
  obtain resp where p3: "ProcessIncoming hmac (Ip candA) (Port candA) (stun_Encode hmac m3 pwB) b1 =
      Some (ProcessResult_ConnectivityEstablished, resp, select_pair 0 (set_succeeded 0 b1))"
    using m3(3) assms(2) fb1 by simp
  have fb2: "m_connected (select_pair 0 (set_succeeded 0 b1))"
    "m_selected (select_pair 0 (set_succeeded 0 b1)) = (Ip candA, Port candA)"
    by (simp_all add: select_pair_def set_succeeded_def fb1 pB_def)
  show ?thesis
    unfolding ice_exchange_def s1 by (simp add: p1 p2 s3 p3 fa3 fb2)
qed

theorem ice_agents_connect_witness:
  "\<exists>a' b'. ice_exchange (\<lambda>k m i. of_nat (length m) + k ! 0) (\<lambda>_. []) (\<lambda>_. [1]) ''10.0.0.1'' 443 ''10.0.0.1'' 443
      (AddRemoteCandidate cand_example (IceAgent_new IceAgentRole_Controlling ''ua'' ''pa'' ''ub'' ''pb'' []))
      (AddRemoteCandidate cand_example (IceAgent_new IceAgentRole_Controlled ''ub'' ''pb'' ''ua'' ''pa'' []))
    = Some ([ProcessResult_BindingRequestProcessed, ProcessResult_ConnectivityEstablished,
             ProcessResult_ConnectivityEstablished], a', b') \<and> m_connected b'"
  using ice_agents_connect [of "''pa''" "''pb''" "''ua''" "''ub''" _ cand_example "[]" _ cand_example "[]"
      "\<lambda>k m i. of_nat (length m) + k ! 0" "\<lambda>_. []" "\<lambda>_. [1]", OF _ _ _ refl refl]
  by (auto simp: cand_example_def)

text \<open>
  Anyone on the path can nominate. A controlled agent that is not connected takes a check
  of its peer which does not carry USE-CANDIDATE as a plain check, and stays unconnected; the same
  datagram with USE-CANDIDATE put in after MESSAGE-INTEGRITY, for which no password is needed,
  connects it to the address of any known pair the datagram is sent from.
\<close>

theorem ice_nomination_forged:
  assumes m: "stun_encodable m" and "MessageType m = kStunBindingRequest" and "\<not> UseCandidate m"
    and pw: "m_localPwd s \<noteq> []" and "m_role s = IceAgentRole_Controlled" and "\<not> m_connected s"
    and i: "FindPair (m_pairs s) ip port = Some i"
    and dgram_def: "dgram = stun_Encode hmac m (m_localPwd s)"
  shows "(\<exists>resp. ProcessIncoming hmac ip port dgram s =
            Some (ProcessResult_BindingRequestProcessed, resp, set_succeeded i s))
    \<and> (\<exists>resp s'. ProcessIncoming hmac ip port (nominate_on_path dgram) s =
            Some (ProcessResult_ConnectivityEstablished, resp, s')
          \<and> m_connected s' \<and> m_selected s' = (ip, port))"
proof
  show "\<exists>resp. ProcessIncoming hmac ip port dgram s =
      Some (ProcessResult_BindingRequestProcessed, resp, set_succeeded i s)"
    using process_request [OF m pw assms(2) i, of hmac] assms(3) by (simp add: dgram_def)
next
  obtain mac where v: "VerifyMessageIntegrity hmac (nominate_on_path dgram) (m_localPwd s) = Some True"
    and d: "stun_Decode (nominate_on_path dgram) = Some (Some (m\<lparr>MessageIntegrity := mac, UseCandidate := True\<rparr>))"
    unfolding dgram_def using nominate_on_path_accepted [OF m pw] by blast
  have a: "authentic hmac s (nominate_on_path dgram) (m\<lparr>MessageIntegrity := mac, UseCandidate := True\<rparr>)"
    using v d assms(2) by (simp add: authentic_def)
  have n: "nominates s (m\<lparr>MessageIntegrity := mac, UseCandidate := True\<rparr>)"
    using assms(2,5) by (simp add: nominates_def)
  have "i < length (m_pairs s)" "Target (m_pairs s ! i) = (ip, port)" using FindPair_Some [OF i] by blast+
  then have "m_selected (select_pair i (set_succeeded i s)) = (ip, port)"
    by (simp add: select_pair_def set_succeeded_nth)
  then show "\<exists>resp s'. ProcessIncoming hmac ip port (nominate_on_path dgram) s =
      Some (ProcessResult_ConnectivityEstablished, resp, s') \<and> m_connected s' \<and> m_selected s' = (ip, port)"
    using ProcessIncoming_authentic [OF a, of ip port] n i assms(6)
    by (simp add: Let_def) (simp add: select_pair_def)
qed

theorem ice_nomination_forged_witness:
  "let s = AddRemoteCandidate cand_example (IceAgent_new IceAgentRole_Controlled ''ub'' ''pb'' ''ua'' ''pa'' []);
       dgram = stun_Encode (\<lambda>k m i. k ! 0) (stun_example\<lparr>UseCandidate := False\<rparr>) ''pb''
   in \<exists>resp s'. ProcessIncoming (\<lambda>k m i. k ! 0) ''10.0.0.1'' 443 (nominate_on_path dgram) s =
        Some (ProcessResult_ConnectivityEstablished, resp, s') \<and> m_selected s' = (''10.0.0.1'', 443)"
proof -
  let ?s = "AddRemoteCandidate cand_example (IceAgent_new IceAgentRole_Controlled ''ub'' ''pb'' ''ua'' ''pa'' [])"
  have "stun_encodable (stun_example\<lparr>UseCandidate := False\<rparr>)"
    by (simp add: stun_encodable_def stun_example_def StunMessage_default_def)
  moreover have "MessageType (stun_example\<lparr>UseCandidate := False\<rparr>) = kStunBindingRequest"
    by (simp add: stun_example_def)
  moreover have "m_localPwd ?s = ''pb''" "m_role ?s = IceAgentRole_Controlled" "\<not> m_connected ?s"
    "FindPair (m_pairs ?s) ''10.0.0.1'' 443 = Some 0"
    by (simp_all add: AddRemoteCandidate_def IceAgent_new_def cand_example_def)
  ultimately show ?thesis
    using ice_nomination_forged [of "stun_example\<lparr>UseCandidate := False\<rparr>" ?s "''10.0.0.1''" 443 0 _ "\<lambda>k m i. k ! 0", OF _ _ _ _ _ _ _ refl]
    by (simp add: Let_def) blast
qed


section \<open>Local candidates\<close>

text \<open>The local preference of the \<open>i\<close>-th reflector.\<close>

fun local_pref :: "u32 \<Rightarrow> nat \<Rightarrow> u32" where
  "local_pref lp 0 = lp"
| "local_pref lp (Suc i) = local_pref (if lp > 1024 then lp - 1024 else 1) i"

lemma length_local_candidates:
  "length (snd (local_candidates ufrag port counter lp ips)) = length ips"
  by (induction ips arbitrary: counter lp) (simp_all add: Let_def split_beta)

lemma local_candidates_nth:
  "i < length ips \<Longrightarrow> snd (local_candidates ufrag port counter lp ips) ! i =
     ParsedIceCandidate_default\<lparr>
       Foundation := ''rl'' @ show_nat (unat (counter + of_nat i + 1)), ComponentId := 1,
       Transport := ''udp'', CandPriority := MakePriority 0 (local_pref lp i) 1, Ip := ips ! i,
       Port := port, Type := IceCandidateType_Relay, Ufrag := ufrag, NetworkId := 1,
       NetworkCost := 50, Generation := 0\<rparr>"
proof (induction ips arbitrary: counter lp i)
  case (Cons ip ips)
  show ?case
  proof (cases i)
    case 0
    then show ?thesis by (simp add: Let_def split_beta)
  next
    case (Suc j)
    then have "j < length ips" using Cons.prems by simp
    from Cons.IH [OF this, of "counter + 1" "if lp > 1024 then lp - 1024 else 1"] Suc show ?thesis
      by (simp add: Let_def split_beta ac_simps)
  qed
qed simp

lemma unat_local_pref:
  "unat lp = n \<Longrightarrow> 0 < n \<Longrightarrow> unat (local_pref lp i) = (if 1024 * i < n then n - 1024 * i else 1)"
proof (induction i arbitrary: lp n)
  case (Suc i)
  show ?case
  proof (cases "1024 < n")
    case True
    then have g: "lp > 1024" using Suc.prems by (simp add: word_less_nat_alt)
    then have "unat (lp - 1024) = n - 1024" using Suc.prems True by (simp add: unat_sub_if')
    with Suc.IH [of "lp - 1024" "n - 1024"] True g show ?thesis by simp linarith?
  next
    case False
    then have g: "\<not> lp > 1024" using Suc.prems by (simp add: word_less_nat_alt)
    have "unat (local_pref 1 i) = (if 1024 * i < 1 then 1 - 1024 * i else 1)"
      by (rule Suc.IH) simp_all
    with False g show ?thesis by (cases i) simp_all
  qed
qed simp

lemma MakePriority_pref:
  assumes "unat lp < 2 ^ 16"
  shows "unat (MakePriority 0 lp 1) = 256 * unat lp + 255"
proof -
  have "push_bit 8 lp AND (255 :: u32) = 0"
  proof (rule bit_word_eqI)
    fix n
    have m: "(255 :: u32) = mask 8" by (simp add: mask_eq_exp_minus_1)
    show "bit (push_bit 8 lp AND (255 :: u32)) n = bit 0 n" unfolding m by (auto simp: bit_simps)
  qed
  then have "MakePriority 0 lp 1 = push_bit 8 lp + 255"
    by (simp add: MakePriority_def disjunctive_add_eq_or)
  also have "\<dots> = lp * 256 + 255" by (simp add: push_bit_eq_mult)
  finally have "MakePriority 0 lp 1 = of_nat (256 * unat lp + 255)" by simp
  moreover have "256 * unat lp + 255 < 2 ^ 32" using assms by simp
  ultimately show ?thesis
    by (simp only: unsigned_of_nat take_bit_nat_eq_self len_bit0 len_num1) (simp add: take_bit_nat_eq_self)
qed

text \<open>
  The local candidates are in order of preference, the first reflector first: each of the
  first sixty-four candidates has a strictly higher priority than every one after it, and all from the
  sixty-fifth on share the lowest priority. There is one relay candidate per
  reflector, with its address, the announced port and the agent's user fragment.
\<close>

theorem ice_local_candidates:
  assumes "j < length ips" and "i < j"
    and cs_def: "cs = fst (GenerateLocalCandidates ips port s)"
  shows "length cs = length ips \<and> Ip (cs ! i) = ips ! i \<and> Port (cs ! i) = port
    \<and> Ufrag (cs ! i) = m_localUfrag s \<and> Type (cs ! i) = IceCandidateType_Relay
    \<and> (if i < 64 then CandPriority (cs ! j) < CandPriority (cs ! i)
       else CandPriority (cs ! j) = CandPriority (cs ! i) \<and> CandPriority (cs ! i) = 511)"
proof -
  have cs: "cs = snd (local_candidates (m_localUfrag s) port (m_priorityCounter s) 65535 ips)"
    by (simp add: cs_def GenerateLocalCandidates_def split_beta)
  have i: "i < length ips" using assms(1,2) by simp
  have p: "unat (local_pref 65535 k) = (if k < 64 then 65535 - 1024 * k else 1)" for k
    using unat_local_pref [of 65535 65535 k] by simp linarith?
  have prio: "unat (MakePriority 0 (local_pref 65535 k) 1) = (if k < 64 then 256 * (65535 - 1024 * k) + 255 else 511)" for k
    using MakePriority_pref [of "local_pref 65535 k"] by (simp add: p)
  show ?thesis
    using assms(2) prio [of i] prio [of j]
    by (simp add: cs local_candidates_nth [OF i] local_candidates_nth [OF assms(1)] length_local_candidates
        word_less_nat_alt word_unat_eq_iff) linarith?
qed

theorem ice_local_candidates_witness:
  "let cs = fst (GenerateLocalCandidates [''1.2.3.4'', ''5.6.7.8''] 443
       (IceAgent_new IceAgentRole_Controlled ''u'' ''p'' ''v'' ''q'' []))
   in CandPriority (cs ! 1) < CandPriority (cs ! 0)"
  using ice_local_candidates [of 1 "[''1.2.3.4'', ''5.6.7.8'']" 0
      _ 443 "IceAgent_new IceAgentRole_Controlled ''u'' ''p'' ''v'' ''q'' []", OF _ _ refl]
  by simp

end
