(* ===== verification/DtlsRecord.thy ===== *)
theory DtlsRecord
  imports Interfaces
begin

text \<open>
  DTLS 1.2 record framing, \<open>infrastructure/dtls/dtls_record.h\<close> and \<open>dtls_record.cpp\<close>: a header of
  thirteen bytes and the fragment. A decoder says how many bytes it took, so records can follow one
  another in a datagram. A null \<open>data\<close> pointer is the empty buffer, refused by the same test.
\<close>

unbundle bit_operations_syntax

definition kDtlsContentChangeCipherSpec :: u8 where "kDtlsContentChangeCipherSpec = 20"
definition kDtlsContentAlert :: u8 where "kDtlsContentAlert = 21"
definition kDtlsContentHandshake :: u8 where "kDtlsContentHandshake = 22"
definition kDtlsContentApplicationData :: u8 where "kDtlsContentApplicationData = 23"
definition kDtlsVersion12 :: u16 where "kDtlsVersion12 = 0xFEFD"
definition kDtlsRecordHeaderSize :: nat where "kDtlsRecordHeaderSize = 13"

record DtlsRecord =
  dtls_type :: u8
  dtls_version :: u16
  dtls_epoch :: u16
  dtls_sequenceNumber :: u64
  dtls_payload :: bytes

definition DtlsRecord_default :: DtlsRecord where
  "DtlsRecord_default = \<lparr>dtls_type = kDtlsContentHandshake, dtls_version = kDtlsVersion12,
     dtls_epoch = 0, dtls_sequenceNumber = 0, dtls_payload = []\<rparr>"

definition dtls_Encode :: "DtlsRecord \<Rightarrow> bytes" where
  "dtls_Encode r =
     [dtls_type r] @ be16 (dtls_version r) @ be16 (dtls_epoch r) @
     be48 (dtls_sequenceNumber r AND 0x0000FFFFFFFFFFFF) @
     be16 (of_nat (length (dtls_payload r))) @ dtls_payload r"

text \<open>
  \<open>Some None\<close> is the return of false (\<open>consumed\<close> is 0 then), \<open>Some (Some (r, consumed))\<close> the
  success.
\<close>

definition dtls_Decode :: "bytes \<Rightarrow> (DtlsRecord \<times> nat) option option" where
  "dtls_Decode bs =
     (if length bs < kDtlsRecordHeaderSize then Some None
      else do {
        t \<leftarrow> rd8 bs 0;
        v \<leftarrow> rd_be16 bs 1;
        e \<leftarrow> rd_be16 bs 3;
        s \<leftarrow> rd_be48 bs 5;
        l \<leftarrow> rd_be16 bs 11;
        if length bs < kDtlsRecordHeaderSize + unat l then Some None
        else do {
          p \<leftarrow> subbuf bs kDtlsRecordHeaderSize (kDtlsRecordHeaderSize + unat l);
          Some (Some (\<lparr>dtls_type = t, dtls_version = v, dtls_epoch = e, dtls_sequenceNumber = s,
                       dtls_payload = p\<rparr>, kDtlsRecordHeaderSize + unat l))
        }
      })"

definition PeekRecordSize :: "bytes \<Rightarrow> nat option" where
  "PeekRecordSize bs =
     (if length bs < kDtlsRecordHeaderSize then Some 0
      else do {
        l \<leftarrow> rd_be16 bs 11;
        let total = kDtlsRecordHeaderSize + unat l;
        Some (if total > length bs then 0 else total)
      })"


section \<open>The framing contract\<close>

text \<open>The records the 16-bit length and the 48-bit sequence number can carry.\<close>

definition dtls_encodable :: "DtlsRecord \<Rightarrow> bool" where
  "dtls_encodable r \<longleftrightarrow>
     length (dtls_payload r) < 65536 \<and> dtls_sequenceNumber r AND 0x0000FFFFFFFFFFFF = dtls_sequenceNumber r"

lemma mask48: "v AND 0x0000FFFFFFFFFFFF = take_bit 48 (v :: u64)"
  by (simp add: take_bit_eq_mask mask_eq_exp_minus_1)

lemma length_dtls_Encode: "length (dtls_Encode r) = 13 + length (dtls_payload r)"
  by (simp add: dtls_Encode_def)

lemma dtls_Decode_Encode:
  assumes "dtls_encodable r"
  shows "dtls_Decode (dtls_Encode r @ rest) = Some (Some (r, length (dtls_Encode r)))"
proof -
  let ?n = "length (dtls_payload r)"
  let ?bs = "dtls_Encode r @ rest"
  have u: "unat (of_nat ?n :: u16) = ?n"
    using assms by (simp add: dtls_encodable_def unat_of_nat take_bit_nat_eq_self)
  have s: "take_bit 48 (dtls_sequenceNumber r) = dtls_sequenceNumber r"
    using assms by (simp add: dtls_encodable_def mask48)
  have "rd8 ?bs 0 = Some (dtls_type r)" "rd_be16 ?bs 1 = Some (dtls_version r)"
    "rd_be16 ?bs 3 = Some (dtls_epoch r)" "rd_be16 ?bs 11 = Some (of_nat ?n)"
    by (simp_all add: dtls_Encode_def rd8_def rd_be16_in be16_def be48_def)
  moreover have "rd_be48 ?bs 5 = Some (dtls_sequenceNumber r)"
    by (simp add: dtls_Encode_def rd_be48_in be16_def be48_def be48_of_byte_at mask48 s)
  moreover have "subbuf ?bs 13 (13 + ?n) = Some (dtls_payload r)"
    by (simp add: subbuf_def dtls_Encode_def be16_def be48_def)
  ultimately show ?thesis
    using u by (simp add: dtls_Decode_def kDtlsRecordHeaderSize_def length_dtls_Encode)
qed

lemma dtls_header_reads:
  assumes "13 \<le> length bs"
  obtains t v e s n where "rd8 bs 0 = Some t" "rd_be16 bs 1 = Some v" "rd_be16 bs 3 = Some e"
    "rd_be48 bs 5 = Some s" "rd_be16 bs 11 = Some n"
proof -
  have "0 < length bs" using assms by linarith
  then show ?thesis
    using assms that [OF rd8_in rd_be16_in rd_be16_in rd_be48_in rd_be16_in] by simp
qed

lemma dtls_Decode_cases:
  "dtls_Decode bs = Some None \<or> (\<exists>r. dtls_Decode bs = Some (Some (r, 13 + length (dtls_payload r)))
     \<and> 13 + length (dtls_payload r) \<le> length bs)"
proof (cases "length bs < 13")
  case True
  then show ?thesis by (simp add: dtls_Decode_def kDtlsRecordHeaderSize_def)
next
  case False
  then have l: "13 \<le> length bs" by simp
  obtain t v e s n where r: "rd8 bs 0 = Some t" "rd_be16 bs 1 = Some v" "rd_be16 bs 3 = Some e"
    "rd_be48 bs 5 = Some s" "rd_be16 bs 11 = Some n"
    by (rule dtls_header_reads [OF l])
  show ?thesis
  proof (cases "length bs < 13 + unat n")
    case True
    then show ?thesis using False r by (simp add: dtls_Decode_def kDtlsRecordHeaderSize_def)
  next
    case fits: False
    then have "subbuf bs 13 (13 + unat n) = Some (take (unat n) (drop 13 bs))"
      by (simp add: subbuf_def)
    then show ?thesis
      using False r fits by (simp add: dtls_Decode_def kDtlsRecordHeaderSize_def min_def, linarith)
  qed
qed

interpretation dtls: framed_codec dtls_Encode dtls_Decode dtls_encodable
proof unfold_locales
  fix m rest assume "dtls_encodable m"
  then show "dtls_Decode (dtls_Encode m @ rest) = Some (Some (m, length (dtls_Encode m)))"
    by (rule dtls_Decode_Encode)
next
  fix bs show "dtls_Decode bs \<noteq> None" using dtls_Decode_cases [of bs] by auto
next
  fix bs m n assume "dtls_Decode bs = Some (Some (m, n))"
  then show "0 < n \<and> n \<le> length bs" using dtls_Decode_cases [of bs] by auto
qed


section \<open>Properties\<close>

text \<open>
  Records packed into one datagram come out of it one by one: decoding at the front and
  advancing by the bytes consumed gives back exactly the records that were encoded, in order, with
  nothing left over.
\<close>

theorem dtls_records_in_datagram:
  assumes "\<forall>r \<in> set rs. dtls_encodable r"
  shows "decode_stream dtls_Decode (length (concat (map dtls_Encode rs))) (concat (map dtls_Encode rs)) = (rs, [])"
proof -
  let ?bs = "concat (map dtls_Encode rs)"
  have n: "length rs \<le> length ?bs"
    by (induction rs) (simp_all add: length_dtls_Encode)
  have stop: "decode_stream dtls_Decode k [] = ([], [])" for k
    by (cases k) (simp_all add: dtls_Decode_def kDtlsRecordHeaderSize_def)
  show ?thesis
    using dtls.decode_stream_concat [OF assms n, of "[]"] by (simp add: stop)
qed

theorem dtls_records_in_datagram_witness:
  "decode_stream dtls_Decode 28 (dtls_Encode (DtlsRecord_default\<lparr>dtls_payload := [1, 2]\<rparr>) @ dtls_Encode DtlsRecord_default)
     = ([DtlsRecord_default\<lparr>dtls_payload := [1, 2]\<rparr>, DtlsRecord_default], [])"
  using dtls_records_in_datagram [of "[DtlsRecord_default\<lparr>dtls_payload := [1, 2]\<rparr>, DtlsRecord_default]"]
  by (simp add: dtls_encodable_def DtlsRecord_default_def length_dtls_Encode)

text \<open>
  On every datagram the record decoder stays inside it, and consumes exactly what
  \<open>PeekRecordSize\<close> announces: a whole header and fragment, or nothing when either is cut short.
\<close>

theorem dtls_decode_consumes_peek:
  "\<exists>r. dtls_Decode bs = Some r
     \<and> PeekRecordSize bs = Some (case r of None \<Rightarrow> 0 | Some (_, n) \<Rightarrow> n)
     \<and> (case r of None \<Rightarrow> True | Some (m, n) \<Rightarrow> n = 13 + length (dtls_payload m) \<and> n \<le> length bs)"
proof (cases "length bs < 13")
  case True
  then show ?thesis by (simp add: dtls_Decode_def PeekRecordSize_def kDtlsRecordHeaderSize_def)
next
  case False
  then have l: "13 \<le> length bs" by simp
  obtain t v e s n where r: "rd8 bs 0 = Some t" "rd_be16 bs 1 = Some v" "rd_be16 bs 3 = Some e"
    "rd_be48 bs 5 = Some s" "rd_be16 bs 11 = Some n"
    by (rule dtls_header_reads [OF l])
  show ?thesis
    using False r
    by (simp add: dtls_Decode_def PeekRecordSize_def kDtlsRecordHeaderSize_def subbuf_def Let_def not_less)
qed

end
