(* ===== verification/DtlsMessages.thy ===== *)
theory DtlsMessages
  imports DtlsRecord Primitives
begin

text \<open>
  The DTLS 1.2 handshake messages, \<open>infrastructure/dtls/dtls_handshake_messages.h\<close> and
  \<open>dtls_handshake_messages.cpp\<close>. A decoder returns \<open>Some None\<close> where the code returns false and
  \<open>Some (Some m)\<close> where it fills \<open>out\<close>; \<open>None\<close> is a read past the buffer.
\<close>

unbundle bit_operations_syntax

definition kHsClientHello :: u8 where "kHsClientHello = 1"
definition kHsServerHello :: u8 where "kHsServerHello = 2"
definition kHsHelloVerifyRequest :: u8 where "kHsHelloVerifyRequest = 3"
definition kHsCertificate :: u8 where "kHsCertificate = 11"
definition kHsServerKeyExchange :: u8 where "kHsServerKeyExchange = 12"
definition kHsCertificateRequest :: u8 where "kHsCertificateRequest = 13"
definition kHsServerHelloDone :: u8 where "kHsServerHelloDone = 14"
definition kHsCertificateVerify :: u8 where "kHsCertificateVerify = 15"
definition kHsClientKeyExchange :: u8 where "kHsClientKeyExchange = 16"
definition kHsFinished :: u8 where "kHsFinished = 20"

lemmas kHs_defs = kHsClientHello_def kHsServerHello_def kHsHelloVerifyRequest_def kHsCertificate_def
  kHsServerKeyExchange_def kHsCertificateRequest_def kHsServerHelloDone_def kHsCertificateVerify_def
  kHsClientKeyExchange_def kHsFinished_def

definition kCsEcdheEcdsaAes128GcmSha256 :: u16 where "kCsEcdheEcdsaAes128GcmSha256 = 0xC02B"
definition kNgSecp256r1 :: u16 where "kNgSecp256r1 = 0x0017"
definition kEcPointFormatUncompressed :: u8 where "kEcPointFormatUncompressed = 0"
definition kSigAlgEcdsaSecp256r1Sha256 :: u16 where "kSigAlgEcdsaSecp256r1Sha256 = 0x0403"
definition kExtSupportedGroups :: u16 where "kExtSupportedGroups = 0x000A"
definition kExtEcPointFormats :: u16 where "kExtEcPointFormats = 0x000B"
definition kExtSignatureAlgorithms :: u16 where "kExtSignatureAlgorithms = 0x000D"
definition kExtUseSrtp :: u16 where "kExtUseSrtp = 0x000E"
definition kExtExtendedMasterSecret :: u16 where "kExtExtendedMasterSecret = 0x0017"
definition kSrtpAes128CmHmacSha1_80 :: u16 where "kSrtpAes128CmHmacSha1_80 = 0x0001"
definition kHandshakeHeaderSize :: nat where "kHandshakeHeaderSize = 12"
definition kVerifyDataLength :: nat where "kVerifyDataLength = 12"

lemmas kExt_defs = kExtSupportedGroups_def kExtEcPointFormats_def kExtSignatureAlgorithms_def
  kExtUseSrtp_def kExtExtendedMasterSecret_def


section \<open>Handshake header\<close>

record HandshakeHeader =
  hh_msgType :: u8
  hh_length :: u32
  hh_messageSeq :: u16
  hh_fragmentOffset :: u32
  hh_fragmentLength :: u32

definition HandshakeHeader_Encode :: "HandshakeHeader \<Rightarrow> bytes" where
  "HandshakeHeader_Encode h =
     [hh_msgType h] @ be24 (hh_length h) @ be16 (hh_messageSeq h) @ be24 (hh_fragmentOffset h) @
     be24 (hh_fragmentLength h)"

definition HandshakeHeader_Decode :: "bytes \<Rightarrow> HandshakeHeader option option" where
  "HandshakeHeader_Decode bs =
     (if length bs < kHandshakeHeaderSize then Some None
      else do {
        t \<leftarrow> rd8 bs 0;
        l \<leftarrow> rd_be24 bs 1;
        s \<leftarrow> rd_be16 bs 4;
        fo \<leftarrow> rd_be24 bs 6;
        fl \<leftarrow> rd_be24 bs 9;
        Some (Some \<lparr>hh_msgType = t, hh_length = l, hh_messageSeq = s, hh_fragmentOffset = fo,
                    hh_fragmentLength = fl\<rparr>)
      })"

definition WrapHandshakeUnfragmented :: "u8 \<Rightarrow> u16 \<Rightarrow> bytes \<Rightarrow> bytes" where
  "WrapHandshakeUnfragmented msgType messageSeq body =
     HandshakeHeader_Encode \<lparr>hh_msgType = msgType, hh_length = of_nat (length body), hh_messageSeq = messageSeq,
       hh_fragmentOffset = 0, hh_fragmentLength = of_nat (length body)\<rparr> @ body"


section \<open>ClientHello\<close>

record ClientHello =
  ch_random :: bytes
  ch_sessionId :: bytes
  ch_cookie :: bytes
  ch_cipherSuites :: "u16 list"
  ch_compressionMethods :: bytes
  ch_supportedGroups :: "u16 list"
  ch_ecPointFormats :: bytes
  ch_signatureAlgorithms :: "u16 list"
  ch_srtpProtectionProfiles :: "u16 list"
  ch_srtpMki :: bytes
  ch_extendedMasterSecret :: bool

definition ClientHello_default :: ClientHello where
  "ClientHello_default =
     \<lparr>ch_random = replicate 32 0, ch_sessionId = [], ch_cookie = [], ch_cipherSuites = [],
      ch_compressionMethods = [], ch_supportedGroups = [], ch_ecPointFormats = [],
      ch_signatureAlgorithms = [], ch_srtpProtectionProfiles = [], ch_srtpMki = [],
      ch_extendedMasterSecret = True\<rparr>"

definition u8_length :: "'a list \<Rightarrow> u8" where "u8_length xs = of_nat (length xs)"
definition u16_length :: "'a list \<Rightarrow> u16" where "u16_length xs = of_nat (length xs)"

text \<open>The list of 16-bit values behind its length in bytes, as in four places of the encoder.\<close>

definition u16_list :: "u16 list \<Rightarrow> bytes" where
  "u16_list xs = be16 (of_nat (length xs * 2)) @ concat (map be16 xs)"

text \<open>\<open>AppendU16(exts, type); AppendU16(exts, body2.size()); AppendBytes(exts, body2)\<close>\<close>

definition hello_extension :: "u16 \<Rightarrow> bytes \<Rightarrow> bytes" where
  "hello_extension t body2 = be16 t @ be16 (u16_length body2) @ body2"

definition client_extensions :: "ClientHello \<Rightarrow> bytes" where
  "client_extensions m =
     (if ch_supportedGroups m = [] then []
      else hello_extension kExtSupportedGroups (u16_list (ch_supportedGroups m))) @
     (if ch_ecPointFormats m = [] then []
      else hello_extension kExtEcPointFormats (u8_length (ch_ecPointFormats m) # ch_ecPointFormats m)) @
     (if ch_signatureAlgorithms m = [] then []
      else hello_extension kExtSignatureAlgorithms (u16_list (ch_signatureAlgorithms m))) @
     (if ch_srtpProtectionProfiles m = [] then []
      else hello_extension kExtUseSrtp
             (u16_list (ch_srtpProtectionProfiles m) @ [u8_length (ch_srtpMki m)] @ ch_srtpMki m)) @
     (if ch_extendedMasterSecret m then be16 kExtExtendedMasterSecret @ be16 0 else [])"

definition ClientHello_Encode :: "ClientHello \<Rightarrow> bytes" where
  "ClientHello_Encode m =
     be16 kDtlsVersion12 @ ch_random m @
     [u8_length (ch_sessionId m)] @ ch_sessionId m @
     [u8_length (ch_cookie m)] @ ch_cookie m @
     u16_list (ch_cipherSuites m) @
     [u8_length (ch_compressionMethods m)] @ ch_compressionMethods m @
     (let exts = client_extensions m in be16 (u16_length exts) @ exts)"


section \<open>Messages from the server\<close>

record HelloVerifyRequest =
  hvr_serverVersion :: u16
  hvr_cookie :: bytes

definition HelloVerifyRequest_Decode :: "bytes \<Rightarrow> HelloVerifyRequest option option" where
  "HelloVerifyRequest_Decode bs =
     (if length bs < 3 then Some None
      else do {
        v \<leftarrow> rd_be16 bs 0;
        cookieLen \<leftarrow> rd8 bs 2;
        if length bs < 3 + unat cookieLen then Some None
        else do {
          c \<leftarrow> subbuf bs 3 (3 + unat cookieLen);
          Some (Some \<lparr>hvr_serverVersion = v, hvr_cookie = c\<rparr>)
        }
      })"

record ServerHello =
  sh_serverVersion :: u16
  sh_random :: bytes
  sh_sessionId :: bytes
  sh_cipherSuite :: u16
  sh_compressionMethod :: u8
  sh_extendedMasterSecret :: bool
  sh_useSrtpPresent :: bool
  sh_srtpProtectionProfile :: u16

definition ServerHello_default :: ServerHello where
  "ServerHello_default =
     \<lparr>sh_serverVersion = kDtlsVersion12, sh_random = replicate 32 0, sh_sessionId = [], sh_cipherSuite = 0,
      sh_compressionMethod = 0, sh_extendedMasterSecret = False, sh_useSrtpPresent = False,
      sh_srtpProtectionProfile = 0\<rparr>"

text \<open>One extension of type \<open>extType\<close> whose \<open>extLen\<close> bytes start at \<open>pos\<close>.\<close>

definition server_hello_extension :: "bytes \<Rightarrow> nat \<Rightarrow> u16 \<Rightarrow> u16 \<Rightarrow> ServerHello \<Rightarrow> ServerHello option" where
  "server_hello_extension bs pos extType extLen out =
     (if extType = kExtExtendedMasterSecret then Some (out\<lparr>sh_extendedMasterSecret := True\<rparr>)
      else if extType = kExtUseSrtp then
        (if 2 \<le> unat extLen
         then do {
           profsLen \<leftarrow> rd_be16 bs pos;
           if 2 \<le> unat profsLen \<and> 2 + unat profsLen \<le> unat extLen
           then do {
             p \<leftarrow> rd_be16 bs (pos + 2);
             Some (out\<lparr>sh_useSrtpPresent := True, sh_srtpProtectionProfile := p\<rparr>)
           }
           else Some out
         }
         else Some out)
      else Some out)"

function server_hello_extensions :: "bytes \<Rightarrow> nat \<Rightarrow> nat \<Rightarrow> ServerHello \<Rightarrow> ServerHello option option" where
  "server_hello_extensions bs pos extsEnd out =
     (if extsEnd < pos + 4 then Some (Some out)
      else do {
        extType \<leftarrow> rd_be16 bs pos;
        extLen \<leftarrow> rd_be16 bs (pos + 2);
        if extsEnd < pos + 4 + unat extLen then Some None
        else do {
          out \<leftarrow> server_hello_extension bs (pos + 4) extType extLen out;
          server_hello_extensions bs (pos + 4 + unat extLen) extsEnd out
        }
      })"
  by pat_completeness auto
termination
  by (relation "measure (\<lambda>(bs, pos, extsEnd, out). extsEnd - pos)") auto

declare server_hello_extensions.simps [simp del]

text \<open>The end of the hello, from the byte after the compression method on.\<close>

definition server_hello_tail :: "bytes \<Rightarrow> nat \<Rightarrow> ServerHello \<Rightarrow> ServerHello option option" where
  "server_hello_tail bs pos out =
     (if pos = length bs then Some (Some out)
      else if length bs < pos + 2 then Some None
      else do {
        extsLen \<leftarrow> rd_be16 bs pos;
        let pos = pos + 2;
        if length bs < pos + unat extsLen then Some None
        else server_hello_extensions bs pos (pos + unat extsLen) out
      })"

definition ServerHello_Decode :: "bytes \<Rightarrow> ServerHello option option" where
  "ServerHello_Decode bs =
     (if length bs < 2 + 32 + 1 then Some None
      else do {
        v \<leftarrow> rd_be16 bs 0;
        rnd \<leftarrow> subbuf bs 2 34;
        sidLen \<leftarrow> rd8 bs 34;
        let pos = 35;
        if length bs < pos + unat sidLen then Some None
        else do {
          sid \<leftarrow> subbuf bs pos (pos + unat sidLen);
          let pos = pos + unat sidLen;
          if length bs < pos + 3 then Some None
          else do {
            suite \<leftarrow> rd_be16 bs pos;
            cmeth \<leftarrow> rd8 bs (pos + 2);
            let pos = pos + 3;
            let out = ServerHello_default\<lparr>sh_serverVersion := v, sh_random := rnd, sh_sessionId := sid,
                        sh_cipherSuite := suite, sh_compressionMethod := cmeth,
                        sh_extendedMasterSecret := False, sh_useSrtpPresent := False\<rparr>;
            server_hello_tail bs pos out
          }
        }
      })"

text \<open>
  The chain, leaf first. A 24-bit length plus three does not wrap in the 32 bits of the sum
  \<open>3 + listLen\<close>.
\<close>

function certificate_entries :: "bytes \<Rightarrow> nat \<Rightarrow> nat \<Rightarrow> bytes list option option" where
  "certificate_entries bs pos listEnd =
     (if listEnd < pos + 3 then Some (Some [])
      else do {
        certLen \<leftarrow> rd_be24 bs pos;
        if listEnd < pos + 3 + unat certLen then Some None
        else do {
          cert \<leftarrow> subbuf bs (pos + 3) (pos + 3 + unat certLen);
          rest \<leftarrow> certificate_entries bs (pos + 3 + unat certLen) listEnd;
          Some (map_option (\<lambda>certs. cert # certs) rest)
        }
      })"
  by pat_completeness auto
termination
  by (relation "measure (\<lambda>(bs, pos, listEnd). listEnd - pos)") auto

declare certificate_entries.simps [simp del]

definition Certificate_Decode :: "bytes \<Rightarrow> bytes list option option" where
  "Certificate_Decode bs =
     (if length bs < 3 then Some None
      else do {
        listLen \<leftarrow> rd_be24 bs 0;
        if length bs < unat (3 + listLen) then Some None
        else certificate_entries bs 3 (3 + unat listLen)
      })"

record ServerKeyExchange =
  ske_namedCurve :: u16
  ske_publicPoint :: bytes
  ske_hashAlgorithm :: u8
  ske_signatureAlgorithm :: u8
  ske_signature :: bytes
  ske_signedParams :: bytes

definition ServerKeyExchange_Decode :: "bytes \<Rightarrow> ServerKeyExchange option option" where
  "ServerKeyExchange_Decode bs =
     (if length bs < 4 then Some None
      else do {
        curveType \<leftarrow> rd8 bs 0;
        if curveType \<noteq> 0x03 then Some None
        else do {
          curve \<leftarrow> rd_be16 bs 1;
          pointLen \<leftarrow> rd8 bs 3;
          if length bs < 4 + unat pointLen then Some None
          else do {
            point \<leftarrow> subbuf bs 4 (4 + unat pointLen);
            signed \<leftarrow> subbuf bs 0 (4 + unat pointLen);
            let pos = 4 + unat pointLen;
            if length bs < pos + 2 then Some None
            else do {
              h \<leftarrow> rd8 bs pos;
              s \<leftarrow> rd8 bs (pos + 1);
              let pos = pos + 2;
              if length bs < pos + 2 then Some None
              else do {
                sigLen \<leftarrow> rd_be16 bs pos;
                let pos = pos + 2;
                if length bs < pos + unat sigLen then Some None
                else do {
                  sig \<leftarrow> subbuf bs pos (pos + unat sigLen);
                  Some (Some \<lparr>ske_namedCurve = curve, ske_publicPoint = point, ske_hashAlgorithm = h,
                              ske_signatureAlgorithm = s, ske_signature = sig, ske_signedParams = signed\<rparr>)
                }
              }
            }
          }
        }
      })"

definition Finished_Decode :: "bytes \<Rightarrow> bytes option option" where
  "Finished_Decode bs =
     (if length bs < kVerifyDataLength then Some None
      else do { v \<leftarrow> subbuf bs 0 kVerifyDataLength; Some (Some v) })"


section \<open>Messages from the client\<close>

definition ClientKeyExchange_Encode :: "bytes \<Rightarrow> bytes" where
  "ClientKeyExchange_Encode publicPoint = [u8_length publicPoint] @ publicPoint"

record CertificateVerify =
  cv_hashAlgorithm :: u8
  cv_signatureAlgorithm :: u8
  cv_signature :: bytes

definition CertificateVerify_Encode :: "CertificateVerify \<Rightarrow> bytes" where
  "CertificateVerify_Encode m =
     [cv_hashAlgorithm m, cv_signatureAlgorithm m] @ be16 (u16_length (cv_signature m)) @ cv_signature m"

text \<open>The C array of \<open>kVerifyDataLength\<close> bytes is a list of that length.\<close>

definition Finished_Encode :: "bytes \<Rightarrow> bytes" where
  "Finished_Encode verifyData = take kVerifyDataLength verifyData"


section \<open>Every read is inside the buffer\<close>

lemma header_decode_defined: "HandshakeHeader_Decode bs \<noteq> None"
  by (cases bs) (simp_all add: HandshakeHeader_Decode_def kHandshakeHeaderSize_def read_simps)

lemma hello_verify_defined: "HelloVerifyRequest_Decode bs \<noteq> None"
  by (simp add: HelloVerifyRequest_Decode_def read_simps)

lemma server_hello_extension_defined:
  "pos + unat l \<le> length bs \<Longrightarrow> server_hello_extension bs pos t l out \<noteq> None"
  by (auto simp: server_hello_extension_def read_simps)

lemma server_hello_extensions_defined:
  "extsEnd \<le> length bs \<Longrightarrow> server_hello_extensions bs pos extsEnd out \<noteq> None"
proof (induction bs pos extsEnd out rule: server_hello_extensions.induct)
  case (1 bs pos extsEnd out)
  show ?case
  proof (cases "extsEnd < pos + 4")
    case True
    then show ?thesis by (simp add: server_hello_extensions.simps)
  next
    case False
    obtain t l where r: "rd_be16 bs pos = Some t" "rd_be16 bs (pos + 2) = Some l"
      using False "1.prems" by (simp add: read_simps)
    show ?thesis
    proof (cases "extsEnd < pos + 4 + unat l")
      case True
      then show ?thesis using False r by (simp add: server_hello_extensions.simps [of bs pos])
    next
      case fits: False
      then obtain out' where o: "server_hello_extension bs (pos + 4) t l out = Some out'"
        using server_hello_extension_defined [of "pos + 4" l bs t out] "1.prems" by auto
      show ?thesis
        using False r fits o "1.IH" [OF False r fits o "1.prems"]
        by (simp add: server_hello_extensions.simps [of bs pos])
    qed
  qed
qed

lemma server_hello_tail_defined: "pos \<le> length bs \<Longrightarrow> server_hello_tail bs pos out \<noteq> None"
  using server_hello_extensions_defined [of _ bs]
  by (simp add: server_hello_tail_def read_simps Let_def)

lemma server_hello_defined: "ServerHello_Decode bs \<noteq> None"
  using server_hello_tail_defined [of _ bs]
  by (simp add: ServerHello_Decode_def read_simps Let_def)

lemma certificate_entries_defined:
  "listEnd \<le> length bs \<Longrightarrow> certificate_entries bs pos listEnd \<noteq> None"
proof (induction bs pos listEnd rule: certificate_entries.induct)
  case (1 bs pos listEnd)
  show ?case
  proof (cases "listEnd < pos + 3")
    case True
    then show ?thesis by (simp add: certificate_entries.simps)
  next
    case False
    obtain l where r: "rd_be24 bs pos = Some l"
      using False "1.prems" by (simp add: read_simps)
    show ?thesis
    proof (cases "listEnd < pos + 3 + unat l")
      case True
      then show ?thesis using False r by (simp add: certificate_entries.simps [of bs pos])
    next
      case fits: False
      then obtain c where c: "subbuf bs (pos + 3) (pos + 3 + unat l) = Some c"
        using "1.prems" by (simp add: subbuf_def)
      show ?thesis
        using False r fits c "1.IH" [OF False r fits c "1.prems"]
        by (auto simp: certificate_entries.simps [of bs pos])
    qed
  qed
qed

lemma list_length_no_wrap: "l \<le> 0xFFFFFF \<Longrightarrow> unat (3 + l :: u32) = 3 + unat l"
  by (simp add: unat_word_ariths word_le_nat_alt)

lemma certificate_defined: "Certificate_Decode bs \<noteq> None"
  using certificate_entries_defined [of _ bs 3]
  by (auto simp: Certificate_Decode_def read_simps list_length_no_wrap be24_of_le not_less)

lemma key_exchange_defined: "ServerKeyExchange_Decode bs \<noteq> None"
  by (cases bs) (simp_all add: ServerKeyExchange_Decode_def read_simps Let_def subbuf_def)

lemma finished_defined: "Finished_Decode bs \<noteq> None"
  by (simp add: Finished_Decode_def subbuf_def kVerifyDataLength_def)

text \<open>
  Whatever the peer sends, no decoder of the handshake reads outside the message, lengths
  and offsets inside it notwithstanding, and the extension and certificate loops end.
\<close>

theorem handshake_reads_in_bounds:
  "HandshakeHeader_Decode bs \<noteq> None \<and> HelloVerifyRequest_Decode bs \<noteq> None \<and> ServerHello_Decode bs \<noteq> None
     \<and> Certificate_Decode bs \<noteq> None \<and> ServerKeyExchange_Decode bs \<noteq> None \<and> Finished_Decode bs \<noteq> None"
  by (simp add: header_decode_defined hello_verify_defined server_hello_defined certificate_defined
      key_exchange_defined finished_defined)


section \<open>Round trips\<close>

lemma be24_back: "v \<le> 0xFFFFFF \<Longrightarrow> rd_be24 (xs @ be24 v @ zs) (length xs) = Some v"
  by (simp add: rd_be24_def rd8_def be24_def nth_append be24_of_byte_at)

lemma HandshakeHeader_roundtrip:
  assumes "hh_length h \<le> 0xFFFFFF" "hh_fragmentOffset h \<le> 0xFFFFFF" "hh_fragmentLength h \<le> 0xFFFFFF"
  shows "HandshakeHeader_Decode (HandshakeHeader_Encode h @ rest) = Some (Some h)"
proof -
  let ?bs = "HandshakeHeader_Encode h @ rest"
  have "rd8 ?bs 0 = Some (hh_msgType h)" "rd_be24 ?bs 1 = Some (hh_length h)"
      "rd_be16 ?bs 4 = Some (hh_messageSeq h)" "rd_be24 ?bs 6 = Some (hh_fragmentOffset h)"
      "rd_be24 ?bs 9 = Some (hh_fragmentLength h)"
    using assms by (simp_all add: HandshakeHeader_Encode_def be24_def be16_def rd8_def rd_be24_in rd_be16_in
        be24_of_byte_at)
  moreover have "\<not> length ?bs < 12" by (simp add: HandshakeHeader_Encode_def)
  ultimately show ?thesis by (simp add: HandshakeHeader_Decode_def kHandshakeHeaderSize_def)
qed

lemma length_HandshakeHeader [simp]: "length (HandshakeHeader_Encode h) = 12"
  by (simp add: HandshakeHeader_Encode_def)

lemma u24_length: "n < 2 ^ 24 \<Longrightarrow> (of_nat n :: u32) \<le> 0xFFFFFF \<and> unat (of_nat n :: u32) = n"
  by (simp add: word_le_nat_alt unat_of_nat)

lemma u16_length_id: "length d < 65536 \<Longrightarrow> unat (u16_length d) = length d"
  by (simp add: u16_length_def unat_of_nat)

lemma u8_length_id: "length d < 256 \<Longrightarrow> unat (u8_length d) = length d"
  by (simp add: u8_length_def unat_of_nat)

text \<open>What one extension means, independently of where it stands.\<close>

definition apply_extension :: "u16 \<times> bytes \<Rightarrow> ServerHello \<Rightarrow> ServerHello" where
  "apply_extension e out =
     (case e of (t, d) \<Rightarrow>
        if t = kExtExtendedMasterSecret then out\<lparr>sh_extendedMasterSecret := True\<rparr>
        else if t = kExtUseSrtp \<and> 4 \<le> length d \<and> 2 \<le> unat (be16_of (d ! 0) (d ! 1))
             \<and> 2 + unat (be16_of (d ! 0) (d ! 1)) \<le> length d
        then out\<lparr>sh_useSrtpPresent := True, sh_srtpProtectionProfile := be16_of (d ! 2) (d ! 3)\<rparr>
        else out)"

definition ext_bytes :: "(u16 \<times> bytes) list \<Rightarrow> bytes" where
  "ext_bytes exts = concat (map (\<lambda>(t, d). hello_extension t d) exts)"

lemma ext_bytes_simps [simp]:
  "ext_bytes [] = []" "ext_bytes ((t, d) # es) = hello_extension t d @ ext_bytes es"
  by (simp_all add: ext_bytes_def)

lemma length_hello_extension [simp]: "length (hello_extension t d) = 4 + length d"
  by (simp add: hello_extension_def)

lemma rd_be16_at: "Suc i < length d \<Longrightarrow> rd_be16 (xs @ d @ zs) (length xs + i) = Some (be16_of (d ! i) (d ! Suc i))"
  by (simp add: rd_be16_in nth_append)

lemma server_hello_extension_at:
  assumes "length d < 65536"
  shows "server_hello_extension (xs @ d @ zs) (length xs) t (u16_length d) out = Some (apply_extension (t, d) out)"
proof -
  have "rd_be16 (xs @ d @ zs) (length xs) = Some (be16_of (d ! 0) (d ! 1))" if "2 \<le> length d"
    using that rd_be16_at [of 0 d xs zs] by simp
  moreover have "rd_be16 (xs @ d @ zs) (length xs + 2) = Some (be16_of (d ! 2) (d ! 3))" if "4 \<le> length d"
    using that rd_be16_at [of 2 d xs zs] by (simp add: numeral_3_eq_3)
  ultimately show ?thesis
    by (simp add: server_hello_extension_def apply_extension_def u16_length_id [OF assms])
qed

lemma server_hello_extensions_at:
  assumes "\<forall>(t, d) \<in> set exts. length d < 65536"
  shows "server_hello_extensions (pre @ ext_bytes exts @ post) (length pre)
           (length pre + length (ext_bytes exts)) out = Some (Some (fold apply_extension exts out))"
  using assms
proof (induction exts arbitrary: pre out)
  case Nil
  then show ?case by (simp add: server_hello_extensions.simps)
next
  case (Cons e exts)
  obtain t d where e: "e = (t, d)" by (cases e)
  with Cons.prems have d: "length d < 65536" by simp
  define bs where "bs = pre @ ext_bytes (e # exts) @ post"
  let ?pre = "pre @ hello_extension t d"
  have t: "rd_be16 bs (length pre) = Some t"
    using rd_be16_middle [of pre t "be16 (u16_length d) @ d @ ext_bytes exts @ post"]
    by (simp add: bs_def e hello_extension_def)
  have l: "rd_be16 bs (length pre + 2) = Some (u16_length d)"
    using rd_be16_middle [of "pre @ be16 t" "u16_length d" "d @ ext_bytes exts @ post"]
    by (simp add: bs_def e hello_extension_def)
  have x: "server_hello_extension bs (length pre + 4) t (u16_length d) out = Some (apply_extension (t, d) out)"
    using server_hello_extension_at [OF d, of "pre @ be16 t @ be16 (u16_length d)" "ext_bytes exts @ post"]
    by (simp add: bs_def e hello_extension_def)
  have "server_hello_extensions bs (length pre) (length pre + length (ext_bytes (e # exts))) out
      = server_hello_extensions bs (length pre + 4 + length d) (length pre + length (ext_bytes (e # exts)))
          (apply_extension (t, d) out)"
    by (subst server_hello_extensions.simps)
      (simp add: t l x u16_length_id [OF d] e del: add_2_eq_Suc' append_assoc)
  also have "\<dots> = Some (Some (fold apply_extension exts (apply_extension (t, d) out)))"
    using Cons.IH [of ?pre "apply_extension (t, d) out"] Cons.prems by (simp add: bs_def e add.assoc)
  finally show ?case by (simp add: bs_def [symmetric], simp add: e)
qed

text \<open>The hello of a server, extensions given as a list.\<close>

definition server_hello_body :: "u16 \<Rightarrow> bytes \<Rightarrow> bytes \<Rightarrow> u16 \<Rightarrow> u8 \<Rightarrow> (u16 \<times> bytes) list \<Rightarrow> bytes" where
  "server_hello_body v rnd sid suite cmeth exts =
     be16 v @ rnd @ [u8_length sid] @ sid @ be16 suite @ [cmeth] @ be16 (u16_length (ext_bytes exts)) @ ext_bytes exts"

lemma ServerHello_Decode_body:
  assumes "length rnd = 32" "length sid < 256" "length (ext_bytes exts) < 65536"
  shows "ServerHello_Decode (server_hello_body v rnd sid suite cmeth exts) =
     Some (Some (fold apply_extension exts
       (ServerHello_default\<lparr>sh_serverVersion := v, sh_random := rnd, sh_sessionId := sid,
          sh_cipherSuite := suite, sh_compressionMethod := cmeth\<rparr>)))"
proof -
  let ?bs = "server_hello_body v rnd sid suite cmeth exts"
  let ?pre = "be16 v @ rnd @ [u8_length sid] @ sid @ be16 suite @ [cmeth] @ be16 (u16_length (ext_bytes exts))"
  have e: "\<forall>(t, d) \<in> set exts. length d < 65536"
  proof -
    have "length d \<le> length (ext_bytes es)" if "(t, d) \<in> set es" for t d es
      using that by (induction es) auto
    with assms(3) show ?thesis by fastforce
  qed
  have "rd_be16 ?bs 0 = Some v"
    using rd_be16_middle [of "[]" v] by (simp add: server_hello_body_def)
  moreover have "subbuf ?bs 2 34 = Some rnd"
    using subbuf_middle [of 34 "be16 v" rnd] assms(1) by (simp add: server_hello_body_def)
  moreover have "rd8 ?bs 34 = Some (u8_length sid)"
    using rd8_middle [of "be16 v @ rnd" "u8_length sid"] assms(1) by (simp add: server_hello_body_def)
  moreover have "subbuf ?bs 35 (35 + length sid) = Some sid"
    using subbuf_middle [of "35 + length sid" "be16 v @ rnd @ [u8_length sid]" sid] assms(1)
    by (simp add: server_hello_body_def)
  moreover have "rd_be16 ?bs (35 + length sid) = Some suite"
    using rd_be16_middle [of "be16 v @ rnd @ [u8_length sid] @ sid" suite] assms(1)
    by (simp add: server_hello_body_def)
  moreover have "rd8 ?bs (35 + length sid + 2) = Some cmeth"
    using rd8_middle [of "be16 v @ rnd @ [u8_length sid] @ sid @ be16 suite" cmeth] assms(1)
    by (simp add: server_hello_body_def add.commute)
  moreover have "rd_be16 ?bs (35 + length sid + 3) = Some (u16_length (ext_bytes exts))"
    using rd_be16_middle [of "be16 v @ rnd @ [u8_length sid] @ sid @ be16 suite @ [cmeth]"] assms(1)
    by (simp add: server_hello_body_def add.commute)
  moreover have "server_hello_extensions ?bs (35 + length sid + 3 + 2)
      (35 + length sid + 3 + 2 + length (ext_bytes exts)) out = Some (Some (fold apply_extension exts out))" for out
    using server_hello_extensions_at [OF e, of ?pre "[]" out] assms(1)
    by (simp add: server_hello_body_def add.commute add.left_commute)
  moreover have "length ?bs = 40 + length sid + length (ext_bytes exts)"
    using assms(1) by (simp add: server_hello_body_def)
  ultimately show ?thesis
    using assms by (simp add: ServerHello_Decode_def server_hello_tail_def u8_length_id u16_length_id ServerHello_default_def)
qed


text \<open>A certificate list as a peer writes it.\<close>

definition cert_entry :: "bytes \<Rightarrow> bytes" where
  "cert_entry c = be24 (of_nat (length c)) @ c"

definition certificate_body :: "bytes list \<Rightarrow> bytes" where
  "certificate_body chain = (let es = concat (map cert_entry chain) in be24 (of_nat (length es)) @ es)"

lemma length_cert_entry [simp]: "length (cert_entry c) = 3 + length c"
  by (simp add: cert_entry_def)

lemma certificate_entries_at:
  assumes "\<forall>c \<in> set chain. length c < 2 ^ 24"
  shows "certificate_entries (pre @ concat (map cert_entry chain) @ post) (length pre)
           (length pre + length (concat (map cert_entry chain))) = Some (Some chain)"
  using assms
proof (induction chain arbitrary: pre)
  case Nil
  then show ?case by (simp add: certificate_entries.simps)
next
  case (Cons c chain)
  define bs where "bs = pre @ concat (map cert_entry (c # chain)) @ post"
  have c: "unat (of_nat (length c) :: u32) = length c" "(of_nat (length c) :: u32) \<le> 0xFFFFFF"
    using Cons.prems u24_length [of "length c"] by simp_all
  have l: "rd_be24 bs (length pre) = Some (of_nat (length c))"
    using be24_back [OF c(2), of pre "c @ concat (map cert_entry chain) @ post"]
    by (simp add: bs_def cert_entry_def)
  have x: "subbuf bs (length pre + 3) (length pre + 3 + length c) = Some c"
    using subbuf_middle [of "length pre + 3 + length c" "pre @ be24 (of_nat (length c))" c
        "concat (map cert_entry chain) @ post"]
    by (simp add: bs_def cert_entry_def)
  have r: "certificate_entries bs (length pre + 3 + length c)
      (length pre + length (concat (map cert_entry (c # chain)))) = Some (Some chain)"
    using Cons.IH [of "pre @ cert_entry c"] Cons.prems by (simp add: bs_def add.assoc)
  have "certificate_entries bs (length pre) (length pre + length (concat (map cert_entry (c # chain))))
      = Some (Some (c # chain))"
    using l x r by (subst certificate_entries.simps) (simp add: c(1))
  then show ?case by (simp add: bs_def)
qed

lemma Certificate_Decode_body:
  assumes "length (concat (map cert_entry chain)) < 2 ^ 24"
  shows "Certificate_Decode (certificate_body chain) = Some (Some chain)"
proof -
  let ?es = "concat (map cert_entry chain)"
  have n: "(of_nat (length ?es) :: u32) \<le> 0xFFFFFF" "unat (of_nat (length ?es) :: u32) = length ?es"
    using u24_length [OF assms] by simp_all
  have "\<forall>c \<in> set chain. length c < 2 ^ 24"
  proof
    fix c assume "c \<in> set chain"
    then have "length (cert_entry c) \<le> length ?es"
      by (induction chain) auto
    then show "length c < 2 ^ 24" using assms by simp
  qed
  then have e: "certificate_entries (be24 (of_nat (length ?es)) @ ?es) 3 (3 + length ?es) = Some (Some chain)"
    using certificate_entries_at [of chain "be24 (of_nat (length ?es))" "[]"] by simp
  have "rd_be24 (be24 (of_nat (length ?es)) @ ?es) 0 = Some (of_nat (length ?es))"
    using be24_back [OF n(1), of "[]" ?es] by simp
  with e n show ?thesis
    by (simp add: Certificate_Decode_def certificate_body_def Let_def list_length_no_wrap)
qed

text \<open>The extensions a client hello carries, as a list.\<close>

definition client_extension_list :: "ClientHello \<Rightarrow> (u16 \<times> bytes) list" where
  "client_extension_list m =
     (if ch_supportedGroups m = [] then [] else [(kExtSupportedGroups, u16_list (ch_supportedGroups m))]) @
     (if ch_ecPointFormats m = [] then []
      else [(kExtEcPointFormats, u8_length (ch_ecPointFormats m) # ch_ecPointFormats m)]) @
     (if ch_signatureAlgorithms m = [] then []
      else [(kExtSignatureAlgorithms, u16_list (ch_signatureAlgorithms m))]) @
     (if ch_srtpProtectionProfiles m = [] then []
      else [(kExtUseSrtp, u16_list (ch_srtpProtectionProfiles m) @ [u8_length (ch_srtpMki m)] @ ch_srtpMki m)]) @
     (if ch_extendedMasterSecret m then [(kExtExtendedMasterSecret, [])] else [])"

lemma client_extensions_list: "client_extensions m = ext_bytes (client_extension_list m)"
  by (simp add: client_extensions_def client_extension_list_def hello_extension_def u16_length_def)


section \<open>Properties of the codecs\<close>

text \<open>
  Claim C37: the extension loop of the server hello, which walks the message by offsets, computes what
  a plain fold over the list of extensions computes: every extension is seen once and in order, and
  the fixed fields are those that were sent.
\<close>

theorem server_hello_reference:
  assumes "length rnd = 32" "length sid < 256" "length (ext_bytes exts) < 65536"
  shows "\<exists>sh. ServerHello_Decode (server_hello_body v rnd sid suite cmeth exts) = Some (Some sh)
     \<and> sh = fold apply_extension exts (ServerHello_default\<lparr>sh_serverVersion := v, sh_random := rnd,
              sh_sessionId := sid, sh_cipherSuite := suite, sh_compressionMethod := cmeth\<rparr>)"
  using ServerHello_Decode_body [OF assms] by simp

theorem server_hello_reference_witness:
  "\<exists>sh. ServerHello_Decode (server_hello_body 0xFEFD (replicate 32 7) [] 0xC02B 0 [(0x0017, [])]) = Some (Some sh)
     \<and> sh_extendedMasterSecret sh"
  using server_hello_reference [of "replicate 32 7" "[]" "[(0x0017, [])]" "0xFEFD" "0xC02B" 0]
  by (simp add: apply_extension_def kExt_defs hello_extension_def)

text \<open>
  A certificate chain survives the trip: the three-byte lengths of the list and of every
  entry lead the decoder to exactly the certificates that were put in.
\<close>

theorem certificate_chain_roundtrip:
  assumes "length (concat (map cert_entry chain)) < 2 ^ 24"
  shows "Certificate_Decode (certificate_body chain) = Some (Some chain)"
  by (rule Certificate_Decode_body [OF assms])

theorem certificate_chain_roundtrip_witness:
  "Certificate_Decode (certificate_body [[1, 2, 3], []]) = Some (Some [[1, 2, 3], []])"
  by (rule certificate_chain_roundtrip) simp

text \<open>
  A wrapped handshake message is announced as unfragmented with its own length, so whatever
  follows it in the record, the receiver finds its end.
\<close>

theorem handshake_wrap_roundtrip:
  assumes "length body < 2 ^ 24"
  shows "\<exists>h. HandshakeHeader_Decode (WrapHandshakeUnfragmented t n body @ rest) = Some (Some h)
     \<and> hh_msgType h = t \<and> hh_messageSeq h = n \<and> hh_fragmentOffset h = 0 \<and> hh_fragmentLength h = hh_length h
     \<and> take (unat (hh_length h)) (drop 12 (WrapHandshakeUnfragmented t n body @ rest)) = body
     \<and> drop (12 + unat (hh_length h)) (WrapHandshakeUnfragmented t n body @ rest) = rest"
  using u24_length [OF assms] HandshakeHeader_roundtrip
  by (simp add: WrapHandshakeUnfragmented_def)

theorem handshake_wrap_roundtrip_witness:
  "\<exists>h. HandshakeHeader_Decode (WrapHandshakeUnfragmented 20 3 [1, 2] @ [9]) = Some (Some h) \<and> hh_messageSeq h = 3"
  using handshake_wrap_roundtrip [of "[1, 2]" 20 3 "[9]"] by auto

end
