(* ===== verification/DerCertificate.thy ===== *)
theory DerCertificate
  imports Primitives Decimal
begin

text \<open>
  The local DTLS identity, \<open>infrastructure/ecdsa_p256_keypair.cpp\<close>: the DER builder, the conversion
  of ECDSA signatures, the self-signed certificate and its fingerprint. The platform (key store,
  signatures, SHA-256, random generator, clock) is a parameter: what one call of an operation gets
  from it is the record \<open>CertCall\<close>. A Platform::Exception is \<open>None\<close>.
\<close>

unbundle bit_operations_syntax

section \<open>The DER builder\<close>

record Asn1Builder =
  m_out :: bytes
  m_pendingLengthOffsets :: "nat list"

definition Asn1Builder_new :: Asn1Builder where
  "Asn1Builder_new = \<lparr>m_out = [], m_pendingLengthOffsets = []\<rparr>"

text \<open>The bytes of a length, least significant first; \<open>uint8_t bytes[8]\<close> holds those of any \<open>size_t\<close>.\<close>

fun length_bytes :: "nat \<Rightarrow> bytes" where
  "length_bytes v = (if v = 0 then [] else of_nat (v mod 256) # length_bytes (v div 256))"

declare length_bytes.simps [simp del]

definition EncodeLength :: "nat \<Rightarrow> bytes" where
  "EncodeLength len =
     (if len < 0x80 then [of_nat len]
      else (let bs = length_bytes len in (0x80 OR of_nat (length bs)) # rev bs))"

definition WriteRaw :: "bytes \<Rightarrow> Asn1Builder \<Rightarrow> Asn1Builder" where
  "WriteRaw data b = b\<lparr>m_out := m_out b @ data\<rparr>"

definition WriteBytes :: "u8 \<Rightarrow> bytes \<Rightarrow> Asn1Builder \<Rightarrow> Asn1Builder" where
  "WriteBytes tag data b =
     (let b = b\<lparr>m_out := m_out b @ [tag]\<rparr>;
          b = WriteRaw (EncodeLength (length data)) b
      in WriteRaw data b)"

text \<open>The leading zeros a DER integer must not have: \<open>data + start\<close>.\<close>

fun skip_zeros :: "bytes \<Rightarrow> bytes" where
  "skip_zeros (x # y # r) = (if x = 0 \<and> y AND 0x80 = 0 then skip_zeros (y # r) else x # y # r)"
| "skip_zeros r = r"

definition integer_body :: "bytes \<Rightarrow> bytes" where
  "integer_body data =
     (if data = [] then [0]
      else (let rest = skip_zeros data in (if hd rest AND 0x80 \<noteq> 0 then [0] else []) @ rest))"

definition WriteInteger :: "bytes \<Rightarrow> Asn1Builder \<Rightarrow> Asn1Builder" where
  "WriteInteger data b = WriteBytes 0x02 (integer_body data) b"

fun skip_sign :: "bytes \<Rightarrow> bytes" where
  "skip_sign (x # y # r) = (if x = 0xFF \<and> y AND 0x80 \<noteq> 0 then skip_sign (y # r) else x # y # r)"
| "skip_sign r = r"

definition WriteIntegerSmall :: "64 word \<Rightarrow> Asn1Builder \<Rightarrow> Asn1Builder" where
  "WriteIntegerSmall v b =
     (let buf = be64 v in WriteInteger (if sint v < 0 then skip_sign buf else skip_zeros buf) b)"

definition WriteOidRaw :: "bytes \<Rightarrow> Asn1Builder \<Rightarrow> Asn1Builder" where
  "WriteOidRaw der b = WriteBytes 0x06 der b"

definition WriteBitString :: "bytes \<Rightarrow> u8 \<Rightarrow> Asn1Builder \<Rightarrow> Asn1Builder" where
  "WriteBitString data unusedBits b = WriteBytes 0x03 (unusedBits # data) b"

definition WriteOctetString :: "bytes \<Rightarrow> Asn1Builder \<Rightarrow> Asn1Builder" where
  "WriteOctetString v b = WriteBytes 0x04 v b"

definition BeginConstructed :: "u8 \<Rightarrow> Asn1Builder \<Rightarrow> Asn1Builder" where
  "BeginConstructed tag b =
     (let b = b\<lparr>m_out := m_out b @ [tag]\<rparr>;
          b = b\<lparr>m_pendingLengthOffsets := m_pendingLengthOffsets b @ [length (m_out b)]\<rparr>
      in b\<lparr>m_out := m_out b @ [0]\<rparr>)"

text \<open>
  \<open>back()\<close> of an empty stack, and an offset outside the output, are undefined: \<open>None\<close>. The placeholder
  is overwritten by the first length byte and the others are inserted behind it.
\<close>

definition EndConstructed :: "Asn1Builder \<Rightarrow> Asn1Builder option" where
  "EndConstructed b =
     (if m_pendingLengthOffsets b = [] then None
      else (let off = last (m_pendingLengthOffsets b);
                b = b\<lparr>m_pendingLengthOffsets := butlast (m_pendingLengthOffsets b)\<rparr>
            in if length (m_out b) \<le> off then None
               else (let contentLen = length (m_out b) - (off + 1);
                         lenBytes = EncodeLength contentLen;
                         out = (m_out b)[off := hd lenBytes]
                     in Some (if length lenBytes = 1 then b\<lparr>m_out := out\<rparr>
                              else b\<lparr>m_out := take (off + 1) out @ tl lenBytes @ drop (off + 1) out\<rparr>))))"

text \<open>The block \<open>BeginConstructed(tag); { ... } EndConstructed();\<close> of every caller.\<close>

definition constructed :: "u8 \<Rightarrow> (Asn1Builder \<Rightarrow> Asn1Builder option) \<Rightarrow> Asn1Builder \<Rightarrow> Asn1Builder option" where
  "constructed tag body b = do { b \<leftarrow> body (BeginConstructed tag b); EndConstructed b }"


section \<open>Dates\<close>

text \<open>
  \<open>gmtime_s\<close>: seconds since 1970 to the civil date and the time of day, for times not before 1970
  (\<open>std::time\<close> gives no other); years count from March, in eras of 400.
\<close>

record tm =
  tm_year :: int
  tm_mon :: int
  tm_mday :: int
  tm_hour :: int
  tm_min :: int
  tm_sec :: int

definition gmtime :: "int \<Rightarrow> tm" where
  "gmtime t =
     (let days = t div 86400 + 719468; s = t mod 86400;
          era = days div 146097; doe = days mod 146097;
          yoe = (doe - doe div 1460 + doe div 36524 - doe div 146096) div 365;
          doy = doe - (365 * yoe + yoe div 4 - yoe div 100);
          mp = (5 * doy + 2) div 153;
          month = (if mp < 10 then mp + 3 else mp - 9);
          year = yoe + era * 400 + (if month \<le> 2 then 1 else 0)
      in \<lparr>tm_year = year - 1900, tm_mon = month - 1, tm_mday = doy - (153 * mp + 2) div 5 + 1,
          tm_hour = s div 3600, tm_min = s mod 3600 div 60, tm_sec = s mod 60\<rparr>)"

text \<open>\<open>%02d\<close> of a number below 100.\<close>

definition two_digits :: "int \<Rightarrow> bytes" where
  "two_digits n = [of_int (48 + n div 10), of_int (48 + n mod 10)]"

definition utc_time :: "int \<Rightarrow> bytes" where
  "utc_time t =
     (let v = gmtime t
      in two_digits ((tm_year v + 1900) mod 100) @ two_digits (tm_mon v + 1) @ two_digits (tm_mday v) @
         two_digits (tm_hour v) @ two_digits (tm_min v) @ two_digits (tm_sec v) @ bytes_of_string ''Z'')"

definition WriteUtcTime :: "int \<Rightarrow> Asn1Builder \<Rightarrow> Asn1Builder" where
  "WriteUtcTime t b = WriteBytes 0x17 (utc_time t) b"


section \<open>Signatures and public keys\<close>

definition RawRsToDer :: "bytes \<Rightarrow> bytes option" where
  "RawRsToDer rawRs =
     (if length rawRs \<noteq> 64 then Some []
      else do {
        b \<leftarrow> constructed 0x30
               (\<lambda>b. Some (WriteInteger (take 32 (drop 32 rawRs)) (WriteInteger (take 32 rawRs) b)))
               Asn1Builder_new;
        Some (m_out b)
      })"

definition NormalizeEcdsaSignatureToDer :: "bytes \<Rightarrow> bytes option" where
  "NormalizeEcdsaSignatureToDer sig =
     (if length sig = 64 then RawRsToDer sig
      else if 8 \<le> length sig \<and> hd sig = 0x30 then Some sig
      else if length sig = 64 then RawRsToDer sig
      else Some sig)"

fun ExtractUncompressedPointFromSpki :: "bytes \<Rightarrow> bytes" where
  "ExtractUncompressedPointFromSpki spki =
     (if length spki < 67 then []
      else if spki ! 0 = 0x03 \<and> spki ! 1 = 0x42 \<and> spki ! 2 = 0x00 \<and> spki ! 3 = 0x04
      then take 65 (drop 3 spki)
      else ExtractUncompressedPointFromSpki (tl spki))"

declare ExtractUncompressedPointFromSpki.simps [simp del]


section \<open>The self-signed certificate\<close>

definition OID_EC_PUBKEY :: bytes where "OID_EC_PUBKEY = [0x2A, 0x86, 0x48, 0xCE, 0x3D, 0x02, 0x01]"
definition OID_PRIME256V1 :: bytes where "OID_PRIME256V1 = [0x2A, 0x86, 0x48, 0xCE, 0x3D, 0x03, 0x01, 0x07]"
definition OID_ECDSA_SHA256 :: bytes where "OID_ECDSA_SHA256 = [0x2A, 0x86, 0x48, 0xCE, 0x3D, 0x04, 0x03, 0x02]"
definition OID_COMMON_NAME :: bytes where "OID_COMMON_NAME = [0x55, 0x04, 0x03]"

definition EmitEcdsaSha256AlgId :: "Asn1Builder \<Rightarrow> Asn1Builder option" where
  "EmitEcdsaSha256AlgId = constructed 0x30 (\<lambda>b. Some (WriteOidRaw OID_ECDSA_SHA256 b))"

definition EmitSubjectPublicKeyInfo :: "bytes \<Rightarrow> Asn1Builder \<Rightarrow> Asn1Builder option" where
  "EmitSubjectPublicKeyInfo point = constructed 0x30 (\<lambda>b. do {
     b \<leftarrow> constructed 0x30 (\<lambda>b. Some (WriteOidRaw OID_PRIME256V1 (WriteOidRaw OID_EC_PUBKEY b))) b;
     Some (WriteBitString point 0 b) })"

definition kCn :: bytes where "kCn = bytes_of_string ''Vianigram''"

definition EmitNameCnVianigram :: "Asn1Builder \<Rightarrow> Asn1Builder option" where
  "EmitNameCnVianigram =
     constructed 0x30 (constructed 0x31 (constructed 0x30
       (\<lambda>b. Some (WriteBytes 0x0C kCn (WriteOidRaw OID_COMMON_NAME b)))))"

text \<open>What the platform answers during one call: exceptions are \<open>None\<close>, buffers their bytes.\<close>

record CertCall =
  cc_ExportPublicKey :: "nat \<Rightarrow> bytes option"
  cc_SignHashedData :: "nat \<Rightarrow> bytes \<Rightarrow> bytes option"
  cc_Sha256 :: "bytes \<Rightarrow> bytes"
  cc_GenerateRandom :: bytes
  cc_time :: int

text \<open>The key pair owns a handle of the platform's key store; \<open>None\<close> is the null pointer.\<close>

record EcdsaP256KeyPair =
  m_Key :: "nat option"

text \<open>\<open>CreateKeyPair\<close> throws (\<open>None\<close>), returns null or a key.\<close>

definition Generate :: "nat option option \<Rightarrow> EcdsaP256KeyPair option" where
  "Generate created =
     (case created of
        None \<Rightarrow> None
      | Some None \<Rightarrow> None
      | Some (Some key) \<Rightarrow> Some \<lparr>m_Key = Some key\<rparr>)"

definition RandomSerial :: "bytes \<Rightarrow> bytes" where
  "RandomSerial buf =
     (let out = (if buf = [] then replicate 8 0 else buf);
          out = out[0 := out ! 0 AND 0x7F]
      in if out ! 0 = 0 then out[0 := 1] else out)"

definition SignSha256 :: "CertCall \<Rightarrow> EcdsaP256KeyPair \<Rightarrow> bytes \<Rightarrow> bytes option" where
  "SignSha256 cc kp hash =
     (case m_Key kp of
        None \<Rightarrow> Some []
      | Some key \<Rightarrow>
          if length hash \<noteq> 32 then Some []
          else (case cc_SignHashedData cc key hash of
                  None \<Rightarrow> Some []
                | Some raw \<Rightarrow> NormalizeEcdsaSignatureToDer raw))"

definition GetPublicKeyUncompressed :: "CertCall \<Rightarrow> EcdsaP256KeyPair \<Rightarrow> bytes" where
  "GetPublicKeyUncompressed cc kp =
     (case m_Key kp of
        None \<Rightarrow> []
      | Some key \<Rightarrow> (case cc_ExportPublicKey cc key of
                        None \<Rightarrow> []
                      | Some spki \<Rightarrow> ExtractUncompressedPointFromSpki spki))"

definition EmitTbs :: "bytes \<Rightarrow> int \<Rightarrow> bytes \<Rightarrow> Asn1Builder \<Rightarrow> Asn1Builder option" where
  "EmitTbs serial now point = constructed 0x30 (\<lambda>b. do {
     b \<leftarrow> constructed 0xA0 (\<lambda>b. Some (WriteIntegerSmall 2 b)) b;
     b \<leftarrow> EmitEcdsaSha256AlgId (WriteInteger serial b);
     b \<leftarrow> EmitNameCnVianigram b;
     b \<leftarrow> constructed 0x30
            (\<lambda>b. Some (WriteUtcTime (now + 365 * 24 * 60 * 60) (WriteUtcTime now b))) b;
     b \<leftarrow> EmitNameCnVianigram b;
     EmitSubjectPublicKeyInfo point b })"

definition EmitCertificate :: "bytes \<Rightarrow> bytes \<Rightarrow> Asn1Builder \<Rightarrow> Asn1Builder option" where
  "EmitCertificate tbsBytes signatureDer = constructed 0x30 (\<lambda>b. do {
     b \<leftarrow> EmitEcdsaSha256AlgId (WriteRaw tbsBytes b);
     Some (WriteBitString signatureDer 0 b) })"

text \<open>\<open>None\<close> is undefined behaviour in the builder; the empty vector is the failure of the code.\<close>

definition ToX509SelfSignedDer :: "CertCall \<Rightarrow> EcdsaP256KeyPair \<Rightarrow> bytes option" where
  "ToX509SelfSignedDer cc kp =
     (if m_Key kp = None then Some []
      else (let point = GetPublicKeyUncompressed cc kp
            in if length point \<noteq> 65 \<or> hd point \<noteq> 0x04 then Some []
               else do {
                 tbs \<leftarrow> EmitTbs (RandomSerial (cc_GenerateRandom cc)) (cc_time cc) point Asn1Builder_new;
                 let tbsHash = cc_Sha256 cc (m_out tbs);
                 if length tbsHash \<noteq> 32 then Some []
                 else do {
                   signatureDer \<leftarrow> SignSha256 cc kp tbsHash;
                   if signatureDer = [] then Some []
                   else do {
                     cert \<leftarrow> EmitCertificate (m_out tbs) signatureDer Asn1Builder_new;
                     Some (m_out cert)
                   }
                 }
               }))"

definition kHex :: string where "kHex = ''0123456789ABCDEF''"

definition hex_pair :: "u8 \<Rightarrow> string" where
  "hex_pair b = [kHex ! unat (drop_bit 4 b), kHex ! unat (b AND 0x0F)]"

fun hex_colons :: "bytes \<Rightarrow> string" where
  "hex_colons [] = []"
| "hex_colons [b] = hex_pair b"
| "hex_colons (b # bs) = hex_pair b @ '':'' @ hex_colons bs"

definition ToSha256Fingerprint :: "CertCall \<Rightarrow> EcdsaP256KeyPair \<Rightarrow> string option" where
  "ToSha256Fingerprint cc kp = do {
     cert \<leftarrow> ToX509SelfSignedDer cc kp;
     if cert = [] then Some []
     else (let hash = cc_Sha256 cc cert
           in Some (if length hash \<noteq> 32 then [] else hex_colons hash))
   }"


section \<open>The builder writes DER values\<close>

definition tlv :: "u8 \<Rightarrow> bytes \<Rightarrow> bytes" where
  "tlv tag c = tag # EncodeLength (length c) @ c"

text \<open>A piece of emitting code refines a byte string when it appends it to any builder.\<close>

definition appends :: "(Asn1Builder \<Rightarrow> Asn1Builder option) \<Rightarrow> bytes \<Rightarrow> bool" where
  "appends f c \<longleftrightarrow> (\<forall>b. f b = Some (b\<lparr>m_out := m_out b @ c\<rparr>))"

lemma write_tlv:
  "WriteRaw d b = b\<lparr>m_out := m_out b @ d\<rparr>"
  "WriteBytes t d b = b\<lparr>m_out := m_out b @ tlv t d\<rparr>"
  "WriteInteger d b = b\<lparr>m_out := m_out b @ tlv 2 (integer_body d)\<rparr>"
  "WriteOidRaw d b = b\<lparr>m_out := m_out b @ tlv 6 d\<rparr>"
  "WriteBitString d u b = b\<lparr>m_out := m_out b @ tlv 3 (u # d)\<rparr>"
  "WriteUtcTime now b = b\<lparr>m_out := m_out b @ tlv 0x17 (utc_time now)\<rparr>"
  by (simp_all add: WriteRaw_def WriteBytes_def WriteInteger_def WriteOidRaw_def WriteBitString_def
        WriteUtcTime_def tlv_def Let_def)

lemma EncodeLength_nonempty: "EncodeLength n \<noteq> []"
  by (simp add: EncodeLength_def Let_def)

lemma EndConstructed_tlv:
  "EndConstructed (b\<lparr>m_pendingLengthOffsets := m_pendingLengthOffsets b @ [Suc (length (m_out b))],
                    m_out := m_out b @ t # 0 # c\<rparr>)
     = Some (b\<lparr>m_out := m_out b @ tlv t c\<rparr>)"
proof -
  obtain x xs where e: "EncodeLength (length c) = x # xs"
    using EncodeLength_nonempty by (cases "EncodeLength (length c)") blast
  show ?thesis
    by (cases b) (simp add: EndConstructed_def Let_def e tlv_def list_update_append)
qed

lemma appends_constructed: "appends f c \<Longrightarrow> appends (constructed t f) (tlv t c)"
  using EndConstructed_tlv
  by (simp add: appends_def constructed_def BeginConstructed_def Let_def)

lemma appends_bind: "appends f c \<Longrightarrow> appends g d \<Longrightarrow> appends (\<lambda>b. Option.bind (f b) g) (c @ d)"
  by (simp add: appends_def)

lemma appends_write:
  "appends (\<lambda>b. Some (WriteBytes t d b)) (tlv t d)"
  "appends (\<lambda>b. Some (WriteIntegerSmall 2 b)) (tlv 2 [2])"
  "appends (\<lambda>b. Some (WriteOidRaw d b)) (tlv 6 d)"
  "appends (\<lambda>b. Some (WriteBitString d u b)) (tlv 3 (u # d))"
  by (simp_all add: appends_def write_tlv WriteIntegerSmall_def Let_def be64_def be32_def byte_at_def integer_body_def)

lemma appends_after:
  "appends (\<lambda>b. f b) c \<Longrightarrow> appends (\<lambda>b. f (WriteRaw d b)) (d @ c)"
  "appends (\<lambda>b. f b) c \<Longrightarrow> appends (\<lambda>b. f (WriteInteger d b)) (tlv 2 (integer_body d) @ c)"
  by (simp_all add: appends_def write_tlv)

lemma appends_two:
  "appends (\<lambda>b. Some (WriteOidRaw d (WriteOidRaw e b))) (tlv 6 e @ tlv 6 d)"
  "appends (\<lambda>b. Some (WriteBytes t d (WriteOidRaw e b))) (tlv 6 e @ tlv t d)"
  "appends (\<lambda>b. Some (WriteUtcTime u (WriteUtcTime v b))) (tlv 0x17 (utc_time v) @ tlv 0x17 (utc_time u))"
  "appends (\<lambda>b. Some (WriteInteger d (WriteInteger e b))) (tlv 2 (integer_body e) @ tlv 2 (integer_body d))"
  by (simp_all add: appends_def write_tlv)

lemma appends_run: "appends f c \<Longrightarrow> f Asn1Builder_new = Some \<lparr>m_out = c, m_pendingLengthOffsets = []\<rparr>"
  by (simp add: appends_def Asn1Builder_new_def)

definition der_algorithm :: bytes where
  "der_algorithm = tlv 0x30 (tlv 6 OID_ECDSA_SHA256)"

definition der_name :: bytes where
  "der_name = tlv 0x30 (tlv 0x31 (tlv 0x30 (tlv 6 OID_COMMON_NAME @ tlv 0x0C kCn)))"

definition der_spki :: "bytes \<Rightarrow> bytes" where
  "der_spki point = tlv 0x30 (tlv 0x30 (tlv 6 OID_EC_PUBKEY @ tlv 6 OID_PRIME256V1) @ tlv 3 (0 # point))"

definition der_validity :: "int \<Rightarrow> bytes" where
  "der_validity now = tlv 0x30 (tlv 0x17 (utc_time now) @ tlv 0x17 (utc_time (now + 31536000)))"

definition der_tbs :: "bytes \<Rightarrow> int \<Rightarrow> bytes \<Rightarrow> bytes" where
  "der_tbs serial now point =
     tlv 0x30 (tlv 0xA0 (tlv 2 [2]) @ tlv 2 (integer_body serial) @ der_algorithm @ der_name @
               der_validity now @ der_name @ der_spki point)"

definition der_certificate :: "bytes \<Rightarrow> bytes \<Rightarrow> bytes" where
  "der_certificate tbs sig = tlv 0x30 (tbs @ der_algorithm @ tlv 3 (0 # sig))"

lemma appends_emit:
  "appends EmitEcdsaSha256AlgId der_algorithm"
  "appends (EmitSubjectPublicKeyInfo point) (der_spki point)"
  "appends EmitNameCnVianigram der_name"
  unfolding EmitEcdsaSha256AlgId_def EmitSubjectPublicKeyInfo_def EmitNameCnVianigram_def
    der_algorithm_def der_spki_def der_name_def
  by (intro appends_constructed appends_bind appends_write appends_two)+

lemma appends_tbs: "appends (EmitTbs serial now point) (der_tbs serial now point)"
proof -
  have "appends (EmitTbs serial now point)
     (tlv 0x30 (tlv 0xA0 (tlv 2 [2]) @ (tlv 2 (integer_body serial) @ der_algorithm) @ der_name @
               der_validity now @ der_name @ der_spki point))"
    unfolding EmitTbs_def der_validity_def
    by (intro appends_constructed appends_bind appends_write appends_after appends_emit)
      (use appends_two(3) [of "now + 365 * 24 * 60 * 60" now] in simp)
  then show ?thesis by (simp add: der_tbs_def)
qed

lemma appends_certificate: "appends (EmitCertificate tbs sig) (der_certificate tbs sig)"
  unfolding EmitCertificate_def der_certificate_def append_assoc [symmetric]
  by (intro appends_constructed appends_bind appends_write appends_after appends_emit)

lemma RawRsToDer_64:
  "length rs = 64 \<Longrightarrow> RawRsToDer rs =
     Some (tlv 0x30 (tlv 2 (integer_body (take 32 rs)) @ tlv 2 (integer_body (drop 32 rs))))"
  using appends_run [OF appends_constructed [OF appends_two(4)]] by (simp add: RawRsToDer_def)


section \<open>Reading DER\<close>

text \<open>The reader of a relying party: tag, length in short or long form, content.\<close>

definition der_length :: "bytes \<Rightarrow> (nat \<times> bytes) option" where
  "der_length bs =
     (case bs of
        [] \<Rightarrow> None
      | b # r \<Rightarrow>
          if b < 0x80 then Some (unat b, r)
          else (let n = unat (b AND 0x7F)
                in if n \<le> length r then Some (be_value (take n r), drop n r) else None))"

definition der_read :: "bytes \<Rightarrow> (u8 \<times> bytes \<times> bytes) option" where
  "der_read bs =
     (case bs of
        [] \<Rightarrow> None
      | t # r \<Rightarrow> do {
          (n, r) \<leftarrow> der_length r;
          if n \<le> length r then Some (t, take n r, drop n r) else None })"

lemma be_value_length_bytes: "be_value (rev (length_bytes v)) = v"
proof (induction v rule: length_bytes.induct)
  case (1 v)
  then show ?case
    by (cases "v = 0") (simp_all add: length_bytes.simps [of v] length_bytes.simps [of 0] unat_of_nat)
qed

lemma length_length_bytes: "v < 256 ^ n \<Longrightarrow> length (length_bytes v) \<le> n"
proof (induction v arbitrary: n rule: length_bytes.induct)
  case (1 v)
  show ?case
  proof (cases "v = 0")
    case True
    then show ?thesis by (simp add: length_bytes.simps)
  next
    case False
    with "1.prems" obtain m where n: "n = Suc m" by (cases n) auto
    with "1.prems" have "v div 256 < 256 ^ m"
      by (simp add: less_mult_imp_div_less mult.commute)
    with 1(1) [OF False] have "length (length_bytes (v div 256)) \<le> m" by blast
    then show ?thesis by (simp add: length_bytes.simps [of v] n)
  qed
qed

lemma or_80: "k < 128 \<Longrightarrow> \<not> (0x80 OR of_nat k :: u8) < 0x80 \<and> unat ((0x80 OR of_nat k) AND 0x7F :: u8) = k"
proof -
  assume k: "k < 128"
  have "\<forall>x \<in> {0..<128 :: nat}. \<not> (0x80 OR of_nat x :: u8) < 0x80 \<and> unat ((0x80 OR of_nat x) AND 0x7F :: u8) = x"
    by (simp add: atLeastLessThan_nat_numeral)
  with k show ?thesis by simp
qed

lemma der_length_EncodeLength:
  assumes "n < 256 ^ 8"
  shows "der_length (EncodeLength n @ r) = Some (n, r)"
proof (cases "n < 0x80")
  case True
  then have u: "unat (of_nat n :: u8) = n" by (simp add: unat_of_nat)
  then have "(of_nat n :: u8) < 0x80" using True by (simp add: word_less_nat_alt)
  with True u show ?thesis by (simp add: der_length_def EncodeLength_def)
next
  case False
  have "length (length_bytes n) \<le> 8" using length_length_bytes [OF assms] .
  then have "length (length_bytes n) < 128" by simp
  from or_80 [OF this] show ?thesis
    using False by (simp add: der_length_def EncodeLength_def Let_def be_value_length_bytes)
qed

lemma der_read_tlv:
  "length c < 256 ^ 8 \<Longrightarrow> der_read (tlv t c @ r) = Some (t, c, r)"
  by (simp add: der_read_def tlv_def der_length_EncodeLength)

lemma tlv_inject:
  assumes "tlv t c @ r = tlv t' c' @ r'" "length c < 256 ^ 8" "length c' < 256 ^ 8"
  shows "t = t' \<and> c = c' \<and> r = r'"
proof -
  have "Some (t, c, r) = Some (t', c', r')"
    unfolding der_read_tlv [OF assms(2), of t r, symmetric] assms(1)
    by (rule der_read_tlv [OF assms(3)])
  then show ?thesis by simp
qed

lemma skip_zeros_value: "be_value (skip_zeros bs) = be_value bs"
  by (induction bs rule: skip_zeros.induct) simp_all

lemma skip_zeros_Nil: "skip_zeros bs = [] \<longleftrightarrow> bs = []"
  by (induction bs rule: skip_zeros.induct) auto

text \<open>An integer is written with its value, as few bytes as its sign bit allows, and never negative.\<close>

lemma integer_body_value: "be_value (integer_body bs) = be_value bs"
  by (simp add: integer_body_def Let_def skip_zeros_value)

definition der_minimal :: "bytes \<Rightarrow> bool" where
  "der_minimal bs \<longleftrightarrow> bs \<noteq> [] \<and> hd bs AND 0x80 = 0 \<and>
     (\<forall>y r. bs = 0 # y # r \<longrightarrow> y AND 0x80 \<noteq> 0)"

lemma skip_zeros_minimal: "skip_zeros bs = x # y # r \<Longrightarrow> x = 0 \<Longrightarrow> y AND 0x80 \<noteq> 0"
  by (induction bs rule: skip_zeros.induct) (auto split: if_splits)

lemma integer_body_minimal: "der_minimal (integer_body bs)"
proof (cases "bs = []")
  case True
  then show ?thesis by (simp add: integer_body_def der_minimal_def)
next
  case False
  then obtain x r where s: "skip_zeros bs = x # r"
    using skip_zeros_Nil by (cases "skip_zeros bs") auto
  show ?thesis
    using False s skip_zeros_minimal [of bs x]
    by (auto simp: integer_body_def der_minimal_def Let_def)
qed

lemma length_skip_zeros: "length (skip_zeros bs) \<le> length bs"
  by (induction bs rule: skip_zeros.induct) auto

lemma length_integer_body: "length (integer_body bs) \<le> Suc (length bs)"
  using length_skip_zeros [of bs] by (simp add: integer_body_def Let_def)

lemma be_value_inject: "length a = length b \<Longrightarrow> be_value a = be_value b \<longleftrightarrow> a = b"
proof (induction a arbitrary: b)
  case (Cons x a)
  then obtain y c where b: "b = y # c" "length a = length c" by (cases b) auto
  have lt: "be_value a < 256 ^ length c" "be_value c < 256 ^ length c"
    using be_value_less [of a] be_value_less [of c] b by simp_all
  have "be_value (x # a) = be_value b \<Longrightarrow> unat x = unat y \<and> be_value a = be_value c"
  proof -
    assume e: "be_value (x # a) = be_value b"
    then have "(unat x * 256 ^ length c + be_value a) div 256 ^ length c
        = (unat y * 256 ^ length c + be_value c) div 256 ^ length c" using b by simp
    with lt have "unat x = unat y" by simp
    with e b show ?thesis by simp
  qed
  then show ?case using Cons.IH [OF b(2)] b by (auto simp: word_unat_eq_iff)
qed simp


section \<open>Sizes\<close>

lemma length_tlv_le: "length c \<le> n \<Longrightarrow> n \<le> 65535 \<Longrightarrow> length (tlv t c) \<le> n + 4"
proof -
  assume c: "length c \<le> n" and n: "n \<le> 65535"
  then have "length (length_bytes (length c)) \<le> 2" by (intro length_length_bytes) simp
  with c show ?thesis by (simp add: tlv_def EncodeLength_def Let_def)
qed

lemma der_small: "n \<le> 2000 \<Longrightarrow> n < 256 ^ (8 :: nat)" for n :: nat
  by simp

lemma length_utc_time [simp]: "length (utc_time t) = 13"
  by (simp add: utc_time_def two_digits_def Let_def)

lemma der_constant_lengths: "length der_algorithm = 12" "length der_name = 22"
  by (simp_all add: der_algorithm_def der_name_def tlv_def OID_ECDSA_SHA256_def OID_COMMON_NAME_def
        EncodeLength_def kCn_def)

lemma length_validity: "length (der_validity now) = 32"
  by (simp add: der_validity_def tlv_def EncodeLength_def)

lemma length_spki: "length point = 65 \<Longrightarrow> length (der_spki point) = 91"
  by (simp add: der_spki_def tlv_def EncodeLength_def OID_EC_PUBKEY_def OID_PRIME256V1_def)

lemma length_RandomSerial: "length buf = 8 \<Longrightarrow> length (RandomSerial buf) = 8"
  by (auto simp: RandomSerial_def Let_def)

lemma length_tbs:
  assumes "length serial = 8" "length point = 65"
  shows "length (der_tbs serial now point) \<le> 300"
proof -
  have "length (tlv 2 (integer_body serial)) \<le> 9 + 4"
    using length_integer_body [of serial] assms by (intro length_tlv_le) simp_all
  moreover have "length (tlv 0xA0 (tlv 2 [2])) = 5" by (simp add: tlv_def EncodeLength_def)
  ultimately have "length (der_tbs serial now point) \<le> 250 + 4"
    unfolding der_tbs_def
    by (intro length_tlv_le) (simp_all add: der_constant_lengths length_validity length_spki assms)
  then show ?thesis by simp
qed

lemma tlv_same: "tlv t c = tlv t c' \<Longrightarrow> length c < 256 ^ 8 \<Longrightarrow> length c' < 256 ^ 8 \<Longrightarrow> c = c'"
  using tlv_inject [of t c "[]" t c' "[]"] by (simp only: append_Nil2)

text \<open>A certificate determines its serial number, and the to-be-signed part.\<close>

lemma der_tbs_serial:
  assumes l: "length s = 8" "length s' = 8" "length point = 65" "length point' = 65"
    and e: "der_tbs s now point = der_tbs s' now' point'"
  shows "s = s'"
proof -
  let ?body = "\<lambda>s now point. tlv 0xA0 (tlv 2 [2]) @ tlv 2 (integer_body s) @ der_algorithm @ der_name @
               der_validity now @ der_name @ der_spki point"
  have "length (?body s now point) \<le> 300" "length (?body s' now' point') \<le> 300"
    using length_tbs [of s point now] length_tbs [of s' point' now'] l
    by (simp_all add: der_tbs_def tlv_def)
  then have "?body s now point = ?body s' now' point'"
    by (intro tlv_same [OF e [unfolded der_tbs_def]] der_small) linarith+
  then have t: "tlv 2 (integer_body s) @ der_algorithm @ der_name @ der_validity now @ der_name @ der_spki point
      = tlv 2 (integer_body s') @ der_algorithm @ der_name @ der_validity now' @ der_name @ der_spki point'"
    by simp
  have "length (integer_body s) < 256 ^ 8" "length (integer_body s') < 256 ^ 8"
    using length_integer_body [of s] length_integer_body [of s'] l by simp_all
  from tlv_inject [OF t this] have "integer_body s = integer_body s'" by simp
  then have "be_value s = be_value s'" by (metis integer_body_value)
  then show ?thesis using be_value_inject [of s s'] l by simp
qed

lemma der_certificate_tbs:
  assumes l: "length s = 8" "length s' = 8" "length point = 65" "length point' = 65"
      "length sig \<le> 1000" "length sig' \<le> 1000"
    and e: "der_certificate (der_tbs s now point) sig = der_certificate (der_tbs s' now' point') sig'"
  shows "s = s'"
proof -
  let ?c = "\<lambda>s now point sig. der_tbs s now point @ der_algorithm @ tlv 3 (0 # sig)"
  have "length (tlv 3 (0 # sig)) \<le> 1001 + 4" "length (tlv 3 (0 # sig')) \<le> 1001 + 4"
    using l by (intro length_tlv_le; simp)+
  then have "length (?c s now point sig) \<le> 2000" "length (?c s' now' point' sig') \<le> 2000"
    using length_tbs [of s point now] length_tbs [of s' point' now'] l
    by (simp_all add: der_constant_lengths)
  then have c: "?c s now point sig = ?c s' now' point' sig'"
    by (intro tlv_same [OF e [unfolded der_certificate_def]] der_small) linarith+
  have "der_tbs s now point = der_tbs s' now' point'"
  proof -
    let ?b = "\<lambda>s now point. tlv 0xA0 (tlv 2 [2]) @ tlv 2 (integer_body s) @ der_algorithm @ der_name @
               der_validity now @ der_name @ der_spki point"
    have "length (?b s now point) \<le> 300" "length (?b s' now' point') \<le> 300"
      using length_tbs [of s point now] length_tbs [of s' point' now'] l
      by (simp_all add: der_tbs_def tlv_def)
    then have "length (?b s now point) < 256 ^ 8" "length (?b s' now' point') < 256 ^ 8"
      by (intro der_small; linarith)+
    from tlv_inject [OF c [unfolded der_tbs_def] this] show ?thesis
      unfolding der_tbs_def by metis
  qed
  then show ?thesis by (rule der_tbs_serial [OF l(1-4)])
qed


section \<open>A working platform\<close>

text \<open>
  What the platform documents: the exported key is a canonical P-256 SubjectPublicKeyInfo, SHA-256
  has 32 bytes, a signature is the raw pair of 64 bytes, and the generator gives as many bytes as asked.
\<close>

definition platform_ok :: "CertCall \<Rightarrow> nat \<Rightarrow> bool" where
  "platform_ok cc k \<longleftrightarrow>
     (\<exists>xy. length xy = 64 \<and> cc_ExportPublicKey cc k = Some (der_spki (0x04 # xy))) \<and>
     (\<forall>m. length (cc_Sha256 cc m) = 32) \<and>
     (\<forall>h. \<exists>rs. length rs = 64 \<and> cc_SignHashedData cc k h = Some rs) \<and>
     length (cc_GenerateRandom cc) = 8"

lemma Extract_der_spki:
  assumes "length xy = 64"
  shows "ExtractUncompressedPointFromSpki (der_spki (0x04 # xy)) = 0x04 # xy"
proof -
  have e: "der_spki (0x04 # xy) = [0x30, 0x59, 0x30, 0x13, 6, 7, 0x2A, 0x86, 0x48, 0xCE, 0x3D, 0x02, 0x01,
      6, 8, 0x2A, 0x86, 0x48, 0xCE, 0x3D, 0x03, 0x01, 0x07, 3, 0x42, 0, 4] @ xy"
    using assms
    by (simp add: der_spki_def tlv_def EncodeLength_def OID_EC_PUBKEY_def OID_PRIME256V1_def)
  show ?thesis
    unfolding e using assms by (simp add: ExtractUncompressedPointFromSpki.simps)
qed

lemma der_signature_size:
  assumes "length rs = 64"
  shows "\<exists>sig. RawRsToDer rs = Some sig \<and> sig \<noteq> [] \<and> length sig \<le> 200"
proof -
  have "length (tlv 2 (integer_body (take 32 rs))) \<le> 33 + 4" "length (tlv 2 (integer_body (drop 32 rs))) \<le> 33 + 4"
    using assms length_integer_body [of "take 32 rs"] length_integer_body [of "drop 32 rs"]
    by (intro length_tlv_le; simp)+
  then have "length (tlv 0x30 (tlv 2 (integer_body (take 32 rs)) @ tlv 2 (integer_body (drop 32 rs)))) \<le> 74 + 4"
    by (intro length_tlv_le) simp_all
  then show ?thesis using RawRsToDer_64 [OF assms] by (simp add: tlv_def)
qed

lemma SignSha256_ok:
  assumes "platform_ok cc k" and "length h = 32"
  shows "\<exists>sig. SignSha256 cc \<lparr>m_Key = Some k\<rparr> h = Some sig \<and> sig \<noteq> [] \<and> length sig \<le> 200"
proof -
  obtain rs where "length rs = 64" "cc_SignHashedData cc k h = Some rs"
    using assms(1) by (auto simp: platform_ok_def)
  with der_signature_size [of rs] assms(2) show ?thesis
    by (simp add: SignSha256_def NormalizeEcdsaSignatureToDer_def)
qed

lemma certificate_ok:
  assumes "platform_ok cc k"
  obtains xy tbs sig where
    "length xy = 64" "tbs = der_tbs (RandomSerial (cc_GenerateRandom cc)) (cc_time cc) (0x04 # xy)"
    "SignSha256 cc \<lparr>m_Key = Some k\<rparr> (cc_Sha256 cc tbs) = Some sig" "sig \<noteq> []" "length sig \<le> 200"
    "ToX509SelfSignedDer cc \<lparr>m_Key = Some k\<rparr> = Some (der_certificate tbs sig)"
    "cc_ExportPublicKey cc k = Some (der_spki (0x04 # xy))"
proof -
  obtain xy where xy: "length xy = 64" "cc_ExportPublicKey cc k = Some (der_spki (0x04 # xy))"
    using assms by (auto simp: platform_ok_def)
  define tbs where "tbs = der_tbs (RandomSerial (cc_GenerateRandom cc)) (cc_time cc) (0x04 # xy)"
  have h: "length (cc_Sha256 cc tbs) = 32" using assms by (simp add: platform_ok_def)
  obtain sig where sig: "SignSha256 cc \<lparr>m_Key = Some k\<rparr> (cc_Sha256 cc tbs) = Some sig" "sig \<noteq> []" "length sig \<le> 200"
    using SignSha256_ok [OF assms h] by blast
  have p: "GetPublicKeyUncompressed cc \<lparr>m_Key = Some k\<rparr> = 0x04 # xy"
    using xy by (simp add: GetPublicKeyUncompressed_def Extract_der_spki)
  have "ToX509SelfSignedDer cc \<lparr>m_Key = Some k\<rparr> = Some (der_certificate tbs sig)"
    using h sig(1,2) xy(1)
    by (simp add: ToX509SelfSignedDer_def p appends_run [OF appends_tbs] tbs_def [symmetric]
          appends_run [OF appends_certificate] Let_def)
  from that [OF xy(1) tbs_def sig this xy(2)] show thesis .
qed

text \<open>The builder never runs into undefined behaviour, whatever the platform answers.\<close>

lemma RawRsToDer_defined: "RawRsToDer rs \<noteq> None"
  using appends_run [OF appends_constructed [OF appends_two(4)]] by (simp add: RawRsToDer_def)

lemma SignSha256_defined: "SignSha256 cc kp h \<noteq> None"
  using RawRsToDer_defined
  by (auto simp: SignSha256_def NormalizeEcdsaSignatureToDer_def split: option.splits)

lemma ToX509_defined: "ToX509SelfSignedDer cc kp \<noteq> None"
proof -
  let ?h = "cc_Sha256 cc (der_tbs (RandomSerial (cc_GenerateRandom cc)) (cc_time cc) (GetPublicKeyUncompressed cc kp))"
  obtain sig where "SignSha256 cc kp ?h = Some sig" using SignSha256_defined by blast
  then show ?thesis
    by (simp add: ToX509SelfSignedDer_def Let_def appends_run [OF appends_tbs] appends_run [OF appends_certificate])
qed

lemma certificates_differ:
  assumes "platform_ok cc k" "platform_ok cc' k"
    and "RandomSerial (cc_GenerateRandom cc) \<noteq> RandomSerial (cc_GenerateRandom cc')"
  shows "ToX509SelfSignedDer cc \<lparr>m_Key = Some k\<rparr> \<noteq> ToX509SelfSignedDer cc' \<lparr>m_Key = Some k\<rparr>"
proof -
  obtain xy tbs sig where c: "length xy = 64"
      "tbs = der_tbs (RandomSerial (cc_GenerateRandom cc)) (cc_time cc) (0x04 # xy)" "length sig \<le> 200"
      "ToX509SelfSignedDer cc \<lparr>m_Key = Some k\<rparr> = Some (der_certificate tbs sig)"
    by (rule certificate_ok [OF assms(1)])
  obtain xy' tbs' sig' where c': "length xy' = 64"
      "tbs' = der_tbs (RandomSerial (cc_GenerateRandom cc')) (cc_time cc') (0x04 # xy')" "length sig' \<le> 200"
      "ToX509SelfSignedDer cc' \<lparr>m_Key = Some k\<rparr> = Some (der_certificate tbs' sig')"
    by (rule certificate_ok [OF assms(2)])
  have s: "length (RandomSerial (cc_GenerateRandom cc)) = 8" "length (RandomSerial (cc_GenerateRandom cc')) = 8"
    using assms(1,2) by (simp_all add: platform_ok_def length_RandomSerial)
  show ?thesis
  proof
    assume "ToX509SelfSignedDer cc \<lparr>m_Key = Some k\<rparr> = ToX509SelfSignedDer cc' \<lparr>m_Key = Some k\<rparr>"
    then have "der_certificate tbs sig = der_certificate tbs' sig'" using c(4) c'(4) by simp
    from der_certificate_tbs [OF s _ _ _ _ this [unfolded c(2) c'(2)]] c(1,3) c'(1,3) assms(3)
    show False by simp
  qed
qed


section \<open>Properties\<close>

text \<open>
  Claim C30: the certificate is well-formed DER that signs itself: reading it gives exactly the
  to-be-signed part, the algorithm and a bit string, and the signature in the bit string is the
  platform's signature of the SHA-256 of exactly those to-be-signed bytes, with the same algorithm
  inside and outside.
\<close>

theorem certificate_signs_itself:
  assumes "platform_ok cc k"
  shows "\<exists>cert tbs sig xy. ToX509SelfSignedDer cc \<lparr>m_Key = Some k\<rparr> = Some cert
     \<and> der_read cert = Some (0x30, tbs @ der_algorithm @ tlv 3 (0 # sig), [])
     \<and> SignSha256 cc \<lparr>m_Key = Some k\<rparr> (cc_Sha256 cc tbs) = Some sig
     \<and> der_read tbs = Some (0x30, tlv 0xA0 (tlv 2 [2]) @
          tlv 2 (integer_body (RandomSerial (cc_GenerateRandom cc))) @ der_algorithm @ der_name @
          der_validity (cc_time cc) @ der_name @ der_spki (0x04 # xy), [])
     \<and> cc_ExportPublicKey cc k = Some (der_spki (0x04 # xy))"
proof -
  obtain xy tbs sig where c: "length xy = 64"
      "tbs = der_tbs (RandomSerial (cc_GenerateRandom cc)) (cc_time cc) (0x04 # xy)"
      "SignSha256 cc \<lparr>m_Key = Some k\<rparr> (cc_Sha256 cc tbs) = Some sig" "length sig \<le> 200"
      "ToX509SelfSignedDer cc \<lparr>m_Key = Some k\<rparr> = Some (der_certificate tbs sig)"
      "cc_ExportPublicKey cc k = Some (der_spki (0x04 # xy))"
    by (rule certificate_ok [OF assms])
  have s: "length (RandomSerial (cc_GenerateRandom cc)) = 8"
    using assms by (simp add: platform_ok_def length_RandomSerial)
  let ?body = "tlv 0xA0 (tlv 2 [2]) @ tlv 2 (integer_body (RandomSerial (cc_GenerateRandom cc))) @ der_algorithm @
      der_name @ der_validity (cc_time cc) @ der_name @ der_spki (0x04 # xy)"
  have t: "length tbs \<le> 300" using c(1,2) s by (simp add: length_tbs)
  then have "length ?body \<le> 300" by (simp add: c(2) der_tbs_def tlv_def)
  then have b: "length ?body < 256 ^ 8" by (rule der_small [OF order.trans]) simp
  have "length (tlv 3 (0 # sig)) \<le> 201 + 4" using c(4) by (intro length_tlv_le) simp_all
  then have "length (tbs @ der_algorithm @ tlv 3 (0 # sig)) \<le> 2000"
    using t by (simp add: der_constant_lengths)
  then have o: "length (tbs @ der_algorithm @ tlv 3 (0 # sig)) < 256 ^ 8" by (rule der_small)
  have "der_read (der_certificate tbs sig) = Some (0x30, tbs @ der_algorithm @ tlv 3 (0 # sig), [])"
    using der_read_tlv [OF o, where t = "0x30" and r = "[]"] by (simp add: der_certificate_def)
  moreover have "der_read tbs = Some (0x30, ?body, [])"
    using der_read_tlv [OF b, where t = "0x30" and r = "[]"] by (simp add: c(2) der_tbs_def)
  ultimately show ?thesis using c by blast
qed


text \<open>A platform that meets the contract, for the examples: its hash keeps the serial number apart.\<close>

definition sample_call :: "bytes \<Rightarrow> int \<Rightarrow> CertCall" where
  "sample_call rnd now =
     \<lparr>cc_ExportPublicKey = (\<lambda>k. Some (der_spki (0x04 # replicate 64 0x11))),
      cc_SignHashedData = (\<lambda>k h. Some (replicate 64 0x80)),
      cc_Sha256 = (\<lambda>m. take 32 (drop 15 m @ replicate 32 0)),
      cc_GenerateRandom = rnd, cc_time = now\<rparr>"

lemma sample_call_ok: "length rnd = 8 \<Longrightarrow> platform_ok (sample_call rnd now) k"
  unfolding platform_ok_def sample_call_def CertCall.simps
  by (intro conjI allI exI [of _ "replicate 64 0x11"] exI [of _ "replicate 64 0x80"]) simp_all

theorem certificate_signs_itself_witness:
  "\<exists>cert tbs sig. ToX509SelfSignedDer (sample_call [1, 2, 3, 4, 5, 6, 7, 8] 0) \<lparr>m_Key = Some 7\<rparr> = Some cert
     \<and> der_read cert = Some (0x30, tbs @ der_algorithm @ tlv 3 (0 # sig), [])"
  using certificate_signs_itself [OF sample_call_ok [of "[1, 2, 3, 4, 5, 6, 7, 8]" 0 7]] by fastforce

text \<open>
  An ECDSA signature survives the change of format: the DER value made of the platform's raw
  pair reads back as a sequence of two integers with the numbers of the two halves, each in its
  shortest non-negative form, and nothing behind them.
\<close>

theorem ecdsa_signature_roundtrip:
  assumes "length rs = 64"
  shows "\<exists>der content r rest s. NormalizeEcdsaSignatureToDer rs = Some der
     \<and> der_read der = Some (0x30, content, [])
     \<and> der_read content = Some (2, r, rest) \<and> der_read rest = Some (2, s, [])
     \<and> be_value r = be_value (take 32 rs) \<and> be_value s = be_value (drop 32 rs)
     \<and> der_minimal r \<and> der_minimal s"
proof -
  let ?r = "integer_body (take 32 rs)" and ?s = "integer_body (drop 32 rs)"
  have i: "length ?r \<le> 33" "length ?s \<le> 33"
    using assms length_integer_body [of "take 32 rs"] length_integer_body [of "drop 32 rs"] by simp_all
  then have small: "length ?r < 256 ^ 8" "length ?s < 256 ^ 8" by (intro der_small; linarith)+
  have "length (tlv 2 ?r) \<le> 33 + 4" "length (tlv 2 ?s) \<le> 33 + 4"
    using i by (intro length_tlv_le; simp)+
  then have "length (tlv 2 ?r @ tlv 2 ?s) \<le> 2000" by simp
  then have c: "length (tlv 2 ?r @ tlv 2 ?s) < 256 ^ 8" by (rule der_small)
  have "der_read (tlv 0x30 (tlv 2 ?r @ tlv 2 ?s)) = Some (0x30, tlv 2 ?r @ tlv 2 ?s, [])"
    using der_read_tlv [OF c, where t = "0x30" and r = "[]"] by simp
  moreover have "der_read (tlv 2 ?r @ tlv 2 ?s) = Some (2, ?r, tlv 2 ?s)"
    by (rule der_read_tlv [OF small(1)])
  moreover have "der_read (tlv 2 ?s) = Some (2, ?s, [])"
    using der_read_tlv [OF small(2), where t = 2 and r = "[]"] by simp
  ultimately show ?thesis
    using RawRsToDer_64 [OF assms] assms
    by (auto simp: NormalizeEcdsaSignatureToDer_def integer_body_value integer_body_minimal)
qed

theorem ecdsa_signature_roundtrip_witness:
  "\<exists>der. NormalizeEcdsaSignatureToDer (replicate 64 0x80) = Some der \<and> (\<exists>c. der_read der = Some (0x30, c, []))"
  using ecdsa_signature_roundtrip [of "replicate 64 0x80"] by fastforce

text \<open>A negative number comes out as a large positive one: \<open>-1\<close> is written as 255.\<close>

lemma small_integer_negative:
  "m_out (WriteIntegerSmall (- 1) Asn1Builder_new) = tlv 2 [0, 0xFF]"
proof -
  have "byte_at j (- 1 :: u64) = - 1" if "j \<le> 56" for j
    using that by (intro bit_word_eqI) simp
  then have b: "be64 (- 1) = [- 1, - 1, - 1, - 1, - 1, - 1, - 1, - 1]"
    by (simp add: be64_def)
  have n: "sint (- 1 :: 64 word) < 0" by simp
  have f: "(- 1 :: u8) = 0xFF" by simp
  have s: "skip_sign [0xFF, 0xFF, 0xFF, 0xFF, 0xFF, 0xFF, 0xFF, 0xFF] = [0xFF :: u8]"
    by (simp only: skip_sign.simps) simp
  have "integer_body [0xFF] = [0, 0xFF]"
    by (simp add: integer_body_def)
  then show ?thesis
    unfolding WriteIntegerSmall_def b write_tlv Asn1Builder_new_def Let_def if_P [OF n] f s
    by (simp only: Asn1Builder.simps append_Nil)
qed

text \<open>Dates, against the calendar: a leap day, the turn of a century year, the last second of 2049.\<close>

lemma gmtime_examples:
  "gmtime 951782400 = \<lparr>tm_year = 100, tm_mon = 1, tm_mday = 29, tm_hour = 0, tm_min = 0, tm_sec = 0\<rparr>"
  "gmtime 1792281599 = \<lparr>tm_year = 126, tm_mon = 9, tm_mday = 17, tm_hour = 23, tm_min = 59, tm_sec = 59\<rparr>"
  "gmtime 2524607999 = \<lparr>tm_year = 149, tm_mon = 11, tm_mday = 31, tm_hour = 23, tm_min = 59, tm_sec = 59\<rparr>"
  by code_simp+

lemma utc_time_example: "utc_time 1792281599 = bytes_of_string ''261017235959Z''"
  by (simp add: utc_time_def gmtime_examples two_digits_def bytes_of_string_def)

end
