(* ===== verification/DtlsSession.thy ===== *)
theory DtlsSession
  imports DtlsMessages DerCertificate
begin

text \<open>
  The DTLS 1.2 client, \<open>application/dtls_client_session.h\<close> and \<open>dtls_client_session.cpp\<close>, with the
  wrapper \<open>infrastructure/dtls/tls_prf.cpp\<close>. SHA-256, the TLS PRF, the ECDH and AES-GCM routines are
  library code and parameters. \<open>None\<close> is undefined behaviour. Two counters of the class that nothing
  reads (\<open>m_serverMessageSeqExpected\<close>, \<open>m_serverRecordSeq\<close>) are left out.
\<close>

unbundle bit_operations_syntax

datatype DtlsState =
    DtlsState_Initial
  | DtlsState_SentClientHello
  | DtlsState_GotHelloVerifyRequest
  | DtlsState_SentClientHelloWithCookie
  | DtlsState_GotServerHello
  | DtlsState_GotServerCertificate
  | DtlsState_GotServerKeyExchange
  | DtlsState_GotServerHelloDone
  | DtlsState_SentClientKeyExchange
  | DtlsState_SentChangeCipherSpec
  | DtlsState_SentFinished
  | DtlsState_GotChangeCipherSpec
  | DtlsState_Established
  | DtlsState_Failed

text \<open>
  The library: a hash and the PRF fill an output of the size asked for; \<open>ComputeSharedSecret\<close> fills 32
  bytes or fails; the cipher takes key, implicit IV, input, sequence number, type and version, and
  gives the bytes written, \<open>None\<close> for a negative count.
\<close>

record DtlsLib =
  dl_Sha256 :: hash_fn
  dl_Prf :: "bytes \<Rightarrow> string \<Rightarrow> bytes \<Rightarrow> nat \<Rightarrow> nat \<Rightarrow> u8"
  dl_Ecdh :: "bytes \<Rightarrow> bytes \<Rightarrow> (nat \<Rightarrow> u8) option"
  dl_Encrypt :: "bytes \<Rightarrow> bytes \<Rightarrow> bytes \<Rightarrow> u64 \<Rightarrow> u8 \<Rightarrow> u16 \<Rightarrow> bytes option"
  dl_Decrypt :: "bytes \<Rightarrow> bytes \<Rightarrow> bytes \<Rightarrow> u64 \<Rightarrow> u8 \<Rightarrow> u16 \<Rightarrow> bytes option"

definition TlsPrf_Compute :: "DtlsLib \<Rightarrow> bytes \<Rightarrow> string \<Rightarrow> bytes \<Rightarrow> nat \<Rightarrow> bytes" where
  "TlsPrf_Compute lib secret label seed len =
     (if len = 0 then [] else fill len (dl_Prf lib secret label seed len))"

text \<open>An \<open>AesGcm\<close> object after \<open>Init\<close> holds a key and the implicit part of the nonce.\<close>

type_synonym AesGcm = "bytes \<times> bytes"

record DtlsClient =
  dc_state :: DtlsState
  dc_failureReason :: string
  dc_ourCert :: EcdsaP256KeyPair
  dc_expectedPeerFingerprint :: bytes
  dc_clientRandom :: bytes
  dc_serverRandom :: bytes
  dc_cookie :: bytes
  dc_serverPublicPoint :: bytes
  dc_ourEcdhPrivate :: bytes
  dc_ourEcdhPublic :: bytes
  dc_serverCertDer :: bytes
  dc_extendedMasterSecret :: bool
  dc_clientMessageSeq :: u16
  dc_clientEpoch :: u16
  dc_clientRecordSeq :: u64
  dc_masterSecret :: bytes
  dc_clientWriteKey :: bytes
  dc_serverWriteKey :: bytes
  dc_clientWriteIv :: bytes
  dc_serverWriteIv :: bytes
  dc_clientCipher :: "AesGcm option"
  dc_serverCipher :: "AesGcm option"
  dc_handshakeTranscript :: bytes


section \<open>Helpers\<close>

text \<open>\<open>HexNybble\<close> accepts the digits and both cases, as \<^const>\<open>hex_val\<close> does; \<open>hi\<close> is the pending half.\<close>

definition skipped :: "char \<Rightarrow> bool" where
  "skipped c \<longleftrightarrow> of_char c \<in> {58 :: nat, 32, 13, 10, 9}"

fun parse_hex :: "string \<Rightarrow> nat option \<Rightarrow> bytes \<Rightarrow> bytes" where
  "parse_hex [] hi out = (if hi = None then out else [])"
| "parse_hex (c # cs) hi out =
     (if skipped c then parse_hex cs hi out
      else (case hex_val c of
              None \<Rightarrow> []
            | Some n \<Rightarrow> (case hi of
                None \<Rightarrow> parse_hex cs (Some n) out
              | Some h \<Rightarrow> parse_hex cs None (out @ [of_nat (h * 16 + n)]))))"

definition ParseHexFingerprint :: "string \<Rightarrow> bytes" where
  "ParseHexFingerprint fp = parse_hex fp None []"

definition dtls_sha256 :: "DtlsLib \<Rightarrow> bytes \<Rightarrow> bytes" where
  "dtls_sha256 lib data = fill 32 (dl_Sha256 lib data)"

definition dtls_Fail :: "string \<Rightarrow> DtlsClient \<Rightarrow> DtlsClient" where
  "dtls_Fail reason s = s\<lparr>dc_state := DtlsState_Failed, dc_failureReason := reason\<rparr>"

definition AppendToHandshakeHash :: "bytes \<Rightarrow> DtlsClient \<Rightarrow> DtlsClient" where
  "AppendToHandshakeHash data s = s\<lparr>dc_handshakeTranscript := dc_handshakeTranscript s @ data\<rparr>"

definition WrapRecord :: "u8 \<Rightarrow> u16 \<Rightarrow> u16 \<Rightarrow> u64 \<Rightarrow> bytes \<Rightarrow> bytes" where
  "WrapRecord contentType version epoch recordSeq payload =
     dtls_Encode \<lparr>dtls_type = contentType, dtls_version = version, dtls_epoch = epoch,
                  dtls_sequenceNumber = recordSeq, dtls_payload = payload\<rparr>"

definition TlsLikeTranscriptBytes :: "u8 \<Rightarrow> bytes \<Rightarrow> bytes" where
  "TlsLikeTranscriptBytes msgType body = [msgType] @ be24 (of_nat (length body)) @ body"

definition DtlsClientSession_new :: "EcdsaP256KeyPair \<Rightarrow> string \<Rightarrow> DtlsClient" where
  "DtlsClientSession_new ourCert peerFingerprint =
     \<lparr>dc_state = DtlsState_Initial, dc_failureReason = [], dc_ourCert = ourCert,
      dc_expectedPeerFingerprint = ParseHexFingerprint peerFingerprint,
      dc_clientRandom = replicate 32 0, dc_serverRandom = replicate 32 0, dc_cookie = [],
      dc_serverPublicPoint = [], dc_ourEcdhPrivate = [], dc_ourEcdhPublic = [], dc_serverCertDer = [],
      dc_extendedMasterSecret = True, dc_clientMessageSeq = 0, dc_clientEpoch = 0, dc_clientRecordSeq = 0,
      dc_masterSecret = [], dc_clientWriteKey = [], dc_serverWriteKey = [], dc_clientWriteIv = [],
      dc_serverWriteIv = [], dc_clientCipher = None, dc_serverCipher = None, dc_handshakeTranscript = []\<rparr>"


section \<open>Messages of the client\<close>

definition BuildClientHelloBody :: "bool \<Rightarrow> DtlsClient \<Rightarrow> bytes" where
  "BuildClientHelloBody withCookie s =
     ClientHello_Encode (ClientHello_default\<lparr>
       ch_random := dc_clientRandom s,
       ch_cookie := (if withCookie then dc_cookie s else []),
       ch_cipherSuites := [kCsEcdheEcdsaAes128GcmSha256],
       ch_compressionMethods := [0],
       ch_supportedGroups := [kNgSecp256r1],
       ch_ecPointFormats := [kEcPointFormatUncompressed],
       ch_signatureAlgorithms := [kSigAlgEcdsaSecp256r1Sha256],
       ch_srtpProtectionProfiles := [kSrtpAes128CmHmacSha1_80],
       ch_extendedMasterSecret := True\<rparr>)"

text \<open>
  The four statements of every plaintext handshake message sent: wrap with the next message number,
  append to the transcript, put into a record with the next record number.
\<close>

definition SendHandshake :: "u8 \<Rightarrow> bytes \<Rightarrow> DtlsClient \<Rightarrow> DtlsClient \<times> bytes" where
  "SendHandshake msgType body s =
     (let wrapped = WrapHandshakeUnfragmented msgType (dc_clientMessageSeq s) body;
          s = AppendToHandshakeHash (TlsLikeTranscriptBytes msgType body)
                (s\<lparr>dc_clientMessageSeq := dc_clientMessageSeq s + 1\<rparr>);
          datagram = WrapRecord kDtlsContentHandshake kDtlsVersion12 (dc_clientEpoch s) (dc_clientRecordSeq s) wrapped
      in (s\<lparr>dc_clientRecordSeq := dc_clientRecordSeq s + 1\<rparr>, datagram))"

text \<open>\<open>GenerateRandom\<close> and \<open>GenerateKeyPair\<close> fill the three arrays.\<close>

definition Initiate :: "random_fn \<Rightarrow> random_fn \<Rightarrow> random_fn \<Rightarrow> DtlsClient \<Rightarrow> DtlsClient \<times> bytes list" where
  "Initiate rnd priv pub s =
     (let s = s\<lparr>dc_clientRandom := fill 32 rnd, dc_ourEcdhPrivate := fill 32 priv, dc_ourEcdhPublic := fill 65 pub\<rparr>;
          (s, d) = SendHandshake kHsClientHello (BuildClientHelloBody False s) s
      in (s\<lparr>dc_state := DtlsState_SentClientHello\<rparr>, [d]))"

definition BuildCertificateBody :: "bytes \<Rightarrow> bytes" where
  "BuildCertificateBody der =
     be24 (of_nat (3 + length der)) @ be24 (of_nat (length der)) @ der"

definition BuildClientKeyExchangeBody :: "DtlsClient \<Rightarrow> bytes" where
  "BuildClientKeyExchangeBody s = ClientKeyExchange_Encode (dc_ourEcdhPublic s)"

definition BuildCertificateVerifyBody :: "DtlsLib \<Rightarrow> CertCall \<Rightarrow> DtlsClient \<Rightarrow> bytes \<Rightarrow> bytes option" where
  "BuildCertificateVerifyBody lib cc s transcriptSoFar = do {
     sig \<leftarrow> SignSha256 cc (dc_ourCert s) (dtls_sha256 lib transcriptSoFar);
     Some (CertificateVerify_Encode \<lparr>cv_hashAlgorithm = 4, cv_signatureAlgorithm = 3, cv_signature = sig\<rparr>)
   }"

definition BuildFinishedBody :: "DtlsLib \<Rightarrow> DtlsClient \<Rightarrow> bytes \<Rightarrow> bool \<Rightarrow> bytes" where
  "BuildFinishedBody lib s transcriptUpTo fromClient =
     TlsPrf_Compute lib (dc_masterSecret s) (if fromClient then ''client finished'' else ''server finished'')
       (dtls_sha256 lib transcriptUpTo) kVerifyDataLength"

definition DeriveKeysAndCipher :: "DtlsLib \<Rightarrow> DtlsClient \<Rightarrow> DtlsClient" where
  "DeriveKeysAndCipher lib s =
     (if length (dc_serverPublicPoint s) \<noteq> 65 then dtls_Fail ''missing server pub'' s
      else if length (dc_ourEcdhPrivate s) \<noteq> 32 then dtls_Fail ''missing our ecdh priv'' s
      else (case dl_Ecdh lib (dc_ourEcdhPrivate s) (dc_serverPublicPoint s) of
              None \<Rightarrow> dtls_Fail ''ECDH compute_shared_secret failed'' s
            | Some x \<Rightarrow>
                (let pms = fill 32 x;
                     s = s\<lparr>dc_masterSecret :=
                           (if dc_extendedMasterSecret s
                            then TlsPrf_Compute lib pms ''extended master secret''
                                   (dtls_sha256 lib (dc_handshakeTranscript s)) 48
                            else TlsPrf_Compute lib pms ''master secret''
                                   (dc_clientRandom s @ dc_serverRandom s) 48)\<rparr>;
                     keyBlock = TlsPrf_Compute lib (dc_masterSecret s) ''key expansion''
                                  (dc_serverRandom s @ dc_clientRandom s) (2 * 16 + 2 * 4)
                 in if length keyBlock \<noteq> 40 then dtls_Fail ''PRF produced wrong key_block size'' s
                    else (let s = s\<lparr>dc_clientWriteKey := take 16 keyBlock,
                                    dc_serverWriteKey := take 16 (drop 16 keyBlock),
                                    dc_clientWriteIv := take 4 (drop 32 keyBlock),
                                    dc_serverWriteIv := take 4 (drop 36 keyBlock)\<rparr>
                          in s\<lparr>dc_clientCipher := Some (dc_clientWriteKey s, dc_clientWriteIv s),
                               dc_serverCipher := Some (dc_serverWriteKey s, dc_serverWriteIv s)\<rparr>))))"

text \<open>\<open>((uint64_t)epoch << 48) | seq\<close>\<close>

definition aad_seq :: "u16 \<Rightarrow> u64 \<Rightarrow> u64" where
  "aad_seq epoch recordSeq = push_bit 48 (ucast epoch) OR recordSeq"

definition BuildClientFinishedFlight :: "DtlsLib \<Rightarrow> DtlsClient \<Rightarrow> (DtlsClient \<times> bytes list) option" where
  "BuildClientFinishedFlight lib s =
     (let ccs = dtls_Encode \<lparr>dtls_type = kDtlsContentChangeCipherSpec, dtls_version = kDtlsVersion12,
                  dtls_epoch = dc_clientEpoch s, dtls_sequenceNumber = dc_clientRecordSeq s, dtls_payload = [0x01]\<rparr>;
          s = s\<lparr>dc_state := DtlsState_SentChangeCipherSpec, dc_clientEpoch := dc_clientEpoch s + 1,
                dc_clientRecordSeq := 0\<rparr>;
          finishedBody = BuildFinishedBody lib s (dc_handshakeTranscript s) True;
          wrapped = WrapHandshakeUnfragmented kHsFinished (dc_clientMessageSeq s) finishedBody;
          s = AppendToHandshakeHash (TlsLikeTranscriptBytes kHsFinished finishedBody)
                (s\<lparr>dc_clientMessageSeq := dc_clientMessageSeq s + 1\<rparr>)
      in case dc_clientCipher s of
           None \<Rightarrow> None
         | Some (key, iv) \<Rightarrow>
             (case dl_Encrypt lib key iv wrapped (aad_seq (dc_clientEpoch s) (dc_clientRecordSeq s))
                     kDtlsContentHandshake kDtlsVersion12 of
                None \<Rightarrow> Some (dtls_Fail ''AES-GCM encrypt of Finished failed'' s, [ccs])
              | Some encrypted \<Rightarrow>
                  Some (s\<lparr>dc_clientRecordSeq := dc_clientRecordSeq s + 1, dc_state := DtlsState_SentFinished\<rparr>,
                        [ccs, WrapRecord kDtlsContentHandshake kDtlsVersion12 (dc_clientEpoch s)
                                (dc_clientRecordSeq s) encrypted])))"


section \<open>The handshake\<close>

text \<open>
  \<open>HandleHandshakeMessage\<close>, case by case: the new state and the datagrams pushed. The first element of
  an empty leaf certificate (\<open>&m_serverCertDer[0]\<close>) does not exist: undefined.
\<close>

definition HandleHelloVerifyRequest :: "bytes \<Rightarrow> DtlsClient \<Rightarrow> (DtlsClient \<times> bytes list) option" where
  "HandleHelloVerifyRequest body s =
     (case HelloVerifyRequest_Decode body of
        None \<Rightarrow> None
      | Some None \<Rightarrow> Some (dtls_Fail ''malformed HelloVerifyRequest'' s, [])
      | Some (Some hvr) \<Rightarrow>
          (let s = s\<lparr>dc_cookie := hvr_cookie hvr, dc_handshakeTranscript := []\<rparr>;
               (s, d) = SendHandshake kHsClientHello (BuildClientHelloBody True s) s
           in Some (s\<lparr>dc_state := DtlsState_SentClientHelloWithCookie\<rparr>, [d])))"

definition HandleServerHello :: "bytes \<Rightarrow> DtlsClient \<Rightarrow> (DtlsClient \<times> bytes list) option" where
  "HandleServerHello body s =
     (case ServerHello_Decode body of
        None \<Rightarrow> None
      | Some None \<Rightarrow> Some (dtls_Fail ''malformed ServerHello'' s, [])
      | Some (Some sh) \<Rightarrow>
          if sh_cipherSuite sh \<noteq> kCsEcdheEcdsaAes128GcmSha256
          then Some (dtls_Fail ''server picked unsupported cipher suite'' s, [])
          else (let s = s\<lparr>dc_serverRandom := sh_random sh, dc_extendedMasterSecret := sh_extendedMasterSecret sh\<rparr>;
                    s = AppendToHandshakeHash (TlsLikeTranscriptBytes kHsServerHello body) s
                in Some (s\<lparr>dc_state := DtlsState_GotServerHello\<rparr>, [])))"

definition HandleCertificate :: "DtlsLib \<Rightarrow> bytes \<Rightarrow> DtlsClient \<Rightarrow> (DtlsClient \<times> bytes list) option" where
  "HandleCertificate lib body s =
     (case Certificate_Decode body of
        None \<Rightarrow> None
      | Some None \<Rightarrow> Some (dtls_Fail ''malformed Certificate'' s, [])
      | Some (Some []) \<Rightarrow> Some (dtls_Fail ''malformed Certificate'' s, [])
      | Some (Some (leaf # _)) \<Rightarrow>
          (let s = s\<lparr>dc_serverCertDer := leaf\<rparr>
           in if leaf = [] then None
              else if dtls_sha256 lib leaf \<noteq> dc_expectedPeerFingerprint s
              then Some (dtls_Fail ''peer certificate fingerprint mismatch'' s, [])
              else (let s = AppendToHandshakeHash (TlsLikeTranscriptBytes kHsCertificate body) s
                    in Some (s\<lparr>dc_state := DtlsState_GotServerCertificate\<rparr>, []))))"

definition HandleServerKeyExchange :: "bytes \<Rightarrow> DtlsClient \<Rightarrow> (DtlsClient \<times> bytes list) option" where
  "HandleServerKeyExchange body s =
     (case ServerKeyExchange_Decode body of
        None \<Rightarrow> None
      | Some None \<Rightarrow> Some (dtls_Fail ''malformed ServerKeyExchange'' s, [])
      | Some (Some ske) \<Rightarrow>
          if ske_namedCurve ske \<noteq> kNgSecp256r1
          then Some (dtls_Fail ''server picked unsupported curve'' s, [])
          else if length (ske_publicPoint ske) \<noteq> 65 \<or> hd (ske_publicPoint ske) \<noteq> 0x04
          then Some (dtls_Fail ''server EC point must be uncompressed P-256'' s, [])
          else (let s = s\<lparr>dc_serverPublicPoint := ske_publicPoint ske\<rparr>;
                    s = AppendToHandshakeHash (TlsLikeTranscriptBytes kHsServerKeyExchange body) s
                in Some (s\<lparr>dc_state := DtlsState_GotServerKeyExchange\<rparr>, [])))"

definition HandleServerHelloDone :: "DtlsLib \<Rightarrow> CertCall \<Rightarrow> bytes \<Rightarrow> DtlsClient \<Rightarrow> (DtlsClient \<times> bytes list) option" where
  "HandleServerHelloDone lib cc body s = do {
     let s = (AppendToHandshakeHash (TlsLikeTranscriptBytes kHsServerHelloDone body) s)\<lparr>dc_state := DtlsState_GotServerHelloDone\<rparr>;
     der \<leftarrow> ToX509SelfSignedDer cc (dc_ourCert s);
     (s, d1) \<leftarrow> Some (SendHandshake kHsCertificate (BuildCertificateBody der) s);
     (s, d2) \<leftarrow> Some (SendHandshake kHsClientKeyExchange (BuildClientKeyExchangeBody s) s);
     s \<leftarrow> Some (s\<lparr>dc_state := DtlsState_SentClientKeyExchange\<rparr>);
     cvBody \<leftarrow> BuildCertificateVerifyBody lib cc s (dc_handshakeTranscript s);
     (s, d3) \<leftarrow> Some (SendHandshake kHsCertificateVerify cvBody s);
     s \<leftarrow> Some (DeriveKeysAndCipher lib s);
     if dc_state s = DtlsState_Failed then Some (s, [d1, d2, d3])
     else do {
       (s, flight) \<leftarrow> BuildClientFinishedFlight lib s;
       Some (s, [d1, d2, d3] @ flight)
     }
   }"

definition HandleFinished :: "DtlsLib \<Rightarrow> bytes \<Rightarrow> DtlsClient \<Rightarrow> (DtlsClient \<times> bytes list) option" where
  "HandleFinished lib body s =
     (let expected = BuildFinishedBody lib s (dc_handshakeTranscript s) False
      in if length body \<noteq> kVerifyDataLength \<or> body \<noteq> expected
         then Some (dtls_Fail ''bad server Finished verify_data'' s, [])
         else (let s = AppendToHandshakeHash (TlsLikeTranscriptBytes kHsFinished body) s
               in Some (s\<lparr>dc_state := DtlsState_Established\<rparr>, [])))"

definition HandleHandshakeMessage ::
  "DtlsLib \<Rightarrow> CertCall \<Rightarrow> u8 \<Rightarrow> bytes \<Rightarrow> DtlsClient \<Rightarrow> (DtlsClient \<times> bytes list) option" where
  "HandleHandshakeMessage lib cc msgType body s =
     (if msgType = kHsHelloVerifyRequest then HandleHelloVerifyRequest body s
      else if msgType = kHsServerHello then HandleServerHello body s
      else if msgType = kHsCertificate then HandleCertificate lib body s
      else if msgType = kHsServerKeyExchange then HandleServerKeyExchange body s
      else if msgType = kHsCertificateRequest
        then Some (AppendToHandshakeHash (TlsLikeTranscriptBytes kHsCertificateRequest body) s, [])
      else if msgType = kHsServerHelloDone then HandleServerHelloDone lib cc body s
      else if msgType = kHsFinished then HandleFinished lib body s
      else Some (s, []))"

definition HandleChangeCipherSpec :: "DtlsClient \<Rightarrow> DtlsClient" where
  "HandleChangeCipherSpec s = s\<lparr>dc_state := DtlsState_GotChangeCipherSpec\<rparr>"


section \<open>Receiving\<close>

text \<open>
  What the platform answers may differ from call to call: \<open>env n\<close> holds its answers while the message
  number is \<open>n\<close>.
\<close>

type_synonym CertEnv = "nat \<Rightarrow> CertCall"

text \<open>The messages of one record: the result says whether \<open>ProcessDatagram\<close> goes on.\<close>

function ProcessMessages ::
  "DtlsLib \<Rightarrow> CertEnv \<Rightarrow> bytes \<Rightarrow> DtlsClient \<Rightarrow> (bool \<times> DtlsClient \<times> bytes list) option" where
  "ProcessMessages lib env ms s =
     (if length ms < kHandshakeHeaderSize then Some (True, s, [])
      else (case HandshakeHeader_Decode ms of
              None \<Rightarrow> None
            | Some None \<Rightarrow> Some (False, dtls_Fail ''malformed handshake header'' s, [])
            | Some (Some hh) \<Rightarrow>
                if hh_fragmentOffset hh \<noteq> 0 \<or> hh_fragmentLength hh \<noteq> hh_length hh
                then Some (False, dtls_Fail ''fragmented DTLS handshake messages not supported'' s, [])
                else if length ms < kHandshakeHeaderSize + unat (hh_length hh)
                then Some (False, dtls_Fail ''handshake length overruns record'' s, [])
                else (case HandleHandshakeMessage lib (env (unat (dc_clientMessageSeq s))) (hh_msgType hh)
                             (take (unat (hh_length hh)) (drop kHandshakeHeaderSize ms)) s of
                        None \<Rightarrow> None
                      | Some (s, out) \<Rightarrow>
                          if dc_state s = DtlsState_Failed then Some (False, s, out)
                          else (case ProcessMessages lib env (drop (kHandshakeHeaderSize + unat (hh_length hh)) ms) s of
                                  None \<Rightarrow> None
                                | Some (ok, s, out') \<Rightarrow> Some (ok, s, out @ out')))))"
  by pat_completeness auto
termination
  by (relation "measure (\<lambda>(lib, env, ms, s). length ms)") (auto simp: kHandshakeHeaderSize_def)

declare ProcessMessages.simps [simp del]

text \<open>
  One record. The plaintext of a protected record is sized like its payload and written from
  \<open>&plain[0]\<close>, which an empty payload does not have.
\<close>

definition ProcessRecord ::
  "DtlsLib \<Rightarrow> CertEnv \<Rightarrow> DtlsRecord \<Rightarrow> DtlsClient \<Rightarrow> (bool \<times> DtlsClient \<times> bytes list) option" where
  "ProcessRecord lib env rec s =
     (if dtls_type rec = kDtlsContentChangeCipherSpec then Some (True, HandleChangeCipherSpec s, [])
      else if dtls_type rec = kDtlsContentAlert then
        (if 2 \<le> length (dtls_payload rec) \<and> hd (dtls_payload rec) = 2
         then Some (False, dtls_Fail ''server sent fatal alert'' s, [])
         else Some (True, s, []))
      else if dtls_type rec = kDtlsContentHandshake then
        (if dtls_epoch rec = 0 then ProcessMessages lib env (dtls_payload rec) s
         else (case dc_serverCipher s of
                 None \<Rightarrow> Some (False, dtls_Fail ''got encrypted record before keys'' s, [])
               | Some (key, iv) \<Rightarrow>
                   if dtls_payload rec = [] then None
                   else (case dl_Decrypt lib key iv (dtls_payload rec)
                                (aad_seq (dtls_epoch rec) (dtls_sequenceNumber rec))
                                kDtlsContentHandshake kDtlsVersion12 of
                           None \<Rightarrow> Some (False, dtls_Fail ''AEAD auth failed on encrypted handshake'' s, [])
                         | Some plain \<Rightarrow> ProcessMessages lib env plain s)))
      else Some (True, s, []))"

function ProcessRecords ::
  "DtlsLib \<Rightarrow> CertEnv \<Rightarrow> bytes \<Rightarrow> DtlsClient \<Rightarrow> (bool \<times> DtlsClient \<times> bytes list) option" where
  "ProcessRecords lib env bs s =
     (if bs = [] then Some (True, s, [])
      else (case dtls_Decode bs of
              None \<Rightarrow> None
            | Some None \<Rightarrow> Some (False, s, [])
            | Some (Some (rec, consumed)) \<Rightarrow>
                (case ProcessRecord lib env rec s of
                   None \<Rightarrow> None
                 | Some (False, s, out) \<Rightarrow> Some (False, s, out)
                 | Some (True, s, out) \<Rightarrow>
                     (case ProcessRecords lib env (drop consumed bs) s of
                        None \<Rightarrow> None
                      | Some (ok, s, out') \<Rightarrow> Some (ok, s, out @ out')))))"
  by pat_completeness auto
termination
proof (relation "measure (\<lambda>(lib, env, bs, s). length bs)", goal_cases)
  case (2 lib env bs s x y z rec consumed)
  then show ?case using dtls_Decode_cases [of bs] by auto
qed auto

declare ProcessRecords.simps [simp del]

definition ProcessDatagram ::
  "DtlsLib \<Rightarrow> CertEnv \<Rightarrow> bytes \<Rightarrow> DtlsClient \<Rightarrow> (bool \<times> DtlsClient \<times> bytes list) option" where
  "ProcessDatagram lib env bs s =
     (if dc_state s = DtlsState_Failed then Some (False, s, []) else ProcessRecords lib env bs s)"


section \<open>Application data and exported keys\<close>

definition EncryptAppData :: "DtlsLib \<Rightarrow> bytes \<Rightarrow> DtlsClient \<Rightarrow> DtlsClient \<times> bytes" where
  "EncryptAppData lib plaintext s =
     (if dc_state s \<noteq> DtlsState_Established then (s, [])
      else (case dc_clientCipher s of
              None \<Rightarrow> (s, [])
            | Some (key, iv) \<Rightarrow>
                (case dl_Encrypt lib key iv plaintext (aad_seq (dc_clientEpoch s) (dc_clientRecordSeq s))
                        kDtlsContentApplicationData kDtlsVersion12 of
                   None \<Rightarrow> (s, [])
                 | Some ct \<Rightarrow>
                     (s\<lparr>dc_clientRecordSeq := dc_clientRecordSeq s + 1\<rparr>,
                      WrapRecord kDtlsContentApplicationData kDtlsVersion12 (dc_clientEpoch s)
                        (dc_clientRecordSeq s) ct))))"

text \<open>\<open>None\<close> inside is the return of false, with \<open>out\<close> empty or untouched.\<close>

definition DecryptAppData :: "DtlsLib \<Rightarrow> bytes \<Rightarrow> DtlsClient \<Rightarrow> bytes option option" where
  "DecryptAppData lib datagram s =
     (if dc_state s \<noteq> DtlsState_Established then Some None
      else (case dc_serverCipher s of
              None \<Rightarrow> Some None
            | Some (key, iv) \<Rightarrow>
                (case dtls_Decode datagram of
                   None \<Rightarrow> None
                 | Some None \<Rightarrow> Some None
                 | Some (Some (rec, consumed)) \<Rightarrow>
                     if dtls_type rec \<noteq> kDtlsContentApplicationData then Some None
                     else Some (dl_Decrypt lib key iv (dtls_payload rec)
                                  (aad_seq (dtls_epoch rec) (dtls_sequenceNumber rec))
                                  kDtlsContentApplicationData kDtlsVersion12))))"

definition ExportKeyingMaterial :: "DtlsLib \<Rightarrow> string \<Rightarrow> nat \<Rightarrow> DtlsClient \<Rightarrow> bytes" where
  "ExportKeyingMaterial lib label len s =
     (if length (dc_masterSecret s) \<noteq> 48 then []
      else TlsPrf_Compute lib (dc_masterSecret s) label (dc_clientRandom s @ dc_serverRandom s) len)"


section \<open>What a session keeps true\<close>

text \<open>Both ciphers or none, each with its own key and nonce prefix; a new epoch needs them.\<close>

definition keys_ok ::
  "bytes \<Rightarrow> bytes \<Rightarrow> bytes \<Rightarrow> bytes \<Rightarrow> bytes \<Rightarrow> AesGcm option \<Rightarrow> AesGcm option \<Rightarrow> u16 \<Rightarrow> bool" where
  "keys_ok ms ck sk ci si c d epoch \<longleftrightarrow>
     (c = None \<and> d = None \<and> epoch = 0 \<and> ms = []) \<or>
     (c = Some (ck, ci) \<and> d = Some (sk, si) \<and> length ms = 48 \<and>
      length ck = 16 \<and> length sk = 16 \<and> length ci = 4 \<and> length si = 4)"

definition dc_ok :: "DtlsClient \<Rightarrow> bool" where
  "dc_ok s \<longleftrightarrow>
     length (dc_clientRandom s) = 32 \<and> length (dc_serverRandom s) = 32 \<and> length (dc_cookie s) \<le> 255 \<and>
     length (dc_serverPublicPoint s) \<in> {0, 65} \<and>
     length (dc_ourEcdhPrivate s) \<in> {0, 32} \<and> length (dc_ourEcdhPublic s) \<in> {0, 65} \<and>
     keys_ok (dc_masterSecret s) (dc_clientWriteKey s) (dc_serverWriteKey s) (dc_clientWriteIv s)
       (dc_serverWriteIv s) (dc_clientCipher s) (dc_serverCipher s) (dc_clientEpoch s)"

lemma length_Prf [simp]: "length (TlsPrf_Compute lib a b c n) = n"
  by (simp add: TlsPrf_Compute_def)

lemma length_dtls_sha256 [simp]: "length (dtls_sha256 lib d) = 32"
  by (simp add: dtls_sha256_def)

lemma dc_ok_new: "dc_ok (DtlsClientSession_new c fp)"
  by (simp add: dc_ok_def DtlsClientSession_new_def keys_ok_def)

lemma dc_ok_updates [simp]:
  "dc_ok (s\<lparr>dc_state := a\<rparr>) = dc_ok s" "dc_ok (s\<lparr>dc_failureReason := b\<rparr>) = dc_ok s"
  "dc_ok (s\<lparr>dc_handshakeTranscript := d\<rparr>) = dc_ok s" "dc_ok (s\<lparr>dc_clientMessageSeq := e\<rparr>) = dc_ok s"
  "dc_ok (s\<lparr>dc_clientRecordSeq := f\<rparr>) = dc_ok s" "dc_ok (s\<lparr>dc_serverCertDer := d\<rparr>) = dc_ok s"
  "dc_ok (s\<lparr>dc_extendedMasterSecret := g\<rparr>) = dc_ok s"
  by (simp_all add: dc_ok_def)

lemma dc_ok_helpers [simp]:
  "dc_ok (dtls_Fail r s) = dc_ok s" "dc_ok (AppendToHandshakeHash d s) = dc_ok s"
  "dc_ok (fst (SendHandshake t body s)) = dc_ok s"
  by (simp_all add: dtls_Fail_def AppendToHandshakeHash_def SendHandshake_def Let_def)

lemma SendHandshake_state: "SendHandshake t body s = (s', d) \<Longrightarrow> dc_state s' = dc_state s"
  by (auto simp: SendHandshake_def AppendToHandshakeHash_def Let_def)

lemma dc_ok_SendHandshake: "SendHandshake t body s = (s', d) \<Longrightarrow> dc_ok s' = dc_ok s"
  using dc_ok_helpers(3) [of t body s] by simp

lemma hello_verify_cookie: "HelloVerifyRequest_Decode b = Some (Some hvr) \<Longrightarrow> length (hvr_cookie hvr) \<le> 255"
proof -
  assume "HelloVerifyRequest_Decode b = Some (Some hvr)"
  then obtain n :: u8 where "subbuf b 3 (3 + unat n) = Some (hvr_cookie hvr)"
    by (auto simp: HelloVerifyRequest_Decode_def bind_eq_Some_conv split: if_splits)
  then have "length (hvr_cookie hvr) \<le> unat n"
    by (auto simp: subbuf_def split: if_splits dest!: sym [of _ "hvr_cookie hvr"])
  moreover have "unat n < 2 ^ LENGTH(8)" by (rule unsigned_less)
  ultimately show ?thesis by simp
qed

lemma server_hello_extensions_keeps:
  "server_hello_extensions bs pos e out = Some (Some out') \<Longrightarrow>
     sh_random out' = sh_random out \<and> sh_cipherSuite out' = sh_cipherSuite out"
proof (induction bs pos e out rule: server_hello_extensions.induct)
  case (1 bs pos e out)
  show ?case
  proof (cases "e < pos + 4")
    case True
    then show ?thesis using "1.prems" by (simp add: server_hello_extensions.simps)
  next
    case False
    from "1.prems" False obtain t l out1 where r: "rd_be16 bs pos = Some t" "rd_be16 bs (pos + 2) = Some l"
        "\<not> e < pos + 4 + unat l" "server_hello_extension bs (pos + 4) t l out = Some out1"
        "server_hello_extensions bs (pos + 4 + unat l) e out1 = Some (Some out')"
      by (subst (asm) server_hello_extensions.simps) (auto simp: bind_eq_Some_conv split: if_splits)
    moreover have "sh_random out1 = sh_random out \<and> sh_cipherSuite out1 = sh_cipherSuite out"
      using r(4) by (auto simp: server_hello_extension_def bind_eq_Some_conv split: if_splits)
    ultimately show ?thesis using "1.IH" [OF False r] by simp
  qed
qed

lemma server_hello_tail_keeps:
  "server_hello_tail bs pos out = Some (Some out') \<Longrightarrow> sh_random out' = sh_random out \<and> sh_cipherSuite out' = sh_cipherSuite out"
  by (auto simp: server_hello_tail_def bind_eq_Some_conv Let_def split: if_splits
      dest!: server_hello_extensions_keeps)

lemma server_hello_random:
  assumes "ServerHello_Decode b = Some (Some sh)"
  shows "length (sh_random sh) = 32"
proof -
  obtain rnd pos out where "subbuf b 2 34 = Some rnd" "server_hello_tail b pos out = Some (Some sh)"
      "sh_random out = rnd"
    using assms by (simp add: ServerHello_Decode_def bind_eq_Some_conv Let_def split: if_splits) fastforce
  then have "subbuf b 2 34 = Some (sh_random sh)" by (auto dest: server_hello_tail_keeps)
  then show ?thesis by (auto simp: subbuf_def split: if_splits dest!: sym [of _ "sh_random sh"])
qed

lemma dc_ok_HelloVerifyRequest: "HandleHelloVerifyRequest b s = Some (s', out) \<Longrightarrow> dc_ok s \<Longrightarrow> dc_ok s'"
proof -
  assume h: "HandleHelloVerifyRequest b s = Some (s', out)" and s: "dc_ok s"
  show "dc_ok s'"
  proof (cases "\<exists>hvr. HelloVerifyRequest_Decode b = Some (Some hvr)")
    case True
    then obtain hvr where d: "HelloVerifyRequest_Decode b = Some (Some hvr)" by blast
    then have "dc_ok (s\<lparr>dc_cookie := hvr_cookie hvr, dc_handshakeTranscript := []\<rparr>)"
      using s hello_verify_cookie [OF d] by (auto simp: dc_ok_def)
    with h d show ?thesis
      by (auto simp: HandleHelloVerifyRequest_def Let_def SendHandshake_def)
  next
    case False
    with h s show ?thesis by (auto simp: HandleHelloVerifyRequest_def split: option.splits)
  qed
qed

lemma dc_ok_ServerHello: "HandleServerHello b s = Some (s', out) \<Longrightarrow> dc_ok s \<Longrightarrow> dc_ok s'"
  using server_hello_random [of b]
  by (auto simp: HandleServerHello_def Let_def dc_ok_def dtls_Fail_def AppendToHandshakeHash_def
      split: option.splits if_splits)

lemma dc_ok_Certificate: "HandleCertificate lib b s = Some (s', out) \<Longrightarrow> dc_ok s \<Longrightarrow> dc_ok s'"
  by (auto simp: HandleCertificate_def Let_def split: option.splits list.splits if_splits)

lemma dc_ok_point: "dc_ok s \<Longrightarrow> length p = 65 \<Longrightarrow> dc_ok (s\<lparr>dc_serverPublicPoint := p\<rparr>)"
  by (simp add: dc_ok_def)

lemma dc_ok_ServerKeyExchange: "HandleServerKeyExchange b s = Some (s', out) \<Longrightarrow> dc_ok s \<Longrightarrow> dc_ok s'"
  by (auto simp: HandleServerKeyExchange_def Let_def intro!: dc_ok_point split: option.splits if_splits)

lemma dc_ok_keys:
  "dc_ok s \<Longrightarrow> length ms = 48 \<Longrightarrow> length a = 16 \<Longrightarrow> length b = 16 \<Longrightarrow> length c = 4 \<Longrightarrow> length d = 4 \<Longrightarrow>
     dc_ok (s\<lparr>dc_masterSecret := ms, dc_clientWriteKey := a, dc_serverWriteKey := b, dc_clientWriteIv := c,
              dc_serverWriteIv := d, dc_clientCipher := Some (a, c), dc_serverCipher := Some (b, d)\<rparr>)"
  by (simp add: dc_ok_def keys_ok_def)

text \<open>The secrets a successful derivation installs.\<close>

definition master_of :: "DtlsLib \<Rightarrow> bytes \<Rightarrow> DtlsClient \<Rightarrow> bytes" where
  "master_of lib pms s =
     (if dc_extendedMasterSecret s
      then TlsPrf_Compute lib pms ''extended master secret'' (dtls_sha256 lib (dc_handshakeTranscript s)) 48
      else TlsPrf_Compute lib pms ''master secret'' (dc_clientRandom s @ dc_serverRandom s) 48)"

definition key_block :: "DtlsLib \<Rightarrow> bytes \<Rightarrow> DtlsClient \<Rightarrow> bytes" where
  "key_block lib ms s = TlsPrf_Compute lib ms ''key expansion'' (dc_serverRandom s @ dc_clientRandom s) 40"

definition with_keys :: "bytes \<Rightarrow> bytes \<Rightarrow> DtlsClient \<Rightarrow> DtlsClient" where
  "with_keys ms kb s =
     s\<lparr>dc_masterSecret := ms, dc_clientWriteKey := take 16 kb, dc_serverWriteKey := take 16 (drop 16 kb),
       dc_clientWriteIv := take 4 (drop 32 kb), dc_serverWriteIv := take 4 (drop 36 kb),
       dc_clientCipher := Some (take 16 kb, take 4 (drop 32 kb)),
       dc_serverCipher := Some (take 16 (drop 16 kb), take 4 (drop 36 kb))\<rparr>"

lemma length_secrets [simp]: "length (master_of lib pms s) = 48" "length (key_block lib ms s) = 40"
  by (simp_all add: master_of_def key_block_def)

lemma DeriveKeys_Some:
  assumes "length (dc_serverPublicPoint s) = 65" "length (dc_ourEcdhPrivate s) = 32"
    and "dl_Ecdh lib (dc_ourEcdhPrivate s) (dc_serverPublicPoint s) = Some x"
  shows "DeriveKeysAndCipher lib s =
    with_keys (master_of lib (fill 32 x) s) (key_block lib (master_of lib (fill 32 x) s) s) s"
  using assms by (simp add: DeriveKeysAndCipher_def with_keys_def master_of_def key_block_def Let_def)

lemma DeriveKeys_cases:
  "(\<exists>r. DeriveKeysAndCipher lib s = dtls_Fail r s)
     \<or> (\<exists>ms kb. length ms = 48 \<and> length kb = 40 \<and> DeriveKeysAndCipher lib s = with_keys ms kb s)"
proof (cases "length (dc_serverPublicPoint s) \<noteq> 65 \<or> length (dc_ourEcdhPrivate s) \<noteq> 32
    \<or> dl_Ecdh lib (dc_ourEcdhPrivate s) (dc_serverPublicPoint s) = None")
  case True
  then show ?thesis by (auto simp: DeriveKeysAndCipher_def)
next
  case False
  then obtain x where "dl_Ecdh lib (dc_ourEcdhPrivate s) (dc_serverPublicPoint s) = Some x" by auto
  with False show ?thesis using DeriveKeys_Some [of s lib x] length_secrets by metis
qed

lemma dc_ok_DeriveKeys: "dc_ok s \<Longrightarrow> dc_ok (DeriveKeysAndCipher lib s)"
  using DeriveKeys_cases [of lib s] by (auto simp: with_keys_def intro!: dc_ok_keys)

lemma dc_ok_epoch: "dc_ok s \<Longrightarrow> dc_clientCipher s \<noteq> None \<Longrightarrow> dc_ok (s\<lparr>dc_clientEpoch := e\<rparr>)"
  by (simp add: dc_ok_def keys_ok_def)

lemma dc_ok_FinishedFlight: "BuildClientFinishedFlight lib s = Some (s', out) \<Longrightarrow> dc_ok s \<Longrightarrow> dc_ok s'"
  by (auto simp: BuildClientFinishedFlight_def Let_def AppendToHandshakeHash_def split: option.splits
      intro!: dc_ok_epoch)

lemma HandleServerHelloDone_steps:
  assumes "HandleServerHelloDone lib cc body s = Some (s', out)"
  obtains s0 der s1 d1 s2 d2 cv s3 d3 where
    "s0 = (AppendToHandshakeHash (TlsLikeTranscriptBytes kHsServerHelloDone body) s)\<lparr>dc_state := DtlsState_GotServerHelloDone\<rparr>"
    "ToX509SelfSignedDer cc (dc_ourCert s0) = Some der"
    "SendHandshake kHsCertificate (BuildCertificateBody der) s0 = (s1, d1)"
    "SendHandshake kHsClientKeyExchange (BuildClientKeyExchangeBody s1) s1 = (s2, d2)"
    "BuildCertificateVerifyBody lib cc (s2\<lparr>dc_state := DtlsState_SentClientKeyExchange\<rparr>) (dc_handshakeTranscript s2) = Some cv"
    "SendHandshake kHsCertificateVerify cv (s2\<lparr>dc_state := DtlsState_SentClientKeyExchange\<rparr>) = (s3, d3)"
    "if dc_state (DeriveKeysAndCipher lib s3) = DtlsState_Failed
     then s' = DeriveKeysAndCipher lib s3 \<and> out = [d1, d2, d3]
     else \<exists>flight. BuildClientFinishedFlight lib (DeriveKeysAndCipher lib s3) = Some (s', flight) \<and> out = [d1, d2, d3] @ flight"
proof -
  define s0 where "s0 = (AppendToHandshakeHash (TlsLikeTranscriptBytes kHsServerHelloDone body) s)\<lparr>dc_state := DtlsState_GotServerHelloDone\<rparr>"
  note def = HandleServerHelloDone_def Let_def s0_def [symmetric]
  obtain der where der: "ToX509SelfSignedDer cc (dc_ourCert s0) = Some der"
    using assms unfolding def by (cases "ToX509SelfSignedDer cc (dc_ourCert s0)") simp_all
  obtain s1 d1 where 1: "SendHandshake kHsCertificate (BuildCertificateBody der) s0 = (s1, d1)" by fastforce
  obtain s2 d2 where 2: "SendHandshake kHsClientKeyExchange (BuildClientKeyExchangeBody s1) s1 = (s2, d2)" by fastforce
  let ?s2 = "s2\<lparr>dc_state := DtlsState_SentClientKeyExchange\<rparr>"
  obtain cv where cv: "BuildCertificateVerifyBody lib cc ?s2 (dc_handshakeTranscript s2) = Some cv"
    using assms der 1 2 unfolding def
    by (cases "BuildCertificateVerifyBody lib cc ?s2 (dc_handshakeTranscript s2)") simp_all
  obtain s3 d3 where 3: "SendHandshake kHsCertificateVerify cv ?s2 = (s3, d3)" by fastforce
  have "if dc_state (DeriveKeysAndCipher lib s3) = DtlsState_Failed
     then s' = DeriveKeysAndCipher lib s3 \<and> out = [d1, d2, d3]
     else \<exists>flight. BuildClientFinishedFlight lib (DeriveKeysAndCipher lib s3) = Some (s', flight) \<and> out = [d1, d2, d3] @ flight"
    using assms der 1 2 cv 3 unfolding def
    by (cases "BuildClientFinishedFlight lib (DeriveKeysAndCipher lib s3)") (auto split: if_splits)
  with s0_def der 1 2 cv 3 show thesis by (rule that)
qed

lemma dc_ok_ServerHelloDone:
  assumes "HandleServerHelloDone lib cc body s = Some (s', out)" and "dc_ok s"
  shows "dc_ok s'"
proof -
  obtain s0 der s1 d1 s2 d2 cv s3 d3 where
    h: "s0 = (AppendToHandshakeHash (TlsLikeTranscriptBytes kHsServerHelloDone body) s)\<lparr>dc_state := DtlsState_GotServerHelloDone\<rparr>"
    "SendHandshake kHsCertificate (BuildCertificateBody der) s0 = (s1, d1)"
    "SendHandshake kHsClientKeyExchange (BuildClientKeyExchangeBody s1) s1 = (s2, d2)"
    "SendHandshake kHsCertificateVerify cv (s2\<lparr>dc_state := DtlsState_SentClientKeyExchange\<rparr>) = (s3, d3)"
    "if dc_state (DeriveKeysAndCipher lib s3) = DtlsState_Failed
     then s' = DeriveKeysAndCipher lib s3 \<and> out = [d1, d2, d3]
     else \<exists>flight. BuildClientFinishedFlight lib (DeriveKeysAndCipher lib s3) = Some (s', flight) \<and> out = [d1, d2, d3] @ flight"
    by (rule HandleServerHelloDone_steps [OF assms(1)])
  have "dc_ok s3"
    using assms(2) h(1) dc_ok_SendHandshake [OF h(2)] dc_ok_SendHandshake [OF h(3)] dc_ok_SendHandshake [OF h(4)]
    by simp
  then have "dc_ok (DeriveKeysAndCipher lib s3)" by (rule dc_ok_DeriveKeys)
  with h(5) show ?thesis by (auto split: if_splits dest: dc_ok_FinishedFlight)
qed

lemma dc_ok_message: "HandleHandshakeMessage lib cc t b s = Some (s', out) \<Longrightarrow> dc_ok s \<Longrightarrow> dc_ok s'"
  by (auto simp: HandleHandshakeMessage_def HandleFinished_def Let_def split: if_splits
      intro: dc_ok_HelloVerifyRequest dc_ok_ServerHello dc_ok_Certificate dc_ok_ServerKeyExchange
        dc_ok_ServerHelloDone)

lemma dc_ok_messages: "ProcessMessages lib env ms s = Some (ok, s', out) \<Longrightarrow> dc_ok s \<Longrightarrow> dc_ok s'"
proof (induction lib env ms s arbitrary: ok s' out rule: ProcessMessages.induct)
  case (1 lib env ms s)
  note step = "1.prems"(1) [unfolded ProcessMessages.simps [of lib env ms s]]
  show ?case
  proof (cases "\<exists>hh s1 out1. \<not> length ms < kHandshakeHeaderSize \<and> HandshakeHeader_Decode ms = Some (Some hh)
      \<and> \<not> (hh_fragmentOffset hh \<noteq> 0 \<or> hh_fragmentLength hh \<noteq> hh_length hh)
      \<and> \<not> length ms < kHandshakeHeaderSize + unat (hh_length hh)
      \<and> HandleHandshakeMessage lib (env (unat (dc_clientMessageSeq s))) (hh_msgType hh)
          (take (unat (hh_length hh)) (drop kHandshakeHeaderSize ms)) s = Some (s1, out1)")
    case True
    then obtain hh s1 out1 where h: "\<not> length ms < kHandshakeHeaderSize" "HandshakeHeader_Decode ms = Some (Some hh)"
        "\<not> (hh_fragmentOffset hh \<noteq> 0 \<or> hh_fragmentLength hh \<noteq> hh_length hh)"
        "\<not> length ms < kHandshakeHeaderSize + unat (hh_length hh)"
        "HandleHandshakeMessage lib (env (unat (dc_clientMessageSeq s))) (hh_msgType hh)
          (take (unat (hh_length hh)) (drop kHandshakeHeaderSize ms)) s = Some (s1, out1)"
      by blast
    have s1: "dc_ok s1" by (rule dc_ok_message [OF h(5) "1.prems"(2)])
    from step h s1 "1.IH" [OF h(1) h(2) refl h(3,4,5) refl] show ?thesis
      by (auto split: if_splits option.splits)
  next
    case False
    with step "1.prems"(2) show ?thesis by (auto split: if_splits option.splits)
  qed
qed

lemma dc_ok_record: "ProcessRecord lib env rec s = Some (ok, s', out) \<Longrightarrow> dc_ok s \<Longrightarrow> dc_ok s'"
  by (auto simp: ProcessRecord_def HandleChangeCipherSpec_def split: option.splits if_splits
      intro: dc_ok_messages)

lemma dc_ok_records: "ProcessRecords lib env bs s = Some (ok, s', out) \<Longrightarrow> dc_ok s \<Longrightarrow> dc_ok s'"
proof (induction lib env bs s arbitrary: ok s' out rule: ProcessRecords.induct)
  case (1 lib env bs s)
  note step = "1.prems"(1) [unfolded ProcessRecords.simps [of lib env bs s]]
  show ?case
  proof (cases "\<exists>rec n s1 out1. bs \<noteq> [] \<and> dtls_Decode bs = Some (Some (rec, n))
      \<and> ProcessRecord lib env rec s = Some (True, s1, out1)")
    case True
    then obtain rec n s1 out1 where h: "bs \<noteq> []" "dtls_Decode bs = Some (Some (rec, n))"
        "ProcessRecord lib env rec s = Some (True, s1, out1)" by blast
    have s1: "dc_ok s1" by (rule dc_ok_record [OF h(3) "1.prems"(2)])
    from step h s1 "1.IH" [OF h(1,2) refl refl h(3)] show ?thesis
      by (auto split: if_splits option.splits)
  next
    case False
    with step "1.prems"(2) show ?thesis
      by (auto split: if_splits option.splits bool.splits) (metis dc_ok_record)+
  qed
qed


section \<open>When a message is undefined\<close>

lemma finished_flight_defined: "dc_clientCipher s \<noteq> None \<Longrightarrow> BuildClientFinishedFlight lib s \<noteq> None"
  by (auto simp: BuildClientFinishedFlight_def Let_def AppendToHandshakeHash_def split: option.splits)

lemma verify_body_defined: "BuildCertificateVerifyBody lib cc s tr \<noteq> None"
  using SignSha256_defined [of cc "dc_ourCert s" "dtls_sha256 lib tr"]
  by (auto simp: BuildCertificateVerifyBody_def)

lemma DeriveKeys_cipher:
  "dc_state (DeriveKeysAndCipher lib s) \<noteq> DtlsState_Failed \<Longrightarrow> dc_clientCipher (DeriveKeysAndCipher lib s) \<noteq> None"
  using DeriveKeys_cases [of lib s] by (auto simp: with_keys_def dtls_Fail_def)

lemma server_hello_done_defined: "HandleServerHelloDone lib cc body s \<noteq> None"
proof -
  define s0 where "s0 = (AppendToHandshakeHash (TlsLikeTranscriptBytes kHsServerHelloDone body) s)\<lparr>dc_state := DtlsState_GotServerHelloDone\<rparr>"
  obtain der where der: "ToX509SelfSignedDer cc (dc_ourCert s0) = Some der" using ToX509_defined by blast
  obtain s1 d1 where 1: "SendHandshake kHsCertificate (BuildCertificateBody der) s0 = (s1, d1)" by fastforce
  obtain s2 d2 where 2: "SendHandshake kHsClientKeyExchange (BuildClientKeyExchangeBody s1) s1 = (s2, d2)" by fastforce
  let ?s2 = "s2\<lparr>dc_state := DtlsState_SentClientKeyExchange\<rparr>"
  obtain cv where cv: "BuildCertificateVerifyBody lib cc ?s2 (dc_handshakeTranscript s2) = Some cv"
    using verify_body_defined by blast
  obtain s3 d3 where 3: "SendHandshake kHsCertificateVerify cv ?s2 = (s3, d3)" by fastforce
  show ?thesis
    using der 1 2 cv 3 finished_flight_defined [OF DeriveKeys_cipher [of lib s3], of lib]
    by (auto simp: HandleServerHelloDone_def Let_def s0_def [symmetric])
qed

lemma message_defined:
  "HandleHandshakeMessage lib cc t body s = None \<longleftrightarrow>
     t = kHsCertificate \<and> (\<exists>rest. Certificate_Decode body = Some (Some ([] # rest)))"
proof -
  have "HandleHelloVerifyRequest body s \<noteq> None"
    using hello_verify_defined [of body]
    by (auto simp: HandleHelloVerifyRequest_def Let_def split: option.splits prod.splits)
  moreover have "HandleServerHello body s \<noteq> None"
    using server_hello_defined [of body] by (auto simp: HandleServerHello_def Let_def split: option.splits)
  moreover have "HandleServerKeyExchange body s \<noteq> None"
    using key_exchange_defined [of body] by (auto simp: HandleServerKeyExchange_def Let_def split: option.splits)
  moreover have "HandleFinished lib body s \<noteq> None" by (simp add: HandleFinished_def Let_def)
  moreover have "HandleCertificate lib body s = None \<longleftrightarrow> (\<exists>rest. Certificate_Decode body = Some (Some ([] # rest)))"
    using certificate_defined [of body]
    by (auto simp: HandleCertificate_def Let_def split: option.splits list.splits)
  ultimately show ?thesis
    using server_hello_done_defined by (auto simp: HandleHandshakeMessage_def kHs_defs)
qed


section \<open>Running a flight\<close>

text \<open>One well-formed message at the front of a record.\<close>

lemma ProcessMessages_message:
  assumes "length body < 2 ^ 24"
    and "HandleHandshakeMessage lib (env (unat (dc_clientMessageSeq s))) t body s = Some (s', out)"
    and "dc_state s' \<noteq> DtlsState_Failed"
    and "ProcessMessages lib env rest s' = Some (ok, s'', out')"
  shows "ProcessMessages lib env (WrapHandshakeUnfragmented t n body @ rest) s = Some (ok, s'', out @ out')"
proof -
  define ms where "ms = WrapHandshakeUnfragmented t n body @ rest"
  obtain h where h: "HandshakeHeader_Decode ms = Some (Some h)" "hh_msgType h = t" "hh_fragmentOffset h = 0"
      "hh_fragmentLength h = hh_length h" "unat (hh_length h) = length body"
    using u24_length [OF assms(1)] HandshakeHeader_roundtrip
    by (simp add: ms_def WrapHandshakeUnfragmented_def)
  have b: "take (length body) (drop 12 ms) = body" "drop (12 + length body) ms = rest"
      "length ms = 12 + length body + length rest"
    by (simp_all add: ms_def WrapHandshakeUnfragmented_def)
  show ?thesis
    unfolding ms_def [symmetric]
    by (subst ProcessMessages.simps) (simp add: kHandshakeHeaderSize_def b h assms(2-4))
qed

lemma ProcessMessages_end: "ProcessMessages lib env [] s = Some (True, s, [])"
  by (simp add: ProcessMessages.simps kHandshakeHeaderSize_def)

lemma ProcessMessages_last:
  assumes "length body < 2 ^ 24"
    and "HandleHandshakeMessage lib (env (unat (dc_clientMessageSeq s))) t body s = Some (s', out)"
    and "dc_state s' \<noteq> DtlsState_Failed"
  shows "ProcessMessages lib env (WrapHandshakeUnfragmented t n body) s = Some (True, s', out)"
  using ProcessMessages_message [OF assms(1), of lib env s t s' out "[]" True s' "[]" n] assms(2,3)
    ProcessMessages_end by simp

text \<open>One record at the front of a datagram.\<close>

lemma ProcessRecords_record:
  assumes "dtls_encodable r" and "ProcessRecord lib env r s = Some (True, s', out)"
    and "ProcessRecords lib env rest s' = Some (ok, s'', out')"
  shows "ProcessRecords lib env (dtls_Encode r @ rest) s = Some (ok, s'', out @ out')"
proof -
  have d: "dtls_Decode (dtls_Encode r @ rest) = Some (Some (r, length (dtls_Encode r)))"
    by (rule dtls_Decode_Encode [OF assms(1)])
  define bs where "bs = dtls_Encode r @ rest"
  have "bs \<noteq> []" by (simp add: bs_def dtls_Encode_def)
  moreover have "drop (length (dtls_Encode r)) bs = rest" by (simp add: bs_def)
  ultimately show ?thesis
    unfolding bs_def [symmetric]
    by (subst ProcessRecords.simps) (simp add: d [folded bs_def] assms(2,3))
qed

lemma ProcessRecords_end: "ProcessRecords lib env [] s = Some (True, s, [])"
  by (simp add: ProcessRecords.simps)

lemma encodable_first [simp]:
  "length p < 65536 \<Longrightarrow> dtls_encodable \<lparr>dtls_type = t, dtls_version = v, dtls_epoch = e, dtls_sequenceNumber = 0, dtls_payload = p\<rparr>"
  "length p < 65536 \<Longrightarrow> dtls_encodable \<lparr>dtls_type = t, dtls_version = v, dtls_epoch = e, dtls_sequenceNumber = 1, dtls_payload = p\<rparr>"
  by (simp_all add: dtls_encodable_def)


section \<open>A complete handshake\<close>

text \<open>What AES-GCM promises: eight bytes of nonce and sixteen of tag around the text, and the inverse.\<close>

definition gcm_ok :: "DtlsLib \<Rightarrow> bool" where
  "gcm_ok lib \<longleftrightarrow> (\<forall>key iv m n t v. \<exists>c. dl_Encrypt lib key iv m n t v = Some c \<and> length c = length m + 24
     \<and> dl_Decrypt lib key iv c n t v = Some m)"

text \<open>What a session keeps of its peer and of its own choices while keys are derived.\<close>

definition same_peer :: "DtlsClient \<Rightarrow> DtlsClient \<Rightarrow> bool" where
  "same_peer s s' \<longleftrightarrow> dc_clientRandom s' = dc_clientRandom s \<and> dc_serverRandom s' = dc_serverRandom s
     \<and> dc_serverCertDer s' = dc_serverCertDer s \<and> dc_expectedPeerFingerprint s' = dc_expectedPeerFingerprint s
     \<and> dc_serverPublicPoint s' = dc_serverPublicPoint s \<and> dc_ourEcdhPrivate s' = dc_ourEcdhPrivate s
     \<and> dc_extendedMasterSecret s' = dc_extendedMasterSecret s \<and> dc_clientEpoch s' = dc_clientEpoch s"

lemma same_peer_SendHandshake: "SendHandshake t body s = (s', d) \<Longrightarrow> same_peer s s'"
  by (auto simp: SendHandshake_def same_peer_def AppendToHandshakeHash_def Let_def)

lemma same_peer_trans: "same_peer a b \<Longrightarrow> same_peer b c \<Longrightarrow> same_peer a c"
  by (simp add: same_peer_def)

lemma same_peer_simps [simp]:
  "same_peer s (s\<lparr>dc_state := x\<rparr>)" "same_peer (s\<lparr>dc_state := x\<rparr>) t = same_peer s t"
  "same_peer s (AppendToHandshakeHash d s)"
  by (simp_all add: same_peer_def AppendToHandshakeHash_def)

text \<open>The keys of a session made from a shared point and a transcript.\<close>

definition keyed :: "DtlsLib \<Rightarrow> bytes \<Rightarrow> bytes \<Rightarrow> DtlsClient \<Rightarrow> bool" where
  "keyed lib pms tr s \<longleftrightarrow>
     dc_masterSecret s =
       (if dc_extendedMasterSecret s then TlsPrf_Compute lib pms ''extended master secret'' (dtls_sha256 lib tr) 48
        else TlsPrf_Compute lib pms ''master secret'' (dc_clientRandom s @ dc_serverRandom s) 48) \<and>
     (let kb = TlsPrf_Compute lib (dc_masterSecret s) ''key expansion'' (dc_serverRandom s @ dc_clientRandom s) 40
      in dc_clientCipher s = Some (take 16 kb, take 4 (drop 32 kb)) \<and>
         dc_serverCipher s = Some (take 16 (drop 16 kb), take 4 (drop 36 kb)))"

lemma finished_flight_ok:
  assumes "gcm_ok lib" and "dc_clientCipher s = Some c"
  shows "\<exists>s' d1 d2. BuildClientFinishedFlight lib s = Some (s', [d1, d2]) \<and> dc_state s' = DtlsState_SentFinished
     \<and> same_peer s (s'\<lparr>dc_clientEpoch := dc_clientEpoch s\<rparr>) \<and> dc_clientEpoch s' = dc_clientEpoch s + 1
     \<and> (\<forall>pms tr. keyed lib pms tr s' = keyed lib pms tr s)"
proof -
  obtain key iv where c: "c = (key, iv)" by (cases c)
  define fin where "fin = BuildFinishedBody lib (s\<lparr>dc_state := DtlsState_SentChangeCipherSpec,
      dc_clientEpoch := dc_clientEpoch s + 1, dc_clientRecordSeq := 0\<rparr>) (dc_handshakeTranscript s) True"
  obtain ct where "dl_Encrypt lib key iv (WrapHandshakeUnfragmented kHsFinished (dc_clientMessageSeq s) fin)
      (aad_seq (dc_clientEpoch s + 1) 0) kDtlsContentHandshake kDtlsVersion12 = Some ct"
    using assms(1) unfolding gcm_ok_def by blast
  then show ?thesis
    using assms(2) c
    by (simp add: BuildClientFinishedFlight_def Let_def AppendToHandshakeHash_def fin_def [symmetric]
        same_peer_def keyed_def)
qed

lemma server_hello_done_ok:
  assumes g: "gcm_ok lib" and p: "length (dc_serverPublicPoint s) = 65" "length (dc_ourEcdhPrivate s) = 32"
    and x: "dl_Ecdh lib (dc_ourEcdhPrivate s) (dc_serverPublicPoint s) = Some x"
  shows "\<exists>s' out tr. HandleServerHelloDone lib cc body s = Some (s', out) \<and> length out = 5
     \<and> dc_state s' = DtlsState_SentFinished \<and> dc_clientEpoch s' = dc_clientEpoch s + 1
     \<and> same_peer s (s'\<lparr>dc_clientEpoch := dc_clientEpoch s\<rparr>) \<and> keyed lib (fill 32 x) tr s'"
proof -
  obtain s' out where r: "HandleServerHelloDone lib cc body s = Some (s', out)"
    using server_hello_done_defined [of lib cc body s] by auto
  then obtain s0 der s1 d1 s2 d2 cv s3 d3 where
    h: "s0 = (AppendToHandshakeHash (TlsLikeTranscriptBytes kHsServerHelloDone body) s)\<lparr>dc_state := DtlsState_GotServerHelloDone\<rparr>"
    "SendHandshake kHsCertificate (BuildCertificateBody der) s0 = (s1, d1)"
    "SendHandshake kHsClientKeyExchange (BuildClientKeyExchangeBody s1) s1 = (s2, d2)"
    "SendHandshake kHsCertificateVerify cv (s2\<lparr>dc_state := DtlsState_SentClientKeyExchange\<rparr>) = (s3, d3)"
    "if dc_state (DeriveKeysAndCipher lib s3) = DtlsState_Failed
     then s' = DeriveKeysAndCipher lib s3 \<and> out = [d1, d2, d3]
     else \<exists>flight. BuildClientFinishedFlight lib (DeriveKeysAndCipher lib s3) = Some (s', flight) \<and> out = [d1, d2, d3] @ flight"
    by (rule HandleServerHelloDone_steps) blast
  have s3: "same_peer s s3"
    using same_peer_SendHandshake [OF h(2)] same_peer_SendHandshake [OF h(3)] same_peer_SendHandshake [OF h(4)]
    by (simp add: h(1)) (auto simp: same_peer_def AppendToHandshakeHash_def)
  let ?ms = "master_of lib (fill 32 x) s3"
  define sk where "sk = DeriveKeysAndCipher lib s3"
  have sk: "sk = with_keys ?ms (key_block lib ?ms s3) s3"
    unfolding sk_def using s3 p x by (intro DeriveKeys_Some) (simp_all add: same_peer_def)
  have k: "keyed lib (fill 32 x) (dc_handshakeTranscript s3) sk" "same_peer s sk" "dc_clientCipher sk \<noteq> None"
    using s3 by (simp_all add: sk with_keys_def keyed_def master_of_def key_block_def same_peer_def)
  have nf: "dc_state sk \<noteq> DtlsState_Failed"
    using SendHandshake_state [OF h(4)] by (simp add: sk with_keys_def)
  obtain c where "dc_clientCipher sk = Some c" using k(3) by blast
  then obtain s'' e1 e2 where f: "BuildClientFinishedFlight lib sk = Some (s'', [e1, e2])"
      "dc_state s'' = DtlsState_SentFinished" "same_peer sk (s''\<lparr>dc_clientEpoch := dc_clientEpoch sk\<rparr>)"
      "dc_clientEpoch s'' = dc_clientEpoch sk + 1" "keyed lib (fill 32 x) (dc_handshakeTranscript s3) s''"
    using finished_flight_ok [OF g] k(1) by blast
  with h(5) nf have o: "s' = s''" "out = [d1, d2, d3, e1, e2]" by (simp_all add: sk_def [symmetric])
  have "dc_clientEpoch sk = dc_clientEpoch s" using k(2) by (simp add: same_peer_def)
  moreover have "same_peer s (s'\<lparr>dc_clientEpoch := dc_clientEpoch s\<rparr>)"
    using f(3) k(2) by (simp add: o same_peer_def)
  ultimately show ?thesis using r f o by auto
qed


text \<open>A server flight in one plaintext record, and the answer that ends the handshake.\<close>

lemma ProcessDatagram_plain:
  assumes "ProcessMessages lib env ms s = Some (True, s', out)" "length ms < 65536" "dc_state s \<noteq> DtlsState_Failed"
  shows "ProcessDatagram lib env (WrapRecord kDtlsContentHandshake kDtlsVersion12 0 0 ms) s = Some (True, s', out)"
proof -
  let ?r = "\<lparr>dtls_type = kDtlsContentHandshake, dtls_version = kDtlsVersion12, dtls_epoch = 0,
      dtls_sequenceNumber = 0, dtls_payload = ms\<rparr>"
  have "ProcessRecord lib env ?r s = Some (True, s', out)"
    using assms(1) by (simp add: ProcessRecord_def kDtlsContentHandshake_def kDtlsContentChangeCipherSpec_def kDtlsContentAlert_def)
  from ProcessRecords_record [OF _ this ProcessRecords_end] assms(2,3) show ?thesis
    by (simp add: ProcessDatagram_def WrapRecord_def)
qed

definition server_finished :: "DtlsLib \<Rightarrow> u16 \<Rightarrow> DtlsClient \<Rightarrow> bytes" where
  "server_finished lib n s =
     (case dc_serverCipher s of
        None \<Rightarrow> []
      | Some (key, iv) \<Rightarrow>
          (case dl_Encrypt lib key iv
                  (WrapHandshakeUnfragmented kHsFinished n (BuildFinishedBody lib s (dc_handshakeTranscript s) False))
                  (aad_seq 1 0) kDtlsContentHandshake kDtlsVersion12 of
             None \<Rightarrow> []
           | Some ct \<Rightarrow> WrapRecord kDtlsContentChangeCipherSpec kDtlsVersion12 0 1 [1] @
                        WrapRecord kDtlsContentHandshake kDtlsVersion12 1 0 ct))"

lemma server_finished_ok:
  assumes g: "gcm_ok lib" and c: "dc_serverCipher s \<noteq> None" and f: "dc_state s \<noteq> DtlsState_Failed"
  shows "\<exists>s'. ProcessDatagram lib env (server_finished lib n s) s = Some (True, s', [])
     \<and> dc_state s' = DtlsState_Established \<and> same_peer s s' \<and> (\<forall>pms tr. keyed lib pms tr s' = keyed lib pms tr s)"
proof -
  obtain key iv where k: "dc_serverCipher s = Some (key, iv)" using c by auto
  define fin where "fin = BuildFinishedBody lib s (dc_handshakeTranscript s) False"
  define m where "m = WrapHandshakeUnfragmented kHsFinished n fin"
  have fin: "length fin = 12" by (simp add: fin_def BuildFinishedBody_def kVerifyDataLength_def)
  obtain ct where ct: "dl_Encrypt lib key iv m (aad_seq 1 0) kDtlsContentHandshake kDtlsVersion12 = Some ct"
      "length ct = length m + 24" "dl_Decrypt lib key iv ct (aad_seq 1 0) kDtlsContentHandshake kDtlsVersion12 = Some m"
    using g unfolding gcm_ok_def by blast
  have m: "length m = 24" by (simp add: m_def WrapHandshakeUnfragmented_def fin)
  let ?r1 = "\<lparr>dtls_type = kDtlsContentChangeCipherSpec, dtls_version = kDtlsVersion12, dtls_epoch = 0,
      dtls_sequenceNumber = 1, dtls_payload = [1]\<rparr>"
  let ?r2 = "\<lparr>dtls_type = kDtlsContentHandshake, dtls_version = kDtlsVersion12, dtls_epoch = 1,
      dtls_sequenceNumber = 0, dtls_payload = ct\<rparr>"
  define s1 where "s1 = HandleChangeCipherSpec s"
  define s2 where "s2 = (AppendToHandshakeHash (TlsLikeTranscriptBytes kHsFinished fin) s1)\<lparr>dc_state := DtlsState_Established\<rparr>"
  have h: "HandleHandshakeMessage lib cc kHsFinished fin s1 = Some (s2, [])" for cc
    by (simp add: HandleHandshakeMessage_def kHs_defs HandleFinished_def fin kVerifyDataLength_def s2_def Let_def)
      (simp add: fin_def s1_def HandleChangeCipherSpec_def BuildFinishedBody_def kHs_defs)
  have p: "ProcessMessages lib env m s1 = Some (True, s2, [])"
    unfolding m_def by (rule ProcessMessages_last) (simp_all add: fin h s2_def)
  have r2: "ProcessRecord lib env ?r2 s1 = Some (True, s2, [])"
    using ct(2,3) p m k
    by (auto simp: ProcessRecord_def kDtlsContentHandshake_def kDtlsContentChangeCipherSpec_def
        kDtlsContentAlert_def s1_def HandleChangeCipherSpec_def)
  have r1: "ProcessRecord lib env ?r1 s = Some (True, s1, [])"
    by (simp add: ProcessRecord_def s1_def)
  have e: "dtls_encodable ?r1" "dtls_encodable ?r2" using ct(2) m by simp_all
  have "ProcessRecords lib env (dtls_Encode ?r2) s1 = Some (True, s2, [])"
    using ProcessRecords_record [OF e(2) r2 ProcessRecords_end] by simp
  from ProcessRecords_record [OF e(1) r1 this]
  have "ProcessDatagram lib env (server_finished lib n s) s = Some (True, s2, [])"
    using f ct(1) k by (simp add: ProcessDatagram_def server_finished_def WrapRecord_def m_def fin_def)
  moreover have "same_peer s s2" "\<forall>pms tr. keyed lib pms tr s2 = keyed lib pms tr s" "dc_state s2 = DtlsState_Established"
    by (simp_all add: s2_def s1_def HandleChangeCipherSpec_def AppendToHandshakeHash_def same_peer_def keyed_def)
  ultimately show ?thesis by blast
qed

text \<open>What a hello and a key exchange must be for the client to go on.\<close>

definition hello_acceptable :: "bytes \<Rightarrow> ServerHello \<Rightarrow> bool" where
  "hello_acceptable body sh \<longleftrightarrow> length body < 20000 \<and> ServerHello_Decode body = Some (Some sh)
     \<and> sh_cipherSuite sh = kCsEcdheEcdsaAes128GcmSha256"

definition point_acceptable :: "bytes \<Rightarrow> bytes \<Rightarrow> bool" where
  "point_acceptable body point \<longleftrightarrow> length body < 20000 \<and> length point = 65 \<and> hd point = 0x04
     \<and> (\<exists>ske. ServerKeyExchange_Decode body = Some (Some ske) \<and> ske_namedCurve ske = kNgSecp256r1
            \<and> ske_publicPoint ske = point)"

lemma HandleServerHello_ok:
  assumes "hello_acceptable body sh"
  shows "HandleHandshakeMessage lib cc kHsServerHello body s =
    Some ((AppendToHandshakeHash (TlsLikeTranscriptBytes kHsServerHello body)
       (s\<lparr>dc_serverRandom := sh_random sh, dc_extendedMasterSecret := sh_extendedMasterSecret sh\<rparr>))
       \<lparr>dc_state := DtlsState_GotServerHello\<rparr>, [])"
  using assms by (simp add: hello_acceptable_def HandleHandshakeMessage_def kHs_defs HandleServerHello_def Let_def)

lemma HandleServerKeyExchange_ok:
  assumes "point_acceptable body point"
  shows "HandleHandshakeMessage lib cc kHsServerKeyExchange body s =
    Some ((AppendToHandshakeHash (TlsLikeTranscriptBytes kHsServerKeyExchange body) (s\<lparr>dc_serverPublicPoint := point\<rparr>))
       \<lparr>dc_state := DtlsState_GotServerKeyExchange\<rparr>, [])"
  using assms
  by (auto simp: point_acceptable_def HandleHandshakeMessage_def kHs_defs HandleServerKeyExchange_def Let_def)

lemma HandleCertificate_ok:
  assumes "Certificate_Decode body = Some (Some (leaf # rest))" "leaf \<noteq> []"
    and "dtls_sha256 lib leaf = dc_expectedPeerFingerprint s"
  shows "HandleHandshakeMessage lib cc kHsCertificate body s =
    Some ((AppendToHandshakeHash (TlsLikeTranscriptBytes kHsCertificate body) (s\<lparr>dc_serverCertDer := leaf\<rparr>))
       \<lparr>dc_state := DtlsState_GotServerCertificate\<rparr>, [])"
  using assms by (simp add: HandleHandshakeMessage_def kHs_defs HandleCertificate_def Let_def)


definition server_flight :: "bytes \<Rightarrow> bytes option \<Rightarrow> bytes \<Rightarrow> bytes" where
  "server_flight hello cert kex =
     WrapRecord kDtlsContentHandshake kDtlsVersion12 0 0
       (WrapHandshakeUnfragmented kHsServerHello 0 hello @
        (case cert of None \<Rightarrow> [] | Some c \<Rightarrow> WrapHandshakeUnfragmented kHsCertificate 1 c) @
        WrapHandshakeUnfragmented kHsServerKeyExchange 2 kex @
        WrapHandshakeUnfragmented kHsServerHelloDone 3 [])"

text \<open>\<open>cert\<close> is acceptable, with that leaf, or there is none and the leaf stays what it was.\<close>

definition cert_acceptable :: "DtlsLib \<Rightarrow> DtlsClient \<Rightarrow> bytes option \<Rightarrow> bytes \<Rightarrow> bool" where
  "cert_acceptable lib s cert leaf \<longleftrightarrow>
     (case cert of
        None \<Rightarrow> leaf = dc_serverCertDer s
      | Some c \<Rightarrow> length c < 20000 \<and> (\<exists>rest. Certificate_Decode c = Some (Some (leaf # rest))) \<and> leaf \<noteq> []
          \<and> dtls_sha256 lib leaf = dc_expectedPeerFingerprint s)"

definition exporter :: "DtlsLib \<Rightarrow> bytes \<Rightarrow> bool \<Rightarrow> bytes \<Rightarrow> bytes \<Rightarrow> bytes \<Rightarrow> string \<Rightarrow> nat \<Rightarrow> bytes" where
  "exporter lib pms ems tr cr sr label len =
     TlsPrf_Compute lib
       (if ems then TlsPrf_Compute lib pms ''extended master secret'' (dtls_sha256 lib tr) 48
        else TlsPrf_Compute lib pms ''master secret'' (cr @ sr) 48)
       label (cr @ sr) len"

lemma keyed_export:
  "keyed lib pms tr s \<Longrightarrow> ExportKeyingMaterial lib label len s =
     exporter lib pms (dc_extendedMasterSecret s) tr (dc_clientRandom s) (dc_serverRandom s) label len"
  by (simp add: keyed_def ExportKeyingMaterial_def exporter_def)

lemma with_hello_cert_key:
  assumes g: "gcm_ok lib" and st: "dc_state s \<noteq> DtlsState_Failed" "length (dc_ourEcdhPrivate s) = 32"
    and h: "hello_acceptable hello sh" and p: "point_acceptable kex point"
    and x: "dl_Ecdh lib (dc_ourEcdhPrivate s) point = Some x"
    and c: "cert_acceptable lib s cert leaf"
  shows "\<exists>s1 out1 tr. ProcessDatagram lib env (server_flight hello cert kex) s = Some (True, s1, out1) \<and> length out1 = 5
     \<and> dc_state s1 = DtlsState_SentFinished \<and> keyed lib (fill 32 x) tr s1 \<and> dc_serverCipher s1 \<noteq> None
     \<and> dc_clientRandom s1 = dc_clientRandom s \<and> dc_serverRandom s1 = sh_random sh
     \<and> dc_extendedMasterSecret s1 = sh_extendedMasterSecret sh \<and> dc_serverCertDer s1 = leaf"
proof -
  define a where "a = (AppendToHandshakeHash (TlsLikeTranscriptBytes kHsServerHello hello)
       (s\<lparr>dc_serverRandom := sh_random sh, dc_extendedMasterSecret := sh_extendedMasterSecret sh\<rparr>))
       \<lparr>dc_state := DtlsState_GotServerHello\<rparr>"
  have ha: "HandleHandshakeMessage lib cc kHsServerHello hello s = Some (a, [])" for cc
    unfolding a_def by (rule HandleServerHello_ok [OF h])
  have a: "dc_state a = DtlsState_GotServerHello" "dc_ourEcdhPrivate a = dc_ourEcdhPrivate s" "dc_clientRandom a = dc_clientRandom s"
    "dc_serverRandom a = sh_random sh" "dc_extendedMasterSecret a = sh_extendedMasterSecret sh"
    "dc_serverCertDer a = dc_serverCertDer s" "dc_expectedPeerFingerprint a = dc_expectedPeerFingerprint s"
    by (simp_all add: a_def AppendToHandshakeHash_def)
  define b where "b = (case cert of None \<Rightarrow> a
     | Some c \<Rightarrow> (AppendToHandshakeHash (TlsLikeTranscriptBytes kHsCertificate c) (a\<lparr>dc_serverCertDer := leaf\<rparr>))
         \<lparr>dc_state := DtlsState_GotServerCertificate\<rparr>)"
  have b: "dc_state b \<noteq> DtlsState_Failed" "dc_ourEcdhPrivate b = dc_ourEcdhPrivate s" "dc_clientRandom b = dc_clientRandom s"
    "dc_serverRandom b = sh_random sh" "dc_extendedMasterSecret b = sh_extendedMasterSecret sh" "dc_serverCertDer b = leaf"
    using a c by (auto simp: b_def AppendToHandshakeHash_def cert_acceptable_def split: option.splits)
  define d where "d = (AppendToHandshakeHash (TlsLikeTranscriptBytes kHsServerKeyExchange kex) (b\<lparr>dc_serverPublicPoint := point\<rparr>))
       \<lparr>dc_state := DtlsState_GotServerKeyExchange\<rparr>"
  have hd: "HandleHandshakeMessage lib cc kHsServerKeyExchange kex b = Some (d, [])" for cc
    unfolding d_def by (rule HandleServerKeyExchange_ok [OF p])
  have d: "length (dc_serverPublicPoint d) = 65" "length (dc_ourEcdhPrivate d) = 32"
      "dl_Ecdh lib (dc_ourEcdhPrivate d) (dc_serverPublicPoint d) = Some x"
    using b(2) st(2) x p by (simp_all add: d_def AppendToHandshakeHash_def point_acceptable_def)
  obtain s1 out tr where r: "HandleServerHelloDone lib (env (unat (dc_clientMessageSeq d))) [] d = Some (s1, out)"
      "length out = 5" "dc_state s1 = DtlsState_SentFinished"
      "same_peer d (s1\<lparr>dc_clientEpoch := dc_clientEpoch d\<rparr>)" "keyed lib (fill 32 x) tr s1"
    using server_hello_done_ok [OF g d] by blast
  have "ProcessMessages lib env (WrapHandshakeUnfragmented kHsServerHelloDone 3 []) d = Some (True, s1, out)"
    using r by (intro ProcessMessages_last) (simp_all add: HandleHandshakeMessage_def kHs_defs)
  then have m1: "ProcessMessages lib env (WrapHandshakeUnfragmented kHsServerKeyExchange 2 kex @
      WrapHandshakeUnfragmented kHsServerHelloDone 3 []) b = Some (True, s1, [] @ out)"
    using p hd by - (rule ProcessMessages_message, auto simp: point_acceptable_def d_def)
  have m2: "ProcessMessages lib env ((case cert of None \<Rightarrow> [] | Some c \<Rightarrow> WrapHandshakeUnfragmented kHsCertificate 1 c) @
      WrapHandshakeUnfragmented kHsServerKeyExchange 2 kex @ WrapHandshakeUnfragmented kHsServerHelloDone 3 []) a
      = Some (True, s1, [] @ out)"
  proof (cases cert)
    case None
    then show ?thesis using m1 by (simp add: b_def)
  next
    case (Some crt)
    have "HandleHandshakeMessage lib cc kHsCertificate crt a = Some (b, [])" for cc
      using c a(7) Some HandleCertificate_ok [of crt leaf _ lib a cc] by (auto simp: cert_acceptable_def b_def)
    then have "ProcessMessages lib env (WrapHandshakeUnfragmented kHsCertificate 1 crt @
      WrapHandshakeUnfragmented kHsServerKeyExchange 2 kex @ WrapHandshakeUnfragmented kHsServerHelloDone 3 []) a
      = Some (True, s1, [] @ ([] @ out))"
      using m1 c Some b(1) by - (rule ProcessMessages_message, simp_all add: cert_acceptable_def)
    then show ?thesis using Some by simp
  qed
  then have "ProcessMessages lib env (WrapHandshakeUnfragmented kHsServerHello 0 hello @
      (case cert of None \<Rightarrow> [] | Some c \<Rightarrow> WrapHandshakeUnfragmented kHsCertificate 1 c) @
      WrapHandshakeUnfragmented kHsServerKeyExchange 2 kex @ WrapHandshakeUnfragmented kHsServerHelloDone 3 []) s
      = Some (True, s1, [] @ ([] @ out))"
    using h ha a(1) by - (rule ProcessMessages_message, simp_all add: hello_acceptable_def)
  then have "ProcessDatagram lib env (server_flight hello cert kex) s = Some (True, s1, out)"
    unfolding server_flight_def using h p c st(1)
    by (intro ProcessDatagram_plain)
      (auto simp: WrapHandshakeUnfragmented_def hello_acceptable_def point_acceptable_def cert_acceptable_def
        split: option.splits)
  moreover have "dc_clientRandom s1 = dc_clientRandom s" "dc_serverRandom s1 = sh_random sh"
      "dc_extendedMasterSecret s1 = sh_extendedMasterSecret sh" "dc_serverCertDer s1 = leaf"
    using r(4) b by (simp_all add: same_peer_def d_def AppendToHandshakeHash_def)
  moreover have "dc_serverCipher s1 \<noteq> None" using r(5) by (simp add: keyed_def Let_def)
  ultimately show ?thesis using r by blast
qed

text \<open>The client after its first flight.\<close>

lemma Initiate_state:
  assumes "s = fst (Initiate rnd priv pub (DtlsClientSession_new kp fp))"
  shows "dc_state s = DtlsState_SentClientHello" "dc_ourEcdhPrivate s = fill 32 priv" "dc_clientRandom s = fill 32 rnd"
    "dc_serverCertDer s = []" "dc_expectedPeerFingerprint s = ParseHexFingerprint fp" "dc_masterSecret s = []"
    "dc_clientCipher s = None" "dc_serverCipher s = None" "dc_ourCert s = kp"
  by (simp_all add: assms Initiate_def SendHandshake_def AppendToHandshakeHash_def DtlsClientSession_new_def Let_def)


section \<open>Fingerprints\<close>

lemma hex_char: "n < 16 \<Longrightarrow> hex_val (kHex ! n) = Some n \<and> \<not> skipped (kHex ! n)"
proof -
  have "\<forall>n \<in> {0..<16}. hex_val (kHex ! n) = Some n \<and> \<not> skipped (kHex ! n)"
    by (simp add: atLeastLessThan_nat_numeral kHex_def hex_val_def skipped_def)
  then show "n < 16 \<Longrightarrow> hex_val (kHex ! n) = Some n \<and> \<not> skipped (kHex ! n)" by simp
qed

lemma nibbles: "unat (drop_bit 4 (b :: u8)) < 16" "unat (b AND 0x0F) < 16"
  "of_nat (unat (drop_bit 4 b) * 16 + unat (b AND 0x0F)) = b"
proof -
  have lt: "unat b < 2 ^ LENGTH(8)" by (rule unsigned_less)
  have d: "unat (drop_bit 4 b) = unat b div 16" by (simp add: drop_bit_eq_div unat_div)
  have "b AND 0x0F = take_bit 4 b" by (simp add: take_bit_eq_mask mask_eq_exp_minus_1)
  then have m: "unat (b AND 0x0F) = unat b mod 16" by (simp add: take_bit_eq_mod unat_mod)
  show "unat (drop_bit 4 b) < 16" "unat (b AND 0x0F) < 16" using lt by (simp_all add: d m)
  show "of_nat (unat (drop_bit 4 b) * 16 + unat (b AND 0x0F)) = b" by (simp add: d m)
qed

lemma parse_hex_pair: "parse_hex (hex_pair b @ cs) None out = parse_hex cs None (out @ [b])"
  using hex_char [OF nibbles(1) [of b]] hex_char [OF nibbles(2) [of b]] nibbles(3) [of b]
  by (simp add: hex_pair_def del: of_nat_add of_nat_mult)

lemma parse_hex_colons: "parse_hex (hex_colons bs) None out = out @ bs"
proof (induction bs arbitrary: out rule: hex_colons.induct)
  case 1
  then show ?case by simp
next
  case (2 b)
  then show ?case using parse_hex_pair [of b "[]" out] by simp
next
  case (3 b v va)
  then show ?case by (simp add: parse_hex_pair skipped_def)
qed

lemma fingerprint_roundtrip: "ParseHexFingerprint (hex_colons bs) = bs"
  by (simp add: ParseHexFingerprint_def parse_hex_colons)


section \<open>Properties\<close>

text \<open>A peer's certificate message, as \<open>BuildCertificateBody\<close> writes it.\<close>

lemma BuildCertificateBody_single: "BuildCertificateBody der = certificate_body [der]"
  by (simp add: BuildCertificateBody_def certificate_body_def cert_entry_def)

datatype DtlsEvent =
    Ev_Initiate random_fn random_fn random_fn
  | Ev_Datagram CertEnv bytes
  | Ev_Encrypt bytes

definition dtls_step :: "DtlsLib \<Rightarrow> DtlsClient option \<Rightarrow> DtlsEvent \<Rightarrow> DtlsClient option" where
  "dtls_step lib so e =
     (case so of
        None \<Rightarrow> None
      | Some s \<Rightarrow>
          (case e of
             Ev_Initiate rnd priv pub \<Rightarrow> Some (fst (Initiate rnd priv pub s))
           | Ev_Datagram env bs \<Rightarrow> map_option (\<lambda>(ok, s, out). s) (ProcessDatagram lib env bs s)
           | Ev_Encrypt m \<Rightarrow> Some (fst (EncryptAppData lib m s))))"

lemma dc_ok_Initiate: "dc_ok s \<Longrightarrow> dc_ok (fst (Initiate rnd priv pub s))"
proof -
  assume "dc_ok s"
  then have "dc_ok (s\<lparr>dc_clientRandom := fill 32 rnd, dc_ourEcdhPrivate := fill 32 priv, dc_ourEcdhPublic := fill 65 pub\<rparr>)"
    by (simp add: dc_ok_def)
  then show ?thesis by (simp add: Initiate_def Let_def case_prod_beta)
qed

lemma dc_ok_Encrypt: "dc_ok s \<Longrightarrow> dc_ok (fst (EncryptAppData lib m s))"
  by (auto simp: EncryptAppData_def split: option.splits prod.splits)

lemma dc_ok_datagram: "ProcessDatagram lib env bs s = Some (ok, s', out) \<Longrightarrow> dc_ok s \<Longrightarrow> dc_ok s'"
  by (auto simp: ProcessDatagram_def split: if_splits dest: dc_ok_records)

interpretation dtls_client: reactive "dtls_step lib" "\<lambda>so. case so of None \<Rightarrow> True | Some s \<Rightarrow> dc_ok s"
  "Some (DtlsClientSession_new kp fp)" for lib kp fp
proof unfold_locales
  show "case Some (DtlsClientSession_new kp fp) of None \<Rightarrow> True | Some s \<Rightarrow> dc_ok s" by (simp add: dc_ok_new)
  show "case dtls_step lib so e of None \<Rightarrow> True | Some s \<Rightarrow> dc_ok s"
    if "case so of None \<Rightarrow> True | Some s \<Rightarrow> dc_ok s" for so e
    using that by (auto simp: dtls_step_def dc_ok_Initiate dc_ok_Encrypt dest: dc_ok_datagram
        split: option.splits DtlsEvent.splits)
qed

text \<open>
  Claim C26: whatever datagrams arrive and whatever the application sends, in any order, a session stays
  well-formed: either it has no keys at all, sits in epoch 0 and exports nothing, or both directions
  have 16-byte keys with 4-byte nonce prefixes and any export has exactly the length asked for.
\<close>

theorem dtls_session_invariant:
  assumes "run_steps (dtls_step lib) (Some (DtlsClientSession_new kp fp)) es = Some s"
  shows "length (ExportKeyingMaterial lib label len s) = (if dc_clientCipher s = None then 0 else len)
     \<and> keys_ok (dc_masterSecret s) (dc_clientWriteKey s) (dc_serverWriteKey s) (dc_clientWriteIv s)
         (dc_serverWriteIv s) (dc_clientCipher s) (dc_serverCipher s) (dc_clientEpoch s)"
proof -
  have "dc_ok s" using dtls_client.inv_run [of lib kp fp es] assms by simp
  then show ?thesis by (auto simp: dc_ok_def keys_ok_def ExportKeyingMaterial_def)
qed

text \<open>An instance of the library: the cipher frames the text and keeps it, the hash is constant.\<close>

definition frame_lib :: DtlsLib where
  "frame_lib =
     \<lparr>dl_Sha256 = (\<lambda>m i. 0), dl_Prf = (\<lambda>s l d n i. 0), dl_Ecdh = (\<lambda>a b. Some (\<lambda>i. 0)),
      dl_Encrypt = (\<lambda>k iv m n t v. Some (replicate 8 0 @ m @ replicate 16 0)),
      dl_Decrypt = (\<lambda>k iv c n t v. Some (take (length c - 24) (drop 8 c)))\<rparr>"

lemma frame_lib_ok: "gcm_ok frame_lib"
  by (simp add: gcm_ok_def frame_lib_def)

theorem dtls_session_invariant_witness:
  "length (ExportKeyingMaterial frame_lib ''x'' 60 (fst (Initiate (\<lambda>i. 0) (\<lambda>i. 0) (\<lambda>i. 0)
     (DtlsClientSession_new \<lparr>m_Key = None\<rparr> [])))) = 0"
proof -
  let ?s = "fst (Initiate (\<lambda>i. 0) (\<lambda>i. 0) (\<lambda>i. 0) (DtlsClientSession_new \<lparr>m_Key = None\<rparr> []))"
  have "run_steps (dtls_step frame_lib) (Some (DtlsClientSession_new \<lparr>m_Key = None\<rparr> []))
      [Ev_Initiate (\<lambda>i. 0) (\<lambda>i. 0) (\<lambda>i. 0)] = Some ?s"
    by (simp add: dtls_step_def)
  from dtls_session_invariant [OF this, of "''x''" 60] Initiate_state(7) [OF refl] show ?thesis by simp
qed

text \<open>
  A handshake message is handled on every input, with one exception that any peer can send
  before anything is authenticated: a certificate message whose first certificate is empty makes the
  code take the address of an element that does not exist.
\<close>

theorem dtls_message_defined:
  "HandleHandshakeMessage lib cc t body s = None \<longleftrightarrow>
     t = kHsCertificate \<and> (\<exists>rest. Certificate_Decode body = Some (Some ([] # rest)))"
  by (rule message_defined)

text \<open>
  Claim C9: the fingerprint protects nothing: a peer that leaves the certificate message out, knowing no
  certificate at all, completes the handshake with a key exchange of its own choice, for every
  fingerprint the signaling agreed on, and the exported keys depend only on its own shared secret and on
  what went over the wire.
\<close>

theorem dtls_established_without_certificate:
  assumes "gcm_ok lib"
    and "s = fst (Initiate rnd priv pub (DtlsClientSession_new kp fp))"
    and "hello_acceptable hello sh" and "point_acceptable kex point"
    and "dl_Ecdh lib (fill 32 priv) point = Some x"
  shows "\<exists>s1 out1 s2 tr. ProcessDatagram lib env (server_flight hello None kex) s = Some (True, s1, out1)
     \<and> ProcessDatagram lib env' (server_finished lib n s1) s1 = Some (True, s2, [])
     \<and> dc_state s2 = DtlsState_Established \<and> dc_serverCertDer s2 = []
     \<and> (\<forall>label len. ExportKeyingMaterial lib label len s2
          = exporter lib (fill 32 x) (sh_extendedMasterSecret sh) tr (fill 32 rnd) (sh_random sh) label len)"
proof -
  note i = Initiate_state [OF assms(2)]
  have "cert_acceptable lib s None []" by (simp add: cert_acceptable_def i)
  then obtain s1 out1 tr where 1: "ProcessDatagram lib env (server_flight hello None kex) s = Some (True, s1, out1)"
      "dc_state s1 = DtlsState_SentFinished" "keyed lib (fill 32 x) tr s1" "dc_serverCipher s1 \<noteq> None"
      "dc_clientRandom s1 = fill 32 rnd" "dc_serverRandom s1 = sh_random sh"
      "dc_extendedMasterSecret s1 = sh_extendedMasterSecret sh" "dc_serverCertDer s1 = []"
    using with_hello_cert_key [OF assms(1) _ _ assms(3,4), of s x None "[]" env] assms(5)
    by (auto simp: i)
  obtain s2 where 2: "ProcessDatagram lib env' (server_finished lib n s1) s1 = Some (True, s2, [])"
      "dc_state s2 = DtlsState_Established" "same_peer s1 s2" "keyed lib (fill 32 x) tr s2"
    using server_finished_ok [OF assms(1) 1(4), of env' n] 1(2,3) by auto
  have "ExportKeyingMaterial lib label len s2
      = exporter lib (fill 32 x) (sh_extendedMasterSecret sh) tr (fill 32 rnd) (sh_random sh) label len" for label len
    using keyed_export [OF 2(4)] 2(3) 1(5-7) by (simp add: same_peer_def)
  with 1 2 show ?thesis by (auto simp: same_peer_def)
qed


text \<open>The messages of the examples.\<close>

definition sample_hello :: bytes where
  "sample_hello = server_hello_body 0xFEFD (replicate 32 7) [] 0xC02B 0 [(0x0017, [])]"

definition sample_kex :: bytes where
  "sample_kex = [3, 0, 0x17, 65] @ (4 # replicate 64 0) @ [4, 3, 0, 0]"

lemma sample_hello_ok: "\<exists>sh. hello_acceptable sample_hello sh"
  using ServerHello_Decode_body [of "replicate 32 7" "[]" "[(0x0017, [])]" "0xFEFD" "0xC02B" 0]
  by (simp add: hello_acceptable_def sample_hello_def kCsEcdheEcdsaAes128GcmSha256_def apply_extension_def
      hello_extension_def kExt_defs) (simp add: server_hello_body_def hello_extension_def)

lemma sample_kex_ok: "point_acceptable sample_kex (4 # replicate 64 0)"
proof -
  have "ServerKeyExchange_Decode sample_kex = Some (Some \<lparr>ske_namedCurve = 0x17, ske_publicPoint = 4 # replicate 64 0,
     ske_hashAlgorithm = 4, ske_signatureAlgorithm = 3, ske_signature = [], ske_signedParams = [3, 0, 0x17, 65] @ (4 # replicate 64 0)\<rparr>)"
    by (simp add: sample_kex_def ServerKeyExchange_Decode_def rd8_def rd_be16_def be16_of_def subbuf_def nth_append Let_def)
  then show ?thesis by (simp add: point_acceptable_def kNgSecp256r1_def) (simp add: sample_kex_def)
qed

theorem dtls_established_without_certificate_witness:
  "\<exists>s1 out1 s2. ProcessDatagram frame_lib (\<lambda>n. sample_call [] 0) (server_flight sample_hello None sample_kex)
       (fst (Initiate (\<lambda>i. 0) (\<lambda>i. 0) (\<lambda>i. 0) (DtlsClientSession_new \<lparr>m_Key = None\<rparr> ''AA:BB''))) = Some (True, s1, out1)
     \<and> ProcessDatagram frame_lib (\<lambda>n. sample_call [] 0) (server_finished frame_lib 4 s1) s1 = Some (True, s2, [])
     \<and> dc_state s2 = DtlsState_Established"
proof -
  obtain sh where "hello_acceptable sample_hello sh" using sample_hello_ok by blast
  moreover have "dl_Ecdh frame_lib (fill 32 (\<lambda>i. 0)) (4 # replicate 64 0) = Some (\<lambda>i. 0)" by (simp add: frame_lib_def)
  ultimately show ?thesis
    using dtls_established_without_certificate [OF frame_lib_ok refl _ sample_kex_ok] by fastforce
qed

text \<open>
  Claim C11: the identity announced is not the identity presented: the fingerprint of a key pair and the
  certificate its session sends later are made by two calls, each with a serial number of its own. When
  the serials differ and SHA-256 tells the two certificates apart, a peer that checks the announced
  fingerprint, as this very client does, refuses the certificate it receives.
\<close>

theorem advertised_fingerprint_refused:
  assumes "platform_ok cc k" "platform_ok cc' k"
    and "RandomSerial (cc_GenerateRandom cc) \<noteq> RandomSerial (cc_GenerateRandom cc')"
    and "ToX509SelfSignedDer cc \<lparr>m_Key = Some k\<rparr> = Some announced" "ToX509SelfSignedDer cc' \<lparr>m_Key = Some k\<rparr> = Some presented"
    and "\<And>m. cc_Sha256 cc m = dtls_sha256 lib m"
    and "announced \<noteq> presented \<Longrightarrow> dtls_sha256 lib announced \<noteq> dtls_sha256 lib presented"
    and "ToSha256Fingerprint cc \<lparr>m_Key = Some k\<rparr> = Some fp"
    and "dc_expectedPeerFingerprint peer = ParseHexFingerprint fp"
  shows "HandleHandshakeMessage lib cc'' kHsCertificate (BuildCertificateBody presented) peer
     = Some (dtls_Fail ''peer certificate fingerprint mismatch'' (peer\<lparr>dc_serverCertDer := presented\<rparr>), [])"
proof -
  have d: "announced \<noteq> presented" using certificates_differ [OF assms(1-3)] assms(4,5) by auto
  obtain tbs sig where a: "ToX509SelfSignedDer cc \<lparr>m_Key = Some k\<rparr> = Some (der_certificate tbs sig)"
    by (rule certificate_ok [OF assms(1)])
  then have "announced \<noteq> []" using assms(4) by (simp add: der_certificate_def tlv_def)
  moreover have "length (cc_Sha256 cc announced) = 32" using assms(1) by (simp add: platform_ok_def)
  ultimately have "fp = hex_colons (cc_Sha256 cc announced)"
    using assms(4,8) by (simp add: ToSha256Fingerprint_def)
  then have e: "dc_expectedPeerFingerprint peer = cc_Sha256 cc announced"
    using assms(9) by (simp add: fingerprint_roundtrip)
  obtain xy tbs' sig' where p: "length xy = 64" "tbs' = der_tbs (RandomSerial (cc_GenerateRandom cc')) (cc_time cc') (0x04 # xy)"
      "length sig' \<le> 200" "ToX509SelfSignedDer cc' \<lparr>m_Key = Some k\<rparr> = Some (der_certificate tbs' sig')"
    by (rule certificate_ok [OF assms(2)])
  have "length (RandomSerial (cc_GenerateRandom cc')) = 8"
    using assms(2) by (simp add: platform_ok_def length_RandomSerial)
  then have "length tbs' \<le> 300" using p(1,2) by (simp add: length_tbs)
  moreover have "length (tlv 3 (0 # sig')) \<le> 201 + 4" using p(3) by (intro length_tlv_le) simp_all
  ultimately have "length (der_certificate tbs' sig') \<le> 517 + 4"
    unfolding der_certificate_def by (intro length_tlv_le) (simp_all add: der_constant_lengths)
  moreover have "presented = der_certificate tbs' sig'" using p(4) assms(5) by simp
  ultimately have l: "length presented \<le> 521" "presented \<noteq> []" by (simp_all add: der_certificate_def tlv_def)
  have c: "Certificate_Decode (BuildCertificateBody presented) = Some (Some [presented])"
    using l Certificate_Decode_body [of "[presented]"] by (simp add: BuildCertificateBody_single)
  have "dtls_sha256 lib presented \<noteq> cc_Sha256 cc announced" using assms(6) assms(7) [OF d] by simp
  then show ?thesis
    using l by (simp add: HandleHandshakeMessage_def kHs_defs HandleCertificate_def c Let_def e dtls_Fail_def)
qed


text \<open>Two calls of the sample platform whose serials differ in the second byte.\<close>

definition serial_lib :: DtlsLib where
  "serial_lib = frame_lib\<lparr>dl_Sha256 := (\<lambda>m i. take 32 (drop 15 m @ replicate 32 0) ! i)\<rparr>"

lemma serial_lib_hash: "cc_Sha256 (sample_call rnd now) m = dtls_sha256 serial_lib m"
proof -
  let ?h = "take 32 (drop 15 m @ replicate 32 0)"
  have "length ?h = 32" by simp
  then have "fill 32 (\<lambda>i. ?h ! i) = ?h" using fill_nth_id [of ?h] by simp
  then show ?thesis by (simp add: sample_call_def serial_lib_def dtls_sha256_def)
qed

lemma sample_certificate_bytes:
  assumes "x \<in> {2, 9}"
  shows "\<exists>cert rest. ToX509SelfSignedDer (sample_call [1, x, 3, 4, 5, 6, 7, 8] 0) \<lparr>m_Key = Some 7\<rparr> = Some cert
     \<and> drop 15 cert = x # rest"
proof -
  let ?cc = "sample_call [1, x, 3, 4, 5, 6, 7, 8] 0"
  obtain xy tbs sig where c: "length xy = 64" "tbs = der_tbs (RandomSerial (cc_GenerateRandom ?cc)) (cc_time ?cc) (0x04 # xy)"
      "SignSha256 ?cc \<lparr>m_Key = Some 7\<rparr> (cc_Sha256 ?cc tbs) = Some sig"
      "ToX509SelfSignedDer ?cc \<lparr>m_Key = Some 7\<rparr> = Some (der_certificate tbs sig)"
    by (rule certificate_ok [OF sample_call_ok [of "[1, x, 3, 4, 5, 6, 7, 8]" 0 7]]) simp
  have r: "RandomSerial (cc_GenerateRandom ?cc) = [1, x, 3, 4, 5, 6, 7, 8]"
    by (simp add: sample_call_def RandomSerial_def)
  have b: "integer_body [1, x, 3, 4, 5, 6, 7, 8] = [1, x, 3, 4, 5, 6, 7, 8]"
    by (simp add: integer_body_def)
  have "integer_body (replicate 32 0x80) = 0 # replicate 32 0x80"
    by (simp add: integer_body_def replicate_numeral_Cons)
  moreover have "SignSha256 ?cc \<lparr>m_Key = Some 7\<rparr> h = RawRsToDer (replicate 64 0x80)" if "length h = 32" for h
    using that by (simp add: SignSha256_def sample_call_def NormalizeEcdsaSignatureToDer_def)
  moreover have "length (cc_Sha256 ?cc tbs) = 32" by (simp add: sample_call_def)
  ultimately have "length sig = 72"
    using c(3) by (auto simp: RawRsToDer_64 tlv_def EncodeLength_def)
  then have "drop 15 (der_certificate tbs sig) = x # drop 16 (der_certificate tbs sig)"
    using c(1) by (simp add: c(2) r der_certificate_def der_tbs_def tlv_def b der_constant_lengths length_validity length_spki
        EncodeLength_def length_bytes.simps)
  then show ?thesis using c(4) by blast
qed

theorem advertised_fingerprint_refused_witness:
  "\<exists>fp presented. ToSha256Fingerprint (sample_call [1, 2, 3, 4, 5, 6, 7, 8] 0) \<lparr>m_Key = Some 7\<rparr> = Some fp
     \<and> ToX509SelfSignedDer (sample_call [1, 9, 3, 4, 5, 6, 7, 8] 0) \<lparr>m_Key = Some 7\<rparr> = Some presented
     \<and> map_option (dc_state \<circ> fst) (HandleHandshakeMessage serial_lib (sample_call [] 0) kHsCertificate (BuildCertificateBody presented)
         (DtlsClientSession_new \<lparr>m_Key = None\<rparr> fp)) = Some DtlsState_Failed"
proof -
  let ?cc = "sample_call [1, 2, 3, 4, 5, 6, 7, 8] 0" and ?cc' = "sample_call [1, 9, 3, 4, 5, 6, 7, 8] 0"
  obtain a ra where a: "ToX509SelfSignedDer ?cc \<lparr>m_Key = Some 7\<rparr> = Some a" "drop 15 a = 2 # ra"
    using sample_certificate_bytes [of 2] by auto
  obtain p rp where p: "ToX509SelfSignedDer ?cc' \<lparr>m_Key = Some 7\<rparr> = Some p" "drop 15 p = 9 # rp"
    using sample_certificate_bytes [of 9] by auto
  have h: "dtls_sha256 serial_lib a \<noteq> dtls_sha256 serial_lib p"
    using a(2) p(2) by (simp add: serial_lib_hash [of "[]" 0, symmetric]) (simp add: sample_call_def)
  have ok: "platform_ok ?cc 7" "platform_ok ?cc' 7" by (rule sample_call_ok, simp)+
  have s: "RandomSerial (cc_GenerateRandom ?cc) \<noteq> RandomSerial (cc_GenerateRandom ?cc')"
    by (simp add: sample_call_def RandomSerial_def)
  obtain fp where fp: "ToSha256Fingerprint ?cc \<lparr>m_Key = Some 7\<rparr> = Some fp"
    using a by (cases "a = []") (simp_all add: ToSha256Fingerprint_def Let_def)
  have "dc_expectedPeerFingerprint (DtlsClientSession_new \<lparr>m_Key = None\<rparr> fp) = ParseHexFingerprint fp"
    by (simp add: DtlsClientSession_new_def)
  from advertised_fingerprint_refused [OF ok s a(1) p(1) serial_lib_hash h fp this, of "sample_call [] 0"]
  show ?thesis using fp p(1) by (simp add: dtls_Fail_def)
qed

text \<open>
  What TLS protects is not protected here: one unauthenticated record, a change-cipher-spec in
  plaintext, takes an established session out of its state, and from then on nothing can be sent and
  nothing received, although the keys are still there.
\<close>

theorem established_session_reset:
  assumes "dc_state s = DtlsState_Established"
    and "dtls_encodable r" "dtls_type r = kDtlsContentChangeCipherSpec"
  shows "\<exists>s'. ProcessDatagram lib env (dtls_Encode r) s = Some (True, s', [])
     \<and> dc_clientCipher s' = dc_clientCipher s
     \<and> (\<forall>m. EncryptAppData lib m s' = (s', [])) \<and> (\<forall>d. DecryptAppData lib d s' = Some None)"
proof -
  have "ProcessRecord lib env r s = Some (True, HandleChangeCipherSpec s, [])"
    by (simp add: ProcessRecord_def assms(3))
  from ProcessRecords_record [OF assms(2) this ProcessRecords_end]
  have "ProcessDatagram lib env (dtls_Encode r) s = Some (True, HandleChangeCipherSpec s, [])"
    by (simp add: ProcessDatagram_def assms(1))
  then show ?thesis
    by (simp add: HandleChangeCipherSpec_def EncryptAppData_def DecryptAppData_def)
qed

theorem established_session_reset_witness:
  "\<exists>s'. ProcessDatagram frame_lib (\<lambda>n. sample_call [] 0)
      (dtls_Encode \<lparr>dtls_type = 20, dtls_version = 0, dtls_epoch = 0, dtls_sequenceNumber = 0, dtls_payload = []\<rparr>)
      ((DtlsClientSession_new \<lparr>m_Key = None\<rparr> [])\<lparr>dc_state := DtlsState_Established\<rparr>) = Some (True, s', [])
     \<and> EncryptAppData frame_lib [1] s' = (s', [])"
  using established_session_reset [of "(DtlsClientSession_new \<lparr>m_Key = None\<rparr> [])\<lparr>dc_state := DtlsState_Established\<rparr>"
      "\<lparr>dtls_type = 20, dtls_version = 0, dtls_epoch = 0, dtls_sequenceNumber = 0, dtls_payload = []\<rparr>"
      frame_lib "\<lambda>n. sample_call [] 0"]
  by (auto simp: kDtlsContentChangeCipherSpec_def)

text \<open>
  What one side encrypts the other side reads: with the peer's receiving keys equal to our
  sending keys, a datagram of application data decrypts to the text, and the next one uses another
  sequence number.
\<close>

theorem dtls_app_data_roundtrip:
  assumes "gcm_ok lib" and "dc_state s = DtlsState_Established" and "dc_clientCipher s \<noteq> None"
    and "dc_state peer = DtlsState_Established" "dc_serverCipher peer = dc_clientCipher s"
    and "length m < 60000" and "unat (dc_clientRecordSeq s) < 2 ^ 48 - 1"
  shows "\<exists>s' d. EncryptAppData lib m s = (s', d) \<and> DecryptAppData lib d peer = Some (Some m)
     \<and> unat (dc_clientRecordSeq s') = unat (dc_clientRecordSeq s) + 1"
proof -
  obtain key iv where k: "dc_clientCipher s = Some (key, iv)" using assms(3) by auto
  obtain c where c: "dl_Encrypt lib key iv m (aad_seq (dc_clientEpoch s) (dc_clientRecordSeq s))
      kDtlsContentApplicationData kDtlsVersion12 = Some c" "length c = length m + 24"
      "dl_Decrypt lib key iv c (aad_seq (dc_clientEpoch s) (dc_clientRecordSeq s)) kDtlsContentApplicationData kDtlsVersion12 = Some m"
    using assms(1) unfolding gcm_ok_def by blast
  let ?r = "\<lparr>dtls_type = kDtlsContentApplicationData, dtls_version = kDtlsVersion12, dtls_epoch = dc_clientEpoch s,
      dtls_sequenceNumber = dc_clientRecordSeq s, dtls_payload = c\<rparr>"
  have "take_bit 48 (dc_clientRecordSeq s) = dc_clientRecordSeq s"
  proof -
    have "unat (take_bit 48 (dc_clientRecordSeq s)) = take_bit 48 (unat (dc_clientRecordSeq s))"
      by (simp add: unsigned_take_bit_eq)
    also have "\<dots> = unat (dc_clientRecordSeq s)" using assms(7) by (intro take_bit_nat_eq_self) simp
    finally show ?thesis by (simp only: word_unat_eq_iff)
  qed
  then have "dtls_encodable ?r" using c(2) assms(6) by (simp add: dtls_encodable_def mask48)
  from dtls_Decode_Encode [OF this, of "[]"]
  have "DecryptAppData lib (dtls_Encode ?r) peer = Some (Some m)"
    using assms(4,5) c(3) k by (simp add: DecryptAppData_def)
  moreover have "unat (dc_clientRecordSeq s + 1) = unat (dc_clientRecordSeq s) + 1"
    using assms(7) by (simp add: unat_word_ariths)
  ultimately show ?thesis using assms(2) c(1) k by (simp add: EncryptAppData_def WrapRecord_def)
qed


theorem dtls_app_data_roundtrip_witness:
  "\<exists>s' d. EncryptAppData frame_lib [1, 2, 3] ((DtlsClientSession_new \<lparr>m_Key = None\<rparr> [])
        \<lparr>dc_state := DtlsState_Established, dc_clientCipher := Some ([], []), dc_serverCipher := Some ([], [])\<rparr>) = (s', d)
     \<and> DecryptAppData frame_lib d ((DtlsClientSession_new \<lparr>m_Key = None\<rparr> [])
        \<lparr>dc_state := DtlsState_Established, dc_clientCipher := Some ([], []), dc_serverCipher := Some ([], [])\<rparr>) = Some (Some [1, 2, 3])"
  using dtls_app_data_roundtrip [OF frame_lib_ok,
      of "(DtlsClientSession_new \<lparr>m_Key = None\<rparr> [])\<lparr>dc_state := DtlsState_Established, dc_clientCipher := Some ([], []), dc_serverCipher := Some ([], [])\<rparr>"
         "(DtlsClientSession_new \<lparr>m_Key = None\<rparr> [])\<lparr>dc_state := DtlsState_Established, dc_clientCipher := Some ([], []), dc_serverCipher := Some ([], [])\<rparr>" "[1, 2, 3]"]
  by (auto simp: DtlsClientSession_new_def)

text \<open>
  The established state needs no peer: a single plaintext Finished, whose twelve bytes anyone who saw
  the first hello can compute because the master secret is still empty, moves a session that has only
  sent its hello to established; it then has no keys, sends nothing and exports nothing.
\<close>

theorem dtls_established_without_keys:
  assumes "s = fst (Initiate rnd priv pub (DtlsClientSession_new kp fp))"
    and "verify = TlsPrf_Compute lib [] ''server finished'' (dtls_sha256 lib (dc_handshakeTranscript s)) 12"
  shows "\<exists>s'. ProcessDatagram lib env
       (WrapRecord kDtlsContentHandshake kDtlsVersion12 0 0 (WrapHandshakeUnfragmented kHsFinished 0 verify)) s = Some (True, s', [])
     \<and> dc_state s' = DtlsState_Established \<and> dc_clientCipher s' = None
     \<and> (\<forall>m. EncryptAppData lib m s' = (s', [])) \<and> (\<forall>label len. ExportKeyingMaterial lib label len s' = [])"
proof -
  note i = Initiate_state [OF assms(1)]
  define s' where "s' = (AppendToHandshakeHash (TlsLikeTranscriptBytes kHsFinished verify) s)\<lparr>dc_state := DtlsState_Established\<rparr>"
  have v: "length verify = 12" by (simp add: assms(2))
  have "HandleHandshakeMessage lib cc kHsFinished verify s = Some (s', [])" for cc
    using v by (simp add: HandleHandshakeMessage_def kHs_defs HandleFinished_def kVerifyDataLength_def s'_def Let_def)
      (simp add: BuildFinishedBody_def i kVerifyDataLength_def assms(2))
  then have "ProcessMessages lib env (WrapHandshakeUnfragmented kHsFinished 0 verify) s = Some (True, s', [])"
    using v by (intro ProcessMessages_last) (simp_all add: s'_def)
  then have "ProcessDatagram lib env
       (WrapRecord kDtlsContentHandshake kDtlsVersion12 0 0 (WrapHandshakeUnfragmented kHsFinished 0 verify)) s = Some (True, s', [])"
    using v i(1) by (intro ProcessDatagram_plain) (simp_all add: WrapHandshakeUnfragmented_def)
  moreover have "dc_clientCipher s' = None" "dc_masterSecret s' = []" "dc_state s' = DtlsState_Established"
    using i by (simp_all add: s'_def AppendToHandshakeHash_def)
  ultimately show ?thesis by (simp add: EncryptAppData_def ExportKeyingMaterial_def)
qed

theorem dtls_established_without_keys_witness:
  "\<exists>s'. ProcessDatagram frame_lib (\<lambda>n. sample_call [] 0)
       (WrapRecord kDtlsContentHandshake kDtlsVersion12 0 0 (WrapHandshakeUnfragmented kHsFinished 0 (replicate 12 0)))
       (fst (Initiate (\<lambda>i. 0) (\<lambda>i. 0) (\<lambda>i. 0) (DtlsClientSession_new \<lparr>m_Key = None\<rparr> ''AA''))) = Some (True, s', [])
     \<and> dc_state s' = DtlsState_Established"
proof -
  have "replicate 12 0 = TlsPrf_Compute frame_lib [] ''server finished'' h 12" for h
    by (simp add: TlsPrf_Compute_def frame_lib_def fill_def map_replicate_const)
  from dtls_established_without_keys [OF refl this] show ?thesis by blast
qed

lemma server_hello_done_state:
  assumes "HandleServerHelloDone lib cc body s = Some (s', out)"
  shows "dc_state s' \<in> {DtlsState_Failed, DtlsState_SentFinished}"
proof -
  obtain s0 der s1 d1 s2 d2 cv s3 d3 where
    "if dc_state (DeriveKeysAndCipher lib s3) = DtlsState_Failed
     then s' = DeriveKeysAndCipher lib s3 \<and> out = [d1, d2, d3]
     else \<exists>flight. BuildClientFinishedFlight lib (DeriveKeysAndCipher lib s3) = Some (s', flight) \<and> out = [d1, d2, d3] @ flight"
    by (rule HandleServerHelloDone_steps [OF assms])
  then show ?thesis
    by (auto simp: BuildClientFinishedFlight_def Let_def dtls_Fail_def split: if_splits option.splits)
qed

text \<open>
  The state \<open>Established\<close> is entered by one message only: a Finished whose twelve bytes are the PRF of
  the master secret over the transcript; no other handshake message leads there.
\<close>

theorem established_only_by_finished:
  assumes "HandleHandshakeMessage lib cc t body s = Some (s', out)"
    and "dc_state s \<noteq> DtlsState_Established" "dc_state s' = DtlsState_Established"
  shows "t = kHsFinished \<and> out = []
     \<and> body = TlsPrf_Compute lib (dc_masterSecret s) ''server finished'' (dtls_sha256 lib (dc_handshakeTranscript s)) 12"
  using assms
  by (auto simp: HandleHandshakeMessage_def HandleHelloVerifyRequest_def HandleServerHello_def HandleCertificate_def
      HandleServerKeyExchange_def HandleFinished_def BuildFinishedBody_def kVerifyDataLength_def AppendToHandshakeHash_def
      dtls_Fail_def Let_def split: if_splits option.splits list.splits prod.splits dest!: server_hello_done_state)

theorem established_only_by_finished_witness:
  "\<exists>s'. HandleHandshakeMessage frame_lib (sample_call [] 0) kHsFinished (replicate 12 0)
       (DtlsClientSession_new \<lparr>m_Key = None\<rparr> []) = Some (s', []) \<and> dc_state s' = DtlsState_Established
     \<and> replicate 12 0 = TlsPrf_Compute frame_lib [] ''server finished'' (dtls_sha256 frame_lib []) 12"
proof -
  let ?s = "DtlsClientSession_new \<lparr>m_Key = None\<rparr> []"
  have "TlsPrf_Compute frame_lib a b c 12 = replicate 12 0" for a b c
    by (simp add: TlsPrf_Compute_def frame_lib_def fill_def map_replicate_const)
  then obtain s' where s': "HandleHandshakeMessage frame_lib (sample_call [] 0) kHsFinished (replicate 12 0) ?s = Some (s', [])"
      "dc_state s' = DtlsState_Established"
    by (simp add: HandleHandshakeMessage_def kHs_defs HandleFinished_def BuildFinishedBody_def kVerifyDataLength_def Let_def)
  have "dc_state ?s \<noteq> DtlsState_Established" "dc_masterSecret ?s = []" "dc_handshakeTranscript ?s = []"
    by (simp_all add: DtlsClientSession_new_def)
  with established_only_by_finished [OF s'(1) _ s'(2)] s' show ?thesis by auto
qed

end
