(* ===== verification/DtlsInterop.thy ===== *)
theory DtlsInterop
  imports DtlsSession
begin

text \<open>
  The DTLS client against a server that is computed independently of it: the server has its own result of the key
  exchange, its own transcript of the messages and its own keys. Two servers are considered. One follows the rules of
  \<open>dtls_client_session.cpp\<close> itself (transcript of the messages with the four bytes of the TLS header, the
  session hash of the extended master secret taken after CertificateVerify); the other follows RFC 6347 4.2.6 (the
  messages with their twelve-byte DTLS headers) and RFC 7627 (the session hash ends with ClientKeyExchange).
\<close>

section \<open>Transcripts and keys of a server\<close>

text \<open>
  The messages of a handshake with the server's CertificateRequest, up to ClientKeyExchange: type, number, body. The
  client's messages and the server's are numbered each on their own.
\<close>

type_synonym hs_message = "u8 \<times> u16 \<times> bytes"

definition server_messages :: "bytes \<Rightarrow> bytes \<Rightarrow> bytes \<Rightarrow> bytes \<Rightarrow> hs_message list" where
  "server_messages hello cert kex req =
     [(kHsServerHello, 0, hello), (kHsCertificate, 1, cert), (kHsServerKeyExchange, 2, kex),
      (kHsCertificateRequest, 3, req), (kHsServerHelloDone, 4, [])]"

definition client_messages :: "bytes \<Rightarrow> bytes \<Rightarrow> hs_message list" where
  "client_messages own pub =
     [(kHsCertificate, 1, BuildCertificateBody own), (kHsClientKeyExchange, 2, ClientKeyExchange_Encode pub)]"

definition verify_message :: "bytes \<Rightarrow> hs_message" where
  "verify_message sig = (kHsCertificateVerify, 3,
     CertificateVerify_Encode \<lparr>cv_hashAlgorithm = 4, cv_signatureAlgorithm = 3, cv_signature = sig\<rparr>)"

text \<open>The messages with the first four bytes of their headers, and as they travel.\<close>

definition code_transcript :: "hs_message list \<Rightarrow> bytes" where
  "code_transcript ms = concat (map (\<lambda>(t, n, b). [t] @ be24 (of_nat (length b)) @ b) ms)"

definition rfc_transcript :: "hs_message list \<Rightarrow> bytes" where
  "rfc_transcript ms = concat (map (\<lambda>(t, n, b). WrapHandshakeUnfragmented t n b) ms)"

lemma code_transcript_append: "code_transcript (as @ bs) = code_transcript as @ code_transcript bs"
  by (simp add: code_transcript_def)

lemma code_transcript_one: "code_transcript [(t, n, b)] = TlsLikeTranscriptBytes t b"
  by (simp add: code_transcript_def TlsLikeTranscriptBytes_def)

text \<open>Master secret from a session hash, the key block, a Finished.\<close>

definition srv_master :: "DtlsLib \<Rightarrow> bytes \<Rightarrow> bool \<Rightarrow> bytes \<Rightarrow> bytes \<Rightarrow> bytes \<Rightarrow> bytes" where
  "srv_master lib pms ems session cr sr =
     (if ems then TlsPrf_Compute lib pms ''extended master secret'' (dtls_sha256 lib session) 48
      else TlsPrf_Compute lib pms ''master secret'' (cr @ sr) 48)"

definition srv_keys :: "DtlsLib \<Rightarrow> bytes \<Rightarrow> bytes \<Rightarrow> bytes \<Rightarrow> AesGcm \<times> AesGcm" where
  "srv_keys lib ms cr sr =
     (let kb = TlsPrf_Compute lib ms ''key expansion'' (sr @ cr) 40
      in ((take 16 kb, take 4 (drop 32 kb)), (take 16 (drop 16 kb), take 4 (drop 36 kb))))"

definition verify_data :: "DtlsLib \<Rightarrow> bytes \<Rightarrow> string \<Rightarrow> bytes \<Rightarrow> bytes" where
  "verify_data lib ms label transcript = TlsPrf_Compute lib ms label (dtls_sha256 lib transcript) 12"

text \<open>The server's first flight in one record, and its ChangeCipherSpec with a protected message of its own.\<close>

definition request_flight :: "hs_message list \<Rightarrow> bytes" where
  "request_flight ms = WrapRecord kDtlsContentHandshake kDtlsVersion12 0 0 (rfc_transcript ms)"

definition finished_reply :: "bytes \<Rightarrow> bytes" where
  "finished_reply ct =
     WrapRecord kDtlsContentChangeCipherSpec kDtlsVersion12 0 1 [1] @
     WrapRecord kDtlsContentHandshake kDtlsVersion12 1 0 ct"

definition plain_record :: "u64 \<Rightarrow> hs_message \<Rightarrow> bytes" where
  "plain_record seq m =
     (case m of (t, n, b) \<Rightarrow>
        WrapRecord kDtlsContentHandshake kDtlsVersion12 0 seq (WrapHandshakeUnfragmented t n b))"


section \<open>The client's second flight\<close>

lemma send_plain:
  assumes "dc_clientEpoch s = 0" "dc_clientMessageSeq s = n" "dc_clientRecordSeq s = q"
    and "dc_handshakeTranscript s @ TlsLikeTranscriptBytes t b = tr"
  shows "SendHandshake t b s =
    (s\<lparr>dc_clientMessageSeq := n + 1, dc_clientRecordSeq := q + 1, dc_handshakeTranscript := tr\<rparr>, plain_record q (t, n, b))"
  using assms by (simp add: SendHandshake_def AppendToHandshakeHash_def Let_def plain_record_def)

lemma hello_done_flight:
  assumes g: "gcm_ok lib" and p: "length (dc_serverPublicPoint s) = 65" "length (dc_ourEcdhPrivate s) = 32"
    and x: "dl_Ecdh lib (dc_ourEcdhPrivate s) (dc_serverPublicPoint s) = Some x"
    and seq: "dc_clientMessageSeq s = 1" "dc_clientRecordSeq s = 1" "dc_clientEpoch s = 0"
    and tr: "dc_handshakeTranscript s = code_transcript M0"
    and own: "ToX509SelfSignedDer cc (dc_ourCert s) = Some own"
    and M: "M = M0 @ [(kHsServerHelloDone, n, body)] @ client_messages own (dc_ourEcdhPublic s)"
    and sig: "SignSha256 cc (dc_ourCert s) (dtls_sha256 lib (code_transcript M)) = Some sig"
    and T: "T = M @ [verify_message sig]"
    and ms: "ms = srv_master lib (fill 32 x) (dc_extendedMasterSecret s) (code_transcript T) (dc_clientRandom s) (dc_serverRandom s)"
    and keys: "srv_keys lib ms (dc_clientRandom s) (dc_serverRandom s) = ((ck, ci), (sk, si))"
    and fin: "fin = verify_data lib ms ''client finished'' (code_transcript T)"
  shows "\<exists>s' ct. HandleServerHelloDone lib cc body s = Some (s',
      [plain_record 1 (kHsCertificate, 1, BuildCertificateBody own),
       plain_record 2 (kHsClientKeyExchange, 2, ClientKeyExchange_Encode (dc_ourEcdhPublic s)),
       plain_record 3 (verify_message sig),
       WrapRecord kDtlsContentChangeCipherSpec kDtlsVersion12 0 4 [1],
       WrapRecord kDtlsContentHandshake kDtlsVersion12 1 0 ct])
    \<and> dl_Encrypt lib ck ci (WrapHandshakeUnfragmented kHsFinished 4 fin) (aad_seq 1 0)
        kDtlsContentHandshake kDtlsVersion12 = Some ct
    \<and> dc_state s' = DtlsState_SentFinished \<and> dc_masterSecret s' = ms \<and> dc_serverCipher s' = Some (sk, si)
    \<and> dc_handshakeTranscript s' = code_transcript (T @ [(kHsFinished, 4, fin)])
    \<and> dc_clientRandom s' = dc_clientRandom s \<and> dc_serverRandom s' = dc_serverRandom s
    \<and> dc_serverCertDer s' = dc_serverCertDer s"
proof -
  obtain ct where ct: "dl_Encrypt lib ck ci (WrapHandshakeUnfragmented kHsFinished 4 fin) (aad_seq 1 0)
        kDtlsContentHandshake kDtlsVersion12 = Some ct"
    using g unfolding gcm_ok_def by blast
  have trM: "code_transcript M = code_transcript M0 @ TlsLikeTranscriptBytes kHsServerHelloDone body @
      TlsLikeTranscriptBytes kHsCertificate (BuildCertificateBody own) @
      TlsLikeTranscriptBytes kHsClientKeyExchange (ClientKeyExchange_Encode (dc_ourEcdhPublic s))"
    by (simp add: M client_messages_def code_transcript_def TlsLikeTranscriptBytes_def)
  define cv where "cv = CertificateVerify_Encode \<lparr>cv_hashAlgorithm = 4, cv_signatureAlgorithm = 3, cv_signature = sig\<rparr>"
  have trT: "code_transcript T = code_transcript M @ TlsLikeTranscriptBytes kHsCertificateVerify cv"
    by (simp add: T verify_message_def code_transcript_def TlsLikeTranscriptBytes_def cv_def)
  define s3 where "s3 = s\<lparr>dc_state := DtlsState_SentClientKeyExchange, dc_clientMessageSeq := 4, dc_clientRecordSeq := 4,
      dc_handshakeTranscript := code_transcript T\<rparr>"
  have mo: "master_of lib (fill 32 x) s3 = ms"
    by (simp add: master_of_def ms srv_master_def s3_def)
  have d: "DeriveKeysAndCipher lib s3 = with_keys ms (key_block lib ms s3) s3"
    using DeriveKeys_Some [of s3 lib x] p x mo by (simp add: s3_def)
  have kb: "key_block lib ms s3 = TlsPrf_Compute lib ms ''key expansion'' (dc_serverRandom s @ dc_clientRandom s) 40"
    by (simp add: key_block_def s3_def)
  have k: "ck = take 16 (key_block lib ms s3)" "ci = take 4 (drop 32 (key_block lib ms s3))"
    "sk = take 16 (drop 16 (key_block lib ms s3))" "si = take 4 (drop 36 (key_block lib ms s3))"
    using keys unfolding srv_keys_def Let_def kb prod.inject by blast+
  define sf where "sf = (with_keys ms (key_block lib ms s3) s3)\<lparr>dc_state := DtlsState_SentFinished, dc_clientEpoch := 1,
          dc_clientRecordSeq := 1, dc_clientMessageSeq := 5,
          dc_handshakeTranscript := code_transcript T @ TlsLikeTranscriptBytes kHsFinished fin\<rparr>"
  define sk3 where "sk3 = with_keys ms (key_block lib ms s3) s3"
  have sk3: "dc_clientCipher sk3 = Some (ck, ci)" "dc_clientEpoch sk3 = 0" "dc_clientRecordSeq sk3 = 4"
    "dc_clientMessageSeq sk3 = 4" "dc_handshakeTranscript sk3 = code_transcript T" "dc_masterSecret sk3 = ms"
    "dc_state sk3 \<noteq> DtlsState_Failed"
    using seq by (simp_all add: sk3_def with_keys_def s3_def k)
  have w: "BuildClientFinishedFlight lib sk3 =
      Some (sk3\<lparr>dc_state := DtlsState_SentFinished, dc_clientEpoch := 1, dc_clientRecordSeq := 1, dc_clientMessageSeq := 5,
          dc_handshakeTranscript := code_transcript T @ TlsLikeTranscriptBytes kHsFinished fin\<rparr>,
        [WrapRecord kDtlsContentChangeCipherSpec kDtlsVersion12 0 4 [1],
         WrapRecord kDtlsContentHandshake kDtlsVersion12 1 0 ct])"
    using ct
    by (simp add: BuildClientFinishedFlight_def Let_def sk3 AppendToHandshakeHash_def BuildFinishedBody_def
        kVerifyDataLength_def WrapRecord_def verify_data_def [symmetric] fin [symmetric])
  have f: "sk3\<lparr>dc_state := DtlsState_SentFinished, dc_clientEpoch := 1, dc_clientRecordSeq := 1, dc_clientMessageSeq := 5,
          dc_handshakeTranscript := code_transcript T @ TlsLikeTranscriptBytes kHsFinished fin\<rparr> = sf"
    by (simp add: sf_def sk3_def)
  have h: "HandleServerHelloDone lib cc body s = Some (sf,
      [plain_record 1 (kHsCertificate, 1, BuildCertificateBody own),
       plain_record 2 (kHsClientKeyExchange, 2, ClientKeyExchange_Encode (dc_ourEcdhPublic s)),
       plain_record 3 (verify_message sig),
       WrapRecord kDtlsContentChangeCipherSpec kDtlsVersion12 0 4 [1],
       WrapRecord kDtlsContentHandshake kDtlsVersion12 1 0 ct])"
  proof -
    define a0 where "a0 = code_transcript M0 @ TlsLikeTranscriptBytes kHsServerHelloDone body"
    define a1 where "a1 = a0 @ TlsLikeTranscriptBytes kHsCertificate (BuildCertificateBody own)"
    define a2 where "a2 = code_transcript M"
    define s0 where "s0 = s\<lparr>dc_handshakeTranscript := a0, dc_state := DtlsState_GotServerHelloDone\<rparr>"
    define s1 where "s1 = s0\<lparr>dc_clientMessageSeq := 2, dc_clientRecordSeq := 2, dc_handshakeTranscript := a1\<rparr>"
    define s2 where "s2 = s1\<lparr>dc_clientMessageSeq := 3, dc_clientRecordSeq := 3, dc_handshakeTranscript := a2\<rparr>"
    have 0: "(AppendToHandshakeHash (TlsLikeTranscriptBytes kHsServerHelloDone body) s)\<lparr>dc_state := DtlsState_GotServerHelloDone\<rparr> = s0"
      by (simp add: AppendToHandshakeHash_def s0_def tr a0_def)
    have c: "dc_ourCert s0 = dc_ourCert s" by (simp add: s0_def)
    have 1: "SendHandshake kHsCertificate (BuildCertificateBody own) s0 =
        (s1, plain_record 1 (kHsCertificate, 1, BuildCertificateBody own))"
      using send_plain [of s0 1 1 kHsCertificate "BuildCertificateBody own" a1] seq by (simp add: s0_def s1_def a1_def)
    have 2: "SendHandshake kHsClientKeyExchange (BuildClientKeyExchangeBody s1) s1 =
        (s2, plain_record 2 (kHsClientKeyExchange, 2, ClientKeyExchange_Encode (dc_ourEcdhPublic s)))"
      using send_plain [of s1 2 2 kHsClientKeyExchange "BuildClientKeyExchangeBody s1" a2] seq
      by (simp add: s0_def s1_def s2_def a0_def a1_def a2_def trM BuildClientKeyExchangeBody_def)
    let ?s2 = "s2\<lparr>dc_state := DtlsState_SentClientKeyExchange\<rparr>"
    have cv: "BuildCertificateVerifyBody lib cc ?s2 (dc_handshakeTranscript ?s2) = Some cv"
      using sig by (simp add: BuildCertificateVerifyBody_def cv_def s2_def s1_def s0_def a2_def)
    have e: "?s2\<lparr>dc_clientMessageSeq := 4, dc_clientRecordSeq := 4, dc_handshakeTranscript := code_transcript T\<rparr> = s3"
      by (simp add: s3_def s2_def s1_def s0_def)
    have 3: "SendHandshake kHsCertificateVerify cv ?s2 = (s3, plain_record 3 (verify_message sig))"
      using send_plain [of ?s2 3 3 kHsCertificateVerify cv "code_transcript T"] seq e
      by (simp add: s2_def s1_def s0_def a2_def trT verify_message_def cv_def)
    have 4: "DeriveKeysAndCipher lib s3 = sk3" unfolding sk3_def by (rule d)
    show ?thesis
      unfolding HandleServerHelloDone_def Let_def 0 c own bind.bind_lunit 1 prod.case 2 cv 3 4 w f
      using sk3(7) by simp
  qed
  have "code_transcript (T @ [(kHsFinished, 4, fin)]) = code_transcript T @ TlsLikeTranscriptBytes kHsFinished fin"
    by (simp add: code_transcript_append code_transcript_one)
  then show ?thesis
    by (intro exI [of _ sf] exI [of _ ct] conjI h ct) (simp_all add: sf_def with_keys_def s3_def k)
qed


section \<open>The flights\<close>

text \<open>The setting of both properties: what the server sends, what the platform answers, and the transcripts.\<close>

definition messages_until_kex ::
    "DtlsClient \<Rightarrow> bytes \<Rightarrow> bytes \<Rightarrow> bytes \<Rightarrow> bytes \<Rightarrow> bytes \<Rightarrow> bytes \<Rightarrow> hs_message list" where
  "messages_until_kex s hello leaf kex req own pub =
     (kHsClientHello, 0, BuildClientHelloBody False s) #
     server_messages hello (BuildCertificateBody leaf) kex req @ client_messages own pub"

lemma length_wrapped: "length (WrapHandshakeUnfragmented t n b) = 12 + length b"
  by (simp add: WrapHandshakeUnfragmented_def)

lemma HandleCertificateRequest_ok:
  "HandleHandshakeMessage lib cc kHsCertificateRequest body s =
     Some (AppendToHandshakeHash (TlsLikeTranscriptBytes kHsCertificateRequest body) s, [])"
  by (simp add: HandleHandshakeMessage_def kHs_defs)

lemma request_flight_ok:
  assumes g: "gcm_ok lib"
    and s: "s = fst (Initiate rnd priv pub (DtlsClientSession_new kp fp))"
    and h: "hello_acceptable hello sh" and p: "point_acceptable kex point"
    and x: "dl_Ecdh lib (fill 32 priv) point = Some x"
    and leaf: "length leaf < 10000" "leaf \<noteq> []" "fp = hex_colons (dtls_sha256 lib leaf)" and req: "length req < 10000"
    and own: "ToX509SelfSignedDer (env 1) kp = Some own"
    and M: "M = messages_until_kex s hello leaf kex req own (fill 65 pub)"
    and sig: "SignSha256 (env 1) kp (dtls_sha256 lib (code_transcript M)) = Some sig"
    and T: "T = M @ [verify_message sig]"
    and ms: "ms = srv_master lib (fill 32 x) (sh_extendedMasterSecret sh) (code_transcript T) (fill 32 rnd) (sh_random sh)"
    and keys: "srv_keys lib ms (fill 32 rnd) (sh_random sh) = ((ck, ci), (sk, si))"
    and fin: "fin = verify_data lib ms ''client finished'' (code_transcript T)"
  shows "\<exists>s1 ct. ProcessDatagram lib env (request_flight (server_messages hello (BuildCertificateBody leaf) kex req)) s =
      Some (True, s1,
        [plain_record 1 (kHsCertificate, 1, BuildCertificateBody own),
         plain_record 2 (kHsClientKeyExchange, 2, ClientKeyExchange_Encode (fill 65 pub)),
         plain_record 3 (verify_message sig),
         WrapRecord kDtlsContentChangeCipherSpec kDtlsVersion12 0 4 [1],
         WrapRecord kDtlsContentHandshake kDtlsVersion12 1 0 ct])
    \<and> dl_Encrypt lib ck ci (WrapHandshakeUnfragmented kHsFinished 4 fin) (aad_seq 1 0)
        kDtlsContentHandshake kDtlsVersion12 = Some ct
    \<and> dc_state s1 = DtlsState_SentFinished \<and> dc_masterSecret s1 = ms \<and> dc_serverCipher s1 = Some (sk, si)
    \<and> dc_handshakeTranscript s1 = code_transcript (T @ [(kHsFinished, 4, fin)])
    \<and> dc_clientRandom s1 = fill 32 rnd \<and> dc_serverRandom s1 = sh_random sh \<and> dc_serverCertDer s1 = leaf"
proof -
  define ch where "ch = BuildClientHelloBody False s"
  have i: "dc_state s = DtlsState_SentClientHello" "dc_ourEcdhPrivate s = fill 32 priv" "dc_ourEcdhPublic s = fill 65 pub"
    "dc_clientRandom s = fill 32 rnd" "dc_ourCert s = kp" "dc_clientMessageSeq s = 1" "dc_clientRecordSeq s = 1"
    "dc_clientEpoch s = 0" "dc_expectedPeerFingerprint s = dtls_sha256 lib leaf"
    "dc_handshakeTranscript s = TlsLikeTranscriptBytes kHsClientHello ch"
    by (simp_all add: ch_def s Initiate_def SendHandshake_def AppendToHandshakeHash_def DtlsClientSession_new_def Let_def
        BuildClientHelloBody_def leaf(3) fingerprint_roundtrip)
  let ?c = "BuildCertificateBody leaf"
  define a where "a = (AppendToHandshakeHash (TlsLikeTranscriptBytes kHsServerHello hello)
       (s\<lparr>dc_serverRandom := sh_random sh, dc_extendedMasterSecret := sh_extendedMasterSecret sh\<rparr>))
       \<lparr>dc_state := DtlsState_GotServerHello\<rparr>"
  define b where "b = (AppendToHandshakeHash (TlsLikeTranscriptBytes kHsCertificate ?c) (a\<lparr>dc_serverCertDer := leaf\<rparr>))
       \<lparr>dc_state := DtlsState_GotServerCertificate\<rparr>"
  define d where "d = (AppendToHandshakeHash (TlsLikeTranscriptBytes kHsServerKeyExchange kex) (b\<lparr>dc_serverPublicPoint := point\<rparr>))
       \<lparr>dc_state := DtlsState_GotServerKeyExchange\<rparr>"
  define e where "e = AppendToHandshakeHash (TlsLikeTranscriptBytes kHsCertificateRequest req) d"
  define M0 where "M0 = (kHsClientHello, 0 :: u16, ch) #
      [(kHsServerHello, 0, hello), (kHsCertificate, 1, ?c), (kHsServerKeyExchange, 2, kex), (kHsCertificateRequest, 3, req)]"
  have ef: "length (dc_serverPublicPoint e) = 65" "dc_serverPublicPoint e = point" "dc_ourEcdhPrivate e = fill 32 priv"
    "dc_ourEcdhPublic e = fill 65 pub" "dc_clientMessageSeq e = 1" "dc_clientRecordSeq e = 1" "dc_clientEpoch e = 0"
    "dc_handshakeTranscript e = code_transcript M0" "dc_ourCert e = kp" "dc_clientRandom e = fill 32 rnd"
    "dc_serverRandom e = sh_random sh" "dc_extendedMasterSecret e = sh_extendedMasterSecret sh" "dc_serverCertDer e = leaf"
    using p by (simp_all add: e_def d_def b_def a_def AppendToHandshakeHash_def i point_acceptable_def M0_def
        code_transcript_def TlsLikeTranscriptBytes_def)
  have M': "M = M0 @ [(kHsServerHelloDone, 4, [])] @ client_messages own (dc_ourEcdhPublic e)"
    by (simp add: M messages_until_kex_def server_messages_def M0_def ch_def ef)
  have e': "length (dc_ourEcdhPrivate e) = 32" "dl_Ecdh lib (dc_ourEcdhPrivate e) (dc_serverPublicPoint e) = Some x"
    "ToX509SelfSignedDer (env 1) (dc_ourCert e) = Some own"
    "SignSha256 (env 1) (dc_ourCert e) (dtls_sha256 lib (code_transcript M)) = Some sig"
    "ms = srv_master lib (fill 32 x) (dc_extendedMasterSecret e) (code_transcript T) (dc_clientRandom e) (dc_serverRandom e)"
    "srv_keys lib ms (dc_clientRandom e) (dc_serverRandom e) = ((ck, ci), (sk, si))"
    using x own sig ms keys by (simp_all add: ef)
  obtain s1 ct where r: "HandleServerHelloDone lib (env 1) [] e = Some (s1,
        [plain_record 1 (kHsCertificate, 1, BuildCertificateBody own),
         plain_record 2 (kHsClientKeyExchange, 2, ClientKeyExchange_Encode (fill 65 pub)),
         plain_record 3 (verify_message sig),
         WrapRecord kDtlsContentChangeCipherSpec kDtlsVersion12 0 4 [1],
         WrapRecord kDtlsContentHandshake kDtlsVersion12 1 0 ct])"
    and f: "dl_Encrypt lib ck ci (WrapHandshakeUnfragmented kHsFinished 4 fin) (aad_seq 1 0)
        kDtlsContentHandshake kDtlsVersion12 = Some ct"
      "dc_state s1 = DtlsState_SentFinished" "dc_masterSecret s1 = ms" "dc_serverCipher s1 = Some (sk, si)"
      "dc_handshakeTranscript s1 = code_transcript (T @ [(kHsFinished, 4, fin)])"
      "dc_clientRandom s1 = fill 32 rnd" "dc_serverRandom s1 = sh_random sh" "dc_serverCertDer s1 = leaf"
    using hello_done_flight [OF g ef(1) e'(1,2) ef(5-8) e'(3) M' e'(4) T e'(5,6) fin] unfolding ef by blast
  have len: "length hello < 20000" "length kex < 20000" "length ?c < 10006"
    using h p leaf by (simp_all add: hello_acceptable_def point_acceptable_def BuildCertificateBody_def)
  have m0: "ProcessMessages lib env (WrapHandshakeUnfragmented kHsServerHelloDone 4 []) e = Some (True, s1,
        [plain_record 1 (kHsCertificate, 1, BuildCertificateBody own),
         plain_record 2 (kHsClientKeyExchange, 2, ClientKeyExchange_Encode (fill 65 pub)),
         plain_record 3 (verify_message sig),
         WrapRecord kDtlsContentChangeCipherSpec kDtlsVersion12 0 4 [1],
         WrapRecord kDtlsContentHandshake kDtlsVersion12 1 0 ct])" (is "_ = Some (True, s1, ?out)")
    using r f(2) by (intro ProcessMessages_last) (simp_all add: HandleHandshakeMessage_def kHs_defs ef)
  have m1: "ProcessMessages lib env (WrapHandshakeUnfragmented kHsCertificateRequest 3 req @
      WrapHandshakeUnfragmented kHsServerHelloDone 4 []) d = Some (True, s1, [] @ ?out)"
    by (rule ProcessMessages_message [OF _ _ _ m0])
      (use req in \<open>simp_all add: HandleCertificateRequest_ok e_def d_def AppendToHandshakeHash_def\<close>)
  have m2: "ProcessMessages lib env (WrapHandshakeUnfragmented kHsServerKeyExchange 2 kex @
      WrapHandshakeUnfragmented kHsCertificateRequest 3 req @ WrapHandshakeUnfragmented kHsServerHelloDone 4 []) b
      = Some (True, s1, [] @ [] @ ?out)"
    by (rule ProcessMessages_message [OF _ _ _ m1])
      (use len HandleServerKeyExchange_ok [OF p] in \<open>simp_all add: d_def\<close>)
  have cert: "HandleHandshakeMessage lib cc kHsCertificate ?c a = Some (b, [])" for cc
    using Certificate_Decode_body [of "[leaf]"] leaf(1,2)
      HandleCertificate_ok [of ?c leaf "[]" lib a cc]
    by (simp add: BuildCertificateBody_single b_def a_def AppendToHandshakeHash_def i)
  have m3: "ProcessMessages lib env (WrapHandshakeUnfragmented kHsCertificate 1 ?c @
      WrapHandshakeUnfragmented kHsServerKeyExchange 2 kex @
      WrapHandshakeUnfragmented kHsCertificateRequest 3 req @ WrapHandshakeUnfragmented kHsServerHelloDone 4 []) a
      = Some (True, s1, [] @ [] @ [] @ ?out)"
    by (rule ProcessMessages_message [OF _ cert _ m2]) (use len in \<open>simp_all add: b_def\<close>)
  have m4: "ProcessMessages lib env (WrapHandshakeUnfragmented kHsServerHello 0 hello @
      WrapHandshakeUnfragmented kHsCertificate 1 ?c @ WrapHandshakeUnfragmented kHsServerKeyExchange 2 kex @
      WrapHandshakeUnfragmented kHsCertificateRequest 3 req @ WrapHandshakeUnfragmented kHsServerHelloDone 4 []) s
      = Some (True, s1, [] @ [] @ [] @ [] @ ?out)"
    by (rule ProcessMessages_message [OF _ _ _ m3])
      (use len HandleServerHello_ok [OF h] in \<open>simp_all add: a_def\<close>)
  have "ProcessDatagram lib env (request_flight (server_messages hello ?c kex req)) s = Some (True, s1, ?out)"
    unfolding request_flight_def using m4 len req i(1)
    by (intro ProcessDatagram_plain) (simp_all add: rfc_transcript_def server_messages_def length_wrapped)
  with f show ?thesis by blast
qed


text \<open>The reply of a server: its ChangeCipherSpec, and then the protected record decides.\<close>

lemma reply_last:
  assumes st: "dc_state s \<noteq> DtlsState_Failed" and l: "length ct < 60000"
    and r: "ProcessRecord lib env \<lparr>dtls_type = kDtlsContentHandshake, dtls_version = kDtlsVersion12, dtls_epoch = 1,
      dtls_sequenceNumber = 0, dtls_payload = ct\<rparr> (HandleChangeCipherSpec s) = Some (ok, s', out)"
  shows "ProcessDatagram lib env (finished_reply ct) s = Some (ok, s', out)"
proof -
  let ?r1 = "\<lparr>dtls_type = kDtlsContentChangeCipherSpec, dtls_version = kDtlsVersion12, dtls_epoch = 0,
      dtls_sequenceNumber = 1, dtls_payload = [1]\<rparr>"
  let ?r2 = "\<lparr>dtls_type = kDtlsContentHandshake, dtls_version = kDtlsVersion12, dtls_epoch = 1,
      dtls_sequenceNumber = 0, dtls_payload = ct\<rparr>"
  have e: "dtls_encodable ?r1" "dtls_encodable ?r2" using l by simp_all
  have d: "dtls_Decode (dtls_Encode ?r2) = Some (Some (?r2, length (dtls_Encode ?r2)))"
    using dtls_Decode_Encode [OF e(2), of "[]"] by simp
  have ne: "dtls_Encode ?r2 \<noteq> []" by (simp add: dtls_Encode_def)
  have "ProcessRecords lib env (dtls_Encode ?r2) (HandleChangeCipherSpec s) = Some (ok, s', out)"
    by (subst ProcessRecords.simps) (cases ok; simp add: ne d r ProcessRecords_end)
  moreover have "ProcessRecord lib env ?r1 s = Some (True, HandleChangeCipherSpec s, [])"
    by (simp add: ProcessRecord_def)
  ultimately have "ProcessRecords lib env (dtls_Encode ?r1 @ dtls_Encode ?r2) s = Some (ok, s', [] @ out)"
    using ProcessRecords_record [OF e(1)] by blast
  then show ?thesis using st by (simp add: ProcessDatagram_def finished_reply_def WrapRecord_def)
qed

lemma ProcessMessages_single:
  assumes "length body < 2 ^ 24"
    and "HandleHandshakeMessage lib (env (unat (dc_clientMessageSeq s))) t body s = Some (s', out)"
  shows "ProcessMessages lib env (WrapHandshakeUnfragmented t n body) s = Some (dc_state s' \<noteq> DtlsState_Failed, s', out)"
proof -
  define ms where "ms = WrapHandshakeUnfragmented t n body"
  obtain h where h: "HandshakeHeader_Decode ms = Some (Some h)" "hh_msgType h = t" "hh_fragmentOffset h = 0"
      "hh_fragmentLength h = hh_length h" "unat (hh_length h) = length body"
    using u24_length [OF assms(1)] HandshakeHeader_roundtrip
    by (simp add: ms_def WrapHandshakeUnfragmented_def)
  have b: "take (length body) (drop 12 ms) = body" "drop (12 + length body) ms = []" "length ms = 12 + length body"
    by (simp_all add: ms_def WrapHandshakeUnfragmented_def)
  show ?thesis
    unfolding ms_def [symmetric]
    by (subst ProcessMessages.simps) (simp add: kHandshakeHeaderSize_def b h assms(2) ProcessMessages_end)
qed

lemma reply_keyed:
  assumes st: "dc_state s \<noteq> DtlsState_Failed" and l: "length ct < 60000" "ct \<noteq> []"
    and k: "dc_serverCipher s = Some (sk, si)" and fd: "length fd = 12"
    and dec: "dl_Decrypt lib sk si ct (aad_seq 1 0) kDtlsContentHandshake kDtlsVersion12 =
      Some (WrapHandshakeUnfragmented kHsFinished n fd)"
    and s': "s' = (if fd = verify_data lib (dc_masterSecret s) ''server finished'' (dc_handshakeTranscript s)
     then s\<lparr>dc_state := DtlsState_Established,
       dc_handshakeTranscript := dc_handshakeTranscript s @ TlsLikeTranscriptBytes kHsFinished fd\<rparr>
     else dtls_Fail ''bad server Finished verify_data'' s)"
  shows "ProcessDatagram lib env (finished_reply ct) s = Some (dc_state s' \<noteq> DtlsState_Failed, s', [])"
proof (rule reply_last [OF st l(1)])
  let ?s = "HandleChangeCipherSpec s"
  have h: "HandleHandshakeMessage lib cc kHsFinished fd ?s = Some (s', [])" for cc
    using fd by (simp add: HandleHandshakeMessage_def kHs_defs HandleFinished_def Let_def kVerifyDataLength_def
        HandleChangeCipherSpec_def BuildFinishedBody_def verify_data_def AppendToHandshakeHash_def dtls_Fail_def s')
  have "ProcessMessages lib env (WrapHandshakeUnfragmented kHsFinished n fd) ?s =
      Some (dc_state s' \<noteq> DtlsState_Failed, s', [])"
    by (rule ProcessMessages_single) (use fd h in simp_all)
  then show "ProcessRecord lib env \<lparr>dtls_type = kDtlsContentHandshake, dtls_version = kDtlsVersion12, dtls_epoch = 1,
      dtls_sequenceNumber = 0, dtls_payload = ct\<rparr> ?s = Some (dc_state s' \<noteq> DtlsState_Failed, s', [])"
    using l(2) k dec by (simp add: ProcessRecord_def kDtlsContentHandshake_def kDtlsContentChangeCipherSpec_def
        kDtlsContentAlert_def HandleChangeCipherSpec_def)
qed

lemma reply_unkeyed:
  assumes st: "dc_state s \<noteq> DtlsState_Failed" and l: "length ct < 60000" "ct \<noteq> []"
    and k: "dc_serverCipher s = Some (sk, si)"
    and dec: "dl_Decrypt lib sk si ct (aad_seq 1 0) kDtlsContentHandshake kDtlsVersion12 = None"
  shows "ProcessDatagram lib env (finished_reply ct) s =
    Some (False, dtls_Fail ''AEAD auth failed on encrypted handshake'' s, [])"
proof (rule reply_last [OF st l(1)])
  show "ProcessRecord lib env \<lparr>dtls_type = kDtlsContentHandshake, dtls_version = kDtlsVersion12, dtls_epoch = 1,
      dtls_sequenceNumber = 0, dtls_payload = ct\<rparr> (HandleChangeCipherSpec s) =
    Some (False, dtls_Fail ''AEAD auth failed on encrypted handshake'' s, [])"
    using l(2) k dec by (simp add: ProcessRecord_def kDtlsContentHandshake_def kDtlsContentChangeCipherSpec_def
        kDtlsContentAlert_def HandleChangeCipherSpec_def dtls_Fail_def)
qed

section \<open>What tells the transcripts apart\<close>

lemma client_hello_head: "\<exists>r. BuildClientHelloBody w s = 0xFE # r"
  by (simp add: BuildClientHelloBody_def ClientHello_Encode_def be16_def kDtlsVersion12_def byte_at_def)

text \<open>The fifth byte is the first of the hello's body for the client, and the message number for the standard.\<close>

lemma fifth_byte:
  "code_transcript ((kHsClientHello, 0, BuildClientHelloBody w s) # ms) ! 4 = 0xFE"
  "rfc_transcript ((kHsClientHello, 0, BuildClientHelloBody w s) # ms) ! 4 = 0"
proof -
  obtain r where c: "BuildClientHelloBody w s = 0xFE # r" using client_hello_head by blast
  show "code_transcript ((kHsClientHello, 0, BuildClientHelloBody w s) # ms) ! 4 = 0xFE"
    by (simp add: code_transcript_def be24_def c)
  show "rfc_transcript ((kHsClientHello, 0, BuildClientHelloBody w s) # ms) ! 4 = 0"
    by (simp add: rfc_transcript_def WrapHandshakeUnfragmented_def HandshakeHeader_Encode_def be24_def be16_def byte_at_def c)
qed

lemma transcripts_differ:
  "code_transcript ((kHsClientHello, 0, BuildClientHelloBody w s) # as) \<noteq>
     rfc_transcript ((kHsClientHello, 0, BuildClientHelloBody w s) # bs)"
proof
  assume "code_transcript ((kHsClientHello, 0, BuildClientHelloBody w s) # as) =
     rfc_transcript ((kHsClientHello, 0, BuildClientHelloBody w s) # bs)"
  then have "(0xFE :: u8) = 0" using fifth_byte by metis
  then show False by simp
qed

lemma gcm_opens:
  assumes "gcm_ok lib" and "dl_Encrypt lib key iv m n t v = Some c"
  shows "dl_Decrypt lib key iv c n t v = Some m \<and> length c = length m + 24"
  using assms unfolding gcm_ok_def by (metis option.inject)


section \<open>Properties\<close>

text \<open>
  Claim C10: against a server that keeps the transcript and derives the keys by this client's own rules, computed
  from its own result of the key exchange, its own list of the messages and nothing of the client's state, the handshake
  completes. The flight with certificate, key exchange, certificate request and done is answered by exactly five datagrams
  (certificate, key exchange, certificate verify, change of cipher spec, Finished); the server's key opens the last to the
  Finished it expects; the server's own Finished makes the client established with the certificate whose fingerprint was
  agreed on; and every export is the PRF of the server's master secret. The rules are not those of the standards: see the
  next property.
\<close>

theorem dtls_handshake_agreement:
  assumes g: "gcm_ok lib"
    and s: "s = fst (Initiate rnd priv pub (DtlsClientSession_new kp fp))"
    and h: "hello_acceptable hello sh" and p: "point_acceptable kex point"
    and client: "dl_Ecdh lib (fill 32 priv) point = Some x"
    and server: "dl_Ecdh lib serverPriv (fill 65 pub) = Some y" and dh: "fill 32 y = fill 32 x"
    and leaf: "length leaf < 10000" "leaf \<noteq> []" "fp = hex_colons (dtls_sha256 lib leaf)" and req: "length req < 10000"
    and own: "ToX509SelfSignedDer (env 1) kp = Some own"
    and M: "M = messages_until_kex s hello leaf kex req own (fill 65 pub)"
    and sig: "SignSha256 (env 1) kp (dtls_sha256 lib (code_transcript M)) = Some sig"
    and T: "T = M @ [verify_message sig]"
    and ms: "ms = srv_master lib (fill 32 y) (sh_extendedMasterSecret sh) (code_transcript T) (fill 32 rnd) (sh_random sh)"
    and keys: "srv_keys lib ms (fill 32 rnd) (sh_random sh) = ((ck, ci), (sk, si))"
    and fin: "fin = verify_data lib ms ''client finished'' (code_transcript T)"
    and ans: "ans = verify_data lib ms ''server finished'' (code_transcript (T @ [(kHsFinished, 4, fin)]))"
    and reply: "dl_Encrypt lib sk si (WrapHandshakeUnfragmented kHsFinished 5 ans) (aad_seq 1 0)
      kDtlsContentHandshake kDtlsVersion12 = Some reply"
  shows "\<exists>s1 ct s2. ProcessDatagram lib env (request_flight (server_messages hello (BuildCertificateBody leaf) kex req)) s =
      Some (True, s1,
        [plain_record 1 (kHsCertificate, 1, BuildCertificateBody own),
         plain_record 2 (kHsClientKeyExchange, 2, ClientKeyExchange_Encode (fill 65 pub)),
         plain_record 3 (verify_message sig),
         WrapRecord kDtlsContentChangeCipherSpec kDtlsVersion12 0 4 [1],
         WrapRecord kDtlsContentHandshake kDtlsVersion12 1 0 ct])
    \<and> dl_Decrypt lib ck ci ct (aad_seq 1 0) kDtlsContentHandshake kDtlsVersion12 =
        Some (WrapHandshakeUnfragmented kHsFinished 4 fin)
    \<and> ProcessDatagram lib env' (finished_reply reply) s1 = Some (True, s2, [])
    \<and> dc_state s2 = DtlsState_Established \<and> dc_serverCertDer s2 = leaf
    \<and> (\<forall>label len. ExportKeyingMaterial lib label len s2 =
         TlsPrf_Compute lib ms label (fill 32 rnd @ sh_random sh) len)"
proof -
  have ms': "ms = srv_master lib (fill 32 x) (sh_extendedMasterSecret sh) (code_transcript T) (fill 32 rnd) (sh_random sh)"
    using ms dh by simp
  obtain s1 ct where f: "ProcessDatagram lib env (request_flight (server_messages hello (BuildCertificateBody leaf) kex req)) s =
      Some (True, s1,
        [plain_record 1 (kHsCertificate, 1, BuildCertificateBody own),
         plain_record 2 (kHsClientKeyExchange, 2, ClientKeyExchange_Encode (fill 65 pub)),
         plain_record 3 (verify_message sig),
         WrapRecord kDtlsContentChangeCipherSpec kDtlsVersion12 0 4 [1],
         WrapRecord kDtlsContentHandshake kDtlsVersion12 1 0 ct])"
    and e: "dl_Encrypt lib ck ci (WrapHandshakeUnfragmented kHsFinished 4 fin) (aad_seq 1 0)
        kDtlsContentHandshake kDtlsVersion12 = Some ct"
    and s1: "dc_state s1 = DtlsState_SentFinished" "dc_masterSecret s1 = ms" "dc_serverCipher s1 = Some (sk, si)"
      "dc_handshakeTranscript s1 = code_transcript (T @ [(kHsFinished, 4, fin)])"
      "dc_clientRandom s1 = fill 32 rnd" "dc_serverRandom s1 = sh_random sh" "dc_serverCertDer s1 = leaf"
    using request_flight_ok [where env = env, OF g s h p client leaf req own M sig T ms' keys fin] by blast
  have d: "dl_Decrypt lib ck ci ct (aad_seq 1 0) kDtlsContentHandshake kDtlsVersion12 =
      Some (WrapHandshakeUnfragmented kHsFinished 4 fin)" by (rule gcm_opens [OF g e, THEN conjunct1])
  have la: "length ans = 12" by (simp add: ans verify_data_def)
  note r = gcm_opens [OF g reply]
  define s2 where "s2 = s1\<lparr>dc_state := DtlsState_Established,
    dc_handshakeTranscript := dc_handshakeTranscript s1 @ TlsLikeTranscriptBytes kHsFinished ans\<rparr>"
  have "ProcessDatagram lib env' (finished_reply reply) s1 = Some (dc_state s2 \<noteq> DtlsState_Failed, s2, [])"
    by (rule reply_keyed [OF _ _ _ s1(3) la, of reply lib 5])
      (use s1 r la in \<open>auto simp: length_wrapped s2_def ans\<close>)
  moreover have "ExportKeyingMaterial lib label len s2 = TlsPrf_Compute lib ms label (fill 32 rnd @ sh_random sh) len"
    for label len using s1 by (simp add: ExportKeyingMaterial_def s2_def ms srv_master_def)
  moreover have "dc_state s2 = DtlsState_Established" "dc_serverCertDer s2 = leaf" by (simp_all add: s2_def s1)
  ultimately show ?thesis using f d by auto
qed

text \<open>
  Claim C29: a server that follows the standards is refused. Its transcript consists of the messages as they
  travel, with all twelve bytes of the DTLS headers (RFC 6347 4.2.6), where the client hashes four bytes of each; and when
  the extended master secret was negotiated, its session hash ends with ClientKeyExchange (RFC 7627), where the client's
  includes CertificateVerify. The transcripts always differ, so unless the hash, the PRF and the cipher confuse them the
  Finished of such a server, whatever client Finished \<open>f\<close> it took in before, fails the session: its record
  does not authenticate under the client's keys (extended master secret), or its verify data are not the expected ones.
\<close>

theorem dtls_standard_server_refused:
  assumes g: "gcm_ok lib"
    and s: "s = fst (Initiate rnd priv pub (DtlsClientSession_new kp fp))"
    and h: "hello_acceptable hello sh" and p: "point_acceptable kex point"
    and client: "dl_Ecdh lib (fill 32 priv) point = Some x"
    and server: "dl_Ecdh lib serverPriv (fill 65 pub) = Some y" and dh: "fill 32 y = fill 32 x"
    and leaf: "length leaf < 10000" "leaf \<noteq> []" "fp = hex_colons (dtls_sha256 lib leaf)" and req: "length req < 10000"
    and own: "ToX509SelfSignedDer (env 1) kp = Some own"
    and M: "M = messages_until_kex s hello leaf kex req own (fill 65 pub)"
    and sig: "SignSha256 (env 1) kp (dtls_sha256 lib (code_transcript M)) = Some sig"
    and T: "T = M @ [verify_message sig]"
    and ms: "ms = srv_master lib (fill 32 x) (sh_extendedMasterSecret sh) (code_transcript T) (fill 32 rnd) (sh_random sh)"
    and keys: "srv_keys lib ms (fill 32 rnd) (sh_random sh) = ((ck, ci), (sk, si))"
    and fin: "fin = verify_data lib ms ''client finished'' (code_transcript T)"
    and ms': "ms' = srv_master lib (fill 32 y) (sh_extendedMasterSecret sh) (rfc_transcript M) (fill 32 rnd) (sh_random sh)"
    and keys': "srv_keys lib ms' (fill 32 rnd) (sh_random sh) = ((ck', ci'), (sk', si'))"
    and ans: "ans = verify_data lib ms' ''server finished'' (rfc_transcript (T @ [(kHsFinished, 4, f)]))"
    and reply: "dl_Encrypt lib sk' si' (WrapHandshakeUnfragmented kHsFinished 5 ans) (aad_seq 1 0)
      kDtlsContentHandshake kDtlsVersion12 = Some reply"
    and hashes: "\<And>a b. (a, b) \<in> {(code_transcript T, rfc_transcript M),
        (code_transcript (T @ [(kHsFinished, 4, fin)]), rfc_transcript (T @ [(kHsFinished, 4, f)]))} \<Longrightarrow>
      a \<noteq> b \<Longrightarrow> dtls_sha256 lib a \<noteq> dtls_sha256 lib b"
    and prf_keys: "dtls_sha256 lib (code_transcript T) \<noteq> dtls_sha256 lib (rfc_transcript M) \<Longrightarrow>
      sh_extendedMasterSecret sh \<Longrightarrow> sk \<noteq> sk'"
    and aead: "sk \<noteq> sk' \<Longrightarrow> dl_Decrypt lib sk si reply (aad_seq 1 0) kDtlsContentHandshake kDtlsVersion12 = None"
    and prf_finished: "dtls_sha256 lib (code_transcript (T @ [(kHsFinished, 4, fin)])) \<noteq>
        dtls_sha256 lib (rfc_transcript (T @ [(kHsFinished, 4, f)])) \<Longrightarrow>
      verify_data lib ms ''server finished'' (code_transcript (T @ [(kHsFinished, 4, fin)])) \<noteq>
      verify_data lib ms ''server finished'' (rfc_transcript (T @ [(kHsFinished, 4, f)]))"
  shows "\<exists>s1 out s2. ProcessDatagram lib env (request_flight (server_messages hello (BuildCertificateBody leaf) kex req)) s =
      Some (True, s1, out) \<and> length out = 5 \<and> dc_state s1 = DtlsState_SentFinished
    \<and> ProcessDatagram lib env' (finished_reply reply) s1 = Some (False, s2, [])
    \<and> dc_state s2 = DtlsState_Failed
    \<and> dc_failureReason s2 = (if sh_extendedMasterSecret sh then ''AEAD auth failed on encrypted handshake''
        else ''bad server Finished verify_data'')"
proof -
  obtain s1 out where f1: "ProcessDatagram lib env (request_flight (server_messages hello (BuildCertificateBody leaf) kex req)) s =
      Some (True, s1, out)" "length out = 5"
    and s1: "dc_state s1 = DtlsState_SentFinished" "dc_masterSecret s1 = ms" "dc_serverCipher s1 = Some (sk, si)"
      "dc_handshakeTranscript s1 = code_transcript (T @ [(kHsFinished, 4, fin)])"
    using request_flight_ok [where env = env, OF g s h p client leaf req own M sig T ms keys fin] by force
  have T': "\<exists>ms. T @ xs = (kHsClientHello, 0, BuildClientHelloBody False s) # ms" for xs
    by (simp add: T M messages_until_kex_def)
  have d: "code_transcript T \<noteq> rfc_transcript M"
    "code_transcript (T @ [(kHsFinished, 4, fin)]) \<noteq> rfc_transcript (T @ [(kHsFinished, 4, f)])"
    using transcripts_differ T' [of "[]"] T' [of "[(kHsFinished, 4, fin)]"] T' [of "[(kHsFinished, 4, f)]"]
    by (auto simp: M messages_until_kex_def)
  note sha = hashes [OF _ d(1)] hashes [OF _ d(2)]
  note r = gcm_opens [OF g reply]
  have la: "length ans = 12" by (simp add: ans verify_data_def)
  have l: "length reply < 60000" "reply \<noteq> []" using r la by (auto simp: length_wrapped)
  have nf: "dc_state s1 \<noteq> DtlsState_Failed" using s1(1) by simp
  show ?thesis
  proof (cases "sh_extendedMasterSecret sh")
    case True
    then have "dl_Decrypt lib sk si reply (aad_seq 1 0) kDtlsContentHandshake kDtlsVersion12 = None"
      using prf_keys aead sha(1) by simp
    from reply_unkeyed [OF nf l s1(3) this, of env'] f1 s1(1) True show ?thesis by (simp add: dtls_Fail_def)
  next
    case False
    then have m: "ms' = ms" using ms ms' dh by (simp add: srv_master_def)
    then have k: "sk' = sk" "si' = si" using keys keys' by simp_all
    have n: "ans \<noteq> verify_data lib (dc_masterSecret s1) ''server finished'' (dc_handshakeTranscript s1)"
      using prf_finished sha(2) by (simp add: ans m s1(2,4))
    define s2 where "s2 = dtls_Fail ''bad server Finished verify_data'' s1"
    have "ProcessDatagram lib env' (finished_reply reply) s1 = Some (dc_state s2 \<noteq> DtlsState_Failed, s2, [])"
      by (rule reply_keyed [OF nf l s1(3) la, of lib 5]) (use r n in \<open>simp_all add: k s2_def\<close>)
    then show ?thesis using f1 s1(1) False by (simp add: s2_def dtls_Fail_def)
  qed
qed


section \<open>Instances\<close>

text \<open>
  A library for the examples: the hash keeps the fifth byte, the PRF adds the first bytes of secret and seed, and the
  cipher writes the first byte of the key into its tag and checks it.
\<close>

definition interop_lib :: DtlsLib where
  "interop_lib =
     \<lparr>dl_Sha256 = (\<lambda>m i. m ! 4), dl_Prf = (\<lambda>s l d n i. s ! 0 + d ! 0), dl_Ecdh = (\<lambda>a b. Some (\<lambda>i. 0)),
      dl_Encrypt = (\<lambda>k iv m n t v. Some (replicate 8 0 @ m @ replicate 16 (k ! 0))),
      dl_Decrypt = (\<lambda>k iv c n t v. if last c = k ! 0 then Some (take (length c - 24) (drop 8 c)) else None)\<rparr>"

lemma interop_lib_ok: "gcm_ok interop_lib"
  by (simp add: gcm_ok_def interop_lib_def)

lemma interop_sha: "dtls_sha256 interop_lib m = replicate 32 (m ! 4)"
  by (simp add: dtls_sha256_def interop_lib_def fill_def map_replicate_const)

lemma interop_prf: "0 < n \<Longrightarrow> TlsPrf_Compute interop_lib s l d n = replicate n (s ! 0 + d ! 0)"
  by (simp add: TlsPrf_Compute_def interop_lib_def fill_def map_replicate_const)

definition sample_env :: CertEnv where
  "sample_env = (\<lambda>n. sample_call [1, 2, 3, 4, 5, 6, 7, 8] 0)"

definition sample_leaf :: bytes where
  "sample_leaf = [1, 2, 3, 4, 5]"

definition sample_session :: DtlsClient where
  "sample_session = fst (Initiate (\<lambda>i. 1) (\<lambda>i. 2) (\<lambda>i. 3)
     (DtlsClientSession_new \<lparr>m_Key = Some 7\<rparr> (hex_colons (dtls_sha256 interop_lib sample_leaf))))"

lemma sample_setting:
  obtains sh own M sig where "hello_acceptable sample_hello sh" "ToX509SelfSignedDer (sample_env 1) \<lparr>m_Key = Some 7\<rparr> = Some own"
    "M = messages_until_kex sample_session sample_hello sample_leaf sample_kex [] own (fill 65 (\<lambda>i. 3))"
    "SignSha256 (sample_env 1) \<lparr>m_Key = Some 7\<rparr> (dtls_sha256 interop_lib (code_transcript M)) = Some sig"
proof -
  obtain sh where "hello_acceptable sample_hello sh" using sample_hello_ok by blast
  moreover obtain own where "ToX509SelfSignedDer (sample_env 1) \<lparr>m_Key = Some 7\<rparr> = Some own" using ToX509_defined by blast
  moreover define M where "M = messages_until_kex sample_session sample_hello sample_leaf sample_kex [] own (fill 65 (\<lambda>i. 3))"
  moreover obtain sig where "SignSha256 (sample_env 1) \<lparr>m_Key = Some 7\<rparr> (dtls_sha256 interop_lib (code_transcript M)) = Some sig"
    using SignSha256_defined by blast
  ultimately show ?thesis using that by blast
qed

lemma interop_dh: "dl_Ecdh interop_lib a b = Some (\<lambda>i. 0)"
  by (simp add: interop_lib_def)

lemma sample_leaf_facts: "length sample_leaf < 10000" "sample_leaf \<noteq> []" "length ([] :: bytes) < 10000"
  by (simp_all add: sample_leaf_def)

theorem dtls_handshake_agreement_witness:
  "\<exists>s1 out s2 reply. ProcessDatagram interop_lib sample_env
       (request_flight (server_messages sample_hello (BuildCertificateBody sample_leaf) sample_kex [])) sample_session
       = Some (True, s1, out) \<and> length out = 5
     \<and> ProcessDatagram interop_lib sample_env (finished_reply reply) s1 = Some (True, s2, [])
     \<and> dc_state s2 = DtlsState_Established \<and> dc_serverCertDer s2 = sample_leaf
     \<and> length (ExportKeyingMaterial interop_lib ''EXTRACTOR-dtls_srtp'' 60 s2) = 60"
proof -
  obtain sh own M sig where a: "hello_acceptable sample_hello sh" "ToX509SelfSignedDer (sample_env 1) \<lparr>m_Key = Some 7\<rparr> = Some own"
    "M = messages_until_kex sample_session sample_hello sample_leaf sample_kex [] own (fill 65 (\<lambda>i. 3))"
    "SignSha256 (sample_env 1) \<lparr>m_Key = Some 7\<rparr> (dtls_sha256 interop_lib (code_transcript M)) = Some sig"
    by (rule sample_setting)
  define ms where "ms = srv_master interop_lib (fill 32 (\<lambda>i. 0)) (sh_extendedMasterSecret sh)
    (code_transcript (M @ [verify_message sig])) (fill 32 (\<lambda>i. 1)) (sh_random sh)"
  obtain ck ci sk si where k: "srv_keys interop_lib ms (fill 32 (\<lambda>i. 1)) (sh_random sh) = ((ck, ci), (sk, si))"
    by (metis surj_pair)
  define fin where "fin = verify_data interop_lib ms ''client finished'' (code_transcript (M @ [verify_message sig]))"
  define ans where "ans = verify_data interop_lib ms ''server finished''
    (code_transcript ((M @ [verify_message sig]) @ [(kHsFinished, 4, fin)]))"
  obtain reply where r: "dl_Encrypt interop_lib sk si (WrapHandshakeUnfragmented kHsFinished 5 ans) (aad_seq 1 0)
      kDtlsContentHandshake kDtlsVersion12 = Some reply"
    using interop_lib_ok unfolding gcm_ok_def by blast
  note t = dtls_handshake_agreement [where env = sample_env and env' = sample_env,
      OF interop_lib_ok sample_session_def a(1) sample_kex_ok interop_dh interop_dh refl sample_leaf_facts(1,2) refl
        sample_leaf_facts(3) a(2,3,4) refl ms_def k fin_def ans_def r]
  have "length (TlsPrf_Compute interop_lib ms l d 60) = 60" for l d by (simp add: interop_prf)
  then show ?thesis using t by fastforce
qed

theorem dtls_standard_server_refused_witness:
  "\<exists>s1 out s2 reply. ProcessDatagram interop_lib sample_env
       (request_flight (server_messages sample_hello (BuildCertificateBody sample_leaf) sample_kex [])) sample_session
       = Some (True, s1, out) \<and> reply \<noteq> []
     \<and> ProcessDatagram interop_lib sample_env (finished_reply reply) s1 = Some (False, s2, [])
     \<and> dc_state s2 = DtlsState_Failed"
proof -
  obtain sh own M sig where a: "hello_acceptable sample_hello sh" "ToX509SelfSignedDer (sample_env 1) \<lparr>m_Key = Some 7\<rparr> = Some own"
    "M = messages_until_kex sample_session sample_hello sample_leaf sample_kex [] own (fill 65 (\<lambda>i. 3))"
    "SignSha256 (sample_env 1) \<lparr>m_Key = Some 7\<rparr> (dtls_sha256 interop_lib (code_transcript M)) = Some sig"
    by (rule sample_setting)
  let ?T = "M @ [verify_message sig]" and ?cr = "fill 32 (\<lambda>i. 1) :: bytes" and ?sr = "sh_random sh"
  define ms where "ms = srv_master interop_lib (fill 32 (\<lambda>i. 0)) (sh_extendedMasterSecret sh) (code_transcript ?T) ?cr ?sr"
  define ms' where "ms' = srv_master interop_lib (fill 32 (\<lambda>i. 0)) (sh_extendedMasterSecret sh) (rfc_transcript M) ?cr ?sr"
  obtain ck ci sk si where k: "srv_keys interop_lib ms ?cr ?sr = ((ck, ci), (sk, si))" by (metis surj_pair)
  obtain ck' ci' sk' si' where k': "srv_keys interop_lib ms' ?cr ?sr = ((ck', ci'), (sk', si'))" by (metis surj_pair)
  define fin where "fin = verify_data interop_lib ms ''client finished'' (code_transcript ?T)"
  define ans where "ans = verify_data interop_lib ms' ''server finished'' (rfc_transcript (?T @ [(kHsFinished, 4, fin)]))"
  obtain reply where r: "dl_Encrypt interop_lib sk' si' (WrapHandshakeUnfragmented kHsFinished 5 ans) (aad_seq 1 0)
      kDtlsContentHandshake kDtlsVersion12 = Some reply"
    using interop_lib_ok unfolding gcm_ok_def by blast
  have b: "code_transcript (?T @ xs) ! 4 = 0xFE" "rfc_transcript (?T @ xs) ! 4 = 0" "rfc_transcript M ! 4 = 0"
    "code_transcript ?T ! 4 = 0xFE" for xs
    by (simp_all add: a(3) messages_until_kex_def fifth_byte)
  have sk: "sk = replicate 16 (ms ! 0 + (?sr @ ?cr) ! 0)" "sk' = replicate 16 (ms' ! 0 + (?sr @ ?cr) ! 0)"
    using k k' by (auto simp: srv_keys_def Let_def interop_prf)
  have m: "sh_extendedMasterSecret sh \<Longrightarrow> ms ! 0 \<noteq> ms' ! 0"
    by (simp add: ms_def ms'_def srv_master_def interop_prf interop_sha b)
  have rep: "last reply = sk' ! 0" "reply \<noteq> []" using r by (auto simp: interop_lib_def)
  note t = dtls_standard_server_refused [where env = sample_env and env' = sample_env,
      OF interop_lib_ok sample_session_def a(1) sample_kex_ok interop_dh interop_dh refl sample_leaf_facts(1,2) refl
        sample_leaf_facts(3) a(2,3,4) refl ms_def k fin_def ms'_def k' ans_def r]
  have "\<exists>s1 out s2. ProcessDatagram interop_lib sample_env
       (request_flight (server_messages sample_hello (BuildCertificateBody sample_leaf) sample_kex [])) sample_session
       = Some (True, s1, out) \<and> length out = 5 \<and> dc_state s1 = DtlsState_SentFinished
     \<and> ProcessDatagram interop_lib sample_env (finished_reply reply) s1 = Some (False, s2, [])
     \<and> dc_state s2 = DtlsState_Failed
     \<and> dc_failureReason s2 = (if sh_extendedMasterSecret sh then ''AEAD auth failed on encrypted handshake''
        else ''bad server Finished verify_data'')"
  proof (rule t)
    show "dtls_sha256 interop_lib x \<noteq> dtls_sha256 interop_lib y"
      if "(x, y) \<in> {(code_transcript ?T, rfc_transcript M), (code_transcript (?T @ [(kHsFinished, 4, fin)]),
        rfc_transcript (?T @ [(kHsFinished, 4, fin)]))}" for x y
      using that b by (auto simp: interop_sha)
    show "sk \<noteq> sk'" if "sh_extendedMasterSecret sh" using m [OF that] by (simp add: sk)
    show "dl_Decrypt interop_lib sk si reply (aad_seq 1 0) kDtlsContentHandshake kDtlsVersion12 = None" if "sk \<noteq> sk'"
      using that rep by (auto simp: interop_lib_def sk)
    show "verify_data interop_lib ms ''server finished'' (code_transcript (?T @ [(kHsFinished, 4, fin)])) \<noteq>
      verify_data interop_lib ms ''server finished'' (rfc_transcript (?T @ [(kHsFinished, 4, fin)]))"
      using b(1,2) [of "[(kHsFinished, 4, fin)]"] by (simp add: verify_data_def interop_prf interop_sha)
  qed
  then show ?thesis using rep(2) by blast
qed

end
