(* ===== verification/Md5.thy ===== *)
theory Md5
  imports Prelude
begin

text \<open>
  The MD5 that \<open>infrastructure/turn/turn_message.cpp\<close> carries for the long-term credentials of TURN:
  the compression function step by step, the context with its buffer of a partial block, and the
  proof that feeding a message piece by piece gives the MD5 of the whole message.
\<close>

unbundle bit_operations_syntax

section \<open>The compression function\<close>

type_synonym md5_state = "u32 \<times> u32 \<times> u32 \<times> u32"

definition Rotl32 :: "u32 \<Rightarrow> nat \<Rightarrow> u32" where
  "Rotl32 x s = push_bit s x OR drop_bit (32 - s) x"

definition MD5_F :: "u32 \<Rightarrow> u32 \<Rightarrow> u32 \<Rightarrow> u32" where "MD5_F x y z = (x AND y) OR (NOT x AND z)"
definition MD5_G :: "u32 \<Rightarrow> u32 \<Rightarrow> u32 \<Rightarrow> u32" where "MD5_G x y z = (x AND z) OR (y AND NOT z)"
definition MD5_H :: "u32 \<Rightarrow> u32 \<Rightarrow> u32 \<Rightarrow> u32" where "MD5_H x y z = x XOR y XOR z"
definition MD5_I :: "u32 \<Rightarrow> u32 \<Rightarrow> u32 \<Rightarrow> u32" where "MD5_I x y z = y XOR (x OR NOT z)"

text \<open>
  One macro call \<open>MD5_FF(a, b, c, d, x[k], s, ac)\<close>. The next call names the four variables rotated by
  one, so the result is the tuple as the next call sees it.
\<close>

definition md5_step ::
    "(u32 \<Rightarrow> u32 \<Rightarrow> u32 \<Rightarrow> u32) \<Rightarrow> u32 list \<Rightarrow> nat \<times> nat \<times> u32 \<Rightarrow> md5_state \<Rightarrow> md5_state" where
  "md5_step f x step st =
     (case step of (k, s, ac) \<Rightarrow> case st of (a, b, c, d) \<Rightarrow>
        (d, Rotl32 (a + (f b c d + x ! k + ac)) s + b, b, c))"

text \<open>The sixteen calls of each round: word, rotation and constant.\<close>

definition md5_FF_steps :: "(nat \<times> nat \<times> u32) list" where
  "md5_FF_steps =
    [(0, 7, 0xd76aa478), (1, 12, 0xe8c7b756), (2, 17, 0x242070db), (3, 22, 0xc1bdceee),
     (4, 7, 0xf57c0faf), (5, 12, 0x4787c62a), (6, 17, 0xa8304613), (7, 22, 0xfd469501),
     (8, 7, 0x698098d8), (9, 12, 0x8b44f7af), (10, 17, 0xffff5bb1), (11, 22, 0x895cd7be),
     (12, 7, 0x6b901122), (13, 12, 0xfd987193), (14, 17, 0xa679438e), (15, 22, 0x49b40821)]"

definition md5_GG_steps :: "(nat \<times> nat \<times> u32) list" where
  "md5_GG_steps =
    [(1, 5, 0xf61e2562), (6, 9, 0xc040b340), (11, 14, 0x265e5a51), (0, 20, 0xe9b6c7aa),
     (5, 5, 0xd62f105d), (10, 9, 0x02441453), (15, 14, 0xd8a1e681), (4, 20, 0xe7d3fbc8),
     (9, 5, 0x21e1cde6), (14, 9, 0xc33707d6), (3, 14, 0xf4d50d87), (8, 20, 0x455a14ed),
     (13, 5, 0xa9e3e905), (2, 9, 0xfcefa3f8), (7, 14, 0x676f02d9), (12, 20, 0x8d2a4c8a)]"

definition md5_HH_steps :: "(nat \<times> nat \<times> u32) list" where
  "md5_HH_steps =
    [(5, 4, 0xfffa3942), (8, 11, 0x8771f681), (11, 16, 0x6d9d6122), (14, 23, 0xfde5380c),
     (1, 4, 0xa4beea44), (4, 11, 0x4bdecfa9), (7, 16, 0xf6bb4b60), (10, 23, 0xbebfbc70),
     (13, 4, 0x289b7ec6), (0, 11, 0xeaa127fa), (3, 16, 0xd4ef3085), (6, 23, 0x04881d05),
     (9, 4, 0xd9d4d039), (12, 11, 0xe6db99e5), (15, 16, 0x1fa27cf8), (2, 23, 0xc4ac5665)]"

definition md5_II_steps :: "(nat \<times> nat \<times> u32) list" where
  "md5_II_steps =
    [(0, 6, 0xf4292244), (7, 10, 0x432aff97), (14, 15, 0xab9423a7), (5, 21, 0xfc93a039),
     (12, 6, 0x655b59c3), (3, 10, 0x8f0ccc92), (10, 15, 0xffeff47d), (1, 21, 0x85845dd1),
     (8, 6, 0x6fa87e4f), (15, 10, 0xfe2ce6e0), (6, 15, 0xa3014314), (13, 21, 0x4e0811a1),
     (4, 6, 0xf7537e82), (11, 10, 0xbd3af235), (2, 15, 0x2ad7d2bb), (9, 21, 0xeb86d391)]"

definition Md5Transform :: "md5_state \<Rightarrow> bytes \<Rightarrow> md5_state" where
  "Md5Transform st block =
     (let x = map (\<lambda>i. le32_of (block ! (i * 4 + 0)) (block ! (i * 4 + 1)) (block ! (i * 4 + 2)) (block ! (i * 4 + 3)))
                [0..<16];
          st' = fold (md5_step MD5_F x) md5_FF_steps st;
          st' = fold (md5_step MD5_G x) md5_GG_steps st';
          st' = fold (md5_step MD5_H x) md5_HH_steps st';
          st' = fold (md5_step MD5_I x) md5_II_steps st'
      in case (st, st') of ((a0, b0, c0, d0), (a, b, c, d)) \<Rightarrow> (a0 + a, b0 + b, c0 + c, d0 + d))"


section \<open>The context\<close>

record Md5Ctx =
  md5_st :: md5_state
  md5_bitCount :: u64
  md5_buffer :: bytes

definition Md5Init :: Md5Ctx where
  "Md5Init = \<lparr>md5_st = (0x67452301, 0xefcdab89, 0x98badcfe, 0x10325476), md5_bitCount = 0,
     md5_buffer = replicate 64 0\<rparr>"

text \<open>\<open>memcpy(buf + at, src, n)\<close> with \<open>n\<close> the length of \<open>src\<close>.\<close>

definition md5_copy :: "bytes \<Rightarrow> nat \<Rightarrow> bytes \<Rightarrow> bytes" where
  "md5_copy buf at src = take at buf @ src @ drop (at + length src) buf"

function md5_blocks :: "md5_state \<Rightarrow> bytes \<Rightarrow> nat \<Rightarrow> md5_state \<times> nat" where
  "md5_blocks st data i =
     (if i + 63 < length data then md5_blocks (Md5Transform st (take 64 (drop i data))) data (i + 64)
      else (st, i))"
  by pat_completeness auto
termination by (relation "measure (\<lambda>(st, data, i). length data - i)") auto

declare md5_blocks.simps [simp del]

definition Md5Update :: "bytes \<Rightarrow> Md5Ctx \<Rightarrow> Md5Ctx" where
  "Md5Update data ctx =
     (let bufferIndex = unat (drop_bit 3 (md5_bitCount ctx) AND 0x3F);
          ctx = ctx\<lparr>md5_bitCount := md5_bitCount ctx + push_bit 3 (of_nat (length data))\<rparr>;
          partLen = 64 - bufferIndex;
          (ctx, bufferIndex, i) =
            (if length data \<ge> partLen
             then
               (let buf = md5_copy (md5_buffer ctx) bufferIndex (take partLen data);
                    (st, i) = md5_blocks (Md5Transform (md5_st ctx) buf) data partLen
                in (ctx\<lparr>md5_buffer := buf, md5_st := st\<rparr>, 0, i))
             else (ctx, bufferIndex, 0))
      in if i < length data
         then ctx\<lparr>md5_buffer := md5_copy (md5_buffer ctx) bufferIndex (drop i data)\<rparr>
         else ctx)"

definition kPadding :: bytes where
  "kPadding = 0x80 # replicate 63 0"

definition md5_output :: "md5_state \<Rightarrow> bytes" where
  "md5_output st = (case st of (a, b, c, d) \<Rightarrow> le32 a @ le32 b @ le32 c @ le32 d)"

definition Md5Final :: "Md5Ctx \<Rightarrow> bytes" where
  "Md5Final ctx =
     (let bits = map (\<lambda>i. byte_at (8 * i) (md5_bitCount ctx)) [0..<8];
          index = unat (drop_bit 3 (md5_bitCount ctx) AND 0x3F);
          padLen = (if index < 56 then 56 - index else 120 - index);
          ctx = Md5Update (take padLen kPadding) ctx;
          ctx = Md5Update bits ctx
      in md5_output (md5_st ctx))"


section \<open>The reference\<close>

text \<open>The whole message at once: compress block after block; what is left is shorter than a block.\<close>

function md5_full :: "md5_state \<Rightarrow> bytes \<Rightarrow> md5_state \<times> bytes" where
  "md5_full st bs =
     (if 64 \<le> length bs then md5_full (Md5Transform st (take 64 bs)) (drop 64 bs) else (st, bs))"
  by pat_completeness auto
termination by (relation "measure (\<lambda>(st, bs). length bs)") auto

declare md5_full.simps [simp del]

definition md5_initial :: md5_state where
  "md5_initial = (0x67452301, 0xefcdab89, 0x98badcfe, 0x10325476)"

text \<open>A one bit, zeros up to 56 modulo 64 bytes, and the length in bits as 64-bit little-endian.\<close>

definition md5_pad :: "bytes \<Rightarrow> bytes" where
  "md5_pad M = M @ 0x80 # replicate ((119 - length M mod 64) mod 64) 0 @
     map (\<lambda>i. byte_at (8 * i) (of_nat (8 * length M) :: u64)) [0..<8]"

definition md5_reference :: "bytes \<Rightarrow> bytes" where
  "md5_reference M = md5_output (fst (md5_full md5_initial (md5_pad M)))"


section \<open>Piece by piece\<close>

lemma md5_full_append:
  "md5_full st (M @ D) = (case md5_full st M of (st', r) \<Rightarrow> md5_full st' (r @ D))"
proof (induction st M rule: md5_full.induct)
  case (1 st M)
  show ?case
  proof (cases "64 \<le> length M")
    case True
    have "md5_full st (M @ D) = md5_full (Md5Transform st (take 64 M)) (drop 64 M @ D)"
      using True by (subst md5_full.simps) simp
    also have "\<dots> = (case md5_full (Md5Transform st (take 64 M)) (drop 64 M) of (st', r) \<Rightarrow> md5_full st' (r @ D))"
      using 1 [OF True] .
    also have "md5_full (Md5Transform st (take 64 M)) (drop 64 M) = md5_full st M"
      using True by (subst (2) md5_full.simps) simp
    finally show ?thesis .
  next
    case False
    then have "md5_full st M = (st, M)" by (subst md5_full.simps) simp
    then show ?thesis by simp
  qed
qed

lemma md5_full_block:
  "length B = 64 \<Longrightarrow> md5_full st (B @ D) = md5_full (Md5Transform st B) D"
  by (subst md5_full.simps) simp

lemma md5_full_short: "length B < 64 \<Longrightarrow> md5_full st B = (st, B)"
  by (subst md5_full.simps) simp

lemma length_md5_full: "length (snd (md5_full st M)) = length M mod 64"
proof (induction st M rule: md5_full.induct)
  case (1 st M)
  show ?case
  proof (cases "64 \<le> length M")
    case True
    then show ?thesis using 1 [OF True] by (subst md5_full.simps) (simp add: le_mod_geq)
  next
    case False
    then show ?thesis by (simp add: md5_full_short)
  qed
qed

lemma md5_blocks_full:
  "i \<le> length data \<Longrightarrow> md5_blocks st data i =
     (fst (md5_full st (drop i data)), length data - length (snd (md5_full st (drop i data))))"
proof (induction st data i rule: md5_blocks.induct)
  case (1 st data i)
  show ?case
  proof (cases "i + 63 < length data")
    case True
    then have "64 \<le> length (drop i data)" by simp
    then have "md5_full st (drop i data) = md5_full (Md5Transform st (take 64 (drop i data))) (drop (i + 64) data)"
      by (subst md5_full.simps) (simp add: add.commute del: length_drop)
    then show ?thesis using 1 True by (subst md5_blocks.simps) simp
  next
    case False
    then have "md5_full st (drop i data) = (st, drop i data)" by (intro md5_full_short) simp
    then show ?thesis using False "1.prems" by (subst md5_blocks.simps) simp
  qed
qed

lemma md5_full_suffix: "snd (md5_full st M) = drop (length M - length M mod 64) M"
proof (induction st M rule: md5_full.induct)
  case (1 st M)
  show ?case
  proof (cases "64 \<le> length M")
    case True
    have "snd (md5_full st M) = drop (length (drop 64 M) - length (drop 64 M) mod 64) (drop 64 M)"
      using 1 [OF True] True by (subst md5_full.simps) simp
    also have "\<dots> = drop (length M - length M mod 64) M"
    proof -
      have "length M mod 64 = (length M - 64) mod 64" using True by (simp add: le_mod_geq)
      moreover have "(length M - 64) mod 64 \<le> length M - 64" by simp
      ultimately show ?thesis using True by simp
    qed
    finally show ?thesis .
  next
    case False
    then show ?thesis by (simp add: md5_full_short)
  qed
qed

text \<open>The context after the message \<open>M\<close> has been fed to it.\<close>

definition md5_inv :: "Md5Ctx \<Rightarrow> bytes \<Rightarrow> bool" where
  "md5_inv ctx M \<longleftrightarrow>
     md5_bitCount ctx = of_nat (8 * length M) \<and> length (md5_buffer ctx) = 64
     \<and> md5_full md5_initial M = (md5_st ctx, take (length M mod 64) (md5_buffer ctx))"

lemma md5_inv_init: "md5_inv Md5Init []"
  by (simp add: md5_inv_def Md5Init_def md5_full_short md5_initial_def)

lemma md5_index: "unat (drop_bit 3 (of_nat (8 * n) :: u64) AND 0x3F) = n mod 64"
proof -
  have m: "(0x3F :: u64) = mask 6" by (simp add: mask_eq_exp_minus_1)
  have "unat (drop_bit 3 (of_nat (8 * n) :: u64) AND 0x3F) = take_bit 6 (drop_bit 3 (take_bit 64 (8 * n)))"
    unfolding m take_bit_eq_mask [symmetric]
    by (simp only: unsigned_take_bit_eq unsigned_drop_bit_eq unsigned_of_nat take_bit_take_bit)
      simp
  also have "\<dots> = take_bit 6 n"
  proof (rule bit_eqI)
    fix k
    have "8 * n = push_bit 3 n" by (simp add: push_bit_eq_mult)
    then show "bit (take_bit 6 (drop_bit 3 (take_bit 64 (8 * n)))) k = bit (take_bit 6 n) k"
      by (simp add: bit_simps) (auto simp: bit_push_bit_iff_nat)
  qed
  also have "\<dots> = n mod 64" by (simp add: take_bit_eq_mod)
  finally show ?thesis .
qed

lemma md5_copy_from_start: "length src \<le> length buf \<Longrightarrow> take (length src) (md5_copy buf 0 src) = src"
  by (simp add: md5_copy_def)

lemma length_md5_copy: "at + length src \<le> length buf \<Longrightarrow> length (md5_copy buf at src) = length buf"
  by (simp add: md5_copy_def)


lemma md5_count:
  "of_nat (8 * length M) + push_bit 3 (of_nat (length D)) = (of_nat (8 * length (M @ D)) :: u64)"
proof -
  have p: "push_bit 3 w = 8 * w" for w :: u64 by (simp add: push_bit_eq_mult)
  show ?thesis unfolding p by (simp add: distrib_left)
qed

lemma md5_inv_update:
  assumes inv: "md5_inv ctx M"
  shows "md5_inv (Md5Update D ctx) (M @ D)"
proof -
  define n where "n = length M mod 64"
  define st where "st = md5_st ctx"
  define buf where "buf = md5_buffer ctx"
  define r where "r = take n buf"
  define cnt where "cnt = (of_nat (8 * length M) :: u64)"
  have n: "n < 64" by (simp add: n_def)
  have b: "length buf = 64" and c: "md5_bitCount ctx = cnt"
    and full: "md5_full md5_initial M = (st, r)"
    using inv by (simp_all add: md5_inv_def buf_def st_def r_def n_def cnt_def)
  have lr: "length r = n" using b n by (simp add: r_def)
  have idx: "unat (drop_bit 3 cnt AND 0x3F) = n" unfolding cnt_def n_def by (rule md5_index)
  have cnt': "cnt + push_bit 3 (of_nat (length D)) = of_nat (8 * length (M @ D))"
    unfolding cnt_def by (rule md5_count)
  have app: "md5_full md5_initial (M @ D) = md5_full st (r @ D)" by (subst md5_full_append) (simp add: full)
  have len: "length (snd (md5_full st (r @ D))) = length (M @ D) mod 64"
    using length_md5_full [of md5_initial "M @ D"] by (simp add: app)
  show ?thesis
  proof (cases "64 - n \<le> length D")
    case False
    then have short: "length (r @ D) < 64" using lr n by simp
    have u: "Md5Update D ctx = ctx\<lparr>md5_bitCount := cnt + push_bit 3 (of_nat (length D)),
        md5_buffer := md5_copy buf n D\<rparr>"
    proof (cases "D = []")
      case True
      have "md5_copy buf n [] = buf" by (simp add: md5_copy_def)
      then show ?thesis using True False idx by (simp add: Md5Update_def c Let_def buf_def)
    next
      case D: False
      then show ?thesis using False idx by (simp add: Md5Update_def c Let_def buf_def)
    qed
    have "(length M + length D) mod 64 = n + length D"
      using len md5_full_short [OF short, of st] lr by simp
    moreover have "take (n + length D) (md5_copy buf n D) = r @ D"
      using b n by (simp add: md5_copy_def r_def min_def)
    moreover have "length (md5_copy buf n D) = 64" using False b n by (simp add: length_md5_copy)
    ultimately show ?thesis
      unfolding md5_inv_def app md5_full_short [OF short] u using cnt' by (simp add: st_def)
  next
    case True
    define B where "B = md5_copy buf n (take (64 - n) D)"
    have B: "B = r @ take (64 - n) D" using b n True by (simp add: B_def md5_copy_def r_def)
    have lB: "length B = 64" using B lr n True by simp
    have rD: "r @ D = B @ drop (64 - n) D" by (simp add: B)
    define st' where "st' = fst (md5_full st (r @ D))"
    define t where "t = snd (md5_full st (r @ D))"
    have f: "md5_full (Md5Transform st B) (drop (64 - n) D) = (st', t)"
      unfolding st'_def t_def rD md5_full_block [OF lB] by simp
    have bl: "md5_blocks (Md5Transform st B) D (64 - n) = (st', length D - length t)"
      using md5_blocks_full [OF True, of "Md5Transform st B"] by (simp add: f)
    have tl: "length t < 64" using len by (simp add: t_def)
    have tD: "t = drop (length D - length t) D" and tle: "length t \<le> length D"
    proof -
      have s: "t = drop (length (drop (64 - n) D) - length (drop (64 - n) D) mod 64) (drop (64 - n) D)"
        using md5_full_suffix [of "Md5Transform st B" "drop (64 - n) D"] by (simp add: f)
      define k where "k = (length D - (64 - n)) mod 64"
      have k: "k \<le> length D - (64 - n)" by (simp add: k_def)
      have t': "t = drop (length D - k) D" using s k True by (simp add: k_def [symmetric] add.commute)
      then show "length t \<le> length D" by simp
      have "length t = k" using t' k True by simp
      then show "t = drop (length D - length t) D" using t' by simp
    qed
    have u: "Md5Update D ctx = ctx\<lparr>md5_bitCount := cnt + push_bit 3 (of_nat (length D)),
        md5_buffer := md5_copy B 0 t, md5_st := st'\<rparr>"
    proof (cases "t = []")
      case True': True
      have "md5_copy B 0 [] = B" by (simp add: md5_copy_def)
      then show ?thesis
        using True True' idx bl by (simp add: Md5Update_def c Let_def flip: buf_def st_def B_def)
    next
      case False
      then have "length D - length t < length D" using tle by (cases t) auto
      then show ?thesis
        using True idx bl tD by (simp add: Md5Update_def c Let_def flip: buf_def st_def B_def)
    qed
    have "take (length t) (md5_copy B 0 t) = t" using tl lB by (intro md5_copy_from_start) simp
    moreover have "length (md5_copy B 0 t) = 64" using tl lB by (simp add: length_md5_copy)
    ultimately show ?thesis
      unfolding md5_inv_def app u using cnt' len by (simp add: st'_def t_def prod_eq_iff)
  qed
qed

lemma Md5Final_reference:
  assumes inv: "md5_inv ctx M"
  shows "Md5Final ctx = md5_reference M"
proof -
  define n where "n = length M mod 64"
  define padLen where "padLen = (if n < 56 then 56 - n else 120 - n)"
  define bits where "bits = map (\<lambda>i. byte_at (8 * i) (of_nat (8 * length M) :: u64)) [0..<8]"
  have n: "n < 64" by (simp add: n_def)
  have c: "md5_bitCount ctx = of_nat (8 * length M)" using inv by (simp add: md5_inv_def)
  have idx: "unat (drop_bit 3 (md5_bitCount ctx) AND 0x3F) = n" unfolding c n_def by (rule md5_index)
  have p: "padLen = Suc ((119 - n) mod 64)"
  proof (cases "n < 56")
    case True
    then have "119 - n = (55 - n) + 64" by simp
    then have "(119 - n) mod 64 = (55 - n) mod 64" by (simp only: mod_add_self2)
    then have "(119 - n) mod 64 = 55 - n" by simp
    then show ?thesis using True by (simp add: padLen_def)
  next
    case False
    then show ?thesis using n by (simp add: padLen_def)
  qed
  have "padLen \<le> 64" by (auto simp: padLen_def)
  then have pad: "take padLen kPadding = 0x80 # replicate ((119 - n) mod 64) 0"
    by (simp add: p kPadding_def min_def)
  have whole: "(M @ take padLen kPadding) @ bits = md5_pad M"
    by (simp add: pad md5_pad_def bits_def n_def)
  have "md5_inv (Md5Update bits (Md5Update (take padLen kPadding) ctx)) (md5_pad M)"
    unfolding whole [symmetric] by (intro md5_inv_update inv)
  then have "md5_st (Md5Update bits (Md5Update (take padLen kPadding) ctx)) = fst (md5_full md5_initial (md5_pad M))"
    by (simp add: md5_inv_def)
  then show ?thesis
    unfolding Md5Final_def Let_def idx unfolding c bits_def [symmetric] padLen_def [symmetric] md5_reference_def
    by (simp only:)
qed

end
