(* ===== verification/TurnMessage.thy ===== *)
theory TurnMessage
  imports Stun Md5
begin

text \<open>
  The TURN messages of \<open>infrastructure/turn/turn_message.h\<close> and \<open>turn_message.cpp\<close>: the four requests
  and indications the client sends, the decoder and the long-term credential key. HMAC-SHA1 is a
  parameter. The attribute loop is the one of the STUN decoder, with the \<open>switch\<close> of this file.
\<close>

unbundle bit_operations_syntax

section \<open>Constants and message types\<close>

definition turn_kMagicCookie :: u32 where "turn_kMagicCookie = 0x2112A442"
definition kFamilyIPv4 :: u8 where "kFamilyIPv4 = 0x01"
definition kFamilyIPv6 :: u8 where "kFamilyIPv6 = 0x02"

definition kMethodAllocate :: u16 where "kMethodAllocate = 0x003"
definition kMethodRefresh :: u16 where "kMethodRefresh = 0x004"
definition kMethodSend :: u16 where "kMethodSend = 0x006"
definition kMethodData :: u16 where "kMethodData = 0x007"
definition kMethodCreatePermission :: u16 where "kMethodCreatePermission = 0x008"

definition kClassRequest :: u16 where "kClassRequest = 0x000"
definition kClassIndication :: u16 where "kClassIndication = 0x010"
definition kClassSuccess :: u16 where "kClassSuccess = 0x100"
definition kClassError :: u16 where "kClassError = 0x110"

definition kAttrUsername :: u16 where "kAttrUsername = 0x0006"
definition kAttrMessageIntegrity :: u16 where "kAttrMessageIntegrity = 0x0008"
definition kAttrErrorCode :: u16 where "kAttrErrorCode = 0x0009"
definition kAttrLifetime :: u16 where "kAttrLifetime = 0x000D"
definition kAttrXorPeerAddress :: u16 where "kAttrXorPeerAddress = 0x0012"
definition kAttrData :: u16 where "kAttrData = 0x0013"
definition kAttrRealm :: u16 where "kAttrRealm = 0x0014"
definition kAttrNonce :: u16 where "kAttrNonce = 0x0015"
definition kAttrXorRelayedAddress :: u16 where "kAttrXorRelayedAddress = 0x0016"
definition kAttrRequestedTransport :: u16 where "kAttrRequestedTransport = 0x0019"
definition kAttrDontFragment :: u16 where "kAttrDontFragment = 0x001A"
definition kAttrXorMappedAddress :: u16 where "kAttrXorMappedAddress = 0x0020"

lemmas turn_attrs = kAttrUsername_def kAttrMessageIntegrity_def kAttrErrorCode_def kAttrLifetime_def
  kAttrXorPeerAddress_def kAttrData_def kAttrRealm_def kAttrNonce_def kAttrXorRelayedAddress_def
  kAttrRequestedTransport_def kAttrDontFragment_def kAttrXorMappedAddress_def

definition TurnMessageType :: "u16 \<Rightarrow> u16 \<Rightarrow> u16" where
  "TurnMessageType method cls =
     (let methodBits = (method AND 0x0F) OR push_bit 1 (method AND 0x70) OR push_bit 2 (method AND 0xF80);
          classBits = (cls AND 0x10) OR push_bit 1 (cls AND 0x100)
      in methodBits OR classBits)"

definition TurnMethodOf :: "u16 \<Rightarrow> u16" where
  "TurnMethodOf type = (type AND 0x000F) OR drop_bit 1 (type AND 0x00E0) OR drop_bit 2 (type AND 0x3E00)"

definition TurnClassOf :: "u16 \<Rightarrow> u16" where
  "TurnClassOf type = (type AND 0x0010) OR drop_bit 1 (type AND 0x0200)"

definition LooksLikeStunOrTurn :: "bytes \<Rightarrow> bool" where
  "LooksLikeStunOrTurn p \<longleftrightarrow> length p \<ge> 20 \<and> p ! 0 \<le> 0x03"


section \<open>Messages\<close>

record TurnAddress =
  Family :: u8
  AddrPort :: u16
  Address :: bytes

definition TurnAddress_default :: TurnAddress where
  "TurnAddress_default = \<lparr>Family = 0, AddrPort = 0, Address = []\<rparr>"

record TurnMessage =
  TurnType :: u16
  TurnTransactionId :: bytes
  HasUsername :: bool
  TurnUsername :: string
  HasRealm :: bool
  Realm :: string
  HasNonce :: bool
  Nonce :: bytes
  HasErrorCode :: bool
  ErrorCode :: int
  ErrorReason :: string
  HasXorMapped :: bool
  XorMapped :: TurnAddress
  HasXorRelayed :: bool
  XorRelayed :: TurnAddress
  XorPeers :: "TurnAddress list"
  HasData :: bool
  Data :: bytes
  HasLifetime :: bool
  Lifetime :: u32
  HasRequestedTransport :: bool
  Protocol :: u8
  HasMessageIntegrity :: bool
  TurnMessageIntegrity :: bytes
  Raw :: bytes

definition TurnMessage_default :: TurnMessage where
  "TurnMessage_default = \<lparr>TurnType = 0, TurnTransactionId = replicate 12 0, HasUsername = False,
     TurnUsername = [], HasRealm = False, Realm = [], HasNonce = False, Nonce = [],
     HasErrorCode = False, ErrorCode = 0, ErrorReason = [], HasXorMapped = False,
     XorMapped = TurnAddress_default, HasXorRelayed = False, XorRelayed = TurnAddress_default,
     XorPeers = [], HasData = False, Data = [], HasLifetime = False, Lifetime = 0,
     HasRequestedTransport = False, Protocol = 0, HasMessageIntegrity = False,
     TurnMessageIntegrity = [], Raw = []\<rparr>"


section \<open>Encoding\<close>

definition turn_AppendAttr :: "bytes \<Rightarrow> u16 \<Rightarrow> bytes \<Rightarrow> bytes" where
  "turn_AppendAttr buf type value = pad4 (buf @ be16 type @ be16 (of_nat (length value)) @ value)"

definition turn_AppendAttrU32 :: "bytes \<Rightarrow> u16 \<Rightarrow> u32 \<Rightarrow> bytes" where
  "turn_AppendAttrU32 buf type value = turn_AppendAttr buf type (be32 value)"

text \<open>The mask of an IPv6 address: the magic cookie and the transaction id.\<close>

definition ipv6_mask :: "bytes \<Rightarrow> bytes" where
  "ipv6_mask txnId = be32 turn_kMagicCookie @ txnId"

text \<open>
  In the IPv6 branch the statement that writes a 32-bit zero through \<open>v\<close> itself, at position 0,
  clears the reserved byte, the family and the port written before.
\<close>

definition EncodeXorAddress :: "bytes \<Rightarrow> u16 \<Rightarrow> TurnAddress \<Rightarrow> bytes \<Rightarrow> bytes" where
  "EncodeXorAddress buf attrType addr txnId =
     (if Family addr \<noteq> kFamilyIPv4 \<and> Family addr \<noteq> kFamilyIPv6 then buf
      else if Family addr = kFamilyIPv4 \<and> length (Address addr) \<noteq> 4 then buf
      else if Family addr = kFamilyIPv6 \<and> length (Address addr) \<noteq> 16 then buf
      else
        (let v = replicate (if Family addr = kFamilyIPv4 then 8 else 20) 0;
             v = v[0 := 0];
             v = v[1 := Family addr];
             xport = AddrPort addr XOR ucast (drop_bit 16 turn_kMagicCookie);
             v = put_be16 v 2 xport;
             v = (if Family addr = kFamilyIPv4
                  then put_be32 v 4 (be32_of (Address addr ! 0) (Address addr ! 1) (Address addr ! 2)
                         (Address addr ! 3) XOR turn_kMagicCookie)
                  else
                    (let v = put_be32 v 0 0
                     in take 4 v @ map (\<lambda>i. Address addr ! i XOR ipv6_mask txnId ! i) [0..<16]))
         in turn_AppendAttr buf attrType v))"

definition AppendCommonAuthAttrs :: "bytes \<Rightarrow> string \<Rightarrow> string \<Rightarrow> bytes \<Rightarrow> bytes" where
  "AppendCommonAuthAttrs buf username realm nonce =
     (let buf = (if username \<noteq> [] then turn_AppendAttr buf kAttrUsername (bytes_of_string username) else buf);
          buf = (if realm \<noteq> [] then turn_AppendAttr buf kAttrRealm (bytes_of_string realm) else buf);
          buf = (if nonce \<noteq> [] then turn_AppendAttr buf kAttrNonce nonce else buf)
      in buf)"

definition AppendMessageIntegrity :: "mac_fn \<Rightarrow> bytes \<Rightarrow> bytes \<Rightarrow> bytes" where
  "AppendMessageIntegrity hmac buf key =
     (let buf = put_be16 buf 2 (of_nat ((length buf - 20) + 24))
      in turn_AppendAttr buf kAttrMessageIntegrity (fill 20 (hmac key buf)))"

definition WriteHeader :: "u16 \<Rightarrow> bytes \<Rightarrow> bytes" where
  "WriteHeader type txnId = be16 type @ be16 0 @ be32 turn_kMagicCookie @ txnId"

definition FinalizeLength :: "bytes \<Rightarrow> bytes" where
  "FinalizeLength buf = put_be16 buf 2 (of_nat (length buf - 20))"

definition EncodeAllocate :: "mac_fn \<Rightarrow> bytes \<Rightarrow> u32 \<Rightarrow> string \<Rightarrow> string \<Rightarrow> bytes \<Rightarrow> bytes \<Rightarrow> bytes" where
  "EncodeAllocate hmac txnId lifetimeSeconds username realm nonce key =
     (let buf = WriteHeader (TurnMessageType kMethodAllocate kClassRequest) txnId;
          buf = turn_AppendAttr buf kAttrRequestedTransport [17, 0, 0, 0];
          buf = turn_AppendAttr buf kAttrDontFragment [];
          buf = turn_AppendAttrU32 buf kAttrLifetime lifetimeSeconds;
          buf = AppendCommonAuthAttrs buf username realm nonce;
          buf = (if key \<noteq> [] then AppendMessageIntegrity hmac buf key else buf)
      in FinalizeLength buf)"

definition EncodeCreatePermission ::
    "mac_fn \<Rightarrow> bytes \<Rightarrow> TurnAddress list \<Rightarrow> string \<Rightarrow> string \<Rightarrow> bytes \<Rightarrow> bytes \<Rightarrow> bytes" where
  "EncodeCreatePermission hmac txnId peers username realm nonce key =
     (let buf = WriteHeader (TurnMessageType kMethodCreatePermission kClassRequest) txnId;
          buf = fold (\<lambda>p buf. EncodeXorAddress buf kAttrXorPeerAddress p txnId) peers buf;
          buf = AppendCommonAuthAttrs buf username realm nonce;
          buf = (if key \<noteq> [] then AppendMessageIntegrity hmac buf key else buf)
      in FinalizeLength buf)"

definition EncodeSendIndication :: "bytes \<Rightarrow> TurnAddress \<Rightarrow> bytes \<Rightarrow> bytes" where
  "EncodeSendIndication txnId peer dat =
     (let buf = WriteHeader (TurnMessageType kMethodSend kClassIndication) txnId;
          buf = EncodeXorAddress buf kAttrXorPeerAddress peer txnId;
          buf = turn_AppendAttr buf kAttrData dat
      in FinalizeLength buf)"

definition EncodeRefresh :: "mac_fn \<Rightarrow> bytes \<Rightarrow> u32 \<Rightarrow> string \<Rightarrow> string \<Rightarrow> bytes \<Rightarrow> bytes \<Rightarrow> bytes" where
  "EncodeRefresh hmac txnId lifetimeSeconds username realm nonce key =
     (let buf = WriteHeader (TurnMessageType kMethodRefresh kClassRequest) txnId;
          buf = turn_AppendAttrU32 buf kAttrLifetime lifetimeSeconds;
          buf = AppendCommonAuthAttrs buf username realm nonce;
          buf = (if key \<noteq> [] then AppendMessageIntegrity hmac buf key else buf)
      in FinalizeLength buf)"


section \<open>Decoding\<close>

text \<open>\<open>Some None\<close> is the return of false; the output of a failed call is not used.\<close>

definition DecodeXorAddress :: "bytes \<Rightarrow> bytes \<Rightarrow> TurnAddress option option" where
  "DecodeXorAddress val txnId =
     (if length val < 8 then Some None
      else do {
        fam \<leftarrow> rd8 val 1;
        xport \<leftarrow> rd_be16 val 2;
        let port = xport XOR ucast (drop_bit 16 turn_kMagicCookie);
        if fam = kFamilyIPv4
        then do {
          xa \<leftarrow> rd_be32 val 4;
          Some (Some \<lparr>Family = fam, AddrPort = port, Address = be32 (xa XOR turn_kMagicCookie)\<rparr>)
        }
        else if fam = kFamilyIPv6
        then
          if length val < 20 then Some None
          else do {
            a \<leftarrow> subbuf val 4 20;
            Some (Some \<lparr>Family = fam, AddrPort = port, Address = map2 (XOR) a (ipv6_mask txnId)\<rparr>)
          }
        else Some None
      })"

definition turn_apply_attr :: "u16 \<Rightarrow> bytes \<Rightarrow> TurnMessage \<Rightarrow> TurnMessage option" where
  "turn_apply_attr aType aVal out =
     (if aType = kAttrUsername then Some (out\<lparr>HasUsername := True, TurnUsername := string_of_bytes aVal\<rparr>)
      else if aType = kAttrRealm then Some (out\<lparr>HasRealm := True, Realm := string_of_bytes aVal\<rparr>)
      else if aType = kAttrNonce then Some (out\<lparr>HasNonce := True, Nonce := aVal\<rparr>)
      else if aType = kAttrErrorCode then
        (if length aVal \<ge> 4
         then do {
           c \<leftarrow> rd8 aVal 2;
           n \<leftarrow> rd8 aVal 3;
           let out = out\<lparr>HasErrorCode := True, ErrorCode := uint (c AND 0x07) * 100 + uint n\<rparr>;
           Some (if length aVal > 4 then out\<lparr>ErrorReason := string_of_bytes (drop 4 aVal)\<rparr> else out)
         }
         else Some out)
      else if aType = kAttrXorMappedAddress then
        do { a \<leftarrow> DecodeXorAddress aVal (TurnTransactionId out);
             Some (case a of None \<Rightarrow> out | Some a \<Rightarrow> out\<lparr>HasXorMapped := True, XorMapped := a\<rparr>) }
      else if aType = kAttrXorRelayedAddress then
        do { a \<leftarrow> DecodeXorAddress aVal (TurnTransactionId out);
             Some (case a of None \<Rightarrow> out | Some a \<Rightarrow> out\<lparr>HasXorRelayed := True, XorRelayed := a\<rparr>) }
      else if aType = kAttrXorPeerAddress then
        do { a \<leftarrow> DecodeXorAddress aVal (TurnTransactionId out);
             Some (case a of None \<Rightarrow> out | Some a \<Rightarrow> out\<lparr>XorPeers := XorPeers out @ [a]\<rparr>) }
      else if aType = kAttrData then Some (out\<lparr>HasData := True, Data := aVal\<rparr>)
      else if aType = kAttrLifetime then
        (if length aVal = 4
         then do { v \<leftarrow> rd_be32 aVal 0; Some (out\<lparr>HasLifetime := True, Lifetime := v\<rparr>) }
         else Some out)
      else if aType = kAttrRequestedTransport then
        (if length aVal = 4
         then do { v \<leftarrow> rd8 aVal 0; Some (out\<lparr>HasRequestedTransport := True, Protocol := v\<rparr>) }
         else Some out)
      else if aType = kAttrMessageIntegrity then
        Some (if length aVal = 20 then out\<lparr>HasMessageIntegrity := True, TurnMessageIntegrity := aVal\<rparr> else out)
      else Some out)"

definition DecodeMessage :: "bytes \<Rightarrow> TurnMessage option option" where
  "DecodeMessage bs =
     (if length bs < 20 then Some None
      else do {
        b0 \<leftarrow> rd8 bs 0;
        if b0 > 0x03 then Some None
        else do {
          type \<leftarrow> rd_be16 bs 0;
          attrLen \<leftarrow> rd_be16 bs 2;
          cookie \<leftarrow> rd_be32 bs 4;
          if cookie \<noteq> turn_kMagicCookie then Some None
          else if 20 + unat attrLen > length bs then Some None
          else do {
            tid \<leftarrow> subbuf bs 8 20;
            decode_attrs turn_apply_attr bs 20 (20 + unat attrLen)
              (TurnMessage_default\<lparr>TurnType := type, TurnTransactionId := tid, Raw := bs\<rparr>)
          }
        }
      })"


section \<open>Credentials\<close>

definition DeriveLongTermKey :: "string \<Rightarrow> string \<Rightarrow> string \<Rightarrow> bytes" where
  "DeriveLongTermKey username realm password =
     (let ctx = Md5Init;
          ctx = (if username \<noteq> [] then Md5Update (bytes_of_string username) ctx else ctx);
          ctx = Md5Update [0x3A] ctx;
          ctx = (if realm \<noteq> [] then Md5Update (bytes_of_string realm) ctx else ctx);
          ctx = Md5Update [0x3A] ctx;
          ctx = (if password \<noteq> [] then Md5Update (bytes_of_string password) ctx else ctx)
      in Md5Final ctx)"

text \<open>
  The key of the long-term credentials, computed by feeding the three strings and the
  colons one after the other, is the MD5 of \<open>username:realm:password\<close>, for all strings, empty ones
  and ones longer than a block included.
\<close>

theorem turn_key_is_md5:
  "DeriveLongTermKey username realm password =
     md5_reference (bytes_of_string (username @ '':'' @ realm @ '':'' @ password))"
proof -
  have step: "md5_inv (if s \<noteq> [] then Md5Update (bytes_of_string s) ctx else ctx) (M @ bytes_of_string s)"
    if "md5_inv ctx M" for s ctx M
    using md5_inv_update [OF that, of "bytes_of_string s"] that
    by (cases "s = []") (simp_all add: bytes_of_string_def)
  have colon: "bytes_of_string '':'' = [0x3A]" by (simp add: bytes_of_string_def)
  have "md5_inv (if username \<noteq> [] then Md5Update (bytes_of_string username) Md5Init else Md5Init)
      ([] @ bytes_of_string username)"
    by (rule step [OF md5_inv_init])
  note 1 = md5_inv_update [OF this, of "[0x3A]"]
  note 2 = md5_inv_update [OF step [OF 1, of realm], of "[0x3A]"]
  show ?thesis
    using Md5Final_reference [OF step [OF 2, of password]]
    unfolding DeriveLongTermKey_def Let_def bytes_of_string_append colon
    by (simp only: append_Nil append_assoc)
qed


section \<open>What is encoded\<close>

lemma turn_AppendAttr_tlv: "length buf mod 4 = 0 \<Longrightarrow> turn_AppendAttr buf t v = buf @ tlv (t, v)"
  unfolding turn_AppendAttr_def AppendAttr_def [symmetric] by (rule AppendAttr_tlv)

lemma turn_append_opt:
  "length buf mod 4 = 0 \<Longrightarrow>
     (if c then turn_AppendAttr buf t v else buf) = buf @ tlvs (opt_attr c (t, v))"
  by (simp add: opt_attr_def turn_AppendAttr_tlv)

definition address_value :: "TurnAddress \<Rightarrow> bytes \<Rightarrow> bytes" where
  "address_value a txn =
     (if Family a = kFamilyIPv4
      then [0, 1] @ be16 (AddrPort a XOR ucast (drop_bit 16 turn_kMagicCookie)) @
        be32 (be32_of (Address a ! 0) (Address a ! 1) (Address a ! 2) (Address a ! 3) XOR turn_kMagicCookie)
      else [0, 0, 0, 0] @ map (\<lambda>i. Address a ! i XOR ipv6_mask txn ! i) [0..<16])"

definition address_ok :: "TurnAddress \<Rightarrow> bool" where
  "address_ok a \<longleftrightarrow> Family a = kFamilyIPv4 \<and> length (Address a) = 4
     \<or> Family a = kFamilyIPv6 \<and> length (Address a) = 16"

lemma kFamily_neq: "kFamilyIPv4 \<noteq> kFamilyIPv6"
  by (simp add: kFamilyIPv4_def kFamilyIPv6_def)

lemma address_v4:
  "put_be32 (put_be16 ((replicate 8 0)[0 := 0, Suc 0 := f]) 2 p) 4 x = [0, f] @ be16 p @ be32 (x :: u32)"
  by (simp add: eval_nat_numeral put_be32_def put_be16_def be16_def be32_def)

lemma address_v6:
  "take 4 (put_be32 (put_be16 ((replicate 20 0)[0 := 0, Suc 0 := f]) 2 p) 0 0) = [0, 0, 0, 0 :: u8]"
proof -
  have z: "byte_at k (0 :: u32) = 0" for k by (rule bit_word_eqI) simp
  have r: "replicate 20 (0 :: u8) = [0, 0, 0, 0] @ replicate 16 0" by (simp add: replicate_add [symmetric] eval_nat_numeral)
  show ?thesis by (simp add: r put_be32_def put_be16_def z)
qed

lemma EncodeXorAddress_tlv:
  assumes "length buf mod 4 = 0"
  shows "EncodeXorAddress buf t a txn = buf @ tlvs (opt_attr (address_ok a) (t, address_value a txn))"
proof (cases "address_ok a")
  case False
  then show ?thesis
    by (auto simp: EncodeXorAddress_def address_ok_def opt_attr_def)
next
  case True
  then have "EncodeXorAddress buf t a txn = turn_AppendAttr buf t (address_value a txn)"
  proof (cases "Family a = kFamilyIPv4")
    case v4: True
    then have l: "length (Address a) = 4" using True kFamily_neq by (simp add: address_ok_def)
    show ?thesis
      using v4 l kFamily_neq unfolding EncodeXorAddress_def Let_def
      by (simp add: address_value_def address_v4) (simp add: kFamilyIPv4_def)
  next
    case v6: False
    then have f: "Family a = kFamilyIPv6" and l: "length (Address a) = 16"
      using True by (simp_all add: address_ok_def)
    show ?thesis
      using l kFamily_neq unfolding EncodeXorAddress_def Let_def
      by (simp add: f address_value_def address_v6)
  qed
  then show ?thesis using True assms by (simp add: turn_AppendAttr_tlv opt_attr_def)
qed


text \<open>Header and attributes; the length field is the one \<open>FinalizeLength\<close> leaves.\<close>

definition turn_header :: "u16 \<Rightarrow> bytes \<Rightarrow> u16 \<Rightarrow> bytes" where
  "turn_header type txn l = be16 type @ be16 l @ be32 turn_kMagicCookie @ txn"

definition turn_frame :: "u16 \<Rightarrow> bytes \<Rightarrow> (u16 \<times> bytes) list \<Rightarrow> bytes" where
  "turn_frame type txn as = turn_header type txn (of_nat (length (tlvs as))) @ tlvs as"

lemma WriteHeader_eq: "WriteHeader type txn = turn_header type txn 0"
  by (simp add: WriteHeader_def turn_header_def)

lemma length_turn_header: "length txn = 12 \<Longrightarrow> length (turn_header type txn l) = 20"
  by (simp add: turn_header_def)

lemma put_length: "put_be16 (turn_header type txn l @ xs) 2 l' = turn_header type txn l' @ xs"
  by (simp add: turn_header_def put_be16_def be16_def be32_def)

lemma aligned:
  "length txn = 12 \<Longrightarrow> length (turn_header type txn l @ tlvs as) mod 4 = 0"
  using length_mod_step [of "turn_header type txn l" as] by (simp add: length_turn_header)

definition auth_attrs :: "string \<Rightarrow> string \<Rightarrow> bytes \<Rightarrow> (u16 \<times> bytes) list" where
  "auth_attrs username realm nonce =
     opt_attr (username \<noteq> []) (kAttrUsername, bytes_of_string username) @
     opt_attr (realm \<noteq> []) (kAttrRealm, bytes_of_string realm) @
     opt_attr (nonce \<noteq> []) (kAttrNonce, nonce)"

lemma AppendCommonAuthAttrs_tlvs:
  assumes "length buf mod 4 = 0"
  shows "AppendCommonAuthAttrs buf u r n = buf @ tlvs (auth_attrs u r n)"
  unfolding AppendCommonAuthAttrs_def Let_def auth_attrs_def tlvs_simps
  by (subst turn_append_opt, (intro length_mod_step assms)?)+ (simp only: append_assoc)

definition turn_mac :: "mac_fn \<Rightarrow> u16 \<Rightarrow> bytes \<Rightarrow> bytes \<Rightarrow> (u16 \<times> bytes) list \<Rightarrow> bytes" where
  "turn_mac hmac type txn key as =
     fill 20 (hmac key (turn_header type txn (of_nat (length (tlvs as) + 24)) @ tlvs as))"

definition sealed :: "mac_fn \<Rightarrow> u16 \<Rightarrow> bytes \<Rightarrow> bytes \<Rightarrow> (u16 \<times> bytes) list \<Rightarrow> (u16 \<times> bytes) list" where
  "sealed hmac type txn key as = as @ opt_attr (key \<noteq> []) (kAttrMessageIntegrity, turn_mac hmac type txn key as)"

lemma length_turn_mac [simp]: "length (turn_mac hmac type txn key as) = 20"
  by (simp add: turn_mac_def)

lemma finish_frame:
  assumes t: "length txn = 12"
  shows "FinalizeLength (if key \<noteq> [] then AppendMessageIntegrity hmac (turn_header type txn 0 @ tlvs as) key
     else turn_header type txn 0 @ tlvs as) = turn_frame type txn (sealed hmac type txn key as)"
proof -
  have fin: "FinalizeLength (turn_header type txn l @ tlvs bs) = turn_frame type txn bs" for l bs
    unfolding FinalizeLength_def put_length turn_frame_def by (simp add: length_turn_header [OF t])
  show ?thesis
  proof (cases "key = []")
    case True
    then show ?thesis by (simp add: fin sealed_def opt_attr_def)
  next
    case False
    have sub: "length (turn_header type txn 0 @ tlvs as) - 20 = length (tlvs as)"
      by (simp add: length_turn_header [OF t])
    have "AppendMessageIntegrity hmac (turn_header type txn 0 @ tlvs as) key =
        turn_header type txn (of_nat (length (tlvs as) + 24)) @ tlvs (sealed hmac type txn key as)"
      unfolding AppendMessageIntegrity_def Let_def sub put_length turn_mac_def [symmetric]
        turn_AppendAttr_tlv [OF aligned [OF t]]
      using False by (simp add: sealed_def opt_attr_def)
    then show ?thesis using False by (simp add: fin)
  qed
qed

lemma EncodeAllocate_frame:
  assumes "length txn = 12"
  shows "EncodeAllocate hmac txn lt u r n key =
    turn_frame (TurnMessageType kMethodAllocate kClassRequest) txn (sealed hmac
      (TurnMessageType kMethodAllocate kClassRequest) txn key
      ([(kAttrRequestedTransport, [17, 0, 0, 0]), (kAttrDontFragment, []), (kAttrLifetime, be32 lt)] @ auth_attrs u r n))"
proof -
  let ?T = "TurnMessageType kMethodAllocate kClassRequest"
  have ap: "turn_AppendAttr (turn_header ?T txn 0 @ tlvs as) t v = turn_header ?T txn 0 @ tlvs (as @ [(t, v)])" for as t v
    by (subst turn_AppendAttr_tlv [OF aligned [OF assms]]) simp
  have au: "AppendCommonAuthAttrs (turn_header ?T txn 0 @ tlvs as) u r n = turn_header ?T txn 0 @ tlvs (as @ auth_attrs u r n)" for as
    by (subst AppendCommonAuthAttrs_tlvs [OF aligned [OF assms]]) simp
  have h: "turn_header ?T txn 0 = turn_header ?T txn 0 @ tlvs []" by simp
  show ?thesis
    unfolding EncodeAllocate_def Let_def turn_AppendAttrU32_def WriteHeader_eq
    by (subst (1 2) h) (simp only: ap au finish_frame [OF assms] append_Nil append_Cons append_assoc)
qed

lemma EncodeRefresh_frame:
  assumes "length txn = 12"
  shows "EncodeRefresh hmac txn lt u r n key =
    turn_frame (TurnMessageType kMethodRefresh kClassRequest) txn (sealed hmac
      (TurnMessageType kMethodRefresh kClassRequest) txn key ([(kAttrLifetime, be32 lt)] @ auth_attrs u r n))"
proof -
  let ?T = "TurnMessageType kMethodRefresh kClassRequest"
  have ap: "turn_AppendAttr (turn_header ?T txn 0 @ tlvs as) t v = turn_header ?T txn 0 @ tlvs (as @ [(t, v)])" for as t v
    by (subst turn_AppendAttr_tlv [OF aligned [OF assms]]) simp
  have au: "AppendCommonAuthAttrs (turn_header ?T txn 0 @ tlvs as) u r n = turn_header ?T txn 0 @ tlvs (as @ auth_attrs u r n)" for as
    by (subst AppendCommonAuthAttrs_tlvs [OF aligned [OF assms]]) simp
  have h: "turn_header ?T txn 0 = turn_header ?T txn 0 @ tlvs []" by simp
  show ?thesis
    unfolding EncodeRefresh_def Let_def turn_AppendAttrU32_def WriteHeader_eq
    by (subst (1 2) h) (simp only: ap au finish_frame [OF assms] append_Nil append_Cons append_assoc)
qed

definition peer_attrs :: "bytes \<Rightarrow> TurnAddress list \<Rightarrow> (u16 \<times> bytes) list" where
  "peer_attrs txn peers = concat (map (\<lambda>p. opt_attr (address_ok p) (kAttrXorPeerAddress, address_value p txn)) peers)"

lemma fold_peers:
  assumes "length txn = 12"
  shows "fold (\<lambda>p buf. EncodeXorAddress buf kAttrXorPeerAddress p txn) peers (turn_header type txn l @ tlvs as) =
    turn_header type txn l @ tlvs (as @ peer_attrs txn peers)"
proof (induction peers arbitrary: as)
  case (Cons p peers)
  have "EncodeXorAddress (turn_header type txn l @ tlvs as) kAttrXorPeerAddress p txn =
      turn_header type txn l @ tlvs (as @ opt_attr (address_ok p) (kAttrXorPeerAddress, address_value p txn))"
    by (subst EncodeXorAddress_tlv [OF aligned [OF assms]]) simp
  then show ?case by (simp only: fold_simps Cons.IH) (simp add: peer_attrs_def)
qed (simp add: peer_attrs_def)

lemma EncodeCreatePermission_frame:
  assumes "length txn = 12"
  shows "EncodeCreatePermission hmac txn peers u r n key =
    turn_frame (TurnMessageType kMethodCreatePermission kClassRequest) txn (sealed hmac
      (TurnMessageType kMethodCreatePermission kClassRequest) txn key (peer_attrs txn peers @ auth_attrs u r n))"
proof -
  let ?T = "TurnMessageType kMethodCreatePermission kClassRequest"
  have f: "fold (\<lambda>p buf. EncodeXorAddress buf kAttrXorPeerAddress p txn) peers (turn_header ?T txn 0) =
      turn_header ?T txn 0 @ tlvs (peer_attrs txn peers)"
    using fold_peers [OF assms, of peers ?T 0 "[]"] by simp
  have au: "AppendCommonAuthAttrs (turn_header ?T txn 0 @ tlvs as) u r n = turn_header ?T txn 0 @ tlvs (as @ auth_attrs u r n)" for as
    by (subst AppendCommonAuthAttrs_tlvs [OF aligned [OF assms]]) simp
  show ?thesis
    unfolding EncodeCreatePermission_def Let_def WriteHeader_eq f au finish_frame [OF assms] ..
qed

lemma EncodeSendIndication_frame:
  assumes "length txn = 12"
  shows "EncodeSendIndication txn peer dat =
    turn_frame (TurnMessageType kMethodSend kClassIndication) txn
      (opt_attr (address_ok peer) (kAttrXorPeerAddress, address_value peer txn) @ [(kAttrData, dat)])"
proof -
  let ?T = "TurnMessageType kMethodSend kClassIndication"
  have h: "turn_header ?T txn 0 = turn_header ?T txn 0 @ tlvs []" by simp
  have x: "EncodeXorAddress (turn_header ?T txn 0) kAttrXorPeerAddress peer txn =
      turn_header ?T txn 0 @ tlvs (opt_attr (address_ok peer) (kAttrXorPeerAddress, address_value peer txn))"
    by (subst h, subst EncodeXorAddress_tlv [OF aligned [OF assms]]) simp
  have "FinalizeLength (turn_header ?T txn 0 @ tlvs as) = turn_frame ?T txn as" for as
    unfolding FinalizeLength_def put_length turn_frame_def by (simp add: length_turn_header [OF assms])
  moreover have "turn_AppendAttr (turn_header ?T txn 0 @ tlvs as) kAttrData dat = turn_header ?T txn 0 @ tlvs (as @ [(kAttrData, dat)])" for as
    by (subst turn_AppendAttr_tlv [OF aligned [OF assms]]) simp
  ultimately show ?thesis
    unfolding EncodeSendIndication_def Let_def WriteHeader_eq x by (simp only:)
qed


section \<open>What is decoded\<close>

lemma DecodeXorAddress_safe: "DecodeXorAddress v txn \<noteq> None"
proof (cases "length v < 8")
  case True
  then show ?thesis by (simp add: DecodeXorAddress_def)
next
  case False
  then obtain f p x where r: "rd8 v (Suc 0) = Some f" "rd_be16 v 2 = Some p" "rd_be32 v 4 = Some x"
    by (simp add: rd8_in rd_be16_in rd_be32_in)
  show ?thesis
  proof (cases "length v < 20")
    case True
    then show ?thesis using False r by (simp add: DecodeXorAddress_def Let_def del: not_None_eq)
  next
    case long: False
    then obtain a where "subbuf v 4 20 = Some a" by (simp add: subbuf_def)
    then show ?thesis using False r long by (simp add: DecodeXorAddress_def Let_def del: not_None_eq)
  qed
qed

lemma turn_apply_attr_safe: "turn_apply_attr t v out \<noteq> None"
proof -
  obtain a where a: "DecodeXorAddress v (TurnTransactionId out) = Some a"
    using DecodeXorAddress_safe [of v "TurnTransactionId out"] by blast
  have "rd8 v 2 \<noteq> None \<and> rd8 v 3 \<noteq> None" if "4 \<le> length v" using that by (simp add: rd8_in)
  moreover have "rd_be32 v 0 \<noteq> None \<and> rd8 v 0 \<noteq> None" if "length v = 4"
    using that by (simp add: rd8_def rd_be32_in)
  ultimately show ?thesis
    using a by (auto simp: turn_apply_attr_def Let_def)
qed

text \<open>
  No TURN datagram makes the decoder read outside it, and what does not start as a STUN or
  TURN message (first byte above 3, or fewer than twenty bytes) is refused.
\<close>

theorem turn_decode_in_bounds:
  "DecodeMessage bs \<noteq> None \<and> (LooksLikeStunOrTurn bs \<or> DecodeMessage bs = Some None)"
proof (cases "length bs < 20")
  case True
  then show ?thesis by (simp add: DecodeMessage_def)
next
  case False
  then obtain t l c tid where r: "rd_be16 bs 0 = Some t" "rd_be16 bs 2 = Some l" "rd_be32 bs 4 = Some c"
    "subbuf bs 8 20 = Some tid"
    by (simp add: rd_be16_in rd_be32_in subbuf_in)
  have b0: "rd8 bs 0 = Some (bs ! 0)" using False by (auto simp: rd8_def)
  show ?thesis
  proof (cases "bs ! 0 > 3")
    case True
    then show ?thesis using False b0 by (simp add: DecodeMessage_def)
  next
    case low: False
    then have "LooksLikeStunOrTurn bs" using False by (simp add: LooksLikeStunOrTurn_def)
    moreover have "decode_attrs turn_apply_attr bs 20 (20 + unat l) m \<noteq> None" if "20 + unat l \<le> length bs" for m
      using decode_attrs_safe [OF that, of turn_apply_attr 20 m] turn_apply_attr_safe by blast
    ultimately show ?thesis
      using False r low b0 by (simp add: DecodeMessage_def not_less del: not_None_eq)
  qed
qed

lemma turn_header_reads:
  assumes "length txn = 12"
  shows "rd8 (turn_header type txn l @ xs) 0 = Some (byte_at 8 type)"
    and "rd_be16 (turn_header type txn l @ xs) 0 = Some type"
    and "rd_be16 (turn_header type txn l @ xs) 2 = Some l"
    and "rd_be32 (turn_header type txn l @ xs) 4 = Some turn_kMagicCookie"
    and "subbuf (turn_header type txn l @ xs) 8 20 = Some txn"
  using assms
  by (simp_all add: turn_header_def rd8_def rd_be16_in rd_be32_in be16_def be32_def subbuf_in)

lemma DecodeMessage_frame:
  assumes t: "length txn = 12" and ty: "byte_at 8 type \<le> 3"
    and short: "\<forall>a \<in> set as. length (snd a) < 65536" and fits: "length (tlvs as) < 65536"
  shows "DecodeMessage (turn_frame type txn as) = Some (Some (apply_all turn_apply_attr as
      (TurnMessage_default\<lparr>TurnType := type, TurnTransactionId := txn, Raw := turn_frame type txn as\<rparr>)))"
proof -
  define P where "P = tlvs as"
  define H where "H = turn_header type txn (of_nat (length P))"
  have H: "length H = 20" unfolding H_def using t by (rule length_turn_header)
  have u: "unat (of_nat (length P) :: u16) = length P"
    using fits by (simp add: P_def unat_of_nat take_bit_nat_eq_self)
  have r: "rd8 (H @ P) 0 = Some (byte_at 8 type)" "rd_be16 (H @ P) 0 = Some type" "rd_be16 (H @ P) 2 = Some (of_nat (length P))"
    "rd_be32 (H @ P) 4 = Some turn_kMagicCookie" "subbuf (H @ P) 8 20 = Some txn"
    unfolding H_def by (rule turn_header_reads [OF t])+
  have w: "decode_attrs turn_apply_attr (H @ P) 20 (20 + length P) out =
      decode_attrs turn_apply_attr (H @ P) (length (H @ P)) (20 + length P) (apply_all turn_apply_attr as out)" for out
    using decode_attrs_tlvs [of as "H @ P" H "[]" "20 + length P" turn_apply_attr] turn_apply_attr_safe short H
    unfolding P_def by simp
  have stop: "decode_attrs turn_apply_attr (H @ P) (20 + length P) (20 + length P) out = Some (Some out)" for out
    by (subst decode_attrs.simps) simp
  have f: "turn_frame type txn as = H @ P" by (simp add: turn_frame_def H_def P_def)
  show ?thesis
    unfolding f DecodeMessage_def using u ty by (simp add: H r w stop not_less [symmetric])
qed

text \<open>What each attribute the client sends does to the message.\<close>

lemma turn_apply_auth:
  "apply_all turn_apply_attr (auth_attrs u r n) m = m\<lparr>
     HasUsername := u \<noteq> [] \<or> HasUsername m, TurnUsername := if u \<noteq> [] then u else TurnUsername m,
     HasRealm := r \<noteq> [] \<or> HasRealm m, Realm := if r \<noteq> [] then r else Realm m,
     HasNonce := n \<noteq> [] \<or> HasNonce m, Nonce := if n \<noteq> [] then n else Nonce m\<rparr>"
  by (simp add: auth_attrs_def apply_attrs_append apply_opt turn_apply_attr_def turn_attrs)

lemma turn_apply_sealed:
  "apply_all turn_apply_attr (sealed hmac type txn key as) m =
     (let m' = apply_all turn_apply_attr as m
      in if key \<noteq> [] then m'\<lparr>HasMessageIntegrity := True, TurnMessageIntegrity := turn_mac hmac type txn key as\<rparr> else m')"
  by (simp add: sealed_def apply_attrs_append apply_opt turn_apply_attr_def turn_attrs Let_def)

lemma turn_apply_lifetime:
  "apply_all turn_apply_attr [(kAttrLifetime, be32 lt)] m = m\<lparr>HasLifetime := True, Lifetime := lt\<rparr>"
  by (simp add: apply_all_def turn_apply_attr_def turn_attrs)

lemma turn_apply_transport:
  "apply_all turn_apply_attr [(kAttrRequestedTransport, [17, 0, 0, 0])] m =
     m\<lparr>HasRequestedTransport := True, Protocol := 17\<rparr>"
  by (simp add: apply_all_def turn_apply_attr_def turn_attrs rd8_def)

lemma turn_apply_dont_fragment: "apply_all turn_apply_attr [(kAttrDontFragment, [])] m = m"
  by (simp add: apply_all_def turn_apply_attr_def turn_attrs)

lemma turn_apply_data: "apply_all turn_apply_attr [(kAttrData, d)] m = m\<lparr>HasData := True, Data := d\<rparr>"
  by (simp add: apply_all_def turn_apply_attr_def turn_attrs)


section \<open>Properties\<close>

lemma byte_at_types:
  "byte_at 8 (TurnMessageType kMethodAllocate kClassRequest) \<le> 3"
  "byte_at 8 (TurnMessageType kMethodRefresh kClassRequest) \<le> 3"
  "byte_at 8 (TurnMessageType kMethodCreatePermission kClassRequest) \<le> 3"
  "byte_at 8 (TurnMessageType kMethodSend kClassIndication) \<le> 3"
  by code_simp+

lemma length_auth_attrs: "length (tlvs (auth_attrs u r n)) \<le> length u + length r + length n + 21"
  using length_opt [of "u \<noteq> []" "(kAttrUsername, bytes_of_string u)"]
    length_opt [of "r \<noteq> []" "(kAttrRealm, bytes_of_string r)"] length_opt [of "n \<noteq> []" "(kAttrNonce, n)"]
  by (simp add: auth_attrs_def)

lemma auth_attrs_short:
  "length u + length r + length n \<le> 60000 \<Longrightarrow> a \<in> set (auth_attrs u r n) \<Longrightarrow>
     length (snd a) < 65536 \<and> fst a \<noteq> kAttrMessageIntegrity"
  by (auto simp: auth_attrs_def opt_attr_def turn_attrs split: if_splits)

lemma length_sealed: "length (tlvs (sealed hmac type txn key as)) \<le> length (tlvs as) + 27"
  using length_opt [of "key \<noteq> []" "(kAttrMessageIntegrity, turn_mac hmac type txn key as)"]
  by (simp add: sealed_def)

lemma sealed_short:
  "\<forall>a \<in> set as. length (snd a) < 65536 \<Longrightarrow> a \<in> set (sealed hmac type txn key as) \<Longrightarrow> length (snd a) < 65536"
  by (auto simp: sealed_def opt_attr_def split: if_splits)

lemma length_fixed_attrs:
  "length (tlv (t, [17, 0, 0, 0])) = 8" "length (tlv (t, [])) = 4" "length (tlv (t, be32 lt)) = 8"
  by (simp_all add: length_tlv attr_advance_eq)

text \<open>The server that knows the key accepts what the client seals.\<close>

lemma sealed_verifies:
  assumes t: "length txn = 12" and key: "key \<noteq> []"
    and short: "\<forall>a \<in> set as. length (snd a) < 65536 \<and> fst a \<noteq> kAttrMessageIntegrity"
    and fits: "length (tlvs as) \<le> 65000"
  shows "VerifyMessageIntegrity hmac (turn_frame type txn (sealed hmac type txn key as)) (string_of_bytes key) = Some True"
proof -
  let ?as = "sealed hmac type txn key as"
  let ?l = "of_nat (length (tlvs ?as)) :: u16"
  let ?H = "turn_header type txn ?l"
  have kMI: "kAttrMessageIntegrity = kStunAttrMessageIntegrity"
    by (simp add: turn_attrs stun_attrs)
  have e: "tlvs ?as = tlvs as @ tlv (kStunAttrMessageIntegrity, turn_mac hmac type txn key as)"
    using key by (simp add: sealed_def opt_attr_def kMI)
  have n: "length (tlvs ?as) = length (tlvs as) + 24" by (simp add: e length_tlv attr_advance_eq)
  then have "length (tlvs ?as) < 65536" using fits by simp
  then have u: "unat ?l = length (tlvs ?as)" by (simp add: unat_of_nat take_bit_nat_eq_self)
  show ?thesis
  proof (rule VerifyMessageIntegrity_attrs [where H = ?H and l = ?l and as = as and rest = "[]"])
    show "length ?H = 20" using t by (rule length_turn_header)
    show "rd_be16 (turn_frame type txn ?as) 2 = Some ?l"
      unfolding turn_frame_def by (rule turn_header_reads [OF t])
    show "\<forall>a \<in> set as. length (snd a) < 65536 \<and> fst a \<noteq> kStunAttrMessageIntegrity"
      using short by (simp add: kMI)
    show "turn_mac hmac type txn key as = fill 20 (hmac (bytes_of_string (string_of_bytes key))
        (WriteU16 (?H @ tlvs as) 2 (of_nat (length (tlvs as) + 24))))"
      unfolding WriteU16_def put_length turn_mac_def by simp
    show "turn_frame type txn ?as = ?H @ tlvs as @ tlv (kStunAttrMessageIntegrity, turn_mac hmac type txn key as) @ []"
      by (simp add: turn_frame_def e)
    show "length (tlvs as) + 24 \<le> unat ?l" unfolding u by (simp add: n)
    show "20 + unat ?l \<le> length (turn_frame type txn ?as)"
      unfolding u turn_frame_def length_append length_turn_header [OF t] ..
  qed
qed

text \<open>
  An Allocate request is understood by a server with the same codec, and authenticated:
  decoding it gives the request's transaction id, lifetime, UDP transport and credentials exactly
  (with or without a username, realm and nonce), and when there is a key its MESSAGE-INTEGRITY
  verifies under that key.
\<close>

theorem turn_allocate_roundtrip:
  assumes "length txn = 12" and "length username + length realm + length nonce \<le> 60000"
    and dgram: "dgram = EncodeAllocate hmac txn lifetime username realm nonce key"
  shows "(\<exists>mac. DecodeMessage dgram = Some (Some (TurnMessage_default\<lparr>
      TurnType := TurnMessageType kMethodAllocate kClassRequest, TurnTransactionId := txn,
      HasUsername := username \<noteq> [], TurnUsername := username, HasRealm := realm \<noteq> [], Realm := realm,
      HasNonce := nonce \<noteq> [], Nonce := nonce, HasLifetime := True, Lifetime := lifetime,
      HasRequestedTransport := True, Protocol := 17, HasMessageIntegrity := key \<noteq> [],
      TurnMessageIntegrity := if key \<noteq> [] then mac else [], Raw := dgram\<rparr>)))
    \<and> (key = [] \<or> VerifyMessageIntegrity hmac dgram (string_of_bytes key) = Some True)"
proof -
  let ?T = "TurnMessageType kMethodAllocate kClassRequest"
  define as where "as = [(kAttrRequestedTransport, [17, 0, 0, 0]), (kAttrDontFragment, []),
    (kAttrLifetime, be32 lifetime)] @ auth_attrs username realm nonce"
  have f: "dgram = turn_frame ?T txn (sealed hmac ?T txn key as)"
    unfolding dgram as_def by (rule EncodeAllocate_frame [OF assms(1)])
  have short: "\<forall>a \<in> set as. length (snd a) < 65536 \<and> fst a \<noteq> kAttrMessageIntegrity"
    using auth_attrs_short [OF assms(2)] by (auto simp: as_def turn_attrs)
  have fits: "length (tlvs as) \<le> 65000"
    using length_auth_attrs [of username realm nonce] assms(2) by (simp add: as_def length_fixed_attrs)
  have "DecodeMessage dgram = Some (Some (apply_all turn_apply_attr (sealed hmac ?T txn key as)
      (TurnMessage_default\<lparr>TurnType := ?T, TurnTransactionId := txn, Raw := dgram\<rparr>)))"
    unfolding f
  proof (rule DecodeMessage_frame [OF assms(1) byte_at_types(1)])
    show "\<forall>a \<in> set (sealed hmac ?T txn key as). length (snd a) < 65536"
      using sealed_short short by blast
    show "length (tlvs (sealed hmac ?T txn key as)) < 65536"
      using length_sealed [of hmac ?T txn key as] fits by simp
  qed
  moreover have "apply_all turn_apply_attr as m = apply_all turn_apply_attr (auth_attrs username realm nonce)
      (m\<lparr>HasRequestedTransport := True, Protocol := 17, HasLifetime := True, Lifetime := lifetime\<rparr>)" for m
    unfolding as_def using apply_attrs_append [of turn_apply_attr "[_]"]
      turn_apply_transport turn_apply_dont_fragment turn_apply_lifetime
    by (simp add: apply_all_def turn_apply_attr_def turn_attrs rd8_def)
  ultimately have "DecodeMessage dgram = Some (Some (TurnMessage_default\<lparr>
      TurnType := TurnMessageType kMethodAllocate kClassRequest, TurnTransactionId := txn,
      HasUsername := username \<noteq> [], TurnUsername := username, HasRealm := realm \<noteq> [], Realm := realm,
      HasNonce := nonce \<noteq> [], Nonce := nonce, HasLifetime := True, Lifetime := lifetime,
      HasRequestedTransport := True, Protocol := 17, HasMessageIntegrity := key \<noteq> [],
      TurnMessageIntegrity := if key \<noteq> [] then turn_mac hmac ?T txn key as else [], Raw := dgram\<rparr>))"
    by (simp add: turn_apply_sealed turn_apply_auth TurnMessage_default_def Let_def)
  moreover have "VerifyMessageIntegrity hmac dgram (string_of_bytes key) = Some True" if "key \<noteq> []"
    unfolding f by (rule sealed_verifies [OF assms(1) that short fits])
  ultimately show ?thesis by blast
qed

theorem turn_allocate_roundtrip_witness:
  "\<exists>m. DecodeMessage (EncodeAllocate (\<lambda>k m i. k ! 0) (replicate 12 7) 600 ''u'' ''r'' [1, 2] [3]) = Some (Some m)
     \<and> TurnUsername m = ''u'' \<and> Lifetime m = 600 \<and> HasMessageIntegrity m"
proof -
  have "length (replicate 12 (7 :: u8)) = 12" "length ''u'' + length ''r'' + length [1, 2 :: u8] \<le> 60000" by simp_all
  from turn_allocate_roundtrip [OF this refl, of "\<lambda>k m i. k ! 0" 600 "[3]"] show ?thesis
    by auto
qed

lemma DecodeXorAddress_v4:
  assumes "Family a = kFamilyIPv4" and "length (Address a) = 4"
  shows "DecodeXorAddress (address_value a txn) txn = Some (Some a)"
proof -
  have four: "[0..<4] = [0, 1, 2, 3 :: nat]" by code_simp
  have "Address a = map ((!) (Address a)) [0..<4]"
    using assms(2) by (intro nth_equalityI) simp_all
  then have adr: "[Address a ! 0, Address a ! Suc 0, Address a ! 2, Address a ! 3] = Address a"
    by (simp add: four)
  define v where "v = address_value a txn"
  have v: "v = [0, 1] @ be16 (AddrPort a XOR ucast (drop_bit 16 turn_kMagicCookie)) @
      be32 (be32_of (Address a ! 0) (Address a ! 1) (Address a ! 2) (Address a ! 3) XOR turn_kMagicCookie)"
    using assms(1) by (simp add: v_def address_value_def)
  have r: "length v = 8" "rd8 v (Suc 0) = Some kFamilyIPv4"
    "rd_be16 v 2 = Some (AddrPort a XOR ucast (drop_bit 16 turn_kMagicCookie))"
    "rd_be32 v 4 = Some (be32_of (Address a ! 0) (Address a ! 1) (Address a ! 2) (Address a ! 3) XOR turn_kMagicCookie)"
    by (simp_all add: v rd8_def rd_be16_in rd_be32_in be16_def be32_def kFamilyIPv4_def)
  have "DecodeXorAddress v txn = Some (Some \<lparr>Family = kFamilyIPv4, AddrPort = AddrPort a, Address = Address a\<rparr>)"
    by (simp add: DecodeXorAddress_def r Let_def xor_cancel adr)
  then show ?thesis using assms(1) by (simp add: v_def)
qed

lemma DecodeXorAddress_v6:
  assumes "Family a = kFamilyIPv6"
  shows "DecodeXorAddress (address_value a txn) txn = Some None"
proof -
  define v where "v = address_value a txn"
  have v: "v = [0, 0, 0, 0] @ map (\<lambda>i. Address a ! i XOR ipv6_mask txn ! i) [0..<16]"
    using assms kFamily_neq by (simp add: v_def address_value_def)
  have "length v = 20" "rd8 v (Suc 0) = Some 0" by (simp_all add: v rd8_def)
  moreover obtain p where "rd_be16 v 2 = Some p" by (simp add: v rd_be16_in)
  ultimately show ?thesis
    unfolding v_def [symmetric]
    by (simp add: DecodeXorAddress_def Let_def kFamilyIPv4_def kFamilyIPv6_def)
qed

lemma turn_apply_peer:
  assumes "address_ok a"
  shows "apply_all turn_apply_attr [(kAttrXorPeerAddress, address_value a (TurnTransactionId m))] m =
    (if Family a = kFamilyIPv4 then m\<lparr>XorPeers := XorPeers m @ [a]\<rparr> else m)"
  using assms DecodeXorAddress_v4 [of a "TurnTransactionId m"] DecodeXorAddress_v6 [of a "TurnTransactionId m"] kFamily_neq
  by (auto simp: apply_all_def turn_apply_attr_def turn_attrs address_ok_def)

lemma length_address_value: "length (address_value a txn) \<le> 20"
  by (simp add: address_value_def)

text \<open>
  A Send indication delivers its data: decoded, it gives the transaction id, the data and,
  for an IPv4 peer, exactly that peer. For an IPv6 peer it gives no peer at all: the encoder clears
  the family of the address after writing it, so the server cannot tell where the data is to go.
\<close>

theorem turn_send_indication:
  assumes "length txn = 12" and "address_ok peer" and "length dat \<le> 60000"
    and dgram: "dgram = EncodeSendIndication txn peer dat"
  shows "DecodeMessage dgram = Some (Some (TurnMessage_default\<lparr>
      TurnType := TurnMessageType kMethodSend kClassIndication, TurnTransactionId := txn,
      XorPeers := if Family peer = kFamilyIPv4 then [peer] else [], HasData := True, Data := dat, Raw := dgram\<rparr>))"
proof -
  let ?T = "TurnMessageType kMethodSend kClassIndication"
  define as where "as = [(kAttrXorPeerAddress, address_value peer txn)] @ [(kAttrData, dat)]"
  have f: "dgram = turn_frame ?T txn as"
    unfolding dgram EncodeSendIndication_frame [OF assms(1)] as_def using assms(2) by (simp add: opt_attr_def)
  have d: "DecodeMessage dgram = Some (Some (apply_all turn_apply_attr as
      (TurnMessage_default\<lparr>TurnType := ?T, TurnTransactionId := txn, Raw := dgram\<rparr>)))"
    unfolding f
  proof (rule DecodeMessage_frame [OF assms(1) byte_at_types(4)])
    show "\<forall>a \<in> set as. length (snd a) < 65536"
      using assms(3) length_address_value [of peer txn] by (auto simp: as_def)
    show "length (tlvs as) < 65536"
      using assms(3) length_address_value [of peer txn] attr_advance_le [of "length (address_value peer txn)"]
        attr_advance_le [of "length dat"] by (simp add: as_def length_tlv)
  qed
  show ?thesis
    unfolding d as_def apply_attrs_append turn_apply_data
    using turn_apply_peer [OF assms(2), of "TurnMessage_default\<lparr>TurnType := ?T, TurnTransactionId := txn, Raw := dgram\<rparr>"]
    by (simp add: TurnMessage_default_def)
qed

theorem turn_send_indication_witness:
  "\<exists>m. DecodeMessage (EncodeSendIndication (replicate 12 7) \<lparr>Family = 1, AddrPort = 443, Address = [1, 2, 3, 4]\<rparr> [9, 8])
     = Some (Some m) \<and> Data m = [9, 8] \<and> XorPeers m = [\<lparr>Family = 1, AddrPort = 443, Address = [1, 2, 3, 4]\<rparr>]"
  using turn_send_indication [of "replicate 12 7" "\<lparr>Family = 1, AddrPort = 443, Address = [1, 2, 3, 4]\<rparr>" "[9, 8]", OF _ _ _ refl]
  by (simp add: address_ok_def kFamilyIPv4_def kFamilyIPv6_def)

lemma nat16_cases:
  "n < (16 :: nat) \<Longrightarrow> n = 15 \<or> n = 14 \<or> n = 13 \<or> n = 12 \<or> n = 11 \<or> n = 10 \<or> n = 9 \<or> n = 8
     \<or> n = 7 \<or> n = 6 \<or> n = 5 \<or> n = 4 \<or> n = 3 \<or> n = 2 \<or> n = 1 \<or> n = 0"
  by presburger

lemma bit_times_two: "bit (x * 2 :: u16) n \<longleftrightarrow> 0 < n \<and> n < 16 \<and> bit x (n - 1)"
  using bit_push_bit_iff [of 1 x n] by (auto simp: push_bit_eq_mult)

text \<open>The layout of RFC 5389: class bits 4 and 8, method bits around them.\<close>

definition rfc_message_type :: "u16 \<Rightarrow> u16 \<Rightarrow> u16" where
  "rfc_message_type method cls =
     (method AND 0x0F) OR push_bit 1 (method AND 0x70) OR push_bit 2 (method AND 0xF80) OR (cls AND 0x110)"

definition turn_classes :: "u16 list" where
  "turn_classes = [kClassRequest, kClassIndication, kClassSuccess, kClassError]"

lemma bit_TurnMessageType:
  "n < 16 \<Longrightarrow> bit (TurnMessageType m c) n \<longleftrightarrow>
     (if n < 4 then bit m n else if n = 4 then bit c 4 else if n < 8 then bit m (n - 1)
      else if n = 9 then bit m 7 \<or> bit c 8 else if 8 < n \<and> n < 14 then bit m (n - 2) else False)"
  unfolding TurnMessageType_def Let_def
  by (drule nat16_cases, elim disjE) (simp_all add: bit_simps bit_times_two)

lemma bit_rfc_message_type:
  "n < 16 \<Longrightarrow> bit (rfc_message_type m c) n \<longleftrightarrow>
     (if n < 4 then bit m n else if n = 4 then bit c 4 else if n < 8 then bit m (n - 1)
      else if n = 8 then bit c 8 else if 8 < n \<and> n < 14 then bit m (n - 2) else False)"
  unfolding rfc_message_type_def
  by (drule nat16_cases, elim disjE) (simp_all add: bit_simps bit_times_two)

lemma bit_TurnMethodOf:
  "n < 16 \<Longrightarrow> bit (TurnMethodOf t) n \<longleftrightarrow>
     (if n < 4 then bit t n else if n < 7 then bit t (n + 1) else if n < 12 then bit t (n + 2) else False)"
  unfolding TurnMethodOf_def
  by (drule nat16_cases, elim disjE) (simp_all add: bit_simps)

lemma bit_TurnClassOf:
  "n < 16 \<Longrightarrow> bit (TurnClassOf t) n \<longleftrightarrow> (if n = 4 then bit t 4 else if n = 8 then bit t 9 else False)"
  unfolding TurnClassOf_def
  by (drule nat16_cases, elim disjE) (simp_all add: bit_simps)

lemma low_method_bits: "m < 0x80 \<Longrightarrow> \<not> bit (m :: u16) (n + 7)"
proof -
  assume "m < 0x80"
  then have "unat m < 2 ^ 7" by (simp add: word_less_nat_alt)
  then have "take_bit 7 m = m"
    by (simp add: unsigned_take_bit_eq take_bit_nat_eq_self word_unat_eq_iff)
  then show ?thesis by (metis bit_take_bit_iff not_add_less2)
qed

lemma low_method_bits':
  "m < 0x80 \<Longrightarrow> \<not> bit (m :: u16) 7 \<and> \<not> bit m 8 \<and> \<not> bit m 9 \<and> \<not> bit m 10 \<and> \<not> bit m 11
     \<and> \<not> bit m 12 \<and> \<not> bit m 13 \<and> \<not> bit m 14 \<and> \<not> bit m 15"
  using low_method_bits [of m 0] low_method_bits [of m 1] low_method_bits [of m 2] low_method_bits [of m 3]
    low_method_bits [of m 4] low_method_bits [of m 5] low_method_bits [of m 6] low_method_bits [of m 7]
    low_method_bits [of m 8] by simp

lemma class_bits:
  assumes "cls \<in> set turn_classes" and "n < 16" and "n \<noteq> 4" and "n \<noteq> 8"
  shows "\<not> bit cls n"
proof -
  have "cls = 0 \<or> cls = 0x10 \<or> cls = 0x100 \<or> cls = 0x110"
    using assms(1) by (auto simp: turn_classes_def kClassRequest_def kClassIndication_def kClassSuccess_def kClassError_def)
  then show ?thesis using nat16_cases [OF assms(2)] assms(3,4) by (elim disjE) simp_all
qed

lemma class_by_bits:
  assumes "cls \<in> set turn_classes"
  shows "cls = kClassRequest \<longleftrightarrow> \<not> bit cls 4 \<and> \<not> bit cls 8"
    and "cls = kClassIndication \<longleftrightarrow> bit cls 4 \<and> \<not> bit cls 8"
    and "cls = kClassSuccess \<longleftrightarrow> \<not> bit cls 4 \<and> bit cls 8"
  using assms
  by (auto simp: turn_classes_def kClassRequest_def kClassIndication_def kClassSuccess_def kClassError_def)

lemma word16_eqI: "(\<And>n. n < 16 \<Longrightarrow> bit a n = bit (b :: u16) n) \<Longrightarrow> a = b"
  by (rule bit_word_eqI) simp

text \<open>
  The message types of TURN. For the methods in use, the client's own encoding gives back
  the class, and it is the layout of RFC 5389 for requests and indications. It is not for responses:
  the class bit 8 is moved to position 9. So of a response as a standard server sends it, the client
  reads the right method, but takes a success response for a request and an error response for an
  indication.
\<close>

theorem turn_type_layout:
  assumes m: "method < 0x80" and c: "cls \<in> set turn_classes"
  shows "TurnClassOf (TurnMessageType method cls) = cls
    \<and> (TurnMessageType method cls = rfc_message_type method cls \<longleftrightarrow> cls = kClassRequest \<or> cls = kClassIndication)
    \<and> TurnMethodOf (rfc_message_type method cls) = method
    \<and> TurnClassOf (rfc_message_type method cls) =
        (if cls = kClassRequest \<or> cls = kClassSuccess then kClassRequest else kClassIndication)"
proof (intro conjI)
  note hi = low_method_bits' [OF m]
  have ci: "kClassIndication = 0x10" by (simp add: kClassIndication_def)
  have cr: "kClassRequest = 0" by (simp add: kClassRequest_def)
  show "TurnClassOf (TurnMessageType method cls) = cls"
    by (rule word16_eqI) (use hi class_bits [OF c] in \<open>auto simp: bit_TurnClassOf bit_TurnMessageType\<close>)
  show "TurnMethodOf (rfc_message_type method cls) = method"
  proof (rule word16_eqI)
    fix n :: nat assume n: "n < 16"
    then show "bit (TurnMethodOf (rfc_message_type method cls)) n = bit method n"
      using nat16_cases [OF n] hi
      by (elim disjE) (simp_all add: bit_TurnMethodOf bit_rfc_message_type)
  qed
  show "TurnMessageType method cls = rfc_message_type method cls \<longleftrightarrow> cls = kClassRequest \<or> cls = kClassIndication"
  proof
    assume e: "TurnMessageType method cls = rfc_message_type method cls"
    have "bit (TurnMessageType method cls) 8 = bit (rfc_message_type method cls) 8" by (simp only: e)
    then have "\<not> bit cls 8" by (simp add: bit_TurnMessageType bit_rfc_message_type)
    then show "cls = kClassRequest \<or> cls = kClassIndication" using class_by_bits [OF c] by blast
  next
    assume "cls = kClassRequest \<or> cls = kClassIndication"
    then have "\<not> bit cls 8" using class_by_bits [OF c] by blast
    then show "TurnMessageType method cls = rfc_message_type method cls"
      using hi by (intro word16_eqI) (auto simp: bit_TurnMessageType bit_rfc_message_type)
  qed
  have k: "\<not> bit (TurnClassOf (rfc_message_type method cls)) n" if "n < 16" "n \<noteq> 4" for n
    using hi that by (simp add: bit_TurnClassOf bit_rfc_message_type)
  have b4: "bit (TurnClassOf (rfc_message_type method cls)) 4 = bit cls 4"
    by (simp add: bit_TurnClassOf bit_rfc_message_type)
  have "TurnClassOf (rfc_message_type method cls) = (if bit cls 4 then 0x10 else 0)"
  proof (rule word16_eqI)
    fix n :: nat assume n: "n < 16"
    show "bit (TurnClassOf (rfc_message_type method cls)) n = bit (if bit cls 4 then 0x10 else 0 :: u16) n"
    proof (cases "n = 4")
      case True
      then show ?thesis using b4 by simp
    next
      case False
      then have "\<not> bit (0x10 :: u16) n" using nat16_cases [OF n] by (elim disjE) simp_all
      then show ?thesis using k [OF n False] by simp
    qed
  qed
  then show "TurnClassOf (rfc_message_type method cls) =
      (if cls = kClassRequest \<or> cls = kClassSuccess then kClassRequest else kClassIndication)"
    using class_by_bits [OF c] by (auto simp: ci cr)
qed

theorem turn_type_layout_witness:
  "rfc_message_type kMethodAllocate kClassError = 0x0113 \<and> TurnClassOf 0x0113 = kClassIndication
     \<and> TurnMethodOf 0x0113 = kMethodAllocate"
proof -
  have e: "rfc_message_type kMethodAllocate kClassError = 0x0113" by code_simp
  have "kMethodAllocate < 0x80" "kClassError \<in> set turn_classes"
    by (simp_all add: kMethodAllocate_def turn_classes_def)
  from turn_type_layout [OF this] e show ?thesis
    by (simp add: kClassRequest_def kClassSuccess_def kClassError_def)
qed

end
