(* ===== verification/TurnAddressText.thy ===== *)
theory TurnAddressText
  imports TurnMessage
begin

text \<open>
  The address helpers of \<open>infrastructure/turn/turn_message.cpp\<close>: reading the text of an IPv4 or IPv6
  address and printing an address for the log. A failed parse leaves the address empty and the
  family zero; the port is kept.
\<close>

unbundle bit_operations_syntax

section \<open>Parsing\<close>

definition MakeAddressIPv4 :: "u8 \<Rightarrow> u8 \<Rightarrow> u8 \<Rightarrow> u8 \<Rightarrow> int \<Rightarrow> TurnAddress" where
  "MakeAddressIPv4 a b c d port = \<lparr>Family = kFamilyIPv4, AddrPort = word_of_int port, Address = [a, b, c, d]\<rparr>"

text \<open>
  The loop over the dotted quad; the text is the address followed by the dot the code supplies at
  the end. The accumulator is at most 255 before each digit, so the \<open>unsigned int\<close> cannot wrap.
\<close>

fun quad_loop :: "string \<Rightarrow> nat list \<Rightarrow> nat \<Rightarrow> bool \<Rightarrow> nat list option" where
  "quad_loop [] parts acc inDigit = Some parts"
| "quad_loop (ch # s) parts acc inDigit =
     (if is_digit ch then
        (let acc = acc * 10 + digit_val ch in
         if acc > 255 then None else quad_loop s parts acc True)
      else if ch = CHR ''.'' then
        if \<not> inDigit then None
        else if length parts \<ge> 4 then None
        else quad_loop s (parts @ [acc]) 0 False
      else None)"

text \<open>Up to four hex digits: the group, how many digits it took, the rest of the text.\<close>

fun hex_group :: "nat \<Rightarrow> string \<Rightarrow> nat \<Rightarrow> nat \<times> nat \<times> string" where
  "hex_group count [] g = (g, count, [])"
| "hex_group count (ch # s) g =
     (if count < 4
      then (case hex_val ch of Some hv \<Rightarrow> hex_group (count + 1) s (g * 16 + hv) | None \<Rightarrow> (g, count, ch # s))
      else (g, count, ch # s))"

lemma hex_group_length: "hex_group c s g = (g', c', r) \<Longrightarrow> length r + c' = length s + c \<and> c \<le> c'"
  by (induction c s g rule: hex_group.induct) (fastforce split: if_splits option.splits)+

text \<open>The groups read so far and the place of the double colon; no result on a second double colon.\<close>

function groups_loop :: "string \<Rightarrow> nat list \<Rightarrow> nat option \<Rightarrow> (nat list \<times> nat option) option" where
  "groups_loop s groups dblColon =
     (if s = [] \<or> length groups \<ge> 8 then Some (groups, dblColon)
      else if hd s = CHR '':'' then
        if length s > 1 \<and> s ! 1 = CHR '':'' then
          if dblColon \<noteq> None then None
          else groups_loop (drop 2 s) groups (Some (length groups))
        else groups_loop (tl s) groups dblColon
      else
        (case hex_group 0 s 0 of (g, hexCount, r) \<Rightarrow>
           if hexCount = 0 then Some (groups, dblColon)
           else groups_loop r (groups @ [g]) dblColon))"
  by pat_completeness auto
termination
  by (relation "measure (\<lambda>(s, groups, dblColon). length s)") (auto dest!: sym [THEN hex_group_length] simp: neq_Nil_conv)

declare groups_loop.simps [simp del]

text \<open>The eight groups, with the trailing ones moved to the end and zeros in the gap.\<close>

definition expand_groups :: "nat list \<Rightarrow> nat \<Rightarrow> nat \<Rightarrow> nat list" where
  "expand_groups groups gIdx dblColon =
     (let trailing = gIdx - dblColon;
          zeros = 8 - gIdx;
          groups = fold (\<lambda>j gs. gs[dblColon + zeros + j := gs ! (dblColon + j)]) (rev [0..<trailing]) groups;
          groups = fold (\<lambda>j gs. gs[dblColon + j := 0]) [0..<zeros] groups
      in groups)"

definition MakeAddress :: "string \<Rightarrow> int \<Rightarrow> TurnAddress" where
  "MakeAddress ip port =
     (let out = TurnAddress_default\<lparr>AddrPort := word_of_int port\<rparr> in
      if ip = [] then out
      else if CHR ''.'' \<in> set ip then
        (case quad_loop (ip @ ''.'') [] 0 False of
           None \<Rightarrow> out
         | Some parts \<Rightarrow>
             if length parts \<noteq> 4 then out
             else out\<lparr>Family := kFamilyIPv4, Address := map of_nat parts\<rparr>)
      else
        (case groups_loop ip [] None of
           None \<Rightarrow> out
         | Some (gs, dblColon) \<Rightarrow>
             (let gIdx = length gs;
                  groups = gs @ replicate (8 - gIdx) 0;
                  (groups, gIdx) = (case dblColon of
                      Some dc \<Rightarrow> (expand_groups groups gIdx dc, 8)
                    | None \<Rightarrow> (groups, gIdx))
              in if gIdx \<noteq> 8 then out
                 else out\<lparr>Family := kFamilyIPv6,
                          Address := concat (map (\<lambda>g. [of_nat (g div 256), of_nat (g mod 256)]) groups)\<rparr>)))"


section \<open>Printing\<close>

fun show_hex :: "nat \<Rightarrow> string" where
  "show_hex n = (if n < 16 then [hex_digit n] else show_hex (n div 16) @ [hex_digit (n mod 16)])"

declare show_hex.simps [simp del]

definition group_at :: "bytes \<Rightarrow> nat \<Rightarrow> u16" where
  "group_at a i = be16_of (a ! (i * 2)) (a ! (i * 2 + 1))"

definition quad_text :: "bytes \<Rightarrow> string" where
  "quad_text a = show_nat (unat (a ! 0)) @ ''.'' @ show_nat (unat (a ! 1)) @ ''.'' @
     show_nat (unat (a ! 2)) @ ''.'' @ show_nat (unat (a ! 3))"

definition groups_text :: "bytes \<Rightarrow> string" where
  "groups_text a =
     concat (map (\<lambda>i. (if i > 0 then '':'' else []) @ show_hex (unat (group_at a i))) [0..<8])"

definition FormatAddress :: "TurnAddress \<Rightarrow> string" where
  "FormatAddress a =
     (if Family a = kFamilyIPv4 \<and> length (Address a) = 4
      then quad_text (Address a) @ '':'' @ show_nat (unat (AddrPort a))
      else if Family a = kFamilyIPv6 \<and> length (Address a) = 16
      then ''['' @ groups_text (Address a) @ '']:'' @ show_nat (unat (AddrPort a))
      else ''(unknown family '' @ show_nat (unat (Family a)) @ '')'')"


section \<open>Reading back dotted quads\<close>

lemma quad_loop_digits:
  assumes "\<forall>c \<in> set ds. is_digit c" and "foldl (\<lambda>v c. 10 * v + digit_val c) acc ds \<le> 255" and "ds \<noteq> []"
  shows "quad_loop (ds @ r) parts acc b = quad_loop r parts (foldl (\<lambda>v c. 10 * v + digit_val c) acc ds) True"
  using assms
proof (induction ds arbitrary: acc b)
  case (Cons d ds)
  have grow: "v \<le> foldl (\<lambda>v c. 10 * v + digit_val c) v ds" for v
  proof (induction ds arbitrary: v)
    case (Cons a ds)
    have "v \<le> 10 * v + digit_val a" by simp
    also have "\<dots> \<le> foldl (\<lambda>v c. 10 * v + digit_val c) (10 * v + digit_val a) ds" by (rule Cons)
    finally show ?case by simp
  qed simp
  have "10 * acc + digit_val d \<le> 255" using Cons.prems(2) grow [of "10 * acc + digit_val d"] by simp
  then have step: "quad_loop ((d # ds) @ r) parts acc b = quad_loop (ds @ r) parts (10 * acc + digit_val d) True"
    using Cons.prems(1) by (simp add: mult.commute Let_def)
  show ?case
  proof (cases "ds = []")
    case True
    then show ?thesis using step by simp
  next
    case False
    then show ?thesis using step Cons by simp
  qed
qed simp

lemma quad_loop_number:
  assumes "length parts < 4"
  shows "quad_loop (show_nat (unat (b :: u8)) @ CHR ''.'' # r) parts 0 False = quad_loop r (parts @ [unat b]) 0 False"
proof -
  have "unat b < 2 ^ LENGTH(8)" by (rule unsigned_less)
  then have "digits_val (show_nat (unat b)) \<le> 255" by simp
  then have "quad_loop (show_nat (unat b) @ CHR ''.'' # r) parts 0 False = quad_loop (CHR ''.'' # r) parts (unat b) True"
    using quad_loop_digits [of "show_nat (unat b)" 0 "CHR ''.'' # r" parts False] show_nat_digits
    by (simp add: digits_val_def [symmetric])
  then show ?thesis using assms by (simp add: is_digit_def)
qed

lemma MakeAddress_quad:
  assumes "length a = 4"
  shows "MakeAddress (quad_text a) p = \<lparr>Family = kFamilyIPv4, AddrPort = word_of_int p, Address = a\<rparr>"
proof -
  have four: "[0..<4] = [0, 1, 2, 3 :: nat]" by code_simp
  have "map ((!) a) [0..<4] = a" using assms by (intro nth_equalityI) simp_all
  then have a: "[a ! 0, a ! Suc 0, a ! 2, a ! 3] = a" by (simp add: four)
  have "quad_loop (quad_text a @ ''.'') [] 0 False = Some [unat (a ! 0), unat (a ! 1), unat (a ! 2), unat (a ! 3)]"
    unfolding quad_text_def by (simp add: quad_loop_number)
  moreover have "CHR ''.'' \<in> set (quad_text a)" "quad_text a \<noteq> []" by (simp_all add: quad_text_def)
  moreover have "map of_nat [unat (a ! 0), unat (a ! 1), unat (a ! 2), unat (a ! 3)] = a" by (simp add: a)
  ultimately show ?thesis
    by (simp add: MakeAddress_def TurnAddress_default_def Let_def)
qed


section \<open>Reading back groups\<close>

definition is_hex :: "char \<Rightarrow> bool" where
  "is_hex c \<longleftrightarrow> hex_val c \<noteq> None"

definition hex_digits_val :: "nat \<Rightarrow> string \<Rightarrow> nat" where
  "hex_digits_val acc ds = foldl (\<lambda>v c. v * 16 + the (hex_val c)) acc ds"

lemma is_hex_digit: "n < 16 \<Longrightarrow> is_hex (hex_digit n)"
  by (simp add: is_hex_def hex_val_digit)

lemma not_is_hex [simp]: "\<not> is_hex (CHR '':'')"
  by (simp add: is_hex_def hex_val_def)

lemma show_hex_hex: "c \<in> set (show_hex n) \<Longrightarrow> is_hex c"
proof (induction n arbitrary: c rule: show_hex.induct)
  case (1 n)
  then show ?case by (subst (asm) (2) show_hex.simps) (auto simp: is_hex_digit split: if_splits)
qed

lemma show_hex_nonempty [simp]: "show_hex n \<noteq> []"
  by (subst show_hex.simps) simp

lemma hex_digits_val_show: "hex_digits_val 0 (show_hex n) = n"
proof (induction n rule: show_hex.induct)
  case (1 n)
  then show ?case by (subst show_hex.simps) (auto simp: hex_digits_val_def hex_val_digit)
qed

lemma length_show_hex: "n < 16 ^ Suc k \<Longrightarrow> length (show_hex n) \<le> Suc k"
proof (induction k arbitrary: n)
  case 0
  then show ?case by (subst show_hex.simps) simp
next
  case (Suc k)
  then have "n div 16 < 16 ^ Suc k" by (simp add: less_mult_imp_div_less mult.commute)
  from Suc.IH [OF this] show ?case by (subst show_hex.simps) simp
qed

lemma hex_group_digits:
  assumes "\<forall>c \<in> set ds. is_hex c" and "count + length ds \<le> 4" and "r = [] \<or> \<not> is_hex (hd r)"
  shows "hex_group count (ds @ r) g = (hex_digits_val g ds, count + length ds, r)"
  using assms
proof (induction ds arbitrary: count g)
  case Nil
  then show ?case by (cases r) (auto simp: hex_digits_val_def is_hex_def split: option.split)
next
  case (Cons d ds)
  then show ?case by (auto simp: hex_digits_val_def is_hex_def)
qed

lemma hex_group_show:
  assumes "g < 65536" and "r = [] \<or> \<not> is_hex (hd r)"
  shows "hex_group 0 (show_hex g @ r) 0 = (g, length (show_hex g), r)"
  using assms length_show_hex [of g 3] show_hex_hex
  by (subst hex_group_digits) (auto simp: hex_digits_val_show)

fun join_groups :: "nat list \<Rightarrow> string" where
  "join_groups [] = []"
| "join_groups [g] = show_hex g"
| "join_groups (g # h # gs) = show_hex g @ '':'' @ join_groups (h # gs)"

lemma join_groups_hd: "gs \<noteq> [] \<Longrightarrow> join_groups gs @ r \<noteq> [] \<and> is_hex (hd (join_groups gs @ r))"
  using show_hex_hex [OF hd_in_set [OF show_hex_nonempty]]
  by (cases gs rule: join_groups.cases) (simp_all add: hd_append)

lemma groups_loop_group:
  assumes "g < 65536" and "length acc < 8" and "r = [] \<or> hd r = CHR '':''"
  shows "groups_loop (show_hex g @ r) acc dbl = groups_loop r (acc @ [g]) dbl"
proof -
  have "is_hex (hd (show_hex g @ r))" using show_hex_hex [of "hd (show_hex g)" g] by (simp add: hd_append)
  then have "hd (show_hex g @ r) \<noteq> CHR '':''" by (metis not_is_hex)
  moreover have "hex_group 0 (show_hex g @ r) 0 = (g, length (show_hex g), r)"
    using assms by (intro hex_group_show) auto
  ultimately show ?thesis using assms by (subst groups_loop.simps) simp
qed

lemma groups_loop_colon:
  assumes "s \<noteq> []" and "hd s \<noteq> CHR '':''" and "length acc < 8"
  shows "groups_loop (CHR '':'' # s) acc dbl = groups_loop s acc dbl"
  using assms by (subst groups_loop.simps) (auto simp: hd_conv_nth)

lemma groups_loop_join:
  assumes "\<forall>g \<in> set gs. g < 65536" and "length acc + length gs \<le> 8" and "r = [] \<or> hd r = CHR '':''"
    and "gs \<noteq> []"
  shows "groups_loop (join_groups gs @ r) acc dbl = groups_loop r (acc @ gs) dbl"
  using assms
proof (induction gs arbitrary: acc rule: join_groups.induct)
  case (2 g)
  then show ?case using groups_loop_group [of g acc r dbl] by simp
next
  case (3 g h gs)
  let ?s = "join_groups (h # gs) @ r"
  have s: "?s \<noteq> []" "hd ?s \<noteq> CHR '':''" using join_groups_hd [of "h # gs" r] by (auto simp del: join_groups.simps)
  have "groups_loop (join_groups (g # h # gs) @ r) acc dbl = groups_loop (CHR '':'' # ?s) (acc @ [g]) dbl"
    using 3 groups_loop_group [of g acc "CHR '':'' # ?s" dbl] by simp
  also have "\<dots> = groups_loop ?s (acc @ [g]) dbl" using 3 s by (intro groups_loop_colon) auto
  finally show ?case using 3 by simp
qed simp

lemma shift_groups:
  assumes "dc + z + t \<le> length gs"
  shows "length (fold (\<lambda>j gs. gs[dc + z + j := gs ! (dc + j)]) (rev [0..<t]) gs) = length gs
    \<and> (\<forall>i < length gs. fold (\<lambda>j gs. gs[dc + z + j := gs ! (dc + j)]) (rev [0..<t]) gs ! i =
         (if dc + z \<le> i \<and> i < dc + z + t then gs ! (i - z) else gs ! i))"
  using assms
proof (induction t arbitrary: gs)
  case (Suc t)
  let ?g = "gs[dc + z + t := gs ! (dc + t)]"
  have f: "fold (\<lambda>j gs. gs[dc + z + j := gs ! (dc + j)]) (rev [0..<Suc t]) gs =
      fold (\<lambda>j gs. gs[dc + z + j := gs ! (dc + j)]) (rev [0..<t]) ?g" by simp
  have "dc + z + t \<le> length ?g" using Suc.prems by simp
  note ih = Suc.IH [OF this]
  show ?case unfolding f
  proof (intro conjI allI impI)
    show "length (fold (\<lambda>j gs. gs[dc + z + j := gs ! (dc + j)]) (rev [0..<t]) ?g) = length gs" using ih by simp
    fix i assume i: "i < length gs"
    then have "fold (\<lambda>j gs. gs[dc + z + j := gs ! (dc + j)]) (rev [0..<t]) ?g ! i =
        (if dc + z \<le> i \<and> i < dc + z + t then ?g ! (i - z) else ?g ! i)" using ih by simp
    also have "\<dots> = (if dc + z \<le> i \<and> i < dc + z + Suc t then gs ! (i - z) else gs ! i)"
      using Suc.prems i by (auto simp: nth_list_update)
    finally show "fold (\<lambda>j gs. gs[dc + z + j := gs ! (dc + j)]) (rev [0..<t]) ?g ! i =
        (if dc + z \<le> i \<and> i < dc + z + Suc t then gs ! (i - z) else gs ! i)" .
  qed
qed auto

lemma zero_groups:
  assumes "dc + z \<le> length gs"
  shows "length (fold (\<lambda>j gs. gs[dc + j := 0 :: nat]) [0..<z] gs) = length gs
    \<and> (\<forall>i < length gs. fold (\<lambda>j gs. gs[dc + j := 0]) [0..<z] gs ! i = (if dc \<le> i \<and> i < dc + z then 0 else gs ! i))"
  using assms by (induction z) (auto simp: nth_list_update)

lemma expand_groups_eq:
  assumes "dc \<le> length gs" and "length gs \<le> 8"
  shows "expand_groups (gs @ replicate (8 - length gs) 0) (length gs) dc =
    take dc gs @ replicate (8 - length gs) 0 @ drop dc gs"
proof -
  define z where "z = 8 - length gs"
  define g where "g = gs @ replicate z 0"
  have lg: "length g = 8" using assms by (simp add: g_def z_def)
  define s where "s = fold (\<lambda>j gs. gs[dc + z + j := gs ! (dc + j)]) (rev [0..<length gs - dc]) g"
  have s: "length s = 8" "\<And>i. i < 8 \<Longrightarrow> s ! i = (if dc + z \<le> i \<and> i < dc + z + (length gs - dc) then g ! (i - z) else g ! i)"
    using shift_groups [of dc z "length gs - dc" g] assms lg by (simp_all add: s_def z_def)
  have e: "expand_groups g (length gs) dc = fold (\<lambda>j gs. gs[dc + j := 0]) [0..<z] s"
    by (simp add: expand_groups_def Let_def s_def z_def)
  have "length (fold (\<lambda>j gs. gs[dc + j := 0]) [0..<z] s) = 8"
    "\<And>i. i < 8 \<Longrightarrow> fold (\<lambda>j gs. gs[dc + j := 0]) [0..<z] s ! i = (if dc \<le> i \<and> i < dc + z then 0 else s ! i)"
    using zero_groups [of dc z s] assms s(1) by (simp_all add: z_def)
  then have "expand_groups g (length gs) dc = take dc gs @ replicate z 0 @ drop dc gs"
    unfolding e using assms s(2) by (intro nth_equalityI) (auto simp: z_def g_def nth_append)
  then show ?thesis by (simp add: g_def z_def)
qed

definition groups_bytes :: "nat list \<Rightarrow> bytes" where
  "groups_bytes gs = concat (map (\<lambda>g. [of_nat (g div 256), of_nat (g mod 256)]) gs)"

lemma join_groups_no_dot: "CHR ''.'' \<notin> set (join_groups gs)"
proof (induction gs rule: join_groups.induct)
  case (2 g)
  have "\<not> is_hex (CHR ''.'')" by (simp add: is_hex_def hex_val_def)
  then show ?case using show_hex_hex by auto
next
  case (3 g h gs)
  have "\<not> is_hex (CHR ''.'')" by (simp add: is_hex_def hex_val_def)
  then show ?case using 3 show_hex_hex by auto
qed simp

lemma MakeAddress_eight:
  assumes "length gs = 8" and "\<forall>g \<in> set gs. g < 65536"
  shows "MakeAddress (join_groups gs) p =
    \<lparr>Family = kFamilyIPv6, AddrPort = word_of_int p, Address = groups_bytes gs\<rparr>"
proof -
  have ne: "gs \<noteq> []" using assms(1) by auto
  have "groups_loop (join_groups gs) [] None = groups_loop [] gs None"
    using groups_loop_join [of gs "[]" "[]" None] assms ne by simp
  then have "groups_loop (join_groups gs) [] None = Some (gs, None)" by (simp add: groups_loop.simps)
  moreover have "join_groups gs \<noteq> []" using join_groups_hd [OF ne, of "[]"] by simp
  ultimately show ?thesis using assms join_groups_no_dot [of gs]
    by (simp add: MakeAddress_def TurnAddress_default_def groups_bytes_def Let_def)
qed

text \<open>
  The compressed form of an IPv6 address: the groups before and after the double colon,
  either possibly none, are read as the address with zero groups in between.
\<close>

theorem turn_double_colon:
  assumes "length gs + length hs < 8" and "\<forall>g \<in> set (gs @ hs). g < 65536"
  shows "MakeAddress (join_groups gs @ ''::'' @ join_groups hs) port =
    \<lparr>Family = kFamilyIPv6, AddrPort = word_of_int port,
     Address = groups_bytes (gs @ replicate (8 - length gs - length hs) 0 @ hs)\<rparr>"
proof -
  let ?r = "''::'' @ join_groups hs"
  have "groups_loop (join_groups gs @ ?r) [] None = groups_loop ?r gs None"
    using groups_loop_join [of gs "[]" ?r None] assms by (cases "gs = []") simp_all
  also have "\<dots> = groups_loop (join_groups hs) gs (Some (length gs))"
    using assms(1) by (subst groups_loop.simps) simp
  also have "\<dots> = groups_loop [] (gs @ hs) (Some (length gs))"
    using groups_loop_join [of hs gs "[]" "Some (length gs)"] assms by (cases "hs = []") simp_all
  also have "\<dots> = Some (gs @ hs, Some (length gs))" by (simp add: groups_loop.simps)
  finally have l: "groups_loop (join_groups gs @ ?r) [] None = Some (gs @ hs, Some (length gs))" .
  have "expand_groups ((gs @ hs) @ replicate (8 - length (gs @ hs)) 0) (length (gs @ hs)) (length gs) =
      gs @ replicate (8 - length gs - length hs) 0 @ hs"
    using assms(1) by (subst expand_groups_eq) simp_all
  moreover have "CHR ''.'' \<notin> set (join_groups gs @ ?r)" using join_groups_no_dot by simp
  ultimately show ?thesis
    using l by (simp add: MakeAddress_def TurnAddress_default_def groups_bytes_def Let_def)
qed

theorem turn_double_colon_witness:
  "MakeAddress ''fe80::1'' 443 = \<lparr>Family = 2, AddrPort = 443,
     Address = [0xfe, 0x80, 0, 0, 0, 0, 0, 0, 0, 0, 0, 0, 0, 0, 0, 1]\<rparr>"
proof -
  have "join_groups [0xfe80] = ''fe80''" "join_groups [1] = ''1''"
    by (simp_all add: show_hex.simps hex_digit_def char_of_def bit_0)
  then show ?thesis
    using turn_double_colon [of "[0xfe80]" "[1]" 443]
    by (simp add: groups_bytes_def kFamilyIPv6_def replicate_numeral_Cons)
qed

lemma groups_text_join:
  "groups_text a = join_groups (map (\<lambda>i. unat (group_at a i)) [0..<8])"
proof -
  have "[0..<8] = [0, 1, 2, 3, 4, 5, 6, 7 :: nat]" by code_simp
  then show ?thesis by (simp add: groups_text_def)
qed

lemma group_bytes: "[of_nat (unat (be16_of x y) div 256), of_nat (unat (be16_of x y) mod 256)] = [x, y]"
proof -
  have "of_nat (unat w div 256) = byte_at 8 w" for w :: u16
  proof -
    have "unat w div 256 = unat (drop_bit 8 w)" by (simp add: unat_div drop_bit_eq_div)
    then have "of_nat (unat w div 256) = (ucast (drop_bit 8 w) :: u8)" by simp
    also have "\<dots> = byte_at 8 w" by (rule bit_word_eqI) (simp add: bit_simps)
    finally show ?thesis .
  qed
  moreover have "of_nat (unat w mod 256) = byte_at 0 w" for w :: u16
  proof -
    have "unat w mod 256 = unat (take_bit 8 w)" by (simp add: unat_mod take_bit_eq_mod)
    then have "of_nat (unat w mod 256) = (ucast (take_bit 8 w) :: u8)" by simp
    also have "\<dots> = byte_at 0 w" by (rule bit_word_eqI) (simp add: bit_simps)
    finally show ?thesis .
  qed
  ultimately show ?thesis by simp
qed

text \<open>
  The text of an address, without the port, is read back as the address, for IPv4 and IPv6.
\<close>

theorem turn_address_text_roundtrip:
  assumes "address_ok a"
  shows "MakeAddress (if Family a = kFamilyIPv4 then quad_text (Address a) else groups_text (Address a))
    (uint (AddrPort a)) = a"
proof (cases "Family a = kFamilyIPv4")
  case True
  then show ?thesis using assms kFamily_neq MakeAddress_quad [of "Address a" "uint (AddrPort a)"]
    by (simp add: address_ok_def)
next
  case False
  then have f: "Family a = kFamilyIPv6" "length (Address a) = 16" using assms by (simp_all add: address_ok_def)
  let ?gs = "map (\<lambda>i. unat (group_at (Address a) i)) [0..<8]"
  have lt: "unat (w :: u16) < 65536" for w using unsigned_less [of w, where 'a = nat] by simp
  have e8: "[0..<8] = [0, 1, 2, 3, 4, 5, 6, 7 :: nat]" by code_simp
  have e16: "[0..<16] = [0, 1, 2, 3, 4, 5, 6, 7, 8, 9, 10, 11, 12, 13, 14, 15 :: nat]" by code_simp
  have "map ((!) (Address a)) [0..<16] = Address a" using f by (intro nth_equalityI) simp_all
  moreover have "groups_bytes ?gs = map ((!) (Address a)) [0..<16]"
    unfolding groups_bytes_def e8 e16 map_map o_def group_at_def group_bytes by simp
  ultimately have "groups_bytes ?gs = Address a" by simp
  moreover have "MakeAddress (join_groups ?gs) (uint (AddrPort a)) =
      \<lparr>Family = kFamilyIPv6, AddrPort = word_of_int (uint (AddrPort a)), Address = groups_bytes ?gs\<rparr>"
    by (rule MakeAddress_eight) (simp_all add: lt)
  ultimately show ?thesis using False f by (simp add: groups_text_join)
qed

theorem turn_address_text_roundtrip_witness:
  "MakeAddress ''192.0.2.33'' 443 = \<lparr>Family = 1, AddrPort = 443, Address = [192, 0, 2, 33]\<rparr>"
proof -
  have "quad_text [192, 0, 2, 33] = ''192.0.2.33''" by code_simp
  then show ?thesis
    using turn_address_text_roundtrip [of "\<lparr>Family = 1, AddrPort = 443, Address = [192, 0, 2, 33]\<rparr>"]
    by (simp add: address_ok_def kFamilyIPv4_def)
qed

end
