(* ===== verification/TurnClient.thy ===== *)
theory TurnClient
  imports TurnAddressText VoipTypes
begin

text \<open>
  The TURN client of \<open>infrastructure/turn/turn_client.cpp\<close>. The socket, the random transaction ids and
  the clock are the environment: every request comes with the id drawn for it, the result of its
  write, the events that happen while the caller is blocked, whether the wait ends before its
  deadline, and the events between the end of the wait and the next lock. Outgoing datagrams and the
  calls of the data callback are logged in the state. A datagram that arrives before \<open>m_active\<close> is set
  is not modelled: no request is pending then.
\<close>

section \<open>State\<close>

record TurnClient =
  tc_active :: bool
  tc_allocated :: bool
  tc_realm :: string
  tc_nonce :: bytes
  tc_key :: bytes
  tc_username :: string
  tc_password :: string
  tc_relayed :: TurnAddress
  tc_permittedPeers :: "TurnAddress list"
  tc_onData :: bool
  tc_reflectorIp :: string
  tc_reflectorPort :: int
  tc_havePending :: bool
  tc_pendingTxnId :: bytes
  tc_pendingComplete :: bool
  tc_pendingResponse :: TurnMessage
  tc_socket :: bool
  tc_sent :: "bytes list"
  tc_delivered :: "(string \<times> int \<times> bytes) list"

definition TurnClient_init :: TurnClient where
  "TurnClient_init = \<lparr>tc_active = False, tc_allocated = False, tc_realm = [], tc_nonce = [], tc_key = [],
     tc_username = [], tc_password = [], tc_relayed = TurnAddress_default, tc_permittedPeers = [],
     tc_onData = False, tc_reflectorIp = [], tc_reflectorPort = 0, tc_havePending = False,
     tc_pendingTxnId = replicate 12 0, tc_pendingComplete = False, tc_pendingResponse = TurnMessage_default,
     tc_socket = False, tc_sent = [], tc_delivered = []\<rparr>"

datatype turn_event = Datagram bytes | CloseCall

record turn_io =
  io_txn :: bytes
  io_store :: "int option"
  io_events :: "turn_event list"
  io_in_time :: bool
  io_after :: "turn_event list"

datatype socket_result = SocketOpened | CtorFailed int | RegistrationFailed int | OutputStreamFailed int

definition turn_MakeInvalid :: "string \<Rightarrow> VoipError" where
  "turn_MakeInvalid message = VoipError_Of InvalidArgument 0 message"

definition turn_MakeTransportFailed :: "string \<Rightarrow> int \<Rightarrow> VoipError" where
  "turn_MakeTransportFailed message hr = VoipError_Of TransportFailed hr message"

definition turn_MakeHandshakeTimeout :: "string \<Rightarrow> VoipError" where
  "turn_MakeHandshakeTimeout message = VoipError_Of HandshakeTimeout 0 message"

definition TxnIdEquals :: "bytes \<Rightarrow> bytes \<Rightarrow> bool" where
  "TxnIdEquals a b \<longleftrightarrow> list_all (\<lambda>i. a ! i = b ! i) [0..<12]"


section \<open>Events\<close>

definition tc_Close :: "TurnClient \<Rightarrow> TurnClient" where
  "tc_Close st =
     (if \<not> tc_active st then st
      else st\<lparr>tc_active := False, tc_socket := False, tc_allocated := False, tc_havePending := False\<rparr>)"

text \<open>Address and port of the first peer of a Data indication; an IPv6 peer leaves them empty.\<close>

definition data_source :: "TurnMessage \<Rightarrow> string \<times> int" where
  "data_source msg =
     (case XorPeers msg of
        [] \<Rightarrow> ([], 0)
      | src # _ \<Rightarrow>
          if Family src = kFamilyIPv4 \<and> length (Address src) = 4
          then (quad_text (Address src), uint (AddrPort src)) else ([], 0))"

definition turn_dispatch :: "TurnMessage \<Rightarrow> TurnClient \<Rightarrow> TurnClient" where
  "turn_dispatch msg st =
     (let mth = TurnMethodOf (TurnType msg);
          cls = TurnClassOf (TurnType msg)
      in if cls = kClassIndication \<and> mth = kMethodData then
           if \<not> HasData msg \<or> Data msg = [] then st
           else if tc_onData st
           then st\<lparr>tc_delivered := tc_delivered st @ [(fst (data_source msg), snd (data_source msg), Data msg)]\<rparr>
           else st
         else if cls \<noteq> kClassSuccess \<and> cls \<noteq> kClassError then st
         else if \<not> tc_havePending st then st
         else if \<not> TxnIdEquals (TurnTransactionId msg) (tc_pendingTxnId st) then st
         else st\<lparr>tc_pendingResponse := msg, tc_pendingComplete := True\<rparr>)"

definition OnInboundUdp :: "bytes \<Rightarrow> TurnClient \<Rightarrow> TurnClient" where
  "OnInboundUdp bs st =
     (if bs = [] then st
      else if \<not> LooksLikeStunOrTurn bs then st
      else case DecodeMessage bs of
        Some (Some msg) \<Rightarrow> turn_dispatch msg st
      | _ \<Rightarrow> st)"

text \<open>The handler of \<open>MessageReceived\<close> looks at \<open>Active\<close> of the socket first.\<close>

fun turn_handle :: "turn_event \<Rightarrow> TurnClient \<Rightarrow> TurnClient" where
  "turn_handle (Datagram bs) st = (if \<not> tc_socket st then st else if bs = [] then st else OnInboundUdp bs st)"
| "turn_handle CloseCall st = tc_Close st"


section \<open>Requests\<close>

definition SendRawDatagram :: "bytes \<Rightarrow> int option \<Rightarrow> TurnClient \<Rightarrow> VoipError \<times> TurnClient" where
  "SendRawDatagram bs store st =
     (if \<not> tc_socket st then (turn_MakeTransportFailed ''TurnClient socket not open'' 0, st)
      else if bs = [] then (turn_MakeInvalid ''SendRawDatagram empty payload'', st)
      else case store of
        None \<Rightarrow> (VoipError_Ok, st\<lparr>tc_sent := tc_sent st @ [bs]\<rparr>)
      | Some hr \<Rightarrow> (turn_MakeTransportFailed ''StoreAsync failed'' hr, st))"

definition WaitForResponse :: "bytes \<Rightarrow> turn_io \<Rightarrow> TurnClient \<Rightarrow> TurnMessage option \<times> TurnClient" where
  "WaitForResponse txnId io st =
     (let st = fold turn_handle (io_events io) st in
      if io_in_time io \<and> tc_active st \<and> tc_pendingComplete st \<and> tc_havePending st
         \<and> TxnIdEquals (tc_pendingTxnId st) txnId
      then (Some (tc_pendingResponse st),
            fold turn_handle (io_after io) (st\<lparr>tc_havePending := False, tc_pendingComplete := False\<rparr>))
      else (None, fold turn_handle (io_after io) st))"

definition begin_request :: "bytes \<Rightarrow> TurnClient \<Rightarrow> TurnClient" where
  "begin_request txnId st =
     st\<lparr>tc_havePending := True, tc_pendingComplete := False, tc_pendingTxnId := txnId,
        tc_pendingResponse := TurnMessage_default\<rparr>"

text \<open>The second, authenticated Allocate.\<close>

definition authed_allocate :: "mac_fn \<Rightarrow> turn_io \<Rightarrow> TurnClient \<Rightarrow> VoipError \<times> TurnClient" where
  "authed_allocate hmac io st =
     (let txnId = io_txn io;
          st = begin_request txnId st;
          authedReq = EncodeAllocate hmac txnId 600 (tc_username st) (tc_realm st) (tc_nonce st) (tc_key st);
          (sent2, st) = SendRawDatagram authedReq (io_store io) st
      in if \<not> VoipError_IsOk sent2 then (sent2, st)
         else case WaitForResponse txnId io st of
           (None, st) \<Rightarrow> (turn_MakeHandshakeTimeout ''Allocate#2 timed out (no 200 OK)'', st)
         | (Some response2, st) \<Rightarrow>
             (let cls = TurnClassOf (TurnType response2) in
              if cls = kClassError then
                (turn_MakeTransportFailed (''Allocate#2 error code='' @ show_int (ErrorCode response2) @
                   '' reason='' @ [CHR 0x27] @ ErrorReason response2 @ [CHR 0x27]) 0, st)
              else if cls \<noteq> kClassSuccess then
                (turn_MakeTransportFailed (''Allocate#2 unexpected class=0x'' @ show_hex (unat cls)) 0, st)
              else if \<not> HasXorRelayed response2 then
                (turn_MakeTransportFailed ''Allocate#2 success missing XOR-RELAYED-ADDRESS'' 0, st)
              else (VoipError_Ok, st\<lparr>tc_relayed := XorRelayed response2, tc_allocated := True\<rparr>)))"

definition DoAllocateHandshake :: "mac_fn \<Rightarrow> turn_io \<Rightarrow> turn_io \<Rightarrow> TurnClient \<Rightarrow> VoipError \<times> TurnClient" where
  "DoAllocateHandshake hmac io io2 st =
     (let txnId = io_txn io;
          req = EncodeAllocate hmac txnId 600 [] [] [] [];
          st = begin_request txnId st;
          (sent, st) = SendRawDatagram req (io_store io) st
      in if \<not> VoipError_IsOk sent then (sent, st)
         else case WaitForResponse txnId io st of
           (None, st) \<Rightarrow> (turn_MakeHandshakeTimeout ''Allocate#1 timed out (no 401 challenge)'', st)
         | (Some response, st) \<Rightarrow>
             (let cls = TurnClassOf (TurnType response) in
              if cls \<noteq> kClassError then
                if cls = kClassSuccess \<and> HasXorRelayed response
                then (VoipError_Ok, st\<lparr>tc_relayed := XorRelayed response, tc_allocated := True\<rparr>)
                else (turn_MakeTransportFailed (''Allocate#1 unexpected reply class=0x'' @ show_hex (unat cls)) 0, st)
              else if ErrorCode response \<noteq> 401 \<or> \<not> HasRealm response \<or> \<not> HasNonce response then
                (turn_MakeTransportFailed (''Allocate#1 401 missing REALM/NONCE (got code='' @
                   show_int (ErrorCode response) @ '' realm='' @ (if HasRealm response then ''yes'' else ''no'') @
                   '' nonce='' @ (if HasNonce response then ''yes'' else ''no'') @ '')'') 0, st)
              else
                authed_allocate hmac io2 (st\<lparr>tc_realm := Realm response, tc_nonce := Nonce response,
                  tc_key := DeriveLongTermKey (tc_username st) (Realm response) (tc_password st)\<rparr>)))"

definition SendCreatePermission :: "mac_fn \<Rightarrow> TurnAddress list \<Rightarrow> turn_io \<Rightarrow> TurnClient \<Rightarrow> VoipError \<times> TurnClient" where
  "SendCreatePermission hmac peers io st =
     (if \<not> tc_allocated st then (turn_MakeInvalid ''CreatePermission before Allocate'', st)
      else if peers = [] then (VoipError_Ok, st)
      else
        (let txnId = io_txn io;
             req = EncodeCreatePermission hmac txnId peers (tc_username st) (tc_realm st) (tc_nonce st) (tc_key st);
             st = begin_request txnId st;
             (sent, st) = SendRawDatagram req (io_store io) st
         in if \<not> VoipError_IsOk sent then (sent, st)
            else case WaitForResponse txnId io st of
              (None, st) \<Rightarrow> (turn_MakeHandshakeTimeout ''CreatePermission timed out'', st)
            | (Some response, st) \<Rightarrow>
                (let cls = TurnClassOf (TurnType response) in
                 if cls = kClassError then
                   (turn_MakeTransportFailed (''CreatePermission error code='' @ show_int (ErrorCode response) @
                      '' reason='' @ [CHR 0x27] @ ErrorReason response @ [CHR 0x27]) 0, st)
                 else if cls \<noteq> kClassSuccess then
                   (turn_MakeTransportFailed (''CreatePermission unexpected class=0x'' @ show_hex (unat cls)) 0, st)
                 else (VoipError_Ok, st))))"


section \<open>Public operations\<close>

definition same_address :: "TurnAddress \<Rightarrow> TurnAddress \<Rightarrow> bool" where
  "same_address p peer \<longleftrightarrow> Family p = Family peer \<and> AddrPort p = AddrPort peer \<and>
     length (Address p) = length (Address peer) \<and> Address p = Address peer"

definition AddPeerPermission :: "mac_fn \<Rightarrow> TurnAddress \<Rightarrow> turn_io \<Rightarrow> TurnClient \<Rightarrow> VoipError \<times> TurnClient" where
  "AddPeerPermission hmac peer io st =
     (if \<not> tc_allocated st then (turn_MakeInvalid ''AddPeerPermission before Allocate'', st)
      else if list_ex (\<lambda>p. same_address p peer) (tc_permittedPeers st) then (VoipError_Ok, st)
      else case SendCreatePermission hmac [peer] io st of
        (sent, st) \<Rightarrow>
          (sent, if VoipError_IsOk sent then st\<lparr>tc_permittedPeers := tc_permittedPeers st @ [peer]\<rparr> else st))"

definition tc_Send :: "TurnAddress \<Rightarrow> bytes \<Rightarrow> turn_io \<Rightarrow> TurnClient \<Rightarrow> VoipError \<times> TurnClient" where
  "tc_Send peer bs io st =
     (if \<not> tc_allocated st then (turn_MakeInvalid ''Send before Allocate'', st)
      else if Address peer = [] then (turn_MakeInvalid ''Send peer address empty'', st)
      else SendRawDatagram (EncodeSendIndication (io_txn io) peer bs) (io_store io) st)"

definition open_reset :: "string \<Rightarrow> int \<Rightarrow> string \<Rightarrow> string \<Rightarrow> bool \<Rightarrow> TurnClient \<Rightarrow> TurnClient" where
  "open_reset ip port username password cb st =
     st\<lparr>tc_reflectorIp := ip, tc_reflectorPort := port, tc_username := username, tc_password := password,
        tc_onData := cb, tc_permittedPeers := [], tc_realm := [], tc_nonce := [], tc_key := [],
        tc_relayed := TurnAddress_default, tc_havePending := False, tc_pendingComplete := False\<rparr>"

definition OpenAllocation ::
    "mac_fn \<Rightarrow> string \<Rightarrow> int \<Rightarrow> string \<Rightarrow> string \<Rightarrow> TurnAddress list \<Rightarrow> bool \<Rightarrow> socket_result
       \<Rightarrow> turn_io \<Rightarrow> turn_io \<Rightarrow> turn_io \<Rightarrow> TurnClient \<Rightarrow> VoipError \<times> TurnClient" where
  "OpenAllocation hmac reflectorIp reflectorPort username password peers cb sock io1 io2 io3 st =
     (if tc_active st then (turn_MakeInvalid ''TurnClient already open'', st)
      else if reflectorIp = [] then (turn_MakeInvalid ''reflectorIp is empty'', st)
      else if reflectorPort \<le> 0 \<or> reflectorPort > 65535 then (turn_MakeInvalid ''reflectorPort out of range'', st)
      else if username = [] then (turn_MakeInvalid ''TURN username is empty'', st)
      else if password = [] then (turn_MakeInvalid ''TURN password is empty'', st)
      else
        (let st = open_reset reflectorIp reflectorPort username password cb st in
         case sock of
           CtorFailed hr \<Rightarrow> (turn_MakeTransportFailed ''DatagramSocket ctor failed'' hr, st)
         | RegistrationFailed hr \<Rightarrow> (turn_MakeTransportFailed ''MessageReceived registration failed'' hr, st)
         | OutputStreamFailed hr \<Rightarrow> (turn_MakeTransportFailed ''GetOutputStreamAsync failed'' hr, st)
         | SocketOpened \<Rightarrow>
             (let st = st\<lparr>tc_socket := True, tc_active := True\<rparr>;
                  (handshake, st) = DoAllocateHandshake hmac io1 io2 st
              in if \<not> VoipError_IsOk handshake then (handshake, tc_Close st)
                 else if peers = [] then (VoipError_Ok, st)
                 else
                   (case SendCreatePermission hmac peers io3 st of
                      (perm, st) \<Rightarrow>
                        (VoipError_Ok,
                         if VoipError_IsOk perm then st\<lparr>tc_permittedPeers := tc_permittedPeers st @ peers\<rparr> else st)))))"


section \<open>The invariant of the client\<close>

datatype turn_call =
    OpenCall string int string string "TurnAddress list" bool socket_result turn_io turn_io turn_io
  | PermissionCall TurnAddress turn_io
  | SendCall TurnAddress bytes turn_io
  | Event turn_event

fun turn_step :: "mac_fn \<Rightarrow> TurnClient \<Rightarrow> turn_call \<Rightarrow> TurnClient" where
  "turn_step hmac st (OpenCall ip port u pw peers cb sock io1 io2 io3) =
     snd (OpenAllocation hmac ip port u pw peers cb sock io1 io2 io3 st)"
| "turn_step hmac st (PermissionCall peer io) = snd (AddPeerPermission hmac peer io st)"
| "turn_step hmac st (SendCall peer bs io) = snd (tc_Send peer bs io st)"
| "turn_step hmac st (Event e) = turn_handle e st"

text \<open>No \<open>Close\<close> between the end of a wait and the lock that follows it.\<close>

definition calm :: "turn_io \<Rightarrow> bool" where
  "calm io \<longleftrightarrow> CloseCall \<notin> set (io_after io)"

fun calm_call :: "turn_call \<Rightarrow> bool" where
  "calm_call (OpenCall ip port u pw peers cb sock io1 io2 io3) \<longleftrightarrow> calm io1 \<and> calm io2 \<and> calm io3"
| "calm_call (PermissionCall peer io) \<longleftrightarrow> calm io"
| "calm_call _ \<longleftrightarrow> True"

definition tc_inv :: "bool \<Rightarrow> TurnClient \<Rightarrow> bool" where
  "tc_inv c st \<longleftrightarrow> tc_socket st = tc_active st
     \<and> (tc_key st \<noteq> [] \<longrightarrow> tc_key st = DeriveLongTermKey (tc_username st) (tc_realm st) (tc_password st))
     \<and> (c \<longrightarrow> (tc_allocated st \<longrightarrow> tc_active st) \<and> (tc_havePending st \<longrightarrow> tc_active st))"

lemma turn_dispatch_fields [simp]:
  "tc_active (turn_dispatch msg st) = tc_active st"
  "tc_socket (turn_dispatch msg st) = tc_socket st"
  "tc_allocated (turn_dispatch msg st) = tc_allocated st"
  "tc_havePending (turn_dispatch msg st) = tc_havePending st"
  "tc_key (turn_dispatch msg st) = tc_key st"
  "tc_username (turn_dispatch msg st) = tc_username st"
  "tc_realm (turn_dispatch msg st) = tc_realm st"
  "tc_password (turn_dispatch msg st) = tc_password st"
  "tc_nonce (turn_dispatch msg st) = tc_nonce st"
  "tc_pendingTxnId (turn_dispatch msg st) = tc_pendingTxnId st"
  "tc_sent (turn_dispatch msg st) = tc_sent st"
  "tc_relayed (turn_dispatch msg st) = tc_relayed st"
  "tc_permittedPeers (turn_dispatch msg st) = tc_permittedPeers st"
  by (simp_all add: turn_dispatch_def Let_def)

lemma OnInboundUdp_cases: "OnInboundUdp bs st = st \<or> (\<exists>msg. OnInboundUdp bs st = turn_dispatch msg st)"
  by (simp add: OnInboundUdp_def split: option.split) blast

lemma OnInboundUdp_fields [simp]:
  "tc_active (OnInboundUdp bs st) = tc_active st"
  "tc_socket (OnInboundUdp bs st) = tc_socket st"
  "tc_allocated (OnInboundUdp bs st) = tc_allocated st"
  "tc_havePending (OnInboundUdp bs st) = tc_havePending st"
  "tc_key (OnInboundUdp bs st) = tc_key st"
  "tc_username (OnInboundUdp bs st) = tc_username st"
  "tc_realm (OnInboundUdp bs st) = tc_realm st"
  "tc_password (OnInboundUdp bs st) = tc_password st"
  "tc_nonce (OnInboundUdp bs st) = tc_nonce st"
  "tc_pendingTxnId (OnInboundUdp bs st) = tc_pendingTxnId st"
  "tc_sent (OnInboundUdp bs st) = tc_sent st"
  "tc_relayed (OnInboundUdp bs st) = tc_relayed st"
  "tc_permittedPeers (OnInboundUdp bs st) = tc_permittedPeers st"
  using OnInboundUdp_cases [of bs st] by (elim disjE exE; simp)+

lemma tc_inv_handle [inv_rules]: "tc_inv c st \<Longrightarrow> tc_inv c (turn_handle e st)"
  by (cases e) (auto simp: tc_inv_def tc_Close_def)

lemma tc_inv_events [inv_rules]: "tc_inv c st \<Longrightarrow> tc_inv c (fold turn_handle es st)"
  by (induction es arbitrary: st) (simp_all add: tc_inv_handle)

lemma handle_datagram_active: "e \<noteq> CloseCall \<Longrightarrow> tc_active (turn_handle e st) = tc_active st"
  by (cases e) auto

lemma events_active: "CloseCall \<notin> set es \<Longrightarrow> tc_active (fold turn_handle es st) = tc_active st"
proof (induction es arbitrary: st)
  case (Cons e es)
  then have "e \<noteq> CloseCall" "CloseCall \<notin> set es" by auto
  then show ?case using Cons.IH [of "turn_handle e st"] handle_datagram_active [of e st] by simp
qed simp

lemma SendRaw_inv:
  "SendRawDatagram bs s st = (e, st') \<Longrightarrow> tc_inv c st \<Longrightarrow> tc_inv c st' \<and> tc_active st' = tc_active st"
  by (auto simp: SendRawDatagram_def tc_inv_def split: if_splits option.splits)

lemma Wait_inv:
  assumes "WaitForResponse t io st = (r, st')" and "tc_inv c st"
  shows "tc_inv c st' \<and> (r \<noteq> None \<longrightarrow> calm io \<longrightarrow> tc_active st')"
proof -
  let ?s = "fold turn_handle (io_events io) st"
  have i: "tc_inv c ?s" by (rule tc_inv_events [OF assms(2)])
  then have "tc_inv c (?s\<lparr>tc_havePending := False, tc_pendingComplete := False\<rparr>)" by (auto simp: tc_inv_def)
  with i assms(1) show ?thesis
    unfolding WaitForResponse_def Let_def
    by (auto simp: tc_inv_events events_active calm_def split: if_splits)
qed

lemma begin_inv: "tc_inv c st \<Longrightarrow> (c \<Longrightarrow> tc_active st) \<Longrightarrow> tc_inv c (begin_request t st)"
  by (auto simp: tc_inv_def begin_request_def)

lemma begin_active [simp]: "tc_active (begin_request t st) = tc_active st"
  by (simp add: begin_request_def)

lemma allocated_inv: "tc_inv c st \<Longrightarrow> (c \<Longrightarrow> tc_active st) \<Longrightarrow> tc_inv c (st\<lparr>tc_relayed := a, tc_allocated := True\<rparr>)"
  by (auto simp: tc_inv_def)

lemma authed_inv:
  assumes "tc_inv c st" and "c \<Longrightarrow> tc_active st" and "c \<Longrightarrow> calm io"
  shows "tc_inv c (snd (authed_allocate hmac io st))"
proof -
  let ?b = "begin_request (io_txn io) st"
  have b: "tc_inv c ?b" using assms by (intro begin_inv) auto
  obtain e s where s: "SendRawDatagram (EncodeAllocate hmac (io_txn io) 600 (tc_username ?b) (tc_realm ?b)
      (tc_nonce ?b) (tc_key ?b)) (io_store io) ?b = (e, s)" by fastforce
  have i: "tc_inv c s" using SendRaw_inv [OF s b] by simp
  obtain r w where w: "WaitForResponse (io_txn io) io s = (r, w)" by fastforce
  have "tc_inv c w" "r \<noteq> None \<Longrightarrow> c \<Longrightarrow> tc_active w" using Wait_inv [OF w i] assms(3) by auto
  then show ?thesis
    using i by (auto simp: authed_allocate_def Let_def s w split: option.split intro: allocated_inv)
qed

lemma challenge_inv:
  "tc_inv c st \<Longrightarrow> tc_inv c (st\<lparr>tc_realm := r, tc_nonce := n, tc_key := DeriveLongTermKey (tc_username st) r (tc_password st)\<rparr>)"
  by (auto simp: tc_inv_def)

lemma DoAllocate_inv:
  assumes "tc_inv c st" and "tc_active st" and "c \<Longrightarrow> calm io \<and> calm io2"
  shows "tc_inv c (snd (DoAllocateHandshake hmac io io2 st))"
proof -
  let ?b = "begin_request (io_txn io) st"
  have b: "tc_inv c ?b" using assms by (intro begin_inv) auto
  obtain e s where s: "SendRawDatagram (EncodeAllocate hmac (io_txn io) 600 [] [] [] []) (io_store io) ?b = (e, s)" by fastforce
  have i: "tc_inv c s" using SendRaw_inv [OF s b] by simp
  obtain r w where w: "WaitForResponse (io_txn io) io s = (r, w)" by fastforce
  have "tc_inv c w" "r \<noteq> None \<Longrightarrow> c \<Longrightarrow> tc_active w" using Wait_inv [OF w i] assms(3) by auto
  then show ?thesis
    using i assms(3)
    by (auto simp: DoAllocateHandshake_def Let_def s w split: option.split
        intro!: allocated_inv authed_inv challenge_inv)
qed

lemma SendCreate_inv:
  assumes "tc_inv c st" and "c \<Longrightarrow> calm io"
  shows "tc_inv c (snd (SendCreatePermission hmac peers io st))"
proof (cases "tc_allocated st \<and> peers \<noteq> []")
  case False
  then show ?thesis using assms by (auto simp: SendCreatePermission_def)
next
  case True
  let ?b = "begin_request (io_txn io) st"
  have b: "tc_inv c ?b" using assms True by (intro begin_inv) (auto simp: tc_inv_def)
  obtain e s where s: "SendRawDatagram (EncodeCreatePermission hmac (io_txn io) peers (tc_username st) (tc_realm st)
      (tc_nonce st) (tc_key st)) (io_store io) ?b = (e, s)" by fastforce
  have i: "tc_inv c s" using SendRaw_inv [OF s b] by simp
  obtain r w where w: "WaitForResponse (io_txn io) io s = (r, w)" by fastforce
  have "tc_inv c w" using Wait_inv [OF w i] by simp
  then show ?thesis using i True
    by (auto simp: SendCreatePermission_def Let_def s w split: option.split)
qed

lemma permitted_inv: "tc_inv c st \<Longrightarrow> tc_inv c (st\<lparr>tc_permittedPeers := ps\<rparr>)"
  by (simp add: tc_inv_def)

lemma Close_inv: "tc_inv c st \<Longrightarrow> tc_inv c (tc_Close st)"
  by (auto simp: tc_inv_def tc_Close_def)

lemma Open_inv:
  assumes "tc_inv c st" and "c \<Longrightarrow> calm io1 \<and> calm io2 \<and> calm io3"
  shows "tc_inv c (snd (OpenAllocation hmac ip port u pw peers cb sock io1 io2 io3 st))"
proof -
  let ?r = "open_reset ip port u pw cb st"
  have r: "tc_inv c ?r" using assms(1) by (auto simp: tc_inv_def open_reset_def)
  have o: "tc_inv c (?r\<lparr>tc_socket := True, tc_active := True\<rparr>)" using r by (auto simp: tc_inv_def)
  obtain e s where d: "DoAllocateHandshake hmac io1 io2 (?r\<lparr>tc_socket := True, tc_active := True\<rparr>) = (e, s)" by fastforce
  have i: "tc_inv c s" using DoAllocate_inv [OF o, of io1 io2 hmac] assms(2) d by simp
  obtain e3 s3 where p: "SendCreatePermission hmac peers io3 s = (e3, s3)" by fastforce
  have "tc_inv c s3" using SendCreate_inv [OF i, of io3 hmac peers] assms(2) p by simp
  note after = this permitted_inv [OF this] Close_inv [OF i]
  show ?thesis
  proof (cases sock)
    case SocketOpened
    show ?thesis
      unfolding OpenAllocation_def Let_def SocketOpened d p socket_result.case prod.case
      by (simp only: if_distrib [of "\<lambda>r. tc_inv c (snd r)"] if_distrib [of "tc_inv c"] snd_conv assms(1) i after if_cancel)
  qed (use assms(1) r in \<open>simp_all add: OpenAllocation_def Let_def\<close>)
qed

lemma Permission_inv:
  assumes "tc_inv c st" and "c \<Longrightarrow> calm io"
  shows "tc_inv c (snd (AddPeerPermission hmac peer io st))"
proof -
  obtain e s where p: "SendCreatePermission hmac [peer] io st = (e, s)" by fastforce
  have "tc_inv c s" using SendCreate_inv [OF assms, of hmac "[peer]"] p by simp
  then show ?thesis using assms(1) by (auto simp: AddPeerPermission_def p intro: permitted_inv)
qed

lemma tc_inv_step:
  assumes "tc_inv c st" and "c \<Longrightarrow> calm_call call"
  shows "tc_inv c (turn_step hmac st call)"
proof (cases call)
  case (OpenCall)
  then show ?thesis using assms by (auto intro!: Open_inv)
next
  case (PermissionCall)
  then show ?thesis using assms by (auto intro!: Permission_inv)
next
  case (SendCall peer bs io)
  obtain e s where s: "SendRawDatagram (EncodeSendIndication (io_txn io) peer bs) (io_store io) st = (e, s)" by fastforce
  then have "tc_inv c s" using SendRaw_inv [OF s assms(1)] by simp
  then show ?thesis using assms(1) by (simp add: SendCall tc_Send_def s)
next
  case (Event e)
  then show ?thesis using assms(1) by (simp add: tc_inv_handle)
qed

lemma tc_inv_init: "tc_inv c TurnClient_init"
  by (simp add: tc_inv_def TurnClient_init_def)

interpretation turn: reactive "turn_step hmac" "tc_inv False" TurnClient_init for hmac
  by unfold_locales (auto intro: tc_inv_step tc_inv_init)

lemma calm_run_inv:
  "list_all calm_call cs \<Longrightarrow> tc_inv True st \<Longrightarrow> tc_inv True (run_steps (turn_step hmac) st cs)"
  by (induction cs arbitrary: st) (auto intro: tc_inv_step)


section \<open>The handshake\<close>

lemma TxnIdEquals_refl [simp]: "TxnIdEquals a a"
  by (simp add: TxnIdEquals_def list_all_iff)

lemma Decode_looks: "DecodeMessage bs = Some (Some m) \<Longrightarrow> LooksLikeStunOrTurn bs \<and> bs \<noteq> []"
proof (rule ccontr)
  assume d: "DecodeMessage bs = Some (Some m)" and n: "\<not> (LooksLikeStunOrTurn bs \<and> bs \<noteq> [])"
  have "DecodeMessage bs = Some None"
  proof (cases "length bs < 20")
    case False
    then have "rd8 bs 0 = Some (bs ! 0)" "bs ! 0 > 3" using n by (auto simp: rd8_def LooksLikeStunOrTurn_def)
    then show ?thesis using False unfolding DecodeMessage_def by (simp only: if_False bind.bind_lunit if_True)
  qed (simp only: DecodeMessage_def if_True)
  then show False using d by simp
qed

lemma class_distinct:
  "kClassSuccess \<noteq> kClassIndication" "kClassError \<noteq> kClassIndication" "kClassSuccess \<noteq> kClassError"
  by (simp_all add: kClassSuccess_def kClassError_def kClassIndication_def)

lemma wait_reply:
  assumes st: "tc_socket st" "tc_active st" "tc_havePending st" "tc_pendingTxnId st = txn"
    and io: "io_events io = [Datagram bs]" "io_in_time io" "io_after io = []"
    and m: "DecodeMessage bs = Some (Some m)" "TxnIdEquals (TurnTransactionId m) txn"
    and cls: "TurnClassOf (TurnType m) = kClassSuccess \<or> TurnClassOf (TurnType m) = kClassError"
  shows "WaitForResponse txn io st =
    (Some m, st\<lparr>tc_pendingResponse := m, tc_havePending := False, tc_pendingComplete := False\<rparr>)"
proof -
  have "turn_dispatch m st = st\<lparr>tc_pendingResponse := m, tc_pendingComplete := True\<rparr>"
  proof -
    have "(TurnClassOf (TurnType m) = kClassIndication \<and> TurnMethodOf (TurnType m) = kMethodData) = False"
      using cls class_distinct by metis
    moreover have "(TurnClassOf (TurnType m) \<noteq> kClassSuccess \<and> TurnClassOf (TurnType m) \<noteq> kClassError) = False"
      using cls by blast
    ultimately show ?thesis
      unfolding turn_dispatch_def Let_def by (simp only: if_False st m(2) simp_thms)
  qed
  then have "turn_handle (Datagram bs) st = st\<lparr>tc_pendingResponse := m, tc_pendingComplete := True\<rparr>"
    using Decode_looks [OF m(1)] st m(1) by (simp add: OnInboundUdp_def)
  then show ?thesis using io st by (simp add: WaitForResponse_def)
qed

lemma AppendAttr_nonempty: "turn_AppendAttr buf t v \<noteq> []"
  by (simp add: turn_AppendAttr_def pad4_eq be16_def)

lemma EncodeAllocate_nonempty: "EncodeAllocate hmac txn lt u r n key \<noteq> []"
proof -
  have f: "FinalizeLength b \<noteq> []" if "b \<noteq> []" for b
    using that by (simp add: FinalizeLength_def put_be16_def)
  have c: "AppendCommonAuthAttrs b u r n \<noteq> []" if "b \<noteq> []" for b
    using that AppendAttr_nonempty by (simp add: AppendCommonAuthAttrs_def Let_def)
  have k: "AppendMessageIntegrity hmac b key \<noteq> []" for b
    using AppendAttr_nonempty by (simp add: AppendMessageIntegrity_def Let_def)
  show ?thesis
    unfolding EncodeAllocate_def Let_def turn_AppendAttrU32_def
    using f c [OF AppendAttr_nonempty] k by simp
qed

text \<open>
  A run with answers in the client's own layout of the message types, which no server that follows RFC 5389
  sends (see the last section): the 401 gives realm and nonce, the second Allocate carries them under the MD5 key of
  the credentials, and the success response gives the relayed address. It serves as the example of a run that
  allocates.
\<close>

lemma own_layout_handshake:
  assumes args: "\<not> tc_active st" "ip \<noteq> []" "0 < port" "port \<le> 65535" "u \<noteq> []" "pw \<noteq> []"
    and one: "io_store io1 = None" "io_events io1 = [Datagram c1]" "io_in_time io1" "io_after io1 = []"
    and two: "io_store io2 = None" "io_events io2 = [Datagram c2]" "io_in_time io2" "io_after io2 = []"
    and challenge: "DecodeMessage c1 = Some (Some m1)" "TurnTransactionId m1 = io_txn io1"
      "TurnClassOf (TurnType m1) = kClassError" "ErrorCode m1 = 401" "HasRealm m1" "HasNonce m1"
    and success: "DecodeMessage c2 = Some (Some m2)" "TurnTransactionId m2 = io_txn io2"
      "TurnClassOf (TurnType m2) = kClassSuccess" "HasXorRelayed m2"
    and r: "OpenAllocation hmac ip port u pw [] cb SocketOpened io1 io2 io3 st = (e, st')"
  shows "e = VoipError_Ok \<and> tc_allocated st' \<and> tc_relayed st' = XorRelayed m2
    \<and> tc_username st' = u \<and> tc_realm st' = Realm m1 \<and> tc_password st' = pw
    \<and> tc_key st' = DeriveLongTermKey u (Realm m1) pw
    \<and> tc_sent st' = tc_sent st @
        [EncodeAllocate hmac (io_txn io1) 600 [] [] [] [],
         EncodeAllocate hmac (io_txn io2) 600 u (Realm m1) (Nonce m1) (DeriveLongTermKey u (Realm m1) pw)]"
proof -
  let ?o = "(open_reset ip port u pw cb st)\<lparr>tc_socket := True, tc_active := True\<rparr>"
  let ?q1 = "EncodeAllocate hmac (io_txn io1) 600 [] [] [] []"
  let ?b1 = "(begin_request (io_txn io1) ?o)\<lparr>tc_sent := tc_sent st @ [?q1]\<rparr>"
  have s1: "SendRawDatagram ?q1 (io_store io1) (begin_request (io_txn io1) ?o) = (VoipError_Ok, ?b1)"
    using one(1) EncodeAllocate_nonempty by (simp add: SendRawDatagram_def begin_request_def open_reset_def)
  let ?w1 = "?b1\<lparr>tc_pendingResponse := m1, tc_havePending := False, tc_pendingComplete := False\<rparr>"
  have w1: "WaitForResponse (io_txn io1) io1 ?b1 = (Some m1, ?w1)"
    using one challenge by (intro wait_reply) (simp_all add: begin_request_def)
  let ?k = "DeriveLongTermKey u (Realm m1) pw"
  let ?c = "?w1\<lparr>tc_realm := Realm m1, tc_nonce := Nonce m1, tc_key := ?k\<rparr>"
  let ?q2 = "EncodeAllocate hmac (io_txn io2) 600 u (Realm m1) (Nonce m1) ?k"
  let ?b2 = "(begin_request (io_txn io2) ?c)\<lparr>tc_sent := tc_sent st @ [?q1, ?q2]\<rparr>"
  have s2: "SendRawDatagram ?q2 (io_store io2) (begin_request (io_txn io2) ?c) = (VoipError_Ok, ?b2)"
    using two(1) EncodeAllocate_nonempty by (simp add: SendRawDatagram_def begin_request_def)
  let ?w2 = "?b2\<lparr>tc_pendingResponse := m2, tc_havePending := False, tc_pendingComplete := False\<rparr>"
  have w2: "WaitForResponse (io_txn io2) io2 ?b2 = (Some m2, ?w2)"
    using two success by (intro wait_reply) (simp_all add: begin_request_def)
  have f: "tc_username (begin_request (io_txn io2) ?c) = u" "tc_realm (begin_request (io_txn io2) ?c) = Realm m1"
    "tc_nonce (begin_request (io_txn io2) ?c) = Nonce m1" "tc_key (begin_request (io_txn io2) ?c) = ?k"
    by (simp_all add: begin_request_def open_reset_def)
  have k: "tc_username ?w1 = u" "tc_password ?w1 = pw" by (simp_all add: begin_request_def open_reset_def)
  let ?f = "?w2\<lparr>tc_relayed := XorRelayed m2, tc_allocated := True\<rparr>"
  have a: "authed_allocate hmac io2 ?c = (VoipError_Ok, ?f)"
    unfolding authed_allocate_def Let_def f s2 prod.case w2 option.case success(3)
    using class_distinct success(4) by simp
  have d: "DoAllocateHandshake hmac io1 io2 ?o = (VoipError_Ok, ?f)"
    unfolding DoAllocateHandshake_def Let_def s1 prod.case w1 option.case challenge(3) k a
    using challenge by simp
  have "OpenAllocation hmac ip port u pw [] cb SocketOpened io1 io2 io3 st = (VoipError_Ok, ?f)"
    using args d by (simp add: OpenAllocation_def Let_def)
  then show ?thesis using r by (simp add: begin_request_def open_reset_def)
qed

definition sample_challenge :: bytes where
  "sample_challenge = turn_frame (TurnMessageType kMethodAllocate kClassError) (replicate 12 7)
     [(kAttrErrorCode, [0, 0, 4, 1]), (kAttrRealm, [0x72]), (kAttrNonce, [5])]"

definition sample_success :: bytes where
  "sample_success = turn_frame (TurnMessageType kMethodAllocate kClassSuccess) (replicate 12 8)
     [(kAttrXorRelayedAddress, [0, 1, 0, 0, 1, 2, 3, 4])]"

lemma sample_types:
  "byte_at 8 (TurnMessageType kMethodAllocate kClassError) \<le> 3"
  "byte_at 8 (TurnMessageType kMethodAllocate kClassSuccess) \<le> 3"
  "TurnClassOf (TurnMessageType kMethodAllocate kClassError) = kClassError"
  "TurnClassOf (TurnMessageType kMethodAllocate kClassSuccess) = kClassSuccess"
  by code_simp+

lemma sample_challenge:
  "\<exists>m. DecodeMessage sample_challenge = Some (Some m) \<and> TurnTransactionId m = replicate 12 7
    \<and> TurnClassOf (TurnType m) = kClassError \<and> ErrorCode m = 401 \<and> HasRealm m \<and> HasNonce m
    \<and> Realm m = ''r'' \<and> Nonce m = [5]"
proof -
  have r: "string_of_bytes [0x72] = ''r''" by (simp add: string_of_bytes_def) code_simp
  show ?thesis
    unfolding sample_challenge_def
    by (subst DecodeMessage_frame)
      (simp_all add: sample_types tlvs_def tlv_def pad4_eq apply_all_def turn_apply_attr_def turn_attrs rd8_def r TurnMessage_default_def)
qed

lemma sample_success:
  "\<exists>m. DecodeMessage sample_success = Some (Some m) \<and> TurnTransactionId m = replicate 12 8
    \<and> TurnClassOf (TurnType m) = kClassSuccess \<and> HasXorRelayed m \<and> Family (XorRelayed m) = 1"
proof -
  have x: "\<exists>a. DecodeXorAddress [0, 1, 0, 0, 1, 2, 3, 4] txn = Some (Some a) \<and> Family a = 1" for txn
    by (simp add: DecodeXorAddress_def rd8_def rd_be16_def rd_be32_def kFamilyIPv4_def Let_def)
  then obtain a where a: "DecodeXorAddress [0, 1, 0, 0, 1, 2, 3, 4] (replicate 12 8) = Some (Some a)" "Family a = 1"
    by blast
  show ?thesis
    unfolding sample_success_def
    by (subst DecodeMessage_frame)
      (simp_all add: sample_types tlvs_def tlv_def pad4_eq apply_all_def turn_apply_attr_def turn_attrs a TurnMessage_default_def)
qed

lemma sample_run:
  obtains io1 io2 io3 st' where "calm io1" "calm io2" "calm io3"
    "OpenAllocation (\<lambda>_ _ _. 0) ''10.0.0.1'' 443 ''u'' ''p'' [] True SocketOpened io1 io2 io3 TurnClient_init
       = (VoipError_Ok, st')" "tc_allocated st'" "tc_key st' = DeriveLongTermKey ''u'' ''r'' ''p''"
proof -
  obtain m1 where m1: "DecodeMessage sample_challenge = Some (Some m1)" "TurnTransactionId m1 = replicate 12 7"
    "TurnClassOf (TurnType m1) = kClassError" "ErrorCode m1 = 401" "HasRealm m1" "HasNonce m1" "Realm m1 = ''r''"
    using sample_challenge by blast
  obtain m2 where m2: "DecodeMessage sample_success = Some (Some m2)" "TurnTransactionId m2 = replicate 12 8"
    "TurnClassOf (TurnType m2) = kClassSuccess" "HasXorRelayed m2" "Family (XorRelayed m2) = 1"
    using sample_success by blast
  define io where "io n d = \<lparr>io_txn = replicate 12 n, io_store = None, io_events = [Datagram d],
    io_in_time = True, io_after = []\<rparr>" for n d
  obtain e st' where r: "OpenAllocation (\<lambda>_ _ _. 0) ''10.0.0.1'' 443 ''u'' ''p'' [] True SocketOpened
      (io 7 sample_challenge) (io 8 sample_success) (io 9 []) TurnClient_init = (e, st')" by fastforce
  have "e = VoipError_Ok \<and> tc_allocated st' \<and> tc_key st' = DeriveLongTermKey ''u'' (Realm m1) ''p''"
    using own_layout_handshake [OF _ _ _ _ _ _ _ _ _ _ _ _ _ _ m1(1) _ m1(3-6) m2(1) _ m2(3,4) r] m1(2) m2(2)
    by (simp add: io_def TurnClient_init_def)
  then show ?thesis
    using r m1(7) by (intro that [of "io 7 sample_challenge" "io 8 sample_success" "io 9 []" st'])
      (simp_all add: io_def calm_def)
qed


section \<open>The invariant\<close>

text \<open>A client that is not active sends nothing and takes nothing in.\<close>

lemma closed_client:
  assumes "\<not> tc_active st" and "tc_inv c st"
  shows "turn_handle (Datagram bs) st = st"
    and "snd (tc_Send peer bs io st) = st \<and> \<not> VoipError_IsOk (fst (tc_Send peer bs io st))"
    and "tc_sent (snd (AddPeerPermission hmac peer io st)) = tc_sent st"
proof -
  have s: "\<not> tc_socket st" using assms by (simp add: tc_inv_def)
  have r: "\<not> tc_socket (begin_request t st)" "tc_sent (begin_request t st) = tc_sent st" for t
    using s by (simp_all add: begin_request_def)
  show "turn_handle (Datagram bs) st = st" using s by simp
  show "snd (tc_Send peer bs io st) = st \<and> \<not> VoipError_IsOk (fst (tc_Send peer bs io st))"
    using s by (simp add: tc_Send_def SendRawDatagram_def turn_MakeInvalid_def turn_MakeTransportFailed_def)
  have "\<not> VoipError_IsOk (turn_MakeTransportFailed msg hr)" for msg hr by (simp add: turn_MakeTransportFailed_def)
  then show "tc_sent (snd (AddPeerPermission hmac peer io st)) = tc_sent st"
    using r by (simp add: AddPeerPermission_def SendCreatePermission_def SendRawDatagram_def Let_def)
qed

text \<open>
  Claim C25: after every sequence of openings, permissions, sends, datagrams and closings, with \<open>Close\<close>
  also allowed in the middle of each wait: the socket is open exactly while the client is active, the long-term key is
  the one of the current user name, realm and password, and a client that is not active ignores every datagram, refuses
  every send without effect and writes no permission request. That only an active client is allocated or has a request
  pending is claimed for the runs alone in which no \<open>Close\<close> falls between the end of a wait and the lock taken
  after it; \<open>DoAllocateHandshake\<close> does not look at \<open>m_active\<close> again there.
\<close>

theorem turn_client_invariant:
  assumes "st = run_steps (turn_step hmac) TurnClient_init calls"
  shows "tc_socket st = tc_active st
    \<and> (tc_key st \<noteq> [] \<longrightarrow> tc_key st = DeriveLongTermKey (tc_username st) (tc_realm st) (tc_password st))
    \<and> (\<not> tc_active st \<longrightarrow>
         (\<forall>bs. turn_handle (Datagram bs) st = st)
         \<and> (\<forall>peer bs io. snd (tc_Send peer bs io st) = st \<and> \<not> VoipError_IsOk (fst (tc_Send peer bs io st)))
         \<and> (\<forall>peer io. tc_sent (snd (AddPeerPermission hmac peer io st)) = tc_sent st))
    \<and> (list_all calm_call calls \<longrightarrow>
         (tc_allocated st \<longrightarrow> tc_active st) \<and> (tc_havePending st \<longrightarrow> tc_active st))"
proof (intro conjI impI)
  have i: "tc_inv False st" unfolding assms by (rule turn.inv_run)
  then show "tc_socket st = tc_active st" by (simp add: tc_inv_def)
  show "tc_key st = DeriveLongTermKey (tc_username st) (tc_realm st) (tc_password st)" if "tc_key st \<noteq> []"
    using i that by (simp add: tc_inv_def)
  assume "\<not> tc_active st"
  then show "\<forall>bs. turn_handle (Datagram bs) st = st"
    and "\<forall>peer bs io. snd (tc_Send peer bs io st) = st \<and> \<not> VoipError_IsOk (fst (tc_Send peer bs io st))"
    and "\<forall>peer io. tc_sent (snd (AddPeerPermission hmac peer io st)) = tc_sent st"
    using closed_client [OF _ i] by blast+
next
  assume "list_all calm_call calls"
  then have c: "tc_inv True st" unfolding assms by (rule calm_run_inv) (rule tc_inv_init)
  then show "tc_active st" if "tc_allocated st" using that by (simp add: tc_inv_def)
  show "tc_active st" if "tc_havePending st" using c that by (simp add: tc_inv_def)
qed

theorem turn_client_invariant_witness:
  "\<exists>calls st st'. list_all calm_call calls \<and> st = run_steps (turn_step (\<lambda>_ _ _. 0)) TurnClient_init calls
     \<and> tc_allocated st \<and> tc_active st \<and> tc_socket st \<and> tc_key st \<noteq> []
     \<and> tc_key st = DeriveLongTermKey ''u'' ''r'' ''p''
     \<and> st' = turn_step (\<lambda>_ _ _. 0) st (Event CloseCall) \<and> \<not> tc_allocated st'
     \<and> turn_handle (Datagram sample_success) st' = st'"
proof -
  obtain io1 io2 io3 st where c: "calm io1" "calm io2" "calm io3"
    and o: "OpenAllocation (\<lambda>_ _ _. 0) ''10.0.0.1'' 443 ''u'' ''p'' [] True SocketOpened io1 io2 io3 TurnClient_init
       = (VoipError_Ok, st)" and a: "tc_allocated st" and k: "tc_key st = DeriveLongTermKey ''u'' ''r'' ''p''"
    by (rule sample_run)
  define calls where "calls = [OpenCall ''10.0.0.1'' 443 ''u'' ''p'' [] True SocketOpened io1 io2 io3]"
  have st: "st = run_steps (turn_step (\<lambda>_ _ _. 0)) TurnClient_init calls" using o by (simp add: calls_def)
  have calm: "list_all calm_call calls" using c by (simp add: calls_def)
  have act: "tc_active st" "tc_socket st" using turn_client_invariant [OF st] calm a by blast+
  have ne: "DeriveLongTermKey u r p \<noteq> []" for u r p
    by (simp add: turn_key_is_md5 md5_reference_def md5_output_def Let_def split_beta le32_def)
  let ?st' = "turn_step (\<lambda>_ _ _. 0) st (Event CloseCall)"
  have st': "?st' = run_steps (turn_step (\<lambda>_ _ _. 0)) TurnClient_init (calls @ [Event CloseCall])"
    by (simp add: st)
  have "\<not> tc_active ?st'" "\<not> tc_allocated ?st'" using act by (simp_all add: tc_Close_def)
  then have "turn_handle (Datagram sample_success) ?st' = ?st'" using turn_client_invariant [OF st'] by blast
  with calm st a act k ne \<open>\<not> tc_allocated ?st'\<close> show ?thesis by metis
qed


section \<open>A standard server\<close>

text \<open>A datagram as a server that follows RFC 5389 sends it, or no TURN message at all.\<close>

definition standard_datagram :: "bytes \<Rightarrow> bool" where
  "standard_datagram bs \<longleftrightarrow>
     (case DecodeMessage bs of
        Some (Some m) \<Rightarrow> (\<exists>mth cls. mth < 0x80 \<and> cls \<in> set turn_classes \<and> TurnType m = rfc_message_type mth cls)
      | _ \<Rightarrow> True)"

lemma rfc_class_not_response:
  assumes "mth < 0x80"
  shows "TurnClassOf (rfc_message_type mth cls) \<noteq> kClassSuccess"
    and "TurnClassOf (rfc_message_type mth cls) \<noteq> kClassError"
proof -
  have "\<not> bit (TurnClassOf (rfc_message_type mth cls)) 8"
    using low_method_bits' [OF assms] by (simp add: bit_TurnClassOf bit_rfc_message_type)
  moreover have "bit kClassSuccess 8" "bit kClassError 8" by (simp_all add: kClassSuccess_def kClassError_def)
  ultimately show "TurnClassOf (rfc_message_type mth cls) \<noteq> kClassSuccess"
    and "TurnClassOf (rfc_message_type mth cls) \<noteq> kClassError" by metis+
qed

fun standard_event :: "turn_event \<Rightarrow> bool" where
  "standard_event (Datagram bs) \<longleftrightarrow> standard_datagram bs"
| "standard_event CloseCall \<longleftrightarrow> True"

lemma standard_dispatch:
  assumes "TurnClassOf (TurnType m) \<noteq> kClassSuccess" and "TurnClassOf (TurnType m) \<noteq> kClassError"
  shows "tc_pendingComplete (turn_dispatch m st) = tc_pendingComplete st"
  using assms by (simp add: turn_dispatch_def Let_def)

lemma standard_handle:
  assumes "standard_event e"
  shows "tc_pendingComplete (turn_handle e st) = tc_pendingComplete st"
proof (cases e)
  case (Datagram bs)
  have "tc_pendingComplete (OnInboundUdp bs st) = tc_pendingComplete st"
  proof (cases "\<exists>m. DecodeMessage bs = Some (Some m)")
    case True
    then obtain m where m: "DecodeMessage bs = Some (Some m)" by blast
    with assms Datagram obtain mth cls where "mth < 0x80" "TurnType m = rfc_message_type mth cls"
      by (auto simp: standard_datagram_def)
    then show ?thesis using m rfc_class_not_response standard_dispatch by (simp add: OnInboundUdp_def)
  next
    case False
    then show ?thesis by (auto simp: OnInboundUdp_def split: option.split)
  qed
  then show ?thesis by (simp add: Datagram)
qed (simp add: tc_Close_def)

lemma standard_events:
  "list_all standard_event es \<Longrightarrow> tc_pendingComplete (fold turn_handle es st) = tc_pendingComplete st"
  by (induction es arbitrary: st) (simp_all add: standard_handle)

lemma handle_allocated: "\<not> tc_allocated st \<Longrightarrow> \<not> tc_allocated (turn_handle e st)"
  by (cases e) (simp_all add: tc_Close_def)

lemma events_allocated: "\<not> tc_allocated st \<Longrightarrow> \<not> tc_allocated (fold turn_handle es st)"
  by (induction es arbitrary: st) (simp_all add: handle_allocated)

lemma handle_sent: "tc_sent (turn_handle e st) = tc_sent st"
  by (cases e) (simp_all add: tc_Close_def)

lemma events_sent: "tc_sent (fold turn_handle es st) = tc_sent st"
  by (induction es arbitrary: st) (simp_all add: handle_sent)

text \<open>
  Claim C19: the client cannot get an allocation from a server that follows RFC 5389. Whatever and whenever
  such a server answers (its message types carry the class in bits 4 and 8, while \<open>TurnClassOf\<close> looks at bits
  4 and 9), the first request is taken for unanswered: \<open>OpenAllocation\<close> returns the time-out of the first
  Allocate, the client is closed and without an allocation, and that one request is all it sent.
\<close>

theorem turn_client_deaf:
  assumes "\<not> tc_active st" "\<not> tc_allocated st" "ip \<noteq> []" "0 < port" "port \<le> 65535" "u \<noteq> []" "pw \<noteq> []"
    and "io_store io1 = None" and "list_all standard_event (io_events io1)"
    and "OpenAllocation hmac ip port u pw peers cb SocketOpened io1 io2 io3 st = (e, st')"
  shows "e = turn_MakeHandshakeTimeout ''Allocate#1 timed out (no 401 challenge)''
    \<and> \<not> tc_active st' \<and> \<not> tc_allocated st'
    \<and> tc_sent st' = tc_sent st @ [EncodeAllocate hmac (io_txn io1) 600 [] [] [] []]"
proof -
  let ?o = "(open_reset ip port u pw cb st)\<lparr>tc_socket := True, tc_active := True\<rparr>"
  let ?q = "EncodeAllocate hmac (io_txn io1) 600 [] [] [] []"
  let ?b = "(begin_request (io_txn io1) ?o)\<lparr>tc_sent := tc_sent st @ [?q]\<rparr>"
  have s: "SendRawDatagram ?q (io_store io1) (begin_request (io_txn io1) ?o) = (VoipError_Ok, ?b)"
    using assms(8) EncodeAllocate_nonempty by (simp add: SendRawDatagram_def begin_request_def open_reset_def)
  let ?w = "fold turn_handle (io_after io1) (fold turn_handle (io_events io1) ?b)"
  have "\<not> tc_pendingComplete (fold turn_handle (io_events io1) ?b)"
    using standard_events [OF assms(9), of ?b] by (simp add: begin_request_def)
  then have w: "WaitForResponse (io_txn io1) io1 ?b = (None, ?w)"
    by (simp add: WaitForResponse_def)
  have "\<not> tc_allocated ?b" using assms(2) by (simp add: begin_request_def open_reset_def)
  then have na: "\<not> tc_allocated ?w" by (intro events_allocated)
  have sent: "tc_sent ?w = tc_sent st @ [?q]" by (simp add: events_sent)
  let ?e = "turn_MakeHandshakeTimeout ''Allocate#1 timed out (no 401 challenge)''"
  have d: "DoAllocateHandshake hmac io1 io2 ?o = (?e, ?w)"
    unfolding DoAllocateHandshake_def Let_def s prod.case w option.case by simp
  have ne: "\<not> VoipError_IsOk ?e" by (simp add: turn_MakeHandshakeTimeout_def)
  have "OpenAllocation hmac ip port u pw peers cb SocketOpened io1 io2 io3 st = (?e, tc_Close ?w)"
    using assms(1,3-7) d ne by (simp add: OpenAllocation_def Let_def)
  then have r: "e = ?e" "st' = tc_Close ?w" using assms(10) by simp_all
  have "\<not> tc_active (tc_Close ?w)" by (simp add: tc_Close_def)
  moreover have "\<not> tc_allocated (tc_Close ?w)" using na by (simp add: tc_Close_def)
  moreover have "tc_sent (tc_Close ?w) = tc_sent ?w" by (simp add: tc_Close_def)
  ultimately show ?thesis using r sent by simp
qed

theorem turn_client_deaf_witness:
  "\<exists>io bs st'. io_events io = [Datagram bs] \<and> DecodeMessage bs \<noteq> Some None
     \<and> OpenAllocation (\<lambda>_ _ _. 0) ''10.0.0.1'' 443 ''u'' ''p'' [] True SocketOpened io io io TurnClient_init
         = (turn_MakeHandshakeTimeout ''Allocate#1 timed out (no 401 challenge)'', st') \<and> \<not> tc_allocated st'"
proof -
  define bs where "bs = turn_frame (rfc_message_type kMethodAllocate kClassError) (replicate 12 7)
    [(kAttrErrorCode, [0, 0, 4, 1]), (kAttrRealm, [0x72]), (kAttrNonce, [5])]"
  have t: "byte_at 8 (rfc_message_type kMethodAllocate kClassError) \<le> 3" by code_simp
  have "\<exists>m. DecodeMessage bs = Some (Some m) \<and> TurnType m = rfc_message_type kMethodAllocate kClassError"
    unfolding bs_def
    by (subst DecodeMessage_frame)
      (simp_all add: t tlvs_def tlv_def pad4_eq apply_all_def turn_apply_attr_def turn_attrs rd8_def)
  then obtain m where m: "DecodeMessage bs = Some (Some m)" "TurnType m = rfc_message_type kMethodAllocate kClassError" by blast
  have "kMethodAllocate < 0x80" "kClassError \<in> set turn_classes" by (simp_all add: kMethodAllocate_def turn_classes_def)
  then have sd: "standard_datagram bs" using m unfolding standard_datagram_def by auto
  define io where "io = \<lparr>io_txn = replicate 12 7, io_store = None, io_events = [Datagram bs], io_in_time = True, io_after = []\<rparr>"
  obtain e st' where r: "OpenAllocation (\<lambda>_ _ _. 0) ''10.0.0.1'' 443 ''u'' ''p'' [] True SocketOpened io io io TurnClient_init
      = (e, st')" by fastforce
  have "e = turn_MakeHandshakeTimeout ''Allocate#1 timed out (no 401 challenge)'' \<and> \<not> tc_allocated st'"
    using turn_client_deaf [OF _ _ _ _ _ _ _ _ _ r] sd by (simp add: io_def TurnClient_init_def)
  moreover have "io_events io = [Datagram bs]" by (simp add: io_def)
  moreover have "DecodeMessage bs \<noteq> Some None" using m(1) by simp
  ultimately show ?thesis using r by metis
qed

end
