(* ===== verification/ReflectorTransport.thy ===== *)
theory ReflectorTransport
  imports Interfaces ReflectorPacket TurnClient "HOL-Library.Multiset"
begin

text \<open>
  The UDP transport towards the reflectors (\<open>datagram_socket_reflector_transport.cpp\<close>): the polled
  datagram session of the classic engine with its queue of received datagrams, the self-info probe,
  and the push sessions of the tgcalls path, keyed by address and port and framed with a 16-byte tag.

  The platform's socket is outside the program. Each call is a parameter: \<open>None\<close> where it succeeds,
  the exception it raises otherwise, and the datagrams its event delivers meanwhile. Each state has
  a history of the bytes handed to the socket, which no definition reads.
\<close>

section \<open>Helpers\<close>

datatype socket_exn = PlatformException int | StdException string | OtherException

text \<open>\<open>std::hex\<close> of the \<open>HRESULT\<close> read as unsigned.\<close>

definition HResultMessage :: "string \<Rightarrow> int \<Rightarrow> string" where
  "HResultMessage prefix hr = prefix @ '' hr=0x'' @ TurnAddressText.show_hex (nat (hr mod 2 ^ 32))"

text \<open>The three handlers that end \<open>Open\<close>, \<open>Send\<close> and \<open>ProbeSelfInfo\<close>.\<close>

fun exn_text :: "string \<Rightarrow> socket_exn \<Rightarrow> string" where
  "exn_text prefix (PlatformException hr) = HResultMessage prefix hr"
| "exn_text prefix (StdException w) = w"
| "exn_text prefix OtherException = prefix"

definition MatchesPeerTag :: "bytes \<Rightarrow> bytes \<Rightarrow> bool" where
  "MatchesPeerTag bs peerTag \<longleftrightarrow>
     (if peerTag = [] then True
      else if length peerTag \<noteq> PeerTagBytes then False
      else if length bs < length peerTag then False
      else list_all (\<lambda>i. bs ! i = peerTag ! i) [0..<length peerTag])"

record VoipReflectorDatagramResult =
  dr_Success :: bool
  dr_Error :: string
  dr_RttMs :: int
  dr_Bytes :: bytes

definition datagram_Fail :: "string \<Rightarrow> VoipReflectorDatagramResult" where
  "datagram_Fail err = \<lparr>dr_Success = False, dr_Error = err, dr_RttMs = 0, dr_Bytes = []\<rparr>"

definition datagram_Ok :: "bytes \<Rightarrow> int \<Rightarrow> VoipReflectorDatagramResult" where
  "datagram_Ok bs rttMs = \<lparr>dr_Success = True, dr_Error = [], dr_RttMs = rttMs, dr_Bytes = bs\<rparr>"


section \<open>The polled session\<close>

record DatagramSession =
  ds_socket :: bool
  ds_outputStream :: bool
  ds_hasToken :: bool
  ds_open :: bool
  ds_received :: "bytes list"
  ds_lastSendAt :: int
  ds_wire :: "bytes list"

definition DatagramSession_new :: DatagramSession where
  "DatagramSession_new = \<lparr>ds_socket = False, ds_outputStream = False, ds_hasToken = False, ds_open = False,
     ds_received = [], ds_lastSendAt = 0, ds_wire = []\<rparr>"

text \<open>The handler of \<open>MessageReceived\<close>: empty datagrams are dropped.\<close>

definition ds_on_message :: "bytes \<Rightarrow> DatagramSession \<Rightarrow> DatagramSession" where
  "ds_on_message bs s =
     (if \<not> ds_hasToken s \<or> bs = [] then s else s\<lparr>ds_received := ds_received s @ [bs]\<rparr>)"

definition ds_Close :: "DatagramSession \<Rightarrow> DatagramSession" where
  "ds_Close s =
     (let s = (if ds_socket s \<and> ds_hasToken s then s\<lparr>ds_hasToken := False\<rparr> else s)
      in s\<lparr>ds_socket := False, ds_outputStream := False, ds_open := False, ds_received := []\<rparr>)"

text \<open>The calls of \<open>Open\<close> in order, each with the exception it raises, and the datagrams that arrive
  between the registration of the handler and the end of the last call.\<close>

record open_io =
  oi_create :: "socket_exn option"
  oi_register :: "socket_exn option"
  oi_bind :: "socket_exn option"
  oi_stream :: "socket_exn option"
  oi_arrived :: "bytes list"

definition open_failed :: "socket_exn \<Rightarrow> DatagramSession \<Rightarrow> VoipReflectorDatagramResult \<times> DatagramSession" where
  "open_failed e s = (datagram_Fail (exn_text ''reflector UDP open failed'' e), ds_Close s)"

definition ds_Open :: "VoipEndpoint \<Rightarrow> open_io \<Rightarrow> DatagramSession \<Rightarrow> VoipReflectorDatagramResult \<times> DatagramSession" where
  "ds_Open endpoint io s =
     (if ds_open s then (datagram_Ok [] 0, s)
      else if VoipEndpoint.Port endpoint \<le> 0 \<or> VoipEndpoint.Port endpoint > 65535
      then (datagram_Fail ''reflector endpoint port is invalid'', s)
      else if (if Ip endpoint = [] then Ipv6 endpoint else Ip endpoint) = []
      then (datagram_Fail ''reflector endpoint address is missing'', s)
      else (case oi_create io of
          Some e \<Rightarrow> open_failed e s
        | None \<Rightarrow>
            (let s = s\<lparr>ds_socket := True\<rparr> in
             case oi_register io of
               Some e \<Rightarrow> open_failed e s
             | None \<Rightarrow>
                 (let s = fold ds_on_message (oi_arrived io) (s\<lparr>ds_hasToken := True\<rparr>) in
                  case oi_bind io of
                    Some e \<Rightarrow> open_failed e s
                  | None \<Rightarrow>
                      (case oi_stream io of
                         Some e \<Rightarrow> open_failed e s
                       | None \<Rightarrow> (datagram_Ok [] 0, s\<lparr>ds_outputStream := True, ds_open := True\<rparr>))))))"

text \<open>\<open>writer\<close>: an exception before the time is taken; \<open>store\<close>: one of the send itself.\<close>

definition ds_Send ::
    "bytes \<Rightarrow> int \<Rightarrow> socket_exn option \<Rightarrow> socket_exn option \<Rightarrow> DatagramSession
       \<Rightarrow> VoipReflectorDatagramResult \<times> DatagramSession" where
  "ds_Send bs now writer store s =
     (if \<not> ds_open s \<or> \<not> ds_outputStream s then (datagram_Fail ''reflector UDP session is not open'', s)
      else if bs = [] then (datagram_Fail ''reflector UDP datagram is empty'', s)
      else (case writer of
          Some e \<Rightarrow> (datagram_Fail (exn_text ''reflector UDP send failed'' e), s)
        | None \<Rightarrow>
            (let s = s\<lparr>ds_lastSendAt := now\<rparr> in
             case store of
               Some e \<Rightarrow> (datagram_Fail (exn_text ''reflector UDP send failed'' e), s)
             | None \<Rightarrow> (datagram_Ok [] 0, s\<lparr>ds_wire := ds_wire s @ [bs]\<rparr>))))"

text \<open>
  One pass over the queue: the front is popped, given back when it matches and pushed to the back
  otherwise. \<open>None\<close> outside: a pop of the empty queue, which the count of the pass rules out.
\<close>

fun scan_queue :: "bytes \<Rightarrow> nat \<Rightarrow> bytes list \<Rightarrow> (bytes option \<times> bytes list) option" where
  "scan_queue tag 0 q = Some (None, q)"
| "scan_queue tag (Suc n) [] = None"
| "scan_queue tag (Suc n) (d # q) =
     (if MatchesPeerTag d tag then Some (Some d, q) else scan_queue tag n (q @ [d]))"

text \<open>
  The loop of \<open>Receive\<close>. \<open>wakes\<close> lists what arrived before each return of \<open>wait_until\<close> that is not
  the timeout, \<open>late\<close> what arrived before the timeout; such datagrams stay in the queue.
\<close>

fun receive_loop :: "bytes \<Rightarrow> bytes list list \<Rightarrow> bytes list \<Rightarrow> bytes list \<Rightarrow> (bytes option \<times> bytes list) option" where
  "receive_loop tag wakes late q =
     (case scan_queue tag (length q) q of
        None \<Rightarrow> None
      | Some (Some d, q') \<Rightarrow> Some (Some d, q')
      | Some (None, q') \<Rightarrow>
          (case wakes of
             [] \<Rightarrow> Some (None, q' @ late)
           | w # ws \<Rightarrow> receive_loop tag ws late (q' @ w)))"

declare receive_loop.simps [simp del]

text \<open>\<open>to_ms\<close> is the cast of a difference of clock readings to milliseconds; the deadline that
  \<open>timeoutMs\<close> gives is the platform's matter and shows as the end of the list of waits.\<close>

definition ds_Receive ::
    "(int \<Rightarrow> int) \<Rightarrow> bytes \<Rightarrow> bytes list list \<Rightarrow> bytes list \<Rightarrow> int \<Rightarrow> DatagramSession
       \<Rightarrow> (VoipReflectorDatagramResult \<times> DatagramSession) option" where
  "ds_Receive to_ms expectedPeerTag wakes late now s =
     (if \<not> ds_open s then Some (datagram_Fail ''reflector UDP session is not open'', s)
      else (case receive_loop expectedPeerTag (map (filter (\<lambda>d. d \<noteq> [])) wakes) (filter (\<lambda>d. d \<noteq> []) late) (ds_received s) of
          None \<Rightarrow> None
        | Some (Some d, q) \<Rightarrow>
            Some (datagram_Ok d (if ds_lastSendAt s \<noteq> 0 then to_ms (now - ds_lastSendAt s) else 0), s\<lparr>ds_received := q\<rparr>)
        | Some (None, q) \<Rightarrow> Some (datagram_Fail ''reflector UDP receive timed out'', s\<lparr>ds_received := q\<rparr>)))"


section \<open>The probe\<close>

record VoipReflectorProbeResult =
  pr_Success :: bool
  pr_Error :: string
  pr_RttMs :: int
  pr_SelfInfo :: "VoipReflectorSelfInfo option"

definition probe_Fail :: "string \<Rightarrow> VoipReflectorProbeResult" where
  "probe_Fail err = \<lparr>pr_Success = False, pr_Error = err, pr_RttMs = 0, pr_SelfInfo = None\<rparr>"

definition probe_Ok :: "VoipReflectorSelfInfo \<Rightarrow> int \<Rightarrow> VoipReflectorProbeResult" where
  "probe_Ok selfInfo rttMs = \<lparr>pr_Success = True, pr_Error = [], pr_RttMs = rttMs, pr_SelfInfo = Some selfInfo\<rparr>"

text \<open>The handler; the pair is \<open>(completed, result)\<close>. The parser's reads are checked.\<close>

definition probe_on_message ::
    "bytes \<Rightarrow> u64 \<Rightarrow> bytes \<Rightarrow> bool \<times> VoipReflectorProbeResult \<Rightarrow> bool \<times> VoipReflectorProbeResult" where
  "probe_on_message peerTag queryId bs r =
     (if bs = [] then r
      else (case parse_self_info_response bs peerTag of
          Some (Inr info) \<Rightarrow> if QueryId info \<noteq> queryId then r else (True, probe_Ok info 0)
        | _ \<Rightarrow> r))"

text \<open>The datagrams handled before the wait ends, and those handled after it and before the handler is
  removed: they overwrite the result once more.\<close>

record probe_io =
  pi_fault :: "socket_exn option"
  pi_before :: "bytes list"
  pi_after :: "bytes list"
  pi_elapsed :: int

definition ProbeSelfInfo :: "VoipEndpoint \<Rightarrow> u64 \<Rightarrow> probe_io \<Rightarrow> VoipReflectorProbeResult" where
  "ProbeSelfInfo endpoint queryId io =
     (if VoipEndpoint.Port endpoint \<le> 0 \<or> VoipEndpoint.Port endpoint > 65535
      then probe_Fail ''reflector endpoint port is invalid''
      else if (if Ip endpoint = [] then Ipv6 endpoint else Ip endpoint) = []
      then probe_Fail ''reflector endpoint address is missing''
      else (case build_self_info_request (VoipEndpoint.PeerTag endpoint) queryId of
          Inl err \<Rightarrow> probe_Fail err
        | Inr request \<Rightarrow>
            (case pi_fault io of
               Some e \<Rightarrow> probe_Fail (exn_text ''reflector UDP probe failed'' e)
             | None \<Rightarrow>
                 (let handle = probe_on_message (VoipEndpoint.PeerTag endpoint) queryId;
                      (completed, result) = fold handle (pi_before io) (False, probe_Fail ''reflector probe timed out'');
                      result = (if completed \<and> pr_Success result then result\<lparr>pr_RttMs := pi_elapsed io\<rparr> else result)
                  in snd (fold handle (pi_after io) (completed, result))))))"


section \<open>The push sessions\<close>

record AsyncSession =
  as_ReflectorIp :: string
  as_ReflectorPort :: int
  as_PeerTag :: bytes
  as_Socket :: bool
  as_OutputStream :: bool
  as_HasToken :: bool
  as_Active :: bool
  as_wire :: "bytes list"

text \<open>The handler of one session: the arguments of the callback, if it is called.\<close>

definition async_on_message :: "bytes \<Rightarrow> AsyncSession \<Rightarrow> (string \<times> int \<times> bytes) option" where
  "async_on_message raw s =
     (if \<not> as_Active s then None
      else if length raw < 16 then None
      else if \<not> list_all (\<lambda>i. raw ! i = as_PeerTag s ! i) [0..<min (length (as_PeerTag s)) 12] then None
      else Some (as_ReflectorIp s, as_ReflectorPort s, if length raw > 16 then drop 16 raw else []))"

text \<open>\<open>callback\<close>: whether one was given.\<close>

definition OpenSession ::
    "string \<Rightarrow> int \<Rightarrow> bytes \<Rightarrow> bool \<Rightarrow> socket_result \<Rightarrow> AsyncSession list \<Rightarrow> VoipError \<times> AsyncSession list" where
  "OpenSession ip port peerTag callback sock sessions =
     (if length peerTag \<noteq> 16 then (VoipError_Of InvalidArgument 0 ''peer_tag must be exactly 16 bytes'', sessions)
      else if port \<le> 0 \<or> port > 65535 then (VoipError_Of InvalidArgument 0 ''reflector port out of range'', sessions)
      else if ip = [] then (VoipError_Of InvalidArgument 0 ''reflector ip is empty'', sessions)
      else if \<not> callback then (VoipError_Of InvalidArgument 0 ''async receive callback is null'', sessions)
      else (case sock of
          CtorFailed hr \<Rightarrow> (VoipError_Of TransportFailed hr ''DatagramSocket construction failed'', sessions)
        | RegistrationFailed hr \<Rightarrow>
            (VoipError_Of TransportFailed hr ''DatagramSocket MessageReceived registration failed'', sessions)
        | OutputStreamFailed hr \<Rightarrow>
            (VoipError_Of TransportFailed hr ''DatagramSocket GetOutputStreamAsync failed'', sessions)
        | SocketOpened \<Rightarrow>
            (VoipError_Ok, sessions @ [\<lparr>as_ReflectorIp = ip, as_ReflectorPort = port, as_PeerTag = peerTag,
                as_Socket = True, as_OutputStream = True, as_HasToken = True, as_Active = True, as_wire = []\<rparr>])))"

fun find_session :: "string \<Rightarrow> int \<Rightarrow> AsyncSession list \<Rightarrow> nat option" where
  "find_session ip port [] = None"
| "find_session ip port (s # ss) =
     (if as_Active s \<and> as_ReflectorIp s = ip \<and> as_ReflectorPort s = port then Some 0
      else map_option Suc (find_session ip port ss))"

definition SendThroughSession ::
    "string \<Rightarrow> int \<Rightarrow> bytes \<Rightarrow> socket_exn option \<Rightarrow> AsyncSession list \<Rightarrow> VoipError \<times> AsyncSession list" where
  "SendThroughSession ip port payload store sessions =
     (case find_session ip port sessions of
        None \<Rightarrow> (VoipError_Of InvalidArgument 0 ''no open async session for the requested reflector endpoint'', sessions)
      | Some i \<Rightarrow>
          (let s = sessions ! i in
           if \<not> as_OutputStream s
           then (VoipError_Of TransportFailed 0 ''async session output stream is null'', sessions)
           else if length (as_PeerTag s) \<noteq> 16
           then (VoipError_Of InvalidArgument 0 ''session peer_tag is invalid'', sessions)
           else (case store of
               None \<Rightarrow> (VoipError_Ok, sessions[i := s\<lparr>as_wire := as_wire s @ [as_PeerTag s @ payload]\<rparr>])
             | Some (PlatformException hr) \<Rightarrow>
                 (VoipError_Of TransportFailed hr ''async session SendThroughSession failed'', sessions)
             | Some _ \<Rightarrow> (VoipError_Of TransportFailed 0 ''async session SendThroughSession failed'', sessions))))"

text \<open>The sessions as they are left, for the handlers that still hold one, and the empty list.\<close>

definition close_async :: "AsyncSession \<Rightarrow> AsyncSession" where
  "close_async s =
     (let s = s\<lparr>as_Active := False\<rparr>;
          s = (if as_Socket s then (if as_HasToken s then s\<lparr>as_HasToken := False\<rparr> else s)\<lparr>as_Socket := False\<rparr> else s)
      in s\<lparr>as_OutputStream := False\<rparr>)"

definition CloseSession :: "AsyncSession list \<Rightarrow> AsyncSession list \<times> AsyncSession list" where
  "CloseSession sessions = (map close_async sessions, [])"


section \<open>The queue of the polled session\<close>

lemma MatchesPeerTag_iff:
  "MatchesPeerTag d tag \<longleftrightarrow> tag = [] \<or> (length tag = 16 \<and> 16 \<le> length d \<and> take 16 d = tag)"
proof -
  have a: "(\<forall>i<n. d ! i = tag ! i) \<longleftrightarrow> take n d = tag" if "length tag = n" "n \<le> length d" for n
  proof
    assume "\<forall>i<n. d ! i = tag ! i"
    with that show "take n d = tag" by (intro nth_equalityI) simp_all
  next
    assume "take n d = tag"
    then show "\<forall>i<n. d ! i = tag ! i" using that(2) by force
  qed
  have b: "list_all P [0..<n] \<longleftrightarrow> (\<forall>i<n. P i)" for P :: "nat \<Rightarrow> bool" and n
    by (auto simp: list_all_iff)
  have eq: "list_all (\<lambda>i. d ! i = tag ! i) [0..<length tag] \<longleftrightarrow> take (length tag) d = tag"
    if "length tag \<le> length d" by (simp only: b a [OF refl that])
  show ?thesis
  proof (cases "length tag = 16 \<and> 16 \<le> length d")
    case True
    then have "tag \<noteq> []" by auto
    with True eq show ?thesis by (simp only: MatchesPeerTag_def PeerTagBytes_def) simp
  next
    case False
    then show ?thesis by (simp only: MatchesPeerTag_def PeerTagBytes_def) (simp del: upt_rec_numeral, linarith)
  qed
qed

text \<open>A pass finds the first match; what stood before it moves behind the rest.\<close>

lemma scan_queue_go:
  "n \<le> length q \<Longrightarrow> scan_queue tag n q =
     (let skipped = takeWhile (\<lambda>d. \<not> MatchesPeerTag d tag) (take n q); k = length skipped
      in if k < n then Some (Some (q ! k), drop (Suc k) q @ skipped) else Some (None, drop n q @ take n q))"
proof (induction n arbitrary: q)
  case (Suc n)
  then obtain d r where q: "q = d # r" and le: "n \<le> length r" by (cases q) auto
  show ?case
  proof (cases "MatchesPeerTag d tag")
    case False
    have "length (takeWhile (\<lambda>d. \<not> MatchesPeerTag d tag) (take n r)) \<le> n"
      using length_takeWhile_le [of "\<lambda>d. \<not> MatchesPeerTag d tag" "take n r"] by simp
    with Suc.IH [of "r @ [d]"] le False show ?thesis
      by (auto simp: q Let_def nth_append)
  qed (simp add: q)
qed simp

lemma scan_queue_spec:
  "scan_queue tag (length q) q =
     (let skipped = takeWhile (\<lambda>d. \<not> MatchesPeerTag d tag) q; k = length skipped
      in if k < length q then Some (Some (q ! k), drop (Suc k) q @ skipped) else Some (None, q))"
  using scan_queue_go [of "length q" q tag] by (auto simp: Let_def)

lemma scan_queue_outcome:
  obtains (hit) pre d post where "q = pre @ d # post" "\<forall>x \<in> set pre. \<not> MatchesPeerTag x tag" "MatchesPeerTag d tag"
      "scan_queue tag (length q) q = Some (Some d, post @ pre)"
  | (miss) "\<forall>x \<in> set q. \<not> MatchesPeerTag x tag" "scan_queue tag (length q) q = Some (None, q)"
proof (cases "\<exists>x \<in> set q. MatchesPeerTag x tag")
  case True
  then obtain pre d post where q: "q = pre @ d # post" and m: "MatchesPeerTag d tag"
    and p: "\<forall>x \<in> set pre. \<not> MatchesPeerTag x tag"
    using split_list_first_prop [OF True] by blast
  then have "takeWhile (\<lambda>d. \<not> MatchesPeerTag d tag) q = pre"
    by (simp add: takeWhile_append2)
  with q scan_queue_spec [of tag q] have "scan_queue tag (length q) q = Some (Some d, post @ pre)"
    by (simp add: Let_def)
  with q p m show ?thesis by (rule hit)
next
  case False
  then have "takeWhile (\<lambda>d. \<not> MatchesPeerTag d tag) q = q" by (simp add: takeWhile_eq_all_conv)
  then have "scan_queue tag (length q) q = Some (None, q)" by (simp only: scan_queue_spec Let_def) simp
  with False show ?thesis by (intro miss) simp_all
qed


text \<open>The loop: a result after some of the waits, or none after all of them.\<close>

lemma receive_loop_outcome:
  obtains (hit) j pre d post where "j \<le> length wakes" "q @ concat (take j wakes) = pre @ d # post"
      "\<forall>x \<in> set pre. \<not> MatchesPeerTag x tag" "MatchesPeerTag d tag"
      "receive_loop tag wakes late q = Some (Some d, post @ pre)"
  | (miss) "\<forall>x \<in> set (q @ concat wakes). \<not> MatchesPeerTag x tag"
      "receive_loop tag wakes late q = Some (None, q @ concat wakes @ late)"
proof (induction wakes arbitrary: q thesis)
  case Nil
  show ?case
  proof (cases rule: scan_queue_outcome [of q tag])
    case (hit pre d post)
    then show ?thesis by (intro Nil(1) [of 0 pre d post]) (simp_all add: receive_loop.simps)
  next
    case miss
    then show ?thesis by (intro Nil(2)) (simp_all add: receive_loop.simps)
  qed
next
  case (Cons w ws)
  show ?case
  proof (cases rule: scan_queue_outcome [of q tag])
    case (hit pre d post)
    then show ?thesis by (intro Cons.prems(1) [of 0 pre d post]) (simp_all add: receive_loop.simps)
  next
    case miss
    then have go: "receive_loop tag (w # ws) late q = receive_loop tag ws late (q @ w)"
      by (subst receive_loop.simps) simp
    show ?thesis
    proof (rule Cons.IH [of "q @ w"])
      fix j pre d post
      assume "j \<le> length ws" "(q @ w) @ concat (take j ws) = pre @ d # post" "\<forall>x \<in> set pre. \<not> MatchesPeerTag x tag"
        "MatchesPeerTag d tag" "receive_loop tag ws late (q @ w) = Some (Some d, post @ pre)"
      with go show thesis by (intro Cons.prems(1) [of "Suc j" pre d post]) simp_all
    next
      assume "\<forall>x \<in> set ((q @ w) @ concat ws). \<not> MatchesPeerTag x tag"
        "receive_loop tag ws late (q @ w) = Some (None, (q @ w) @ concat ws @ late)"
      with go show thesis by (intro Cons.prems(2)) simp_all
    qed
  qed
qed

abbreviation kept :: "bytes list \<Rightarrow> bytes list" where
  "kept \<equiv> filter (\<lambda>d. d \<noteq> [])"

text \<open>
  \<open>Receive\<close> of an open session returns, and either hands out the oldest datagram with the
  expected tag, the later ones with that tag keeping their order, or times out with none there. In both
  cases every datagram with another tag stays in the queue: only \<open>Close\<close> ever removes it.
\<close>

theorem datagram_receive_in_order:
  assumes "ds_open s"
  shows "\<exists>r s' arrived. ds_Receive to_ms tag wakes late now s = Some (r, s')
     \<and> mset (filter (\<lambda>d. \<not> MatchesPeerTag d tag) (ds_received s'))
         = mset (filter (\<lambda>d. \<not> MatchesPeerTag d tag) (ds_received s @ arrived))
     \<and> (if dr_Success r
        then (\<exists>j \<le> length wakes. arrived = concat (take j (map kept wakes)))
             \<and> filter (\<lambda>d. MatchesPeerTag d tag) (ds_received s @ arrived)
                 = dr_Bytes r # filter (\<lambda>d. MatchesPeerTag d tag) (ds_received s')
        else arrived = concat (map kept wakes) @ kept late \<and> ds_received s' = ds_received s @ arrived
             \<and> (\<forall>d \<in> set (ds_received s @ concat (map kept wakes)). \<not> MatchesPeerTag d tag))"
proof (cases rule: receive_loop_outcome [of "map kept wakes" "ds_received s" tag "kept late"])
  case (hit j pre d post)
  have run: "ds_Receive to_ms tag wakes late now s =
      Some (datagram_Ok d (if ds_lastSendAt s \<noteq> 0 then to_ms (now - ds_lastSendAt s) else 0), s\<lparr>ds_received := post @ pre\<rparr>)"
    using hit(5) assms by (simp add: ds_Receive_def)
  have sieve: "filter (\<lambda>d. \<not> MatchesPeerTag d tag) pre = pre" "filter (\<lambda>d. MatchesPeerTag d tag) pre = []"
    using hit(3) by (simp_all add: filter_id_conv filter_empty_conv)
  show ?thesis
    by (rule exI, rule exI, rule exI [of _ "concat (take j (map kept wakes))"], rule conjI, rule run, unfold hit(2))
      (use hit(1,4) sieve in \<open>auto simp: datagram_Ok_def\<close>)
next
  case miss
  have run: "ds_Receive to_ms tag wakes late now s =
      Some (datagram_Fail ''reflector UDP receive timed out'', s\<lparr>ds_received := ds_received s @ concat (map kept wakes) @ kept late\<rparr>)"
    using miss(2) assms by (simp add: ds_Receive_def)
  show ?thesis
    by (rule exI, rule exI, rule exI [of _ "concat (map kept wakes) @ kept late"], rule conjI, rule run)
      (use miss(1) in \<open>simp add: datagram_Fail_def\<close>)
qed

theorem datagram_receive_in_order_witness:
  "\<exists>r s' arrived. ds_Receive (\<lambda>d. d) (replicate 16 1) [[replicate 16 1 @ [7]]] [] 5
         (DatagramSession_new\<lparr>ds_open := True, ds_received := [[9]]\<rparr>) = Some (r, s')
     \<and> mset (filter (\<lambda>d. \<not> MatchesPeerTag d (replicate 16 1)) (ds_received s'))
         = mset (filter (\<lambda>d. \<not> MatchesPeerTag d (replicate 16 1)) ([[9]] @ arrived))"
proof -
  have "ds_open (DatagramSession_new\<lparr>ds_open := True, ds_received := [[9]]\<rparr>)" by simp
  moreover have r: "ds_received (DatagramSession_new\<lparr>ds_open := True, ds_received := [[9]]\<rparr>) = [[9]]" by simp
  ultimately show ?thesis
    using datagram_receive_in_order [of "DatagramSession_new\<lparr>ds_open := True, ds_received := [[9]]\<rparr>"
        "\<lambda>d. d" "replicate 16 1" "[[replicate 16 1 @ [7]]]" "[]" 5, unfolded r] by blast
qed

lemma receive_returns: "ds_Receive to_ms tag wakes late now s \<noteq> None"
proof (cases "ds_open s")
  case True
  then show ?thesis
    by (cases rule: receive_loop_outcome [of "map kept wakes" "ds_received s" tag "kept late"])
      (simp_all add: ds_Receive_def)
qed (simp add: ds_Receive_def)


section \<open>The session as an object\<close>

datatype ds_event =
    EvOpen VoipEndpoint open_io
  | EvMessage bytes
  | EvSend bytes int "socket_exn option" "socket_exn option"
  | EvReceive bytes "bytes list list" "bytes list" int
  | EvClose

fun ds_step :: "(int \<Rightarrow> int) \<Rightarrow> DatagramSession \<Rightarrow> ds_event \<Rightarrow> DatagramSession" where
  "ds_step ms s (EvOpen ep io) = snd (ds_Open ep io s)"
| "ds_step ms s (EvMessage bs) = ds_on_message bs s"
| "ds_step ms s (EvSend bs now w st) = snd (ds_Send bs now w st s)"
| "ds_step ms s (EvReceive tag wakes late now) =
     (case ds_Receive ms tag wakes late now s of Some (_, s') \<Rightarrow> s' | None \<Rightarrow> s)"
| "ds_step ms s EvClose = ds_Close s"

text \<open>All or nothing: the socket, the stream and the handler are there exactly when the session is open,
  and a closed one has no datagram left.\<close>

definition ds_inv :: "DatagramSession \<Rightarrow> bool" where
  "ds_inv s \<longleftrightarrow> ds_socket s = ds_open s \<and> ds_outputStream s = ds_open s \<and> ds_hasToken s = ds_open s
     \<and> (\<not> ds_open s \<longrightarrow> ds_received s = []) \<and> [] \<notin> set (ds_received s)"

lemma fold_on_message:
  "ds_hasToken s \<Longrightarrow> fold ds_on_message ds s = s\<lparr>ds_received := ds_received s @ kept ds\<rparr>"
  by (induction ds arbitrary: s) (simp_all add: ds_on_message_def)

lemma ds_Open_inv: "ds_inv s \<Longrightarrow> ds_inv (snd (ds_Open ep io s))"
  by (simp add: ds_Open_def ds_inv_def open_failed_def ds_Close_def Let_def fold_on_message split: option.split)

lemma ds_Receive_inv: "ds_inv s \<Longrightarrow> ds_Receive ms tag wakes late now s = Some (r, s') \<Longrightarrow> ds_inv s'"
proof (cases "ds_open s")
  case True
  assume inv: "ds_inv s" and step: "ds_Receive ms tag wakes late now s = Some (r, s')"
  have ne: "[] \<notin> set (ds_received s @ concat (take j (map kept wakes)))" for j
    using inv by (fastforce simp: ds_inv_def dest!: in_set_takeD)
  show ?thesis
  proof (cases rule: receive_loop_outcome [of "map kept wakes" "ds_received s" tag "kept late"])
    case (hit j pre d post)
    with ne [of j] have "[] \<notin> set (post @ pre)" by auto
    with hit(5) inv step True show ?thesis by (simp add: ds_Receive_def ds_inv_def) auto
  next
    case miss
    with ne [of "length wakes"] inv step True show ?thesis by (simp add: ds_Receive_def ds_inv_def) auto
  qed
qed (simp add: ds_Receive_def)

interpretation datagram_session: reactive "ds_step ms" ds_inv DatagramSession_new
proof
  show "ds_inv DatagramSession_new" by (simp add: ds_inv_def DatagramSession_new_def)
next
  fix s e
  assume inv: "ds_inv s"
  show "ds_inv (ds_step ms s e)"
  proof (cases e)
    case (EvOpen ep io)
    with inv show ?thesis by (simp add: ds_Open_inv)
  next
    case (EvSend bs now w st)
    with inv show ?thesis by (simp add: ds_Send_def ds_inv_def Let_def split: option.split)
  next
    case (EvReceive tag wakes late now)
    with inv show ?thesis by (auto split: option.split intro: ds_Receive_inv)
  qed (use inv in \<open>auto simp: ds_on_message_def ds_Close_def ds_inv_def Let_def\<close>)
qed

text \<open>
  Whatever is called on a polled session and whatever the platform raises, the session ends
  either open, with socket, stream and handler, or closed with none of them and an empty queue.
\<close>

theorem datagram_session_invariant:
  "ds_inv (run_steps (ds_step ms) DatagramSession_new es)"
  by (rule datagram_session.inv_run)


section \<open>The probe\<close>

lemma probe_on_message_done:
  "fold (probe_on_message tag q) bs (c, r) = (c', r') \<Longrightarrow>
     (c', r') = (c, r) \<or> (\<exists>b \<in> set bs. \<exists>info. parse_self_info_response b tag = Some (Inr info)
        \<and> QueryId info = q \<and> c' \<and> r' = probe_Ok info 0)"
proof (induction bs arbitrary: c r)
  case (Cons b bs)
  obtain c1 r1 where 1: "probe_on_message tag q b (c, r) = (c1, r1)" by fastforce
  with Cons.prems have "fold (probe_on_message tag q) bs (c1, r1) = (c', r')" by simp
  from Cons.IH [OF this] 1 show ?case
    by (auto simp: probe_on_message_def split: if_splits option.splits sum.splits)
qed simp

text \<open>
  A probe that succeeds reports the answer of a datagram that parsed with the endpoint's tag and
  the query's own id; its round trip is the measured one or, when the answer was overwritten by a
  later one before the handler was removed, 0.
\<close>

theorem probe_success_sound:
  assumes "pr_Success (ProbeSelfInfo ep q io)"
  shows "\<exists>b \<in> set (pi_before io @ pi_after io). \<exists>info.
     parse_self_info_response b (VoipEndpoint.PeerTag ep) = Some (Inr info) \<and> QueryId info = q
     \<and> pr_SelfInfo (ProbeSelfInfo ep q io) = Some info
     \<and> pr_RttMs (ProbeSelfInfo ep q io) \<in> {pi_elapsed io, 0}"
proof -
  let ?h = "probe_on_message (VoipEndpoint.PeerTag ep) q"
  obtain c r where 1: "fold ?h (pi_before io) (False, probe_Fail ''reflector probe timed out'') = (c, r)" by fastforce
  define r1 where "r1 = (if c \<and> pr_Success r then r\<lparr>pr_RttMs := pi_elapsed io\<rparr> else r)"
  obtain c2 r2 where 2: "fold ?h (pi_after io) (c, r1) = (c2, r2)" by fastforce
  from assms have run: "ProbeSelfInfo ep q io = r2"
    by (auto simp: ProbeSelfInfo_def probe_Fail_def 1 [unfolded probe_Fail_def] 2 r1_def [symmetric]
        split: if_splits sum.splits option.splits)
  with assms have ok: "pr_Success r2" by simp
  from probe_on_message_done [OF 2]
  show ?thesis
  proof
    assume "(c2, r2) = (c, r1)"
    with ok probe_on_message_done [OF 1] show ?thesis
      by (auto simp: run r1_def probe_Ok_def probe_Fail_def split: if_splits)
  qed (auto simp: run probe_Ok_def)
qed


section \<open>The push sessions\<close>

lemma find_session_Some:
  "find_session ip port ss = Some i \<Longrightarrow>
     i < length ss \<and> as_Active (ss ! i) \<and> as_ReflectorIp (ss ! i) = ip \<and> as_ReflectorPort (ss ! i) = port"
  by (induction ss arbitrary: i) (auto split: if_splits)

lemma find_session_append:
  "find_session ip port (ss @ ts) =
     (case find_session ip port ss of Some i \<Rightarrow> Some i | None \<Rightarrow> map_option ((+) (length ss)) (find_session ip port ts))"
proof (induction ss)
  case Nil
  have "map_option ((+) 0) x = x" for x :: "nat option" by (cases x) simp_all
  then show ?case by simp
next
  case (Cons s ss)
  have "(\<lambda>x. Suc (length ss + x)) = (+) (Suc (length ss))" by auto
  with Cons show ?case by (auto simp: option.map_comp comp_def split: option.split)
qed

definition as_ok :: "AsyncSession \<Rightarrow> bool" where
  "as_ok s \<longleftrightarrow> as_Active s \<and> as_Socket s \<and> as_OutputStream s \<and> as_HasToken s
     \<and> length (as_PeerTag s) = 16 \<and> 0 < as_ReflectorPort s \<and> as_ReflectorPort s \<le> 65535 \<and> as_ReflectorIp s \<noteq> []"

lemma as_ok_wire [simp]: "as_ok (s\<lparr>as_wire := w\<rparr>) = as_ok s"
  by (simp add: as_ok_def)

datatype transport_event =
    TrOpen string int bytes bool socket_result
  | TrSend string int bytes "socket_exn option"
  | TrClose

fun transport_step :: "AsyncSession list \<Rightarrow> transport_event \<Rightarrow> AsyncSession list" where
  "transport_step ss (TrOpen ip port tag cb sock) = snd (OpenSession ip port tag cb sock ss)"
| "transport_step ss (TrSend ip port payload st) = snd (SendThroughSession ip port payload st ss)"
| "transport_step ss TrClose = snd (CloseSession ss)"

lemma OpenSession_ok:
  "fst (OpenSession ip port tag cb sock ss) = VoipError_Ok \<longleftrightarrow>
     length tag = 16 \<and> 0 < port \<and> port \<le> 65535 \<and> ip \<noteq> [] \<and> cb \<and> sock = SocketOpened"
  by (auto simp: OpenSession_def VoipError_Ok_def VoipError_Of_def split: socket_result.splits)

interpretation push_transport: reactive transport_step "list_all as_ok" "[]"
proof
  fix ss e
  assume inv: "list_all as_ok ss"
  show "list_all as_ok (transport_step ss e)"
  proof (cases e)
    case (TrOpen ip port tag cb sock)
    with inv show ?thesis by (auto simp: OpenSession_def as_ok_def split: socket_result.split)
  next
    case (TrSend ip port payload st)
    with inv show ?thesis
      by (auto simp: SendThroughSession_def Let_def list_all_length nth_list_update
          split: option.split socket_exn.split dest!: find_session_Some)
  qed (simp add: CloseSession_def)
qed simp

text \<open>
  On a transport in any state its operations can reach, \<open>SendThroughSession\<close> succeeds exactly
  when a session of that address and port is open and the platform stores the datagram; the two other
  error branches, a null stream and a tag of another length, are never taken.
\<close>

theorem push_send_outcome:
  "fst (SendThroughSession ip port payload store (run_steps transport_step [] es)) =
     (if find_session ip port (run_steps transport_step [] es) = None
      then VoipError_Of InvalidArgument 0 ''no open async session for the requested reflector endpoint''
      else case store of
          None \<Rightarrow> VoipError_Ok
        | Some (PlatformException hr) \<Rightarrow> VoipError_Of TransportFailed hr ''async session SendThroughSession failed''
        | Some _ \<Rightarrow> VoipError_Of TransportFailed 0 ''async session SendThroughSession failed'')"
proof -
  define ss where "ss = run_steps transport_step [] es"
  have "list_all as_ok ss" unfolding ss_def by (rule push_transport.inv_run)
  then have ok: "find_session ip port ss = Some i \<Longrightarrow> as_ok (ss ! i)" for i
    by (auto simp: list_all_length dest!: find_session_Some)
  show ?thesis
    unfolding ss_def [symmetric]
    by (cases "find_session ip port ss")
      (use ok in \<open>auto simp: SendThroughSession_def as_ok_def Let_def split: option.split socket_exn.split\<close>)
qed

lemma async_on_message_framed:
  assumes "as_Active s" "length (as_PeerTag s) = 16" "length tag = 16" "take 12 tag = take 12 (as_PeerTag s)"
  shows "async_on_message (tag @ payload) s = Some (as_ReflectorIp s, as_ReflectorPort s, payload)"
proof -
  have "tag ! i = as_PeerTag s ! i" if "i < 12" for i
    using assms(4) that by (metis nth_take)
  then have "list_all (\<lambda>i. (tag @ payload) ! i = as_PeerTag s ! i) [0..<12]"
    unfolding list_all_iff set_upt using assms(3) by (simp add: nth_append)
  with assms show ?thesis by (simp add: async_on_message_def del: upt_rec_numeral)
qed

text \<open>
  Claim C35: A payload sent through a session goes out behind the session's tag, and a datagram with that
  tag before it, as the reflector echoes it, is handed to the callback as the same payload. After
  \<open>CloseSession\<close> no session delivers anything and no send finds one.
\<close>

theorem push_session_roundtrip:
  assumes "fst (OpenSession ip port tag cb sock ss) = VoipError_Ok" and "find_session ip port ss = None"
  shows "\<exists>ss' s. SendThroughSession ip port payload None (snd (OpenSession ip port tag cb sock ss)) = (VoipError_Ok, ss')
     \<and> ss' ! length ss = s \<and> as_wire s = [tag @ payload]
     \<and> async_on_message (tag @ payload) s = Some (ip, port, payload)
     \<and> (\<forall>s \<in> set (fst (CloseSession ss')). \<forall>raw. async_on_message raw s = None)
     \<and> fst (SendThroughSession ip port payload None (snd (CloseSession ss'))) \<noteq> VoipError_Ok"
proof -
  define s where "s = \<lparr>as_ReflectorIp = ip, as_ReflectorPort = port, as_PeerTag = tag,
      as_Socket = True, as_OutputStream = True, as_HasToken = True, as_Active = True, as_wire = []\<rparr>"
  from assms(1) [unfolded OpenSession_ok]
  have tag: "length tag = 16" and opened: "snd (OpenSession ip port tag cb sock ss) = ss @ [s]"
    by (simp_all add: OpenSession_def s_def)
  have found: "find_session ip port (ss @ [s]) = Some (length ss)"
    using assms(2) by (simp add: find_session_append s_def)
  then have sent: "SendThroughSession ip port payload None (ss @ [s]) = (VoipError_Ok, ss @ [s\<lparr>as_wire := [tag @ payload]\<rparr>])"
    by (simp add: SendThroughSession_def) (simp add: s_def tag)
  have "async_on_message (tag @ payload) (s\<lparr>as_wire := [tag @ payload]\<rparr>) = Some (ip, port, payload)"
    using tag by (subst async_on_message_framed) (simp_all add: s_def)
  moreover have "async_on_message raw (close_async x) = None" for raw x
    by (simp add: async_on_message_def close_async_def Let_def)
  moreover have "fst (SendThroughSession ip port payload None []) \<noteq> VoipError_Ok"
    by (simp add: SendThroughSession_def VoipError_Of_def VoipError_Ok_def)
  ultimately show ?thesis
    by (simp add: opened sent CloseSession_def)
qed

theorem push_session_roundtrip_witness:
  "\<exists>ss' s. SendThroughSession ''h'' 1400 [7] None
       (snd (OpenSession ''h'' 1400 (replicate 16 1) True SocketOpened [])) = (VoipError_Ok, ss')
     \<and> ss' ! 0 = s \<and> as_wire s = [replicate 16 1 @ [7]]
     \<and> async_on_message (replicate 16 1 @ [7]) s = Some (''h'', 1400, [7])"
proof -
  have "fst (OpenSession ''h'' 1400 (replicate 16 1) True SocketOpened []) = VoipError_Ok"
    and "find_session ''h'' 1400 [] = None"
    by (simp_all add: OpenSession_def)
  from push_session_roundtrip [OF this, of "[7]"] show ?thesis unfolding list.size by blast
qed

text \<open>
  The lookup takes the first session of an endpoint. A second one opened for the same address and port
  receives, but nothing is ever sent with its tag while the first is open.
\<close>

theorem second_push_session_receives_only:
  assumes "find_session ip port ss = Some i" and "length tag = 16"
    and "fst (OpenSession ip port tag True SocketOpened ss) = VoipError_Ok" and "as_OutputStream (ss ! i)"
    and "length (as_PeerTag (ss ! i)) = 16"
  defines "ss1 \<equiv> snd (OpenSession ip port tag True SocketOpened ss)"
  shows "async_on_message (tag @ payload) (ss1 ! length ss) = Some (ip, port, payload)
     \<and> (\<exists>ss2. SendThroughSession ip port payload None ss1 = (VoipError_Ok, ss2)
          \<and> as_wire (ss2 ! i) = as_wire (ss ! i) @ [as_PeerTag (ss ! i) @ payload]
          \<and> ss2 ! length ss = ss1 ! length ss)"
proof -
  define s where "s = \<lparr>as_ReflectorIp = ip, as_ReflectorPort = port, as_PeerTag = tag,
      as_Socket = True, as_OutputStream = True, as_HasToken = True, as_Active = True, as_wire = []\<rparr>"
  from assms(3) [unfolded OpenSession_ok] have opened: "ss1 = ss @ [s]"
    unfolding ss1_def by (simp add: OpenSession_def s_def)
  from assms(1) have i: "i < length ss" by (simp add: find_session_Some)
  have found: "find_session ip port (ss @ [s]) = Some i"
    using assms(1) by (simp add: find_session_append)
  have "async_on_message (tag @ payload) s = Some (ip, port, payload)"
    using assms(2) by (subst async_on_message_framed) (simp_all add: s_def)
  with i assms(4,5) show ?thesis
    by (simp add: opened SendThroughSession_def found nth_append Let_def)
qed

end
