(* ===== verification/AudioRuntime.thy ===== *)
theory AudioRuntime
  imports Interfaces TurnAddressText
begin

text \<open>
  The audio device (\<open>winrt_voip_audio_device.cpp\<close>) with its two frame queues and two worker threads,
  and the wrapper of the Opus codec (\<open>opus_voip_codec.cpp\<close>).

  WASAPI, the thread API and the Opus library are outside the program: their results are
  parameters. A pointer or a handle is a flag, a sample an integer, and one turn of a worker
  thread an operation on the device. \<open>ad_rendered\<close> is the history of the samples given to the
  speaker; no definition reads it.
\<close>

section \<open>The codec\<close>

definition OPUS_BAD_ARG :: int where "OPUS_BAD_ARG = -1"
definition OPUS_INVALID_STATE :: int where "OPUS_INVALID_STATE = -4"
definition OPUS_ALLOC_FAIL :: int where "OPUS_ALLOC_FAIL = -7"
definition DefaultBitrateBps :: int where "DefaultBitrateBps = 24000"
definition MaxPacketBytes :: nat where "MaxPacketBytes = 400"
definition FrameSamples :: nat where "FrameSamples = (48000 div 1000) * 60"

lemma FrameSamples_val: "FrameSamples = 2880"
  by (simp add: FrameSamples_def)

record OpusVoipCodec =
  oc_encoder :: bool
  oc_decoder :: bool

definition OpusVoipCodec_new :: OpusVoipCodec where
  "OpusVoipCodec_new = \<lparr>oc_encoder = False, oc_decoder = False\<rparr>"

datatype opus_ctl = SetBitrate int | SetComplexity int | SetInbandFec int | SetPacketLossPerc int
  | SetDtx int | SetVbr int | SetSignalVoice

text \<open>The library: the error and the pointer of the two constructors, the result of each request, and
  encoding and decoding, which give a count and what they wrote.\<close>

record OpusLib =
  ol_encoder :: "int \<times> bool"
  ol_decoder :: "int \<times> bool"
  ol_ctl :: "opus_ctl \<Rightarrow> int"
  ol_encode :: "int list \<Rightarrow> nat \<Rightarrow> int \<times> bytes"
  ol_decode :: "bytes option \<Rightarrow> nat \<Rightarrow> int \<times> int list"

definition opus_Destroy :: "OpusVoipCodec \<Rightarrow> OpusVoipCodec" where
  "opus_Destroy c =
     (let c = (if oc_encoder c then c\<lparr>oc_encoder := False\<rparr> else c)
      in if oc_decoder c then c\<lparr>oc_decoder := False\<rparr> else c)"

text \<open>The requests in order; the first that fails gives the result.\<close>

fun opus_requests :: "(opus_ctl \<Rightarrow> int) \<Rightarrow> opus_ctl list \<Rightarrow> int" where
  "opus_requests ctl [] = 0"
| "opus_requests ctl (r # rs) = (if ctl r \<noteq> 0 then ctl r else opus_requests ctl rs)"

definition opus_Init :: "OpusLib \<Rightarrow> int \<Rightarrow> OpusVoipCodec \<Rightarrow> int \<times> OpusVoipCodec" where
  "opus_Init lib bitrateBps c =
     (let c = opus_Destroy c;
          bitrateBps = (if bitrateBps \<le> 0 then DefaultBitrateBps else bitrateBps);
          (encoderError, enc) = ol_encoder lib;
          c = c\<lparr>oc_encoder := enc\<rparr>
      in if encoderError \<noteq> 0 \<or> \<not> oc_encoder c
         then (if encoderError = 0 then OPUS_ALLOC_FAIL else encoderError, opus_Destroy c)
         else
           (let (decoderError, dec) = ol_decoder lib;
                c = c\<lparr>oc_decoder := dec\<rparr>
            in if decoderError \<noteq> 0 \<or> \<not> oc_decoder c
               then (if decoderError = 0 then OPUS_ALLOC_FAIL else decoderError, opus_Destroy c)
               else (opus_requests (ol_ctl lib) [SetBitrate bitrateBps, SetComplexity 5, SetInbandFec 1,
                       SetPacketLossPerc 5, SetDtx 0, SetVbr 0, SetSignalVoice], c)))"

text \<open>The buffers of the callers are never null; an empty vector stands for a count of 0.\<close>

definition EncodeFrame :: "OpusLib \<Rightarrow> int list \<Rightarrow> nat \<Rightarrow> OpusVoipCodec \<Rightarrow> int \<times> bytes" where
  "EncodeFrame lib pcm opusCapacity c =
     (if \<not> oc_encoder c then (OPUS_INVALID_STATE, [])
      else if length pcm = 0 \<or> opusCapacity = 0 \<or> opusCapacity > 1500 then (OPUS_BAD_ARG, [])
      else ol_encode lib pcm opusCapacity)"

definition DecodePlc :: "OpusLib \<Rightarrow> nat \<Rightarrow> OpusVoipCodec \<Rightarrow> int \<times> int list" where
  "DecodePlc lib pcmCapacityFrames c =
     (if \<not> oc_decoder c then (OPUS_INVALID_STATE, [])
      else if pcmCapacityFrames = 0 then (OPUS_BAD_ARG, [])
      else ol_decode lib None pcmCapacityFrames)"

definition DecodeFrame :: "OpusLib \<Rightarrow> bytes \<Rightarrow> nat \<Rightarrow> OpusVoipCodec \<Rightarrow> int \<times> int list" where
  "DecodeFrame lib opusBytes pcmCapacityFrames c =
     (if \<not> oc_decoder c then (OPUS_INVALID_STATE, [])
      else if pcmCapacityFrames = 0 then (OPUS_BAD_ARG, [])
      else if opusBytes = [] then DecodePlc lib pcmCapacityFrames c
      else if length opusBytes > 1500 then (OPUS_BAD_ARG, [])
      else ol_decode lib (Some opusBytes) pcmCapacityFrames)"

text \<open>The objects that are told to forget their history: the wrapper itself keeps none.\<close>

definition opus_Reset :: "OpusVoipCodec \<Rightarrow> bool \<times> bool" where
  "opus_Reset c = (oc_encoder c, oc_decoder c)"

definition opus_Ready :: "OpusVoipCodec \<Rightarrow> bool" where
  "opus_Ready c \<longleftrightarrow> oc_encoder c \<and> oc_decoder c"


section \<open>The device\<close>

record VoipAudioIoResult =
  ar_Success :: bool
  ar_Error :: string
  ar_SampleRate :: nat
  ar_Channels :: nat
  ar_FrameSamples :: nat

definition audio_Ok :: VoipAudioIoResult where
  "audio_Ok = \<lparr>ar_Success = True, ar_Error = [], ar_SampleRate = 48000, ar_Channels = 1, ar_FrameSamples = FrameSamples\<rparr>"

definition audio_Fail :: "string \<Rightarrow> VoipAudioIoResult" where
  "audio_Fail err = \<lparr>ar_Success = False, ar_Error = err, ar_SampleRate = 0, ar_Channels = 0, ar_FrameSamples = 0\<rparr>"

record AudioDevice =
  ad_shutdownEvent :: bool
  ad_captureEvent :: bool
  ad_renderEvent :: bool
  ad_captureThread :: bool
  ad_renderThread :: bool
  ad_captureClient :: bool
  ad_captureService :: bool
  ad_renderClient :: bool
  ad_renderService :: bool
  ad_open :: bool
  ad_muted :: bool
  ad_speakerOn :: bool
  ad_failed :: bool
  ad_captureFrames :: "int list list"
  ad_captureScratch :: "int list"
  ad_renderFrames :: "int list list"
  ad_renderScratch :: "int list"
  ad_captureRuns :: bool
  ad_renderRuns :: bool
  ad_rendered :: "int list"

definition AudioDevice_new :: AudioDevice where
  "AudioDevice_new = \<lparr>ad_shutdownEvent = False, ad_captureEvent = False, ad_renderEvent = False,
     ad_captureThread = False, ad_renderThread = False, ad_captureClient = False, ad_captureService = False,
     ad_renderClient = False, ad_renderService = False, ad_open = False, ad_muted = False, ad_speakerOn = False,
     ad_failed = False, ad_captureFrames = [], ad_captureScratch = [], ad_renderFrames = [], ad_renderScratch = [],
     ad_captureRuns = False, ad_renderRuns = False, ad_rendered = []\<rparr>"

text \<open>\<open>FAILED(hr)\<close>.\<close>

definition hr_failed :: "int \<Rightarrow> bool" where "hr_failed hr \<longleftrightarrow> hr < 0"

definition audio_HResultMessage :: "string \<Rightarrow> int \<Rightarrow> string" where
  "audio_HResultMessage prefix hr = prefix @ '' hr=0x'' @ show_hex (nat (hr mod 2 ^ 32))"

definition E_FAIL :: int where "E_FAIL = -2147467259"
definition RPC_E_CHANGED_MODE :: int where "RPC_E_CHANGED_MODE = -2147417850"
definition kWaitTimeoutHr :: int where "kWaitTimeoutHr = -2147024638"

text \<open>What the platform answers while a client is opened.\<close>

record client_io =
  ci_deviceId :: bool
  ci_event :: "int option"
  ci_call :: int
  ci_completed :: bool
  ci_result :: int
  ci_client :: bool
  ci_properties :: int
  ci_initialize :: int
  ci_eventHandle :: int
  ci_service :: int
  ci_bufferSize :: int

text \<open>Whether there is a client, and the two results.\<close>

definition ActivateAudioClient :: "client_io \<Rightarrow> bool \<times> int \<times> int" where
  "ActivateAudioClient io =
     (case ci_event io of
        Some hr \<Rightarrow> (False, hr, E_FAIL)
      | None \<Rightarrow>
          if hr_failed (ci_call io) then (False, ci_call io, E_FAIL)
          else if \<not> ci_completed io then (False, ci_call io, kWaitTimeoutHr)
          else (ci_client io, ci_call io, ci_result io))"

definition OpenCapture :: "client_io \<Rightarrow> AudioDevice \<Rightarrow> VoipAudioIoResult \<times> AudioDevice" where
  "OpenCapture io d =
     (if \<not> ci_deviceId io then (audio_Fail ''default communication microphone was not found'', d)
      else
        (let (client, call, activate) = ActivateAudioClient io in
         if \<not> client \<or> hr_failed call \<or> hr_failed activate
         then (audio_Fail (if hr_failed call then audio_HResultMessage ''microphone activation failed'' call
                           else audio_HResultMessage ''microphone activation result failed'' activate), d)
         else if hr_failed (ci_properties io)
         then (audio_Fail (audio_HResultMessage ''microphone communication category failed'' (ci_properties io)), d)
         else if hr_failed (ci_initialize io)
         then (audio_Fail (audio_HResultMessage ''microphone initialize failed'' (ci_initialize io)), d)
         else if hr_failed (ci_eventHandle io)
         then (audio_Fail (audio_HResultMessage ''microphone event handle failed'' (ci_eventHandle io)), d)
         else if hr_failed (ci_service io)
         then (audio_Fail (audio_HResultMessage ''microphone capture service failed'' (ci_service io)), d)
         else (audio_Ok, d\<lparr>ad_captureService := True, ad_captureClient := True\<rparr>)))"

definition OpenRender :: "client_io \<Rightarrow> AudioDevice \<Rightarrow> VoipAudioIoResult \<times> AudioDevice" where
  "OpenRender io d =
     (if \<not> ci_deviceId io then (audio_Fail ''default communication speaker was not found'', d)
      else
        (let (client, call, activate) = ActivateAudioClient io in
         if \<not> client \<or> hr_failed call \<or> hr_failed activate
         then (audio_Fail (if hr_failed call then audio_HResultMessage ''speaker activation failed'' call
                           else audio_HResultMessage ''speaker activation result failed'' activate), d)
         else if hr_failed (ci_properties io)
         then (audio_Fail (audio_HResultMessage ''speaker communication category failed'' (ci_properties io)), d)
         else if hr_failed (ci_initialize io)
         then (audio_Fail (audio_HResultMessage ''speaker initialize failed'' (ci_initialize io)), d)
         else if hr_failed (ci_eventHandle io)
         then (audio_Fail (audio_HResultMessage ''speaker event handle failed'' (ci_eventHandle io)), d)
         else if hr_failed (ci_service io)
         then (audio_Fail (audio_HResultMessage ''speaker render service failed'' (ci_service io)), d)
         else
           (let d = d\<lparr>ad_renderService := True\<rparr> in
            if hr_failed (ci_bufferSize io)
            then (audio_Fail (audio_HResultMessage ''speaker buffer size failed'' (ci_bufferSize io)),
                  d\<lparr>ad_renderService := False\<rparr>)
            else (audio_Ok, d\<lparr>ad_renderClient := True\<rparr>))))"

text \<open>The workers have ended when the waits for them return.\<close>

definition audio_Close :: "AudioDevice \<Rightarrow> AudioDevice" where
  "audio_Close d =
     d\<lparr>ad_captureRuns := False, ad_renderRuns := False, ad_captureThread := False, ad_renderThread := False,
       ad_captureService := False, ad_captureClient := False, ad_renderService := False, ad_renderClient := False,
       ad_shutdownEvent := False, ad_captureEvent := False, ad_renderEvent := False,
       ad_captureFrames := [], ad_captureScratch := [], ad_renderFrames := [], ad_renderScratch := [],
       ad_open := False\<rparr>"

record audio_open_io =
  ao_co :: int
  ao_events :: "bool \<times> bool \<times> bool"
  ao_capture :: client_io
  ao_render :: client_io
  ao_startCapture :: int
  ao_startRender :: int
  ao_threads :: "bool \<times> bool"

definition audio_Open :: "audio_open_io \<Rightarrow> AudioDevice \<Rightarrow> VoipAudioIoResult \<times> AudioDevice" where
  "audio_Open io d =
     (if ad_open d then (audio_Ok, d)
      else if hr_failed (ao_co io) \<and> ao_co io \<noteq> RPC_E_CHANGED_MODE
      then (audio_Fail (audio_HResultMessage ''CoInitializeEx failed'' (ao_co io)), d)
      else
        (let (e1, e2, e3) = ao_events io;
             d = d\<lparr>ad_shutdownEvent := e1, ad_captureEvent := e2, ad_renderEvent := e3\<rparr>
         in if \<not> e1 \<or> \<not> e2 \<or> \<not> e3 then (audio_Fail ''WASAPI event creation failed'', audio_Close d)
            else
              (let (capture, d) = OpenCapture (ao_capture io) d in
               if \<not> ar_Success capture then (capture, audio_Close d)
               else
                 (let (render, d) = OpenRender (ao_render io) d in
                  if \<not> ar_Success render then (render, audio_Close d)
                  else if hr_failed (ao_startCapture io)
                  then (audio_Fail (audio_HResultMessage ''audio capture start failed'' (ao_startCapture io)), audio_Close d)
                  else if hr_failed (ao_startRender io)
                  then (audio_Fail (audio_HResultMessage ''audio render start failed'' (ao_startRender io)), audio_Close d)
                  else
                    (let (t1, t2) = ao_threads io;
                         d = d\<lparr>ad_captureThread := t1, ad_renderThread := t2, ad_captureRuns := t1, ad_renderRuns := t2\<rparr>
                     in if \<not> t1 \<or> \<not> t2 then (audio_Fail ''WASAPI worker thread creation failed'', audio_Close d)
                        else (audio_Ok, d\<lparr>ad_open := True\<rparr>))))))"

definition audio_SetMuted :: "bool \<Rightarrow> AudioDevice \<Rightarrow> AudioDevice" where
  "audio_SetMuted muted d = d\<lparr>ad_muted := muted\<rparr>"

text \<open>The change of the route is the platform's; whatever it throws is caught.\<close>

definition audio_SetSpeaker :: "bool \<Rightarrow> AudioDevice \<Rightarrow> AudioDevice" where
  "audio_SetSpeaker speakerOn d = d\<lparr>ad_speakerOn := speakerOn\<rparr>"


section \<open>Frames\<close>

text \<open>\<open>while (q.size() >= n) q.pop_front();\<close>\<close>

fun pop_while :: "nat \<Rightarrow> 'a list \<Rightarrow> 'a list" where
  "pop_while n [] = []"
| "pop_while n (x # q) = (if length (x # q) \<ge> n then pop_while n q else x # q)"

function push_frames :: "int list list \<Rightarrow> int list \<Rightarrow> int list list \<times> int list" where
  "push_frames frames scratch =
     (if length scratch \<ge> FrameSamples
      then push_frames (pop_while 8 frames @ [take FrameSamples scratch]) (drop FrameSamples scratch)
      else (frames, scratch))"
  by pat_completeness auto
termination
  by (relation "measure (\<lambda>(f, s). length s)") (auto simp: FrameSamples_def)

declare push_frames.simps [simp del]

definition PushCaptureSamples :: "int list \<Rightarrow> AudioDevice \<Rightarrow> AudioDevice" where
  "PushCaptureSamples samples d =
     (if length samples = 0 then d
      else (case push_frames (ad_captureFrames d) (ad_captureScratch d @ samples) of
          (frames, scratch) \<Rightarrow> d\<lparr>ad_captureFrames := frames, ad_captureScratch := scratch\<rparr>))"

text \<open>\<open>arrived\<close> are the samples the capture worker, while it runs, pushes during the wait, which there is for an
  empty queue only.\<close>

definition ReadFrame :: "int list list \<Rightarrow> AudioDevice \<Rightarrow> VoipAudioIoResult \<times> int list \<times> AudioDevice" where
  "ReadFrame arrived d =
     (if \<not> ad_open d then (audio_Fail ''audio device is not open'', [], d)
      else
        (let d = (if ad_captureFrames d = [] \<and> ad_captureRuns d then fold PushCaptureSamples arrived d else d) in
         case ad_captureFrames d of
           [] \<Rightarrow> (audio_Fail ''audio capture timed out'', [], d)
         | pcm # frames \<Rightarrow>
             (audio_Ok, if ad_muted d then map (\<lambda>_. 0) pcm else pcm, d\<lparr>ad_captureFrames := frames\<rparr>)))"

definition WriteFrame :: "int list \<Rightarrow> AudioDevice \<Rightarrow> VoipAudioIoResult \<times> AudioDevice" where
  "WriteFrame pcm d =
     (if \<not> ad_open d then (audio_Fail ''audio device is not open'', d)
      else if pcm = [] then (audio_Fail ''audio render frame is empty'', d)
      else (audio_Ok, d\<lparr>ad_renderFrames := pop_while 12 (ad_renderFrames d) @ [pcm]\<rparr>))"

text \<open>
  The loop of \<open>FillRenderSamples\<close> for \<open>n\<close> more samples: what it writes, the scratch and the queue left.
  \<open>None\<close>: the first element of an empty frame is taken, which a frame of the queue never is.
\<close>

function fill_samples :: "nat \<Rightarrow> int list \<Rightarrow> int list list \<Rightarrow> (int list \<times> int list \<times> int list list) option" where
  "fill_samples n scratch frames =
     (if n = 0 then Some ([], scratch, frames)
      else if scratch = [] \<and> frames = [] then Some (replicate n 0, [], [])
      else
        (let (cur, rest) = (if scratch = [] then (hd frames, tl frames) else (scratch, frames));
             toCopy = min (length cur) n
         in if cur = [] then None
            else (case fill_samples (n - toCopy) (drop toCopy cur) rest of
                None \<Rightarrow> None
              | Some (out, r) \<Rightarrow> Some (take toCopy cur @ out, r))))"
  by pat_completeness auto
termination
  by (relation "measure fst") (auto split: if_splits)

declare fill_samples.simps [simp del]

definition FillRenderSamples :: "nat \<Rightarrow> AudioDevice \<Rightarrow> (int list \<times> AudioDevice) option" where
  "FillRenderSamples n d =
     (if n = 0 then Some ([], d)
      else (case fill_samples n (ad_renderScratch d) (ad_renderFrames d) of
          None \<Rightarrow> None
        | Some (out, scratch, frames) \<Rightarrow> Some (out, d\<lparr>ad_renderScratch := scratch, ad_renderFrames := frames\<rparr>)))"


section \<open>The worker threads\<close>

text \<open>One packet of the capture client: the samples, the silence flag, and whether getting it or asking for
  the next one fails.\<close>

record capture_packet =
  cp_getFails :: bool
  cp_samples :: "int list"
  cp_silent :: bool
  cp_nextFails :: bool

definition worker_failed :: "AudioDevice \<Rightarrow> AudioDevice" where
  "worker_failed d = d\<lparr>ad_failed := True, ad_captureRuns := False\<rparr>"

fun capture_packets :: "capture_packet list \<Rightarrow> AudioDevice \<Rightarrow> AudioDevice" where
  "capture_packets [] d = d"
| "capture_packets (p # ps) d =
     (if cp_getFails p then worker_failed d
      else
        (let d = (if cp_samples p \<noteq> []
                  then PushCaptureSamples (if cp_silent p then map (\<lambda>_. 0) (cp_samples p) else cp_samples p) d
                  else d)
         in if cp_nextFails p then worker_failed d else capture_packets ps d))"

text \<open>A turn of \<open>CaptureLoop\<close> woken by the capture event; \<open>fails\<close>: asking for the first packet does.\<close>

definition CaptureLoop_turn :: "bool \<Rightarrow> capture_packet list \<Rightarrow> AudioDevice \<Rightarrow> AudioDevice" where
  "CaptureLoop_turn fails packets d =
     (if \<not> ad_captureRuns d \<or> \<not> ad_captureService d then d
      else if fails then worker_failed d
      else capture_packets packets d)"

record render_io =
  rn_bufferFrames :: "nat option"
  rn_padding :: "nat option"
  rn_getFails :: bool
  rn_releaseFails :: bool

definition render_failed :: "AudioDevice \<Rightarrow> AudioDevice" where
  "render_failed d = d\<lparr>ad_failed := True, ad_renderRuns := False\<rparr>"

definition RenderLoop_turn :: "render_io \<Rightarrow> AudioDevice \<Rightarrow> AudioDevice option" where
  "RenderLoop_turn io d =
     (if \<not> ad_renderRuns d \<or> \<not> ad_renderClient d \<or> \<not> ad_renderService d then Some d
      else (case (rn_bufferFrames io, rn_padding io) of
          (Some bufferFrames, Some padding) \<Rightarrow>
            (let framesAvailable = (if bufferFrames > padding then bufferFrames - padding else 0) in
             if framesAvailable = 0 then Some d
             else if rn_getFails io then Some (render_failed d)
             else (case FillRenderSamples framesAvailable d of
                 None \<Rightarrow> None
               | Some (out, d) \<Rightarrow>
                   if rn_releaseFails io then Some (render_failed d)
                   else Some (d\<lparr>ad_rendered := ad_rendered d @ out\<rparr>)))
        | _ \<Rightarrow> Some (render_failed d)))"

datatype audio_event =
    AuOpen audio_open_io
  | AuClose
  | AuRead "int list list"
  | AuWrite "int list"
  | AuMute bool
  | AuSpeaker bool
  | AuCapture bool "capture_packet list"
  | AuRender render_io

fun audio_step :: "AudioDevice \<Rightarrow> audio_event \<Rightarrow> AudioDevice" where
  "audio_step d (AuOpen io) = snd (audio_Open io d)"
| "audio_step d AuClose = audio_Close d"
| "audio_step d (AuRead arrived) = snd (snd (ReadFrame arrived d))"
| "audio_step d (AuWrite pcm) = snd (WriteFrame pcm d)"
| "audio_step d (AuMute b) = audio_SetMuted b d"
| "audio_step d (AuSpeaker b) = audio_SetSpeaker b d"
| "audio_step d (AuCapture fails ps) = CaptureLoop_turn fails ps d"
| "audio_step d (AuRender io) = (case RenderLoop_turn io d of None \<Rightarrow> d | Some d' \<Rightarrow> d')"


section \<open>Capture: cutting into frames\<close>

lemma pop_while_drop: "0 < n \<Longrightarrow> pop_while n q = drop (length q + 1 - n) q"
proof (induction q)
  case (Cons x q)
  then show ?case by (cases "length q + 2 - n") (auto simp: Suc_diff_le)
qed simp

text \<open>The frames cut off the front: full ones, with a rest that is too short.\<close>

function cut :: "int list \<Rightarrow> int list list \<times> int list" where
  "cut s = (if length s \<ge> FrameSamples
     then (case cut (drop FrameSamples s) of (fs, r) \<Rightarrow> (take FrameSamples s # fs, r)) else ([], s))"
  by pat_completeness auto
termination
  by (relation "measure length") (auto simp: FrameSamples_def)

declare cut.simps [simp del]

lemma cut_short: "length s < FrameSamples \<Longrightarrow> cut s = ([], s)"
  by (subst cut.simps) simp

lemma cut_spec:
  "cut s = (fs, r) \<Longrightarrow> concat fs @ r = s \<and> length r < FrameSamples \<and> (\<forall>f \<in> set fs. length f = FrameSamples)"
proof (induction s arbitrary: fs r rule: cut.induct)
  case (1 s)
  show ?case
  proof (cases "length s \<ge> FrameSamples")
    case True
    obtain fs' r' where c: "cut (drop FrameSamples s) = (fs', r')" by fastforce
    with 1(2) True have "fs = take FrameSamples s # fs'" "r = r'" by (simp_all add: cut.simps [of s])
    with 1(1) [OF True c] True show ?thesis by auto
  next
    case False
    with 1(2) show ?thesis by (simp add: cut.simps [of s])
  qed
qed

lemma push_frames_cut:
  assumes "length q \<le> 8"
  shows "push_frames q s = (case cut s of (fs, r) \<Rightarrow> (drop (length (q @ fs) - 8) (q @ fs), r))"
  using assms
proof (induction q s rule: push_frames.induct)
  case (1 q s)
  show ?case
  proof (cases "length s \<ge> FrameSamples")
    case True
    let ?q = "pop_while 8 q @ [take FrameSamples s]"
    obtain fs r where c: "cut (drop FrameSamples s) = (fs, r)" by fastforce
    from 1(2) have q: "pop_while 8 q = drop (length q - 7) q" by (simp add: pop_while_drop)
    have "length ?q \<le> 8" by (simp add: q)
    from 1(1) [OF True this] c have "push_frames ?q (drop FrameSamples s) = (drop (length (?q @ fs) - 8) (?q @ fs), r)"
      by simp
    moreover have "drop (length (?q @ fs) - 8) (?q @ fs) = drop (length (q @ take FrameSamples s # fs) - 8) (q @ take FrameSamples s # fs)"
      using 1(2) by (cases "length q = 8") (simp_all add: q drop_Cons')
    ultimately show ?thesis
      using True c by (simp add: push_frames.simps [of q s] cut.simps [of s])
  next
    case False
    with 1(2) show ?thesis by (simp add: push_frames.simps [of q s] cut.simps [of s])
  qed
qed


definition frames_ok :: "AudioDevice \<Rightarrow> bool" where
  "frames_ok d \<longleftrightarrow>
     length (ad_captureFrames d) \<le> 8 \<and> (\<forall>f \<in> set (ad_captureFrames d). length f = FrameSamples)
     \<and> length (ad_captureScratch d) < FrameSamples
     \<and> length (ad_renderFrames d) \<le> 12 \<and> [] \<notin> set (ad_renderFrames d)"

lemma PushCaptureSamples_frames:
  assumes "frames_ok d"
  shows "\<exists>k fs. ad_captureFrames (PushCaptureSamples xs d) = drop k (ad_captureFrames d @ fs)
     \<and> concat (ad_captureFrames d @ fs) @ ad_captureScratch (PushCaptureSamples xs d)
         = concat (ad_captureFrames d) @ ad_captureScratch d @ xs
     \<and> (length (ad_captureFrames d @ fs) \<le> 8 \<longrightarrow> k = 0) \<and> frames_ok (PushCaptureSamples xs d)"
proof (cases "xs = []")
  case True
  with assms show ?thesis by (intro exI [of _ 0] exI [of _ "[]"]) (simp add: PushCaptureSamples_def frames_ok_def)
next
  case False
  obtain fs r where c: "cut (ad_captureScratch d @ xs) = (fs, r)" by fastforce
  let ?k = "length (ad_captureFrames d @ fs) - 8"
  have p: "PushCaptureSamples xs d = d\<lparr>ad_captureFrames := drop ?k (ad_captureFrames d @ fs), ad_captureScratch := r\<rparr>"
    using assms False by (simp add: PushCaptureSamples_def push_frames_cut frames_ok_def c)
  have "set (drop ?k (ad_captureFrames d @ fs)) \<subseteq> set (ad_captureFrames d) \<union> set fs"
    using set_drop_subset [of ?k "ad_captureFrames d @ fs"] by simp
  then have "frames_ok (PushCaptureSamples xs d)"
    using cut_spec [OF c] assms unfolding p by (auto simp: frames_ok_def)
  then show ?thesis
    using cut_spec [OF c] by (intro exI [of _ ?k] exI [of _ fs]) (simp add: p)
qed

text \<open>What pushing leaves alone.\<close>

lemma PushCaptureSamples_other:
  "\<exists>fs r. PushCaptureSamples xs d = d\<lparr>ad_captureFrames := fs, ad_captureScratch := r\<rparr>"
proof -
  have "PushCaptureSamples xs d = d\<lparr>ad_captureFrames := ad_captureFrames (PushCaptureSamples xs d),
      ad_captureScratch := ad_captureScratch (PushCaptureSamples xs d)\<rparr>"
    by (simp add: PushCaptureSamples_def split: prod.split)
  then show ?thesis by blast
qed

lemma fold_Push_frames_ok: "frames_ok d \<Longrightarrow> frames_ok (fold PushCaptureSamples xss d)"
  by (induction xss arbitrary: d) (auto dest: PushCaptureSamples_frames)

lemma fold_Push_other:
  "\<exists>fs r. fold PushCaptureSamples xss d = d\<lparr>ad_captureFrames := fs, ad_captureScratch := r\<rparr>"
proof (induction xss arbitrary: d)
  case Nil
  show ?case by (rule exI [of _ "ad_captureFrames d"], rule exI [of _ "ad_captureScratch d"]) simp
next
  case (Cons xs xss)
  obtain fs r where "PushCaptureSamples xs d = d\<lparr>ad_captureFrames := fs, ad_captureScratch := r\<rparr>"
    using PushCaptureSamples_other by blast
  with Cons [of "PushCaptureSamples xs d"] show ?case by auto
qed


section \<open>Playback: a stream with silence behind it\<close>

lemma fill_samples_stream:
  assumes "[] \<notin> set frames"
  shows "\<exists>scratch' frames'. fill_samples n scratch frames
       = Some (take n (scratch @ concat frames) @ replicate (n - length (scratch @ concat frames)) 0, scratch', frames')
     \<and> scratch' @ concat frames' = drop n (scratch @ concat frames) \<and> (\<exists>k. frames' = drop k frames)"
  using assms
proof (induction n scratch frames rule: fill_samples.induct)
  case (1 n scratch frames)
  consider (zero) "n = 0" | (silence) "n \<noteq> 0" "scratch = []" "frames = []"
    | (copy) cur rest where "n \<noteq> 0" "cur \<noteq> []" "cur @ concat rest = scratch @ concat frames"
        "(if scratch = [] then (hd frames, tl frames) else (scratch, frames)) = (cur, rest)"
        "\<not> (scratch = [] \<and> frames = [])" "\<exists>k. rest = drop k frames"
  proof (cases "n = 0 \<or> scratch = [] \<and> frames = []")
    case False
    show thesis
    proof (cases "scratch = []")
      case True
      with False obtain f fs where "frames = f # fs" by (cases frames) auto
      with True False 1(2) show thesis
        by (intro copy [of f fs]) (auto intro: exI [of _ 1])
    next
      case False
      with \<open>\<not> (n = 0 \<or> scratch = [] \<and> frames = [])\<close> show thesis
        by (intro copy [of scratch frames]) (auto intro: exI [of _ 0])
    qed
  qed (use zero silence in auto)
  then show ?case
  proof cases
    case zero
    then show ?thesis by (auto simp: fill_samples.simps intro: exI [of _ 0])
  next
    case silence
    then show ?thesis by (auto simp: fill_samples.simps)
  next
    case (copy cur rest)
    define c where "c = min (length cur) n"
    from copy(2,1) have c: "0 < c" "c \<le> length cur" "c \<le> n" by (auto simp: c_def)
    from copy(6) 1(2) have "[] \<notin> set rest" by (auto dest: in_set_dropD)
    from 1(1) [OF copy(1) copy(5) refl copy(4) [symmetric] c_def copy(2) this]
    obtain scratch' frames' where ih:
      "fill_samples (n - c) (drop c cur) rest
        = Some (take (n - c) (drop c cur @ concat rest) @ replicate (n - c - length (drop c cur @ concat rest)) 0, scratch', frames')"
      "scratch' @ concat frames' = drop (n - c) (drop c cur @ concat rest)" "\<exists>k. frames' = drop k rest"
      by blast
    have step: "fill_samples n scratch frames = Some (take c cur @ take (n - c) (drop c cur @ concat rest)
        @ replicate (n - c - length (drop c cur @ concat rest)) 0, scratch', frames')"
      using copy(1,2,4,5) ih(1) by (subst fill_samples.simps) (auto simp: Let_def c_def)
    have "take c cur @ take (n - c) (drop c cur @ concat rest) = take n (cur @ concat rest)"
      using c by (cases "n \<le> length cur") (auto simp: c_def min_def)
    moreover have "n - c - length (drop c cur @ concat rest) = n - length (cur @ concat rest)"
      using c by simp
    moreover have "drop (n - c) (drop c cur @ concat rest) = drop n (cur @ concat rest)"
      using c by (cases "n \<le> length cur") (auto simp: c_def min_def)
    moreover have "\<exists>k. frames' = drop k frames"
      using ih(3) copy(6) by auto
    ultimately show ?thesis using step ih(2) by (simp add: copy(3))
  qed
qed


section \<open>The device as an object\<close>

text \<open>Open, with everything an open device has, or closed with nothing.\<close>

definition parts :: "AudioDevice \<Rightarrow> bool list" where
  "parts d = [ad_shutdownEvent d, ad_captureEvent d, ad_renderEvent d, ad_captureThread d, ad_renderThread d,
     ad_captureClient d, ad_captureService d, ad_renderClient d, ad_renderService d]"

definition ad_inv :: "AudioDevice \<Rightarrow> bool" where
  "ad_inv d \<longleftrightarrow> frames_ok d \<and> list_all (\<lambda>b. b = ad_open d) (parts d)
     \<and> (\<not> ad_open d \<longrightarrow> \<not> ad_captureRuns d \<and> \<not> ad_renderRuns d \<and> ad_captureFrames d = [] \<and> ad_captureScratch d = []
          \<and> ad_renderFrames d = [] \<and> ad_renderScratch d = [])"

lemma FrameSamples_pos [simp]: "0 < FrameSamples" "FrameSamples \<noteq> 0"
  by (simp_all add: FrameSamples_def)

lemma audio_Close_inv: "ad_inv (audio_Close d)"
  by (simp add: ad_inv_def audio_Close_def frames_ok_def parts_def)

lemma audio_results [simp]: "ar_Success audio_Ok" "\<not> ar_Success (audio_Fail e)"
  by (simp_all add: audio_Ok_def audio_Fail_def)

lemma OpenCapture_cases:
  obtains "\<not> ar_Success (fst (OpenCapture io d))"
  | "OpenCapture io d = (audio_Ok, d\<lparr>ad_captureService := True, ad_captureClient := True\<rparr>)"
  by (cases "OpenCapture io d = (audio_Ok, d\<lparr>ad_captureService := True, ad_captureClient := True\<rparr>)")
    (auto simp: OpenCapture_def Let_def split: if_splits prod.splits)

lemma OpenRender_cases:
  obtains "\<not> ar_Success (fst (OpenRender io d))"
  | "OpenRender io d = (audio_Ok, d\<lparr>ad_renderService := True, ad_renderClient := True\<rparr>)"
  by (cases "OpenRender io d = (audio_Ok, d\<lparr>ad_renderService := True, ad_renderClient := True\<rparr>)")
    (auto simp: OpenRender_def Let_def split: if_splits prod.splits)

text \<open>The outcomes of \<open>Open\<close> on a closed device.\<close>

lemma audio_Open_cases:
  assumes "\<not> ad_open d"
  obtains (unchanged) "\<not> ar_Success (fst (audio_Open io d))" "snd (audio_Open io d) = d"
  | (closed) d' where "\<not> ar_Success (fst (audio_Open io d))" "snd (audio_Open io d) = audio_Close d'"
  | (opened) "fst (audio_Open io d) = audio_Ok"
      "snd (audio_Open io d) = d\<lparr>ad_shutdownEvent := True, ad_captureEvent := True, ad_renderEvent := True,
         ad_captureService := True, ad_captureClient := True, ad_renderService := True, ad_renderClient := True,
         ad_captureThread := True, ad_renderThread := True, ad_captureRuns := True, ad_renderRuns := True, ad_open := True\<rparr>"
proof -
  obtain e1 e2 e3 where e: "ao_events io = (e1, e2, e3)" by (cases "ao_events io")
  obtain t1 t2 where t: "ao_threads io = (t1, t2)" by (cases "ao_threads io")
  let ?d = "d\<lparr>ad_shutdownEvent := e1, ad_captureEvent := e2, ad_renderEvent := e3\<rparr>"
  let ?d1 = "?d\<lparr>ad_captureService := True, ad_captureClient := True\<rparr>"
  show thesis
  proof (cases "hr_failed (ao_co io) \<and> ao_co io \<noteq> RPC_E_CHANGED_MODE")
    case True
    with assms show thesis by (intro unchanged) (simp_all add: audio_Open_def)
  next
    case co: False
    show thesis
    proof (cases "e1 \<and> e2 \<and> e3")
      case False
      with co assms show thesis by (intro closed [of ?d]) (auto simp: audio_Open_def e Let_def)
    next
      case ev: True
      show thesis
      proof (cases rule: OpenCapture_cases [of "ao_capture io" ?d])
        case 1
        obtain c d1 where "OpenCapture (ao_capture io) ?d = (c, d1)" by fastforce
        with 1 co ev assms show thesis by (intro closed [of d1]) (auto simp: audio_Open_def e Let_def)
      next
        case cap: 2
        show thesis
        proof (cases rule: OpenRender_cases [of "ao_render io" ?d1])
          case 1
          obtain c d2 where "OpenRender (ao_render io) ?d1 = (c, d2)" by fastforce
          with 1 cap co ev assms show thesis
            by (intro closed [of d2]) (auto simp: audio_Open_def e Let_def)
        next
          case ren: 2
          let ?d2 = "?d1\<lparr>ad_renderService := True, ad_renderClient := True\<rparr>"
          let ?d3 = "?d2\<lparr>ad_captureThread := t1, ad_renderThread := t2, ad_captureRuns := t1, ad_renderRuns := t2\<rparr>"
          consider "hr_failed (ao_startCapture io) \<or> hr_failed (ao_startRender io)"
            | "\<not> hr_failed (ao_startCapture io)" "\<not> hr_failed (ao_startRender io)" "\<not> (t1 \<and> t2)"
            | "\<not> hr_failed (ao_startCapture io)" "\<not> hr_failed (ao_startRender io)" "t1" "t2" by blast
          then show thesis
          proof cases
            case 1
            with cap ren co ev assms show thesis
              by (intro closed [of ?d2]) (auto simp: audio_Open_def e Let_def)
          next
            case 2
            with cap ren co ev assms show thesis
              by (intro closed [of ?d3]) (auto simp: audio_Open_def e t Let_def)
          next
            case 3
            from co have c: "(hr_failed (ao_co io) \<and> ao_co io \<noteq> RPC_E_CHANGED_MODE) = False" by blast
            have "audio_Open io d = (audio_Ok, ?d3\<lparr>ad_open := True\<rparr>)"
              using cap ren ev assms 3 by (simp add: audio_Open_def e t c)
            with ev 3 show thesis by (intro opened) simp_all
          qed
        qed
      qed
    qed
  qed
qed

lemma audio_Open_inv: "ad_inv d \<Longrightarrow> ad_inv (snd (audio_Open io d))"
proof (cases "ad_open d")
  case False
  assume inv: "ad_inv d"
  from False show ?thesis
  proof (cases rule: audio_Open_cases [where io = io])
    case unchanged
    with inv show ?thesis by simp
  next
    case (closed d')
    then show ?thesis by (simp add: audio_Close_inv)
  next
    case opened
    with inv show ?thesis by (simp add: ad_inv_def frames_ok_def parts_def)
  qed
qed (simp add: audio_Open_def)

text \<open>An operation on the queues of an open device.\<close>

lemma ad_inv_queues:
  assumes "ad_inv d" "ad_open d" "frames_ok d'"
    and "parts d' = parts d" "ad_open d' = ad_open d"
  shows "ad_inv d'"
  using assms by (simp add: ad_inv_def)

lemma fold_Push_inv:
  assumes "ad_inv d" "ad_open d"
  shows "ad_inv (fold PushCaptureSamples xss d)"
proof -
  obtain fs r where "fold PushCaptureSamples xss d = d\<lparr>ad_captureFrames := fs, ad_captureScratch := r\<rparr>"
    using fold_Push_other by blast
  with assms fold_Push_frames_ok [of d xss] show ?thesis
    by (intro ad_inv_queues [OF assms]) (simp_all add: ad_inv_def parts_def)
qed

lemma capture_packets_inv:
  "ad_inv d \<Longrightarrow> ad_open d \<Longrightarrow> ad_inv (capture_packets ps d)"
proof (induction ps arbitrary: d)
  case (Cons p ps)
  have w: "ad_inv x \<Longrightarrow> ad_open x \<Longrightarrow> ad_inv (worker_failed x)" for x
    by (simp add: worker_failed_def ad_inv_def frames_ok_def parts_def)
  define d' where "d' = (if cp_samples p \<noteq> []
      then PushCaptureSamples (if cp_silent p then map (\<lambda>_. 0) (cp_samples p) else cp_samples p) d else d)"
  have "ad_inv d' \<and> ad_open d'"
    using fold_Push_inv [OF Cons.prems, of "[if cp_silent p then map (\<lambda>_. 0) (cp_samples p) else cp_samples p]"]
      PushCaptureSamples_other [of "if cp_silent p then map (\<lambda>_. 0) (cp_samples p) else cp_samples p" d] Cons.prems
    by (auto simp: d'_def)
  with Cons w show ?case by (simp add: Let_def d'_def [symmetric])
qed simp

lemma FillRenderSamples_stream:
  assumes "[] \<notin> set (ad_renderFrames d)"
  shows "\<exists>sc fs. FillRenderSamples n d =
       Some (take n (ad_renderScratch d @ concat (ad_renderFrames d))
             @ replicate (n - length (ad_renderScratch d @ concat (ad_renderFrames d))) 0,
             d\<lparr>ad_renderScratch := sc, ad_renderFrames := fs\<rparr>)
     \<and> sc @ concat fs = drop n (ad_renderScratch d @ concat (ad_renderFrames d)) \<and> (\<exists>k. fs = drop k (ad_renderFrames d))"
proof (cases "n = 0")
  case True
  then show ?thesis
    by (intro exI [of _ "ad_renderScratch d"] exI [of _ "ad_renderFrames d"])
      (auto simp: FillRenderSamples_def intro: exI [of _ 0])
next
  case False
  from fill_samples_stream [OF assms, of n "ad_renderScratch d"]
  obtain sc fs where "fill_samples n (ad_renderScratch d) (ad_renderFrames d)
       = Some (take n (ad_renderScratch d @ concat (ad_renderFrames d))
           @ replicate (n - length (ad_renderScratch d @ concat (ad_renderFrames d))) 0, sc, fs)"
    and "sc @ concat fs = drop n (ad_renderScratch d @ concat (ad_renderFrames d)) \<and> (\<exists>k. fs = drop k (ad_renderFrames d))"
    by blast
  with False show ?thesis
    by (intro exI [of _ sc] exI [of _ fs] conjI) (simp_all add: FillRenderSamples_def)
qed

lemma RenderLoop_turn_inv:
  assumes "ad_inv d"
  shows "\<exists>d'. RenderLoop_turn io d = Some d' \<and> ad_inv d'"
proof (cases "ad_renderRuns d \<and> ad_renderClient d \<and> ad_renderService d")
  case True
  with assms have op: "ad_open d" and fr: "frames_ok d" by (auto simp: ad_inv_def)
  have w: "ad_inv x \<Longrightarrow> ad_open x \<Longrightarrow> ad_inv (render_failed x)" for x
    by (simp add: render_failed_def ad_inv_def frames_ok_def parts_def)
  define n where "n = (case (rn_bufferFrames io, rn_padding io) of
      (Some b, Some p) \<Rightarrow> if b > p then b - p else 0 | _ \<Rightarrow> 0)"
  from fr have ne: "[] \<notin> set (ad_renderFrames d)" by (simp add: frames_ok_def)
  from FillRenderSamples_stream [OF ne, of n]
  obtain sc fs out where f: "FillRenderSamples n d = Some (out, d\<lparr>ad_renderScratch := sc, ad_renderFrames := fs\<rparr>)"
    and k: "\<exists>k. fs = drop k (ad_renderFrames d)" by blast
  let ?d = "d\<lparr>ad_renderScratch := sc, ad_renderFrames := fs\<rparr>"
  from k fr have "frames_ok ?d"
    by (auto simp: frames_ok_def dest: in_set_dropD)
  then have inv: "ad_inv ?d" by - (rule ad_inv_queues [OF assms op], simp_all add: parts_def)
  then have "ad_inv (?d\<lparr>ad_rendered := ad_rendered d @ out\<rparr>)"
    by (simp add: ad_inv_def frames_ok_def parts_def)
  moreover have "ad_inv (render_failed ?d)" using w [OF inv] op by simp
  moreover have "RenderLoop_turn io d \<in> Some ` {d, render_failed d, render_failed ?d, ?d\<lparr>ad_rendered := ad_rendered d @ out\<rparr>}"
  proof (cases "rn_bufferFrames io")
    case (Some b)
    show ?thesis
    proof (cases "rn_padding io")
      case pad: (Some q)
      have n: "(if b > q then b - q else 0) = n" by (simp add: n_def Some pad)
      show ?thesis
        unfolding RenderLoop_turn_def Some pad option.case prod.case Let_def n f using True by simp
    qed (use True Some in \<open>simp add: RenderLoop_turn_def\<close>)
  qed (use True in \<open>simp add: RenderLoop_turn_def\<close>)
  ultimately show ?thesis using assms w [OF assms op] by blast
qed (use assms in \<open>auto simp: RenderLoop_turn_def\<close>)


interpretation audio_device: reactive audio_step ad_inv AudioDevice_new
proof
  show "ad_inv AudioDevice_new" by (simp add: ad_inv_def AudioDevice_new_def frames_ok_def parts_def)
next
  fix d e
  assume inv: "ad_inv d"
  show "ad_inv (audio_step d e)"
  proof (cases e)
    case (AuOpen io)
    with inv show ?thesis by (simp add: audio_Open_inv)
  next
    case (AuRead arrived)
    define d' where "d' = (if ad_captureFrames d = [] \<and> ad_captureRuns d then fold PushCaptureSamples arrived d else d)"
    show ?thesis
    proof (cases "ad_open d")
      case True
      then have d': "ad_inv d'" using inv fold_Push_inv [of d] by (simp add: d'_def)
      then have "ad_captureFrames d' = f # fs \<Longrightarrow> ad_inv (d'\<lparr>ad_captureFrames := fs\<rparr>)" for f fs
        by (simp add: ad_inv_def frames_ok_def parts_def)
      with True d' show ?thesis
        by (simp add: AuRead ReadFrame_def d'_def [symmetric] Let_def split: list.split)
    qed (simp add: AuRead ReadFrame_def inv)
  next
    case (AuWrite pcm)
    with inv show ?thesis
      by (auto simp: WriteFrame_def ad_inv_def frames_ok_def parts_def pop_while_drop dest: in_set_dropD)
  next
    case (AuCapture fails ps)
    with inv show ?thesis
      by (cases "ad_open d")
        (auto simp: CaptureLoop_turn_def capture_packets_inv, auto simp: ad_inv_def worker_failed_def frames_ok_def parts_def)
  next
    case (AuRender io)
    with RenderLoop_turn_inv [OF inv, of io] show ?thesis by auto
  qed (use inv in \<open>simp_all add: audio_Close_inv\<close>,
       use inv in \<open>simp_all add: audio_SetMuted_def audio_SetSpeaker_def ad_inv_def frames_ok_def parts_def\<close>)
qed

text \<open>
  Whatever is called on the device and whatever the platform answers, the device is open with
  all its parts or closed with none; every captured frame is a full one, at most eight wait for the
  encoder and at most twelve non-empty ones for the speaker; and no turn of the render worker reads
  outside a frame.
\<close>

theorem audio_device_invariant:
  "ad_inv (run_steps audio_step AudioDevice_new es)
     \<and> RenderLoop_turn io (run_steps audio_step AudioDevice_new es) \<noteq> None"
  using audio_device.inv_run [of es] RenderLoop_turn_inv by (metis option.distinct(1))

definition playback :: "AudioDevice \<Rightarrow> int list" where
  "playback d = ad_renderScratch d @ concat (ad_renderFrames d)"

text \<open>
  Claim C36: Playback is a stream. Filling \<open>n\<close> samples gives the next \<open>n\<close> of what was written and not played
  yet, with zeros where it runs out, whatever the sizes of the frames written; writing a frame appends
  it, and to a full queue drops whole frames from its front and nothing else.
\<close>

theorem playback_is_stream:
  "let d = run_steps audio_step AudioDevice_new es in
     (\<exists>d'. FillRenderSamples n d = Some (take n (playback d) @ replicate (n - length (playback d)) 0, d')
        \<and> playback d' = drop n (playback d))
     \<and> (ad_open d \<and> pcm \<noteq> [] \<longrightarrow> playback (snd (WriteFrame pcm d)) =
          (if length (ad_renderFrames d) < 12 then playback d @ pcm
           else ad_renderScratch d @ concat (tl (ad_renderFrames d)) @ pcm))"
proof -
  define d where "d = run_steps audio_step AudioDevice_new es"
  have fr: "frames_ok d" using audio_device.inv_run [of es] by (simp add: d_def ad_inv_def)
  then have "[] \<notin> set (ad_renderFrames d)" by (simp add: frames_ok_def)
  from FillRenderSamples_stream [OF this, of n]
  have "\<exists>d'. FillRenderSamples n d = Some (take n (playback d) @ replicate (n - length (playback d)) 0, d')
      \<and> playback d' = drop n (playback d)"
    by (auto simp: playback_def)
  moreover have "playback (snd (WriteFrame pcm d)) =
      (if length (ad_renderFrames d) < 12 then playback d @ pcm
       else ad_renderScratch d @ concat (tl (ad_renderFrames d)) @ pcm)" if "ad_open d" "pcm \<noteq> []"
    using that fr by (auto simp: playback_def WriteFrame_def pop_while_drop frames_ok_def drop_Suc le_antisym)
  ultimately show ?thesis unfolding d_def [symmetric] Let_def by blast
qed

definition good_client :: client_io where
  "good_client = \<lparr>ci_deviceId = True, ci_event = None, ci_call = 0, ci_completed = True, ci_result = 0, ci_client = True,
     ci_properties = 0, ci_initialize = 0, ci_eventHandle = 0, ci_service = 0, ci_bufferSize = 0\<rparr>"

definition good_open :: audio_open_io where
  "good_open = \<lparr>ao_co = 0, ao_events = (True, True, True), ao_capture = good_client, ao_render = good_client,
     ao_startCapture = 0, ao_startRender = 0, ao_threads = (True, True)\<rparr>"

lemma open_device: "ad_open (run_steps audio_step AudioDevice_new [AuOpen good_open])"
  by (simp add: audio_Open_def OpenCapture_def OpenRender_def ActivateAudioClient_def good_open_def good_client_def
      AudioDevice_new_def hr_failed_def)

theorem playback_is_stream_witness:
  "let d = run_steps audio_step AudioDevice_new [AuOpen good_open] in
     playback (snd (WriteFrame [5, 6] d)) =
       (if length (ad_renderFrames d) < 12 then playback d @ [5, 6]
        else ad_renderScratch d @ concat (tl (ad_renderFrames d)) @ [5, 6])"
  using playback_is_stream [where n = 0 and es = "[AuOpen good_open]" and pcm = "[5, 6]"] open_device unfolding Let_def by blast

text \<open>
  The capture side loses nothing but whole frames. On any device its operations reach, pushing
  samples cuts the waiting rest and the new samples into full frames, in order, leaving less than a
  frame; when more than eight frames wait the oldest go first.
\<close>

theorem capture_reframing:
  "\<exists>k fs. let d = run_steps audio_step AudioDevice_new es; d' = PushCaptureSamples xs d in
     concat fs @ ad_captureScratch d' = ad_captureScratch d @ xs
     \<and> (\<forall>f \<in> set fs. length f = FrameSamples) \<and> length (ad_captureScratch d') < FrameSamples
     \<and> ad_captureFrames d' = drop k (ad_captureFrames d @ fs)
     \<and> k = length (ad_captureFrames d @ fs) - 8"
proof -
  define d where "d = run_steps audio_step AudioDevice_new es"
  have fr: "frames_ok d" using audio_device.inv_run [of es] by (simp add: d_def ad_inv_def)
  show ?thesis
  proof (cases "xs = []")
    case True
    with fr show ?thesis
      by (intro exI [of _ 0] exI [of _ "[]"]) (simp add: PushCaptureSamples_def frames_ok_def d_def [symmetric])
  next
    case False
    obtain fs r where c: "cut (ad_captureScratch d @ xs) = (fs, r)" by fastforce
    with fr False have "PushCaptureSamples xs d =
        d\<lparr>ad_captureFrames := drop (length (ad_captureFrames d @ fs) - 8) (ad_captureFrames d @ fs), ad_captureScratch := r\<rparr>"
      by (simp add: PushCaptureSamples_def push_frames_cut frames_ok_def)
    with cut_spec [OF c] show ?thesis
      by (intro exI [of _ "length (ad_captureFrames d @ fs) - 8"] exI [of _ fs]) (simp add: d_def [symmetric] Let_def)
  qed
qed

text \<open>
  A muted device hands out silence: every frame it reads successfully is a full frame of zeros,
  and one that is not muted hands out full frames as they were captured.
\<close>

theorem muted_frames_silent:
  assumes "ReadFrame arrived (run_steps audio_step AudioDevice_new es) = (r, pcm, d')" and "ar_Success r"
  shows "length pcm = FrameSamples \<and> (ad_muted (run_steps audio_step AudioDevice_new es) \<longrightarrow> pcm = replicate FrameSamples 0)"
proof -
  define d where "d = run_steps audio_step AudioDevice_new es"
  define d1 where "d1 = (if ad_captureFrames d = [] \<and> ad_captureRuns d then fold PushCaptureSamples arrived d else d)"
  have inv: "ad_inv d" using audio_device.inv_run [of es] by (simp add: d_def)
  from assms have "ad_open d" by (auto simp: ReadFrame_def d_def split: if_splits)
  then have "frames_ok d1" using fold_Push_inv [OF inv] inv by (auto simp: d1_def ad_inv_def)
  moreover have "ad_muted d1 = ad_muted d"
    using fold_Push_other [of arrived d] by (auto simp: d1_def)
  ultimately show ?thesis
    using assms \<open>ad_open d\<close> unfolding d_def [symmetric]
    by (auto simp: ReadFrame_def d1_def [symmetric] Let_def frames_ok_def map_replicate_const split: list.splits)
qed

theorem muted_frames_silent_witness:
  "\<exists>pcm d'. ReadFrame [replicate FrameSamples 7]
       (run_steps audio_step AudioDevice_new [AuMute True, AuOpen good_open]) = (audio_Ok, pcm, d')
     \<and> pcm = replicate FrameSamples 0"
proof -
  let ?es = "[AuMute True, AuOpen good_open]"
  have st: "run_steps audio_step AudioDevice_new ?es =
      (AudioDevice_new\<lparr>ad_muted := True, ad_shutdownEvent := True, ad_captureEvent := True, ad_renderEvent := True,
         ad_captureThread := True, ad_renderThread := True, ad_captureClient := True, ad_captureService := True,
         ad_renderClient := True, ad_renderService := True, ad_open := True, ad_captureRuns := True, ad_renderRuns := True\<rparr>)"
    by (simp add: audio_Open_def OpenCapture_def OpenRender_def ActivateAudioClient_def good_open_def good_client_def
      AudioDevice_new_def hr_failed_def audio_SetMuted_def)
  have cutone: "cut (replicate FrameSamples 7) = ([replicate FrameSamples 7], [])"
    by (subst cut.simps) (simp add: cut_short)
  obtain pcm d' where r: "ReadFrame [replicate FrameSamples 7] (run_steps audio_step AudioDevice_new ?es) = (audio_Ok, pcm, d')"
    unfolding st by (simp add: ReadFrame_def PushCaptureSamples_def push_frames_cut cutone AudioDevice_new_def Let_def)
  with muted_frames_silent [OF r] st show ?thesis by auto
qed

text \<open>
  Nobody reads \<open>m_failed\<close>: after the capture worker has given up, the device stays open, and the frames
  left are all a reader will ever get until it is closed.
\<close>

fun reopens :: "audio_event \<Rightarrow> bool" where
  "reopens (AuOpen io) = True"
| "reopens AuClose = True"
| "reopens _ = False"

lemma RenderLoop_turn_keeps:
  assumes "RenderLoop_turn io d = Some d'"
  shows "ad_open d' = ad_open d \<and> ad_captureRuns d' = ad_captureRuns d \<and> ad_captureFrames d' = ad_captureFrames d"
proof -
  have fill: "FillRenderSamples n d = Some (out, x) \<Longrightarrow>
      ad_open x = ad_open d \<and> ad_captureRuns x = ad_captureRuns d \<and> ad_captureFrames x = ad_captureFrames d" for n out x
    by (auto simp: FillRenderSamples_def split: if_splits option.splits)
  from assms show ?thesis
    unfolding RenderLoop_turn_def
    by (cases "rn_bufferFrames io"; cases "rn_padding io")
      (simp_all add: Let_def render_failed_def split: if_splits option.splits prod.splits,
       (use fill in force)+)
qed

text \<open>The queue of captured frames only gets shorter from the front.\<close>

definition shrunk :: "'a list \<Rightarrow> 'a list \<Rightarrow> bool" where
  "shrunk q q' \<longleftrightarrow> (\<exists>k. q' = drop k q)"

lemma shrunk_simps [simp]: "shrunk q q" "shrunk (x # q) q"
  unfolding shrunk_def by (rule exI [of _ 0], simp) (rule exI [of _ 1], simp)

lemma shrunk_trans: "shrunk q q' \<Longrightarrow> shrunk q' q'' \<Longrightarrow> shrunk q q''"
  by (auto simp: shrunk_def)

lemma dead_step:
  assumes "ad_open d" "\<not> ad_captureRuns d" "\<not> reopens e"
  shows "ad_open (audio_step d e) \<and> \<not> ad_captureRuns (audio_step d e)
     \<and> shrunk (ad_captureFrames d) (ad_captureFrames (audio_step d e))"
proof (cases e)
  case (AuRead arrived)
  with assms show ?thesis
    by (cases "ad_captureFrames d") (simp_all add: ReadFrame_def Let_def)
next
  case (AuRender io)
  show ?thesis
  proof (cases "RenderLoop_turn io d")
    case (Some d')
    with assms RenderLoop_turn_keeps [OF Some] show ?thesis by (simp add: AuRender)
  qed (use assms in \<open>simp add: AuRender\<close>)
qed (use assms in \<open>simp_all add: WriteFrame_def audio_SetMuted_def audio_SetSpeaker_def CaptureLoop_turn_def\<close>)

lemma capture_failure_is_silent:
  assumes "ad_open d" "\<not> ad_captureRuns d" "\<forall>e \<in> set es. \<not> reopens e"
  shows "ad_open (run_steps audio_step d es) \<and> \<not> ad_captureRuns (run_steps audio_step d es)
     \<and> shrunk (ad_captureFrames d) (ad_captureFrames (run_steps audio_step d es))"
  using assms
proof (induction es arbitrary: d)
  case (Cons e es)
  then have "\<not> reopens e" by simp
  from dead_step [OF Cons.prems(1,2) this] Cons.IH [of "audio_step d e"] Cons.prems(3)
  show ?case by (auto intro: shrunk_trans)
qed simp


section \<open>The codec\<close>

text \<open>
  \<open>Init\<close> reports success exactly when both constructors gave an object without an error and
  every setting was accepted, and the codec is ready then; it is ready too when a setting was refused,
  although \<open>Init\<close> reports the error.
\<close>

theorem opus_init_outcome:
  "let (result, c') = opus_Init lib bitrateBps c;
       built = (ol_encoder lib = (0, True) \<and> ol_decoder lib = (0, True));
       rate = (if bitrateBps \<le> 0 then DefaultBitrateBps else bitrateBps)
   in opus_Ready c' = built
      \<and> (result = 0) = (built \<and> (\<forall>r \<in> set [SetBitrate rate, SetComplexity 5, SetInbandFec 1,
            SetPacketLossPerc 5, SetDtx 0, SetVbr 0, SetSignalVoice]. ol_ctl lib r = 0))"
proof -
  have req: "opus_requests ctl rs = 0 \<longleftrightarrow> (\<forall>r \<in> set rs. ctl r = 0)" for ctl rs
    by (induction rs) auto
  define L where "L = [SetBitrate (if bitrateBps \<le> 0 then DefaultBitrateBps else bitrateBps), SetComplexity 5,
    SetInbandFec 1, SetPacketLossPerc 5, SetDtx 0, SetVbr 0, SetSignalVoice]"
  define R where "R = opus_requests (ol_ctl lib) L"
  have R: "R = 0 \<longleftrightarrow> (\<forall>r \<in> set L. ol_ctl lib r = 0)" by (simp only: R_def req)
  obtain e1 p1 where e: "ol_encoder lib = (e1, p1)" by fastforce
  obtain e2 p2 where d: "ol_decoder lib = (e2, p2)" by fastforce
  have "opus_Init lib bitrateBps c =
     (if e1 \<noteq> 0 \<or> \<not> p1 then (if e1 = 0 then OPUS_ALLOC_FAIL else e1, opus_Destroy (opus_Destroy c\<lparr>oc_encoder := p1\<rparr>))
      else if e2 \<noteq> 0 \<or> \<not> p2
      then (if e2 = 0 then OPUS_ALLOC_FAIL else e2, opus_Destroy (opus_Destroy c\<lparr>oc_encoder := p1, oc_decoder := p2\<rparr>))
      else (R, opus_Destroy c\<lparr>oc_encoder := p1, oc_decoder := p2\<rparr>))"
    unfolding opus_Init_def e d Let_def L_def [symmetric] R_def by simp
  moreover have "\<not> opus_Ready (opus_Destroy x)" for x
    by (simp add: opus_Ready_def opus_Destroy_def Let_def)
  ultimately show ?thesis
    unfolding Let_def L_def [symmetric] R [symmetric] e d
    by (auto simp: OPUS_ALLOC_FAIL_def opus_Ready_def)
qed

end
