(* ===== verification/TgcallsConnection.thy ===== *)
theory TgcallsConnection
  imports SignalingEnvelope IceAgent DtlsSession ReflectorTransport Srtp AudioRuntime
begin

text \<open>
  One tgcalls call (\<open>tgcalls_connection.cpp\<close>): the object that composes the signaling envelope, the ICE
  agent, the DTLS client, SRTP, the reflector transport with its push sessions and TURN clients, and
  the audio device with its codec.

  Every public method and every callback is one definition on the state. The code takes its lock
  around each access; a step here is a whole method. What the platform answers during a step is an
  argument: random bytes, host names, results of sockets, devices and the codec. \<open>None\<close> is undefined
  behaviour of a reader. \<open>cn_signaled\<close>, \<open>cn_notified\<close> are the calls of the two callbacks in order; no
  definition reads them. Traces are left out.
\<close>

section \<open>State\<close>

record ReflectorEndpoint =
  re_Ip :: string
  re_Ipv6 :: string
  re_Port :: int
  re_PeerTag :: bytes
  re_IsWebRtc :: bool
  re_Username :: string
  re_Password :: string

record StartParams =
  sp_CallId :: int
  sp_IsOutgoing :: bool
  sp_SharedKey :: bytes
  sp_Reflectors :: "ReflectorEndpoint list"

text \<open>The cryptography the parts are given.\<close>

record ConnLib =
  cl_Sha256 :: hash_fn
  cl_SignalingAes :: block_fn
  cl_SrtpAes :: block_fn
  cl_HmacSha1 :: mac_fn
  cl_Dtls :: DtlsLib

record TgcallsConnection =
  cn_callId :: int
  cn_isOutgoing :: bool
  cn_sharedKey :: bytes
  cn_reflectors :: "ReflectorEndpoint list"
  cn_hasSignalingOut :: bool
  cn_hasStateChanged :: bool
  cn_state :: tg_state
  cn_localCert :: "EcdsaP256KeyPair option"
  cn_localFingerprint :: string
  cn_localUfrag :: string
  cn_localPwd :: string
  cn_localSetupRole :: string
  cn_peerInitialReceived :: bool
  cn_peerFingerprintHash :: string
  cn_peerFingerprint :: string
  cn_peerSetup :: string
  cn_peerUfrag :: string
  cn_peerPwd :: string
  cn_peerCandidates :: "string list"
  cn_iceAgent :: "IceAgent option"
  cn_dtls :: "DtlsClient option"
  cn_srtpReady :: bool
  cn_srtpOutgoing :: "SrtpEncryptParams option"
  cn_srtpIncoming :: "SrtpEncryptParams option"
  cn_audio :: "AudioDevice option"
  cn_codec :: "OpusVoipCodec option"
  cn_socket :: "DatagramSession option"
  cn_transport :: "AsyncSession list option"
  cn_turnClients :: "TurnClient list"
  cn_audioCaptureThread :: bool
  cn_audioLoopActive :: bool
  cn_localSsrc :: u32
  cn_remoteSsrc :: u32
  cn_outgoingSeq :: u16
  cn_outgoingTimestamp :: u32
  cn_outgoingSignalingSeq :: u32
  cn_muted :: bool
  cn_speakerOn :: bool
  cn_iceStarted :: bool
  cn_iceRetryTimer :: bool
  cn_timerRuns :: bool
  cn_iceAttempts :: nat
  cn_localUdpPort :: u16
  cn_stopped :: bool
  cn_txPackets :: u64
  cn_rxPackets :: u64
  cn_txBytes :: u64
  cn_rxBytes :: u64
  cn_signaled :: "bytes list"
  cn_notified :: "tg_state list"

definition kSharedKeySize :: nat where "kSharedKeySize = 256"
definition kPeerTagSize :: nat where "kPeerTagSize = 16"

fun StateLabel :: "tg_state \<Rightarrow> string" where
  "StateLabel TgConnecting = ''Connecting''"
| "StateLabel TgIceConnecting = ''IceConnecting''"
| "StateLabel TgDtlsHandshaking = ''DtlsHandshaking''"
| "StateLabel TgConnected = ''Connected''"
| "StateLabel TgFailed = ''Failed''"
| "StateLabel TgStopped = ''Stopped''"

definition WrapWithPeerTag :: "bytes \<Rightarrow> bytes \<Rightarrow> bytes" where
  "WrapWithPeerTag peerTag inner = peerTag @ inner"

definition TryStripPeerTag :: "bytes \<Rightarrow> bytes option" where
  "TryStripPeerTag packet = (if length packet < kPeerTagSize then None else Some (drop kPeerTagSize packet))"

definition conn_MakeError :: "VoipErrorKind \<Rightarrow> string \<Rightarrow> VoipError" where
  "conn_MakeError kind message = VoipError_Of kind 0 message"

definition conn_MakeInvalid :: "string \<Rightarrow> VoipError" where
  "conn_MakeInvalid message = conn_MakeError InvalidArgument message"

definition TgcallsConnection_new :: "StartParams \<Rightarrow> bool \<Rightarrow> bool \<Rightarrow> TgcallsConnection" where
  "TgcallsConnection_new params signalingOut stateChanged =
     \<lparr>cn_callId = sp_CallId params, cn_isOutgoing = sp_IsOutgoing params, cn_sharedKey = sp_SharedKey params,
      cn_reflectors = sp_Reflectors params, cn_hasSignalingOut = signalingOut, cn_hasStateChanged = stateChanged,
      cn_state = TgConnecting, cn_localCert = None, cn_localFingerprint = [], cn_localUfrag = [], cn_localPwd = [],
      cn_localSetupRole = (if sp_IsOutgoing params then ''actpass'' else ''passive''),
      cn_peerInitialReceived = False, cn_peerFingerprintHash = [], cn_peerFingerprint = [], cn_peerSetup = [],
      cn_peerUfrag = [], cn_peerPwd = [], cn_peerCandidates = [], cn_iceAgent = None, cn_dtls = None,
      cn_srtpReady = False, cn_srtpOutgoing = None, cn_srtpIncoming = None, cn_audio = None, cn_codec = None,
      cn_socket = None, cn_transport = None, cn_turnClients = [], cn_audioCaptureThread = False,
      cn_audioLoopActive = False, cn_localSsrc = 0, cn_remoteSsrc = 0, cn_outgoingSeq = 0, cn_outgoingTimestamp = 0,
      cn_outgoingSignalingSeq = 0, cn_muted = False, cn_speakerOn = False, cn_iceStarted = False,
      cn_iceRetryTimer = False, cn_timerRuns = False, cn_iceAttempts = 0, cn_localUdpPort = 0, cn_stopped = False,
      cn_txPackets = 0, cn_rxPackets = 0, cn_txBytes = 0, cn_rxBytes = 0, cn_signaled = [], cn_notified = []\<rparr>"

definition TransitionTo :: "tg_state \<Rightarrow> TgcallsConnection \<Rightarrow> TgcallsConnection" where
  "TransitionTo newState s =
     (if cn_state s = newState then s
      else (let s = s\<lparr>cn_state := newState\<rparr>
            in if cn_hasStateChanged s then s\<lparr>cn_notified := cn_notified s @ [newState]\<rparr> else s))"

definition GetStatsSnapshot :: "TgcallsConnection \<Rightarrow> tg_stats" where
  "GetStatsSnapshot s = \<lparr>tg_TxPackets = cn_txPackets s, tg_RxPackets = cn_rxPackets s, tg_TxBytes = cn_txBytes s,
     tg_RxBytes = cn_rxBytes s, tg_CurrentState = cn_state s\<rparr>"


section \<open>Random tokens\<close>

definition kAlphabet :: string where
  "kAlphabet = ''ABCDEFGHIJKLMNOPQRSTUVWXYZabcdefghijklmnopqrstuvwxyz0123456789+/''"

text \<open>\<open>rnd\<close>: the bytes \<open>FillSecureRandom\<close> writes, whichever of its two sources gives them.\<close>

definition GenerateRandomToken :: "nat \<Rightarrow> random_fn \<Rightarrow> string" where
  "GenerateRandomToken len rnd = map (\<lambda>i. kAlphabet ! (unat (rnd i) mod length kAlphabet)) [0..<len]"

definition GenerateRandomUint32 :: "random_fn \<Rightarrow> u32" where
  "GenerateRandomUint32 rnd =
     push_bit 24 (ucast (rnd 0)) OR push_bit 16 (ucast (rnd 1)) OR push_bit 8 (ucast (rnd 2)) OR ucast (rnd 3)"

definition udp_port :: "u32 \<Rightarrow> u16" where
  "udp_port ssrc =
     (let port = ucast ((ssrc AND 0xFFFF) OR 0x4000) in if port < 1024 then port + 1024 else port)"


section \<open>Signaling out\<close>

definition EmitMessages :: "ConnLib \<Rightarrow> TgcallsMessage list \<Rightarrow> TgcallsConnection \<Rightarrow> VoipError \<times> TgcallsConnection" where
  "EmitMessages lib messages s =
     (if \<not> cn_hasSignalingOut s then (conn_MakeInvalid ''no signaling callback'', s)
      else if messages = [] then (VoipError_Ok, s)
      else
        (let s = s\<lparr>cn_outgoingSignalingSeq := cn_outgoingSignalingSeq s + 1\<rparr>;
             encrypted = env_Encrypt (cl_Sha256 lib) (cl_SignalingAes lib) (cn_sharedKey s) (cn_isOutgoing s)
                           (cn_outgoingSignalingSeq s) messages
         in if encrypted = []
            then (conn_MakeError CryptoUnavailable ''tgcalls signaling envelope encrypt produced empty output'', s)
            else (VoipError_Ok, s\<lparr>cn_signaled := cn_signaled s @ [encrypted]\<rparr>)))"

definition initial_setup_message :: "TgcallsConnection \<Rightarrow> TgcallsMessage" where
  "initial_setup_message s =
     TgcallsMessage_default\<lparr>MType := MsgInitialSetup, TypeName := ''InitialSetup'',
       Initial := \<lparr>InitialSetupMsg.Ufrag = cn_localUfrag s, Pwd = cn_localPwd s, SupportsRenomination = False,
         Fingerprint = \<lparr>fp_Hash = ''sha-256'', fp_Setup = cn_localSetupRole s, fp_Fingerprint = cn_localFingerprint s\<rparr>\<rparr>\<rparr>"

definition EmitInitialSetup :: "ConnLib \<Rightarrow> TgcallsConnection \<Rightarrow> VoipError \<times> TgcallsConnection" where
  "EmitInitialSetup lib s = EmitMessages lib [initial_setup_message s] s"

text \<open>A host name as UTF-16 units.\<close>

definition PlatformStringToUtf8 :: "nat list \<Rightarrow> string" where
  "PlatformStringToUtf8 w = map (\<lambda>ch. if ch < 0x80 then char_of ch else CHR ''?'') w"

definition IsLocalCandidateIp :: "string \<Rightarrow> bool" where
  "IsLocalCandidateIp ip \<longleftrightarrow>
     (if ip = [] then False
      else if ip = ''127.0.0.1'' \<or> ip = ''::1'' then False
      else if length ip \<ge> 4 \<and> (ip ! 0 = CHR ''f'' \<or> ip ! 0 = CHR ''F'') \<and> (ip ! 1 = CHR ''e'' \<or> ip ! 1 = CHR ''E'')
           \<and> (ip ! 2 = CHR ''8'' \<or> ip ! 2 = CHR ''9'') \<and> (ip ! 3 = CHR ''0'' \<or> ip ! 3 = CHR ''1'') then False
      else if CHR ''%'' \<in> set ip then False
      else True)"

definition candidate_sdp :: "nat \<Rightarrow> string \<Rightarrow> u16 \<Rightarrow> string \<Rightarrow> string" where
  "candidate_sdp foundation ip port ufrag =
     ''candidate:'' @ show_nat foundation @ '' 1 udp 2122194688 '' @ ip @ '' '' @ show_nat (unat port) @
     '' typ host generation 0 ufrag '' @ ufrag @ '' network-id '' @ show_nat foundation @ '' network-cost 10''"

text \<open>The platform's host names up to the first exception: null, or whether it is an IP address and its text.\<close>

type_synonym host_name = "(bool \<times> nat list) option"

fun host_candidates :: "nat \<Rightarrow> u16 \<Rightarrow> string \<Rightarrow> host_name list \<Rightarrow> SdpIceCandidate list" where
  "host_candidates n port ufrag [] = []"
| "host_candidates n port ufrag (None # hs) = host_candidates n port ufrag hs"
| "host_candidates n port ufrag (Some (isIp, name) # hs) =
     (if \<not> isIp then host_candidates n port ufrag hs
      else if \<not> IsLocalCandidateIp (PlatformStringToUtf8 name) then host_candidates n port ufrag hs
      else \<lparr>SdpString = candidate_sdp n (PlatformStringToUtf8 name) port ufrag\<rparr> # host_candidates (n + 1) port ufrag hs)"

definition EmitCandidates :: "ConnLib \<Rightarrow> host_name list \<Rightarrow> TgcallsConnection \<Rightarrow> VoipError \<times> TgcallsConnection" where
  "EmitCandidates lib hosts s =
     EmitMessages lib [TgcallsMessage_default\<lparr>MType := MsgCandidates, TypeName := ''Candidates'',
       Candidates := host_candidates 1 (cn_localUdpPort s) (cn_localUfrag s) hosts\<rparr>] s"

definition EmitMediaState :: "ConnLib \<Rightarrow> TgcallsConnection \<Rightarrow> VoipError \<times> TgcallsConnection" where
  "EmitMediaState lib s =
     EmitMessages lib [TgcallsMessage_default\<lparr>MType := MsgMediaState, TypeName := ''MediaState'',
       MediaState := \<lparr>IsMuted = cn_muted s, VideoState = ''inactive'', ScreencastState = ''inactive'',
         VideoRotation = 0, LowBattery = False\<rparr>\<rparr>] s"

definition conn_SetMuted :: "ConnLib \<Rightarrow> bool \<Rightarrow> TgcallsConnection \<Rightarrow> VoipError \<times> TgcallsConnection" where
  "conn_SetMuted lib muted s =
     EmitMediaState lib (s\<lparr>cn_muted := muted, cn_audio := map_option (audio_SetMuted muted) (cn_audio s)\<rparr>)"

definition conn_SetSpeaker :: "bool \<Rightarrow> TgcallsConnection \<Rightarrow> VoipError \<times> TgcallsConnection" where
  "conn_SetSpeaker on s =
     (VoipError_Ok, s\<lparr>cn_speakerOn := on, cn_audio := map_option (audio_SetSpeaker on) (cn_audio s)\<rparr>)"


section \<open>Sending through the reflectors\<close>

text \<open>The peer's relay candidates that TURN is told about: IPv4 only.\<close>

definition relay_address :: "string \<Rightarrow> TurnAddress option" where
  "relay_address sdp =
     (case cand_Parse sdp of
        None \<Rightarrow> None
      | Some parsed \<Rightarrow>
          if Type parsed \<noteq> IceCandidateType_Relay then None
          else if ParsedIceCandidate.Ip parsed = [] \<or> ParsedIceCandidate.Port parsed \<le> 0 then None
          else
            (let a = MakeAddress (ParsedIceCandidate.Ip parsed) (ParsedIceCandidate.Port parsed)
             in if Family a \<noteq> kFamilyIPv4 then None else Some a))"

text \<open>The platform during one send: per TURN client and peer, and per classic reflector.\<close>

record send_io =
  sd_turn :: "nat \<Rightarrow> nat \<Rightarrow> turn_io"
  sd_store :: "nat \<Rightarrow> socket_exn option"

text \<open>One client, every peer: the number of indications sent and the client.\<close>

fun send_peers :: "bytes \<Rightarrow> (nat \<Rightarrow> turn_io) \<Rightarrow> nat \<Rightarrow> TurnAddress list \<Rightarrow> TurnClient \<Rightarrow> nat \<times> TurnClient" where
  "send_peers payload io r [] c = (0, c)"
| "send_peers payload io r (a # as) c =
     (let (sent, c) = tc_Send a payload (io r) c;
          (n, c) = send_peers payload io (Suc r) as c
      in (if VoipError_IsOk sent then Suc n else n, c))"

definition send_clients :: "bytes \<Rightarrow> (nat \<Rightarrow> nat \<Rightarrow> turn_io) \<Rightarrow> TurnAddress list \<Rightarrow> TurnClient list \<Rightarrow> (nat \<times> TurnClient) list" where
  "send_clients payload io peers clients =
     map (\<lambda>(i, c). if \<not> tc_allocated c \<or> peers = [] then (0, c) else send_peers payload (io i) 0 peers c) (enumerate 0 clients)"

fun send_classic :: "bytes \<Rightarrow> (nat \<Rightarrow> socket_exn option) \<Rightarrow> nat \<Rightarrow> ReflectorEndpoint list \<Rightarrow> AsyncSession list \<Rightarrow> nat \<times> AsyncSession list" where
  "send_classic payload store i [] ss = (0, ss)"
| "send_classic payload store i (ep # eps) ss =
     (if re_IsWebRtc ep \<or> length (re_PeerTag ep) \<noteq> kPeerTagSize \<or> re_Ip ep = [] \<or> re_Port ep \<le> 0
      then send_classic payload store (Suc i) eps ss
      else
        (let (sent, ss) = SendThroughSession (re_Ip ep) (re_Port ep) payload (store i) ss;
             (n, ss) = send_classic payload store (Suc i) eps ss
         in (if VoipError_IsOk sent then Suc n else n, ss)))"

definition SendViaReflector :: "send_io \<Rightarrow> bytes \<Rightarrow> TgcallsConnection \<Rightarrow> TgcallsConnection" where
  "SendViaReflector io payload s =
     (if cn_transport s = None \<and> cn_turnClients s = [] then s
      else if cn_reflectors s = [] \<and> cn_turnClients s = [] then s
      else
        (let turned = send_clients payload (sd_turn io) (List.map_filter relay_address (cn_peerCandidates s)) (cn_turnClients s);
             n = sum_list (map fst turned);
             s = s\<lparr>cn_turnClients := map snd turned, cn_txPackets := cn_txPackets s + of_nat n,
                   cn_txBytes := cn_txBytes s + of_nat n * of_nat (length payload + 28)\<rparr>
         in case cn_transport s of
              None \<Rightarrow> s
            | Some ss \<Rightarrow>
                (let (k, ss) = send_classic payload (sd_store io) 0 (cn_reflectors s) ss
                 in s\<lparr>cn_transport := Some ss, cn_txPackets := cn_txPackets s + of_nat k,
                      cn_txBytes := cn_txBytes s + of_nat k * of_nat (length payload + 16)\<rparr>)))"

text \<open>Several datagrams in order; empty ones are skipped by \<open>PumpDtls\<close>.\<close>

fun send_all :: "(nat \<Rightarrow> send_io) \<Rightarrow> nat \<Rightarrow> bytes list \<Rightarrow> TgcallsConnection \<Rightarrow> TgcallsConnection" where
  "send_all io i [] s = s"
| "send_all io i (d # ds) s = send_all io (Suc i) ds (SendViaReflector (io i) d s)"

definition PumpDtls :: "(nat \<Rightarrow> send_io) \<Rightarrow> bytes list \<Rightarrow> TgcallsConnection \<Rightarrow> TgcallsConnection" where
  "PumpDtls io flights s = send_all io 0 (filter (\<lambda>d. d \<noteq> []) flights) s"


section \<open>ICE\<close>

definition StopIceRetryTimer :: "TgcallsConnection \<Rightarrow> TgcallsConnection" where
  "StopIceRetryTimer s =
     (if cn_iceRetryTimer s then s\<lparr>cn_iceRetryTimer := False, cn_timerRuns := False\<rparr> else s)"

definition StartIceRetryTimer :: "TgcallsConnection \<Rightarrow> TgcallsConnection" where
  "StartIceRetryTimer s = (StopIceRetryTimer s)\<lparr>cn_iceRetryTimer := True, cn_timerRuns := True\<rparr>"

definition SendIceBindingRequests :: "ConnLib \<Rightarrow> (nat \<Rightarrow> bytes) \<Rightarrow> (nat \<Rightarrow> send_io) \<Rightarrow> TgcallsConnection \<Rightarrow> TgcallsConnection" where
  "SendIceBindingRequests lib txn io s =
     (case cn_iceAgent s of
        None \<Rightarrow> s
      | Some agent \<Rightarrow>
          (case GetBindingRequestsToSend (cl_HmacSha1 lib) txn agent of
             (requests, agent) \<Rightarrow> send_all io 0 (map snd requests) (s\<lparr>cn_iceAgent := Some agent\<rparr>)))"

text \<open>A period of the retry timer.\<close>

definition retry_tick :: "ConnLib \<Rightarrow> (nat \<Rightarrow> bytes) \<Rightarrow> (nat \<Rightarrow> send_io) \<Rightarrow> TgcallsConnection \<Rightarrow> TgcallsConnection" where
  "retry_tick lib txn io s =
     (if \<not> cn_timerRuns s then s
      else if cn_stopped s \<or> cn_state s \<in> {TgDtlsHandshaking, TgConnected, TgFailed, TgStopped}
      then s\<lparr>cn_timerRuns := False\<rparr>
      else if cn_iceAttempts s \<ge> 20 then TransitionTo TgFailed (s\<lparr>cn_timerRuns := False\<rparr>)
      else
        (let s = SendIceBindingRequests lib txn io s in s\<lparr>cn_iceAttempts := cn_iceAttempts s + 1\<rparr>))"

text \<open>The platform while one signaling message is handled.\<close>

record msg_env =
  me_hosts :: "host_name list"
  me_tieBreak :: bytes
  me_txn :: "nat \<Rightarrow> bytes"
  me_sends :: "nat \<Rightarrow> send_io"
  me_permit :: "nat \<Rightarrow> nat \<Rightarrow> turn_io"

text \<open>The candidates the agent is given: relay and host ones that parse.\<close>

definition agent_candidate :: "string \<Rightarrow> ParsedIceCandidate option" where
  "agent_candidate sdp =
     (case cand_Parse sdp of
        None \<Rightarrow> None
      | Some parsed \<Rightarrow>
          if Type parsed = IceCandidateType_Relay then Some parsed
          else if Type parsed = IceCandidateType_Host then Some parsed
          else None)"

definition StartIcePhase :: "ConnLib \<Rightarrow> msg_env \<Rightarrow> TgcallsConnection \<Rightarrow> TgcallsConnection" where
  "StartIcePhase lib env s =
     (let peerReady = (cn_peerInitialReceived s \<and> cn_peerUfrag s \<noteq> [] \<and> cn_peerPwd s \<noteq> []) in
      if \<not> peerReady then s
      else
        (let s = (if \<not> cn_iceStarted s then snd (EmitCandidates lib (me_hosts env) s) else s) in
         if cn_peerCandidates s = [] then s
         else if cn_iceStarted s then s
         else
           (let agent = IceAgent_new
                  (if cn_isOutgoing s then IceAgentRole_Controlling else IceAgentRole_Controlled)
                  (cn_localUfrag s) (cn_localPwd s) (cn_peerUfrag s) (cn_peerPwd s) (me_tieBreak env);
                agent = fold AddRemoteCandidate (List.map_filter agent_candidate (cn_peerCandidates s)) agent;
                s = s\<lparr>cn_iceStarted := True, cn_iceAgent := Some agent, cn_iceAttempts := 0\<rparr>
            in StartIceRetryTimer (SendIceBindingRequests lib (me_txn env) (me_sends env) s))))"


section \<open>Signaling in\<close>

definition OnPeerInitialSetup :: "ConnLib \<Rightarrow> msg_env \<Rightarrow> InitialSetupMsg \<Rightarrow> TgcallsConnection \<Rightarrow> TgcallsConnection" where
  "OnPeerInitialSetup lib env msg s =
     (let s = s\<lparr>cn_peerInitialReceived := True, cn_peerUfrag := InitialSetupMsg.Ufrag msg, cn_peerPwd := Pwd msg,
                cn_peerFingerprintHash := fp_Hash (Fingerprint msg),
                cn_peerFingerprint := fp_Fingerprint (Fingerprint msg), cn_peerSetup := fp_Setup (Fingerprint msg)\<rparr>;
          s = (if \<not> cn_isOutgoing s
               then (if fp_Setup (Fingerprint msg) = ''actpass'' \<or> fp_Setup (Fingerprint msg) = ''passive''
                     then s\<lparr>cn_localSetupRole := ''active''\<rparr>
                     else s\<lparr>cn_localSetupRole := ''passive''\<rparr>)
               else s)
      in StartIcePhase lib env s)"

fun permit_peers :: "mac_fn \<Rightarrow> (nat \<Rightarrow> turn_io) \<Rightarrow> nat \<Rightarrow> TurnAddress list \<Rightarrow> TurnClient \<Rightarrow> TurnClient" where
  "permit_peers hmac io r [] c = c"
| "permit_peers hmac io r (a # as) c = permit_peers hmac io (Suc r) as (snd (AddPeerPermission hmac a (io r) c))"

definition OnPeerCandidates :: "ConnLib \<Rightarrow> msg_env \<Rightarrow> SdpIceCandidate list \<Rightarrow> TgcallsConnection \<Rightarrow> TgcallsConnection" where
  "OnPeerCandidates lib env candidates s =
     (let newPeerRelays = List.map_filter relay_address (map SdpString candidates);
          s = s\<lparr>cn_peerCandidates := cn_peerCandidates s @ map SdpString candidates,
                cn_turnClients := map (\<lambda>(i, c). permit_peers (cl_HmacSha1 lib) (me_permit env i) 0 newPeerRelays c)
                                      (enumerate 0 (cn_turnClients s))\<rparr>
      in StartIcePhase lib env s)"

definition OnPeerPing :: "ConnLib \<Rightarrow> u32 \<Rightarrow> TgcallsConnection \<Rightarrow> TgcallsConnection" where
  "OnPeerPing lib pingId s =
     snd (EmitMessages lib [TgcallsMessage_default\<lparr>MType := MsgPong, TypeName := ''Pong'', PongId := pingId\<rparr>] s)"

definition OnPeerMediaState :: "MediaStateMsg \<Rightarrow> TgcallsConnection \<Rightarrow> TgcallsConnection" where
  "OnPeerMediaState msg s = s"

definition dispatch_signaling :: "ConnLib \<Rightarrow> msg_env \<Rightarrow> TgcallsMessage \<Rightarrow> TgcallsConnection \<Rightarrow> TgcallsConnection" where
  "dispatch_signaling lib env m s =
     (case MType m of
        MsgInitialSetup \<Rightarrow> OnPeerInitialSetup lib env (Initial m) s
      | MsgCandidates \<Rightarrow> OnPeerCandidates lib env (Candidates m) s
      | MsgPing \<Rightarrow> OnPeerPing lib (PingId m) s
      | MsgMediaState \<Rightarrow> OnPeerMediaState (MediaState m) s
      | MsgRemoteMediaState \<Rightarrow> OnPeerMediaState (MediaState m) s
      | _ \<Rightarrow> s)"

fun dispatch_all :: "ConnLib \<Rightarrow> (nat \<Rightarrow> msg_env) \<Rightarrow> nat \<Rightarrow> TgcallsMessage list \<Rightarrow> TgcallsConnection \<Rightarrow> TgcallsConnection" where
  "dispatch_all lib env i [] s = s"
| "dispatch_all lib env i (m # ms) s = dispatch_all lib env (Suc i) ms (dispatch_signaling lib (env i) m s)"

definition HandleIncomingSignaling ::
    "ConnLib \<Rightarrow> (nat \<Rightarrow> msg_env) \<Rightarrow> bytes \<Rightarrow> TgcallsConnection \<Rightarrow> (VoipError \<times> TgcallsConnection) option" where
  "HandleIncomingSignaling lib env encryptedBytes s =
     (if encryptedBytes = [] then Some (conn_MakeInvalid ''empty signaling payload'', s)
      else if length (cn_sharedKey s) \<noteq> kSharedKeySize
      then Some (conn_MakeInvalid ''tgcalls connection has no shared key'', s)
      else do {
        messages \<leftarrow> env_Decrypt (cl_Sha256 lib) (cl_SignalingAes lib) (cn_sharedKey s) (cn_isOutgoing s) encryptedBytes;
        Some (VoipError_Ok, dispatch_all lib env 0 messages s)
      })"


section \<open>DTLS\<close>

text \<open>The platform while one datagram is handled.\<close>

record dgram_env =
  de_reply :: send_io
  de_cert :: CertEnv
  de_initiate :: "random_fn \<times> random_fn \<times> random_fn"
  de_flight :: "nat \<Rightarrow> send_io"
  de_audio :: audio_open_io
  de_opus :: OpusLib
  de_thread :: bool

definition StartDtlsPhase :: "dgram_env \<Rightarrow> TgcallsConnection \<Rightarrow> TgcallsConnection" where
  "StartDtlsPhase env s =
     (if cn_dtls s \<noteq> None then s
      else
        (let s = TransitionTo TgDtlsHandshaking s;
             cert = cn_localCert s;
             s = s\<lparr>cn_localCert := None\<rparr>
         in case cert of
              None \<Rightarrow> TransitionTo TgFailed s
            | Some kp \<Rightarrow>
                if cn_peerFingerprint s = [] then TransitionTo TgFailed s
                else
                  (let (rnd, priv, pub) = de_initiate env;
                       (dtls, initial) = Initiate rnd priv pub (DtlsClientSession_new kp (cn_peerFingerprint s));
                       s = s\<lparr>cn_dtls := Some dtls\<rparr>
                   in PumpDtls (de_flight env) initial s)))"

definition OnIceConnected :: "dgram_env \<Rightarrow> TgcallsConnection \<Rightarrow> TgcallsConnection" where
  "OnIceConnected env s =
     (if cn_state s \<notin> {TgConnecting, TgIceConnecting} then s else StartDtlsPhase env (StopIceRetryTimer s))"

text \<open>The split of the exported keying material: the outgoing and the incoming master key and salt.\<close>

definition srtp_masters :: "bytes \<Rightarrow> SrtpKeys \<times> SrtpKeys" where
  "srtp_masters material =
     (\<lparr>MasterKey = take 16 material, MasterSalt = take 14 (drop 32 material)\<rparr>,
      \<lparr>MasterKey = take 16 (drop 16 material), MasterSalt = take 14 (drop 46 material)\<rparr>)"

definition srtp_params :: "block_fn \<Rightarrow> SrtpKeys \<Rightarrow> u32 \<Rightarrow> SrtpEncryptParams" where
  "srtp_params aes master ssrc =
     \<lparr>SessionEncrKey = DeriveSessionEncrKey aes master, SessionAuthKey = DeriveSessionAuthKey aes master,
      SessionSalt = DeriveSessionSalt aes master, Ssrc = ssrc, RolloverCounter = 0, LastSequenceNumber = 0,
      HasLastSequenceNumber = False\<rparr>"

definition StartAudioPhase :: "ConnLib \<Rightarrow> dgram_env \<Rightarrow> bytes \<Rightarrow> TgcallsConnection \<Rightarrow> TgcallsConnection" where
  "StartAudioPhase lib env material s =
     (let (outMaster, inMaster) = srtp_masters material;
          s = s\<lparr>cn_srtpOutgoing := Some (srtp_params (cl_SrtpAes lib) outMaster (cn_localSsrc s)),
                cn_srtpIncoming := Some (srtp_params (cl_SrtpAes lib) inMaster 0), cn_srtpReady := True\<rparr>;
          (opened, audio) = audio_Open (de_audio env) AudioDevice_new;
          s = s\<lparr>cn_audio := Some audio, cn_codec := Some OpusVoipCodec_new\<rparr>
      in if \<not> ar_Success opened then TransitionTo TgFailed s
         else
           (let (codecInit, codec) = opus_Init (de_opus env) DefaultBitrateBps OpusVoipCodec_new;
                s = s\<lparr>cn_codec := Some codec\<rparr>
            in if codecInit \<noteq> 0 then TransitionTo TgFailed s
               else
                 (let s = (TransitionTo TgConnected s)\<lparr>cn_audioLoopActive := True\<rparr>
                  in if \<not> de_thread env then s\<lparr>cn_audioLoopActive := False\<rparr>
                     else s\<lparr>cn_audioCaptureThread := True\<rparr>)))"

definition OnDtlsEstablished :: "ConnLib \<Rightarrow> dgram_env \<Rightarrow> bytes \<Rightarrow> TgcallsConnection \<Rightarrow> TgcallsConnection" where
  "OnDtlsEstablished lib env material s =
     (if length material \<noteq> 60 then TransitionTo TgFailed s else StartAudioPhase lib env material s)"


section \<open>Audio packets\<close>

definition kOpusPayloadType :: u8 where "kOpusPayloadType = 111"

text \<open>The payload of an RTP packet: \<open>None\<close> where the code returns. The reads are within the sizes checked.\<close>

definition rtp_payload :: "bytes \<Rightarrow> bytes option" where
  "rtp_payload rtp =
     (if length rtp < 12 then None
      else
        (let csrcCount = unat (rtp ! 0 AND 0x0F);
             hasExt = (rtp ! 0 AND 0x10 \<noteq> 0);
             headerLen = 12 + csrcCount * 4
         in if hasExt \<and> length rtp < headerLen + 4 then None
            else
              (let headerLen = (if hasExt
                     then headerLen + 4 + (unat (rtp ! (headerLen + 2)) * 256 + unat (rtp ! (headerLen + 3))) * 4
                     else headerLen)
               in if length rtp \<le> headerLen then None else Some (drop headerLen rtp))))"

text \<open>3840 samples: the size of the buffer on the stack, which a decoder given that capacity does not exceed;
  \<open>None\<close> if it does.\<close>

definition OnRtpPacket :: "OpusLib \<Rightarrow> bytes \<Rightarrow> TgcallsConnection \<Rightarrow> TgcallsConnection option" where
  "OnRtpPacket opus rtp s =
     (case rtp_payload rtp of
        None \<Rightarrow> Some s
      | Some payload \<Rightarrow>
          (case (cn_codec s, cn_audio s) of
             (Some codec, Some audio) \<Rightarrow>
               (let (decoded, pcm) = DecodeFrame opus payload 3840 codec in
                if decoded \<le> 0 then Some s
                else if decoded > 3840 then None
                else Some (s\<lparr>cn_audio := Some (snd (WriteFrame (take (nat decoded) pcm) audio))\<rparr>))
           | _ \<Rightarrow> Some s))"

definition OnSrtpDatagram :: "ConnLib \<Rightarrow> OpusLib \<Rightarrow> bytes \<Rightarrow> TgcallsConnection \<Rightarrow> TgcallsConnection option" where
  "OnSrtpDatagram lib opus bs s =
     (if length bs < 12 + kAuthTagSize then Some s
      else if \<not> cn_srtpReady s then Some s
      else (case cn_srtpIncoming s of
          None \<Rightarrow> Some s
        | Some inParams \<Rightarrow>
            (let pktSsrc = be32_of (bs ! 8) (bs ! 9) (bs ! 10) (bs ! 11);
                 s = (if Ssrc inParams = 0
                      then s\<lparr>cn_srtpIncoming := Some (inParams\<lparr>Ssrc := pktSsrc\<rparr>), cn_remoteSsrc := pktSsrc\<rparr> else s);
                 inParams = (if Ssrc inParams = 0 then inParams\<lparr>Ssrc := pktSsrc\<rparr> else inParams)
             in if Ssrc inParams \<noteq> pktSsrc then Some s
                else (case srtp_decrypt (cl_SrtpAes lib) (cl_HmacSha1 lib) inParams bs of
                    None \<Rightarrow> None
                  | Some None \<Rightarrow> Some s
                  | Some (Some rtp) \<Rightarrow> OnRtpPacket opus rtp s))))"

definition rtp_header :: "u16 \<Rightarrow> u32 \<Rightarrow> u32 \<Rightarrow> bytes" where
  "rtp_header sq ts ssrc = [0x80, kOpusPayloadType AND 0x7F] @ be16 sq @ be32 ts @ be32 ssrc"

text \<open>A turn of the capture loop. \<open>arrived\<close>: the samples captured while the read waits. \<open>None\<close> when the
  encoder claims more than the buffer it was given holds.\<close>

definition RunAudioCaptureLoop_turn ::
    "ConnLib \<Rightarrow> OpusLib \<Rightarrow> int list list \<Rightarrow> send_io \<Rightarrow> TgcallsConnection \<Rightarrow> TgcallsConnection option" where
  "RunAudioCaptureLoop_turn lib opus arrived io s =
     (if \<not> cn_audioLoopActive s then Some s
      else (case (cn_audio s, cn_codec s, cn_srtpOutgoing s) of
          (Some audio, Some codec, Some outParams) \<Rightarrow>
            if \<not> cn_srtpReady s then Some s
            else
              (let (readResult, pcm, audio) = ReadFrame arrived audio;
                   s = s\<lparr>cn_audio := Some audio\<rparr>
               in if \<not> ar_Success readResult \<or> pcm = [] then Some s
                  else
                    (let (opusLen, opusFrame) = EncodeFrame opus pcm MaxPacketBytes codec in
                     if opusLen \<le> 0 then Some s
                     else if nat opusLen > MaxPacketBytes then None
                     else do {
                       let rtpPacket = rtp_header (cn_outgoingSeq s) (cn_outgoingTimestamp s) (cn_localSsrc s)
                             @ take (nat opusLen) opusFrame;
                       (outParams, srtpPacket) \<leftarrow> srtp_encrypt (cl_SrtpAes lib) (cl_HmacSha1 lib) outParams rtpPacket (cn_outgoingSeq s);
                       let s = s\<lparr>cn_srtpOutgoing := Some outParams\<rparr>;
                       let s = (if srtpPacket \<noteq> [] then SendViaReflector io srtpPacket s else s);
                       Some (s\<lparr>cn_outgoingSeq := cn_outgoingSeq s + 1,
                               cn_outgoingTimestamp := cn_outgoingTimestamp s + of_nat FrameSamples\<rparr>)
                     }))
        | _ \<Rightarrow> Some s))"


section \<open>Datagrams in\<close>

definition OnStunDatagram :: "ConnLib \<Rightarrow> dgram_env \<Rightarrow> bytes \<Rightarrow> TgcallsConnection \<Rightarrow> TgcallsConnection option" where
  "OnStunDatagram lib env inner s =
     (case cn_iceAgent s of
        None \<Rightarrow> Some s
      | Some agent \<Rightarrow>
          (let (srcIp, srcPort) = (if cn_reflectors s \<noteq> [] then (re_Ip (hd (cn_reflectors s)), re_Port (hd (cn_reflectors s))) else ([], 0))
           in do {
             (result, response, agent) \<leftarrow> ProcessIncoming (cl_HmacSha1 lib) srcIp srcPort inner agent;
             let s = s\<lparr>cn_iceAgent := Some agent\<rparr>;
             let s = (if response \<noteq> [] then SendViaReflector (de_reply env) response s else s);
             Some (if result = ProcessResult_ConnectivityEstablished then OnIceConnected env s else s)
           }))"

definition OnDtlsDatagram :: "ConnLib \<Rightarrow> dgram_env \<Rightarrow> bytes \<Rightarrow> TgcallsConnection \<Rightarrow> TgcallsConnection option" where
  "OnDtlsDatagram lib env inner s =
     (case cn_dtls s of
        None \<Rightarrow> Some s
      | Some dtls \<Rightarrow> do {
          (ok, dtls, outDatagrams) \<leftarrow> ProcessDatagram (cl_Dtls lib) (de_cert env) inner dtls;
          let s = PumpDtls (de_flight env) outDatagrams (s\<lparr>cn_dtls := Some dtls\<rparr>);
          Some (if dc_state dtls = DtlsState_Established \<and> \<not> cn_srtpReady s
                then OnDtlsEstablished lib env (ExportKeyingMaterial (cl_Dtls lib) ''EXTRACTOR-dtls_srtp'' 60 dtls) s
                else if dc_state dtls = DtlsState_Failed then TransitionTo TgFailed s
                else s)
        })"

definition OnReflectorDatagram :: "ConnLib \<Rightarrow> dgram_env \<Rightarrow> bytes \<Rightarrow> TgcallsConnection \<Rightarrow> TgcallsConnection option" where
  "OnReflectorDatagram lib env bs s =
     (let s = s\<lparr>cn_rxPackets := cn_rxPackets s + 1, cn_rxBytes := cn_rxBytes s + of_nat (length bs)\<rparr> in
      case TryStripPeerTag bs of
        None \<Rightarrow> Some s
      | Some inner \<Rightarrow>
          if inner = [] then Some s
          else if inner ! 0 \<le> 0x03 then OnStunDatagram lib env inner s
          else if 0x14 \<le> inner ! 0 \<and> inner ! 0 \<le> 0x1F then OnDtlsDatagram lib env inner s
          else if 0x80 \<le> inner ! 0 \<and> inner ! 0 \<le> 0xBF
          then (if cn_state s = TgConnected then OnSrtpDatagram lib (de_opus env) inner s else Some s)
          else Some s)"

text \<open>The overload the transports call; the source is only traced.\<close>

definition OnReflectorDatagram_from ::
    "ConnLib \<Rightarrow> dgram_env \<Rightarrow> string \<Rightarrow> int \<Rightarrow> bytes \<Rightarrow> TgcallsConnection \<Rightarrow> TgcallsConnection option" where
  "OnReflectorDatagram_from lib env srcIp srcPort payload s =
     (if payload = [] then Some s else OnReflectorDatagram lib env (replicate 16 0 @ payload) s)"


section \<open>Start and stop\<close>

record reflector_io =
  ri_socket :: socket_result
  ri_io1 :: turn_io
  ri_io2 :: turn_io
  ri_io3 :: turn_io

fun open_reflectors ::
    "mac_fn \<Rightarrow> (nat \<Rightarrow> reflector_io) \<Rightarrow> nat \<Rightarrow> ReflectorEndpoint list \<Rightarrow> AsyncSession list \<Rightarrow> TurnClient list
       \<Rightarrow> AsyncSession list \<times> TurnClient list" where
  "open_reflectors hmac io i [] ss tcs = (ss, tcs)"
| "open_reflectors hmac io i (ep # eps) ss tcs =
     (if re_Ip ep = [] then open_reflectors hmac io (Suc i) eps ss tcs
      else if re_IsWebRtc ep then
        (if re_Username ep = [] \<or> re_Password ep = [] then open_reflectors hmac io (Suc i) eps ss tcs
         else
           (let (opened, client) = OpenAllocation hmac (re_Ip ep) (re_Port ep) (re_Username ep) (re_Password ep) [] True
                  (ri_socket (io i)) (ri_io1 (io i)) (ri_io2 (io i)) (ri_io3 (io i)) TurnClient_init
            in open_reflectors hmac io (Suc i) eps ss (if VoipError_IsOk opened then tcs @ [client] else tcs)))
      else if length (re_PeerTag ep) \<noteq> kPeerTagSize then open_reflectors hmac io (Suc i) eps ss tcs
      else open_reflectors hmac io (Suc i) eps
             (snd (OpenSession (re_Ip ep) (re_Port ep) (re_PeerTag ep) True (ri_socket (io i)) ss)) tcs)"

record start_env =
  se_keyPair :: "nat option option"
  se_cert :: CertCall
  se_ufrag :: random_fn
  se_pwd :: random_fn
  se_ssrc :: random_fn
  se_open :: open_io
  se_reflector :: "nat \<Rightarrow> reflector_io"

definition CreateDatagramSession :: "DatagramSession option" where
  "CreateDatagramSession = Some DatagramSession_new"

definition native_endpoint :: "ReflectorEndpoint \<Rightarrow> VoipEndpoint" where
  "native_endpoint first = VoipEndpoint_default\<lparr>VoipEndpoint.Ip := re_Ip first, Ipv6 := re_Ipv6 first,
     VoipEndpoint.Port := re_Port first, VoipEndpoint.PeerTag := re_PeerTag first, IsWebRtc := True\<rparr>"

text \<open>Steps 4 and 5 of \<open>Start\<close>.\<close>

definition start_transports :: "ConnLib \<Rightarrow> start_env \<Rightarrow> TgcallsConnection \<Rightarrow> VoipError \<times> TgcallsConnection" where
  "start_transports lib env s =
     (case CreateDatagramSession of
        None \<Rightarrow> (conn_MakeError TransportFailed ''failed to create reflector datagram session'', TransitionTo TgFailed s)
      | Some socket \<Rightarrow>
          (let (opened, socket) = ds_Open (native_endpoint (hd (cn_reflectors s))) (se_open env) socket in
           if \<not> dr_Success opened
           then (conn_MakeError TransportFailed (''reflector open failed: '' @ dr_Error opened), TransitionTo TgFailed s)
           else
             (let s = s\<lparr>cn_socket := Some socket\<rparr>;
                  (sessions, clients) = open_reflectors (cl_HmacSha1 lib) (se_reflector env) 0 (cn_reflectors s) [] []
              in (VoipError_Ok, TransitionTo TgIceConnecting (s\<lparr>cn_transport := Some sessions, cn_turnClients := clients\<rparr>)))))"

definition conn_Start :: "ConnLib \<Rightarrow> start_env \<Rightarrow> TgcallsConnection \<Rightarrow> (VoipError \<times> TgcallsConnection) option" where
  "conn_Start lib env s =
     (if length (cn_sharedKey s) \<noteq> kSharedKeySize
      then Some (conn_MakeInvalid ''tgcalls connection requires a 256-byte shared key'', s)
      else if cn_reflectors s = []
      then Some (conn_MakeInvalid ''tgcalls connection requires at least one WebRTC reflector endpoint'', s)
      else if \<not> cn_hasSignalingOut s
      then Some (conn_MakeInvalid ''tgcalls connection requires a SignalingDataCallback'', s)
      else
        (let s = s\<lparr>cn_localCert := Generate (se_keyPair env)\<rparr> in
         case cn_localCert s of
           None \<Rightarrow>
             Some (conn_MakeError CryptoUnavailable ''platform ECDSA-P256 provider is unavailable'', TransitionTo TgFailed s)
         | Some kp \<Rightarrow> do {
             fingerprint \<leftarrow> ToSha256Fingerprint (se_cert env) kp;
             let ssrc = GenerateRandomUint32 (se_ssrc env);
             let s = s\<lparr>cn_localFingerprint := fingerprint, cn_localUfrag := GenerateRandomToken 4 (se_ufrag env),
                       cn_localPwd := GenerateRandomToken 22 (se_pwd env), cn_localSsrc := ssrc,
                       cn_localUdpPort := udp_port ssrc\<rparr>;
             let (emitted, s) = EmitInitialSetup lib s;
             if \<not> VoipError_IsOk emitted then Some (emitted, TransitionTo TgFailed s)
             else Some (start_transports lib env s)
           }))"

definition StopAudioLoop :: "TgcallsConnection \<Rightarrow> TgcallsConnection" where
  "StopAudioLoop s = s\<lparr>cn_audioLoopActive := False, cn_audioCaptureThread := False\<rparr>"

definition conn_Stop :: "TgcallsConnection \<Rightarrow> TgcallsConnection" where
  "conn_Stop s =
     (if cn_stopped s then s
      else
        (let s = StopIceRetryTimer (StopAudioLoop (s\<lparr>cn_stopped := True\<rparr>));
             s = s\<lparr>cn_socket := None, cn_transport := None, cn_audio := None, cn_codec := None, cn_localCert := None,
                   cn_dtls := None, cn_iceAgent := None, cn_srtpOutgoing := None, cn_srtpIncoming := None,
                   cn_srtpReady := False, cn_state := TgStopped\<rparr>
         in if cn_hasStateChanged s then s\<lparr>cn_notified := cn_notified s @ [TgStopped]\<rparr> else s))"


section \<open>What reaches the connection\<close>

text \<open>
  The events of a connection: the calls of the engine, the datagrams the push sessions and the TURN
  clients hand to the callback given in \<open>Start\<close>, the timer, the capture thread and the workers of the
  audio device.
\<close>

datatype conn_event =
    CeStart start_env
  | CeSignaling "nat \<Rightarrow> msg_env" bytes
  | CeClassic dgram_env nat bytes
  | CeTurn "nat \<Rightarrow> dgram_env" nat turn_event
  | CeTick "nat \<Rightarrow> bytes" "nat \<Rightarrow> send_io"
  | CeCapture OpusLib "int list list" send_io
  | CeAudioCapture bool "capture_packet list"
  | CeAudioRender render_io
  | CeMute bool
  | CeSpeaker bool
  | CeStop

text \<open>A datagram on the socket of a push session.\<close>

definition classic_inbound :: "ConnLib \<Rightarrow> dgram_env \<Rightarrow> nat \<Rightarrow> bytes \<Rightarrow> TgcallsConnection \<Rightarrow> TgcallsConnection option" where
  "classic_inbound lib env i raw s =
     (case cn_transport s of
        None \<Rightarrow> Some s
      | Some ss \<Rightarrow>
          if i \<ge> length ss then Some s
          else (case async_on_message raw (ss ! i) of
              None \<Rightarrow> Some s
            | Some (ip, port, payload) \<Rightarrow> OnReflectorDatagram_from lib env ip port payload s))"

text \<open>A datagram on the socket of a TURN client: what it delivers goes on, in order.\<close>

fun deliver_turn :: "ConnLib \<Rightarrow> (nat \<Rightarrow> dgram_env) \<Rightarrow> nat \<Rightarrow> (string \<times> int \<times> bytes) list \<Rightarrow> TgcallsConnection \<Rightarrow> TgcallsConnection option" where
  "deliver_turn lib env k [] s = Some s"
| "deliver_turn lib env k ((ip, port, payload) # ds) s = do {
     s \<leftarrow> OnReflectorDatagram_from lib (env k) ip port payload s;
     deliver_turn lib env (Suc k) ds s
   }"

definition turn_inbound :: "ConnLib \<Rightarrow> (nat \<Rightarrow> dgram_env) \<Rightarrow> nat \<Rightarrow> turn_event \<Rightarrow> TgcallsConnection \<Rightarrow> TgcallsConnection option" where
  "turn_inbound lib env i e s =
     (if i \<ge> length (cn_turnClients s) then Some s
      else
        (let c = cn_turnClients s ! i;
             c' = turn_handle e c
         in deliver_turn lib env 0 (drop (length (tc_delivered c)) (tc_delivered c'))
              (s\<lparr>cn_turnClients := (cn_turnClients s)[i := c']\<rparr>)))"

fun conn_step :: "ConnLib \<Rightarrow> TgcallsConnection \<Rightarrow> conn_event \<Rightarrow> TgcallsConnection option" where
  "conn_step lib s (CeStart env) = map_option snd (conn_Start lib env s)"
| "conn_step lib s (CeSignaling env bs) = map_option snd (HandleIncomingSignaling lib env bs s)"
| "conn_step lib s (CeClassic env i raw) = classic_inbound lib env i raw s"
| "conn_step lib s (CeTurn env i e) = turn_inbound lib env i e s"
| "conn_step lib s (CeTick txn io) = Some (retry_tick lib txn io s)"
| "conn_step lib s (CeCapture opus arrived io) = RunAudioCaptureLoop_turn lib opus arrived io s"
| "conn_step lib s (CeAudioCapture fails ps) = Some (s\<lparr>cn_audio := map_option (CaptureLoop_turn fails ps) (cn_audio s)\<rparr>)"
| "conn_step lib s (CeAudioRender io) =
     (case cn_audio s of
        None \<Rightarrow> Some s
      | Some d \<Rightarrow> do { d \<leftarrow> RenderLoop_turn io d; Some (s\<lparr>cn_audio := Some d\<rparr>) })"
| "conn_step lib s (CeMute b) = Some (snd (conn_SetMuted lib b s))"
| "conn_step lib s (CeSpeaker b) = Some (snd (conn_SetSpeaker b s))"
| "conn_step lib s CeStop = Some (conn_Stop s)"

text \<open>An undefined step leaves the state: the run has no further defined behaviour.\<close>

definition conn_next :: "ConnLib \<Rightarrow> TgcallsConnection \<Rightarrow> conn_event \<Rightarrow> TgcallsConnection" where
  "conn_next lib s e = (case conn_step lib s e of None \<Rightarrow> s | Some s' \<Rightarrow> s')"

end
