(* ===== verification/ConnectionProps.thy ===== *)
theory ConnectionProps
  imports TgcallsConnection
begin

text \<open>
  The invariant of a tgcalls call (\<open>TgcallsConnection\<close>): the fields each method leaves alone, and what
  holds after every sequence of events.
\<close>

section \<open>Fields the methods leave alone\<close>

lemma SendViaReflector_fields [simp]:
  "cn_state (SendViaReflector io p s) = cn_state s" "cn_srtpReady (SendViaReflector io p s) = cn_srtpReady s"
  "cn_srtpOutgoing (SendViaReflector io p s) = cn_srtpOutgoing s" "cn_srtpIncoming (SendViaReflector io p s) = cn_srtpIncoming s"
  "cn_audio (SendViaReflector io p s) = cn_audio s" "cn_codec (SendViaReflector io p s) = cn_codec s" "cn_dtls (SendViaReflector io p s) = cn_dtls s"
  "cn_audioLoopActive (SendViaReflector io p s) = cn_audioLoopActive s" "cn_audioCaptureThread (SendViaReflector io p s) = cn_audioCaptureThread s"
  "cn_iceAgent (SendViaReflector io p s) = cn_iceAgent s" "cn_iceStarted (SendViaReflector io p s) = cn_iceStarted s"
  "cn_iceAttempts (SendViaReflector io p s) = cn_iceAttempts s" "cn_iceRetryTimer (SendViaReflector io p s) = cn_iceRetryTimer s"
  "cn_timerRuns (SendViaReflector io p s) = cn_timerRuns s" "cn_hasStateChanged (SendViaReflector io p s) = cn_hasStateChanged s"
  "cn_hasSignalingOut (SendViaReflector io p s) = cn_hasSignalingOut s" "cn_notified (SendViaReflector io p s) = cn_notified s"
  "cn_outgoingSignalingSeq (SendViaReflector io p s) = cn_outgoingSignalingSeq s" "cn_signaled (SendViaReflector io p s) = cn_signaled s"
  "cn_sharedKey (SendViaReflector io p s) = cn_sharedKey s" "cn_isOutgoing (SendViaReflector io p s) = cn_isOutgoing s"
  "cn_stopped (SendViaReflector io p s) = cn_stopped s" "cn_reflectors (SendViaReflector io p s) = cn_reflectors s"
  "cn_localCert (SendViaReflector io p s) = cn_localCert s" "cn_localUfrag (SendViaReflector io p s) = cn_localUfrag s"
  "cn_localPwd (SendViaReflector io p s) = cn_localPwd s" "cn_localSsrc (SendViaReflector io p s) = cn_localSsrc s"
  "cn_localFingerprint (SendViaReflector io p s) = cn_localFingerprint s" "cn_localSetupRole (SendViaReflector io p s) = cn_localSetupRole s"
  "cn_peerFingerprint (SendViaReflector io p s) = cn_peerFingerprint s" "cn_peerUfrag (SendViaReflector io p s) = cn_peerUfrag s"
  "cn_peerPwd (SendViaReflector io p s) = cn_peerPwd s" "cn_peerSetup (SendViaReflector io p s) = cn_peerSetup s"
  "cn_peerInitialReceived (SendViaReflector io p s) = cn_peerInitialReceived s" "cn_peerCandidates (SendViaReflector io p s) = cn_peerCandidates s"
  "cn_rxPackets (SendViaReflector io p s) = cn_rxPackets s" "cn_muted (SendViaReflector io p s) = cn_muted s"
  "cn_outgoingSeq (SendViaReflector io p s) = cn_outgoingSeq s" "cn_outgoingTimestamp (SendViaReflector io p s) = cn_outgoingTimestamp s"
  "cn_remoteSsrc (SendViaReflector io p s) = cn_remoteSsrc s" "cn_socket (SendViaReflector io p s) = cn_socket s"
  "cn_localUdpPort (SendViaReflector io p s) = cn_localUdpPort s"
  by (simp_all add: SendViaReflector_def Let_def split_beta split: option.split)

lemma send_all_fields [simp]:
  "cn_state (send_all io i ds s) = cn_state s" "cn_srtpReady (send_all io i ds s) = cn_srtpReady s"
  "cn_srtpOutgoing (send_all io i ds s) = cn_srtpOutgoing s" "cn_srtpIncoming (send_all io i ds s) = cn_srtpIncoming s"
  "cn_audio (send_all io i ds s) = cn_audio s" "cn_codec (send_all io i ds s) = cn_codec s" "cn_dtls (send_all io i ds s) = cn_dtls s"
  "cn_audioLoopActive (send_all io i ds s) = cn_audioLoopActive s" "cn_audioCaptureThread (send_all io i ds s) = cn_audioCaptureThread s"
  "cn_iceAgent (send_all io i ds s) = cn_iceAgent s" "cn_iceStarted (send_all io i ds s) = cn_iceStarted s"
  "cn_iceAttempts (send_all io i ds s) = cn_iceAttempts s" "cn_iceRetryTimer (send_all io i ds s) = cn_iceRetryTimer s"
  "cn_timerRuns (send_all io i ds s) = cn_timerRuns s" "cn_hasStateChanged (send_all io i ds s) = cn_hasStateChanged s"
  "cn_hasSignalingOut (send_all io i ds s) = cn_hasSignalingOut s" "cn_notified (send_all io i ds s) = cn_notified s"
  "cn_outgoingSignalingSeq (send_all io i ds s) = cn_outgoingSignalingSeq s" "cn_signaled (send_all io i ds s) = cn_signaled s"
  "cn_sharedKey (send_all io i ds s) = cn_sharedKey s" "cn_isOutgoing (send_all io i ds s) = cn_isOutgoing s"
  "cn_stopped (send_all io i ds s) = cn_stopped s" "cn_reflectors (send_all io i ds s) = cn_reflectors s"
  "cn_localCert (send_all io i ds s) = cn_localCert s" "cn_localUfrag (send_all io i ds s) = cn_localUfrag s"
  "cn_localPwd (send_all io i ds s) = cn_localPwd s" "cn_localSsrc (send_all io i ds s) = cn_localSsrc s"
  "cn_localFingerprint (send_all io i ds s) = cn_localFingerprint s" "cn_localSetupRole (send_all io i ds s) = cn_localSetupRole s"
  "cn_peerFingerprint (send_all io i ds s) = cn_peerFingerprint s" "cn_peerUfrag (send_all io i ds s) = cn_peerUfrag s"
  "cn_peerPwd (send_all io i ds s) = cn_peerPwd s" "cn_peerSetup (send_all io i ds s) = cn_peerSetup s"
  "cn_peerInitialReceived (send_all io i ds s) = cn_peerInitialReceived s" "cn_peerCandidates (send_all io i ds s) = cn_peerCandidates s"
  "cn_rxPackets (send_all io i ds s) = cn_rxPackets s" "cn_muted (send_all io i ds s) = cn_muted s"
  "cn_outgoingSeq (send_all io i ds s) = cn_outgoingSeq s" "cn_outgoingTimestamp (send_all io i ds s) = cn_outgoingTimestamp s"
  "cn_remoteSsrc (send_all io i ds s) = cn_remoteSsrc s" "cn_socket (send_all io i ds s) = cn_socket s"
  "cn_localUdpPort (send_all io i ds s) = cn_localUdpPort s"
  by (induction ds arbitrary: i s) simp_all

lemma PumpDtls_fields [simp]:
  "cn_state (PumpDtls io ds s) = cn_state s" "cn_srtpReady (PumpDtls io ds s) = cn_srtpReady s"
  "cn_srtpOutgoing (PumpDtls io ds s) = cn_srtpOutgoing s" "cn_srtpIncoming (PumpDtls io ds s) = cn_srtpIncoming s"
  "cn_audio (PumpDtls io ds s) = cn_audio s" "cn_codec (PumpDtls io ds s) = cn_codec s" "cn_dtls (PumpDtls io ds s) = cn_dtls s"
  "cn_audioLoopActive (PumpDtls io ds s) = cn_audioLoopActive s" "cn_audioCaptureThread (PumpDtls io ds s) = cn_audioCaptureThread s"
  "cn_iceAgent (PumpDtls io ds s) = cn_iceAgent s" "cn_iceStarted (PumpDtls io ds s) = cn_iceStarted s"
  "cn_iceAttempts (PumpDtls io ds s) = cn_iceAttempts s" "cn_iceRetryTimer (PumpDtls io ds s) = cn_iceRetryTimer s"
  "cn_timerRuns (PumpDtls io ds s) = cn_timerRuns s" "cn_hasStateChanged (PumpDtls io ds s) = cn_hasStateChanged s"
  "cn_hasSignalingOut (PumpDtls io ds s) = cn_hasSignalingOut s" "cn_notified (PumpDtls io ds s) = cn_notified s"
  "cn_outgoingSignalingSeq (PumpDtls io ds s) = cn_outgoingSignalingSeq s" "cn_signaled (PumpDtls io ds s) = cn_signaled s"
  "cn_sharedKey (PumpDtls io ds s) = cn_sharedKey s" "cn_isOutgoing (PumpDtls io ds s) = cn_isOutgoing s"
  "cn_stopped (PumpDtls io ds s) = cn_stopped s" "cn_reflectors (PumpDtls io ds s) = cn_reflectors s"
  "cn_localCert (PumpDtls io ds s) = cn_localCert s" "cn_localUfrag (PumpDtls io ds s) = cn_localUfrag s"
  "cn_localPwd (PumpDtls io ds s) = cn_localPwd s" "cn_localSsrc (PumpDtls io ds s) = cn_localSsrc s"
  "cn_localFingerprint (PumpDtls io ds s) = cn_localFingerprint s" "cn_localSetupRole (PumpDtls io ds s) = cn_localSetupRole s"
  "cn_peerFingerprint (PumpDtls io ds s) = cn_peerFingerprint s" "cn_peerUfrag (PumpDtls io ds s) = cn_peerUfrag s"
  "cn_peerPwd (PumpDtls io ds s) = cn_peerPwd s" "cn_peerSetup (PumpDtls io ds s) = cn_peerSetup s"
  "cn_peerInitialReceived (PumpDtls io ds s) = cn_peerInitialReceived s" "cn_peerCandidates (PumpDtls io ds s) = cn_peerCandidates s"
  "cn_rxPackets (PumpDtls io ds s) = cn_rxPackets s" "cn_muted (PumpDtls io ds s) = cn_muted s" "cn_outgoingSeq (PumpDtls io ds s) = cn_outgoingSeq s"
  "cn_outgoingTimestamp (PumpDtls io ds s) = cn_outgoingTimestamp s" "cn_remoteSsrc (PumpDtls io ds s) = cn_remoteSsrc s"
  "cn_socket (PumpDtls io ds s) = cn_socket s" "cn_localUdpPort (PumpDtls io ds s) = cn_localUdpPort s"
  by (simp_all add: PumpDtls_def)

lemma EmitMessages_fields [simp]:
  "cn_state (snd (EmitMessages lib ms s)) = cn_state s" "cn_srtpReady (snd (EmitMessages lib ms s)) = cn_srtpReady s"
  "cn_srtpOutgoing (snd (EmitMessages lib ms s)) = cn_srtpOutgoing s" "cn_srtpIncoming (snd (EmitMessages lib ms s)) = cn_srtpIncoming s"
  "cn_audio (snd (EmitMessages lib ms s)) = cn_audio s" "cn_codec (snd (EmitMessages lib ms s)) = cn_codec s"
  "cn_dtls (snd (EmitMessages lib ms s)) = cn_dtls s" "cn_audioLoopActive (snd (EmitMessages lib ms s)) = cn_audioLoopActive s"
  "cn_audioCaptureThread (snd (EmitMessages lib ms s)) = cn_audioCaptureThread s" "cn_iceAgent (snd (EmitMessages lib ms s)) = cn_iceAgent s"
  "cn_iceStarted (snd (EmitMessages lib ms s)) = cn_iceStarted s" "cn_iceAttempts (snd (EmitMessages lib ms s)) = cn_iceAttempts s"
  "cn_iceRetryTimer (snd (EmitMessages lib ms s)) = cn_iceRetryTimer s" "cn_timerRuns (snd (EmitMessages lib ms s)) = cn_timerRuns s"
  "cn_hasStateChanged (snd (EmitMessages lib ms s)) = cn_hasStateChanged s" "cn_hasSignalingOut (snd (EmitMessages lib ms s)) = cn_hasSignalingOut s"
  "cn_notified (snd (EmitMessages lib ms s)) = cn_notified s" "cn_sharedKey (snd (EmitMessages lib ms s)) = cn_sharedKey s"
  "cn_isOutgoing (snd (EmitMessages lib ms s)) = cn_isOutgoing s" "cn_stopped (snd (EmitMessages lib ms s)) = cn_stopped s"
  "cn_reflectors (snd (EmitMessages lib ms s)) = cn_reflectors s" "cn_localCert (snd (EmitMessages lib ms s)) = cn_localCert s"
  "cn_localUfrag (snd (EmitMessages lib ms s)) = cn_localUfrag s" "cn_localPwd (snd (EmitMessages lib ms s)) = cn_localPwd s"
  "cn_localSsrc (snd (EmitMessages lib ms s)) = cn_localSsrc s" "cn_localFingerprint (snd (EmitMessages lib ms s)) = cn_localFingerprint s"
  "cn_localSetupRole (snd (EmitMessages lib ms s)) = cn_localSetupRole s" "cn_peerFingerprint (snd (EmitMessages lib ms s)) = cn_peerFingerprint s"
  "cn_peerUfrag (snd (EmitMessages lib ms s)) = cn_peerUfrag s" "cn_peerPwd (snd (EmitMessages lib ms s)) = cn_peerPwd s"
  "cn_peerSetup (snd (EmitMessages lib ms s)) = cn_peerSetup s" "cn_peerInitialReceived (snd (EmitMessages lib ms s)) = cn_peerInitialReceived s"
  "cn_peerCandidates (snd (EmitMessages lib ms s)) = cn_peerCandidates s" "cn_rxPackets (snd (EmitMessages lib ms s)) = cn_rxPackets s"
  "cn_muted (snd (EmitMessages lib ms s)) = cn_muted s" "cn_outgoingSeq (snd (EmitMessages lib ms s)) = cn_outgoingSeq s"
  "cn_outgoingTimestamp (snd (EmitMessages lib ms s)) = cn_outgoingTimestamp s" "cn_remoteSsrc (snd (EmitMessages lib ms s)) = cn_remoteSsrc s"
  "cn_socket (snd (EmitMessages lib ms s)) = cn_socket s" "cn_localUdpPort (snd (EmitMessages lib ms s)) = cn_localUdpPort s"
  by (simp_all add: EmitMessages_def Let_def)

lemma SendIceBindingRequests_fields [simp]:
  "cn_state (SendIceBindingRequests lib txn io s) = cn_state s" "cn_srtpReady (SendIceBindingRequests lib txn io s) = cn_srtpReady s"
  "cn_srtpOutgoing (SendIceBindingRequests lib txn io s) = cn_srtpOutgoing s"
  "cn_srtpIncoming (SendIceBindingRequests lib txn io s) = cn_srtpIncoming s" "cn_audio (SendIceBindingRequests lib txn io s) = cn_audio s"
  "cn_codec (SendIceBindingRequests lib txn io s) = cn_codec s" "cn_dtls (SendIceBindingRequests lib txn io s) = cn_dtls s"
  "cn_audioLoopActive (SendIceBindingRequests lib txn io s) = cn_audioLoopActive s"
  "cn_audioCaptureThread (SendIceBindingRequests lib txn io s) = cn_audioCaptureThread s"
  "cn_iceStarted (SendIceBindingRequests lib txn io s) = cn_iceStarted s" "cn_iceAttempts (SendIceBindingRequests lib txn io s) = cn_iceAttempts s"
  "cn_iceRetryTimer (SendIceBindingRequests lib txn io s) = cn_iceRetryTimer s" "cn_timerRuns (SendIceBindingRequests lib txn io s) = cn_timerRuns s"
  "cn_hasStateChanged (SendIceBindingRequests lib txn io s) = cn_hasStateChanged s"
  "cn_hasSignalingOut (SendIceBindingRequests lib txn io s) = cn_hasSignalingOut s"
  "cn_notified (SendIceBindingRequests lib txn io s) = cn_notified s"
  "cn_outgoingSignalingSeq (SendIceBindingRequests lib txn io s) = cn_outgoingSignalingSeq s"
  "cn_signaled (SendIceBindingRequests lib txn io s) = cn_signaled s" "cn_sharedKey (SendIceBindingRequests lib txn io s) = cn_sharedKey s"
  "cn_isOutgoing (SendIceBindingRequests lib txn io s) = cn_isOutgoing s" "cn_stopped (SendIceBindingRequests lib txn io s) = cn_stopped s"
  "cn_reflectors (SendIceBindingRequests lib txn io s) = cn_reflectors s" "cn_localCert (SendIceBindingRequests lib txn io s) = cn_localCert s"
  "cn_localUfrag (SendIceBindingRequests lib txn io s) = cn_localUfrag s" "cn_localPwd (SendIceBindingRequests lib txn io s) = cn_localPwd s"
  "cn_localSsrc (SendIceBindingRequests lib txn io s) = cn_localSsrc s"
  "cn_localFingerprint (SendIceBindingRequests lib txn io s) = cn_localFingerprint s"
  "cn_localSetupRole (SendIceBindingRequests lib txn io s) = cn_localSetupRole s"
  "cn_peerFingerprint (SendIceBindingRequests lib txn io s) = cn_peerFingerprint s"
  "cn_peerUfrag (SendIceBindingRequests lib txn io s) = cn_peerUfrag s" "cn_peerPwd (SendIceBindingRequests lib txn io s) = cn_peerPwd s"
  "cn_peerSetup (SendIceBindingRequests lib txn io s) = cn_peerSetup s"
  "cn_peerInitialReceived (SendIceBindingRequests lib txn io s) = cn_peerInitialReceived s"
  "cn_peerCandidates (SendIceBindingRequests lib txn io s) = cn_peerCandidates s"
  "cn_rxPackets (SendIceBindingRequests lib txn io s) = cn_rxPackets s" "cn_muted (SendIceBindingRequests lib txn io s) = cn_muted s"
  "cn_outgoingSeq (SendIceBindingRequests lib txn io s) = cn_outgoingSeq s"
  "cn_outgoingTimestamp (SendIceBindingRequests lib txn io s) = cn_outgoingTimestamp s"
  "cn_remoteSsrc (SendIceBindingRequests lib txn io s) = cn_remoteSsrc s" "cn_socket (SendIceBindingRequests lib txn io s) = cn_socket s"
  "cn_localUdpPort (SendIceBindingRequests lib txn io s) = cn_localUdpPort s"
  by (simp_all add: SendIceBindingRequests_def split: option.split prod.split)

lemma TransitionTo_fields [simp]:
  "cn_srtpReady (TransitionTo x s) = cn_srtpReady s" "cn_srtpOutgoing (TransitionTo x s) = cn_srtpOutgoing s"
  "cn_srtpIncoming (TransitionTo x s) = cn_srtpIncoming s" "cn_audio (TransitionTo x s) = cn_audio s" "cn_codec (TransitionTo x s) = cn_codec s"
  "cn_dtls (TransitionTo x s) = cn_dtls s" "cn_audioLoopActive (TransitionTo x s) = cn_audioLoopActive s"
  "cn_audioCaptureThread (TransitionTo x s) = cn_audioCaptureThread s" "cn_iceAgent (TransitionTo x s) = cn_iceAgent s"
  "cn_iceStarted (TransitionTo x s) = cn_iceStarted s" "cn_iceAttempts (TransitionTo x s) = cn_iceAttempts s"
  "cn_iceRetryTimer (TransitionTo x s) = cn_iceRetryTimer s" "cn_timerRuns (TransitionTo x s) = cn_timerRuns s"
  "cn_hasStateChanged (TransitionTo x s) = cn_hasStateChanged s" "cn_hasSignalingOut (TransitionTo x s) = cn_hasSignalingOut s"
  "cn_outgoingSignalingSeq (TransitionTo x s) = cn_outgoingSignalingSeq s" "cn_signaled (TransitionTo x s) = cn_signaled s"
  "cn_sharedKey (TransitionTo x s) = cn_sharedKey s" "cn_isOutgoing (TransitionTo x s) = cn_isOutgoing s"
  "cn_stopped (TransitionTo x s) = cn_stopped s" "cn_reflectors (TransitionTo x s) = cn_reflectors s"
  "cn_localCert (TransitionTo x s) = cn_localCert s" "cn_localUfrag (TransitionTo x s) = cn_localUfrag s"
  "cn_localPwd (TransitionTo x s) = cn_localPwd s" "cn_localSsrc (TransitionTo x s) = cn_localSsrc s"
  "cn_localFingerprint (TransitionTo x s) = cn_localFingerprint s" "cn_localSetupRole (TransitionTo x s) = cn_localSetupRole s"
  "cn_peerFingerprint (TransitionTo x s) = cn_peerFingerprint s" "cn_peerUfrag (TransitionTo x s) = cn_peerUfrag s"
  "cn_peerPwd (TransitionTo x s) = cn_peerPwd s" "cn_peerSetup (TransitionTo x s) = cn_peerSetup s"
  "cn_peerInitialReceived (TransitionTo x s) = cn_peerInitialReceived s" "cn_peerCandidates (TransitionTo x s) = cn_peerCandidates s"
  "cn_rxPackets (TransitionTo x s) = cn_rxPackets s" "cn_muted (TransitionTo x s) = cn_muted s" "cn_outgoingSeq (TransitionTo x s) = cn_outgoingSeq s"
  "cn_outgoingTimestamp (TransitionTo x s) = cn_outgoingTimestamp s" "cn_remoteSsrc (TransitionTo x s) = cn_remoteSsrc s"
  "cn_socket (TransitionTo x s) = cn_socket s" "cn_localUdpPort (TransitionTo x s) = cn_localUdpPort s"
  by (simp_all add: TransitionTo_def Let_def)

lemma TransitionTo_state [simp]: "cn_state (TransitionTo x s) = x"
  by (simp add: TransitionTo_def Let_def)

lemma StopIceRetryTimer_fields [simp]:
  "cn_state (StopIceRetryTimer s) = cn_state s" "cn_srtpReady (StopIceRetryTimer s) = cn_srtpReady s"
  "cn_srtpOutgoing (StopIceRetryTimer s) = cn_srtpOutgoing s" "cn_srtpIncoming (StopIceRetryTimer s) = cn_srtpIncoming s"
  "cn_audio (StopIceRetryTimer s) = cn_audio s" "cn_codec (StopIceRetryTimer s) = cn_codec s" "cn_dtls (StopIceRetryTimer s) = cn_dtls s"
  "cn_audioLoopActive (StopIceRetryTimer s) = cn_audioLoopActive s" "cn_audioCaptureThread (StopIceRetryTimer s) = cn_audioCaptureThread s"
  "cn_iceAgent (StopIceRetryTimer s) = cn_iceAgent s" "cn_iceStarted (StopIceRetryTimer s) = cn_iceStarted s"
  "cn_iceAttempts (StopIceRetryTimer s) = cn_iceAttempts s" "cn_hasStateChanged (StopIceRetryTimer s) = cn_hasStateChanged s"
  "cn_hasSignalingOut (StopIceRetryTimer s) = cn_hasSignalingOut s" "cn_notified (StopIceRetryTimer s) = cn_notified s"
  "cn_outgoingSignalingSeq (StopIceRetryTimer s) = cn_outgoingSignalingSeq s" "cn_signaled (StopIceRetryTimer s) = cn_signaled s"
  "cn_sharedKey (StopIceRetryTimer s) = cn_sharedKey s" "cn_isOutgoing (StopIceRetryTimer s) = cn_isOutgoing s"
  "cn_stopped (StopIceRetryTimer s) = cn_stopped s" "cn_reflectors (StopIceRetryTimer s) = cn_reflectors s"
  "cn_localCert (StopIceRetryTimer s) = cn_localCert s" "cn_localUfrag (StopIceRetryTimer s) = cn_localUfrag s"
  "cn_localPwd (StopIceRetryTimer s) = cn_localPwd s" "cn_localSsrc (StopIceRetryTimer s) = cn_localSsrc s"
  "cn_localFingerprint (StopIceRetryTimer s) = cn_localFingerprint s" "cn_localSetupRole (StopIceRetryTimer s) = cn_localSetupRole s"
  "cn_peerFingerprint (StopIceRetryTimer s) = cn_peerFingerprint s" "cn_peerUfrag (StopIceRetryTimer s) = cn_peerUfrag s"
  "cn_peerPwd (StopIceRetryTimer s) = cn_peerPwd s" "cn_peerSetup (StopIceRetryTimer s) = cn_peerSetup s"
  "cn_peerInitialReceived (StopIceRetryTimer s) = cn_peerInitialReceived s" "cn_peerCandidates (StopIceRetryTimer s) = cn_peerCandidates s"
  "cn_rxPackets (StopIceRetryTimer s) = cn_rxPackets s" "cn_muted (StopIceRetryTimer s) = cn_muted s"
  "cn_outgoingSeq (StopIceRetryTimer s) = cn_outgoingSeq s" "cn_outgoingTimestamp (StopIceRetryTimer s) = cn_outgoingTimestamp s"
  "cn_remoteSsrc (StopIceRetryTimer s) = cn_remoteSsrc s" "cn_socket (StopIceRetryTimer s) = cn_socket s"
  "cn_localUdpPort (StopIceRetryTimer s) = cn_localUdpPort s"
  by (simp_all add: StopIceRetryTimer_def)

lemma StartIceRetryTimer_fields [simp]:
  "cn_state (StartIceRetryTimer s) = cn_state s" "cn_srtpReady (StartIceRetryTimer s) = cn_srtpReady s"
  "cn_srtpOutgoing (StartIceRetryTimer s) = cn_srtpOutgoing s" "cn_srtpIncoming (StartIceRetryTimer s) = cn_srtpIncoming s"
  "cn_audio (StartIceRetryTimer s) = cn_audio s" "cn_codec (StartIceRetryTimer s) = cn_codec s" "cn_dtls (StartIceRetryTimer s) = cn_dtls s"
  "cn_audioLoopActive (StartIceRetryTimer s) = cn_audioLoopActive s" "cn_audioCaptureThread (StartIceRetryTimer s) = cn_audioCaptureThread s"
  "cn_iceAgent (StartIceRetryTimer s) = cn_iceAgent s" "cn_iceStarted (StartIceRetryTimer s) = cn_iceStarted s"
  "cn_iceAttempts (StartIceRetryTimer s) = cn_iceAttempts s" "cn_hasStateChanged (StartIceRetryTimer s) = cn_hasStateChanged s"
  "cn_hasSignalingOut (StartIceRetryTimer s) = cn_hasSignalingOut s" "cn_notified (StartIceRetryTimer s) = cn_notified s"
  "cn_outgoingSignalingSeq (StartIceRetryTimer s) = cn_outgoingSignalingSeq s" "cn_signaled (StartIceRetryTimer s) = cn_signaled s"
  "cn_sharedKey (StartIceRetryTimer s) = cn_sharedKey s" "cn_isOutgoing (StartIceRetryTimer s) = cn_isOutgoing s"
  "cn_stopped (StartIceRetryTimer s) = cn_stopped s" "cn_reflectors (StartIceRetryTimer s) = cn_reflectors s"
  "cn_localCert (StartIceRetryTimer s) = cn_localCert s" "cn_localUfrag (StartIceRetryTimer s) = cn_localUfrag s"
  "cn_localPwd (StartIceRetryTimer s) = cn_localPwd s" "cn_localSsrc (StartIceRetryTimer s) = cn_localSsrc s"
  "cn_localFingerprint (StartIceRetryTimer s) = cn_localFingerprint s" "cn_localSetupRole (StartIceRetryTimer s) = cn_localSetupRole s"
  "cn_peerFingerprint (StartIceRetryTimer s) = cn_peerFingerprint s" "cn_peerUfrag (StartIceRetryTimer s) = cn_peerUfrag s"
  "cn_peerPwd (StartIceRetryTimer s) = cn_peerPwd s" "cn_peerSetup (StartIceRetryTimer s) = cn_peerSetup s"
  "cn_peerInitialReceived (StartIceRetryTimer s) = cn_peerInitialReceived s" "cn_peerCandidates (StartIceRetryTimer s) = cn_peerCandidates s"
  "cn_rxPackets (StartIceRetryTimer s) = cn_rxPackets s" "cn_muted (StartIceRetryTimer s) = cn_muted s"
  "cn_outgoingSeq (StartIceRetryTimer s) = cn_outgoingSeq s" "cn_outgoingTimestamp (StartIceRetryTimer s) = cn_outgoingTimestamp s"
  "cn_remoteSsrc (StartIceRetryTimer s) = cn_remoteSsrc s" "cn_socket (StartIceRetryTimer s) = cn_socket s"
  "cn_localUdpPort (StartIceRetryTimer s) = cn_localUdpPort s"
  "cn_iceRetryTimer (StartIceRetryTimer s)" "cn_timerRuns (StartIceRetryTimer s)"
  by (simp_all add: StartIceRetryTimer_def)


lemma StartIcePhase_fields [simp]:
  "cn_state (StartIcePhase lib env s) = cn_state s" "cn_srtpReady (StartIcePhase lib env s) = cn_srtpReady s"
  "cn_srtpOutgoing (StartIcePhase lib env s) = cn_srtpOutgoing s" "cn_srtpIncoming (StartIcePhase lib env s) = cn_srtpIncoming s"
  "cn_audio (StartIcePhase lib env s) = cn_audio s" "cn_codec (StartIcePhase lib env s) = cn_codec s" "cn_dtls (StartIcePhase lib env s) = cn_dtls s"
  "cn_audioLoopActive (StartIcePhase lib env s) = cn_audioLoopActive s" "cn_audioCaptureThread (StartIcePhase lib env s) = cn_audioCaptureThread s"
  "cn_hasStateChanged (StartIcePhase lib env s) = cn_hasStateChanged s" "cn_hasSignalingOut (StartIcePhase lib env s) = cn_hasSignalingOut s"
  "cn_notified (StartIcePhase lib env s) = cn_notified s" "cn_sharedKey (StartIcePhase lib env s) = cn_sharedKey s"
  "cn_isOutgoing (StartIcePhase lib env s) = cn_isOutgoing s" "cn_stopped (StartIcePhase lib env s) = cn_stopped s"
  "cn_reflectors (StartIcePhase lib env s) = cn_reflectors s" "cn_localCert (StartIcePhase lib env s) = cn_localCert s"
  "cn_localUfrag (StartIcePhase lib env s) = cn_localUfrag s" "cn_localPwd (StartIcePhase lib env s) = cn_localPwd s"
  "cn_localSsrc (StartIcePhase lib env s) = cn_localSsrc s" "cn_localFingerprint (StartIcePhase lib env s) = cn_localFingerprint s"
  "cn_localSetupRole (StartIcePhase lib env s) = cn_localSetupRole s" "cn_peerFingerprint (StartIcePhase lib env s) = cn_peerFingerprint s"
  "cn_peerUfrag (StartIcePhase lib env s) = cn_peerUfrag s" "cn_peerPwd (StartIcePhase lib env s) = cn_peerPwd s"
  "cn_peerSetup (StartIcePhase lib env s) = cn_peerSetup s" "cn_peerInitialReceived (StartIcePhase lib env s) = cn_peerInitialReceived s"
  "cn_peerCandidates (StartIcePhase lib env s) = cn_peerCandidates s" "cn_rxPackets (StartIcePhase lib env s) = cn_rxPackets s"
  "cn_muted (StartIcePhase lib env s) = cn_muted s" "cn_outgoingSeq (StartIcePhase lib env s) = cn_outgoingSeq s"
  "cn_outgoingTimestamp (StartIcePhase lib env s) = cn_outgoingTimestamp s" "cn_remoteSsrc (StartIcePhase lib env s) = cn_remoteSsrc s"
  "cn_socket (StartIcePhase lib env s) = cn_socket s" "cn_localUdpPort (StartIcePhase lib env s) = cn_localUdpPort s"
  by (simp_all add: StartIcePhase_def Let_def EmitCandidates_def)

lemma OnPeerInitialSetup_fields [simp]:
  "cn_state (OnPeerInitialSetup lib env m s) = cn_state s" "cn_srtpReady (OnPeerInitialSetup lib env m s) = cn_srtpReady s"
  "cn_srtpOutgoing (OnPeerInitialSetup lib env m s) = cn_srtpOutgoing s" "cn_srtpIncoming (OnPeerInitialSetup lib env m s) = cn_srtpIncoming s"
  "cn_audio (OnPeerInitialSetup lib env m s) = cn_audio s" "cn_codec (OnPeerInitialSetup lib env m s) = cn_codec s"
  "cn_dtls (OnPeerInitialSetup lib env m s) = cn_dtls s" "cn_audioLoopActive (OnPeerInitialSetup lib env m s) = cn_audioLoopActive s"
  "cn_audioCaptureThread (OnPeerInitialSetup lib env m s) = cn_audioCaptureThread s"
  "cn_hasStateChanged (OnPeerInitialSetup lib env m s) = cn_hasStateChanged s"
  "cn_hasSignalingOut (OnPeerInitialSetup lib env m s) = cn_hasSignalingOut s" "cn_notified (OnPeerInitialSetup lib env m s) = cn_notified s"
  "cn_sharedKey (OnPeerInitialSetup lib env m s) = cn_sharedKey s" "cn_isOutgoing (OnPeerInitialSetup lib env m s) = cn_isOutgoing s"
  "cn_stopped (OnPeerInitialSetup lib env m s) = cn_stopped s" "cn_reflectors (OnPeerInitialSetup lib env m s) = cn_reflectors s"
  "cn_localCert (OnPeerInitialSetup lib env m s) = cn_localCert s" "cn_localUfrag (OnPeerInitialSetup lib env m s) = cn_localUfrag s"
  "cn_localPwd (OnPeerInitialSetup lib env m s) = cn_localPwd s" "cn_localSsrc (OnPeerInitialSetup lib env m s) = cn_localSsrc s"
  "cn_localFingerprint (OnPeerInitialSetup lib env m s) = cn_localFingerprint s" "cn_rxPackets (OnPeerInitialSetup lib env m s) = cn_rxPackets s"
  "cn_muted (OnPeerInitialSetup lib env m s) = cn_muted s" "cn_outgoingSeq (OnPeerInitialSetup lib env m s) = cn_outgoingSeq s"
  "cn_outgoingTimestamp (OnPeerInitialSetup lib env m s) = cn_outgoingTimestamp s" "cn_remoteSsrc (OnPeerInitialSetup lib env m s) = cn_remoteSsrc s"
  "cn_socket (OnPeerInitialSetup lib env m s) = cn_socket s" "cn_localUdpPort (OnPeerInitialSetup lib env m s) = cn_localUdpPort s"
  by (simp_all add: OnPeerInitialSetup_def Let_def)

lemma OnPeerCandidates_fields [simp]:
  "cn_state (OnPeerCandidates lib env m s) = cn_state s" "cn_srtpReady (OnPeerCandidates lib env m s) = cn_srtpReady s"
  "cn_srtpOutgoing (OnPeerCandidates lib env m s) = cn_srtpOutgoing s" "cn_srtpIncoming (OnPeerCandidates lib env m s) = cn_srtpIncoming s"
  "cn_audio (OnPeerCandidates lib env m s) = cn_audio s" "cn_codec (OnPeerCandidates lib env m s) = cn_codec s"
  "cn_dtls (OnPeerCandidates lib env m s) = cn_dtls s" "cn_audioLoopActive (OnPeerCandidates lib env m s) = cn_audioLoopActive s"
  "cn_audioCaptureThread (OnPeerCandidates lib env m s) = cn_audioCaptureThread s"
  "cn_hasStateChanged (OnPeerCandidates lib env m s) = cn_hasStateChanged s"
  "cn_hasSignalingOut (OnPeerCandidates lib env m s) = cn_hasSignalingOut s" "cn_notified (OnPeerCandidates lib env m s) = cn_notified s"
  "cn_sharedKey (OnPeerCandidates lib env m s) = cn_sharedKey s" "cn_isOutgoing (OnPeerCandidates lib env m s) = cn_isOutgoing s"
  "cn_stopped (OnPeerCandidates lib env m s) = cn_stopped s" "cn_reflectors (OnPeerCandidates lib env m s) = cn_reflectors s"
  "cn_localCert (OnPeerCandidates lib env m s) = cn_localCert s" "cn_localUfrag (OnPeerCandidates lib env m s) = cn_localUfrag s"
  "cn_localPwd (OnPeerCandidates lib env m s) = cn_localPwd s" "cn_localSsrc (OnPeerCandidates lib env m s) = cn_localSsrc s"
  "cn_localFingerprint (OnPeerCandidates lib env m s) = cn_localFingerprint s"
  "cn_localSetupRole (OnPeerCandidates lib env m s) = cn_localSetupRole s" "cn_peerFingerprint (OnPeerCandidates lib env m s) = cn_peerFingerprint s"
  "cn_peerUfrag (OnPeerCandidates lib env m s) = cn_peerUfrag s" "cn_peerPwd (OnPeerCandidates lib env m s) = cn_peerPwd s"
  "cn_peerSetup (OnPeerCandidates lib env m s) = cn_peerSetup s" "cn_peerInitialReceived (OnPeerCandidates lib env m s) = cn_peerInitialReceived s"
  "cn_rxPackets (OnPeerCandidates lib env m s) = cn_rxPackets s" "cn_muted (OnPeerCandidates lib env m s) = cn_muted s"
  "cn_outgoingSeq (OnPeerCandidates lib env m s) = cn_outgoingSeq s" "cn_outgoingTimestamp (OnPeerCandidates lib env m s) = cn_outgoingTimestamp s"
  "cn_remoteSsrc (OnPeerCandidates lib env m s) = cn_remoteSsrc s" "cn_socket (OnPeerCandidates lib env m s) = cn_socket s"
  "cn_localUdpPort (OnPeerCandidates lib env m s) = cn_localUdpPort s"
  by (simp_all add: OnPeerCandidates_def Let_def)

lemma dispatch_signaling_fields [simp]:
  "cn_state (dispatch_signaling lib env m s) = cn_state s" "cn_srtpReady (dispatch_signaling lib env m s) = cn_srtpReady s"
  "cn_srtpOutgoing (dispatch_signaling lib env m s) = cn_srtpOutgoing s" "cn_srtpIncoming (dispatch_signaling lib env m s) = cn_srtpIncoming s"
  "cn_audio (dispatch_signaling lib env m s) = cn_audio s" "cn_codec (dispatch_signaling lib env m s) = cn_codec s"
  "cn_dtls (dispatch_signaling lib env m s) = cn_dtls s" "cn_audioLoopActive (dispatch_signaling lib env m s) = cn_audioLoopActive s"
  "cn_audioCaptureThread (dispatch_signaling lib env m s) = cn_audioCaptureThread s"
  "cn_hasStateChanged (dispatch_signaling lib env m s) = cn_hasStateChanged s"
  "cn_hasSignalingOut (dispatch_signaling lib env m s) = cn_hasSignalingOut s" "cn_notified (dispatch_signaling lib env m s) = cn_notified s"
  "cn_sharedKey (dispatch_signaling lib env m s) = cn_sharedKey s" "cn_isOutgoing (dispatch_signaling lib env m s) = cn_isOutgoing s"
  "cn_stopped (dispatch_signaling lib env m s) = cn_stopped s" "cn_reflectors (dispatch_signaling lib env m s) = cn_reflectors s"
  "cn_localCert (dispatch_signaling lib env m s) = cn_localCert s" "cn_localUfrag (dispatch_signaling lib env m s) = cn_localUfrag s"
  "cn_localPwd (dispatch_signaling lib env m s) = cn_localPwd s" "cn_localSsrc (dispatch_signaling lib env m s) = cn_localSsrc s"
  "cn_localFingerprint (dispatch_signaling lib env m s) = cn_localFingerprint s" "cn_rxPackets (dispatch_signaling lib env m s) = cn_rxPackets s"
  "cn_muted (dispatch_signaling lib env m s) = cn_muted s" "cn_outgoingSeq (dispatch_signaling lib env m s) = cn_outgoingSeq s"
  "cn_outgoingTimestamp (dispatch_signaling lib env m s) = cn_outgoingTimestamp s" "cn_remoteSsrc (dispatch_signaling lib env m s) = cn_remoteSsrc s"
  "cn_socket (dispatch_signaling lib env m s) = cn_socket s" "cn_localUdpPort (dispatch_signaling lib env m s) = cn_localUdpPort s"
  by (simp_all add: dispatch_signaling_def OnPeerPing_def OnPeerMediaState_def split: TgcallsMessageType.split)


section \<open>The invariant of a connection\<close>

definition media_ok :: "TgcallsConnection \<Rightarrow> bool" where
  "media_ok s \<longleftrightarrow>
     (cn_srtpReady s \<longleftrightarrow> cn_srtpOutgoing s \<noteq> None) \<and> (cn_srtpReady s \<longleftrightarrow> cn_srtpIncoming s \<noteq> None)
     \<and> (cn_srtpReady s \<longrightarrow> cn_audio s \<noteq> None \<and> cn_codec s \<noteq> None \<and> cn_dtls s \<noteq> None)
     \<and> (cn_state s = TgConnected \<or> cn_audioLoopActive s \<longrightarrow> cn_srtpReady s)
     \<and> pred_option dc_ok (cn_dtls s) \<and> pred_option ad_inv (cn_audio s)
     \<and> pred_option (\<lambda>p. RolloverCounter p = 0) (cn_srtpIncoming s)"

definition ice_ok :: "TgcallsConnection \<Rightarrow> bool" where
  "ice_ok s \<longleftrightarrow> cn_iceAttempts s \<le> 20 \<and> pred_option ice_inv (cn_iceAgent s)"

definition notify_ok :: "TgcallsConnection \<Rightarrow> bool" where
  "notify_ok s \<longleftrightarrow>
     (cn_state s = TgStopped \<longrightarrow> cn_stopped s)
     \<and> (cn_hasStateChanged s \<longrightarrow>
          last (TgConnecting # cn_notified s) = cn_state s \<and> distinct_adj (TgConnecting # cn_notified s))"

definition signal_ok :: "TgcallsConnection \<Rightarrow> bool" where
  "signal_ok s \<longleftrightarrow>
     (length (cn_sharedKey s) = kSharedKeySize \<longrightarrow> cn_outgoingSignalingSeq s = of_nat (length (cn_signaled s)))"

definition conn_inv :: "TgcallsConnection \<Rightarrow> bool" where
  "conn_inv s \<longleftrightarrow> media_ok s \<and> ice_ok s \<and> notify_ok s \<and> signal_ok s"

lemma conn_inv_new: "conn_inv (TgcallsConnection_new params b c)"
  by (simp add: conn_inv_def media_ok_def ice_ok_def notify_ok_def signal_ok_def TgcallsConnection_new_def)

lemma distinct_adj_snoc: "distinct_adj (a # xs @ [x]) \<longleftrightarrow> distinct_adj (a # xs) \<and> last (a # xs) \<noteq> x"
  using distinct_adj_append_iff [of "a # xs" "[x]"] by simp

lemma notify_TransitionTo: "notify_ok s \<Longrightarrow> x \<noteq> TgStopped \<Longrightarrow> notify_ok (TransitionTo x s)"
  by (simp add: notify_ok_def TransitionTo_def Let_def distinct_adj_snoc)

lemma env_Encrypt_nonempty:
  assumes "length key = 256" and "ms \<noteq> []"
  shows "env_Encrypt sha enc key out sq ms \<noteq> []"
proof -
  have "16 \<le> length (sig_Encrypt sha enc key out o2 body)" for o2 body
    using assms(1) by (simp add: sig_Encrypt_def sig_kSharedKeyBytes_def Let_def split: prod.split)
  then have "sig_Encrypt sha enc key out o2 body \<noteq> []" for o2 body
    by (metis list.size(3) not_numeral_le_zero)
  then show ?thesis using assms(2) by (simp add: env_Encrypt_def Let_def)
qed

lemma signal_EmitMessages: "signal_ok s \<Longrightarrow> signal_ok (snd (EmitMessages lib ms s))"
  by (auto simp: signal_ok_def EmitMessages_def Let_def kSharedKeySize_def env_Encrypt_nonempty)


lemma ok_unchanged:
  "media_ok (SendViaReflector io p s) = media_ok s" "ice_ok (SendViaReflector io p s) = ice_ok s"
  "notify_ok (SendViaReflector io p s) = notify_ok s" "signal_ok (SendViaReflector io p s) = signal_ok s"
  "media_ok (PumpDtls ios ds s) = media_ok s" "ice_ok (PumpDtls ios ds s) = ice_ok s"
  "notify_ok (PumpDtls ios ds s) = notify_ok s" "signal_ok (PumpDtls ios ds s) = signal_ok s"
  "media_ok (snd (EmitMessages lib ms s)) = media_ok s" "ice_ok (snd (EmitMessages lib ms s)) = ice_ok s"
  "notify_ok (snd (EmitMessages lib ms s)) = notify_ok s"
  "media_ok (SendIceBindingRequests lib txn ios s) = media_ok s"
  "notify_ok (SendIceBindingRequests lib txn ios s) = notify_ok s"
  "signal_ok (SendIceBindingRequests lib txn ios s) = signal_ok s"
  "ice_ok (TransitionTo x s) = ice_ok s" "signal_ok (TransitionTo x s) = signal_ok s"
  "media_ok (StopIceRetryTimer s) = media_ok s" "ice_ok (StopIceRetryTimer s) = ice_ok s"
  "notify_ok (StopIceRetryTimer s) = notify_ok s" "signal_ok (StopIceRetryTimer s) = signal_ok s"
  "ice_ok (StartIceRetryTimer s) = ice_ok s" "signal_ok (StartIceRetryTimer s) = signal_ok s"
  "media_ok (StartIcePhase lib env s) = media_ok s" "notify_ok (StartIcePhase lib env s) = notify_ok s"
  by (simp_all add: media_ok_def ice_ok_def notify_ok_def signal_ok_def)

lemma media_TransitionTo: "media_ok s \<Longrightarrow> x \<noteq> TgConnected \<or> cn_srtpReady s \<Longrightarrow> media_ok (TransitionTo x s)"
  by (auto simp: media_ok_def)

lemma ice_SendIceBindingRequests: "ice_ok s \<Longrightarrow> ice_ok (SendIceBindingRequests lib txn ios s)"
proof (cases "cn_iceAgent s")
  case (Some a)
  assume "ice_ok s"
  then show ?thesis
    using ice_inv_requests [of a "cl_HmacSha1 lib" txn] Some
    by (simp add: SendIceBindingRequests_def ice_ok_def split_beta)
qed (simp add: SendIceBindingRequests_def)

lemma ice_inv_fold: "ice_inv a \<Longrightarrow> ice_inv (fold AddRemoteCandidate cs a)"
  by (induction cs arbitrary: a) (simp_all add: ice_inv_AddRemoteCandidate)

lemma ok_StartIcePhase:
  assumes "ice_ok s" and "signal_ok s"
  shows "ice_ok (StartIcePhase lib env s) \<and> signal_ok (StartIcePhase lib env s)"
proof -
  define s1 where "s1 = (if cn_iceStarted s then s else snd (EmitCandidates lib (me_hosts env) s))"
  have s1: "ice_ok s1" "signal_ok s1"
    using assms by (simp_all add: s1_def EmitCandidates_def ok_unchanged signal_EmitMessages)
  define a where "a = fold AddRemoteCandidate (List.map_filter agent_candidate (cn_peerCandidates s1))
      (IceAgent_new (if cn_isOutgoing s1 then IceAgentRole_Controlling else IceAgentRole_Controlled)
        (cn_localUfrag s1) (cn_localPwd s1) (cn_peerUfrag s1) (cn_peerPwd s1) (me_tieBreak env))"
  define s2 where "s2 = s1\<lparr>cn_iceStarted := True, cn_iceAgent := Some a, cn_iceAttempts := 0\<rparr>"
  have "ice_ok s2" "signal_ok s2"
    using s1 by (simp_all add: s2_def ice_ok_def signal_ok_def a_def ice_inv_fold ice_inv_new)
  moreover have "StartIcePhase lib env s \<in> {s, s1, StartIceRetryTimer (SendIceBindingRequests lib (me_txn env) (me_sends env) s2)}"
    unfolding s2_def a_def s1_def by (simp add: StartIcePhase_def Let_def)
  ultimately show ?thesis
    using assms s1 ice_SendIceBindingRequests by (auto simp: ok_unchanged)
qed

lemma inv_StartIcePhase: "conn_inv s \<Longrightarrow> conn_inv (StartIcePhase lib env s)"
  using ok_StartIcePhase [of s] by (simp add: conn_inv_def ok_unchanged)

lemma inv_updates [simp]:
  "conn_inv (s\<lparr>cn_peerInitialReceived := v0\<rparr>) = conn_inv s" "conn_inv (s\<lparr>cn_peerUfrag := v1\<rparr>) = conn_inv s"
  "conn_inv (s\<lparr>cn_peerPwd := v2\<rparr>) = conn_inv s" "conn_inv (s\<lparr>cn_peerFingerprintHash := v3\<rparr>) = conn_inv s"
  "conn_inv (s\<lparr>cn_peerFingerprint := v4\<rparr>) = conn_inv s" "conn_inv (s\<lparr>cn_peerSetup := v5\<rparr>) = conn_inv s"
  "conn_inv (s\<lparr>cn_localSetupRole := v6\<rparr>) = conn_inv s" "conn_inv (s\<lparr>cn_peerCandidates := v7\<rparr>) = conn_inv s"
  "conn_inv (s\<lparr>cn_turnClients := v8\<rparr>) = conn_inv s" "conn_inv (s\<lparr>cn_rxPackets := v9\<rparr>) = conn_inv s"
  "conn_inv (s\<lparr>cn_rxBytes := v10\<rparr>) = conn_inv s" "conn_inv (s\<lparr>cn_remoteSsrc := v11\<rparr>) = conn_inv s"
  "conn_inv (s\<lparr>cn_outgoingSeq := v12\<rparr>) = conn_inv s" "conn_inv (s\<lparr>cn_outgoingTimestamp := v13\<rparr>) = conn_inv s"
  "conn_inv (s\<lparr>cn_muted := v14\<rparr>) = conn_inv s" "conn_inv (s\<lparr>cn_speakerOn := v15\<rparr>) = conn_inv s"
  "conn_inv (s\<lparr>cn_localCert := v16\<rparr>) = conn_inv s" "conn_inv (s\<lparr>cn_localFingerprint := v17\<rparr>) = conn_inv s"
  "conn_inv (s\<lparr>cn_localUfrag := v18\<rparr>) = conn_inv s" "conn_inv (s\<lparr>cn_localPwd := v19\<rparr>) = conn_inv s"
  "conn_inv (s\<lparr>cn_localSsrc := v20\<rparr>) = conn_inv s" "conn_inv (s\<lparr>cn_localUdpPort := v21\<rparr>) = conn_inv s"
  "conn_inv (s\<lparr>cn_transport := v22\<rparr>) = conn_inv s" "conn_inv (s\<lparr>cn_audioCaptureThread := v23\<rparr>) = conn_inv s"
  by (simp_all add: conn_inv_def media_ok_def ice_ok_def notify_ok_def signal_ok_def)

lemma inv_dispatch: "conn_inv s \<Longrightarrow> conn_inv (dispatch_signaling lib env m s)"
proof -
  assume inv: "conn_inv s"
  have initial: "conn_inv (OnPeerInitialSetup lib env x s)" for x
    unfolding OnPeerInitialSetup_def Let_def
    by (rule inv_StartIcePhase) (use inv in simp)
  have cands: "conn_inv (OnPeerCandidates lib env x s)" for x
    unfolding OnPeerCandidates_def Let_def
    by (rule inv_StartIcePhase) (use inv in simp)
  have ping: "conn_inv (OnPeerPing lib x s)" for x
    using inv by (simp add: OnPeerPing_def conn_inv_def ok_unchanged signal_EmitMessages)
  show ?thesis
    using initial cands ping inv
    by (simp add: dispatch_signaling_def OnPeerMediaState_def split: TgcallsMessageType.split)
qed

lemma inv_dispatch_all: "conn_inv s \<Longrightarrow> conn_inv (dispatch_all lib env i ms s)"
  by (induction ms arbitrary: i s) (simp_all add: inv_dispatch)

lemma inv_HandleIncomingSignaling:
  "HandleIncomingSignaling lib env bs s = Some (e, s') \<Longrightarrow> conn_inv s \<Longrightarrow> conn_inv s'"
  by (auto simp: HandleIncomingSignaling_def inv_dispatch_all split: if_splits bind_splits)


lemmas conn_ok_defs = conn_inv_def media_ok_def ice_ok_def notify_ok_def signal_ok_def

lemma inv_unchanged [simp]:
  "conn_inv (SendViaReflector io p s) = conn_inv s" "conn_inv (PumpDtls ios ds s) = conn_inv s"
  "conn_inv (StopIceRetryTimer s) = conn_inv s"
  by (simp_all add: conn_inv_def ok_unchanged)

lemma inv_EmitMessages: "conn_inv s \<Longrightarrow> conn_inv (snd (EmitMessages lib ms s))"
  by (simp add: conn_inv_def ok_unchanged signal_EmitMessages)

lemma inv_TransitionTo:
  "conn_inv s \<Longrightarrow> x \<noteq> TgStopped \<Longrightarrow> x \<noteq> TgConnected \<or> cn_srtpReady s \<Longrightarrow> conn_inv (TransitionTo x s)"
  by (simp add: conn_inv_def ok_unchanged media_TransitionTo notify_TransitionTo)

lemma inv_dtls: "conn_inv s \<Longrightarrow> dc_ok d \<Longrightarrow> conn_inv (s\<lparr>cn_dtls := Some d\<rparr>)"
  by (auto simp: conn_ok_defs)

lemma inv_audio: "conn_inv s \<Longrightarrow> ad_inv d \<Longrightarrow> conn_inv (s\<lparr>cn_audio := Some d\<rparr>)"
  by (auto simp: conn_ok_defs)

lemma inv_ice: "conn_inv s \<Longrightarrow> ice_inv a \<Longrightarrow> conn_inv (s\<lparr>cn_iceAgent := Some a\<rparr>)"
  by (auto simp: conn_ok_defs)

lemma inv_get:
  "conn_inv s \<Longrightarrow> cn_dtls s = Some d \<Longrightarrow> dc_ok d"
  "conn_inv s \<Longrightarrow> cn_audio s = Some a \<Longrightarrow> ad_inv a"
  "conn_inv s \<Longrightarrow> cn_iceAgent s = Some i \<Longrightarrow> ice_inv i"
  "conn_inv s \<Longrightarrow> cn_srtpIncoming s = Some p \<Longrightarrow> RolloverCounter p = 0"
  "conn_inv s \<Longrightarrow> cn_state s = TgConnected \<Longrightarrow> cn_srtpReady s"
  by (auto simp: conn_ok_defs)

lemma inv_StartDtlsPhase: "conn_inv s \<Longrightarrow> conn_inv (StartDtlsPhase env s)"
proof -
  assume inv: "conn_inv s"
  obtain rnd priv pub where e: "de_initiate env = (rnd, priv, pub)" by (cases "de_initiate env")
  show ?thesis
  proof (cases "cn_localCert s")
    case None
    then show ?thesis using inv by (simp add: StartDtlsPhase_def Let_def inv_TransitionTo)
  next
    case (Some kp)
    obtain d fl where i: "Initiate rnd priv pub (DtlsClientSession_new kp (cn_peerFingerprint s)) = (d, fl)"
      by fastforce
    have "dc_ok d" using dc_ok_Initiate [OF dc_ok_new, of rnd priv pub kp "cn_peerFingerprint s"] i by simp
    then show ?thesis using inv Some i by (simp add: StartDtlsPhase_def Let_def e inv_TransitionTo inv_dtls)
  qed
qed

lemma inv_OnIceConnected: "conn_inv s \<Longrightarrow> conn_inv (OnIceConnected env s)"
  by (simp add: OnIceConnected_def inv_StartDtlsPhase)

lemma inv_srtp:
  assumes "conn_inv s" and "cn_dtls s \<noteq> None" and "ad_inv a" and "RolloverCounter q = 0"
  shows "conn_inv (s\<lparr>cn_srtpOutgoing := Some p, cn_srtpIncoming := Some q, cn_srtpReady := True,
    cn_audio := Some a, cn_codec := Some c\<rparr>)"
  using assms by (auto simp: conn_ok_defs)

lemma inv_codec: "conn_inv s \<Longrightarrow> conn_inv (s\<lparr>cn_codec := Some c\<rparr>)"
  by (auto simp: conn_ok_defs)

lemma inv_loop: "conn_inv s \<Longrightarrow> cn_srtpReady s \<or> \<not> b \<Longrightarrow> conn_inv (s\<lparr>cn_audioLoopActive := b\<rparr>)"
  by (auto simp: conn_ok_defs)

lemma inv_StartAudioPhase:
  assumes "conn_inv s" and "cn_dtls s \<noteq> None"
  shows "conn_inv (StartAudioPhase lib env material s)"
proof -
  obtain om im where m: "srtp_masters material = (om, im)" by fastforce
  obtain o1 a where o: "audio_Open (de_audio env) AudioDevice_new = (o1, a)" by fastforce
  obtain ci c where c: "opus_Init (de_opus env) DefaultBitrateBps OpusVoipCodec_new = (ci, c)" by fastforce
  have a: "ad_inv a" using audio_Open_inv [OF audio_device.inv_start, of "de_audio env"] o by simp
  define s1 where "s1 = s\<lparr>cn_srtpOutgoing := Some (srtp_params (cl_SrtpAes lib) om (cn_localSsrc s)),
    cn_srtpIncoming := Some (srtp_params (cl_SrtpAes lib) im 0), cn_srtpReady := True,
    cn_audio := Some a, cn_codec := Some OpusVoipCodec_new\<rparr>"
  define s2 where "s2 = s1\<lparr>cn_codec := Some c\<rparr>"
  have i1: "conn_inv s1" unfolding s1_def
    by (rule inv_srtp [OF assms a]) (simp add: srtp_params_def)
  then have i2: "conn_inv s2" by (simp add: s2_def inv_codec)
  have r: "cn_srtpReady s2" by (simp add: s2_def s1_def)
  then have i3: "conn_inv (TransitionTo TgConnected s2)" using i2 by (simp add: inv_TransitionTo)
  have "StartAudioPhase lib env material s =
      (if \<not> ar_Success o1 then TransitionTo TgFailed s1
       else if ci \<noteq> 0 then TransitionTo TgFailed s2
       else if \<not> de_thread env then (TransitionTo TgConnected s2)\<lparr>cn_audioLoopActive := False\<rparr>
       else (TransitionTo TgConnected s2)\<lparr>cn_audioLoopActive := True, cn_audioCaptureThread := True\<rparr>)"
    by (simp add: StartAudioPhase_def m o c s1_def s2_def Let_def)
  then show ?thesis
    using i1 i2 i3 r by (simp add: inv_TransitionTo inv_loop)
qed

lemma inv_OnStunDatagram: "OnStunDatagram lib env bs s = Some s' \<Longrightarrow> conn_inv s \<Longrightarrow> conn_inv s'"
proof (cases "cn_iceAgent s")
  case (Some agent)
  assume inv: "conn_inv s" and o: "OnStunDatagram lib env bs s = Some s'"
  obtain ip port where src: "(if cn_reflectors s \<noteq> [] then (re_Ip (hd (cn_reflectors s)), re_Port (hd (cn_reflectors s))) else ([], 0))
      = (ip, port)" by fastforce
  obtain r resp ag where p: "ProcessIncoming (cl_HmacSha1 lib) ip port bs agent = Some (r, resp, ag)"
    using ProcessIncoming_total [of "cl_HmacSha1 lib" ip port bs agent] by fastforce
  have "ag = ice_step (cl_HmacSha1 lib) agent (Incoming ip port bs)" by (simp add: ice_step_def p)
  then have "ice_inv ag" using ice_inv_step inv_get(3) [OF inv Some] by simp
  then show ?thesis
    using inv o Some by (auto simp: OnStunDatagram_def src p Let_def inv_ice inv_OnIceConnected split: if_splits)
qed (simp add: OnStunDatagram_def)

lemma inv_OnDtlsDatagram: "OnDtlsDatagram lib env bs s = Some s' \<Longrightarrow> conn_inv s \<Longrightarrow> conn_inv s'"
proof (cases "cn_dtls s")
  case (Some d)
  assume inv: "conn_inv s" and o: "OnDtlsDatagram lib env bs s = Some s'"
  from o Some obtain ok d' out where p: "ProcessDatagram (cl_Dtls lib) (de_cert env) bs d = Some (ok, d', out)"
    by (auto simp: OnDtlsDatagram_def split: bind_splits)
  define s1 where "s1 = PumpDtls (de_flight env) out (s\<lparr>cn_dtls := Some d'\<rparr>)"
  have "dc_ok d'" using dc_ok_datagram [OF p] inv_get(1) [OF inv Some] by simp
  then have i1: "conn_inv s1" using inv by (simp add: s1_def inv_dtls)
  have "cn_dtls s1 \<noteq> None" by (simp add: s1_def)
  with i1 o show ?thesis
    by (auto simp: OnDtlsDatagram_def Some p s1_def [symmetric] Let_def OnDtlsEstablished_def
        intro!: inv_TransitionTo inv_StartAudioPhase split: if_splits)
qed (simp add: OnDtlsDatagram_def)


lemma inv_ROC: "conn_inv s \<Longrightarrow> cn_srtpIncoming s = Some p \<Longrightarrow> conn_inv (s\<lparr>cn_srtpIncoming := Some (p\<lparr>Ssrc := x\<rparr>)\<rparr>)"
  by (auto simp: conn_ok_defs)

lemma inv_outgoing: "conn_inv s \<Longrightarrow> cn_srtpOutgoing s = Some p \<Longrightarrow> conn_inv (s\<lparr>cn_srtpOutgoing := Some q\<rparr>)"
  by (auto simp: conn_ok_defs)

lemma ad_inv_WriteFrame: "ad_inv d \<Longrightarrow> ad_inv (snd (WriteFrame pcm d))"
  using audio_device.inv_step [of d "AuWrite pcm"] by simp

lemma inv_OnRtpPacket: "OnRtpPacket opus rtp s = Some s' \<Longrightarrow> conn_inv s \<Longrightarrow> conn_inv s'"
  by (auto simp: OnRtpPacket_def Let_def inv_audio ad_inv_WriteFrame inv_get(2)
      split: option.splits if_splits prod.splits)

lemma inv_OnSrtpDatagram:
  assumes "OnSrtpDatagram lib opus bs s = Some s'" and inv: "conn_inv s"
  shows "conn_inv s'"
proof (cases "length bs < 12 + kAuthTagSize \<or> \<not> cn_srtpReady s")
  case False
  then obtain p where p: "cn_srtpIncoming s = Some p" using inv by (auto simp: conn_ok_defs)
  define x where "x = be32_of (bs ! 8) (bs ! 9) (bs ! 10) (bs ! 11)"
  note q = inv_ROC [OF inv p, of x]
  show ?thesis
    using assms(1) False p q inv
    by (auto simp: OnSrtpDatagram_def x_def [symmetric] Let_def split: if_splits option.splits
        dest!: inv_OnRtpPacket)
qed (use assms in \<open>auto simp: OnSrtpDatagram_def split: if_splits\<close>)

lemma inv_OnReflectorDatagram: "OnReflectorDatagram lib env bs s = Some s' \<Longrightarrow> conn_inv s \<Longrightarrow> conn_inv s'"
  by (auto simp: OnReflectorDatagram_def Let_def inv_OnStunDatagram inv_OnDtlsDatagram inv_OnSrtpDatagram
      split: option.splits if_splits
      dest: inv_OnStunDatagram inv_OnDtlsDatagram inv_OnSrtpDatagram)

lemma inv_OnReflectorDatagram_from:
  "OnReflectorDatagram_from lib env ip port bs s = Some s' \<Longrightarrow> conn_inv s \<Longrightarrow> conn_inv s'"
  by (auto simp: OnReflectorDatagram_from_def split: if_splits dest: inv_OnReflectorDatagram)

lemma inv_deliver_turn: "deliver_turn lib env k ds s = Some s' \<Longrightarrow> conn_inv s \<Longrightarrow> conn_inv s'"
proof (induction ds arbitrary: k s)
  case (Cons d ds)
  then show ?case
    by (cases d) (auto split: bind_splits dest: inv_OnReflectorDatagram_from)
qed simp

lemma ad_inv_ReadFrame: "ReadFrame arrived d = (r, pcm, d') \<Longrightarrow> ad_inv d \<Longrightarrow> ad_inv d'"
  using audio_device.inv_step [of d "AuRead arrived"] by simp

lemma inv_capture_turn:
  assumes "RunAudioCaptureLoop_turn lib opus arrived io s = Some s'" and inv: "conn_inv s"
  shows "conn_inv s'"
proof (cases "cn_audioLoopActive s \<and> cn_srtpReady s")
  case True
  then obtain a c p where g: "cn_audio s = Some a" "cn_codec s = Some c" "cn_srtpOutgoing s = Some p"
    using inv by (auto simp: conn_ok_defs)
  obtain r pcm d where rd: "ReadFrame arrived a = (r, pcm, d)" by (cases "ReadFrame arrived a") auto
  define s1 where "s1 = s\<lparr>cn_audio := Some d\<rparr>"
  have i1: "conn_inv s1" using inv_audio [OF inv ad_inv_ReadFrame [OF rd inv_get(2) [OF inv g(1)]]] by (simp add: s1_def)
  have g1: "cn_srtpOutgoing s1 = Some p" using g by (simp add: s1_def)
  obtain len frame where en: "EncodeFrame opus pcm MaxPacketBytes c = (len, frame)" by fastforce
  show ?thesis
    using assms(1) True i1 inv_outgoing [OF i1 g1]
    unfolding RunAudioCaptureLoop_turn_def g rd prod.case option.case Let_def s1_def [symmetric] en
    by (auto split: if_splits bind_splits)
qed (use assms in \<open>auto simp: RunAudioCaptureLoop_turn_def split: if_splits option.splits\<close>)

lemma inv_conn_Start:
  assumes "conn_Start lib env s = Some (e, s')" and inv: "conn_inv s"
  shows "conn_inv s'"
proof -
  have so: "conn_inv (x\<lparr>cn_socket := y\<rparr>) = conn_inv x" for x y by (simp add: conn_ok_defs)
  have t: "conn_inv (snd (start_transports lib env x))" if "conn_inv x" for x
    using that by (simp add: start_transports_def CreateDatagramSession_def Let_def split_beta inv_TransitionTo so)
  show ?thesis
  proof (cases "cn_localCert (s\<lparr>cn_localCert := Generate (se_keyPair env)\<rparr>)")
    case None
    with assms show ?thesis by (auto simp: conn_Start_def Let_def inv_TransitionTo split: if_splits)
  next
    case (Some kp)
    show ?thesis
    proof (cases "ToSha256Fingerprint (se_cert env) kp")
      case None
      with Some assms show ?thesis by (auto simp: conn_Start_def Let_def split: if_splits)
    next
      case fp: (Some fp)
      define s1 where "s1 = s\<lparr>cn_localCert := Generate (se_keyPair env), cn_localFingerprint := fp,
        cn_localUfrag := GenerateRandomToken 4 (se_ufrag env), cn_localPwd := GenerateRandomToken 22 (se_pwd env),
        cn_localSsrc := GenerateRandomUint32 (se_ssrc env), cn_localUdpPort := udp_port (GenerateRandomUint32 (se_ssrc env))\<rparr>"
      define s2 where "s2 = snd (EmitInitialSetup lib s1)"
      have i2: "conn_inv s2" using inv by (simp add: s2_def s1_def EmitInitialSetup_def inv_EmitMessages)
      have "conn_Start lib env s \<in> {Some (conn_MakeInvalid ''tgcalls connection requires a 256-byte shared key'', s),
          Some (conn_MakeInvalid ''tgcalls connection requires at least one WebRTC reflector endpoint'', s),
          Some (conn_MakeInvalid ''tgcalls connection requires a SignalingDataCallback'', s),
          Some (fst (EmitInitialSetup lib s1), TransitionTo TgFailed s2), Some (start_transports lib env s2)}"
        using Some by (simp add: conn_Start_def Let_def fp s1_def s2_def split_beta)
      then show ?thesis using assms(1) inv i2 t [OF i2] by (auto simp: inv_TransitionTo) (metis snd_conv)
    qed
  qed
qed


lemma inv_conn_Stop: "conn_inv s \<Longrightarrow> conn_inv (conn_Stop s)"
  by (cases "cn_stopped s")
    (simp add: conn_Stop_def, simp add: conn_ok_defs conn_Stop_def StopAudioLoop_def StopIceRetryTimer_def Let_def
      distinct_adj_snoc, auto)

lemma inv_map_audio:
  "conn_inv s \<Longrightarrow> (\<And>d. ad_inv d \<Longrightarrow> ad_inv (f d)) \<Longrightarrow> conn_inv (s\<lparr>cn_audio := map_option f (cn_audio s)\<rparr>)"
  by (cases "cn_audio s") (auto simp: conn_ok_defs)

lemma inv_retry_tick:
  assumes inv: "conn_inv s"
  shows "conn_inv (retry_tick lib txn io s)"
proof -
  have t: "conn_inv (x\<lparr>cn_timerRuns := b\<rparr>) = conn_inv x" for x b by (simp add: conn_ok_defs)
  define s1 where "s1 = SendIceBindingRequests lib txn io s"
  have i1: "conn_inv s1" using inv by (simp add: s1_def conn_inv_def ok_unchanged ice_SendIceBindingRequests)
  have "cn_iceAttempts s1 < 20 \<Longrightarrow> conn_inv (s1\<lparr>cn_iceAttempts := cn_iceAttempts s1 + 1\<rparr>)"
    using i1 by (auto simp: conn_ok_defs)
  moreover have "cn_iceAttempts s1 = cn_iceAttempts s" by (simp add: s1_def)
  ultimately show ?thesis
    using inv by (simp add: retry_tick_def Let_def s1_def [symmetric] t inv_TransitionTo)
qed

lemma inv_conn_step: "conn_step lib s e = Some s' \<Longrightarrow> conn_inv s \<Longrightarrow> conn_inv s'"
proof (cases e)
  case (CeStart env)
  assume "conn_step lib s e = Some s'" "conn_inv s"
  with CeStart show ?thesis by (auto dest: inv_conn_Start)
next
  case (CeSignaling env bs)
  assume "conn_step lib s e = Some s'" "conn_inv s"
  with CeSignaling show ?thesis by (auto dest: inv_HandleIncomingSignaling)
next
  case (CeClassic env i raw)
  assume "conn_step lib s e = Some s'" "conn_inv s"
  with CeClassic show ?thesis
    by (auto simp: classic_inbound_def split: option.splits if_splits dest: inv_OnReflectorDatagram_from)
next
  case (CeTurn env i ev)
  assume "conn_step lib s e = Some s'" "conn_inv s"
  with CeTurn show ?thesis
    by (auto simp: turn_inbound_def Let_def split: if_splits dest: inv_deliver_turn)
next
  case (CeCapture opus arrived io)
  assume "conn_step lib s e = Some s'" "conn_inv s"
  with CeCapture show ?thesis by (auto dest: inv_capture_turn)
next
  case (CeAudioCapture fails ps)
  assume o: "conn_step lib s e = Some s'" and inv: "conn_inv s"
  have "ad_inv d \<Longrightarrow> ad_inv (CaptureLoop_turn fails ps d)" for d
    using audio_device.inv_step [of d "AuCapture fails ps"] by simp
  then show ?thesis using CeAudioCapture o inv by (auto simp: inv_map_audio)
next
  case (CeAudioRender io)
  assume o: "conn_step lib s e = Some s'" and inv: "conn_inv s"
  show ?thesis
    using CeAudioRender o inv audio_device.inv_step [of _ "AuRender io"] inv_get(2) [OF inv]
    by (cases "cn_audio s") (auto simp: inv_audio split: bind_splits, force intro: inv_audio)
next
  case (CeMute b)
  assume o: "conn_step lib s e = Some s'" and inv: "conn_inv s"
  have "ad_inv d \<Longrightarrow> ad_inv (audio_SetMuted b d)" for d
    using audio_device.inv_step [of d "AuMute b"] by simp
  then have "conn_inv (s\<lparr>cn_muted := b, cn_audio := map_option (audio_SetMuted b) (cn_audio s)\<rparr>)"
    using inv_map_audio [of "s\<lparr>cn_muted := b\<rparr>" "audio_SetMuted b"] inv by simp
  then show ?thesis using CeMute o by (auto simp: conn_SetMuted_def EmitMediaState_def intro!: inv_EmitMessages)
next
  case (CeSpeaker b)
  assume o: "conn_step lib s e = Some s'" and inv: "conn_inv s"
  have "ad_inv d \<Longrightarrow> ad_inv (audio_SetSpeaker b d)" for d
    using audio_device.inv_step [of d "AuSpeaker b"] by simp
  then have "conn_inv (s\<lparr>cn_speakerOn := b, cn_audio := map_option (audio_SetSpeaker b) (cn_audio s)\<rparr>)"
    using inv_map_audio [of "s\<lparr>cn_speakerOn := b\<rparr>" "audio_SetSpeaker b"] inv by simp
  then show ?thesis using CeSpeaker o by (auto simp: conn_SetSpeaker_def)
qed (auto simp: inv_retry_tick inv_conn_Stop)

interpretation connection: reactive "conn_next lib" conn_inv "TgcallsConnection_new params b c"
proof
  show "conn_inv (TgcallsConnection_new params b c)" by (rule conn_inv_new)
next
  show "conn_inv (conn_next lib s e)" if "conn_inv s" for s e
    using that inv_conn_step by (auto simp: conn_next_def split: option.split)
qed

text \<open>
  Claim C1: the invariant of a call. Whatever sequence of calls, signaling, datagrams, timer periods
  and audio turns a connection goes through: while it is Connected or its capture loop runs it has the
  keys of both directions, an audio device, a codec and a DTLS session; a connection without keys has
  none of either direction; the device, the ICE agent and the DTLS session satisfy their own invariants;
  the incoming rollover counter is 0; at most 20 retries have been counted; the observer has been told
  of each change of the state, no state twice in a row, and the last one it was told is the state; and
  the sequence number of the signaling is the number of messages that went out (modulo 2^32).
\<close>

theorem connection_invariant:
  "conn_inv (run_steps (conn_next lib) (TgcallsConnection_new params b c) es)"
  by (rule connection.inv_run)

end
