(* ===== verification/CallProperties.thy ===== *)
theory CallProperties
  imports ConnectionProps
begin

text \<open>
  What a tgcalls call does and does not do: the timer of the ICE checks, the calls that cannot get past
  ICE, stopping, starting, the exchange of InitialSetup and of audio between two ends, and which
  packets are played.
\<close>

section \<open>The branches of Start\<close>

definition identified :: "start_env \<Rightarrow> EcdsaP256KeyPair \<Rightarrow> string \<Rightarrow> TgcallsConnection \<Rightarrow> TgcallsConnection" where
  "identified env kp fp s = s\<lparr>cn_localCert := Some kp, cn_localFingerprint := fp,
     cn_localUfrag := GenerateRandomToken 4 (se_ufrag env), cn_localPwd := GenerateRandomToken 22 (se_pwd env),
     cn_localSsrc := GenerateRandomUint32 (se_ssrc env), cn_localUdpPort := udp_port (GenerateRandomUint32 (se_ssrc env))\<rparr>"

definition startable :: "TgcallsConnection \<Rightarrow> bool" where
  "startable s \<longleftrightarrow> length (cn_sharedKey s) = kSharedKeySize \<and> cn_reflectors s \<noteq> [] \<and> cn_hasSignalingOut s"

lemma conn_errors [simp]: "\<not> VoipError_IsOk (conn_MakeInvalid m)" "\<not> VoipError_IsOk (conn_MakeError CryptoUnavailable m)"
  "\<not> VoipError_IsOk (conn_MakeError TransportFailed m)"
  by (simp_all add: conn_MakeInvalid_def conn_MakeError_def VoipError_IsOk_def VoipError_Of_def)

lemma conn_Start_cases:
  assumes "conn_Start lib env s = Some (e, s')"
  obtains "s' = s" "\<not> startable s" "\<not> VoipError_IsOk e"
  | "s' = TransitionTo TgFailed (s\<lparr>cn_localCert := None\<rparr>)" "startable s" "Generate (se_keyPair env) = None" "\<not> VoipError_IsOk e"
  | kp fp where "startable s" "Generate (se_keyPair env) = Some kp" "ToSha256Fingerprint (se_cert env) kp = Some fp"
      "\<not> VoipError_IsOk e" "e = fst (EmitInitialSetup lib (identified env kp fp s))"
      "s' = TransitionTo TgFailed (snd (EmitInitialSetup lib (identified env kp fp s)))"
  | kp fp where "startable s" "Generate (se_keyPair env) = Some kp" "ToSha256Fingerprint (se_cert env) kp = Some fp"
      "VoipError_IsOk (fst (EmitInitialSetup lib (identified env kp fp s)))"
      "start_transports lib env (snd (EmitInitialSetup lib (identified env kp fp s))) = (e, s')"
proof (cases "startable s")
  case False
  then show ?thesis using assms that(1) by (auto simp: conn_Start_def startable_def split: if_splits)
next
  case True
  then have st: "length (cn_sharedKey s) = kSharedKeySize" "cn_reflectors s \<noteq> []" "cn_hasSignalingOut s"
    by (simp_all add: startable_def)
  show ?thesis
  proof (cases "Generate (se_keyPair env)")
    case None
    with assms st have "s' = TransitionTo TgFailed (s\<lparr>cn_localCert := None\<rparr>)" "\<not> VoipError_IsOk e"
      by (auto simp: conn_Start_def Let_def)
    then show ?thesis using that(2) True None by blast
  next
    case (Some kp)
    show ?thesis
    proof (cases "ToSha256Fingerprint (se_cert env) kp")
      case None
      with Some assms st show ?thesis by (simp add: conn_Start_def Let_def)
    next
      case fp: (Some fp)
      have "conn_Start lib env s =
          (if \<not> VoipError_IsOk (fst (EmitInitialSetup lib (identified env kp fp s)))
           then Some (fst (EmitInitialSetup lib (identified env kp fp s)),
             TransitionTo TgFailed (snd (EmitInitialSetup lib (identified env kp fp s))))
           else Some (start_transports lib env (snd (EmitInitialSetup lib (identified env kp fp s)))))"
        using st Some by (simp add: conn_Start_def Let_def fp identified_def split_beta)
      then show ?thesis
        using assms that(3) [OF True Some fp] that(4) [OF True Some fp] by (simp split: if_splits)
    qed
  qed
qed


section \<open>The retry timer\<close>

lemma retry_tick_sends:
  assumes "cn_timerRuns s" and "\<not> cn_stopped s" and "cn_state s \<in> {TgConnecting, TgIceConnecting}"
    and "cn_iceAttempts s < 20"
  shows "cn_timerRuns (retry_tick lib txn io s)" "\<not> cn_stopped (retry_tick lib txn io s)"
    "cn_state (retry_tick lib txn io s) = cn_state s"
    "cn_iceAttempts (retry_tick lib txn io s) = Suc (cn_iceAttempts s)"
  using assms by (auto simp: retry_tick_def Let_def)

lemma retry_tick_fails:
  assumes "cn_timerRuns s" and "\<not> cn_stopped s" and "cn_state s \<in> {TgConnecting, TgIceConnecting}"
    and "cn_iceAttempts s = 20"
  shows "retry_tick lib txn io s = TransitionTo TgFailed (s\<lparr>cn_timerRuns := False\<rparr>)"
  using assms by (auto simp: retry_tick_def Let_def)

definition ticks :: "ConnLib \<Rightarrow> ((nat \<Rightarrow> bytes) \<times> (nat \<Rightarrow> send_io)) list \<Rightarrow> TgcallsConnection \<Rightarrow> TgcallsConnection" where
  "ticks lib es s = fold (\<lambda>(txn, io). retry_tick lib txn io) es s"

lemma ticks_dead: "\<not> cn_timerRuns s \<Longrightarrow> ticks lib es s = s"
  by (induction es) (auto simp: ticks_def retry_tick_def)

lemma ticks_run:
  assumes "cn_timerRuns s" and "\<not> cn_stopped s" and "cn_state s \<in> {TgConnecting, TgIceConnecting}"
    and "cn_iceAttempts s \<le> 20"
  shows "if cn_iceAttempts s + length es \<le> 20
    then cn_timerRuns (ticks lib es s) \<and> cn_state (ticks lib es s) = cn_state s
      \<and> cn_iceAttempts (ticks lib es s) = cn_iceAttempts s + length es
    else \<not> cn_timerRuns (ticks lib es s) \<and> cn_state (ticks lib es s) = TgFailed \<and> cn_iceAttempts (ticks lib es s) = 20"
  using assms
proof (induction es arbitrary: s)
  case (Cons e es)
  obtain txn io where e: "e = (txn, io)" by fastforce
  have step: "ticks lib (e # es) s = ticks lib es (retry_tick lib txn io s)" by (simp add: ticks_def e)
  show ?case
  proof (cases "cn_iceAttempts s = 20")
    case True
    note f = retry_tick_fails [OF Cons.prems(1-3) True, of lib txn io]
    then show ?thesis using True by (simp add: step f ticks_dead)
  next
    case False
    then have "cn_iceAttempts s < 20" using Cons.prems(4) by simp
    note r = retry_tick_sends [OF Cons.prems(1-3) this, of lib txn io]
    show ?thesis
      unfolding step using Cons.IH [OF r(1,2)] r(3,4) Cons.prems(3) \<open>cn_iceAttempts s < 20\<close> by auto
  qed
qed (simp add: ticks_def)

lemma StartIcePhase_starts:
  assumes "cn_peerInitialReceived s" and "cn_peerUfrag s \<noteq> []" and "cn_peerPwd s \<noteq> []"
    and "cn_peerCandidates s \<noteq> []" and "\<not> cn_iceStarted s"
  shows "cn_timerRuns (StartIcePhase lib env s)" "cn_iceAttempts (StartIcePhase lib env s) = 0"
    "cn_iceStarted (StartIcePhase lib env s)" "cn_iceAgent (StartIcePhase lib env s) \<noteq> None"
proof -
  define s1 where "s1 = snd (EmitCandidates lib (me_hosts env) s)"
  define a where "a = fold AddRemoteCandidate (List.map_filter agent_candidate (cn_peerCandidates s1))
      (IceAgent_new (if cn_isOutgoing s1 then IceAgentRole_Controlling else IceAgentRole_Controlled)
        (cn_localUfrag s1) (cn_localPwd s1) (cn_peerUfrag s1) (cn_peerPwd s1) (me_tieBreak env))"
  define s2 where "s2 = s1\<lparr>cn_iceStarted := True, cn_iceAgent := Some a, cn_iceAttempts := 0\<rparr>"
  have e: "StartIcePhase lib env s = StartIceRetryTimer (SendIceBindingRequests lib (me_txn env) (me_sends env) s2)"
    using assms unfolding s2_def a_def s1_def by (simp add: StartIcePhase_def Let_def EmitCandidates_def)
  show "cn_timerRuns (StartIcePhase lib env s)" "cn_iceAttempts (StartIcePhase lib env s) = 0"
    "cn_iceStarted (StartIcePhase lib env s)"
    unfolding e by (simp_all add: s2_def)
  show "cn_iceAgent (StartIcePhase lib env s) \<noteq> None"
    unfolding e by (simp add: s2_def SendIceBindingRequests_def split: prod.split)
qed

text \<open>
  A round of checks as the specification has it: one binding request without nomination for every pair of the agent,
  each over the reflectors and TURN servers.
\<close>

definition check_round :: "ConnLib \<Rightarrow> IceAgent \<Rightarrow> (nat \<Rightarrow> bytes) \<times> (nat \<Rightarrow> send_io) \<Rightarrow> TgcallsConnection \<Rightarrow> TgcallsConnection" where
  "check_round lib a e s =
     send_all (snd e) 0 (map (\<lambda>i. BuildBindingRequest (cl_HmacSha1 lib) a (fst e i) False) [0..<length (m_pairs a)]) s"

definition unanswered :: "IceAgent \<Rightarrow> bool" where
  "unanswered a \<longleftrightarrow> (\<forall>p \<in> set (m_pairs a). \<not> Succeeded p)"

lemma binding_requests_unanswered:
  "\<forall>p \<in> set ps. \<not> Succeeded p \<Longrightarrow> binding_requests hmac a txn i ps =
     (map (\<lambda>(j, p). (Target p, BuildBindingRequest hmac a (txn j) False)) (enumerate i ps), ps)"
  by (induction ps arbitrary: i) (simp_all add: Let_def)

lemma enumerate_requests: "map (\<lambda>(j, p). f j) (enumerate i ps) = map f [i..<i + length ps]"
proof -
  have "map (\<lambda>(j, p). f j) (enumerate i ps) = map f (map fst (enumerate i ps))" by (simp only: map_map comp_def split_def)
  then show ?thesis by (simp only: map_fst_enumerate)
qed

lemma SendIceBindingRequests_round:
  assumes "cn_iceAgent s = Some a" and "unanswered a"
  shows "SendIceBindingRequests lib txn io s = check_round lib a (txn, io) s"
proof -
  have r: "map snd (map (\<lambda>(j, p). (Target p, BuildBindingRequest hmac a (txn j) False)) (enumerate 0 (m_pairs a))) =
      map (\<lambda>i. BuildBindingRequest hmac a (txn i) False) [0..<length (m_pairs a)]" for hmac
    using enumerate_requests [of "\<lambda>j. BuildBindingRequest hmac a (txn j) False" 0 "m_pairs a"]
    by (simp add: comp_def split_def)
  show ?thesis
    using assms binding_requests_unanswered [of "m_pairs a"]
    by (simp only: SendIceBindingRequests_def GetBindingRequestsToSend_def unanswered_def option.case prod.case r
        check_round_def fst_conv snd_conv) (cases s, simp)
qed

lemma round_fields [simp]:
  "cn_iceAgent (check_round lib a e s) = cn_iceAgent s" "cn_state (check_round lib a e s) = cn_state s"
  "cn_timerRuns (check_round lib a e s) = cn_timerRuns s" "cn_stopped (check_round lib a e s) = cn_stopped s"
  "cn_iceAttempts (check_round lib a e s) = cn_iceAttempts s"
  by (simp_all add: check_round_def)

lemma rounds_fields [simp]:
  "cn_iceAgent (fold (check_round lib a) es s) = cn_iceAgent s" "cn_state (fold (check_round lib a) es s) = cn_state s"
  "cn_timerRuns (fold (check_round lib a) es s) = cn_timerRuns s" "cn_stopped (fold (check_round lib a) es s) = cn_stopped s"
  "cn_iceAttempts (fold (check_round lib a) es s) = cn_iceAttempts s"
  by (induction es arbitrary: s) simp_all

text \<open>The counter takes no part in a round.\<close>

lemma SendViaReflector_attempts:
  "SendViaReflector io p (s\<lparr>cn_iceAttempts := n\<rparr>) = (SendViaReflector io p s)\<lparr>cn_iceAttempts := n\<rparr>"
  unfolding SendViaReflector_def Let_def split_beta
  by (cases "cn_transport s") simp_all

lemma send_all_attempts:
  "send_all io i ds (s\<lparr>cn_iceAttempts := n\<rparr>) = (send_all io i ds s)\<lparr>cn_iceAttempts := n\<rparr>"
  by (induction ds arbitrary: i s) (simp_all add: SendViaReflector_attempts)

lemma round_attempts: "check_round lib a e (s\<lparr>cn_iceAttempts := n\<rparr>) = (check_round lib a e s)\<lparr>cn_iceAttempts := n\<rparr>"
  by (simp add: check_round_def send_all_attempts)

lemma rounds_attempts:
  "fold (check_round lib a) es (s\<lparr>cn_iceAttempts := n\<rparr>) = (fold (check_round lib a) es s)\<lparr>cn_iceAttempts := n\<rparr>"
  by (induction es arbitrary: s) (simp_all add: round_attempts)

text \<open>The periods of the timer on a connection whose agent gets no answer.\<close>

lemma ticks_rounds:
  assumes "cn_timerRuns s" and "\<not> cn_stopped s" and "cn_state s \<in> {TgConnecting, TgIceConnecting}"
    and a: "cn_iceAgent s = Some a" "unanswered a" and "n = cn_iceAttempts s" "n \<le> 20"
  shows "ticks lib es s =
    (if n + length es \<le> 20 then (fold (check_round lib a) es s)\<lparr>cn_iceAttempts := n + length es\<rparr>
     else TransitionTo TgFailed ((fold (check_round lib a) (take (20 - n) es) s)\<lparr>cn_iceAttempts := 20, cn_timerRuns := False\<rparr>))"
  using assms
proof (induction es arbitrary: s n)
  case Nil
  then show ?case by (simp add: ticks_def)
next
  case (Cons e es)
  obtain txn io where e: "e = (txn, io)" by fastforce
  have step: "ticks lib (e # es) s = ticks lib es (retry_tick lib txn io s)" by (simp add: ticks_def e)
  show ?case
  proof (cases "n = 20")
    case True
    note f = retry_tick_fails [OF Cons.prems(1-3), of lib txn io]
    have "cn_iceAttempts s = 20" using True Cons.prems(6) by simp
    then have q: "s\<lparr>cn_timerRuns := False\<rparr> = s\<lparr>cn_iceAttempts := 20, cn_timerRuns := False\<rparr>" by (cases s) simp
    have t: "ticks lib (e # es) s = TransitionTo TgFailed (s\<lparr>cn_timerRuns := False\<rparr>)"
      using f \<open>cn_iceAttempts s = 20\<close> by (simp add: step ticks_dead)
    show ?thesis unfolding t q using True by simp
  next
    case False
    then have n: "n < 20" using Cons.prems(7) by simp
    let ?s = "(check_round lib a e s)\<lparr>cn_iceAttempts := Suc n\<rparr>"
    have r: "retry_tick lib txn io s = ?s"
      using Cons.prems(1-3,6) n SendIceBindingRequests_round [OF Cons.prems(4,5), of lib txn io]
      by (auto simp: retry_tick_def Let_def e)
    have "ticks lib es ?s =
      (if Suc n + length es \<le> 20 then (fold (check_round lib a) es ?s)\<lparr>cn_iceAttempts := Suc n + length es\<rparr>
       else TransitionTo TgFailed ((fold (check_round lib a) (take (20 - Suc n) es) ?s)\<lparr>cn_iceAttempts := 20, cn_timerRuns := False\<rparr>))"
      using Cons.prems n by (intro Cons.IH) simp_all
    moreover have "take (20 - n) (e # es) = e # take (20 - Suc n) es"
    proof -
      have "20 - n = Suc (20 - Suc n)" using n by simp
      then show ?thesis by (simp only: take_Suc_Cons)
    qed
    ultimately show ?thesis unfolding step r rounds_attempts using n by simp
  qed
qed

text \<open>The agent of the first round: one pair per address of a usable candidate, none answered.\<close>

definition candidate_address :: "ParsedIceCandidate \<Rightarrow> string \<times> int" where
  "candidate_address c = (ParsedIceCandidate.Ip c, ParsedIceCandidate.Port c)"

lemma fold_candidates_pairs:
  "Target ` set (m_pairs (fold AddRemoteCandidate cs a)) = Target ` set (m_pairs a) \<union> candidate_address ` set cs"
proof (induction cs arbitrary: a)
  case (Cons c cs)
  have "Target ` set (m_pairs (AddRemoteCandidate c a)) = insert (candidate_address c) (Target ` set (m_pairs a))"
    using FindPair_None [of "m_pairs a" "ParsedIceCandidate.Ip c" "ParsedIceCandidate.Port c"]
    by (auto simp: AddRemoteCandidate_def Let_def candidate_address_def)
  then show ?case by (simp add: Cons.IH)
qed simp

lemma fold_candidates_unanswered: "unanswered a \<Longrightarrow> unanswered (fold AddRemoteCandidate cs a)"
proof (induction cs arbitrary: a)
  case (Cons c cs)
  have "unanswered (AddRemoteCandidate c a)" using Cons.prems by (auto simp: AddRemoteCandidate_def Let_def unanswered_def)
  then show ?case using Cons.IH by simp
qed simp

lemma StartIcePhase_agent:
  assumes "cn_peerInitialReceived s" and "cn_peerUfrag s \<noteq> []" and "cn_peerPwd s \<noteq> []"
    and "cn_peerCandidates s \<noteq> []" and "\<not> cn_iceStarted s"
  obtains a where "cn_iceAgent (StartIcePhase lib env s) = Some a" "unanswered a" "distinct (map Target (m_pairs a))"
    "Target ` set (m_pairs a) = candidate_address ` set (List.map_filter agent_candidate (cn_peerCandidates s))"
    "m_remotePwd a = cn_peerPwd s"
    "\<exists>s1. StartIcePhase lib env s = StartIceRetryTimer (check_round lib a (me_txn env, me_sends env) s1) \<and>
       cn_transport s1 = cn_transport s \<and> cn_turnClients s1 = cn_turnClients s \<and> cn_reflectors s1 = cn_reflectors s"
proof -
  define s1 where "s1 = snd (EmitCandidates lib (me_hosts env) s)"
  define n where "n = IceAgent_new (if cn_isOutgoing s1 then IceAgentRole_Controlling else IceAgentRole_Controlled)
        (cn_localUfrag s1) (cn_localPwd s1) (cn_peerUfrag s1) (cn_peerPwd s1) (me_tieBreak env)"
  define a where "a = fold AddRemoteCandidate (List.map_filter agent_candidate (cn_peerCandidates s1)) n"
  define s2 where "s2 = s1\<lparr>cn_iceStarted := True, cn_iceAgent := Some a, cn_iceAttempts := 0\<rparr>"
  have e: "StartIcePhase lib env s = StartIceRetryTimer (SendIceBindingRequests lib (me_txn env) (me_sends env) s2)"
    using assms unfolding s2_def a_def n_def s1_def by (simp add: StartIcePhase_def Let_def EmitCandidates_def)
  have u: "unanswered a" unfolding a_def
    by (rule fold_candidates_unanswered) (simp add: n_def unanswered_def IceAgent_new_def)
  have r: "SendIceBindingRequests lib (me_txn env) (me_sends env) s2 = check_round lib a (me_txn env, me_sends env) s2"
    by (rule SendIceBindingRequests_round [OF _ u]) (simp add: s2_def)
  have "ice_inv a" unfolding a_def by (rule ice_inv_fold) (simp add: n_def ice_inv_new)
  then have d: "distinct (map Target (m_pairs a))" by (simp add: ice_inv_def)
  have p: "m_remotePwd (fold AddRemoteCandidate cs b) = m_remotePwd b" for cs b
    by (induction cs arbitrary: b) (simp_all add: AddRemoteCandidate_def Let_def)
  show ?thesis
  proof (rule that [OF _ u d])
    show "cn_iceAgent (StartIcePhase lib env s) = Some a" unfolding e r by (simp add: s2_def)
    show "Target ` set (m_pairs a) = candidate_address ` set (List.map_filter agent_candidate (cn_peerCandidates s))"
      by (simp add: a_def fold_candidates_pairs) (simp add: n_def IceAgent_new_def s1_def EmitCandidates_def)
    show "m_remotePwd a = cn_peerPwd s" by (simp add: a_def p) (simp add: n_def IceAgent_new_def s1_def EmitCandidates_def)
    have "cn_transport s2 = cn_transport s" "cn_turnClients s2 = cn_turnClients s" "cn_reflectors s2 = cn_reflectors s"
      by (simp_all add: s2_def s1_def EmitCandidates_def EmitMessages_def Let_def split: option.split)
    then show "\<exists>s1. StartIcePhase lib env s = StartIceRetryTimer (check_round lib a (me_txn env, me_sends env) s1) \<and>
       cn_transport s1 = cn_transport s \<and> cn_turnClients s1 = cn_turnClients s \<and> cn_reflectors s1 = cn_reflectors s"
      unfolding e r by blast
  qed
qed

text \<open>
  Claim C20: how long ICE is tried, and that it is tried. A connection that is neither stopped nor past ICE and
  has the peer's credentials and a candidate creates an agent with one pair for every address of a usable candidate and
  arms the timer. If nothing is answered, each of the first 20 periods sends a binding request for every pair through
  the reflectors and TURN servers (the state after them is that of so many rounds of sends, wire and counters included);
  the period after that sends nothing, makes the call Failed and cancels the timer, and no later period does anything.
\<close>

theorem ice_retry_gives_up:
  assumes "cn_peerInitialReceived s" and "cn_peerUfrag s \<noteq> []" and "cn_peerPwd s \<noteq> []"
    and "cn_peerCandidates s \<noteq> []" and "\<not> cn_iceStarted s" and "\<not> cn_stopped s"
    and "cn_state s \<in> {TgConnecting, TgIceConnecting}"
  shows "let s0 = StartIcePhase lib env s; s' = ticks lib es s0 in
    \<exists>a. cn_iceAgent s0 = Some a \<and> distinct (map Target (m_pairs a)) \<and>
      Target ` set (m_pairs a) = candidate_address ` set (List.map_filter agent_candidate (cn_peerCandidates s)) \<and>
      (let r = fold (check_round lib a) (take 20 es) s0 in
       if length es \<le> 20
       then s' = r\<lparr>cn_iceAttempts := length es\<rparr> \<and> cn_state s' = cn_state s \<and> cn_timerRuns s'
       else s' = TransitionTo TgFailed (r\<lparr>cn_iceAttempts := 20, cn_timerRuns := False\<rparr>))"
proof -
  let ?s0 = "StartIcePhase lib env s"
  obtain a where a: "cn_iceAgent ?s0 = Some a" "unanswered a" "distinct (map Target (m_pairs a))"
    "Target ` set (m_pairs a) = candidate_address ` set (List.map_filter agent_candidate (cn_peerCandidates s))"
    by (rule StartIcePhase_agent [OF assms(1-5)])
  note st = StartIcePhase_starts [OF assms(1-5), of lib env]
  have "\<not> cn_stopped ?s0" "cn_state ?s0 \<in> {TgConnecting, TgIceConnecting}" "cn_state ?s0 = cn_state s"
    using assms(6,7) by simp_all
  with ticks_rounds [OF st(1) this(1,2) a(1,2) refl, of lib es] st a show ?thesis
    by (auto simp: Let_def)
qed

definition sample_params :: StartParams where
  "sample_params = \<lparr>sp_CallId = 7, sp_IsOutgoing = True, sp_SharedKey = replicate 256 1,
     sp_Reflectors = [\<lparr>re_Ip = ''91.108.9.1'', re_Ipv6 = [], re_Port = 1400, re_PeerTag = replicate 16 2,
       re_IsWebRtc = False, re_Username = [], re_Password = []\<rparr>]\<rparr>"

definition relay_session :: AsyncSession where
  "relay_session = \<lparr>as_ReflectorIp = ''91.108.9.1'', as_ReflectorPort = 1400, as_PeerTag = replicate 16 2,
     as_Socket = True, as_OutputStream = True, as_HasToken = True, as_Active = True, as_wire = []\<rparr>"

text \<open>A call with the peer's credentials, one relay candidate that parses, and one open reflector.\<close>

definition peer_ready :: TgcallsConnection where
  "peer_ready = (TgcallsConnection_new sample_params True True)
     \<lparr>cn_state := TgIceConnecting, cn_peerInitialReceived := True, cn_peerUfrag := ''abcd'', cn_peerPwd := ''pw'',
      cn_peerCandidates := [''candidate:rl1 1 udp 16776961 10.0.0.1 443 typ relay generation 0 ufrag ab network-id 1 network-cost 50''],
      cn_transport := Some [relay_session]\<rparr>"

definition quiet_io :: "(nat \<Rightarrow> nat \<Rightarrow> turn_io) \<Rightarrow> send_io" where
  "quiet_io t = \<lparr>sd_turn = t, sd_store = (\<lambda>_. None)\<rparr>"

definition on_wire :: "bytes list \<Rightarrow> TgcallsConnection \<Rightarrow> bool" where
  "on_wire w s \<longleftrightarrow> cn_transport s = Some [relay_session\<lparr>as_wire := w\<rparr>] \<and> cn_turnClients s = []
     \<and> cn_reflectors s = sp_Reflectors sample_params"

lemma on_wire_send: "on_wire w s \<Longrightarrow> on_wire (w @ [replicate 16 2 @ p]) (SendViaReflector (quiet_io t) p s)"
  by (simp add: on_wire_def SendViaReflector_def send_clients_def sample_params_def quiet_io_def kPeerTagSize_def
      SendThroughSession_def relay_session_def Let_def)

lemma on_wire_round:
  "on_wire w s \<Longrightarrow> length (m_pairs a) = 1 \<Longrightarrow>
     on_wire (w @ [replicate 16 2 @ BuildBindingRequest (cl_HmacSha1 lib) a (txn 0) False]) (check_round lib a (txn, \<lambda>i. quiet_io t) s)"
  by (simp add: check_round_def on_wire_send)

lemma on_wire_rounds:
  "on_wire w s \<Longrightarrow> length (m_pairs a) = 1 \<Longrightarrow>
     on_wire (w @ replicate n (replicate 16 2 @ BuildBindingRequest (cl_HmacSha1 lib) a (txn 0) False))
       (fold (check_round lib a) (replicate n (txn, \<lambda>i. quiet_io t)) s)"
proof (induction n arbitrary: w s)
  case (Suc n)
  show ?case using Suc.IH [OF on_wire_round [OF Suc.prems] Suc.prems(2)] by simp
qed simp

lemma sample_line:
  "agent_candidate ''candidate:rl1 1 udp 16776961 10.0.0.1 443 typ relay generation 0 ufrag ab network-id 1 network-cost 50''
     = Some cand_example"
  using candidate_roundtrip_witness by (simp add: agent_candidate_def cand_example_def)

theorem ice_retry_gives_up_witness:
  "\<forall>lib env txn t. let s0 = StartIcePhase lib (env\<lparr>me_sends := \<lambda>i. quiet_io t\<rparr>) peer_ready in
     \<exists>w. on_wire [w] s0 \<and>
       on_wire (w # replicate 15 (replicate 16 2 @ BuildBindingRequest (cl_HmacSha1 lib) (the (cn_iceAgent s0)) (txn 0) False))
         (ticks lib (replicate 15 (txn, \<lambda>i. quiet_io t)) s0) \<and>
       on_wire (w # replicate 20 (replicate 16 2 @ BuildBindingRequest (cl_HmacSha1 lib) (the (cn_iceAgent s0)) (txn 0) False))
         (ticks lib (replicate 25 (txn, \<lambda>i. quiet_io t)) s0) \<and>
       cn_state (ticks lib (replicate 25 (txn, \<lambda>i. quiet_io t)) s0) = TgFailed"
proof (intro allI)
  fix lib :: ConnLib and env :: msg_env and txn :: "nat \<Rightarrow> bytes" and t :: "nat \<Rightarrow> nat \<Rightarrow> turn_io"
  let ?env = "env\<lparr>me_sends := \<lambda>i. quiet_io t\<rparr>" and ?e = "(txn, \<lambda>i. quiet_io t)"
  let ?s0 = "StartIcePhase lib ?env peer_ready"
  have ready: "cn_peerInitialReceived peer_ready" "cn_peerUfrag peer_ready \<noteq> []" "cn_peerPwd peer_ready \<noteq> []"
    "cn_peerCandidates peer_ready \<noteq> []" "\<not> cn_iceStarted peer_ready" "\<not> cn_stopped peer_ready"
    "cn_state peer_ready \<in> {TgConnecting, TgIceConnecting}" "on_wire [] peer_ready"
    by (simp_all add: peer_ready_def TgcallsConnection_new_def on_wire_def relay_session_def)
  have c: "List.map_filter agent_candidate (cn_peerCandidates peer_ready) = [cand_example]"
    by (simp add: peer_ready_def sample_line List.map_filter_def)
  obtain a where a: "cn_iceAgent ?s0 = Some a" "distinct (map Target (m_pairs a))"
      "Target ` set (m_pairs a) = candidate_address ` set (List.map_filter agent_candidate (cn_peerCandidates peer_ready))"
    and s1: "\<exists>s1. ?s0 = StartIceRetryTimer (check_round lib a (me_txn ?env, me_sends ?env) s1) \<and>
       cn_transport s1 = cn_transport peer_ready \<and> cn_turnClients s1 = cn_turnClients peer_ready \<and>
       cn_reflectors s1 = cn_reflectors peer_ready"
    by (rule StartIcePhase_agent [OF ready(1-5)])
  have one: "length (m_pairs a) = 1"
    using distinct_card [OF a(2)] a(3) by (simp add: c)
  let ?m = "replicate 16 2 @ BuildBindingRequest (cl_HmacSha1 lib) a (txn 0) False"
  obtain w where w: "on_wire [w] ?s0"
  proof -
    obtain s1 where s1': "?s0 = StartIceRetryTimer (check_round lib a (me_txn ?env, me_sends ?env) s1)" "on_wire [] s1"
      using s1 ready(8) by (auto simp: on_wire_def)
    have "on_wire w (StartIceRetryTimer s) = on_wire w s" for w s
      by (simp add: on_wire_def StartIceRetryTimer_def StopIceRetryTimer_def)
    then show ?thesis using that on_wire_round [OF s1'(2) one, of lib "me_txn env" t] s1'(1) by simp
  qed
  have f: "on_wire w (TransitionTo x s) = on_wire w s" "on_wire w (s\<lparr>cn_iceAttempts := n\<rparr>) = on_wire w s"
    "on_wire w (s\<lparr>cn_timerRuns := b\<rparr>) = on_wire w s" for w x s n b
    by (simp_all add: on_wire_def TransitionTo_def Let_def)
  note t = ice_retry_gives_up [OF ready(1-7), of lib ?env, unfolded Let_def]
  have 15: "on_wire (w # replicate 15 ?m) (ticks lib (replicate 15 ?e) ?s0)"
    using t [of "replicate 15 ?e"] a(1) on_wire_rounds [OF w one, of 15 lib txn t] by (auto simp: f)
  have 25: "on_wire (w # replicate 20 ?m) (ticks lib (replicate 25 ?e) ?s0)"
      "cn_state (ticks lib (replicate 25 ?e) ?s0) = TgFailed"
    using t [of "replicate 25 ?e"] a(1) on_wire_rounds [OF w one, of 20 lib txn t] by (auto simp: f)
  show "let s0 = ?s0 in
     \<exists>w. on_wire [w] s0 \<and>
       on_wire (w # replicate 15 (replicate 16 2 @ BuildBindingRequest (cl_HmacSha1 lib) (the (cn_iceAgent s0)) (txn 0) False))
         (ticks lib (replicate 15 ?e) s0) \<and>
       on_wire (w # replicate 20 (replicate 16 2 @ BuildBindingRequest (cl_HmacSha1 lib) (the (cn_iceAgent s0)) (txn 0) False))
         (ticks lib (replicate 25 ?e) s0) \<and>
       cn_state (ticks lib (replicate 25 ?e) s0) = TgFailed"
    unfolding Let_def using w 15 25 a(1) by (intro exI [of _ w]) simp
qed


section \<open>Calls that cannot get past ICE\<close>

text \<open>The address every STUN datagram is taken to come from.\<close>

definition first_reflector :: "ReflectorEndpoint list \<Rightarrow> string \<times> int" where
  "first_reflector rs = (if rs \<noteq> [] then (re_Ip (hd rs), re_Port (hd rs)) else ([], 0))"

definition off_path :: "TgcallsConnection \<Rightarrow> bool" where
  "off_path s \<longleftrightarrow> cn_dtls s = None \<and> cn_state s \<notin> {TgDtlsHandshaking, TgConnected} \<and> cn_iceStarted s
     \<and> pred_option (\<lambda>a. first_reflector (cn_reflectors s) \<notin> Target ` set (m_pairs a)) (cn_iceAgent s)"

lemma Target_requests: "Target ` set (m_pairs (snd (GetBindingRequestsToSend hmac txn a))) = Target ` set (m_pairs a)"
  by (simp add: GetBindingRequestsToSend_def split_beta binding_requests_pairs image_image)

lemma off_path_unchanged:
  "off_path (SendViaReflector io p s) = off_path s" "off_path (PumpDtls ios ds s) = off_path s"
  "off_path (snd (EmitMessages lib ms s)) = off_path s"
  "x \<notin> {TgDtlsHandshaking, TgConnected} \<Longrightarrow> off_path s \<Longrightarrow> off_path (TransitionTo x s)"
  "off_path (StopIceRetryTimer s) = off_path s"
  "off_path s \<Longrightarrow> off_path (SendIceBindingRequests lib txn ios s)"
proof -
  show "off_path s \<Longrightarrow> off_path (SendIceBindingRequests lib txn ios s)"
    using Target_requests [of "cl_HmacSha1 lib" txn]
    by (cases "cn_iceAgent s") (simp_all add: SendIceBindingRequests_def off_path_def split_beta)
qed (simp_all add: off_path_def)

lemma StartIcePhase_started: "cn_iceStarted s \<Longrightarrow> StartIcePhase lib env s = s"
  by (simp add: StartIcePhase_def Let_def)

lemma off_path_dispatch: "off_path s \<Longrightarrow> off_path (dispatch_signaling lib env m s)"
proof -
  assume a: "off_path s"
  then have st: "cn_iceStarted s" by (simp add: off_path_def)
  have "off_path (OnPeerInitialSetup lib env x s)" for x
    using a st by (auto simp: OnPeerInitialSetup_def Let_def StartIcePhase_started off_path_def)
  moreover have "off_path (OnPeerCandidates lib env x s)" for x
    using a st by (simp add: OnPeerCandidates_def Let_def StartIcePhase_started off_path_def)
  moreover have "off_path (OnPeerPing lib x s)" for x using a by (simp add: OnPeerPing_def off_path_unchanged)
  ultimately show ?thesis using a
    by (simp add: dispatch_signaling_def OnPeerMediaState_def split: TgcallsMessageType.split)
qed

lemma off_path_dispatch_all: "off_path s \<Longrightarrow> off_path (dispatch_all lib env i ms s)"
  by (induction ms arbitrary: i s) (simp_all add: off_path_dispatch)

lemma off_path_stun: "OnStunDatagram lib env bs s = Some s' \<Longrightarrow> off_path s \<Longrightarrow> off_path s'"
proof (cases "cn_iceAgent s")
  case (Some a)
  assume o: "OnStunDatagram lib env bs s = Some s'" and off: "off_path s"
  obtain ip port where src: "first_reflector (cn_reflectors s) = (ip, port)" by fastforce
  then have src': "(if cn_reflectors s \<noteq> [] then (re_Ip (hd (cn_reflectors s)), re_Port (hd (cn_reflectors s))) else ([], 0))
      = (ip, port)" by (simp add: first_reflector_def)
  have n: "FindPair (m_pairs a) ip port = None"
    using off Some src by (simp add: FindPair_None off_path_def)
  have "\<exists>r resp. ProcessIncoming (cl_HmacSha1 lib) ip port bs a = Some (r, resp, a) \<and> r \<noteq> ProcessResult_ConnectivityEstablished"
  proof (cases "\<exists>msg. authentic (cl_HmacSha1 lib) a bs msg")
    case True
    then obtain msg where "authentic (cl_HmacSha1 lib) a bs msg" by blast
    from ProcessIncoming_authentic [OF this, of ip port] n show ?thesis by (simp add: Let_def)
  qed (simp add: ProcessIncoming_rejects)
  then obtain r resp where p: "ProcessIncoming (cl_HmacSha1 lib) ip port bs a = Some (r, resp, a)"
    and r: "r \<noteq> ProcessResult_ConnectivityEstablished" by blast
  have s: "s\<lparr>cn_iceAgent := Some a\<rparr> = s" using Some by simp
  have "s' \<in> {s, SendViaReflector (de_reply env) resp s}"
    using o r unfolding OnStunDatagram_def Some src' by (simp add: p s Let_def split: if_splits)
  then show ?thesis using off by (auto simp: off_path_unchanged)
qed (simp add: OnStunDatagram_def)

lemma OnRtpPacket_audio:
  assumes "OnRtpPacket opus rtp s = Some s'"
  obtains a where "s' = s\<lparr>cn_audio := a\<rparr>"
proof -
  have same: "s = s\<lparr>cn_audio := cn_audio s\<rparr>" by simp
  have "s' = s \<or> (\<exists>a. s' = s\<lparr>cn_audio := Some a\<rparr>)"
    using assms by (auto simp: OnRtpPacket_def Let_def split: option.splits if_splits prod.splits)
  then show ?thesis using that same by blast
qed


lemma OnSrtp_ignored:
  "length bs < 12 + kAuthTagSize \<Longrightarrow> OnSrtpDatagram lib opus bs s = Some s"
  "\<not> cn_srtpReady s \<Longrightarrow> OnSrtpDatagram lib opus bs s = Some s"
  "cn_srtpIncoming s = None \<Longrightarrow> OnSrtpDatagram lib opus bs s = Some s"
  by (simp_all add: OnSrtpDatagram_def)

text \<open>The demultiplexer, without the synthetic tag.\<close>

definition received_bytes :: "nat \<Rightarrow> TgcallsConnection \<Rightarrow> TgcallsConnection" where
  "received_bytes n s = s\<lparr>cn_rxPackets := cn_rxPackets s + 1, cn_rxBytes := cn_rxBytes s + of_nat n\<rparr>"

definition demux :: "ConnLib \<Rightarrow> dgram_env \<Rightarrow> bytes \<Rightarrow> TgcallsConnection \<Rightarrow> TgcallsConnection option" where
  "demux lib env inner s =
     (if inner ! 0 \<le> 0x03 then OnStunDatagram lib env inner s
      else if 0x14 \<le> inner ! 0 \<and> inner ! 0 \<le> 0x1F then OnDtlsDatagram lib env inner s
      else if 0x80 \<le> inner ! 0 \<and> inner ! 0 \<le> 0xBF \<and> cn_state s = TgConnected
      then OnSrtpDatagram lib (de_opus env) inner s
      else Some s)"

lemma OnReflectorDatagram_demux:
  "length tag = 16 \<Longrightarrow> bs \<noteq> [] \<Longrightarrow>
     OnReflectorDatagram lib env (tag @ bs) s = demux lib env bs (received_bytes (16 + length bs) s)"
  by (simp add: OnReflectorDatagram_def demux_def received_bytes_def TryStripPeerTag_def kPeerTagSize_def Let_def)

lemma OnReflectorDatagram_from_demux:
  "OnReflectorDatagram_from lib env ip port bs s =
     (if bs = [] then Some s else demux lib env bs (received_bytes (16 + length bs) s))"
  by (simp add: OnReflectorDatagram_from_def OnReflectorDatagram_demux)

lemma OnSrtpDatagram_media:
  assumes "OnSrtpDatagram lib opus bs s = Some s'"
  obtains "s' = s" | i r a where "s' = s\<lparr>cn_srtpIncoming := i, cn_remoteSsrc := r, cn_audio := a\<rparr>"
proof -
  have same: "x = x\<lparr>cn_audio := cn_audio x\<rparr>" for x :: TgcallsConnection by simp
  have "s' = s \<or> (\<exists>i r a. s' = s\<lparr>cn_srtpIncoming := i, cn_remoteSsrc := r, cn_audio := a\<rparr>)"
  proof (cases "length bs < 12 + kAuthTagSize \<or> \<not> cn_srtpReady s \<or> cn_srtpIncoming s = None")
    case False
    then obtain p where p: "cn_srtpIncoming s = Some p" by auto
    define x where "x = be32_of (bs ! 8) (bs ! 9) (bs ! 10) (bs ! 11)"
    define s1 where "s1 = (if Ssrc p = 0 then s\<lparr>cn_srtpIncoming := Some (p\<lparr>Ssrc := x\<rparr>), cn_remoteSsrc := x\<rparr> else s)"
    have "\<exists>i r. s1 = s\<lparr>cn_srtpIncoming := i, cn_remoteSsrc := r\<rparr>"
    proof (cases "Ssrc p = 0")
      case False
      then have "s1 = s\<lparr>cn_srtpIncoming := cn_srtpIncoming s, cn_remoteSsrc := cn_remoteSsrc s\<rparr>" by (simp add: s1_def)
      then show ?thesis by blast
    qed (auto simp: s1_def)
    then obtain i r where s1: "s1 = s\<lparr>cn_srtpIncoming := i, cn_remoteSsrc := r\<rparr>" by blast
    have o: "s' = s1 \<or> (\<exists>rtp. OnRtpPacket opus rtp s1 = Some s')"
      using assms False p unfolding s1_def x_def
      by (auto simp: OnSrtpDatagram_def Let_def split: option.splits if_splits)
    have "s1 = s1\<lparr>cn_audio := cn_audio s1\<rparr>" by simp
    with o obtain a where "s' = s1\<lparr>cn_audio := a\<rparr>" using OnRtpPacket_audio by metis
    then show ?thesis by (auto simp: s1)
  next
    case True
    then show ?thesis using assms OnSrtp_ignored by fastforce
  qed
  then show ?thesis using that by blast
qed

lemma off_path_datagram: "OnReflectorDatagram_from lib env ip port bs s = Some s' \<Longrightarrow> off_path s \<Longrightarrow> off_path s'"
proof -
  assume o: "OnReflectorDatagram_from lib env ip port bs s = Some s'" and off: "off_path s"
  have off1: "off_path (received_bytes n s)" for n using off by (simp add: received_bytes_def off_path_def)
  show ?thesis
  proof (cases "bs = []")
    case False
    define s1 where "s1 = received_bytes (16 + length bs) s"
    have off1: "off_path s1" using off by (simp add: s1_def received_bytes_def off_path_def)
    have d: "demux lib env bs s1 = Some s'" using o False by (simp add: OnReflectorDatagram_from_demux s1_def)
    have "cn_dtls s1 = None" "cn_state s1 \<noteq> TgConnected" using off1 by (simp_all add: off_path_def)
    then have "OnStunDatagram lib env bs s1 = Some s' \<or> s' = s1"
      using d by (simp add: demux_def OnDtlsDatagram_def split: if_splits)
    then show ?thesis using off1 off_path_stun by blast
  qed (use o off in \<open>simp add: OnReflectorDatagram_from_demux\<close>)
qed

lemma off_path_deliver: "deliver_turn lib env k ds s = Some s' \<Longrightarrow> off_path s \<Longrightarrow> off_path s'"
proof (induction ds arbitrary: k s)
  case (Cons d ds)
  then show ?case by (cases d) (auto split: bind_splits dest: off_path_datagram)
qed simp

lemma off_path_start: "conn_Start lib env s = Some (e, s') \<Longrightarrow> off_path s \<Longrightarrow> off_path s'"
proof -
  assume o: "conn_Start lib env s = Some (e, s')" and off: "off_path s"
  have t: "off_path (snd (start_transports lib env x))" if "off_path x" for x
  proof -
    have u: "off_path (x\<lparr>cn_socket := a, cn_transport := b, cn_turnClients := c\<rparr>)" for a b c
      using that by (simp add: off_path_def)
    show ?thesis
      using that u by (simp add: start_transports_def CreateDatagramSession_def Let_def split_beta off_path_unchanged)
  qed
  have i: "off_path (snd (EmitInitialSetup lib (identified env kp fp s)))" for kp fp
    using off by (simp add: identified_def EmitInitialSetup_def off_path_unchanged) (simp add: off_path_def)
  show ?thesis
    using o
  proof (cases rule: conn_Start_cases)
    case (2)
    then show ?thesis using off by (simp add: off_path_unchanged) (simp add: off_path_def)
  next
    case (3 kp fp)
    then show ?thesis using i by (simp add: off_path_unchanged)
  next
    case (4 kp fp)
    from t [OF i, of kp fp] 4 show ?thesis by (metis snd_conv)
  qed (use off in simp)
qed


text \<open>A turn of the capture loop: nothing, a frame read and not sent, or a packet sent.\<close>

definition frame_sent :: "send_io \<Rightarrow> AudioDevice \<Rightarrow> SrtpEncryptParams \<Rightarrow> bytes \<Rightarrow> TgcallsConnection \<Rightarrow> TgcallsConnection" where
  "frame_sent io d q packet s =
     (let x = s\<lparr>cn_audio := Some d, cn_srtpOutgoing := Some q\<rparr>;
          y = (if packet \<noteq> [] then SendViaReflector io packet x else x)
      in y\<lparr>cn_outgoingSeq := cn_outgoingSeq s + 1, cn_outgoingTimestamp := cn_outgoingTimestamp s + of_nat FrameSamples\<rparr>)"

lemma capture_turn_sends:
  assumes "cn_audioLoopActive s" and "cn_srtpReady s" and "cn_audio s = Some a" and "cn_codec s = Some c"
    and "cn_srtpOutgoing s = Some p" and "ReadFrame arrived a = (r, pcm, d)"
  shows "RunAudioCaptureLoop_turn lib opus arrived io s =
    (if \<not> ar_Success r \<or> pcm = [] then Some (s\<lparr>cn_audio := Some d\<rparr>)
     else (let (len, frame) = EncodeFrame opus pcm MaxPacketBytes c in
       if len \<le> 0 then Some (s\<lparr>cn_audio := Some d\<rparr>)
       else if nat len > MaxPacketBytes then None
       else map_option (\<lambda>(q, packet). frame_sent io d q packet s)
         (srtp_encrypt (cl_SrtpAes lib) (cl_HmacSha1 lib) p
            (rtp_header (cn_outgoingSeq s) (cn_outgoingTimestamp s) (cn_localSsrc s) @ take (nat len) frame)
            (cn_outgoingSeq s))))"
proof -
  obtain len frame where e: "EncodeFrame opus pcm MaxPacketBytes c = (len, frame)" by fastforce
  define enc where "enc = srtp_encrypt (cl_SrtpAes lib) (cl_HmacSha1 lib) p
    (rtp_header (cn_outgoingSeq s) (cn_outgoingTimestamp s) (cn_localSsrc s) @ take (nat len) frame) (cn_outgoingSeq s)"
  show ?thesis
    using assms unfolding RunAudioCaptureLoop_turn_def
    by (cases enc) (simp_all add: e enc_def [symmetric] Let_def frame_sent_def split_beta)
qed

lemma capture_turn_cases:
  assumes "RunAudioCaptureLoop_turn lib opus arrived io s = Some s'"
  obtains "s' = s" | d where "s' = s\<lparr>cn_audio := Some d\<rparr>" | d q packet where "s' = frame_sent io d q packet s"
proof (cases "cn_audioLoopActive s \<and> cn_srtpReady s \<and> cn_audio s \<noteq> None \<and> cn_codec s \<noteq> None \<and> cn_srtpOutgoing s \<noteq> None")
  case True
  then obtain a c p where g: "cn_audioLoopActive s" "cn_srtpReady s" "cn_audio s = Some a" "cn_codec s = Some c"
    "cn_srtpOutgoing s = Some p" by auto
  obtain r pcm d where rd: "ReadFrame arrived a = (r, pcm, d)" by (cases "ReadFrame arrived a") auto
  show ?thesis
    using assms that unfolding capture_turn_sends [OF g rd]
    by (auto split: if_splits prod.splits)
next
  case False
  then have "RunAudioCaptureLoop_turn lib opus arrived io s = Some s"
    by (auto simp: RunAudioCaptureLoop_turn_def split: option.split)
  then show ?thesis using assms that(1) by simp
qed

lemma off_path_step: "off_path s \<Longrightarrow> off_path (conn_next lib s e)"
proof -
  assume off: "off_path s"
  have au: "off_path (s\<lparr>cn_audio := a\<rparr>)" for a using off by (simp add: off_path_def)
  have "off_path s'" if o: "conn_step lib s e = Some s'" for s'
  proof (cases e)
    case (CeStart env)
    then show ?thesis using o off by (auto dest: off_path_start)
  next
    case (CeSignaling env bs)
    then show ?thesis using o off
      by (auto simp: HandleIncomingSignaling_def off_path_dispatch_all split: if_splits bind_splits)
  next
    case (CeClassic env i raw)
    then show ?thesis using o off
      by (auto simp: classic_inbound_def split: option.splits if_splits dest: off_path_datagram)
  next
    case (CeTurn env i ev)
    have "off_path (s\<lparr>cn_turnClients := x\<rparr>)" for x using off by (simp add: off_path_def)
    then show ?thesis using o off CeTurn by (auto simp: turn_inbound_def Let_def split: if_splits dest: off_path_deliver)
  next
    case (CeTick txn io)
    have "off_path (s\<lparr>cn_timerRuns := False\<rparr>)" using off by (simp add: off_path_def)
    moreover have "off_path ((SendIceBindingRequests lib txn io s)\<lparr>cn_iceAttempts := n\<rparr>)" for n
      using off_path_unchanged(6) [OF off, of lib txn io] by (simp add: off_path_def)
    ultimately show ?thesis using o off CeTick by (auto simp: retry_tick_def Let_def off_path_unchanged)
  next
    case (CeCapture opus arrived io)
    have "off_path (frame_sent io d q packet s)" for d q packet
      using off by (simp add: frame_sent_def Let_def off_path_def)
    then show ?thesis using o CeCapture off au by (auto elim!: capture_turn_cases)
  next
    case (CeAudioRender io)
    then show ?thesis using o off au by (auto split: option.splits bind_splits)
  next
    case (CeMute b)
    have "off_path (s\<lparr>cn_muted := b, cn_audio := a\<rparr>)" for a using off by (simp add: off_path_def)
    then show ?thesis using o CeMute by (auto simp: conn_SetMuted_def EmitMediaState_def off_path_unchanged)
  next
    case (CeSpeaker b)
    have "off_path (s\<lparr>cn_speakerOn := b, cn_audio := a\<rparr>)" for a using off by (simp add: off_path_def)
    then show ?thesis using o CeSpeaker by (auto simp: conn_SetSpeaker_def)
  next
    case CeStop
    have "off_path (conn_Stop s)"
      using off by (simp add: conn_Stop_def StopAudioLoop_def StopIceRetryTimer_def Let_def off_path_def)
    then show ?thesis using o CeStop by simp
  qed (use o au in auto)
  then show ?thesis using off by (simp add: conn_next_def split: option.split)
qed

text \<open>
  Claim C8: ICE only succeeds over the first reflector. Every STUN datagram is taken to come from the
  address of the first reflector, whoever sent it. A call whose checks have started with candidates none
  of which is that very address and port never gets to DTLS, let alone to Connected, whatever
  signaling, datagrams (authentic answers to every check included), timer periods and calls follow.
\<close>

theorem ice_only_via_first_reflector:
  assumes "cn_iceStarted s" and "cn_dtls s = None" and "cn_state s = TgIceConnecting"
    and "cn_iceAgent s = Some agent" and "first_reflector (cn_reflectors s) \<notin> Target ` set (m_pairs agent)"
  shows "cn_state (run_steps (conn_next lib) s es) \<notin> {TgDtlsHandshaking, TgConnected}
    \<and> cn_dtls (run_steps (conn_next lib) s es) = None"
proof -
  have "off_path s" using assms by (simp add: off_path_def)
  then have "off_path (run_steps (conn_next lib) s es)"
    by (induction es arbitrary: s) (simp_all add: off_path_step)
  then show ?thesis by (simp add: off_path_def)
qed


text \<open>An agent with one pair, elsewhere.\<close>

definition in_checks :: TgcallsConnection where
  "in_checks = peer_ready\<lparr>cn_iceStarted := True, cn_iceAgent := Some (AddRemoteCandidate
     (ParsedIceCandidate_default\<lparr>ParsedIceCandidate.Ip := ''91.108.9.1'', ParsedIceCandidate.Port := 50000, Type := IceCandidateType_Relay\<rparr>)
     (IceAgent_new IceAgentRole_Controlling ''abcd'' ''pw'' ''efgh'' ''pw2'' [1, 2, 3, 4, 5, 6, 7, 8]))\<rparr>"

theorem ice_only_via_first_reflector_witness:
  "\<forall>lib es. cn_state (run_steps (conn_next lib) in_checks es) \<notin> {TgDtlsHandshaking, TgConnected}"
proof (intro allI)
  fix lib es
  show "cn_state (run_steps (conn_next lib) in_checks es) \<notin> {TgDtlsHandshaking, TgConnected}"
    using ice_only_via_first_reflector [of in_checks _ lib es]
    by (simp add: in_checks_def peer_ready_def TgcallsConnection_new_def sample_params_def AddRemoteCandidate_def
        IceAgent_new_def first_reflector_def Let_def ParsedIceCandidate_default_def)
qed


section \<open>Stopping\<close>

definition ended :: "tg_state list \<Rightarrow> TgcallsConnection \<Rightarrow> bool" where
  "ended told s \<longleftrightarrow> cn_stopped s \<and> cn_state s = TgStopped \<and> cn_notified s = told \<and> cn_dtls s = None \<and> cn_audio s = None
     \<and> cn_codec s = None \<and> cn_transport s = None \<and> cn_socket s = None \<and> cn_localCert s = None \<and> \<not> cn_audioLoopActive s
     \<and> cn_srtpOutgoing s = None \<and> cn_srtpIncoming s = None \<and> \<not> cn_srtpReady s"

lemma no_transport [simp]:
  "cn_transport s = None \<Longrightarrow> cn_transport (SendViaReflector io p s) = None"
  by (simp add: SendViaReflector_def Let_def)

lemma no_transport_send_all [simp]: "cn_transport s = None \<Longrightarrow> cn_transport (send_all io i ds s) = None"
  by (induction ds arbitrary: i s) simp_all

lemma same_transport [simp]:
  "cn_transport (snd (EmitMessages lib ms s)) = cn_transport s" "cn_transport (StopIceRetryTimer s) = cn_transport s"
  "cn_transport (StartIceRetryTimer s) = cn_transport s" "cn_transport (TransitionTo x s) = cn_transport s"
  by (simp_all add: EmitMessages_def StopIceRetryTimer_def StartIceRetryTimer_def TransitionTo_def Let_def)

lemma no_transport_ice [simp]:
  "cn_transport s = None \<Longrightarrow> cn_transport (SendIceBindingRequests lib txn io s) = None"
  by (simp add: SendIceBindingRequests_def split: option.split prod.split)

lemma no_transport_StartIcePhase [simp]: "cn_transport s = None \<Longrightarrow> cn_transport (StartIcePhase lib env s) = None"
  by (simp add: StartIcePhase_def Let_def EmitCandidates_def)

lemma ended_unchanged:
  "ended told s \<Longrightarrow> ended told (SendViaReflector io p s)" "ended told s \<Longrightarrow> ended told (snd (EmitMessages lib ms s))"
  "ended told s \<Longrightarrow> ended told (StartIcePhase lib env s)"
  by (simp_all add: ended_def)

lemma ended_dispatch: "ended told s \<Longrightarrow> ended told (dispatch_signaling lib env m s)"
proof -
  assume a: "ended told s"
  have "ended told (OnPeerInitialSetup lib env x s)" for x
    unfolding OnPeerInitialSetup_def Let_def
    by (rule ended_unchanged(3)) (use a in \<open>auto simp: ended_def\<close>)
  moreover have "ended told (OnPeerCandidates lib env x s)" for x
    unfolding OnPeerCandidates_def Let_def
    by (rule ended_unchanged(3)) (use a in \<open>simp add: ended_def\<close>)
  moreover have "ended told (OnPeerPing lib x s)" for x using a by (simp add: OnPeerPing_def ended_unchanged)
  ultimately show ?thesis using a
    by (simp add: dispatch_signaling_def OnPeerMediaState_def split: TgcallsMessageType.split)
qed

lemma ended_dispatch_all: "ended told s \<Longrightarrow> ended told (dispatch_all lib env i ms s)"
  by (induction ms arbitrary: i s) (simp_all add: ended_dispatch)

lemma ended_datagram: "OnReflectorDatagram_from lib env ip port bs s = Some s' \<Longrightarrow> ended told s \<Longrightarrow> ended told s'"
proof -
  assume o: "OnReflectorDatagram_from lib env ip port bs s = Some s'" and en: "ended told s"
  show ?thesis
  proof (cases "bs = []")
    case False
    define s1 where "s1 = received_bytes (16 + length bs) s"
    have e1: "ended told s1" using en by (simp add: s1_def received_bytes_def ended_def)
    have d: "demux lib env bs s1 = Some s'" using o False by (simp add: OnReflectorDatagram_from_demux s1_def)
    have k: "cn_dtls s1 = None" "cn_state s1 = TgStopped" using e1 by (simp_all add: ended_def)
    then consider "OnStunDatagram lib env bs s1 = Some s'" | "s' = s1"
      using d by (auto simp: demux_def OnDtlsDatagram_def split: if_splits)
    then show ?thesis
    proof cases
      case 1
      have ic: "OnIceConnected env x = x" if "ended told x" for x using that by (simp add: OnIceConnected_def ended_def)
      have ag: "ended told (s1\<lparr>cn_iceAgent := a\<rparr>)" for a using e1 by (simp add: ended_def)
      show ?thesis
        using 1 e1 ag ic ended_unchanged(1)
        by (auto simp: OnStunDatagram_def Let_def split: option.splits if_splits bind_splits)
    qed (use e1 in simp)
  qed (use o en in \<open>simp add: OnReflectorDatagram_from_demux\<close>)
qed

lemma ended_deliver: "deliver_turn lib env k ds s = Some s' \<Longrightarrow> ended told s \<Longrightarrow> ended told s'"
proof (induction ds arbitrary: k s)
  case (Cons d ds)
  then show ?case by (cases d) (auto split: bind_splits dest: ended_datagram)
qed simp

fun is_start :: "conn_event \<Rightarrow> bool" where
  "is_start (CeStart _) = True"
| "is_start _ = False"

lemma ended_step: "ended told s \<Longrightarrow> \<not> is_start e \<Longrightarrow> ended told (conn_next lib s e)"
proof -
  assume en: "ended told s" and ns: "\<not> is_start e"
  then have g: "cn_stopped s" "cn_state s = TgStopped" "cn_audio s = None" "cn_transport s = None" "\<not> cn_audioLoopActive s"
    by (simp_all add: ended_def)
  have "ended told s'" if o: "conn_step lib s e = Some s'" for s'
  proof (cases e)
    case (CeSignaling env bs)
    then show ?thesis using o en
      by (auto simp: HandleIncomingSignaling_def ended_dispatch_all split: if_splits bind_splits)
  next
    case (CeClassic env i raw)
    then show ?thesis using o en g by (simp add: classic_inbound_def)
  next
    case (CeTurn env i ev)
    have "ended told (s\<lparr>cn_turnClients := x\<rparr>)" for x using en by (simp add: ended_def)
    then show ?thesis using o en CeTurn by (auto simp: turn_inbound_def Let_def split: if_splits dest: ended_deliver)
  next
    case (CeTick txn io)
    have "retry_tick lib txn io s \<in> {s, s\<lparr>cn_timerRuns := False\<rparr>}" using g by (simp add: retry_tick_def)
    moreover have "ended told (s\<lparr>cn_timerRuns := False\<rparr>)" using en by (simp add: ended_def)
    ultimately show ?thesis using o CeTick en by auto
  next
    case (CeCapture opus arrived io)
    then show ?thesis using o en g by (simp add: RunAudioCaptureLoop_turn_def)
  next
    case (CeAudioRender io)
    then show ?thesis using o en g by simp
  next
    case (CeAudioCapture b ps)
    have "ended told (s\<lparr>cn_audio := None\<rparr>)" using en by (simp add: ended_def)
    then show ?thesis using o CeAudioCapture g by simp
  next
    case (CeMute b)
    have "ended told (s\<lparr>cn_muted := b, cn_audio := None\<rparr>)" using en by (simp add: ended_def)
    then show ?thesis using o CeMute g by (auto simp: conn_SetMuted_def EmitMediaState_def ended_unchanged)
  next
    case (CeSpeaker b)
    have "ended told (s\<lparr>cn_speakerOn := b, cn_audio := None\<rparr>)" using en by (simp add: ended_def)
    then show ?thesis using o CeSpeaker g by (simp add: conn_SetSpeaker_def)
  next
    case CeStop
    then show ?thesis using o en g by (simp add: conn_Stop_def)
  qed (use ns in auto)
  then show ?thesis using en by (simp add: conn_next_def split: option.split)
qed

lemma ended_Stop: "\<not> cn_stopped s \<Longrightarrow> ended (cn_notified (conn_Stop s)) (conn_Stop s)"
  by (simp add: ended_def conn_Stop_def StopAudioLoop_def StopIceRetryTimer_def Let_def)

lemma ended_run:
  "ended told s \<Longrightarrow> list_all (\<lambda>e. \<not> is_start e) es \<Longrightarrow> ended told (run_steps (conn_next lib) s es)"
  by (induction es arbitrary: s) (simp_all add: ended_step)

lemma ended_tick: "ended told s \<Longrightarrow> retry_tick lib txn io s = s\<lparr>cn_timerRuns := False\<rparr>"
  by (cases s) (simp add: ended_def retry_tick_def)

text \<open>
  Claim C21: what \<open>Stop\<close> ends for good, and what it does not. It lets go of the datagram session, the push
  transport, the audio device, the codec, the certificate, the DTLS session and both SRTP contexts; and unless the call is
  started again no signaling, datagram, timer period or call brings any of these back, leaves the stopped state or tells
  the observer anything, a capture turn does nothing, and a timer period at most disarms itself, sending nothing. The ICE
  agent and the timer are released at the moment of \<open>Stop\<close> only: on a call whose ICE had not been started, peer
  signaling that arrives later creates the agent and arms the timer all the same. The TURN clients are neither closed nor
  dropped.
\<close>

theorem stop_ends_media:
  assumes "\<not> cn_stopped s" and "list_all (\<lambda>e. \<not> is_start e) es"
  shows "let t = conn_Stop s; s' = run_steps (conn_next lib) t es in
    cn_stopped s' \<and> cn_state s' = TgStopped \<and> cn_notified s' = cn_notified t
    \<and> cn_socket s' = None \<and> cn_transport s' = None \<and> cn_audio s' = None \<and> cn_codec s' = None
    \<and> cn_localCert s' = None \<and> cn_dtls s' = None \<and> cn_srtpOutgoing s' = None \<and> cn_srtpIncoming s' = None
    \<and> (\<forall>opus arrived io. conn_next lib s' (CeCapture opus arrived io) = s')
    \<and> (\<forall>txn io. conn_next lib s' (CeTick txn io) = s'\<lparr>cn_timerRuns := False\<rparr>)
    \<and> cn_iceAgent t = None \<and> \<not> cn_iceRetryTimer t \<and> cn_turnClients t = cn_turnClients s
    \<and> (cn_peerInitialReceived s \<and> cn_peerUfrag s \<noteq> [] \<and> cn_peerPwd s \<noteq> [] \<and> \<not> cn_iceStarted s \<longrightarrow>
         (\<forall>env c cs. cn_iceAgent (OnPeerCandidates lib env (c # cs) t) \<noteq> None
            \<and> cn_timerRuns (OnPeerCandidates lib env (c # cs) t)))"
proof -
  let ?t = "conn_Stop s" and ?s = "run_steps (conn_next lib) (conn_Stop s) es"
  have e: "ended (cn_notified ?t) ?s" by (rule ended_run [OF ended_Stop [OF assms(1)] assms(2)])
  have c: "conn_next lib ?s (CeCapture opus arrived io) = ?s" for opus arrived io
    using e by (simp add: ended_def conn_next_def RunAudioCaptureLoop_turn_def)
  have t: "conn_next lib ?s (CeTick txn io) = ?s\<lparr>cn_timerRuns := False\<rparr>" for txn io
    using ended_tick [OF e] by (simp add: conn_next_def)
  have r: "cn_iceAgent ?t = None" "\<not> cn_iceRetryTimer ?t" "cn_turnClients ?t = cn_turnClients s"
    "cn_peerInitialReceived ?t = cn_peerInitialReceived s" "cn_peerUfrag ?t = cn_peerUfrag s"
    "cn_peerPwd ?t = cn_peerPwd s" "cn_iceStarted ?t = cn_iceStarted s"
    using assms(1) by (simp_all add: conn_Stop_def StopAudioLoop_def StopIceRetryTimer_def Let_def)
  have a: "cn_iceAgent (OnPeerCandidates lib env (x # xs) ?t) \<noteq> None \<and> cn_timerRuns (OnPeerCandidates lib env (x # xs) ?t)"
    if "cn_peerInitialReceived s" "cn_peerUfrag s \<noteq> []" "cn_peerPwd s \<noteq> []" "\<not> cn_iceStarted s" for env x xs
    unfolding OnPeerCandidates_def Let_def by (intro conjI StartIcePhase_starts) (use that r in simp_all)
  show ?thesis
    unfolding Let_def using e c t r(1-3) a by (simp add: ended_def)
qed

theorem stop_ends_media_witness:
  "\<forall>lib txn io env sdp. let t = conn_Stop peer_ready in
     cn_state (run_steps (conn_next lib) t [CeMute True, CeStop, CeTick txn io]) = TgStopped
     \<and> cn_transport (run_steps (conn_next lib) t [CeMute True, CeStop, CeTick txn io]) = None
     \<and> cn_transport peer_ready \<noteq> None \<and> cn_iceAgent (OnPeerCandidates lib env [sdp] t) \<noteq> None"
proof (intro allI)
  fix lib txn io env sdp
  have "cn_peerInitialReceived peer_ready \<and> cn_peerUfrag peer_ready \<noteq> [] \<and> cn_peerPwd peer_ready \<noteq> [] \<and> \<not> cn_iceStarted peer_ready"
    "\<not> cn_stopped peer_ready" "cn_transport peer_ready \<noteq> None" "list_all (\<lambda>e. \<not> is_start e) [CeMute True, CeStop, CeTick txn io]"
    by (simp_all add: peer_ready_def TgcallsConnection_new_def)
  then show "let t = conn_Stop peer_ready in
     cn_state (run_steps (conn_next lib) t [CeMute True, CeStop, CeTick txn io]) = TgStopped
     \<and> cn_transport (run_steps (conn_next lib) t [CeMute True, CeStop, CeTick txn io]) = None
     \<and> cn_transport peer_ready \<noteq> None \<and> cn_iceAgent (OnPeerCandidates lib env [sdp] t) \<noteq> None"
    using stop_ends_media [of peer_ready "[CeMute True, CeStop, CeTick txn io]" lib]
    unfolding Let_def by blast
qed


section \<open>Starting\<close>

lemma start_transports_fields [simp]:
  "cn_signaled (snd (start_transports lib env s)) = cn_signaled s"
  "cn_localUfrag (snd (start_transports lib env s)) = cn_localUfrag s"
  "cn_localPwd (snd (start_transports lib env s)) = cn_localPwd s"
  "cn_localFingerprint (snd (start_transports lib env s)) = cn_localFingerprint s"
  "cn_localSetupRole (snd (start_transports lib env s)) = cn_localSetupRole s"
  "cn_localUdpPort (snd (start_transports lib env s)) = cn_localUdpPort s"
  "cn_localCert (snd (start_transports lib env s)) = cn_localCert s"
  by (simp_all add: start_transports_def CreateDatagramSession_def Let_def split_beta)

lemma start_transports_outcome:
  "start_transports lib env s = (e, s') \<Longrightarrow>
     if VoipError_IsOk e then cn_state s' = TgIceConnecting \<and> cn_socket s' \<noteq> None \<and> cn_transport s' \<noteq> None
     else cn_state s' = TgFailed"
  by (auto simp: start_transports_def CreateDatagramSession_def Let_def split_beta split: if_splits)

lemma EmitInitialSetup_ok:
  assumes "cn_hasSignalingOut s" and "length (cn_sharedKey s) = 256"
  shows "EmitInitialSetup lib s = (VoipError_Ok, s\<lparr>cn_outgoingSignalingSeq := cn_outgoingSignalingSeq s + 1,
    cn_signaled := cn_signaled s @ [env_Encrypt (cl_Sha256 lib) (cl_SignalingAes lib) (cn_sharedKey s) (cn_isOutgoing s)
      (cn_outgoingSignalingSeq s + 1) [initial_setup_message s]]\<rparr>)"
  using assms by (simp add: EmitInitialSetup_def EmitMessages_def Let_def env_Encrypt_nonempty)

lemma udp_port_bounds: "0x4000 \<le> udp_port ssrc"
proof -
  have "(0x4000 :: u16) \<le> ucast (ssrc AND 0xFFFF) OR 0x4000" by (rule le_word_or1)
  then have "(0x4000 :: u16) \<le> ucast ((ssrc AND 0xFFFF) OR 0x4000)" by (simp add: unsigned_or_eq)
  moreover from this have "\<not> (ucast ((ssrc AND 0xFFFF) OR 0x4000) :: u16) < 1024"
    by (simp add: word_le_nat_alt word_less_nat_alt)
  ultimately show ?thesis by (simp add: udp_port_def Let_def)
qed

lemma tokens: "length (GenerateRandomToken n rnd) = n" "set (GenerateRandomToken n rnd) \<subseteq> set kAlphabet"
  by (auto simp: GenerateRandomToken_def intro!: nth_mem) (simp add: kAlphabet_def)

text \<open>
  Claim C22: what \<open>Start\<close> does. It succeeds only with a 256-byte key, a reflector and a signaling callback;
  then the connection is IceConnecting with its transport, has an identity with a fresh 4-character
  user fragment, a 22-character password and an announced port of at least 16384, and has sent exactly
  one message more. When it fails, nothing has changed, or the connection is Failed.
\<close>

theorem start_outcome:
  assumes "conn_Start lib env s = Some (e, s')"
  shows "if VoipError_IsOk e
    then length (cn_sharedKey s) = 256 \<and> cn_reflectors s \<noteq> [] \<and> cn_hasSignalingOut s \<and> cn_state s' = TgIceConnecting
      \<and> cn_transport s' \<noteq> None \<and> cn_localCert s' \<noteq> None \<and> length (cn_localUfrag s') = 4 \<and> length (cn_localPwd s') = 22
      \<and> 0x4000 \<le> cn_localUdpPort s' \<and> length (cn_signaled s') = Suc (length (cn_signaled s))
    else s' = s \<or> cn_state s' = TgFailed"
  using assms
proof (cases rule: conn_Start_cases)
  case (4 kp fp)
  define x where "x = snd (EmitInitialSetup lib (identified env kp fp s))"
  have st: "length (cn_sharedKey s) = 256" "cn_reflectors s \<noteq> []" "cn_hasSignalingOut s"
    using 4(1) by (simp_all add: startable_def kSharedKeySize_def)
  have tr: "start_transports lib env x = (e, s')" using 4(5) by (simp add: x_def)
  then have s': "s' = snd (start_transports lib env x)" by simp
  have sig: "length (cn_signaled x) = Suc (length (cn_signaled s))"
    using EmitInitialSetup_ok [of "identified env kp fp s" lib] st by (simp add: x_def identified_def)
  have id: "cn_localCert x \<noteq> None" "length (cn_localUfrag x) = 4" "length (cn_localPwd x) = 22"
    "0x4000 \<le> cn_localUdpPort x"
    by (simp_all add: x_def EmitInitialSetup_def, simp_all add: identified_def tokens udp_port_bounds)
  show ?thesis
  proof (cases "VoipError_IsOk e")
    case True
    with start_transports_outcome [OF tr] have "cn_state s' = TgIceConnecting" "cn_transport s' \<noteq> None" by simp_all
    with True st sig id show ?thesis by (simp add: s')
  next
    case False
    with start_transports_outcome [OF tr] show ?thesis by simp
  qed
qed simp_all


definition sample_start :: "(nat \<Rightarrow> reflector_io) \<Rightarrow> start_env" where
  "sample_start r = \<lparr>se_keyPair = Some (Some 7), se_cert = sample_call [1, 2, 3, 4, 5, 6, 7, 8] 0,
     se_ufrag = (\<lambda>i. of_nat i), se_pwd = (\<lambda>i. of_nat i), se_ssrc = (\<lambda>i. 9),
     se_open = \<lparr>oi_create = None, oi_register = None, oi_bind = None, oi_stream = None, oi_arrived = []\<rparr>,
     se_reflector = r\<rparr>"

lemma sample_fingerprint:
  obtains fp where "ToSha256Fingerprint (sample_call [1, 2, 3, 4, 5, 6, 7, 8] 0) \<lparr>m_Key = Some 7\<rparr> = Some fp"
proof -
  obtain c where "ToX509SelfSignedDer (sample_call [1, 2, 3, 4, 5, 6, 7, 8] 0) \<lparr>m_Key = Some 7\<rparr> = Some c"
    using sample_certificate_bytes [of 2] by auto
  then show ?thesis using that by (cases "c = []") (simp_all add: ToSha256Fingerprint_def Let_def)
qed

lemma sample_started:
  obtains s' where "conn_Start lib (sample_start r) (TgcallsConnection_new sample_params True True) = Some (VoipError_Ok, s')"
proof -
  let ?s = "TgcallsConnection_new sample_params True True"
  obtain fp where fp: "ToSha256Fingerprint (sample_call [1, 2, 3, 4, 5, 6, 7, 8] 0) \<lparr>m_Key = Some 7\<rparr> = Some fp"
    by (rule sample_fingerprint)
  define x where "x = snd (EmitInitialSetup lib (identified (sample_start r) \<lparr>m_Key = Some 7\<rparr> fp ?s))"
  have "EmitInitialSetup lib (identified (sample_start r) \<lparr>m_Key = Some 7\<rparr> fp ?s) = (VoipError_Ok, x)"
    using EmitInitialSetup_ok [of "identified (sample_start r) \<lparr>m_Key = Some 7\<rparr> fp ?s" lib]
    by (simp add: x_def identified_def TgcallsConnection_new_def sample_params_def)
  then have "conn_Start lib (sample_start r) ?s = Some (start_transports lib (sample_start r) x)"
    by (simp add: conn_Start_def TgcallsConnection_new_def sample_params_def sample_start_def identified_def
        kSharedKeySize_def Generate_def fp Let_def)
  moreover have "cn_reflectors x = cn_reflectors ?s" by (simp add: x_def EmitInitialSetup_def identified_def)
  then have "fst (start_transports lib (sample_start r) x) = VoipError_Ok"
    by (simp add: start_transports_def CreateDatagramSession_def ds_Open_def native_endpoint_def Let_def split_beta
        TgcallsConnection_new_def sample_params_def sample_start_def VoipEndpoint_default_def DatagramSession_new_def datagram_Ok_def)
  ultimately show ?thesis using that by (cases "start_transports lib (sample_start r) x") simp
qed

theorem start_outcome_witness:
  "\<forall>lib r. \<exists>e s'. conn_Start lib (sample_start r) (TgcallsConnection_new sample_params True True) = Some (e, s')
     \<and> VoipError_IsOk e \<and> cn_state s' = TgIceConnecting \<and> length (cn_signaled s') = 1"
proof (intro allI)
  fix lib r
  obtain s' where s: "conn_Start lib (sample_start r) (TgcallsConnection_new sample_params True True) = Some (VoipError_Ok, s')"
    by (rule sample_started)
  from start_outcome [OF s] s
  show "\<exists>e s'. conn_Start lib (sample_start r) (TgcallsConnection_new sample_params True True) = Some (e, s')
     \<and> VoipError_IsOk e \<and> cn_state s' = TgIceConnecting \<and> length (cn_signaled s') = 1"
    by (simp add: TgcallsConnection_new_def)
qed


section \<open>InitialSetup between two ends\<close>

lemma length_escape_char: "length (escape_char c) \<le> 6"
  by (simp add: escape_char_def)

lemma length_EscapeJson: "length (EscapeJson s) \<le> 6 * length s"
proof (induction s)
  case (Cons c s)
  then show ?case using length_escape_char [of c] by (simp add: EscapeJson_def)
qed (simp add: EscapeJson_def)

lemma length_hex_colons: "length (hex_colons bs) \<le> 3 * length bs"
  by (induction bs rule: hex_colons.induct) (simp_all add: hex_pair_def)

lemma fingerprint_length: "ToSha256Fingerprint cc kp = Some fp \<Longrightarrow> length fp \<le> 96"
proof -
  assume "ToSha256Fingerprint cc kp = Some fp"
  then have "fp = [] \<or> (\<exists>h. length h = 32 \<and> fp = hex_colons h)"
    by (auto simp: ToSha256Fingerprint_def Let_def split: bind_splits if_splits)
  then consider "fp = []" | h where "length h = 32" "fp = hex_colons h" by blast
  then show ?thesis
  proof cases
    case (2 h)
    then show ?thesis using length_hex_colons [of h] by simp
  qed simp
qed


definition small_setup :: "InitialSetupMsg \<Rightarrow> bool" where
  "small_setup m \<longleftrightarrow> length (InitialSetupMsg.Ufrag m) + length (Pwd m) + length (fp_Hash (Fingerprint m))
     + length (fp_Setup (Fingerprint m)) + length (fp_Fingerprint (Fingerprint m)) \<le> 1000"

lemma setup_message_fits:
  assumes "MType m = MsgInitialSetup" and "small_setup (Initial m)"
  shows "length (Serialize m) \<le> 1024 * 1024"
proof -
  note e = length_EscapeJson [of "InitialSetupMsg.Ufrag (Initial m)"] length_EscapeJson [of "Pwd (Initial m)"]
    length_EscapeJson [of "fp_Hash (Fingerprint (Initial m))"] length_EscapeJson [of "fp_Setup (Fingerprint (Initial m))"]
    length_EscapeJson [of "fp_Fingerprint (Fingerprint (Initial m))"]
  have "length (bool_text b) \<le> 10" for b by (simp add: bool_text_def)
  from this [of "SupportsRenomination (Initial m)"] e assms show ?thesis
    by (simp add: Serialize_def SerializeInitialSetup_def small_setup_def)
qed

lemma initial_setup_message_simps [simp]:
  "MType (initial_setup_message s) = MsgInitialSetup"
  "Initial (initial_setup_message s) = \<lparr>InitialSetupMsg.Ufrag = cn_localUfrag s, Pwd = cn_localPwd s, SupportsRenomination = False,
     Fingerprint = \<lparr>fp_Hash = ''sha-256'', fp_Setup = cn_localSetupRole s, fp_Fingerprint = cn_localFingerprint s\<rparr>\<rparr>"
  by (simp_all add: initial_setup_message_def)

lemma setup_sendable: "sendable (initial_setup_message s)"
  by (simp add: sendable_def initial_setup_message_def TgcallsMessage_default_def MediaStateMsg_default_def)

lemma OnPeerInitialSetup_peer:
  "cn_peerInitialReceived (OnPeerInitialSetup lib env m s)" "cn_peerUfrag (OnPeerInitialSetup lib env m s) = InitialSetupMsg.Ufrag m"
  "cn_peerPwd (OnPeerInitialSetup lib env m s) = Pwd m"
  "cn_peerFingerprint (OnPeerInitialSetup lib env m s) = fp_Fingerprint (Fingerprint m)"
  "cn_localSetupRole (OnPeerInitialSetup lib env m s) =
     (if cn_isOutgoing s then cn_localSetupRole s
      else if fp_Setup (Fingerprint m) = ''actpass'' \<or> fp_Setup (Fingerprint m) = ''passive'' then ''active'' else ''passive'')"
  by (simp_all add: OnPeerInitialSetup_def Let_def)

text \<open>
  Claim C3: the two ends of a call agree on ICE and DTLS. What a started end sends as its first
  message, the other end of the call, with the same key and the other direction, reads as that end's
  user fragment, password and certificate fingerprint, in whatever state it is and whatever its
  platform answers. The callee then takes the active DTLS role, although it told the caller, if it was
  started before, that it would be passive.
\<close>

theorem initial_setup_reaches_peer:
  assumes "conn_Start lib env (TgcallsConnection_new params b1 b2) = Some (e, caller)" and "VoipError_IsOk e"
    and "cn_sharedKey peer = sp_SharedKey params" and "cn_isOutgoing peer \<longleftrightarrow> \<not> sp_IsOutgoing params"
  shows "\<exists>blob peer'. cn_signaled caller = [blob] \<and> HandleIncomingSignaling lib envs blob peer = Some (VoipError_Ok, peer')
    \<and> cn_peerInitialReceived peer' \<and> cn_peerUfrag peer' = cn_localUfrag caller \<and> cn_peerPwd peer' = cn_localPwd caller
    \<and> cn_peerFingerprint peer' = cn_localFingerprint caller
    \<and> (sp_IsOutgoing params \<longrightarrow> cn_localSetupRole peer' = ''active'')
    \<and> (\<not> sp_IsOutgoing params \<longrightarrow> cn_localSetupRole caller = ''passive'')"
  using assms(1)
proof (cases rule: conn_Start_cases)
  case (4 kp fp)
  let ?new = "TgcallsConnection_new params b1 b2"
  define y where "y = identified env kp fp ?new"
  define x where "x = snd (EmitInitialSetup lib y)"
  define m where "m = initial_setup_message y"
  define blob where "blob = env_Encrypt (cl_Sha256 lib) (cl_SignalingAes lib) (sp_SharedKey params) (sp_IsOutgoing params) 1 [m]"
  have key: "length (sp_SharedKey params) = 256" "b1"
    using 4(1) by (simp_all add: startable_def kSharedKeySize_def TgcallsConnection_new_def)
  have y: "cn_hasSignalingOut y" "cn_sharedKey y = sp_SharedKey params" "cn_isOutgoing y = sp_IsOutgoing params"
    "cn_outgoingSignalingSeq y = 0" "cn_signaled y = []" "cn_localFingerprint y = fp"
    "length (cn_localUfrag y) = 4" "length (cn_localPwd y) = 22"
    "cn_localSetupRole y = (if sp_IsOutgoing params then ''actpass'' else ''passive'')"
    using key by (simp_all add: y_def identified_def TgcallsConnection_new_def tokens)
  have x: "x = y\<lparr>cn_outgoingSignalingSeq := 1, cn_signaled := [blob]\<rparr>"
    using EmitInitialSetup_ok [of y lib] y key by (simp add: x_def blob_def m_def)
  have "caller = snd (start_transports lib env x)" using 4(5) by (simp add: x_def y_def)
  then have c: "cn_signaled caller = [blob]" "cn_localUfrag caller = cn_localUfrag y" "cn_localPwd caller = cn_localPwd y"
    "cn_localFingerprint caller = cn_localFingerprint y" "cn_localSetupRole caller = cn_localSetupRole y"
    by (simp_all add: x)
  have "small_setup (Initial m)"
    using fingerprint_length [OF 4(3)] y by (simp add: small_setup_def m_def)
  then have "length (Serialize m) \<le> 1024 * 1024" by (intro setup_message_fits) (simp_all add: m_def)
  then have d: "env_Decrypt (cl_Sha256 lib) (cl_SignalingAes lib) (sp_SharedKey params) (cn_isOutgoing peer) blob = Some [received m]"
    using envelope_exchange_aux [OF key(1), of "[m]" "cl_Sha256 lib" "cl_SignalingAes lib" "sp_IsOutgoing params" 1]
    by (simp add: blob_def m_def setup_sendable assms(4))
  have ne: "blob \<noteq> []" using key by (simp add: blob_def env_Encrypt_nonempty)
  have r: "MType (received m) = MsgInitialSetup" "Initial (received m) = Initial m"
    by (simp_all add: received_def m_def Let_def)
  define peer' where "peer' = OnPeerInitialSetup lib (envs 0) (Initial m) peer"
  have h: "HandleIncomingSignaling lib envs blob peer = Some (VoipError_Ok, peer')"
    using ne key by (simp add: HandleIncomingSignaling_def assms(3) kSharedKeySize_def d r dispatch_signaling_def peer'_def)
  show ?thesis
    using c h y(9) assms(4) by (intro exI [of _ blob] exI [of _ peer'])
      (simp add: peer'_def OnPeerInitialSetup_peer m_def)
qed (use assms(2) in simp_all)

theorem initial_setup_reaches_peer_witness:
  "\<forall>lib r envs. \<exists>caller blob peer'.
     conn_Start lib (sample_start r) (TgcallsConnection_new sample_params True True) = Some (VoipError_Ok, caller)
     \<and> HandleIncomingSignaling lib envs blob
         (TgcallsConnection_new (sample_params\<lparr>sp_IsOutgoing := False\<rparr>) True True) = Some (VoipError_Ok, peer')
     \<and> cn_peerUfrag peer' = cn_localUfrag caller"
proof (intro allI)
  fix lib r envs
  obtain s' where s: "conn_Start lib (sample_start r) (TgcallsConnection_new sample_params True True) = Some (VoipError_Ok, s')"
    by (rule sample_started)
  from initial_setup_reaches_peer [OF s, of "TgcallsConnection_new (sample_params\<lparr>sp_IsOutgoing := False\<rparr>) True True" envs]
  obtain blob peer' where "HandleIncomingSignaling lib envs blob
      (TgcallsConnection_new (sample_params\<lparr>sp_IsOutgoing := False\<rparr>) True True) = Some (VoipError_Ok, peer')"
    "cn_peerUfrag peer' = cn_localUfrag s'"
    by (auto simp: TgcallsConnection_new_def sample_params_def)
  then show "\<exists>caller blob peer'.
     conn_Start lib (sample_start r) (TgcallsConnection_new sample_params True True) = Some (VoipError_Ok, caller)
     \<and> HandleIncomingSignaling lib envs blob
         (TgcallsConnection_new (sample_params\<lparr>sp_IsOutgoing := False\<rparr>) True True) = Some (VoipError_Ok, peer')
     \<and> cn_peerUfrag peer' = cn_localUfrag caller"
    using s by blast
qed



section \<open>Announced addresses\<close>

definition host_candidate :: "nat \<Rightarrow> string \<Rightarrow> u16 \<Rightarrow> string \<Rightarrow> ParsedIceCandidate" where
  "host_candidate n ip port ufrag = ParsedIceCandidate_default\<lparr>Foundation := show_nat n, ComponentId := 1, Transport := ''udp'',
     CandPriority := 2122194688, ParsedIceCandidate.Ip := ip, ParsedIceCandidate.Port := uint port,
     Type := IceCandidateType_Host, ParsedIceCandidate.Ufrag := ufrag, NetworkId := int n, NetworkCost := 10, Generation := 0\<rparr>"

lemma show_int_of_nat: "show_int (int n) = show_nat n" "show_int 0 = ''0''" "show_int 1 = ''1''" "show_int 10 = ''10''"
proof -
  show n: "show_int (int n) = show_nat n" for n by (simp add: show_int_def)
  have "show_nat 0 = ''0''" "show_nat 1 = ''1''" "show_nat 10 = ''10''"
    by (simp_all add: show_nat.simps digit_char_def digit_chars)
  then show "show_int 0 = ''0''" "show_int 1 = ''1''" "show_int 10 = ''10''"
    using n [of 0] n [of 1] n [of 10] by simp_all
qed

lemma candidate_sdp_Format:
  assumes "0 < n" and "ufrag \<noteq> []"
  shows "candidate_sdp n ip port ufrag = cand_Format (host_candidate n ip port ufrag)"
proof -
  have p: "show_nat (unat (2122194688 :: u32)) = ''2122194688''"
    by (simp add: show_nat.simps digit_char_def digit_chars)
  have "show_int (uint port) = show_nat (unat port)" using show_int_of_nat(1) [of "unat port"] by simp
  then show ?thesis
    using assms p by (simp add: candidate_sdp_def cand_Format_def host_candidate_def ParsedIceCandidate_default_def show_int_of_nat)
qed

lemma candidate_sdp_understood:
  assumes "0 < n" and "n < 2 ^ 31" and "token ip" and "token ufrag"
  shows "cand_Parse (candidate_sdp n ip port ufrag) = Some (host_candidate n ip port ufrag)"
proof -
  have "uint port < 65536" using uint_bounded [of port] by simp
  moreover have "- 2147483648 \<le> uint port" using uint_nonnegative [of port] by linarith
  ultimately have "int32 (uint port)" by (simp add: int32_def)
  then have "cand_writable (host_candidate n ip port ufrag)"
    using assms by (simp add: cand_writable_def host_candidate_def ParsedIceCandidate_default_def token_show_nat int32_def)
      (simp add: token_def trim_char_def)
  from candidate_roundtrip [OF this] show ?thesis
    using assms candidate_sdp_Format [of n ufrag ip port] by (auto simp: token_def) (simp add: host_candidate_def)
qed

text \<open>
  The addresses of the machine as text, and the texts that are kept back: nothing, the two loopback addresses, anything
  with a zone, and what begins with one of sixteen spellings of fe80, fe81, fe90 and fe91.
\<close>

definition addresses :: "host_name list \<Rightarrow> string list" where
  "addresses hosts = List.map_filter
     (\<lambda>h. case h of Some (True, name) \<Rightarrow> Some (PlatformStringToUtf8 name) | _ \<Rightarrow> None) hosts"

definition kept_back :: "string \<Rightarrow> bool" where
  "kept_back ip \<longleftrightarrow> ip \<in> {[], ''127.0.0.1'', ''::1''} \<or> CHR ''%'' \<in> set ip
     \<or> take 4 ip \<in> set (product_lists [''fF'', ''eE'', ''89'', ''01''])"

lemma link_local_spellings:
  "take 4 ip \<in> set (product_lists [''fF'', ''eE'', ''89'', ''01'']) \<longleftrightarrow>
     4 \<le> length ip \<and> ip ! 0 \<in> {CHR ''f'', CHR ''F''} \<and> ip ! 1 \<in> {CHR ''e'', CHR ''E''} \<and>
     ip ! 2 \<in> {CHR ''8'', CHR ''9''} \<and> ip ! 3 \<in> {CHR ''0'', CHR ''1''}"
proof (cases "4 \<le> length ip")
  case True
  then obtain a b c d r where ip: "ip = a # b # c # d # r" by (auto simp: Suc_le_length_iff numeral_eq_Suc)
  then have "take 4 ip = [a, b, c, d]" by simp
  moreover have "[a, b, c, d] \<in> set (product_lists [''fF'', ''eE'', ''89'', ''01'']) \<longleftrightarrow>
      a \<in> set ''fF'' \<and> b \<in> set ''eE'' \<and> c \<in> set ''89'' \<and> d \<in> set ''01''"
    by (simp only: product_lists_set mem_Collect_eq list_all2_Cons list_all2_Nil simp_thms)
  moreover have "ip ! 0 = a" "ip ! 1 = b" "ip ! 2 = c" "ip ! 3 = d" by (simp_all add: ip)
  ultimately show ?thesis using True by (simp only: list.set simp_thms)
next
  case False
  then have "length (take 4 ip) < 4" by simp
  moreover have "length xs = 4" if "xs \<in> set (product_lists [''fF'', ''eE'', ''89'', ''01''])" for xs
    using in_set_product_lists_length [OF that] by simp
  ultimately show ?thesis using False by (metis less_irrefl)
qed

lemma kept_back_code: "IsLocalCandidateIp ip \<longleftrightarrow> \<not> kept_back ip"
  unfolding IsLocalCandidateIp_def kept_back_def link_local_spellings by auto

definition advertised :: "host_name list \<Rightarrow> string list" where
  "advertised hosts = filter (\<lambda>ip. \<not> kept_back ip) (addresses hosts)"

lemma host_candidates_eq:
  "host_candidates n port ufrag hosts = map (\<lambda>(i, ip). \<lparr>SdpString = candidate_sdp i ip port ufrag\<rparr>) (enumerate n (advertised hosts))"
  by (induction n port ufrag hosts rule: host_candidates.induct)
    (simp_all add: advertised_def addresses_def List.map_filter_simps kept_back_code)

lemma length_advertised: "length (advertised hosts) \<le> length hosts"
proof -
  have "length (addresses hosts) \<le> length hosts"
    by (induction hosts) (auto simp: addresses_def List.map_filter_simps split: option.split)
  then show ?thesis using length_filter_le [of "\<lambda>ip. \<not> kept_back ip" "addresses hosts"]
    unfolding advertised_def by (rule le_trans [rotated])
qed

definition plain_name :: "host_name \<Rightarrow> bool" where
  "plain_name h = (case h of None \<Rightarrow> True | Some (_, name) \<Rightarrow> list_all (\<lambda>ch. ch \<notin> {0x20, 0x09, 0x0D, 0x0A}) name)"

lemma trim_char_code: "trim_char c \<Longrightarrow> of_char c \<in> {0x20, 0x09, 0x0D, 0x0A :: nat}"
  by (auto simp: trim_char_def)

lemma advertised_tokens:
  assumes "list_all plain_name hosts"
  shows "list_all token (advertised hosts)"
proof -
  have "token (PlatformStringToUtf8 name)" if "plain_name (Some (b, name))" "\<not> kept_back (PlatformStringToUtf8 name)" for b name
  proof -
    have "\<forall>ch \<in> set name. \<not> trim_char (if ch < 0x80 then char_of ch else CHR ''?'')"
    proof
      fix ch
      assume ch: "ch \<in> set name"
      show "\<not> trim_char (if ch < 0x80 then char_of ch else CHR ''?'')"
      proof (cases "ch < 0x80")
        case True
        then have "of_char (char_of ch :: char) = ch" by simp
        moreover have "ch \<notin> {0x20, 0x09, 0x0D, 0x0A}" using that(1) ch by (auto simp: plain_name_def list_all_iff)
        ultimately show ?thesis using True trim_char_code [of "char_of ch"] by auto
      qed (simp add: trim_char_def)
    qed
    moreover have "PlatformStringToUtf8 name \<noteq> []" using that(2) by (auto simp: kept_back_def)
    ultimately show ?thesis by (simp add: token_def PlatformStringToUtf8_def del: if_image_distrib)
  qed
  then show ?thesis
    using assms
    by (induction hosts) (auto simp: advertised_def addresses_def List.map_filter_simps split: option.splits bool.splits)
qed

lemma token_random: "0 < n \<Longrightarrow> token (GenerateRandomToken n rnd)"
proof -
  assume "0 < n"
  have "\<forall>c \<in> set kAlphabet. \<not> trim_char c" by (simp add: kAlphabet_def trim_char_def)
  then have "\<forall>c \<in> set (GenerateRandomToken n rnd). \<not> trim_char c" using tokens(2) [of n rnd] by blast
  moreover have "GenerateRandomToken n rnd \<noteq> []" using tokens(1) [of n rnd] \<open>0 < n\<close> by (metis length_0_conv not_less0)
  ultimately show ?thesis by (simp add: token_def)
qed

text \<open>
  The addresses announced are the addresses read, and exactly these are announced: of the IP addresses
  of the machine, in order and numbered from 1, all but the empty text, 127.0.0.1, ::1, those with a zone and those that
  begin with fe80, fe81, fe90 or fe91 in either case. The peer that parses a line has one host candidate with that
  address, the announced port and the user fragment. The rest of the link-local range fe80::/10, which the comment in the
  code says is skipped, is announced (fe82::1 in the example), as are the other loopback addresses.
\<close>

theorem announced_hosts_understood:
  assumes "list_all plain_name hosts" and "length hosts < 2 ^ 31 - 1"
  shows "map (\<lambda>c. cand_Parse (SdpString c)) (host_candidates 1 port (GenerateRandomToken 4 rnd) hosts)
    = map (\<lambda>(i, ip). Some (host_candidate i ip port (GenerateRandomToken 4 rnd))) (enumerate 1 (advertised hosts))"
proof -
  have l: "length (advertised hosts) \<le> length hosts" by (rule length_advertised)
  have "cand_Parse (candidate_sdp i ip port (GenerateRandomToken 4 rnd)) = Some (host_candidate i ip port (GenerateRandomToken 4 rnd))"
    if "(i, ip) \<in> set (enumerate 1 (advertised hosts))" for i ip
  proof -
    from that have i: "1 \<le> i" "i < 1 + length (advertised hosts)" and ip: "ip \<in> set (advertised hosts)"
      by (auto simp: in_set_enumerate_eq)
    have "token ip" using advertised_tokens [OF assms(1)] ip by (simp add: list_all_iff)
    then show ?thesis using i l assms(2) by (intro candidate_sdp_understood) (simp_all add: token_random)
  qed
  then show ?thesis by (auto simp: host_candidates_eq)
qed

theorem announced_hosts_understood_witness:
  "map (\<lambda>c. cand_Parse (SdpString c)) (host_candidates 1 5000 (GenerateRandomToken 4 (\<lambda>i. 7))
       [None, Some (True, [49, 48, 46, 48, 46, 48, 46, 49]), Some (False, [112, 99]),
        Some (True, [70, 69, 56, 48, 58, 58, 49]), Some (True, [102, 101, 56, 50, 58, 58, 49])])
    = [Some (host_candidate 1 ''10.0.0.1'' 5000 (GenerateRandomToken 4 (\<lambda>i. 7))),
       Some (host_candidate 2 ''fe82::1'' 5000 (GenerateRandomToken 4 (\<lambda>i. 7)))]"
proof -
  let ?hosts = "[None, Some (True, [49, 48, 46, 48, 46, 48, 46, 49]), Some (False, [112, 99]),
        Some (True, [70, 69, 56, 48, 58, 58, 49]), Some (True, [102, 101, 56, 50, 58, 58, 49])]"
  have "advertised ?hosts = [''10.0.0.1'', ''fe82::1'']" by code_simp
  moreover have "list_all plain_name ?hosts" by (simp add: plain_name_def)
  ultimately show ?thesis
    using announced_hosts_understood [of ?hosts 5000 "\<lambda>i. 7"]
    by (simp del: host_candidates.simps) (simp add: numeral_2_eq_2)
qed

end
