(* ===== verification/VoicePath.thy ===== *)
theory VoicePath
  imports CallProperties
begin

text \<open>
  Audio between the two ends of a tgcalls call: which packets are played, and that a captured frame
  reaches the other end's device.
\<close>

section \<open>Incoming packets\<close>

definition ssrc_of :: "bytes \<Rightarrow> u32" where
  "ssrc_of bs = be32_of (bs ! 8) (bs ! 9) (bs ! 10) (bs ! 11)"

definition latched :: "SrtpEncryptParams \<Rightarrow> u32 \<Rightarrow> TgcallsConnection \<Rightarrow> TgcallsConnection" where
  "latched p x s = (if Ssrc p = 0 then s\<lparr>cn_srtpIncoming := Some (p\<lparr>Ssrc := x\<rparr>), cn_remoteSsrc := x\<rparr> else s)"

lemma OnSrtpDatagram_eq:
  assumes "cn_srtpReady s" and "cn_srtpIncoming s = Some p" and "22 \<le> length bs"
  shows "OnSrtpDatagram lib opus bs s =
    (if Ssrc p \<noteq> 0 \<and> Ssrc p \<noteq> ssrc_of bs then Some s
     else (case srtp_decrypt (cl_SrtpAes lib) (cl_HmacSha1 lib) (p\<lparr>Ssrc := ssrc_of bs\<rparr>) bs of
         None \<Rightarrow> None
       | Some None \<Rightarrow> Some (latched p (ssrc_of bs) s)
       | Some (Some rtp) \<Rightarrow> OnRtpPacket opus rtp (latched p (ssrc_of bs) s)))"
proof -
  have l: "\<not> length bs < 12 + kAuthTagSize" using assms(3) by (simp add: kAuthTagSize_def)
  consider (fresh) "Ssrc p = 0" | (same) "Ssrc p \<noteq> 0" "Ssrc p = ssrc_of bs" | (other) "Ssrc p \<noteq> 0" "Ssrc p \<noteq> ssrc_of bs"
    by blast
  then show ?thesis
  proof cases
    case same
    then have e: "p\<lparr>Ssrc := ssrc_of bs\<rparr> = p" "latched p (ssrc_of bs) s = s" by (simp_all add: latched_def)
    show ?thesis
      unfolding e using assms(1,2) l same by (simp add: OnSrtpDatagram_def ssrc_of_def [symmetric])
  next
    case fresh
    then have e: "latched p (ssrc_of bs) s = s\<lparr>cn_srtpIncoming := Some (p\<lparr>Ssrc := ssrc_of bs\<rparr>), cn_remoteSsrc := ssrc_of bs\<rparr>"
      by (simp add: latched_def)
    show ?thesis
      unfolding e using assms(1,2) l fresh by (simp add: OnSrtpDatagram_def ssrc_of_def [symmetric] Let_def)
  qed (use assms(1,2) l in \<open>simp add: OnSrtpDatagram_def ssrc_of_def [symmetric]\<close>)
qed

lemma StartDtlsPhase_audio [simp]: "cn_audio (StartDtlsPhase env s) = cn_audio s"
  by (simp add: StartDtlsPhase_def Let_def split_beta split: option.split)

lemma OnStunDatagram_audio: "OnStunDatagram lib env bs s = Some s' \<Longrightarrow> cn_audio s' = cn_audio s"
  by (auto simp: OnStunDatagram_def OnIceConnected_def Let_def split: option.splits if_splits bind_splits)

lemma OnDtlsDatagram_audio:
  "OnDtlsDatagram lib env bs s = Some s' \<Longrightarrow> cn_srtpReady s \<Longrightarrow> cn_audio s' = cn_audio s"
  by (auto simp: OnDtlsDatagram_def Let_def split: option.splits if_splits bind_splits)

lemma latched_audio [simp]: "cn_audio (latched p x s) = cn_audio s" "cn_codec (latched p x s) = cn_codec s"
  by (simp_all add: latched_def)

lemma decrypt_authentic:
  assumes "srtp_decrypt enc hmac p bs = Some (Some rtp)"
  shows "22 \<le> length bs" "drop (length bs - 10) bs =
    ComputeAuthTag hmac (SessionAuthKey p) (take (length bs - 10) bs) (RolloverCounter p)"
  using assms by (auto simp: srtp_decrypt_eq Let_def split: if_splits)

text \<open>
  Claim C4: nobody without the keys is heard. Once the keys are there, a datagram changes what the audio
  device has to play only if the call is Connected and the datagram ends with the ten bytes of the
  authentication tag of the rest, under the peer's session key, and comes from the first SSRC seen.
\<close>

theorem played_packets_authentic:
  assumes "OnReflectorDatagram_from lib env ip port bs s = Some s'" and "cn_srtpReady s"
    and "cn_audio s' \<noteq> cn_audio s"
  shows "cn_state s = TgConnected \<and> (\<exists>p. cn_srtpIncoming s = Some p \<and> 22 \<le> length bs \<and> Ssrc p \<in> {0, ssrc_of bs}
    \<and> drop (length bs - 10) bs
        = ComputeAuthTag (cl_HmacSha1 lib) (SessionAuthKey p) (take (length bs - 10) bs) (RolloverCounter p))"
proof -
  define s1 where "s1 = received_bytes (16 + length bs) s"
  have k: "cn_audio s1 = cn_audio s" "cn_srtpReady s1" "cn_state s1 = cn_state s" "cn_srtpIncoming s1 = cn_srtpIncoming s"
    using assms(2) by (simp_all add: s1_def received_bytes_def)
  have ne: "bs \<noteq> []" using assms by (auto simp: OnReflectorDatagram_from_demux)
  then have d: "demux lib env bs s1 = Some s'" using assms(1) by (simp add: OnReflectorDatagram_from_demux s1_def)
  have diff: "cn_audio s' \<noteq> cn_audio s1" using assms(3) k by simp
  then have o: "OnSrtpDatagram lib (de_opus env) bs s1 = Some s'" and st: "cn_state s1 = TgConnected"
    using d k(2) by (auto simp: demux_def dest: OnStunDatagram_audio OnDtlsDatagram_audio split: if_splits)
  have "cn_srtpIncoming s1 \<noteq> None" "22 \<le> length bs"
    using o diff OnSrtp_ignored(3) [of s1 lib "de_opus env" bs] OnSrtp_ignored(1) [of bs lib "de_opus env" s1]
    by (auto simp: kAuthTagSize_def not_le [symmetric])
  then obtain p where p: "cn_srtpIncoming s1 = Some p" "22 \<le> length bs" by auto
  note e = OnSrtpDatagram_eq [OF k(2) p, of lib "de_opus env"]
  have ss: "Ssrc p \<in> {0, ssrc_of bs}" using o diff by (auto simp: e split: if_splits)
  obtain rtp where "srtp_decrypt (cl_SrtpAes lib) (cl_HmacSha1 lib) (p\<lparr>Ssrc := ssrc_of bs\<rparr>) bs = Some (Some rtp)"
    using o diff by (auto simp: e split: if_splits option.splits)
  from decrypt_authentic [OF this] p st ss k show ?thesis by simp
qed


section \<open>The first packet decides\<close>

definition rtp_like :: "bytes \<Rightarrow> bool" where
  "rtp_like bs \<longleftrightarrow> 22 \<le> length bs \<and> 0x80 \<le> bs ! 0 \<and> bs ! 0 \<le> 0xBF"

lemma rtp_like_demux:
  assumes "rtp_like bs" and "cn_state s = TgConnected"
  shows "OnReflectorDatagram_from lib env ip port bs s =
    OnSrtpDatagram lib (de_opus env) bs (received_bytes (16 + length bs) s)"
proof -
  have b: "0x80 \<le> bs ! 0" "bs ! 0 \<le> 0xBF" "bs \<noteq> []" using assms(1) by (auto simp: rtp_like_def)
  then have "\<not> bs ! 0 \<le> 0x03" "\<not> bs ! 0 \<le> 0x1F" by (simp_all add: word_le_nat_alt)
  then show ?thesis using b assms(2) by (simp add: OnReflectorDatagram_from_demux demux_def received_bytes_def)
qed

text \<open>
  Claim C27: one forged packet silences the peer. The peer's SSRC is taken from the first packet that looks
  like RTP, before its authentication tag is checked. A packet that does not verify is dropped, but if it
  is the first one, then every genuine packet of the peer, whose SSRC is another, is dropped unplayed from
  then on, whatever their number.
\<close>

theorem forged_ssrc_mutes_peer:
  assumes "cn_state s = TgConnected" and "cn_srtpReady s" and "cn_srtpIncoming s = Some p" and "Ssrc p = 0"
    and "rtp_like forged" and "ssrc_of forged \<noteq> 0"
    and "srtp_decrypt (cl_SrtpAes lib) (cl_HmacSha1 lib) (p\<lparr>Ssrc := ssrc_of forged\<rparr>) forged = Some None"
    and "list_all (\<lambda>bs. rtp_like bs \<and> ssrc_of bs \<noteq> ssrc_of forged) genuine"
  shows "\<exists>s1. OnReflectorDatagram_from lib env ip port forged s = Some s1
    \<and> cn_audio (run_steps (\<lambda>s bs. case OnReflectorDatagram_from lib env ip port bs s of None \<Rightarrow> s | Some s' \<Rightarrow> s') s1 genuine)
        = cn_audio s"
proof -
  define s0 where "s0 = received_bytes (16 + length forged) s"
  define s1 where "s1 = latched p (ssrc_of forged) s0"
  have k: "cn_srtpReady s0" "cn_srtpIncoming s0 = Some p" "cn_state s0 = TgConnected" "cn_audio s0 = cn_audio s"
    using assms(1-3) by (simp_all add: s0_def received_bytes_def)
  have "OnReflectorDatagram_from lib env ip port forged s = Some s1"
    using assms(4,5,7) k(1,2)
    by (simp add: rtp_like_demux assms(1) s0_def [symmetric] OnSrtpDatagram_eq rtp_like_def s1_def)
  moreover have "cn_state s1 = TgConnected" "cn_srtpReady s1" "cn_audio s1 = cn_audio s"
      "cn_srtpIncoming s1 = Some (p\<lparr>Ssrc := ssrc_of forged\<rparr>)"
    using k assms(4) by (simp_all add: s1_def latched_def)
  moreover from this have "cn_audio (run_steps (\<lambda>s bs. case OnReflectorDatagram_from lib env ip port bs s of
      None \<Rightarrow> s | Some s' \<Rightarrow> s') s1 genuine) = cn_audio s"
    using assms(8)
  proof (induction genuine arbitrary: s1)
    case (Cons g gs)
    define s2 where "s2 = received_bytes (16 + length g) s1"
    have k2: "cn_state s2 = TgConnected" "cn_srtpReady s2" "cn_audio s2 = cn_audio s"
        "cn_srtpIncoming s2 = Some (p\<lparr>Ssrc := ssrc_of forged\<rparr>)"
      using Cons.prems(1-4) by (simp_all add: s2_def received_bytes_def)
    have "ssrc_of forged \<noteq> ssrc_of g" using Cons.prems(5) by auto
    then have "OnReflectorDatagram_from lib env ip port g s1 = Some s2"
      using Cons.prems(1,5) k2 assms(6)
      by (simp add: rtp_like_demux s2_def [symmetric] OnSrtpDatagram_eq [OF k2(2,4)] rtp_like_def)
    then show ?case using Cons.IH [OF k2(1-4)] Cons.prems(5) by simp
  qed simp
  ultimately show ?thesis by blast
qed

definition talking :: TgcallsConnection where
  "talking = (TgcallsConnection_new sample_params True True)\<lparr>cn_state := TgConnected, cn_srtpReady := True,
     cn_srtpIncoming := Some (srtp_params copy_block \<lparr>MasterKey = replicate 16 1, MasterSalt = replicate 14 2\<rparr> 0)\<rparr>"

definition sample_conn_lib :: ConnLib where
  "sample_conn_lib = \<lparr>cl_Sha256 = (\<lambda>b i. 3), cl_SignalingAes = copy_block, cl_SrtpAes = copy_block,
     cl_HmacSha1 = (\<lambda>k m i. 0), cl_Dtls = frame_lib\<rparr>"

theorem forged_ssrc_mutes_peer_witness:
  "\<forall>env ip port. \<exists>s1. OnReflectorDatagram_from sample_conn_lib env ip port (0x80 # replicate 30 1) talking = Some s1
    \<and> cn_audio (run_steps (\<lambda>s bs. case OnReflectorDatagram_from sample_conn_lib env ip port bs s of None \<Rightarrow> s | Some s' \<Rightarrow> s') s1
        [0x80 # replicate 30 0]) = cn_audio talking"
proof (intro allI)
  fix env ip port
  have r: "srtp_decrypt copy_block (\<lambda>k m i. 0) q (0x80 # replicate 30 1) = Some None" for q
  proof -
    have "drop 21 (0x80 # replicate 30 (1 :: u8)) = replicate 10 1" by (simp add: replicate_numeral_Cons)
    moreover have "fill 20 (\<lambda>i. 0 :: u8) = replicate 20 0"
      unfolding fill_def map_replicate_const by simp
    then have "ComputeAuthTag (\<lambda>k m i. 0) a b c = replicate 10 0" for a b c
      by (simp add: ComputeAuthTag_def kAuthTagSize_def)
    ultimately show ?thesis by (simp add: srtp_decrypt_eq Let_def)
  qed
  show "\<exists>s1. OnReflectorDatagram_from sample_conn_lib env ip port (0x80 # replicate 30 1) talking = Some s1
    \<and> cn_audio (run_steps (\<lambda>s bs. case OnReflectorDatagram_from sample_conn_lib env ip port bs s of None \<Rightarrow> s | Some s' \<Rightarrow> s') s1
        [0x80 # replicate 30 0]) = cn_audio talking"
    by (rule forged_ssrc_mutes_peer [of talking "srtp_params copy_block \<lparr>MasterKey = replicate 16 1, MasterSalt = replicate 14 2\<rparr> 0"])
      (simp_all add: talking_def sample_conn_lib_def r, simp_all add: srtp_params_def rtp_like_def ssrc_of_def be32_of_def nth_Cons')
qed



section \<open>From one microphone to the other speaker\<close>

lemma length_rtp_header [simp]: "length (rtp_header sq ts ssrc) = 12"
  by (simp add: rtp_header_def be16_def be32_def)

lemma rtp_header_nth:
  "(rtp_header sq ts ssrc @ fr) ! 0 = 0x80" "be16_of ((rtp_header sq ts ssrc @ fr) ! 2) ((rtp_header sq ts ssrc @ fr) ! 3) = sq"
  "be32_of ((rtp_header sq ts ssrc @ fr) ! 8) ((rtp_header sq ts ssrc @ fr) ! 9)
     ((rtp_header sq ts ssrc @ fr) ! 10) ((rtp_header sq ts ssrc @ fr) ! 11) = ssrc"
  by (simp_all add: rtp_header_def be16_def be32_def codec_simps)

lemma rtp_header_offset: "payload_offset (rtp_header sq ts ssrc @ fr) = 12"
  using rtp_header_nth(1) [of sq ts ssrc fr] by (simp add: payload_offset_def)

lemma rtp_header_payload: "fr \<noteq> [] \<Longrightarrow> rtp_payload (rtp_header sq ts ssrc @ fr) = Some fr"
  using rtp_header_nth(1) [of sq ts ssrc fr] by (simp add: rtp_payload_def Let_def)

text \<open>What the sender makes of a frame.\<close>

lemma voice_packet:
  assumes "fr \<noteq> []"
  obtains packet where "srtp_encrypt enc hmac p (rtp_header sq ts ssrc @ fr) sq = Some (srtp_advance p sq, packet)"
    "rtp_like packet" "ssrc_of packet = ssrc"
proof -
  let ?rtp = "rtp_header sq ts ssrc @ fr"
  let ?body = "take 12 ?rtp @ srtp_cipher enc (srtp_advance p sq) sq (drop 12 ?rtp)"
  let ?packet = "?body @ ComputeAuthTag hmac (SessionAuthKey (srtp_advance p sq)) ?body (RolloverCounter (srtp_advance p sq))"
  have "srtp_encrypt enc hmac p ?rtp sq = Some (srtp_advance p sq, ?packet)"
    using assms by (simp add: srtp_encrypt_eq rtp_header_offset Let_def)
  moreover have n: "?packet ! i = ?rtp ! i" if "i < 12" for i
    using that by (simp add: nth_append)
  have "ssrc_of ?packet = ssrc" unfolding ssrc_of_def using rtp_header_nth(3) [of sq ts ssrc fr] by (simp only: n)
  moreover have "?packet ! 0 = 0x80" using n [of 0] rtp_header_nth(1) [of sq ts ssrc fr] by simp
  then have "rtp_like ?packet" by (simp add: rtp_like_def srtp_cipher_def)
  ultimately show ?thesis using that by blast
qed

text \<open>The receiver's parameters belong to the sender's: the same keys and rollover counter.\<close>

definition paired :: "SrtpEncryptParams \<Rightarrow> SrtpEncryptParams \<Rightarrow> bool" where
  "paired p q \<longleftrightarrow> SessionEncrKey q = SessionEncrKey p \<and> SessionAuthKey q = SessionAuthKey p \<and> SessionSalt q = SessionSalt p
     \<and> RolloverCounter q = RolloverCounter p \<and> Ssrc q \<in> {0, Ssrc p}"

lemma paired_decrypt:
  assumes "paired p q"
  shows "srtp_decrypt enc hmac (q\<lparr>Ssrc := Ssrc p\<rparr>) packet = srtp_decrypt enc hmac p packet"
  using assms by (simp add: srtp_decrypt_eq srtp_cipher_def paired_def Let_def)

lemma srtp_advance_fields [simp]:
  "SessionEncrKey (srtp_advance p sq) = SessionEncrKey p" "SessionAuthKey (srtp_advance p sq) = SessionAuthKey p"
  "SessionSalt (srtp_advance p sq) = SessionSalt p" "Ssrc (srtp_advance p sq) = Ssrc p"
  "HasLastSequenceNumber (srtp_advance p sq)" "LastSequenceNumber (srtp_advance p sq) = sq"
  by (simp_all add: srtp_advance_def Let_def)

lemma srtp_advance_in_order:
  "HasLastSequenceNumber p \<longrightarrow> sq = LastSequenceNumber p + 1 \<Longrightarrow> RolloverCounter (srtp_advance p sq) = RolloverCounter p"
  using srtp_advance_next [of p] by (cases "HasLastSequenceNumber p") (simp_all, simp add: srtp_advance_def)

text \<open>A sending end and a receiving end of one direction of a call.\<close>

definition voice_path :: "TgcallsConnection \<Rightarrow> TgcallsConnection \<Rightarrow> bool" where
  "voice_path a b \<longleftrightarrow>
     cn_audioLoopActive a \<and> cn_srtpReady a \<and> cn_state b = TgConnected \<and> cn_srtpReady b
     \<and> (\<exists>p q. cn_srtpOutgoing a = Some p \<and> cn_srtpIncoming b = Some q \<and> paired p q \<and> Ssrc p = cn_localSsrc a
          \<and> (HasLastSequenceNumber p \<longrightarrow> cn_outgoingSeq a = LastSequenceNumber p + 1))"

lemma voice_step:
  assumes "voice_path a b"
    and "cn_audio a = Some da" "ReadFrame arrived da = (r, pcm, da')" "ar_Success r" "pcm \<noteq> []"
    and "cn_codec a = Some ca" "EncodeFrame opus pcm MaxPacketBytes ca = (int (length frame), frame)" "frame \<noteq> []"
      "length frame \<le> MaxPacketBytes"
    and "cn_audio b = Some db" "cn_codec b = Some cb"
      "DecodeFrame (de_opus env) frame 3840 cb = (int (length decoded), decoded)" "decoded \<noteq> []" "length decoded \<le> 3840"
  shows "\<exists>q packet a' b'. RunAudioCaptureLoop_turn lib opus arrived io a = Some a' \<and> a' = frame_sent io da' q packet a
    \<and> packet \<noteq> [] \<and> OnReflectorDatagram_from lib env ip port packet b = Some b'
    \<and> cn_audio b' = Some (snd (WriteFrame decoded db)) \<and> voice_path a' b'"
proof -
  from assms(1) obtain p q where v: "cn_audioLoopActive a" "cn_srtpReady a" "cn_state b = TgConnected" "cn_srtpReady b"
    and p: "cn_srtpOutgoing a = Some p" and q: "cn_srtpIncoming b = Some q" and pq: "paired p q" and s: "Ssrc p = cn_localSsrc a"
    and o: "HasLastSequenceNumber p \<longrightarrow> cn_outgoingSeq a = LastSequenceNumber p + 1"
    by (auto simp: voice_path_def)
  define sq where "sq = cn_outgoingSeq a"
  define rtp where "rtp = rtp_header sq (cn_outgoingTimestamp a) (cn_localSsrc a) @ frame"
  define p' where "p' = srtp_advance p sq"
  obtain packet where e: "srtp_encrypt (cl_SrtpAes lib) (cl_HmacSha1 lib) p rtp sq = Some (p', packet)"
    and like: "rtp_like packet" and ssrc: "ssrc_of packet = cn_localSsrc a"
    using voice_packet [OF assms(8)] unfolding rtp_def p'_def by metis
  define a' where "a' = frame_sent io da' p' packet a"
  have turn: "RunAudioCaptureLoop_turn lib opus arrived io a = Some a'"
    using e assms(4,5,8,9) unfolding capture_turn_sends [OF v(1,2) assms(2,6) p assms(3)] assms(7)
    by (simp add: rtp_def sq_def a'_def Let_def)
  have ne: "packet \<noteq> []" using like by (auto simp: rtp_like_def)
  have adv: "RolloverCounter p' = RolloverCounter p" using srtp_advance_in_order o by (simp add: p'_def sq_def)
  then have pq': "paired p' q" "paired p' (q\<lparr>Ssrc := Ssrc p'\<rparr>)" using pq by (simp_all add: paired_def p'_def)
  have "srtp_decrypt (cl_SrtpAes lib) (cl_HmacSha1 lib) p' packet = Some (Some rtp)"
    using rtp_header_nth(2) by (intro srtp_roundtrip_aux [OF e ne]) (simp add: rtp_def)
  then have dec: "srtp_decrypt (cl_SrtpAes lib) (cl_HmacSha1 lib) (q\<lparr>Ssrc := ssrc_of packet\<rparr>) packet = Some (Some rtp)"
    using paired_decrypt [OF pq'(1)] s by (simp add: ssrc p'_def)
  define b0 where "b0 = received_bytes (16 + length packet) b"
  have k: "cn_srtpReady b0" "cn_srtpIncoming b0 = Some q" "cn_audio b0 = Some db" "cn_codec b0 = Some cb" "cn_state b0 = TgConnected"
    using v q assms(10,11) by (simp_all add: b0_def received_bytes_def)
  define b' where "b' = (latched q (ssrc_of packet) b0)\<lparr>cn_audio := Some (snd (WriteFrame decoded db))\<rparr>"
  have l: "22 \<le> length packet" using like by (simp add: rtp_like_def)
  have sq0: "\<not> (Ssrc q \<noteq> 0 \<and> Ssrc q \<noteq> ssrc_of packet)" using pq s by (auto simp: paired_def ssrc)
  have play: "OnRtpPacket (de_opus env) rtp (latched q (ssrc_of packet) b0) = Some b'"
    using assms(8,12-14) k by (simp add: OnRtpPacket_def rtp_def rtp_header_payload b'_def)
  have recv: "OnReflectorDatagram_from lib env ip port packet b = Some b'"
    unfolding rtp_like_demux [OF like v(3)] b0_def [symmetric] OnSrtpDatagram_eq [OF k(1,2) l]
    by (subst if_not_P [OF sq0]) (use dec play in simp)
  have "voice_path a' b'"
  proof -
    have "cn_srtpIncoming b' = Some (if Ssrc q = 0 then q\<lparr>Ssrc := cn_localSsrc a\<rparr> else q)"
      using k by (simp add: b'_def latched_def ssrc)
    moreover have "paired p' (if Ssrc q = 0 then q\<lparr>Ssrc := cn_localSsrc a\<rparr> else q)"
      using pq' s by (simp add: p'_def)
    moreover have "cn_srtpOutgoing a' = Some p'" "cn_outgoingSeq a' = sq + 1" "cn_localSsrc a' = cn_localSsrc a"
        "cn_audioLoopActive a'" "cn_srtpReady a'"
      using v by (simp_all add: a'_def frame_sent_def Let_def sq_def)
    moreover have "cn_state b' = TgConnected" "cn_srtpReady b'" using k by (simp_all add: b'_def latched_def)
    ultimately show ?thesis using s by (simp add: voice_path_def p'_def)
  qed
  then show ?thesis using turn ne recv by (intro exI [of _ p'] exI [of _ packet] exI [of _ a'] exI [of _ b'])
    (simp add: a'_def b'_def)
qed


text \<open>
  Claim C2: the audio path. When the sending end of a direction whose two ends have the same keys reads a
  captured frame and encodes it, the packet it sends is accepted by the other end, which decodes the very
  frame the encoder produced and queues the decoded samples for its speaker; and the two ends are again
  ready for the next frame, across the wrap of the sequence number too.
\<close>

theorem voice_reaches_peer:
  assumes "voice_path a b"
    and "cn_audio a = Some da" "ReadFrame arrived da = (r, pcm, da')" "ar_Success r" "pcm \<noteq> []"
    and "cn_codec a = Some ca" "EncodeFrame opus pcm MaxPacketBytes ca = (int (length frame), frame)" "frame \<noteq> []"
      "length frame \<le> MaxPacketBytes"
    and "cn_audio b = Some db" "cn_codec b = Some cb"
      "DecodeFrame (de_opus env) frame 3840 cb = (int (length decoded), decoded)" "decoded \<noteq> []" "length decoded \<le> 3840"
  shows "\<exists>q packet a' b'. RunAudioCaptureLoop_turn lib opus arrived io a = Some a' \<and> a' = frame_sent io da' q packet a
    \<and> packet \<noteq> [] \<and> OnReflectorDatagram_from lib env ip port packet b = Some b'
    \<and> cn_audio b' = Some (snd (WriteFrame decoded db)) \<and> voice_path a' b'"
  by (rule voice_step [OF assms])

definition sample_master :: SrtpKeys where
  "sample_master = \<lparr>MasterKey = replicate 16 1, MasterSalt = replicate 14 2\<rparr>"

definition sample_codec :: OpusVoipCodec where
  "sample_codec = OpusVoipCodec_new\<lparr>oc_encoder := True, oc_decoder := True\<rparr>"

definition sample_opus :: OpusLib where
  "sample_opus = \<lparr>ol_encoder = (0, True), ol_decoder = (0, True), ol_ctl = (\<lambda>c. 0),
     ol_encode = (\<lambda>pcm n. (3, [1, 2, 3])), ol_decode = (\<lambda>b n. (2, [7, 8]))\<rparr>"

definition speaking :: TgcallsConnection where
  "speaking = talking\<lparr>cn_audioLoopActive := True, cn_localSsrc := 5, cn_outgoingSeq := 0xFFFF,
     cn_srtpOutgoing := Some ((srtp_params copy_block sample_master 5)\<lparr>LastSequenceNumber := 0xFFFE, HasLastSequenceNumber := True\<rparr>),
     cn_audio := Some (AudioDevice_new\<lparr>ad_open := True, ad_captureFrames := [[4, 5]]\<rparr>), cn_codec := Some sample_codec\<rparr>"

definition listening :: TgcallsConnection where
  "listening = talking\<lparr>cn_srtpIncoming := Some (srtp_params copy_block sample_master 0),
     cn_audio := Some (AudioDevice_new\<lparr>ad_open := True\<rparr>), cn_codec := Some sample_codec\<rparr>"

text \<open>One frame between the two sample ends.\<close>

lemma sample_frame:
  "voice_path speaking listening"
  "cn_audio speaking = Some (AudioDevice_new\<lparr>ad_open := True, ad_captureFrames := [[4, 5]]\<rparr>)" "cn_codec speaking = Some sample_codec"
  "cn_audio listening = Some (AudioDevice_new\<lparr>ad_open := True\<rparr>)" "cn_codec listening = Some sample_codec"
  "ReadFrame [] (AudioDevice_new\<lparr>ad_open := True, ad_captureFrames := [[4, 5]]\<rparr>)
     = (audio_Ok, [4, 5], AudioDevice_new\<lparr>ad_open := True, ad_captureFrames := []\<rparr>)"
  "EncodeFrame sample_opus [4, 5] MaxPacketBytes sample_codec = (int (length [1 :: u8, 2, 3]), [1, 2, 3])"
  "DecodeFrame sample_opus [1, 2, 3] 3840 sample_codec = (int (length [7 :: int, 8]), [7, 8])"
  "snd (WriteFrame [7, 8] (AudioDevice_new\<lparr>ad_open := True\<rparr>)) = AudioDevice_new\<lparr>ad_open := True, ad_renderFrames := [[7, 8]]\<rparr>"
  "length [1 :: u8, 2, 3] \<le> MaxPacketBytes"
  by (simp_all add: voice_path_def speaking_def listening_def talking_def paired_def srtp_params_def ReadFrame_def
      AudioDevice_new_def Let_def EncodeFrame_def DecodeFrame_def WriteFrame_def sample_opus_def sample_codec_def MaxPacketBytes_def)

lemma sample_voice:
  "\<exists>packet a' b'. RunAudioCaptureLoop_turn sample_conn_lib sample_opus [] io speaking = Some a'
     \<and> OnReflectorDatagram_from sample_conn_lib (env\<lparr>de_opus := sample_opus\<rparr>) ip port packet listening = Some b'
     \<and> cn_audio b' = Some (AudioDevice_new\<lparr>ad_open := True, ad_renderFrames := [[7, 8]]\<rparr>) \<and> voice_path a' b'"
  using voice_step [where opus = sample_opus and env = "env\<lparr>de_opus := sample_opus\<rparr>" and pcm = "[4, 5]"
      and frame = "[1, 2, 3]" and decoded = "[7, 8]" and lib = sample_conn_lib and io = io and ip = ip and port = port,
      OF sample_frame(1,2,6) _ _ sample_frame(3,7) _ sample_frame(10,4,5)]
  by (auto simp: sample_frame(8,9))

theorem voice_reaches_peer_witness:
  "\<forall>io env ip port. \<exists>packet a' b'. RunAudioCaptureLoop_turn sample_conn_lib sample_opus [] io speaking = Some a'
     \<and> OnReflectorDatagram_from sample_conn_lib (env\<lparr>de_opus := sample_opus\<rparr>) ip port packet listening = Some b'
     \<and> cn_audio b' = Some (AudioDevice_new\<lparr>ad_open := True, ad_renderFrames := [[7, 8]]\<rparr>) \<and> voice_path a' b'"
proof (intro allI)
  fix io env ip port
  show "\<exists>packet a' b'. RunAudioCaptureLoop_turn sample_conn_lib sample_opus [] io speaking = Some a'
     \<and> OnReflectorDatagram_from sample_conn_lib (env\<lparr>de_opus := sample_opus\<rparr>) ip port packet listening = Some b'
     \<and> cn_audio b' = Some (AudioDevice_new\<lparr>ad_open := True, ad_renderFrames := [[7, 8]]\<rparr>) \<and> voice_path a' b'"
    using voice_reaches_peer [where opus = sample_opus and env = "env\<lparr>de_opus := sample_opus\<rparr>" and pcm = "[4, 5]"
      and frame = "[1, 2, 3]" and decoded = "[7, 8]" and lib = sample_conn_lib and io = io and ip = ip and port = port,
      OF sample_frame(1,2,6) _ _ sample_frame(3,7) _ sample_frame(10,4,5)]
    by (auto simp: sample_frame(8,9))
qed

theorem played_packets_authentic_witness:
  "\<exists>packet p. cn_srtpIncoming listening = Some p \<and> 22 \<le> length packet
     \<and> drop (length packet - 10) packet
         = ComputeAuthTag (cl_HmacSha1 sample_conn_lib) (SessionAuthKey p) (take (length packet - 10) packet) (RolloverCounter p)"
proof -
  obtain packet b' where o: "OnReflectorDatagram_from sample_conn_lib (env\<lparr>de_opus := sample_opus\<rparr>) ip port packet listening = Some b'"
    and a: "cn_audio b' = Some (AudioDevice_new\<lparr>ad_open := True, ad_renderFrames := [[7, 8]]\<rparr>)"
    using sample_voice [of io env ip port] by blast
  have "cn_srtpReady listening" "cn_audio b' \<noteq> cn_audio listening"
    using a by (simp_all add: listening_def talking_def AudioDevice_new_def)
  from played_packets_authentic [OF o this] show ?thesis by blast
qed


section \<open>What does not survive\<close>

text \<open>
  Claim C28: a mute before the call is connected is lost. The audio phase creates its device after the user
  may have muted; the connection still says it is muted, and has told the peer so, but the new device is
  not, and the capture loop only looks at the device: the microphone is sent.
\<close>

theorem mute_before_connect_lost:
  assumes "cn_state (StartAudioPhase lib env material (snd (conn_SetMuted lib True s))) = TgConnected" and "cn_state s \<noteq> TgConnected"
  shows "let s' = StartAudioPhase lib env material (snd (conn_SetMuted lib True s)) in
    cn_muted s' \<and> (\<exists>d. cn_audio s' = Some d \<and> ad_open d
      \<and> (\<forall>frames pcm fs. ReadFrame frames (d\<lparr>ad_captureFrames := pcm # fs\<rparr>) = (audio_Ok, pcm, d\<lparr>ad_captureFrames := fs\<rparr>)))"
proof -
  define x where "x = snd (conn_SetMuted lib True s)"
  have x: "cn_muted x" "cn_state x \<noteq> TgConnected"
    using assms(2) by (simp_all add: x_def conn_SetMuted_def EmitMediaState_def)
  obtain om im where m: "srtp_masters material = (om, im)" by fastforce
  obtain o1 a where o: "audio_Open (de_audio env) AudioDevice_new = (o1, a)" by fastforce
  obtain ci c where c: "opus_Init (de_opus env) DefaultBitrateBps OpusVoipCodec_new = (ci, c)" by fastforce
  have mu: "cn_muted (StartAudioPhase lib env material x)" "cn_audio (StartAudioPhase lib env material x) = Some a"
    using x by (simp_all add: StartAudioPhase_def m o c Let_def)
  have "ar_Success o1" using assms(1) by (simp add: StartAudioPhase_def m o c Let_def x_def [symmetric] split: if_splits)
  moreover have "\<not> ad_open AudioDevice_new" by (simp add: AudioDevice_new_def)
  then have "\<not> ar_Success o1 \<or> ad_open a \<and> \<not> ad_muted a"
    by (rule audio_Open_cases [where io = "de_audio env"]) (simp_all add: o, simp add: AudioDevice_new_def)
  ultimately have "ad_open a \<and> \<not> ad_muted a" by blast
  then show ?thesis using mu by (simp add: x_def [symmetric] Let_def ReadFrame_def)
qed

definition sample_dgram :: "send_io \<Rightarrow> dgram_env" where
  "sample_dgram io = \<lparr>de_reply = io, de_cert = (\<lambda>n. sample_call [] 0), de_initiate = (\<lambda>i. 0, \<lambda>i. 0, \<lambda>i. 0), de_flight = (\<lambda>n. io),
     de_audio = good_open, de_opus = sample_opus, de_thread = True\<rparr>"

theorem mute_before_connect_lost_witness:
  "\<forall>io. cn_muted (StartAudioPhase sample_conn_lib (sample_dgram io) (replicate 60 9) (snd (conn_SetMuted sample_conn_lib True peer_ready)))"
proof
  fix io
  have o: "fst (audio_Open good_open AudioDevice_new) = audio_Ok"
    by (simp add: audio_Open_def OpenCapture_def OpenRender_def ActivateAudioClient_def good_open_def good_client_def
        AudioDevice_new_def hr_failed_def Let_def)
  have c: "fst (opus_Init sample_opus DefaultBitrateBps OpusVoipCodec_new) = 0"
    by (simp add: opus_Init_def sample_opus_def OpusVoipCodec_new_def Let_def)
  have "cn_state (StartAudioPhase sample_conn_lib (sample_dgram io) m x) = TgConnected" for m x
    using o c by (simp add: StartAudioPhase_def sample_dgram_def split_beta Let_def)
  from mute_before_connect_lost [OF this]
  show "cn_muted (StartAudioPhase sample_conn_lib (sample_dgram io) (replicate 60 9) (snd (conn_SetMuted sample_conn_lib True peer_ready)))"
    by (simp add: peer_ready_def Let_def)
qed

text \<open>
  One unauthenticated datagram ends a call. A plaintext alert record with level 2, which anyone
  on the path or the relay can write, makes the DTLS session and with it the connected call Failed,
  although the keys of the media are not affected by DTLS any more.
\<close>

theorem forged_alert_ends_call:
  assumes "cn_state s = TgConnected" and "cn_dtls s = Some d" and "dc_state d \<noteq> DtlsState_Failed"
    and "dtls_encodable alert" and "dtls_type alert = kDtlsContentAlert" and "dtls_payload alert = [2, code]"
  shows "\<exists>s'. OnReflectorDatagram_from lib env ip port (dtls_Encode alert) s = Some s' \<and> cn_state s' = TgFailed
    \<and> cn_srtpReady s' = cn_srtpReady s"
proof -
  let ?bs = "dtls_Encode alert"
  let ?d = "dtls_Fail ''server sent fatal alert'' d"
  have dec: "dtls_Decode ?bs = Some (Some (alert, length ?bs))"
    using dtls_Decode_Encode [OF assms(4), of "[]"] by simp
  have ne: "?bs \<noteq> []" and b: "?bs ! 0 = 0x15" using assms(5) by (simp_all add: dtls_Encode_def kDtlsContentAlert_def)
  have "ProcessRecord (cl_Dtls lib) (de_cert env) alert d = Some (False, ?d, [])"
    using assms(5,6) by (simp add: ProcessRecord_def kDtlsContentAlert_def kDtlsContentChangeCipherSpec_def)
  then have pr: "ProcessDatagram (cl_Dtls lib) (de_cert env) ?bs d = Some (False, ?d, [])"
    using assms(3) ne by (simp add: ProcessDatagram_def ProcessRecords.simps [of _ _ "?bs"] dec)
  have "dc_state ?d = DtlsState_Failed" by (simp add: dtls_Fail_def)
  then show ?thesis
    using pr ne assms(2)
    by (simp add: OnReflectorDatagram_from_demux demux_def b received_bytes_def OnDtlsDatagram_def PumpDtls_def)
qed

theorem forged_alert_ends_call_witness:
  "\<forall>env ip port. \<exists>s'. OnReflectorDatagram_from sample_conn_lib env ip port
       (dtls_Encode (DtlsRecord_default\<lparr>dtls_type := kDtlsContentAlert, dtls_payload := [2, 40]\<rparr>))
       (talking\<lparr>cn_dtls := Some (DtlsClientSession_new \<lparr>m_Key = Some 7\<rparr> [])\<rparr>) = Some s' \<and> cn_state s' = TgFailed"
proof (intro allI)
  fix env ip port
  show "\<exists>s'. OnReflectorDatagram_from sample_conn_lib env ip port
       (dtls_Encode (DtlsRecord_default\<lparr>dtls_type := kDtlsContentAlert, dtls_payload := [2, 40]\<rparr>))
       (talking\<lparr>cn_dtls := Some (DtlsClientSession_new \<lparr>m_Key = Some 7\<rparr> [])\<rparr>) = Some s' \<and> cn_state s' = TgFailed"
    using forged_alert_ends_call [of "talking\<lparr>cn_dtls := Some (DtlsClientSession_new \<lparr>m_Key = Some 7\<rparr> [])\<rparr>"
        "DtlsClientSession_new \<lparr>m_Key = Some 7\<rparr> []" "DtlsRecord_default\<lparr>dtls_type := kDtlsContentAlert, dtls_payload := [2, 40]\<rparr>" 40
        sample_conn_lib env ip port]
    by (auto simp: talking_def DtlsClientSession_new_def DtlsRecord_default_def dtls_encodable_def)
qed

end
