(* ===== verification/RelayMedia.thy ===== *)
theory RelayMedia
  imports PacketCrypto ControlPacket StreamData JitterBuffer
begin

text \<open>
  The media loops of the classic relay path in \<open>application/voip_engine.cpp\<close>: an audio frame is a
  stream-data packet in a control packet in an encrypted relay packet. Codec, audio device, socket and
  clock are the environment: what they return comes as arguments, what is sent to them is logged in the
  context. The atomics of the context are plain fields: each operation is one step.
\<close>

unbundle bit_operations_syntax

section \<open>The context of an active call\<close>

record RelayCrypto =
  rc_sha256 :: hash_fn
  rc_encrypt :: block_fn
  rc_decrypt :: block_fn

record VoipActiveMediaContext =
  am_StopRequested :: bool
  am_Jitter :: VoipJitterBuffer
  am_SharedKey :: bytes
  am_PeerTag :: bytes
  am_LocalIsOutgoing :: bool
  am_NextLocalSequence :: u32
  am_LastRemoteSequence :: u32
  am_AudioTimestampOut :: u32
  am_InitAckReceived :: bool
  am_MediaReady :: bool
  am_MediaPacketsSent :: u32
  am_MediaPacketsReceived :: u32
  am_MediaBytesSent :: u32
  am_MediaBytesReceived :: u32
  am_AudioUnderruns :: u32
  am_OutboundLevelPermille :: int
  am_InboundLevelPermille :: int
  am_wire :: "bytes list"
  am_codec :: "bytes option list"
  am_speaker :: "int list list"

definition am_new :: VoipActiveMediaContext where
  "am_new = \<lparr>am_StopRequested = False, am_Jitter = jb_new (uint DefaultAudioFrameDurationMs), am_SharedKey = [],
     am_PeerTag = [], am_LocalIsOutgoing = False, am_NextLocalSequence = 1, am_LastRemoteSequence = 0,
     am_AudioTimestampOut = 0, am_InitAckReceived = False, am_MediaReady = False, am_MediaPacketsSent = 0,
     am_MediaPacketsReceived = 0, am_MediaBytesSent = 0, am_MediaBytesReceived = 0, am_AudioUnderruns = 0,
     am_OutboundLevelPermille = 0, am_InboundLevelPermille = 0, am_wire = [], am_codec = [], am_speaker = []\<rparr>"

definition BuildControlPacket :: "VoipControlPacketType \<Rightarrow> u32 \<Rightarrow> u32 \<Rightarrow> bytes \<Rightarrow> string + bytes" where
  "BuildControlPacket type localSeq ackSeq payload =
     encode_short \<lparr>Type = type, AckSequence = ackSeq, Sequence = localSeq, AckMask = 0, ExtraFlags = 0,
       VoipControlPacket.Payload = payload\<rparr>"

text \<open>The sequence number taken and the counter afterwards.\<close>

definition TakeNextSequence :: "u32 \<Rightarrow> u32 \<times> u32" where
  "TakeNextSequence next =
     (let seq = (if next = 0 then 1 else next);
          next = seq + 1
      in (seq, if next = 0 then 1 else next))"

text \<open>A sample is a 16-bit signed integer; the sum is far below the width of the accumulator.\<close>

definition PcmLevelPermille :: "int list \<Rightarrow> int" where
  "PcmLevelPermille pcm =
     (if pcm = [] then 0
      else
        (let total = sum_list (map (\<lambda>s. if s < 0 then - s else s) pcm);
             avg = total div int (length pcm);
             permille = (avg * 1000) div 32768
         in if permille > 1000 then 1000 else permille))"

section \<open>Sending\<close>

text \<open>
  Encrypt and send one control packet; \<open>sent\<close> is the outcome of the socket. The result says whether the
  packet went out.
\<close>

definition seal :: "RelayCrypto \<Rightarrow> random_fn \<Rightarrow> VoipActiveMediaContext \<Rightarrow> bytes \<Rightarrow> VoipEncryptedPacketResult" where
  "seal rc rnd ctx plain =
     EncryptRelayPacketMtProto2Short (rc_sha256 rc) (rc_encrypt rc) rnd (am_SharedKey ctx) (am_LocalIsOutgoing ctx)
       (am_PeerTag ctx) plain"

text \<open>\<open>opus\<close> is what the encoder wrote, empty when it reported nothing or an error.\<close>

definition EncodeAndSendAudioFrame ::
    "RelayCrypto \<Rightarrow> random_fn \<Rightarrow> int list \<Rightarrow> bytes \<Rightarrow> bool \<Rightarrow> VoipActiveMediaContext \<Rightarrow> bool \<times> VoipActiveMediaContext" where
  "EncodeAndSendAudioFrame rc rnd pcm opus sent ctx =
     (if pcm = [] then (False, ctx)
      else if opus = [] then (False, ctx)
      else case encode_audio DefaultAudioStreamId (am_AudioTimestampOut ctx) opus of
        Inl e \<Rightarrow> (False, ctx)
      | Inr payload \<Rightarrow>
          (let (seq, next) = TakeNextSequence (am_NextLocalSequence ctx);
               ctx = ctx\<lparr>am_NextLocalSequence := next\<rparr>
           in case BuildControlPacket StreamData seq (am_LastRemoteSequence ctx) payload of
                Inl e \<Rightarrow> (False, ctx)
              | Inr packet \<Rightarrow>
                  (let encrypted = seal rc rnd ctx packet in
                   if \<not> Success encrypted then (False, ctx)
                   else if \<not> sent then (False, ctx)
                   else (True, ctx\<lparr>am_wire := am_wire ctx @ [Bytes encrypted],
                           am_MediaPacketsSent := am_MediaPacketsSent ctx + 1,
                           am_MediaBytesSent := am_MediaBytesSent ctx + of_nat (length (Bytes encrypted)),
                           am_OutboundLevelPermille := PcmLevelPermille pcm,
                           am_AudioTimestampOut := am_AudioTimestampOut ctx + ucast DefaultAudioFrameDurationMs\<rparr>))))"

definition SendPong :: "RelayCrypto \<Rightarrow> random_fn \<Rightarrow> bool \<Rightarrow> VoipControlPacket \<Rightarrow> VoipActiveMediaContext \<Rightarrow> VoipActiveMediaContext" where
  "SendPong rc rnd sent ping ctx =
     (let (seq, next) = TakeNextSequence (am_NextLocalSequence ctx);
          ctx = ctx\<lparr>am_NextLocalSequence := next\<rparr>
      in case BuildControlPacket Pong seq
             (if am_LastRemoteSequence ctx = 0 then Sequence ping else am_LastRemoteSequence ctx)
             (VoipControlPacket.Payload ping) of
           Inl e \<Rightarrow> ctx
         | Inr pong \<Rightarrow>
             (let encrypted = seal rc rnd ctx pong in
              if \<not> Success encrypted then ctx
              else if sent then ctx\<lparr>am_wire := am_wire ctx @ [Bytes encrypted]\<rparr> else ctx))"

definition SendInit :: "RelayCrypto \<Rightarrow> random_fn \<Rightarrow> bool \<Rightarrow> VoipActiveMediaContext \<Rightarrow> bool \<times> VoipActiveMediaContext" where
  "SendInit rc rnd sent ctx =
     (let (seq, next) = TakeNextSequence (am_NextLocalSequence ctx);
          ctx = ctx\<lparr>am_NextLocalSequence := next\<rparr>
      in case BuildControlPacket Init seq (am_LastRemoteSequence ctx) (build_init_payload False) of
           Inl e \<Rightarrow> (False, ctx)
         | Inr initPacket \<Rightarrow>
             (let encrypted = seal rc rnd ctx initPacket in
              if \<not> Success encrypted then (False, ctx)
              else (sent, if sent then ctx\<lparr>am_wire := am_wire ctx @ [Bytes encrypted]\<rparr> else ctx)))"

definition SendInitAck :: "RelayCrypto \<Rightarrow> random_fn \<Rightarrow> bool \<Rightarrow> VoipControlPacket \<Rightarrow> VoipActiveMediaContext \<Rightarrow> VoipActiveMediaContext" where
  "SendInitAck rc rnd sent init ctx =
     (let (seq, next) = TakeNextSequence (am_NextLocalSequence ctx);
          ctx = ctx\<lparr>am_NextLocalSequence := next\<rparr>
      in case BuildControlPacket InitAck seq
             (if am_LastRemoteSequence ctx = 0 then Sequence init else am_LastRemoteSequence ctx)
             build_init_ack_payload of
           Inl e \<Rightarrow> ctx
         | Inr ackPacket \<Rightarrow>
             (let encrypted = seal rc rnd ctx ackPacket in
              if \<not> Success encrypted then ctx
              else if sent then ctx\<lparr>am_wire := am_wire ctx @ [Bytes encrypted]\<rparr> else ctx))"

text \<open>One turn of each sending loop. A turn with \<open>StopRequested\<close> set ends the loop.\<close>

definition silence :: "int list" where
  "silence = replicate (48000 div 1000 * unat DefaultAudioFrameDurationMs) 0"

definition MediaSendTurn ::
    "RelayCrypto \<Rightarrow> random_fn \<Rightarrow> int list option \<Rightarrow> (int list \<Rightarrow> bytes) \<Rightarrow> bool \<Rightarrow> VoipActiveMediaContext
       \<Rightarrow> VoipActiveMediaContext" where
  "MediaSendTurn rc rnd audio encode sent ctx =
     (if am_StopRequested ctx then ctx
      else if \<not> am_InitAckReceived ctx then ctx
      else
        (let underrun = (case audio of None \<Rightarrow> True | Some pcm \<Rightarrow> pcm = []);
             ctx = (if underrun then ctx\<lparr>am_AudioUnderruns := am_AudioUnderruns ctx + 1\<rparr> else ctx);
             pcm = (if underrun then silence else the audio)
         in snd (EncodeAndSendAudioFrame rc rnd pcm (encode pcm) sent ctx)))"

definition InitTurn :: "RelayCrypto \<Rightarrow> random_fn \<Rightarrow> bool \<Rightarrow> VoipActiveMediaContext \<Rightarrow> VoipActiveMediaContext" where
  "InitTurn rc rnd sent ctx =
     (if \<not> am_StopRequested ctx \<and> \<not> am_InitAckReceived ctx then snd (SendInit rc rnd sent ctx) else ctx)"


section \<open>Receiving\<close>

text \<open>
  What the media loop does with a datagram of the socket; \<open>None\<close> only if the jitter buffer converts a
  number outside the range of its type.
\<close>

definition open_packet :: "RelayCrypto \<Rightarrow> VoipActiveMediaContext \<Rightarrow> bytes \<Rightarrow> VoipControlPacket option" where
  "open_packet rc ctx bs =
     (let decrypted = DecryptRelayPacketMtProto2Short (rc_sha256 rc) (rc_decrypt rc) (am_SharedKey ctx)
            (am_LocalIsOutgoing ctx) (am_PeerTag ctx) bs
      in if \<not> Success decrypted then None
         else case decode_short (Plain decrypted) of
           Some (Inr p) \<Rightarrow> Some p
         | _ \<Rightarrow> None)"

definition note_sequence :: "VoipControlPacket \<Rightarrow> VoipActiveMediaContext \<Rightarrow> VoipActiveMediaContext" where
  "note_sequence p ctx =
     (if Sequence p \<noteq> 0 \<and> (am_LastRemoteSequence ctx = 0 \<or> Sequence p > am_LastRemoteSequence ctx)
      then ctx\<lparr>am_LastRemoteSequence := Sequence p\<rparr> else ctx)"

definition media_dispatch ::
    "RelayCrypto \<Rightarrow> random_fn \<Rightarrow> bool \<Rightarrow> int \<Rightarrow> nat \<Rightarrow> VoipControlPacket \<Rightarrow> VoipActiveMediaContext
       \<Rightarrow> VoipActiveMediaContext option" where
  "media_dispatch rc rnd sent now len p ctx =
     (if Type p = InitAck then
        (case parse_init_ack_payload (VoipControlPacket.Payload p) of
           Some (Inr ack) \<Rightarrow> Some (if HasAudioOpusStream ack then ctx\<lparr>am_InitAckReceived := True\<rparr> else ctx)
         | _ \<Rightarrow> Some ctx)
      else if Type p = Init then Some (SendInitAck rc rnd sent p ctx)
      else if Type p = StreamData then
        (case decode_one (VoipControlPacket.Payload p) of
           Some (Inr (stream, raw)) \<Rightarrow>
             (case jb_Insert (am_Jitter ctx) (ucast (Sequence p AND 0xFFFF)) (VoipStreamDataPacket.Timestamp stream)
                  (OpusPayload stream) now of
                None \<Rightarrow> None
              | Some (e, jb) \<Rightarrow>
                  Some (ctx\<lparr>am_MediaReady := True, am_MediaPacketsReceived := am_MediaPacketsReceived ctx + 1,
                    am_MediaBytesReceived := am_MediaBytesReceived ctx + of_nat len, am_Jitter := jb\<rparr>))
         | _ \<Rightarrow> Some ctx)
      else if Type p = Ping then Some (SendPong rc rnd sent p ctx)
      else Some ctx)"

definition MediaReceive ::
    "RelayCrypto \<Rightarrow> random_fn \<Rightarrow> bool \<Rightarrow> int \<Rightarrow> bytes \<Rightarrow> VoipActiveMediaContext \<Rightarrow> VoipActiveMediaContext option" where
  "MediaReceive rc rnd sent now bs ctx =
     (case open_packet rc ctx bs of
        None \<Rightarrow> Some ctx
      | Some p \<Rightarrow> media_dispatch rc rnd sent now (length bs) p (note_sequence p ctx))"

text \<open>
  Playing what is due. A turn of the loop reads the clock and calls the codec, which reports how many
  samples it decoded into the frame. The list gives the turns the environment allows; the flag says
  whether the loop has returned within them.
\<close>

record drain_turn =
  dt_now :: int
  dt_decoded :: int
  dt_pcm :: "int list"

fun DrainJitterToAudio :: "drain_turn list \<Rightarrow> VoipActiveMediaContext \<Rightarrow> bool \<times> VoipActiveMediaContext" where
  "DrainJitterToAudio [] ctx = (False, ctx)"
| "DrainJitterToAudio (t # ts) ctx =
     (let (frame, jb) = jb_NextPlayoutFrame (am_Jitter ctx) (dt_now t);
          ctx = ctx\<lparr>am_Jitter := jb\<rparr>
      in if \<not> Ready frame then (True, ctx)
         else
           (let ctx = ctx\<lparr>am_codec := am_codec ctx @
                  [if HasPacket frame \<and> VoipJitterFrame.Payload frame \<noteq> [] then Some (VoipJitterFrame.Payload frame) else None]\<rparr>;
                ctx = (if dt_decoded t > 0
                       then ctx\<lparr>am_InboundLevelPermille := PcmLevelPermille (dt_pcm t),
                              am_speaker := am_speaker ctx @ [take (nat (dt_decoded t)) (dt_pcm t)]\<rparr>
                       else ctx)
            in DrainJitterToAudio ts ctx))"


section \<open>A packet between the two sides\<close>

text \<open>The two ends of one call: the same key and tag, and opposite roles.\<close>

definition am_keyed :: "VoipActiveMediaContext \<Rightarrow> bool" where
  "am_keyed a \<longleftrightarrow> length (am_SharedKey a) = 256 \<and> length (am_PeerTag a) = 16"

definition am_peers :: "RelayCrypto \<Rightarrow> VoipActiveMediaContext \<Rightarrow> VoipActiveMediaContext \<Rightarrow> bool" where
  "am_peers rc a b \<longleftrightarrow> block_cipher_ok (rc_encrypt rc) (rc_decrypt rc) \<and> am_keyed a \<and>
     am_SharedKey b = am_SharedKey a \<and> am_PeerTag b = am_PeerTag a \<and> am_LocalIsOutgoing b = (\<not> am_LocalIsOutgoing a)"

lemma BuildControlPacket_eq:
  "length pl \<le> 1100 \<Longrightarrow> BuildControlPacket t sq ack pl = Inr (control_layout \<lparr>Type = t, AckSequence = ack,
     Sequence = sq, AckMask = 0, ExtraFlags = 0, VoipControlPacket.Payload = pl\<rparr>)"
  by (simp add: BuildControlPacket_def encode_short_Inr_iff)

lemma BuildControlPacket_Inl: "length pl > 1100 \<Longrightarrow> \<exists>e. BuildControlPacket t sq ack pl = Inl e"
  by (cases "BuildControlPacket t sq ack pl") (auto simp: BuildControlPacket_def encode_short_Inr_iff)

lemma length_control_layout: "length (control_layout p) = 14 + length (VoipControlPacket.Payload p)"
  by (simp add: control_layout_def)

lemma seal_success:
  assumes "am_keyed a" and "length (VoipControlPacket.Payload p) \<le> 1100"
  shows "Success (seal rc rnd a (control_layout p))"
proof -
  have l: "control_layout p \<noteq> []" "length (control_layout p) \<le> 1200"
    using assms(2) length_control_layout [of p] by auto
  obtain key iv where k: "Kdf2 (rc_sha256 rc) (am_SharedKey a) (relay_msg_key (rc_sha256 rc) (am_SharedKey a)
      (DirectionOffset (am_LocalIsOutgoing a) True) (relay_inner rnd (control_layout p)))
      (DirectionOffset (am_LocalIsOutgoing a) True) = (key, iv)" by fastforce
  have "length (am_SharedKey a) = 256" "length (am_PeerTag a) = 16" using assms(1) by (simp_all add: am_keyed_def)
  from EncryptRelay_ok [OF this l k, of "rc_encrypt rc"] show ?thesis 
    unfolding seal_def by fastforce
qed

lemma open_seal:
  assumes "am_peers rc a b" and "length (VoipControlPacket.Payload p) \<le> 1100"
  shows "open_packet rc b (Bytes (seal rc rnd a (control_layout p))) = Some p"
proof -
  have l: "control_layout p \<noteq> []" "length (control_layout p) \<le> 1200"
    using assms(2) length_control_layout [of p] by auto
  have "DecryptRelayPacketMtProto2Short (rc_sha256 rc) (rc_decrypt rc) (am_SharedKey a)
      (\<not> am_LocalIsOutgoing a) (am_PeerTag a) (Bytes (seal rc rnd a (control_layout p)))
    = \<lparr>Success = True, Error = [], Bytes = Bytes (seal rc rnd a (control_layout p)), Plain = control_layout p\<rparr>"
    using relay_roundtrip_aux [OF _ _ _ l _ refl, of "rc_encrypt rc" "rc_decrypt rc" "am_SharedKey a"
        "am_PeerTag a" "am_PeerTag a"] assms(1)
    by (simp add: am_peers_def am_keyed_def seal_def)
  then show ?thesis
    using assms(1) by (simp add: open_packet_def am_peers_def decode_short_layout)
qed

lemma TakeNextSequence_nonzero:
  "TakeNextSequence n = (s, n') \<Longrightarrow> s \<noteq> 0 \<and> n' \<noteq> 0 \<and> (n \<noteq> 0 \<longrightarrow> s = n)"
  by (auto simp: TakeNextSequence_def Let_def split: if_splits)

text \<open>The stream packet of a frame, and the control packet around it.\<close>

definition audio_packet :: "u32 \<Rightarrow> u32 \<Rightarrow> u32 \<Rightarrow> bytes \<Rightarrow> VoipControlPacket" where
  "audio_packet sq ack ts opus = \<lparr>Type = StreamData, AckSequence = ack, Sequence = sq, AckMask = 0, ExtraFlags = 0,
     VoipControlPacket.Payload = stream_layout \<lparr>StreamId = 1, VoipStreamDataPacket.Timestamp = ts, OpusPayload = opus\<rparr>\<rparr>"

lemma encode_audio_default:
  assumes "opus \<noteq> []" and "length opus \<le> 1100"
  shows "encode_audio DefaultAudioStreamId ts opus
    = Inr (stream_layout \<lparr>StreamId = 1, VoipStreamDataPacket.Timestamp = ts, OpusPayload = opus\<rparr>)"
  using assms stream_encode_Inr_iff [of "\<lparr>StreamId = 1, VoipStreamDataPacket.Timestamp = ts, OpusPayload = opus\<rparr>"]
  by (simp add: stream_encode_def stream_ok_def stream_consts control_consts)

lemma length_stream_layout:
  "length (stream_layout p) = length (OpusPayload p) + (if length (OpusPayload p) > 255 then 7 else 6)"
  by (simp add: stream_layout_def Let_def)

lemma EncodeAndSend_ok:
  fixes rc :: RelayCrypto and rnd :: random_fn
  assumes "am_keyed a" "pcm \<noteq> []" "opus \<noteq> []" "length opus \<le> 1093"
    and t: "TakeNextSequence (am_NextLocalSequence a) = (sq, next)"
  defines "w \<equiv> Bytes (seal rc rnd a (control_layout (audio_packet sq (am_LastRemoteSequence a) (am_AudioTimestampOut a) opus)))"
  shows "EncodeAndSendAudioFrame rc rnd pcm opus True a = (True, a\<lparr>am_NextLocalSequence := next,
    am_wire := am_wire a @ [w], am_MediaPacketsSent := am_MediaPacketsSent a + 1,
    am_MediaBytesSent := am_MediaBytesSent a + of_nat (length w),
    am_OutboundLevelPermille := PcmLevelPermille pcm, am_AudioTimestampOut := am_AudioTimestampOut a + 60\<rparr>)"
proof -
  let ?p = "audio_packet sq (am_LastRemoteSequence a) (am_AudioTimestampOut a) opus"
  have len: "length (VoipControlPacket.Payload ?p) \<le> 1100"
    using assms(4) by (simp add: audio_packet_def length_stream_layout)
  have b: "BuildControlPacket StreamData sq (am_LastRemoteSequence a) (VoipControlPacket.Payload ?p) = Inr (control_layout ?p)"
    using len by (simp add: BuildControlPacket_eq audio_packet_def)
  have e: "encode_audio DefaultAudioStreamId (am_AudioTimestampOut a) opus = Inr (VoipControlPacket.Payload ?p)"
    using assms(3,4) by (simp add: encode_audio_default audio_packet_def)
  have s: "seal rc rnd (a\<lparr>am_NextLocalSequence := next\<rparr>) = seal rc rnd a"
    by (rule ext) (simp add: seal_def)
  show ?thesis
    using assms(2,3) seal_success [OF assms(1) len, of rc rnd]
    by (simp add: EncodeAndSendAudioFrame_def e t b s Let_def w_def DefaultAudioFrameDurationMs_def)
qed

lemma ucast_low16: "ucast (s AND 0xFFFF :: u32) = (ucast s :: u16)"
proof -
  have *: "s AND 0xFFFF = take_bit 16 s" by (simp add: take_bit_eq_mask mask_eq_exp_minus_1)
  show ?thesis unfolding * by (rule bit_word_eqI) (auto simp: bit_simps)
qed

lemma media_dispatch_audio:
  assumes "opus \<noteq> []" "length opus \<le> 1100"
  shows "media_dispatch rc rnd sent now len (audio_packet sq ack ts opus) b =
    map_option (\<lambda>(e, jb). b\<lparr>am_MediaReady := True, am_MediaPacketsReceived := am_MediaPacketsReceived b + 1,
        am_MediaBytesReceived := am_MediaBytesReceived b + of_nat len, am_Jitter := jb\<rparr>)
      (jb_Insert (am_Jitter b) (ucast sq) ts opus now)"
proof -
  let ?s = "\<lparr>StreamId = 1, VoipStreamDataPacket.Timestamp = ts, OpusPayload = opus\<rparr>"
  have "stream_ok ?s" using assms by (simp add: stream_ok_def stream_consts)
  then have "decode_one (stream_layout ?s) = Some (Inr (?s, stream_layout ?s))"
    using decode_one_layout [of ?s "[]"] by simp
  then show ?thesis
    by (simp add: media_dispatch_def audio_packet_def ucast_low16 split: option.split)
qed

text \<open>
  Claim C5: an audio frame sent on the relay path arrives. For two ends of a call with the same 256-byte
  key and peer tag, a frame of at most 1093 bytes is sent (one packet, the counters and the media
  timestamp advance), and the peer that receives exactly this packet decrypts and parses it and hands its
  jitter buffer the frame, the sender's timestamp and the low 16 bits of the packet's sequence number; it
  counts the packet, marks the media as ready and remembers the sequence number when it is the highest.
\<close>

theorem audio_frame_end_to_end:
  assumes "am_peers rc a b" and "pcm \<noteq> []" and "opus \<noteq> []" and "length opus \<le> 1093"
  shows "let (ok, a') = EncodeAndSendAudioFrame rc rnd pcm opus True a;
             w = last (am_wire a'); sq = fst (TakeNextSequence (am_NextLocalSequence a))
         in ok \<and> am_wire a' = am_wire a @ [w] \<and> am_MediaPacketsSent a' = am_MediaPacketsSent a + 1 \<and>
            am_AudioTimestampOut a' = am_AudioTimestampOut a + 60 \<and>
            am_NextLocalSequence a' = snd (TakeNextSequence (am_NextLocalSequence a)) \<and>
            MediaReceive rc rnd' sent now w b =
              map_option (\<lambda>(e, jb). b\<lparr>
                  am_LastRemoteSequence := (if am_LastRemoteSequence b = 0 \<or> am_LastRemoteSequence b < sq
                    then sq else am_LastRemoteSequence b),
                  am_MediaReady := True, am_MediaPacketsReceived := am_MediaPacketsReceived b + 1,
                  am_MediaBytesReceived := am_MediaBytesReceived b + of_nat (length w), am_Jitter := jb\<rparr>)
                (jb_Insert (am_Jitter b) (ucast sq) (am_AudioTimestampOut a) opus now)"
proof -
  obtain sq "next" where t: "TakeNextSequence (am_NextLocalSequence a) = (sq, next)" by fastforce
  have k: "am_keyed a" using assms(1) by (simp add: am_peers_def)
  let ?p = "audio_packet sq (am_LastRemoteSequence a) (am_AudioTimestampOut a) opus"
  let ?w = "Bytes (seal rc rnd a (control_layout ?p))"
  have "length (VoipControlPacket.Payload ?p) \<le> 1100"
    using assms(4) by (simp add: audio_packet_def length_stream_layout)
  then have o: "open_packet rc b ?w = Some ?p" by (rule open_seal [OF assms(1)])
  have n: "note_sequence ?p b = b\<lparr>am_LastRemoteSequence := (if am_LastRemoteSequence b = 0
      \<or> am_LastRemoteSequence b < sq then sq else am_LastRemoteSequence b)\<rparr>"
    using TakeNextSequence_nonzero [OF t] by (simp add: note_sequence_def audio_packet_def)
  have "MediaReceive rc rnd' sent now ?w b = media_dispatch rc rnd' sent now (length ?w) ?p (note_sequence ?p b)"
    by (simp add: MediaReceive_def o)
  also have "\<dots> = map_option (\<lambda>(e, jb). b\<lparr>
        am_LastRemoteSequence := (if am_LastRemoteSequence b = 0 \<or> am_LastRemoteSequence b < sq
          then sq else am_LastRemoteSequence b),
        am_MediaReady := True, am_MediaPacketsReceived := am_MediaPacketsReceived b + 1,
        am_MediaBytesReceived := am_MediaBytesReceived b + of_nat (length ?w), am_Jitter := jb\<rparr>)
      (jb_Insert (am_Jitter b) (ucast sq) (am_AudioTimestampOut a) opus now)"
    using assms(3,4) by (simp add: media_dispatch_audio n)
  finally show ?thesis
    using EncodeAndSend_ok [OF k assms(2-4) t, of rc rnd] by (simp add: t)
qed

definition demo_crypto :: RelayCrypto where
  "demo_crypto = \<lparr>rc_sha256 = (\<lambda>b i. of_nat (length b + i)), rc_encrypt = copy_block, rc_decrypt = copy_block\<rparr>"

definition demo_side :: "bool \<Rightarrow> VoipActiveMediaContext" where
  "demo_side out = am_new\<lparr>am_SharedKey := replicate 256 7, am_PeerTag := replicate 16 9, am_LocalIsOutgoing := out\<rparr>"

lemma demo_peers: "am_peers demo_crypto (demo_side True) (demo_side False)"
  "am_keyed (demo_side out)"
  by (simp_all add: am_peers_def am_keyed_def demo_crypto_def demo_side_def am_new_def block_cipher_ok_copy)

lemma demo_fields: "am_NextLocalSequence (demo_side out) = 1" "am_AudioTimestampOut (demo_side out) = 0"
  "am_wire (demo_side out) = []" "am_StopRequested (demo_side out) = False" "am_Jitter (demo_side out) = jb_new 60"
  by (simp_all add: demo_side_def am_new_def DefaultAudioFrameDurationMs_def)

theorem audio_frame_end_to_end_witness:
  "let a' = snd (EncodeAndSendAudioFrame demo_crypto (\<lambda>i. 0) [5, - 5] [1, 2, 3] True (demo_side True))
   in length (am_wire a') = 1 \<and> am_AudioTimestampOut a' = 60 \<and> am_NextLocalSequence a' = 2"
proof -
  have "[5, - 5] \<noteq> ([] :: int list)" "[1, 2, 3] \<noteq> ([] :: bytes)" "length ([1, 2, 3] :: bytes) \<le> 1093"
    by simp_all
  from audio_frame_end_to_end [OF demo_peers(1) this, of "\<lambda>i. 0" "\<lambda>i. 0" True 0]
  have "am_wire (snd (EncodeAndSendAudioFrame demo_crypto (\<lambda>i. 0) [5, - 5] [1, 2, 3] True (demo_side True)))
      = [last (am_wire (snd (EncodeAndSendAudioFrame demo_crypto (\<lambda>i. 0) [5, - 5] [1, 2, 3] True (demo_side True))))]
    \<and> am_AudioTimestampOut (snd (EncodeAndSendAudioFrame demo_crypto (\<lambda>i. 0) [5, - 5] [1, 2, 3] True (demo_side True))) = 60
    \<and> am_NextLocalSequence (snd (EncodeAndSendAudioFrame demo_crypto (\<lambda>i. 0) [5, - 5] [1, 2, 3] True (demo_side True))) = 2"
    by (simp only: Let_def case_prod_beta demo_fields) (simp add: TakeNextSequence_def)
  then show ?thesis by (metis length_Cons list.size(3) One_nat_def)
qed

text \<open>
  The frame budget. The stream encoder accepts frames of up to 1100 bytes and the encoder's
  buffer has that size, but its 6 or 7 bytes of header count against the same limit in the control packet:
  a frame is sent exactly when it has at most 1093 bytes. A longer one is dropped after it has used up a
  sequence number, and the media timestamp does not advance for it.
\<close>

theorem audio_frame_budget:
  assumes "am_keyed a" and "pcm \<noteq> []" and "opus \<noteq> []" and "length opus \<le> 1100"
  shows "let (ok, a') = EncodeAndSendAudioFrame rc rnd pcm opus True a
         in (ok \<longleftrightarrow> length opus \<le> 1093) \<and>
            am_NextLocalSequence a' = snd (TakeNextSequence (am_NextLocalSequence a)) \<and>
            am_AudioTimestampOut a' = am_AudioTimestampOut a + (if ok then 60 else 0) \<and>
            length (am_wire a') = length (am_wire a) + (if ok then 1 else 0)"
proof (cases "length opus \<le> 1093")
  case True
  obtain sq "next" where t: "TakeNextSequence (am_NextLocalSequence a) = (sq, next)" by fastforce
  show ?thesis using EncodeAndSend_ok [OF assms(1-3) True t, of rc rnd] True by (simp add: t)
next
  case False
  obtain sq "next" where t: "TakeNextSequence (am_NextLocalSequence a) = (sq, next)" by fastforce
  let ?pl = "stream_layout \<lparr>StreamId = 1, VoipStreamDataPacket.Timestamp = am_AudioTimestampOut a, OpusPayload = opus\<rparr>"
  have "length ?pl > 1100" using False by (simp add: length_stream_layout)
  then obtain e where b: "BuildControlPacket StreamData sq (am_LastRemoteSequence a) ?pl = Inl e"
    using BuildControlPacket_Inl by blast
  show ?thesis
    using assms(2,3) False by (simp add: EncodeAndSendAudioFrame_def encode_audio_default [OF assms(3,4)] t b)
qed

theorem audio_frame_budget_witness:
  "\<not> fst (EncodeAndSendAudioFrame demo_crypto (\<lambda>i. 0) [5] (replicate 1094 1) True (demo_side True))"
  using audio_frame_budget [OF demo_peers(2), of "[5]" "replicate 1094 1" demo_crypto "\<lambda>i. 0" True]
  by (simp add: case_prod_beta Let_def)

lemma SendPong_ok:
  fixes rc :: RelayCrypto and rnd :: random_fn
  assumes "am_keyed a" and "length (VoipControlPacket.Payload ping) \<le> 1100"
    and t: "TakeNextSequence (am_NextLocalSequence a) = (sq, next)"
  shows "SendPong rc rnd True ping a = a\<lparr>am_NextLocalSequence := next,
    am_wire := am_wire a @ [Bytes (seal rc rnd a (control_layout \<lparr>Type = Pong,
      AckSequence = (if am_LastRemoteSequence a = 0 then Sequence ping else am_LastRemoteSequence a), Sequence = sq,
      AckMask = 0, ExtraFlags = 0, VoipControlPacket.Payload = VoipControlPacket.Payload ping\<rparr>))]\<rparr>"
proof -
  have s: "seal rc rnd (a\<lparr>am_NextLocalSequence := next\<rparr>) = seal rc rnd a"
    by (rule ext) (simp add: seal_def)
  have "Success (seal rc rnd a (control_layout \<lparr>Type = Pong, AckSequence = k, Sequence = sq,
      AckMask = 0, ExtraFlags = 0, VoipControlPacket.Payload = VoipControlPacket.Payload ping\<rparr>))" for k
    using assms(1,2) by (intro seal_success) simp_all
  then show ?thesis
    by (simp add: SendPong_def t BuildControlPacket_eq [OF assms(2)] s Let_def)
qed

lemma am_peers_sender [simp]:
  "am_peers rc (a\<lparr>am_NextLocalSequence := n, am_wire := ws\<rparr>) b = am_peers rc a b"
  "am_peers rc (a\<lparr>am_NextLocalSequence := n, am_wire := ws, am_MediaPacketsSent := m, am_MediaBytesSent := l,
     am_OutboundLevelPermille := p, am_AudioTimestampOut := ts\<rparr>) b = am_peers rc a b"
  by (simp_all add: am_peers_def am_keyed_def)

lemma am_peers_keyed: "am_peers rc a b \<Longrightarrow> am_keyed a"
  by (simp add: am_peers_def)

lemma length_audio_packet:
  "length opus \<le> 1093 \<Longrightarrow> length (VoipControlPacket.Payload (audio_packet sq ack ts opus)) \<le> 1100"
  by (simp add: audio_packet_def length_stream_layout)

text \<open>
  Control packets share the sequence counter of the audio. When a side answers a ping between
  two frames, the peer opens the three packets with consecutive sequence numbers: the second frame follows
  the first in time but not in its number, so the number in between, which only the audio packets put into
  the jitter buffer, is never filled there.
\<close>

theorem pong_opens_gap:
  assumes "am_peers rc a b" and "pcm \<noteq> []" and "opus \<noteq> []" and "length opus \<le> 1093"
    and "opus' \<noteq> []" and "length opus' \<le> 1093" and "length (VoipControlPacket.Payload ping) \<le> 1100"
    and "am_NextLocalSequence a = n" and "n \<noteq> 0" and "n < 0xFFFFFFF0"
  shows "let a1 = snd (EncodeAndSendAudioFrame rc rnd pcm opus True a);
             a2 = SendPong rc rnd' True ping a1;
             a3 = snd (EncodeAndSendAudioFrame rc rnd'' pcm opus' True a2);
             ack = am_LastRemoteSequence a; ts = am_AudioTimestampOut a
         in map (open_packet rc b) (drop (length (am_wire a)) (am_wire a3)) =
            [Some (audio_packet n ack ts opus),
             Some \<lparr>Type = Pong, AckSequence = (if ack = 0 then Sequence ping else ack), Sequence = n + 1, AckMask = 0,
               ExtraFlags = 0, VoipControlPacket.Payload = VoipControlPacket.Payload ping\<rparr>,
             Some (audio_packet (n + 2) ack (ts + 60) opus')]"
proof -
  have nz: "n + 1 \<noteq> 0" "n + 2 \<noteq> 0" "n + 3 \<noteq> 0"
    using assms(10) by (auto simp: word_less_nat_alt word_unat_eq_iff unat_word_ariths)
  have t: "TakeNextSequence (am_NextLocalSequence a) = (n, n + 1)" "TakeNextSequence (n + 1) = (n + 1, n + 2)"
    "TakeNextSequence (n + 2) = (n + 2, n + 3)"
    using nz assms(8,9) by (simp_all add: TakeNextSequence_def Let_def add.commute add.left_commute)
  define a1 where "a1 = snd (EncodeAndSendAudioFrame rc rnd pcm opus True a)"
  define a2 where "a2 = SendPong rc rnd' True ping a1"
  define a3 where "a3 = snd (EncodeAndSendAudioFrame rc rnd'' pcm opus' True a2)"
  note k = am_peers_keyed [OF assms(1)]
  note e1 = EncodeAndSend_ok [OF k assms(2,3,4) t(1), of rc rnd, folded]
  have p1: "am_peers rc a1 b" and f1: "am_NextLocalSequence a1 = n + 1" "am_LastRemoteSequence a1 = am_LastRemoteSequence a"
    "am_AudioTimestampOut a1 = am_AudioTimestampOut a + 60"
    "am_wire a1 = am_wire a @ [Bytes (seal rc rnd a (control_layout (audio_packet n (am_LastRemoteSequence a) (am_AudioTimestampOut a) opus)))]"
    using assms(1) by (simp_all add: a1_def e1)
  note e2 = SendPong_ok [OF am_peers_keyed [OF p1] assms(7) t(2) [folded f1(1)], of rc rnd']
  have p2: "am_peers rc a2 b" and f2: "am_NextLocalSequence a2 = n + 2" "am_LastRemoteSequence a2 = am_LastRemoteSequence a"
    "am_AudioTimestampOut a2 = am_AudioTimestampOut a + 60"
    "am_wire a2 = am_wire a1 @ [Bytes (seal rc rnd' a1 (control_layout \<lparr>Type = Pong,
      AckSequence = (if am_LastRemoteSequence a = 0 then Sequence ping else am_LastRemoteSequence a), Sequence = n + 1,
      AckMask = 0, ExtraFlags = 0, VoipControlPacket.Payload = VoipControlPacket.Payload ping\<rparr>))]"
    using p1 by (simp_all add: a2_def e2 f1)
  note e3 = EncodeAndSend_ok [OF am_peers_keyed [OF p2] assms(2,5,6) t(3) [folded f2(1)], of rc rnd'']
  have f3: "am_wire a3 = am_wire a2 @ [Bytes (seal rc rnd'' a2 (control_layout
      (audio_packet (n + 2) (am_LastRemoteSequence a) (am_AudioTimestampOut a + 60) opus')))]"
    by (simp add: a3_def e3 f2)
  show ?thesis
    unfolding Let_def a1_def [symmetric] a2_def [symmetric] a3_def [symmetric]
    by (simp add: f3 f2(4) f1(4) open_seal [OF assms(1) length_audio_packet [OF assms(4)]]
        open_seal [OF p2 length_audio_packet [OF assms(6)]] open_seal [OF p1] assms(7))
qed

theorem pong_opens_gap_witness:
  "let a1 = snd (EncodeAndSendAudioFrame demo_crypto (\<lambda>i. 0) [5] [1] True (demo_side True));
       a2 = SendPong demo_crypto (\<lambda>i. 0) True \<lparr>Type = Ping, AckSequence = 0, Sequence = 4, AckMask = 0,
              ExtraFlags = 0, VoipControlPacket.Payload = []\<rparr> a1;
       a3 = snd (EncodeAndSendAudioFrame demo_crypto (\<lambda>i. 0) [5] [2] True a2)
   in map (map_option Sequence \<circ> open_packet demo_crypto (demo_side False)) (am_wire a3) = [Some 1, Some 2, Some 3]"
proof -
  have "length ([] :: bytes) \<le> 1100" "(1 :: u32) \<noteq> 0" "(1 :: u32) < 0xFFFFFFF0" "length ([1] :: bytes) \<le> 1093"
    "length ([2] :: bytes) \<le> 1093" by simp_all
  note * = pong_opens_gap [OF demo_peers(1), of "[5]" "[1]" "[2]" "\<lparr>Type = Ping, AckSequence = 0, Sequence = 4,
      AckMask = 0, ExtraFlags = 0, VoipControlPacket.Payload = []\<rparr>" 1 "\<lambda>i. 0" "\<lambda>i. 0" "\<lambda>i. 0",
      simplified demo_fields list.size drop_0 Let_def map_map]
  show ?thesis
    using arg_cong [where f = "map (map_option Sequence)", OF *]
    by (simp add: Let_def audio_packet_def)
qed


section \<open>The loops together\<close>

text \<open>
  The turns of the three loops and the control calls, in any order; \<open>None\<close> after a conversion outside the
  range of its type. \<open>am_start\<close> is the context \<open>StartMedia\<close> hands to the loops.
\<close>

definition am_start :: "bytes \<Rightarrow> bytes \<Rightarrow> bool \<Rightarrow> u32 \<Rightarrow> u32 \<Rightarrow> bool \<Rightarrow> VoipActiveMediaContext" where
  "am_start key tag incoming nextLocal lastRemote acked =
     am_new\<lparr>am_SharedKey := key, am_PeerTag := tag, am_LocalIsOutgoing := \<not> incoming,
       am_NextLocalSequence := nextLocal, am_LastRemoteSequence := lastRemote, am_InitAckReceived := acked\<rparr>"

datatype am_event =
  SendTurn "int list option" "int list \<Rightarrow> bytes" bool
| InitTick bool
| Datagram int bytes bool
| Drain "drain_turn list"
| StopRequest

fun am_step :: "RelayCrypto \<Rightarrow> random_fn \<Rightarrow> VoipActiveMediaContext option \<Rightarrow> am_event \<Rightarrow> VoipActiveMediaContext option" where
  "am_step rc rnd None e = None"
| "am_step rc rnd (Some a) (SendTurn audio encode sent) = Some (MediaSendTurn rc rnd audio encode sent a)"
| "am_step rc rnd (Some a) (InitTick sent) = Some (InitTurn rc rnd sent a)"
| "am_step rc rnd (Some a) (Datagram now bs sent) =
     (if am_StopRequested a then Some a else MediaReceive rc rnd sent now bs a)"
| "am_step rc rnd (Some a) (Drain ts) = Some (snd (DrainJitterToAudio ts a))"
| "am_step rc rnd (Some a) StopRequest = Some (a\<lparr>am_StopRequested := True\<rparr>)"

definition permille_ok :: "int \<Rightarrow> bool" where
  "permille_ok l \<longleftrightarrow> 0 \<le> l \<and> l \<le> 1000"

definition am_inv :: "bytes \<Rightarrow> bytes \<Rightarrow> VoipActiveMediaContext \<Rightarrow> bool" where
  "am_inv key tag a \<longleftrightarrow> am_SharedKey a = key \<and> am_PeerTag a = tag \<and> jb_inv (am_Jitter a) \<and>
     am_NextLocalSequence a \<noteq> 0 \<and> permille_ok (am_OutboundLevelPermille a) \<and> permille_ok (am_InboundLevelPermille a) \<and>
     am_AudioTimestampOut a = 60 * am_MediaPacketsSent a \<and>
     (am_MediaPacketsSent a \<noteq> 0 \<longrightarrow> am_InitAckReceived a)"

lemma PcmLevelPermille_ok: "permille_ok (PcmLevelPermille pcm)"
proof -
  have "0 \<le> sum_list (map (\<lambda>s. if s < 0 then - s else s) pcm)" by (rule sum_list_nonneg) auto
  then show ?thesis by (simp add: permille_ok_def PcmLevelPermille_def Let_def div_int_pos_iff)
qed

lemma permille_ok_0 [simp]: "permille_ok 0"
  by (simp add: permille_ok_def)

text \<open>What sending a control packet changes: the counter, and the log of the socket.\<close>

definition am_only_sends :: "VoipActiveMediaContext \<Rightarrow> VoipActiveMediaContext \<Rightarrow> bool" where
  "am_only_sends a a' \<longleftrightarrow> (\<exists>n ws. n \<noteq> 0 \<and> a' = a\<lparr>am_NextLocalSequence := n, am_wire := ws\<rparr>)"

lemma am_only_sendsI: "n \<noteq> 0 \<Longrightarrow> am_only_sends a (a\<lparr>am_NextLocalSequence := n, am_wire := ws\<rparr>)"
  "n \<noteq> 0 \<Longrightarrow> am_only_sends a (a\<lparr>am_NextLocalSequence := n\<rparr>)"
proof -
  show "am_only_sends a (a\<lparr>am_NextLocalSequence := n, am_wire := ws\<rparr>)" if "n \<noteq> 0" for ws
    using that unfolding am_only_sends_def by blast
  from this [of "am_wire a"] show "n \<noteq> 0 \<Longrightarrow> am_only_sends a (a\<lparr>am_NextLocalSequence := n\<rparr>)" by simp
qed

lemma control_sends:
  "am_only_sends a (SendPong rc rnd sent ping a)"
  "am_only_sends a (SendInitAck rc rnd sent ping a)"
  "am_only_sends a (snd (SendInit rc rnd sent a))"
  using TakeNextSequence_nonzero [of "am_NextLocalSequence a"]
  by (auto simp: SendPong_def SendInitAck_def SendInit_def Let_def intro!: am_only_sendsI split: prod.split sum.split)

lemma am_inv_sends: "am_inv key tag a \<Longrightarrow> am_only_sends a a' \<Longrightarrow> am_inv key tag a'"
  by (auto simp: am_inv_def am_only_sends_def)

lemma EncodeAndSend_shape:
  obtains (same) "snd (EncodeAndSendAudioFrame rc rnd pcm opus sent a) = a"
  | (lost) n where "n \<noteq> 0" and "snd (EncodeAndSendAudioFrame rc rnd pcm opus sent a) = a\<lparr>am_NextLocalSequence := n\<rparr>"
  | (sent) n ws l where "n \<noteq> 0" and "snd (EncodeAndSendAudioFrame rc rnd pcm opus sent a)
      = a\<lparr>am_NextLocalSequence := n, am_wire := ws, am_MediaPacketsSent := am_MediaPacketsSent a + 1,
          am_MediaBytesSent := l, am_OutboundLevelPermille := PcmLevelPermille pcm,
          am_AudioTimestampOut := am_AudioTimestampOut a + 60\<rparr>"
proof -
  obtain sq n where t: "TakeNextSequence (am_NextLocalSequence a) = (sq, n)" by fastforce
  then have n: "n \<noteq> 0" using TakeNextSequence_nonzero by blast
  note def = EncodeAndSendAudioFrame_def t Let_def DefaultAudioFrameDurationMs_def
  show thesis
  proof (cases "pcm = [] \<or> opus = [] \<or> isl (encode_audio DefaultAudioStreamId (am_AudioTimestampOut a) opus)")
    case True
    then show thesis by (intro same) (auto simp: def isl_def)
  next
    case False
    then obtain pl where pl: "pcm \<noteq> []" "opus \<noteq> []"
      "encode_audio DefaultAudioStreamId (am_AudioTimestampOut a) opus = Inr pl"
      by (metis sum.disc(1) sum.exhaust)
    show thesis
    proof (cases "BuildControlPacket StreamData sq (am_LastRemoteSequence a) pl")
      case (Inl e)
      then show thesis using pl by (intro lost [OF n]) (simp add: def)
    next
      case (Inr packet)
      show thesis
      proof (cases "Success (seal rc rnd (a\<lparr>am_NextLocalSequence := n\<rparr>) packet) \<and> sent")
        case True
        show thesis using pl Inr True
          by (intro sent [OF n, where ws = "am_wire a @ [Bytes (seal rc rnd (a\<lparr>am_NextLocalSequence := n\<rparr>) packet)]"
              and l = "am_MediaBytesSent a + of_nat (length (Bytes (seal rc rnd (a\<lparr>am_NextLocalSequence := n\<rparr>) packet)))"])
            (simp add: def)
      next
        case False
        then show thesis using pl Inr by (intro lost [OF n]) (auto simp: def)
      qed
    qed
  qed
qed

lemma am_inv_audio:
  assumes "am_inv key tag a" and "am_InitAckReceived a"
  shows "am_inv key tag (snd (EncodeAndSendAudioFrame rc rnd pcm opus sent a))"
  by (rule EncodeAndSend_shape [of rc rnd pcm opus sent a])
    (use assms in \<open>simp_all add: am_inv_def PcmLevelPermille_ok algebra_simps\<close>)

lemma am_inv_fields:
  "am_inv key tag a \<Longrightarrow> am_inv key tag (a\<lparr>am_InitAckReceived := True\<rparr>)"
  "am_inv key tag a \<Longrightarrow> am_inv key tag (a\<lparr>am_AudioUnderruns := n\<rparr>)"
  "am_inv key tag a \<Longrightarrow> am_inv key tag (a\<lparr>am_LastRemoteSequence := q\<rparr>)"
  "am_inv key tag a \<Longrightarrow> am_inv key tag (a\<lparr>am_StopRequested := b\<rparr>)"
  "am_inv key tag a \<Longrightarrow> jb_inv jb \<Longrightarrow> am_inv key tag (a\<lparr>am_Jitter := jb\<rparr>)"
  "am_inv key tag a \<Longrightarrow> am_inv key tag (a\<lparr>am_codec := c\<rparr>)"
  "am_inv key tag a \<Longrightarrow> permille_ok v \<Longrightarrow> am_inv key tag (a\<lparr>am_InboundLevelPermille := v, am_speaker := w\<rparr>)"
  "am_inv key tag a \<Longrightarrow> jb_inv jb \<Longrightarrow>
     am_inv key tag (a\<lparr>am_MediaReady := r, am_MediaPacketsReceived := k, am_MediaBytesReceived := l, am_Jitter := jb\<rparr>)"
  by (simp_all add: am_inv_def)

lemma am_inv_jitter: "am_inv key tag a \<Longrightarrow> jb_inv (am_Jitter a)"
  by (simp add: am_inv_def)

lemma am_inv_send_turn:
  assumes "am_inv key tag a"
  shows "am_inv key tag (MediaSendTurn rc rnd audio encode sent a)"
proof (cases "am_StopRequested a \<or> \<not> am_InitAckReceived a")
  case True
  then show ?thesis using assms by (auto simp: MediaSendTurn_def)
next
  case False
  moreover have "am_inv key tag (a\<lparr>am_AudioUnderruns := am_AudioUnderruns a + 1\<rparr>)"
    using assms by (rule am_inv_fields)
  ultimately show ?thesis
    using assms by (simp add: MediaSendTurn_def Let_def am_inv_audio split: option.split)
qed

lemma am_inv_dispatch:
  assumes "am_inv key tag a" and "media_dispatch rc rnd sent now len p a = Some a'"
  shows "am_inv key tag a'"
  using assms(2) am_inv_fields(1) [OF assms(1)] am_inv_fields(8) [OF assms(1) jb_inv_Insert [OF am_inv_jitter [OF assms(1)]]]
    am_inv_sends [OF assms(1) control_sends(1)] am_inv_sends [OF assms(1) control_sends(2)] assms(1)
  unfolding media_dispatch_def
  by (simp only: split: if_splits option.splits sum.splits prod.splits) blast+

lemma am_inv_receive:
  assumes "am_inv key tag a" and "MediaReceive rc rnd sent now bs a = Some a'"
  shows "am_inv key tag a'"
proof -
  have "am_inv key tag (note_sequence p a)" for p
    using assms(1) by (simp add: note_sequence_def am_inv_fields)
  then show ?thesis
    using assms by (auto simp: MediaReceive_def split: option.splits intro: am_inv_dispatch)
qed

lemma am_inv_drain: "am_inv key tag a \<Longrightarrow> am_inv key tag (snd (DrainJitterToAudio ts a))"
proof (induction ts arbitrary: a)
  case Nil
  then show ?case by simp
next
  case (Cons t ts)
  obtain frame jb where n: "jb_NextPlayoutFrame (am_Jitter a) (dt_now t) = (frame, jb)" by fastforce
  have "jb_inv jb" using jb_inv_NextPlayoutFrame [OF am_inv_jitter [OF Cons.prems], of "dt_now t"] by (simp add: n)
  note inv = am_inv_fields(5) [OF Cons.prems this]
  show ?case
    using inv Cons.IH [OF am_inv_fields(6) [OF inv]] Cons.IH [OF am_inv_fields(7) [OF am_inv_fields(6) [OF inv] PcmLevelPermille_ok]]
    by (simp add: n Let_def)
qed

definition am_inv_opt :: "bytes \<Rightarrow> bytes \<Rightarrow> VoipActiveMediaContext option \<Rightarrow> bool" where
  "am_inv_opt key tag ao = (case ao of None \<Rightarrow> True | Some a \<Rightarrow> am_inv key tag a)"

lemma am_inv_start: "n \<noteq> 0 \<Longrightarrow> am_inv key tag (am_start key tag inc n r ack)"
  by (simp add: am_inv_def am_start_def am_new_def jb_inv_new)

lemma am_inv_step: "am_inv_opt key tag ao \<Longrightarrow> am_inv_opt key tag (am_step rc rnd ao e)"
  by (cases ao; cases e)
    (auto simp: am_inv_opt_def am_inv_send_turn am_inv_drain am_inv_fields InitTurn_def
        am_inv_sends [OF _ control_sends(3)] split: option.split dest: am_inv_receive)

text \<open>\<open>next\<close> counts from 1: the handshake starts there and \<open>TakeNextSequence\<close> skips 0.\<close>

interpretation relay: reactive "am_step rc rnd" "am_inv_opt key tag"
  "Some (am_start key tag incoming (if nextLocal = 0 then 1 else nextLocal) lastRemote acked)"
  for rc rnd key tag incoming nextLocal lastRemote acked
proof
  show "am_inv_opt key tag (Some (am_start key tag incoming (if nextLocal = 0 then 1 else nextLocal) lastRemote acked))"
    by (simp add: am_inv_opt_def am_inv_start)
qed (rule am_inv_step)

text \<open>
  Claim C23: however the turns of the three media loops interleave and whatever the network, the codec and
  the audio device deliver, the context keeps: the key and tag of the call, a well-formed jitter buffer, a
  next sequence number other than 0, levels between 0 and 1000 per mille, and a media timestamp of exactly
  60 ms per packet sent; and no audio leaves before the peer acknowledged the Opus stream.
\<close>

theorem relay_media_invariant:
  assumes "nextLocal \<noteq> 0"
  shows "case run_steps (am_step rc rnd) (Some (am_start key tag incoming nextLocal lastRemote acked)) es of
     None \<Rightarrow> True
   | Some a \<Rightarrow> am_SharedKey a = key \<and> am_PeerTag a = tag \<and> jb_inv (am_Jitter a) \<and> am_NextLocalSequence a \<noteq> 0 \<and>
       0 \<le> am_OutboundLevelPermille a \<and> am_OutboundLevelPermille a \<le> 1000 \<and>
       0 \<le> am_InboundLevelPermille a \<and> am_InboundLevelPermille a \<le> 1000 \<and>
       am_AudioTimestampOut a = 60 * am_MediaPacketsSent a \<and>
       (am_InitAckReceived a \<or> am_MediaPacketsSent a = 0)"
  using relay.inv_run [where key = key and tag = tag and incoming = incoming and nextLocal = nextLocal
      and lastRemote = lastRemote and acked = acked and rc = rc and rnd = rnd and es = es] assms
  by (auto simp: am_inv_opt_def am_inv_def permille_ok_def split: option.split)

theorem relay_media_invariant_witness:
  "let a = MediaSendTurn demo_crypto (\<lambda>i. 0) None (\<lambda>pcm. [1]) True (am_start (replicate 256 7) (replicate 16 9) True 5 0 True)
   in am_NextLocalSequence a \<noteq> 0 \<and> am_AudioTimestampOut a = 60 * am_MediaPacketsSent a"
  using relay_media_invariant [where nextLocal = 5 and rc = demo_crypto and rnd = "\<lambda>i. 0" and key = "replicate 256 7"
      and tag = "replicate 16 9" and incoming = True and lastRemote = 0 and acked = True
      and es = "[SendTurn None (\<lambda>pcm. [1]) True]"]
  by (simp add: Let_def)


section \<open>Draining ends\<close>

lemma jb_firstPlayout:
  "m_firstPlayoutMs (snd (jb_NextPlayoutFrame s now)) = m_firstPlayoutMs s"
  by (auto simp: jb_NextPlayoutFrame_def Let_def split: option.split)

lemma jb_frameMs: "m_frameMs (snd (jb_NextPlayoutFrame s now)) = m_frameMs s"
  by (auto simp: jb_NextPlayoutFrame_def Let_def split: option.split)

text \<open>
  The drain loop returns. If the clock reads at most \<open>T\<close> while it runs, it plays at most one
  frame for each frame duration that \<open>T\<close> is past the next due time, and then returns: that many turns and
  one more are enough, whatever the codec does.
\<close>

theorem drain_terminates:
  assumes "0 < m_frameMs (am_Jitter a)" and "list_all (\<lambda>t. dt_now t \<le> T) ts"
    and "T - (m_firstPlayoutMs (am_Jitter a) + m_playoutIndex (am_Jitter a) * m_frameMs (am_Jitter a))
      < (int (length ts) - 1) * m_frameMs (am_Jitter a)"
    and "ts \<noteq> []"
  shows "fst (DrainJitterToAudio ts a)"
  using assms
proof (induction ts arbitrary: a)
  case Nil
  then show ?case by simp
next
  case (Cons t ts)
  let ?j = "am_Jitter a"
  obtain frame jb where n: "jb_NextPlayoutFrame ?j (dt_now t) = (frame, jb)" by fastforce
  show ?case
  proof (cases "Ready frame")
    case False
    then show ?thesis by (simp add: n)
  next
    case True
    then have r: "Ready (fst (jb_NextPlayoutFrame ?j (dt_now t)))" by (simp add: n)
    have jb: "m_frameMs jb = m_frameMs ?j" "m_playoutIndex jb = m_playoutIndex ?j + 1"
      "m_firstPlayoutMs jb = m_firstPlayoutMs ?j"
      using jb_NextPlayoutFrame_state(1,5) [OF r] jb_firstPlayout [of ?j "dt_now t"] by (simp_all add: n)
    have "m_firstPlayoutMs ?j + m_playoutIndex ?j * m_frameMs ?j \<le> T"
      using r Cons.prems(2) by (simp add: jb_NextPlayoutFrame_ready)
    then have "0 < (int (length (t # ts)) - 1) * m_frameMs ?j" using Cons.prems(3) by linarith
    then have ne: "ts \<noteq> []" using Cons.prems(1) by (auto simp: zero_less_mult_iff)
    have "fst (DrainJitterToAudio ts b)" if "am_Jitter b = jb" for b
      using Cons.IH [of b] Cons.prems(1-3) ne by (simp add: that jb algebra_simps)
    then show ?thesis using True by (simp add: n Let_def)
  qed
qed

definition demo_turn :: "int \<Rightarrow> drain_turn" where
  "demo_turn now = \<lparr>dt_now = now, dt_decoded = 1, dt_pcm = [5]\<rparr>"

theorem drain_terminates_witness:
  "fst (DrainJitterToAudio (replicate 5 (demo_turn 190))
     (am_new\<lparr>am_Jitter := jb_new 60\<lparr>m_started := True, m_firstPlayoutMs := 0\<rparr>\<rparr>))"
  using drain_terminates [where a = "am_new\<lparr>am_Jitter := jb_new 60\<lparr>m_started := True, m_firstPlayoutMs := 0\<rparr>\<rparr>"
      and ts = "replicate 5 (demo_turn 190)" and T = 190]
  by (simp add: jb_new_def jb_Reset_def demo_turn_def list_all_iff)

end
