(* ===== verification/ControlHandshake.thy ===== *)
theory ControlHandshake
  imports RelayMedia ReflectorPacket
begin

text \<open>
  The INIT / INIT_ACK handshake of a relay endpoint in \<open>application/voip_engine.cpp\<close>. A turn of its loop
  is given what the environment does in it: the clock readings (nanoseconds of the steady clock), the
  outcome of each send, and what the socket receives, an error or a datagram with its round-trip time.
\<close>

unbundle bit_operations_syntax

section \<open>Policy and outcome\<close>

definition kInitialRetryMs :: int where "kInitialRetryMs = 250"
definition kMaxRetryMs :: int where "kMaxRetryMs = 1500"
definition kMaxInitAttempts :: int where "kMaxInitAttempts = 12"
definition kControlHandshakeTimeoutMs :: int where "kControlHandshakeTimeoutMs = 13000"

lemmas handshake_consts = kInitialRetryMs_def kMaxRetryMs_def kMaxInitAttempts_def kControlHandshakeTimeoutMs_def

definition ms :: int where "ms = 1000000"

definition TransportError :: "string \<Rightarrow> VoipError" where
  "TransportError message = VoipError_Of TransportFailed 0 message"

definition RemainingMs :: "int \<Rightarrow> int \<Rightarrow> int" where
  "RemainingMs deadline now =
     (if now \<ge> deadline then 0
      else (let m = (deadline - now) div ms in if m < 1 then 1 else m))"

text \<open>\<open>std::string::find\<close>\<close>

fun contains :: "string \<Rightarrow> string \<Rightarrow> bool" where
  "contains needle [] \<longleftrightarrow> needle = []"
| "contains needle (c # s) \<longleftrightarrow> take (length needle) (c # s) = needle \<or> contains needle s"

type_synonym received = "string + bytes \<times> int"

fun IsReceiveTimeout :: "received \<Rightarrow> bool" where
  "IsReceiveTimeout (Inl error) \<longleftrightarrow> contains ''timed out'' error"
| "IsReceiveTimeout (Inr _) \<longleftrightarrow> False"

record ControlHandshakeOutcome =
  co_Error :: VoipError
  co_PacketsSent :: u32
  co_PacketsReceived :: u32
  co_BytesSent :: u32
  co_BytesReceived :: u32
  co_RttMs :: int
  co_PeerVersion :: u32
  co_AudioFrameDurationMs :: u16
  co_SelfInfoResponses :: u32
  co_DecryptFailures :: u32
  co_DecodeFailures :: u32
  co_InitAttempts :: u32
  co_InitAckReceived :: bool

definition outcome_new :: ControlHandshakeOutcome where
  "outcome_new = \<lparr>co_Error = VoipError_Ok, co_PacketsSent = 0, co_PacketsReceived = 0, co_BytesSent = 0,
     co_BytesReceived = 0, co_RttMs = 0, co_PeerVersion = 0, co_AudioFrameDurationMs = 0, co_SelfInfoResponses = 0,
     co_DecryptFailures = 0, co_DecodeFailures = 0, co_InitAttempts = 0, co_InitAckReceived = False\<rparr>"

text \<open>What a handshake is run with, its variables, and a turn of the environment.\<close>

record hs_conf =
  hc_crypto :: RelayCrypto
  hc_tag :: bytes
  hc_query :: u64
  hc_key :: bytes
  hc_out :: bool

record hs_state =
  hs_outcome :: ControlHandshakeOutcome
  hs_nextLocal :: u32
  hs_lastRemote :: u32
  hs_attempts :: int
  hs_nextInitAt :: int
  hs_retryMs :: int
  hs_selfInfo :: int
  hs_decryptFailures :: int
  hs_decodeFailures :: int
  hs_lastError :: string
  hs_wire :: "bytes list"

record hs_turn =
  ht_check :: int
  ht_now :: int
  ht_initRandom :: random_fn
  ht_initSent :: "string option"
  ht_received :: received
  ht_replyRandom :: random_fn
  ht_replySent :: "string option"


section \<open>Sending\<close>

definition note_sent :: "bytes \<Rightarrow> hs_state \<Rightarrow> hs_state" where
  "note_sent bs s =
     (let oc = hs_outcome s in
      s\<lparr>hs_outcome := oc\<lparr>co_PacketsSent := co_PacketsSent oc + 1, co_BytesSent := co_BytesSent oc + of_nat (length bs)\<rparr>,
        hs_wire := hs_wire s @ [bs]\<rparr>)"

text \<open>The result is the error, if any.\<close>

definition EncryptAndSendControlPacket ::
    "hs_conf \<Rightarrow> random_fn \<Rightarrow> string option \<Rightarrow> bytes \<Rightarrow> hs_state \<Rightarrow> string option \<times> hs_state" where
  "EncryptAndSendControlPacket c rnd sent plain s =
     (let encrypted = EncryptRelayPacketMtProto2Short (rc_sha256 (hc_crypto c)) (rc_encrypt (hc_crypto c)) rnd
            (hc_key c) (hc_out c) (hc_tag c) plain
      in if \<not> Success encrypted then (Some (Error encrypted), s)
         else case sent of
           Some error \<Rightarrow> (Some error, s)
         | None \<Rightarrow> (None, note_sent (Bytes encrypted) s))"

definition SendInitPacket :: "hs_conf \<Rightarrow> random_fn \<Rightarrow> string option \<Rightarrow> hs_state \<Rightarrow> string option \<times> hs_state" where
  "SendInitPacket c rnd sent s =
     (let (seq, next) = TakeNextSequence (hs_nextLocal s);
          s' = s\<lparr>hs_nextLocal := next\<rparr>
      in case BuildControlPacket Init seq (hs_lastRemote s) (build_init_payload False) of
           Inl e \<Rightarrow> (Some e, s')
         | Inr packet \<Rightarrow> EncryptAndSendControlPacket c rnd sent packet s')"


section \<open>The loop\<close>

definition hs_fail :: "VoipError \<Rightarrow> hs_state \<Rightarrow> hs_state" where
  "hs_fail e s = s\<lparr>hs_outcome := (hs_outcome s)\<lparr>co_Error := e\<rparr>\<rparr>"

text \<open>\<open>Inl\<close> when the function returns, \<open>Inr\<close> when its loop goes on.\<close>

definition hs_send_init :: "hs_conf \<Rightarrow> hs_turn \<Rightarrow> hs_state \<Rightarrow> hs_state + hs_state" where
  "hs_send_init c t s =
     (if hs_attempts s = 0 \<or> ht_now t \<ge> hs_nextInitAt s then
        (case SendInitPacket c (ht_initRandom t) (ht_initSent t) s of
           (Some e, s) \<Rightarrow> Inl (hs_fail (TransportError e) s)
         | (None, s) \<Rightarrow>
             (let doubled = hs_retryMs s * 2 in
              Inr (s\<lparr>hs_attempts := hs_attempts s + 1, hs_nextInitAt := ht_now t + hs_retryMs s * ms,
                     hs_retryMs := (if doubled > kMaxRetryMs then kMaxRetryMs else doubled)\<rparr>)))
      else Inr s)"

definition hs_reply :: "hs_conf \<Rightarrow> hs_turn \<Rightarrow> VoipControlPacketType \<Rightarrow> bytes \<Rightarrow> hs_state \<Rightarrow> hs_state + hs_state" where
  "hs_reply c t type payload s =
     (let (seq, next) = TakeNextSequence (hs_nextLocal s);
          s = s\<lparr>hs_nextLocal := next\<rparr>
      in case BuildControlPacket type seq (hs_lastRemote s) payload of
           Inl e \<Rightarrow> Inl (hs_fail (TransportError e) s)
         | Inr packet \<Rightarrow>
             (case EncryptAndSendControlPacket c (ht_replyRandom t) (ht_replySent t) packet s of
                (Some e, s) \<Rightarrow> Inl (hs_fail (TransportError e) s)
              | (None, s) \<Rightarrow> Inr s))"

definition hs_counters :: "bool \<Rightarrow> hs_state \<Rightarrow> hs_state" where
  "hs_counters acked s = s\<lparr>hs_outcome := (hs_outcome s)\<lparr>co_SelfInfoResponses := of_int (hs_selfInfo s),
     co_DecryptFailures := of_int (hs_decryptFailures s), co_DecodeFailures := of_int (hs_decodeFailures s),
     co_InitAttempts := of_int (hs_attempts s), co_InitAckReceived := acked\<rparr>\<rparr>"

definition hs_packet :: "hs_conf \<Rightarrow> hs_turn \<Rightarrow> VoipControlPacket \<Rightarrow> hs_state \<Rightarrow> hs_state + hs_state" where
  "hs_packet c t p s =
     (let s = (if Sequence p \<noteq> 0 \<and> (hs_lastRemote s = 0 \<or> Sequence p > hs_lastRemote s)
               then s\<lparr>hs_lastRemote := Sequence p\<rparr> else s)
      in if Type p = InitAck then
           (case parse_init_ack_payload (VoipControlPacket.Payload p) of
              Some (Inr ack) \<Rightarrow>
                if \<not> HasAudioOpusStream ack then
                  Inl (hs_fail (VoipError_Of CodecFailed 0 ''VoIP peer did not advertise an enabled OPUS audio stream'') s)
                else
                  Inl (hs_counters True (s\<lparr>hs_outcome := (hs_outcome s)\<lparr>co_PeerVersion := PeerVersion ack,
                         co_AudioFrameDurationMs := FrameDurationMs ack\<rparr>\<rparr>))
            | Some (Inl e) \<Rightarrow> Inl (hs_fail (TransportError e) s)
            | None \<Rightarrow> Inl (hs_fail (TransportError []) s))
         else if Type p = Init then hs_reply c t InitAck build_init_ack_payload s
         else if Type p = Ping then hs_reply c t Pong (VoipControlPacket.Payload p) s
         else Inr s)"

definition hs_datagram :: "hs_conf \<Rightarrow> hs_turn \<Rightarrow> bytes \<Rightarrow> hs_state \<Rightarrow> hs_state + hs_state" where
  "hs_datagram c t bs s =
     (case parse_self_info_response bs (hc_tag c) of
        Some (Inr info) \<Rightarrow> Inr (if QueryId info = hc_query c then s\<lparr>hs_selfInfo := hs_selfInfo s + 1\<rparr> else s)
      | _ \<Rightarrow>
          (let decrypted = DecryptRelayPacketMtProto2Short (rc_sha256 (hc_crypto c)) (rc_decrypt (hc_crypto c))
                 (hc_key c) (hc_out c) (hc_tag c) bs
           in if \<not> Success decrypted then
                Inr (s\<lparr>hs_decryptFailures := hs_decryptFailures s + 1, hs_lastError := Error decrypted\<rparr>)
              else case decode_short (Plain decrypted) of
                Some (Inr p) \<Rightarrow> hs_packet c t p s
              | Some (Inl e) \<Rightarrow> Inr (s\<lparr>hs_decodeFailures := hs_decodeFailures s + 1, hs_lastError := e\<rparr>)
              | None \<Rightarrow> Inr s))"

definition hs_receive :: "hs_conf \<Rightarrow> hs_turn \<Rightarrow> hs_state \<Rightarrow> hs_state + hs_state" where
  "hs_receive c t s =
     (case ht_received t of
        Inl e \<Rightarrow> if IsReceiveTimeout (ht_received t) then Inr s else Inl (hs_fail (TransportError e) s)
      | Inr (bs, rtt) \<Rightarrow>
          (let oc = hs_outcome s;
               s = s\<lparr>hs_outcome := oc\<lparr>co_PacketsReceived := co_PacketsReceived oc + 1,
                      co_BytesReceived := co_BytesReceived oc + of_nat (length bs),
                      co_RttMs := (if rtt > 0 then rtt else co_RttMs oc)\<rparr>\<rparr>
           in hs_datagram c t bs s))"

definition hs_turn_step :: "hs_conf \<Rightarrow> hs_turn \<Rightarrow> hs_state \<Rightarrow> hs_state + hs_state" where
  "hs_turn_step c t s =
     (case hs_send_init c t s of
        Inl s \<Rightarrow> Inl s
      | Inr s \<Rightarrow> hs_receive c t s)"

definition show_u32 :: "u32 \<Rightarrow> string" where
  "show_u32 w = show_nat (unat w)"

definition hs_timeout :: "hs_state \<Rightarrow> hs_state" where
  "hs_timeout s =
     (let s = hs_counters False s; oc = hs_outcome s;
          msg = ''VoIP INIT/INIT_ACK handshake timed out'' @ '' attempts='' @ show_int (hs_attempts s) @
            '' selfInfo='' @ show_int (hs_selfInfo s) @ '' txPackets='' @ show_u32 (co_PacketsSent oc) @
            '' rxPackets='' @ show_u32 (co_PacketsReceived oc) @ '' txBytes='' @ show_u32 (co_BytesSent oc) @
            '' rxBytes='' @ show_u32 (co_BytesReceived oc) @ '' decryptFailures='' @ show_int (hs_decryptFailures s) @
            '' decodeFailures='' @ show_int (hs_decodeFailures s) @
            (if hs_lastError s \<noteq> [] then '' lastPacketError='' @ hs_lastError s else [])
      in hs_fail (VoipError_Of HandshakeTimeout 0 msg) s)"

text \<open>The flag says whether the loop has ended within the turns given.\<close>

fun hs_loop :: "hs_conf \<Rightarrow> int \<Rightarrow> hs_turn list \<Rightarrow> hs_state \<Rightarrow> bool \<times> hs_state" where
  "hs_loop c deadline [] s = (False, s)"
| "hs_loop c deadline (t # ts) s =
     (if RemainingMs deadline (ht_check t) > 0 \<and> hs_attempts s < kMaxInitAttempts
      then (case hs_turn_step c t s of
              Inl s \<Rightarrow> (True, s)
            | Inr s \<Rightarrow> hs_loop c deadline ts s)
      else (True, hs_timeout s))"

fun hs_warmup :: "bytes \<Rightarrow> string option list \<Rightarrow> hs_state \<Rightarrow> hs_state + hs_state" where
  "hs_warmup bs [] s = Inr s"
| "hs_warmup bs (Some e # rest) s = Inl (hs_fail (TransportError e) s)"
| "hs_warmup bs (None # rest) s = hs_warmup bs rest (note_sent bs s)"

definition hs_new :: "u32 \<Rightarrow> u32 \<Rightarrow> hs_state" where
  "hs_new nextLocal lastRemote = \<lparr>hs_outcome = outcome_new, hs_nextLocal = nextLocal, hs_lastRemote = lastRemote,
     hs_attempts = 0, hs_nextInitAt = 0, hs_retryMs = kInitialRetryMs, hs_selfInfo = 0, hs_decryptFailures = 0,
     hs_decodeFailures = 0, hs_lastError = [], hs_wire = []\<rparr>"

text \<open>\<open>warm\<close> holds the outcomes of the two probes sent first; \<open>t0\<close> and \<open>t1\<close> are the clock readings
  for the deadline and the first INIT.\<close>

definition RunControlHandshake ::
    "hs_conf \<Rightarrow> string option \<times> string option \<Rightarrow> int \<Rightarrow> int \<Rightarrow> hs_turn list \<Rightarrow> u32 \<Rightarrow> u32 \<Rightarrow> bool \<times> hs_state" where
  "RunControlHandshake c warm t0 t1 ts nextLocal lastRemote =
     (let s = hs_new nextLocal lastRemote in
      case build_self_info_request (hc_tag c) (hc_query c) of
        Inl e \<Rightarrow> (True, hs_fail (TransportError e) s)
      | Inr selfInfo \<Rightarrow>
          (case hs_warmup selfInfo [fst warm, snd warm] s of
             Inl s \<Rightarrow> (True, s)
           | Inr s \<Rightarrow> hs_loop c (t0 + kControlHandshakeTimeoutMs * ms) ts (s\<lparr>hs_nextInitAt := t1\<rparr>)))"


section \<open>How many INIT packets\<close>

text \<open>The retry delay after \<open>k\<close> attempts, and the time of the next one after the first, in milliseconds.\<close>

definition retry_after :: "nat \<Rightarrow> int" where
  "retry_after k = [250, 500, 1000, 1500, 1500, 1500, 1500, 1500, 1500, 1500, 1500, 1500, 1500] ! k"

definition due_after :: "nat \<Rightarrow> int" where
  "due_after k = [0, 250, 750, 1750, 3250, 4750, 6250, 7750, 9250, 10750, 12250, 13750, 15250] ! k"

lemma schedule_step:
  assumes "k \<le> 11"
  shows "due_after (Suc k) = due_after k + retry_after k" and
    "retry_after (Suc k) = (if retry_after k * 2 > 1500 then 1500 else retry_after k * 2)"
proof -
  have "k \<in> {0, 1, 2, 3, 4, 5, 6, 7, 8, 9, 10, 11}" using assms by (auto simp: le_Suc_eq eval_nat_numeral)
  then show "due_after (Suc k) = due_after k + retry_after k"
    "retry_after (Suc k) = (if retry_after k * 2 > 1500 then 1500 else retry_after k * 2)"
    by (auto simp: due_after_def retry_after_def)
qed

text \<open>What a receiving turn leaves alone.\<close>

definition same_schedule :: "hs_state \<Rightarrow> hs_state \<Rightarrow> bool" where
  "same_schedule s s' \<longleftrightarrow> hs_attempts s' = hs_attempts s \<and> hs_nextInitAt s' = hs_nextInitAt s \<and> hs_retryMs s' = hs_retryMs s"

lemma EncryptAndSend_schedule:
  "EncryptAndSendControlPacket c rnd sent plain s = (r, s') \<Longrightarrow> same_schedule s s'"
  by (auto simp: EncryptAndSendControlPacket_def Let_def note_sent_def same_schedule_def split: if_splits option.splits)

fun either :: "'a + 'a \<Rightarrow> 'a" where
  "either (Inl x) = x"
| "either (Inr x) = x"

lemma SendInitPacket_schedule: "SendInitPacket c rnd sent s = (r, s') \<Longrightarrow> same_schedule s s'"
  by (auto simp: SendInitPacket_def Let_def same_schedule_def split: prod.splits sum.splits
      dest: EncryptAndSend_schedule)

lemma hs_reply_schedule: "same_schedule s (either (hs_reply c t ty pl s))"
  by (auto simp: hs_reply_def Let_def same_schedule_def hs_fail_def split: prod.split sum.split option.split
      dest: EncryptAndSend_schedule)

lemma hs_packet_schedule: "same_schedule s (either (hs_packet c t p s))"
  using hs_reply_schedule [of "s\<lparr>hs_lastRemote := Sequence p\<rparr>" c t] hs_reply_schedule [of s c t]
  by (auto simp: hs_packet_def Let_def same_schedule_def hs_fail_def hs_counters_def split: sum.split option.split)

lemma hs_receive_schedule: "same_schedule s (either (hs_receive c t s))"
  using hs_packet_schedule [of "_ :: hs_state" c t]
  by (auto simp: hs_receive_def hs_datagram_def Let_def same_schedule_def hs_fail_def
      split: sum.split option.split prod.split)

definition on_schedule :: "int \<Rightarrow> hs_state \<Rightarrow> bool" where
  "on_schedule t0 s \<longleftrightarrow> 0 \<le> hs_attempts s \<and> hs_attempts s \<le> 12 \<and> hs_retryMs s = retry_after (nat (hs_attempts s)) \<and>
     (hs_attempts s \<noteq> 0 \<longrightarrow> t0 + due_after (nat (hs_attempts s)) * ms \<le> hs_nextInitAt s)"

lemma on_schedule_same: "same_schedule s s' \<Longrightarrow> on_schedule t0 s' = on_schedule t0 s"
  by (simp add: on_schedule_def same_schedule_def)

lemma hs_send_init_fails:
  "hs_send_init c t s = Inl s' \<Longrightarrow> same_schedule s s'"
  by (auto simp: hs_send_init_def same_schedule_def hs_fail_def Let_def split: if_splits prod.splits option.splits
      dest: SendInitPacket_schedule)

lemma on_schedule_send:
  assumes "on_schedule t0 s" and "hs_attempts s \<le> 11" and "t0 \<le> ht_now t" and r: "hs_send_init c t s = Inr s'"
  shows "on_schedule t0 s'" and "hs_attempts s' = hs_attempts s \<or>
    hs_attempts s' = hs_attempts s + 1 \<and> (hs_attempts s = 0 \<or> hs_nextInitAt s \<le> ht_now t)"
proof -
  define k where "k = nat (hs_attempts s)"
  have k: "hs_attempts s = int k" "k \<le> 11" "hs_retryMs s = retry_after k"
    "k \<noteq> 0 \<longrightarrow> t0 + due_after k * ms \<le> hs_nextInitAt s"
    using assms(1,2) by (auto simp: on_schedule_def k_def)
  have sends: "on_schedule t0 s' \<and> hs_attempts s' = hs_attempts s + 1"
    if now: "hs_attempts s = 0 \<or> hs_nextInitAt s \<le> ht_now t"
  proof -
    obtain x y where xy: "SendInitPacket c (ht_initRandom t) (ht_initSent t) s = (x, y)" by fastforce
    have y: "same_schedule s y" using SendInitPacket_schedule [OF xy] .
    have "x = None" using r now by (auto simp: hs_send_init_def xy split: option.splits)
    then have s': "s' = y\<lparr>hs_attempts := hs_attempts y + 1, hs_nextInitAt := ht_now t + hs_retryMs y * ms,
        hs_retryMs := (if hs_retryMs y * 2 > kMaxRetryMs then kMaxRetryMs else hs_retryMs y * 2)\<rparr>"
      using r now by (auto simp: hs_send_init_def xy Let_def)
    have "t0 + due_after k * ms \<le> ht_now t" using now k(4) assms(3) k(1) by (cases "k = 0") (auto simp: due_after_def)
    then have "t0 + due_after (Suc k) * ms \<le> ht_now t + retry_after k * ms"
      by (simp add: schedule_step [OF k(2)] algebra_simps)
    then show ?thesis
      using y k schedule_step(2) [OF k(2)]
      by (simp add: s' same_schedule_def on_schedule_def handshake_consts nat_add_distrib)
  qed
  have stays: "s' = s" if "\<not> (hs_attempts s = 0 \<or> hs_nextInitAt s \<le> ht_now t)"
    using r that by (auto simp: hs_send_init_def split: if_splits)
  show "on_schedule t0 s'" and "hs_attempts s' = hs_attempts s \<or>
    hs_attempts s' = hs_attempts s + 1 \<and> (hs_attempts s = 0 \<or> hs_nextInitAt s \<le> ht_now t)"
    using sends stays assms(1) by blast+
qed

lemma hs_turn_attempts:
  assumes "on_schedule t0 s" and "hs_attempts s \<le> 11" and "t0 \<le> ht_now t"
  shows "on_schedule t0 (either (hs_turn_step c t s))"
    and "hs_attempts (either (hs_turn_step c t s)) = hs_attempts s \<or>
      hs_attempts (either (hs_turn_step c t s)) = hs_attempts s + 1 \<and> (hs_attempts s = 0 \<or> hs_nextInitAt s \<le> ht_now t)"
proof -
  have "on_schedule t0 (either (hs_turn_step c t s)) \<and> (hs_attempts (either (hs_turn_step c t s)) = hs_attempts s \<or>
      hs_attempts (either (hs_turn_step c t s)) = hs_attempts s + 1 \<and> (hs_attempts s = 0 \<or> hs_nextInitAt s \<le> ht_now t))"
  proof (cases "hs_send_init c t s")
    case (Inl s')
    then show ?thesis using hs_send_init_fails [OF Inl] assms(1) on_schedule_same [of s s' t0]
      by (simp add: hs_turn_step_def same_schedule_def)
  next
    case (Inr s')
    have "same_schedule s' (either (hs_receive c t s'))" by (rule hs_receive_schedule)
    then show ?thesis
      using Inr on_schedule_send [OF assms Inr] on_schedule_same [of s' "either (hs_receive c t s')" t0]
      by (simp add: hs_turn_step_def same_schedule_def)
  qed
  then show "on_schedule t0 (either (hs_turn_step c t s))"
    and "hs_attempts (either (hs_turn_step c t s)) = hs_attempts s \<or>
      hs_attempts (either (hs_turn_step c t s)) = hs_attempts s + 1 \<and> (hs_attempts s = 0 \<or> hs_nextInitAt s \<le> ht_now t)"
    by blast+
qed

lemma RemainingMs_pos: "RemainingMs d now > 0 \<longleftrightarrow> now < d"
  by (simp add: RemainingMs_def Let_def)

definition prompt :: "hs_turn \<Rightarrow> bool" where
  "prompt t \<longleftrightarrow> ht_now t < ht_check t + 750 * ms"

lemma hs_loop_attempts:
  assumes "on_schedule t0 s" and "list_all (\<lambda>t. t0 \<le> ht_now t) ts"
  shows "0 \<le> hs_attempts (snd (hs_loop c (t0 + 13000 * ms) ts s)) \<and>
    hs_attempts (snd (hs_loop c (t0 + 13000 * ms) ts s)) \<le> 12 \<and>
    (list_all prompt ts \<and> hs_attempts s \<le> 11 \<longrightarrow> hs_attempts (snd (hs_loop c (t0 + 13000 * ms) ts s)) \<le> 11)"
  using assms
proof (induction ts arbitrary: s)
  case Nil
  then show ?case by (simp add: on_schedule_def)
next
  case (Cons t ts)
  have tm: "hs_attempts (hs_timeout s) = hs_attempts s" by (simp add: hs_timeout_def Let_def hs_fail_def hs_counters_def)
  show ?case
  proof (cases "ht_check t < t0 + 13000 * ms \<and> hs_attempts s < 12")
    case False
    then show ?thesis using Cons.prems(1) by (auto simp: RemainingMs_pos handshake_consts tm on_schedule_def)
  next
    case True
    then have a: "hs_attempts s \<le> 11" "t0 \<le> ht_now t" using Cons.prems by auto
    let ?r = "hs_turn_step c t s"
    note turn = hs_turn_attempts [OF Cons.prems(1) a, of c]
    have late: "hs_attempts (either ?r) \<le> 11" if "prompt t"
    proof (rule ccontr)
      assume "\<not> hs_attempts (either ?r) \<le> 11"
      then have "hs_attempts s = 11" "hs_nextInitAt s \<le> ht_now t" using turn(2) a(1) by auto
      then have "t0 + 13750 * ms \<le> ht_now t"
        using Cons.prems(1) by (simp add: on_schedule_def due_after_def)
      then show False using that True by (simp add: prompt_def)
    qed
    show ?thesis
    proof (cases ?r)
      case (Inl s')
      then show ?thesis using True turn(1) late
        by (auto simp: RemainingMs_pos handshake_consts on_schedule_def)
    next
      case (Inr s')
      then show ?thesis using True turn(1) late Cons.IH [of s'] Cons.prems(2)
        by (auto simp: RemainingMs_pos handshake_consts)
    qed
  qed
qed

lemma hs_warmup_schedule: "same_schedule s (either (hs_warmup bs ws s))"
  by (induction bs ws s rule: hs_warmup.induct) (auto simp: same_schedule_def hs_fail_def note_sent_def Let_def)

text \<open>
  A handshake sends at most 12 INIT packets, as \<open>kMaxInitAttempts\<close> has it; and unless the thread is
  held up for 750 ms between the two clock readings of one turn, at most 11: the twelfth would be due
  13.75 s after the start, when the 13 s of \<open>kControlHandshakeTimeoutMs\<close> have passed.
\<close>

theorem handshake_attempts:
  assumes "t0 \<le> t1" and "list_all (\<lambda>t. t0 \<le> ht_now t) ts"
  shows "let s = snd (RunControlHandshake c warm t0 t1 ts nextLocal lastRemote)
    in 0 \<le> hs_attempts s \<and> hs_attempts s \<le> (if list_all prompt ts then 11 else 12)"
proof -
  let ?s = "hs_new nextLocal lastRemote"
  have start: "on_schedule t0 ?s" "hs_attempts ?s = 0"
    by (simp_all add: on_schedule_def hs_new_def retry_after_def handshake_consts)
  show ?thesis
  proof (cases "build_self_info_request (hc_tag c) (hc_query c)")
    case (Inl e)
    then show ?thesis using start(2) by (simp add: RunControlHandshake_def hs_fail_def Let_def)
  next
    case (Inr bs)
    have w: "same_schedule ?s (either (hs_warmup bs [fst warm, snd warm] ?s))" by (rule hs_warmup_schedule)
    show ?thesis
    proof (cases "hs_warmup bs [fst warm, snd warm] ?s")
      case (Inl s)
      then show ?thesis using w Inr start(2) by (simp add: RunControlHandshake_def same_schedule_def Let_def)
    next
      case r: (Inr s)
      then have "on_schedule t0 (s\<lparr>hs_nextInitAt := t1\<rparr>)" "hs_attempts (s\<lparr>hs_nextInitAt := t1\<rparr>) = 0"
        using w start by (simp_all add: on_schedule_def same_schedule_def)
      then show ?thesis
        using hs_loop_attempts [of t0 "s\<lparr>hs_nextInitAt := t1\<rparr>" ts c] assms(2)
        by (simp add: RunControlHandshake_def Inr r handshake_consts Let_def)
    qed
  qed
qed

definition demo_hs_turn :: "int \<Rightarrow> received \<Rightarrow> hs_turn" where
  "demo_hs_turn now r = \<lparr>ht_check = now, ht_now = now, ht_initRandom = (\<lambda>i. 0), ht_initSent = None, ht_received = r,
     ht_replyRandom = (\<lambda>i. 0), ht_replySent = None\<rparr>"

text \<open>The configuration of a handshake that ends in the context \<open>a\<close>.\<close>

definition hs_side :: "RelayCrypto \<Rightarrow> u64 \<Rightarrow> VoipActiveMediaContext \<Rightarrow> hs_conf" where
  "hs_side rc q a = \<lparr>hc_crypto = rc, hc_tag = am_PeerTag a, hc_query = q, hc_key = am_SharedKey a, hc_out = am_LocalIsOutgoing a\<rparr>"

theorem handshake_attempts_witness:
  "hs_attempts (snd (RunControlHandshake (hs_side demo_crypto 5 (demo_side True)) (None, None) 0 0
     (map (\<lambda>i. demo_hs_turn (int i * 250 * ms) (Inl ''receive timed out'')) [0..<100]) 1 0)) \<le> 11"
  using handshake_attempts [of 0 0 "map (\<lambda>i. demo_hs_turn (int i * 250 * ms) (Inl ''receive timed out'')) [0..<100]"
      "hs_side demo_crypto 5 (demo_side True)" "(None, None)" 1 0]
  by (simp add: demo_hs_turn_def prompt_def list_all_iff Let_def ms_def)


section \<open>What success means\<close>

text \<open>A datagram that is an authentic acknowledgement for this side.\<close>

definition acknowledges :: "hs_conf \<Rightarrow> VoipInitAckInfo \<Rightarrow> bytes \<Rightarrow> bool" where
  "acknowledges c ack bs \<longleftrightarrow>
     (let r = DecryptRelayPacketMtProto2Short (rc_sha256 (hc_crypto c)) (rc_decrypt (hc_crypto c)) (hc_key c) (hc_out c)
                (hc_tag c) bs
      in Success r \<and> HasAudioOpusStream ack \<and>
         (case decode_short (Plain r) of
            Some (Inr p) \<Rightarrow> Type p = InitAck \<and> parse_init_ack_payload (VoipControlPacket.Payload p) = Some (Inr ack)
          | _ \<Rightarrow> False))"

definition hs_ok :: "hs_state \<Rightarrow> bool" where
  "hs_ok s \<longleftrightarrow> VoipError_IsOk (co_Error (hs_outcome s))"

definition hs_acked :: "hs_conf \<Rightarrow> hs_turn \<Rightarrow> hs_state \<Rightarrow> bool" where
  "hs_acked c t s \<longleftrightarrow> co_InitAckReceived (hs_outcome s) \<and> 0 < hs_attempts s \<and>
     (case ht_received t of Inl _ \<Rightarrow> False
      | Inr (bs, rtt) \<Rightarrow> (\<exists>ack. acknowledges c ack bs \<and> co_PeerVersion (hs_outcome s) = PeerVersion ack \<and>
          co_AudioFrameDurationMs (hs_outcome s) = FrameDurationMs ack))"

lemma hs_fail_not_ok [simp]: "\<not> hs_ok (hs_fail (TransportError e) s)"
  "k \<noteq> ErrNone \<Longrightarrow> \<not> hs_ok (hs_fail (VoipError_Of k n m) s)"
  by (simp_all add: hs_ok_def hs_fail_def TransportError_def)

lemma hs_reply_not_ok: "hs_reply c t ty pl s = Inl s' \<Longrightarrow> \<not> hs_ok s'"
  by (auto simp: hs_reply_def Let_def split: prod.splits sum.splits option.splits)

lemma hs_packet_ok:
  assumes "hs_packet c t p s = Inl s'" and "hs_ok s'"
  shows "Type p = InitAck \<and> co_InitAckReceived (hs_outcome s') \<and> hs_attempts s' = hs_attempts s \<and>
    (\<exists>ack. parse_init_ack_payload (VoipControlPacket.Payload p) = Some (Inr ack) \<and> HasAudioOpusStream ack \<and>
       co_PeerVersion (hs_outcome s') = PeerVersion ack \<and> co_AudioFrameDurationMs (hs_outcome s') = FrameDurationMs ack)"
  using assms
  by (auto simp: hs_packet_def Let_def hs_counters_def dest: hs_reply_not_ok split: if_splits option.splits sum.splits)

lemma hs_datagram_ok:
  assumes "hs_datagram c t bs s = Inl s'" and "hs_ok s'"
  obtains p where "hs_packet c t p s = Inl s'"
    and "Success (DecryptRelayPacketMtProto2Short (rc_sha256 (hc_crypto c)) (rc_decrypt (hc_crypto c)) (hc_key c) (hc_out c) (hc_tag c) bs)"
    and "decode_short (Plain (DecryptRelayPacketMtProto2Short (rc_sha256 (hc_crypto c)) (rc_decrypt (hc_crypto c)) (hc_key c)
      (hc_out c) (hc_tag c) bs)) = Some (Inr p)"
  using assms unfolding hs_datagram_def Let_def
  by (simp split: if_splits option.splits sum.splits)

lemma hs_receive_ok:
  assumes "hs_receive c t s = Inl s'" and "hs_ok s'" and "0 < hs_attempts s"
  shows "hs_acked c t s'"
proof (cases "ht_received t")
  case (Inl e)
  then show ?thesis using assms(1,2) by (auto simp: hs_receive_def split: if_splits)
next
  case (Inr x)
  obtain bs rtt where x: "x = (bs, rtt)" by (cases x)
  obtain s0 where r: "hs_datagram c t bs s0 = Inl s'" and a: "hs_attempts s0 = hs_attempts s"
    using assms(1) by (auto simp: hs_receive_def Inr x Let_def)
  show ?thesis
    by (rule hs_datagram_ok [OF r assms(2)])
      (use hs_packet_ok [OF _ assms(2)] assms(3) a in \<open>fastforce simp: hs_acked_def Inr x acknowledges_def Let_def\<close>)
qed

lemma hs_send_init_attempts:
  assumes "0 \<le> hs_attempts s"
  shows "hs_send_init c t s = Inr s' \<Longrightarrow> 0 < hs_attempts s'" and "hs_send_init c t s = Inl s' \<Longrightarrow> \<not> hs_ok s'"
  using assms
  by (auto simp: hs_send_init_def Let_def same_schedule_def split: if_splits prod.splits option.splits
      dest: SendInitPacket_schedule)

lemma hs_loop_ok:
  assumes "hs_loop c d ts s = (True, s')" and "hs_ok s'" and "0 \<le> hs_attempts s"
  shows "\<exists>t \<in> set ts. hs_acked c t s'"
  using assms
proof (induction ts arbitrary: s)
  case Nil
  then show ?case by simp
next
  case (Cons t ts)
  show ?case
  proof (cases "RemainingMs d (ht_check t) > 0 \<and> hs_attempts s < kMaxInitAttempts")
    case False
    then show ?thesis using Cons.prems by (auto simp: hs_timeout_def Let_def)
  next
    case True
    show ?thesis
    proof (cases "hs_send_init c t s")
      case (Inl s1)
      then show ?thesis using True Cons.prems hs_send_init_attempts(2) [OF Cons.prems(3) Inl]
        by (auto simp: hs_turn_step_def)
    next
      case (Inr s1)
      note pos = hs_send_init_attempts(1) [OF Cons.prems(3) Inr]
      show ?thesis
      proof (cases "hs_receive c t s1")
        case r: (Inl s2)
        then have "s2 = s'" using True Cons.prems(1) Inr by (simp add: hs_turn_step_def)
        then show ?thesis using hs_receive_ok [OF r _ pos] Cons.prems(2) by auto
      next
        case r: (Inr s2)
        have "0 \<le> hs_attempts s2" using hs_receive_schedule [of s1 c t] pos by (simp add: r same_schedule_def)
        then show ?thesis using Cons.IH [of s2] True Cons.prems(1,2) Inr r by (simp add: hs_turn_step_def)
      qed
    qed
  qed
qed

lemma hs_warmup_start: "hs_attempts s = 0 \<Longrightarrow> hs_attempts (either (hs_warmup bs ws s)) = 0"
  using hs_warmup_schedule [of s bs ws] by (simp add: same_schedule_def)

lemma hs_warmup_Inl: "hs_warmup bs ws s = Inl s' \<Longrightarrow> \<not> hs_ok s'"
  by (induction bs ws s rule: hs_warmup.induct) auto

lemma run_handshake_ok:
  assumes run: "RunControlHandshake c warm t0 t1 ts nextLocal lastRemote = (True, s')" and ok: "hs_ok s'"
  shows "\<exists>t \<in> set ts. hs_acked c t s'"
proof -
  note run = run [unfolded RunControlHandshake_def Let_def]
  obtain bs where b: "build_self_info_request (hc_tag c) (hc_query c) = Inr bs"
    using run ok by (cases "build_self_info_request (hc_tag c) (hc_query c)") auto
  let ?s = "hs_new nextLocal lastRemote"
  obtain s where w: "hs_warmup bs [fst warm, snd warm] ?s = Inr s"
    using run ok b hs_warmup_Inl by (cases "hs_warmup bs [fst warm, snd warm] ?s") auto
  have "hs_attempts ?s = 0" by (simp add: hs_new_def)
  from hs_warmup_start [OF this, of bs "[fst warm, snd warm]"] have "hs_attempts s = 0" by (simp only: w either.simps)
  then show ?thesis
    using hs_loop_ok [of c _ ts "s\<lparr>hs_nextInitAt := t1\<rparr>" s'] run b w ok by simp
qed

lemma hs_ackedD:
  "hs_acked c t s \<Longrightarrow> co_InitAckReceived (hs_outcome s) \<and> 0 < hs_attempts s \<and> (\<exists>bs rtt ack. ht_received t = Inr (bs, rtt) \<and>
     acknowledges c ack bs \<and> co_PeerVersion (hs_outcome s) = PeerVersion ack \<and>
     co_AudioFrameDurationMs (hs_outcome s) = FrameDurationMs ack)"
  by (auto simp: hs_acked_def split: sum.splits)

text \<open>
  Claim C7: a handshake succeeds only on an authentic acknowledgement. If it returns without an error, an
  INIT was sent, and one of the datagrams received decrypts under the call's key, role and peer tag to an
  INIT_ACK whose payload announces an enabled Opus stream; the outcome carries exactly this payload's
  protocol version and frame duration and says that it was received.
\<close>

theorem handshake_success_authentic:
  "let (done, s) = RunControlHandshake c warm t0 t1 ts nextLocal lastRemote; oc = hs_outcome s
   in if done \<and> VoipError_IsOk (co_Error oc)
      then co_InitAckReceived oc \<and> 0 < hs_attempts s \<and>
        (\<exists>t \<in> set ts. \<exists>bs rtt ack. ht_received t = Inr (bs, rtt) \<and> acknowledges c ack bs \<and>
           co_PeerVersion oc = PeerVersion ack \<and> co_AudioFrameDurationMs oc = FrameDurationMs ack)
      else True"
proof -
  obtain d s' where run: "RunControlHandshake c warm t0 t1 ts nextLocal lastRemote = (d, s')" by fastforce
  have *: "co_InitAckReceived (hs_outcome s') \<and> 0 < hs_attempts s' \<and>
      (\<exists>t \<in> set ts. \<exists>bs rtt ack. ht_received t = Inr (bs, rtt) \<and> acknowledges c ack bs \<and>
         co_PeerVersion (hs_outcome s') = PeerVersion ack \<and> co_AudioFrameDurationMs (hs_outcome s') = FrameDurationMs ack)"
    if "d \<and> VoipError_IsOk (co_Error (hs_outcome s'))"
  proof -
    from that run_handshake_ok [of c warm t0 t1 ts nextLocal lastRemote s'] obtain t where "t \<in> set ts" "hs_acked c t s'"
      using run by (auto simp: hs_ok_def)
    with hs_ackedD show ?thesis by blast
  qed
  show ?thesis
    unfolding run Let_def prod.case using * by (simp only: if_True if_False simp_thms split: if_split) blast
qed


section \<open>Two engines\<close>

lemma open_packetD:
  "open_packet rc a bs = Some p \<Longrightarrow>
     Success (DecryptRelayPacketMtProto2Short (rc_sha256 rc) (rc_decrypt rc) (am_SharedKey a) (am_LocalIsOutgoing a) (am_PeerTag a) bs) \<and>
     decode_short (Plain (DecryptRelayPacketMtProto2Short (rc_sha256 rc) (rc_decrypt rc) (am_SharedKey a)
       (am_LocalIsOutgoing a) (am_PeerTag a) bs)) = Some (Inr p)"
  by (auto simp: open_packet_def Let_def split: if_splits option.splits sum.splits)

lemma hs_datagram_open:
  assumes "open_packet rc a bs = Some p" and "parse_self_info_response bs (am_PeerTag a) = Some (Inl e)"
  shows "hs_datagram (hs_side rc q a) t bs s = hs_packet (hs_side rc q a) t p s"
  using open_packetD [OF assms(1)] assms(2) by (simp add: hs_datagram_def hs_side_def Let_def)

lemma own_init_ack:
  "parse_init_ack_payload build_init_ack_payload = Some (Inr \<lparr>PeerVersion = 9, PeerMinVersion = 3,
     HasAudioOpusStream = True, AudioStreamId = 1, FrameDurationMs = 60, AudioEnabled = True\<rparr>)"
  using parse_init_ack_selects_last_witness by simp

lemma length_init_payloads:
  "length (build_init_payload b) \<le> 1100" "length build_init_ack_payload \<le> 1100"
  by (simp_all add: build_init_payload_def build_init_ack_payload_def)

lemma SendInitPacket_ok:
  assumes "am_keyed a" and t: "TakeNextSequence (hs_nextLocal s) = (sq, next)"
  shows "SendInitPacket (hs_side rc q a) rnd None s = (None, note_sent (Bytes (seal rc rnd a (control_layout
      \<lparr>Type = Init, AckSequence = hs_lastRemote s, Sequence = sq, AckMask = 0, ExtraFlags = 0,
       VoipControlPacket.Payload = build_init_payload False\<rparr>))) (s\<lparr>hs_nextLocal := next\<rparr>))"
proof -
  let ?p = "\<lparr>Type = Init, AckSequence = hs_lastRemote s, Sequence = sq, AckMask = 0, ExtraFlags = 0,
       VoipControlPacket.Payload = build_init_payload False\<rparr>"
  have b: "BuildControlPacket Init sq (hs_lastRemote s) (build_init_payload False) = Inr (control_layout ?p)"
    by (rule BuildControlPacket_eq) (rule length_init_payloads)
  have "Success (seal rc rnd a (control_layout ?p))"
    by (rule seal_success [OF assms(1)]) (simp add: length_init_payloads)
  then show ?thesis
    by (simp add: SendInitPacket_def t b EncryptAndSendControlPacket_def hs_side_def seal_def Let_def)
qed

lemma SendInitAck_ok:
  fixes rc :: RelayCrypto and rnd :: random_fn and init :: VoipControlPacket
  assumes "am_keyed b" and t: "TakeNextSequence (am_NextLocalSequence b) = (sq, next)"
  defines "p \<equiv> \<lparr>Type = InitAck, AckSequence = (if am_LastRemoteSequence b = 0 then Sequence init else am_LastRemoteSequence b),
    Sequence = sq, AckMask = 0, ExtraFlags = 0, VoipControlPacket.Payload = build_init_ack_payload\<rparr>"
  shows "SendInitAck rc rnd True init b = b\<lparr>am_NextLocalSequence := next,
    am_wire := am_wire b @ [Bytes (seal rc rnd b (control_layout p))]\<rparr>"
proof -
  have s: "seal rc rnd (b\<lparr>am_NextLocalSequence := next\<rparr>) = seal rc rnd b"
    by (rule ext) (simp add: seal_def)
  have "Success (seal rc rnd b (control_layout \<lparr>Type = InitAck, AckSequence = k, Sequence = sq, AckMask = 0,
      ExtraFlags = 0, VoipControlPacket.Payload = build_init_ack_payload\<rparr>))" for k
    using assms(1) by (intro seal_success) (simp_all add: length_init_payloads)
  then show ?thesis
    by (simp add: SendInitAck_def t BuildControlPacket_eq [OF length_init_payloads(2)] s Let_def p_def)
qed

lemma am_peers_sym: "am_peers rc a b \<Longrightarrow> am_peers rc b a"
  by (auto simp: am_peers_def am_keyed_def)

lemma am_peers_note: "am_peers rc (note_sequence p b) a = am_peers rc b a"
  by (simp add: note_sequence_def am_peers_def am_keyed_def)

text \<open>The INIT of one side, taken by the media loop of the other, gives an INIT_ACK.\<close>

lemma peer_answers_init:
  assumes "am_peers rc a b" and "length (VoipControlPacket.Payload p) \<le> 1100" and "Type p = Init"
  obtains b' p' w' where
    "MediaReceive rc rnd' True now (Bytes (seal rc rnd a (control_layout p))) b = Some b'"
    and "am_wire b' = am_wire b @ [w']" and "open_packet rc a w' = Some p'"
    and "Type p' = InitAck" and "VoipControlPacket.Payload p' = build_init_ack_payload"
    and "w' = Bytes (seal rc rnd' (note_sequence p b) (control_layout p'))"
proof -
  let ?b = "note_sequence p b"
  let ?q = "\<lparr>Type = InitAck, AckSequence = (if am_LastRemoteSequence ?b = 0 then Sequence p else am_LastRemoteSequence ?b),
    Sequence = fst (TakeNextSequence (am_NextLocalSequence ?b)), AckMask = 0, ExtraFlags = 0,
    VoipControlPacket.Payload = build_init_ack_payload\<rparr>"
  obtain sq "next" where t: "TakeNextSequence (am_NextLocalSequence ?b) = (sq, next)" by fastforce
  have pb: "am_peers rc ?b a" using am_peers_sym [OF assms(1)] by (simp add: am_peers_note)
  have w: "am_wire ?b = am_wire b" by (simp add: note_sequence_def)
  show thesis
    by (rule that [of "SendInitAck rc rnd' True p ?b" "Bytes (seal rc rnd' ?b (control_layout ?q))" ?q])
      (use open_seal [OF assms(1,2), of rnd] open_seal [OF pb, of ?q rnd'] SendInitAck_ok [OF am_peers_keyed [OF pb] t, of rc rnd' p] t
        assms(3) w in \<open>simp_all add: MediaReceive_def media_dispatch_def length_init_payloads\<close>)
qed

text \<open>
  Claim C15: the handshake completes with a peer that runs the media loop. The INIT an engine sends in its
  first turn makes the peer's loop, with the same key and tag and the opposite role, put one datagram on
  the wire; when the engine receives it (and it does not happen to look like a reflector's self-info
  response), the handshake returns without an error: protocol version 9, frames of 60 ms.
\<close>

theorem handshake_completes:
  assumes "am_peers rc a b" and "hs_attempts s = 0" and "ht_initSent t = None" and "hs_ok s"
    and "MediaReceive rc rnd True now (last (hs_wire (either (hs_send_init (hs_side rc q a) t s)))) b = Some b'"
    and "ht_received t' = Inr (last (am_wire b'), rtt)"
    and "parse_self_info_response (last (am_wire b')) (am_PeerTag a) = Some (Inl e)"
  shows "length (am_wire b') = length (am_wire b) + 1 \<and>
    (case hs_receive (hs_side rc q a) t' (either (hs_send_init (hs_side rc q a) t s)) of
       Inr s2 \<Rightarrow> False
     | Inl s2 \<Rightarrow> hs_ok s2 \<and> co_InitAckReceived (hs_outcome s2) \<and> co_PeerVersion (hs_outcome s2) = 9 \<and>
         co_AudioFrameDurationMs (hs_outcome s2) = 60)"
proof -
  obtain sq "next" where tk: "TakeNextSequence (hs_nextLocal s) = (sq, next)" by fastforce
  let ?p = "\<lparr>Type = Init, AckSequence = hs_lastRemote s, Sequence = sq, AckMask = 0, ExtraFlags = 0,
       VoipControlPacket.Payload = build_init_payload False\<rparr>"
  let ?w = "Bytes (seal rc (ht_initRandom t) a (control_layout ?p))"
  let ?s1 = "either (hs_send_init (hs_side rc q a) t s)"
  have s1: "hs_send_init (hs_side rc q a) t s = Inr ?s1" "hs_wire ?s1 = hs_wire s @ [?w]" "hs_ok ?s1"
    using assms(2,3,4) SendInitPacket_ok [OF am_peers_keyed [OF assms(1)] tk, of rc q]
    by (simp_all add: hs_send_init_def note_sent_def Let_def hs_ok_def)
  obtain b2 p' w' where b: "MediaReceive rc rnd True now ?w b = Some b2" "am_wire b2 = am_wire b @ [w']"
    and p': "open_packet rc a w' = Some p'" "Type p' = InitAck" "VoipControlPacket.Payload p' = build_init_ack_payload"
    by (rule peer_answers_init [OF assms(1), of ?p rnd now "ht_initRandom t"]) (simp_all add: length_init_payloads)
  have w': "b2 = b'" "last (am_wire b') = w'" using assms(5) b s1(2) by simp_all
  note d = hs_datagram_open [OF p'(1) assms(7) [unfolded w'(2)]]
  show ?thesis
    using s1(3) b(2) w'(1)
    by (simp add: hs_receive_def assms(6) w'(2) d hs_packet_def p' own_init_ack hs_counters_def Let_def hs_ok_def)
qed

text \<open>A datagram whose 17th byte is not all ones is not a self-info response.\<close>

lemma not_self_info:
  assumes "64 \<le> length bs" and "length tag = 16" and "bs ! 16 \<noteq> 0xFF"
  shows "\<exists>e. parse_self_info_response bs tag = Some (Inl e)"
proof -
  have j: "join64 hi (le32_of (bs ! 16) b1 b2 b3) \<noteq> - 1" for hi b1 b2 b3
  proof
    assume a: "join64 hi (le32_of (bs ! 16) b1 b2 b3) = - 1"
    have "bs ! 16 = - 1"
    proof (rule bit_word_eqI)
      fix n assume n: "n < LENGTH(8)"
      have "bit (join64 hi (le32_of (bs ! 16) b1 b2 b3)) n" using n by (simp add: a)
      then show "bit (bs ! 16) n = bit (- 1 :: u8) n" using n by (simp add: join64_def le32_of_def bit_simps)
    qed
    then show False using assms(3) by simp
  qed
  have j': "join64 hi (le32_of (bs ! 16) b1 b2 b3) \<noteq> 18446744073709551615" for hi b1 b2 b3
  proof -
    have e: "(18446744073709551615 :: u64) = - 1" by simp
    show ?thesis unfolding e by (rule j)
  qed
  obtain same where "SamePeerTag bs tag = Some same"
    using assms(1,2) by (auto simp: SamePeerTag_def read_simps HasPeerTag_def reflector_consts)
  then show ?thesis
    using assms(1,2) j' by (cases same) (simp_all add: parse_self_info_response_def read_simps reflector_consts HasPeerTag_def)
qed

definition flat_crypto :: RelayCrypto where
  "flat_crypto = \<lparr>rc_sha256 = (\<lambda>b i. 0), rc_encrypt = copy_block, rc_decrypt = copy_block\<rparr>"

lemma flat_peers: "am_peers flat_crypto (demo_side True) (demo_side False)"
  using demo_peers(1) by (simp add: am_peers_def flat_crypto_def demo_crypto_def)

lemma flat_not_self_info:
  assumes "am_keyed b" and "length (VoipControlPacket.Payload p) \<le> 1100" and "3 \<le> length (VoipControlPacket.Payload p)"
  shows "\<exists>e. parse_self_info_response (Bytes (seal flat_crypto rnd b (control_layout p))) (am_PeerTag b) = Some (Inl e)"
proof -
  have l: "control_layout p \<noteq> []" "length (control_layout p) \<le> 1200" "17 \<le> length (control_layout p)"
    using assms(2,3) length_control_layout [of p] by auto
  let ?i = "relay_inner rnd (control_layout p)"
  have k: "length (am_SharedKey b) = 256" "length (am_PeerTag b) = 16" using assms(1) by (simp_all add: am_keyed_def)
  obtain key iv where kdf: "Kdf2 (rc_sha256 flat_crypto) (am_SharedKey b) (relay_msg_key (rc_sha256 flat_crypto) (am_SharedKey b)
      (DirectionOffset (am_LocalIsOutgoing b) True) ?i) (DirectionOffset (am_LocalIsOutgoing b) True) = (key, iv)" by fastforce
  have "\<exists>cp. length cp = length ?i \<and> Bytes (seal flat_crypto rnd b (control_layout p))
      = am_PeerTag b @ relay_msg_key (rc_sha256 flat_crypto) (am_SharedKey b) (DirectionOffset (am_LocalIsOutgoing b) True) ?i @ cp"
    by (rule EncryptRelay_ok [OF k l(1,2) kdf, of "rc_encrypt flat_crypto"]) (simp add: seal_def)
  then obtain cp where cp: "length cp = length ?i" and bs: "Bytes (seal flat_crypto rnd b (control_layout p))
      = am_PeerTag b @ relay_msg_key (rc_sha256 flat_crypto) (am_SharedKey b) (DirectionOffset (am_LocalIsOutgoing b) True) ?i @ cp"
    by blast
  have "32 \<le> length ?i" by (rule relay_inner_shape [of rnd "control_layout p"]) (use l(3) in simp)
  moreover have "relay_msg_key (rc_sha256 flat_crypto) x y z ! 0 = 0" for x y z
    by (simp add: relay_msg_key_def flat_crypto_def fill_def)
  ultimately show ?thesis
    using k(2) cp by (intro not_self_info) (simp_all only: bs length_append length_relay_msg_key nth_append, simp_all)
qed

lemma demo_hs_turn_received [simp]: "ht_received (demo_hs_turn now r) = r"
  by (simp add: demo_hs_turn_def)

theorem handshake_completes_witness:
  "let c = hs_side flat_crypto 5 (demo_side True); s1 = either (hs_send_init c (demo_hs_turn 0 (Inl [])) (hs_new 1 0));
       b' = the (MediaReceive flat_crypto (\<lambda>i. 0) True 0 (last (hs_wire s1)) (demo_side False))
   in case hs_receive c (demo_hs_turn 1 (Inr (last (am_wire b'), 3))) s1 of
        Inr s2 \<Rightarrow> False
      | Inl s2 \<Rightarrow> co_PeerVersion (hs_outcome s2) = 9"
proof -
  let ?a = "demo_side True" and ?b = "demo_side False" and ?c = "hs_side flat_crypto 5 (demo_side True)"
  let ?t = "demo_hs_turn 0 (Inl [])" and ?s = "hs_new 1 0"
  let ?p = "\<lparr>Type = Init, AckSequence = 0, Sequence = 1, AckMask = 0, ExtraFlags = 0,
       VoipControlPacket.Payload = build_init_payload False\<rparr>"
  have tk: "TakeNextSequence (hs_nextLocal ?s) = (1, 2)" by (simp add: hs_new_def TakeNextSequence_def)
  have s: "hs_attempts ?s = 0" "hs_ok ?s" "hs_lastRemote ?s = 0" "ht_initSent ?t = None"
    by (simp_all add: hs_new_def hs_ok_def outcome_new_def demo_hs_turn_def)
  have w: "last (hs_wire (either (hs_send_init ?c ?t ?s))) = Bytes (seal flat_crypto (\<lambda>i. 0) ?a (control_layout ?p))"
    using SendInitPacket_ok [OF am_peers_keyed [OF flat_peers] tk, of flat_crypto 5 "\<lambda>i. 0"] s
    by (simp add: hs_send_init_def note_sent_def Let_def demo_hs_turn_def)
  obtain b' p' w' where b: "MediaReceive flat_crypto (\<lambda>i. 0) True 0 (last (hs_wire (either (hs_send_init ?c ?t ?s)))) ?b = Some b'"
      "am_wire b' = am_wire ?b @ [w']"
    and pl: "VoipControlPacket.Payload p' = build_init_ack_payload"
    and w': "w' = Bytes (seal flat_crypto (\<lambda>i. 0) (note_sequence ?p ?b) (control_layout p'))"
    unfolding w by (rule peer_answers_init [OF flat_peers, of ?p "\<lambda>i. 0" 0 "\<lambda>i. 0"]) (auto simp: length_init_payloads)
  have n: "am_keyed (note_sequence ?p ?b)" "am_PeerTag (note_sequence ?p ?b) = am_PeerTag ?a"
    using flat_peers by (simp_all add: note_sequence_def am_peers_def am_keyed_def)
  obtain e where "parse_self_info_response (last (am_wire b')) (am_PeerTag ?a) = Some (Inl e)"
    using flat_not_self_info [OF n(1), of p' "\<lambda>i. 0"] by (auto simp: b w' n(2) pl build_init_ack_payload_def)
  from handshake_completes [OF flat_peers s(1,4,2) b(1) _ this, of "demo_hs_turn 1 (Inr (last (am_wire b'), 3))" 3]
  show ?thesis unfolding Let_def b(1) option.sel by (simp split: sum.splits)
qed

end
