(* ===== verification/KeyExchange.thy ===== *)
theory KeyExchange
  imports Primitives VoipTypes Decimal
begin

text \<open>
  The call table of \<open>application/voip_engine.cpp\<close>: the Diffie-Hellman key exchange of Telegram calls,
  the commitment to \<open>g_a\<close>, and the queue of signaling packets that arrive before the media starts.
  The big numbers, SHA-1, SHA-256 and the random generator are parameters. An operation that copies a
  session, releases the lock and stores the copy later is modelled with the events in between.
\<close>

unbundle bit_operations_syntax

section \<open>Big numbers\<close>

text \<open>
  \<open>vianium::crypto::BigNum\<close> is not part of the sources. A big number is the natural number it stands
  for; the library reads it from bytes, raises it to a power modulo a number and writes its bytes
  into an array. What it promises is \<open>bignum_ok\<close>; comparisons are those of the numbers.
\<close>

record BigNum =
  bn_of :: "bytes \<Rightarrow> nat"
  bn_ModPow :: "nat \<Rightarrow> nat \<Rightarrow> nat \<Rightarrow> nat"
  bn_byte :: "nat \<Rightarrow> nat \<Rightarrow> nat \<Rightarrow> u8"

definition bignum_ok :: "BigNum \<Rightarrow> bool" where
  "bignum_ok B \<longleftrightarrow>
     (\<forall>bs. bn_of B bs = be_value bs) \<and>
     (\<forall>b e m. 0 < m \<longrightarrow> bn_ModPow B b e m = b ^ e mod m) \<and>
     (\<forall>v n. v < 256 ^ n \<longrightarrow> be_value (fill n (bn_byte B v n)) = v)"


section \<open>Sessions and results\<close>

record VoipDhMaterial =
  dm_Error :: VoipError
  dm_PublicValue :: bytes
  dm_PublicHash :: bytes
  dm_KeyFingerprint :: u64
  dm_KeyHandle :: string

definition VoipDhMaterial_Fail :: "VoipError \<Rightarrow> VoipDhMaterial" where
  "VoipDhMaterial_Fail e =
     \<lparr>dm_Error = e, dm_PublicValue = [], dm_PublicHash = [], dm_KeyFingerprint = 0, dm_KeyHandle = []\<rparr>"

definition VoipDhMaterial_Ok :: VoipDhMaterial where
  "VoipDhMaterial_Ok =
     \<lparr>dm_Error = VoipError_Ok, dm_PublicValue = [], dm_PublicHash = [], dm_KeyFingerprint = 0, dm_KeyHandle = []\<rparr>"

record DhSession =
  RandomId :: int
  CallId :: int
  dh_G :: int
  Incoming :: bool
  SharedReady :: bool
  dh_P :: bytes
  PrivateValue :: bytes
  PublicValue :: bytes
  PublicHash :: bytes
  PeerGAHash :: bytes
  SharedKey :: bytes
  KeyFingerprint :: u64
  NextLocalSequence :: u32
  LastRemoteSequence :: u32
  SignalingPacketsReceived :: u32
  SignalingBytesReceived :: u32
  SignalingPacketsDropped :: u32
  PendingSignalingPackets :: "bytes list"

definition DhSession_default :: DhSession where
  "DhSession_default = \<lparr>RandomId = 0, CallId = 0, dh_G = 0, Incoming = False, SharedReady = False, dh_P = [],
     PrivateValue = [], PublicValue = [], PublicHash = [], PeerGAHash = [], SharedKey = [],
     KeyFingerprint = 0, NextLocalSequence = 1, LastRemoteSequence = 0, SignalingPacketsReceived = 0,
     SignalingBytesReceived = 0, SignalingPacketsDropped = 0, PendingSignalingPackets = []\<rparr>"

text \<open>The tables, and which media path takes the signaling of which call.\<close>

record CallTable =
  m_outgoingByRandom :: "int \<rightharpoonup> DhSession"
  m_calls :: "int \<rightharpoonup> DhSession"
  m_droppedCallIds :: "int set"
  m_tgcallsCallId :: int
  m_tgcallsConnection :: bool
  m_tgcallsGraph :: bool

definition kDhBytes :: nat where "kDhBytes = 256"
definition kMaxPendingSignalingPackets :: nat where "kMaxPendingSignalingPackets = 128"
definition kMaxPendingSignalingBytes :: nat where "kMaxPendingSignalingBytes = 512 * 1024"

definition HandleForCall :: "int \<Rightarrow> string" where
  "HandleForCall callId = ''voip-call:'' @ show_int callId"


section \<open>The arithmetic of the exchange\<close>

definition IsSupportedGenerator :: "int \<Rightarrow> bool" where
  "IsSupportedGenerator g \<longleftrightarrow> g \<ge> 2 \<and> g \<le> 7"

text \<open>\<open>GetBitLength() < 2048\<close> and \<open>!GetBit(0)\<close>. The result is the error, if any.\<close>

definition ValidateDhConfig :: "BigNum \<Rightarrow> int \<Rightarrow> bytes \<Rightarrow> VoipError option" where
  "ValidateDhConfig B g p =
     (if \<not> IsSupportedGenerator g then Some (Invalid ''DH generator must be in Telegram range {2..7}'')
      else if length p \<noteq> kDhBytes then Some (Invalid ''DH prime must be exactly 256 bytes'')
      else if bn_of B p < 2 ^ 2047 \<or> even (bn_of B p) then
        Some (Invalid ''DH prime failed structural validation'')
      else None)"

definition ValidatePublicValue :: "BigNum \<Rightarrow> bytes \<Rightarrow> bytes \<Rightarrow> VoipError option" where
  "ValidatePublicValue B value p =
     (if length p \<noteq> kDhBytes then Some (Invalid ''DH prime is missing for call state'')
      else if length value \<noteq> kDhBytes then
        Some (Invalid ''peer DH public value must be exactly 256 bytes'')
      else if bn_of B value \<le> 1 \<or> bn_of B value \<ge> bn_of B p then
        Some (Invalid ''peer DH public value is outside valid range'')
      else None)"

text \<open>Up to eight random candidates, then the fixed exponent 2.\<close>

fun pick_loop :: "BigNum \<Rightarrow> bytes \<Rightarrow> random_fn list \<Rightarrow> bytes" where
  "pick_loop B p [] = replicate (kDhBytes - 1) 0 @ [2]"
| "pick_loop B p (r # rs) =
     (let candidate = fill kDhBytes r in
      if bn_of B candidate > 1 \<and> bn_of B candidate < bn_of B p then candidate else pick_loop B p rs)"

definition PickPrivateExponent :: "BigNum \<Rightarrow> (nat \<Rightarrow> random_fn) \<Rightarrow> bytes \<Rightarrow> bytes" where
  "PickPrivateExponent B rnd p = pick_loop B p (map rnd [0..<8])"

definition ComputePublic :: "BigNum \<Rightarrow> int \<Rightarrow> bytes \<Rightarrow> bytes \<Rightarrow> bytes" where
  "ComputePublic B g privateValue p =
     fill kDhBytes (bn_byte B (bn_ModPow B (nat g) (bn_of B privateValue) (bn_of B p)) kDhBytes)"

definition ComputeShared :: "BigNum \<Rightarrow> bytes \<Rightarrow> bytes \<Rightarrow> bytes \<Rightarrow> bytes" where
  "ComputeShared B peerPublic privateValue p =
     fill kDhBytes (bn_byte B (bn_ModPow B (bn_of B peerPublic) (bn_of B privateValue) (bn_of B p)) kDhBytes)"

definition Sha256Bytes :: "hash_fn \<Rightarrow> bytes \<Rightarrow> bytes" where
  "Sha256Bytes sha256 bs = fill 32 (sha256 bs)"

definition FingerprintForKey :: "hash_fn \<Rightarrow> bytes \<Rightarrow> u64" where
  "FingerprintForKey sha1 sharedKey =
     (let digest = fill 20 (sha1 sharedKey)
      in fold (\<lambda>i fp. fp OR push_bit (i * 8) (ucast (digest ! (12 + i)))) [0..<8] 0)"

text \<open>The libraries an engine is linked with.\<close>

record CryptoLib =
  lib_bn :: BigNum
  lib_sha1 :: hash_fn
  lib_sha256 :: hash_fn


section \<open>Signaling before the media\<close>

definition PendingSignalingBytes :: "DhSession \<Rightarrow> nat" where
  "PendingSignalingBytes s = sum_list (map length (PendingSignalingPackets s))"

function trim_pending :: "DhSession \<Rightarrow> DhSession" where
  "trim_pending s =
     (if length (PendingSignalingPackets s) > kMaxPendingSignalingPackets
        \<or> PendingSignalingBytes s > kMaxPendingSignalingBytes
      then
        if PendingSignalingPackets s = [] then s
        else trim_pending (s\<lparr>PendingSignalingPackets := tl (PendingSignalingPackets s),
               SignalingPacketsDropped := SignalingPacketsDropped s + 1\<rparr>)
      else s)"
  by pat_completeness auto
termination by (relation "measure (\<lambda>s. length (PendingSignalingPackets s))") auto

declare trim_pending.simps [simp del]

definition QueuePendingSignaling :: "bytes \<Rightarrow> DhSession \<Rightarrow> DhSession" where
  "QueuePendingSignaling data s =
     (if data = [] then s
      else trim_pending (s\<lparr>PendingSignalingPackets := PendingSignalingPackets s @ [data]\<rparr>))"

text \<open>\<open>deliver\<close> is what \<open>HandleIncomingSignaling\<close> of the connection or the graph returns.\<close>

definition ReceiveSignalingData ::
    "(bytes \<Rightarrow> VoipError) \<Rightarrow> int \<Rightarrow> bytes \<Rightarrow> 'a CallTable_scheme \<Rightarrow> VoipError \<times> 'a CallTable_scheme" where
  "ReceiveSignalingData deliver callId data e =
     (if callId \<le> 0 then (Invalid ''callId must be positive'', e)
      else if data = [] then (Invalid ''VoIP signaling data is empty'', e)
      else case m_calls e callId of
        None \<Rightarrow>
          if callId \<in> m_droppedCallIds e then (VoipError_Ok, e)
          else (Invalid ''call DH state not found for signaling data'', e)
      | Some s \<Rightarrow>
          (let s = s\<lparr>SignalingPacketsReceived := SignalingPacketsReceived s + 1,
                     SignalingBytesReceived := SignalingBytesReceived s + of_nat (length data)\<rparr>;
               conn = m_tgcallsConnection e \<and> m_tgcallsCallId e = callId;
               deliverToGraph = \<not> conn \<and> m_tgcallsGraph e \<and> m_tgcallsCallId e = callId;
               s = (if \<not> conn \<and> \<not> deliverToGraph then QueuePendingSignaling data s else s);
               e = e\<lparr>m_calls := (m_calls e)(callId \<mapsto> s)\<rparr>
           in if conn \<or> deliverToGraph then (deliver data, e) else (VoipError_Ok, e)))"

definition DropCall :: "int \<Rightarrow> 'a CallTable_scheme \<Rightarrow> 'a CallTable_scheme" where
  "DropCall callId e =
     (let e = e\<lparr>m_calls := (m_calls e)(callId := None), m_droppedCallIds := insert callId (m_droppedCallIds e)\<rparr>
      in if m_tgcallsCallId e = callId
         then e\<lparr>m_tgcallsConnection := False, m_tgcallsCallId := 0\<rparr> else e)"

text \<open>What other threads do between the two critical sections of an operation.\<close>

datatype call_event = Signaling "bytes \<Rightarrow> VoipError" int bytes | Drop int

fun call_handle :: "call_event \<Rightarrow> 'a CallTable_scheme \<Rightarrow> 'a CallTable_scheme" where
  "call_handle (Signaling deliver callId data) e = snd (ReceiveSignalingData deliver callId data e)"
| "call_handle (Drop callId) e = DropCall callId e"


section \<open>Operations\<close>

definition CreateOutgoingDh ::
    "CryptoLib \<Rightarrow> (nat \<Rightarrow> random_fn) \<Rightarrow> int \<Rightarrow> int \<Rightarrow> bytes \<Rightarrow> 'a CallTable_scheme \<Rightarrow> VoipDhMaterial \<times> 'a CallTable_scheme" where
  "CreateOutgoingDh lib rnd randomId g p e =
     (case ValidateDhConfig (lib_bn lib) g p of
        Some err \<Rightarrow> (VoipDhMaterial_Fail err, e)
      | None \<Rightarrow>
          (let priv = PickPrivateExponent (lib_bn lib) rnd p;
               pub = ComputePublic (lib_bn lib) g priv p;
               session = DhSession_default\<lparr>RandomId := randomId, CallId := 0, dh_G := g, Incoming := False, dh_P := p,
                 PrivateValue := priv, PublicValue := pub, PublicHash := Sha256Bytes (lib_sha256 lib) pub\<rparr>;
               out = VoipDhMaterial_Ok\<lparr>dm_PublicValue := PublicValue session, dm_PublicHash := PublicHash session\<rparr>
           in (out, e\<lparr>m_outgoingByRandom := (m_outgoingByRandom e)(randomId \<mapsto> session)\<rparr>)))"

definition BindOutgoingCall :: "int \<Rightarrow> int \<Rightarrow> 'a CallTable_scheme \<Rightarrow> VoipError \<times> 'a CallTable_scheme" where
  "BindOutgoingCall randomId callId e =
     (if callId \<le> 0 then (Invalid ''callId must be positive'', e)
      else case m_outgoingByRandom e randomId of
        None \<Rightarrow> (Invalid ''outgoing DH state not found for random_id'', e)
      | Some session \<Rightarrow>
          (VoipError_Ok, e\<lparr>m_calls := (m_calls e)(callId \<mapsto> session\<lparr>CallId := callId\<rparr>),
             m_droppedCallIds := m_droppedCallIds e - {callId},
             m_outgoingByRandom := (m_outgoingByRandom e)(randomId := None)\<rparr>))"

definition RegisterIncomingGAHash :: "int \<Rightarrow> bytes \<Rightarrow> 'a CallTable_scheme \<Rightarrow> VoipError \<times> 'a CallTable_scheme" where
  "RegisterIncomingGAHash callId gAHash e =
     (if callId \<le> 0 then (Invalid ''callId must be positive'', e)
      else if length gAHash \<noteq> 32 then (Invalid ''incoming g_a_hash must be exactly 32 bytes'', e)
      else
        (let session = (case m_calls e callId of Some s \<Rightarrow> s | None \<Rightarrow> DhSession_default);
             session = session\<lparr>CallId := callId, Incoming := True, PeerGAHash := gAHash\<rparr>
         in (VoipError_Ok, e\<lparr>m_calls := (m_calls e)(callId \<mapsto> session),
               m_droppedCallIds := m_droppedCallIds e - {callId}\<rparr>)))"

definition CreateIncomingDh ::
    "CryptoLib \<Rightarrow> (nat \<Rightarrow> random_fn) \<Rightarrow> call_event list \<Rightarrow> int \<Rightarrow> int \<Rightarrow> bytes \<Rightarrow> 'a CallTable_scheme
       \<Rightarrow> VoipDhMaterial \<times> 'a CallTable_scheme" where
  "CreateIncomingDh lib rnd mid callId g p e =
     (case ValidateDhConfig (lib_bn lib) g p of
        Some err \<Rightarrow> (VoipDhMaterial_Fail err, e)
      | None \<Rightarrow>
          (case m_calls e callId of
             None \<Rightarrow> (VoipDhMaterial_Fail (Invalid ''incoming g_a_hash was not registered''), e)
           | Some s \<Rightarrow>
               if PeerGAHash s = [] then (VoipDhMaterial_Fail (Invalid ''incoming g_a_hash was not registered''), e)
               else
                 (let priv = PickPrivateExponent (lib_bn lib) rnd p;
                      pub = ComputePublic (lib_bn lib) g priv p;
                      session = s\<lparr>dh_G := g, dh_P := p, Incoming := True, PrivateValue := priv, PublicValue := pub,
                        PublicHash := Sha256Bytes (lib_sha256 lib) pub\<rparr>;
                      out = VoipDhMaterial_Ok\<lparr>dm_PublicValue := PublicValue session, dm_PublicHash := PublicHash session\<rparr>;
                      e = fold call_handle mid e
                  in (out, e\<lparr>m_calls := (m_calls e)(callId \<mapsto> session)\<rparr>))))"

definition with_shared_key :: "CryptoLib \<Rightarrow> bytes \<Rightarrow> DhSession \<Rightarrow> DhSession" where
  "with_shared_key lib peer session =
     (let key = ComputeShared (lib_bn lib) peer (PrivateValue session) (dh_P session)
      in session\<lparr>SharedKey := key, KeyFingerprint := FingerprintForKey (lib_sha1 lib) key, SharedReady := True\<rparr>)"

definition AcceptPeerGB ::
    "CryptoLib \<Rightarrow> call_event list \<Rightarrow> int \<Rightarrow> bytes \<Rightarrow> 'a CallTable_scheme \<Rightarrow> VoipDhMaterial \<times> 'a CallTable_scheme" where
  "AcceptPeerGB lib mid callId gB e =
     (case m_calls e callId of
        None \<Rightarrow> (VoipDhMaterial_Fail (Invalid ''call DH state not found''), e)
      | Some session \<Rightarrow>
          (case ValidatePublicValue (lib_bn lib) gB (dh_P session) of
             Some err \<Rightarrow> (VoipDhMaterial_Fail err, e)
           | None \<Rightarrow>
               (let session = with_shared_key lib gB session;
                    out = VoipDhMaterial_Ok\<lparr>dm_PublicValue := PublicValue session, dm_PublicHash := PublicHash session,
                      dm_KeyFingerprint := KeyFingerprint session, dm_KeyHandle := HandleForCall callId\<rparr>;
                    e = fold call_handle mid e
                in (out, e\<lparr>m_calls := (m_calls e)(callId \<mapsto> session)\<rparr>))))"

definition ConfirmPeerGAOrB ::
    "CryptoLib \<Rightarrow> call_event list \<Rightarrow> int \<Rightarrow> bytes \<Rightarrow> u64 \<Rightarrow> 'a CallTable_scheme \<Rightarrow> VoipError \<times> 'a CallTable_scheme" where
  "ConfirmPeerGAOrB lib mid callId gAOrB expectedFingerprint e =
     (case m_calls e callId of
        None \<Rightarrow> (Invalid ''call DH state not found'', e)
      | Some session \<Rightarrow>
          if length (PeerGAHash session) = 32 \<and> Sha256Bytes (lib_sha256 lib) gAOrB \<noteq> PeerGAHash session then
            (VoipError_Of FingerprintMismatch 0 (''SHA256(g_a) does not match the caller'' @ [CHR 0x27] @ ''s committed g_a_hash''), e)
          else
            (case ValidatePublicValue (lib_bn lib) gAOrB (dh_P session) of
               Some err \<Rightarrow> (err, e)
             | None \<Rightarrow>
                 (let session = with_shared_key lib gAOrB session in
                  if expectedFingerprint \<noteq> 0 \<and> KeyFingerprint session \<noteq> expectedFingerprint then
                    (VoipError_Of FingerprintMismatch 0 ''shared-key fingerprint does not match phoneCall.key_fingerprint'', e)
                  else
                    (let e = fold call_handle mid e
                     in (VoipError_Ok, e\<lparr>m_calls := (m_calls e)(callId \<mapsto> session)\<rparr>)))))"

definition GetLocalFingerprint :: "int \<Rightarrow> 'a CallTable_scheme \<Rightarrow> u64" where
  "GetLocalFingerprint callId e = (case m_calls e callId of None \<Rightarrow> 0 | Some s \<Rightarrow> KeyFingerprint s)"

definition GetKeyHandle :: "int \<Rightarrow> 'a CallTable_scheme \<Rightarrow> string" where
  "GetKeyHandle callId e =
     (case m_calls e callId of None \<Rightarrow> [] | Some s \<Rightarrow> if \<not> SharedReady s then [] else HandleForCall callId)"

definition GetSharedKeyDiagnosticBytes :: "int \<Rightarrow> 'a CallTable_scheme \<Rightarrow> bytes" where
  "GetSharedKeyDiagnosticBytes callId e =
     (case m_calls e callId of None \<Rightarrow> []
      | Some s \<Rightarrow> if \<not> SharedReady s then [] else if length (SharedKey s) \<noteq> 256 then [] else SharedKey s)"


section \<open>Numbers and bytes\<close>

lemma dh_config:
  assumes "bignum_ok B" and "ValidateDhConfig B g p = None"
  shows "length p = 256" "2 ^ 2047 \<le> be_value p" "odd (be_value p)" "2 \<le> g" "g \<le> 7" "0 < be_value p"
    "be_value p < 256 ^ 256"
  using assms be_value_less [of p]
  by (auto simp: ValidateDhConfig_def kDhBytes_def bignum_ok_def IsSupportedGenerator_def split: if_splits)

lemma modpow_bytes:
  assumes "bignum_ok B" and "0 < m" and "m < 256 ^ 256"
  shows "be_value (fill kDhBytes (bn_byte B (bn_ModPow B b e m) kDhBytes)) = b ^ e mod m"
proof -
  have "b ^ e mod m < 256 ^ 256" using assms(2,3) by (meson mod_less_divisor order.strict_trans)
  then show ?thesis using assms(1,2) by (simp add: bignum_ok_def kDhBytes_def)
qed

lemma public_value:
  assumes "bignum_ok B" and "ValidateDhConfig B g p = None"
  shows "be_value (ComputePublic B g x p) = nat g ^ be_value x mod be_value p"
proof -
  have e: "bn_of B bs = be_value bs" for bs using assms(1) by (simp add: bignum_ok_def)
  show ?thesis
    unfolding ComputePublic_def e by (rule modpow_bytes [OF assms(1) dh_config(6,7) [OF assms]])
qed

lemma shared_agree:
  assumes B: "bignum_ok B" and c: "ValidateDhConfig B g p = None"
  shows "ComputeShared B (ComputePublic B g b p) a p = ComputeShared B (ComputePublic B g a p) b p"
proof -
  note d = dh_config [OF B c]
  have e: "bn_of B bs = be_value bs" for bs using B by (simp add: bignum_ok_def)
  have m: "bn_ModPow B x y (be_value p) = x ^ y mod be_value p" for x y
    using B d(6) by (simp add: bignum_ok_def)
  note pub = public_value [OF B c]
  have "(nat g ^ be_value b mod be_value p) ^ be_value a mod be_value p =
      (nat g ^ be_value a mod be_value p) ^ be_value b mod be_value p"
    unfolding power_mod power_mult [symmetric] by (simp add: mult.commute)
  then show ?thesis unfolding ComputeShared_def e m pub by (simp only:)
qed


section \<open>The key agreement\<close>

text \<open>
  Claim C12: the key agreement of a call. The caller creates its half, the callee registers the hash of
  it and creates its own half, the caller takes \<open>g_b\<close> and the callee confirms \<open>g_a\<close> against the hash and
  the caller's fingerprint: the confirmation succeeds, and both tables hold the same 256-byte key, the
  same fingerprint and the same key handle for the call, whatever was in the tables before and whatever
  exponents were drawn.
\<close>

theorem dh_agreement:
  assumes B: "bignum_ok (lib_bn lib)" and c: "ValidateDhConfig (lib_bn lib) g p = None" and id: "0 < callId"
    and a1: "CreateOutgoingDh lib rndA randomId g p a0 = (half_a, a1)"
    and b1: "RegisterIncomingGAHash callId (dm_PublicHash half_a) b0 = (reg, b1)"
    and b2: "CreateIncomingDh lib rndB [] callId g p b1 = (half_b, b2)"
    and a2: "BindOutgoingCall randomId callId a1 = (bound, a2)"
    and ranges: "ValidatePublicValue (lib_bn lib) (dm_PublicValue half_a) p = None"
      "ValidatePublicValue (lib_bn lib) (dm_PublicValue half_b) p = None"
    and a3: "AcceptPeerGB lib [] callId (dm_PublicValue half_b) a2 = (accepted, a3)"
    and b3: "ConfirmPeerGAOrB lib [] callId (dm_PublicValue half_a) (dm_KeyFingerprint accepted) b2 = (result, b3)"
  shows "result = VoipError_Ok
    \<and> GetSharedKeyDiagnosticBytes callId a3 = GetSharedKeyDiagnosticBytes callId b3
    \<and> length (GetSharedKeyDiagnosticBytes callId b3) = 256
    \<and> GetLocalFingerprint callId a3 = GetLocalFingerprint callId b3
    \<and> GetKeyHandle callId a3 = HandleForCall callId \<and> GetKeyHandle callId b3 = HandleForCall callId"
proof -
  let ?B = "lib_bn lib"
  define a where "a = PickPrivateExponent ?B rndA p"
  define b where "b = PickPrivateExponent ?B rndB p"
  let ?ga = "ComputePublic ?B g a p" and ?gb = "ComputePublic ?B g b p"
  define key where "key = ComputeShared ?B ?gb a p"
  have key': "ComputeShared ?B ?ga b p = key" unfolding key_def by (rule shared_agree [OF B c, symmetric])
  have half_a: "dm_PublicValue half_a = ?ga" "dm_PublicHash half_a = Sha256Bytes (lib_sha256 lib) ?ga"
    using a1 c by (auto simp: CreateOutgoingDh_def Let_def VoipDhMaterial_Ok_def a_def)
  obtain sa where sa: "m_outgoingByRandom a1 randomId = Some sa" "PrivateValue sa = a" "dh_P sa = p" "PublicValue sa = ?ga"
    using a1 c by (auto simp: CreateOutgoingDh_def Let_def a_def)
  have lh: "length (dm_PublicHash half_a) = 32" by (simp add: half_a Sha256Bytes_def)
  obtain s1 where s1: "m_calls b1 callId = Some s1" "PeerGAHash s1 = dm_PublicHash half_a"
    using b1 id lh by (auto simp: RegisterIncomingGAHash_def Let_def)
  have s1ne: "PeerGAHash s1 \<noteq> []" using s1(2) lh by auto
  have half_b: "dm_PublicValue half_b = ?gb"
    using b2 c s1 s1ne by (auto simp: CreateIncomingDh_def Let_def VoipDhMaterial_Ok_def b_def)
  obtain s2 where s2: "m_calls b2 callId = Some s2" "PrivateValue s2 = b" "dh_P s2 = p" "PeerGAHash s2 = dm_PublicHash half_a"
    using b2 c s1 s1ne by (auto simp: CreateIncomingDh_def Let_def b_def)
  have sa2: "m_calls a2 callId = Some (sa\<lparr>CallId := callId\<rparr>)"
    using a2 id sa(1) by (auto simp: BindOutgoingCall_def)
  let ?sa3 = "with_shared_key lib ?gb (sa\<lparr>CallId := callId\<rparr>)"
  have vb: "ValidatePublicValue ?B ?gb (dh_P (sa\<lparr>CallId := callId\<rparr>)) = None"
    using ranges(2) by (simp add: half_b sa(3))
  have a3': "a3 = a2\<lparr>m_calls := (m_calls a2)(callId \<mapsto> ?sa3)\<rparr>" "dm_KeyFingerprint accepted = KeyFingerprint ?sa3"
    using a3 sa2 vb by (auto simp: AcceptPeerGB_def Let_def half_b VoipDhMaterial_Ok_def)
  have ka: "SharedKey ?sa3 = key" "KeyFingerprint ?sa3 = FingerprintForKey (lib_sha1 lib) key" "SharedReady ?sa3"
    by (simp_all add: with_shared_key_def Let_def sa key_def)
  let ?sb3 = "with_shared_key lib ?ga s2"
  have kb: "SharedKey ?sb3 = key" "KeyFingerprint ?sb3 = FingerprintForKey (lib_sha1 lib) key" "SharedReady ?sb3"
    by (simp_all add: with_shared_key_def Let_def s2 key')
  have va: "ValidatePublicValue ?B ?ga (dh_P s2) = None" using ranges(1) by (simp add: half_a s2(3))
  have commit: "(length (PeerGAHash s2) = 32 \<and> Sha256Bytes (lib_sha256 lib) ?ga \<noteq> PeerGAHash s2) = False"
    by (simp add: s2(4) half_a)
  have same: "(KeyFingerprint ?sa3 \<noteq> 0 \<and> KeyFingerprint ?sb3 \<noteq> KeyFingerprint ?sa3) = False"
    using ka(2) kb(2) by simp
  have "ConfirmPeerGAOrB lib [] callId ?ga (KeyFingerprint ?sa3) b2 =
      (VoipError_Ok, b2\<lparr>m_calls := (m_calls b2)(callId \<mapsto> ?sb3)\<rparr>)"
    unfolding ConfirmPeerGAOrB_def Let_def s2(1) option.case commit va same by simp
  then have b3': "result = VoipError_Ok" "b3 = b2\<lparr>m_calls := (m_calls b2)(callId \<mapsto> ?sb3)\<rparr>"
    using b3 by (simp_all add: half_a a3'(2))
  have "length key = 256" by (simp add: key_def ComputeShared_def kDhBytes_def)
  then show ?thesis
    by (simp add: b3' a3'(1) GetSharedKeyDiagnosticBytes_def GetLocalFingerprint_def GetKeyHandle_def ka kb)
qed

text \<open>A library on which the promises hold, and values to run the exchange on.\<close>

definition bn_reference :: BigNum where
  "bn_reference = \<lparr>bn_of = be_value, bn_ModPow = (\<lambda>b e m. b ^ e mod m),
     bn_byte = (\<lambda>v n i. of_nat (v div 256 ^ (n - 1 - i)))\<rparr>"

lemma fill_be_value: "v < 256 ^ n \<Longrightarrow> be_value (fill n (\<lambda>i. of_nat (v div 256 ^ (n - 1 - i)) :: u8)) = v"
proof (induction n arbitrary: v)
  case (Suc n)
  have "fill (Suc n) (\<lambda>i. of_nat (v div 256 ^ (Suc n - 1 - i)) :: u8) =
      fill n (\<lambda>i. of_nat ((v div 256) div 256 ^ (n - 1 - i))) @ [of_nat v]"
  proof -
    have "v div 256 ^ (n - i) = (v div 256) div 256 ^ (n - 1 - i)" if "i < n" for i
    proof -
      have "n - i = Suc (n - 1 - i)" using that by simp
      then show ?thesis by (simp add: div_mult2_eq)
    qed
    then show ?thesis by (simp add: fill_def)
  qed
  moreover have "be_value (fill n (\<lambda>i. of_nat ((v div 256) div 256 ^ (n - 1 - i)) :: u8)) = v div 256"
    using Suc.prems by (intro Suc.IH) (simp add: less_mult_imp_div_less mult.commute)
  moreover have "unat (of_nat v :: u8) = v mod 256" by (simp add: unat_of_nat)
  ultimately show ?case by simp
qed (simp add: fill_def)

lemma bn_reference_ok: "bignum_ok bn_reference"
  by (simp add: bignum_ok_def bn_reference_def fill_be_value [simplified])

definition sample_prime :: bytes where
  "sample_prime = 0x80 # replicate 254 0 @ [1]"

definition sample_lib :: CryptoLib where
  "sample_lib = \<lparr>lib_bn = bn_reference, lib_sha1 = (\<lambda>b i. of_nat i), lib_sha256 = (\<lambda>b i. of_nat (length b + i))\<rparr>"

lemma sample_prime: "be_value sample_prime = 2 ^ 2047 + 1" "length sample_prime = 256"
proof -
  have "(256 :: nat) = 2 ^ 8" by simp
  then have "(128 :: nat) * 256 ^ 255 = 2 ^ 7 * (2 ^ 8) ^ 255" by simp
  also have "\<dots> = 2 ^ 2047" unfolding power_mult [symmetric] power_add [symmetric] by simp
  finally show "be_value sample_prime = 2 ^ 2047 + 1" by (simp add: sample_prime_def)
  show "length sample_prime = 256" by (simp add: sample_prime_def)
qed

lemma sample_config: "ValidateDhConfig (lib_bn sample_lib) 3 sample_prime = None"
  by (simp add: ValidateDhConfig_def sample_lib_def bn_reference_def sample_prime kDhBytes_def IsSupportedGenerator_def)

definition sample_rnd :: "u8 \<Rightarrow> nat \<Rightarrow> random_fn" where
  "sample_rnd x i j = (if j = 255 then x else 0)"

lemma sample_exponent:
  assumes "2 \<le> unat x"
  shows "PickPrivateExponent (lib_bn sample_lib) (sample_rnd x) sample_prime = replicate 255 0 @ [x]"
proof -
  have f: "fill 256 (sample_rnd x 0) = replicate 255 0 @ [x]"
    by (rule nth_equalityI) (auto simp: fill_def sample_rnd_def nth_append less_Suc_eq)
  have "unat x < 2 ^ 8" using unsigned_less [of x, where 'a = nat] by simp
  also have "(2 :: nat) ^ 8 \<le> 2 ^ 2047" by (rule power_increasing) simp_all
  finally have "unat x < 2 ^ 2047 + 1" by simp
  then show ?thesis
    using assms by (simp add: PickPrivateExponent_def upt_conv_Cons kDhBytes_def f sample_lib_def bn_reference_def sample_prime)
qed

lemma sample_public:
  assumes "2 \<le> unat x" and "unat x \<le> 100"
  shows "ValidatePublicValue (lib_bn sample_lib)
    (ComputePublic (lib_bn sample_lib) 3 (replicate 255 0 @ [x]) sample_prime) sample_prime = None"
proof -
  have B: "bignum_ok (lib_bn sample_lib)" by (simp add: sample_lib_def bn_reference_ok)
  have "(3 :: nat) ^ unat x \<le> 3 ^ 100" using assms(2) by (intro power_increasing) simp_all
  also have "(3 :: nat) ^ 100 \<le> 4 ^ 100" by (rule power_mono) simp_all
  also have "(4 :: nat) ^ 100 = 2 ^ 200" using power_mult [of "2 :: nat" 2 100] by simp
  also have "(2 :: nat) ^ 200 \<le> 2 ^ 2047" by (rule power_increasing) simp_all
  finally have lt: "3 ^ unat x < be_value sample_prime" by (simp add: sample_prime)
  have "(3 :: nat) ^ 1 < 3 ^ unat x" using assms(1) by (intro power_strict_increasing) simp_all
  then have "1 < be_value (ComputePublic (lib_bn sample_lib) 3 (replicate 255 0 @ [x]) sample_prime)
    \<and> be_value (ComputePublic (lib_bn sample_lib) 3 (replicate 255 0 @ [x]) sample_prime) < be_value sample_prime"
    using lt public_value [OF B sample_config, of "replicate 255 0 @ [x]"] by simp
  moreover have "bn_of (lib_bn sample_lib) = be_value" by (simp add: sample_lib_def bn_reference_def)
  moreover have "length (ComputePublic (lib_bn sample_lib) 3 (replicate 255 0 @ [x]) sample_prime) = 256"
    by (simp add: ComputePublic_def kDhBytes_def)
  ultimately show ?thesis
    by (simp add: ValidatePublicValue_def kDhBytes_def sample_prime(2))
qed

definition no_calls :: CallTable where
  "no_calls = \<lparr>m_outgoingByRandom = Map.empty, m_calls = Map.empty, m_droppedCallIds = {}, m_tgcallsCallId = 0,
     m_tgcallsConnection = False, m_tgcallsGraph = False\<rparr>"

theorem dh_agreement_witness:
  "\<exists>a1 a2 a3 b1 b2 b3 ha hb acc.
     CreateOutgoingDh sample_lib (sample_rnd 5) 11 3 sample_prime no_calls = (ha, a1)
     \<and> RegisterIncomingGAHash 42 (dm_PublicHash ha) no_calls = (VoipError_Ok, b1)
     \<and> CreateIncomingDh sample_lib (sample_rnd 7) [] 42 3 sample_prime b1 = (hb, b2)
     \<and> BindOutgoingCall 11 42 a1 = (VoipError_Ok, a2)
     \<and> AcceptPeerGB sample_lib [] 42 (dm_PublicValue hb) a2 = (acc, a3)
     \<and> ConfirmPeerGAOrB sample_lib [] 42 (dm_PublicValue ha) (dm_KeyFingerprint acc) b2 = (VoipError_Ok, b3)
     \<and> GetSharedKeyDiagnosticBytes 42 a3 = GetSharedKeyDiagnosticBytes 42 b3"
proof -
  obtain ha a1 where a1: "CreateOutgoingDh sample_lib (sample_rnd 5) 11 3 sample_prime no_calls = (ha, a1)" by fastforce
  have half_a: "dm_PublicValue ha = ComputePublic (lib_bn sample_lib) 3 (replicate 255 0 @ [5]) sample_prime"
    "length (dm_PublicHash ha) = 32" "m_outgoingByRandom a1 11 \<noteq> None"
    using a1 sample_config sample_exponent [of 5]
    by (auto simp: CreateOutgoingDh_def Let_def VoipDhMaterial_Ok_def Sha256Bytes_def)
  obtain r b1 where b1: "RegisterIncomingGAHash 42 (dm_PublicHash ha) no_calls = (r, b1)" by fastforce
  then have reg: "r = VoipError_Ok" "\<exists>s. m_calls b1 42 = Some s \<and> PeerGAHash s \<noteq> []"
    using half_a(2) by (auto simp: RegisterIncomingGAHash_def Let_def)
  obtain hb b2 where b2: "CreateIncomingDh sample_lib (sample_rnd 7) [] 42 3 sample_prime b1 = (hb, b2)" by fastforce
  have half_b: "dm_PublicValue hb = ComputePublic (lib_bn sample_lib) 3 (replicate 255 0 @ [7]) sample_prime"
    using b2 reg(2) sample_config sample_exponent [of 7]
    by (auto simp: CreateIncomingDh_def Let_def VoipDhMaterial_Ok_def)
  obtain k a2 where a2: "BindOutgoingCall 11 42 a1 = (k, a2)" by fastforce
  have k: "k = VoipError_Ok" using a2 half_a(3) by (auto simp: BindOutgoingCall_def)
  obtain acc a3 where a3: "AcceptPeerGB sample_lib [] 42 (dm_PublicValue hb) a2 = (acc, a3)" by fastforce
  obtain res b3 where b3: "ConfirmPeerGAOrB sample_lib [] 42 (dm_PublicValue ha) (dm_KeyFingerprint acc) b2 = (res, b3)"
    by fastforce
  have B: "bignum_ok (lib_bn sample_lib)" by (simp add: sample_lib_def bn_reference_ok)
  have ra: "ValidatePublicValue (lib_bn sample_lib) (dm_PublicValue ha) sample_prime = None"
    unfolding half_a(1) by (rule sample_public) simp_all
  have rb: "ValidatePublicValue (lib_bn sample_lib) (dm_PublicValue hb) sample_prime = None"
    unfolding half_b by (rule sample_public) simp_all
  have "(0 :: int) < 42" by simp
  note dh_agreement [OF B sample_config this a1 b1 b2 a2 ra rb a3 b3]
  then show ?thesis using a1 b1 b2 a2 a3 b3 reg(1) k by metis
qed


section \<open>What a confirmation has checked\<close>

text \<open>
  Claim C16: a call whose peer committed to a hash is confirmed only for the committed \<open>g_a\<close>: on
  success the value hashes to the registered 32 bytes, is a 256-byte number strictly between 1 and
  the prime, and a non-zero expected fingerprint is the one of the key stored; otherwise nothing is
  stored at all.
\<close>

theorem confirm_checks_commitment:
  assumes B: "bignum_ok (lib_bn lib)"
    and s: "m_calls e callId = Some s" "length (PeerGAHash s) = 32"
    and r: "ConfirmPeerGAOrB lib mid callId gA fp e = (result, e')"
  shows "if result = VoipError_Ok
    then Sha256Bytes (lib_sha256 lib) gA = PeerGAHash s \<and> length gA = 256
      \<and> 1 < be_value gA \<and> be_value gA < be_value (dh_P s)
      \<and> (\<exists>s'. m_calls e' callId = Some s' \<and> SharedKey s' = ComputeShared (lib_bn lib) gA (PrivateValue s) (dh_P s)
           \<and> KeyFingerprint s' = FingerprintForKey (lib_sha1 lib) (SharedKey s')
           \<and> (fp = 0 \<or> fp = KeyFingerprint s'))
    else e' = e"
proof (cases "Sha256Bytes (lib_sha256 lib) gA = PeerGAHash s")
  case False
  then have "result \<noteq> VoipError_Ok \<and> e' = e"
    using s r by (auto simp: ConfirmPeerGAOrB_def VoipError_Of_def VoipError_Ok_def)
  then show ?thesis by simp
next
  case hash: True
  have bn: "bn_of (lib_bn lib) bs = be_value bs" for bs using B by (simp add: bignum_ok_def)
  show ?thesis
  proof (cases "ValidatePublicValue (lib_bn lib) gA (dh_P s)")
    case (Some err)
    then have "err \<noteq> VoipError_Ok" by (auto simp: ValidatePublicValue_def split: if_splits)
    then show ?thesis using s r hash Some by (simp add: ConfirmPeerGAOrB_def)
  next
    case None
    then have v: "length gA = 256" "1 < be_value gA" "be_value gA < be_value (dh_P s)"
      by (auto simp: ValidatePublicValue_def bn kDhBytes_def split: if_splits)
    let ?s = "with_shared_key lib gA s"
    show ?thesis
    proof (cases "fp \<noteq> 0 \<and> KeyFingerprint ?s \<noteq> fp")
      case True
      then have "result \<noteq> VoipError_Ok \<and> e' = e"
        using s(1) r hash None by (auto simp: ConfirmPeerGAOrB_def VoipError_Of_def VoipError_Ok_def)
      then show ?thesis by simp
    next
      case False
      then have "(fp \<noteq> 0 \<and> KeyFingerprint ?s \<noteq> fp) = False" by simp
      then have "ConfirmPeerGAOrB lib mid callId gA fp e =
          (VoipError_Ok, (fold call_handle mid e)\<lparr>m_calls := (m_calls (fold call_handle mid e))(callId \<mapsto> ?s)\<rparr>)"
        unfolding ConfirmPeerGAOrB_def Let_def s(1) option.case None \<open>(fp \<noteq> 0 \<and> KeyFingerprint ?s \<noteq> fp) = False\<close>
        by (simp add: hash)
      then show ?thesis using r v hash False by (auto simp: with_shared_key_def Let_def)
    qed
  qed
qed

definition committed_calls :: CallTable where
  "committed_calls =
     no_calls\<lparr>m_calls := [42 \<mapsto> DhSession_default\<lparr>dh_P := sample_prime, PeerGAHash := replicate 32 0\<rparr>]\<rparr>"

theorem confirm_checks_commitment_witness:
  "snd (ConfirmPeerGAOrB sample_lib [] 42 (replicate 256 1) 0 committed_calls) = committed_calls"
proof -
  obtain result e' where r: "ConfirmPeerGAOrB sample_lib [] 42 (replicate 256 1) 0 committed_calls = (result, e')"
    by fastforce
  have B: "bignum_ok (lib_bn sample_lib)" by (simp add: sample_lib_def bn_reference_ok)
  have s: "m_calls committed_calls 42 = Some (DhSession_default\<lparr>dh_P := sample_prime, PeerGAHash := replicate 32 0\<rparr>)"
    "length (PeerGAHash (DhSession_default\<lparr>dh_P := sample_prime, PeerGAHash := replicate 32 0\<rparr>)) = 32"
    by (simp_all add: committed_calls_def)
  have "Sha256Bytes (lib_sha256 sample_lib) (replicate 256 1) ! 1 \<noteq> replicate 32 0 ! 1"
    by (simp add: Sha256Bytes_def sample_lib_def fill_def)
  then have "Sha256Bytes (lib_sha256 sample_lib) (replicate 256 1) \<noteq> replicate 32 0" by metis
  with confirm_checks_commitment [OF B s r] have "e' = committed_calls" by (auto split: if_splits)
  then show ?thesis by (simp add: r)
qed

text \<open>
  The operation hands back what was accepted before the lock was released: what another thread does to
  the session between the two critical sections is overwritten.
\<close>

lemma accept_overwrites:
  assumes "m_calls e callId = Some s" and "ValidatePublicValue (lib_bn lib) gB (dh_P s) = None"
  shows "AcceptPeerGB lib mid callId gB e =
    (VoipDhMaterial_Ok\<lparr>dm_PublicValue := PublicValue s, dm_PublicHash := PublicHash s,
       dm_KeyFingerprint := KeyFingerprint (with_shared_key lib gB s), dm_KeyHandle := HandleForCall callId\<rparr>,
     (fold call_handle mid e)\<lparr>m_calls := (m_calls (fold call_handle mid e))(callId \<mapsto> with_shared_key lib gB s)\<rparr>)"
  using assms by (simp add: AcceptPeerGB_def Let_def with_shared_key_def)

lemma dropped_stays: "callId \<in> m_droppedCallIds e \<Longrightarrow> callId \<in> m_droppedCallIds (call_handle ev e)"
  by (cases ev) (auto simp: ReceiveSignalingData_def DropCall_def Let_def split: option.split)

lemma dropped_in: "Drop callId \<in> set mid \<Longrightarrow> callId \<in> m_droppedCallIds (fold call_handle mid e)"
proof (induction mid rule: rev_induct)
  case (snoc ev mid)
  then show ?case
    using dropped_stays [of callId "fold call_handle mid e" ev] by (auto simp: DropCall_def Let_def)
qed simp

text \<open>
  \<open>AcceptPeerGB\<close> undoes what happens to its call while it computes. The signaling packets and
  the counters of the call afterwards are those of before, so every packet that arrived in between is
  lost; and a call dropped in between is back, with its key, although its id is in the set of dropped
  calls.
\<close>

theorem accept_undoes_concurrent:
  assumes "m_calls e callId = Some s" and "ValidatePublicValue (lib_bn lib) gB (dh_P s) = None"
    and "e' = snd (AcceptPeerGB lib mid callId gB e)"
  shows "(\<exists>s'. m_calls e' callId = Some s' \<and> SharedReady s' \<and> length (SharedKey s') = 256
      \<and> PendingSignalingPackets s' = PendingSignalingPackets s
      \<and> SignalingPacketsReceived s' = SignalingPacketsReceived s)
    \<and> (Drop callId \<in> set mid \<longrightarrow> callId \<in> m_droppedCallIds e')"
proof -
  have e': "e' = (fold call_handle mid e)\<lparr>m_calls := (m_calls (fold call_handle mid e))(callId \<mapsto> with_shared_key lib gB s)\<rparr>"
    unfolding assms(3) accept_overwrites [OF assms(1,2)] by simp
  have "SharedReady (with_shared_key lib gB s) \<and> length (SharedKey (with_shared_key lib gB s)) = 256
      \<and> PendingSignalingPackets (with_shared_key lib gB s) = PendingSignalingPackets s
      \<and> SignalingPacketsReceived (with_shared_key lib gB s) = SignalingPacketsReceived s"
    by (simp add: with_shared_key_def Let_def ComputeShared_def kDhBytes_def)
  then show ?thesis using dropped_in [of callId mid e] by (simp add: e')
qed

theorem accept_undoes_concurrent_witness:
  "\<exists>e' s'. e' = snd (AcceptPeerGB sample_lib [Signaling (\<lambda>_. VoipError_Ok) 42 [1, 2, 3], Drop 42] 42
        (ComputePublic (lib_bn sample_lib) 3 (replicate 255 0 @ [7]) sample_prime)
        (no_calls\<lparr>m_calls := [42 \<mapsto> DhSession_default\<lparr>dh_P := sample_prime\<rparr>]\<rparr>))
     \<and> m_calls e' 42 = Some s' \<and> SharedReady s' \<and> PendingSignalingPackets s' = [] \<and> 42 \<in> m_droppedCallIds e'"
proof -
  let ?e = "no_calls\<lparr>m_calls := [42 \<mapsto> DhSession_default\<lparr>dh_P := sample_prime\<rparr>]\<rparr>"
  have s: "m_calls ?e 42 = Some (DhSession_default\<lparr>dh_P := sample_prime\<rparr>)" by simp
  have v: "ValidatePublicValue (lib_bn sample_lib) (ComputePublic (lib_bn sample_lib) 3 (replicate 255 0 @ [7]) sample_prime)
      (dh_P (DhSession_default\<lparr>dh_P := sample_prime\<rparr>)) = None"
    using sample_public [of 7] by simp
  have "PendingSignalingPackets (DhSession_default\<lparr>dh_P := sample_prime\<rparr>) = []" by (simp add: DhSession_default_def)
  then show ?thesis
    using accept_undoes_concurrent [OF s v refl, of "[Signaling (\<lambda>_. VoipError_Ok) 42 [1, 2, 3], Drop 42]"] by auto
qed


section \<open>Degenerate public values\<close>

lemma minus_one_power: "1 < m \<Longrightarrow> (m - 1) ^ n mod m = (if even n then 1 else m - 1 :: nat)"
proof (induction n)
  case (Suc n)
  have sq: "(m - 1) * (m - 1) mod m = 1"
  proof -
    define k where "k = m - 2"
    then have k: "m = Suc (Suc k)" using Suc.prems by simp
    have "(m - 1) * (m - 1) = k * m + 1" by (simp add: k algebra_simps)
    then show ?thesis using Suc.prems by (metis mod_mult_self3 mod_less)
  qed
  have "(m - 1) ^ Suc n mod m = (m - 1) * ((m - 1) ^ n mod m) mod m" by (simp add: mod_mult_right_eq)
  also have "\<dots> = (m - 1) * (if even n then 1 else m - 1) mod m" using Suc by simp
  also have "\<dots> = (if even (Suc n) then 1 else m - 1)" using sq Suc.prems by simp
  finally show ?case .
qed simp

text \<open>
  The range check lets a peer fix the key. The number \<open>p - 1\<close> passes \<open>ValidatePublicValue\<close>, and
  with it as the peer's value the shared key is 1 or \<open>p - 1\<close>, whatever the private exponent is.
\<close>

theorem dh_accepts_minus_one:
  assumes B: "bignum_ok B" and c: "ValidateDhConfig B g p = None"
    and peer: "length peer = 256" "be_value peer = be_value p - 1"
  shows "ValidatePublicValue B peer p = None
    \<and> be_value (ComputeShared B peer priv p) = (if even (be_value priv) then 1 else be_value p - 1)"
proof
  note d = dh_config [OF B c]
  have e: "bn_of B bs = be_value bs" for bs using B by (simp add: bignum_ok_def)
  have "(2 :: nat) ^ 2 \<le> 2 ^ 2047" by (rule power_increasing) simp_all
  then have big: "2 < be_value p" using d(2) by simp
  then show "ValidatePublicValue B peer p = None"
    using peer d(1) by (simp add: ValidatePublicValue_def e kDhBytes_def) arith
  have "be_value (ComputeShared B peer priv p) = be_value peer ^ be_value priv mod be_value p"
    unfolding ComputeShared_def e by (rule modpow_bytes [OF B d(6,7)])
  then show "be_value (ComputeShared B peer priv p) = (if even (be_value priv) then 1 else be_value p - 1)"
    using minus_one_power [of "be_value p" "be_value priv"] big peer(2) by simp
qed

theorem dh_accepts_minus_one_witness:
  "ValidatePublicValue (lib_bn sample_lib) (0x80 # replicate 255 0) sample_prime = None
     \<and> be_value (ComputeShared (lib_bn sample_lib) (0x80 # replicate 255 0) [6] sample_prime) = 1"
proof -
  have B: "bignum_ok (lib_bn sample_lib)" by (simp add: sample_lib_def bn_reference_ok)
  have "be_value (0x80 # replicate 255 0) + 1 = be_value sample_prime" by (simp add: sample_prime_def)
  then show ?thesis
    using dh_accepts_minus_one [OF B sample_config, of "0x80 # replicate 255 0" "[6]"] by simp
qed


section \<open>The queue of early signaling\<close>

definition pending_fits :: "bytes list \<Rightarrow> bool" where
  "pending_fits ps \<longleftrightarrow> length ps \<le> kMaxPendingSignalingPackets \<and> sum_list (map length ps) \<le> kMaxPendingSignalingBytes"

lemma trim_pending_spec:
  "\<exists>k \<le> length (PendingSignalingPackets s).
     trim_pending s = s\<lparr>PendingSignalingPackets := drop k (PendingSignalingPackets s),
       SignalingPacketsDropped := SignalingPacketsDropped s + of_nat k\<rparr>
     \<and> pending_fits (drop k (PendingSignalingPackets s))
     \<and> (\<forall>j < k. \<not> pending_fits (drop j (PendingSignalingPackets s)))"
proof (induction s rule: trim_pending.induct)
  case (1 s)
  let ?P = "PendingSignalingPackets s"
  show ?case
  proof (cases "pending_fits ?P")
    case True
    then have "trim_pending s = s"
      by (subst trim_pending.simps) (auto simp: pending_fits_def PendingSignalingBytes_def)
    then show ?thesis using True by (intro exI [of _ 0]) simp
  next
    case False
    then have ne: "?P \<noteq> []" by (auto simp: pending_fits_def)
    let ?s = "s\<lparr>PendingSignalingPackets := tl ?P, SignalingPacketsDropped := SignalingPacketsDropped s + 1\<rparr>"
    have c: "length ?P > kMaxPendingSignalingPackets \<or> PendingSignalingBytes s > kMaxPendingSignalingBytes"
      using False by (auto simp: pending_fits_def PendingSignalingBytes_def)
    then have step: "trim_pending s = trim_pending ?s" using ne by (subst trim_pending.simps) simp
    obtain k where k: "k \<le> length (tl ?P)" "trim_pending ?s = ?s\<lparr>PendingSignalingPackets := drop k (tl ?P),
        SignalingPacketsDropped := SignalingPacketsDropped s + 1 + of_nat k\<rparr>" "pending_fits (drop k (tl ?P))"
      "\<forall>j < k. \<not> pending_fits (drop j (tl ?P))"
      using 1 [OF c ne] by auto
    have "\<not> pending_fits (drop j ?P)" if "j < Suc k" for j
      using that False k(4) by (cases j) (auto simp: drop_Suc)
    moreover have "Suc k \<le> length ?P" using k(1) ne by (cases ?P) auto
    ultimately show ?thesis
      using step k(2,3) by (intro exI [of _ "Suc k"]) (simp add: drop_Suc add.assoc)
  qed
qed

text \<open>
  The queue of early signaling packets stays within 128 packets and 512 KiB, and gives way at
  the front: what is left after a packet is queued is the longest run of the newest packets that fits,
  in order, and every packet left out is counted as dropped.
\<close>

theorem signaling_queue_keeps_newest:
  assumes "data \<noteq> []"
  shows "\<exists>k. let ps = PendingSignalingPackets s @ [data]; s' = QueuePendingSignaling data s
     in k \<le> length ps \<and> PendingSignalingPackets s' = drop k ps
        \<and> SignalingPacketsDropped s' = SignalingPacketsDropped s + of_nat k
        \<and> length (drop k ps) \<le> 128 \<and> sum_list (map length (drop k ps)) \<le> 524288
        \<and> (\<forall>j < k. length (drop j ps) > 128 \<or> sum_list (map length (drop j ps)) > 524288)"
proof -
  let ?ps = "PendingSignalingPackets s @ [data]"
  let ?s = "s\<lparr>PendingSignalingPackets := ?ps\<rparr>"
  have fits: "pending_fits ps \<longleftrightarrow> length ps \<le> 128 \<and> sum_list (map length ps) \<le> 524288" for ps
    by (simp add: pending_fits_def kMaxPendingSignalingPackets_def kMaxPendingSignalingBytes_def)
  obtain k where k: "k \<le> length ?ps" "trim_pending ?s = ?s\<lparr>PendingSignalingPackets := drop k ?ps,
      SignalingPacketsDropped := SignalingPacketsDropped s + of_nat k\<rparr>" "pending_fits (drop k ?ps)"
    "\<forall>j < k. \<not> pending_fits (drop j ?ps)"
    using trim_pending_spec [of ?s] by auto
  have "\<forall>j < k. length (drop j ?ps) > 128 \<or> sum_list (map length (drop j ?ps)) > 524288"
    using k(4) unfolding fits by (meson not_le)
  moreover have "QueuePendingSignaling data s = trim_pending ?s" using assms by (simp add: QueuePendingSignaling_def)
  ultimately show ?thesis
    using k(1-3) unfolding Let_def fits by (intro exI [of _ k]) simp
qed

theorem signaling_queue_keeps_newest_witness:
  "PendingSignalingPackets (QueuePendingSignaling [1, 2] (DhSession_default\<lparr>PendingSignalingPackets := [[7]]\<rparr>)) = [[7], [1, 2]]"
proof -
  obtain k where k: "PendingSignalingPackets (QueuePendingSignaling [1, 2] (DhSession_default\<lparr>PendingSignalingPackets := [[7]]\<rparr>))
      = drop k [[7], [1, 2]]" "\<forall>j < k. length (drop j [[7], [1, 2 :: u8]]) > 128 \<or> sum_list (map length (drop j [[7], [1, 2 :: u8]])) > 524288"
    using signaling_queue_keeps_newest [of "[1, 2]" "DhSession_default\<lparr>PendingSignalingPackets := [[7]]\<rparr>"]
    by (auto simp: Let_def)
  have "k = 0"
  proof (rule ccontr)
    assume "k \<noteq> 0"
    then show False using k(2) by (auto dest: spec [of _ 0])
  qed
  then show ?thesis using k(1) by simp
qed


section \<open>The invariant of the tables\<close>

definition session_inv :: "CryptoLib \<Rightarrow> DhSession \<Rightarrow> bool" where
  "session_inv lib s \<longleftrightarrow>
     (if SharedReady s then length (SharedKey s) = 256 \<and> KeyFingerprint s = FingerprintForKey (lib_sha1 lib) (SharedKey s)
      else SharedKey s = [] \<and> KeyFingerprint s = 0) \<and>
     (PeerGAHash s = [] \<or> length (PeerGAHash s) = 32) \<and>
     pending_fits (PendingSignalingPackets s) \<and>
     (dh_P s = [] \<or> length (dh_P s) = 256 \<and> length (PrivateValue s) = 256 \<and> length (PublicValue s) = 256
        \<and> PublicHash s = Sha256Bytes (lib_sha256 lib) (PublicValue s))"

definition table_inv :: "CryptoLib \<Rightarrow> 'a CallTable_scheme \<Rightarrow> bool" where
  "table_inv lib e \<longleftrightarrow>
     (\<forall>i s. m_calls e i = Some s \<longrightarrow> 0 < i \<and> CallId s = i \<and> session_inv lib s) \<and>
     (\<forall>r s. m_outgoingByRandom e r = Some s \<longrightarrow> session_inv lib s \<and> \<not> SharedReady s \<and> RandomId s = r \<and> \<not> Incoming s)"

datatype call_op =
    OpCreateOutgoing "nat \<Rightarrow> random_fn" int int bytes
  | OpBind int int
  | OpRegister int bytes
  | OpCreateIncoming "nat \<Rightarrow> random_fn" "call_event list" int int bytes
  | OpAccept "call_event list" int bytes
  | OpConfirm "call_event list" int bytes u64
  | OpEvent call_event

fun call_step :: "CryptoLib \<Rightarrow> CallTable \<Rightarrow> call_op \<Rightarrow> CallTable" where
  "call_step lib e (OpCreateOutgoing rnd r g p) = snd (CreateOutgoingDh lib rnd r g p e)"
| "call_step lib e (OpBind r i) = snd (BindOutgoingCall r i e)"
| "call_step lib e (OpRegister i h) = snd (RegisterIncomingGAHash i h e)"
| "call_step lib e (OpCreateIncoming rnd mid i g p) = snd (CreateIncomingDh lib rnd mid i g p e)"
| "call_step lib e (OpAccept mid i gB) = snd (AcceptPeerGB lib mid i gB e)"
| "call_step lib e (OpConfirm mid i gA fp) = snd (ConfirmPeerGAOrB lib mid i gA fp e)"
| "call_step lib e (OpEvent ev) = call_handle ev e"

lemma session_inv_default: "session_inv lib DhSession_default"
  by (simp add: session_inv_def DhSession_default_def pending_fits_def)

lemma session_inv_queue: "session_inv lib s \<Longrightarrow> session_inv lib (QueuePendingSignaling data s)"
proof (cases "data = []")
  case False
  assume i: "session_inv lib s"
  let ?s = "s\<lparr>PendingSignalingPackets := PendingSignalingPackets s @ [data]\<rparr>"
  obtain k where k: "trim_pending ?s = ?s\<lparr>PendingSignalingPackets := drop k (PendingSignalingPackets ?s),
      SignalingPacketsDropped := SignalingPacketsDropped ?s + of_nat k\<rparr>" "pending_fits (drop k (PendingSignalingPackets ?s))"
    using trim_pending_spec [of ?s] by blast
  show ?thesis
    unfolding QueuePendingSignaling_def using False i k(2) by (simp add: k(1) session_inv_def)
qed (simp add: QueuePendingSignaling_def)

lemma CallId_trim: "CallId (trim_pending s) = CallId s"
  using trim_pending_spec [of s] by (metis DhSession.select_convs(2) DhSession.surjective DhSession.update_convs(17,18))

lemma CallId_queue: "CallId (QueuePendingSignaling data s) = CallId s"
  by (simp add: QueuePendingSignaling_def CallId_trim)

lemma table_put:
  "table_inv lib e \<Longrightarrow> 0 < i \<Longrightarrow> CallId s = i \<Longrightarrow> session_inv lib s \<Longrightarrow>
     table_inv lib (e\<lparr>m_calls := (m_calls e)(i \<mapsto> s)\<rparr>)"
  by (simp add: table_inv_def)

lemma table_get: "table_inv lib e \<Longrightarrow> m_calls e i = Some s \<Longrightarrow> 0 < i \<and> CallId s = i \<and> session_inv lib s"
  by (simp add: table_inv_def)

lemma table_out: "table_inv lib e \<Longrightarrow> m_outgoingByRandom e r = Some s \<Longrightarrow> session_inv lib s"
  by (simp add: table_inv_def)

lemma table_frame [simp]:
  "table_inv lib (e\<lparr>m_droppedCallIds := d\<rparr>) = table_inv lib e"
  "table_inv lib (e\<lparr>m_tgcallsConnection := c\<rparr>) = table_inv lib e"
  "table_inv lib (e\<lparr>m_tgcallsCallId := i\<rparr>) = table_inv lib e"
  by (simp_all add: table_inv_def)

lemma table_drop: "table_inv lib e \<Longrightarrow> table_inv lib (DropCall i e)"
  by (auto simp: DropCall_def Let_def table_inv_def)

lemma session_inv_count:
  "session_inv lib s \<Longrightarrow> session_inv lib (s\<lparr>SignalingPacketsReceived := a, SignalingBytesReceived := b\<rparr>)"
  by (simp add: session_inv_def)

lemma table_receive: "table_inv lib e \<Longrightarrow> table_inv lib (snd (ReceiveSignalingData deliver i data e))"
proof (cases "i \<le> 0 \<or> data = [] \<or> m_calls e i = None")
  case True
  assume "table_inv lib e"
  then show ?thesis using True by (auto simp: ReceiveSignalingData_def)
next
  case False
  assume t: "table_inv lib e"
  obtain s where s: "m_calls e i = Some s" using False by auto
  let ?s = "s\<lparr>SignalingPacketsReceived := SignalingPacketsReceived s + 1,
     SignalingBytesReceived := SignalingBytesReceived s + of_nat (length data)\<rparr>"
  have i: "0 < i" "CallId ?s = i" "session_inv lib ?s" using table_get [OF t s] session_inv_count by auto
  note p = table_put [OF t i(1)]
  have "table_inv lib (e\<lparr>m_calls := (m_calls e)(i \<mapsto> ?s)\<rparr>)"
    "table_inv lib (e\<lparr>m_calls := (m_calls e)(i \<mapsto> QueuePendingSignaling data ?s)\<rparr>)"
    using p [OF i(2,3)] p [OF _ session_inv_queue [OF i(3)], of data] i(2) by (simp_all add: CallId_queue)
  then show ?thesis using False s by (simp add: ReceiveSignalingData_def Let_def)
qed

lemma table_event: "table_inv lib e \<Longrightarrow> table_inv lib (call_handle ev e)"
  by (cases ev) (simp_all add: table_drop table_receive)

lemma table_events: "table_inv lib e \<Longrightarrow> table_inv lib (fold call_handle es e)"
  by (induction es arbitrary: e) (simp_all add: table_event)

lemma length_Compute [simp]: "length (ComputePublic B g a p) = 256" "length (ComputeShared B q a p) = 256"
  by (simp_all add: ComputePublic_def ComputeShared_def kDhBytes_def)

lemma length_pick [simp]: "length (PickPrivateExponent B rnd p) = 256"
proof -
  have "length (pick_loop B p rs) = 256" for rs
    by (induction rs) (simp_all add: Let_def kDhBytes_def)
  then show ?thesis by (simp add: PickPrivateExponent_def)
qed

lemma session_inv_half:
  assumes "session_inv lib s" and "length p = 256"
  shows "session_inv lib (s\<lparr>dh_G := g, dh_P := p, Incoming := inc, PrivateValue := PickPrivateExponent B rnd p,
     PublicValue := ComputePublic B g a p, PublicHash := Sha256Bytes (lib_sha256 lib) (ComputePublic B g a p)\<rparr>)"
  using assms by (simp add: session_inv_def)

lemma session_inv_shared: "session_inv lib s \<Longrightarrow> session_inv lib (with_shared_key lib peer s)"
  by (simp add: session_inv_def with_shared_key_def Let_def)

lemma CallId_shared [simp]: "CallId (with_shared_key lib peer s) = CallId s"
  by (simp add: with_shared_key_def Let_def)

lemma config_length: "ValidateDhConfig B g p = None \<Longrightarrow> length p = 256"
  by (simp add: ValidateDhConfig_def kDhBytes_def split: if_splits)

lemma table_create_outgoing:
  assumes "table_inv lib e"
  shows "table_inv lib (snd (CreateOutgoingDh lib rnd r g p e))"
proof (cases "ValidateDhConfig (lib_bn lib) g p")
  case None
  let ?a = "PickPrivateExponent (lib_bn lib) rnd p"
  have "session_inv lib (DhSession_default\<lparr>RandomId := r, CallId := 0, dh_G := g, Incoming := False, dh_P := p,
      PrivateValue := ?a, PublicValue := ComputePublic (lib_bn lib) g ?a p,
      PublicHash := Sha256Bytes (lib_sha256 lib) (ComputePublic (lib_bn lib) g ?a p)\<rparr>)"
    using config_length [OF None] by (simp add: session_inv_def DhSession_default_def pending_fits_def)
  then show ?thesis
    using assms None by (simp add: CreateOutgoingDh_def Let_def table_inv_def DhSession_default_def)
qed (simp add: CreateOutgoingDh_def assms)

lemma table_bind:
  assumes "table_inv lib e"
  shows "table_inv lib (snd (BindOutgoingCall r i e))"
proof (cases "i \<le> 0 \<or> m_outgoingByRandom e r = None")
  case True
  then show ?thesis using assms by (auto simp: BindOutgoingCall_def)
next
  case False
  then obtain s where s: "m_outgoingByRandom e r = Some s" by auto
  have "session_inv lib (s\<lparr>CallId := i\<rparr>)" using table_out [OF assms s] by (simp add: session_inv_def)
  then show ?thesis using False s assms by (simp add: BindOutgoingCall_def table_inv_def)
qed

lemma table_register:
  assumes "table_inv lib e"
  shows "table_inv lib (snd (RegisterIncomingGAHash i h e))"
proof (cases "i \<le> 0 \<or> length h \<noteq> 32")
  case True
  then show ?thesis using assms by (auto simp: RegisterIncomingGAHash_def)
next
  case False
  let ?s = "case m_calls e i of Some s \<Rightarrow> s | None \<Rightarrow> DhSession_default"
  have "session_inv lib ?s" using table_get [OF assms] session_inv_default by (simp split: option.split)
  then have "session_inv lib (?s\<lparr>CallId := i, Incoming := True, PeerGAHash := h\<rparr>)"
    using False by (simp add: session_inv_def)
  then show ?thesis
    using False table_put [OF assms, of i "?s\<lparr>CallId := i, Incoming := True, PeerGAHash := h\<rparr>"]
    by (simp add: RegisterIncomingGAHash_def Let_def)
qed

lemma table_create_incoming:
  assumes "table_inv lib e"
  shows "table_inv lib (snd (CreateIncomingDh lib rnd mid i g p e))"
proof (cases "ValidateDhConfig (lib_bn lib) g p = None \<and> m_calls e i \<noteq> None")
  case False
  then show ?thesis using assms by (auto simp: CreateIncomingDh_def split: option.split)
next
  case True
  then obtain s where s: "m_calls e i = Some s" by auto
  let ?a = "PickPrivateExponent (lib_bn lib) rnd p"
  let ?s = "s\<lparr>dh_G := g, dh_P := p, Incoming := True, PrivateValue := ?a, PublicValue := ComputePublic (lib_bn lib) g ?a p,
     PublicHash := Sha256Bytes (lib_sha256 lib) (ComputePublic (lib_bn lib) g ?a p)\<rparr>"
  have "0 < i" "CallId ?s = i" "session_inv lib ?s"
    using table_get [OF assms s] session_inv_half config_length True by auto
  then have "table_inv lib ((fold call_handle mid e)\<lparr>m_calls := (m_calls (fold call_handle mid e))(i \<mapsto> ?s)\<rparr>)"
    by (rule table_put [OF table_events [OF assms]])
  then show ?thesis using True s assms by (simp add: CreateIncomingDh_def Let_def)
qed

lemma table_shared:
  assumes "table_inv lib e" and "m_calls e i = Some s"
  shows "table_inv lib ((fold call_handle mid e)\<lparr>m_calls := (m_calls (fold call_handle mid e))(i \<mapsto> with_shared_key lib peer s)\<rparr>)"
  using table_get [OF assms] by (intro table_put [OF table_events [OF assms(1)]]) (simp_all add: session_inv_shared)

lemma table_accept:
  assumes "table_inv lib e"
  shows "table_inv lib (snd (AcceptPeerGB lib mid i gB e))"
proof (cases "m_calls e i")
  case (Some s)
  then show ?thesis using assms table_shared [OF assms Some, of mid gB]
    by (simp add: AcceptPeerGB_def Let_def split: option.split)
qed (simp add: AcceptPeerGB_def assms)

lemma table_confirm:
  assumes "table_inv lib e"
  shows "table_inv lib (snd (ConfirmPeerGAOrB lib mid i gA fp e))"
proof (cases "m_calls e i")
  case (Some s)
  then show ?thesis using assms table_shared [OF assms Some, of mid gA]
    by (simp add: ConfirmPeerGAOrB_def Let_def split: option.split)
qed (simp add: ConfirmPeerGAOrB_def assms)

lemma call_table_step: "table_inv lib e \<Longrightarrow> table_inv lib (call_step lib e oper)"
  by (cases oper)
    (simp_all add: table_create_outgoing table_bind table_register table_create_incoming table_accept table_confirm table_event)

lemma table_start: "table_inv lib no_calls"
  by (simp add: table_inv_def no_calls_def)

interpretation calls: reactive "call_step lib" "table_inv lib" no_calls for lib
  by unfold_locales (simp_all add: table_start call_table_step)

lemma session_facts:
  "session_inv lib s \<Longrightarrow> (SharedReady s \<longleftrightarrow> length (SharedKey s) = 256) \<and> (\<not> SharedReady s \<longrightarrow> SharedKey s = [])
     \<and> (SharedReady s \<longrightarrow> KeyFingerprint s = FingerprintForKey (lib_sha1 lib) (SharedKey s))
     \<and> (PeerGAHash s = [] \<or> length (PeerGAHash s) = 32)
     \<and> length (PendingSignalingPackets s) \<le> 128 \<and> PendingSignalingBytes s \<le> 524288"
  by (cases "SharedReady s")
    (simp_all add: session_inv_def pending_fits_def PendingSignalingBytes_def kMaxPendingSignalingPackets_def
      kMaxPendingSignalingBytes_def)

text \<open>
  Claim C24: after any sequence of operations, with any events between their critical sections, every
  call in the table has a positive id that is its key; its key is ready exactly when 256 bytes of key
  are stored, and the fingerprint is the one of that key; a committed hash has 32 bytes; at most 128
  signaling packets and 512 KiB wait for the media; and no call not yet bound has a key.
\<close>

theorem call_table_invariant:
  assumes "e = run_steps (call_step lib) no_calls opers"
  shows "(\<forall>i s. m_calls e i = Some s \<longrightarrow> 0 < i \<and> CallId s = i
      \<and> (SharedReady s \<longleftrightarrow> length (SharedKey s) = 256) \<and> (\<not> SharedReady s \<longrightarrow> SharedKey s = [])
      \<and> (SharedReady s \<longrightarrow> KeyFingerprint s = FingerprintForKey (lib_sha1 lib) (SharedKey s))
      \<and> (PeerGAHash s = [] \<or> length (PeerGAHash s) = 32)
      \<and> length (PendingSignalingPackets s) \<le> 128 \<and> PendingSignalingBytes s \<le> 524288)
    \<and> (\<forall>r s. m_outgoingByRandom e r = Some s \<longrightarrow> RandomId s = r \<and> SharedKey s = [])"
proof -
  have t: "table_inv lib e" unfolding assms by (rule calls.inv_run)
  have "0 < i \<and> CallId s = i
      \<and> (SharedReady s \<longleftrightarrow> length (SharedKey s) = 256) \<and> (\<not> SharedReady s \<longrightarrow> SharedKey s = [])
      \<and> (SharedReady s \<longrightarrow> KeyFingerprint s = FingerprintForKey (lib_sha1 lib) (SharedKey s))
      \<and> (PeerGAHash s = [] \<or> length (PeerGAHash s) = 32)
      \<and> length (PendingSignalingPackets s) \<le> 128 \<and> PendingSignalingBytes s \<le> 524288"
    if "m_calls e i = Some s" for i s
    using table_get [OF t that] session_facts by blast
  moreover have "RandomId s = r \<and> SharedKey s = []" if "m_outgoingByRandom e r = Some s" for r s
    using t that by (auto simp: table_inv_def session_inv_def)
  ultimately show ?thesis by blast
qed

theorem call_table_invariant_witness:
  "\<exists>s. m_calls (run_steps (call_step sample_lib) no_calls
       [OpRegister 42 (replicate 32 1), OpEvent (Signaling (\<lambda>_. VoipError_Ok) 42 [5])]) 42 = Some s
     \<and> CallId s = 42 \<and> SharedKey s = []"
proof -
  let ?ops = "[OpRegister 42 (replicate 32 1), OpEvent (Signaling (\<lambda>_. VoipError_Ok) 42 [5])]"
  have "\<exists>s. m_calls (run_steps (call_step sample_lib) no_calls ?ops) 42 = Some s"
    by (simp add: RegisterIncomingGAHash_def ReceiveSignalingData_def no_calls_def Let_def)
  then obtain s where s: "m_calls (run_steps (call_step sample_lib) no_calls ?ops) 42 = Some s" by blast
  moreover have "CallId s = 42 \<and> (\<not> SharedReady s \<longrightarrow> SharedKey s = [])"
    using call_table_invariant [OF refl, of sample_lib ?ops] s by blast
  moreover have "\<not> SharedReady s"
  proof -
    have "trim_pending q = q" if "length (PendingSignalingPackets q) \<le> 1" "PendingSignalingBytes q \<le> 1" for q
      using that by (subst trim_pending.simps)
        (simp add: kMaxPendingSignalingPackets_def kMaxPendingSignalingBytes_def)
    then show ?thesis
      using s by (auto simp: RegisterIncomingGAHash_def ReceiveSignalingData_def no_calls_def Let_def
          DhSession_default_def QueuePendingSignaling_def PendingSignalingBytes_def)
  qed
  ultimately show ?thesis by blast
qed

end
