(* ===== verification/EngineRouting.thy ===== *)
theory EngineRouting
  imports KeyExchange "HOL-Library.Multiset"
begin

text \<open>
  Choosing the path of a call in \<open>application/voip_engine.cpp\<close>: the order in which the endpoints of a
  call are tried, and whether the call uses the classic relay protocol or the tgcalls media plane; with
  the labels that go into the error messages.
\<close>

unbundle bit_operations_syntax

section \<open>Endpoints\<close>

definition EndpointHasIpv4 :: "VoipEndpoint \<Rightarrow> bool" where
  "EndpointHasIpv4 endpoint \<longleftrightarrow> Ip endpoint \<noteq> []"

definition EndpointAddress :: "VoipEndpoint \<Rightarrow> string" where
  "EndpointAddress endpoint = (if Ip endpoint = [] then Ipv6 endpoint else Ip endpoint)"

fun show_hex :: "nat \<Rightarrow> string" where
  "show_hex n = (if n < 16 then [hex_digit n] else show_hex (n div 16) @ [hex_digit (n mod 16)])"

declare show_hex.simps [simp del]

text \<open>The identifier is printed as an unsigned 64-bit number.\<close>

definition EndpointLabel :: "VoipEndpoint \<Rightarrow> string" where
  "EndpointLabel endpoint = ''0x'' @ show_hex (unat (of_int (Id endpoint) :: u64)) @ ''@'' @ EndpointAddress endpoint @
     '':'' @ show_int (VoipEndpoint.Port endpoint)"

definition IsClassicProbableEndpoint :: "VoipEndpoint \<Rightarrow> bool" where
  "IsClassicProbableEndpoint endpoint \<longleftrightarrow>
     VoipEndpoint.Port endpoint > 0 \<and> VoipEndpoint.Port endpoint \<le> 65535 \<and>
     (Ip endpoint \<noteq> [] \<or> Ipv6 endpoint \<noteq> []) \<and> VoipEndpoint.PeerTag endpoint \<noteq> []"

definition EndpointKindLabel :: "VoipEndpoint \<Rightarrow> string" where
  "EndpointKindLabel endpoint = (if IsWebRtc endpoint then ''WebRtc'' else ''Reflector'')"

text \<open>The three passes over the list.\<close>

fun push_if :: "('a \<Rightarrow> bool) \<Rightarrow> 'a list \<Rightarrow> 'a list \<Rightarrow> 'a list" where
  "push_if P ordered [] = ordered"
| "push_if P ordered (e # es) = push_if P (if P e then ordered @ [e] else ordered) es"

definition OrderedReflectorEndpoints :: "VoipEndpoint list \<Rightarrow> VoipEndpoint list" where
  "OrderedReflectorEndpoints endpoints =
     (let ordered = push_if (\<lambda>e. IsUsableReflectorEndpoint e \<and> EndpointHasIpv4 e) [] endpoints;
          ordered = push_if (\<lambda>e. IsUsableReflectorEndpoint e \<and> \<not> EndpointHasIpv4 e) ordered endpoints;
          ordered = push_if (\<lambda>e. IsWebRtc e \<and> IsClassicProbableEndpoint e \<and> VoipEndpoint.PeerTag e \<noteq> []) ordered endpoints
      in ordered)"

definition HasWebRtcEndpoint :: "VoipEndpoint list \<Rightarrow> bool" where
  "HasWebRtcEndpoint endpoints \<longleftrightarrow> list_ex IsWebRtc endpoints"

definition QueryIdForCall :: "int \<Rightarrow> u64" where
  "QueryIdForCall callId = (let x = of_int callId :: u64 in push_bit 1 x XOR 0x5A17C011BADC0DE)"

definition WithEndpoint :: "VoipError \<Rightarrow> VoipEndpoint \<Rightarrow> string \<Rightarrow> VoipError" where
  "WithEndpoint error endpoint prefix =
     (if VoipError_IsOk error then error
      else VoipError_Of (Kind error) (Code error) (prefix @ '' endpoint='' @ EndpointLabel endpoint @ '': '' @ Message error))"


section \<open>The descriptor of a call\<close>

record VoipCallStartDescriptor =
  vd_CallId :: int
  vd_IsInitiator :: bool
  vd_UdpReflector :: bool
  vd_MinLayer :: int
  vd_MaxLayer :: int
  vd_LibraryVersions :: "string list"
  vd_KeyHandle :: string
  vd_Endpoints :: "VoipEndpoint list"
  vd_CallConfigJson :: string

fun join_versions :: "string list \<Rightarrow> string" where
  "join_versions [] = []"
| "join_versions [v] = v"
| "join_versions (v # vs) = v @ '','' @ join_versions vs"

definition JoinLibraryVersions :: "string list \<Rightarrow> string" where
  "JoinLibraryVersions versions = (if versions = [] then ''none'' else join_versions versions)"

definition SelectedLibraryVersion :: "VoipCallStartDescriptor \<Rightarrow> string" where
  "SelectedLibraryVersion d = (case vd_LibraryVersions d of [] \<Rightarrow> ''classic-default'' | v # vs \<Rightarrow> v)"

text \<open>One pass of the loop, on the pair (\<open>sawAnyVersion\<close>, \<open>sawNonClassic\<close>).\<close>

definition see_version :: "bool \<times> bool \<Rightarrow> string \<Rightarrow> bool \<times> bool" where
  "see_version acc v =
     (case (acc, v) of
        ((sawAny, sawNonClassic), []) \<Rightarrow> (sawAny, sawNonClassic)
      | ((sawAny, sawNonClassic), first # rest) \<Rightarrow>
          (True,
           if first = CHR ''8'' \<or> first = CHR ''9'' then True
           else if first = CHR ''1'' \<and> length v \<ge> 2 \<and> rest ! 0 \<in> {CHR ''0'', CHR ''1'', CHR ''2'', CHR ''3''} then True
           else sawNonClassic))"

definition IsClassicReflectorDescriptor :: "VoipCallStartDescriptor \<Rightarrow> bool" where
  "IsClassicReflectorDescriptor d =
     (let (sawAnyVersion, sawNonClassic) = foldl see_version (False, False) (vd_LibraryVersions d);
          kClassicMaxLayer = 92
      in if sawAnyVersion then \<not> sawNonClassic
         else if vd_MaxLayer d \<noteq> 0 \<and> vd_MaxLayer d \<le> kClassicMaxLayer then True
         else if vd_MinLayer d \<noteq> 0 \<and> vd_MinLayer d \<le> kClassicMaxLayer \<and> vd_MaxLayer d = 0 then True
         else True)"

text \<open>The overload that takes the parts of a classic call.\<close>

definition classic_descriptor :: "int \<Rightarrow> string \<Rightarrow> VoipEndpoint list \<Rightarrow> VoipCallStartDescriptor" where
  "classic_descriptor callId keyHandle endpoints =
     \<lparr>vd_CallId = callId, vd_IsInitiator = False, vd_UdpReflector = True, vd_MinLayer = 92, vd_MaxLayer = 92,
      vd_LibraryVersions = [''2.4.4''], vd_KeyHandle = keyHandle, vd_Endpoints = endpoints, vd_CallConfigJson = []\<rparr>"


section \<open>The order of the candidates\<close>

lemma push_if_filter: "push_if P xs es = xs @ filter P es"
  by (induction es arbitrary: xs) auto

lemma Ordered_filter:
  "OrderedReflectorEndpoints es = filter (\<lambda>e. IsUsableReflectorEndpoint e \<and> EndpointHasIpv4 e) es @
     filter (\<lambda>e. IsUsableReflectorEndpoint e \<and> \<not> EndpointHasIpv4 e) es @
     filter (\<lambda>e. IsWebRtc e \<and> IsClassicProbableEndpoint e) es"
  by (simp add: OrderedReflectorEndpoints_def push_if_filter IsClassicProbableEndpoint_def conj_ac cong: conj_cong)

text \<open>The class of a candidate.\<close>

definition rank :: "VoipEndpoint \<Rightarrow> nat" where
  "rank e = (if IsWebRtc e then 2 else if EndpointHasIpv4 e then 0 else 1)"

definition candidate :: "VoipEndpoint \<Rightarrow> bool" where
  "candidate e \<longleftrightarrow> VoipEndpoint.Port e > 0 \<and> VoipEndpoint.Port e \<le> 65535 \<and> HasAddress e \<and> VoipEndpoint.PeerTag e \<noteq> []"

lemma candidate_classes:
  "IsUsableReflectorEndpoint e \<longleftrightarrow> candidate e \<and> \<not> IsWebRtc e"
  "IsWebRtc e \<and> IsClassicProbableEndpoint e \<longleftrightarrow> candidate e \<and> IsWebRtc e"
  by (auto simp: IsUsableReflectorEndpoint_def candidate_def IsClassicProbableEndpoint_def HasAddress_def)

lemma Ordered_rank:
  "OrderedReflectorEndpoints es = filter (\<lambda>e. candidate e \<and> rank e = 0) es @
     filter (\<lambda>e. candidate e \<and> rank e = 1) es @ filter (\<lambda>e. candidate e \<and> rank e = 2) es"
  unfolding Ordered_filter candidate_classes rank_def by (auto intro!: filter_cong arg_cong2 [where f = append])

lemma find_first: "find P es = Some x \<Longrightarrow> \<exists>ys. filter P es = x # ys"
  by (induction es) (auto split: if_splits)

lemma sorted_same_rank: "sorted (map rank (filter (\<lambda>e. candidate e \<and> rank e = k) es))"
  by (induction es) auto

lemma filter_rank: "filter (\<lambda>e. rank e = r) (filter (\<lambda>e. candidate e \<and> rank e = k) es) =
    (if k = r then filter (\<lambda>e. candidate e \<and> rank e = r) es else [])"
  by (induction es) auto

text \<open>
  The endpoints of a call are tried in a fixed order that loses none. The candidates are exactly
  the endpoints with a port, an address and a peer tag, each as often as it is listed; classic reflectors
  with IPv4 come first, then those with IPv6 only, then WebRTC endpoints, each class in its listed order.
  The first one is the endpoint the selector picks, when the selector finds one.
\<close>

theorem ordered_endpoints_spec:
  "mset (OrderedReflectorEndpoints es) = filter_mset candidate (mset es) \<and>
   sorted (map rank (OrderedReflectorEndpoints es)) \<and>
   filter (\<lambda>e. rank e = r) (OrderedReflectorEndpoints es) = filter (\<lambda>e. candidate e \<and> rank e = r) es \<and>
   (case SelectReflector es of
      Inr e \<Rightarrow> take 1 (OrderedReflectorEndpoints es) = [e]
    | Inl _ \<Rightarrow> filter (\<lambda>e. \<not> IsWebRtc e) (OrderedReflectorEndpoints es) = [])"
proof (intro conjI)
  have r: "rank e = 0 \<or> rank e = 1 \<or> rank e = 2" for e by (simp add: rank_def)
  show "mset (OrderedReflectorEndpoints es) = filter_mset candidate (mset es)"
    unfolding Ordered_rank
  proof (induction es)
    case (Cons a es)
    then show ?case using r [of a] by auto
  qed simp
  show "sorted (map rank (OrderedReflectorEndpoints es))"
    unfolding Ordered_rank by (auto simp: sorted_append sorted_same_rank simp del: One_nat_def)
  show "filter (\<lambda>e. rank e = r) (OrderedReflectorEndpoints es) = filter (\<lambda>e. candidate e \<and> rank e = r) es"
  proof -
    have "filter (\<lambda>e. candidate e \<and> rank e = r) es = []" if "r \<noteq> 0" "r \<noteq> 1" "r \<noteq> 2"
      using that r by (metis (mono_tags, lifting) filter_False)
    then show ?thesis unfolding Ordered_rank filter_append filter_rank by auto
  qed
  show "case SelectReflector es of
      Inr e \<Rightarrow> take 1 (OrderedReflectorEndpoints es) = [e]
    | Inl _ \<Rightarrow> filter (\<lambda>e. \<not> IsWebRtc e) (OrderedReflectorEndpoints es) = []"
  proof (cases "SelectReflector es")
    case (Inl m)
    have "filter IsUsableReflectorEndpoint es = []"
      using Inl unfolding SelectReflector_def
      by (auto split: if_splits option.splits simp: find_None_iff filter_empty_conv)
    then show ?thesis by (auto simp: Inl Ordered_filter filter_empty_conv)
  next
    case (Inr e)
    have H: "HasIpv4 = EndpointHasIpv4" by (rule ext) (simp add: HasIpv4_def EndpointHasIpv4_def)
    have ne: "es \<noteq> []" using Inr by (auto simp: SelectReflector_def)
    show ?thesis
    proof (cases "find (\<lambda>e. IsUsableReflectorEndpoint e \<and> HasIpv4 e) es")
      case (Some x)
      then have "x = e" using Inr ne by (simp add: SelectReflector_def)
      moreover from Some obtain ys where "filter (\<lambda>e. IsUsableReflectorEndpoint e \<and> EndpointHasIpv4 e) es = x # ys"
        using find_first [of "\<lambda>e. IsUsableReflectorEndpoint e \<and> EndpointHasIpv4 e"] unfolding H by blast
      ultimately show ?thesis by (simp add: Inr Ordered_filter)
    next
      case None
      then have "find IsUsableReflectorEndpoint es = Some e" using Inr ne
        by (auto simp: SelectReflector_def split: option.splits)
      then obtain ys where "filter IsUsableReflectorEndpoint es = e # ys" using find_first [of IsUsableReflectorEndpoint es e] by auto
      moreover have no4: "filter (\<lambda>e. IsUsableReflectorEndpoint e \<and> EndpointHasIpv4 e) es = []"
        using None by (auto simp: find_None_iff filter_empty_conv H)
      moreover have "filter (\<lambda>e. IsUsableReflectorEndpoint e \<and> \<not> EndpointHasIpv4 e) es = filter IsUsableReflectorEndpoint es"
        using no4 by (auto simp: filter_empty_conv intro!: filter_cong)
      ultimately show ?thesis by (simp add: Inr Ordered_filter)
    qed
  qed
qed


section \<open>Classic or tgcalls\<close>

definition modern :: "string \<Rightarrow> bool" where
  "modern v \<longleftrightarrow> take 1 v \<in> {''8'', ''9''} \<or> take 2 v \<in> {''10'', ''11'', ''12'', ''13''}"

lemma see_version_eq:
  "see_version (a, m) v = (a \<or> v \<noteq> [], m \<or> modern v)"
proof (cases v)
  case (Cons c rest)
  then show ?thesis by (cases rest) (auto simp: see_version_def modern_def)
qed (simp add: see_version_def modern_def)

lemma foldl_see_version:
  "foldl see_version (a, m) vs = (a \<or> list_ex (\<lambda>v. v \<noteq> []) vs, m \<or> list_ex modern vs)"
  by (induction vs arbitrary: a m) (auto simp: see_version_eq)

text \<open>
  The negotiated versions alone decide the path. A call is classic exactly when no version in the
  list begins with 8 or 9 or with 10 to 13, whatever its layers and endpoints are; so a version 14, later
  than every version the code calls modern, sends a call down the classic path.
\<close>

theorem classic_descriptor_spec:
  "(IsClassicReflectorDescriptor d \<longleftrightarrow> list_all (\<lambda>v. \<not> modern v) (vd_LibraryVersions d)) \<and>
   IsClassicReflectorDescriptor (d\<lparr>vd_LibraryVersions := [''14.0.0'']\<rparr>) \<and>
   \<not> IsClassicReflectorDescriptor (d\<lparr>vd_LibraryVersions := [''2.4.4'', ''9.0.0'']\<rparr>)"
proof -
  have e: "\<not> list_ex modern vs" if "\<not> list_ex (\<lambda>v. v \<noteq> []) vs" for vs
    using that by (auto simp: list_ex_iff modern_def)
  have *: "IsClassicReflectorDescriptor d \<longleftrightarrow> \<not> list_ex modern (vd_LibraryVersions d)" for d
    using e [of "vd_LibraryVersions d"]
    by (auto simp: IsClassicReflectorDescriptor_def foldl_see_version Let_def)
  show ?thesis unfolding * by (simp add: list_all_iff list_ex_iff modern_def)
qed

end
