(* ===== verification/VoipEngine.thy ===== *)
theory VoipEngine
  imports ControlHandshake EngineRouting MediaSession
begin

text \<open>
  The engine object of \<open>application/voip_engine.cpp\<close>: the call table extended by the media session and the
  active relay context, with starting and stopping the media, the switches and the snapshot. What the
  transport, the audio factory and the tgcalls side answer is the environment. \<open>None\<close> stands for a
  handshake that has not ended within the turns it is given.
\<close>

section \<open>State and environment\<close>

record VoipEngine = CallTable +
  ve_transport :: bool
  ve_audioFactory :: bool
  ve_mediaSession :: VoipMediaSession
  ve_activeMedia :: "VoipActiveMediaContext option"

text \<open>What a candidate endpoint meets: is a socket created, does it open, and how the handshake goes.\<close>

record candidate_env =
  ce_socket :: bool
  ce_open :: "string option"
  ce_warm :: "string option \<times> string option"
  ce_t0 :: int
  ce_t1 :: int
  ce_turns :: "hs_turn list"

record audio_env =
  ae_device :: bool
  ae_open :: "string option"
  ae_codec :: bool
  ae_init :: int
  ae_ready :: bool

text \<open>The in-process connection or the media graph: starting it, and handing it signaling data.\<close>

record tgcalls_env =
  te_start :: VoipError
  te_deliver :: "bytes \<Rightarrow> VoipError"

definition kUnavailableReason :: string where
  "kUnavailableReason = ''VianiumVoIP call key exchange, UDP reflector probing, encrypted VoIP control packets, and native Opus codec are available; '' @
     ''audio capture/playback and acoustic echo cancellation are not enabled in this build''"

definition Capability :: "bool \<Rightarrow> string \<Rightarrow> VoipEngine \<Rightarrow> VoipCapability" where
  "Capability available reason e =
     (if \<not> ve_transport e \<or> \<not> ve_audioFactory e then capability_key_exchange_only kUnavailableReason
      else if \<not> available then capability_key_exchange_only (if reason = [] then kUnavailableReason else reason)
      else capability_media_ready)"


section \<open>The candidates of the classic path\<close>

record probe_state =
  ps_session :: VoipMediaSession
  ps_lastError :: VoipError
  ps_errors :: "string list"
  ps_classicTotal :: nat
  ps_classicResponded :: nat
  ps_webrtcTotal :: nat
  ps_webrtcResponded :: nat
  ps_classicSelfInfo :: nat

definition probe_start :: "VoipMediaSession \<Rightarrow> probe_state" where
  "probe_start s = \<lparr>ps_session = s,
     ps_lastError = TransportError ''no Telegram reflector endpoint completed VoIP control handshake'', ps_errors = [],
     ps_classicTotal = 0, ps_classicResponded = 0, ps_webrtcTotal = 0, ps_webrtcResponded = 0, ps_classicSelfInfo = 0\<rparr>"

definition probe_failed :: "VoipError \<Rightarrow> probe_state \<Rightarrow> probe_state" where
  "probe_failed err s = s\<lparr>ps_lastError := err, ps_errors := ps_errors s @ [Message err], ps_session := ms_Stop (ps_session s)\<rparr>"

definition probe_stats :: "VoipEndpoint \<Rightarrow> ControlHandshakeOutcome \<Rightarrow> probe_state \<Rightarrow> probe_state" where
  "probe_stats endpoint h s =
     (let s = (if co_PacketsReceived h > 0 then
                 (if IsWebRtc endpoint then s\<lparr>ps_webrtcResponded := ps_webrtcResponded s + 1\<rparr>
                  else s\<lparr>ps_classicResponded := ps_classicResponded s + 1\<rparr>)
               else s)
      in if \<not> IsWebRtc endpoint \<and> co_SelfInfoResponses h > 0
         then s\<lparr>ps_classicSelfInfo := ps_classicSelfInfo s + 1\<rparr> else s)"

definition probe_count :: "VoipEndpoint \<Rightarrow> probe_state \<Rightarrow> probe_state" where
  "probe_count endpoint s =
     (if IsWebRtc endpoint then s\<lparr>ps_webrtcTotal := ps_webrtcTotal s + 1\<rparr>
      else s\<lparr>ps_classicTotal := ps_classicTotal s + 1\<rparr>)"

definition handshake_conf :: "RelayCrypto \<Rightarrow> int \<Rightarrow> DhSession \<Rightarrow> VoipEndpoint \<Rightarrow> hs_conf" where
  "handshake_conf rc callId session endpoint =
     \<lparr>hc_crypto = rc, hc_tag = VoipEndpoint.PeerTag endpoint, hc_query = QueryIdForCall callId,
      hc_key = SharedKey session, hc_out = (\<not> Incoming session)\<rparr>"

text \<open>One candidate: the next state of the search, and the handshake if it succeeded.\<close>

definition probe_candidate ::
    "RelayCrypto \<Rightarrow> int \<Rightarrow> string \<Rightarrow> DhSession \<Rightarrow> VoipEndpoint \<Rightarrow> candidate_env \<Rightarrow> probe_state
       \<Rightarrow> (probe_state \<times> hs_state option) option" where
  "probe_candidate rc callId keyHandle session endpoint env s =
     (let s = probe_count endpoint s;
          (prepared, ms) = ms_Prepare (ps_session s) callId keyHandle endpoint;
          s = s\<lparr>ps_session := ms\<rparr>
      in if \<not> VoipError_IsOk prepared then
           Some (probe_failed (WithEndpoint prepared endpoint ''VoIP media session prepare failed'') s, None)
         else
           (let (connecting, ms) = ms_MarkConnecting (ps_session s);
                s = s\<lparr>ps_session := ms\<rparr>
            in if \<not> VoipError_IsOk connecting then
                 Some (probe_failed (WithEndpoint connecting endpoint ''VoIP media session connecting failed'') s, None)
               else if \<not> ce_socket env then
                 Some (probe_failed (VoipError_Of TransportFailed 0 (''endpoint='' @ EndpointLabel endpoint @
                   '': VoIP reflector transport did not create a datagram session'')) s, None)
               else case ce_open env of
                 Some err \<Rightarrow>
                   Some (probe_failed (VoipError_Of TransportFailed 0 (''endpoint='' @ EndpointLabel endpoint @ '': '' @ err)) s, None)
               | None \<Rightarrow>
                   (case RunControlHandshake (handshake_conf rc callId session endpoint) (ce_warm env) (ce_t0 env) (ce_t1 env)
                           (ce_turns env) (NextLocalSequence session) (LastRemoteSequence session) of
                      (False, h) \<Rightarrow> None
                    | (True, h) \<Rightarrow>
                        (let oc = hs_outcome h; s = probe_stats endpoint oc s
                         in if \<not> VoipError_IsOk (co_Error oc) then
                              Some (probe_failed (VoipError_Of (Kind (co_Error oc)) (Code (co_Error oc))
                                (''endpoint='' @ EndpointLabel endpoint @ '' kind='' @ EndpointKindLabel endpoint @ '': '' @
                                 Message (co_Error oc))) s, None)
                            else
                              Some (s\<lparr>ps_session := ms_RecordHandshake (ps_session s) (co_PacketsSent oc) (co_PacketsReceived oc)
                                       (co_BytesSent oc) (co_BytesReceived oc) (co_RttMs oc)\<rparr>, Some h)))))"

fun probe_candidates ::
    "RelayCrypto \<Rightarrow> int \<Rightarrow> string \<Rightarrow> DhSession \<Rightarrow> (VoipEndpoint \<times> candidate_env) list \<Rightarrow> probe_state
       \<Rightarrow> (probe_state \<times> (VoipEndpoint \<times> hs_state) option) option" where
  "probe_candidates rc callId keyHandle session [] s = Some (s, None)"
| "probe_candidates rc callId keyHandle session ((endpoint, env) # rest) s =
     (case probe_candidate rc callId keyHandle session endpoint env s of
        None \<Rightarrow> None
      | Some (s, Some h) \<Rightarrow> Some (s, Some (endpoint, h))
      | Some (s, None) \<Rightarrow> probe_candidates rc callId keyHandle session rest s)"


section \<open>Starting the media\<close>

text \<open>The failure when no candidate answered; the counters of the call are read again.\<close>

definition probe_hint :: "u32 \<Rightarrow> probe_state \<Rightarrow> string" where
  "probe_hint liveSignalingCount s =
     (if liveSignalingCount > 0 then ''peerLikelyTgcalls''
      else if ps_classicTotal s > 0 \<and> ps_classicSelfInfo s = 0 then ''networkBlocked''
      else ''peerOffline'')"

definition probe_failure :: "nat \<Rightarrow> u32 \<Rightarrow> probe_state \<Rightarrow> VoipError" where
  "probe_failure candidates liveSignalingCount s =
     (if ps_errors s \<noteq> [] then
        VoipError_Of HandshakeTimeout 0
          (''VoIP control handshake timed out across '' @ show_nat candidates @ '' endpoint(s)'' @
           '' (classic='' @ show_nat (ps_classicTotal s) @ '', webrtc='' @ show_nat (ps_webrtcTotal s) @ '')'' @
           ''; classicResponded='' @ show_nat (ps_classicResponded s) @ ''/'' @ show_nat (ps_classicTotal s) @
           ''; webrtcResponded='' @ show_nat (ps_webrtcResponded s) @ ''/'' @ show_nat (ps_webrtcTotal s) @
           ''; signalingPacketsReceived='' @ show_u32 liveSignalingCount @
           ''; hint='' @ probe_hint liveSignalingCount s)
      else ps_lastError s)"

text \<open>Opening the audio and the codec once an endpoint is selected; the result is the error, if any.\<close>

definition open_audio :: "audio_env \<Rightarrow> VoipError option" where
  "open_audio env =
     (if \<not> ae_device env then Some (VoipError_Of AudioDeviceFailed 0 ''VoIP audio device factory returned null'')
      else case ae_open env of
        Some err \<Rightarrow> Some (VoipError_Of AudioDeviceFailed 0 err)
      | None \<Rightarrow>
          if \<not> ae_codec env then Some (VoipError_Of CodecFailed 0 ''VoIP audio codec factory returned null'')
          else if ae_init env \<noteq> 0 \<or> \<not> ae_ready env then
            Some (VoipError_Of CodecFailed (ae_init env) (''Opus VoIP codec init failed code='' @ show_int (ae_init env)))
          else None)"

definition start_classic ::
    "RelayCrypto \<Rightarrow> (nat \<Rightarrow> candidate_env) \<Rightarrow> call_event list \<Rightarrow> audio_env \<Rightarrow> VoipCallStartDescriptor \<Rightarrow> DhSession
       \<Rightarrow> VoipEngine \<Rightarrow> (VoipError \<times> VoipEngine) option" where
  "start_classic rc env mid audio d session e =
     (let candidates = OrderedReflectorEndpoints (vd_Endpoints d); callId = vd_CallId d
      in if candidates = [] then
           Some (VoipError_Of TransportFailed 0 (case SelectReflector (vd_Endpoints d) of Inl reason \<Rightarrow> reason | Inr _ \<Rightarrow> []), e)
         else if \<not> ve_transport e then Some (VoipError_Of TransportFailed 0 ''VoIP reflector transport is unavailable'', e)
         else if \<not> ve_audioFactory e then Some (VoipError_Of Unavailable 0 kUnavailableReason, e)
         else case probe_candidates rc callId (vd_KeyHandle d) session (zip candidates (map env [0..<length candidates]))
                     (probe_start (ve_mediaSession e)) of
           None \<Rightarrow> None
         | Some (s, selected) \<Rightarrow>
             (let e = fold call_handle mid (e\<lparr>ve_mediaSession := ps_session s\<rparr>)
              in case selected of
                None \<Rightarrow>
                  (let live = (case m_calls e callId of Some c \<Rightarrow> SignalingPacketsReceived c
                               | None \<Rightarrow> SignalingPacketsReceived session)
                   in Some (probe_failure (length candidates) live s, e\<lparr>ve_mediaSession := ms_Stop (ve_mediaSession e)\<rparr>))
              | Some (endpoint, h) \<Rightarrow>
                  (case open_audio audio of
                     Some err \<Rightarrow> Some (err, e\<lparr>ve_mediaSession := ms_Stop (ve_mediaSession e)\<rparr>)
                   | None \<Rightarrow>
                       Some (VoipError_Ok, e\<lparr>ve_activeMedia := Some (am_start (SharedKey session)
                         (VoipEndpoint.PeerTag endpoint) (Incoming session) (hs_nextLocal h) (hs_lastRemote h)
                         (VoipError_IsOk (co_Error (hs_outcome h))))\<rparr>))))"

fun deliver_all :: "(bytes \<Rightarrow> VoipError) \<Rightarrow> bytes list \<Rightarrow> VoipError" where
  "deliver_all deliver [] = VoipError_Ok"
| "deliver_all deliver (p # ps) = (let r = deliver p in if VoipError_IsOk r then deliver_all deliver ps else r)"

text \<open>The endpoints a tgcalls connection can use: TURN with credentials, or a reflector with a tag.\<close>

definition tgcalls_reflectors :: "VoipEndpoint list \<Rightarrow> VoipEndpoint list" where
  "tgcalls_reflectors endpoints =
     filter (\<lambda>ep. if IsWebRtc ep then Username ep \<noteq> [] \<and> Password ep \<noteq> [] else length (VoipEndpoint.PeerTag ep) = 16) endpoints"

definition take_pending :: "int \<Rightarrow> VoipEngine \<Rightarrow> bytes list \<times> VoipEngine" where
  "take_pending callId e =
     (case m_calls e callId of
        None \<Rightarrow> ([], e)
      | Some c \<Rightarrow> (PendingSignalingPackets c, e\<lparr>m_calls := (m_calls e)(callId \<mapsto> c\<lparr>PendingSignalingPackets := []\<rparr>)\<rparr>))"

definition start_connection ::
    "tgcalls_env \<Rightarrow> call_event list \<Rightarrow> VoipCallStartDescriptor \<Rightarrow> VoipEngine \<Rightarrow> VoipError \<times> VoipEngine" where
  "start_connection tg mid d e =
     (if \<not> VoipError_IsOk (te_start tg) then (te_start tg, fold call_handle mid e)
      else
        (let (pending, e) = take_pending (vd_CallId d) (fold call_handle mid e);
             e = e\<lparr>m_tgcallsConnection := True, m_tgcallsCallId := vd_CallId d\<rparr>;
             delivered = deliver_all (te_deliver tg) pending
         in if \<not> VoipError_IsOk delivered then (delivered, e\<lparr>m_tgcallsConnection := False, m_tgcallsCallId := 0\<rparr>)
            else (VoipError_Ok, e)))"

text \<open>
  The media graph: what was queued is handed over until the queue is found empty; the lists are the
  events of other threads before each look at the queue. When they are used up no more arrive.
\<close>

fun drain_to_graph :: "(bytes \<Rightarrow> VoipError) \<Rightarrow> int \<Rightarrow> call_event list list \<Rightarrow> VoipEngine \<Rightarrow> VoipError \<times> VoipEngine" where
  "drain_to_graph deliver callId [] e =
     (case m_calls e callId of
        None \<Rightarrow> (Invalid ''call DH state was dropped while starting tgcalls media graph'', e\<lparr>m_tgcallsCallId := 0\<rparr>)
      | Some c \<Rightarrow>
          (let (pending, e) = take_pending callId e; delivered = deliver_all deliver pending
           in if \<not> VoipError_IsOk delivered then
                (delivered, if m_tgcallsCallId e = callId then e\<lparr>m_tgcallsCallId := 0\<rparr> else e)
              else (VoipError_Ok, e\<lparr>m_tgcallsCallId := callId\<rparr>)))"
| "drain_to_graph deliver callId (mid # mids) e =
     (let e = fold call_handle mid e in
      case m_calls e callId of
        None \<Rightarrow> (Invalid ''call DH state was dropped while starting tgcalls media graph'', e\<lparr>m_tgcallsCallId := 0\<rparr>)
      | Some c \<Rightarrow>
          if PendingSignalingPackets c = [] then
            (let e = fold call_handle (concat mids) (e\<lparr>m_tgcallsCallId := callId\<rparr>)
             in if m_tgcallsCallId e = callId then (VoipError_Ok, e)
                else (Invalid ''call DH state was dropped while starting tgcalls media graph'', e))
          else
            (let (pending, e) = take_pending callId e; delivered = deliver_all deliver pending
             in if \<not> VoipError_IsOk delivered then
                  (delivered, if m_tgcallsCallId e = callId then e\<lparr>m_tgcallsCallId := 0\<rparr> else e)
                else drain_to_graph deliver callId mids e))"

definition no_graph_message :: "VoipCallStartDescriptor \<Rightarrow> DhSession \<Rightarrow> string" where
  "no_graph_message d session =
     ''negotiated Telegram VoIP protocol '' @ SelectedLibraryVersion d @
     '' requires the VianiumVoIP native tgcalls/WebRTC media graph'' @
     (if HasWebRtcEndpoint (vd_Endpoints d) then '' (phoneConnectionWebrtc endpoints present)'' else []) @
     (if SignalingPacketsReceived session > 0
      then ''; received '' @ show_u32 (SignalingPacketsReceived session) @ '' signaling packet(s)/'' @
           show_u32 (SignalingBytesReceived session) @ ''B before media start'' else []) @
     (if PendingSignalingPackets session \<noteq> []
      then ''; queued '' @ show_nat (length (PendingSignalingPackets session)) @ '' early signaling packet(s)/'' @
           show_nat (PendingSignalingBytes session) @ ''B for tgcalls startup'' else []) @
     (if SignalingPacketsDropped session > 0
      then ''; dropped '' @ show_u32 (SignalingPacketsDropped session) @
           '' early signaling packet(s) because the native queue limit was reached'' else []) @
     ''; advertised_versions=['' @ JoinLibraryVersions (vd_LibraryVersions d) @ ''] callConfig='' @
     show_nat (length (vd_CallConfigJson d)) @ ''B. No ITgcallsMediaGraph backend is bound in this WP81 build. '' @
     ''Classic reflector fallback is intentionally blocked for this negotiation.''"

definition start_tgcalls ::
    "tgcalls_env \<Rightarrow> call_event list list \<Rightarrow> VoipCallStartDescriptor \<Rightarrow> DhSession \<Rightarrow> VoipEngine \<Rightarrow> VoipError \<times> VoipEngine" where
  "start_tgcalls tg mids d session e =
     (if tgcalls_reflectors (vd_Endpoints d) \<noteq> [] then start_connection tg (concat mids) d e
      else if m_tgcallsGraph e then
        (if \<not> VoipError_IsOk (te_start tg) then (te_start tg, e)
         else drain_to_graph (te_deliver tg) (vd_CallId d) mids e)
      else (VoipError_Of Unavailable 0 (no_graph_message d session), e))"

definition StartMedia ::
    "RelayCrypto \<Rightarrow> (nat \<Rightarrow> candidate_env) \<Rightarrow> audio_env \<Rightarrow> tgcalls_env \<Rightarrow> call_event list list \<Rightarrow> VoipCallStartDescriptor
       \<Rightarrow> VoipEngine \<Rightarrow> (VoipError \<times> VoipEngine) option" where
  "StartMedia rc env audio tg mids d e =
     (if vd_CallId d \<le> 0 then Some (Invalid ''callId must be positive'', e)
      else if vd_KeyHandle d = [] then Some (Invalid ''call key handle is missing'', e)
      else case m_calls e (vd_CallId d) of
        None \<Rightarrow> Some (Invalid ''call shared key is not ready'', e)
      | Some session \<Rightarrow>
          if \<not> SharedReady session then Some (Invalid ''call shared key is not ready'', e)
          else if HandleForCall (vd_CallId d) \<noteq> vd_KeyHandle d then
            Some (Invalid ''call key handle does not belong to this call'', e)
          else if \<not> IsClassicReflectorDescriptor d then Some (start_tgcalls tg mids d session e)
          else start_classic rc env (concat mids) audio d session e)"


section \<open>Stopping and switching\<close>

text \<open>The third component is the context whose loops are asked to end.\<close>

definition StopMedia :: "VoipError \<Rightarrow> VoipEngine \<Rightarrow> VoipError \<times> VoipEngine \<times> VoipActiveMediaContext option" where
  "StopMedia graphStop e =
     (let active = map_option (\<lambda>a. a\<lparr>am_StopRequested := True\<rparr>) (ve_activeMedia e);
          conn = m_tgcallsConnection e; tgcallsCallId = m_tgcallsCallId e;
          e = e\<lparr>ve_activeMedia := None, m_tgcallsConnection := False, m_tgcallsCallId := 0\<rparr>
      in if m_tgcallsGraph e \<and> tgcallsCallId > 0 \<and> \<not> conn \<and> \<not> VoipError_IsOk graphStop then (graphStop, e, active)
         else (VoipError_Ok, e\<lparr>ve_mediaSession := ms_Stop (ve_mediaSession e)\<rparr>, active))"

text \<open>\<open>tgc\<close> and \<open>graph\<close> are what the connection and the media graph return.\<close>

definition route_switch :: "VoipError \<Rightarrow> VoipError \<Rightarrow> VoipError \<Rightarrow> VoipEngine \<Rightarrow> VoipError" where
  "route_switch result tgc graph e =
     (if m_tgcallsConnection e then (if \<not> VoipError_IsOk tgc then tgc else result)
      else if m_tgcallsGraph e \<and> m_tgcallsCallId e > 0 \<and> \<not> VoipError_IsOk graph then graph
      else result)"

definition engine_SetMuted :: "bool \<Rightarrow> VoipError \<Rightarrow> VoipError \<Rightarrow> VoipEngine \<Rightarrow> VoipError \<times> VoipEngine" where
  "engine_SetMuted muted tgc graph e =
     (let (result, ms) = ms_SetMuted (ve_mediaSession e) muted
      in (route_switch result tgc graph e, e\<lparr>ve_mediaSession := ms\<rparr>))"

definition engine_SetSpeaker :: "bool \<Rightarrow> VoipError \<Rightarrow> VoipError \<Rightarrow> VoipEngine \<Rightarrow> VoipError \<times> VoipEngine" where
  "engine_SetSpeaker on tgc graph e =
     (let (result, ms) = ms_SetSpeaker (ve_mediaSession e) on
      in (route_switch result tgc graph e, e\<lparr>ve_mediaSession := ms\<rparr>))"


section \<open>The snapshot\<close>

text \<open>Single precision: rounding to 24 bits, ties to even.\<close>

definition rnd32 :: "rat \<Rightarrow> rat" where
  "rnd32 x =
     (if x = 0 then 0
      else let u = pow2 (max (- 149) (exponent_of \<bar>x\<bar> - 23))
           in (if x < 0 then - 1 else 1) * (of_int (round_half_even (\<bar>x\<bar> / u)) * u))"

fun tg_media_state :: "tg_state \<Rightarrow> VoipMediaState" where
  "tg_media_state TgConnected = Active"
| "tg_media_state TgFailed = Stopped"
| "tg_media_state TgStopped = Stopped"
| "tg_media_state _ = Connecting"

text \<open>The arithmetic is that of 32-bit words; \<^const>\<open>None\<close> for a division by zero.\<close>

definition bitrate :: "u32 \<Rightarrow> u32 \<Rightarrow> int option" where
  "bitrate mediaBytes mediaPackets =
     (let divisor = (if mediaPackets = 0 then 1000 else mediaPackets * ucast DefaultAudioFrameDurationMs)
      in if divisor = 0 then None else Some (sint ((mediaBytes * 8 * 1000) div divisor)))"

definition GetMediaSnapshot :: "tg_stats \<Rightarrow> VoipMediaSnapshot \<Rightarrow> VoipEngine \<Rightarrow> VoipMediaSnapshot option" where
  "GetMediaSnapshot ts graph e =
     (let snapshot = ms_Snapshot (ve_mediaSession e); st = snap_Stats snapshot
      in if m_tgcallsConnection e \<and> m_tgcallsCallId e > 0 then
           Some (snapshot\<lparr>snap_State := tg_media_state (tg_CurrentState ts),
             snap_Stats := st\<lparr>PacketsSent := ucast (tg_TxPackets ts), PacketsReceived := ucast (tg_RxPackets ts),
               BytesSent := ucast (tg_TxBytes ts), BytesReceived := ucast (tg_RxBytes ts)\<rparr>\<rparr>)
         else if ve_activeMedia e = None \<and> m_tgcallsGraph e \<and> m_tgcallsCallId e > 0 then Some graph
         else case ve_activeMedia e of
           None \<Rightarrow> Some snapshot
         | Some a \<Rightarrow>
             map_option (\<lambda>bps. snapshot\<lparr>snap_State := (if am_MediaReady a then Active else Connecting),
               snap_Stats := st\<lparr>PacketsSent := PacketsSent st + am_MediaPacketsSent a,
                 PacketsReceived := PacketsReceived st + am_MediaPacketsReceived a,
                 BytesSent := BytesSent st + am_MediaBytesSent a,
                 BytesReceived := BytesReceived st + am_MediaBytesReceived a,
                 Underruns := Underruns st + sint (am_AudioUnderruns a),
                 OutboundLevel := rnd32 (of_int (am_OutboundLevelPermille a) / 1000),
                 InboundLevel := rnd32 (of_int (am_InboundLevelPermille a) / 1000),
                 BitrateBps := bps\<rparr>\<rparr>)
               (bitrate (am_MediaBytesSent a) (am_MediaPacketsSent a)))"


section \<open>What a started call rests on\<close>

lemma call_handle_more [simp]:
  "ve_mediaSession (call_handle ev e) = ve_mediaSession e" "ve_activeMedia (call_handle ev e) = ve_activeMedia e"
  "ve_transport (call_handle ev e) = ve_transport e" "ve_audioFactory (call_handle ev e) = ve_audioFactory e"
  "m_tgcallsGraph (call_handle ev e) = m_tgcallsGraph e"
  by (cases ev; simp add: ReceiveSignalingData_def DropCall_def Let_def split: option.split)+

lemma fold_handle_more [simp]:
  "ve_mediaSession (fold call_handle evs e) = ve_mediaSession e"
  "ve_activeMedia (fold call_handle evs e) = ve_activeMedia e"
  by (induction evs arbitrary: e) simp_all

lemma ms_Prepare_ok:
  "ms_Prepare s callId key ep = (r, s') \<Longrightarrow> VoipError_IsOk r \<Longrightarrow>
     ms_state s' = Prepared \<and> ms_callId s' = callId \<and> ms_keyHandle s' = key \<and> ms_endpoint s' = ep"
  by (auto simp: ms_Prepare_def split: if_splits)

lemma ms_MarkConnecting_prepared:
  "ms_state s = Prepared \<Longrightarrow> ms_MarkConnecting s = (VoipError_Ok, s\<lparr>ms_state := Connecting\<rparr>)"
  by (simp add: ms_MarkConnecting_def)

text \<open>The session of the call on its way to one endpoint.\<close>

definition connecting_to :: "int \<Rightarrow> string \<Rightarrow> VoipEndpoint \<Rightarrow> VoipMediaSession \<Rightarrow> bool" where
  "connecting_to callId key ep s \<longleftrightarrow>
     ms_state s = Connecting \<and> ms_callId s = callId \<and> ms_keyHandle s = key \<and> ms_endpoint s = ep"

lemma connecting_record: "connecting_to callId key ep (ms_RecordHandshake s a b c d r) = connecting_to callId key ep s"
  by (simp add: connecting_to_def ms_RecordHandshake_def Let_def)

lemma connecting_started: "connecting_to (ms_callId s) (ms_keyHandle s) (ms_endpoint s) (s\<lparr>ms_state := Connecting\<rparr>)"
  by (simp add: connecting_to_def)

lemma probe_stats_session [simp]: "ps_session (probe_stats ep h s) = ps_session s"
  by (simp add: probe_stats_def Let_def)

lemma probe_start_session [simp]: "ps_session (probe_start s) = s"
  by (simp add: probe_start_def)

lemma probe_count_session [simp]: "ps_session (probe_count ep s) = ps_session s"
  by (simp add: probe_count_def)

lemma probe_failed_session [simp]:
  "ps_session (probe_failed err s) = ms_Stop (ps_session s)" "ps_errors (probe_failed err s) \<noteq> []"
  by (simp_all add: probe_failed_def)

text \<open>A candidate fails with the session stopped, or succeeds with a handshake that did.\<close>

lemma probe_candidate_cases:
  assumes "probe_candidate rc callId key session ep env s = Some (s', r)"
  shows "case r of None \<Rightarrow> (\<exists>ms. ps_session s' = ms_Stop ms) \<and> ps_errors s' \<noteq> []
    | Some h \<Rightarrow> hs_ok h \<and> connecting_to callId key ep (ps_session s') \<and>
        RunControlHandshake (handshake_conf rc callId session ep) (ce_warm env) (ce_t0 env) (ce_t1 env)
          (ce_turns env) (NextLocalSequence session) (LastRemoteSequence session) = (True, h)"
proof -
  obtain prepared ms where p: "ms_Prepare (ps_session s) callId key ep = (prepared, ms)" by fastforce
  show ?thesis
  proof (cases "VoipError_IsOk prepared \<and> ce_socket env \<and> ce_open env = None")
    case False
    then show ?thesis
      using assms p ms_Prepare_ok [OF p] ms_MarkConnecting_prepared [of ms]
      by (auto simp: probe_candidate_def Let_def split: if_splits option.splits)
  next
    case True
    note ms = ms_Prepare_ok [OF p] ms_MarkConnecting_prepared [of ms]
    obtain d h where h: "RunControlHandshake (handshake_conf rc callId session ep) (ce_warm env) (ce_t0 env) (ce_t1 env)
          (ce_turns env) (NextLocalSequence session) (LastRemoteSequence session) = (d, h)" by fastforce
    have "d" using assms True p ms h by (cases d) (simp_all add: probe_candidate_def Let_def)
    then show ?thesis
      using assms True p ms h
      by (auto simp: probe_candidate_def Let_def hs_ok_def connecting_record connecting_started split: if_splits)
  qed
qed

lemma probe_candidates_ok:
  assumes "probe_candidates rc callId key session cs s = Some (s', Some (ep, h))"
  shows "hs_ok h \<and> connecting_to callId key ep (ps_session s') \<and>
    (\<exists>env. (ep, env) \<in> set cs \<and> RunControlHandshake (handshake_conf rc callId session ep) (ce_warm env) (ce_t0 env) (ce_t1 env)
      (ce_turns env) (NextLocalSequence session) (LastRemoteSequence session) = (True, h))"
  using assms
proof (induction cs arbitrary: s)
  case Nil
  then show ?case by simp
next
  case (Cons c cs)
  obtain e0 env0 where c: "c = (e0, env0)" by (cases c)
  obtain s1 r where r: "probe_candidate rc callId key session e0 env0 s = Some (s1, r)"
    using Cons.prems by (cases "probe_candidate rc callId key session e0 env0 s") (auto simp: c)
  show ?case
  proof (cases r)
    case None
    then show ?thesis using Cons.IH [of s1] Cons.prems by (auto simp: c r)
  next
    case (Some h0)
    then show ?thesis using Cons.prems probe_candidate_cases [OF r] by (auto simp: c r)
  qed
qed

lemma probe_candidates_fails:
  "probe_candidates rc callId key session cs s = Some (s', None) \<Longrightarrow> cs \<noteq> [] \<or> ps_errors s \<noteq> [] \<Longrightarrow> ps_errors s' \<noteq> []"
proof (induction cs arbitrary: s)
  case Nil
  then show ?case by simp
next
  case (Cons c cs)
  obtain e0 env0 where c: "c = (e0, env0)" by (cases c)
  obtain s1 r where r: "probe_candidate rc callId key session e0 env0 s = Some (s1, r)" "r = None"
    using Cons.prems(1) by (cases "probe_candidate rc callId key session e0 env0 s") (auto simp: c split: option.splits)
  then show ?case using Cons.IH [of s1] Cons.prems(1) probe_candidate_cases [OF r(1)] by (auto simp: c)
qed

lemma open_audio_not_ok: "open_audio env = Some err \<Longrightarrow> \<not> VoipError_IsOk err"
  by (auto simp: open_audio_def split: if_splits option.splits)

lemma start_classic_ok:
  assumes "start_classic rc env mid audio d session e = Some (r, e')" and "VoipError_IsOk r"
  obtains i ep h where "i < length (OrderedReflectorEndpoints (vd_Endpoints d))"
    and "ep = OrderedReflectorEndpoints (vd_Endpoints d) ! i" and "hs_ok h"
    and "RunControlHandshake (handshake_conf rc (vd_CallId d) session ep) (ce_warm (env i)) (ce_t0 (env i)) (ce_t1 (env i))
      (ce_turns (env i)) (NextLocalSequence session) (LastRemoteSequence session) = (True, h)"
    and "ve_activeMedia e' = Some (am_start (SharedKey session) (VoipEndpoint.PeerTag ep) (Incoming session)
      (hs_nextLocal h) (hs_lastRemote h) True)"
    and "connecting_to (vd_CallId d) (vd_KeyHandle d) ep (ve_mediaSession e')"
proof -
  let ?cs = "OrderedReflectorEndpoints (vd_Endpoints d)"
  have g: "?cs \<noteq> []" "ve_transport e" "ve_audioFactory e"
    using assms by (auto simp: start_classic_def Let_def split: if_splits)
  obtain s sel where p: "probe_candidates rc (vd_CallId d) (vd_KeyHandle d) session (zip ?cs (map env [0..<length ?cs]))
      (probe_start (ve_mediaSession e)) = Some (s, sel)"
    using assms(1) g by (auto simp: start_classic_def Let_def split: option.splits)
  have ok: "sel \<noteq> None"
  proof
    assume "sel = None"
    then have "ps_errors s \<noteq> []" using p g(1) probe_candidates_fails by auto
    then show False using assms p g \<open>sel = None\<close> by (auto simp: start_classic_def Let_def probe_failure_def)
  qed
  then obtain ep h where sel: "sel = Some (ep, h)" by auto
  have au: "open_audio audio = None"
    using assms p g sel by (auto simp: start_classic_def Let_def open_audio_not_ok split: option.splits)
  from probe_candidates_ok [OF p [unfolded sel]] obtain ce where h: "hs_ok h"
    "connecting_to (vd_CallId d) (vd_KeyHandle d) ep (ps_session s)" "(ep, ce) \<in> set (zip ?cs (map env [0..<length ?cs]))"
    "RunControlHandshake (handshake_conf rc (vd_CallId d) session ep) (ce_warm ce) (ce_t0 ce) (ce_t1 ce)
      (ce_turns ce) (NextLocalSequence session) (LastRemoteSequence session) = (True, h)" by blast
  from h(3) obtain i where i: "i < length ?cs" "ep = ?cs ! i" "ce = env i" by (auto simp: set_zip)
  show thesis
    by (rule that [OF i(1,2) h(1) h(4) [unfolded i(3)]])
      (use assms p g sel au h(1,2) in \<open>auto simp: start_classic_def Let_def hs_ok_def\<close>)
qed

lemma StartMedia_classic:
  assumes "StartMedia rc env audio tg mids d e = Some (r, e')" and "VoipError_IsOk r" and "IsClassicReflectorDescriptor d"
  obtains session where "m_calls e (vd_CallId d) = Some session" and "SharedReady session"
    and "HandleForCall (vd_CallId d) = vd_KeyHandle d"
    and "start_classic rc env (concat mids) audio d session e = Some (r, e')"
  using assms by (auto simp: StartMedia_def split: if_splits option.splits)

lemma am_start_fields:
  "am_SharedKey (am_start key tag inc n l ack) = key" "am_PeerTag (am_start key tag inc n l ack) = tag"
  "am_LocalIsOutgoing (am_start key tag inc n l ack) = (\<not> inc)" "am_InitAckReceived (am_start key tag inc n l ack) = ack"
  by (simp_all add: am_start_def)

text \<open>
  Claim C6: a classic call starts only on a finished key exchange and an authentic handshake. When \<open>StartMedia\<close>
  reports success, the key of the call was ready and the key handle was its own; one of the usable endpoints
  of the descriptor delivered a datagram that decrypts under the call's key, role and this endpoint's tag to
  an INIT_ACK with an Opus stream; the media loops get exactly this key, role and tag, with the
  acknowledgement noted; and the media session is connecting to this endpoint for this call.
\<close>

theorem classic_media_started:
  "case StartMedia rc env audio tg mids d e of None \<Rightarrow> True
   | Some (r, e') \<Rightarrow>
       if VoipError_IsOk r \<and> IsClassicReflectorDescriptor d
       then (\<exists>session a ep i t bs rtt ack. m_calls e (vd_CallId d) = Some session \<and> SharedReady session \<and>
           HandleForCall (vd_CallId d) = vd_KeyHandle d \<and> ep \<in> set (vd_Endpoints d) \<and> candidate ep \<and>
           t \<in> set (ce_turns (env i)) \<and> ht_received t = Inr (bs, rtt) \<and>
           acknowledges (handshake_conf rc (vd_CallId d) session ep) ack bs \<and>
           ve_activeMedia e' = Some a \<and> am_SharedKey a = SharedKey session \<and> am_LocalIsOutgoing a = (\<not> Incoming session) \<and>
           am_PeerTag a = VoipEndpoint.PeerTag ep \<and> am_InitAckReceived a \<and>
           ms_state (ve_mediaSession e') = Connecting \<and> ms_callId (ve_mediaSession e') = vd_CallId d \<and>
           ms_endpoint (ve_mediaSession e') = ep)
       else True"
proof (cases "StartMedia rc env audio tg mids d e")
  case None
  then show ?thesis by simp
next
  case (Some x)
  obtain r e' where x: "x = (r, e')" by (cases x)
  show ?thesis
  proof (cases "VoipError_IsOk r \<and> IsClassicReflectorDescriptor d")
    case False
    then show ?thesis by (auto simp: Some x)
  next
    case True
    from StartMedia_classic [OF Some [unfolded x]] True obtain session where
      s: "m_calls e (vd_CallId d) = Some session" "SharedReady session" "HandleForCall (vd_CallId d) = vd_KeyHandle d"
      and st: "start_classic rc env (concat mids) audio d session e = Some (r, e')" by blast
    let ?cs = "OrderedReflectorEndpoints (vd_Endpoints d)"
    from start_classic_ok [OF st] True obtain i ep h where i: "i < length ?cs" "ep = ?cs ! i" "hs_ok h"
      and run: "RunControlHandshake (handshake_conf rc (vd_CallId d) session ep) (ce_warm (env i)) (ce_t0 (env i)) (ce_t1 (env i))
        (ce_turns (env i)) (NextLocalSequence session) (LastRemoteSequence session) = (True, h)"
      and a: "ve_activeMedia e' = Some (am_start (SharedKey session) (VoipEndpoint.PeerTag ep) (Incoming session)
        (hs_nextLocal h) (hs_lastRemote h) True)"
      and c: "connecting_to (vd_CallId d) (vd_KeyHandle d) ep (ve_mediaSession e')" by blast
    have "ep \<in> set ?cs" using i by simp
    then have ep: "ep \<in> set (vd_Endpoints d)" "candidate ep" unfolding Ordered_rank by auto
    obtain t where t: "t \<in> set (ce_turns (env i))" "hs_acked (handshake_conf rc (vd_CallId d) session ep) t h"
      using run_handshake_ok [OF run i(3)] by blast
    from hs_ackedD [OF t(2)] obtain bs rtt ack where "ht_received t = Inr (bs, rtt)"
      "acknowledges (handshake_conf rc (vd_CallId d) session ep) ack bs" by blast
    note ack = this
    let ?a = "am_start (SharedKey session) (VoipEndpoint.PeerTag ep) (Incoming session) (hs_nextLocal h) (hs_lastRemote h) True"
    have *: "m_calls e (vd_CallId d) = Some session \<and> SharedReady session \<and>
           HandleForCall (vd_CallId d) = vd_KeyHandle d \<and> ep \<in> set (vd_Endpoints d) \<and> candidate ep \<and>
           t \<in> set (ce_turns (env i)) \<and> ht_received t = Inr (bs, rtt) \<and>
           acknowledges (handshake_conf rc (vd_CallId d) session ep) ack bs \<and>
           ve_activeMedia e' = Some ?a \<and> am_SharedKey ?a = SharedKey session \<and> am_LocalIsOutgoing ?a = (\<not> Incoming session) \<and>
           am_PeerTag ?a = VoipEndpoint.PeerTag ep \<and> am_InitAckReceived ?a \<and>
           ms_state (ve_mediaSession e') = Connecting \<and> ms_callId (ve_mediaSession e') = vd_CallId d \<and>
           ms_endpoint (ve_mediaSession e') = ep"
      using s a c ep t(1) ack by (simp add: am_start_fields connecting_to_def)
    show ?thesis unfolding Some x option.case prod.case if_P [OF True] by (intro exI) (rule *)
  qed
qed


section \<open>A second call\<close>

lemma ms_Stop_callId [simp]: "ms_callId (ms_Stop s) = 0" "ms_state (ms_Stop s) = Stopped"
  by (simp_all add: ms_Stop_def)

lemma probe_candidate_callId:
  assumes "probe_candidate rc callId key session ep env s = Some (s', r)"
  shows "ms_callId (ps_session s') = 0 \<or> ms_callId (ps_session s') = callId"
  using probe_candidate_cases [OF assms] by (cases r) (auto simp: connecting_to_def)

lemma probe_candidates_callId:
  assumes "probe_candidates rc callId key session cs s = Some (s', r)"
    and "cs \<noteq> [] \<or> ms_callId (ps_session s) = 0 \<or> ms_callId (ps_session s) = callId"
  shows "ms_callId (ps_session s') = 0 \<or> ms_callId (ps_session s') = callId"
  using assms
proof (induction cs arbitrary: s)
  case Nil
  then show ?case by auto
next
  case (Cons c cs)
  obtain e0 env0 where c: "c = (e0, env0)" by (cases c)
  obtain s1 r1 where r: "probe_candidate rc callId key session e0 env0 s = Some (s1, r1)"
    using Cons.prems(1) by (cases "probe_candidate rc callId key session e0 env0 s") (auto simp: c)
  show ?case
    using Cons.IH [of s1] Cons.prems(1) probe_candidate_callId [OF r] by (cases r1) (auto simp: c r)
qed

text \<open>
  Trying to start a second classic call ends the media session of the first. The session refuses
  to be prepared for another call, but the failure path stops it all the same: whatever \<open>StartMedia\<close> answers
  (once it tries an endpoint), the session no longer belongs to the first call. If it answers an error, the
  media loops of the first call go on, without a session.
\<close>

theorem second_call_stops_session:
  assumes "ms_state (ve_mediaSession e) \<in> {Prepared, Connecting, Active}" and "ms_callId (ve_mediaSession e) = c"
    and "0 < c" and "c \<noteq> vd_CallId d" and "0 < vd_CallId d" and "m_calls e (vd_CallId d) = Some session"
    and "SharedReady session" and "HandleForCall (vd_CallId d) = vd_KeyHandle d" and "IsClassicReflectorDescriptor d"
    and "OrderedReflectorEndpoints (vd_Endpoints d) \<noteq> []" and "ve_transport e" and "ve_audioFactory e"
    and "StartMedia rc env audio tg mids d e = Some (r, e')"
  shows "ms_callId (ve_mediaSession e') \<noteq> c \<and>
    (if VoipError_IsOk r then True
     else ms_state (ve_mediaSession e') = Stopped \<and> ve_activeMedia e' = ve_activeMedia e)"
proof -
  let ?cs = "OrderedReflectorEndpoints (vd_Endpoints d)"
  have "vd_KeyHandle d \<noteq> []" using assms(8) by (auto simp: HandleForCall_def)
  then have st: "start_classic rc env (concat mids) audio d session e = Some (r, e')"
    using assms(5-9,13) by (simp add: StartMedia_def)
  obtain s sel where p: "probe_candidates rc (vd_CallId d) (vd_KeyHandle d) session (zip ?cs (map env [0..<length ?cs]))
      (probe_start (ve_mediaSession e)) = Some (s, sel)"
    using st assms(10-12) by (auto simp: start_classic_def Let_def split: option.splits)
  have "ms_callId (ps_session s) = 0 \<or> ms_callId (ps_session s) = vd_CallId d"
    by (rule probe_candidates_callId [OF p]) (simp add: assms(10))
  then show ?thesis
    using st assms(3,4,10-12) p
    by (cases sel; cases "open_audio audio") (auto simp: start_classic_def Let_def)
qed

definition idle_audio :: audio_env where
  "idle_audio = \<lparr>ae_device = True, ae_open = None, ae_codec = True, ae_init = 0, ae_ready = True\<rparr>"

definition silent_env :: candidate_env where
  "silent_env = \<lparr>ce_socket = True, ce_open = None, ce_warm = (None, None), ce_t0 = 0, ce_t1 = 0, ce_turns = []\<rparr>"

definition quiet_tgcalls :: tgcalls_env where
  "quiet_tgcalls = \<lparr>te_start = VoipError_Ok, te_deliver = (\<lambda>_. VoipError_Ok)\<rparr>"

definition demo_endpoint :: VoipEndpoint where
  "demo_endpoint = VoipEndpoint_default\<lparr>Ip := ''10.0.0.1'', VoipEndpoint.Port := 443, VoipEndpoint.PeerTag := replicate 16 9\<rparr>"

text \<open>An engine with call 7 on the media session, and the key of call 8 ready.\<close>

definition busy_engine :: VoipEngine where
  "busy_engine = \<lparr>m_outgoingByRandom = Map.empty, m_calls = [8 \<mapsto> DhSession_default\<lparr>SharedReady := True, SharedKey := replicate 256 7\<rparr>],
     m_droppedCallIds = {}, m_tgcallsCallId = 0, m_tgcallsConnection = False, m_tgcallsGraph = False, ve_transport = True,
     ve_audioFactory = True, ve_mediaSession = ms_new\<lparr>ms_state := Active, ms_callId := 7\<rparr>, ve_activeMedia = Some am_new\<rparr>"

theorem second_call_stops_session_witness:
  "\<exists>r e'. StartMedia demo_crypto (\<lambda>i. silent_env) idle_audio quiet_tgcalls []
      (classic_descriptor 8 (HandleForCall 8) [demo_endpoint]) busy_engine = Some (r, e') \<and>
     \<not> VoipError_IsOk r \<and> ms_callId (ve_mediaSession e') \<noteq> 7 \<and> ve_activeMedia e' = Some am_new"
proof -
  let ?d = "classic_descriptor 8 (HandleForCall 8) [demo_endpoint]"
  have cs: "OrderedReflectorEndpoints (vd_Endpoints ?d) = [demo_endpoint]"
    by (simp add: classic_descriptor_def Ordered_filter demo_endpoint_def VoipEndpoint_default_def IsUsableReflectorEndpoint_def
        EndpointHasIpv4_def HasAddress_def)
  have h: "HandleForCall 8 \<noteq> []" by (simp add: HandleForCall_def)
  have refused: "ms_Prepare (ms_new\<lparr>ms_state := Active, ms_callId := 7\<rparr>) 8 (HandleForCall 8) demo_endpoint =
      (Invalid ''another media session is already prepared'', ms_new\<lparr>ms_state := Active, ms_callId := 7\<rparr>)"
    using h by (simp add: ms_Prepare_def ms_HasAddress_def demo_endpoint_def VoipEndpoint_default_def)
  have cl: "IsClassicReflectorDescriptor ?d"
    by (simp add: IsClassicReflectorDescriptor_def classic_descriptor_def see_version_def)
  have d: "vd_CallId ?d = 8" "vd_KeyHandle ?d = HandleForCall 8" "vd_Endpoints ?d = [demo_endpoint]"
    by (simp_all add: classic_descriptor_def)
  obtain r e' where st: "StartMedia demo_crypto (\<lambda>i. silent_env) idle_audio quiet_tgcalls [] ?d busy_engine = Some (r, e')"
    and "\<not> VoipError_IsOk r"
    using h cl refused cs
    by (auto simp: StartMedia_def start_classic_def d busy_engine_def probe_candidate_def Let_def probe_failure_def)
  moreover have "ms_callId (ve_mediaSession e') \<noteq> 7 \<and> (if VoipError_IsOk r then True
      else ms_state (ve_mediaSession e') = Stopped \<and> ve_activeMedia e' = ve_activeMedia busy_engine)"
    by (rule second_call_stops_session [where session = "DhSession_default\<lparr>SharedReady := True, SharedKey := replicate 256 7\<rparr>",
          OF _ _ _ _ _ _ _ _ cl _ _ _ st])
      (simp_all only: d cs [unfolded d], simp_all add: busy_engine_def DhSession_default_def)
  ultimately show ?thesis by (auto simp: busy_engine_def)
qed


section \<open>The tgcalls path\<close>

lemma take_pending_more [simp]: "take_pending callId e = (p, e') \<Longrightarrow> ve_mediaSession e' = ve_mediaSession e"
  by (auto simp: take_pending_def split: option.splits)

lemma drain_to_graph_more:
  "ve_mediaSession (snd (drain_to_graph deliver callId mids e)) = ve_mediaSession e"
  by (induction deliver callId mids e rule: drain_to_graph.induct)
    (auto simp: Let_def split: option.split prod.split dest: take_pending_more)

lemma start_tgcalls_more:
  "ve_mediaSession (snd (start_tgcalls tg mids d session e)) = ve_mediaSession e"
  using drain_to_graph_more [of "te_deliver tg" "vd_CallId d" mids e]
  by (auto simp: start_tgcalls_def start_connection_def Let_def split: prod.split dest: take_pending_more)

text \<open>
  Muting a tgcalls call works and reports an error. The tgcalls path never prepares the media
  session, so after a successful start there the switches of the engine report that the session is not
  started, even when the connection or the graph has carried the switch out.
\<close>

theorem tgcalls_mute_reports_error:
  assumes "StartMedia rc env audio tg mids d e = Some (r, e')" and "\<not> IsClassicReflectorDescriptor d"
    and "ms_state (ve_mediaSession e) = Idle \<or> ms_state (ve_mediaSession e) = Stopped"
  shows "fst (engine_SetMuted b VoipError_Ok VoipError_Ok e') = Invalid ''media session is not started'' \<and>
    fst (engine_SetSpeaker b VoipError_Ok VoipError_Ok e') = Invalid ''media session is not started''"
proof -
  have "ve_mediaSession e' = ve_mediaSession e"
    using assms(1,2) start_tgcalls_more [of tg mids d _ e]
    by (auto simp: StartMedia_def split: if_splits option.splits) (metis snd_conv)
  then show ?thesis
    using assms(3) by (auto simp: engine_SetMuted_def engine_SetSpeaker_def ms_SetMuted_def ms_SetSpeaker_def route_switch_def)
qed

text \<open>An engine whose call 8 negotiated tgcalls with one TURN server.\<close>

definition turn_descriptor :: VoipCallStartDescriptor where
  "turn_descriptor = (classic_descriptor 8 (HandleForCall 8)
     [demo_endpoint\<lparr>IsWebRtc := True, Username := ''u'', Password := ''p''\<rparr>])\<lparr>vd_LibraryVersions := [''9.0.0'']\<rparr>"

theorem tgcalls_mute_reports_error_witness:
  "\<exists>e'. StartMedia demo_crypto (\<lambda>i. silent_env) idle_audio quiet_tgcalls [] turn_descriptor
      (busy_engine\<lparr>ve_mediaSession := ms_new\<rparr>) = Some (VoipError_Ok, e') \<and> m_tgcallsConnection e' \<and>
     fst (engine_SetMuted True VoipError_Ok VoipError_Ok e') = Invalid ''media session is not started''"
proof -
  have m: "\<not> IsClassicReflectorDescriptor turn_descriptor"
    by (simp add: IsClassicReflectorDescriptor_def turn_descriptor_def see_version_def)
  have h: "HandleForCall 8 \<noteq> []" by (simp add: HandleForCall_def)
  obtain e' where st: "StartMedia demo_crypto (\<lambda>i. silent_env) idle_audio quiet_tgcalls [] turn_descriptor
      (busy_engine\<lparr>ve_mediaSession := ms_new\<rparr>) = Some (VoipError_Ok, e')" and c: "m_tgcallsConnection e'"
    using m h
    by (simp add: StartMedia_def turn_descriptor_def classic_descriptor_def busy_engine_def start_tgcalls_def tgcalls_reflectors_def
        start_connection_def quiet_tgcalls_def take_pending_def DhSession_default_def)
  have "ms_state (ve_mediaSession (busy_engine\<lparr>ve_mediaSession := ms_new\<rparr>)) = Idle \<or>
      ms_state (ve_mediaSession (busy_engine\<lparr>ve_mediaSession := ms_new\<rparr>)) = Stopped"
    by (simp add: ms_new_def)
  from tgcalls_mute_reports_error [OF st m this] st c show ?thesis by blast
qed


section \<open>Stopping\<close>

text \<open>
  Stopping detaches the media whatever happens: the loops of the relay context are asked to end and
  no context, connection or tgcalls call stays attached. Only if the media graph fails to stop is its error
  passed on, and the media session then keeps its call.
\<close>

theorem stop_media_detaches:
  "let (r, e', stopped) = StopMedia graphStop e
   in ve_activeMedia e' = None \<and> \<not> m_tgcallsConnection e' \<and> m_tgcallsCallId e' = 0 \<and> m_calls e' = m_calls e \<and>
      map_option am_StopRequested stopped = map_option (\<lambda>_. True) (ve_activeMedia e) \<and>
      (if VoipError_IsOk r then r = VoipError_Ok \<and> ms_state (ve_mediaSession e') = Stopped
       else r = graphStop \<and> m_tgcallsGraph e \<and> ve_mediaSession e' = ve_mediaSession e)"
  by (cases "ve_activeMedia e") (auto simp: StopMedia_def Let_def)


section \<open>The bit rate of the snapshot\<close>

lemma sint_small:
  assumes "unat (w :: u32) < 2 ^ 31"
  shows "sint w = int (unat w)"
proof -
  have "uint w < 2 ^ 31" using assms by (metis of_nat_less_numeral_power_cancel_iff uint_nat)
  moreover have "0 \<le> uint w" by simp
  ultimately have "signed_take_bit 31 (uint w) = uint w" unfolding signed_take_bit_int_eq_self_iff by linarith
  then show ?thesis by (simp add: sint_uint)
qed

text \<open>
  The bit rate is right for the first half megabyte. The bytes sent times 8000 are computed with 32 bits:
  up to 536870 bytes (three minutes at 24 kbit/s) the snapshot shows the average over the packets sent; beyond
  that the product wraps, and 600000 bytes in 3000 packets show 2805 bit/s in place of 26666.
\<close>

theorem snapshot_bitrate:
  assumes "unat bytes \<le> 536870" and "0 < unat packets" and "unat packets \<le> 71582788"
  shows "bitrate bytes packets = Some (int ((unat bytes * 8000) div (unat packets * 60))) \<and>
    bitrate 600000 3000 = Some 2805"
proof
  have d: "unat (packets * 60 :: u32) = unat packets * 60"
    using assms(3) by (subst unat_mult_lem [THEN iffD1]) simp_all
  have b: "unat (bytes * 8 * 1000 :: u32) = unat bytes * 8000"
    using assms(1) by (simp add: unat_word_ariths)
  have "unat bytes * 8000 div (unat packets * 60) \<le> unat bytes * 8000 div 60"
    using assms(2) by (intro div_le_mono2) simp_all
  also have "\<dots> \<le> 4294960000 div 60" using assms(1) by (intro div_le_mono) simp
  also have "\<dots> < 2 ^ 31" by simp
  finally have le: "unat bytes * 8000 div (unat packets * 60) < 2 ^ 31" .
  have s: "sint ((bytes * 8 * 1000) div (packets * 60) :: u32) = int ((unat bytes * 8000) div (unat packets * 60))"
    using sint_small [of "(bytes * 8 * 1000) div (packets * 60)"] le unfolding unat_div b d by simp
  have "packets * 60 \<noteq> 0" "packets \<noteq> 0" using assms(2) d by (auto simp: word_unat_eq_iff)
  then show "bitrate bytes packets = Some (int ((unat bytes * 8000) div (unat packets * 60)))"
    unfolding bitrate_def Let_def DefaultAudioFrameDurationMs_def using s by simp
  show "bitrate 600000 3000 = Some 2805" by (simp add: bitrate_def DefaultAudioFrameDurationMs_def)
qed

theorem snapshot_bitrate_witness: "bitrate 180000 1000 = Some 24000"
  using snapshot_bitrate [of 180000 1000] by simp

end
