(* ===== verification/MediaGraph.thy ===== *)
theory MediaGraph
  imports EngineRouting MediaSession
begin

text \<open>
  The media graph behind a C ABI: the client that loads \<open>Vianium.Tgcalls.dll\<close>
  (\<open>dynamic_tgcalls_media_graph.cpp\<close>) and the bundled DLL itself (\<open>tgcalls_backend.cpp\<close>,
  \<open>tgcalls_stub.cpp\<close>). A span is the string or the byte vector it points to, an out parameter is a
  result, a list is shorter than 2^32. The DLL the client loads is a parameter; the bundled one is an
  instance of it.
\<close>

section \<open>The ABI\<close>

record VianiumTgcallsResult =
  rs_Code :: int
  rs_NativeCode :: int
  rs_Message :: string

definition ABI_VERSION :: int where "ABI_VERSION = 1"
definition ResultOk :: int where "ResultOk = 0"
definition ResultUnavailable :: int where "ResultUnavailable = 1"
definition ResultInvalidArgument :: int where "ResultInvalidArgument = 2"
definition ResultCryptoUnavailable :: int where "ResultCryptoUnavailable = 3"
definition ResultTransportFailed :: int where "ResultTransportFailed = 4"
definition ResultCodecFailed :: int where "ResultCodecFailed = 5"
definition ResultAudioDeviceFailed :: int where "ResultAudioDeviceFailed = 6"

lemmas result_codes = ABI_VERSION_def ResultOk_def ResultUnavailable_def ResultInvalidArgument_def
  ResultCryptoUnavailable_def ResultTransportFailed_def ResultCodecFailed_def ResultAudioDeviceFailed_def

record VianiumTgcallsEndpoint =
  ab_Id :: int
  ab_Ip :: string
  ab_Ipv6 :: string
  ab_Port :: int
  ab_PeerTag :: bytes
  ab_IsWebRtc :: u8
  ab_Tcp :: u8
  ab_Stun :: u8
  ab_Turn :: u8
  ab_Username :: string
  ab_Password :: string
  ab_ReflectorId :: int

record VianiumTgcallsStartDescriptor =
  sd_AbiVersion :: int
  sd_CallId :: int
  sd_AccessHash :: int
  sd_IsInitiator :: u8
  sd_IsVideo :: u8
  sd_UdpP2p :: u8
  sd_UdpReflector :: u8
  sd_MinLayer :: int
  sd_MaxLayer :: int
  sd_KeyFingerprint :: int
  sd_LibraryVersions :: "string list"
  sd_Endpoints :: "VianiumTgcallsEndpoint list"
  sd_SharedKey :: bytes
  sd_CallConfigJson :: string

record VianiumTgcallsSnapshot =
  ns_State :: int
  ns_CallId :: int
  ns_Muted :: u8
  ns_SpeakerOn :: u8
  ns_Stats :: VoipMediaStats


section \<open>The bundled backend\<close>

record TgcallsBackend =
  bk_activeCallId :: int
  bk_muted :: u8
  bk_speakerOn :: u8

definition TgcallsBackend_new :: TgcallsBackend where
  "TgcallsBackend_new = \<lparr>bk_activeCallId = 0, bk_muted = 0, bk_speakerOn = 0\<rparr>"

text \<open>The message field has 768 bytes, the last one a terminator.\<close>

definition VianiumTgcallsSetResult :: "int \<Rightarrow> int \<Rightarrow> string \<Rightarrow> VianiumTgcallsResult" where
  "VianiumTgcallsSetResult code nativeCode message =
     \<lparr>rs_Code = code, rs_NativeCode = nativeCode, rs_Message = take 767 (c_str message)\<rparr>"

fun summarize_from :: "nat \<Rightarrow> string list \<Rightarrow> string" where
  "summarize_from i [] = []"
| "summarize_from i (v # vs) = (if i > 0 then '','' else []) @ v @ summarize_from (i + 1) vs"

definition SummarizeLibraries :: "string list \<Rightarrow> string" where
  "SummarizeLibraries versions = (if versions = [] then ''<empty>'' else summarize_from 0 versions)"

definition LooksLikeLayer92 :: "string list \<Rightarrow> bool" where
  "LooksLikeLayer92 versions =
     (if versions = [] then True else if length versions \<noteq> 1 then False else versions ! 0 = ''2.4.4'')"

definition CountReflectorEndpoints :: "VianiumTgcallsEndpoint list \<Rightarrow> nat" where
  "CountReflectorEndpoints endpoints =
     length (filter (\<lambda>e. \<not> (ab_IsWebRtc e \<noteq> 0 \<or> ab_Tcp e \<noteq> 0 \<or> (ab_Stun e \<noteq> 0 \<or> ab_Turn e \<noteq> 0) \<or> ab_Port e \<le> 0)) endpoints)"

definition CountWebRtcEndpoints :: "VianiumTgcallsEndpoint list \<Rightarrow> nat" where
  "CountWebRtcEndpoints endpoints = length (filter (\<lambda>e. ab_IsWebRtc e \<noteq> 0) endpoints)"

definition kPlaceholderBackendMessage :: string where
  "kPlaceholderBackendMessage =
     ''Vianium.Tgcalls.dll loaded and ABI v1 matched, but TgcallsBackend::Start '' @
     ''cannot bring up media without a non-cyclic link path to VianiumVoIP's '' @
     ''VoipEngine::StartMedia (layer 92 reflector pipeline already implemented '' @
     ''in Core'' @ [CHR 0x5C] @ ''VianiumVoIP'' @ [CHR 0x5C] @ ''src'' @ [CHR 0x5C] @ ''application'' @ [CHR 0x5C]
       @ ''voip_engine.cpp). Next step: '' @
     ''extract VianiumVoIP domain+infrastructure into a static lib both '' @
     ''Vianium.Tgcalls.dll and VianiumVoIP.dll can link, or expose a '' @
     ''VoipEngine entrypoint that accepts the pre-shared key from the '' @
     ''VianiumTgcallsStartDescriptor without redoing DH''"

definition backend_message :: "VianiumTgcallsStartDescriptor \<Rightarrow> string" where
  "backend_message d =
     kPlaceholderBackendMessage @ ''; descriptor: callId='' @ show_int (sd_CallId d) @
     '' libs=['' @ SummarizeLibraries (sd_LibraryVersions d) @ '']'' @
     '' (layer92='' @ (if LooksLikeLayer92 (sd_LibraryVersions d) then ''yes'' else ''no'') @ '')'' @
     '' reflector='' @ show_nat (CountReflectorEndpoints (sd_Endpoints d)) @ ''/'' @ show_nat (length (sd_Endpoints d)) @
     '' webrtc='' @ show_nat (CountWebRtcEndpoints (sd_Endpoints d)) @
     '' key='' @ show_nat (length (sd_SharedKey d)) @ ''B'' @ '' fp='' @ show_int (sd_KeyFingerprint d)"

type_synonym 'b answer = "int \<times> VianiumTgcallsResult \<times> 'b"

definition answer :: "int \<Rightarrow> string \<Rightarrow> 'b \<Rightarrow> 'b answer" where
  "answer code message b = (code, VianiumTgcallsSetResult code 0 message, b)"

definition backend_Start :: "VianiumTgcallsStartDescriptor option \<Rightarrow> TgcallsBackend \<Rightarrow> TgcallsBackend answer" where
  "backend_Start descriptor b =
     (case descriptor of
        None \<Rightarrow> answer ResultInvalidArgument ''descriptor is null'' b
      | Some d \<Rightarrow>
          if sd_AbiVersion d \<noteq> ABI_VERSION then answer ResultInvalidArgument ''unsupported VianiumTgcalls ABI version'' b
          else if sd_CallId d \<le> 0 then answer ResultInvalidArgument ''descriptor.CallId must be positive'' b
          else if length (sd_SharedKey d) \<noteq> 256
          then answer ResultCryptoUnavailable ''descriptor.SharedKey must be the 256-byte tgvoip layer 92 auth_key'' b
          else if sd_Endpoints d = []
          then answer ResultTransportFailed ''descriptor.Endpoints is empty - no reflector or webrtc endpoint to dial'' b
          else answer ResultUnavailable (backend_message d) (b\<lparr>bk_activeCallId := sd_CallId d\<rparr>))"

definition backend_ReceiveSignalingData :: "int \<Rightarrow> bytes \<Rightarrow> TgcallsBackend \<Rightarrow> TgcallsBackend answer" where
  "backend_ReceiveSignalingData callId data b =
     (if callId \<le> 0 \<or> data = [] then answer ResultInvalidArgument ''invalid signaling packet'' b
      else answer ResultOk [] b)"

definition backend_Stop :: "int \<Rightarrow> TgcallsBackend \<Rightarrow> TgcallsBackend answer" where
  "backend_Stop callId b = answer ResultOk [] (if bk_activeCallId b = callId then b\<lparr>bk_activeCallId := 0\<rparr> else b)"

definition backend_SetMuted :: "int \<Rightarrow> u8 \<Rightarrow> TgcallsBackend \<Rightarrow> TgcallsBackend answer" where
  "backend_SetMuted callId muted b = answer ResultOk [] (b\<lparr>bk_muted := if muted \<noteq> 0 then 1 else 0\<rparr>)"

definition backend_SetSpeaker :: "int \<Rightarrow> u8 \<Rightarrow> TgcallsBackend \<Rightarrow> TgcallsBackend answer" where
  "backend_SetSpeaker callId on b = answer ResultOk [] (b\<lparr>bk_speakerOn := if on \<noteq> 0 then 1 else 0\<rparr>)"

definition backend_GetSnapshot :: "int \<Rightarrow> TgcallsBackend \<Rightarrow> VianiumTgcallsSnapshot answer" where
  "backend_GetSnapshot callId b =
     answer ResultOk [] \<lparr>ns_State = (if bk_activeCallId b = 0 then 4 else 2), ns_CallId = callId,
       ns_Muted = bk_muted b, ns_SpeakerOn = bk_speakerOn b, ns_Stats = VoipMediaStats_default\<rparr>"


section \<open>A DLL\<close>

text \<open>
  What the client sees of a DLL: the names it exports, its version and its functions. A handle is null
  or an object. \<open>dl_create\<close> gives the handle it writes.
\<close>

record 'b TgcallsDll =
  dl_exports :: "string list"
  dl_GetAbiVersion :: int
  dl_Create :: "'b option answer"
  dl_Start :: "VianiumTgcallsStartDescriptor \<Rightarrow> 'b option \<Rightarrow> 'b option answer"
  dl_ReceiveSignalingData :: "int \<Rightarrow> bytes \<Rightarrow> 'b option \<Rightarrow> 'b option answer"
  dl_Stop :: "int \<Rightarrow> 'b option \<Rightarrow> 'b option answer"
  dl_SetMuted :: "int \<Rightarrow> u8 \<Rightarrow> 'b option \<Rightarrow> 'b option answer"
  dl_SetSpeaker :: "int \<Rightarrow> u8 \<Rightarrow> 'b option \<Rightarrow> 'b option answer"
  dl_GetSnapshot :: "int \<Rightarrow> 'b option \<Rightarrow> VianiumTgcallsSnapshot answer"

definition on_handle :: "('b \<Rightarrow> 'b answer) \<Rightarrow> 'b option answer \<Rightarrow> 'b option \<Rightarrow> 'b option answer" where
  "on_handle f null h = (case h of None \<Rightarrow> null | Some b \<Rightarrow> (case f b of (rc, r, b) \<Rightarrow> (rc, r, Some b)))"

text \<open>The exported functions of the bundled DLL.\<close>

definition VianiumTgcallsCreate :: "TgcallsBackend option answer" where
  "VianiumTgcallsCreate = answer ResultOk [] (Some TgcallsBackend_new)"

definition VianiumTgcallsStart :: "VianiumTgcallsStartDescriptor \<Rightarrow> TgcallsBackend option \<Rightarrow> TgcallsBackend option answer" where
  "VianiumTgcallsStart d = on_handle (backend_Start (Some d)) (answer ResultInvalidArgument ''handle is null'' None)"

definition VianiumTgcallsReceiveSignalingData ::
    "int \<Rightarrow> bytes \<Rightarrow> TgcallsBackend option \<Rightarrow> TgcallsBackend option answer" where
  "VianiumTgcallsReceiveSignalingData callId data =
     on_handle (backend_ReceiveSignalingData callId data) (answer ResultInvalidArgument ''handle is null'' None)"

definition VianiumTgcallsStop :: "int \<Rightarrow> TgcallsBackend option \<Rightarrow> TgcallsBackend option answer" where
  "VianiumTgcallsStop callId = on_handle (backend_Stop callId) (answer ResultOk [] None)"

definition VianiumTgcallsSetMuted :: "int \<Rightarrow> u8 \<Rightarrow> TgcallsBackend option \<Rightarrow> TgcallsBackend option answer" where
  "VianiumTgcallsSetMuted callId muted = on_handle (backend_SetMuted callId muted) (answer ResultOk [] None)"

definition VianiumTgcallsSetSpeaker :: "int \<Rightarrow> u8 \<Rightarrow> TgcallsBackend option \<Rightarrow> TgcallsBackend option answer" where
  "VianiumTgcallsSetSpeaker callId on = on_handle (backend_SetSpeaker callId on) (answer ResultOk [] None)"

text \<open>Without a handle the snapshot is left as the caller zeroed it.\<close>

definition VianiumTgcallsGetSnapshot :: "int \<Rightarrow> TgcallsBackend option \<Rightarrow> VianiumTgcallsSnapshot answer" where
  "VianiumTgcallsGetSnapshot callId h =
     (case h of
        None \<Rightarrow> answer ResultInvalidArgument ''handle is null''
                  \<lparr>ns_State = 0, ns_CallId = 0, ns_Muted = 0, ns_SpeakerOn = 0, ns_Stats = VoipMediaStats_default\<rparr>
      | Some b \<Rightarrow> backend_GetSnapshot callId b)"

definition required_exports :: "string list" where
  "required_exports = [''VianiumTgcallsGetAbiVersion'', ''VianiumTgcallsCreate'', ''VianiumTgcallsDestroy'',
     ''VianiumTgcallsStart'', ''VianiumTgcallsReceiveSignalingData'', ''VianiumTgcallsStop'']"

definition bundled_dll :: "TgcallsBackend TgcallsDll" where
  "bundled_dll = \<lparr>dl_exports = required_exports @ [''VianiumTgcallsSetMuted'', ''VianiumTgcallsSetSpeaker'', ''VianiumTgcallsGetSnapshot''],
     dl_GetAbiVersion = ABI_VERSION, dl_Create = VianiumTgcallsCreate, dl_Start = VianiumTgcallsStart,
     dl_ReceiveSignalingData = VianiumTgcallsReceiveSignalingData, dl_Stop = VianiumTgcallsStop,
     dl_SetMuted = VianiumTgcallsSetMuted, dl_SetSpeaker = VianiumTgcallsSetSpeaker,
     dl_GetSnapshot = VianiumTgcallsGetSnapshot\<rparr>"


section \<open>The client\<close>

text \<open>
  \<open>TgcallsMediaGraphStartContext\<close>: the fields of the start descriptor the engine does not read, the key,
  and the handler of outgoing signaling data (an empty \<open>std::function\<close> is \<open>None\<close>).
\<close>

record MediaCallDescriptor = VoipCallStartDescriptor +
  vd_AccessHash :: int
  vd_IsVideo :: bool
  vd_UdpP2p :: bool
  vd_KeyFingerprint :: int

record 'h TgcallsMediaGraphStartContext =
  mx_Descriptor :: MediaCallDescriptor
  mx_SharedKey :: bytes
  mx_SignalingDataProduced :: "'h option"

text \<open>
  The state. The function pointers are those of the loaded module: nothing calls them while
  \<open>m_module\<close> and \<open>m_handle\<close> are null.
\<close>

record ('b, 'h) DynamicTgcallsMediaGraph =
  mg_module :: "'b TgcallsDll option"
  mg_handle :: "'b option"
  mg_loadAttempted :: bool
  mg_activeCallId :: int
  mg_signalingDataProduced :: "'h option"

definition DynamicTgcallsMediaGraph_new :: "('b, 'h) DynamicTgcallsMediaGraph" where
  "DynamicTgcallsMediaGraph_new = \<lparr>mg_module = None, mg_handle = None, mg_loadAttempted = False,
     mg_activeCallId = 0, mg_signalingDataProduced = None\<rparr>"

definition LastWin32ErrorMessage :: "string \<Rightarrow> int \<Rightarrow> string" where
  "LastWin32ErrorMessage prefix code = prefix @ '' win32='' @ show_int code"

definition MapResultCode :: "int \<Rightarrow> VoipErrorKind" where
  "MapResultCode code =
     (if code = ResultUnavailable then Unavailable
      else if code = ResultInvalidArgument then InvalidArgument
      else if code = ResultCryptoUnavailable then CryptoUnavailable
      else if code = ResultTransportFailed then TransportFailed
      else if code = ResultCodecFailed then CodecFailed
      else if code = ResultAudioDeviceFailed then AudioDeviceFailed
      else InternalError)"

text \<open>\<open>LoadPackagedLibrary\<close>: the error code, or the DLL.\<close>

type_synonym 'b load = "int + 'b TgcallsDll"

definition mg_EnsureLoaded ::
    "'b load \<Rightarrow> ('b, 'h) DynamicTgcallsMediaGraph \<Rightarrow> VoipError \<times> ('b, 'h) DynamicTgcallsMediaGraph" where
  "mg_EnsureLoaded load g =
     (if mg_module g \<noteq> None then (VoipError_Ok, g)
      else if mg_loadAttempted g
      then (VoipError_Of Unavailable 0 ''Vianium.Tgcalls.dll is not loaded; package a modern tgcalls/WebRTC backend implementing VianiumTgcalls ABI v1'', g)
      else let g = g\<lparr>mg_loadAttempted := True\<rparr> in
        case load of
          Inl win32 \<Rightarrow>
            (VoipError_Of Unavailable 0 (LastWin32ErrorMessage
               (''Vianium.Tgcalls.dll was not found or could not be loaded; '' @
                ''build and bundle the modern tgcalls/WebRTC backend DLL'') win32), g)
        | Inr dll \<Rightarrow>
            if \<not> set required_exports \<subseteq> set (dl_exports dll)
            then (VoipError_Of Unavailable 0 ''Vianium.Tgcalls.dll does not export the required VianiumTgcalls ABI v1 entrypoints'', g)
            else if dl_GetAbiVersion dll \<noteq> ABI_VERSION
            then (VoipError_Of Unavailable 0 (''Vianium.Tgcalls.dll ABI mismatch; expected '' @ show_int ABI_VERSION @
                    '' got '' @ show_int (dl_GetAbiVersion dll)), g)
            else (VoipError_Ok, g\<lparr>mg_module := Some dll\<rparr>))"

definition mg_ToVoipError :: "int \<Rightarrow> VianiumTgcallsResult \<Rightarrow> string \<Rightarrow> VoipError" where
  "mg_ToVoipError returnCode result operation =
     (if returnCode = ResultOk \<and> rs_Code result = ResultOk then VoipError_Ok
      else VoipError_Of (MapResultCode (if rs_Code result = ResultOk then returnCode else rs_Code result))
             (if rs_NativeCode result = 0 then returnCode else rs_NativeCode result)
             (operation @ '' failed'' @ (if rs_Message result \<noteq> [] then '': '' @ rs_Message result else [])))"

definition mg_EnsureHandle ::
    "'b load \<Rightarrow> ('b, 'h) DynamicTgcallsMediaGraph \<Rightarrow> VoipError \<times> ('b, 'h) DynamicTgcallsMediaGraph" where
  "mg_EnsureHandle load g =
     (case mg_EnsureLoaded load g of (loaded, g) \<Rightarrow>
        if \<not> VoipError_IsOk loaded then (loaded, g)
        else if mg_handle g \<noteq> None then (VoipError_Ok, g)
        else case mg_module g of
          None \<Rightarrow> (loaded, g)
        | Some dll \<Rightarrow>
            case dl_Create dll of (rc, result, handle) \<Rightarrow>
              (mg_ToVoipError rc result ''VianiumTgcallsCreate'', g\<lparr>mg_handle := handle\<rparr>))"

text \<open>A call through a function pointer: it may change the object behind the handle, never the pointer.\<close>

definition mg_call ::
    "('b option \<Rightarrow> 'b option answer) \<Rightarrow> string \<Rightarrow> ('b, 'h) DynamicTgcallsMediaGraph \<Rightarrow>
     VoipError \<times> ('b, 'h) DynamicTgcallsMediaGraph" where
  "mg_call f operation g =
     (case f (mg_handle g) of (rc, result, after) \<Rightarrow>
        (mg_ToVoipError rc result operation,
         g\<lparr>mg_handle := (case mg_handle g of None \<Rightarrow> None | Some b \<Rightarrow> Some (case after of None \<Rightarrow> b | Some b' \<Rightarrow> b'))\<rparr>))"

definition abi_flag :: "bool \<Rightarrow> u8" where
  "abi_flag b = (if b then 1 else 0)"

definition abi_endpoint :: "VoipEndpoint \<Rightarrow> VianiumTgcallsEndpoint" where
  "abi_endpoint e = \<lparr>ab_Id = Id e, ab_Ip = VoipEndpoint.Ip e, ab_Ipv6 = Ipv6 e, ab_Port = VoipEndpoint.Port e,
     ab_PeerTag = PeerTag e, ab_IsWebRtc = abi_flag (IsWebRtc e), ab_Tcp = abi_flag (Tcp e),
     ab_Stun = abi_flag (Stun e), ab_Turn = abi_flag (Turn e), ab_Username = VoipEndpoint.Username e,
     ab_Password = VoipEndpoint.Password e, ab_ReflectorId = ReflectorId e\<rparr>"

definition abi_descriptor :: "'h TgcallsMediaGraphStartContext \<Rightarrow> VianiumTgcallsStartDescriptor" where
  "abi_descriptor context =
     (let d = mx_Descriptor context in
      \<lparr>sd_AbiVersion = ABI_VERSION, sd_CallId = vd_CallId d, sd_AccessHash = vd_AccessHash d,
       sd_IsInitiator = abi_flag (vd_IsInitiator d), sd_IsVideo = abi_flag (vd_IsVideo d),
       sd_UdpP2p = abi_flag (vd_UdpP2p d), sd_UdpReflector = abi_flag (vd_UdpReflector d),
       sd_MinLayer = vd_MinLayer d, sd_MaxLayer = vd_MaxLayer d, sd_KeyFingerprint = vd_KeyFingerprint d,
       sd_LibraryVersions = vd_LibraryVersions d, sd_Endpoints = map abi_endpoint (vd_Endpoints d),
       sd_SharedKey = mx_SharedKey context, sd_CallConfigJson = vd_CallConfigJson d\<rparr>)"

text \<open>The block that forgets a call, in \<open>Start\<close> and \<open>Stop\<close>.\<close>

definition mg_forget :: "int \<Rightarrow> ('b, 'h) DynamicTgcallsMediaGraph \<Rightarrow> ('b, 'h) DynamicTgcallsMediaGraph" where
  "mg_forget callId g =
     (if mg_activeCallId g = callId then g\<lparr>mg_activeCallId := 0, mg_signalingDataProduced := None\<rparr> else g)"

text \<open>
  \<open>Start\<close> in two steps: until the call is registered, and from the call of the backend on. The backend
  may produce signaling data, on its own threads too, between them.
\<close>

definition mg_start_begin ::
    "'b load \<Rightarrow> 'h TgcallsMediaGraphStartContext \<Rightarrow> ('b, 'h) DynamicTgcallsMediaGraph \<Rightarrow>
     VoipError \<times> ('b, 'h) DynamicTgcallsMediaGraph" where
  "mg_start_begin load context g =
     (case mg_EnsureHandle load g of (handle, g) \<Rightarrow>
        if \<not> VoipError_IsOk handle then (handle, g)
        else (VoipError_Ok, g\<lparr>mg_activeCallId := vd_CallId (mx_Descriptor context),
                mg_signalingDataProduced := mx_SignalingDataProduced context\<rparr>))"

definition mg_start_finish ::
    "'h TgcallsMediaGraphStartContext \<Rightarrow> ('b, 'h) DynamicTgcallsMediaGraph \<Rightarrow>
     VoipError \<times> ('b, 'h) DynamicTgcallsMediaGraph" where
  "mg_start_finish context g =
     (case mg_module g of
        None \<Rightarrow> (VoipError_Ok, g)
      | Some dll \<Rightarrow>
          case mg_call (dl_Start dll (abi_descriptor context)) ''VianiumTgcallsStart'' g of (start, g) \<Rightarrow>
            if \<not> VoipError_IsOk start then (start, mg_forget (vd_CallId (mx_Descriptor context)) g) else (start, g))"

definition mg_Start ::
    "'b load \<Rightarrow> 'h TgcallsMediaGraphStartContext \<Rightarrow> ('b, 'h) DynamicTgcallsMediaGraph \<Rightarrow>
     VoipError \<times> ('b, 'h) DynamicTgcallsMediaGraph" where
  "mg_Start load context g =
     (case mg_start_begin load context g of (e, g) \<Rightarrow>
        if \<not> VoipError_IsOk e then (e, g) else mg_start_finish context g)"

text \<open>The methods that ensure the handle and call one function, which may be missing (\<open>f\<close> gives \<open>None\<close>).\<close>

definition mg_with_handle ::
    "'b load \<Rightarrow> ('b TgcallsDll \<Rightarrow> ('b option \<Rightarrow> 'b option answer) option) \<Rightarrow> string \<Rightarrow>
     ('b, 'h) DynamicTgcallsMediaGraph \<Rightarrow> VoipError \<times> ('b, 'h) DynamicTgcallsMediaGraph" where
  "mg_with_handle load f operation g =
     (case mg_EnsureHandle load g of (handle, g) \<Rightarrow>
        if \<not> VoipError_IsOk handle then (handle, g)
        else case mg_module g of
          None \<Rightarrow> (handle, g)
        | Some dll \<Rightarrow> (case f dll of None \<Rightarrow> (VoipError_Ok, g) | Some f \<Rightarrow> mg_call f operation g))"

definition mg_ReceiveSignalingData ::
    "'b load \<Rightarrow> int \<Rightarrow> bytes \<Rightarrow> ('b, 'h) DynamicTgcallsMediaGraph \<Rightarrow> VoipError \<times> ('b, 'h) DynamicTgcallsMediaGraph" where
  "mg_ReceiveSignalingData load callId data =
     mg_with_handle load (\<lambda>dll. Some (dl_ReceiveSignalingData dll callId data)) ''VianiumTgcallsReceiveSignalingData''"

definition mg_Stop ::
    "'b load \<Rightarrow> int \<Rightarrow> ('b, 'h) DynamicTgcallsMediaGraph \<Rightarrow> VoipError \<times> ('b, 'h) DynamicTgcallsMediaGraph" where
  "mg_Stop load callId g =
     (case mg_EnsureLoaded load g of (loaded, g) \<Rightarrow>
        if \<not> VoipError_IsOk loaded then (VoipError_Ok, mg_forget callId g)
        else if mg_handle g = None then (VoipError_Ok, mg_forget callId g)
        else case mg_module g of
          None \<Rightarrow> (VoipError_Ok, mg_forget callId g)
        | Some dll \<Rightarrow>
            case mg_call (dl_Stop dll callId) ''VianiumTgcallsStop'' g of (e, g) \<Rightarrow> (e, mg_forget callId g))"

definition mg_SetMuted ::
    "'b load \<Rightarrow> int \<Rightarrow> bool \<Rightarrow> ('b, 'h) DynamicTgcallsMediaGraph \<Rightarrow> VoipError \<times> ('b, 'h) DynamicTgcallsMediaGraph" where
  "mg_SetMuted load callId muted =
     mg_with_handle load (\<lambda>dll. if ''VianiumTgcallsSetMuted'' \<in> set (dl_exports dll)
         then Some (dl_SetMuted dll callId (abi_flag muted)) else None) ''VianiumTgcallsSetMuted''"

definition mg_SetSpeaker ::
    "'b load \<Rightarrow> int \<Rightarrow> bool \<Rightarrow> ('b, 'h) DynamicTgcallsMediaGraph \<Rightarrow> VoipError \<times> ('b, 'h) DynamicTgcallsMediaGraph" where
  "mg_SetSpeaker load callId on =
     mg_with_handle load (\<lambda>dll. if ''VianiumTgcallsSetSpeaker'' \<in> set (dl_exports dll)
         then Some (dl_SetSpeaker dll callId (abi_flag on)) else None) ''VianiumTgcallsSetSpeaker''"

text \<open>A state of the backend that is none of the enumerators has no snapshot here (\<open>None\<close>).\<close>

definition media_state_of :: "int \<Rightarrow> VoipMediaState option" where
  "media_state_of state =
     (let n = state mod 256 in
      if n = 0 then Some Idle else if n = 1 then Some Prepared else if n = 2 then Some Connecting
      else if n = 3 then Some Active else if n = 4 then Some Stopped else None)"

definition mg_Snapshot :: "int \<Rightarrow> ('b, 'h) DynamicTgcallsMediaGraph \<Rightarrow> VoipMediaSnapshot option" where
  "mg_Snapshot callId g =
     (let snapshot = \<lparr>snap_State = Connecting, snap_CallId = callId, snap_Endpoint = VoipEndpoint_default,
        snap_Muted = False, snap_SpeakerOn = False, snap_Stats = VoipMediaStats_default\<rparr> in
      case (mg_handle g, mg_module g) of
        (Some b, Some dll) \<Rightarrow>
          if ''VianiumTgcallsGetSnapshot'' \<notin> set (dl_exports dll) then Some snapshot
          else (case dl_GetSnapshot dll callId (Some b) of (rc, result, native) \<Rightarrow>
            if rc \<noteq> ResultOk \<or> rs_Code result \<noteq> ResultOk then Some snapshot
            else map_option (\<lambda>st. snapshot\<lparr>snap_State := st, snap_CallId := ns_CallId native,
                   snap_Muted := ns_Muted native \<noteq> 0, snap_SpeakerOn := ns_SpeakerOn native \<noteq> 0,
                   snap_Stats := ns_Stats native\<rparr>) (media_state_of (ns_State native)))
      | _ \<Rightarrow> Some snapshot)"

text \<open>The callback: the handler it calls, with the arguments.\<close>

definition mg_OnSignalingDataProduced ::
    "int \<Rightarrow> bytes \<Rightarrow> ('b, 'h) DynamicTgcallsMediaGraph \<Rightarrow> ('h \<times> int \<times> bytes) option" where
  "mg_OnSignalingDataProduced callId data g =
     (if data = [] then None
      else if mg_activeCallId g \<noteq> callId then None
      else map_option (\<lambda>h. (h, callId, data)) (mg_signalingDataProduced g))"


section \<open>Runs\<close>

datatype 'h graph_event =
    GStartBegin "'h TgcallsMediaGraphStartContext"
  | GStartFinish "'h TgcallsMediaGraphStartContext"
  | GReceive int bytes
  | GStop int
  | GSetMuted int bool
  | GSetSpeaker int bool

fun graph_step :: "'b load \<Rightarrow> ('b, 'h) DynamicTgcallsMediaGraph \<Rightarrow> 'h graph_event \<Rightarrow> ('b, 'h) DynamicTgcallsMediaGraph" where
  "graph_step load g (GStartBegin context) = snd (mg_start_begin load context g)"
| "graph_step load g (GStartFinish context) = snd (mg_start_finish context g)"
| "graph_step load g (GReceive callId data) = snd (mg_ReceiveSignalingData load callId data g)"
| "graph_step load g (GStop callId) = snd (mg_Stop load callId g)"
| "graph_step load g (GSetMuted callId muted) = snd (mg_SetMuted load callId muted g)"
| "graph_step load g (GSetSpeaker callId on) = snd (mg_SetSpeaker load callId on g)"


section \<open>The handle\<close>

text \<open>A DLL the client accepts, and one that makes an object.\<close>

definition dll_accepted :: "'b TgcallsDll \<Rightarrow> bool" where
  "dll_accepted dll \<longleftrightarrow>
     set required_exports \<subseteq> set (dl_exports dll) \<and> dl_GetAbiVersion dll = ABI_VERSION"

definition load_usable :: "'b load \<Rightarrow> bool" where
  "load_usable load = (case load of Inl win32 \<Rightarrow> False | Inr dll \<Rightarrow> dll_accepted dll)"

definition mg_creates :: "'b TgcallsDll \<Rightarrow> bool" where
  "mg_creates dll = (case dl_Create dll of (rc, result, handle) \<Rightarrow> rc = ResultOk \<and> rs_Code result = ResultOk)"

text \<open>The handle is ensured without a change: the module is there, and the object too or every creation succeeds.\<close>

definition mg_ready :: "('b, 'h) DynamicTgcallsMediaGraph \<Rightarrow> bool" where
  "mg_ready g \<longleftrightarrow> (\<exists>dll. mg_module g = Some dll \<and> (mg_handle g \<noteq> None \<or> mg_creates dll))"

lemma MapResultCode_not_None [simp]: "MapResultCode code \<noteq> ErrNone"
  by (simp add: MapResultCode_def)

lemma ToVoipError_IsOk:
  "VoipError_IsOk (mg_ToVoipError rc result operation) \<longleftrightarrow> rc = ResultOk \<and> rs_Code result = ResultOk"
  by (simp add: mg_ToVoipError_def)

lemma EnsureLoaded_module [simp]: "mg_module g = Some dll \<Longrightarrow> mg_EnsureLoaded load g = (VoipError_Ok, g)"
  by (simp add: mg_EnsureLoaded_def)

lemma EnsureLoaded_ok:
  "mg_EnsureLoaded load g = (e, g') \<Longrightarrow> VoipError_IsOk e \<Longrightarrow> \<exists>dll. mg_module g' = Some dll"
  by (auto simp: mg_EnsureLoaded_def Let_def split: if_splits sum.splits)

lemma EnsureLoaded_call:
  "mg_EnsureLoaded load g = (e, g') \<Longrightarrow>
     mg_activeCallId g' = mg_activeCallId g \<and> mg_signalingDataProduced g' = mg_signalingDataProduced g
     \<and> mg_handle g' = mg_handle g"
  by (auto simp: mg_EnsureLoaded_def Let_def split: if_splits sum.splits)

lemma EnsureHandle_call:
  assumes "mg_EnsureHandle load g = (e, g')"
  shows "mg_activeCallId g' = mg_activeCallId g \<and> mg_signalingDataProduced g' = mg_signalingDataProduced g"
proof -
  obtain e1 g1 where l: "mg_EnsureLoaded load g = (e1, g1)"
    by fastforce
  show ?thesis
    using assms EnsureLoaded_call [OF l]
    by (auto simp: mg_EnsureHandle_def l split: if_splits option.splits prod.splits)
qed

lemma EnsureHandle_ready:
  assumes "mg_EnsureHandle load g = (e, g')" "VoipError_IsOk e"
  shows "mg_ready g'"
proof -
  obtain e1 g1 where l: "mg_EnsureLoaded load g = (e1, g1)"
    by fastforce
  have ok: "VoipError_IsOk e1"
    using assms by (auto simp: mg_EnsureHandle_def l split: if_splits)
  obtain dll where dll: "mg_module g1 = Some dll"
    using EnsureLoaded_ok [OF l ok] by blast
  show ?thesis
  proof (cases "mg_handle g1")
    case (Some b)
    then show ?thesis
      using assms dll by (auto simp: mg_EnsureHandle_def l ok mg_ready_def)
  next
    case None
    obtain rc result handle where c: "dl_Create dll = (rc, result, handle)"
      by (cases "dl_Create dll") auto
    have "rc = ResultOk \<and> rs_Code result = ResultOk" "g' = g1\<lparr>mg_handle := handle\<rparr>"
      using assms None by (auto simp: mg_EnsureHandle_def l ok dll c ToVoipError_IsOk)
    then show ?thesis
      using dll c by (simp add: mg_ready_def mg_creates_def)
  qed
qed

lemma EnsureHandle_when_ready:
  assumes "mg_ready g" "mg_EnsureHandle load g = (e, g')"
  shows "VoipError_IsOk e" "mg_ready g'" "mg_module g' = mg_module g"
proof -
  obtain dll where dll: "mg_module g = Some dll" "mg_handle g \<noteq> None \<or> mg_creates dll"
    using assms by (auto simp: mg_ready_def)
  obtain rc result handle where c: "dl_Create dll = (rc, result, handle)"
    by (cases "dl_Create dll") auto
  show ok: "VoipError_IsOk e"
    using assms dll c
    by (auto simp: mg_EnsureHandle_def mg_creates_def ToVoipError_IsOk split: if_splits)
  show "mg_ready g'"
    by (rule EnsureHandle_ready [OF assms(2) ok])
  show "mg_module g' = mg_module g"
    using assms dll c by (auto simp: mg_EnsureHandle_def split: if_splits)
qed

lemma mg_call_facts:
  assumes "mg_call f operation g = (e, g')"
  shows "mg_module g' = mg_module g" "mg_handle g' = None \<longleftrightarrow> mg_handle g = None"
    "mg_activeCallId g' = mg_activeCallId g" "mg_signalingDataProduced g' = mg_signalingDataProduced g"
    "mg_loadAttempted g' = mg_loadAttempted g"
  using assms by (auto simp: mg_call_def split: prod.splits option.splits)

lemma mg_forget_facts [simp]:
  "mg_module (mg_forget c g) = mg_module g" "mg_handle (mg_forget c g) = mg_handle g"
  "mg_loadAttempted (mg_forget c g) = mg_loadAttempted g" "mg_ready (mg_forget c g) = mg_ready g"
  by (simp_all add: mg_forget_def mg_ready_def)

lemma mg_call_ready: "mg_call f operation g = (e, g') \<Longrightarrow> mg_ready g' = mg_ready g"
  using mg_call_facts(1,2) [of f operation g e g'] by (auto simp: mg_ready_def)

lemma mg_with_handle_call:
  assumes "mg_with_handle load f operation g = (e, g')"
  shows "mg_activeCallId g' = mg_activeCallId g" "mg_signalingDataProduced g' = mg_signalingDataProduced g"
    "mg_ready g \<Longrightarrow> mg_ready g'"
proof -
  obtain e1 g1 where h: "mg_EnsureHandle load g = (e1, g1)"
    by fastforce
  note h1 = EnsureHandle_call [OF h]
  have cases: "g' = g1 \<or> (\<exists>f'. mg_call f' operation g1 = (e, g'))"
    using assms by (auto simp: mg_with_handle_def h split: if_splits option.splits)
  show "mg_activeCallId g' = mg_activeCallId g" "mg_signalingDataProduced g' = mg_signalingDataProduced g"
    using cases h1 mg_call_facts(3,4) by metis+
  show "mg_ready g'" if "mg_ready g"
    using cases mg_call_ready EnsureHandle_when_ready(2) [OF that h] by metis
qed

lemmas with_handle_methods = mg_ReceiveSignalingData_def mg_SetMuted_def mg_SetSpeaker_def


section \<open>Which call the callback serves\<close>

text \<open>The last registration in a run is for the active call and gave the handler.\<close>

definition registered :: "'h graph_event list \<Rightarrow> int \<Rightarrow> 'h \<Rightarrow> bool" where
  "registered es c h \<longleftrightarrow> (\<exists>pre ctx post. es = pre @ GStartBegin ctx # post
      \<and> vd_CallId (mx_Descriptor ctx) = c \<and> mx_SignalingDataProduced ctx = Some h
      \<and> (\<forall>e \<in> set post. e \<noteq> GStop c \<and> (\<forall>ctx'. e \<noteq> GStartBegin ctx')))"

lemma registered_now:
  "vd_CallId (mx_Descriptor ctx) = c \<Longrightarrow> mx_SignalingDataProduced ctx = Some h \<Longrightarrow>
     registered (es @ [GStartBegin ctx]) c h"
  unfolding registered_def by (intro exI [of _ es] exI [of _ ctx] exI [of _ "[]"]) simp

lemma registered_later:
  assumes "registered es c h" "e \<noteq> GStop c" "\<forall>ctx'. e \<noteq> GStartBegin ctx'"
  shows "registered (es @ [e]) c h"
proof -
  obtain pre ctx post where "es = pre @ GStartBegin ctx # post" "vd_CallId (mx_Descriptor ctx) = c"
    "mx_SignalingDataProduced ctx = Some h" "\<forall>e \<in> set post. e \<noteq> GStop c \<and> (\<forall>ctx'. e \<noteq> GStartBegin ctx')"
    using assms by (auto simp: registered_def)
  then show ?thesis
    unfolding registered_def using assms(2,3)
    by (intro exI [of _ pre] exI [of _ ctx] exI [of _ "post @ [e]"]) auto
qed

definition graph_trace :: "'h graph_event list \<Rightarrow> ('b, 'h) DynamicTgcallsMediaGraph \<Rightarrow> bool" where
  "graph_trace es g \<longleftrightarrow> (\<forall>h. mg_signalingDataProduced g = Some h \<longrightarrow> mg_ready g \<and> registered es (mg_activeCallId g) h)"

lemma graph_trace_kept:
  assumes "graph_trace es g" "\<forall>ctx'. e \<noteq> GStartBegin ctx'"
    and "mg_signalingDataProduced g' = None \<or> mg_signalingDataProduced g' = mg_signalingDataProduced g
           \<and> mg_activeCallId g' = mg_activeCallId g \<and> (mg_ready g \<longrightarrow> mg_ready g') \<and> e \<noteq> GStop (mg_activeCallId g)"
  shows "graph_trace (es @ [e]) g'"
  using assms registered_later by (fastforce simp: graph_trace_def)

lemma start_finish_call:
  assumes "mg_start_finish ctx g = (e, g')"
  shows "mg_signalingDataProduced g' = None \<or> mg_signalingDataProduced g' = mg_signalingDataProduced g
           \<and> mg_activeCallId g' = mg_activeCallId g \<and> (mg_ready g \<longrightarrow> mg_ready g')"
proof (cases "mg_module g")
  case None
  then show ?thesis
    using assms by (simp add: mg_start_finish_def)
next
  case (Some dll)
  obtain e1 g1 where c: "mg_call (dl_Start dll (abi_descriptor ctx)) ''VianiumTgcallsStart'' g = (e1, g1)"
    by fastforce
  show ?thesis
    using assms mg_call_facts(3,4) [OF c] mg_call_ready [OF c]
    by (auto simp: mg_start_finish_def Some c mg_forget_def split: if_splits)
qed

lemma Stop_call:
  assumes "mg_Stop load c g = (e, g')"
  shows "mg_signalingDataProduced g' = None \<or> mg_signalingDataProduced g' = mg_signalingDataProduced g
           \<and> mg_activeCallId g' = mg_activeCallId g \<and> (mg_ready g \<longrightarrow> mg_ready g') \<and> c \<noteq> mg_activeCallId g"
proof -
  obtain e1 g1 where l: "mg_EnsureLoaded load g = (e1, g1)"
    by fastforce
  have l1: "mg_activeCallId g1 = mg_activeCallId g" "mg_signalingDataProduced g1 = mg_signalingDataProduced g"
    using EnsureLoaded_call [OF l] by simp_all
  have r1: "mg_ready g \<longrightarrow> mg_ready g1"
    using l by (auto simp: mg_ready_def)
  obtain g2 where g2: "g' = mg_forget c g2" "g2 = g1 \<or> (\<exists>f e. mg_call f ''VianiumTgcallsStop'' g1 = (e, g2))"
    using assms by (auto simp: mg_Stop_def l split: if_splits option.splits prod.splits)
  have g2_facts: "mg_activeCallId g2 = mg_activeCallId g1" "mg_signalingDataProduced g2 = mg_signalingDataProduced g1"
      "mg_ready g2 = mg_ready g1"
    using g2(2) mg_call_facts(3,4) mg_call_ready by metis+
  show ?thesis
    using l1 r1 g2(1) g2_facts by (auto simp: mg_forget_def mg_ready_def)
qed

lemma start_begin_trace:
  assumes "graph_trace es g" "mg_start_begin load ctx g = (e, g')"
  shows "graph_trace (es @ [GStartBegin ctx]) g'"
proof -
  obtain e1 g1 where h: "mg_EnsureHandle load g = (e1, g1)"
    by fastforce
  show ?thesis
  proof (cases "VoipError_IsOk e1")
    case True
    then have "mg_ready g1"
      by (rule EnsureHandle_ready [OF h])
    then show ?thesis
      using assms(2) True by (auto simp: mg_start_begin_def h graph_trace_def mg_ready_def intro!: registered_now)
  next
    case False
    then have "\<not> mg_ready g" "mg_signalingDataProduced g1 = mg_signalingDataProduced g"
      using EnsureHandle_when_ready(1) [OF _ h] EnsureHandle_call [OF h] by blast+
    then show ?thesis
      using assms False by (auto simp: mg_start_begin_def h graph_trace_def)
  qed
qed

lemma graph_step_trace: "graph_trace es g \<Longrightarrow> graph_trace (es @ [e]) (graph_step load g e)"
proof (cases e)
  case (GStartBegin ctx)
  assume "graph_trace es g"
  then show ?thesis
    using start_begin_trace [of es g load ctx] by (cases "mg_start_begin load ctx g") (simp add: GStartBegin)
next
  case (GStartFinish ctx)
  assume t: "graph_trace es g"
  obtain e1 g1 where f: "mg_start_finish ctx g = (e1, g1)"
    by fastforce
  show ?thesis
    using start_finish_call [OF f] by (intro graph_trace_kept [OF t]) (auto simp: GStartFinish f)
next
  case (GStop c)
  assume t: "graph_trace es g"
  obtain e1 g1 where f: "mg_Stop load c g = (e1, g1)"
    by fastforce
  show ?thesis
    using Stop_call [OF f] by (intro graph_trace_kept [OF t]) (auto simp: GStop f)
next
  case (GReceive c data)
  assume t: "graph_trace es g"
  obtain e1 g1 where f: "mg_ReceiveSignalingData load c data g = (e1, g1)"
    by fastforce
  show ?thesis
    using mg_with_handle_call [OF f [unfolded with_handle_methods]]
    by (intro graph_trace_kept [OF t]) (auto simp: GReceive f)
next
  case (GSetMuted c m)
  assume t: "graph_trace es g"
  obtain e1 g1 where f: "mg_SetMuted load c m g = (e1, g1)"
    by fastforce
  show ?thesis
    using mg_with_handle_call [OF f [unfolded with_handle_methods]]
    by (intro graph_trace_kept [OF t]) (auto simp: GSetMuted f)
next
  case (GSetSpeaker c m)
  assume t: "graph_trace es g"
  obtain e1 g1 where f: "mg_SetSpeaker load c m g = (e1, g1)"
    by fastforce
  show ?thesis
    using mg_with_handle_call [OF f [unfolded with_handle_methods]]
    by (intro graph_trace_kept [OF t]) (auto simp: GSetSpeaker f)
qed

lemma graph_run_trace: "graph_trace es (run_steps (graph_step load) DynamicTgcallsMediaGraph_new es)"
proof (induction es rule: rev_induct)
  case Nil
  then show ?case
    by (simp add: graph_trace_def DynamicTgcallsMediaGraph_new_def)
next
  case (snoc e es)
  then show ?case
    using graph_step_trace [OF snoc] by (simp add: run_steps_append)
qed


text \<open>
  Claim C40: Signaling data of a backend reaches a handler only for the call it belongs to. Whatever DLL
  is loaded and however its callbacks fall between the calls of the graph, a handler gets the bytes
  unchanged and not empty, it is the one the last \<open>Start\<close> registered, that start was for the same call, and
  the call was not stopped since.
\<close>

theorem callback_serves_its_call:
  assumes "mg_OnSignalingDataProduced c data (run_steps (graph_step load) DynamicTgcallsMediaGraph_new es)
             = Some (h, c', data')"
  shows "c' = c \<and> data' = data \<and> data \<noteq> [] \<and>
     (\<exists>pre ctx post. es = pre @ GStartBegin ctx # post
        \<and> vd_CallId (mx_Descriptor ctx) = c \<and> mx_SignalingDataProduced ctx = Some h
        \<and> (\<forall>e \<in> set post. e \<noteq> GStop c \<and> (\<forall>ctx'. e \<noteq> GStartBegin ctx')))"
proof -
  let ?g = "run_steps (graph_step load) DynamicTgcallsMediaGraph_new es"
  have g: "mg_activeCallId ?g = c" "mg_signalingDataProduced ?g = Some h" "c' = c" "data' = data" "data \<noteq> []"
    using assms by (auto simp: mg_OnSignalingDataProduced_def split: if_splits)
  then show ?thesis
    using graph_run_trace [of es load] by (simp add: graph_trace_def registered_def)
qed

definition sample_media_call :: MediaCallDescriptor where
  "sample_media_call = \<lparr>vd_CallId = 7, vd_IsInitiator = True, vd_UdpReflector = True, vd_MinLayer = 65, vd_MaxLayer = 92,
     vd_LibraryVersions = [''2.4.4''], vd_KeyHandle = ''k'', vd_Endpoints = [VoipEndpoint_default], vd_CallConfigJson = [],
     vd_AccessHash = 1, vd_IsVideo = False, vd_UdpP2p = False, vd_KeyFingerprint = 5\<rparr>"

definition sample_start_context :: "nat TgcallsMediaGraphStartContext" where
  "sample_start_context = \<lparr>mx_Descriptor = sample_media_call, mx_SharedKey = replicate 256 0,
     mx_SignalingDataProduced = Some (3::nat)\<rparr>"

lemma bundled_accepted [simp]: "dll_accepted bundled_dll"
  by (simp add: dll_accepted_def bundled_dll_def required_exports_def)

lemma EnsureLoaded_accepted:
  "dll_accepted dll \<Longrightarrow> mg_module g = None \<Longrightarrow> \<not> mg_loadAttempted g \<Longrightarrow>
     mg_EnsureLoaded (Inr dll) g = (VoipError_Ok, g\<lparr>mg_loadAttempted := True, mg_module := Some dll\<rparr>)"
  by (simp add: mg_EnsureLoaded_def dll_accepted_def Let_def)

lemma bundled_create: "dl_Create bundled_dll = answer ResultOk [] (Some TgcallsBackend_new)"
  by (simp add: bundled_dll_def VianiumTgcallsCreate_def)

theorem callback_serves_its_call_witness:
  "\<exists>pre ctx post. [GStartBegin sample_start_context] = pre @ GStartBegin ctx # post
     \<and> vd_CallId (mx_Descriptor ctx) = 7 \<and> mx_SignalingDataProduced ctx = Some 3"
proof -
  have "mg_OnSignalingDataProduced 7 [1::u8]
      (run_steps (graph_step (Inr bundled_dll)) DynamicTgcallsMediaGraph_new [GStartBegin sample_start_context])
      = Some (3, 7, [1])"
    by (simp add: mg_start_begin_def mg_EnsureHandle_def EnsureLoaded_accepted DynamicTgcallsMediaGraph_new_def
        bundled_create answer_def VianiumTgcallsSetResult_def ResultOk_def c_str_def mg_ToVoipError_def
        mg_OnSignalingDataProduced_def sample_start_context_def sample_media_call_def)
  from callback_serves_its_call [OF this] show ?thesis
    by blast
qed


section \<open>The bundled DLL\<close>

definition bundled_inv :: "(TgcallsBackend, 'h) DynamicTgcallsMediaGraph \<Rightarrow> bool" where
  "bundled_inv g \<longleftrightarrow>
     (case mg_module g of
        None \<Rightarrow> mg_handle g = None \<and> \<not> mg_loadAttempted g
      | Some dll \<Rightarrow> dll = bundled_dll)"

lemma bundled_EnsureHandle:
  assumes "bundled_inv g" "mg_EnsureHandle (Inr bundled_dll) g = (e, g')"
  shows "VoipError_IsOk e" "mg_module g' = Some bundled_dll" "\<exists>b. mg_handle g' = Some b"
  using assms
  by (auto simp: bundled_inv_def mg_EnsureHandle_def EnsureLoaded_accepted bundled_create answer_def
      VianiumTgcallsSetResult_def ResultOk_def c_str_def mg_ToVoipError_def split: option.splits if_splits)

lemma bundled_with_handle:
  assumes "bundled_inv g" "mg_with_handle (Inr bundled_dll) f operation g = (e, g')"
  shows "bundled_inv g'"
proof -
  obtain e1 g1 where h: "mg_EnsureHandle (Inr bundled_dll) g = (e1, g1)"
    by fastforce
  note h1 = bundled_EnsureHandle [OF assms(1) h]
  have "g' = g1 \<or> (\<exists>f'. mg_call f' operation g1 = (e, g'))"
    using assms(2) by (auto simp: mg_with_handle_def h split: if_splits option.splits)
  then show ?thesis
    using h1(2) mg_call_facts(1) by (fastforce simp: bundled_inv_def)
qed

lemma bundled_methods:
  "bundled_inv g \<Longrightarrow> bundled_inv (snd (mg_with_handle (Inr bundled_dll) f operation g))"
  using bundled_with_handle by (metis prod.collapse)

lemma bundled_Stop:
  assumes "bundled_inv g"
  shows "bundled_inv (snd (mg_Stop (Inr bundled_dll) c g))"
proof -
  obtain e1 g1 where l: "mg_EnsureLoaded (Inr bundled_dll) g = (e1, g1)"
    by fastforce
  have m: "mg_module g1 = Some bundled_dll"
    using assms l by (cases "mg_module g") (auto simp: bundled_inv_def EnsureLoaded_accepted)
  obtain e2 g2 where s: "mg_call (dl_Stop bundled_dll c) ''VianiumTgcallsStop'' g1 = (e2, g2)"
    by fastforce
  show ?thesis
    using m mg_call_facts(1) [OF s] by (simp add: mg_Stop_def l s bundled_inv_def)
qed

lemma bundled_start_begin:
  assumes "bundled_inv g" "mg_start_begin (Inr bundled_dll) ctx g = (e, g')"
  shows "VoipError_IsOk e" "mg_module g' = Some bundled_dll" "\<exists>b. mg_handle g' = Some b"
    "mg_activeCallId g' = vd_CallId (mx_Descriptor ctx)"
proof -
  obtain e1 g1 where h: "mg_EnsureHandle (Inr bundled_dll) g = (e1, g1)"
    by fastforce
  note h1 = bundled_EnsureHandle [OF assms(1) h]
  show "VoipError_IsOk e" "mg_module g' = Some bundled_dll" "\<exists>b. mg_handle g' = Some b"
    "mg_activeCallId g' = vd_CallId (mx_Descriptor ctx)"
    using assms(2) h1 by (auto simp: mg_start_begin_def h)
qed

lemma start_finish_module: "mg_module (snd (mg_start_finish ctx g)) = mg_module g"
proof (cases "mg_module g")
  case None
  then show ?thesis
    by (simp add: mg_start_finish_def)
next
  case (Some dll)
  obtain e1 g1 where c: "mg_call (dl_Start dll (abi_descriptor ctx)) ''VianiumTgcallsStart'' g = (e1, g1)"
    by fastforce
  show ?thesis
    using mg_call_facts(1) [OF c] by (simp add: mg_start_finish_def Some c)
qed

lemma bundled_start_finish:
  "bundled_inv g \<Longrightarrow> bundled_inv (snd (mg_start_finish ctx g))"
  by (cases "mg_module g") (simp_all add: bundled_inv_def start_finish_module, simp add: mg_start_finish_def)

interpretation bundled_graph: reactive "graph_step (Inr bundled_dll)" bundled_inv DynamicTgcallsMediaGraph_new
proof
  show "bundled_inv DynamicTgcallsMediaGraph_new"
    by (simp add: bundled_inv_def DynamicTgcallsMediaGraph_new_def)
next
  fix g :: "(TgcallsBackend, 'h) DynamicTgcallsMediaGraph" and e
  assume g: "bundled_inv g"
  show "bundled_inv (graph_step (Inr bundled_dll) g e)"
  proof (cases e)
    case (GStartBegin ctx)
    obtain e1 g1 where "mg_start_begin (Inr bundled_dll) ctx g = (e1, g1)"
      by fastforce
    then show ?thesis
      using bundled_start_begin(2) [OF g] by (auto simp: GStartBegin bundled_inv_def)
  qed (simp_all add: with_handle_methods bundled_methods bundled_Stop bundled_start_finish g)
qed


text \<open>The answer of the bundled backend to a start, and the error the client makes of it.\<close>

definition bundled_start_kind :: "'h TgcallsMediaGraphStartContext \<Rightarrow> VoipErrorKind" where
  "bundled_start_kind context =
     (if vd_CallId (mx_Descriptor context) \<le> 0 then InvalidArgument
      else if length (mx_SharedKey context) \<noteq> 256 then CryptoUnavailable
      else if vd_Endpoints (mx_Descriptor context) = [] then TransportFailed
      else Unavailable)"

lemma backend_start_kind:
  assumes "backend_Start (Some (abi_descriptor context)) b = (rc, result, b')"
  shows "rc \<noteq> ResultOk" "Kind (mg_ToVoipError rc result operation) = bundled_start_kind context"
proof -
  have a: "backend_Start (Some (abi_descriptor context)) b = answer rc' m b'' \<Longrightarrow>
      rc = rc' \<and> rs_Code result = rc'" for rc' m b''
    using assms by (simp add: answer_def VianiumTgcallsSetResult_def)
  have "rc \<noteq> ResultOk \<and> rs_Code result = rc \<and> MapResultCode rc = bundled_start_kind context"
    using a assms
    by (auto simp: backend_Start_def abi_descriptor_def Let_def bundled_start_kind_def MapResultCode_def
        result_codes answer_def VianiumTgcallsSetResult_def split: if_splits)
  then show "rc \<noteq> ResultOk" "Kind (mg_ToVoipError rc result operation) = bundled_start_kind context"
    by (auto simp: mg_ToVoipError_def VoipError_Of_def)
qed

lemma bundled_Start:
  assumes "bundled_inv g" "mg_Start (Inr bundled_dll) context g = (e, g')"
  shows "Kind e = bundled_start_kind context" "\<not> VoipError_IsOk e"
    "mg_activeCallId g' = 0" "mg_signalingDataProduced g' = None"
proof -
  obtain e1 g1 where b: "mg_start_begin (Inr bundled_dll) context g = (e1, g1)"
    by fastforce
  note b1 = bundled_start_begin [OF assms(1) b]
  obtain o1 where o1: "mg_handle g1 = Some o1"
    using b1(3) by blast
  obtain rc result o2 where s: "backend_Start (Some (abi_descriptor context)) o1 = (rc, result, o2)"
    by (metis prod_cases3)
  let ?e = "mg_ToVoipError rc result ''VianiumTgcallsStart''"
  note k = backend_start_kind(1) [OF s] backend_start_kind(2) [OF s, of "''VianiumTgcallsStart''"]
  have bad: "\<not> VoipError_IsOk ?e"
    using k(1) by (simp add: ToVoipError_IsOk)
  have "mg_call (dl_Start bundled_dll (abi_descriptor context)) ''VianiumTgcallsStart'' g1
      = (?e, g1\<lparr>mg_handle := Some o2\<rparr>)"
    by (simp add: mg_call_def o1 bundled_dll_def VianiumTgcallsStart_def on_handle_def s)
  then have r: "(e, g') = (?e, mg_forget (vd_CallId (mx_Descriptor context)) (g1\<lparr>mg_handle := Some o2\<rparr>))"
    using assms(2) bad by (simp add: mg_Start_def b b1(1,2) mg_start_finish_def)
  then show "Kind e = bundled_start_kind context" "\<not> VoipError_IsOk e"
    using k bad by simp_all
  show "mg_activeCallId g' = 0" "mg_signalingDataProduced g' = None"
    using r b1(4) by (simp_all add: mg_forget_def)
qed

text \<open>
  The DLL built from this repository is accepted by its client, and no call ever starts on it:
  after any run of the graph, \<open>Start\<close> fails with invalid argument, missing crypto, no transport or,
  for a well formed descriptor, unavailable, in the order the backend checks, and leaves no active call
  and no handler a callback could reach.
\<close>

theorem bundled_backend_never_starts:
  "let g = run_steps (graph_step (Inr bundled_dll)) DynamicTgcallsMediaGraph_new es;
       (e, g') = mg_Start (Inr bundled_dll) context g in
   VoipError_IsOk (fst (mg_EnsureHandle (Inr bundled_dll) g)) \<and> \<not> VoipError_IsOk e
   \<and> Kind e = bundled_start_kind context \<and> mg_activeCallId g' = 0
   \<and> mg_OnSignalingDataProduced c data g' = None"
proof -
  let ?g = "run_steps (graph_step (Inr bundled_dll)) DynamicTgcallsMediaGraph_new es"
  obtain e g' where s: "mg_Start (Inr bundled_dll) context ?g = (e, g')"
    by fastforce
  obtain e1 g1 where h: "mg_EnsureHandle (Inr bundled_dll) ?g = (e1, g1)"
    by fastforce
  note inv = bundled_graph.inv_run [of es]
  show ?thesis
    using bundled_Start [OF inv s] bundled_EnsureHandle(1) [OF inv h]
    by (simp add: s h mg_OnSignalingDataProduced_def)
qed


section \<open>A DLL that cannot be used\<close>

definition unloaded_inv :: "('b, 'h) DynamicTgcallsMediaGraph \<Rightarrow> bool" where
  "unloaded_inv g \<longleftrightarrow> mg_module g = None \<and> mg_handle g = None
     \<and> mg_activeCallId g = 0 \<and> mg_signalingDataProduced g = None"

lemma unusable_EnsureLoaded:
  assumes "\<not> load_usable load" "unloaded_inv g" "mg_EnsureLoaded load g = (e, g')"
  shows "Kind e = Unavailable" "unloaded_inv g'" "mg_loadAttempted g'"
  using assms
  by (auto simp: mg_EnsureLoaded_def load_usable_def dll_accepted_def unloaded_inv_def Let_def VoipError_Of_def
      split: if_splits sum.splits)

lemma unusable_EnsureHandle:
  assumes "\<not> load_usable load" "unloaded_inv g" "mg_EnsureHandle load g = (e, g')"
  shows "Kind e = Unavailable" "unloaded_inv g'" "\<not> VoipError_IsOk e"
proof -
  obtain e1 g1 where l: "mg_EnsureLoaded load g = (e1, g1)"
    by fastforce
  note l1 = unusable_EnsureLoaded [OF assms(1,2) l]
  have "\<not> VoipError_IsOk e1"
    using l1(1) by (simp add: VoipError_IsOk_def)
  then show "Kind e = Unavailable" "unloaded_inv g'" "\<not> VoipError_IsOk e"
    using assms(3) l1 by (auto simp: mg_EnsureHandle_def l)
qed

lemma unusable_with_handle:
  assumes "\<not> load_usable load" "unloaded_inv g"
  shows "Kind (fst (mg_with_handle load f operation g)) = Unavailable"
    "unloaded_inv (snd (mg_with_handle load f operation g))"
  using unusable_EnsureHandle [OF assms]
  by (cases "mg_EnsureHandle load g"; simp add: mg_with_handle_def)+

lemma unusable_Stop:
  assumes "\<not> load_usable load" "unloaded_inv g"
  shows "fst (mg_Stop load c g) = VoipError_Ok" "unloaded_inv (snd (mg_Stop load c g))"
proof -
  obtain e1 g1 where l: "mg_EnsureLoaded load g = (e1, g1)"
    by fastforce
  note l1 = unusable_EnsureLoaded [OF assms l]
  have "mg_Stop load c g = (VoipError_Ok, mg_forget c g1)"
    using l1(1) by (simp add: mg_Stop_def l VoipError_IsOk_def)
  moreover have "unloaded_inv (mg_forget c g1)"
    using l1(2) by (simp add: mg_forget_def unloaded_inv_def)
  ultimately show "fst (mg_Stop load c g) = VoipError_Ok" "unloaded_inv (snd (mg_Stop load c g))"
    by simp_all
qed

lemma unusable_start:
  assumes "\<not> load_usable load" "unloaded_inv g"
  shows "Kind (fst (mg_start_begin load context g)) = Unavailable"
    "unloaded_inv (snd (mg_start_begin load context g))" "Kind (fst (mg_Start load context g)) = Unavailable"
  using unusable_EnsureHandle [OF assms]
  by (cases "mg_EnsureHandle load g"; simp add: mg_start_begin_def mg_Start_def)+

lemma unusable_step:
  assumes "\<not> load_usable load" "unloaded_inv g"
  shows "unloaded_inv (graph_step load g e)"
proof (cases e)
  case (GStartFinish ctx)
  then show ?thesis
    using assms(2) by (simp add: mg_start_finish_def unloaded_inv_def)
qed (simp_all only: graph_step.simps with_handle_methods unusable_start(2) [OF assms] unusable_Stop(2) [OF assms]
       unusable_with_handle(2) [OF assms])

lemma unusable_run:
  assumes "\<not> load_usable load"
  shows "unloaded_inv (run_steps (graph_step load) DynamicTgcallsMediaGraph_new es)"
proof (induction es rule: rev_induct)
  case Nil
  then show ?case
    by (simp add: unloaded_inv_def DynamicTgcallsMediaGraph_new_def)
next
  case (snoc e es)
  then show ?case
    by (simp add: unusable_step [OF assms])
qed

text \<open>
  Without a usable DLL (it does not load, misses a required entry point or has another ABI
  version) the graph degrades the same way for ever: every operation but \<open>Stop\<close> answers
  unavailable, \<open>Stop\<close> succeeds, a snapshot reads connecting with no audio flags, and no function of the
  DLL is ever called, since no handle exists.
\<close>

theorem unusable_backend_is_reported:
  assumes "\<not> load_usable load"
  shows "let g = run_steps (graph_step load) DynamicTgcallsMediaGraph_new es in
    Kind (fst (mg_Start load context g)) = Unavailable
    \<and> Kind (fst (mg_ReceiveSignalingData load c data g)) = Unavailable
    \<and> Kind (fst (mg_SetMuted load c m g)) = Unavailable \<and> Kind (fst (mg_SetSpeaker load c m g)) = Unavailable
    \<and> fst (mg_Stop load c g) = VoipError_Ok \<and> mg_handle g = None
    \<and> map_option snap_State (mg_Snapshot c g) = Some Connecting"
proof -
  let ?g = "run_steps (graph_step load) DynamicTgcallsMediaGraph_new es"
  have inv: "unloaded_inv ?g"
    by (rule unusable_run [OF assms])
  then have h: "mg_handle ?g = None"
    by (simp add: unloaded_inv_def)
  then have "map_option snap_State (mg_Snapshot c ?g) = Some Connecting"
    by (simp add: mg_Snapshot_def Let_def)
  then show ?thesis
    using h by (simp add: unusable_start(3) unusable_Stop(1) unusable_with_handle(1) assms inv with_handle_methods)
qed

theorem unusable_backend_is_reported_witness:
  "\<exists>g :: (TgcallsBackend, nat) DynamicTgcallsMediaGraph.
     Kind (fst (mg_Start (Inr (bundled_dll\<lparr>dl_GetAbiVersion := 2\<rparr>)) sample_start_context g)) = Unavailable"
proof -
  have bad: "\<not> load_usable (Inr (bundled_dll\<lparr>dl_GetAbiVersion := 2\<rparr>))"
    by (simp add: load_usable_def dll_accepted_def ABI_VERSION_def)
  show ?thesis
    using unusable_backend_is_reported [OF bad, of "[]" sample_start_context 7 "[]" True] by (auto simp: Let_def)
qed

text \<open>
  After a failed start on the bundled DLL its object keeps the call as active: its snapshots read connecting
  until the call is stopped.
\<close>

lemma failed_start_still_connecting:
  "ns_State (snd (snd (VianiumTgcallsGetSnapshot 7
      (snd (snd (VianiumTgcallsStart (abi_descriptor sample_start_context) (Some TgcallsBackend_new))))))) = 2"
  by (simp add: VianiumTgcallsStart_def VianiumTgcallsGetSnapshot_def on_handle_def backend_Start_def
      backend_GetSnapshot_def abi_descriptor_def sample_start_context_def sample_media_call_def ABI_VERSION_def
      answer_def TgcallsBackend_new_def Let_def)

end
