(* ===== verification/VoipApi.thy ===== *)
theory VoipApi
  imports VoipEngine MediaGraph Srtp SignalingEnvelope IceAgent DerCertificate DtlsSession
begin

text \<open>
  The public face of the library, \<open>api/v1/voip_api.cpp\<close>: the conversion of platform strings and
  records, the projection of results, the runtime over the one engine of the process, and the
  wrappers of the signaling stack, the identity, SRTP and ICE. A platform string is its UTF-16 units
  (null is the empty one), a platform array its elements, a null object \<open>None\<close>; an asynchronous operation
  is its body. The two conversion functions of Windows are parameters.
\<close>

unbundle bit_operations_syntax

section \<open>Strings\<close>

type_synonym pstring = "u16 list"

text \<open>
  \<open>WideCharToMultiByte\<close> and \<open>MultiByteToWideChar\<close> for UTF-8, the latter with and without
  \<open>MB_ERR_INVALID_CHARS\<close>: what they write, nothing on failure.
\<close>

record Win32Text =
  wt_ToMultiByte :: "pstring \<Rightarrow> string"
  wt_ToWideChar :: "bool \<Rightarrow> bytes \<Rightarrow> pstring"

definition ToPlatformString :: "string \<Rightarrow> pstring" where
  "ToPlatformString s = (if s = [] then [] else map (\<lambda>c. of_nat (of_char c)) (c_str s))"

definition ToUtf8 :: "Win32Text \<Rightarrow> pstring \<Rightarrow> string" where
  "ToUtf8 wt s =
     (let w = takeWhile (\<lambda>c. c \<noteq> 0) s in if w = [] then [] else wt_ToMultiByte wt w)"


section \<open>Descriptors\<close>

record VoipEndpointInfo =
  ei_Id :: int
  ei_Ip :: pstring
  ei_Ipv6 :: pstring
  ei_Port :: int
  ei_PeerTag :: bytes
  ei_Kind :: pstring
  ei_Tcp :: bool
  ei_Stun :: bool
  ei_Turn :: bool
  ei_Username :: pstring
  ei_Password :: pstring
  ei_ReflectorId :: int

definition native_endpoint_info :: "Win32Text \<Rightarrow> VoipEndpointInfo \<Rightarrow> VoipEndpoint" where
  "native_endpoint_info wt src =
     \<lparr>Id = ei_Id src, Ip = ToUtf8 wt (ei_Ip src), Ipv6 = ToUtf8 wt (ei_Ipv6 src), Port = ei_Port src,
      PeerTag = ei_PeerTag src, IsWebRtc = (ToUtf8 wt (ei_Kind src) = ''webrtc''), Tcp = ei_Tcp src,
      Stun = ei_Stun src, Turn = ei_Turn src, Username = ToUtf8 wt (ei_Username src),
      Password = ToUtf8 wt (ei_Password src), ReflectorId = ei_ReflectorId src\<rparr>"

definition ToNativeEndpoints :: "Win32Text \<Rightarrow> VoipEndpointInfo option list \<Rightarrow> VoipEndpoint list" where
  "ToNativeEndpoints wt endpoints = map (native_endpoint_info wt) (List.map_filter (\<lambda>e. e) endpoints)"

definition ToStringVector :: "Win32Text \<Rightarrow> pstring list \<Rightarrow> string list" where
  "ToStringVector wt values = map (ToUtf8 wt) values"

record CallStartDescriptor =
  pd_CallId :: int
  pd_AccessHash :: int
  pd_IsInitiator :: bool
  pd_IsVideo :: bool
  pd_UdpP2p :: bool
  pd_UdpReflector :: bool
  pd_MinLayer :: int
  pd_MaxLayer :: int
  pd_LibraryVersions :: "pstring list"
  pd_KeyFingerprint :: int
  pd_KeyHandle :: pstring
  pd_Endpoints :: "VoipEndpointInfo option list"
  pd_CallConfigJson :: pstring

definition VoipCallStartDescriptor_default :: MediaCallDescriptor where
  "VoipCallStartDescriptor_default =
     \<lparr>vd_CallId = 0, vd_IsInitiator = False, vd_UdpReflector = False, vd_MinLayer = 0, vd_MaxLayer = 0,
      vd_LibraryVersions = [], vd_KeyHandle = [], vd_Endpoints = [], vd_CallConfigJson = [],
      vd_AccessHash = 0, vd_IsVideo = False, vd_UdpP2p = False, vd_KeyFingerprint = 0\<rparr>"

definition ToNativeStartDescriptor :: "Win32Text \<Rightarrow> CallStartDescriptor option \<Rightarrow> MediaCallDescriptor" where
  "ToNativeStartDescriptor wt src =
     (case src of
        None \<Rightarrow> VoipCallStartDescriptor_default
      | Some src \<Rightarrow>
          \<lparr>vd_CallId = pd_CallId src, vd_IsInitiator = pd_IsInitiator src, vd_UdpReflector = pd_UdpReflector src,
           vd_MinLayer = pd_MinLayer src, vd_MaxLayer = pd_MaxLayer src,
           vd_LibraryVersions = ToStringVector wt (pd_LibraryVersions src), vd_KeyHandle = ToUtf8 wt (pd_KeyHandle src),
           vd_Endpoints = ToNativeEndpoints wt (pd_Endpoints src), vd_CallConfigJson = ToUtf8 wt (pd_CallConfigJson src),
           vd_AccessHash = pd_AccessHash src, vd_IsVideo = pd_IsVideo src, vd_UdpP2p = pd_UdpP2p src,
           vd_KeyFingerprint = pd_KeyFingerprint src\<rparr>)"


section \<open>Projections\<close>

fun VoipErrorKind_value :: "VoipErrorKind \<Rightarrow> int" where
  "VoipErrorKind_value ErrNone = 0"
| "VoipErrorKind_value Unavailable = 1"
| "VoipErrorKind_value InvalidArgument = 2"
| "VoipErrorKind_value CryptoUnavailable = 3"
| "VoipErrorKind_value FingerprintMismatch = 4"
| "VoipErrorKind_value TransportFailed = 5"
| "VoipErrorKind_value CodecFailed = 6"
| "VoipErrorKind_value AudioDeviceFailed = 7"
| "VoipErrorKind_value InternalError = 8"
| "VoipErrorKind_value HandshakeTimeout = 9"

record VoipOperationResult =
  po_Success :: bool
  po_ErrorCode :: int
  po_ErrorMessage :: pstring

definition ProjectOperation :: "VoipError \<Rightarrow> VoipOperationResult" where
  "ProjectOperation e =
     \<lparr>po_Success = VoipError_IsOk e, po_ErrorCode = VoipErrorKind_value (Kind e),
      po_ErrorMessage = (if VoipError_IsOk e then [] else ToPlatformString (Message e))\<rparr>"

record VoipDhMaterialResult = VoipOperationResult +
  po_PublicValue :: bytes
  po_PublicHash :: bytes
  po_KeyFingerprint :: u64
  po_KeyHandle :: pstring

definition ProjectDh :: "VoipDhMaterial \<Rightarrow> VoipDhMaterialResult" where
  "ProjectDh m =
     \<lparr>po_Success = VoipError_IsOk (dm_Error m), po_ErrorCode = VoipErrorKind_value (Kind (dm_Error m)),
      po_ErrorMessage = (if VoipError_IsOk (dm_Error m) then [] else ToPlatformString (Message (dm_Error m))),
      po_PublicValue = dm_PublicValue m, po_PublicHash = dm_PublicHash m,
      po_KeyFingerprint = dm_KeyFingerprint m, po_KeyHandle = ToPlatformString (dm_KeyHandle m)\<rparr>"

fun MediaStateName :: "VoipMediaState \<Rightarrow> string" where
  "MediaStateName Idle = ''idle''"
| "MediaStateName Prepared = ''prepared''"
| "MediaStateName Connecting = ''connecting''"
| "MediaStateName Active = ''active''"
| "MediaStateName Stopped = ''stopped''"

record VoipMediaStatsResult =
  pm_State :: pstring
  pm_CallId :: int
  pm_Muted :: bool
  pm_SpeakerOn :: bool
  pm_EndpointIp :: pstring
  pm_EndpointPort :: int
  pm_Levels :: "rat \<times> rat \<times> rat"
  pm_RttMs :: int
  pm_BitrateBps :: int
  pm_Underruns :: int
  pm_PacketsSent :: int
  pm_PacketsReceived :: int
  pm_PacketsLost :: int
  pm_BytesSent :: int
  pm_BytesReceived :: int

definition ProjectMediaStats :: "VoipMediaSnapshot \<Rightarrow> VoipMediaStatsResult" where
  "ProjectMediaStats s =
     (let ep = snap_Endpoint s; st = snap_Stats s in
      \<lparr>pm_State = ToPlatformString (MediaStateName (snap_State s)), pm_CallId = snap_CallId s,
       pm_Muted = snap_Muted s, pm_SpeakerOn = snap_SpeakerOn s,
       pm_EndpointIp = ToPlatformString (if VoipEndpoint.Ip ep = [] then Ipv6 ep else VoipEndpoint.Ip ep),
       pm_EndpointPort = VoipEndpoint.Port ep, pm_Levels = (OutboundLevel st, InboundLevel st, PacketLossPercent st),
       pm_RttMs = RttMs st, pm_BitrateBps = BitrateBps st, pm_Underruns = Underruns st,
       pm_PacketsSent = uint (PacketsSent st), pm_PacketsReceived = uint (PacketsReceived st),
       pm_PacketsLost = uint (ms_PacketsLost st), pm_BytesSent = uint (BytesSent st),
       pm_BytesReceived = uint (BytesReceived st)\<rparr>)"

record VoipCapabilityResult =
  pc_CanExchangeCallKeys :: bool
  pc_CanStartMedia :: bool
  pc_Reason :: pstring

definition ProjectSignalingData :: "int \<Rightarrow> bytes \<Rightarrow> int \<times> bytes" where
  "ProjectSignalingData callId data = (callId, data)"


section \<open>The runtime\<close>

definition rt_GetCapability :: "bool \<Rightarrow> string \<Rightarrow> VoipEngine \<Rightarrow> VoipCapabilityResult" where
  "rt_GetCapability available reason e =
     (let native = Capability available reason e in
      \<lparr>pc_CanExchangeCallKeys = CanExchangeCallKeys native, pc_CanStartMedia = CanStartMedia native,
       pc_Reason = ToPlatformString (Reason native)\<rparr>)"

definition rt_CreateOutgoingDh ::
    "CryptoLib \<Rightarrow> (nat \<Rightarrow> random_fn) \<Rightarrow> int \<Rightarrow> int \<Rightarrow> bytes \<Rightarrow> VoipEngine \<Rightarrow> VoipDhMaterialResult \<times> VoipEngine" where
  "rt_CreateOutgoingDh lib rnd randomId g p e = map_prod ProjectDh id (CreateOutgoingDh lib rnd randomId g p e)"

definition rt_BindOutgoingCall :: "int \<Rightarrow> int \<Rightarrow> VoipEngine \<Rightarrow> VoipOperationResult \<times> VoipEngine" where
  "rt_BindOutgoingCall randomId callId e = map_prod ProjectOperation id (BindOutgoingCall randomId callId e)"

definition rt_RegisterIncomingGAHash :: "int \<Rightarrow> bytes \<Rightarrow> VoipEngine \<Rightarrow> VoipOperationResult \<times> VoipEngine" where
  "rt_RegisterIncomingGAHash callId gAHash e = map_prod ProjectOperation id (RegisterIncomingGAHash callId gAHash e)"

definition rt_CreateIncomingDh ::
    "CryptoLib \<Rightarrow> (nat \<Rightarrow> random_fn) \<Rightarrow> call_event list \<Rightarrow> int \<Rightarrow> int \<Rightarrow> bytes \<Rightarrow> VoipEngine
       \<Rightarrow> VoipDhMaterialResult \<times> VoipEngine" where
  "rt_CreateIncomingDh lib rnd mid callId g p e = map_prod ProjectDh id (CreateIncomingDh lib rnd mid callId g p e)"

definition rt_AcceptPeerGB ::
    "CryptoLib \<Rightarrow> call_event list \<Rightarrow> int \<Rightarrow> bytes \<Rightarrow> VoipEngine \<Rightarrow> VoipDhMaterialResult \<times> VoipEngine" where
  "rt_AcceptPeerGB lib mid callId gB e = map_prod ProjectDh id (AcceptPeerGB lib mid callId gB e)"

definition rt_ConfirmPeerGAOrB ::
    "CryptoLib \<Rightarrow> call_event list \<Rightarrow> int \<Rightarrow> bytes \<Rightarrow> u64 \<Rightarrow> VoipEngine \<Rightarrow> VoipOperationResult \<times> VoipEngine" where
  "rt_ConfirmPeerGAOrB lib mid callId gAOrB expected e =
     map_prod ProjectOperation id (ConfirmPeerGAOrB lib mid callId gAOrB expected e)"

definition rt_GetKeyHandle :: "int \<Rightarrow> VoipEngine \<Rightarrow> pstring" where
  "rt_GetKeyHandle callId e = ToPlatformString (GetKeyHandle callId e)"

definition rt_StartMedia ::
    "RelayCrypto \<Rightarrow> (nat \<Rightarrow> candidate_env) \<Rightarrow> audio_env \<Rightarrow> tgcalls_env \<Rightarrow> call_event list list \<Rightarrow> Win32Text
       \<Rightarrow> int \<Rightarrow> pstring \<Rightarrow> VoipEndpointInfo option list \<Rightarrow> VoipEngine \<Rightarrow> (VoipOperationResult \<times> VoipEngine) option" where
  "rt_StartMedia rc env audio tg mids wt callId keyHandle endpoints e =
     map_option (map_prod ProjectOperation id)
       (StartMedia rc env audio tg mids
          (classic_descriptor callId (ToUtf8 wt keyHandle) (ToNativeEndpoints wt endpoints)) e)"

definition rt_StartCall ::
    "RelayCrypto \<Rightarrow> (nat \<Rightarrow> candidate_env) \<Rightarrow> audio_env \<Rightarrow> tgcalls_env \<Rightarrow> call_event list list \<Rightarrow> Win32Text
       \<Rightarrow> CallStartDescriptor option \<Rightarrow> VoipEngine \<Rightarrow> (VoipOperationResult \<times> VoipEngine) option" where
  "rt_StartCall rc env audio tg mids wt descriptor e =
     map_option (map_prod ProjectOperation id)
       (StartMedia rc env audio tg mids (VoipCallStartDescriptor.truncate (ToNativeStartDescriptor wt descriptor)) e)"

definition rt_ReceiveSignalingData ::
    "(bytes \<Rightarrow> VoipError) \<Rightarrow> int \<Rightarrow> bytes \<Rightarrow> VoipEngine \<Rightarrow> VoipOperationResult \<times> VoipEngine" where
  "rt_ReceiveSignalingData deliver callId data e =
     map_prod ProjectOperation id (ReceiveSignalingData deliver callId data e)"

definition rt_StopMedia ::
    "VoipError \<Rightarrow> VoipEngine \<Rightarrow> VoipOperationResult \<times> VoipEngine \<times> VoipActiveMediaContext option" where
  "rt_StopMedia graphStop e = map_prod ProjectOperation id (StopMedia graphStop e)"

definition rt_SetMuted :: "bool \<Rightarrow> VoipError \<Rightarrow> VoipError \<Rightarrow> VoipEngine \<Rightarrow> VoipOperationResult \<times> VoipEngine" where
  "rt_SetMuted muted tgc graph e = map_prod ProjectOperation id (engine_SetMuted muted tgc graph e)"

definition rt_SetSpeaker :: "bool \<Rightarrow> VoipError \<Rightarrow> VoipError \<Rightarrow> VoipEngine \<Rightarrow> VoipOperationResult \<times> VoipEngine" where
  "rt_SetSpeaker on tgc graph e = map_prod ProjectOperation id (engine_SetSpeaker on tgc graph e)"

definition rt_GetMediaStats :: "tg_stats \<Rightarrow> VoipMediaSnapshot \<Rightarrow> VoipEngine \<Rightarrow> VoipMediaStatsResult option" where
  "rt_GetMediaStats ts graph e = map_option ProjectMediaStats (GetMediaSnapshot ts graph e)"


section \<open>The signaling stack\<close>

record TgcallsSignalingDiagnosticResult =
  sdr_Success :: bool
  sdr_Error :: pstring
  sdr_Seq :: u32
  sdr_PlaintextUtf8 :: pstring
  sdr_PlaintextHex :: pstring
  sdr_PlaintextLength :: nat

fun json_start :: "bytes \<Rightarrow> nat \<Rightarrow> nat option" where
  "json_start [] limit = None"
| "json_start (b # bs) 0 = None"
| "json_start (b # bs) (Suc limit) =
     (if b = 0x7B \<or> b = 0x5B then Some 0 else map_option Suc (json_start bs limit))"

definition ProjectPlaintextUtf8 :: "Win32Text \<Rightarrow> bytes \<Rightarrow> pstring" where
  "ProjectPlaintextUtf8 wt plain =
     (if plain = [] then []
      else case json_start plain (if length plain < 64 then length plain else 64) of
        None \<Rightarrow> []
      | Some jsonStart \<Rightarrow>
          (let available = length plain - jsonStart;
               n = (if available < 1500 then available else 1500);
               json = take n (drop jsonStart plain)
           in if list_ex (\<lambda>b. b < 0x09 \<or> b > 0x0D \<and> b < 0x20) json then []
              else if wt_ToWideChar wt True json = [] \<and> wt_ToWideChar wt False json = [] then []
              else wt_ToWideChar wt False json))"

definition kDigits :: string where "kDigits = ''0123456789abcdef''"

definition ProjectPlaintextHex :: "bytes \<Rightarrow> pstring" where
  "ProjectPlaintextHex plain =
     concat (map (\<lambda>b. [of_nat (of_char (kDigits ! unat (drop_bit 4 b))), of_nat (of_char (kDigits ! unat (b AND 0x0F)))])
       (take (if length plain < 256 then length plain else 256) plain))"

definition diag_Decrypt ::
    "hash_fn \<Rightarrow> block_fn \<Rightarrow> Win32Text \<Rightarrow> bytes \<Rightarrow> bool \<Rightarrow> bytes \<Rightarrow> TgcallsSignalingDiagnosticResult" where
  "diag_Decrypt sha enc wt key isOutgoing data =
     (if data = [] then
        \<lparr>sdr_Success = False, sdr_Error = ToPlatformString ''empty signaling payload'', sdr_Seq = 0,
         sdr_PlaintextUtf8 = [], sdr_PlaintextHex = [], sdr_PlaintextLength = 0\<rparr>
      else case sig_Decrypt sha enc key isOutgoing data of
        Inl error \<Rightarrow>
          \<lparr>sdr_Success = False, sdr_Error = ToPlatformString error, sdr_Seq = 0,
           sdr_PlaintextUtf8 = [], sdr_PlaintextHex = ProjectPlaintextHex [], sdr_PlaintextLength = 0\<rparr>
      | Inr (sq, plain) \<Rightarrow>
          \<lparr>sdr_Success = True, sdr_Error = [], sdr_Seq = sq, sdr_PlaintextUtf8 = ProjectPlaintextUtf8 wt plain,
           sdr_PlaintextHex = ProjectPlaintextHex plain, sdr_PlaintextLength = length plain\<rparr>)"

record TgcallsParsedMessage =
  pp_TypeName :: pstring
  pp_JsonContent :: pstring
  pp_CandidateSdpStrings :: "pstring list option"
  pp_Ufrag :: pstring
  pp_Pwd :: pstring
  pp_SupportsRenomination :: bool
  pp_FingerprintHash :: pstring
  pp_FingerprintSetup :: pstring
  pp_FingerprintHex :: pstring
  pp_ConnectionStatus :: pstring
  pp_PingId :: u32
  pp_IsMuted :: bool
  pp_VideoState :: pstring
  pp_ScreencastState :: pstring
  pp_VideoRotation :: int
  pp_LowBattery :: bool

definition parsed_base :: "TgcallsMessage \<Rightarrow> TgcallsParsedMessage" where
  "parsed_base msg =
     \<lparr>pp_TypeName = ToPlatformString (TypeName msg), pp_JsonContent = ToPlatformString (RawJson msg),
      pp_CandidateSdpStrings = None, pp_Ufrag = [], pp_Pwd = [], pp_SupportsRenomination = False,
      pp_FingerprintHash = [], pp_FingerprintSetup = [], pp_FingerprintHex = [], pp_ConnectionStatus = [],
      pp_PingId = 0, pp_IsMuted = False, pp_VideoState = [], pp_ScreencastState = [], pp_VideoRotation = 0,
      pp_LowBattery = False\<rparr>"

definition ProjectParsedMessage :: "TgcallsMessage \<Rightarrow> TgcallsParsedMessage" where
  "ProjectParsedMessage msg =
     (let out = parsed_base msg; ini = Initial msg; st = MediaState msg;
          media = out\<lparr>pp_IsMuted := IsMuted st, pp_VideoState := ToPlatformString (VideoState st),
            pp_ScreencastState := ToPlatformString (ScreencastState st), pp_VideoRotation := VideoRotation st,
            pp_LowBattery := LowBattery st\<rparr>
      in case MType msg of
        MsgInitialSetup \<Rightarrow>
          out\<lparr>pp_Ufrag := ToPlatformString (InitialSetupMsg.Ufrag ini), pp_Pwd := ToPlatformString (Pwd ini),
              pp_SupportsRenomination := SupportsRenomination ini,
              pp_FingerprintHash := ToPlatformString (fp_Hash (Fingerprint ini)),
              pp_FingerprintSetup := ToPlatformString (fp_Setup (Fingerprint ini)),
              pp_FingerprintHex := ToPlatformString (fp_Fingerprint (Fingerprint ini))\<rparr>
      | MsgCandidates \<Rightarrow>
          out\<lparr>pp_CandidateSdpStrings := Some (map (\<lambda>c. ToPlatformString (SdpString c)) (Candidates msg))\<rparr>
      | MsgConnection \<Rightarrow> out\<lparr>pp_ConnectionStatus := ToPlatformString (ConnectionStatus msg)\<rparr>
      | MsgPing \<Rightarrow> out\<lparr>pp_PingId := PingId msg\<rparr>
      | MsgPong \<Rightarrow> out\<lparr>pp_PingId := PongId msg\<rparr>
      | MsgMediaState \<Rightarrow> media
      | MsgRemoteMediaState \<Rightarrow> media
      | _ \<Rightarrow> out)"

definition pipe_DecryptAndParse ::
    "hash_fn \<Rightarrow> block_fn \<Rightarrow> bytes \<Rightarrow> bool \<Rightarrow> bytes \<Rightarrow> TgcallsParsedMessage list option" where
  "pipe_DecryptAndParse sha enc key isOutgoing data =
     (if data = [] then Some []
      else map_option (map ProjectParsedMessage) (env_Decrypt sha enc key isOutgoing data))"

definition pipe_initial_setup :: "Win32Text \<Rightarrow> pstring \<Rightarrow> pstring \<Rightarrow> pstring \<Rightarrow> pstring \<Rightarrow> pstring \<Rightarrow> TgcallsMessage" where
  "pipe_initial_setup wt ufrag pwd hash setupRole hex =
     TgcallsMessage_default\<lparr>MType := MsgInitialSetup, TypeName := ''InitialSetup'',
       Initial := InitialSetupMsg_default\<lparr>InitialSetupMsg.Ufrag := ToUtf8 wt ufrag, Pwd := ToUtf8 wt pwd,
         Fingerprint := \<lparr>fp_Hash = ToUtf8 wt hash, fp_Setup = ToUtf8 wt setupRole, fp_Fingerprint = ToUtf8 wt hex\<rparr>\<rparr>\<rparr>"

definition pipe_EncryptInitialSetup ::
    "hash_fn \<Rightarrow> block_fn \<Rightarrow> Win32Text \<Rightarrow> bytes \<Rightarrow> bool \<Rightarrow> u32 \<Rightarrow> pstring \<Rightarrow> pstring \<Rightarrow> pstring \<Rightarrow> pstring \<Rightarrow> pstring \<Rightarrow> bytes" where
  "pipe_EncryptInitialSetup sha enc wt key isOutgoing outgoingSeq ufrag pwd hash setupRole hex =
     env_Encrypt sha enc key isOutgoing outgoingSeq [pipe_initial_setup wt ufrag pwd hash setupRole hex]"

definition pipe_candidates :: "Win32Text \<Rightarrow> pstring list \<Rightarrow> TgcallsMessage" where
  "pipe_candidates wt sdpStrings =
     TgcallsMessage_default\<lparr>MType := MsgCandidates, TypeName := ''Candidates'',
       Candidates := map (\<lambda>c. \<lparr>SdpString = ToUtf8 wt c\<rparr>) sdpStrings\<rparr>"

definition pipe_EncryptCandidates ::
    "hash_fn \<Rightarrow> block_fn \<Rightarrow> Win32Text \<Rightarrow> bytes \<Rightarrow> bool \<Rightarrow> u32 \<Rightarrow> pstring list \<Rightarrow> bytes" where
  "pipe_EncryptCandidates sha enc wt key isOutgoing outgoingSeq sdpStrings =
     env_Encrypt sha enc key isOutgoing outgoingSeq [pipe_candidates wt sdpStrings]"


section \<open>The identity\<close>

record EcdsaP256Identity =
  ei_native :: "EcdsaP256KeyPair option"
  ei_cachedFingerprint :: "pstring option"
  ei_cachedDer :: "bytes option"

definition identity_Generate :: "nat option option \<Rightarrow> EcdsaP256Identity option" where
  "identity_Generate created =
     (case Generate created of
        None \<Rightarrow> None
      | Some kp \<Rightarrow> Some \<lparr>ei_native = Some kp, ei_cachedFingerprint = None, ei_cachedDer = None\<rparr>)"

text \<open>The two calls meet the platform at two moments.\<close>

definition EnsureCertCached :: "CertCall \<Rightarrow> CertCall \<Rightarrow> EcdsaP256Identity \<Rightarrow> EcdsaP256Identity option" where
  "EnsureCertCached cc cc' i =
     (case ei_native i of
        None \<Rightarrow> Some i
      | Some kp \<Rightarrow>
          if ei_cachedDer i \<noteq> None \<and> ei_cachedFingerprint i \<noteq> None then Some i
          else do {
            der \<leftarrow> ToX509SelfSignedDer cc kp;
            fp \<leftarrow> ToSha256Fingerprint cc' kp;
            Some (i\<lparr>ei_cachedDer := Some der, ei_cachedFingerprint := Some (ToPlatformString fp)\<rparr>)
          })"

definition Sha256Fingerprint_get :: "CertCall \<Rightarrow> CertCall \<Rightarrow> EcdsaP256Identity \<Rightarrow> (pstring \<times> EcdsaP256Identity) option" where
  "Sha256Fingerprint_get cc cc' i =
     map_option (\<lambda>i. (case ei_cachedFingerprint i of None \<Rightarrow> [] | Some fp \<Rightarrow> fp, i)) (EnsureCertCached cc cc' i)"

definition X509Der_get :: "CertCall \<Rightarrow> CertCall \<Rightarrow> EcdsaP256Identity \<Rightarrow> (bytes \<times> EcdsaP256Identity) option" where
  "X509Der_get cc cc' i =
     map_option (\<lambda>i. (case ei_cachedDer i of None \<Rightarrow> [] | Some der \<Rightarrow> der, i)) (EnsureCertCached cc cc' i)"

definition identity_SignSha256 :: "CertCall \<Rightarrow> EcdsaP256Identity \<Rightarrow> bytes option \<Rightarrow> bytes option" where
  "identity_SignSha256 cc i hash =
     (case ei_native i of
        None \<Rightarrow> Some []
      | Some kp \<Rightarrow>
          (case hash of
             None \<Rightarrow> Some []
           | Some h \<Rightarrow> if length h \<noteq> 32 then Some [] else SignSha256 cc kp h))"

definition ExportPublicKeyUncompressed :: "CertCall \<Rightarrow> EcdsaP256Identity \<Rightarrow> bytes" where
  "ExportPublicKeyUncompressed cc i =
     (case ei_native i of None \<Rightarrow> [] | Some kp \<Rightarrow> GetPublicKeyUncompressed cc kp)"


section \<open>SRTP sessions\<close>

record SrtpSessionState =
  ss_Outgoing :: SrtpEncryptParams
  ss_Incoming :: SrtpEncryptParams

definition InitParamsFromMaster :: "block_fn \<Rightarrow> bytes \<Rightarrow> bytes \<Rightarrow> SrtpEncryptParams" where
  "InitParamsFromMaster enc masterKey masterSalt =
     (let master = \<lparr>MasterKey = take 16 masterKey, MasterSalt = take 14 masterSalt\<rparr> in
      \<lparr>SessionEncrKey = DeriveSessionEncrKey enc master, SessionAuthKey = DeriveSessionAuthKey enc master,
       SessionSalt = DeriveSessionSalt enc master, Ssrc = 0, RolloverCounter = 0, LastSequenceNumber = 0,
       HasLastSequenceNumber = False\<rparr>)"

definition SrtpSession_Create :: "block_fn \<Rightarrow> bytes option \<Rightarrow> bool \<Rightarrow> SrtpSessionState option" where
  "SrtpSession_Create enc srtpKeyingMaterial weAreClient =
     (case srtpKeyingMaterial of
        None \<Rightarrow> None
      | Some mat \<Rightarrow>
          if length mat \<noteq> 60 then None
          else
            (let clientSide = InitParamsFromMaster enc mat (drop 32 mat);
                 serverSide = InitParamsFromMaster enc (drop 16 mat) (drop 46 mat)
             in Some (if weAreClient then \<lparr>ss_Outgoing = clientSide, ss_Incoming = serverSide\<rparr>
                      else \<lparr>ss_Outgoing = serverSide, ss_Incoming = clientSide\<rparr>)))"

definition packet_ssrc :: "bytes \<Rightarrow> u32" where
  "packet_ssrc p = be32_of (p ! 8) (p ! 9) (p ! 10) (p ! 11)"

text \<open>The packet, or null, with the new state.\<close>

definition EncryptOutgoing ::
    "block_fn \<Rightarrow> mac_fn \<Rightarrow> bytes option \<Rightarrow> SrtpSessionState \<Rightarrow> (bytes option \<times> SrtpSessionState) option" where
  "EncryptOutgoing enc hmac rtpPacket state =
     (case rtpPacket of
        None \<Rightarrow> Some (None, state)
      | Some rtp \<Rightarrow>
          if length rtp < 12 then Some (None, state)
          else do {
            let sq = be16_of (rtp ! 2) (rtp ! 3);
            let params = (ss_Outgoing state)\<lparr>Ssrc := packet_ssrc rtp\<rparr>;
            (params, out) \<leftarrow> srtp_encrypt enc hmac params rtp sq;
            Some (if out = [] then None else Some out, state\<lparr>ss_Outgoing := params\<rparr>)
          })"

definition DecryptIncoming ::
    "block_fn \<Rightarrow> mac_fn \<Rightarrow> bytes option \<Rightarrow> SrtpSessionState \<Rightarrow> (bytes option \<times> SrtpSessionState) option" where
  "DecryptIncoming enc hmac srtpPacket state =
     (case srtpPacket of
        None \<Rightarrow> Some (None, state)
      | Some srtp \<Rightarrow>
          if length srtp < 22 then Some (None, state)
          else do {
            let params = (ss_Incoming state)\<lparr>Ssrc := packet_ssrc srtp\<rparr>;
            plain \<leftarrow> srtp_decrypt enc hmac params srtp;
            Some (plain, state\<lparr>ss_Incoming := params\<rparr>)
          })"


section \<open>The ICE agent\<close>

record IceConnectivityAgent =
  ia_impl :: "IceAgent option"
  ia_nextIps :: "pstring list"
  ia_nextPorts :: "int list"
  ia_nextBytes :: "bytes list"

definition ia_Create ::
    "Win32Text \<Rightarrow> bytes \<Rightarrow> bool \<Rightarrow> pstring \<Rightarrow> pstring \<Rightarrow> pstring \<Rightarrow> pstring \<Rightarrow> IceConnectivityAgent" where
  "ia_Create wt arr weAreControlling localUfrag localPwd remoteUfrag remotePwd =
     \<lparr>ia_impl = Some (IceAgent_new (if weAreControlling then IceAgentRole_Controlling else IceAgentRole_Controlled)
        (ToUtf8 wt localUfrag) (ToUtf8 wt localPwd) (ToUtf8 wt remoteUfrag) (ToUtf8 wt remotePwd) arr),
      ia_nextIps = [], ia_nextPorts = [], ia_nextBytes = []\<rparr>"

definition ia_AddRemoteCandidateLine :: "Win32Text \<Rightarrow> pstring \<Rightarrow> IceConnectivityAgent \<Rightarrow> IceConnectivityAgent" where
  "ia_AddRemoteCandidateLine wt sdpLine a =
     (case ia_impl a of
        None \<Rightarrow> a
      | Some agent \<Rightarrow>
          (case cand_Parse (ToUtf8 wt sdpLine) of
             None \<Rightarrow> a
           | Some c \<Rightarrow> a\<lparr>ia_impl := Some (AddRemoteCandidate c agent)\<rparr>))"

definition ia_GenerateLocalCandidateLines ::
    "Win32Text \<Rightarrow> pstring list \<Rightarrow> int \<Rightarrow> IceConnectivityAgent \<Rightarrow> pstring list \<times> IceConnectivityAgent" where
  "ia_GenerateLocalCandidateLines wt reflectorIps reflectorPort a =
     (case ia_impl a of
        None \<Rightarrow> ([], a)
      | Some agent \<Rightarrow>
          (case GenerateLocalCandidates (ToStringVector wt reflectorIps) reflectorPort agent of
             (cands, agent) \<Rightarrow> (map (\<lambda>c. ToPlatformString (cand_Format c)) cands, a\<lparr>ia_impl := Some agent\<rparr>)))"

definition ia_RebuildBindingRequests ::
    "mac_fn \<Rightarrow> (nat \<Rightarrow> bytes) \<Rightarrow> IceConnectivityAgent \<Rightarrow> IceConnectivityAgent" where
  "ia_RebuildBindingRequests hmac rnd a =
     (case ia_impl a of
        None \<Rightarrow> a\<lparr>ia_nextIps := [], ia_nextPorts := [], ia_nextBytes := []\<rparr>
      | Some agent \<Rightarrow>
          (case GetBindingRequestsToSend hmac rnd agent of
             (reqs, agent) \<Rightarrow>
               a\<lparr>ia_impl := Some agent, ia_nextIps := map (\<lambda>r. ToPlatformString (fst (fst r))) reqs,
                 ia_nextPorts := map (\<lambda>r. snd (fst r)) reqs, ia_nextBytes := map snd reqs\<rparr>))"

definition ia_ProcessIncomingStun ::
    "mac_fn \<Rightarrow> Win32Text \<Rightarrow> pstring \<Rightarrow> int \<Rightarrow> bytes \<Rightarrow> IceConnectivityAgent \<Rightarrow> (bytes \<times> IceConnectivityAgent) option" where
  "ia_ProcessIncomingStun hmac wt srcIp srcPort bs a =
     (case ia_impl a of
        None \<Rightarrow> Some ([], a)
      | Some agent \<Rightarrow>
          map_option (\<lambda>(result, out, agent). (out, a\<lparr>ia_impl := Some agent\<rparr>))
            (ProcessIncoming hmac (ToUtf8 wt srcIp) srcPort bs agent))"

definition ia_IsConnected :: "IceConnectivityAgent \<Rightarrow> bool" where
  "ia_IsConnected a = (case ia_impl a of None \<Rightarrow> False | Some agent \<Rightarrow> m_connected agent)"

definition ia_SelectedRemoteIp :: "IceConnectivityAgent \<Rightarrow> pstring" where
  "ia_SelectedRemoteIp a = (case ia_impl a of None \<Rightarrow> [] | Some agent \<Rightarrow> ToPlatformString (fst (m_selected agent)))"

definition ia_SelectedRemotePort :: "IceConnectivityAgent \<Rightarrow> int" where
  "ia_SelectedRemotePort a = (case ia_impl a of None \<Rightarrow> 0 | Some agent \<Rightarrow> snd (m_selected agent))"


section \<open>The STUN test vector\<close>

definition kSample :: bytes where
  "kSample = [
     0x00, 0x01, 0x00, 0x58, 0x21, 0x12, 0xa4, 0x42, 0xb7, 0xe7, 0xa7, 0x01, 0xbc, 0x34, 0xd6, 0x86,
     0xfa, 0x87, 0xdf, 0xae, 0x80, 0x22, 0x00, 0x10, 0x53, 0x54, 0x55, 0x4e, 0x20, 0x74, 0x65, 0x73,
     0x74, 0x20, 0x63, 0x6c, 0x69, 0x65, 0x6e, 0x74, 0x00, 0x24, 0x00, 0x04, 0x6e, 0x00, 0x01, 0xff,
     0x80, 0x29, 0x00, 0x08, 0x93, 0x2f, 0xf9, 0xb1, 0x51, 0x26, 0x3b, 0x36, 0x00, 0x06, 0x00, 0x09,
     0x65, 0x76, 0x74, 0x6a, 0x3a, 0x68, 0x36, 0x76, 0x59, 0x20, 0x20, 0x20, 0x00, 0x08, 0x00, 0x14,
     0x9a, 0xea, 0xa7, 0x0c, 0xbf, 0xd8, 0xcb, 0x56, 0x78, 0x1e, 0xf2, 0xb5, 0xb2, 0xd3, 0xf2, 0x49,
     0xc1, 0xb5, 0x71, 0xa2, 0x80, 0x28, 0x00, 0x04, 0xe5, 0x7a, 0x3b, 0xcf]"

definition kPassword :: string where "kPassword = ''VOkJxbRl1RmTxUk/WvJxBt''"

definition VerifyRfc5769Sample :: "mac_fn \<Rightarrow> bool option" where
  "VerifyRfc5769Sample hmac =
     do {
       d \<leftarrow> stun_Decode kSample;
       case d of
         None \<Rightarrow> Some False
       | Some msg \<Rightarrow>
           if MessageType msg \<noteq> kStunBindingRequest then Some False
           else if Username msg \<noteq> ''evtj:h6vY'' then Some False
           else if \<not> HasPriority msg \<or> Priority msg \<noteq> 0x6e0001ff then Some False
           else if \<not> HasIceControlled msg then Some False
           else do {
             fp \<leftarrow> VerifyFingerprint kSample;
             if \<not> fp then Some False
             else VerifyMessageIntegrity hmac kSample kPassword
           }
     }"


section \<open>Text across the boundary\<close>

text \<open>What Windows documents of the conversion to UTF-8, for units below 256.\<close>

definition utf8_unit :: "u16 \<Rightarrow> string" where
  "utf8_unit c =
     (if c < 0x80 then [char_of (unat c)]
      else [char_of (unat (0xC0 OR drop_bit 6 c)), char_of (unat (0x80 OR (c AND 0x3F)))])"

definition utf8_documented :: "Win32Text \<Rightarrow> bool" where
  "utf8_documented wt \<longleftrightarrow>
     (\<forall>w. (\<forall>c \<in> set w. c \<noteq> 0 \<and> c < 0x100) \<longrightarrow> wt_ToMultiByte wt w = concat (map utf8_unit w))"

definition ascii_text :: "string \<Rightarrow> bool" where
  "ascii_text s \<longleftrightarrow> (\<forall>c \<in> set s. c \<noteq> CHR 0x00 \<and> of_char c < (128 :: nat))"

definition char_unit :: "char \<Rightarrow> u16" where
  "char_unit c = of_nat (of_char c)"

lemma unat_char_unit [simp]: "unat (char_unit c) = of_char c"
proof -
  have "(of_char c :: nat) mod 65536 = of_char c"
    by (rule mod_less) (use nat_of_char_less_256 [of c] in linarith)
  then show ?thesis by (simp add: char_unit_def unat_of_nat)
qed

lemma char_unit_0 [simp]: "char_unit c = 0 \<longleftrightarrow> c = CHR 0x00"
proof
  assume "char_unit c = 0"
  then have "(of_char c :: nat) = 0" using unat_char_unit [of c] by simp
  then have "c = char_of (0 :: nat)" by (metis char_of_char)
  then show "c = CHR 0x00" by (simp add: char_of_def)
qed (simp add: char_unit_def)

lemma char_unit_less: "char_unit c < 0x80 \<longleftrightarrow> of_char c < (128 :: nat)" "char_unit c < 0x100"
  using nat_of_char_less_256 [of c] by (simp_all add: word_less_nat_alt)

lemma c_str_nonzero: "c \<in> set (c_str s) \<Longrightarrow> c \<noteq> CHR 0x00"
  by (auto simp: c_str_def dest: set_takeWhileD)

lemma c_str_id: "CHR 0x00 \<notin> set s \<Longrightarrow> c_str s = s"
  unfolding c_str_def by (rule takeWhile_eq_all_conv [THEN iffD2]) auto

lemma ToUtf8_projected:
  assumes "utf8_documented wt"
  shows "ToUtf8 wt (ToPlatformString s) = concat (map (\<lambda>c. utf8_unit (char_unit c)) (c_str s))"
proof -
  let ?w = "map char_unit (c_str s)"
  have w: "ToPlatformString s = ?w"
    by (simp add: ToPlatformString_def char_unit_def c_str_def)
  have tw: "takeWhile (\<lambda>c. c \<noteq> 0) ?w = ?w"
    by (rule takeWhile_eq_all_conv [THEN iffD2]) (auto dest: c_str_nonzero)
  have "\<forall>c \<in> set ?w. c \<noteq> 0 \<and> c < 0x100"
    by (auto dest: c_str_nonzero simp: char_unit_less)
  then have mb: "wt_ToMultiByte wt ?w = concat (map utf8_unit ?w)"
    using assms unfolding utf8_documented_def by blast
  show ?thesis
    unfolding ToUtf8_def w Let_def tw mb map_map by (simp add: comp_def)
qed

lemma utf8_unit_ascii: "of_char c < (128 :: nat) \<Longrightarrow> utf8_unit (char_unit c) = [c]"
  by (simp add: utf8_unit_def char_unit_less)

lemma utf8_unit_wide: "\<not> of_char c < (128 :: nat) \<Longrightarrow> length (utf8_unit (char_unit c)) = 2"
  by (simp add: utf8_unit_def char_unit_less)

lemma utf8_units_length:
  "length t \<le> length (concat (map (\<lambda>c. utf8_unit (char_unit c)) t))"
  "length (concat (map (\<lambda>c. utf8_unit (char_unit c)) t)) = length t \<Longrightarrow> \<forall>c \<in> set t. of_char c < (128 :: nat)"
proof (induction t)
  case (Cons c t)
  have "length (utf8_unit (char_unit c)) = (if of_char c < (128 :: nat) then 1 else 2)"
    by (simp add: utf8_unit_ascii utf8_unit_wide)
  then show "length (c # t) \<le> length (concat (map (\<lambda>c. utf8_unit (char_unit c)) (c # t)))"
    "length (concat (map (\<lambda>c. utf8_unit (char_unit c)) (c # t))) = length (c # t) \<Longrightarrow>
       \<forall>c \<in> set (c # t). of_char c < (128 :: nat)"
    using Cons by (auto split: if_splits)
qed simp_all

lemma utf8_units_ascii:
  "\<forall>c \<in> set t. of_char c < (128 :: nat) \<Longrightarrow> concat (map (\<lambda>c. utf8_unit (char_unit c)) t) = t"
  by (induction t) (simp_all add: utf8_unit_ascii)

text \<open>
  Text survives the boundary exactly when it is ASCII. The library hands text out one byte
  per UTF-16 unit and takes it in as UTF-8, so a string that the application gets and passes back is
  the same string if all its characters are ASCII, and another one as soon as one is not.
\<close>

theorem platform_text_roundtrip:
  assumes "utf8_documented wt" and "CHR 0x00 \<notin> set s"
  shows "ToUtf8 wt (ToPlatformString s) = s \<longleftrightarrow> ascii_text s"
proof -
  have c: "c_str s = s" by (rule c_str_id [OF assms(2)])
  show ?thesis
  proof
    assume "ToUtf8 wt (ToPlatformString s) = s"
    then have "length (concat (map (\<lambda>c. utf8_unit (char_unit c)) s)) = length s"
      by (simp add: ToUtf8_projected [OF assms(1)] c)
    from utf8_units_length(2) [OF this] assms(2) show "ascii_text s"
      by (auto simp: ascii_text_def)
  next
    assume "ascii_text s"
    then show "ToUtf8 wt (ToPlatformString s) = s"
      using utf8_units_ascii [of s] by (simp add: ToUtf8_projected [OF assms(1)] c ascii_text_def)
  qed
qed

definition latin_text :: Win32Text where
  "latin_text = \<lparr>wt_ToMultiByte = (\<lambda>w. concat (map utf8_unit w)), wt_ToWideChar = (\<lambda>strict bs. map ucast bs)\<rparr>"

lemma latin_text_documented: "utf8_documented latin_text"
  by (simp add: utf8_documented_def latin_text_def)

theorem platform_text_roundtrip_witness:
  "ToUtf8 latin_text (ToPlatformString ''candidate:1'') = ''candidate:1'' \<and>
   ToUtf8 latin_text (ToPlatformString [CHR 0xC3, CHR 0xA9]) \<noteq> [CHR 0xC3, CHR 0xA9]"
  using platform_text_roundtrip [OF latin_text_documented, of "''candidate:1''"]
    platform_text_roundtrip [OF latin_text_documented, of "[CHR 0xC3, CHR 0xA9]"]
  by (simp add: ascii_text_def)



section \<open>The fingerprint of the identity\<close>

lemma hex_colons_inject: "hex_colons a = hex_colons b \<longleftrightarrow> a = b"
  by (metis fingerprint_roundtrip)

lemma hex_pair_ascii: "\<forall>c \<in> set (hex_pair b). c \<noteq> CHR 0x00"
proof -
  have "kHex ! i \<noteq> CHR 0x00" if "i < 16" for i
  proof -
    have "kHex ! i \<in> set kHex" using that by (intro nth_mem) (simp add: kHex_def)
    then show ?thesis by (auto simp: kHex_def)
  qed
  moreover have "unat (drop_bit 4 b) < 16" "unat (b AND 0x0F) < 16" for b :: u8
  proof -
    have "unat b < 256" using unsigned_less [of b] by simp
    then show "unat (drop_bit 4 b) < 16" by (simp add: unat_drop_bit_eq drop_bit_eq_div unat_div)
    have "b AND 0x0F = take_bit 4 b" by (simp add: take_bit_eq_mask mask_eq_exp_minus_1)
    then have "unat (b AND 0x0F) = take_bit 4 (unat b)" by (simp only: unsigned_take_bit_eq)
    then show "unat (b AND 0x0F) < 16"
      using take_bit_nat_less_exp [of 4 "unat b"] by simp
  qed
  ultimately show ?thesis by (simp add: hex_pair_def)
qed

lemma hex_colons_ascii: "CHR 0x00 \<notin> set (hex_colons bs)"
proof -
  have "c \<noteq> CHR 0x00" if "c \<in> set (hex_colons bs)" for c
    using that
  proof (induction bs rule: hex_colons.induct)
    case (3 b b' bs)
    then show ?case using hex_pair_ascii [of b] by auto
  qed (use hex_pair_ascii in auto)
  then show ?thesis by blast
qed

lemma char_unit_inject [simp]: "char_unit c = char_unit d \<longleftrightarrow> c = d"
  by (metis unat_char_unit of_char_eq_iff)

lemma ToPlatformString_inject:
  "CHR 0x00 \<notin> set s \<Longrightarrow> CHR 0x00 \<notin> set t \<Longrightarrow> ToPlatformString s = ToPlatformString t \<longleftrightarrow> s = t"
  by (simp add: ToPlatformString_def c_str_id char_unit_def [symmetric] inj_map_eq_map inj_def)

text \<open>
  The fingerprint an identity shows is not the fingerprint of the certificate it shows. Both
  properties are filled by one call that builds the certificate twice, each time with a fresh serial
  number, and keeps the bytes of the first and the fingerprint of the second: on a working platform
  with a collision free hash they differ whenever the two serial numbers do.
\<close>

theorem identity_shows_another_certificate:
  assumes "platform_ok cc k" and "platform_ok cc' k"
    and "RandomSerial (cc_GenerateRandom cc) \<noteq> RandomSerial (cc_GenerateRandom cc')"
    and "cc_Sha256 cc' = cc_Sha256 cc"
    and "\<And>a b. ToX509SelfSignedDer cc \<lparr>m_Key = Some k\<rparr> = Some a \<Longrightarrow>
           ToX509SelfSignedDer cc' \<lparr>m_Key = Some k\<rparr> = Some b \<Longrightarrow> cc_Sha256 cc a = cc_Sha256 cc b \<Longrightarrow> a = b"
    and "identity_Generate (Some (Some k)) = Some i"
  shows "\<exists>der fp i'. X509Der_get cc cc' i = Some (der, i') \<and> Sha256Fingerprint_get cc cc' i' = Some (fp, i')
     \<and> der \<noteq> [] \<and> fp \<noteq> ToPlatformString (hex_colons (cc_Sha256 cc der))"
proof -
  let ?kp = "\<lparr>m_Key = Some k\<rparr>"
  have i: "i = \<lparr>ei_native = Some ?kp, ei_cachedFingerprint = None, ei_cachedDer = None\<rparr>"
    using assms(6) by (simp add: identity_Generate_def Generate_def)
  obtain tbs sig where a: "ToX509SelfSignedDer cc ?kp = Some (der_certificate tbs sig)"
    by (rule certificate_ok [OF assms(1)])
  obtain tbs' sig' where b: "ToX509SelfSignedDer cc' ?kp = Some (der_certificate tbs' sig')"
    by (rule certificate_ok [OF assms(2)])
  let ?a = "der_certificate tbs sig" and ?b = "der_certificate tbs' sig'"
  have ne: "?a \<noteq> []" "?b \<noteq> []"
    by (simp_all add: der_certificate_def tlv_def)
  have "?a \<noteq> ?b"
    using certificates_differ [OF assms(1-3)] a b by auto
  then have sha: "cc_Sha256 cc ?a \<noteq> cc_Sha256 cc ?b"
    using assms(5) [OF a b] by blast
  have "length (cc_Sha256 cc' ?b) = 32"
    using assms(2) by (simp add: platform_ok_def)
  then have fp: "ToSha256Fingerprint cc' ?kp = Some (hex_colons (cc_Sha256 cc ?b))"
    using assms(4) ne by (simp add: ToSha256Fingerprint_def b Let_def)
  let ?i = "i\<lparr>ei_cachedDer := Some ?a, ei_cachedFingerprint := Some (ToPlatformString (hex_colons (cc_Sha256 cc ?b)))\<rparr>"
  have "EnsureCertCached cc cc' i = Some ?i" "EnsureCertCached cc cc' ?i = Some ?i"
    by (simp_all add: EnsureCertCached_def i a fp)
  moreover have "ToPlatformString (hex_colons (cc_Sha256 cc ?b)) \<noteq> ToPlatformString (hex_colons (cc_Sha256 cc ?a))"
    using sha by (simp add: ToPlatformString_inject hex_colons_ascii hex_colons_inject)
  ultimately show ?thesis
    using ne by (auto simp: X509Der_get_def Sha256Fingerprint_get_def)
qed


theorem identity_shows_another_certificate_witness:
  "\<exists>i der fp i'. identity_Generate (Some (Some 7)) = Some i
     \<and> X509Der_get (sample_call [1, 2, 3, 4, 5, 6, 7, 8] 0) (sample_call [1, 9, 3, 4, 5, 6, 7, 8] 0) i = Some (der, i')
     \<and> Sha256Fingerprint_get (sample_call [1, 2, 3, 4, 5, 6, 7, 8] 0) (sample_call [1, 9, 3, 4, 5, 6, 7, 8] 0) i' = Some (fp, i')
     \<and> fp \<noteq> ToPlatformString (hex_colons (cc_Sha256 (sample_call [1, 2, 3, 4, 5, 6, 7, 8] 0) der))"
proof -
  let ?cc = "\<lambda>x. sample_call [1, x, 3, 4, 5, 6, 7, 8] 0"
  have ok: "platform_ok (?cc x) 7" for x by (rule sample_call_ok) simp
  have differ: "RandomSerial (cc_GenerateRandom (?cc 2)) \<noteq> RandomSerial (cc_GenerateRandom (?cc 9))"
    by (simp add: sample_call_def RandomSerial_def)
  have same: "cc_Sha256 (?cc 9) = cc_Sha256 (?cc 2)" by (simp add: sample_call_def)
  obtain a ra where a: "ToX509SelfSignedDer (?cc 2) \<lparr>m_Key = Some 7\<rparr> = Some a" "drop 15 a = 2 # ra"
    using sample_certificate_bytes [of 2] by auto
  obtain b rb where b: "ToX509SelfSignedDer (?cc 9) \<lparr>m_Key = Some 7\<rparr> = Some b" "drop 15 b = 9 # rb"
    using sample_certificate_bytes [of 9] by auto
  have "cc_Sha256 (?cc 2) a \<noteq> cc_Sha256 (?cc 2) b"
    using a(2) b(2) by (simp add: sample_call_def)
  then have free: "x = y" if "ToX509SelfSignedDer (?cc 2) \<lparr>m_Key = Some 7\<rparr> = Some x"
      "ToX509SelfSignedDer (?cc 9) \<lparr>m_Key = Some 7\<rparr> = Some y" "cc_Sha256 (?cc 2) x = cc_Sha256 (?cc 2) y" for x y
    using that a(1) b(1) by simp
  have gen: "identity_Generate (Some (Some 7)) =
      Some \<lparr>ei_native = Some \<lparr>m_Key = Some 7\<rparr>, ei_cachedFingerprint = None, ei_cachedDer = None\<rparr>"
    by (simp add: identity_Generate_def Generate_def)
  from identity_shows_another_certificate [OF ok ok differ same free gen] gen show ?thesis
    by blast
qed


section \<open>Two SRTP sessions\<close>

text \<open>The packets one session encrypts, each handed to the other one.\<close>

fun srtp_transfer ::
    "block_fn \<Rightarrow> mac_fn \<Rightarrow> bytes list \<Rightarrow> SrtpSessionState \<Rightarrow> SrtpSessionState
       \<Rightarrow> (bytes option list \<times> SrtpSessionState \<times> SrtpSessionState) option" where
  "srtp_transfer enc hmac [] a b = Some ([], a, b)"
| "srtp_transfer enc hmac (p # ps) a b = do {
     (wire, a) \<leftarrow> EncryptOutgoing enc hmac (Some p) a;
     (q, b) \<leftarrow> DecryptIncoming enc hmac wire b;
     (qs, a, b) \<leftarrow> srtp_transfer enc hmac ps a b;
     Some (q # qs, a, b)
   }"

definition rtp_seq :: "bytes \<Rightarrow> u16" where
  "rtp_seq p = be16_of (p ! 2) (p ! 3)"

definition rtp_ok :: "bytes \<Rightarrow> bool" where
  "rtp_ok p \<longleftrightarrow> payload_offset p \<noteq> 0 \<and> payload_offset p < length p"

definition no_rollover :: "u16 \<Rightarrow> u16 \<Rightarrow> bool" where
  "no_rollover prev sq \<longleftrightarrow> \<not> (prev > sq \<and> unat prev - unat sq < 0x8000)"

text \<open>The sender and the receiver of a direction: the same keys, the same rollover counter.\<close>

definition srtp_paired :: "SrtpEncryptParams \<Rightarrow> SrtpEncryptParams \<Rightarrow> bool" where
  "srtp_paired p q \<longleftrightarrow> SessionEncrKey p = SessionEncrKey q \<and> SessionAuthKey p = SessionAuthKey q
     \<and> SessionSalt p = SessionSalt q \<and> RolloverCounter p = RolloverCounter q"

lemma srtp_decrypt_paired:
  "srtp_paired p q \<Longrightarrow> Ssrc p = Ssrc q \<Longrightarrow> srtp_decrypt enc hmac p srtp = srtp_decrypt enc hmac q srtp"
  by (simp add: srtp_paired_def srtp_decrypt_eq srtp_cipher_def Let_def)

lemma srtp_advance_keys:
  "HasLastSequenceNumber p \<longrightarrow> no_rollover (LastSequenceNumber p) sq \<Longrightarrow>
     srtp_advance p sq = p\<lparr>LastSequenceNumber := sq, HasLastSequenceNumber := True\<rparr>"
  by (auto simp: srtp_advance_def no_rollover_def Let_def)

lemma srtp_one_packet:
  assumes "rtp_ok p" "srtp_paired (ss_Outgoing a) (ss_Incoming b)"
    and "HasLastSequenceNumber (ss_Outgoing a) \<longrightarrow> no_rollover (LastSequenceNumber (ss_Outgoing a)) (rtp_seq p)"
  obtains wire a' b' where "EncryptOutgoing enc hmac (Some p) a = Some (Some wire, a')"
    "DecryptIncoming enc hmac (Some wire) b = Some (Some p, b')" "srtp_paired (ss_Outgoing a') (ss_Incoming b')"
    "HasLastSequenceNumber (ss_Outgoing a')" "LastSequenceNumber (ss_Outgoing a') = rtp_seq p"
proof -
  let ?o = "(ss_Outgoing a)\<lparr>Ssrc := packet_ssrc p\<rparr>"
  let ?o' = "?o\<lparr>LastSequenceNumber := rtp_seq p, HasLastSequenceNumber := True\<rparr>"
  have n: "payload_offset p \<noteq> 0" "payload_offset p < length p" "12 \<le> length p"
    using assms(1) payload_offset_bounds [of p] by (auto simp: rtp_ok_def)
  have adv: "srtp_advance ?o (rtp_seq p) = ?o'"
    using assms(3) by (subst srtp_advance_keys) simp_all
  have pne: "p \<noteq> []" using n by auto
  obtain wire where e: "srtp_encrypt enc hmac ?o p (rtp_seq p) = Some (?o', wire)" and ne: "wire \<noteq> []"
    using n pne by (simp add: srtp_encrypt_eq adv Let_def)
  have d: "srtp_decrypt enc hmac ?o' wire = Some (Some p)"
    by (rule srtp_roundtrip_aux [OF e ne]) (simp add: rtp_seq_def)
  have len: "22 \<le> length wire" "take 12 p = take 12 wire"
    using srtp_decrypt_checks [where enc = enc and hmac = hmac and p = ?o' and srtp = wire] by (simp_all add: d)
  have nth: "wire ! i = p ! i" if "i < 12" for i
    using len(2) that by (metis nth_take)
  have ssrc: "packet_ssrc wire = packet_ssrc p"
    by (simp add: packet_ssrc_def nth)
  let ?i' = "(ss_Incoming b)\<lparr>Ssrc := packet_ssrc p\<rparr>"
  have pair: "srtp_paired ?o' ?i'"
    using assms(2) by (simp add: srtp_paired_def)
  have "srtp_decrypt enc hmac ?i' wire = Some (Some p)"
    using d srtp_decrypt_paired [OF pair, of enc hmac wire] by simp
  then have "DecryptIncoming enc hmac (Some wire) b = Some (Some p, b\<lparr>ss_Incoming := ?i'\<rparr>)"
    using len(1) by (simp add: DecryptIncoming_def Let_def ssrc)
  moreover have "EncryptOutgoing enc hmac (Some p) a = Some (Some wire, a\<lparr>ss_Outgoing := ?o'\<rparr>)"
    using n(3) e ne by (simp add: EncryptOutgoing_def Let_def rtp_seq_def)
  ultimately show thesis
    using that [of wire "a\<lparr>ss_Outgoing := ?o'\<rparr>" "b\<lparr>ss_Incoming := ?i'\<rparr>"] pair by simp
qed

lemma srtp_stream:
  assumes "list_all rtp_ok ps" "srtp_paired (ss_Outgoing a) (ss_Incoming b)"
    and "successively no_rollover (map rtp_seq ps)"
    and "HasLastSequenceNumber (ss_Outgoing a) \<and> ps \<noteq> [] \<longrightarrow> no_rollover (LastSequenceNumber (ss_Outgoing a)) (rtp_seq (hd ps))"
  shows "\<exists>a' b'. srtp_transfer enc hmac ps a b = Some (map Some ps, a', b')"
  using assms
proof (induction ps arbitrary: a b)
  case (Cons p ps)
  obtain wire a1 b1 where s: "EncryptOutgoing enc hmac (Some p) a = Some (Some wire, a1)"
      "DecryptIncoming enc hmac (Some wire) b = Some (Some p, b1)" "srtp_paired (ss_Outgoing a1) (ss_Incoming b1)"
      "LastSequenceNumber (ss_Outgoing a1) = rtp_seq p"
    using srtp_one_packet [of p a b enc hmac thesis] Cons.prems by auto
  have "\<exists>a' b'. srtp_transfer enc hmac ps a1 b1 = Some (map Some ps, a', b')"
    using Cons.prems s(3,4) by (intro Cons.IH) (cases ps; simp add: successively_Cons)+
  then show ?case
    by (auto simp: s(1,2))
qed simp

text \<open>
  Claim C39: Two SRTP sessions made from the same exported keying material, one as client and one as server,
  talk to each other: whatever the cipher and the MAC are, every packet the one encrypts is given back
  unchanged by the other, in order, for any SSRC, as long as no sequence number falls back by less than
  half its range.
\<close>

theorem srtp_sessions_talk:
  assumes "SrtpSession_Create enc (Some material) client = Some a"
    and "SrtpSession_Create enc (Some material) (\<not> client) = Some b"
    and "list_all rtp_ok ps" and "successively no_rollover (map rtp_seq ps)"
  shows "\<exists>a' b'. srtp_transfer enc hmac ps a b = Some (map Some ps, a', b')"
proof -
  have "length material = 60"
    using assms(1) by (auto simp: SrtpSession_Create_def split: if_splits)
  then have "ss_Outgoing a = ss_Incoming b" "\<not> HasLastSequenceNumber (ss_Outgoing a)"
    using assms(1,2) by (auto simp: SrtpSession_Create_def InitParamsFromMaster_def Let_def split: if_splits)
  then show ?thesis
    using assms(3,4) by (intro srtp_stream) (simp_all add: srtp_paired_def)
qed

theorem srtp_sessions_talk_witness:
  "\<exists>a b a' b'. SrtpSession_Create copy_block (Some (replicate 60 5)) True = Some a
     \<and> SrtpSession_Create copy_block (Some (replicate 60 5)) False = Some b
     \<and> srtp_transfer copy_block (\<lambda>k m i. 7) [rtp_bytes 65535, rtp_bytes 3, rtp_bytes 4] a b
         = Some ([Some (rtp_bytes 65535), Some (rtp_bytes 3), Some (rtp_bytes 4)], a', b')"
proof -
  obtain a b where s: "SrtpSession_Create copy_block (Some (replicate 60 5)) True = Some a"
      "SrtpSession_Create copy_block (Some (replicate 60 5)) (\<not> True) = Some b"
    by (simp add: SrtpSession_Create_def Let_def)
  have q: "rtp_seq (rtp_bytes sq) = sq" for sq
    by (simp add: rtp_seq_def rtp_bytes_def be16_def codec_simps)
  have "list_all rtp_ok [rtp_bytes 65535, rtp_bytes 3, rtp_bytes 4]"
    by (simp add: rtp_ok_def payload_offset_rtp_bytes) (simp add: rtp_bytes_def be16_def)
  moreover have "successively no_rollover (map rtp_seq [rtp_bytes 65535, rtp_bytes 3, rtp_bytes 4])"
    by (simp add: q no_rollover_def)
  ultimately show ?thesis
    using srtp_sessions_talk [OF s, of "[rtp_bytes 65535, rtp_bytes 3, rtp_bytes 4]" "\<lambda>k m i. 7"] s by auto
qed


section \<open>The signaling pipeline\<close>

definition ascii_units :: "pstring \<Rightarrow> bool" where
  "ascii_units w \<longleftrightarrow> (\<forall>c \<in> set w. c \<noteq> 0 \<and> c < 0x80)"

lemma ascii_unit_char:
  assumes "c \<noteq> 0" "c < (0x80 :: u16)"
  shows "utf8_unit c = [char_of (unat c)]" "char_unit (char_of (unat c)) = c" "char_of (unat c) \<noteq> CHR 0x00"
proof -
  have "unat c < 128" using assms(2) by (simp add: word_less_nat_alt)
  then have "(of_char (char_of (unat c) :: char) :: nat) = unat c" by simp
  then show u: "char_unit (char_of (unat c)) = c" by (simp add: char_unit_def)
  show "utf8_unit c = [char_of (unat c)]" using assms(2) by (simp add: utf8_unit_def)
  show "char_of (unat c) \<noteq> CHR 0x00" using u assms(1) char_unit_0 [of "char_of (unat c)"] by metis
qed

lemma ToPlatformString_ToUtf8:
  assumes "utf8_documented wt" "ascii_units w"
  shows "ToPlatformString (ToUtf8 wt w) = w"
proof -
  have tw: "takeWhile (\<lambda>c. c \<noteq> 0) w = w"
    using assms(2) by (intro takeWhile_eq_all_conv [THEN iffD2]) (simp add: ascii_units_def)
  have "\<forall>c \<in> set w. c \<noteq> 0 \<and> c < 0x100"
  proof
    fix c assume "c \<in> set w"
    then have "c \<noteq> 0" "c < 0x80" using assms(2) by (simp_all add: ascii_units_def)
    then show "c \<noteq> 0 \<and> c < 0x100" by (simp add: word_less_nat_alt)
  qed
  then have mb: "wt_ToMultiByte wt w = concat (map utf8_unit w)"
    using assms(1) unfolding utf8_documented_def by blast
  have "concat (map utf8_unit w) = map (\<lambda>c. char_of (unat c)) w"
    using assms(2) by (induction w) (simp_all add: ascii_units_def ascii_unit_char)
  then have u: "ToUtf8 wt w = map (\<lambda>c. char_of (unat c)) w"
    unfolding ToUtf8_def Let_def tw mb by simp
  have z: "CHR 0x00 \<notin> set (ToUtf8 wt w)"
    using assms(2) ascii_unit_char(3) by (auto simp: u ascii_units_def) metis
  have "map (\<lambda>c. char_unit c) (map (\<lambda>c. char_of (unat c)) w) = w"
    using assms(2) by (induction w) (simp_all add: ascii_units_def ascii_unit_char)
  then show ?thesis
    using z by (simp add: ToPlatformString_def c_str_id char_unit_def [symmetric] u)
qed

lemma pipe_exchange:
  assumes "length key = 256" "sendable m" "length (Serialize m) \<le> 1024 * 1024"
  shows "pipe_DecryptAndParse sha enc key (\<not> out) (env_Encrypt sha enc key out sq [m])
    = Some [ProjectParsedMessage (received m)]"
proof -
  have e: "env_Decrypt sha enc key (\<not> out) (env_Encrypt sha enc key out sq [m]) = Some [received m]"
    using envelope_exchange_aux [OF assms(1), of "[m]" sha enc out sq] assms(2,3) by simp
  then have "env_Encrypt sha enc key out sq [m] \<noteq> []"
    by (auto simp: env_Decrypt_def)
  with e show ?thesis
    by (simp add: pipe_DecryptAndParse_def)
qed

lemma pipe_sendable: "sendable (pipe_initial_setup wt a b c d e)" "sendable (pipe_candidates wt cs)"
  by (simp_all add: sendable_def pipe_initial_setup_def pipe_candidates_def TgcallsMessage_default_def
      MediaStateMsg_default_def)

text \<open>
  The signaling pipeline of the public API is its own inverse across the two ends of a call. ASCII
  credentials, fingerprints and candidate lines encrypted by one end come out of the parser of the other
  end unit by unit as they went in, for any hash, cipher and sequence number, up to one mebibyte.
\<close>

theorem pipeline_roundtrip:
  assumes "length key = 256" and "utf8_documented wt"
    and "list_all ascii_units [ufrag, pwd, hash, role, hex]" and "list_all ascii_units lines"
    and "length (Serialize (pipe_initial_setup wt ufrag pwd hash role hex)) \<le> 1024 * 1024"
    and "length (Serialize (pipe_candidates wt lines)) \<le> 1024 * 1024"
  shows "(\<exists>m. pipe_DecryptAndParse sha enc key (\<not> out)
            (pipe_EncryptInitialSetup sha enc wt key out sq ufrag pwd hash role hex) = Some [m]
          \<and> pp_Ufrag m = ufrag \<and> pp_Pwd m = pwd \<and> pp_FingerprintHash m = hash
          \<and> pp_FingerprintSetup m = role \<and> pp_FingerprintHex m = hex)
    \<and> (\<exists>m. pipe_DecryptAndParse sha enc key (\<not> out) (pipe_EncryptCandidates sha enc wt key out sq lines) = Some [m]
          \<and> pp_CandidateSdpStrings m = Some lines)"
proof (intro conjI exI)
  show "pipe_DecryptAndParse sha enc key (\<not> out) (pipe_EncryptInitialSetup sha enc wt key out sq ufrag pwd hash role hex)
      = Some [ProjectParsedMessage (received (pipe_initial_setup wt ufrag pwd hash role hex))]"
    using pipe_exchange [OF assms(1) pipe_sendable(1) assms(5)] by (simp add: pipe_EncryptInitialSetup_def)
  show "pipe_DecryptAndParse sha enc key (\<not> out) (pipe_EncryptCandidates sha enc wt key out sq lines)
      = Some [ProjectParsedMessage (received (pipe_candidates wt lines))]"
    using pipe_exchange [OF assms(1) pipe_sendable(2) assms(6)] by (simp add: pipe_EncryptCandidates_def)
  have "map (\<lambda>c. ToPlatformString (ToUtf8 wt c)) lines = lines"
    using assms(4) by (induction lines) (simp_all add: ToPlatformString_ToUtf8 [OF assms(2)])
  then show "pp_CandidateSdpStrings (ProjectParsedMessage (received (pipe_candidates wt lines))) = Some lines"
    by (simp add: ProjectParsedMessage_def parsed_base_def received_def pipe_candidates_def Let_def comp_def)
qed (use assms(3) in \<open>simp_all add: ProjectParsedMessage_def parsed_base_def received_def pipe_initial_setup_def
      Let_def ToPlatformString_ToUtf8 [OF assms(2)]\<close>)

theorem pipeline_roundtrip_witness:
  "\<exists>m. pipe_DecryptAndParse (\<lambda>b i. 3) copy_block (replicate 256 8) False
     (pipe_EncryptInitialSetup (\<lambda>b i. 3) copy_block latin_text (replicate 256 8) True 1 [97, 98] [99] [] [] [65]) = Some [m]
     \<and> pp_Ufrag m = [97, 98] \<and> pp_FingerprintHex m = [65]"
proof -
  have conv: "ToUtf8 latin_text [97, 98] = ''ab''" "ToUtf8 latin_text [99] = ''c''" "ToUtf8 latin_text [65] = ''A''"
      "ToUtf8 latin_text [] = []"
    by (simp_all add: ToUtf8_def latin_text_def utf8_unit_def char_of_def bit_0)
  have escaped: "EscapeJson ''ab'' = ''ab''" "EscapeJson ''c'' = ''c''" "EscapeJson ''A'' = ''A''" "EscapeJson [] = []"
    by (simp_all add: EscapeJson_def escape_char_def)
  have sizes: "length (Serialize (pipe_initial_setup latin_text [97, 98] [99] [] [] [65])) \<le> 1024 * 1024"
      "length (Serialize (pipe_candidates latin_text [])) \<le> 1024 * 1024"
    by (simp_all add: Serialize_def pipe_initial_setup_def pipe_candidates_def TgcallsMessage_default_def
        SerializeInitialSetup_def SerializeCandidates_def InitialSetupMsg_default_def conv escaped bool_text_def)
  have "list_all ascii_units [[97, 98], [99], [], [], [65 :: u16]]" "list_all ascii_units []"
    by (simp_all add: ascii_units_def)
  from pipeline_roundtrip [OF _ latin_text_documented this sizes, of "replicate 256 8" "\<lambda>b i. 3" copy_block True 1]
  show ?thesis by auto
qed


section \<open>The test vector of RFC 5769\<close>

fun crc_run :: "u32 \<Rightarrow> bytes \<Rightarrow> u32" where
  "crc_run c [] = c"
| "crc_run c (b # bs) =
     crc_run (crc_shift (crc_shift (crc_shift (crc_shift (crc_shift (crc_shift (crc_shift (crc_shift (c XOR ucast b))))))))) bs"

lemma Crc32_Compute_run: "Crc32_Compute bs = crc_run 0xFFFFFFFF bs XOR 0xFFFFFFFF"
proof -
  have "fold (\<lambda>b c. (crc_shift ^^ 8) (c XOR ucast b)) bs c = crc_run c bs" for c
    by (induction bs arbitrary: c) (simp_all add: numeral_eq_Suc)
  then show ?thesis by (simp add: crc32_is_bitwise crc_reference_def)
qed

lemma length_sample: "length kSample = 108"
  by (simp add: kSample_def)
lemma sample_prefix: "take 100 kSample = take 2 kSample @ [0, 88] @ take 96 (drop 4 kSample)"
  by (simp add: kSample_def)
lemma sample_length_field: "WriteU16 (take 100 kSample) 2 88 = take 100 kSample"
  unfolding sample_prefix by (simp add: WriteU16_def put_be16_def be16_def byte_at_def length_sample kSample_def list_update_append)
lemma sample_crc: "crc_run 0xFFFFFFFF (take 100 kSample) = 0x49D1917E"
  by (simp add: kSample_def crc_shift_def)
lemma decode_step:
  assumes "n = unat (be16_of (bs ! (p + 2)) (bs ! (p + 3)))" "p + 4 + n \<le> e" "e \<le> length bs"
  shows "decode_attrs f bs p e out = Option.bind (f (be16_of (bs ! p) (bs ! (p + 1))) (take n (drop (p + 4) bs)) out)
    (\<lambda>out. decode_attrs f bs (p + attr_advance n) e out)"
proof -
  have r: "rd_be16 bs p = Some (be16_of (bs ! p) (bs ! (p + 1)))"
    "rd_be16 bs (p + 2) = Some (be16_of (bs ! (p + 2)) (bs ! (p + 3)))"
    "subbuf bs (p + 4) (p + 4 + n) = Some (take n (drop (p + 4) bs))"
    using assms(2,3) rd_be16_in [of "p + 2" bs] by (simp_all add: rd_be16_in subbuf_in numeral_3_eq_3)
  have "p + 4 \<le> e" "\<not> p + 4 + n > e" using assms(2) by simp_all
  then show ?thesis
    by (subst decode_attrs.simps) (simp only: r assms(1) [symmetric] Option.bind.simps if_True if_False)
qed

lemma sample_bytes:
  "be16_of (kSample ! 0) (kSample ! 1) = 1" "be16_of (kSample ! 2) (kSample ! 3) = 88"
  "be32_of (kSample ! 4) (kSample ! 5) (kSample ! 6) (kSample ! 7) = kStunMagicCookie"
  "be16_of (kSample ! 20) (kSample ! 21) = 0x8022" "be16_of (kSample ! 22) (kSample ! 23) = 16"
  "be16_of (kSample ! 40) (kSample ! 41) = 0x24" "be16_of (kSample ! 42) (kSample ! 43) = 4"
  "be16_of (kSample ! 48) (kSample ! 49) = 0x8029" "be16_of (kSample ! 50) (kSample ! 51) = 8"
  "be16_of (kSample ! 60) (kSample ! 61) = 6" "be16_of (kSample ! 62) (kSample ! 63) = 9"
  "be16_of (kSample ! 76) (kSample ! 77) = 8" "be16_of (kSample ! 78) (kSample ! 79) = 20"
  "be16_of (kSample ! 100) (kSample ! 101) = 0x8028" "be16_of (kSample ! 102) (kSample ! 103) = 4"
  "be32_of (kSample ! 104) (kSample ! 105) (kSample ! 106) (kSample ! 107) = 0xe57a3bcf"
  by (simp_all add: kSample_def be16_of_def be32_of_def kStunMagicCookie_def)

lemma sample_values:
  "take 4 (drop 44 kSample) = [0x6e, 0x00, 0x01, 0xff]"
  "take 9 (drop 64 kSample) = bytes_of_string ''evtj:h6vY''"
  by (simp_all add: kSample_def bytes_of_string_def)

lemmas rfc_sample_types = kStunAttrUsername_def kStunAttrMessageIntegrity_def kStunAttrFingerprint_def
  kStunAttrPriority_def kStunAttrIceControlling_def kStunAttrIceControlled_def kStunAttrUseCandidate_def
  kStunAttrXorMappedAddress_def

lemma sample_walk:
  "decode_attrs apply_attr kSample 20 108 m = decode_attrs apply_attr kSample 40 108 m"
  "decode_attrs apply_attr kSample 40 108 m = decode_attrs apply_attr kSample 48 108 (m\<lparr>HasPriority := True, Priority := 0x6e0001ff\<rparr>)"
  "\<exists>v. decode_attrs apply_attr kSample 48 108 m = decode_attrs apply_attr kSample 60 108 (m\<lparr>HasIceControlled := True, IceControlledTieBreak := v\<rparr>)"
  "decode_attrs apply_attr kSample 60 108 m = decode_attrs apply_attr kSample 76 108 (m\<lparr>Username := ''evtj:h6vY''\<rparr>)"
  "\<exists>v. decode_attrs apply_attr kSample 76 108 m = decode_attrs apply_attr kSample 100 108 (m\<lparr>MessageIntegrity := v\<rparr>)"
  "\<exists>v. decode_attrs apply_attr kSample 100 108 m = Some (Some (m\<lparr>HasFingerprint := True, StunFingerprint := v\<rparr>))"
  subgoal by (subst decode_step [where n = 16]) (simp_all add: length_sample sample_bytes apply_attr_def rfc_sample_types attr_advance_def)
  subgoal by (subst decode_step [where n = 4]) (simp_all add: length_sample sample_bytes sample_values apply_attr_def rfc_sample_types attr_advance_def
        rd_be32_def rd8_def be32_of_def)
  subgoal by (subst decode_step [where n = 8]) (auto simp: length_sample sample_bytes apply_attr_def rfc_sample_types attr_advance_def rd_be64_in)
  subgoal by (subst decode_step [where n = 9]) (simp_all add: length_sample sample_bytes sample_values apply_attr_def rfc_sample_types attr_advance_def)
  subgoal by (subst decode_step [where n = 20]) (auto simp: length_sample sample_bytes apply_attr_def rfc_sample_types attr_advance_def)
  subgoal by (subst decode_step [where n = 4]) (auto simp: length_sample sample_bytes apply_attr_def rfc_sample_types attr_advance_def
       rd_be32_in decode_attrs.simps [where p = 108])
  done

lemma sample_decode:
  "\<exists>msg. stun_Decode kSample = Some (Some msg) \<and> MessageType msg = kStunBindingRequest
     \<and> Username msg = ''evtj:h6vY'' \<and> HasPriority msg \<and> Priority msg = 0x6e0001ff \<and> HasIceControlled msg"
proof -
  let ?m = "StunMessage_default\<lparr>MessageType := 1, TransactionId := take 12 (drop 8 kSample)\<rparr>"
  let ?m1 = "?m\<lparr>HasPriority := True, Priority := 0x6e0001ff\<rparr>"
  obtain v where v: "decode_attrs apply_attr kSample 48 108 ?m1
      = decode_attrs apply_attr kSample 60 108 (?m1\<lparr>HasIceControlled := True, IceControlledTieBreak := v\<rparr>)"
    using sample_walk(3) [of ?m1] by blast
  let ?m2 = "?m1\<lparr>HasIceControlled := True, IceControlledTieBreak := v\<rparr>\<lparr>Username := ''evtj:h6vY''\<rparr>"
  obtain w where w: "decode_attrs apply_attr kSample 76 108 ?m2 = decode_attrs apply_attr kSample 100 108 (?m2\<lparr>MessageIntegrity := w\<rparr>)"
    using sample_walk(5) [of ?m2] by blast
  obtain u where u: "decode_attrs apply_attr kSample 100 108 (?m2\<lparr>MessageIntegrity := w\<rparr>)
      = Some (Some (?m2\<lparr>MessageIntegrity := w\<rparr>\<lparr>HasFingerprint := True, StunFingerprint := u\<rparr>))"
    using sample_walk(6) [of "?m2\<lparr>MessageIntegrity := w\<rparr>"] by blast
  have d: "decode_attrs apply_attr kSample 20 108 ?m
      = Some (Some (?m2\<lparr>MessageIntegrity := w\<rparr>\<lparr>HasFingerprint := True, StunFingerprint := u\<rparr>))"
    using sample_walk(1) [of ?m] sample_walk(2) [of ?m] v
      sample_walk(4) [of "?m1\<lparr>HasIceControlled := True, IceControlledTieBreak := v\<rparr>"] w u by (simp only:)
  have r: "rd_be16 kSample 0 = Some 1" "rd_be16 kSample 2 = Some 88" "rd_be32 kSample 4 = Some kStunMagicCookie"
      "subbuf kSample 8 20 = Some (take 12 (drop 8 kSample))"
    using rd_be16_in [of 0 kSample] rd_be16_in [of 2 kSample] rd_be32_in [of 4 kSample] sample_bytes(1-3)
    by (simp_all add: length_sample subbuf_in)
  have "stun_Decode kSample = decode_attrs apply_attr kSample 20 108 ?m"
    by (simp add: stun_Decode_def length_sample r)
  then show ?thesis
    by (simp add: d kStunBindingRequest_def)
qed

lemma find_step:
  assumes "n = unat (be16_of (bs ! (p + 2)) (bs ! (p + 3)))" "p + 4 + n \<le> e" "e \<le> length bs"
  shows "find_mi bs p e =
    (if be16_of (bs ! p) (bs ! (p + 1)) = kStunAttrMessageIntegrity \<and> be16_of (bs ! (p + 2)) (bs ! (p + 3)) = 20
     then Some (Some p) else find_mi bs (p + attr_advance n) e)"
proof -
  have r: "rd_be16 bs p = Some (be16_of (bs ! p) (bs ! (p + 1)))"
    "rd_be16 bs (p + 2) = Some (be16_of (bs ! (p + 2)) (bs ! (p + 3)))"
    using assms(2,3) rd_be16_in [of "p + 2" bs] by (simp_all add: rd_be16_in numeral_3_eq_3)
  have "p + 4 \<le> e" "\<not> p + 4 + n > e" using assms(2) by simp_all
  then show ?thesis
    by (subst find_mi.simps) (simp only: r assms(1) [symmetric] Option.bind.simps if_True if_False)
qed

lemma sample_mi: "find_mi kSample 20 108 = Some (Some 76)"
proof -
  have "find_mi kSample 20 108 = find_mi kSample 40 108"
    by (subst find_step [where n = 16]) (simp_all add: length_sample sample_bytes rfc_sample_types attr_advance_def)
  also have "\<dots> = find_mi kSample 48 108"
    by (subst find_step [where n = 4]) (simp_all add: length_sample sample_bytes rfc_sample_types attr_advance_def)
  also have "\<dots> = find_mi kSample 60 108"
    by (subst find_step [where n = 8]) (simp_all add: length_sample sample_bytes rfc_sample_types attr_advance_def)
  also have "\<dots> = find_mi kSample 76 108"
    by (subst find_step [where n = 9]) (simp_all add: length_sample sample_bytes rfc_sample_types attr_advance_def)
  also have "\<dots> = Some (Some 76)"
    by (subst find_step [where n = 20]) (simp_all add: length_sample sample_bytes rfc_sample_types attr_advance_def)
  finally show ?thesis .
qed

lemma sample_integrity:
  "VerifyMessageIntegrity hmac kSample password =
     Some (fill 20 (hmac (bytes_of_string password) (WriteU16 (take 76 kSample) 2 80)) = take 20 (drop 80 kSample))"
proof -
  have "rd_be16 kSample 2 = Some 88"
    using rd_be16_in [of 2 kSample] sample_bytes(2) by (simp add: length_sample)
  then show ?thesis
    by (simp add: VerifyMessageIntegrity_def length_sample sample_mi subbuf_in)
qed

lemma rfc_sample_fingerprint: "VerifyFingerprint kSample = Some True"
proof -
  have r: "rd_be16 kSample 100 = Some kStunAttrFingerprint" "rd_be16 kSample 102 = Some 4"
      "rd_be32 kSample 104 = Some 0xe57a3bcf" "subbuf kSample 0 100 = Some (take 100 kSample)"
    using rd_be16_in [of 100 kSample] rd_be16_in [of 102 kSample] rd_be32_in [of 104 kSample] sample_bytes(14-16)
    by (simp_all add: length_sample subbuf_in rfc_sample_types)
  have c: "Crc32_Compute (take 100 kSample) XOR kStunFingerprintMask = 0xe57a3bcf"
    by (simp add: Crc32_Compute_run sample_crc kStunFingerprintMask_def)
  show ?thesis
    by (simp add: VerifyFingerprint_def length_sample r sample_length_field c)
qed

text \<open>
  The STUN codec reads the sample request of RFC 5769: it decodes with the message type, the
  credentials, the priority and the role of the RFC, its CRC-32 fingerprint verifies, and the self-check
  returns exactly whether the linked HMAC-SHA1 gives the integrity value of the RFC for the password and the
  first 76 bytes with the length field the standard prescribes.
\<close>

theorem rfc5769_sample_checks:
  "VerifyRfc5769Sample hmac =
     Some (fill 20 (hmac (bytes_of_string kPassword) (WriteU16 (take 76 kSample) 2 80)) = take 20 (drop 80 kSample))"
proof -
  obtain msg where m: "stun_Decode kSample = Some (Some msg)" "MessageType msg = kStunBindingRequest"
      "Username msg = ''evtj:h6vY''" "HasPriority msg" "Priority msg = 0x6e0001ff" "HasIceControlled msg"
    using sample_decode by blast
  show ?thesis
    unfolding VerifyRfc5769Sample_def m(1) Option.bind.simps option.case rfc_sample_fingerprint sample_integrity
    by (simp add: m)
qed

end
