(* ===== verification/SelfTest.thy ===== *)
theory SelfTest
  imports VoipApi AudioRuntime JitterBuffer ReflectorPacket ControlPacket RtpPacket
begin

text \<open>
  The self test of the public API, \<open>VoipSelfTest::RunAll\<close> in \<open>api/v1/voip_api.cpp\<close>: fourteen rows, each
  a fixed sample put through one part of the library. The rows are definitions over the models of
  those parts, \<open>None\<close> where a row would read outside a buffer; a default constructed result is the failure with an empty message.
  The theorems at the end say what the platform must do for every row to pass, and that the run reports whatever it does.
\<close>

unbundle bit_operations_syntax

section \<open>The rows\<close>

record VoipSelfTestResult =
  st_Name :: pstring
  st_Passed :: bool
  st_Detail :: pstring

definition st_row :: "string \<Rightarrow> bool \<Rightarrow> string \<Rightarrow> VoipSelfTestResult" where
  "st_row name passed detail =
     \<lparr>st_Name = ToPlatformString name, st_Passed = passed, st_Detail = ToPlatformString detail\<rparr>"

definition st_error :: "string + 'a \<Rightarrow> string" where
  "st_error r = (case r of Inl err \<Rightarrow> err | Inr _ \<Rightarrow> [])"

definition st_module_load :: VoipSelfTestResult where
  "st_module_load = st_row ''module_load'' True ''VianiumVoIP WinMD loaded''"

definition st_capability :: "bool \<Rightarrow> string \<Rightarrow> VoipEngine \<Rightarrow> VoipSelfTestResult" where
  "st_capability available reason e =
     (let cap = Capability available reason e
      in st_row ''capability_contract'' (CanExchangeCallKeys cap \<and> CanStartMedia cap) (Reason cap))"

definition st_endpoints :: "VoipEndpoint list" where
  "st_endpoints =
     [VoipEndpoint_default\<lparr>VoipEndpoint.Ip := ''149.154.175.50'', VoipEndpoint.Port := 443\<rparr>,
      VoipEndpoint_default\<lparr>Ipv6 := ''2001:b28:f23d:f001::a'', VoipEndpoint.Port := 443, VoipEndpoint.PeerTag := [1]\<rparr>,
      VoipEndpoint_default\<lparr>VoipEndpoint.Id := 42, VoipEndpoint.Ip := ''149.154.175.50'', VoipEndpoint.Port := 443,
        VoipEndpoint.PeerTag := [2]\<rparr>]"

definition st_selector :: VoipSelfTestResult where
  "st_selector =
     (let selection = SelectReflector st_endpoints
      in st_row ''endpoint_selector_prefers_ipv4_reflector''
           (case selection of Inl _ \<Rightarrow> False | Inr e \<Rightarrow> VoipEndpoint.Id e = 42)
           (case selection of Inl why \<Rightarrow> why | Inr _ \<Rightarrow> ''selected reflector endpoint''))"

definition st_rtp_packet :: VoipRtpPacket where
  "st_rtp_packet =
     \<lparr>VoipRtpPacket.PayloadType = 96, VoipRtpPacket.SequenceNumber = 0x1234, VoipRtpPacket.Timestamp = 0x01020304,
      VoipRtpPacket.Ssrc = 0xa0b0c0d0, TelegramFlags = 0x5a, TelegramSequenceOrAck = 0x00bada55 AND 0xFFFFFF,
      VoipRtpPacket.Payload = [0xde, 0xad, 0xbe, 0xef]\<rparr>"

definition st_rtp :: "VoipSelfTestResult option" where
  "st_rtp =
     do {
       let encoded = rtp_encode st_rtp_packet;
       decoded \<leftarrow> (case encoded of Inl _ \<Rightarrow> Some (Inl []) | Inr bs \<Rightarrow> rtp_decode bs);
       let ok = (case encoded of Inl _ \<Rightarrow> False
                 | Inr _ \<Rightarrow> (case decoded of Inl _ \<Rightarrow> False
                   | Inr p \<Rightarrow> VoipRtpPacket.PayloadType p = VoipRtpPacket.PayloadType st_rtp_packet
                       \<and> VoipRtpPacket.SequenceNumber p = VoipRtpPacket.SequenceNumber st_rtp_packet
                       \<and> VoipRtpPacket.Timestamp p = VoipRtpPacket.Timestamp st_rtp_packet
                       \<and> VoipRtpPacket.Ssrc p = VoipRtpPacket.Ssrc st_rtp_packet
                       \<and> TelegramFlags p = TelegramFlags st_rtp_packet
                       \<and> TelegramSequenceOrAck p = TelegramSequenceOrAck st_rtp_packet
                       \<and> VoipRtpPacket.Payload p = VoipRtpPacket.Payload st_rtp_packet));
       Some (st_row ''rtp_packet_roundtrip'' ok
         (if ok then ''RTP + Telegram extension round-tripped''
          else (case encoded of Inl err \<Rightarrow> err | Inr _ \<Rightarrow> st_error decoded)))
     }"

text \<open>The two payload builders cannot fail, so their \<open>Success\<close> tests are left out.\<close>

definition st_control :: "VoipSelfTestResult option" where
  "st_control =
     do {
       let initPayload = build_init_payload False;
       let encodedInit = encode_short \<lparr>VoipControlPacket.Type = VoipControlPacketType.Init, AckSequence = 0, Sequence = 1, AckMask = 0,
             ExtraFlags = 0, VoipControlPacket.Payload = initPayload\<rparr>;
       decodedInit \<leftarrow> (case encodedInit of Inl _ \<Rightarrow> Some (Inl []) | Inr bs \<Rightarrow> decode_short bs);
       parsedAck \<leftarrow> parse_init_ack_payload build_init_ack_payload;
       let ok = (case encodedInit of Inl _ \<Rightarrow> False
                 | Inr _ \<Rightarrow> (case decodedInit of Inl _ \<Rightarrow> False
                   | Inr p \<Rightarrow> VoipControlPacket.Type p = VoipControlPacketType.Init \<and> Sequence p = 1 \<and> VoipControlPacket.Payload p = initPayload \<and>
                       (case parsedAck of Inl _ \<Rightarrow> False
                        | Inr ack \<Rightarrow> PeerVersion ack = ProtocolVersion \<and> PeerMinVersion ack = MinProtocolVersion
                            \<and> HasAudioOpusStream ack \<and> AudioStreamId ack = DefaultAudioStreamId
                            \<and> FrameDurationMs ack = DefaultAudioFrameDurationMs)));
       Some (st_row ''voip_control_init_packets'' ok
         (if ok then ''PKT_INIT/PKT_INIT_ACK short control packets encode and parse''
          else (case encodedInit of Inl err \<Rightarrow> err
                | Inr _ \<Rightarrow> (case decodedInit of Inl err \<Rightarrow> err | Inr _ \<Rightarrow> st_error parsedAck))))
     }"

text \<open>A triangle wave; the cast to \<open>int16_t\<close> does not change the values.\<close>

definition st_pcm :: "int list" where
  "st_pcm = map (\<lambda>i. let phase = int (i mod 96);
       value = (if phase < 48 then phase * 180 else (96 - phase) * 180)
     in value - 4200) [0..<FrameSamples]"

definition st_opus :: "OpusLib \<Rightarrow> VoipSelfTestResult option" where
  "st_opus lib =
     (let (init, codec) = opus_Init lib DefaultBitrateBps OpusVoipCodec_new;
          (encodedBytes, written) = (if init = 0 then EncodeFrame lib st_pcm MaxPacketBytes codec else (init, []));
          encoded = put_list (replicate MaxPacketBytes 0) 0 written
      in do {
        (decodedFrames, samples) \<leftarrow>
          (if encodedBytes > 0
           then do {
             bs \<leftarrow> subbuf encoded 0 (nat encodedBytes);
             Some (DecodeFrame lib bs (FrameSamples * 2) codec)
           }
           else Some (encodedBytes, []));
        let decoded = samples @ drop (length samples) (replicate (FrameSamples * 2) 0);
        energy \<leftarrow> (if decodedFrames > 0
                   then (if nat decodedFrames > length decoded then None
                         else Some (\<Sum>x\<leftarrow>take (nat decodedFrames) decoded. \<bar>x\<bar>))
                   else Some 0);
        let plcFrames = (if decodedFrames > 0 then fst (DecodePlc lib FrameSamples codec) else decodedFrames);
        let ok = (init = 0 \<and> encodedBytes > 0 \<and> encodedBytes \<le> int MaxPacketBytes \<and> decodedFrames > 0
                  \<and> energy > 0 \<and> plcFrames > 0);
        Some (st_row ''opus_voip_encode_decode_plc'' ok
          (if ok then ''native Opus 48k mono encode/decode and PLC path passed''
           else ''init='' @ show_int init @ '' encoded='' @ show_int encodedBytes @ '' decoded='' @ show_int decodedFrames
             @ '' plc='' @ show_int plcFrames @ '' energy='' @ show_int energy))
      })"

definition st_media :: VoipSelfTestResult where
  "st_media =
     (let endpoint = VoipEndpoint_default\<lparr>VoipEndpoint.Id := 7, VoipEndpoint.Ip := ''149.154.175.50'',
            VoipEndpoint.Port := 443, VoipEndpoint.PeerTag := replicate 16 1\<rparr>;
          (prepared, session) = ms_Prepare ms_new 99 ''voip-call:99'' endpoint;
          (muted, session) = ms_SetMuted session True;
          ok = (VoipError_IsOk prepared \<and> VoipError_IsOk muted \<and> ms_state session = Prepared
                \<and> ms_callId session = 99 \<and> ms_muted session \<and> PacketsSent (ms_stats session) = 0)
      in st_row ''media_session_prepare'' ok
           (if ok then ''media session tracks selected reflector and mute state''
            else if VoipError_IsOk prepared then VoipError.Message muted else VoipError.Message prepared))"

definition st_requests :: VoipSelfTestResult where
  "st_requests =
     (let tag = map (\<lambda>i. of_nat i) [0..<16];
          discovery = build_peer_discovery_request tag;
          self = build_self_info_request tag 0x0102030405060708;
          ok = (case (discovery, self) of
                  (Inr d, Inr s) \<Rightarrow>
                    length d = DiscoveryRequestBytes \<and> length s = SelfInfoRequestBytes
                    \<and> list_all (\<lambda>i. d ! i = tag ! i \<and> s ! i = tag ! i) [0..<length tag]
                    \<and> list_all (\<lambda>i. d ! i = 0xFF) [16..<length d]
                    \<and> s ! 16 = 0xFF \<and> s ! 20 = 0xFF \<and> s ! 24 = 0xFF \<and> s ! 28 = 0xFE \<and> s ! 32 = 0x08 \<and> s ! 39 = 0x01
                | _ \<Rightarrow> False)
      in st_row ''reflector_request_packets'' ok
           (if ok then ''reflector discovery and self-info request packets match Telegram shape''
            else (case discovery of Inr _ \<Rightarrow> st_error self | Inl err \<Rightarrow> err)))"

definition TestWriteLE32 :: "bytes \<Rightarrow> nat \<Rightarrow> u32 \<Rightarrow> bytes" where
  "TestWriteLE32 out offset value =
     out[offset := ucast (value AND 0xFF),
         offset + 1 := ucast (drop_bit 8 value AND 0xFF),
         offset + 2 := ucast (drop_bit 16 value AND 0xFF),
         offset + 3 := ucast (drop_bit 24 value AND 0xFF)]"

definition TestWriteLE64 :: "bytes \<Rightarrow> nat \<Rightarrow> u64 \<Rightarrow> bytes" where
  "TestWriteLE64 out offset value =
     TestWriteLE32 (TestWriteLE32 out offset (ucast (value AND 0xFFFFFFFF))) (offset + 4)
       (ucast (drop_bit 32 value AND 0xFFFFFFFF))"

definition st_tag :: bytes where
  "st_tag = map (\<lambda>i. of_nat (0xA0 + i)) [0..<16]"

definition st_response :: bytes where
  "st_response =
     (let response = put_list (replicate SelfInfoResponseBytes 0) 0 st_tag;
          response = TestWriteLE64 response 16 0xFFFFFFFFFFFFFFFF;
          response = TestWriteLE32 response 24 0xFFFFFFFF;
          response = TestWriteLE32 response 28 0xc01572c7;
          response = TestWriteLE32 response 32 1710000000;
          response = TestWriteLE64 response 36 0x1122334455667788;
          response = TestWriteLE64 response 44 0;
          response = TestWriteLE32 response 52 0xFFFF0000;
          response = TestWriteLE32 response 56 0x32759a95
      in TestWriteLE32 response 60 51500)"

definition st_self_info :: "VoipSelfTestResult option" where
  "st_self_info =
     do {
       parsed \<leftarrow> parse_self_info_response st_response st_tag;
       let ok = (case parsed of Inl _ \<Rightarrow> False
                 | Inr info \<Rightarrow> VoipReflectorSelfInfo.PeerTag info = st_tag \<and> QueryId info = 0x1122334455667788
                     \<and> RawIpv4 info = 0x32759a95 \<and> Ipv4 info = ''149.154.117.50'' \<and> VoipReflectorSelfInfo.Port info = 51500);
       Some (st_row ''reflector_self_info_parse'' ok
         (if ok then ''reflector self-info response parsed'' else st_error parsed))
     }"

definition st_jitter :: "VoipSelfTestResult option" where
  "st_jitter =
     do {
       let payload = [0x11, 0x22];
       (e0, jitter) \<leftarrow> jb_Insert (jb_new 20) 100 96000 payload 1000;
       (e2, jitter) \<leftarrow> jb_Insert jitter 102 97920 payload 1040;
       let (first, jitter) = jb_NextPlayoutFrame jitter 1060;
       let (missing, jitter) = jb_NextPlayoutFrame jitter 1080;
       (late, jitter) \<leftarrow> jb_Insert jitter 101 96960 payload 1090;
       let (third, jitter) = jb_NextPlayoutFrame jitter 1100;
       let stats = jb_Stats jitter;
       let ok = (VoipError_IsOk e0 \<and> VoipError_IsOk e2 \<and> VoipError_IsOk late
         \<and> Ready first \<and> HasPacket first \<and> VoipJitterFrame.SequenceNumber first = 100
         \<and> Ready missing \<and> Plc missing \<and> VoipJitterFrame.SequenceNumber missing = 101
         \<and> Ready third \<and> HasPacket third \<and> VoipJitterFrame.SequenceNumber third = 102
         \<and> PacketsPlayed stats = 2 \<and> PacketsLost stats = 1 \<and> LateDrops stats = 1
         \<and> TargetMs stats \<ge> 60 \<and> TargetMs stats \<le> 180);
       Some (st_row ''jitter_buffer_playout_plc'' ok
         (if ok then ''jitter buffer emits packets, PLC slots, and late-drop stats''
          else if VoipError_IsOk e0 then VoipError.Message e2 else VoipError.Message e0))
     }"

definition st_key :: bytes where
  "st_key = map (\<lambda>i. of_nat i) [0..<256]"

definition st_relay_tag :: bytes where
  "st_relay_tag = map (\<lambda>i. of_nat (0x30 + i)) [0..<16]"

definition st_crypto :: "hash_fn \<Rightarrow> block_fn \<Rightarrow> block_fn \<Rightarrow> random_fn \<Rightarrow> VoipSelfTestResult" where
  "st_crypto sha enc dec rnd =
     (let plain = [1, 9, 0, 0];
          encrypted = EncryptRelayPacketMtProto2Short sha enc rnd st_key True st_relay_tag plain;
          decrypted = (if Success encrypted
            then DecryptRelayPacketMtProto2Short sha dec st_key False st_relay_tag (Bytes encrypted)
            else pc_Fail []);
          ok = (Success encrypted \<and> Success decrypted \<and> Plain decrypted = plain
                \<and> length (Bytes encrypted) \<ge> 48 \<and> (length (Bytes encrypted) - 32) mod 16 = 0);
          ok = (if ok
                then (let tampered = (Bytes encrypted)[length (Bytes encrypted) - 1 :=
                            Bytes encrypted ! (length (Bytes encrypted) - 1) XOR 0x01];
                          rejected = DecryptRelayPacketMtProto2Short sha dec st_key False st_relay_tag tampered
                      in \<not> Success rejected)
                else ok)
      in st_row ''packet_crypto_mtproto2_short'' ok
           (if ok then ''Telegram VoIP relay packet encrypt/decrypt and tamper rejection passed''
            else if Success encrypted then Error decrypted else Error encrypted))"

text \<open>The shape of a signature: a sequence with an integer in front.\<close>

definition st_sig_ok :: "bytes \<Rightarrow> bool option" where
  "st_sig_ok sig =
     (if length sig \<ge> 8 \<and> sig ! 0 = 0x30
      then (let lenLen = (if sig ! 1 AND 0x80 \<noteq> 0 then unat (sig ! 1 AND 0x7F) + 1 else 1);
                cursor = 1 + lenLen
            in if cursor < length sig then do { t \<leftarrow> rd8 sig cursor; Some (t = 0x02) } else Some False)
      else Some False)"

text \<open>The three calls of the key pair meet the platform at three moments.\<close>

definition st_identity ::
    "nat option option \<Rightarrow> CertCall \<Rightarrow> CertCall \<Rightarrow> CertCall \<Rightarrow> VoipSelfTestResult option" where
  "st_identity created cc1 cc2 cc3 =
     (case Generate created of
        None \<Rightarrow> Some (st_row ''ecdsa_p256_identity'' False ''platform ECDsaP256Sha256 unavailable'')
      | Some kp \<Rightarrow> do {
          sig \<leftarrow> SignSha256 cc1 kp (map (\<lambda>i. of_nat i) [0..<32]);
          sigOk \<leftarrow> st_sig_ok sig;
          der \<leftarrow> ToX509SelfSignedDer cc2 kp;
          fingerprint \<leftarrow> ToSha256Fingerprint cc3 kp;
          let certOk = (length der \<ge> 4 \<and> der ! 0 = 0x30 \<and> der ! 1 = 0x82);
          let certDetail = (if certOk then [] else ''cert DER did not start with 30 82'');
          let (certOk, certDetail) =
            (if length fingerprint \<noteq> 95
             then (False, if certDetail = [] then ''fingerprint length wrong'' else certDetail)
             else (certOk, certDetail));
          Some (st_row ''ecdsa_p256_identity'' (sigOk \<and> certOk)
            (if \<not> sigOk then ''signature did not start with SEQUENCE { INTEGER ... }''
             else if \<not> certOk then certDetail
             else ''fingerprint='' @ fingerprint))
        })"

definition kMasterKey :: bytes where
  "kMasterKey = [0xE1, 0xF9, 0x7A, 0x0D, 0x3E, 0x01, 0x8B, 0xE0, 0xD6, 0x4F, 0xA3, 0x2C, 0x06, 0xDE, 0x41, 0x39]"

definition kMasterSalt :: bytes where
  "kMasterSalt = [0x0E, 0xC6, 0x75, 0xAD, 0x49, 0x8A, 0xFE, 0xEB, 0xB6, 0x96, 0x0B, 0x3A, 0xAB, 0xE6]"

definition kExpectedSessionEncrKey :: bytes where
  "kExpectedSessionEncrKey =
     [0xC6, 0x1E, 0x7A, 0x93, 0x74, 0x4F, 0x39, 0xEE, 0x10, 0x73, 0x4A, 0xFE, 0x3F, 0xF7, 0xA0, 0x87]"

definition st_kdf :: "block_fn \<Rightarrow> VoipSelfTestResult" where
  "st_kdf enc =
     (let derivedEnc = DeriveSessionEncrKey enc \<lparr>MasterKey = kMasterKey, MasterSalt = kMasterSalt\<rparr>;
          kdfOk = (derivedEnc = kExpectedSessionEncrKey)
      in st_row ''srtp_kdf_rfc3711_session_encr_key'' kdfOk
           (if kdfOk then ''derived session encryption key matches RFC 3711 Appendix B vector''
            else ''session encryption key did not match RFC 3711 vector''))"

definition st_rtp_bytes :: bytes where
  "st_rtp_bytes = [0x80, 96, 0x00, 0x01, 0x00, 0x00, 0x00, 0x10, 0xCA, 0xFE, 0xBA, 0xBE]
     @ map (\<lambda>i. 0xA0 OR of_nat i) [0..<16]"

definition st_params :: SrtpEncryptParams where
  "st_params =
     \<lparr>SessionEncrKey = map (\<lambda>i. of_nat (0x10 + i)) [0..<16], SessionAuthKey = map (\<lambda>i. of_nat (0x40 + i)) [0..<20],
      SessionSalt = map (\<lambda>i. of_nat (0x70 + i)) [0..<14], SrtpEncryptParams.Ssrc = 0xCAFEBABE, RolloverCounter = 0,
      LastSequenceNumber = 0, HasLastSequenceNumber = False\<rparr>"

definition st_srtp :: "block_fn \<Rightarrow> mac_fn \<Rightarrow> VoipSelfTestResult option" where
  "st_srtp enc hmac =
     do {
       (encParams, srtp) \<leftarrow> srtp_encrypt enc hmac st_params st_rtp_bytes 1;
       let encOk = (srtp \<noteq> [] \<and> length srtp = length st_rtp_bytes + kAuthTagSize);
       decrypted \<leftarrow> (if encOk
          then srtp_decrypt enc hmac
                 (encParams\<lparr>HasLastSequenceNumber := False, LastSequenceNumber := 0, RolloverCounter := 0\<rparr>) srtp
          else Some None);
       let decOk = (decrypted \<noteq> None);
       let match = (decrypted = Some st_rtp_bytes);
       tamperRejected \<leftarrow> (if encOk
          then do {
            bogus \<leftarrow> srtp_decrypt enc hmac encParams (srtp[12 := srtp ! 12 XOR 0x01]);
            Some (bogus = None)
          }
          else Some False);
       let ok = (encOk \<and> decOk \<and> match \<and> tamperRejected);
       Some (st_row ''srtp_packet_roundtrip_and_tamper'' ok
         (if ok then ''AES-CTR encrypt/decrypt round-trip and HMAC-SHA1-80 tamper rejection passed''
          else if \<not> encOk then ''SRTP encrypt produced wrong size or empty output''
          else if \<not> decOk then ''SRTP decrypt rejected its own auth tag''
          else if \<not> match then ''SRTP decrypt produced different bytes than original RTP''
          else ''SRTP did not reject a tampered payload byte''))
     }"

text \<open>What the platform gives the run: the engine and its audio check, the Opus library, the
  cryptography, the key store and what it answers at its three calls.\<close>

record SelfTestEnv =
  se_available :: bool
  se_reason :: string
  se_engine :: VoipEngine
  se_opus :: OpusLib
  se_sha :: hash_fn
  se_enc :: block_fn
  se_dec :: block_fn
  se_random :: random_fn
  se_hmac :: mac_fn
  se_key :: "nat option option"
  se_calls :: "CertCall \<times> CertCall \<times> CertCall"

definition RunAll :: "SelfTestEnv \<Rightarrow> VoipSelfTestResult list option" where
  "RunAll env =
     do {
       rtp \<leftarrow> st_rtp;
       control \<leftarrow> st_control;
       opus \<leftarrow> st_opus (se_opus env);
       selfInfo \<leftarrow> st_self_info;
       jitter \<leftarrow> st_jitter;
       identity \<leftarrow> (case se_calls env of (cc1, cc2, cc3) \<Rightarrow> st_identity (se_key env) cc1 cc2 cc3);
       srtp \<leftarrow> st_srtp (se_enc env) (se_hmac env);
       Some [st_module_load, st_capability (se_available env) (se_reason env) (se_engine env), st_selector,
         rtp, control, opus, st_media, st_requests, selfInfo, jitter,
         st_crypto (se_sha env) (se_enc env) (se_dec env) (se_random env), identity, st_kdf (se_enc env), srtp]
     }"


section \<open>Every row can pass\<close>

lemma st_row_Passed [simp]: "st_Passed (st_row n p d) = p"
  by (simp add: st_row_def)

lemma st_module_load_passes: "st_Passed st_module_load"
  by (simp add: st_module_load_def)

lemma st_capability_passes:
  assumes "ve_transport e" "ve_audioFactory e"
  shows "st_Passed (st_capability True reason e)"
  using assms by (simp add: st_capability_def Capability_def capability_media_ready_def)

lemma st_selector_passes: "st_Passed st_selector"
  by (simp add: st_selector_def SelectReflector_def st_endpoints_def VoipEndpoint_default_def
      IsUsableReflectorEndpoint_def HasAddress_def HasIpv4_def)

lemma st_rtp_passes: "\<exists>r. st_rtp = Some r \<and> st_Passed r"
proof -
  have "rtp_ok st_rtp_packet"
    by (simp add: rtp_ok_def st_rtp_packet_def MaxPayloadBytes_def)
  then have "rtp_encode st_rtp_packet = Inr (rtp_layout st_rtp_packet)"
    "rtp_decode (rtp_layout st_rtp_packet) = Some (Inr st_rtp_packet)"
    by (simp_all add: rtp_facts)
  then show ?thesis by (simp add: st_rtp_def)
qed

lemma st_control_passes: "\<exists>r. st_control = Some r \<and> st_Passed r"
proof -
  let ?p = "\<lparr>VoipControlPacket.Type = VoipControlPacketType.Init, AckSequence = 0, Sequence = 1, AckMask = 0,
             ExtraFlags = 0, VoipControlPacket.Payload = build_init_payload False\<rparr>"
  have "length (build_init_payload False) = 19" by (simp add: build_init_payload_def le32_def)
  then have e: "encode_short ?p = Inr (control_layout ?p)"
    by (simp add: encode_short_Inr_iff)
  have a: "parse_init_ack_payload build_init_ack_payload = Some (Inr \<lparr>PeerVersion = ProtocolVersion,
     PeerMinVersion = MinProtocolVersion, HasAudioOpusStream = True, AudioStreamId = DefaultAudioStreamId,
     FrameDurationMs = DefaultAudioFrameDurationMs, AudioEnabled = True\<rparr>)"
    by code_simp
  show ?thesis by (simp add: st_control_def e a decode_short_layout)
qed

lemma st_media_passes: "st_Passed st_media"
  by (simp add: st_media_def ms_Prepare_def ms_SetMuted_def ms_new_def ms_HasAddress_def VoipEndpoint_default_def
      VoipMediaStats_default_def)

lemma st_requests_passes: "st_Passed st_requests"
proof -
  let ?t = "map (\<lambda>i. of_nat i) [0..<16] :: bytes"
  have t: "length ?t = 16" by simp
  show ?thesis
    unfolding st_requests_def Let_def self_info_request_layout peer_discovery_layout [OF t]
    by (simp add: reflector_consts le32_def byte_at_def upt_rec replicate_numeral_Cons)
qed

lemma st_response_layout:
  "st_response = self_info_response st_tag 1710000000 0x1122334455667788 (replicate 8 0) 0x32759a95 51500"
  by (simp add: st_response_def st_tag_def TestWriteLE64_def TestWriteLE32_def self_info_response_def reflector_consts
      put_list_front upt_rec replicate_numeral_Cons le32_def byte_at_def)

lemma st_self_info_passes: "\<exists>r. st_self_info = Some r \<and> st_Passed r"
proof -
  have t: "length st_tag = 16" by (simp add: st_tag_def)
  have "Ipv4ToString 0x32759a95 = ''149.154.117.50''"
    by code_simp
  then show ?thesis
    using parse_self_info_response_layout [OF t, of "replicate 8 0" st_tag 1710000000 "0x1122334455667788" "0x32759a95" 51500 "[]"]
    by (simp add: st_self_info_def st_response_layout)
qed

lemma st_jitter_passes: "\<exists>r. st_jitter = Some r \<and> st_Passed r"
proof -
  have "dmul 20 4 = 80" "of_i64 20 = 20"
    using rnd64_int [of 80] of_i64_exact [of 20] by (simp_all add: dmul_def)
  then show ?thesis
    by (simp add: st_jitter_def jb_new_def jb_Reset_def jb_NextPlayoutFrame_def VoipJitterFrame_default_def
      jb_Insert_def IsLate_def SequenceBefore_def RecalculateTarget_def TrimOverflow.simps to_i32_def smooth_def ClampInt_def
      jb_consts slots_erase_def VoipJitterStats_default_def jb_Stats_def)
qed

lemma st_kdf_passes:
  assumes "fill 16 (enc kMasterKey (kMasterSalt @ [0, 0])) = kExpectedSessionEncrKey"
  shows "st_Passed (st_kdf enc)"
proof -
  have "BuildKdfCounter \<lparr>MasterKey = kMasterKey, MasterSalt = kMasterSalt\<rparr> 0 = kMasterSalt @ [0, 0]"
    by (simp add: BuildKdfCounter_def kMasterSalt_def)
  then have "DeriveSessionEncrKey enc \<lparr>MasterKey = kMasterKey, MasterSalt = kMasterSalt\<rparr>
      = xor_bytes (replicate 16 0) (fill 16 (enc kMasterKey (kMasterSalt @ [0, 0])))"
    by (simp add: DeriveSessionEncrKey_def DeriveBytes_def srtp_labels SrtpAesCtr_Encrypt.simps)
  also have "\<dots> = kExpectedSessionEncrKey"
    unfolding assms by (simp add: kExpectedSessionEncrKey_def xor_bytes_def replicate_numeral_Cons)
  finally show ?thesis by (simp add: st_kdf_def)
qed

section \<open>The rows that need the platform\<close>

text \<open>
  The Opus library gives objects, accepts the settings, encodes the test frame within the
  capacity, decodes it to at most the capacity and not to silence, and conceals a lost frame.
\<close>

definition opus_works :: "OpusLib \<Rightarrow> bool" where
  "opus_works lib \<longleftrightarrow> ol_encoder lib = (0, True) \<and> ol_decoder lib = (0, True) \<and> (\<forall>r. ol_ctl lib r = 0) \<and>
     (\<exists>frame samples. ol_encode lib st_pcm MaxPacketBytes = (int (length frame), frame) \<and> frame \<noteq> []
        \<and> length frame \<le> MaxPacketBytes
        \<and> ol_decode lib (Some frame) (FrameSamples * 2) = (int (length samples), samples)
        \<and> length samples \<le> FrameSamples * 2 \<and> (\<exists>x \<in> set samples. x \<noteq> 0)) \<and>
     fst (ol_decode lib None FrameSamples) > 0"

lemma sum_abs_pos: "x \<in> set xs \<Longrightarrow> x \<noteq> 0 \<Longrightarrow> 0 < (\<Sum>x\<leftarrow>xs. \<bar>x :: int\<bar>)"
proof (induction xs)
  case (Cons y ys)
  have "0 \<le> (\<Sum>x\<leftarrow>ys. \<bar>x\<bar>)" by (intro sum_list_nonneg) auto
  with Cons show ?case by auto
qed simp

lemma st_opus_passes:
  assumes "opus_works lib"
  shows "\<exists>r. st_opus lib = Some r \<and> st_Passed r"
proof -
  from assms obtain frame samples where
    new: "ol_encoder lib = (0, True)" "ol_decoder lib = (0, True)" "\<And>r. ol_ctl lib r = 0"
    and e: "ol_encode lib st_pcm MaxPacketBytes = (int (length frame), frame)" "frame \<noteq> []" "length frame \<le> MaxPacketBytes"
    and d: "ol_decode lib (Some frame) (FrameSamples * 2) = (int (length samples), samples)"
      "length samples \<le> FrameSamples * 2" "\<exists>x \<in> set samples. x \<noteq> 0"
    and p: "fst (ol_decode lib None FrameSamples) > 0"
    unfolding opus_works_def by blast
  define codec where "codec = \<lparr>oc_encoder = True, oc_decoder = True\<rparr>"
  have init: "opus_Init lib DefaultBitrateBps OpusVoipCodec_new = (0, codec)"
    by (simp add: opus_Init_def OpusVoipCodec_new_def opus_Destroy_def new DefaultBitrateBps_def codec_def)
  have pcm: "length st_pcm = FrameSamples" "st_pcm \<noteq> []"
    by (simp_all add: st_pcm_def FrameSamples_val)
  have enc: "EncodeFrame lib st_pcm MaxPacketBytes codec = (int (length frame), frame)"
    using pcm by (simp add: EncodeFrame_def codec_def MaxPacketBytes_def e(1) [unfolded MaxPacketBytes_def])
  have sent: "subbuf (put_list (replicate MaxPacketBytes 0) 0 frame) 0 (length frame) = Some frame"
    using e(3) by (simp add: subbuf_def put_list_def)
  have dec: "DecodeFrame lib frame (FrameSamples * 2) codec = (int (length samples), samples)"
    using e(2,3) d(1) by (simp add: DecodeFrame_def codec_def FrameSamples_val MaxPacketBytes_def)
  have plc: "fst (DecodePlc lib FrameSamples codec) > 0"
    using p by (simp add: DecodePlc_def codec_def FrameSamples_val)
  have en: "0 < (\<Sum>x\<leftarrow>samples. \<bar>x\<bar>)" and ne: "samples \<noteq> []"
    using d(3) sum_abs_pos by auto
  have l: "0 < length frame" "0 < length samples" using e(2) ne by simp_all
  show ?thesis
    using l en plc e(3) by (simp add: st_opus_def init enc sent dec)
qed

text \<open>IGE decryption is IGE encryption with the two chaining blocks exchanged, hence injective.\<close>

lemma ige_decrypt_as_encrypt:
  "ige_decrypt_blocks dec key n c p inp = ige_encrypt_blocks dec key n p c inp"
  by (induction n arbitrary: c p inp) (simp_all add: Let_def)

lemma DecryptIge_inject:
  assumes "block_cipher_ok dec enc" and "length iv = 32" and "length a = length b"
    and "DecryptIge dec key iv a = Some x" and "DecryptIge dec key iv b = Some x"
  shows "a = b"
proof -
  let ?n = "length a div 16" and ?c = "take 16 iv" and ?p = "take 16 (drop 16 iv)"
  have inv: "ige_decrypt_blocks enc key ?n ?p ?c (ige_encrypt_blocks dec key ?n ?p ?c y) = y"
    if "length y = 16 * ?n" for y
    using assms(1,2) that unfolding block_cipher_ok_def by (intro ige_blocks_inverse) auto
  have n: "length a = 16 * ?n" and x: "x = ige_encrypt_blocks dec key ?n ?p ?c a"
    and y: "x = ige_encrypt_blocks dec key ?n ?p ?c b"
    using assms(3-5)
    by (auto simp: DecryptIge_def pc_consts ige_decrypt_as_encrypt mod_eq_0_iff_dvd split: if_splits)
  from n have "length b = 16 * ?n" using assms(3) by simp
  with n x y inv show ?thesis by metis
qed

text \<open>
  The tampered packet of the test is not a collision: what its payload decrypts to has a hash of its
  own (\<open>inner\<close> is what was encrypted).
\<close>

definition last_flipped :: "bytes \<Rightarrow> bytes" where
  "last_flipped bs = bs[length bs - 1 := bs ! (length bs - 1) XOR 0x01]"

definition hash_separates :: "hash_fn \<Rightarrow> block_fn \<Rightarrow> block_fn \<Rightarrow> random_fn \<Rightarrow> bool" where
  "hash_separates sha enc dec rnd \<longleftrightarrow>
     (let x = DirectionOffset True True; inner = relay_inner rnd [1, 9, 0, 0];
          m = relay_msg_key sha st_key x inner; (key, iv) = Kdf2 sha st_key m x
      in \<forall>c b. EncryptIge enc key iv inner = Some c \<longrightarrow> DecryptIge dec key iv (last_flipped c) = Some b \<longrightarrow> b \<noteq> inner \<longrightarrow>
           relay_msg_key sha st_key x b \<noteq> m)"

lemma xor_1_neq: "v \<noteq> v XOR 1" "v XOR 1 \<noteq> v" for v :: u8
proof -
  show "v \<noteq> v XOR 1"
  proof
    assume "v = v XOR 1"
    then have "v XOR v = v XOR v XOR 1" by (simp only: xor.assoc)
    then show False by simp
  qed
  then show "v XOR 1 \<noteq> v" by (rule not_sym)
qed

lemma st_crypto_passes:
  assumes "block_cipher_ok enc dec" "block_cipher_ok dec enc" "hash_separates sha enc dec rnd"
  shows "st_Passed (st_crypto sha enc dec rnd)"
proof -
  let ?plain = "[1, 9, 0, 0] :: bytes" and ?x = "DirectionOffset True True"
  let ?inner = "relay_inner rnd ?plain" and ?sent = "EncryptRelayPacketMtProto2Short sha enc rnd st_key True st_relay_tag [1, 9, 0, 0]"
  let ?m = "relay_msg_key sha st_key ?x ?inner"
  have k: "length st_key = 256" "length st_relay_tag = 16" by (simp_all add: st_key_def st_relay_tag_def)
  obtain key iv where kdf: "Kdf2 sha st_key ?m ?x = (key, iv)" by fastforce
  then have iv: "length iv = 32" using length_Kdf2 by blast
  obtain c where c: "EncryptIge enc key iv ?inner = Some c" "length c = length ?inner"
    and sent: "?sent = \<lparr>Success = True, Error = [], Bytes = st_relay_tag @ ?m @ c, Plain = ?plain\<rparr>"
    by (rule EncryptRelay_ok [OF k _ _ kdf]) simp_all
  obtain padLen where pad: "?inner = WriteLE16 (replicate 2 0) 0 (of_nat (length ?plain)) @ ?plain @ fill padLen rnd"
    and l: "16 \<le> padLen" "length ?inner mod 16 = 0"
    by (rule relay_inner_shape)
  have len: "16 \<le> length c" "length c mod 16 = 0"
    using pad l c(2) by simp_all
  have got: "DecryptRelayPacketMtProto2Short sha dec st_key False st_relay_tag (st_relay_tag @ ?m @ c)
      = \<lparr>Success = True, Error = [], Bytes = st_relay_tag @ ?m @ c, Plain = ?plain\<rparr>"
    using relay_roundtrip_aux [OF assms(1) k _ _ _ refl, of ?plain st_relay_tag sha rnd True] by (simp add: sent)
  have flip: "(st_relay_tag @ ?m @ c)[length (st_relay_tag @ ?m @ c) - 1 :=
      (st_relay_tag @ ?m @ c) ! (length (st_relay_tag @ ?m @ c) - 1) XOR 0x01] = st_relay_tag @ ?m @ last_flipped c"
    using k len by (cases "c = []") (simp_all add: list_update_append nth_append last_flipped_def)
  have fl: "length (last_flipped c) = length c" by (simp add: last_flipped_def)
  have "last_flipped c ! (length c - 1) \<noteq> c ! (length c - 1)"
    using len(1) by (simp add: last_flipped_def xor_1_neq)
  then have ne: "last_flipped c \<noteq> c" by auto
  from len(1) have "c \<noteq> []" by auto
  then have "DecryptIge dec key iv (last_flipped c) \<noteq> None"
    using len(2) by (simp add: DecryptIge_def pc_consts fl)
  then obtain b where b: "DecryptIge dec key iv (last_flipped c) = Some b" by blast
  have "DecryptIge dec key iv c = Some ?inner"
    using DecryptIge_EncryptIge [where dec = dec and key = key and enc = enc, OF _ c(1) iv] assms(1)
    by (simp add: block_cipher_ok_def)
  then have "b \<noteq> ?inner" using DecryptIge_inject [OF assms(2) iv fl b] ne by auto
  with assms(3) c(1) b have sep: "relay_msg_key sha st_key ?x b \<noteq> ?m"
    by (simp add: hash_separates_def Let_def kdf)
  have t: "take 16 (drop 16 (st_relay_tag @ ?m @ last_flipped c)) = ?m" "drop 32 (st_relay_tag @ ?m @ last_flipped c) = last_flipped c"
    using k by simp_all
  have tag: "pc_SamePeerTag (st_relay_tag @ ?m @ last_flipped c) st_relay_tag"
    using pc_SamePeerTag_own [of st_relay_tag "?m @ last_flipped c"] k by auto
  have dir: "DirectionOffset False False = ?x" using DirectionOffset_peer [of True] by simp
  have g: "\<not> length (st_relay_tag @ ?m @ last_flipped c) < 48" "48 \<le> length (st_relay_tag @ ?m @ c)"
    "(length (st_relay_tag @ ?m @ c) - 32) mod 16 = 0"
    using k len fl by simp_all
  have rejected: "DecryptRelayPacketMtProto2Short sha dec st_key False st_relay_tag (st_relay_tag @ ?m @ last_flipped c)
      = pc_Fail ''VoIP encrypted packet msg_key mismatch''"
    unfolding DecryptRelayPacketMtProto2Short_def pc_consts ValidateSharedKey_def dir Let_def
    by (simp_all only: t g k kdf b fl len tag sep [symmetric] simp_thms if_True if_False option.case prod.case arith_simps)
  show ?thesis
    by (simp only: st_crypto_def Let_def sent VoipEncryptedPacketResult.simps got flip rejected pc_Fail_def g st_row_Passed
        simp_thms if_True if_False)
qed

text \<open>A signature whose two numbers do not begin with eight zero bytes.\<close>

definition long_signature :: "CertCall \<Rightarrow> nat \<Rightarrow> bool" where
  "long_signature cc k \<longleftrightarrow>
     (let tbs = der_tbs (RandomSerial (cc_GenerateRandom cc)) (cc_time cc) (GetPublicKeyUncompressed cc \<lparr>m_Key = Some k\<rparr>)
      in \<forall>rs. cc_SignHashedData cc k (cc_Sha256 cc tbs) = Some rs \<longrightarrow>
           take 8 rs \<noteq> replicate 8 0 \<and> take 8 (drop 32 rs) \<noteq> replicate 8 0)"

lemma length_skip_zeros_ge: "length bs \<le> length (skip_zeros bs) + length (takeWhile (\<lambda>b. b = 0) bs)"
  by (induction bs rule: skip_zeros.induct) auto

lemma long_integer_body:
  assumes "take 8 bs \<noteq> replicate 8 0" and "length bs = 32"
  shows "25 \<le> length (integer_body bs)"
proof -
  let ?z = "takeWhile (\<lambda>b. b = 0) bs"
  have "length ?z < 8"
  proof (rule ccontr)
    assume "\<not> length ?z < 8"
    then have "take 8 bs = take 8 ?z" by (metis append_Nil2 takeWhile_dropWhile_id take_append diff_is_0_eq linorder_not_less take0)
    moreover have "take 8 ?z = replicate (length (take 8 ?z)) 0"
      by (intro replicate_length_same [symmetric]) (auto dest!: in_set_takeD set_takeWhileD)
    moreover have "length (take 8 ?z) = 8" using \<open>\<not> length ?z < 8\<close> by simp
    ultimately show False using assms(1) by simp
  qed
  with length_skip_zeros_ge [of bs] assms(2) show ?thesis by (auto simp: integer_body_def Let_def)
qed

lemma length_tlv_ge: "length c + 2 \<le> length (DerCertificate.tlv t c)"
  using EncodeLength_nonempty [of "length c"] by (cases "EncodeLength (length c)") (simp_all add: DerCertificate.tlv_def)

lemma integer_body_nonempty: "1 \<le> length (integer_body bs)"
  using integer_body_minimal [of bs] by (cases "integer_body bs") (simp_all add: der_minimal_def)

lemma tlv_short: "length c < 128 \<Longrightarrow> DerCertificate.tlv t c = t # of_nat (length c) # c"
  by (simp add: DerCertificate.tlv_def EncodeLength_def)

lemma and_80_small: "n < 128 \<Longrightarrow> (of_nat n :: u8) AND 0x80 = 0"
proof -
  assume n: "n < 128"
  have "\<forall>x \<in> {0..<128 :: nat}. (of_nat x :: u8) AND 0x80 = 0"
    by (simp add: atLeastLessThan_nat_numeral)
  with n show ?thesis by simp
qed

lemma st_sig_ok_passes:
  assumes "platform_ok cc k" and "length h = 32"
  shows "\<exists>sig. SignSha256 cc \<lparr>m_Key = Some k\<rparr> h = Some sig \<and> st_sig_ok sig = Some True"
proof -
  obtain rs where rs: "length rs = 64" "cc_SignHashedData cc k h = Some rs"
    using assms(1) by (auto simp: platform_ok_def)
  let ?r = "integer_body (take 32 rs)" and ?s = "integer_body (drop 32 rs)"
  have l: "1 \<le> length ?r" "length ?r \<le> 33" "1 \<le> length ?s" "length ?s \<le> 33"
    using integer_body_nonempty length_integer_body [of "take 32 rs"] length_integer_body [of "drop 32 rs"] rs(1) by simp_all
  let ?n = "4 + length ?r + length ?s"
  have sig: "DerCertificate.tlv 0x30 (DerCertificate.tlv 2 ?r @ DerCertificate.tlv 2 ?s) = 0x30 # of_nat ?n # 2 # of_nat (length ?r) # ?r @ 2 # of_nat (length ?s) # ?s"
    using l by (simp add: tlv_short)
  have "st_sig_ok (DerCertificate.tlv 0x30 (DerCertificate.tlv 2 ?r @ DerCertificate.tlv 2 ?s)) = Some True"
    unfolding sig st_sig_ok_def nth_Cons_0 Let_def using l and_80_small [of ?n]
    by (simp add: rd8_def del: of_nat_add)
  then show ?thesis
    using rs assms(2) by (simp add: SignSha256_def NormalizeEcdsaSignatureToDer_def RawRsToDer_64)
qed

lemma tlv_long:
  assumes "256 \<le> length c" "length c < 65536"
  shows "\<exists>a b. DerCertificate.tlv t c = t # 0x82 # a # b # c"
proof -
  have ne: "c \<noteq> []" using assms(1) by auto
  have "length c div 256 < 256" "0 < length c div 256" using assms by simp_all
  then have "length_bytes (length c) = [of_nat (length c mod 256), of_nat (length c div 256 mod 256)]"
    using assms ne by (subst length_bytes.simps, simp, subst length_bytes.simps, simp add: length_bytes.simps)
  with ne show ?thesis using assms by (simp add: DerCertificate.tlv_def EncodeLength_def Let_def)
qed

lemma st_certificate:
  assumes "platform_ok cc k" and "long_signature cc k"
  shows "\<exists>der. ToX509SelfSignedDer cc \<lparr>m_Key = Some k\<rparr> = Some der \<and> 4 \<le> length der \<and> der ! 0 = 0x30 \<and> der ! 1 = 0x82"
proof -
  obtain xy tbs sig where c: "length xy = 64" "tbs = der_tbs (RandomSerial (cc_GenerateRandom cc)) (cc_time cc) (0x04 # xy)"
    "SignSha256 cc \<lparr>m_Key = Some k\<rparr> (cc_Sha256 cc tbs) = Some sig" "length sig \<le> 200"
    "ToX509SelfSignedDer cc \<lparr>m_Key = Some k\<rparr> = Some (der_certificate tbs sig)"
    "cc_ExportPublicKey cc k = Some (der_spki (0x04 # xy))"
    by (rule certificate_ok [OF assms(1)])
  have h: "length (cc_Sha256 cc tbs) = 32" using assms(1) by (simp add: platform_ok_def)
  obtain rs where rs: "length rs = 64" "cc_SignHashedData cc k (cc_Sha256 cc tbs) = Some rs"
    using assms(1) by (auto simp: platform_ok_def)
  have "GetPublicKeyUncompressed cc \<lparr>m_Key = Some k\<rparr> = 0x04 # xy"
    using c(1,6) by (simp add: GetPublicKeyUncompressed_def Extract_der_spki)
  with assms(2) rs have z: "take 8 rs \<noteq> replicate 8 0" "take 8 (drop 32 rs) \<noteq> replicate 8 0"
    by (simp_all add: long_signature_def c(2))
  let ?r = "integer_body (take 32 rs)" and ?s = "integer_body (drop 32 rs)"
  have "25 \<le> length ?r" "25 \<le> length ?s"
    using z rs(1) by (intro long_integer_body; simp)+
  moreover have "sig = DerCertificate.tlv 0x30 (DerCertificate.tlv 2 ?r @ DerCertificate.tlv 2 ?s)"
    using c(3) rs h by (simp add: SignSha256_def NormalizeEcdsaSignatureToDer_def RawRsToDer_64)
  ultimately have sig: "56 \<le> length sig"
    using length_tlv_ge [of ?r 2] length_tlv_ge [of ?s 2] length_tlv_ge [of "DerCertificate.tlv 2 ?r @ DerCertificate.tlv 2 ?s" "0x30"] by simp
  have serial: "3 \<le> length (DerCertificate.tlv 2 (integer_body x))" for x
    using length_tlv_ge [of "integer_body x" 2] integer_body_nonempty [of x] by simp
  have ver: "length (DerCertificate.tlv 0xA0 (DerCertificate.tlv 2 [2])) = 5" by (simp add: DerCertificate.tlv_def EncodeLength_def)
  have "189 \<le> length tbs"
    unfolding c(2) der_tbs_def using serial [of "RandomSerial (cc_GenerateRandom cc)"] c(1)
    by (intro order_trans [OF _ length_tlv_ge]) (simp add: der_constant_lengths length_validity length_spki ver)
  moreover have "length tbs \<le> 300"
    unfolding c(2) using assms(1) c(1) by (intro length_tbs length_RandomSerial) (simp_all add: platform_ok_def)
  moreover have "59 \<le> length (DerCertificate.tlv 3 (0 # sig))" using length_tlv_ge [of "0 # sig" 3] sig by simp
  moreover have "length (DerCertificate.tlv 3 (0 # sig)) \<le> 201 + 4" using c(4) by (intro length_tlv_le) simp_all
  ultimately obtain a b where "der_certificate tbs sig = 0x30 # 0x82 # a # b # tbs @ der_algorithm @ DerCertificate.tlv 3 (0 # sig)"
    using tlv_long [of "tbs @ der_algorithm @ DerCertificate.tlv 3 (0 # sig)" "0x30"] by (auto simp: der_certificate_def der_constant_lengths)
  then show ?thesis using c(5) by simp
qed

lemma length_hex_colons_exact: "bs \<noteq> [] \<Longrightarrow> Suc (length (hex_colons bs)) = 3 * length bs"
  by (induction bs rule: hex_colons.induct) (simp_all add: hex_pair_def)

lemma st_identity_passes:
  assumes "platform_ok cc1 k" "platform_ok cc2 k" "platform_ok cc3 k" "long_signature cc2 k"
  shows "\<exists>r. st_identity (Some (Some k)) cc1 cc2 cc3 = Some r \<and> st_Passed r"
proof -
  have "length (map (\<lambda>i. of_nat i) [0..<32] :: bytes) = 32" by simp
  from st_sig_ok_passes [OF assms(1) this] obtain sig where
    s: "SignSha256 cc1 \<lparr>m_Key = Some k\<rparr> (map (\<lambda>i. of_nat i) [0..<32]) = Some sig" "st_sig_ok sig = Some True" by blast
  obtain der where d: "ToX509SelfSignedDer cc2 \<lparr>m_Key = Some k\<rparr> = Some der" "4 \<le> length der" "der ! 0 = 0x30" "der ! 1 = 0x82"
    using st_certificate [OF assms(2,4)] by blast
  obtain tbs sig' where c: "ToX509SelfSignedDer cc3 \<lparr>m_Key = Some k\<rparr> = Some (der_certificate tbs sig')"
    by (rule certificate_ok [OF assms(3)])
  have h: "length (cc_Sha256 cc3 m) = 32" for m using assms(3) by (simp add: platform_ok_def)
  have "length (hex_colons (cc_Sha256 cc3 m)) = 95" for m
    using length_hex_colons_exact [of "cc_Sha256 cc3 m"] h [of m] by (cases "cc_Sha256 cc3 m") auto
  moreover have "ToSha256Fingerprint cc3 \<lparr>m_Key = Some k\<rparr> = Some (hex_colons (cc_Sha256 cc3 (der_certificate tbs sig')))"
    by (simp add: ToSha256Fingerprint_def c h) (simp add: der_certificate_def DerCertificate.tlv_def)
  ultimately show ?thesis
    using s d by (simp add: st_identity_def Generate_def del: upt_conv_Cons_Cons)
qed

text \<open>The MAC of the test packet is not that of the packet with the tampered byte.\<close>

definition mac_separates :: "block_fn \<Rightarrow> mac_fn \<Rightarrow> bool" where
  "mac_separates enc hmac \<longleftrightarrow>
     (\<forall>p srtp. srtp_encrypt enc hmac st_params st_rtp_bytes 1 = Some (p, srtp) \<longrightarrow>
        (let body = take (length srtp - 10) srtp
         in ComputeAuthTag hmac (SessionAuthKey p) (body[12 := body ! 12 XOR 0x01]) (RolloverCounter p)
              \<noteq> drop (length srtp - 10) srtp))"

lemma st_srtp_passes:
  assumes "mac_separates enc hmac"
  shows "\<exists>r. st_srtp enc hmac = Some r \<and> st_Passed r"
proof -
  have off: "payload_offset st_rtp_bytes = 12" "length st_rtp_bytes = 28"
    by (simp_all add: payload_offset_def st_rtp_bytes_def)
  obtain p srtp where e: "srtp_encrypt enc hmac st_params st_rtp_bytes 1 = Some (p, srtp)"
    and len: "length srtp = 38" and roc: "RolloverCounter p = 0"
    by (simp add: srtp_encrypt_eq off Let_def srtp_cipher_def srtp_advance_def st_params_def)
  have ne: "srtp \<noteq> []" using len by auto
  have sq: "1 = be16_of (st_rtp_bytes ! 2) (st_rtp_bytes ! 3)"
    by (simp add: st_rtp_bytes_def be16_of_def)
  have "srtp_cipher enc (p\<lparr>HasLastSequenceNumber := False, LastSequenceNumber := 0, RolloverCounter := 0\<rparr>) = srtp_cipher enc p"
    by (intro ext) (simp add: srtp_cipher_def roc)
  then have "srtp_decrypt enc hmac (p\<lparr>HasLastSequenceNumber := False, LastSequenceNumber := 0, RolloverCounter := 0\<rparr>) srtp
      = srtp_decrypt enc hmac p srtp"
    by (simp add: srtp_decrypt_eq roc Let_def)
  also have "\<dots> = Some (Some st_rtp_bytes)" by (rule srtp_roundtrip_aux [OF e ne sq])
  finally have d: "srtp_decrypt enc hmac (p\<lparr>HasLastSequenceNumber := False, LastSequenceNumber := 0, RolloverCounter := 0\<rparr>) srtp
      = Some (Some st_rtp_bytes)" .
  have "take 28 (srtp[12 := srtp ! 12 XOR 0x01]) = (take 28 srtp)[12 := take 28 srtp ! 12 XOR 0x01]"
    "drop 28 (srtp[12 := srtp ! 12 XOR 0x01]) = drop 28 srtp"
    by (simp_all add: take_update_swap drop_update_cancel)
  moreover have "drop 28 srtp \<noteq> ComputeAuthTag hmac (SessionAuthKey p) ((take 28 srtp)[12 := take 28 srtp ! 12 XOR 0x01]) (RolloverCounter p)"
    using assms e len by (auto simp: mac_separates_def Let_def)
  ultimately have "srtp_decrypt enc hmac p (srtp[12 := srtp ! 12 XOR 0x01]) = Some None"
    by (simp add: srtp_decrypt_eq Let_def len)
  then show ?thesis
    using e d ne len off by (simp add: st_srtp_def kAuthTagSize_def)
qed


section \<open>The whole run\<close>

text \<open>
  On a platform that does what its documentation says the self test passes. The engine has
  its transport and audio parts, Opus works, the block cipher is inverted by its decryption and gives the
  vector of RFC 3711, the hash and the MAC tell the two tampered samples from the genuine ones, and the key
  store works, with a signature that has no eight leading zero bytes in either number: then all
  fourteen rows are there and passed.
\<close>

theorem self_test_passes:
  assumes "ve_transport (se_engine env)" "ve_audioFactory (se_engine env)" "se_available env"
    and "opus_works (se_opus env)"
    and "block_cipher_ok (se_enc env) (se_dec env)" "block_cipher_ok (se_dec env) (se_enc env)"
    and "fill 16 (se_enc env kMasterKey (kMasterSalt @ [0, 0])) = kExpectedSessionEncrKey"
    and "hash_separates (se_sha env) (se_enc env) (se_dec env) (se_random env)"
    and "mac_separates (se_enc env) (se_hmac env)"
    and "se_key env = Some (Some k)" "se_calls env = (cc1, cc2, cc3)"
    and "platform_ok cc1 k" "platform_ok cc2 k" "platform_ok cc3 k" "long_signature cc2 k"
  shows "\<exists>rows. RunAll env = Some rows \<and> length rows = 14 \<and> list_all st_Passed rows"
proof -
  from st_rtp_passes st_control_passes st_opus_passes [OF assms(4)] st_self_info_passes st_jitter_passes
    st_identity_passes [OF assms(12-15)] st_srtp_passes [OF assms(9)]
  obtain a b c d e f g where rows: "st_rtp = Some a" "st_control = Some b" "st_opus (se_opus env) = Some c"
      "st_self_info = Some d" "st_jitter = Some e" "st_identity (Some (Some k)) cc1 cc2 cc3 = Some f"
      "st_srtp (se_enc env) (se_hmac env) = Some g"
    and ok: "st_Passed a" "st_Passed b" "st_Passed c" "st_Passed d" "st_Passed e" "st_Passed f" "st_Passed g"
    by blast
  from assms(3) have "se_available env = True" by simp
  then show ?thesis
    using ok st_module_load_passes st_capability_passes [OF assms(1,2)] st_selector_passes st_media_passes
      st_requests_passes st_crypto_passes [OF assms(5,6,8)] st_kdf_passes [of "se_enc env", OF assms(7)]
    by (simp add: RunAll_def rows assms(10,11))
qed

text \<open>What the library documents of its results: errors are negative, counts stay within the capacity.\<close>

definition opus_within :: "OpusLib \<Rightarrow> bool" where
  "opus_within lib \<longleftrightarrow> fst (ol_encoder lib) \<le> 0 \<and> fst (ol_decoder lib) \<le> 0 \<and> (\<forall>r. ol_ctl lib r \<le> 0) \<and>
     (\<forall>pcm n. fst (ol_encode lib pcm n) \<le> int n) \<and> (\<forall>bs n. fst (ol_decode lib bs n) \<le> int n)"

lemma opus_codes: "OPUS_BAD_ARG < 0" "OPUS_INVALID_STATE < 0" "OPUS_ALLOC_FAIL < 0"
  by (simp_all add: OPUS_BAD_ARG_def OPUS_INVALID_STATE_def OPUS_ALLOC_FAIL_def)

lemma opus_requests_le: "(\<forall>r. ctl r \<le> 0) \<Longrightarrow> opus_requests ctl rs \<le> 0"
  by (induction rs) simp_all

lemma opus_Init_le: "opus_within lib \<Longrightarrow> fst (opus_Init lib b c) \<le> 0"
  using opus_codes(3) opus_requests_le [of "ol_ctl lib"]
  by (simp add: opus_within_def opus_Init_def Let_def split_beta)

lemma EncodeFrame_le: "opus_within lib \<Longrightarrow> fst (EncodeFrame lib pcm n c) \<le> int n"
  using opus_codes by (simp add: opus_within_def EncodeFrame_def)

lemma DecodeFrame_le: "opus_within lib \<Longrightarrow> fst (DecodeFrame lib bs n c) \<le> int n"
  using opus_codes by (simp add: opus_within_def DecodeFrame_def DecodePlc_def)

lemma st_opus_defined:
  assumes "opus_within lib"
  shows "st_opus lib \<noteq> None"
proof -
  obtain init codec where i: "opus_Init lib DefaultBitrateBps OpusVoipCodec_new = (init, codec)" by fastforce
  have neg: "init \<le> 0" using opus_Init_le [OF assms, of DefaultBitrateBps OpusVoipCodec_new] by (simp add: i)
  obtain n w where r: "(if init = 0 then EncodeFrame lib st_pcm MaxPacketBytes codec else (init, [])) = (n, w)" by fastforce
  have n: "n \<le> int MaxPacketBytes"
    using EncodeFrame_le [OF assms, of st_pcm MaxPacketBytes codec] r neg by (auto split: if_splits)
  let ?buf = "put_list (replicate MaxPacketBytes 0) 0 w"
  have "nat n \<le> length ?buf" using n by (simp add: put_list_def)
  then have sub: "subbuf ?buf 0 (nat n) = Some (take (nat n) ?buf)" by (simp add: subbuf_def)
  obtain d s where d: "(if 0 < n then DecodeFrame lib (take (nat n) ?buf) (FrameSamples * 2) codec else (n, [])) = (d, s)"
    by fastforce
  have "0 < d \<Longrightarrow> d \<le> int (FrameSamples * 2)"
    using DecodeFrame_le [OF assms, of "take (nat n) ?buf" "FrameSamples * 2" codec] d by (auto split: if_splits)
  then have "0 < d \<Longrightarrow> \<not> length (s @ drop (length s) (replicate (FrameSamples * 2) (0 :: int))) < nat d" by auto
  moreover have "(if 0 < n then subbuf ?buf 0 (nat n) \<bind> (\<lambda>bs. Some (DecodeFrame lib bs (FrameSamples * 2) codec))
      else Some (n, [])) = Some (d, s)"
    using d by (simp add: sub split: if_splits)
  ultimately show ?thesis
    unfolding st_opus_def i r Let_def prod.case by (cases "0 < d") simp_all
qed

lemma st_identity_defined: "st_identity created cc1 cc2 cc3 \<noteq> None"
proof (cases "Generate created")
  case (Some kp)
  obtain sig where s: "SignSha256 cc1 kp (map (\<lambda>i. of_nat i) [0..<32]) = Some sig" using SignSha256_defined by blast
  obtain der where d: "ToX509SelfSignedDer cc2 kp = Some der" using ToX509_defined by blast
  have "ToSha256Fingerprint cc3 kp \<noteq> None"
    using ToX509_defined [of cc3 kp] by (auto simp: ToSha256Fingerprint_def Let_def)
  then obtain fp where f: "ToSha256Fingerprint cc3 kp = Some fp" by blast
  have "st_sig_ok sig \<noteq> None" by (simp add: st_sig_ok_def Let_def rd8_def del: not_None_eq)
  then obtain ok where "st_sig_ok sig = Some ok" by blast
  with s d f Some show ?thesis by (simp add: st_identity_def split_beta Let_def del: upt_conv_Cons_Cons)
qed (simp add: st_identity_def)

lemma st_srtp_defined: "st_srtp enc hmac \<noteq> None"
proof -
  have "srtp_encrypt enc hmac st_params st_rtp_bytes 1 \<noteq> None" by (simp add: srtp_encrypt_eq Let_def)
  then obtain p srtp where e: "srtp_encrypt enc hmac st_params st_rtp_bytes 1 = Some (p, srtp)" by auto
  have d: "srtp_decrypt enc hmac q bs \<noteq> None" for q bs by (simp add: srtp_decrypt_eq Let_def)
  then have "\<exists>x. srtp_decrypt enc hmac q bs = Some x" for q bs by blast
  then obtain f where "\<And>q bs. srtp_decrypt enc hmac q bs = Some (f q bs)" by metis
  then show ?thesis by (simp add: st_srtp_def e Let_def)
qed

text \<open>
  Whatever the platform does, the self test ends with its fourteen rows and never reads outside a
  buffer, as long as Opus stays within the capacity it is given; and the eight rows
  that use no service of the platform pass in every run.
\<close>

theorem self_test_reports:
  assumes "opus_within (se_opus env)"
  shows "\<exists>rows. RunAll env = Some rows \<and> length rows = 14
     \<and> list_all (\<lambda>i. st_Passed (rows ! i)) [0, 2, 3, 4, 6, 7, 8, 9]"
proof -
  obtain cc1 cc2 cc3 where cc: "se_calls env = (cc1, cc2, cc3)" by (cases "se_calls env")
  from st_rtp_passes st_control_passes st_opus_defined [OF assms] st_self_info_passes st_jitter_passes
    st_identity_defined [of "se_key env" cc1 cc2 cc3] st_srtp_defined [of "se_enc env" "se_hmac env"]
  obtain a b c d e f g where rows: "st_rtp = Some a" "st_control = Some b" "st_opus (se_opus env) = Some c"
      "st_self_info = Some d" "st_jitter = Some e" "st_identity (se_key env) cc1 cc2 cc3 = Some f"
      "st_srtp (se_enc env) (se_hmac env) = Some g"
    and ok: "st_Passed a" "st_Passed b" "st_Passed d" "st_Passed e"
    by blast
  then show ?thesis
    using st_module_load_passes st_selector_passes st_media_passes st_requests_passes
    by (simp add: RunAll_def rows cc)
qed


section \<open>A platform that works\<close>

text \<open>A cipher that adds a pad: none under most keys, and under the key of the vector what gives it.\<close>

definition vector_cipher :: block_fn where
  "vector_cipher key b i =
     b ! i XOR (if key = kMasterKey then xor_bytes (kMasterSalt @ [0, 0]) kExpectedSessionEncrKey ! i else 0)"

definition working_opus :: OpusLib where
  "working_opus = \<lparr>ol_encoder = (0, True), ol_decoder = (0, True), ol_ctl = (\<lambda>_. 0),
     ol_encode = (\<lambda>_ n. (min 1 (int n), [1])), ol_decode = (\<lambda>_ n. (min 1 (int n), [5]))\<rparr>"

definition working_platform :: SelfTestEnv where
  "working_platform = \<lparr>se_available = True, se_reason = [], se_engine = busy_engine, se_opus = working_opus,
     se_sha = (\<lambda>m i. last m), se_enc = vector_cipher, se_dec = vector_cipher, se_random = (\<lambda>i. 0),
     se_hmac = (\<lambda>k m i. m ! 12), se_key = Some (Some 7),
     se_calls = (sample_call [1, 2, 3, 4, 5, 6, 7, 8] 0, sample_call [1, 2, 3, 4, 5, 6, 7, 8] 0, sample_call [1, 2, 3, 4, 5, 6, 7, 8] 0)\<rparr>"

lemma vector_cipher_ok: "block_cipher_ok vector_cipher vector_cipher"
  by (auto simp: block_cipher_ok_def vector_cipher_def fill_def xor.assoc intro!: nth_equalityI)

lemma vector_cipher_vector: "fill 16 (vector_cipher kMasterKey (kMasterSalt @ [0, 0])) = kExpectedSessionEncrKey"
  by code_simp

lemma working_opus_works: "opus_works working_opus"
  by (simp add: opus_works_def working_opus_def MaxPacketBytes_def FrameSamples_val)

lemma working_opus_within: "opus_within working_opus"
  by (simp add: opus_within_def working_opus_def)

lemma first_byte_mac: "12 < length bs \<Longrightarrow> ComputeAuthTag (\<lambda>k m i. m ! 12) k bs roc = replicate 10 (bs ! 12)"
  by (simp add: ComputeAuthTag_def kAuthTagSize_def fill_def map_replicate_const nth_append)

lemma first_byte_mac_separates: "mac_separates enc (\<lambda>k m i. m ! 12)"
proof -
  have off: "payload_offset st_rtp_bytes = 12" "length st_rtp_bytes = 28"
    by (simp_all add: payload_offset_def st_rtp_bytes_def)
  show ?thesis
    by (auto simp: mac_separates_def srtp_encrypt_eq off Let_def srtp_cipher_def first_byte_mac replicate_eq_replicate xor_1_neq)
qed

lemma sample_long_signature: "long_signature (sample_call rnd now) k"
  by (simp add: long_signature_def sample_call_def Let_def replicate_numeral_Cons)

text \<open>What the tampered sample decrypts to under this cipher differs in its last byte, which is the hash.\<close>

lemma working_hash_separates: "hash_separates (\<lambda>m i. last m) vector_cipher vector_cipher (\<lambda>i. 0)"
proof -
  let ?sha = "\<lambda>m i. last m" and ?x = "DirectionOffset True True" and ?inner = "[4, 0, 1, 9] @ replicate 28 0 :: bytes"
  let ?c = "[39, 35, 34, 42] @ replicate 28 35 :: bytes" and ?b = "[4, 0, 1, 9] @ replicate 27 0 @ [1] :: bytes"
  have r: "relay_inner (\<lambda>i. 0) [1, 9, 0, 0] = ?inner" by code_simp
  have m: "relay_msg_key ?sha st_key ?x ?inner = replicate 16 0" "relay_msg_key ?sha st_key ?x ?b = replicate 16 1"
    by (simp_all add: relay_msg_key_def fill_def map_replicate_const)
  have "last (take 36 st_key) = 35" by code_simp
  moreover have "take 36 st_key \<noteq> []" by (simp add: st_key_def)
  ultimately have k: "Kdf2 ?sha st_key (replicate 16 0) ?x
      = (replicate 8 35 @ replicate 16 0 @ replicate 8 35, replicate 8 0 @ replicate 16 35 @ replicate 8 0)"
    by (simp add: Kdf2_def DirectionOffset_def fill_def map_replicate_const)
  have "EncryptIge vector_cipher (replicate 8 35 @ replicate 16 0 @ replicate 8 35)
      (replicate 8 0 @ replicate 16 35 @ replicate 8 0) ?inner = Some ?c"
    "DecryptIge vector_cipher (replicate 8 35 @ replicate 16 0 @ replicate 8 35)
      (replicate 8 0 @ replicate 16 35 @ replicate 8 0) (last_flipped ?c) = Some ?b"
    by code_simp+
  then show ?thesis
    unfolding hash_separates_def r Let_def m(1) k using m(2) by auto
qed

theorem self_test_passes_witness:
  "\<exists>rows. RunAll working_platform = Some rows \<and> length rows = 14 \<and> list_all st_Passed rows"
  by (rule self_test_passes [where k = 7 and ?cc1.0 = "sample_call [1, 2, 3, 4, 5, 6, 7, 8] 0"
        and ?cc2.0 = "sample_call [1, 2, 3, 4, 5, 6, 7, 8] 0" and ?cc3.0 = "sample_call [1, 2, 3, 4, 5, 6, 7, 8] 0"])
    (simp_all add: working_platform_def busy_engine_def working_opus_works vector_cipher_ok vector_cipher_vector
      working_hash_separates first_byte_mac_separates sample_call_ok sample_long_signature)

text \<open>On the same platform with the audio parts missing.\<close>

theorem self_test_reports_witness:
  "\<exists>rows. RunAll (working_platform\<lparr>se_available := False\<rparr>) = Some rows \<and> length rows = 14
     \<and> list_all (\<lambda>i. st_Passed (rows ! i)) [0, 2, 3, 4, 6, 7, 8, 9]"
  by (rule self_test_reports) (simp add: working_platform_def working_opus_within)

end
