(* ===== verification/Spec2Isabelle.thy ===== *)
theory Spec2Isabelle
  imports RtpPacket StreamData ControlPacket ReflectorPacket VoipTypes JitterBuffer MediaSession
    PacketCrypto Srtp SignalingEnvelope IceAgent DtlsInterop ReflectorTransport AudioRuntime
    CallProperties VoicePath VoipEngine VoipApi SelfTest
begin

text \<open>
  A verification library of \<^bold>\<open>VianiumVoIP\<close>, the voice call core of a Telegram client: the C++ under
  \<open>src/voip/src\<close> and the small DLL under \<open>src/tgcalls/src\<close>. This theory only collects the others; paths
  below are relative to \<open>src/voip/src\<close>.

  \<^bold>\<open>The program.\<close> A managed application drives \<open>VoipRuntime\<close> (\<open>api/v1/voip_api.cpp\<close>). Behind it one
  \<open>VoipEngine\<close> (\<open>application/voip_engine.cpp\<close>) keeps the calls: it makes the Diffie-Hellman key of a call with
  the server's messages, and starts the media on one of two paths chosen by the library versions of the call.
  \<^item> The classic path (layer 92) probes the relays of the call in order, runs the INIT / INIT_ACK handshake with
    encrypted packets, and then two loops move Opus frames: capture to relay and relay to jitter buffer to speaker.
  \<^item> The tgcalls path gives the call to a \<open>TgcallsConnection\<close> (\<open>application/tgcalls_connection.cpp\<close>): signaling
    messages are serialized to JSON, framed and encrypted under the call's key; ICE checks go over the reflectors
    and TURN servers; a DTLS 1.2 handshake gives the SRTP keys; RTP packets then carry Opus frames. Without a usable
    relay the call goes to a media graph behind a C ABI (\<open>infrastructure/dynamic_tgcalls_media_graph.cpp\<close>).

  \<^bold>\<open>How the code is modelled.\<close> A C++ object is a record with the fields of the class, a method a function from
  its arguments and the state to its result and the new state, a handler called by a socket or a timer one step.
  What another thread does while a method has released its lock is an explicit list argument (\<open>call_event\<close>,
  \<open>mid\<close>), what the outside answers an environment record (\<open>hs_turn\<close>, \<open>candidate_env\<close>, \<open>audio_env\<close>, ...). Fixed
  width integers that wrap are words; \<open>int\<close> fields that only carry a value are \<open>int\<close>. A read of a buffer is checked:
  \<^const>\<open>None\<close> is the undefined behaviour of a read outside, and the decoders are proved never to give it; errors the
  code returns are \<open>Inl\<close>, a \<open>VoipError\<close> or an inner \<^const>\<open>None\<close>. Traces and logs are left out throughout.

  \<^bold>\<open>Theories.\<close>
  \<^item> \<open>Prelude\<close>: bytes, checked reads, big and little endian integers, the named collections \<open>codec_simps\<close>,
    \<open>read_simps\<close> and \<open>inv_rules\<close>. \<open>Decimal\<close>, \<open>Float64\<close>: the library functions on text and the binary64 arithmetic
    the code uses. \<open>Primitives\<close>: the cryptography that is a parameter. \<open>Interfaces\<close>: the locales below.
  \<^item> Packets of the relay (\<open>domain/voip_*_packet.*\<close>): \<open>RtpPacket\<close>, \<open>StreamData\<close>, \<open>ControlPacket\<close>,
    \<open>ReflectorPacket\<close>, and their encryption \<open>PacketCrypto\<close>.
  \<^item> \<open>VoipTypes\<close>, \<open>MediaSession\<close>, \<open>JitterBuffer\<close> (\<open>domain/\<close>): errors and endpoints, the session state machine
    with its graph of allowed edges, the playout buffer.
  \<^item> Signaling (\<open>domain/tgcalls_signaling_*\<close>): \<open>Json\<close> and \<open>SignalingMessages\<close> (text), \<open>ChannelFrames\<close>,
    \<open>SignalingCodec\<close> (encryption), \<open>SignalingEnvelope\<close> (the stack of all of them).
  \<^item> SRTP (\<open>infrastructure/srtp/\<close>): \<open>AesCtr\<close> and \<open>Srtp\<close>, key derivation and packets.
  \<^item> ICE (\<open>infrastructure/ice/\<close>, \<open>application/ice_agent.cpp\<close>): \<open>Crc32\<close>, \<open>Stun\<close>, \<open>IceCandidate\<close>, \<open>IceAgent\<close>.
  \<^item> TURN (\<open>infrastructure/turn/\<close>): \<open>Md5\<close>, \<open>TurnMessage\<close>, \<open>TurnAddressText\<close>, \<open>TurnClient\<close>.
  \<^item> DTLS (\<open>infrastructure/dtls/\<close>, \<open>application/dtls_client_session.cpp\<close>, \<open>infrastructure/ecdsa_p256_keypair.cpp\<close>):
    \<open>DtlsRecord\<close>, \<open>DtlsMessages\<close>, \<open>DerCertificate\<close>, \<open>DtlsSession\<close>, and in \<open>DtlsInterop\<close> the handshake
    against a server computed on its own, by the code's transcript rules and by those of the standard.
  \<^item> The engine: \<open>KeyExchange\<close> (call table and keys), \<open>ControlHandshake\<close>, \<open>RelayMedia\<close> (the two loops),
    \<open>EngineRouting\<close>, \<open>VoipEngine\<close> (starting, stopping, observing).
  \<^item> The platform side (\<open>infrastructure/\<close>): \<open>ReflectorTransport\<close> (sockets), \<open>AudioRuntime\<close> (audio device and
    Opus wrapper), \<open>MediaGraph\<close> (the DLL and its client).
  \<^item> \<open>TgcallsConnection\<close>, with its invariant in \<open>ConnectionProps\<close> and what it means for a call and for the
    voice in \<open>CallProperties\<close> and \<open>VoicePath\<close>.
  \<^item> \<open>VoipApi\<close> and \<open>SelfTest\<close>: the public API and the self test it offers.

  \<^bold>\<open>Interfaces.\<close> \<open>wire_codec\<close> (RTP, control, stream data), \<open>framed_codec\<close> (DTLS records), \<open>ordered_map\<close> (the slots
  of the jitter buffer), \<open>stream_cipher\<close> (the two counter modes), \<open>reactive\<close> and its extension \<open>monotone_reactive\<close>
  (every object with an invariant: session, jitter buffer, call table, relay media, ICE agent, TURN client, DTLS
  client, sockets, audio device, media graph, connection). Each is interpreted on the model of its provider.

  \<^bold>\<open>What the lemmas show.\<close> For each codec: encoding and decoding are inverse, decoding never reads outside the
  datagram, and the layout on the wire. For each stateful object: an invariant that every method keeps, so that it
  holds after any sequence of calls and events. For each cryptographic wrapper: decryption undoes encryption for any
  cipher, and nothing is accepted without its authentication tag. For each protocol: two ends that run this code
  (ICE, the relay handshake, signaling, key exchange) reach the connected state with the same keys, and what makes
  them fail; the DTLS client agrees on the keys with a server that hashes the handshake by the rules of this code, and
  is proved to refuse one that follows RFC 6347 and RFC 7627; the TURN client gets no allocation from a server that
  follows RFC 5389. For the calls as a whole: which datagrams are played, when a call is given up, which of its parts
  stopping releases (the TURN clients are not among them, and signaling can make a new ICE agent), that a frame
  captured at one end is queued for the speaker at the other. Where the code does not do what it means to, the theorem
  states what it does (packets that silence a peer, a mute that is lost, an identity whose fingerprint is not that of
  its certificate).

  \<^bold>\<open>Bounds.\<close> The loops are structural recursions or functions with a measure, but for three: the JSON parser has
  fuel \<open>2 * length s + 2\<close>, and being cut off is an outcome of its own, proved never to occur when the fuel is more than
  twice the length; the loop over the messages of a datagram has its length as fuel, since every message takes at least
  one byte; the loops that wait for the network (handshake, TURN, draining) run over the list of their turns, one per
  wait of the code. The ICE timer is followed through its 20 periods and the one after. Vectors are shorter than the
  range of \<open>size_t\<close> and of the length fields they are written to where a property says so.

  \<^bold>\<open>Parameters.\<close> Code outside these sources: SHA-1, SHA-256, HMAC-SHA1, the AES block, AES-GCM, the TLS PRF, ECDH,
  big numbers, the key store and its signatures, random bytes, clocks, sockets, the audio endpoints, the Opus library,
  the host names of the machine, the loaded DLL, the text conversions of Windows. They are arguments of the definitions;
  what is relied on is a named hypothesis (\<open>block_cipher_ok\<close>, \<open>bignum_ok\<close>, \<open>platform_ok\<close>, \<open>frame_lib_ok\<close>,
  \<open>utf8_documented\<close>, ...) with a concrete instance in the witnesses.

  \<^bold>\<open>Not modelled.\<close> The interface headers \<open>ports/\<close> (they declare the methods that are modelled on the classes that
  implement them) and \<open>internal/voip_log.h\<close> (output only); threads, locks and the order of wakeups within the platform
  (a step is what one thread does between two points where others may run); object lifetimes and \<open>FreeLibrary\<close>;
  the projection of the classes to the Windows runtime (reference counting, asynchronous operations, events); sleeping
  and real time. \<open>third_party\<close> (Opus and libtgvoip) is vendored code of other projects.
\<close>

end
